(* ===== verification/Prelude.thy ===== *)
theory Prelude
  imports Main "HOL-Library.Word"
begin

text \<open>
  Shared vocabulary of the development: the machine integers of the Go code, its
  error values (with run-time panics as values of the same type), Go's truncating
  integer division, slice accesses that panic out of range, and the collections of
  rewrite rules that the component theories fill.
\<close>

section \<open>Collections\<close>

named_theorems codec_step "one decoding step undoes one encoding step"
named_theorems codec_len "lengths of encodings"
named_theorems slice_simps "bounds-checked slice access"

section \<open>Machine integers and errors\<close>

type_synonym u8 = "8 word"
type_synonym u16 = "16 word"
type_synonym u32 = "32 word"
type_synonym u64 = "64 word"
type_synonym bytes = "u8 list"

text \<open>
  Go returns an error value beside its result; a function that would panic at run
  time returns \<open>Panic\<close> here, so that no partial HOL function hides a crash.
\<close>

datatype go_error = EOF | UnexpectedEOF | ErrText string | Panic string

type_synonym 'a result = "go_error + 'a"

definition is_panic :: "go_error \<Rightarrow> bool" where
  "is_panic e = (case e of Panic _ \<Rightarrow> True | _ \<Rightarrow> False)"

section \<open>Go integer division\<close>

text \<open>Go's \<open>/\<close> and \<open>%\<close> truncate towards zero.\<close>

definition go_div :: "int \<Rightarrow> int \<Rightarrow> int" where
  "go_div a b = sgn a * sgn b * (\<bar>a\<bar> div \<bar>b\<bar>)"

definition go_rem :: "int \<Rightarrow> int \<Rightarrow> int" where
  "go_rem a b = a - b * go_div a b"

lemma go_div_nonneg [simp]: "0 \<le> a \<Longrightarrow> 0 < b \<Longrightarrow> go_div a b = a div b"
  by (cases "a = 0") (simp_all add: go_div_def)

lemma go_rem_nonneg [simp]: "0 \<le> a \<Longrightarrow> 0 < b \<Longrightarrow> go_rem a b = a mod b"
  by (simp add: go_rem_def minus_mult_div_eq_mod)

lemma go_rem_abs_less: "0 < b \<Longrightarrow> \<bar>go_rem a b\<bar> < b"
proof -
  assume b: "0 < b"
  show ?thesis
  proof (cases "0 \<le> a")
    case True
    with b show ?thesis by simp
  next
    case False
    have "b * ((- a) div b) = - a - (- a) mod b"
      by (rule minus_mod_eq_mult_div [symmetric])
    with False b have "go_rem a b = - ((- a) mod b)"
      by (simp add: go_rem_def go_div_def)
    moreover have "0 \<le> (- a) mod b" "(- a) mod b < b" using b by simp_all
    ultimately show ?thesis by simp
  qed
qed

section \<open>Bounds-checked slices\<close>

text \<open>
  \<open>xs[i]\<close> and \<open>xs[i] = v\<close> of Go with an \<open>int\<close> index: \<open>None\<close> is the run-time
  panic "index out of range".
\<close>

definition idx :: "'a list \<Rightarrow> int \<Rightarrow> 'a option" where
  "idx xs i = (if 0 \<le> i \<and> i < int (length xs) then Some (xs ! nat i) else None)"

definition upd :: "'a list \<Rightarrow> int \<Rightarrow> 'a \<Rightarrow> 'a list option" where
  "upd xs i v = (if 0 \<le> i \<and> i < int (length xs) then Some (xs[nat i := v]) else None)"

lemma idx_Some_iff [slice_simps]:
  "idx xs i = Some x \<longleftrightarrow> 0 \<le> i \<and> i < int (length xs) \<and> xs ! nat i = x"
  by (auto simp: idx_def)

lemma idx_None_iff [slice_simps]: "idx xs i = None \<longleftrightarrow> i < 0 \<or> int (length xs) \<le> i"
  by (auto simp: idx_def)

lemma upd_Some_iff [slice_simps]:
  "upd xs i v = Some ys \<longleftrightarrow> 0 \<le> i \<and> i < int (length xs) \<and> ys = xs[nat i := v]"
  by (auto simp: upd_def)

lemma upd_None_iff [slice_simps]: "upd xs i v = None \<longleftrightarrow> i < 0 \<or> int (length xs) \<le> i"
  by (auto simp: upd_def)

lemma idx_upd: "upd xs i v = Some ys \<Longrightarrow> idx ys j = (if j = i then Some v else idx xs j)"
  by (auto simp: upd_def idx_def nth_list_update nat_eq_iff split: if_splits)

lemma length_upd: "upd xs i v = Some ys \<Longrightarrow> length ys = length xs"
  by (auto simp: upd_def split: if_splits)

lemma idx_set: "idx xs i = Some x \<Longrightarrow> x \<in> set xs"
  by (auto simp: idx_def split: if_splits)

section \<open>List lemmas\<close>

lemma distinct_map_filter: "distinct (map f xs) \<Longrightarrow> distinct (map f (filter P xs))"
  by (induction xs) auto

lemma distinct_map_eqD: "distinct (map f xs) \<Longrightarrow> x \<in> set xs \<Longrightarrow> y \<in> set xs \<Longrightarrow> f x = f y \<Longrightarrow> x = y"
  by (auto simp: distinct_map inj_on_def)

lemma length_filter_mono:
  "(\<And>y. y \<in> set xs \<Longrightarrow> Q y \<Longrightarrow> P y) \<Longrightarrow> length (filter Q xs) \<le> length (filter P xs)"
proof (induction xs)
  case Nil
  then show ?case by simp
next
  case (Cons a xs)
  then have "length (filter Q xs) \<le> length (filter P xs)" by simp
  with Cons.prems [of a] show ?case by auto
qed

lemma length_filter_less_if:
  "x \<in> set xs \<Longrightarrow> P x \<Longrightarrow> (\<And>y. y \<in> set xs \<Longrightarrow> Q y \<Longrightarrow> P y) \<Longrightarrow> \<not> Q x \<Longrightarrow>
    length (filter Q xs) < length (filter P xs)"
proof (induction xs)
  case Nil
  then show ?case by simp
next
  case (Cons a xs)
  show ?case
  proof (cases "a = x")
    case True
    with Cons.prems length_filter_mono [of xs Q P] show ?thesis by simp
  next
    case False
    with Cons have "length (filter Q xs) < length (filter P xs)" by auto
    with Cons.prems(3) [of a] show ?thesis by auto
  qed
qed

lemma sum_list_filter_length: "length (filter P xs) = sum_list (map (\<lambda>x. if P x then 1 else 0) xs)"
  by (induction xs) auto

end
