(* ===== verification/Errors.thy ===== *)
theory Errors
  imports Prelude
begin

text \<open>
  The error codes of \<^verbatim>\<open>error_code.go\<close>, integers with named constants as in the
  source, and the error values of \<^verbatim>\<open>error.go\<close>.
\<close>

section \<open>Codes\<close>

type_synonym ErrorCode = int

definition NoError :: ErrorCode where "NoError = 0"
definition ServerConnUnsupportedPacket :: ErrorCode where "ServerConnUnsupportedPacket = 1"
definition PeerConnUnsupportedPacket :: ErrorCode where "PeerConnUnsupportedPacket = 2"
definition PacketHeaderUndefined :: ErrorCode where "PacketHeaderUndefined = 3"
definition InflateError :: ErrorCode where "InflateError = 4"
definition PacketSizeIncorrect :: ErrorCode where "PacketSizeIncorrect = 5"
definition PacketSizeOverflow :: ErrorCode where "PacketSizeOverflow = 6"
definition ServerMetHeaderIncorrect :: ErrorCode where "ServerMetHeaderIncorrect = 7"
definition GenericInstantiationError :: ErrorCode where "GenericInstantiationError = 8"
definition GenericIllegalAccess :: ErrorCode where "GenericIllegalAccess = 9"
definition EndOfStream :: ErrorCode where "EndOfStream = 10"
definition IOException :: ErrorCode where "IOException = 11"
definition NoTransfer :: ErrorCode where "NoTransfer = 12"
definition FileNotFound :: ErrorCode where "FileNotFound = 13"
definition OutOfParts :: ErrorCode where "OutOfParts = 14"
definition ConnectionTimeout :: ErrorCode where "ConnectionTimeout = 15"
definition ChannelClosed :: ErrorCode where "ChannelClosed = 16"
definition QueueRankingCode :: ErrorCode where "QueueRankingCode = 17"
definition FileIOError :: ErrorCode where "FileIOError = 18"
definition UnableToDeleteFile :: ErrorCode where "UnableToDeleteFile = 19"
definition InternalError :: ErrorCode where "InternalError = 20"
definition BufferUnderflowException :: ErrorCode where "BufferUnderflowException = 21"
definition BufferGetException :: ErrorCode where "BufferGetException = 22"
definition WrongHashSet :: ErrorCode where "WrongHashSet = 23"
definition HashMismatch :: ErrorCode where "HashMismatch = 24"
definition NonWriteableChannel :: ErrorCode where "NonWriteableChannel = 25"
definition TagTypeUnknown :: ErrorCode where "TagTypeUnknown = 30"
definition TagToStringInvalid :: ErrorCode where "TagToStringInvalid = 31"
definition TagToIntInvalid :: ErrorCode where "TagToIntInvalid = 32"
definition TagToLongInvalid :: ErrorCode where "TagToLongInvalid = 33"
definition TagToFloatInvalid :: ErrorCode where "TagToFloatInvalid = 34"
definition TagToHashInvalid :: ErrorCode where "TagToHashInvalid = 35"
definition TagFromStringInvalidCP :: ErrorCode where "TagFromStringInvalidCP = 36"
definition TagToBlobInvalid :: ErrorCode where "TagToBlobInvalid = 37"
definition TagToBSOBInvalid :: ErrorCode where "TagToBSOBInvalid = 38"
definition DuplicatePeer :: ErrorCode where "DuplicatePeer = 40"
definition DuplicatePeerConnection :: ErrorCode where "DuplicatePeerConnection = 41"
definition PeerLimitExceeded :: ErrorCode where "PeerLimitExceeded = 42"
definition SecurityException :: ErrorCode where "SecurityException = 43"
definition UnsupportedEncoding :: ErrorCode where "UnsupportedEncoding = 44"
definition IllegalArgument :: ErrorCode where "IllegalArgument = 45"
definition TransferFinished :: ErrorCode where "TransferFinished = 50"
definition TransferPaused :: ErrorCode where "TransferPaused = 51"
definition TransferAborted :: ErrorCode where "TransferAborted = 52"
definition NoMemory :: ErrorCode where "NoMemory = 60"
definition SessionStopping :: ErrorCode where "SessionStopping = 61"
definition IncomingDirInaccessible :: ErrorCode where "IncomingDirInaccessible = 62"
definition BufferTooLarge :: ErrorCode where "BufferTooLarge = 63"
definition NotConnected :: ErrorCode where "NotConnected = 64"
definition Interrupted :: ErrorCode where "Interrupted = 65"
definition PortMappingAlreadyMapped :: ErrorCode where "PortMappingAlreadyMapped = 70"
definition PortMappingNoDevice :: ErrorCode where "PortMappingNoDevice = 71"
definition PortMappingError :: ErrorCode where "PortMappingError = 72"
definition PortMappingIOError :: ErrorCode where "PortMappingIOError = 73"
definition PortMappingSAXError :: ErrorCode where "PortMappingSAXError = 74"
definition PortMappingConfigError :: ErrorCode where "PortMappingConfigError = 75"
definition PortMappingException :: ErrorCode where "PortMappingException = 76"
definition PortMappingCommandRejected :: ErrorCode where "PortMappingCommandRejected = 77"
definition DHTRequestAlreadyRunning :: ErrorCode where "DHTRequestAlreadyRunning = 80"
definition DHTTrackerAborted :: ErrorCode where "DHTTrackerAborted = 81"
definition LinkMailformed :: ErrorCode where "LinkMailformed = 90"
definition URISyntaxError :: ErrorCode where "URISyntaxError = 91"
definition NumberFormatError :: ErrorCode where "NumberFormatError = 92"
definition UnknownLinkType :: ErrorCode where "UnknownLinkType = 93"
definition GithubCfgIPIsNull :: ErrorCode where "GithubCfgIPIsNull = 94"
definition GithubCfgPortsAreNull :: ErrorCode where "GithubCfgPortsAreNull = 95"
definition GithubCfgPortsAreEmpty :: ErrorCode where "GithubCfgPortsAreEmpty = 96"
definition InvalidPRParameter :: ErrorCode where "InvalidPRParameter = 97"
definition PeerRequestOverflow :: ErrorCode where "PeerRequestOverflow = 98"
definition Fail :: ErrorCode where "Fail = 100"

lemmas ec_numbers =
  NoError_def ServerConnUnsupportedPacket_def PeerConnUnsupportedPacket_def
  PacketHeaderUndefined_def InflateError_def PacketSizeIncorrect_def PacketSizeOverflow_def
  ServerMetHeaderIncorrect_def GenericInstantiationError_def GenericIllegalAccess_def
  EndOfStream_def IOException_def NoTransfer_def FileNotFound_def OutOfParts_def
  ConnectionTimeout_def ChannelClosed_def QueueRankingCode_def FileIOError_def UnableToDeleteFile_def
  InternalError_def BufferUnderflowException_def BufferGetException_def WrongHashSet_def
  HashMismatch_def NonWriteableChannel_def TagTypeUnknown_def TagToStringInvalid_def
  TagToIntInvalid_def TagToLongInvalid_def TagToFloatInvalid_def TagToHashInvalid_def
  TagFromStringInvalidCP_def TagToBlobInvalid_def TagToBSOBInvalid_def DuplicatePeer_def
  DuplicatePeerConnection_def PeerLimitExceeded_def SecurityException_def UnsupportedEncoding_def
  IllegalArgument_def TransferFinished_def TransferPaused_def TransferAborted_def NoMemory_def
  SessionStopping_def IncomingDirInaccessible_def BufferTooLarge_def NotConnected_def
  Interrupted_def PortMappingAlreadyMapped_def PortMappingNoDevice_def PortMappingError_def
  PortMappingIOError_def PortMappingSAXError_def PortMappingConfigError_def
  PortMappingException_def PortMappingCommandRejected_def DHTRequestAlreadyRunning_def
  DHTTrackerAborted_def LinkMailformed_def URISyntaxError_def NumberFormatError_def
  UnknownLinkType_def GithubCfgIPIsNull_def GithubCfgPortsAreNull_def GithubCfgPortsAreEmpty_def
  InvalidPRParameter_def PeerRequestOverflow_def Fail_def

text \<open>The table \<^verbatim>\<open>errorDescriptions\<close>, in the order of the source.\<close>

definition errorDescriptions :: "(ErrorCode \<times> string) list" where
  "errorDescriptions =
    [ (NoError, ''No error''),
      (ServerConnUnsupportedPacket, ''Server unsupported packet''),
      (PeerConnUnsupportedPacket, ''Peer connection unsupported packet''),
      (PacketHeaderUndefined, ''Packet header contains wrong bytes or undefined''),
      (InflateError, ''Inflate error''),
      (PacketSizeIncorrect, ''Packet size less than zero''),
      (PacketSizeOverflow, ''Packet size too big''),
      (ServerMetHeaderIncorrect, ''Server met file contains incorrect header byte''),
      (GenericInstantiationError, ''Generic instantiation error''),
      (GenericIllegalAccess, ''Generic illegal access''),
      (EndOfStream, ''End of stream''),
      (IOException, ''I/O exception''),
      (NoTransfer, ''No transfer''),
      (FileNotFound, ''File not found''),
      (OutOfParts, ''Out of parts''),
      (ConnectionTimeout, ''Connection timeout''),
      (ChannelClosed, ''Channel closed''),
      (QueueRankingCode, ''Queue ranking''),
      (FileIOError, ''File I/O error occured''),
      (UnableToDeleteFile, ''Unable to delete file''),
      (InternalError, ''Internal product error''),
      (BufferUnderflowException, ''Buffer underflow exception''),
      (BufferGetException, ''Buffer get method raised common exception''),
      (WrongHashSet, ''Wrong getHash set''),
      (HashMismatch, ''Hash mismatch''),
      (NonWriteableChannel, ''Non writeable channel ''),
      (TagTypeUnknown, ''Tag type unknown''),
      (TagToStringInvalid, ''Tag to string convertion error''),
      (TagToIntInvalid, ''Tag to int conversion error''),
      (TagToLongInvalid, ''Tag to long conversion error''),
      (TagToFloatInvalid, ''Tag to float conversion error''),
      (TagToHashInvalid, ''Tag to getHash conversion error''),
      (TagFromStringInvalidCP, ''Tag from string creation error invalid code page''),
      (TagToBlobInvalid, ''Tag to blob conversion error''),
      (TagToBSOBInvalid, ''Tag to bsob coversion error''),
      (DuplicatePeer, ''Duplicate peer''),
      (DuplicatePeerConnection, ''Duplicate peer connection''),
      (PeerLimitExceeded, ''Peer limit exeeded''),
      (SecurityException, ''Security exception''),
      (UnsupportedEncoding, ''Unsupported encoding exception''),
      (IllegalArgument, ''Illegal argument''),
      (TransferFinished, ''Transfer finished''),
      (TransferPaused, ''Transfer paused''),
      (TransferAborted, ''Transfer aborted''),
      (NoMemory, ''No memory available''),
      (SessionStopping, ''Session stopping''),
      (IncomingDirInaccessible, ''Incoming directory is inaccessible''),
      (BufferTooLarge, ''Buffer too large''),
      (NotConnected, ''Not connected''),
      (Interrupted, ''Interrupted''),
      (PortMappingAlreadyMapped, ''Port already mapped''),
      (PortMappingNoDevice, ''No gateway device found''),
      (PortMappingError, ''Unable to map port''),
      (PortMappingIOError, ''I/O exception on mapping port''),
      (PortMappingSAXError, ''SAX parsing exception on port mapping''),
      (PortMappingConfigError, ''Configuration exception on port mapping''),
      (PortMappingException, ''Unknown exception on port mapping''),
      (PortMappingCommandRejected, ''Mapping command was rejected''),
      (DHTRequestAlreadyRunning, ''DHT request with the same getHash already in progress''),
      (DHTTrackerAborted, ''DHT tracker was already aborted at the moment''),
      (LinkMailformed, ''Incorrect link format''),
      (URISyntaxError, ''URI has incorrect syntax''),
      (NumberFormatError, ''Parse number exception''),
      (UnknownLinkType, ''Emule link has unrecognized type''),
      (GithubCfgIPIsNull, ''Ip is null in github kad config''),
      (GithubCfgPortsAreNull, ''Ports are null in github kad config''),
      (GithubCfgPortsAreEmpty, ''Ports are empty in github kad config''),
      (InvalidPRParameter, ''Peer request parameters are invalid''),
      (PeerRequestOverflow, ''Peer request has length greater than PIECE_SIZE''),
      (Fail, ''Fail'')]"

definition ec_Description :: "ErrorCode \<Rightarrow> string" where
  "ec_Description e =
     (case map_of errorDescriptions e of Some desc \<Rightarrow> desc | None \<Rightarrow> ''Unknown error'')"

lemma error_codes_distinct: "distinct (map fst errorDescriptions)"
  by (simp add: errorDescriptions_def ec_numbers)

section \<open>Error values\<close>

text \<open>The cause is kept as the text its \<open>Error\<close> method returns; \<open>None\<close> is nil.\<close>

record JED2KError =
  jerr_Cause :: "string option"
  jerr_EC :: ErrorCode

definition NewError :: "ErrorCode \<Rightarrow> JED2KError" where
  "NewError ec = \<lparr>jerr_Cause = None, jerr_EC = ec\<rparr>"

definition WrapError :: "string \<Rightarrow> ErrorCode \<Rightarrow> JED2KError" where
  "WrapError cause ec = \<lparr>jerr_Cause = Some cause, jerr_EC = ec\<rparr>"

definition jerr_Error :: "JED2KError option \<Rightarrow> string" where
  "jerr_Error e =
     (case e of
        None \<Rightarrow> ''<nil>''
      | Some e \<Rightarrow>
          (case jerr_Cause e of
             None \<Rightarrow> ec_Description (jerr_EC e)
           | Some cause \<Rightarrow> cause @ '' '' @ ec_Description (jerr_EC e)))"

text \<open>An operation that fails with \<open>NewError\<close> of a code.\<close>

type_synonym 'a outcome = "JED2KError + 'a"

end
