(* ===== verification/Wire.thy ===== *)
theory Wire
  imports Prelude
begin

text \<open>
  The byte-level reading and writing of \<^verbatim>\<open>protocol/serializable.go\<close>,
  \<^verbatim>\<open>protocol/helpers.go\<close> and \<^verbatim>\<open>protocol/byte_container.go\<close>. A
  \<^verbatim>\<open>*bytes.Reader\<close> is the list of bytes still to read, a \<^verbatim>\<open>*bytes.Buffer\<close>
  the list of bytes written (writes to it never fail). The locales \<open>codec\<close> and
  \<open>sized_codec\<close> are the contract of \<^verbatim>\<open>protocol.Serializable\<close>, which every packet
  of the development interprets.
\<close>

section \<open>Readers\<close>

type_synonym 'a reader = "bytes \<Rightarrow> ('a \<times> bytes) result"

definition rreturn :: "'a \<Rightarrow> 'a reader" where
  "rreturn x src = Inr (x, src)"

definition rfail :: "go_error \<Rightarrow> 'a reader" where
  "rfail e src = Inl e"

text \<open>\<open>if err != nil { return err }\<close> after each read.\<close>

definition rbind :: "'a reader \<Rightarrow> ('a \<Rightarrow> 'b reader) \<Rightarrow> 'b reader" where
  "rbind m k src = (case m src of Inl e \<Rightarrow> Inl e | Inr (x, rest) \<Rightarrow> k x rest)"

lemma rreturn_apply [simp, codec_step]: "rreturn x src = Inr (x, src)"
  by (simp add: rreturn_def)

lemma rfail_apply [simp, codec_step]: "rfail e src = Inl e"
  by (simp add: rfail_def)

lemma rbind_Inr: "m src = Inr (x, rest) \<Longrightarrow> rbind m k src = k x rest"
  by (simp add: rbind_def)

lemma rbind_Inl: "m src = Inl e \<Longrightarrow> rbind m k src = Inl e"
  by (simp add: rbind_def)

lemma rbind_InrE:
  assumes "rbind m k src = Inr (y, rest)"
  obtains x mid where "m src = Inr (x, mid)" and "k x mid = Inr (y, rest)"
  using assms by (auto simp: rbind_def split: sum.splits)

text \<open>A counted loop of reads, \<open>for i := 0; i < count; i++\<close>.\<close>

fun get_n :: "'a reader \<Rightarrow> nat \<Rightarrow> 'a list reader" where
  "get_n get 0 src = Inr ([], src)"
| "get_n get (Suc n) src =
     (case get src of Inl e \<Rightarrow> Inl e
      | Inr (x, rest) \<Rightarrow>
          (case get_n get n rest of Inl e \<Rightarrow> Inl e | Inr (xs, rest') \<Rightarrow> Inr (x # xs, rest')))"

lemma get_n_length: "get_n get n src = Inr (xs, rest) \<Longrightarrow> length xs = n"
  by (induction n arbitrary: src xs rest) (auto split: sum.splits)

section \<open>The Serializable contract\<close>

text \<open>
  What \<^verbatim>\<open>Get\<close> owes to \<^verbatim>\<open>Put\<close>: reading what was written gives the value back and
  leaves the rest of the stream untouched. \<open>wf\<close> says which Go values the wire format can
  carry (lengths that fit their count field, ports below 65536). Buffers are smaller than
  4 GiB (a frame's length is a 32-bit integer): beyond that the \<^verbatim>\<open>uint32\<close> bounds that
  some readers compute from the bytes left would wrap.
\<close>

abbreviation small :: "bytes \<Rightarrow> bool" where
  "small bs \<equiv> length bs < 4294967296"

locale codec =
  fixes get :: "'a reader"
    and put :: "'a \<Rightarrow> bytes"
    and wf :: "'a \<Rightarrow> bool"
  assumes get_put: "wf x \<Longrightarrow> small (put x @ rest) \<Longrightarrow> get (put x @ rest) = Inr (x, rest)"
begin

lemma get_put_exact: "wf x \<Longrightarrow> small (put x) \<Longrightarrow> get (put x) = Inr (x, [])"
  using get_put [of x "[]"] by simp

lemma bind_put [codec_step]: "wf x \<Longrightarrow> small (put x @ rest) \<Longrightarrow> rbind get k (put x @ rest) = k x rest"
  by (rule rbind_Inr) (rule get_put)

lemma bind_put_exact [codec_step]: "wf x \<Longrightarrow> small (put x) \<Longrightarrow> rbind get k (put x) = k x []"
  by (rule rbind_Inr) (rule get_put_exact)

lemma put_prefix_free:
  "wf x \<Longrightarrow> wf y \<Longrightarrow> small (put x @ r) \<Longrightarrow> put x @ r = put y @ s \<Longrightarrow> x = y \<and> r = s"
  by (metis get_put sum.inject(2) prod.inject)

lemma put_inj: "wf x \<Longrightarrow> wf y \<Longrightarrow> small (put x) \<Longrightarrow> put x = put y \<Longrightarrow> x = y"
  using put_prefix_free [of x y "[]" "[]"] by simp

lemma get_n_put:
  "\<forall>x\<in>set xs. wf x \<Longrightarrow> small (concat (map put xs) @ rest) \<Longrightarrow>
     get_n get (length xs) (concat (map put xs) @ rest) = Inr (xs, rest)"
  by (induction xs) (simp_all add: get_put)

lemma bind_get_n_put [codec_step]:
  "n = length xs \<Longrightarrow> \<forall>x\<in>set xs. wf x \<Longrightarrow> small (concat (map put xs) @ rest) \<Longrightarrow>
     rbind (get_n get n) k (concat (map put xs) @ rest) = k xs rest"
  by (simp add: rbind_Inr get_n_put)

lemma bind_get_n_put_exact [codec_step]:
  "n = length xs \<Longrightarrow> \<forall>x\<in>set xs. wf x \<Longrightarrow> small (concat (map put xs)) \<Longrightarrow>
     rbind (get_n get n) k (concat (map put xs)) = k xs []"
  using bind_get_n_put [of n xs "[]" k] by simp

end

text \<open>A packet also reports how many bytes \<^verbatim>\<open>Put\<close> will write.\<close>

locale sized_codec = codec get put wf
  for get :: "'a reader" and put :: "'a \<Rightarrow> bytes" and wf :: "'a \<Rightarrow> bool" +
  fixes bytesCount :: "'a \<Rightarrow> nat"
  assumes length_put: "wf x \<Longrightarrow> length (put x) = bytesCount x"
begin

lemma length_put_len [codec_len]: "wf x \<Longrightarrow> length (put x) = bytesCount x"
  by (rule length_put)

lemma length_concat_put [codec_len]:
  "\<forall>x\<in>set xs. wf x \<Longrightarrow> length (concat (map put xs)) = sum_list (map bytesCount xs)"
  by (induction xs) (simp_all add: length_put)

end

section \<open>Little-endian integers (encoding/binary)\<close>

fun le_enc :: "nat \<Rightarrow> nat \<Rightarrow> bytes" where
  "le_enc 0 n = []"
| "le_enc (Suc k) n = of_nat (n mod 256) # le_enc k (n div 256)"

lemma le_enc_numeral:
  "le_enc (numeral k) n = of_nat (n mod 256) # le_enc (pred_numeral k) (n div 256)"
  by (simp only: numeral_eq_Suc le_enc.simps)

fun le_dec :: "bytes \<Rightarrow> nat" where
  "le_dec [] = 0"
| "le_dec (b # bs) = unat b + 256 * le_dec bs"

lemma length_le_enc [simp]: "length (le_enc k n) = k"
  by (induction k arbitrary: n) simp_all

lemma unat_of_nat_u8: "n < 256 \<Longrightarrow> unat (of_nat n :: u8) = n"
  by (simp add: unat_of_nat take_bit_nat_eq_self)

lemma le_dec_enc: "le_dec (le_enc k n) = n mod 256 ^ k"
proof (induction k arbitrary: n)
  case 0
  then show ?case by simp
next
  case (Suc k)
  have "n mod 256 + 256 * (n div 256 mod 256 ^ k) = n mod (256 * 256 ^ k)"
    by (simp add: mod_mult2_eq)
  with Suc show ?case by (simp add: unat_of_nat_u8)
qed

lemma le_dec_bound: "le_dec bs < 256 ^ length bs"
proof (induction bs)
  case Nil
  then show ?case by simp
next
  case (Cons b bs)
  have "unat b < 256" using unsigned_less [of b, where ?'a = nat] by simp
  with Cons show ?case by simp
qed

lemma le_enc_dec: "le_enc (length bs) (le_dec bs) = bs"
proof (induction bs)
  case Nil
  then show ?case by simp
next
  case (Cons b bs)
  have "unat b < 256" using unsigned_less [of b, where ?'a = nat] by simp
  with Cons show ?case by simp
qed

text \<open>
  \<open>binary.Read\<close> of a fixed-size value reads it with \<open>io.ReadFull\<close>: \<open>EOF\<close> when
  nothing is left, \<open>ErrUnexpectedEOF\<close> on a truncated value.
\<close>

definition readFull :: "nat \<Rightarrow> bytes reader" where
  "readFull k src =
     (if k \<le> length src then Inr (take k src, drop k src)
      else if src = [] then Inl EOF else Inl UnexpectedEOF)"

definition readByte :: "u8 reader" where
  "readByte src = (case src of [] \<Rightarrow> Inl EOF | b # rest \<Rightarrow> Inr (b, rest))"

definition readUInt16 :: "u16 reader" where
  "readUInt16 = rbind (readFull 2) (\<lambda>bs. rreturn (of_nat (le_dec bs)))"

definition ReadUInt32 :: "u32 reader" where
  "ReadUInt32 = rbind (readFull 4) (\<lambda>bs. rreturn (of_nat (le_dec bs)))"

definition readInt32 :: "u32 reader" where
  "readInt32 = rbind (readFull 4) (\<lambda>bs. rreturn (of_nat (le_dec bs)))"

definition readUInt64 :: "u64 reader" where
  "readUInt64 = rbind (readFull 8) (\<lambda>bs. rreturn (of_nat (le_dec bs)))"

definition writeByte :: "u8 \<Rightarrow> bytes" where
  "writeByte b = [b]"

definition writeUInt16 :: "u16 \<Rightarrow> bytes" where
  "writeUInt16 w = le_enc 2 (unat w)"

definition writeUInt32 :: "u32 \<Rightarrow> bytes" where
  "writeUInt32 w = le_enc 4 (unat w)"

definition writeInt32 :: "u32 \<Rightarrow> bytes" where
  "writeInt32 w = le_enc 4 (unat w)"

definition writeUInt64 :: "u64 \<Rightarrow> bytes" where
  "writeUInt64 w = le_enc 8 (unat w)"

text \<open>
  \<open>readBytes\<close> calls \<open>Read\<close> once, not \<open>io.ReadFull\<close>: with fewer bytes left than
  asked for, it returns them followed by the zeros of the fresh buffer, and no error. A
  negative size is the panic of \<open>make\<close>.
\<close>

definition readBytes :: "int \<Rightarrow> bytes reader" where
  "readBytes sz src =
     (if sz = 0 then Inr ([], src)
      else if sz < 0 then Inl (Panic ''makeslice: len out of range'')
      else if src = [] then Inl EOF
      else Inr (take (nat sz) src @ replicate (nat sz - length src) 0, drop (nat sz) src))"

lemma readFull_put [codec_step]:
  "length bs = k \<Longrightarrow> rbind (readFull k) f (bs @ rest) = f bs rest"
  by (simp add: rbind_def readFull_def)

interpretation byte_codec: sized_codec readByte writeByte "\<lambda>_. True" "\<lambda>_. 1"
  by unfold_locales (simp_all add: readByte_def writeByte_def)

lemma of_nat_unat_mod [simp]:
  "of_nat (unat w mod 65536) = (w :: u16)" "of_nat (unat v mod 4294967296) = (v :: u32)"
  "of_nat (unat u mod 18446744073709551616) = (u :: u64)"
  using unsigned_less [of w, where ?'a = nat] unsigned_less [of v, where ?'a = nat]
    unsigned_less [of u, where ?'a = nat]
  by simp_all

interpretation u16_codec: sized_codec readUInt16 writeUInt16 "\<lambda>_. True" "\<lambda>_. 2"
  by unfold_locales
    (simp_all add: readUInt16_def writeUInt16_def codec_step le_dec_enc)

interpretation u32_codec: sized_codec ReadUInt32 writeUInt32 "\<lambda>_. True" "\<lambda>_. 4"
  by unfold_locales
    (simp_all add: ReadUInt32_def writeUInt32_def codec_step le_dec_enc)

interpretation i32_codec: sized_codec readInt32 writeInt32 "\<lambda>_. True" "\<lambda>_. 4"
  by unfold_locales
    (simp_all add: readInt32_def writeInt32_def codec_step le_dec_enc)

interpretation u64_codec: sized_codec readUInt64 writeUInt64 "\<lambda>_. True" "\<lambda>_. 8"
  by unfold_locales
    (simp_all add: readUInt64_def writeUInt64_def codec_step le_dec_enc)

text \<open>Reading exactly the bytes that are there.\<close>

lemma readBytes_exact: "sz = int (length bs) \<Longrightarrow> bs \<noteq> [] \<Longrightarrow> readBytes sz (bs @ rest) = Inr (bs, rest)"
  by (simp add: readBytes_def)

lemma bind_readBytes [codec_step]:
  "sz = int (length bs) \<Longrightarrow> rbind (readBytes sz) k (bs @ rest) = k bs rest"
  by (cases "bs = []") (simp_all add: rbind_def readBytes_exact, simp add: readBytes_def)

lemma bind_readBytes_exact [codec_step]:
  "sz = int (length bs) \<Longrightarrow> rbind (readBytes sz) k bs = k bs []"
  using bind_readBytes [of sz bs k "[]"] by simp

lemma readBytes_length:
  "0 \<le> sz \<Longrightarrow> readBytes sz src = Inr (bs, rest) \<Longrightarrow> int (length bs) = sz"
  by (auto simp: readBytes_def split: if_splits)

lemma readBytes_no_panic: "0 \<le> sz \<Longrightarrow> readBytes sz src = Inl e \<Longrightarrow> \<not> is_panic e"
  by (auto simp: readBytes_def is_panic_def split: if_splits)

section \<open>Byte containers with a 16-bit length\<close>

record ByteContainer16 =
  bc_Value :: bytes

definition get_ByteContainer16 :: "ByteContainer16 reader" where
  "get_ByteContainer16 =
     rbind readUInt16 (\<lambda>sz.
       if 4096 < sz then rfail (ErrText ''buffer too large'')
       else rbind (readBytes (uint sz)) (\<lambda>value. rreturn \<lparr>bc_Value = value\<rparr>))"

definition put_ByteContainer16 :: "ByteContainer16 \<Rightarrow> bytes" where
  "put_ByteContainer16 b = writeUInt16 (of_nat (length (bc_Value b))) @ bc_Value b"

definition bytesCount_ByteContainer16 :: "ByteContainer16 \<Rightarrow> nat" where
  "bytesCount_ByteContainer16 b = 2 + length (bc_Value b)"

definition wf_ByteContainer16 :: "ByteContainer16 \<Rightarrow> bool" where
  "wf_ByteContainer16 b \<longleftrightarrow> length (bc_Value b) \<le> 4096"

lemma uint_of_nat_u16: "n < 65536 \<Longrightarrow> uint (of_nat n :: u16) = int n"
  by (simp add: uint_nat unat_of_nat take_bit_nat_eq_self)

lemma unat_of_nat_u16: "n < 65536 \<Longrightarrow> unat (of_nat n :: u16) = n"
  by (simp add: unat_of_nat take_bit_nat_eq_self)

lemma unat_of_nat_u32: "n < 4294967296 \<Longrightarrow> unat (of_nat n :: u32) = n"
  by (simp add: unat_of_nat take_bit_nat_eq_self)

interpretation bc16_codec:
  sized_codec get_ByteContainer16 put_ByteContainer16 wf_ByteContainer16 bytesCount_ByteContainer16
proof unfold_locales
  fix x :: ByteContainer16 and rest
  assume wf: "wf_ByteContainer16 x" and small: "small (put_ByteContainer16 x @ rest)"
  from wf have "\<not> 4096 < (of_nat (length (bc_Value x)) :: u16)"
    by (simp add: wf_ByteContainer16_def word_less_nat_alt unat_of_nat_u16 not_less)
  with wf small show "get_ByteContainer16 (put_ByteContainer16 x @ rest) = Inr (x, rest)"
    by (simp add: get_ByteContainer16_def put_ByteContainer16_def wf_ByteContainer16_def
        codec_step codec_len uint_of_nat_u16)
next
  fix x :: ByteContainer16
  show "length (put_ByteContainer16 x) = bytesCount_ByteContainer16 x"
    by (simp add: put_ByteContainer16_def bytesCount_ByteContainer16_def codec_len)
qed

end
