(* ===== verification/MD4.thy ===== *)
theory MD4
  imports Wire
begin

unbundle bit_operations_syntax

text \<open>
  The MD4 digest of \<^verbatim>\<open>protocol/md4.go\<close>, on 32-bit words that wrap as Go's
  \<^verbatim>\<open>uint32\<close> does: the padding loop, the block loop and its forty-eight steps, in groups
  of four as the source writes them.
\<close>

section \<open>Round functions\<close>

definition rol :: "u32 \<Rightarrow> nat \<Rightarrow> u32" where
  "rol x s = push_bit s x OR drop_bit (32 - s) x"

definition md4_ff :: "u32 \<Rightarrow> u32 \<Rightarrow> u32 \<Rightarrow> u32 \<Rightarrow> u32 \<Rightarrow> nat \<Rightarrow> u32" where
  "md4_ff a b c d x s = rol (a + ((b AND c) OR (NOT b AND d)) + x) s"

definition md4_gg :: "u32 \<Rightarrow> u32 \<Rightarrow> u32 \<Rightarrow> u32 \<Rightarrow> u32 \<Rightarrow> nat \<Rightarrow> u32" where
  "md4_gg a b c d x s = rol (a + ((b AND c) OR (b AND d) OR (c AND d)) + x + 0x5a827999) s"

definition md4_hh :: "u32 \<Rightarrow> u32 \<Rightarrow> u32 \<Rightarrow> u32 \<Rightarrow> u32 \<Rightarrow> nat \<Rightarrow> u32" where
  "md4_hh a b c d x s = rol (a + (b XOR c XOR d) + x + 0x6ed9eba1) s"

type_synonym md4_state = "u32 \<times> u32 \<times> u32 \<times> u32"

text \<open>Four consecutive assignments to \<open>a\<close>, \<open>d\<close>, \<open>c\<close> and \<open>b\<close>.\<close>

definition md4_quad ::
  "(u32 \<Rightarrow> u32 \<Rightarrow> u32 \<Rightarrow> u32 \<Rightarrow> u32 \<Rightarrow> nat \<Rightarrow> u32) \<Rightarrow> nat \<Rightarrow> nat \<Rightarrow> nat \<Rightarrow> nat \<Rightarrow>
   u32 \<Rightarrow> u32 \<Rightarrow> u32 \<Rightarrow> u32 \<Rightarrow> md4_state \<Rightarrow> md4_state" where
  "md4_quad f s0 s1 s2 s3 x0 x1 x2 x3 st =
     (case st of (a, b, c, d) \<Rightarrow>
       (let a = f a b c d x0 s0;
            d = f d a b c x1 s1;
            c = f c d a b x2 s2;
            b = f b c d a x3 s3
        in (a, b, c, d)))"

definition md4_round1 :: "u32 list \<Rightarrow> md4_state \<Rightarrow> md4_state" where
  "md4_round1 x st =
     md4_quad md4_ff 3 7 11 19 (x ! 12) (x ! 13) (x ! 14) (x ! 15)
    (md4_quad md4_ff 3 7 11 19 (x ! 8) (x ! 9) (x ! 10) (x ! 11)
    (md4_quad md4_ff 3 7 11 19 (x ! 4) (x ! 5) (x ! 6) (x ! 7)
    (md4_quad md4_ff 3 7 11 19 (x ! 0) (x ! 1) (x ! 2) (x ! 3) st)))"

definition md4_round2 :: "u32 list \<Rightarrow> md4_state \<Rightarrow> md4_state" where
  "md4_round2 x st =
     md4_quad md4_gg 3 5 9 13 (x ! 3) (x ! 7) (x ! 11) (x ! 15)
    (md4_quad md4_gg 3 5 9 13 (x ! 2) (x ! 6) (x ! 10) (x ! 14)
    (md4_quad md4_gg 3 5 9 13 (x ! 1) (x ! 5) (x ! 9) (x ! 13)
    (md4_quad md4_gg 3 5 9 13 (x ! 0) (x ! 4) (x ! 8) (x ! 12) st)))"

definition md4_round3 :: "u32 list \<Rightarrow> md4_state \<Rightarrow> md4_state" where
  "md4_round3 x st =
     md4_quad md4_hh 3 9 11 15 (x ! 3) (x ! 11) (x ! 7) (x ! 15)
    (md4_quad md4_hh 3 9 11 15 (x ! 1) (x ! 9) (x ! 5) (x ! 13)
    (md4_quad md4_hh 3 9 11 15 (x ! 2) (x ! 10) (x ! 6) (x ! 14)
    (md4_quad md4_hh 3 9 11 15 (x ! 0) (x ! 8) (x ! 4) (x ! 12) st)))"

text \<open>The sixteen little-endian words of a 64-byte block.\<close>

definition md4_words :: "bytes \<Rightarrow> u32 list" where
  "md4_words block = map (\<lambda>j. of_nat (le_dec (take 4 (drop (4 * j) block)))) [0..<16]"

definition md4_block :: "md4_state \<Rightarrow> bytes \<Rightarrow> md4_state" where
  "md4_block st block =
     (case st of (aa, bb, cc, dd) \<Rightarrow>
       (case md4_round3 (md4_words block)
              (md4_round2 (md4_words block) (md4_round1 (md4_words block) st)) of
          (a, b, c, d) \<Rightarrow> (a + aa, b + bb, c + cc, d + dd)))"

function md4_loop :: "md4_state \<Rightarrow> bytes \<Rightarrow> md4_state" where
  "md4_loop st msg =
     (if msg = [] then st else md4_loop (md4_block st (take 64 msg)) (drop 64 msg))"
  by pat_completeness auto
termination
  by (relation "measure (\<lambda>(st, msg). length msg)") auto

declare md4_loop.simps [simp del]

section \<open>Padding and digest\<close>

definition md4_missing :: "nat \<Rightarrow> nat" where
  "md4_missing n = (if n mod 64 \<le> 56 then 56 - n mod 64 else 120 - n mod 64)"

lemma md4_missing_Suc: "n mod 64 \<noteq> 56 \<Longrightarrow> md4_missing (Suc n) < md4_missing n"
proof -
  assume neq: "n mod 64 \<noteq> 56"
  have step: "(if s \<le> 56 then 56 - s else 120 - s) < (if m \<le> 56 then 56 - m else 120 - m)"
    if "m < 64" "m \<noteq> 56" "s = (if m = 63 then 0 else Suc m)" for m s :: nat
    using that by (cases "m = 63"; cases "m \<le> 55") auto
  have "Suc n mod 64 = (if n mod 64 = 63 then 0 else Suc (n mod 64))"
    by (simp add: mod_Suc)
  with neq step [of "n mod 64" "Suc n mod 64"] show ?thesis
    by (simp only: md4_missing_def mod_less_divisor zero_less_numeral if_True simp_thms)
qed

text \<open>\<open>for len(msg)%64 != 56 { msg = append(msg, 0) }\<close>\<close>

function md4_fill :: "bytes \<Rightarrow> bytes" where
  "md4_fill msg = (if length msg mod 64 \<noteq> 56 then md4_fill (msg @ [0]) else msg)"
  by pat_completeness auto
termination
proof (relation "measure (\<lambda>msg. md4_missing (length msg))")
  fix msg :: bytes
  assume "length msg mod 64 \<noteq> 56"
  then show "(msg @ [0], msg) \<in> measure (\<lambda>msg. md4_missing (length msg))"
    using md4_missing_Suc [of "length msg"] by simp
qed simp

declare md4_fill.simps [simp del]

definition md4_pad :: "bytes \<Rightarrow> bytes" where
  "md4_pad data = md4_fill (data @ [0x80]) @ writeUInt64 (of_nat (length data) * 8)"

definition md4_init :: md4_state where
  "md4_init = (0x67452301, 0xefcdab89, 0x98badcfe, 0x10325476)"

definition md4Sum :: "bytes \<Rightarrow> bytes" where
  "md4Sum data =
     (case md4_loop md4_init (md4_pad data) of
        (a, b, c, d) \<Rightarrow> writeUInt32 a @ writeUInt32 b @ writeUInt32 c @ writeUInt32 d)"

section \<open>Properties\<close>

lemma md4_fill_eq: "\<exists>k < 64. md4_fill msg = msg @ replicate k 0 \<and> (length msg + k) mod 64 = 56"
proof (induction msg rule: md4_fill.induct)
  case (1 msg)
  show ?case
  proof (cases "length msg mod 64 = 56")
    case True
    then show ?thesis by (subst md4_fill.simps) (auto intro!: exI [of _ 0])
  next
    case False
    with 1 obtain k where k: "k < 64" "md4_fill (msg @ [0]) = (msg @ [0]) @ replicate k 0"
      "(length (msg @ [0]) + k) mod 64 = 56"
      by auto
    have "Suc k < 64"
    proof (rule ccontr)
      assume "\<not> Suc k < 64"
      with k(1) have "k = 63" by simp
      with k(3) have "(length msg + 64) mod 64 = 56" by simp
      with False show False by simp
    qed
    moreover have "md4_fill msg = msg @ replicate (Suc k) 0"
      using False k(2) by (subst md4_fill.simps) simp
    ultimately show ?thesis using k(3) by (intro exI [of _ "Suc k"]) simp
  qed
qed

lemma md4_pad_shape:
  "\<exists>k < 64. md4_pad data = data @ [0x80] @ replicate k 0 @ writeUInt64 (of_nat (length data) * 8)
     \<and> length (md4_pad data) mod 64 = 0"
proof -
  obtain k where k: "k < 64" "md4_fill (data @ [0x80]) = (data @ [0x80]) @ replicate k 0"
    "(length (data @ [0x80 :: u8]) + k) mod 64 = 56"
    using md4_fill_eq [of "data @ [0x80]"] by auto
  then have "length (md4_pad data) = length (data @ [0x80 :: u8]) + k + 8"
    by (simp add: md4_pad_def writeUInt64_def)
  then have "length (md4_pad data) mod 64 = (length (data @ [0x80 :: u8]) + k + 8) mod 64"
    by (rule arg_cong)
  also have "\<dots> = ((length (data @ [0x80 :: u8]) + k) mod 64 + 8) mod 64"
    by (simp only: mod_add_left_eq)
  also have "\<dots> = 0" by (simp only: k(3)) simp
  finally show ?thesis using k by (auto simp: md4_pad_def)
qed

lemma length_md4Sum [simp]: "length (md4Sum data) = 16"
  by (simp add: md4Sum_def writeUInt32_def split: prod.split)

section \<open>The digest of the empty message\<close>

text \<open>The reference vector of RFC 1320, evaluated four steps at a time.\<close>

lemmas md4_eval = md4_quad_def md4_ff_def md4_gg_def md4_hh_def rol_def

lemma md4_empty_q1:
  "md4_quad md4_ff 3 7 11 19 128 0 0 0 (1732584193, 4023233417, 2562383102, 271733878) =
   (1016, 1947180669, 71743760, 1989804628)"
  by (simp add: md4_eval)

lemma md4_empty_q2:
  "md4_quad md4_ff 3 7 11 19 0 0 0 0 (1016, 1947180669, 71743760, 1989804628) =
   (884269120, 4126090603, 1814806978, 1884148309)"
  by (simp add: md4_eval)

lemma md4_empty_q3:
  "md4_quad md4_ff 3 7 11 19 0 0 0 0 (884269120, 4126090603, 1814806978, 1884148309) =
   (3339033780, 415114118, 2348104092, 3196836782)"
  by (simp add: md4_eval)

lemma md4_empty_q4:
  "md4_quad md4_ff 3 7 11 19 0 0 0 0 (3339033780, 415114118, 2348104092, 3196836782) =
   (2916922115, 912650902, 2397631045, 2760091236)"
  by (simp add: md4_eval)

lemma md4_empty_q5:
  "md4_quad md4_gg 3 5 9 13 128 0 0 0 (2916922115, 912650902, 2397631045, 2760091236) =
   (2047408901, 1724827954, 2562443855, 2917285959)"
  by (simp add: md4_eval)

lemma md4_empty_q6:
  "md4_quad md4_gg 3 5 9 13 0 0 0 0 (2047408901, 1724827954, 2562443855, 2917285959) =
   (196208428, 1024309740, 2655655091, 1678811586)"
  by (simp add: md4_eval)

lemma md4_empty_q7:
  "md4_quad md4_gg 3 5 9 13 0 0 0 0 (196208428, 1024309740, 2655655091, 1678811586) =
   (300455229, 3369615713, 1920930404, 2071339803)"
  by (simp add: md4_eval)

lemma md4_empty_q8:
  "md4_quad md4_gg 3 5 9 13 0 0 0 0 (300455229, 3369615713, 1920930404, 2071339803) =
   (927502783, 1872046894, 3030011310, 169198377)"
  by (simp add: md4_eval)

lemma md4_empty_q9:
  "md4_quad md4_hh 3 9 11 15 128 0 0 0 (927502783, 1872046894, 3030011310, 169198377) =
   (3119062091, 686847677, 447810797, 2891131831)"
  by (simp add: md4_eval)

lemma md4_empty_q10:
  "md4_quad md4_hh 3 9 11 15 0 0 0 0 (3119062091, 686847677, 447810797, 2891131831) =
   (917163678, 3099131919, 1869057482, 832064576)"
  by (simp add: md4_eval)

lemma md4_empty_q11:
  "md4_quad md4_hh 3 9 11 15 0 0 0 0 (917163678, 3099131919, 1869057482, 832064576) =
   (1583078948, 410195891, 3063881537, 4011295827)"
  by (simp add: md4_eval)

lemma md4_empty_q12:
  "md4_quad md4_hh 3 9 11 15 0 0 0 0 (1583078948, 410195891, 3063881537, 4011295827) =
   (2039132976, 1109114696, 1050566585, 2958519402)"
  by (simp add: md4_eval)

lemmas md4_empty_rounds =
  md4_empty_q1 md4_empty_q2 md4_empty_q3 md4_empty_q4 md4_empty_q5 md4_empty_q6
  md4_empty_q7 md4_empty_q8 md4_empty_q9 md4_empty_q10 md4_empty_q11 md4_empty_q12

definition md4_empty_block :: bytes where
  "md4_empty_block = 0x80 # replicate 63 0"

lemma le_enc_zero: "le_enc k 0 = replicate k 0"
  by (induction k) simp_all

lemma md4_pad_empty: "md4_pad [] = md4_empty_block"
proof -
  have "writeUInt64 0 = replicate 8 0"
    by (simp add: writeUInt64_def le_enc_zero)
  moreover have "md4_fill [0x80] = 0x80 # replicate 55 0"
  proof -
    obtain k where k: "k < 64" "md4_fill [0x80] = [0x80] @ replicate k 0" "(1 + k) mod 64 = 56"
      using md4_fill_eq [of "[0x80]"] by auto
    have "k = 55"
    proof (cases "k = 63")
      case True
      with k(3) show ?thesis by simp
    next
      case False
      with k(1) have "(1 + k) mod 64 = 1 + k" by (intro mod_less) simp
      with k(3) show ?thesis by linarith
    qed
    with k(2) show ?thesis by (simp only: append_Cons append_Nil)
  qed
  ultimately have "md4_pad [] = 0x80 # replicate 55 0 @ replicate 8 0"
    by (simp add: md4_pad_def)
  also have "\<dots> = md4_empty_block"
    by (simp only: md4_empty_block_def flip: replicate_add) simp
  finally show ?thesis .
qed

lemma le_dec_zeros [simp]: "le_dec (replicate k 0) = 0"
  by (induction k) simp_all

lemma md4_words_empty: "md4_words md4_empty_block = 0x80 # replicate 15 0"
proof (rule nth_equalityI)
  show "length (md4_words md4_empty_block) = length (0x80 # replicate 15 (0 :: u32))"
    by (simp add: md4_words_def)
next
  fix j
  assume "j < length (md4_words md4_empty_block)"
  then have j: "j < 16" by (simp add: md4_words_def)
  show "md4_words md4_empty_block ! j = (0x80 # replicate 15 0) ! j"
  proof (cases j)
    case 0
    then show ?thesis
      by (simp add: md4_words_def md4_empty_block_def take_Cons')
  next
    case (Suc i)
    with j have "min 4 (63 - (4 * i + 3)) = 4" by simp
    with Suc j show ?thesis
      by (simp add: md4_words_def md4_empty_block_def drop_Cons')
  qed
qed

lemma md4_empty_words_nth:
  "i < 16 \<Longrightarrow> (0x80 # replicate 15 (0 :: u32)) ! i = (if i = 0 then 0x80 else 0)"
  by (simp add: nth_Cons' nth_replicate)

lemma md4_block_empty:
  "md4_block md4_init md4_empty_block = (3771717169, 837380817, 3612949687, 3230253280)"
  by (simp add: md4_block_def md4_words_empty md4_empty_words_nth md4_init_def md4_round1_def
      md4_round2_def md4_round3_def md4_empty_rounds)

lemma md4Sum_empty:
  "md4Sum [] =
     [0x31, 0xD6, 0xCF, 0xE0, 0xD1, 0x6A, 0xE9, 0x31, 0xB7, 0x3C, 0x59, 0xD7, 0xE0, 0xC0, 0x89, 0xC0]"
proof -
  have "md4_loop md4_init md4_empty_block = md4_block md4_init md4_empty_block"
    by (simp add: md4_loop.simps md4_empty_block_def)
  then show ?thesis
    by (simp add: md4Sum_def md4_pad_empty md4_block_empty writeUInt32_def le_enc_numeral)
qed

section \<open>Properties\<close>

text \<open>The digest always has sixteen bytes, its padding fills whole blocks of sixty-four bytes
  that begin with the data and the byte 0x80, and the digest of no data is the published one.\<close>

theorem md4_correct_shape:
  "length (md4Sum data) = 16 \<and> length (md4_pad data) mod 64 = 0 \<and>
   (\<exists>pad. md4_pad data = data @ 0x80 # pad) \<and>
   md4Sum [] = [0x31, 0xd6, 0xcf, 0xe0, 0xd1, 0x6a, 0xe9, 0x31, 0xb7, 0x3c, 0x59, 0xd7, 0xe0, 0xc0, 0x89, 0xc0]"
  using md4_pad_shape [of data] md4Sum_empty by auto

end
