(* ===== verification/Three_Way.thy ===== *)
theory Three_Way
  imports Prelude
begin

text \<open>
  Three-way comparison, the convention of every \<^verbatim>\<open>Compare\<close> method of the program
  (\<^verbatim>\<open>-1\<close>, \<^verbatim>\<open>0\<close>, \<^verbatim>\<open>1\<close>), as an interface: the laws a comparison has to keep for
  the sorted peer list (\<^verbatim>\<open>policy.go\<close>), the routing table and the traversal results
  (\<^verbatim>\<open>kad_routing.go\<close>, \<^verbatim>\<open>kad_traversal.go\<close>) to work, and the binary search of Go's
  \<^verbatim>\<open>slices\<close> and \<^verbatim>\<open>sort\<close> packages with its correctness.
\<close>

section \<open>Binary search\<close>

text \<open>
  The loop of \<open>sort.Search\<close> and \<open>slices.BinarySearchFunc\<close>: the least index in
  \<open>[i, j)\<close> at which the monotone predicate \<open>f\<close> holds, and \<open>j\<close> when there is none.
\<close>

function go_search :: "(nat \<Rightarrow> bool) \<Rightarrow> nat \<Rightarrow> nat \<Rightarrow> nat" where
  "go_search f i j =
     (if i < j then
        (let h = (i + j) div 2
         in if \<not> f h then go_search f (h + 1) j else go_search f i h)
      else i)"
  by pat_completeness auto
termination
  by (relation "measure (\<lambda>(f, i, j). j - i)") auto

declare go_search.simps [simp del]

lemma go_search_bounds: "i \<le> j \<Longrightarrow> i \<le> go_search f i j \<and> go_search f i j \<le> j"
proof (induction f i j rule: go_search.induct)
  case (1 f i j)
  show ?case
  proof (cases "i < j")
    case True
    define h where "h = (i + j) div 2"
    have h: "i \<le> h" "h < j" using True by (auto simp: h_def)
    show ?thesis
      using 1(1) [OF True h_def] 1(2) [OF True h_def] h True
      by (subst (1 2) go_search.simps) (auto simp: Let_def h_def)
  next
    case False
    with 1 show ?thesis by (subst (1 2) go_search.simps) simp
  qed
qed

lemma go_search_spec:
  assumes "i \<le> j" and mono: "\<And>a b. a \<le> b \<Longrightarrow> b < n \<Longrightarrow> f a \<Longrightarrow> f b" and "j \<le> n"
    and "\<And>k. k < i \<Longrightarrow> \<not> f k" and "\<And>k. j \<le> k \<Longrightarrow> k < n \<Longrightarrow> f k"
  shows "(\<forall>k < go_search f i j. \<not> f k) \<and> (\<forall>k. go_search f i j \<le> k \<longrightarrow> k < n \<longrightarrow> f k)"
  using assms(1,3,4,5)
proof (induction "j - i" arbitrary: i j rule: less_induct)
  case less
  show ?case
  proof (cases "i < j")
    case True
    define h where "h = (i + j) div 2"
    have h: "i \<le> h" "h < j" using True by (auto simp: h_def)
    have unfold: "go_search f i j = (if \<not> f h then go_search f (h + 1) j else go_search f i h)"
      using True by (subst go_search.simps) (simp add: Let_def h_def)
    show ?thesis
    proof (cases "f h")
      case True
      have "f k" if "h \<le> k" "k < n" for k
        using mono [OF that True] .
      with less.hyps [of h i] h less.prems True show ?thesis
        by (simp add: unfold)
    next
      case False
      have "\<not> f k" if "k < h + 1" for k
        using mono [of k h] False that h less.prems(2) by auto
      with less.hyps [of j "h + 1"] h less.prems False show ?thesis
        by (simp add: unfold)
    qed
  next
    case False
    with less.prems show ?thesis by (subst (1 2) go_search.simps) simp
  qed
qed

text \<open>
  \<open>slices.BinarySearchFunc(xs, target, cmp)\<close>, where \<open>c x\<close> is \<open>cmp(x, target)\<close>.
\<close>

definition binarySearchFunc :: "('b \<Rightarrow> int) \<Rightarrow> 'b list \<Rightarrow> nat \<times> bool" where
  "binarySearchFunc c xs =
     (let i = go_search (\<lambda>h. \<not> c (xs ! h) < 0) 0 (length xs)
      in (i, i < length xs \<and> c (xs ! i) = 0))"

text \<open>\<open>slices.Insert(xs, i, x)\<close> and \<open>slices.Delete(xs, i, i+1)\<close> at a valid position.\<close>

definition slice_insert :: "'a list \<Rightarrow> nat \<Rightarrow> 'a \<Rightarrow> 'a list" where
  "slice_insert xs i x = take i xs @ x # drop i xs"

definition slice_delete :: "'a list \<Rightarrow> nat \<Rightarrow> 'a list" where
  "slice_delete xs i = take i xs @ drop (Suc i) xs"

lemma length_slice_insert [simp]: "i \<le> length xs \<Longrightarrow> length (slice_insert xs i x) = Suc (length xs)"
  by (simp add: slice_insert_def)

lemma length_slice_delete [simp]: "i < length xs \<Longrightarrow> length (slice_delete xs i) = length xs - 1"
  by (simp add: slice_delete_def)

lemma set_slice_insert [simp]: "set (slice_insert xs i x) = insert x (set xs)"
  by (metis append_take_drop_id list.set(2) set_append slice_insert_def sup_commute
      Un_insert_right)

lemma set_slice_delete_subset: "set (slice_delete xs i) \<subseteq> set xs"
  by (auto simp: slice_delete_def dest: in_set_takeD in_set_dropD)

lemma slice_delete_split: "i < length xs \<Longrightarrow> xs = take i xs @ xs ! i # drop (Suc i) xs"
  by (simp add: id_take_nth_drop)

lemma set_slice_delete: "i < length xs \<Longrightarrow> insert (xs ! i) (set (slice_delete xs i)) = set xs"
  by (metis Un_insert_right list.set(2) set_append slice_delete_def slice_delete_split)

lemma slice_delete_insert: "i \<le> length xs \<Longrightarrow> slice_delete (slice_insert xs i x) i = xs"
  by (simp add: slice_delete_def slice_insert_def)

lemma sorted_wrt_slice_delete: "sorted_wrt R xs \<Longrightarrow> sorted_wrt R (slice_delete xs i)"
proof -
  assume "sorted_wrt R xs"
  then have "sorted_wrt R (take i xs @ drop i xs)" by simp
  then have s: "sorted_wrt R (take i xs)" "sorted_wrt R (drop i xs)"
    "\<forall>x\<in>set (take i xs). \<forall>y\<in>set (drop i xs). R x y"
    by (auto simp only: sorted_wrt_append)
  have sub: "set (drop (Suc i) xs) \<subseteq> set (drop i xs)"
    by (rule set_drop_subset_set_drop) simp
  have "sorted_wrt R (drop 1 (drop i xs))" using s(2) by (rule sorted_wrt_drop)
  then have "sorted_wrt R (drop (Suc i) xs)" by simp
  with s(1,3) sub show ?thesis
    unfolding slice_delete_def sorted_wrt_append by blast
qed

section \<open>The contract of a comparison\<close>

locale three_way =
  fixes cmp :: "'a \<Rightarrow> 'a \<Rightarrow> int"
    and ok :: "'a \<Rightarrow> bool"
  assumes cmp_range: "ok a \<Longrightarrow> ok b \<Longrightarrow> cmp a b = -1 \<or> cmp a b = 0 \<or> cmp a b = 1"
    and cmp_swap: "ok a \<Longrightarrow> ok b \<Longrightarrow> cmp b a = - cmp a b"
    and cmp_eq: "ok a \<Longrightarrow> ok b \<Longrightarrow> cmp a b = 0 \<Longrightarrow> a = b"
    and cmp_trans: "ok a \<Longrightarrow> ok b \<Longrightarrow> ok c \<Longrightarrow> cmp a b < 0 \<Longrightarrow> cmp b c < 0 \<Longrightarrow> cmp a c < 0"
begin

lemma cmp_refl: "ok a \<Longrightarrow> cmp a a = 0"
  using cmp_swap [of a a] by simp

lemma cmp_eq_iff: "ok a \<Longrightarrow> ok b \<Longrightarrow> cmp a b = 0 \<longleftrightarrow> a = b"
  using cmp_eq cmp_refl by blast

lemma cmp_less_not_eq: "ok a \<Longrightarrow> ok b \<Longrightarrow> cmp a b < 0 \<Longrightarrow> a \<noteq> b"
  using cmp_refl by fastforce

lemma cmp_less_le_trans:
  "ok a \<Longrightarrow> ok b \<Longrightarrow> ok c \<Longrightarrow> cmp a b < 0 \<Longrightarrow> \<not> cmp c b < 0 \<Longrightarrow> cmp a c < 0"
  by (metis cmp_eq cmp_range cmp_swap cmp_trans less_minus_one_simps(1) minus_equation_iff
      neg_equal_0_iff_equal)

lemma cmp_total: "ok a \<Longrightarrow> ok b \<Longrightarrow> cmp a b < 0 \<or> a = b \<or> cmp b a < 0"
  by (metis cmp_eq cmp_range cmp_swap less_minus_one_simps(1))

text \<open>Lists sorted by a key, strictly: no two elements compare equal.\<close>

definition csorted :: "('b \<Rightarrow> 'a) \<Rightarrow> 'b list \<Rightarrow> bool" where
  "csorted key xs \<longleftrightarrow> sorted_wrt (\<lambda>x y. cmp (key x) (key y) < 0) xs \<and> (\<forall>x\<in>set xs. ok (key x))"

lemma csorted_nth_less: "csorted key xs \<Longrightarrow> i < j \<Longrightarrow> j < length xs \<Longrightarrow> cmp (key (xs ! i)) (key (xs ! j)) < 0"
  using sorted_wrt_nth_less [of "\<lambda>x y. cmp (key x) (key y) < 0" xs i j]
  by (simp add: csorted_def)

lemma csorted_distinct: "csorted key xs \<Longrightarrow> distinct (map key xs)"
  unfolding csorted_def
proof (induction xs)
  case Nil
  then show ?case by simp
next
  case (Cons x xs)
  then have "key x \<noteq> key y" if "y \<in> set xs" for y
    using cmp_less_not_eq [of "key x" "key y"] that by auto
  then have "key x \<notin> key ` set xs" by blast
  with Cons show ?case by simp
qed

text \<open>What the binary search finds in such a list.\<close>

lemma binarySearch_found:
  assumes s: "csorted key xs" and t: "ok t"
    and r: "binarySearchFunc (\<lambda>x. cmp (key x) t) xs = (i, found)"
  shows "i \<le> length xs" and "found \<longleftrightarrow> t \<in> key ` set xs"
    and "found \<Longrightarrow> i < length xs \<and> key (xs ! i) = t"
    and "\<And>k. k < i \<Longrightarrow> cmp (key (xs ! k)) t < 0"
    and "\<And>k. i \<le> k \<Longrightarrow> k < length xs \<Longrightarrow> \<not> cmp (key (xs ! k)) t < 0"
proof -
  define f where "f = (\<lambda>h. \<not> cmp (key (xs ! h)) t < 0)"
  have i: "i = go_search f 0 (length xs)" and found: "found = (i < length xs \<and> cmp (key (xs ! i)) t = 0)"
    using r by (auto simp: binarySearchFunc_def f_def Let_def)
  have okx: "ok (key (xs ! k))" if "k < length xs" for k
    using s that by (auto simp: csorted_def)
  have mono: "f b" if "a \<le> b" "b < length xs" "f a" for a b
  proof (cases "a = b")
    case False
    with that have ab: "cmp (key (xs ! a)) (key (xs ! b)) < 0"
      using csorted_nth_less [OF s, of a b] by simp
    show ?thesis
      using cmp_trans [OF okx okx t, of a b] ab that f_def by auto
  qed (use that in simp)
  have spec: "(\<forall>k < i. \<not> f k) \<and> (\<forall>k. i \<le> k \<longrightarrow> k < length xs \<longrightarrow> f k)"
    unfolding i using mono by (intro go_search_spec) auto
  show le: "i \<le> length xs" using go_search_bounds [of 0 "length xs" f] i by simp
  show lower: "\<And>k. k < i \<Longrightarrow> cmp (key (xs ! k)) t < 0" using spec by (auto simp: f_def)
  show upper: "\<And>k. i \<le> k \<Longrightarrow> k < length xs \<Longrightarrow> \<not> cmp (key (xs ! k)) t < 0"
    using spec by (auto simp: f_def)
  show at: "found \<Longrightarrow> i < length xs \<and> key (xs ! i) = t"
    using found cmp_eq [OF okx t] by auto
  have "i < length xs \<and> cmp (key (xs ! i)) t = 0" if "t \<in> key ` set xs"
  proof -
    from that obtain k where k: "k < length xs" "key (xs ! k) = t" by (auto simp: in_set_conv_nth)
    with cmp_refl [OF t] have "cmp (key (xs ! k)) t = 0" by simp
    with lower [of k] have "i \<le> k" by force
    moreover have "\<not> i < k"
      using csorted_nth_less [OF s, of i k] upper [of i] k by auto
    ultimately have "i = k" by simp
    with k cmp_refl [OF t] show ?thesis by simp
  qed
  with at found show "found \<longleftrightarrow> t \<in> key ` set xs" by force
qed

text \<open>Inserting at the position the search returns keeps the list sorted.\<close>

lemma csorted_insert:
  assumes s: "csorted key xs" and t: "ok (key x)"
    and r: "binarySearchFunc (\<lambda>y. cmp (key y) (key x)) xs = (i, False)"
  shows "csorted key (slice_insert xs i x)"
proof -
  note b = binarySearch_found [OF s t r]
  have okx: "ok (key y)" if "y \<in> set xs" for y using s that by (auto simp: csorted_def)
  have lower: "cmp (key y) (key x) < 0" if "y \<in> set (take i xs)" for y
    using that b(4) by (auto simp: in_set_conv_nth)
  have upper: "cmp (key x) (key y) < 0" if y: "y \<in> set (drop i xs)" for y
  proof -
    obtain k where k: "k < length xs - i" "y = xs ! (i + k)"
      using y by (auto simp: in_set_conv_nth)
    then have mem: "y \<in> set xs" by simp
    then have "key y \<noteq> key x" using b(2) by (metis image_eqI)
    moreover have "\<not> cmp (key y) (key x) < 0" using b(5) [of "i + k"] k by simp
    ultimately show ?thesis using cmp_total [OF okx [OF mem] t] by auto
  qed
  have "sorted_wrt (\<lambda>x y. cmp (key x) (key y) < 0) (take i xs @ drop i xs)"
    using s by (simp add: csorted_def)
  with lower upper have "sorted_wrt (\<lambda>x y. cmp (key x) (key y) < 0) (slice_insert xs i x)"
    unfolding slice_insert_def sorted_wrt_append
    using cmp_trans okx t by (fastforce dest: in_set_takeD in_set_dropD)
  with s t show ?thesis by (auto simp: csorted_def)
qed

lemma csorted_delete: "csorted key xs \<Longrightarrow> csorted key (slice_delete xs i)"
  using set_slice_delete_subset [of xs i] by (auto simp: csorted_def sorted_wrt_slice_delete)

lemma csorted_update:
  assumes "csorted key xs" and "key y = key (xs ! i)"
  shows "csorted key (xs[i := y])"
proof (cases "i < length xs")
  case True
  have keys: "map key (xs[i := y]) = map key xs"
    using assms True by (simp add: map_update list_update_same_conv)
  have "csorted id (map key xs)"
    using assms(1) by (auto simp: csorted_def sorted_wrt_map)
  then have "csorted id (map key (xs[i := y]))" by (simp only: keys)
  then show ?thesis by (auto simp: csorted_def sorted_wrt_map)
next
  case False
  with assms show ?thesis by (simp add: list_update_beyond)
qed

end

end
