(* ===== verification/Hashes.thy ===== *)
theory Hashes
  imports MD4 Three_Way
begin

text \<open>
  The 16-byte identifiers of \<^verbatim>\<open>protocol/hash.go\<close>: construction, hexadecimal text,
  comparison and the hash of a hash set. A Go \<^verbatim>\<open>Hash\<close> is an array of sixteen bytes; here it
  is a byte list, and \<open>wf_hash\<close> says that it has sixteen.
\<close>

section \<open>Data\<close>

type_synonym hash = bytes

definition hashSize :: nat where
  "hashSize = 16"

definition wf_hash :: "hash \<Rightarrow> bool" where
  "wf_hash h \<longleftrightarrow> length h = 16"

definition Invalid :: hash where
  "Invalid = replicate 16 0"

definition HashFromBytes :: "bytes \<Rightarrow> hash result" where
  "HashFromBytes value =
     (if length value \<noteq> hashSize then Inl (ErrText ''illegal argument'') else Inr value)"

section \<open>Hexadecimal text\<close>

text \<open>\<open>encoding/hex\<close>: decoding takes both cases, and encoding writes upper case here.\<close>

definition hexDigit :: "nat \<Rightarrow> char" where
  "hexDigit n = ''0123456789ABCDEF'' ! n"

definition fromHexChar :: "char \<Rightarrow> nat option" where
  "fromHexChar c =
     (let n = of_char c :: nat
      in if 48 \<le> n \<and> n \<le> 57 then Some (n - 48)
         else if 97 \<le> n \<and> n \<le> 102 then Some (n - 87)
         else if 65 \<le> n \<and> n \<le> 70 then Some (n - 55)
         else None)"

fun hexDecodeString :: "string \<Rightarrow> bytes option" where
  "hexDecodeString [] = Some []"
| "hexDecodeString [c] = None"
| "hexDecodeString (c # d # rest) =
     (case fromHexChar c of None \<Rightarrow> None
      | Some hi \<Rightarrow>
          (case fromHexChar d of None \<Rightarrow> None
           | Some lo \<Rightarrow>
               (case hexDecodeString rest of None \<Rightarrow> None
                | Some bs \<Rightarrow> Some (of_nat (16 * hi + lo) # bs))))"

definition HashFromString :: "string \<Rightarrow> hash result" where
  "HashFromString value =
     (if length value \<noteq> hashSize * 2 then Inl (ErrText ''illegal argument'')
      else (case hexDecodeString value of
              None \<Rightarrow> Inl (ErrText ''illegal argument'')
            | Some raw \<Rightarrow>
                if length raw \<noteq> hashSize then Inl (ErrText ''illegal argument'')
                else HashFromBytes raw))"

definition hash_String :: "hash \<Rightarrow> string" where
  "hash_String h = concat (map (\<lambda>b. [hexDigit (unat b div 16), hexDigit (unat b mod 16)]) h)"

text \<open>\<open>MustHashFromString\<close> panics on an error; the three well-known hashes use it.\<close>

definition MustHashFromString :: "string \<Rightarrow> hash result" where
  "MustHashFromString value =
     (case HashFromString value of Inl e \<Rightarrow> Inl (Panic ''illegal argument'') | Inr h \<Rightarrow> Inr h)"

definition Terminal :: "hash result" where
  "Terminal = MustHashFromString ''31D6CFE0D16AE931B73C59D7E0C089C0''"

definition LibED2K :: "hash result" where
  "LibED2K = MustHashFromString ''31D6CFE0D14CE931B73C59D7E0C04BC0''"

definition EMule :: "hash result" where
  "EMule = MustHashFromString ''31D6CFE0D10EE931B73C59D7E0C06FC0''"

section \<open>Operations\<close>

definition hash_At :: "hash \<Rightarrow> int \<Rightarrow> u8 option" where
  "hash_At h index = idx h index"

definition hash_Set :: "hash \<Rightarrow> int \<Rightarrow> u8 \<Rightarrow> hash option" where
  "hash_Set h index value = upd h index value"

definition hash_Equal :: "hash \<Rightarrow> hash \<Rightarrow> bool" where
  "hash_Equal h other \<longleftrightarrow> h = other"

fun bytesCompare :: "bytes \<Rightarrow> bytes \<Rightarrow> int" where
  "bytesCompare [] [] = 0"
| "bytesCompare [] (b # bs) = -1"
| "bytesCompare (a # as) [] = 1"
| "bytesCompare (a # as) (b # bs) =
     (if a < b then -1 else if b < a then 1 else bytesCompare as bs)"

definition hash_Compare :: "hash \<Rightarrow> hash \<Rightarrow> int" where
  "hash_Compare h other = bytesCompare h other"

definition hash_IsZero :: "hash \<Rightarrow> bool" where
  "hash_IsZero h \<longleftrightarrow> hash_Equal h Invalid"

text \<open>\<open>RandomHash\<close>: \<open>source\<close> is what the system's random source delivers.\<close>

definition RandomHash :: "bytes option \<Rightarrow> bool \<Rightarrow> hash result" where
  "RandomHash source eMule =
     (case source of
        None \<Rightarrow> Inl (ErrText ''rand'')
      | Some src \<Rightarrow>
          HashFromBytes (if eMule then (src[5 := 14])[14 := 111] else src))"

definition HashFromData :: "bytes \<Rightarrow> hash result" where
  "HashFromData value = HashFromBytes (md4Sum value)"

definition HashFromHashSet :: "hash list \<Rightarrow> hash" where
  "HashFromHashSet hashes =
     (case hashes of
        [] \<Rightarrow> Invalid
      | [h] \<Rightarrow> h
      | _ \<Rightarrow> (case HashFromBytes (md4Sum (concat hashes)) of Inl e \<Rightarrow> Invalid | Inr h \<Rightarrow> h))"

section \<open>Wire format\<close>

definition ReadHash :: "hash reader" where
  "ReadHash = rbind (readBytes 16) (\<lambda>raw src.
     (case HashFromBytes raw of Inl e \<Rightarrow> Inl e | Inr h \<Rightarrow> Inr (h, src)))"

definition WriteHash :: "hash \<Rightarrow> bytes" where
  "WriteHash h = h"

interpretation hash_codec: sized_codec ReadHash WriteHash wf_hash "\<lambda>_. 16"
  by unfold_locales
    (simp_all add: ReadHash_def WriteHash_def wf_hash_def HashFromBytes_def hashSize_def codec_step)

section \<open>Properties\<close>

lemma wf_hash_Invalid [simp]: "wf_hash Invalid"
  by (simp add: wf_hash_def Invalid_def)

lemma HashFromBytes_wf: "HashFromBytes bs = Inr h \<Longrightarrow> wf_hash h \<and> h = bs"
  by (auto simp: HashFromBytes_def wf_hash_def hashSize_def split: if_splits)

lemma HashFromString_wf: "HashFromString s = Inr h \<Longrightarrow> wf_hash h"
  by (auto simp: HashFromString_def dest: HashFromBytes_wf split: if_splits option.splits)

lemma ReadHash_wf: "ReadHash src = Inr (h, rest) \<Longrightarrow> wf_hash h"
  by (auto simp: ReadHash_def elim!: rbind_InrE dest: HashFromBytes_wf split: sum.splits)

lemma HashFromData_total: "HashFromData value = Inr (md4Sum value)"
  by (simp add: HashFromData_def HashFromBytes_def hashSize_def)

lemma HashFromHashSet_wf: "\<forall>h\<in>set hs. wf_hash h \<Longrightarrow> wf_hash (HashFromHashSet hs)"
  by (auto simp: HashFromHashSet_def HashFromBytes_def hashSize_def wf_hash_def Invalid_def
      split: list.splits)

lemma fromHexChar_hexDigit: "n < 16 \<Longrightarrow> fromHexChar (hexDigit n) = Some n"
proof -
  have "\<forall>n\<in>set [0..<16]. fromHexChar (hexDigit n) = Some n"
    by code_simp
  moreover assume "n < 16"
  then have "n \<in> set [0..<16]"
    by simp
  ultimately show ?thesis by blast
qed

lemma hexDecode_hash_String: "hexDecodeString (hash_String h) = Some h"
proof (induction h)
  case Nil
  then show ?case by (simp add: hash_String_def)
next
  case (Cons b h)
  have lt: "unat b < 256" using unsigned_less [of b, where ?'a = nat] by simp
  then have "unat b div 16 < 16" "unat b mod 16 < 16" by auto
  with Cons show ?case
    by (simp add: hash_String_def fromHexChar_hexDigit mult.commute)
qed

lemma length_hash_String: "length (hash_String h) = 2 * length h"
  by (induction h) (simp_all add: hash_String_def)

lemma hash_String_parse: "wf_hash h \<Longrightarrow> HashFromString (hash_String h) = Inr h"
  by (simp add: HashFromString_def hexDecode_hash_String length_hash_String wf_hash_def hashSize_def
      HashFromBytes_def)

lemma hash_String_inj: "hash_String h = hash_String k \<Longrightarrow> h = k"
  by (metis hexDecode_hash_String option.inject)

lemma bytesCompare_range: "bytesCompare a b = -1 \<or> bytesCompare a b = 0 \<or> bytesCompare a b = 1"
  by (induction a b rule: bytesCompare.induct) auto

lemma bytesCompare_swap: "bytesCompare b a = - bytesCompare a b"
  by (induction a b rule: bytesCompare.induct) auto

lemma bytesCompare_eq: "bytesCompare a b = 0 \<Longrightarrow> a = b"
  by (induction a b rule: bytesCompare.induct) (auto split: if_splits)

lemma bytesCompare_trans: "bytesCompare a b < 0 \<Longrightarrow> bytesCompare b c < 0 \<Longrightarrow> bytesCompare a c < 0"
proof (induction a b arbitrary: c rule: bytesCompare.induct)
  case (2 b bs)
  then show ?case by (cases c) auto
next
  case (4 a as b bs)
  then show ?case by (cases c) (auto split: if_splits)
qed auto

interpretation hash_order: three_way hash_Compare wf_hash
proof unfold_locales
  fix a b c :: hash
  show "hash_Compare a b = -1 \<or> hash_Compare a b = 0 \<or> hash_Compare a b = 1"
    unfolding hash_Compare_def by (rule bytesCompare_range)
  show "hash_Compare b a = - hash_Compare a b"
    unfolding hash_Compare_def by (rule bytesCompare_swap)
  show "hash_Compare a b = 0 \<Longrightarrow> a = b"
    unfolding hash_Compare_def by (rule bytesCompare_eq)
  show "hash_Compare a b < 0 \<Longrightarrow> hash_Compare b c < 0 \<Longrightarrow> hash_Compare a c < 0"
    unfolding hash_Compare_def by (rule bytesCompare_trans)
qed

text \<open>A truncated hash is accepted: with one to fifteen bytes left, \<open>ReadHash\<close> reports no
  error and fills the rest of the hash with zeros.\<close>

theorem ReadHash_truncated:
  assumes "src \<noteq> []" and "length src < 16"
  shows "ReadHash src = Inr (src @ replicate (16 - length src) 0, [])"
  using assms by (simp add: ReadHash_def rbind_def readBytes_def HashFromBytes_def hashSize_def)

theorem ReadHash_truncated_witness: "ReadHash [1, 2] = Inr ([1, 2] @ replicate 14 0, [])"
  using ReadHash_truncated [of "[1, 2]"] by simp

text \<open>The text of a hash parses back to it, and no two hashes have the same text.\<close>

theorem hash_text_roundtrip:
  assumes "wf_hash h"
  shows "HashFromString (hash_String h) = Inr h \<and>
    (\<forall>g. wf_hash g \<and> hash_String g = hash_String h \<longrightarrow> g = h)"
  using assms hash_String_parse hash_String_inj by blast

theorem hash_text_roundtrip_witness: "HashFromString (hash_String (replicate 16 0xAB)) = Inr (replicate 16 0xAB)"
  using hash_text_roundtrip [of "replicate 16 0xAB"] by (simp add: wf_hash_def)

end
