(* ===== verification/Endpoints.thy ===== *)
theory Endpoints
  imports Hashes
begin

unbundle bit_operations_syntax

text \<open>
  Network endpoints (\<^verbatim>\<open>protocol/endpoint.go\<close>) with their wire format
  (\<^verbatim>\<open>protocol/helpers.go\<close>), and the address arithmetic of \<^verbatim>\<open>util.go\<close>. An
  \<^verbatim>\<open>int32\<close> address is a 32-bit word, compared as a signed number where Go compares it.
\<close>

section \<open>Endpoints\<close>

record Endpoint =
  ep_ip :: u32
  ep_port :: int

definition NewEndpoint :: "u32 \<Rightarrow> int \<Rightarrow> Endpoint" where
  "NewEndpoint ip port = \<lparr>ep_ip = ip, ep_port = port\<rparr>"

definition ep_Defined :: "Endpoint \<Rightarrow> bool" where
  "ep_Defined e \<longleftrightarrow> ep_ip e \<noteq> 0 \<and> ep_port e \<noteq> 0"

definition ep_IsZero :: "Endpoint \<Rightarrow> bool" where
  "ep_IsZero e \<longleftrightarrow> ep_ip e = 0 \<and> ep_port e = 0"

definition ep_Compare :: "Endpoint \<Rightarrow> Endpoint \<Rightarrow> int" where
  "ep_Compare e other =
     (if sint (ep_ip e) > sint (ep_ip other) then 1
      else if sint (ep_ip e) < sint (ep_ip other) then -1
      else if ep_port e > ep_port other then 1
      else if ep_port e < ep_port other then -1
      else 0)"

definition ep_Equal :: "Endpoint \<Rightarrow> Endpoint \<Rightarrow> bool" where
  "ep_Equal e other \<longleftrightarrow> ep_Compare e other = 0"

definition ep_Assign :: "Endpoint \<Rightarrow> u32 \<Rightarrow> int \<Rightarrow> Endpoint" where
  "ep_Assign e ip port = e\<lparr>ep_ip := ip, ep_port := port\<rparr>"

definition ReadEndpoint :: "Endpoint reader" where
  "ReadEndpoint =
     rbind readInt32 (\<lambda>ip. rbind readUInt16 (\<lambda>port. rreturn (NewEndpoint ip (uint port))))"

definition WriteEndpoint :: "Endpoint \<Rightarrow> bytes" where
  "WriteEndpoint e = writeInt32 (ep_ip e) @ writeUInt16 (word_of_int (ep_port e))"

definition wf_Endpoint :: "Endpoint \<Rightarrow> bool" where
  "wf_Endpoint e \<longleftrightarrow> 0 \<le> ep_port e \<and> ep_port e < 65536"

lemma uint_word_of_int_u16: "0 \<le> p \<Longrightarrow> p < 65536 \<Longrightarrow> uint (word_of_int p :: u16) = p"
  by (simp add: uint_word_of_int)

interpretation endpoint_codec: sized_codec ReadEndpoint WriteEndpoint wf_Endpoint "\<lambda>_. 6"
  by unfold_locales
    (simp_all add: ReadEndpoint_def WriteEndpoint_def NewEndpoint_def wf_Endpoint_def codec_step
      codec_len uint_word_of_int_u16)

lemma ReadEndpoint_wf: "ReadEndpoint src = Inr (e, rest) \<Longrightarrow> wf_Endpoint e"
proof -
  assume "ReadEndpoint src = Inr (e, rest)"
  then obtain ip and port :: u16 where "e = NewEndpoint ip (uint port)"
    by (auto simp: ReadEndpoint_def elim!: rbind_InrE)
  moreover have "uint port < 65536" using uint_lt2p [of port] by simp
  ultimately show ?thesis by (simp add: wf_Endpoint_def NewEndpoint_def)
qed

lemma ep_Compare_range: "ep_Compare a b = -1 \<or> ep_Compare a b = 0 \<or> ep_Compare a b = 1"
  by (simp add: ep_Compare_def)

lemma sint_inject: "sint v = sint w \<Longrightarrow> v = (w :: 'a::len word)"
  by (rule signed_word_eqI)

lemma ep_Compare_0: "ep_Compare a b = 0 \<longleftrightarrow> a = b"
  by (auto simp: ep_Compare_def split: if_splits intro!: Endpoint.equality sint_inject)

interpretation ep_order: three_way ep_Compare "\<lambda>_. True"
proof unfold_locales
  fix a b c :: Endpoint
  show "ep_Compare a b = -1 \<or> ep_Compare a b = 0 \<or> ep_Compare a b = 1"
    by (rule ep_Compare_range)
  show "ep_Compare b a = - ep_Compare a b"
    by (simp add: ep_Compare_def)
  show "ep_Compare a b = 0 \<Longrightarrow> a = b"
    by (simp add: ep_Compare_0)
  show "ep_Compare a b < 0 \<Longrightarrow> ep_Compare b c < 0 \<Longrightarrow> ep_Compare a c < 0"
    by (auto simp: ep_Compare_def split: if_splits)
qed

lemma ep_Equal_iff [simp]: "ep_Equal a b \<longleftrightarrow> a = b"
  by (simp add: ep_Equal_def ep_Compare_0)

section \<open>Dotted-quad text\<close>

text \<open>\<open>fmt\<close>'s \<open>%d\<close> of a non-negative number.\<close>

fun dec_string :: "nat \<Rightarrow> string" where
  "dec_string n = (if n < 10 then [char_of (48 + n)] else dec_string (n div 10) @ [char_of (48 + n mod 10)])"

declare dec_string.simps [simp del]

definition byte_at :: "u32 \<Rightarrow> nat \<Rightarrow> u8" where
  "byte_at ip k = ucast (drop_bit (8 * k) ip)"

definition ip2String :: "u32 \<Rightarrow> string" where
  "ip2String ip =
     dec_string (unat (byte_at ip 0)) @ ''.'' @ dec_string (unat (byte_at ip 1)) @ ''.'' @
     dec_string (unat (byte_at ip 2)) @ ''.'' @ dec_string (unat (byte_at ip 3))"

text \<open>\<open>strings.Split\<close> with a one-byte separator.\<close>

fun split_on :: "char \<Rightarrow> string \<Rightarrow> string list" where
  "split_on c [] = [[]]"
| "split_on c (x # xs) =
     (if x = c then [] # split_on c xs
      else (case split_on c xs of [] \<Rightarrow> [[x]] | y # ys \<Rightarrow> (x # y) # ys))"

text \<open>\<open>strconv.Atoi\<close>: an optional sign, then decimal digits, in the range of \<open>int\<close>.\<close>

fun digits_value :: "nat \<Rightarrow> string \<Rightarrow> nat option" where
  "digits_value acc [] = Some acc"
| "digits_value acc (c # cs) =
     (let n = of_char c :: nat
      in if 48 \<le> n \<and> n \<le> 57 then digits_value (10 * acc + (n - 48)) cs else None)"

definition go_ParseInt64 :: "string \<Rightarrow> int option" where
  "go_ParseInt64 s =
     (case s of
        [] \<Rightarrow> None
      | c # cs \<Rightarrow>
          (let neg = (c = CHR ''-''); body = (if c = CHR ''+'' \<or> c = CHR ''-'' then cs else s)
           in if body = [] then None
              else (case digits_value 0 body of
                      None \<Rightarrow> None
                    | Some n \<Rightarrow>
                        if neg then (if int n \<le> 2 ^ 63 then Some (- int n) else None)
                        else if int n < 2 ^ 63 then Some (int n) else None)))"

fun parse_octets :: "string list \<Rightarrow> nat list option" where
  "parse_octets [] = Some []"
| "parse_octets (part # parts) =
     (case go_ParseInt64 part of
        None \<Rightarrow> None
      | Some value \<Rightarrow>
          if value < 0 \<or> 255 < value then None
          else (case parse_octets parts of None \<Rightarrow> None | Some vs \<Rightarrow> Some (nat value # vs)))"

definition string2IP :: "string \<Rightarrow> u32 result" where
  "string2IP s =
     (let parts = split_on (CHR ''.'') s
      in if length parts \<noteq> 4 then Inl (ErrText ''illegal argument'')
         else (case parse_octets parts of
                 None \<Rightarrow> Inl (ErrText ''illegal argument'')
               | Some raw \<Rightarrow>
                   Inr (of_nat (raw ! 0) OR push_bit 8 (of_nat (raw ! 1)) OR
                        push_bit 16 (of_nat (raw ! 2)) OR push_bit 24 (of_nat (raw ! 3)))))"

definition EndpointFromString :: "string \<Rightarrow> int \<Rightarrow> Endpoint result" where
  "EndpointFromString addr port =
     (case string2IP addr of Inl e \<Rightarrow> Inl e | Inr ip \<Rightarrow> Inr \<lparr>ep_ip = ip, ep_port = port\<rparr>)"

definition ep_String :: "Endpoint \<Rightarrow> string" where
  "ep_String e =
     ip2String (ep_ip e) @ '':'' @
     (if ep_port e < 0 then ''-'' @ dec_string (nat (- ep_port e)) else dec_string (nat (ep_port e)))"

subsection \<open>Round trip\<close>

lemma digits_value_append: "digits_value acc (xs @ ys) =
    (case digits_value acc xs of None \<Rightarrow> None | Some n \<Rightarrow> digits_value n ys)"
  by (induction xs arbitrary: acc) (auto simp: Let_def)

lemma of_char_digit: "d < 10 \<Longrightarrow> of_char (char_of (48 + d) :: char) = (48 + d :: nat)"
  by (simp add: of_char_of)

lemma digits_value_dec: "digits_value 0 (dec_string n) = Some n"
proof (induction n rule: dec_string.induct)
  case (1 n)
  show ?case
  proof (cases "n < 10")
    case True
    then show ?thesis by (subst dec_string.simps) (simp add: of_char_digit)
  next
    case False
    with 1 have "digits_value 0 (dec_string (n div 10)) = Some (n div 10)" by simp
    moreover have "10 * (n div 10) + n mod 10 = n" by simp
    ultimately show ?thesis
      using False by (subst dec_string.simps) (simp add: digits_value_append of_char_digit Let_def)
  qed
qed

lemma dec_string_chars: "c \<in> set (dec_string n) \<Longrightarrow> 48 \<le> (of_char c :: nat) \<and> (of_char c :: nat) \<le> 57"
proof (induction n rule: dec_string.induct)
  case (1 n)
  show ?case
  proof (cases "n < 10")
    case True
    with 1(2) show ?thesis by (simp add: dec_string.simps [of n] of_char_digit)
  next
    case False
    with 1 show ?thesis by (auto simp: dec_string.simps [of n] of_char_digit)
  qed
qed

lemma dec_string_Cons: "\<exists>c cs. dec_string n = c # cs"
  by (induction n rule: dec_string.induct) (subst dec_string.simps, auto)

lemma dec_string_no: "(of_char c :: nat) < 48 \<Longrightarrow> c \<notin> set (dec_string n)"
  using dec_string_chars by fastforce

lemma go_ParseInt64_dec: "int n < 2 ^ 63 \<Longrightarrow> go_ParseInt64 (dec_string n) = Some (int n)"
proof -
  assume n: "int n < 2 ^ 63"
  obtain c cs where c: "dec_string n = c # cs" using dec_string_Cons by blast
  have "c \<in> set (dec_string n)" using c by simp
  then have "c \<noteq> CHR ''-''" "c \<noteq> CHR ''+''"
    using dec_string_no [of "CHR ''-''" n] dec_string_no [of "CHR ''+''" n] by auto
  with c n digits_value_dec [of n] show ?thesis
    by (simp add: go_ParseInt64_def Let_def)
qed

lemma split_on_last: "c \<notin> set xs \<Longrightarrow> split_on c xs = [xs]"
  by (induction xs) auto

lemma split_on_append: "c \<notin> set xs \<Longrightarrow> split_on c (xs @ c # ys) = xs # split_on c ys"
  by (induction xs) auto

lemma split_on_join4:
  "c \<notin> set p \<Longrightarrow> c \<notin> set q \<Longrightarrow> c \<notin> set r \<Longrightarrow> c \<notin> set s \<Longrightarrow>
     split_on c (p @ [c] @ q @ [c] @ r @ [c] @ s) = [p, q, r, s]"
  by (simp add: split_on_append split_on_last)

lemma octets_join:
  "ucast (byte_at ip 0) OR push_bit 8 (ucast (byte_at ip 1)) OR push_bit 16 (ucast (byte_at ip 2)) OR
   push_bit 24 (ucast (byte_at ip 3)) = ip"
proof (rule bit_word_eqI)
  fix n
  assume n: "n < LENGTH(32)"
  then consider "n < 8" | "8 \<le> n" "n < 16" | "16 \<le> n" "n < 24" | "24 \<le> n" "n < 32" by fastforce
  then show "bit (ucast (byte_at ip 0) OR push_bit 8 (ucast (byte_at ip 1)) OR
      push_bit 16 (ucast (byte_at ip 2)) OR push_bit 24 (ucast (byte_at ip 3)) :: u32) n = bit ip n"
    unfolding byte_at_def bit_or_iff bit_push_bit_iff bit_unsigned_iff bit_drop_bit_eq
    by cases (auto simp: bit_unsigned_iff bit_drop_bit_eq)
qed

lemma of_nat_unat_ucast: "of_nat (unat b) = (ucast b :: u32)" for b :: u8
  by (simp add: unsigned_of_nat unsigned_eq_0_iff)

lemma string2IP_ip2String: "string2IP (ip2String ip) = Inr ip"
proof -
  have dot: "CHR ''.'' \<notin> set (dec_string n)" for n by (rule dec_string_no) simp
  have le: "\<not> 255 < uint b" for b :: u8 using uint_lt2p [of b] by simp
  have octet: "go_ParseInt64 (dec_string (unat b)) = Some (int (unat b))" for b :: u8
    using le [of b] by (intro go_ParseInt64_dec) simp
  have "split_on (CHR ''.'') (ip2String ip) =
      map (\<lambda>k. dec_string (unat (byte_at ip k))) [0, 1, 2, 3]"
    using split_on_join4 [OF dot dot dot dot] by (simp add: ip2String_def)
  then show ?thesis
    by (simp add: string2IP_def octet le octets_join [simplified One_nat_def] of_nat_unat_ucast)
qed

section \<open>Address arithmetic\<close>

definition HTONLBytes :: "bytes \<Rightarrow> u32" where
  "HTONLBytes order =
     (if length order \<noteq> 4 then 0
      else push_bit 24 (ucast (order ! 0)) OR push_bit 16 (ucast (order ! 1)) OR
           push_bit 8 (ucast (order ! 2)) OR ucast (order ! 3))"

text \<open>The shifts of an \<^verbatim>\<open>int32\<close> to the right are arithmetic; the masks clear what they copy.\<close>

definition HTONL :: "u32 \<Rightarrow> u32" where
  "HTONL ip =
     push_bit 24 (ip AND 0x000000FF) OR push_bit 8 (ip AND 0x0000FF00) OR
     (signed_drop_bit 8 ip AND 0x0000FF00) OR (signed_drop_bit 24 ip AND 0x000000FF)"

definition PackToNetworkByteOrder :: "bytes \<Rightarrow> u32" where
  "PackToNetworkByteOrder order =
     (if length order \<noteq> 4 then 0
      else push_bit 24 (ucast (order ! 3)) OR push_bit 16 (ucast (order ! 2)) OR
           push_bit 8 (ucast (order ! 1)) OR ucast (order ! 0))"

definition NTOHL :: "u32 \<Rightarrow> u32" where
  "NTOHL ip = HTONLBytes [byte_at ip 0, byte_at ip 1, byte_at ip 2, byte_at ip 3]"

definition IsLocalAddress :: "u32 \<Rightarrow> bool" where
  "IsLocalAddress ip \<longleftrightarrow>
     (let host = NTOHL ip
      in host AND 0xff000000 = 0x0a000000 \<or> host AND 0xfff00000 = 0xac100000 \<or>
         host AND 0xffff0000 = 0xc0a80000 \<or> host AND 0xffff0000 = 0xa9fe0000 \<or>
         host AND 0xff000000 = 0x7f000000)"

definition HighestLowIDED2K :: int where
  "HighestLowIDED2K = 16777216"

definition IsLowID :: "u32 \<Rightarrow> bool" where
  "IsLowID v \<longleftrightarrow> uint v < HighestLowIDED2K"

definition LowPart :: "u64 \<Rightarrow> u32" where
  "LowPart value = ucast value"

definition HiPart :: "u64 \<Rightarrow> u32" where
  "HiPart value = ucast (signed_drop_bit 32 value)"

definition DivCeil :: "int \<Rightarrow> int \<Rightarrow> int" where
  "DivCeil a b = go_div (a + b - 1) b"

definition IsBit :: "u32 \<Rightarrow> u32 \<Rightarrow> bool" where
  "IsBit value m \<longleftrightarrow> value AND m = m"

section \<open>Properties\<close>

text \<open>Every address prints as dotted text that parses back to it.\<close>

theorem address_text_roundtrip:
  "EndpointFromString (ip2String ip) port = Inr \<lparr>ep_ip = ip, ep_port = port\<rparr>"
  by (simp add: EndpointFromString_def string2IP_ip2String)

end
