(* ===== verification/Peer_Policy.thy ===== *)
theory Peer_Policy
  imports Errors Endpoints "HOL-Library.Product_Lexorder"
begin

unbundle bit_operations_syntax

text \<open>
  The peers a transfer knows (\<^verbatim>\<open>peer.go\<close>, \<^verbatim>\<open>peer_info.go\<close>) and the choice of
  whom to connect to or to forget (\<^verbatim>\<open>policy.go\<close>). The list is kept sorted by endpoint,
  with \<open>three_way\<close>'s binary search. A \<^verbatim>\<open>*Peer\<close> into the list is its index, a
  connection is a number, and \<open>None\<close> is an index out of range. The random start of
  \<open>ErasePeers\<close> and the state of the transfer are arguments.
\<close>

section \<open>Peers\<close>

definition PeerIncoming :: u8 where "PeerIncoming = 0x1"
definition PeerServer :: u8 where "PeerServer = 0x2"
definition PeerDHT :: u8 where "PeerDHT = 0x4"
definition PeerResume :: u8 where "PeerResume = 0x8"

lemmas source_bits = PeerIncoming_def PeerServer_def PeerDHT_def PeerResume_def

record Peer =
  pe_LastConnected :: int
  pe_NextConnection :: int
  pe_FailCount :: int
  pe_Connectable :: bool
  pe_SourceFlag :: u64
  pe_Connection :: "nat option"
  pe_Endpoint :: Endpoint

definition NewPeer :: "Endpoint \<Rightarrow> Peer" where
  "NewPeer ep =
     \<lparr>pe_LastConnected = 0, pe_NextConnection = 0, pe_FailCount = 0, pe_Connectable = False,
      pe_SourceFlag = 0, pe_Connection = None, pe_Endpoint = ep\<rparr>"

definition NewPeerWithSource :: "Endpoint \<Rightarrow> bool \<Rightarrow> u64 \<Rightarrow> Peer" where
  "NewPeerWithSource ep conn sourceFlag =
     (NewPeer ep)\<lparr>pe_Connectable := conn, pe_SourceFlag := sourceFlag\<rparr>"

definition pe_Compare :: "Peer \<Rightarrow> Peer \<Rightarrow> int" where
  "pe_Compare p other = ep_Compare (pe_Endpoint p) (pe_Endpoint other)"

definition pe_Equal :: "Peer \<Rightarrow> Peer \<Rightarrow> bool" where
  "pe_Equal p other = ep_Equal (pe_Endpoint p) (pe_Endpoint other)"

definition PeerSourceLabels :: "u64 \<Rightarrow> string list" where
  "PeerSourceLabels flag =
     (let labels =
        (if flag AND ucast PeerServer \<noteq> 0 then [''server''] else []) @
        (if flag AND ucast PeerDHT \<noteq> 0 then [''kad''] else []) @
        (if flag AND ucast PeerResume \<noteq> 0 then [''resume''] else []) @
        (if flag AND ucast PeerIncoming \<noteq> 0 then [''incoming''] else [])
      in if labels = [] then [''unknown''] else labels)"

section \<open>Judging peers\<close>

definition MaxPeerListSize :: int where "MaxPeerListSize = 100"
definition MinReconnectTimeout :: int where "MinReconnectTimeout = 10"

definition Seconds :: "int \<Rightarrow> int" where "Seconds v = v * 1000"
definition Minutes :: "int \<Rightarrow> int" where "Minutes v = v * 1000 * 60"

definition IsConnectCandidate :: "Peer \<Rightarrow> bool" where
  "IsConnectCandidate pe \<longleftrightarrow> \<not> (pe_Connection pe \<noteq> None \<or> \<not> pe_Connectable pe \<or> pe_FailCount pe > 10)"

definition IsEraseCandidate :: "Peer \<Rightarrow> bool" where
  "IsEraseCandidate pe \<longleftrightarrow>
     (if pe_Connection pe \<noteq> None \<or> IsConnectCandidate pe then False else pe_FailCount pe > 0)"

definition is_resume :: "Peer \<Rightarrow> bool" where
  "is_resume pe \<longleftrightarrow> pe_SourceFlag pe AND ucast PeerResume = ucast PeerResume"

definition shouldEraseImmediately :: "Peer \<Rightarrow> bool" where
  "shouldEraseImmediately pe \<longleftrightarrow> is_resume pe"

definition GetSourceRank :: "u64 \<Rightarrow> u64" where
  "GetSourceRank sourceBitmask =
     (if IsBit (ucast sourceBitmask) (ucast PeerServer) then 32 else 0) OR
     (if IsBit (ucast sourceBitmask) (ucast PeerDHT) then 16 else 0) OR
     (if IsBit (ucast sourceBitmask) (ucast PeerIncoming) then 8 else 0) OR
     (if IsBit (ucast sourceBitmask) (ucast PeerResume) then 4 else 0)"

definition ComparePeers :: "Peer \<Rightarrow> Peer \<Rightarrow> bool" where
  "ComparePeers lhs rhs \<longleftrightarrow>
     (if pe_FailCount lhs \<noteq> pe_FailCount rhs then pe_FailCount lhs < pe_FailCount rhs
      else
        (let lhsLocal = IsLocalAddress (ep_ip (pe_Endpoint lhs));
             rhsLocal = IsLocalAddress (ep_ip (pe_Endpoint rhs))
         in if lhsLocal \<noteq> rhsLocal then lhsLocal
            else if pe_LastConnected lhs \<noteq> pe_LastConnected rhs then pe_LastConnected lhs < pe_LastConnected rhs
            else if pe_NextConnection lhs \<noteq> pe_NextConnection rhs then pe_NextConnection lhs < pe_NextConnection rhs
            else
              (let lhsRank = GetSourceRank (pe_SourceFlag lhs); rhsRank = GetSourceRank (pe_SourceFlag rhs)
               in if lhsRank \<noteq> rhsRank then lhsRank > rhsRank else False)))"

definition ComparePeerErase :: "Peer \<Rightarrow> Peer \<Rightarrow> bool" where
  "ComparePeerErase lhs rhs \<longleftrightarrow>
     (if pe_FailCount lhs \<noteq> pe_FailCount rhs then pe_FailCount lhs > pe_FailCount rhs
      else if is_resume lhs \<noteq> is_resume rhs then is_resume lhs
      else if pe_Connectable lhs \<noteq> pe_Connectable rhs then \<not> pe_Connectable lhs
      else False)"

section \<open>The list\<close>

record Policy =
  po_roundRobin :: int
  po_peers :: "Peer list"

definition NewPolicy :: Policy where
  "NewPolicy = \<lparr>po_roundRobin = 0, po_peers = []\<rparr>"

definition po_Get :: "Policy \<Rightarrow> Endpoint \<Rightarrow> nat option" where
  "po_Get p endpoint =
     find (\<lambda>i. ep_Equal (pe_Endpoint (po_peers p ! i)) endpoint) [0..<length (po_peers p)]"

definition FindPeer :: "Policy \<Rightarrow> Endpoint \<Rightarrow> nat option" where
  "FindPeer p ep =
     (let (pos, found) = binarySearchFunc (\<lambda>a. pe_Compare a (NewPeer ep)) (po_peers p)
      in if found then Some pos else None)"

text \<open>
  The loop of \<open>ErasePeers\<close>: rounds left, the list, the position, the candidate
  (\<open>-1\<close> for none). \<open>None\<close> is an index out of range.
\<close>

fun erase_loop :: "nat \<Rightarrow> Peer list \<Rightarrow> int \<Rightarrow> int \<Rightarrow> (Peer list \<times> int) option" where
  "erase_loop 0 ps rr ec = Some (ps, ec)"
| "erase_loop (Suc n) ps rr ec =
     (if int (length ps) < MaxPeerListSize * 95 div 100 then Some (ps, ec)
      else
        (let current = (if rr = int (length ps) then 0 else rr)
         in case idx ps current of
              None \<Rightarrow> None
            | Some pe \<Rightarrow>
                (if IsEraseCandidate pe \<and>
                    (ec = -1 \<or> (case idx ps ec of None \<Rightarrow> False | Some e \<Rightarrow> \<not> ComparePeerErase e pe)) then
                   (if shouldEraseImmediately pe then
                      erase_loop n (slice_delete ps (nat current)) (current + 1)
                        (if ec > current then ec - 1 else ec)
                    else erase_loop n ps (current + 1) current)
                 else erase_loop n ps (current + 1) ec)))"

definition ErasePeers :: "int \<Rightarrow> Policy \<Rightarrow> Policy option" where
  "ErasePeers rnd p =
     (if po_peers p = [] then Some p
      else
        (case erase_loop (min (length (po_peers p)) 300) (po_peers p) rnd (-1) of
           None \<Rightarrow> None
         | Some (ps, ec) \<Rightarrow>
             (if ec > -1 then
                (if ec < int (length ps) then Some (p\<lparr>po_peers := slice_delete ps (nat ec)\<rparr>) else None)
              else Some (p\<lparr>po_peers := ps\<rparr>))))"

definition insert_peer :: "Peer \<Rightarrow> Policy \<Rightarrow> Policy \<times> bool" where
  "insert_peer peer p =
     (let (insertPos, found) = binarySearchFunc (\<lambda>a. pe_Compare a peer) (po_peers p)
      in if found then
           (p\<lparr>po_peers := (po_peers p)[insertPos := (po_peers p ! insertPos)
              \<lparr>pe_SourceFlag := pe_SourceFlag (po_peers p ! insertPos) OR pe_SourceFlag peer\<rparr>]\<rparr>, False)
         else (p\<lparr>po_peers := slice_insert (po_peers p) insertPos peer\<rparr>, True))"

definition po_AddPeer :: "int \<Rightarrow> Peer \<Rightarrow> Policy \<Rightarrow> (Policy \<times> bool outcome) option" where
  "po_AddPeer rnd peer p =
     (case (if int (length (po_peers p)) \<ge> MaxPeerListSize then ErasePeers rnd p else Some p) of
        None \<Rightarrow> None
      | Some p1 \<Rightarrow>
          (if int (length (po_peers p1)) \<ge> MaxPeerListSize then
             Some (p1, Inl (NewError PeerLimitExceeded))
           else (let (p2, added) = insert_peer peer p1 in Some (p2, Inr added))))"

section \<open>Choosing whom to connect to\<close>

text \<open>A candidate may be tried now.\<close>

definition due :: "int \<Rightarrow> Peer \<Rightarrow> bool" where
  "due sessionTime pe \<longleftrightarrow>
     \<not> (pe_NextConnection pe \<noteq> 0 \<and> pe_NextConnection pe < sessionTime) \<and>
     \<not> (pe_LastConnected pe \<noteq> 0 \<and>
        sessionTime < pe_LastConnected pe + Seconds (pe_FailCount pe + 1) * MinReconnectTimeout)"

text \<open>
  The loop of \<open>FindConnectCandidate\<close>: \<open>n\<close> rounds of the 300 are left; the list, the
  position and the two candidates (\<open>-1\<close> for none).
\<close>

fun find_loop :: "int \<Rightarrow> nat \<Rightarrow> Peer list \<Rightarrow> int \<Rightarrow> int \<Rightarrow> int \<Rightarrow> (Peer list \<times> int \<times> int \<times> int) option" where
  "find_loop sessionTime 0 ps rr c ec = Some (ps, rr, c, ec)"
| "find_loop sessionTime (Suc n) ps rr c ec =
     (if \<not> 300 - Suc n < min (length ps) 300 then Some (ps, rr, c, ec)
      else
        (let current = (if rr \<ge> int (length ps) then 0 else rr)
         in case idx ps current of
              None \<Rightarrow> None
            | Some pe \<Rightarrow>
                (let erase = (int (length ps) > MaxPeerListSize \<and> IsEraseCandidate pe \<and>
                      (ec = -1 \<or> (case idx ps ec of None \<Rightarrow> False | Some e \<Rightarrow> \<not> ComparePeerErase e pe)))
                 in if erase \<and> shouldEraseImmediately pe then
                      find_loop sessionTime n (slice_delete ps (nat current)) current
                        (if c > current then c - 1 else c) (if ec > current then ec - 1 else ec)
                    else
                      (let ec' = (if erase then current else ec);
                           skip = (\<not> IsConnectCandidate pe \<or>
                             (c \<noteq> -1 \<and> (case idx ps c of None \<Rightarrow> False | Some b \<Rightarrow> ComparePeers b pe)) \<or>
                             \<not> due sessionTime pe)
                       in find_loop sessionTime n ps (current + 1) (if skip then c else current) ec'))))"

definition FindConnectCandidate :: "int \<Rightarrow> Policy \<Rightarrow> (Policy \<times> nat option) option" where
  "FindConnectCandidate sessionTime p =
     (let rr = (if po_roundRobin p \<ge> int (length (po_peers p)) then 0 else po_roundRobin p)
      in case find_loop sessionTime 300 (po_peers p) rr (-1) (-1) of
           None \<Rightarrow> None
         | Some (ps, rr', c, ec) \<Rightarrow>
             (if ec \<noteq> -1 then
                (if 0 \<le> ec \<and> ec < int (length ps) then
                   (let c' = (if c > ec then c - 1 else c)
                    in Some (p\<lparr>po_roundRobin := rr', po_peers := slice_delete ps (nat ec)\<rparr>,
                         if c' = -1 then None else Some (nat c')))
                 else None)
              else Some (p\<lparr>po_roundRobin := rr', po_peers := ps\<rparr>,
                         if c = -1 then None else Some (nat c))))"

section \<open>Connections\<close>

text \<open>
  A connection to the peer at index \<open>i\<close> is closed (\<open>None\<close>: it has no peer) with a code,
  and may have failed. An index the list no longer has is a peer deleted meanwhile.
\<close>

definition ConnectionClosed :: "nat option \<Rightarrow> ErrorCode \<Rightarrow> bool \<Rightarrow> int \<Rightarrow> Policy \<Rightarrow> Policy option" where
  "ConnectionClosed peer disconnectCode failed sessionTime p =
     (case peer of
        None \<Rightarrow> Some p
      | Some i \<Rightarrow>
          (case idx (po_peers p) (int i) of
             None \<Rightarrow> Some p
           | Some pe \<Rightarrow>
               (if disconnectCode = TransferPaused then
                  Some (p\<lparr>po_peers := (po_peers p)[i := pe\<lparr>pe_Connection := None,
                          pe_NextConnection := 0, pe_LastConnected := 0\<rparr>]\<rparr>)
                else
                  (let pe' = pe\<lparr>pe_Connection := None, pe_LastConnected := sessionTime,
                         pe_FailCount := (if failed then pe_FailCount pe + 1 else pe_FailCount pe)\<rparr>;
                       ps = (po_peers p)[i := pe']
                   in if pe_Connectable pe' then Some (p\<lparr>po_peers := ps\<rparr>)
                      else
                        (case find (\<lambda>j. pe_Equal (ps ! j) pe') [0..<length ps] of
                           None \<Rightarrow> Some (p\<lparr>po_peers := ps\<rparr>)
                         | Some j \<Rightarrow> Some (p\<lparr>po_peers := slice_delete ps j\<rparr>))))))"

definition SetConnection :: "nat \<Rightarrow> nat option \<Rightarrow> Policy \<Rightarrow> Policy" where
  "SetConnection i c p =
     p\<lparr>po_peers := (po_peers p)[i := (po_peers p ! i)\<lparr>pe_Connection := c\<rparr>]\<rparr>"

definition po_Size :: "Policy \<Rightarrow> nat" where
  "po_Size p = length (po_peers p)"

text \<open>\<open>done\<close>: there is no transfer, or it has finished.\<close>

definition NumConnectCandidates :: "bool \<Rightarrow> Policy \<Rightarrow> nat" where
  "NumConnectCandidates done p =
     (if done then 0
      else length (filter (\<lambda>pe. IsConnectCandidate pe \<and> \<not> IsEraseCandidate pe) (po_peers p)))"

text \<open>An incoming connection \<open>c\<close> from an endpoint: the index of its peer, or the error.\<close>

definition NewConnection :: "int \<Rightarrow> nat \<Rightarrow> Endpoint \<Rightarrow> Policy \<Rightarrow> (Policy \<times> nat outcome) option" where
  "NewConnection rnd c endpoint p =
     (case po_Get p endpoint of
        Some i \<Rightarrow>
          (if pe_Connection (po_peers p ! i) \<noteq> None then
             Some (p, Inl (NewError DuplicatePeerConnection))
           else Some (SetConnection i (Some c) p, Inr i))
      | None \<Rightarrow>
          (case po_AddPeer rnd (NewPeerWithSource endpoint False 0) p of
             None \<Rightarrow> None
           | Some (p1, Inl err) \<Rightarrow> Some (p1, Inl err)
           | Some (p1, Inr False) \<Rightarrow> Some (p1, Inl (NewError DuplicatePeer))
           | Some (p1, Inr True) \<Rightarrow>
               (case po_Get p1 endpoint of
                  None \<Rightarrow> None
                | Some i \<Rightarrow> Some (SetConnection i (Some c) p1, Inr i))))"

section \<open>The list stays sorted\<close>

abbreviation sorted_peers :: "Peer list \<Rightarrow> bool" where
  "sorted_peers \<equiv> ep_order.csorted pe_Endpoint"

definition policy_ok :: "Policy \<Rightarrow> bool" where
  "policy_ok p \<longleftrightarrow> sorted_peers (po_peers p) \<and> int (length (po_peers p)) \<le> MaxPeerListSize \<and> 0 \<le> po_roundRobin p"

lemma NewPolicy_ok: "policy_ok NewPolicy"
  by (simp add: policy_ok_def NewPolicy_def ep_order.csorted_def MaxPeerListSize_def)

text \<open>A candidate for erasing is an index of a peer that may be erased, but not at once.\<close>

definition erasable_at :: "Peer list \<Rightarrow> int \<Rightarrow> bool" where
  "erasable_at ps ec \<longleftrightarrow>
     ec = -1 \<or> 0 \<le> ec \<and> ec < int (length ps) \<and> IsEraseCandidate (ps ! nat ec) \<and> \<not> is_resume (ps ! nat ec)"

lemma slice_delete_nth:
  "i < length xs \<Longrightarrow> j < length xs - 1 \<Longrightarrow> slice_delete xs i ! j = (if j < i then xs ! j else xs ! Suc j)"
  by (auto simp: slice_delete_def nth_append min_def)

lemma erasable_at_delete:
  assumes "erasable_at ps ec" and "0 \<le> i" and "i < int (length ps)" and "is_resume (ps ! nat i)"
  shows "erasable_at (slice_delete ps (nat i)) (if ec > i then ec - 1 else ec)"
proof (cases "ec = -1")
  case True
  with assms(2) show ?thesis by (simp add: erasable_at_def)
next
  case False
  with assms have ec: "0 \<le> ec" "ec < int (length ps)" "IsEraseCandidate (ps ! nat ec)" "\<not> is_resume (ps ! nat ec)"
    by (auto simp: erasable_at_def)
  have "ec \<noteq> i" using ec(4) assms(4) by auto
  show ?thesis
  proof (cases "ec > i")
    case True
    define k where "k = nat (ec - 1)"
    have k: "nat ec = Suc k" "k < length ps - 1" "\<not> k < nat i" "ec - 1 = int k"
      using True ec assms(2,3) by (simp_all add: k_def nat_less_iff)
    then have "slice_delete ps (nat i) ! k = ps ! nat ec"
      using assms(2,3) slice_delete_nth [of "nat i" ps k] by simp
    with True k ec assms(2,3) show ?thesis by (simp add: erasable_at_def)
  next
    case False
    with \<open>ec \<noteq> i\<close> have less: "ec < i" by simp
    then have at: "nat ec < nat i" "nat ec < length ps - 1" "ec < int (length ps - 1)"
      using ec(1) assms(2,3) by linarith+
    then have "slice_delete ps (nat i) ! nat ec = ps ! nat ec"
      using assms(2,3) slice_delete_nth [of "nat i" ps "nat ec"] by simp
    with less at ec assms(3) show ?thesis by (simp add: erasable_at_def)
  qed
qed

lemma erase_loop_keeps:
  assumes "erase_loop n ps rr ec = Some (ps', ec')" and "sorted_peers ps" and "erasable_at ps ec" and "0 \<le> rr"
  shows "sorted_peers ps' \<and> set ps' \<subseteq> set ps \<and> length ps' \<le> length ps \<and> erasable_at ps' ec' \<and>
    (\<forall>pe\<in>set ps - set ps'. IsEraseCandidate pe)"
  using assms
proof (induction n ps rr ec rule: erase_loop.induct)
  case (1 ps rr ec)
  then show ?case by simp
next
  case (2 n ps rr ec)
  define cur where "cur = (if rr = int (length ps) then 0 else rr)"
  show ?case
  proof (cases "int (length ps) < MaxPeerListSize * 95 div 100")
    case True
    with "2.prems" show ?thesis by simp
  next
    case big: False
    obtain pe where pe: "idx ps cur = Some pe"
      using "2.prems"(1) big by (auto simp: cur_def Let_def split: option.splits)
    then have c: "0 \<le> cur" "nat cur < length ps" "ps ! nat cur = pe" by (auto simp: idx_Some_iff)
    define cand where "cand = (IsEraseCandidate pe \<and>
      (ec = -1 \<or> (case idx ps ec of None \<Rightarrow> False | Some e \<Rightarrow> \<not> ComparePeerErase e pe)))"
    note IH = "2.IH" [OF big cur_def pe]
    have step: "erase_loop (Suc n) ps rr ec =
        (if cand then
           (if shouldEraseImmediately pe then
              erase_loop n (slice_delete ps (nat cur)) (cur + 1) (if ec > cur then ec - 1 else ec)
            else erase_loop n ps (cur + 1) cur)
         else erase_loop n ps (cur + 1) ec)"
      using big pe by (simp add: cur_def [symmetric] cand_def Let_def)
    consider (del) "cand" "shouldEraseImmediately pe" | (mark) "cand" "\<not> shouldEraseImmediately pe" | (pass) "\<not> cand"
      by blast
    then show ?thesis
    proof cases
      case del
      have er: "IsEraseCandidate pe" "is_resume pe"
        using del by (auto simp: cand_def shouldEraseImmediately_def)
      have "erasable_at (slice_delete ps (nat cur)) (if ec > cur then ec - 1 else ec)"
        using erasable_at_delete [OF "2.prems"(3) c(1)] c er(2) by (simp add: nat_less_iff)
      then have "sorted_peers ps' \<and> set ps' \<subseteq> set (slice_delete ps (nat cur)) \<and>
          length ps' \<le> length (slice_delete ps (nat cur)) \<and> erasable_at ps' ec' \<and>
          (\<forall>q\<in>set (slice_delete ps (nat cur)) - set ps'. IsEraseCandidate q)"
        using IH(1) del "2.prems"(1) step c(1) ep_order.csorted_delete [OF "2.prems"(2)]
        by (simp add: cand_def)
      moreover have "set ps = insert pe (set (slice_delete ps (nat cur)))"
        using set_slice_delete [OF c(2)] c(3) by simp
      ultimately show ?thesis using er(1) c(2) by auto
    next
      case mark
      have "erasable_at ps cur"
        using mark c by (auto simp: erasable_at_def cand_def shouldEraseImmediately_def)
      moreover have "erase_loop n ps (cur + 1) cur = Some (ps', ec')"
        using mark step "2.prems"(1) by simp
      ultimately show ?thesis
        using IH(2) [OF mark [unfolded cand_def]] "2.prems"(2) c(1) by simp
    next
      case pass
      then have "erase_loop n ps (cur + 1) ec = Some (ps', ec')"
        using step "2.prems"(1) by simp
      then show ?thesis
        using IH(3) [OF pass [unfolded cand_def]] "2.prems"(2,3) c(1) by simp
    qed
  qed
qed

lemma ErasePeers_keeps:
  assumes "ErasePeers rnd p = Some p'" and "policy_ok p" and "0 \<le> rnd"
  shows "policy_ok p' \<and> set (po_peers p') \<subseteq> set (po_peers p) \<and>
    (\<forall>pe\<in>set (po_peers p) - set (po_peers p'). IsEraseCandidate pe)"
proof (cases "po_peers p = []")
  case True
  with assms show ?thesis by (simp add: ErasePeers_def)
next
  case False
  then obtain ps ec where r: "erase_loop (min (length (po_peers p)) 300) (po_peers p) rnd (-1) = Some (ps, ec)"
    using assms(1) by (auto simp: ErasePeers_def split: option.splits)
  have k: "sorted_peers ps" "set ps \<subseteq> set (po_peers p)" "length ps \<le> length (po_peers p)" "erasable_at ps ec"
    "\<forall>pe\<in>set (po_peers p) - set ps. IsEraseCandidate pe"
    using erase_loop_keeps [OF r] assms(2,3) by (simp_all add: policy_ok_def erasable_at_def)
  show ?thesis
  proof (cases "ec > -1")
    case True
    with k(4) have ec: "nat ec < length ps" "IsEraseCandidate (ps ! nat ec)"
      by (auto simp: erasable_at_def)
    have "p' = p\<lparr>po_peers := slice_delete ps (nat ec)\<rparr>"
      using assms(1) r True False by (auto simp: ErasePeers_def split: if_splits)
    moreover have "IsEraseCandidate x" if "x \<in> set (po_peers p)" "x \<notin> set (slice_delete ps (nat ec))" for x
      using that k(5) set_slice_delete [OF ec(1)] ec(2) by (metis DiffI insertE)
    ultimately show ?thesis
      using k ec assms(2) set_slice_delete_subset [of ps "nat ec"] ep_order.csorted_delete [OF k(1)]
      by (auto simp: policy_ok_def)
  next
    case neg: False
    have "p' = p\<lparr>po_peers := ps\<rparr>"
      using assms(1) r neg False by (auto simp: ErasePeers_def split: if_splits)
    then show ?thesis using k assms(2) by (auto simp: policy_ok_def)
  qed
qed

text \<open>Looking a peer up by its endpoint, by binary search or from the front.\<close>

lemma FindPeer_iff:
  assumes "sorted_peers (po_peers p)"
  shows "FindPeer p ep = Some i \<longleftrightarrow> i < length (po_peers p) \<and> pe_Endpoint (po_peers p ! i) = ep"
proof -
  obtain pos found where b: "binarySearchFunc (\<lambda>x. ep_Compare (pe_Endpoint x) ep) (po_peers p) = (pos, found)"
    by (meson surj_pair)
  note f = ep_order.binarySearch_found [OF assms TrueI b]
  have "FindPeer p ep = (if found then Some pos else None)"
    using b by (simp add: FindPeer_def pe_Compare_def NewPeer_def)
  moreover have "i = pos" if "i < length (po_peers p)" "pe_Endpoint (po_peers p ! i) = ep" "found"
  proof -
    have "map pe_Endpoint (po_peers p) ! i = map pe_Endpoint (po_peers p) ! pos"
      using that f(3) by simp
    then show ?thesis
      using ep_order.csorted_distinct [OF assms] that(1) f(3) that(3) nth_eq_iff_index_eq by fastforce
  qed
  moreover have "found" if "i < length (po_peers p)" "pe_Endpoint (po_peers p ! i) = ep"
    using that f(2) by force
  ultimately show ?thesis using f(3) by (auto split: if_splits)
qed

lemma po_Get_None: "po_Get p ep = None \<longleftrightarrow> (\<forall>pe\<in>set (po_peers p). pe_Endpoint pe \<noteq> ep)"
  by (simp add: po_Get_def find_None_iff all_set_conv_all_nth)

lemma po_Get_iff:
  assumes "sorted_peers (po_peers p)"
  shows "po_Get p ep = Some i \<longleftrightarrow> i < length (po_peers p) \<and> pe_Endpoint (po_peers p ! i) = ep"
proof
  show get: "i < length (po_peers p) \<and> pe_Endpoint (po_peers p ! i) = ep" if "po_Get p ep = Some i" for i
    using that by (auto simp: po_Get_def find_Some_iff)
  assume i: "i < length (po_peers p) \<and> pe_Endpoint (po_peers p ! i) = ep"
  then have "po_peers p ! i \<in> set (po_peers p)" by simp
  with i have "po_Get p ep \<noteq> None" unfolding po_Get_None by blast
  then obtain j where j: "po_Get p ep = Some j" by blast
  from get [OF j] i have "j = i"
    using ep_order.csorted_distinct [OF assms] by (metis length_map nth_eq_iff_index_eq nth_map)
  with j show "po_Get p ep = Some i" by simp
qed

lemma FindPeer_Get: "sorted_peers (po_peers p) \<Longrightarrow> FindPeer p ep = po_Get p ep"
  by (cases "FindPeer p ep"; cases "po_Get p ep") (metis FindPeer_iff po_Get_iff option.distinct(1) option.inject)+

text \<open>Inserting merges the sources of a known peer and keeps all others.\<close>

lemma insert_peer_spec:
  assumes s: "sorted_peers (po_peers p)" and r: "insert_peer peer p = (p', added)"
  shows "sorted_peers (po_peers p') \<and> po_roundRobin p' = po_roundRobin p \<and>
    (case po_Get p (pe_Endpoint peer) of
       Some i \<Rightarrow> \<not> added \<and> po_peers p' = (po_peers p)[i := (po_peers p ! i)
           \<lparr>pe_SourceFlag := pe_SourceFlag (po_peers p ! i) OR pe_SourceFlag peer\<rparr>]
     | None \<Rightarrow> added \<and> set (po_peers p') = insert peer (set (po_peers p)) \<and>
         length (po_peers p') = Suc (length (po_peers p)))"
proof -
  obtain pos found where b: "binarySearchFunc (\<lambda>x. ep_Compare (pe_Endpoint x) (pe_Endpoint peer)) (po_peers p) = (pos, found)"
    by (meson surj_pair)
  note f = ep_order.binarySearch_found [OF s TrueI b]
  have p': "(p', added) = (if found then (p\<lparr>po_peers := (po_peers p)[pos := (po_peers p ! pos)
        \<lparr>pe_SourceFlag := pe_SourceFlag (po_peers p ! pos) OR pe_SourceFlag peer\<rparr>]\<rparr>, False)
      else (p\<lparr>po_peers := slice_insert (po_peers p) pos peer\<rparr>, True))"
    using r b by (simp add: insert_peer_def pe_Compare_def)
  show ?thesis
  proof (cases found)
    case True
    then have "po_Get p (pe_Endpoint peer) = Some pos" using f(3) po_Get_iff [OF s] by simp
    with True p' show ?thesis using ep_order.csorted_update [OF s] by simp
  next
    case False
    then have "po_Get p (pe_Endpoint peer) = None" using f(2) unfolding po_Get_None by (metis image_eqI)
    with False p' b show ?thesis
      using ep_order.csorted_insert [OF s TrueI, of peer pos] f(1) by simp
  qed
qed

lemma po_AddPeer_ok:
  assumes "policy_ok p" and "0 \<le> rnd" and "po_AddPeer rnd peer p = Some (p', r)"
  shows "policy_ok p' \<and> (\<forall>pe\<in>set (po_peers p). pe_Connection pe \<noteq> None \<longrightarrow>
    (\<exists>pe'\<in>set (po_peers p'). pe_Endpoint pe' = pe_Endpoint pe \<and> pe_Connection pe' = pe_Connection pe))"
proof -
  obtain p1 where p1: "(if int (length (po_peers p)) \<ge> MaxPeerListSize then ErasePeers rnd p else Some p) = Some p1"
    using assms(3) by (auto simp: po_AddPeer_def split: option.splits)
  have ok: "policy_ok p1" "set (po_peers p1) \<subseteq> set (po_peers p)"
    "\<forall>pe\<in>set (po_peers p) - set (po_peers p1). IsEraseCandidate pe"
    using p1 ErasePeers_keeps [OF _ assms(1,2)] assms(1) by (auto split: if_splits)
  have kept: "pe \<in> set (po_peers p1)" if "pe \<in> set (po_peers p)" "pe_Connection pe \<noteq> None" for pe
  proof -
    have "\<not> IsEraseCandidate pe" using that(2) by (simp add: IsEraseCandidate_def)
    with ok(3) that(1) show ?thesis by blast
  qed
  show ?thesis
  proof (cases "int (length (po_peers p1)) \<ge> MaxPeerListSize")
    case True
    with p1 assms(3) have "p' = p1" by (simp add: po_AddPeer_def)
    with ok kept show ?thesis by blast
  next
    case False
    obtain added where ins: "insert_peer peer p1 = (p', added)"
      using False p1 assms(3) by (auto simp: po_AddPeer_def split: prod.splits)
    have s: "sorted_peers (po_peers p1)" using ok(1) by (simp add: policy_ok_def)
    note spec = insert_peer_spec [OF s ins]
    have "\<exists>pe'\<in>set (po_peers p'). pe_Endpoint pe' = pe_Endpoint pe \<and> pe_Connection pe' = pe_Connection pe"
      if mem: "pe \<in> set (po_peers p1)" for pe
    proof (cases "po_Get p1 (pe_Endpoint peer)")
      case None
      with spec mem show ?thesis by auto
    next
      case (Some i)
      then have i: "i < length (po_peers p1)" using po_Get_iff [OF s] by simp
      obtain j where j: "j < length (po_peers p1)" "pe = po_peers p1 ! j"
        using mem by (auto simp: in_set_conv_nth)
      have "pe_Endpoint (po_peers p' ! j) = pe_Endpoint pe \<and> pe_Connection (po_peers p' ! j) = pe_Connection pe"
        using spec Some i j by (cases "j = i") auto
      moreover have "po_peers p' ! j \<in> set (po_peers p')" using spec Some j by simp
      ultimately show ?thesis by blast
    qed
    moreover have "policy_ok p'"
      using spec ok(1) False by (auto simp: policy_ok_def MaxPeerListSize_def split: option.splits)
    ultimately show ?thesis using kept by blast
  qed
qed

lemma SetConnection_ok: "policy_ok p \<Longrightarrow> policy_ok (SetConnection i c p)"
  by (simp add: policy_ok_def SetConnection_def ep_order.csorted_update)

lemma NewConnection_ok:
  "policy_ok p \<Longrightarrow> 0 \<le> rnd \<Longrightarrow> NewConnection rnd c ep p = Some (p', r) \<Longrightarrow> policy_ok p'"
  using po_AddPeer_ok [of p rnd "NewPeerWithSource ep False 0"]
  by (auto simp: NewConnection_def SetConnection_ok split: option.splits sum.splits bool.splits if_splits)

lemma ConnectionClosed_ok:
  assumes "policy_ok p" and "ConnectionClosed peer code failed t p = Some p'"
  shows "policy_ok p'"
proof (cases peer)
  case None
  with assms show ?thesis by (simp add: ConnectionClosed_def)
next
  case (Some i)
  show ?thesis
  proof (cases "idx (po_peers p) (int i)")
    case None
    with assms Some show ?thesis by (simp add: ConnectionClosed_def)
  next
    case pe': (Some pe)
    then have pe: "i < length (po_peers p)" "po_peers p ! i = pe"
      by (auto simp: idx_Some_iff)
    have upd: "policy_ok (p\<lparr>po_peers := (po_peers p)[i := q]\<rparr>)" if "pe_Endpoint q = pe_Endpoint pe" for q
      using assms(1) that pe by (simp add: policy_ok_def ep_order.csorted_update)
    have del: "policy_ok (p\<lparr>po_peers := slice_delete qs j\<rparr>)" if "policy_ok (p\<lparr>po_peers := qs\<rparr>)" "j < length qs" for qs j
      using that by (auto simp: policy_ok_def ep_order.csorted_delete)
    have range: "j < n" if "find P [0..<n] = Some j" for P j n
      using that by (auto simp: find_Some_iff)
    show ?thesis
      using assms(2) Some pe upd del range
      by (auto simp: ConnectionClosed_def Let_def idx_def split: option.splits if_splits)
  qed
qed

section \<open>The candidate is a best one\<close>

text \<open>\<open>ComparePeers\<close> is the lexicographic order of these keys.\<close>

definition peer_key :: "Peer \<Rightarrow> int \<times> bool \<times> int \<times> int \<times> int" where
  "peer_key pe = (pe_FailCount pe, \<not> IsLocalAddress (ep_ip (pe_Endpoint pe)), pe_LastConnected pe,
     pe_NextConnection pe, - uint (GetSourceRank (pe_SourceFlag pe)))"

lemma ComparePeers_key: "ComparePeers lhs rhs \<longleftrightarrow> peer_key lhs < peer_key rhs"
  by (auto simp: ComparePeers_def peer_key_def Let_def less_prod_def word_less_def word_uint_eq_iff)

definition eligible :: "int \<Rightarrow> Peer \<Rightarrow> bool" where
  "eligible t pe \<longleftrightarrow> IsConnectCandidate pe \<and> due t pe"

text \<open>\<open>c\<close> is a best eligible one among the peers at the indices in \<open>V\<close>, or there is none.\<close>

definition best_in :: "int \<Rightarrow> Peer list \<Rightarrow> nat set \<Rightarrow> int \<Rightarrow> bool" where
  "best_in t ps V c \<longleftrightarrow>
     (if c = -1 then \<forall>v\<in>V. \<not> eligible t (ps ! v)
      else 0 \<le> c \<and> c < int (length ps) \<and> eligible t (ps ! nat c) \<and>
        (\<forall>v\<in>V. eligible t (ps ! v) \<longrightarrow> \<not> ComparePeers (ps ! v) (ps ! nat c)))"

lemma best_in_step:
  assumes "best_in t ps V c" and "cur < length ps"
  shows "best_in t ps (insert cur V)
    (if \<not> IsConnectCandidate (ps ! cur) \<or>
        (c \<noteq> -1 \<and> (case idx ps c of None \<Rightarrow> False | Some b \<Rightarrow> ComparePeers b (ps ! cur))) \<or>
        \<not> due t (ps ! cur) then c else int cur)"
proof -
  have c: "idx ps c = Some (ps ! nat c)" if "c \<noteq> -1"
    using assms(1) that by (simp add: best_in_def idx_def)
  show ?thesis
    using assms c by (cases "c = -1") (auto simp: best_in_def eligible_def ComparePeers_key)
qed

lemma mod_Suc_step: "r < n \<Longrightarrow> (if Suc r \<ge> n then 0 else Suc r) = Suc r mod n" for r n :: nat
  by (cases "Suc r = n") auto

lemma find_loop_best:
  assumes len: "0 < length ps" "int (length ps) \<le> MaxPeerListSize"
    and "n \<le> 300" and "300 - n \<le> length ps"
    and "(if rr \<ge> int (length ps) then 0 else rr) = int ((s + (300 - n)) mod length ps)"
    and "best_in t ps {(s + j) mod length ps | j. j < 300 - n} c" and "0 \<le> rr"
  shows "\<exists>rr' c'. find_loop t n ps rr c (-1) = Some (ps, rr', c', -1) \<and> 0 \<le> rr' \<and>
    best_in t ps {(s + j) mod length ps | j. j < length ps} c'"
  using assms(3-)
proof (induction n arbitrary: rr c)
  case 0
  then show ?case using len by (auto simp: MaxPeerListSize_def)
next
  case (Suc n)
  define it where "it = 300 - Suc n"
  define m where "m = length ps"
  have m: "0 < m" "m \<le> 100" using len by (simp_all add: m_def MaxPeerListSize_def)
  show ?case
  proof (cases "it < m")
    case False
    with Suc.prems(2) have it: "it = m" by (simp add: it_def m_def)
    then have "\<not> 300 - Suc n < min (length ps) 300" by (simp add: it_def m_def)
    then have "find_loop t (Suc n) ps rr c (-1) = Some (ps, rr, c, -1)"
      by (subst find_loop.simps(2)) (rule if_P)
    with Suc.prems(4,5) it show ?thesis by (auto simp: it_def m_def)
  next
    case True
    define cur where "cur = (s + it) mod m"
    have cur: "cur < m" using m by (simp add: cur_def)
    have curr: "(if rr \<ge> int (length ps) then 0 else rr) = int cur"
      using Suc.prems(3) by (simp add: cur_def it_def m_def)
    have at: "idx ps (int cur) = Some (ps ! cur)" using cur by (simp add: idx_def m_def)
    define c' where "c' = (if \<not> IsConnectCandidate (ps ! cur) \<or>
        (c \<noteq> -1 \<and> (case idx ps c of None \<Rightarrow> False | Some b \<Rightarrow> ComparePeers b (ps ! cur))) \<or>
        \<not> due t (ps ! cur) then c else int cur)"
    have small: "\<not> int (length ps) > MaxPeerListSize" using len(2) by simp
    have go: "300 - Suc n < min (length ps) 300" using True m by (simp add: it_def m_def)
    have step: "find_loop t (Suc n) ps rr c (-1) = find_loop t n ps (int cur + 1) c' (-1)"
      by (subst find_loop.simps(2)) (simp only: go curr at Let_def small not_True_eq_False if_False
          option.case simp_thms c'_def)
    have n: "300 - n = Suc it" using Suc.prems(1) by (simp add: it_def)
    have V: "{(s + j) mod length ps | j. j < 300 - n} = insert cur {(s + j) mod length ps | j. j < 300 - Suc n}"
      unfolding n it_def [symmetric] less_Suc_eq cur_def m_def by blast
    have next_rr: "(if int cur + 1 \<ge> int (length ps) then 0 else int cur + 1) = int ((s + (300 - n)) mod length ps)"
    proof -
      have "Suc cur mod m = (s + Suc it) mod m" by (simp add: cur_def mod_Suc_eq)
      moreover have "int (if Suc cur \<ge> m then 0 else Suc cur) = int (Suc cur mod m)"
        using mod_Suc_step [OF cur] by simp
      ultimately show ?thesis unfolding n m_def by (auto split: if_splits)
    qed
    have best: "best_in t ps {(s + j) mod length ps | j. j < 300 - n} c'"
      unfolding V c'_def using Suc.prems(4) cur by (intro best_in_step) (simp_all add: m_def)
    show ?thesis
      unfolding step using Suc.prems(1) True n by (intro Suc.IH next_rr best) (simp_all add: m_def)
  qed
qed

lemma FindConnectCandidate_best:
  assumes ok: "policy_ok p"
  shows "\<exists>rr c. FindConnectCandidate t p = Some (p\<lparr>po_roundRobin := rr\<rparr>, c) \<and> 0 \<le> rr \<and>
    (case c of
       None \<Rightarrow> \<forall>pe\<in>set (po_peers p). \<not> eligible t pe
     | Some i \<Rightarrow> i < length (po_peers p) \<and> eligible t (po_peers p ! i) \<and>
         (\<forall>pe\<in>set (po_peers p). eligible t pe \<longrightarrow> \<not> ComparePeers pe (po_peers p ! i)))"
proof (cases "po_peers p = []")
  case True
  have "find_loop t (Suc n) [] rr c ec = Some ([], rr, c, ec)" for n rr c ec
    by (subst find_loop.simps(2)) simp
  from this [of 299] have "find_loop t 300 [] rr c ec = Some ([], rr, c, ec)" for rr c ec by simp
  then have "FindConnectCandidate t p = Some (p\<lparr>po_roundRobin := 0\<rparr>, None)"
    using True ok by (simp add: FindConnectCandidate_def policy_ok_def)
  then show ?thesis using True by (intro exI [of _ 0] exI [of _ None]) simp
next
  case False
  define ps where "ps = po_peers p"
  define rr0 where "rr0 = (if po_roundRobin p \<ge> int (length ps) then 0 else po_roundRobin p)"
  have len: "0 < length ps" "int (length ps) \<le> MaxPeerListSize" "0 \<le> rr0" "rr0 < int (length ps)"
    using False ok by (auto simp: ps_def policy_ok_def rr0_def)
  have all: "{(nat rr0 + j) mod length ps | j. j < length ps} = {..<length ps}" (is "?V = _")
  proof
    show "?V \<subseteq> {..<length ps}" using len(1) by auto
    show "{..<length ps} \<subseteq> ?V"
    proof
      fix v
      assume "v \<in> {..<length ps}"
      then have v: "v < length ps" by simp
      define j where "j = (if nat rr0 \<le> v then v - nat rr0 else v + length ps - nat rr0)"
      have r: "nat rr0 < length ps" using len(3,4) by linarith
      have "j < length ps" using v r by (auto simp: j_def)
      moreover have "(nat rr0 + j) mod length ps = v" using v r by (auto simp: j_def)
      ultimately show "v \<in> ?V" by blast
    qed
  qed
  obtain rr c where r: "find_loop t 300 ps rr0 (-1) (-1) = Some (ps, rr, c, -1)" "0 \<le> rr"
    "best_in t ps {..<length ps} c"
    using find_loop_best [OF len(1,2), of 300 rr0 "nat rr0" t "-1"] len(3,4)
    unfolding all by (auto simp: best_in_def nat_less_iff)
  have "FindConnectCandidate t p = Some (p\<lparr>po_roundRobin := rr\<rparr>, if c = -1 then None else Some (nat c))"
    using r(1) by (simp add: FindConnectCandidate_def ps_def [symmetric] rr0_def [symmetric] Let_def)
  with r(2,3) show ?thesis
    by (intro exI [of _ rr] exI [of _ "if c = -1 then None else Some (nat c)"])
      (auto simp: best_in_def ps_def all_set_conv_all_nth)
qed

section \<open>Every state the program reaches\<close>

inductive policy_step :: "Policy \<Rightarrow> Policy \<Rightarrow> bool" where
  add: "0 \<le> rnd \<Longrightarrow> po_AddPeer rnd peer p = Some (p', r) \<Longrightarrow> policy_step p p'"
| new: "0 \<le> rnd \<Longrightarrow> NewConnection rnd c ep p = Some (p', r) \<Longrightarrow> policy_step p p'"
| find: "FindConnectCandidate t p = Some (p', r) \<Longrightarrow> policy_step p p'"
| set: "policy_step p (SetConnection i c p)"
| closed: "ConnectionClosed i code failed t p = Some p' \<Longrightarrow> policy_step p p'"

inductive policy_reachable :: "Policy \<Rightarrow> bool" where
  init: "policy_reachable NewPolicy"
| step: "policy_reachable p \<Longrightarrow> policy_step p p' \<Longrightarrow> policy_reachable p'"

inductive_cases policy_stepE: "policy_step p p'"

lemma FindConnectCandidate_ok:
  "policy_ok p \<Longrightarrow> FindConnectCandidate t p = Some (p', r) \<Longrightarrow> policy_ok p'"
  using FindConnectCandidate_best [of p t] by (auto simp: policy_ok_def)

lemma policy_step_ok: "policy_step p p' \<Longrightarrow> policy_ok p \<Longrightarrow> policy_ok p'"
  by (erule policy_stepE)
    (auto dest: po_AddPeer_ok NewConnection_ok FindConnectCandidate_ok ConnectionClosed_ok
      intro: SetConnection_ok)

lemma policy_reachable_ok: "policy_reachable p \<Longrightarrow> policy_ok p"
  by (induction rule: policy_reachable.induct) (auto intro: NewPolicy_ok policy_step_ok)

section \<open>Properties\<close>

definition demo_peer :: "nat \<Rightarrow> Peer" where
  "demo_peer i = (NewPeerWithSource (NewEndpoint 1 (int i)) True (ucast PeerServer))"

text \<open>C30: in every state the program can bring the peer list to, it is sorted by endpoint with no
  endpoint twice and holds at most a hundred peers, so the binary search finds the same
  peer as a search from the front.\<close>

theorem policy_invariant:
  assumes "policy_reachable p"
  shows "distinct (map pe_Endpoint (po_peers p)) \<and>
    sorted_wrt (\<lambda>a b. pe_Compare a b < 0) (po_peers p) \<and>
    int (length (po_peers p)) \<le> MaxPeerListSize \<and> FindPeer p ep = po_Get p ep"
proof -
  have s: "sorted_peers (po_peers p)" "int (length (po_peers p)) \<le> MaxPeerListSize"
    using policy_reachable_ok [OF assms] by (simp_all add: policy_ok_def)
  then show ?thesis
    using ep_order.csorted_distinct [OF s(1)] FindPeer_Get [OF s(1)]
    by (simp add: ep_order.csorted_def pe_Compare_def)
qed

theorem policy_invariant_witness:
  "FindPeer NewPolicy (NewEndpoint 1 2) = po_Get NewPolicy (NewEndpoint 1 2)"
  using policy_invariant [OF policy_reachable.init] by simp

text \<open>Adding a peer whose endpoint is known only merges its sources; otherwise the peer is in
  the list afterwards, and no connected peer is lost to make room for it.\<close>

theorem AddPeer_spec:
  assumes "policy_ok p" and "0 \<le> rnd" and "po_AddPeer rnd peer p = Some (p', Inr added)"
  shows "policy_ok p' \<and> (\<exists>i. po_Get p' (pe_Endpoint peer) = Some i \<and>
      (added \<longrightarrow> po_peers p' ! i = peer)) \<and>
    (\<forall>pe\<in>set (po_peers p). pe_Connection pe \<noteq> None \<longrightarrow>
      (\<exists>pe'\<in>set (po_peers p'). pe_Endpoint pe' = pe_Endpoint pe \<and> pe_Connection pe' = pe_Connection pe))"
proof -
  obtain p1 where p1: "(if int (length (po_peers p)) \<ge> MaxPeerListSize then ErasePeers rnd p else Some p) = Some p1"
    "insert_peer peer p1 = (p', added)"
    using assms(3) by (auto simp: po_AddPeer_def split: option.splits if_splits prod.splits)
  have "policy_ok p1"
    using p1(1) ErasePeers_keeps [OF _ assms(1,2)] assms(1) by (auto split: if_splits)
  then have s: "sorted_peers (po_peers p1)" by (simp add: policy_ok_def)
  note spec = insert_peer_spec [OF s p1(2)]
  have s': "sorted_peers (po_peers p')" using spec by simp
  have "\<exists>i. po_Get p' (pe_Endpoint peer) = Some i \<and> (added \<longrightarrow> po_peers p' ! i = peer)"
  proof (cases "po_Get p1 (pe_Endpoint peer)")
    case None
    with spec have "peer \<in> set (po_peers p')" by simp
    then obtain i where "i < length (po_peers p')" "po_peers p' ! i = peer" by (auto simp: in_set_conv_nth)
    then show ?thesis using po_Get_iff [OF s', of "pe_Endpoint peer" i] by auto
  next
    case (Some i)
    then have "i < length (po_peers p1)" "pe_Endpoint (po_peers p1 ! i) = pe_Endpoint peer"
      using po_Get_iff [OF s] by simp_all
    with spec Some have "po_Get p' (pe_Endpoint peer) = Some i" "\<not> added"
      using po_Get_iff [OF s', of "pe_Endpoint peer" i] by auto
    then show ?thesis by simp
  qed
  with po_AddPeer_ok [OF assms] show ?thesis by blast
qed

theorem AddPeer_spec_witness:
  "\<exists>p'. po_AddPeer 0 (demo_peer 5) NewPolicy = Some (p', Inr True) \<and>
     (\<exists>i. po_Get p' (NewEndpoint 1 5) = Some i \<and> po_peers p' ! i = demo_peer 5)"
proof -
  have b: "binarySearchFunc c [] = (0, False)" for c :: "Peer \<Rightarrow> int"
    by (simp add: binarySearchFunc_def go_search.simps)
  obtain p' where p': "po_AddPeer 0 (demo_peer 5) NewPolicy = Some (p', Inr True)"
    by (simp add: po_AddPeer_def NewPolicy_def MaxPeerListSize_def insert_peer_def b)
  have "pe_Endpoint (demo_peer 5) = NewEndpoint 1 5"
    by (simp add: demo_peer_def NewPeerWithSource_def NewPeer_def)
  with p' AddPeer_spec [OF NewPolicy_ok _ p'] show ?thesis by simp
qed

text \<open>C31: the peer chosen for a connection may be connected to now, and no other such peer is
  preferred to it; none is chosen only when there is none. The search never fails.\<close>

theorem FindConnectCandidate_correct:
  assumes "policy_ok p"
  shows "\<exists>rr c. FindConnectCandidate t p = Some (p\<lparr>po_roundRobin := rr\<rparr>, c) \<and>
    (case c of
       None \<Rightarrow> \<forall>pe\<in>set (po_peers p). \<not> (IsConnectCandidate pe \<and> due t pe)
     | Some i \<Rightarrow> i < length (po_peers p) \<and> IsConnectCandidate (po_peers p ! i) \<and> due t (po_peers p ! i) \<and>
         (\<forall>pe\<in>set (po_peers p). IsConnectCandidate pe \<and> due t pe \<longrightarrow> \<not> ComparePeers pe (po_peers p ! i)))"
  using FindConnectCandidate_best [OF assms, of t] unfolding eligible_def conj_assoc by blast

definition demo_policy :: Policy where
  "demo_policy = \<lparr>po_roundRobin = 7, po_peers = [demo_peer 1, (demo_peer 2)\<lparr>pe_FailCount := 1\<rparr>]\<rparr>"

theorem FindConnectCandidate_correct_witness:
  "\<exists>rr i. FindConnectCandidate 99 demo_policy = Some (demo_policy\<lparr>po_roundRobin := rr\<rparr>, Some i) \<and> i < 2"
proof -
  have ep: "pe_Endpoint (demo_peer i) = NewEndpoint 1 (int i)" for i
    by (simp add: demo_peer_def NewPeerWithSource_def NewPeer_def)
  have ok: "policy_ok demo_policy"
    by (simp add: policy_ok_def demo_policy_def ep_order.csorted_def ep NewEndpoint_def ep_Compare_def
        MaxPeerListSize_def)
  have "IsConnectCandidate (demo_peer 1) \<and> due 99 (demo_peer 1)"
    by (simp add: IsConnectCandidate_def due_def demo_peer_def NewPeerWithSource_def NewPeer_def)
  with FindConnectCandidate_correct [OF ok, of 99] show ?thesis
    by (force simp: demo_policy_def split: option.splits)
qed

text \<open>When the list is full and the random start of \<open>ErasePeers\<close> is its last peer, one that
  is erased at once, the next round indexes out of range: adding a peer crashes.\<close>

theorem ErasePeers_out_of_range:
  assumes "length (po_peers p) = 100" and "IsEraseCandidate (po_peers p ! 99)"
    and "shouldEraseImmediately (po_peers p ! 99)"
  shows "ErasePeers 99 p = None \<and> po_AddPeer 99 peer p = None"
proof -
  have "erase_loop 99 (slice_delete (po_peers p) 99) 100 (-1) = None"
    using assms(1) erase_loop.simps(2) [of 98 "slice_delete (po_peers p) 99" 100 "-1"]
    by (simp add: MaxPeerListSize_def idx_def)
  then have "erase_loop 100 (po_peers p) 99 (-1) = None"
    using assms erase_loop.simps(2) [of 99 "po_peers p" 99 "-1"]
    by (simp add: MaxPeerListSize_def idx_def)
  then have "ErasePeers 99 p = None"
    using assms(1) by (auto simp: ErasePeers_def)
  then show ?thesis using assms(1) by (simp add: po_AddPeer_def MaxPeerListSize_def)
qed

definition full_policy :: Policy where
  "full_policy = \<lparr>po_roundRobin = 0, po_peers = map (\<lambda>i. (NewPeerWithSource (NewEndpoint 1 (int i)) False
     (ucast PeerResume))\<lparr>pe_FailCount := 1\<rparr>) [0..<100]\<rparr>"

theorem ErasePeers_out_of_range_witness: "policy_ok full_policy \<and> ErasePeers 99 full_policy = None"
proof -
  have "sorted_wrt (\<lambda>i j. i < j) [0..<100::nat]" by (simp add: sorted_wrt_upt)
  then have "policy_ok full_policy"
    by (auto simp: policy_ok_def full_policy_def ep_order.csorted_def sorted_wrt_map MaxPeerListSize_def
        NewPeerWithSource_def NewPeer_def NewEndpoint_def ep_Compare_def elim!: sorted_wrt_mono_rel [rotated])
  moreover have "ErasePeers 99 full_policy = None"
    by (rule ErasePeers_out_of_range [THEN conjunct1])
      (simp_all add: full_policy_def IsEraseCandidate_def IsConnectCandidate_def shouldEraseImmediately_def
        is_resume_def NewPeerWithSource_def NewPeer_def)
  ultimately show ?thesis by simp
qed

end
