(* ===== verification/Stats.thy ===== *)
theory Stats
  imports Prelude
begin

text \<open>
  Traffic counters (\<^verbatim>\<open>stat_channel.go\<close>, \<^verbatim>\<open>statistics.go\<close>) and the download speed
  a transfer estimates its remaining time from (\<^verbatim>\<open>speed_monitor.go\<close>). Byte counts are far
  below the range of an \<^verbatim>\<open>int64\<close> and are integers here. The ring buffer of the speed
  monitor is shown to be a sliding window.
\<close>

section \<open>Speed monitor\<close>

definition InvalidSpeed :: int where "InvalidSpeed = -1"

record SpeedMonitor =
  sm_speedSamples :: "int list"
  sm_roundRobin :: nat
  sm_totalSamples :: nat

definition NewSpeedMonitor :: "nat \<Rightarrow> SpeedMonitor" where
  "NewSpeedMonitor samplesLimit =
     \<lparr>sm_speedSamples = replicate samplesLimit 0, sm_roundRobin = 0, sm_totalSamples = 0\<rparr>"

definition AddSample :: "int \<Rightarrow> SpeedMonitor \<Rightarrow> SpeedMonitor" where
  "AddSample speedSample s =
     (let s1 = (if sm_roundRobin s = length (sm_speedSamples s) then s\<lparr>sm_roundRobin := 0\<rparr> else s);
          s2 = (if sm_roundRobin s1 < length (sm_speedSamples s1) then
                  s1\<lparr>sm_speedSamples := (sm_speedSamples s1)[sm_roundRobin s1 := speedSample],
                     sm_roundRobin := sm_roundRobin s1 + 1\<rparr>
                else s1)
      in if sm_totalSamples s2 \<noteq> length (sm_speedSamples s2)
         then s2\<lparr>sm_totalSamples := sm_totalSamples s2 + 1\<rparr> else s2)"

definition AverageSpeed :: "SpeedMonitor \<Rightarrow> int" where
  "AverageSpeed s =
     (if sm_totalSamples s = 0 then InvalidSpeed
      else go_div (sum_list (map (\<lambda>i. sm_speedSamples s ! i) [0..<sm_totalSamples s]))
             (int (sm_totalSamples s)))"

definition NumSamples :: "SpeedMonitor \<Rightarrow> nat" where
  "NumSamples s = sm_totalSamples s"

definition sm_Clear :: "SpeedMonitor \<Rightarrow> SpeedMonitor" where
  "sm_Clear s = s\<lparr>sm_roundRobin := 0, sm_totalSamples := 0\<rparr>"

section \<open>Channels\<close>

record StatChannel =
  ch_secondCounter :: int
  ch_totalCounter :: int
  ch_average5Sec :: int
  ch_average30Sec :: int
  ch_samples :: "int list"

definition NewStatChannel :: StatChannel where
  "NewStatChannel =
     \<lparr>ch_secondCounter = 0, ch_totalCounter = 0, ch_average5Sec = 0, ch_average30Sec = 0,
      ch_samples = [0, 0, 0, 0, 0]\<rparr>"

definition ch_Add :: "int \<Rightarrow> StatChannel \<Rightarrow> StatChannel" where
  "ch_Add count s =
     s\<lparr>ch_secondCounter := ch_secondCounter s + count, ch_totalCounter := ch_totalCounter s + count\<rparr>"

definition ch_Clear :: "StatChannel \<Rightarrow> StatChannel" where
  "ch_Clear s = s\<lparr>ch_secondCounter := 0, ch_totalCounter := 0, ch_average5Sec := 0,
     ch_average30Sec := 0, ch_samples := [0, 0, 0, 0, 0]\<rparr>"

definition AddChannel :: "StatChannel \<Rightarrow> StatChannel \<Rightarrow> StatChannel" where
  "AddChannel other s =
     s\<lparr>ch_secondCounter := ch_secondCounter s + ch_secondCounter other,
       ch_totalCounter := ch_totalCounter s + ch_totalCounter other\<rparr>"

definition MergeChannel :: "StatChannel \<Rightarrow> StatChannel \<Rightarrow> StatChannel" where
  "MergeChannel other s =
     s\<lparr>ch_secondCounter := ch_secondCounter s + ch_secondCounter other,
       ch_totalCounter := ch_totalCounter s + ch_totalCounter other,
       ch_average5Sec := ch_average5Sec s + ch_average5Sec other,
       ch_average30Sec := ch_average30Sec s + ch_average30Sec other\<rparr>"

text \<open>A tick of no length is a division by zero.\<close>

definition ch_SecondTick :: "int \<Rightarrow> StatChannel \<Rightarrow> StatChannel option" where
  "ch_SecondTick timeIntervalMS s =
     (if timeIntervalMS = 0 then None
      else
        (let sample = go_div (ch_secondCounter s * 1000) timeIntervalMS;
             samples = take 5 (sample # ch_samples s)
         in Some (s\<lparr>ch_samples := samples,
                   ch_average5Sec := go_div (sum_list samples) 5,
                   ch_average30Sec := go_div (ch_average30Sec s * 29) 30 + go_div sample 30,
                   ch_secondCounter := 0\<rparr>)))"

section \<open>Statistics\<close>

text \<open>The array of four channels, by the names of its indices.\<close>

record Statistics =
  st_uploadPayload :: StatChannel
  st_uploadProtocol :: StatChannel
  st_downloadPayload :: StatChannel
  st_downloadProtocol :: StatChannel

definition NewStatistics :: Statistics where
  "NewStatistics =
     \<lparr>st_uploadPayload = NewStatChannel, st_uploadProtocol = NewStatChannel,
      st_downloadPayload = NewStatChannel, st_downloadProtocol = NewStatChannel\<rparr>"

definition st_zip :: "(StatChannel \<Rightarrow> StatChannel \<Rightarrow> StatChannel) \<Rightarrow> Statistics \<Rightarrow> Statistics \<Rightarrow> Statistics" where
  "st_zip f other s =
     \<lparr>st_uploadPayload = f (st_uploadPayload other) (st_uploadPayload s),
      st_uploadProtocol = f (st_uploadProtocol other) (st_uploadProtocol s),
      st_downloadPayload = f (st_downloadPayload other) (st_downloadPayload s),
      st_downloadProtocol = f (st_downloadProtocol other) (st_downloadProtocol s)\<rparr>"

definition st_Add :: "Statistics \<Rightarrow> Statistics \<Rightarrow> Statistics" where
  "st_Add other s = st_zip AddChannel other s"

definition st_Merge :: "Statistics \<Rightarrow> Statistics \<Rightarrow> Statistics" where
  "st_Merge other s = st_zip MergeChannel other s"

definition st_SecondTick :: "int \<Rightarrow> Statistics \<Rightarrow> Statistics option" where
  "st_SecondTick timeIntervalMS s =
     (case (ch_SecondTick timeIntervalMS (st_uploadPayload s), ch_SecondTick timeIntervalMS (st_uploadProtocol s),
            ch_SecondTick timeIntervalMS (st_downloadPayload s), ch_SecondTick timeIntervalMS (st_downloadProtocol s)) of
        (Some a, Some b, Some c, Some d) \<Rightarrow>
          Some \<lparr>st_uploadPayload = a, st_uploadProtocol = b, st_downloadPayload = c, st_downloadProtocol = d\<rparr>
      | _ \<Rightarrow> None)"

definition st_Clear :: "Statistics \<Rightarrow> Statistics" where
  "st_Clear s =
     \<lparr>st_uploadPayload = ch_Clear (st_uploadPayload s), st_uploadProtocol = ch_Clear (st_uploadProtocol s),
      st_downloadPayload = ch_Clear (st_downloadPayload s),
      st_downloadProtocol = ch_Clear (st_downloadProtocol s)\<rparr>"

definition ReceiveBytes :: "int \<Rightarrow> int \<Rightarrow> Statistics \<Rightarrow> Statistics" where
  "ReceiveBytes protocolBytes payloadBytes s =
     s\<lparr>st_downloadProtocol := ch_Add protocolBytes (st_downloadProtocol s),
       st_downloadPayload := ch_Add payloadBytes (st_downloadPayload s)\<rparr>"

definition SendBytes :: "int \<Rightarrow> int \<Rightarrow> Statistics \<Rightarrow> Statistics" where
  "SendBytes protocolBytes payloadBytes s =
     s\<lparr>st_uploadProtocol := ch_Add protocolBytes (st_uploadProtocol s),
       st_uploadPayload := ch_Add payloadBytes (st_uploadPayload s)\<rparr>"

definition TotalUpload :: "Statistics \<Rightarrow> int" where
  "TotalUpload s = ch_totalCounter (st_uploadPayload s) + ch_totalCounter (st_uploadProtocol s)"

definition LastDownload :: "Statistics \<Rightarrow> int" where
  "LastDownload s = ch_secondCounter (st_downloadPayload s) + ch_secondCounter (st_downloadProtocol s)"

definition LastUpload :: "Statistics \<Rightarrow> int" where
  "LastUpload s = ch_secondCounter (st_uploadPayload s) + ch_secondCounter (st_uploadProtocol s)"

definition DownloadRate :: "Statistics \<Rightarrow> int" where
  "DownloadRate s = ch_average5Sec (st_downloadPayload s) + ch_average5Sec (st_downloadProtocol s)"

definition DownloadPayloadRate :: "Statistics \<Rightarrow> int" where
  "DownloadPayloadRate s = ch_average5Sec (st_downloadPayload s)"

definition UploadRate :: "Statistics \<Rightarrow> int" where
  "UploadRate s = ch_average5Sec (st_uploadPayload s) + ch_average5Sec (st_uploadProtocol s)"

definition UploadPayloadRate :: "Statistics \<Rightarrow> int" where
  "UploadPayloadRate s = ch_average5Sec (st_uploadPayload s)"

definition LowPassUploadRate :: "Statistics \<Rightarrow> int" where
  "LowPassUploadRate s = ch_average30Sec (st_uploadPayload s) + ch_average30Sec (st_uploadProtocol s)"

definition LowPassDownloadRate :: "Statistics \<Rightarrow> int" where
  "LowPassDownloadRate s = ch_average30Sec (st_downloadPayload s) + ch_average30Sec (st_downloadProtocol s)"

section \<open>The ring buffer is a sliding window\<close>

text \<open>The samples from the oldest to the newest.\<close>

definition sm_window :: "SpeedMonitor \<Rightarrow> int list" where
  "sm_window s =
     (if sm_totalSamples s < length (sm_speedSamples s) then take (sm_totalSamples s) (sm_speedSamples s)
      else drop (sm_roundRobin s) (sm_speedSamples s) @ take (sm_roundRobin s) (sm_speedSamples s))"

definition sm_ok :: "SpeedMonitor \<Rightarrow> bool" where
  "sm_ok s \<longleftrightarrow>
     sm_totalSamples s \<le> length (sm_speedSamples s) \<and> sm_roundRobin s \<le> length (sm_speedSamples s) \<and>
     (sm_totalSamples s < length (sm_speedSamples s) \<longrightarrow> sm_roundRobin s = sm_totalSamples s)"

lemma NewSpeedMonitor_ok: "sm_ok (NewSpeedMonitor n) \<and> sm_window (NewSpeedMonitor n) = []"
  by (simp add: sm_ok_def sm_window_def NewSpeedMonitor_def)

lemma AddSample_window:
  assumes "sm_ok s"
  shows "sm_ok (AddSample x s) \<and> length (sm_speedSamples (AddSample x s)) = length (sm_speedSamples s) \<and>
    sm_window (AddSample x s) =
      (if length (sm_window s) < length (sm_speedSamples s) then sm_window s @ [x]
       else if sm_speedSamples s = [] then [] else tl (sm_window s) @ [x])"
proof -
  define xs n t r where "xs = sm_speedSamples s" and "n = length xs" and "t = sm_totalSamples s"
    and "r = sm_roundRobin s"
  define i where "i = (if r = n then 0 else r)"
  have ok: "t \<le> n" "r \<le> n" "t < n \<Longrightarrow> r = t"
    using assms by (auto simp: sm_ok_def xs_def n_def t_def r_def)
  show ?thesis
  proof (cases "n = 0")
    case True
    with ok show ?thesis
      by (simp add: sm_ok_def AddSample_def sm_window_def Let_def n_def xs_def t_def r_def)
  next
    case False
    then have i: "i < n" using ok(2) by (auto simp: i_def)
    define s' where "s' = AddSample x s"
    have s': "sm_speedSamples s' = xs[i := x]" "sm_roundRobin s' = Suc i"
      "sm_totalSamples s' = (if t \<noteq> n then Suc t else t)"
      using i by (auto simp: s'_def AddSample_def Let_def xs_def n_def t_def r_def i_def)
    show ?thesis
    proof (cases "t < n")
      case True
      then have it: "i = t" using ok by (simp add: i_def)
      have w: "sm_window s = take t xs" using True by (simp add: sm_window_def t_def xs_def n_def)
      have "sm_window s' = take (Suc t) (xs[t := x])"
        using True it s' by (auto simp: sm_window_def n_def)
      also have "\<dots> = take t xs @ [x]" using True by (simp add: take_Suc_conv_app_nth n_def)
      finally have "sm_window s' = sm_window s @ [x]" using w by simp
      moreover have "length (sm_window s) < n" using w True by (simp add: n_def)
      moreover have "sm_ok s'" using True it s' by (auto simp: sm_ok_def n_def)
      ultimately show ?thesis using s' by (simp add: s'_def xs_def n_def)
    next
      case full: False
      with ok have t: "t = n" by simp
      have w: "sm_window s = drop i xs @ take i xs"
        using t by (simp add: sm_window_def t_def xs_def n_def r_def i_def)
      have "sm_window s' = drop (Suc i) xs @ take (Suc i) (xs[i := x])"
        using t s' by (simp add: sm_window_def n_def)
      also have "\<dots> = tl (drop i xs) @ take i xs @ [x]"
        using i by (simp add: take_Suc_conv_app_nth n_def drop_Suc tl_drop)
      also have "\<dots> = tl (sm_window s) @ [x]"
        using i w by (cases "drop i xs") (auto simp: n_def)
      finally have "sm_window s' = tl (sm_window s) @ [x]" .
      moreover have "length (sm_window s) = n" using w i by (simp add: n_def)
      moreover have "sm_ok s'" using t i s' by (auto simp: sm_ok_def n_def)
      ultimately show ?thesis using s' False by (auto simp: s'_def xs_def n_def)
    qed
  qed
qed

lemma AverageSpeed_window:
  assumes "sm_ok s"
  shows "AverageSpeed s =
    (if sm_window s = [] then InvalidSpeed else go_div (sum_list (sm_window s)) (int (length (sm_window s))))"
proof -
  have m: "map (\<lambda>i. sm_speedSamples s ! i) [0..<sm_totalSamples s] = take (sm_totalSamples s) (sm_speedSamples s)"
    using assms by (intro nth_equalityI) (auto simp: sm_ok_def)
  have len: "length (sm_window s) = sm_totalSamples s"
    using assms by (auto simp: sm_window_def sm_ok_def)
  have "sum_list (take (sm_totalSamples s) (sm_speedSamples s)) = sum_list (sm_window s)"
  proof (cases "sm_totalSamples s < length (sm_speedSamples s)")
    case True
    then show ?thesis by (simp add: sm_window_def)
  next
    case False
    then have "take (sm_totalSamples s) (sm_speedSamples s) = sm_speedSamples s"
      using assms by (simp add: sm_ok_def)
    moreover have "sum_list (drop k ys @ take k ys) = sum_list ys" for k and ys :: "int list"
      by (metis add.commute append_take_drop_id sum_list_append)
    ultimately show ?thesis using False by (simp only: sm_window_def if_False)
  qed
  with m len show ?thesis by (auto simp: AverageSpeed_def)
qed

text \<open>The last \<open>n\<close> of a list.\<close>

definition last_n :: "nat \<Rightarrow> 'a list \<Rightarrow> 'a list" where
  "last_n n xs = drop (length xs - n) xs"

lemma last_n_snoc:
  "0 < n \<Longrightarrow> last_n n (xs @ [x]) = (if length (last_n n xs) < n then last_n n xs @ [x] else tl (last_n n xs) @ [x])"
proof -
  assume n: "0 < n"
  show ?thesis
  proof (cases "length xs < n")
    case True
    then show ?thesis by (simp add: last_n_def)
  next
    case False
    then have "length xs + 1 - n = Suc (length xs - n)" "length xs - n \<le> length xs" using n by simp_all
    then show ?thesis using False n by (auto simp: last_n_def drop_Suc tl_drop)
  qed
qed

lemma fold_AddSample:
  "0 < n \<Longrightarrow> sm_ok (fold AddSample xs (NewSpeedMonitor n)) \<and>
    length (sm_speedSamples (fold AddSample xs (NewSpeedMonitor n))) = n \<and>
    sm_window (fold AddSample xs (NewSpeedMonitor n)) = last_n n xs"
proof (induction xs rule: rev_induct)
  case Nil
  then show ?case
    using NewSpeedMonitor_ok [of n] by (simp add: last_n_def NewSpeedMonitor_def)
next
  case (snoc x xs)
  then have IH: "sm_ok (fold AddSample xs (NewSpeedMonitor n))"
    "length (sm_speedSamples (fold AddSample xs (NewSpeedMonitor n))) = n"
    "sm_window (fold AddSample xs (NewSpeedMonitor n)) = last_n n xs" by simp_all
  have "sm_speedSamples (fold AddSample xs (NewSpeedMonitor n)) \<noteq> []" using IH(2) snoc.prems by auto
  then show ?case
    using AddSample_window [OF IH(1), of x] IH(2,3) last_n_snoc [OF snoc.prems, of xs x] by simp
qed

text \<open>One second of a channel: some bytes, then a tick of a thousand milliseconds.\<close>

fun run_channel :: "int list \<Rightarrow> StatChannel \<Rightarrow> StatChannel option" where
  "run_channel [] ch = Some ch"
| "run_channel (c # cs) ch =
     (case ch_SecondTick 1000 (ch_Add c ch) of None \<Rightarrow> None | Some ch' \<Rightarrow> run_channel cs ch')"

lemma run_channel_spec:
  assumes "ch_secondCounter ch = 0" and "length (ch_samples ch) = 5" and "\<forall>c\<in>set cs. 0 \<le> c"
  shows "\<exists>ch'. run_channel cs ch = Some ch' \<and> ch_secondCounter ch' = 0 \<and>
    ch_totalCounter ch' = ch_totalCounter ch + sum_list cs \<and>
    ch_samples ch' = take 5 (rev cs @ ch_samples ch) \<and>
    (cs \<noteq> [] \<longrightarrow> ch_average5Sec ch' = go_div (sum_list (ch_samples ch')) 5)"
  using assms
proof (induction cs arbitrary: ch)
  case Nil
  then show ?case by simp
next
  case (Cons c cs)
  define ch1 where "ch1 = ch\<lparr>ch_samples := take 5 (c # ch_samples ch),
    ch_average5Sec := go_div (sum_list (take 5 (c # ch_samples ch))) 5,
    ch_average30Sec := go_div (ch_average30Sec ch * 29) 30 + go_div c 30,
    ch_secondCounter := 0, ch_totalCounter := ch_totalCounter ch + c\<rparr>"
  have tick: "ch_SecondTick 1000 (ch_Add c ch) = Some ch1"
    using Cons.prems by (simp add: ch_SecondTick_def ch_Add_def ch1_def Let_def)
  have ch1: "ch_secondCounter ch1 = 0" "length (ch_samples ch1) = 5" "ch_totalCounter ch1 = ch_totalCounter ch + c"
    "ch_samples ch1 = take 5 (c # ch_samples ch)"
    using Cons.prems by (simp_all add: ch1_def)
  obtain ch' where ch': "run_channel cs ch1 = Some ch'" "ch_secondCounter ch' = 0"
    "ch_totalCounter ch' = ch_totalCounter ch1 + sum_list cs" "ch_samples ch' = take 5 (rev cs @ ch_samples ch1)"
    "cs \<noteq> [] \<longrightarrow> ch_average5Sec ch' = go_div (sum_list (ch_samples ch')) 5"
    using Cons.IH [OF ch1(1,2)] Cons.prems(3) by auto
  have "ch_samples ch' = take 5 (rev (c # cs) @ ch_samples ch)"
    unfolding ch'(4) ch1(4) by (simp add: min_def del: take_Cons_numeral)
  moreover have "ch_average5Sec ch' = go_div (sum_list (ch_samples ch')) 5"
    using ch'(1,5) by (cases "cs = []") (auto simp: ch1_def)
  ultimately show ?case using tick ch' ch1(3) by simp
qed

section \<open>Properties\<close>

text \<open>C37: the average speed is the mean of the last samples, as many as the monitor has room for:
  the ring buffer behaves as a sliding window, also before it is full.\<close>

theorem AverageSpeed_last:
  assumes "0 < n" and "xs \<noteq> []"
  shows "AverageSpeed (fold AddSample xs (NewSpeedMonitor n)) =
    go_div (sum_list (last_n n xs)) (int (min n (length xs)))"
proof -
  have len: "length (last_n n xs) = min n (length xs)" by (simp add: last_n_def)
  moreover have "last_n n xs \<noteq> []"
  proof
    assume "last_n n xs = []"
    with len assms show False by (cases xs) auto
  qed
  ultimately show ?thesis
    using fold_AddSample [OF assms(1), of xs] AverageSpeed_window by simp
qed

theorem AverageSpeed_last_witness: "AverageSpeed (fold AddSample [10, 20, 30, 70] (NewSpeedMonitor 2)) = 50"
  using AverageSpeed_last [of 2 "[10, 20, 30, 70]"] by (simp add: last_n_def)

text \<open>The rate of a channel is the mean of its last five seconds, and its total is all it was
  given; nothing is lost or counted twice from one tick to the next.\<close>

theorem channel_rate:
  assumes "\<forall>c\<in>set cs. 0 \<le> c" and "cs \<noteq> []"
  shows "\<exists>ch. run_channel cs NewStatChannel = Some ch \<and> ch_totalCounter ch = sum_list cs \<and>
    ch_average5Sec ch = sum_list (last_n 5 cs) div 5"
proof -
  obtain ch where ch: "run_channel cs NewStatChannel = Some ch" "ch_totalCounter ch = sum_list cs"
    "ch_samples ch = take 5 (rev cs @ replicate 5 0)" "ch_average5Sec ch = go_div (sum_list (ch_samples ch)) 5"
    using run_channel_spec [of NewStatChannel cs] assms by (auto simp: NewStatChannel_def numeral_eq_Suc)
  have "sum_list (take 5 (rev cs @ replicate 5 (0::int))) = sum_list (take 5 (rev cs))"
    by (simp add: sum_list_replicate)
  also have "take 5 (rev cs) = rev (last_n 5 cs)" by (simp add: last_n_def take_rev)
  finally have sum: "sum_list (ch_samples ch) = sum_list (last_n 5 cs)" using ch(3) by (simp add: sum_list_rev)
  moreover have "0 \<le> sum_list (last_n 5 cs)"
    using assms(1) by (intro sum_list_nonneg) (auto simp: last_n_def dest: in_set_dropD)
  ultimately show ?thesis using ch by auto
qed

theorem channel_rate_witness:
  "\<exists>ch. run_channel [100, 1, 2, 3, 4, 5] NewStatChannel = Some ch \<and> ch_average5Sec ch = 3"
proof -
  have "last_n 5 [100, 1, 2, 3, 4, 5] = [1, 2, 3, 4, 5::int]" by (simp add: last_n_def)
  then show ?thesis using channel_rate [of "[100, 1, 2, 3, 4, 5]"] by auto
qed

end
