(* ===== verification/Framing.thy ===== *)
theory Framing
  imports Wire Three_Way
begin

text \<open>
  Frames and the packet registry: \<^verbatim>\<open>protocol/packet_header.go\<close>,
  \<^verbatim>\<open>protocol/packet_key.go\<close>, \<^verbatim>\<open>protocol/packet_combiner.go\<close> and
  \<^verbatim>\<open>protocol/without_data_packet.go\<close>. A registry is generic in the packet type; the
  locale \<open>packet_registry\<close> is what a protocol owes it, and gives that every packed frame
  unpacks to the packet it was made from. Inflating (\<^verbatim>\<open>compress/zlib\<close>) is a parameter.
\<close>

section \<open>Headers and keys\<close>

definition OpUndefined :: u8 where "OpUndefined = 0x00"
definition EdonkeyProt :: u8 where "EdonkeyProt = 0xE3"
definition PackedProt :: u8 where "PackedProt = 0xD4"
definition EMuleProt :: u8 where "EMuleProt = 0xC5"
definition KadCompressedUDP :: u8 where "KadCompressedUDP = 0xE5"
definition KademliaHeader :: u8 where "KademliaHeader = 0xE4"
definition PacketHeaderSize :: nat where "PacketHeaderSize = 6"

lemmas protocol_bytes = EdonkeyProt_def PackedProt_def EMuleProt_def KadCompressedUDP_def
  KademliaHeader_def OpUndefined_def

record PacketKey =
  pk_Protocol :: u8
  pk_Packet :: u8

definition PK :: "u8 \<Rightarrow> u8 \<Rightarrow> PacketKey" where
  "PK protocol packet = \<lparr>pk_Protocol = protocol, pk_Packet = packet\<rparr>"

lemma PK_inject [simp]: "PK a b = PK c d \<longleftrightarrow> a = c \<and> b = d"
  by (simp add: PK_def)

lemma PK_sel [simp]: "pk_Protocol (PK a b) = a" "pk_Packet (PK a b) = b"
  by (simp_all add: PK_def)

definition pk_Compare :: "PacketKey \<Rightarrow> PacketKey \<Rightarrow> int" where
  "pk_Compare p other =
     (let packets =
            (if pk_Packet p > pk_Packet other then 1
             else if pk_Packet p < pk_Packet other then -1 else 0)
      in if pk_Protocol other \<noteq> PackedProt \<and> pk_Protocol p \<noteq> PackedProt \<and>
            pk_Protocol other \<noteq> KadCompressedUDP \<and> pk_Protocol p \<noteq> KadCompressedUDP then
           (if pk_Protocol p > pk_Protocol other then 1
            else if pk_Protocol p < pk_Protocol other then -1
            else packets)
         else packets)"

definition NormalizedProtocol :: "PacketKey \<Rightarrow> u8" where
  "NormalizedProtocol p =
     (if pk_Protocol p = EdonkeyProt then PackedProt
      else if pk_Protocol p = EMuleProt then PackedProt
      else if pk_Protocol p = KademliaHeader then KadCompressedUDP
      else pk_Protocol p)"

text \<open>The size counts the opcode byte, and is an \<open>int32\<close>.\<close>

record PacketHeader =
  ph_Protocol :: u8
  ph_Size :: u32
  ph_Packet :: u8

definition ph_IsDefined :: "PacketHeader \<Rightarrow> bool" where
  "ph_IsDefined p \<longleftrightarrow> ph_Protocol p \<noteq> OpUndefined \<and> ph_Packet p \<noteq> OpUndefined"

definition ph_Reset :: "PacketHeader \<Rightarrow> PacketHeader" where
  "ph_Reset p = p\<lparr>ph_Protocol := OpUndefined, ph_Size := 0, ph_Packet := OpUndefined\<rparr>"

definition ph_ResetWithKey :: "PacketHeader \<Rightarrow> PacketKey \<Rightarrow> u32 \<Rightarrow> PacketHeader" where
  "ph_ResetWithKey p key sz =
     p\<lparr>ph_Protocol := pk_Protocol key, ph_Size := sz, ph_Packet := pk_Packet key\<rparr>"

definition get_PacketHeader :: "PacketHeader reader" where
  "get_PacketHeader =
     rbind readByte (\<lambda>protocol. rbind readInt32 (\<lambda>sz. rbind readByte (\<lambda>packet.
       rreturn \<lparr>ph_Protocol = protocol, ph_Size = sz, ph_Packet = packet\<rparr>)))"

definition put_PacketHeader :: "PacketHeader \<Rightarrow> bytes" where
  "put_PacketHeader p = writeByte (ph_Protocol p) @ writeInt32 (ph_Size p) @ writeByte (ph_Packet p)"

definition SizePacket :: "PacketHeader \<Rightarrow> u32" where
  "SizePacket p = ph_Size p - 1"

definition ph_Key :: "PacketHeader \<Rightarrow> PacketKey" where
  "ph_Key p = \<lparr>pk_Protocol = ph_Protocol p, pk_Packet = ph_Packet p\<rparr>"

interpretation header_codec:
  sized_codec get_PacketHeader put_PacketHeader "\<lambda>_. True" "\<lambda>_. PacketHeaderSize"
  by unfold_locales
    (simp_all add: get_PacketHeader_def put_PacketHeader_def PacketHeaderSize_def codec_step codec_len)

text \<open>
  Among keys of uncompressed protocols the comparison is a total order.
\<close>

definition plain_key :: "PacketKey \<Rightarrow> bool" where
  "plain_key k \<longleftrightarrow> pk_Protocol k \<noteq> PackedProt \<and> pk_Protocol k \<noteq> KadCompressedUDP"

interpretation pk_order: three_way pk_Compare plain_key
proof unfold_locales
  fix a b c :: PacketKey
  assume a: "plain_key a" and b: "plain_key b"
  show "pk_Compare a b = -1 \<or> pk_Compare a b = 0 \<or> pk_Compare a b = 1"
    by (simp add: pk_Compare_def Let_def)
  show "pk_Compare b a = - pk_Compare a b"
    using a b by (auto simp: pk_Compare_def plain_key_def Let_def)
  show "pk_Compare a b = 0 \<Longrightarrow> a = b"
    using a b by (auto simp: pk_Compare_def plain_key_def Let_def split: if_splits
        intro!: PacketKey.equality)
  assume c: "plain_key c"
  show "pk_Compare a b < 0 \<Longrightarrow> pk_Compare b c < 0 \<Longrightarrow> pk_Compare a c < 0"
    using a b c by (auto simp: pk_Compare_def plain_key_def Let_def split: if_splits)
qed

section \<open>The registry\<close>

record 'p PacketCombiner =
  pc_keyToPacket :: "PacketKey \<rightharpoonup> 'p reader"
  pc_typeToKey :: "string \<rightharpoonup> PacketKey"
  pc_service :: "(PacketHeader \<Rightarrow> int) option"

definition NewPacketCombiner :: "'p PacketCombiner" where
  "NewPacketCombiner = \<lparr>pc_keyToPacket = Map.empty, pc_typeToKey = Map.empty, pc_service = None\<rparr>"

text \<open>A factory and the \<open>Get\<close> of what it makes are one reader.\<close>

definition pc_Register :: "PacketKey \<Rightarrow> string \<Rightarrow> 'p reader \<Rightarrow> 'p PacketCombiner \<Rightarrow> 'p PacketCombiner" where
  "pc_Register key typeName factory p =
     p\<lparr>pc_keyToPacket := (pc_keyToPacket p)(key \<mapsto> factory),
       pc_typeToKey := (pc_typeToKey p)(typeName \<mapsto> key)\<rparr>"

definition pc_SetServiceSizer :: "(PacketHeader \<Rightarrow> int) \<Rightarrow> 'p PacketCombiner \<Rightarrow> 'p PacketCombiner" where
  "pc_SetServiceSizer fn p = p\<lparr>pc_service := Some fn\<rparr>"

definition pc_ServiceSize :: "'p PacketCombiner \<Rightarrow> PacketHeader \<Rightarrow> int" where
  "pc_ServiceSize p header =
     (case pc_service p of Some fn \<Rightarrow> fn header | None \<Rightarrow> sint (SizePacket header))"

text \<open>An unknown key gives a \<open>WithoutDataPacket\<close>, whatever the body.\<close>

datatype 'p unpacked = WithoutDataPacket | Packet 'p

definition pc_Unpack ::
  "(bytes \<Rightarrow> bytes result) \<Rightarrow> 'p PacketCombiner \<Rightarrow> PacketHeader \<Rightarrow> bytes \<Rightarrow> 'p unpacked result" where
  "pc_Unpack inflate p header src =
     (let compressed = (ph_Protocol header = PackedProt \<or> ph_Protocol header = KadCompressedUDP);
          key = (if ph_Protocol header = PackedProt then
                   (if pc_keyToPacket p (PK EMuleProt (ph_Packet header)) \<noteq> None
                    then PK EMuleProt (ph_Packet header) else PK EdonkeyProt (ph_Packet header))
                 else ph_Key header)
      in case (if compressed then inflate src else Inr src) of
           Inl e \<Rightarrow> Inl e
         | Inr body \<Rightarrow>
             (case pc_keyToPacket p key of
                None \<Rightarrow> Inr WithoutDataPacket
              | Some get \<Rightarrow>
                  (case get body of Inl e \<Rightarrow> Inl e | Inr (packet, _) \<Rightarrow> Inr (Packet packet))))"

definition pc_UnpackFrame ::
  "(bytes \<Rightarrow> bytes result) \<Rightarrow> 'p PacketCombiner \<Rightarrow> bytes \<Rightarrow> (PacketHeader \<times> 'p unpacked) result" where
  "pc_UnpackFrame inflate p frame =
     (case get_PacketHeader frame of
        Inl e \<Rightarrow> Inl e
      | Inr (header, rest) \<Rightarrow>
          (case readBytes (sint (SizePacket header)) rest of
             Inl e \<Rightarrow> Inl e
           | Inr (body, _) \<Rightarrow>
               (case pc_Unpack inflate p header body of
                  Inl e \<Rightarrow> Inl e
                | Inr packet \<Rightarrow> Inr (header, packet))))"

text \<open>\<open>body\<close> is what \<open>Put\<close> of the packet writes; the second result is header plus body.\<close>

definition pc_PackPayload ::
  "'p PacketCombiner \<Rightarrow> string \<Rightarrow> bytes \<Rightarrow> bytes \<Rightarrow> (bytes \<times> nat) result" where
  "pc_PackPayload p typeName body payload =
     (case pc_typeToKey p typeName of
        None \<Rightarrow> Inl (ErrText ''packet key not registered'')
      | Some key \<Rightarrow>
          (let header = ph_ResetWithKey \<lparr>ph_Protocol = 0, ph_Size = 0, ph_Packet = 0\<rparr> key
                          (of_nat (length body + length payload + 1))
           in Inr (put_PacketHeader header @ body @ payload, PacketHeaderSize + length body)))"

definition pc_Pack :: "'p PacketCombiner \<Rightarrow> string \<Rightarrow> bytes \<Rightarrow> bytes result" where
  "pc_Pack p typeName body =
     (case pc_PackPayload p typeName body [] of Inl e \<Rightarrow> Inl e | Inr (raw, _) \<Rightarrow> Inr raw)"

text \<open>A protocol registers its packets one after the other.\<close>

definition register_all ::
  "(PacketKey \<times> string \<times> 'p reader) list \<Rightarrow> 'p PacketCombiner \<Rightarrow> 'p PacketCombiner" where
  "register_all table p = fold (\<lambda>(key, typeName, factory). pc_Register key typeName factory) table p"

lemma register_all_Cons:
  "register_all ((key, typeName, factory) # table) p = register_all table (pc_Register key typeName factory p)"
  by (simp add: register_all_def)

lemma register_all_other:
  "n \<notin> (\<lambda>e. fst (snd e)) ` set table \<Longrightarrow> pc_typeToKey (register_all table p) n = pc_typeToKey p n"
  "k \<notin> fst ` set table \<Longrightarrow> pc_keyToPacket (register_all table p) k = pc_keyToPacket p k"
proof (induction table arbitrary: p)
  case Nil
  { case 1 show ?case by (simp add: register_all_def) }
  { case 2 show ?case by (simp add: register_all_def) }
next
  case (Cons e table)
  obtain key typeName factory where e: "e = (key, typeName, factory)" by (cases e) auto
  { case 1 with Cons.IH(1) show ?case by (simp add: e register_all_Cons pc_Register_def) }
  { case 2 with Cons.IH(2) show ?case by (simp add: e register_all_Cons pc_Register_def) }
qed

lemma register_all_service [simp]: "pc_service (register_all table p) = pc_service p"
  by (induction table arbitrary: p) (auto simp: register_all_def pc_Register_def)

lemma register_all_in:
  assumes "(k, n, g) \<in> set table"
  shows "distinct (map (\<lambda>e. fst (snd e)) table) \<Longrightarrow> pc_typeToKey (register_all table p) n = Some k"
    and "distinct (map fst table) \<Longrightarrow> pc_keyToPacket (register_all table p) k = Some g"
  using assms
proof (induction table arbitrary: p)
  case Nil
  { case 1 then show ?case by simp }
  { case 2 then show ?case by simp }
next
  case (Cons e table)
  obtain key typeName factory where e: "e = (key, typeName, factory)" by (cases e) auto
  { case 1
    show ?case
    proof (cases "(k, n, g) = e")
      case True
      with 1(1) e have "n \<notin> (\<lambda>e. fst (snd e)) ` set table" by simp
      with True e show ?thesis by (simp add: register_all_Cons register_all_other pc_Register_def)
    next
      case False
      with 1 Cons.IH(1) e show ?thesis by (auto simp: register_all_Cons)
    qed }
  { case 2
    show ?case
    proof (cases "(k, n, g) = e")
      case True
      with 2(1) e have "k \<notin> fst ` set table" by simp
      with True e show ?thesis by (simp add: register_all_Cons register_all_other pc_Register_def)
    next
      case False
      with 2 Cons.IH(2) e show ?thesis by (auto simp: register_all_Cons)
    qed }
qed

lemma registered_table:
  assumes "distinct (map (\<lambda>e. fst (snd e)) table)" and "distinct (map fst table)"
    and "\<exists>(k, n, g)\<in>set table. n = typeName \<and> plain_key k \<and> (small bs \<longrightarrow> (\<exists>rest. g bs = Inr (x, rest)))"
  shows "\<exists>key get. pc_typeToKey (register_all table p) typeName = Some key \<and>
    pc_keyToPacket (register_all table p) key = Some get \<and> plain_key key \<and>
    (small bs \<longrightarrow> (\<exists>rest. get bs = Inr (x, rest)))"
  using assms register_all_in by fast

section \<open>What a frame says\<close>

lemma sint_of_nat_u32: "n < 2 ^ 31 \<Longrightarrow> sint (of_nat n :: u32) = int n"
  by (simp add: sint_uint uint_nat unat_of_nat_u32 signed_take_bit_int_eq_self)

definition frame_header :: "PacketKey \<Rightarrow> nat \<Rightarrow> PacketHeader" where
  "frame_header key len =
     \<lparr>ph_Protocol = pk_Protocol key, ph_Size = of_nat (len + 1), ph_Packet = pk_Packet key\<rparr>"

lemma SizePacket_frame: "SizePacket (frame_header key len) = of_nat len"
  by (simp add: SizePacket_def frame_header_def)

lemma ph_Key_frame [simp]: "ph_Key (frame_header key len) = key"
  by (simp add: ph_Key_def frame_header_def)

lemma ph_Protocol_frame [simp]: "ph_Protocol (frame_header key len) = pk_Protocol key"
  by (simp add: frame_header_def)

lemma PackPayload_eq:
  "pc_typeToKey p typeName = Some key \<Longrightarrow>
     pc_PackPayload p typeName body payload =
       Inr (put_PacketHeader (frame_header key (length body + length payload)) @ body @ payload,
            PacketHeaderSize + length body)"
  by (simp add: pc_PackPayload_def ph_ResetWithKey_def frame_header_def)

lemma get_header_frame:
  "small (body @ rest) \<Longrightarrow> length (body @ rest) + 6 < 4294967296 \<Longrightarrow>
     get_PacketHeader (put_PacketHeader h @ body @ rest) = Inr (h, body @ rest)"
  using header_codec.get_put [of h "body @ rest"]
  by (simp add: codec_len PacketHeaderSize_def)

section \<open>The contract of a protocol's registry\<close>

locale packet_registry =
  fixes reg :: "'p PacketCombiner"
    and put :: "'p \<Rightarrow> bytes"
    and wf :: "'p \<Rightarrow> bool"
    and typeName :: "'p \<Rightarrow> string"
  assumes registered: "wf x \<Longrightarrow> \<exists>key get. pc_typeToKey reg (typeName x) = Some key \<and>
      pc_keyToPacket reg key = Some get \<and> plain_key key \<and>
      (small (put x) \<longrightarrow> (\<exists>rest. get (put x) = Inr (x, rest)))"
begin

definition key_of :: "'p \<Rightarrow> PacketKey" where
  "key_of x = the (pc_typeToKey reg (typeName x))"

lemma key_of:
  assumes "wf x"
  shows "pc_typeToKey reg (typeName x) = Some (key_of x)" and "plain_key (key_of x)"
    and "small (put x) \<Longrightarrow>
      \<exists>get rest. pc_keyToPacket reg (key_of x) = Some get \<and> get (put x) = Inr (x, rest)"
  using registered [OF assms] by (auto simp: key_of_def)

lemma Unpack_plain:
  assumes "wf x" and "small (put x)"
  shows "pc_Unpack inflate reg (frame_header (key_of x) len) (put x) = Inr (Packet x)"
  using key_of [OF assms(1)] assms(2) by (auto simp: pc_Unpack_def Let_def plain_key_def)

text \<open>Packing and unpacking a frame, also with bytes after it.\<close>

lemma UnpackFrame_Pack:
  assumes wf: "wf x" and len: "length (put x) < 2 ^ 31" "length (put x @ rest) + 6 < 4294967296"
  shows "\<exists>raw. pc_Pack reg (typeName x) (put x) = Inr raw \<and>
    pc_UnpackFrame inflate reg (raw @ rest) =
      Inr (frame_header (key_of x) (length (put x)), Packet x)"
proof -
  define h where "h = frame_header (key_of x) (length (put x))"
  have raw: "pc_Pack reg (typeName x) (put x) = Inr (put_PacketHeader h @ put x)"
    using PackPayload_eq [OF key_of(1) [OF wf], of "put x" "[]"] by (simp add: pc_Pack_def h_def)
  have "get_PacketHeader (put_PacketHeader h @ put x @ rest) = Inr (h, put x @ rest)"
    using len(2) by (intro get_header_frame) simp_all
  moreover have "sint (SizePacket h) = int (length (put x))"
    using sint_of_nat_u32 [OF len(1)] by (simp add: h_def SizePacket_frame)
  moreover have "readBytes (int (length (put x))) (put x @ rest) = Inr (put x, rest)"
    by (cases "put x = []") (simp_all add: readBytes_exact, simp add: readBytes_def)
  moreover have "pc_Unpack inflate reg h (put x) = Inr (Packet x)"
    using wf len(1) unfolding h_def by (intro Unpack_plain) simp_all
  ultimately have "pc_UnpackFrame inflate reg ((put_PacketHeader h @ put x) @ rest) = Inr (h, Packet x)"
    by (simp add: pc_UnpackFrame_def)
  with raw show ?thesis unfolding h_def by blast
qed

text \<open>
  A compressed frame is read as the eMule packet of its opcode, and as the eDonkey packet
  when no eMule packet has it.
\<close>

lemma Unpack_packed:
  assumes wf: "wf x" and s: "small (put x)" and z: "inflate src = Inr (put x)"
    and h: "ph_Protocol header = PackedProt" "ph_Packet header = pk_Packet (key_of x)"
    and key: "pk_Protocol (key_of x) = EMuleProt \<or>
      pk_Protocol (key_of x) = EdonkeyProt \<and>
      pc_keyToPacket reg (PK EMuleProt (pk_Packet (key_of x))) = None"
  shows "pc_Unpack inflate reg header src = Inr (Packet x)"
proof -
  obtain get rest where g: "pc_keyToPacket reg (key_of x) = Some get" "get (put x) = Inr (x, rest)"
    using key_of(3) [OF wf s] by blast
  have "key_of x = PK (pk_Protocol (key_of x)) (pk_Packet (key_of x))" by (simp add: PK_def)
  with key g(1) have "(if pc_keyToPacket reg (PK EMuleProt (ph_Packet header)) \<noteq> None
      then PK EMuleProt (ph_Packet header) else PK EdonkeyProt (ph_Packet header)) = key_of x"
    unfolding h(2) by (metis option.distinct(1))
  with g z h(1) show ?thesis by (simp add: pc_Unpack_def Let_def)
qed

end

end
