(* ===== verification/Tags.thy ===== *)
theory Tags
  imports Hashes
begin

unbundle bit_operations_syntax

text \<open>
  The typed tags of \<^verbatim>\<open>protocol/simple_tag.go\<close> and tag lists, which carry most of what
  peers and servers tell each other. Go strings are byte strings here.
\<close>

section \<open>Tags\<close>

definition TagTypeString :: u8 where "TagTypeString = 0x02"
definition TagTypeUint32 :: u8 where "TagTypeUint32 = 0x03"
definition TagTypeUint16 :: u8 where "TagTypeUint16 = 0x08"
definition TagTypeUint8 :: u8 where "TagTypeUint8 = 0x09"
definition TagTypeUint64 :: u8 where "TagTypeUint64 = 0x0B"
definition TagTypeStr1 :: u8 where "TagTypeStr1 = 0x11"
definition tagMinBytes :: nat where "tagMinBytes = 2"

lemmas tag_types = TagTypeString_def TagTypeUint32_def TagTypeUint16_def TagTypeUint8_def
  TagTypeUint64_def TagTypeStr1_def

record SimpleTag =
  tag_Type :: u8
  tag_ID :: u8
  tag_Name :: bytes
  tag_String :: bytes
  tag_UInt32 :: u32
  tag_UInt64 :: u64

text \<open>The fields \<open>ID\<close> and \<open>Name\<close>: one byte after a marked type, a counted name otherwise.\<close>

definition get_tag_key :: "u8 \<Rightarrow> (u8 \<times> bytes) reader" where
  "get_tag_key tagType =
     (if tagType AND 0x80 \<noteq> 0 then rbind readByte (\<lambda>tagID. rreturn (tagID, []))
      else rbind readUInt16 (\<lambda>nameSize.
             rbind (readBytes (uint nameSize)) (\<lambda>raw.
               if nameSize = 1 then rreturn (raw ! 0, []) else rreturn (0, raw))))"

text \<open>The value, by type: \<open>(UInt32, UInt64, String)\<close>. An unknown type has no value.\<close>

definition get_tag_value :: "u8 \<Rightarrow> (u32 \<times> u64 \<times> bytes) reader" where
  "get_tag_value t =
     (if t = TagTypeUint8 then rbind readByte (\<lambda>v. rreturn (ucast v, ucast v, []))
      else if t = TagTypeUint16 then rbind readUInt16 (\<lambda>v. rreturn (ucast v, ucast v, []))
      else if t = TagTypeUint32 then rbind ReadUInt32 (\<lambda>v. rreturn (v, ucast v, []))
      else if t = TagTypeUint64 then rbind readUInt64 (\<lambda>v. rreturn (ucast v, v, []))
      else if t = TagTypeString then
        rbind readUInt16 (\<lambda>sz. rbind (readBytes (uint sz)) (\<lambda>v. rreturn (0, 0, v)))
      else if TagTypeStr1 \<le> t \<and> t \<le> TagTypeStr1 + 15 then
        rbind (readBytes (uint (t - TagTypeStr1) + 1)) (\<lambda>v. rreturn (0, 0, v))
      else rreturn (0, 0, []))"

definition get_SimpleTag :: "SimpleTag reader" where
  "get_SimpleTag =
     rbind readByte (\<lambda>tagType.
     rbind (get_tag_key tagType) (\<lambda>(i, name).
     rbind (get_tag_value (tagType AND 0x7f)) (\<lambda>(u, w, s).
       rreturn \<lparr>tag_Type = tagType AND 0x7f, tag_ID = i, tag_Name = name, tag_String = s,
                 tag_UInt32 = u, tag_UInt64 = w\<rparr>)))"

definition put_tag_key :: "SimpleTag \<Rightarrow> bytes" where
  "put_tag_key t =
     (if tag_Name t \<noteq> []
      then writeByte (tag_Type t) @ writeUInt16 (of_nat (length (tag_Name t))) @ tag_Name t
      else writeByte (tag_Type t OR 0x80) @ writeByte (tag_ID t))"

definition put_tag_value :: "SimpleTag \<Rightarrow> bytes" where
  "put_tag_value t =
     (if tag_Type t = TagTypeUint8 then writeByte (ucast (tag_UInt64 t))
      else if tag_Type t = TagTypeUint16 then writeUInt16 (ucast (tag_UInt64 t))
      else if tag_Type t = TagTypeUint32 then
        (if tag_UInt32 t \<noteq> 0 then writeUInt32 (tag_UInt32 t) else writeUInt32 (ucast (tag_UInt64 t)))
      else if tag_Type t = TagTypeUint64 then writeUInt64 (tag_UInt64 t)
      else if tag_Type t = TagTypeString then
        writeUInt16 (of_nat (length (tag_String t))) @ tag_String t
      else if TagTypeStr1 \<le> tag_Type t \<and> tag_Type t \<le> TagTypeStr1 + 15 then tag_String t
      else [])"

definition put_SimpleTag :: "SimpleTag \<Rightarrow> bytes" where
  "put_SimpleTag t = put_tag_key t @ put_tag_value t"

definition bytesCount_SimpleTag :: "SimpleTag \<Rightarrow> nat" where
  "bytesCount_SimpleTag t =
     (let sz = (if tag_Name t \<noteq> [] then 1 + 2 + length (tag_Name t) else 2)
      in if tag_Type t = TagTypeUint8 then sz + 1
         else if tag_Type t = TagTypeUint16 then sz + 2
         else if tag_Type t = TagTypeUint32 then sz + 4
         else if tag_Type t = TagTypeUint64 then sz + 8
         else if tag_Type t = TagTypeString then sz + 2 + length (tag_String t)
         else sz + length (tag_String t))"

definition NewUInt32Tag :: "u8 \<Rightarrow> u32 \<Rightarrow> SimpleTag" where
  "NewUInt32Tag i value =
     \<lparr>tag_Type = TagTypeUint32, tag_ID = i, tag_Name = [], tag_String = [],
      tag_UInt32 = value, tag_UInt64 = ucast value\<rparr>"

definition NewStringTag :: "u8 \<Rightarrow> bytes \<Rightarrow> SimpleTag" where
  "NewStringTag i value =
     (if 1 \<le> length value \<and> length value \<le> 16 then
        \<lparr>tag_Type = TagTypeStr1 + of_nat (length value - 1), tag_ID = i, tag_Name = [],
         tag_String = value, tag_UInt32 = 0, tag_UInt64 = 0\<rparr>
      else
        \<lparr>tag_Type = TagTypeString, tag_ID = i, tag_Name = [], tag_String = value,
         tag_UInt32 = 0, tag_UInt64 = 0\<rparr>)"

text \<open>
  The tags that survive the wire: seven-bit types, a name that is not one byte long (that is
  read back as an ID), and values that agree with the type.
\<close>

definition wf_tag_value :: "SimpleTag \<Rightarrow> bool" where
  "wf_tag_value t \<longleftrightarrow>
     (if tag_Type t = TagTypeUint8 then
        tag_UInt64 t < 256 \<and> tag_UInt32 t = ucast (tag_UInt64 t) \<and> tag_String t = []
      else if tag_Type t = TagTypeUint16 then
        tag_UInt64 t < 65536 \<and> tag_UInt32 t = ucast (tag_UInt64 t) \<and> tag_String t = []
      else if tag_Type t = TagTypeUint32 then tag_UInt64 t = ucast (tag_UInt32 t) \<and> tag_String t = []
      else if tag_Type t = TagTypeUint64 then tag_UInt32 t = ucast (tag_UInt64 t) \<and> tag_String t = []
      else tag_UInt32 t = 0 \<and> tag_UInt64 t = 0 \<and>
        (if tag_Type t = TagTypeString then length (tag_String t) < 65536
         else if TagTypeStr1 \<le> tag_Type t \<and> tag_Type t \<le> TagTypeStr1 + 15
         then int (length (tag_String t)) = uint (tag_Type t - TagTypeStr1) + 1
         else tag_String t = []))"

definition wf_SimpleTag :: "SimpleTag \<Rightarrow> bool" where
  "wf_SimpleTag t \<longleftrightarrow>
     tag_Type t AND 0x7f = tag_Type t \<and>
     (tag_Name t = [] \<or> tag_ID t = 0 \<and> 1 < length (tag_Name t) \<and> length (tag_Name t) < 65536) \<and>
     wf_tag_value t"

section \<open>Tag round trip\<close>

lemma type_mask: "t AND 0x7f = t \<Longrightarrow> t AND 0x80 = 0" for t :: u8
proof -
  assume "t AND 0x7f = t"
  then have "t AND 0x80 = (t AND 0x7f) AND 0x80" by simp
  also have "\<dots> = t AND (0x7f AND 0x80)" by (rule and.assoc)
  finally show ?thesis by simp
qed

lemma type_mark:
  "t AND 0x7f = t \<Longrightarrow> (t OR 0x80) AND 0x7f = t" "(t OR 0x80) AND 0x80 \<noteq> 0" for t :: u8
  by (simp_all add: bit.conj_disj_distrib2)

lemma ucast_widen:
  "ucast (ucast b :: u64) = (ucast b :: u32)" "ucast (ucast c :: u64) = (ucast c :: u32)"
  "ucast (ucast b :: u64) = b" "ucast (ucast c :: u64) = c" "ucast (ucast d :: u64) = d"
  for b :: u8 and c :: u16 and d :: u32
  by (rule bit_word_eqI; auto simp: bit_simps)+

lemma get_put_tag_key:
  assumes "wf_SimpleTag t" and "small (put_tag_key t @ rest)"
  shows "rbind readByte (\<lambda>ty. rbind (get_tag_key ty) (k ty)) (put_tag_key t @ rest) =
    k (if tag_Name t = [] then tag_Type t OR 0x80 else tag_Type t) (tag_ID t, tag_Name t) rest"
proof (cases "tag_Name t = []")
  case True
  with assms type_mark [of "tag_Type t"] show ?thesis
    by (simp add: put_tag_key_def get_tag_key_def wf_SimpleTag_def codec_step codec_len rbind_def
        readByte_def writeByte_def)
next
  case False
  define n where "n = length (tag_Name t)"
  have n: "1 < n" "n < 65536" and i: "tag_ID t = 0" and ty: "tag_Type t AND 0x80 = 0"
    using assms(1) False type_mask by (auto simp: wf_SimpleTag_def n_def)
  have "(of_nat n :: u16) \<noteq> 1"
    using n unat_of_nat_u16 [of n] by force
  then have "get_tag_key (tag_Type t) (writeUInt16 (of_nat n) @ tag_Name t @ rest) = Inr ((0, tag_Name t), rest)"
    using n ty assms(2) False
    by (simp add: get_tag_key_def put_tag_key_def codec_step codec_len uint_of_nat_u16 n_def)
  with False i assms(2) show ?thesis
    by (simp add: put_tag_key_def codec_step codec_len n_def rbind_Inr)
qed

lemma take_bit_word_eqI: "unat w < 2 ^ n \<Longrightarrow> take_bit n w = (w :: 'a::len word)"
  by (simp only: word_unat_eq_iff unsigned_take_bit_eq take_bit_nat_eq_self)

lemma ucast_narrow8: "w < 256 \<Longrightarrow> ucast (ucast w :: u8) = w" for w :: u64
proof -
  assume "w < 256"
  then show ?thesis by (simp add: unsigned_ucast_eq take_bit_word_eqI word_less_nat_alt)
qed

lemma ucast_narrow16: "w < 65536 \<Longrightarrow> ucast (ucast w :: u16) = w" for w :: u64
proof -
  assume "w < 65536"
  then show ?thesis by (simp add: unsigned_ucast_eq take_bit_word_eqI word_less_nat_alt)
qed

lemma ucast_narrow32: "w < 4294967296 \<Longrightarrow> ucast (ucast w :: u32) = w" for w :: u64
proof -
  assume "w < 4294967296"
  then show ?thesis by (simp add: unsigned_ucast_eq take_bit_word_eqI word_less_nat_alt)
qed

lemma ucast_via8: "w < 256 \<Longrightarrow> ucast (ucast w :: u8) = (ucast w :: u32)" for w :: u64
  by (metis ucast_narrow8 ucast_widen(1))

lemma ucast_via16: "w < 65536 \<Longrightarrow> ucast (ucast w :: u16) = (ucast w :: u32)" for w :: u64
  by (metis ucast_narrow16 ucast_widen(2))

lemma get_put_tag_value:
  assumes wf: "wf_tag_value t" and small: "small (put_tag_value t @ rest)"
  shows "get_tag_value (tag_Type t) (put_tag_value t @ rest) =
    Inr ((tag_UInt32 t, tag_UInt64 t, tag_String t), rest)"
proof -
  consider "tag_Type t = TagTypeUint8" | "tag_Type t = TagTypeUint16" | "tag_Type t = TagTypeUint32"
    | "tag_Type t = TagTypeUint64" | "tag_Type t = TagTypeString"
    | "tag_Type t \<notin> {TagTypeUint8, TagTypeUint16, TagTypeUint32, TagTypeUint64, TagTypeString}"
    by blast
  then show ?thesis
  proof cases
    case 1
    with wf small show ?thesis
      by (simp add: get_tag_value_def put_tag_value_def wf_tag_value_def codec_step codec_len
          ucast_narrow8 ucast_via8)
  next
    case 2
    with wf small show ?thesis
      by (simp add: get_tag_value_def put_tag_value_def wf_tag_value_def codec_step codec_len
          tag_types ucast_narrow16 ucast_via16)
  next
    case 3
    with wf small show ?thesis
      by (cases "tag_UInt32 t = 0")
        (simp_all add: get_tag_value_def put_tag_value_def wf_tag_value_def codec_step codec_len
          tag_types)
  next
    case 4
    with wf small show ?thesis
      by (simp add: get_tag_value_def put_tag_value_def wf_tag_value_def codec_step codec_len
          tag_types)
  next
    case 5
    with wf small show ?thesis
      by (simp add: get_tag_value_def put_tag_value_def wf_tag_value_def codec_step codec_len
          tag_types uint_of_nat_u16)
  next
    case 6
    with wf small show ?thesis
      by (simp add: get_tag_value_def put_tag_value_def wf_tag_value_def codec_step codec_len
          split: if_splits)
  qed
qed

interpretation tag_codec: sized_codec get_SimpleTag put_SimpleTag wf_SimpleTag bytesCount_SimpleTag
proof unfold_locales
  fix t :: SimpleTag and rest
  assume wf: "wf_SimpleTag t" and small: "small (put_SimpleTag t @ rest)"
  define ty where "ty = (if tag_Name t = [] then tag_Type t OR 0x80 else tag_Type t)"
  have mask: "ty AND 0x7f = tag_Type t"
    using wf type_mark [of "tag_Type t"] by (simp add: ty_def wf_SimpleTag_def)
  have "get_tag_value (tag_Type t) (put_tag_value t @ rest) =
      Inr ((tag_UInt32 t, tag_UInt64 t, tag_String t), rest)"
    using wf small by (intro get_put_tag_value) (simp_all add: wf_SimpleTag_def put_SimpleTag_def)
  moreover have "small (put_tag_key t @ put_tag_value t @ rest)"
    using small by (simp add: put_SimpleTag_def)
  moreover from this have "rbind readByte (\<lambda>ty. rbind (get_tag_key ty) (k ty))
      (put_tag_key t @ put_tag_value t @ rest) =
      k ty (tag_ID t, tag_Name t) (put_tag_value t @ rest)" for k :: "u8 \<Rightarrow> _ \<Rightarrow> SimpleTag reader"
    using get_put_tag_key [OF wf, of "put_tag_value t @ rest" k] by (simp add: ty_def)
  ultimately show "get_SimpleTag (put_SimpleTag t @ rest) = Inr (t, rest)"
    by (simp only: get_SimpleTag_def put_SimpleTag_def append_assoc split_conv mask rbind_Inr)
      simp
next
  fix t :: SimpleTag
  assume wf: "wf_SimpleTag t"
  then have "length (put_tag_value t) + (if tag_Name t \<noteq> [] then 1 + 2 + length (tag_Name t) else 2)
      = bytesCount_SimpleTag t"
    by (auto simp: put_tag_value_def bytesCount_SimpleTag_def wf_SimpleTag_def wf_tag_value_def
        codec_len Let_def tag_types)
  then show "length (put_SimpleTag t) = bytesCount_SimpleTag t"
    by (cases "tag_Name t = []") (simp_all add: put_SimpleTag_def put_tag_key_def codec_len)
qed

section \<open>Tag lists\<close>

type_synonym TagList = "SimpleTag list"

definition get_TagList :: "TagList reader" where
  "get_TagList =
     rbind ReadUInt32 (\<lambda>count src.
       if of_nat (length src div tagMinBytes) < count
       then Inl (ErrText ''tag list declares too many tags'')
       else get_n get_SimpleTag (unat count) src)"

definition put_TagList :: "TagList \<Rightarrow> bytes" where
  "put_TagList ts = writeUInt32 (of_nat (length ts)) @ concat (map put_SimpleTag ts)"

definition bytesCount_TagList :: "TagList \<Rightarrow> nat" where
  "bytesCount_TagList ts = 4 + sum_list (map bytesCount_SimpleTag ts)"

definition wf_TagList :: "TagList \<Rightarrow> bool" where
  "wf_TagList ts \<longleftrightarrow> (\<forall>t\<in>set ts. wf_SimpleTag t)"

lemma bytesCount_SimpleTag_min: "2 \<le> bytesCount_SimpleTag t"
  by (simp add: bytesCount_SimpleTag_def Let_def)

lemma length_concat_tags: "wf_TagList ts \<Longrightarrow> 2 * length ts \<le> length (concat (map put_SimpleTag ts))"
proof (induction ts)
  case Nil
  then show ?case by simp
next
  case (Cons t ts)
  have "wf_SimpleTag t" "wf_TagList ts" using Cons.prems by (simp_all add: wf_TagList_def)
  with Cons.IH bytesCount_SimpleTag_min [of t] show ?case by (simp add: codec_len)
qed

interpretation taglist_codec: sized_codec get_TagList put_TagList wf_TagList bytesCount_TagList
proof unfold_locales
  fix ts :: TagList and rest
  assume wf: "wf_TagList ts" and small: "small (put_TagList ts @ rest)"
  define body where "body = concat (map put_SimpleTag ts) @ rest"
  have len: "length body < 4294967296" "2 * length ts \<le> length body"
    using small length_concat_tags [OF wf] by (simp_all add: body_def put_TagList_def codec_len)
  have "\<not> (of_nat (length body div 2) :: u32) < of_nat (length ts)"
    using len by (simp add: word_less_nat_alt unat_of_nat_u32)
  moreover have "unat (of_nat (length ts) :: u32) = length ts"
    using len by (simp add: unat_of_nat_u32)
  moreover have "get_n get_SimpleTag (length ts) body = Inr (ts, rest)"
    using tag_codec.get_n_put [of ts rest] wf len(1) by (simp add: wf_TagList_def body_def)
  moreover have "small (writeUInt32 (of_nat (length ts)) @ body)"
    using small by (simp add: put_TagList_def body_def)
  ultimately show "get_TagList (put_TagList ts @ rest) = Inr (ts, rest)"
    by (simp add: get_TagList_def put_TagList_def codec_step tagMinBytes_def flip: body_def)
next
  fix ts :: TagList
  assume "wf_TagList ts"
  then show "length (put_TagList ts) = bytesCount_TagList ts"
    by (simp add: put_TagList_def bytesCount_TagList_def wf_TagList_def codec_len)
qed

text \<open>Tags made by the constructors are well formed.\<close>

lemma wf_NewUInt32Tag [simp]: "wf_SimpleTag (NewUInt32Tag i value)"
  by (simp add: wf_SimpleTag_def wf_tag_value_def NewUInt32Tag_def tag_types)

lemma str1_type:
  assumes "m < 16"
  shows "unat (TagTypeStr1 + of_nat m) = 17 + m"
proof -
  have "unat TagTypeStr1 = 17" "unat (of_nat m :: u8) = m"
    using assms by (simp_all add: tag_types unat_of_nat_u8)
  with assms show ?thesis by (simp add: unat_word_ariths)
qed

lemma wf_NewStringTag: "length value < 65536 \<Longrightarrow> wf_SimpleTag (NewStringTag i value)"
proof -
  assume len: "length value < 65536"
  show ?thesis
  proof (cases "1 \<le> length value \<and> length value \<le> 16")
    case True
    then obtain m where m: "length value = Suc m" "m < 16"
      by (cases "length value") simp_all
    define ty where "ty = TagTypeStr1 + of_nat m"
    have u: "unat ty = 17 + m"
      using m by (simp add: ty_def str1_type)
    then have "ty \<notin> {TagTypeUint8, TagTypeUint16, TagTypeUint32, TagTypeUint64, TagTypeString}"
      by (auto simp: tag_types)
    moreover have "TagTypeStr1 \<le> ty" "ty \<le> TagTypeStr1 + 15"
      using u m by (simp_all add: word_le_nat_alt tag_types)
    moreover have "uint (ty - TagTypeStr1) + 1 = int (length value)"
      using m by (simp add: ty_def uint_nat unat_of_nat_u8)
    moreover have "ty AND 0x7f = ty"
    proof -
      have "take_bit 7 ty = ty" using u m by (simp add: take_bit_word_eqI)
      moreover have "(0x7f :: u8) = mask 7" by (simp add: mask_eq_exp_minus_1)
      ultimately show ?thesis by (simp only: take_bit_eq_mask)
    qed
    ultimately show ?thesis
      using m by (simp add: wf_SimpleTag_def wf_tag_value_def NewStringTag_def flip: ty_def)
  next
    case False
    then have "NewStringTag i value =
        \<lparr>tag_Type = TagTypeString, tag_ID = i, tag_Name = [], tag_String = value,
         tag_UInt32 = 0, tag_UInt64 = 0\<rparr>"
      by (simp only: NewStringTag_def if_False)
    with len show ?thesis
      by (simp add: wf_SimpleTag_def wf_tag_value_def tag_types)
  qed
qed

end
