(* ===== verification/Bit_Field.thy ===== *)
theory Bit_Field
  imports Wire
begin

unbundle bit_operations_syntax

text \<open>
  The piece bit field of \<^verbatim>\<open>protocol/bitfield.go\<close>: a byte array in network bit order
  (bit 0 is the high bit of byte 0) with its number of bits. \<open>wf_BitField\<close> is the class
  invariant: the array has exactly the bytes the bits need and the unused bits of its last
  byte are clear. Under it the field is the list of its \<open>Bits\<close>, which every operation is
  shown to update as its name says.
\<close>

section \<open>Operations\<close>

record BitField =
  bf_bytes :: bytes
  bf_size :: int

definition bitsToBytes :: "int \<Rightarrow> int" where
  "bitsToBytes count = go_div (count + 7) 8"

text \<open>\<open>byte(0x80 >> (index & 7))\<close>; masking an \<open>int\<close> with 7 is taking it modulo 8.\<close>

definition bit_mask :: "int \<Rightarrow> u8" where
  "bit_mask index = drop_bit (nat (index mod 8)) 0x80"

definition index_panic :: go_error where
  "index_panic = Panic ''index out of range''"

definition clearTrailingBits :: "BitField \<Rightarrow> BitField result" where
  "clearTrailingBits b =
     (if bf_size b mod 8 \<noteq> 0 \<and> bf_bytes b \<noteq> [] then
        (case idx (bf_bytes b) (bitsToBytes (bf_size b) - 1) of
           None \<Rightarrow> Inl index_panic
         | Some v \<Rightarrow>
             Inr (b\<lparr>bf_bytes := (bf_bytes b)[nat (bitsToBytes (bf_size b) - 1) :=
                       v AND push_bit (nat (8 - bf_size b mod 8)) 0xff]\<rparr>))
      else Inr b)"

text \<open>\<open>copy(dst, src)\<close>.\<close>

definition go_copy :: "'a list \<Rightarrow> 'a list \<Rightarrow> 'a list" where
  "go_copy dst src = take (length dst) src @ drop (length src) dst"

definition bf_Resize :: "BitField \<Rightarrow> int \<Rightarrow> BitField result" where
  "bf_Resize b n =
     (if bitsToBytes n < 0 then Inl (Panic ''makeslice: len out of range'')
      else clearTrailingBits
             (b\<lparr>bf_bytes := go_copy (replicate (nat (bitsToBytes n)) 0) (bf_bytes b), bf_size := n\<rparr>))"

definition NewBitField :: "int \<Rightarrow> BitField result" where
  "NewBitField n = bf_Resize \<lparr>bf_bytes = [], bf_size = 0\<rparr> n"

definition fill_bytes :: "bytes \<Rightarrow> nat \<Rightarrow> nat \<Rightarrow> bytes" where
  "fill_bytes bs from to = map (\<lambda>i. if from \<le> i \<and> i < to then 0xff else bs ! i) [0..<length bs]"

text \<open>The unused bits of the old last byte are set when the field grows with ones.\<close>

definition patch_tail :: "bytes \<Rightarrow> int \<Rightarrow> bytes option" where
  "patch_tail bs oldSize =
     (if bitsToBytes oldSize \<noteq> 0 \<and> oldSize mod 8 \<noteq> 0 then
        (case idx bs (bitsToBytes oldSize - 1) of
           None \<Rightarrow> None
         | Some v \<Rightarrow> upd bs (bitsToBytes oldSize - 1) (v OR drop_bit (nat (oldSize mod 8)) 0xff))
      else Some bs)"

definition bf_ResizeWith :: "BitField \<Rightarrow> int \<Rightarrow> bool \<Rightarrow> BitField result" where
  "bf_ResizeWith b n val =
     (let oldSize = bf_size b; oldSizeBytes = bitsToBytes oldSize
      in case bf_Resize b n of
           Inl e \<Rightarrow> Inl e
         | Inr b1 \<Rightarrow>
             if oldSize \<ge> bf_size b1 \<or> \<not> val then Inr b1
             else
               (case patch_tail (bf_bytes b1) oldSize of
                  None \<Rightarrow> Inl index_panic
                | Some bs \<Rightarrow>
                    clearTrailingBits
                      (b1\<lparr>bf_bytes := fill_bytes bs (nat oldSizeBytes) (nat (bitsToBytes (bf_size b1)))\<rparr>)))"

definition bf_SetBit :: "BitField \<Rightarrow> int \<Rightarrow> BitField result" where
  "bf_SetBit b index =
     (case idx (bf_bytes b) (go_div index 8) of
        None \<Rightarrow> Inl index_panic
      | Some v \<Rightarrow> Inr (b\<lparr>bf_bytes := (bf_bytes b)[nat (go_div index 8) := v OR bit_mask index]\<rparr>))"

definition bf_ClearBit :: "BitField \<Rightarrow> int \<Rightarrow> BitField result" where
  "bf_ClearBit b index =
     (case idx (bf_bytes b) (go_div index 8) of
        None \<Rightarrow> Inl index_panic
      | Some v \<Rightarrow> Inr (b\<lparr>bf_bytes := (bf_bytes b)[nat (go_div index 8) := v AND NOT (bit_mask index)]\<rparr>))"

definition bf_GetBit :: "BitField \<Rightarrow> int \<Rightarrow> bool" where
  "bf_GetBit b index \<longleftrightarrow>
     (if index < 0 \<or> index \<ge> bf_size b then False
      else (bf_bytes b ! nat (go_div index 8)) AND bit_mask index \<noteq> 0)"

definition bf_Bits :: "BitField \<Rightarrow> bool list" where
  "bf_Bits b = map (\<lambda>i. bf_GetBit b (int i)) [0..<nat (bf_size b)]"

definition bf_SetAll :: "BitField \<Rightarrow> BitField result" where
  "bf_SetAll b = clearTrailingBits (b\<lparr>bf_bytes := map (\<lambda>_. 0xff) (bf_bytes b)\<rparr>)"

definition bf_ClearAll :: "BitField \<Rightarrow> BitField" where
  "bf_ClearAll b = b\<lparr>bf_bytes := map (\<lambda>_. 0) (bf_bytes b)\<rparr>"

fun count_loop :: "BitField \<Rightarrow> nat \<Rightarrow> nat" where
  "count_loop b 0 = 0"
| "count_loop b (Suc i) = (if bf_GetBit b (int i) then count_loop b i + 1 else count_loop b i)"

definition bf_Count :: "BitField \<Rightarrow> nat" where
  "bf_Count b = count_loop b (nat (bf_size b))"

definition bf_Assign :: "BitField \<Rightarrow> bytes \<Rightarrow> int \<Rightarrow> BitField result" where
  "bf_Assign b raw bits =
     (case bf_Resize b bits of
        Inl e \<Rightarrow> Inl e
      | Inr b1 \<Rightarrow> clearTrailingBits (b1\<lparr>bf_bytes := go_copy (bf_bytes b1) raw\<rparr>))"

text \<open>\<open>Get\<close> overwrites the receiver; its old bytes are lost by \<open>Assign\<close>'s copy.\<close>

definition get_BitField :: "BitField \<Rightarrow> BitField reader" where
  "get_BitField b =
     rbind readUInt16 (\<lambda>sz.
     rbind (readBytes (bitsToBytes (uint sz))) (\<lambda>temp src.
       (case bf_Assign b temp (uint sz) of Inl e \<Rightarrow> Inl e | Inr b1 \<Rightarrow> Inr (b1, src))))"

definition put_BitField :: "BitField \<Rightarrow> bytes" where
  "put_BitField b = writeUInt16 (word_of_int (bf_size b)) @ bf_bytes b"

definition bytesCount_BitField :: "BitField \<Rightarrow> nat" where
  "bytesCount_BitField b = 2 + length (bf_bytes b)"

section \<open>Invariant\<close>

text \<open>Bit \<open>i\<close> of a byte array in network order.\<close>

definition net_bit :: "bytes \<Rightarrow> nat \<Rightarrow> bool" where
  "net_bit bs i \<longleftrightarrow> bit (bs ! (i div 8)) (7 - i mod 8)"

definition wf_BitField :: "BitField \<Rightarrow> bool" where
  "wf_BitField b \<longleftrightarrow>
     0 \<le> bf_size b \<and> int (length (bf_bytes b)) = (bf_size b + 7) div 8 \<and>
     (\<forall>i < 8 * length (bf_bytes b). bf_size b \<le> int i \<longrightarrow> \<not> net_bit (bf_bytes b) i)"

lemma bitsToBytes_nonneg [simp]: "0 \<le> n \<Longrightarrow> bitsToBytes n = (n + 7) div 8"
  by (simp add: bitsToBytes_def)

lemma less_8_cases: "k < 8 \<Longrightarrow> k = 0 \<or> k = 1 \<or> k = 2 \<or> k = 3 \<or> k = 4 \<or> k = 5 \<or> k = 6 \<or> k = 7"
  for k :: nat
  by auto

lemma drop_bit_0x80: "k < 8 \<Longrightarrow> drop_bit k (0x80 :: u8) = push_bit (7 - k) 1"
  by (drule less_8_cases) (elim disjE; simp)

lemma bit_0x80: "k < 8 \<Longrightarrow> bit (drop_bit k (0x80 :: u8)) j \<longleftrightarrow> j = 7 - k"
  by (auto simp: drop_bit_0x80 bit_simps)

lemma bit_mask_bit: "bit (bit_mask (int i)) j \<longleftrightarrow> j = 7 - i mod 8"
proof -
  have "nat (int i mod 8) = i mod 8" by (simp add: nat_mod_distrib)
  then show ?thesis by (simp add: bit_mask_def bit_0x80)
qed

lemma bit_u8_less: "bit v j \<Longrightarrow> j < 8" for v :: u8
  using bit_imp_le_length [of v j] by simp

lemma and_single_bit:
  fixes v m :: u8
  assumes "\<And>j. bit m j \<longleftrightarrow> j = k"
  shows "v AND m \<noteq> 0 \<longleftrightarrow> bit v k"
proof -
  have "v AND m \<noteq> 0 \<longleftrightarrow> (\<exists>j. bit v j \<and> bit m j)"
    by (auto simp: bit_eq_iff bit_and_iff intro: bit_u8_less)
  with assms show ?thesis by simp
qed

lemma bf_GetBit_net:
  "bf_GetBit b index \<longleftrightarrow> 0 \<le> index \<and> index < bf_size b \<and> net_bit (bf_bytes b) (nat index)"
proof (cases "0 \<le> index")
  case True
  then obtain i where i: "index = int i" using nonneg_int_cases by blast
  have "nat (int i div 8) = i div 8" by (simp add: nat_div_distrib)
  then show ?thesis
    using and_single_bit [OF bit_mask_bit [of i]] by (simp add: bf_GetBit_def net_bit_def i)
qed (simp add: bf_GetBit_def)

lemma bf_GetBit_range: "bf_GetBit b i \<Longrightarrow> 0 \<le> i \<and> i < bf_size b"
  by (simp add: bf_GetBit_net)

lemma net_bits_eq:
  assumes "length a = length b" and "\<And>i. i < 8 * length a \<Longrightarrow> net_bit a i = net_bit b i"
  shows "a = b"
proof (rule nth_equalityI)
  fix k
  assume k: "k < length a"
  show "a ! k = b ! k"
  proof (rule bit_word_eqI)
    fix n
    assume "n < LENGTH(8)"
    then have n: "n < 8" by simp
    define d where "d = 7 - n"
    have d: "d < 8" "7 - d = n" using n by (simp_all add: d_def)
    define i where "i = 8 * k + d"
    have "i div 8 = k" "i mod 8 = d" "i < 8 * length a"
      using d k by (simp_all add: i_def)
    with assms(2) [of i] d show "bit (a ! k) n = bit (b ! k) n"
      by (simp add: net_bit_def)
  qed
qed (use assms in simp)

text \<open>Two well-formed fields with the same bits are the same field.\<close>

lemma BitField_eqI:
  assumes "wf_BitField a" and "wf_BitField b" and "bf_size a = bf_size b"
    and "\<And>i. bf_GetBit a i = bf_GetBit b i"
  shows "a = b"
proof -
  have "length (bf_bytes a) = length (bf_bytes b)"
    using assms(1-3) by (simp add: wf_BitField_def)
  moreover have "net_bit (bf_bytes a) i = net_bit (bf_bytes b) i" if "i < 8 * length (bf_bytes a)" for i
    using assms(1-3) assms(4) [of "int i"] that calculation
    by (cases "int i < bf_size a") (simp_all add: wf_BitField_def bf_GetBit_net)
  ultimately have "bf_bytes a = bf_bytes b" by (intro net_bits_eq)
  with assms(3) show ?thesis by (intro BitField.equality) simp_all
qed

section \<open>Functional behaviour\<close>

lemma bit_0xff: "j < 8 \<Longrightarrow> bit (0xff :: u8) j"
  by (drule less_8_cases) (elim disjE; simp)

lemma bit_push_0xff: "k \<le> 8 \<Longrightarrow> j < 8 \<Longrightarrow> bit (push_bit k (0xff :: u8)) j \<longleftrightarrow> k \<le> j"
  using bit_0xff [of "j - k"] by (auto simp: bit_push_bit_iff)

lemma bit_drop_0xff: "j < 8 \<Longrightarrow> bit (drop_bit k (0xff :: u8)) j \<longleftrightarrow> k + j < 8"
proof (cases "k + j < 8")
  case True
  then show ?thesis using bit_0xff [of "k + j"] by (simp only: bit_drop_bit_eq comp_apply)
next
  case False
  then have "\<not> bit (0xff :: u8) (k + j)" using bit_imp_le_length [of "0xff :: u8" "k + j"] by auto
  with False show ?thesis by (simp add: bit_drop_bit_eq)
qed

lemma div_mod8: "i div 8 = q \<Longrightarrow> i = 8 * q + i mod 8" for i q :: nat
  by (metis mult_div_mod_eq)

text \<open>Clearing the trailing bits gives a well-formed field with the same bits below the size.\<close>

lemma clearTrailingBits_spec:
  assumes len: "int (length (bf_bytes b)) = (bf_size b + 7) div 8" and size0: "0 \<le> bf_size b"
  shows "\<exists>b'. clearTrailingBits b = Inr b' \<and> wf_BitField b' \<and> bf_size b' = bf_size b \<and>
    (\<forall>i. bf_GetBit b' i = bf_GetBit b i)"
proof (cases "bf_size b mod 8 \<noteq> 0 \<and> bf_bytes b \<noteq> []")
  case False
  obtain n where n: "bf_size b = int n" using size0 nonneg_int_cases by blast
  have "n mod 8 = 0"
  proof (rule ccontr)
    assume "n mod 8 \<noteq> 0"
    moreover from this have "int n mod 8 \<noteq> 0" by presburger
    with False n have "bf_bytes b = []" by simp
    moreover from this len n have "(n + 7) div 8 = 0" by (simp flip: of_nat_add of_nat_div)
    ultimately show False by simp
  qed
  moreover have "length (bf_bytes b) = (n + 7) div 8"
    using len n by linarith
  ultimately have "8 * length (bf_bytes b) = n" by auto
  then have "wf_BitField b" using len size0 n by (simp add: wf_BitField_def)
  with False show ?thesis by (auto simp: clearTrailingBits_def)
next
  case True
  obtain n where n: "bf_size b = int n" using size0 nonneg_int_cases by blast
  define q r where "q = n div 8" and "r = n mod 8"
  have r: "0 < r" "r < 8" and nq: "n = 8 * q + r"
  proof -
    have "int n mod 8 \<noteq> 0" using True n by simp
    then show "0 < r" unfolding r_def by presburger
  qed (simp_all add: q_def r_def)
  have len': "length (bf_bytes b) = Suc q" using len n r nq by linarith
  have last: "bitsToBytes (bf_size b) - 1 = int q" using n r nq by simp
  have "int r = bf_size b mod 8" using n by (simp add: r_def of_nat_mod)
  then have rem: "nat (8 - bf_size b mod 8) = 8 - r" using r by linarith
  define m where "m = push_bit (8 - r) (0xff :: u8)"
  define b' where "b' = b\<lparr>bf_bytes := (bf_bytes b)[q := bf_bytes b ! q AND m]\<rparr>"
  have c: "clearTrailingBits b = Inr b'"
    using True last rem len' by (simp add: clearTrailingBits_def idx_def b'_def m_def)
  have nb: "net_bit (bf_bytes b') i \<longleftrightarrow> net_bit (bf_bytes b) i \<and> (i div 8 = q \<longrightarrow> i < n)"
    if "i < 8 * Suc q" for i
  proof (cases "i div 8 = q")
    case True
    have "i mod 8 < 8" by simp
    then have "bit m (7 - i mod 8) \<longleftrightarrow> i mod 8 < r"
      unfolding m_def using r by (subst bit_push_0xff) auto
    moreover have "i < n \<longleftrightarrow> i mod 8 < r" using div_mod8 [OF True] nq by linarith
    ultimately show ?thesis using True len' by (simp add: net_bit_def b'_def bit_and_iff)
  next
    case False
    then show ?thesis by (simp add: net_bit_def b'_def)
  qed
  have "wf_BitField b'"
  proof -
    have "\<not> net_bit (bf_bytes b') i" if i: "i < 8 * Suc q" "n \<le> i" for i
    proof -
      have "8 * q \<le> i" using i(2) nq by simp
      then have "i div 8 = q" using i(1) by (intro div_nat_eqI) simp_all
      then show ?thesis using nb [OF i(1)] i(2) by simp
    qed
    then show ?thesis using len' len n by (simp add: wf_BitField_def b'_def)
  qed
  moreover have "bf_GetBit b' i = bf_GetBit b i" for i
  proof (cases "0 \<le> i \<and> i < int n")
    case True
    then obtain j where j: "i = int j" "j < n" using nonneg_int_cases by fastforce
    then have "j < 8 * Suc q" using nq r(2) by simp
    with nb [of j] j n show ?thesis by (simp add: bf_GetBit_net b'_def)
  next
    case False
    then show ?thesis using n by (auto simp: bf_GetBit_net b'_def)
  qed
  ultimately show ?thesis using c by (auto simp: b'_def)
qed

lemma net_bit_go_copy:
  "i < 8 * length dst \<Longrightarrow>
     net_bit (go_copy dst src) i = (if i < 8 * length src then net_bit src i else net_bit dst i)"
proof -
  assume i: "i < 8 * length dst"
  then have "i div 8 < length dst" by linarith
  moreover have "i div 8 < length src \<longleftrightarrow> i < 8 * length src" by linarith
  ultimately show ?thesis by (simp add: net_bit_def go_copy_def nth_append)
qed

lemma length_go_copy [simp]: "length (go_copy dst src) = length dst"
  by (simp add: go_copy_def)

lemma net_bit_zeros [simp]: "i < 8 * n \<Longrightarrow> \<not> net_bit (replicate n 0) i"
proof -
  assume "i < 8 * n"
  then have "i div 8 < n" by linarith
  then show ?thesis by (simp add: net_bit_def)
qed

text \<open>\<open>Resize\<close> keeps the bits below both sizes and clears the new ones.\<close>

lemma bf_Resize_spec:
  assumes wf: "wf_BitField b" and n: "0 \<le> n"
  shows "\<exists>b'. bf_Resize b n = Inr b' \<and> wf_BitField b' \<and> bf_size b' = n \<and>
    (\<forall>i. bf_GetBit b' i \<longleftrightarrow> i < n \<and> bf_GetBit b i)"
proof -
  define m where "m = nat ((n + 7) div 8)"
  have m: "int m = (n + 7) div 8" "0 \<le> (n + 7) div 8" using n by (simp_all add: m_def)
  define b1 where "b1 = b\<lparr>bf_bytes := go_copy (replicate m 0) (bf_bytes b), bf_size := n\<rparr>"
  have r: "bf_Resize b n = clearTrailingBits b1"
    using n m(2) by (simp add: bf_Resize_def b1_def m_def not_less)
  obtain b' where b': "clearTrailingBits b1 = Inr b'" "wf_BitField b'" "bf_size b' = n"
    "\<And>i. bf_GetBit b' i = bf_GetBit b1 i"
    using clearTrailingBits_spec [of b1] n m(1) by (auto simp: b1_def)
  have "bf_GetBit b1 i \<longleftrightarrow> i < n \<and> bf_GetBit b i" for i
  proof (cases "0 \<le> i \<and> i < n")
    case True
    then obtain j where i: "i = int j" using nonneg_int_cases by blast
    with True m(1) have j: "i = int j" "j < 8 * m" by linarith+
    have "net_bit (bf_bytes b1) j \<longleftrightarrow> j < 8 * length (bf_bytes b) \<and> net_bit (bf_bytes b) j"
      using j by (simp add: b1_def net_bit_go_copy)
    moreover have "int j < bf_size b \<Longrightarrow> j < 8 * length (bf_bytes b)"
      using wf unfolding wf_BitField_def by linarith
    ultimately show ?thesis using wf True j
      by (auto simp: bf_GetBit_net b1_def wf_BitField_def)
  next
    case False
    then show ?thesis by (auto simp: bf_GetBit_net b1_def)
  qed
  with r b' show ?thesis by simp
qed

lemma wf_empty_BitField: "wf_BitField \<lparr>bf_bytes = [], bf_size = 0\<rparr>"
  by (simp add: wf_BitField_def)

lemma NewBitField_spec:
  "0 \<le> n \<Longrightarrow> \<exists>b. NewBitField n = Inr b \<and> wf_BitField b \<and> bf_size b = n \<and> (\<forall>i. \<not> bf_GetBit b i)"
proof -
  assume "0 \<le> n"
  then obtain b where b: "NewBitField n = Inr b" "wf_BitField b" "bf_size b = n"
    "\<forall>i. bf_GetBit b i \<longleftrightarrow> i < n \<and> bf_GetBit \<lparr>bf_bytes = [], bf_size = 0\<rparr> i"
    using bf_Resize_spec [OF wf_empty_BitField, of n] by (auto simp: NewBitField_def)
  moreover have "\<not> bf_GetBit \<lparr>bf_bytes = [], bf_size = 0\<rparr> i" for i
    by (auto simp: bf_GetBit_net)
  ultimately show ?thesis by simp
qed

text \<open>Setting and clearing a bit below the size.\<close>

lemma go_div_int8: "go_div (int i) 8 = int (i div 8)"
  by (simp add: zdiv_int)

lemma wf_index: "wf_BitField b \<Longrightarrow> int i < bf_size b \<Longrightarrow> i div 8 < length (bf_bytes b)"
  unfolding wf_BitField_def by linarith

lemma net_bit_update:
  assumes "i div 8 < length bs" and "\<And>k. bit v k = (if k = 7 - i mod 8 then x else bit (bs ! (i div 8)) k)"
  shows "net_bit (bs[i div 8 := v]) j = (if j = i then x else net_bit bs j)"
proof (cases "j div 8 = i div 8")
  case True
  have "j mod 8 < 8" "i mod 8 < 8" "j = 8 * (i div 8) + j mod 8" "i = 8 * (i div 8) + i mod 8"
    using div_mod8 [OF True] by simp_all
  then have "7 - j mod 8 = 7 - i mod 8 \<longleftrightarrow> j = i" by linarith
  with True assms show ?thesis by (auto simp: net_bit_def)
next
  case False
  then show ?thesis by (auto simp: net_bit_def)
qed

lemma wf_BitField_update:
  assumes wf: "wf_BitField b" and i: "int i < bf_size b" and bs: "length bs = length (bf_bytes b)"
    and nb: "\<And>j. net_bit bs j = (if j = i then x else net_bit (bf_bytes b) j)"
  shows "wf_BitField (b\<lparr>bf_bytes := bs\<rparr>) \<and>
    (\<forall>j. bf_GetBit (b\<lparr>bf_bytes := bs\<rparr>) j = (if j = int i then x else bf_GetBit b j))"
  using wf i bs by (auto simp: wf_BitField_def bf_GetBit_net nb)

lemma bf_SetBit_spec:
  assumes "wf_BitField b" and "0 \<le> i" and "i < bf_size b"
  shows "\<exists>b'. bf_SetBit b i = Inr b' \<and> wf_BitField b' \<and> bf_size b' = bf_size b \<and>
    (\<forall>j. bf_GetBit b' j = (if j = i then True else bf_GetBit b j))"
proof -
  obtain k where k: "i = int k" using assms(2) nonneg_int_cases by blast
  define bs where "bs = (bf_bytes b)[k div 8 := bf_bytes b ! (k div 8) OR bit_mask (int k)]"
  have len: "k div 8 < length (bf_bytes b)" using assms k wf_index [of b k] by simp
  have "net_bit bs j = (if j = k then True else net_bit (bf_bytes b) j)" for j
    unfolding bs_def by (rule net_bit_update [OF len]) (auto simp: bit_or_iff bit_mask_bit)
  with wf_BitField_update [of b k bs True] assms k
  have "wf_BitField (b\<lparr>bf_bytes := bs\<rparr>) \<and>
    (\<forall>j. bf_GetBit (b\<lparr>bf_bytes := bs\<rparr>) j = (if j = i then True else bf_GetBit b j))"
    by (simp add: bs_def)
  moreover have "bf_SetBit b i = Inr (b\<lparr>bf_bytes := bs\<rparr>)"
    using len by (simp add: bf_SetBit_def k go_div_int8 idx_def bs_def del: go_div_nonneg)
  ultimately show ?thesis by simp
qed

lemma bf_ClearBit_spec:
  assumes "wf_BitField b" and "0 \<le> i" and "i < bf_size b"
  shows "\<exists>b'. bf_ClearBit b i = Inr b' \<and> wf_BitField b' \<and> bf_size b' = bf_size b \<and>
    (\<forall>j. bf_GetBit b' j = (if j = i then False else bf_GetBit b j))"
proof -
  obtain k where k: "i = int k" using assms(2) nonneg_int_cases by blast
  define bs where "bs = (bf_bytes b)[k div 8 := bf_bytes b ! (k div 8) AND NOT (bit_mask (int k))]"
  have len: "k div 8 < length (bf_bytes b)" using assms k wf_index [of b k] by simp
  have "net_bit bs j = (if j = k then False else net_bit (bf_bytes b) j)" for j
    unfolding bs_def
    by (rule net_bit_update [OF len]) (auto simp: bit_and_iff bit_not_iff bit_mask_bit dest: bit_imp_le_length)
  with wf_BitField_update [of b k bs False] assms k
  have "wf_BitField (b\<lparr>bf_bytes := bs\<rparr>) \<and>
    (\<forall>j. bf_GetBit (b\<lparr>bf_bytes := bs\<rparr>) j = (if j = i then False else bf_GetBit b j))"
    by (simp add: bs_def)
  moreover have "bf_ClearBit b i = Inr (b\<lparr>bf_bytes := bs\<rparr>)"
    using len by (simp add: bf_ClearBit_def k go_div_int8 idx_def bs_def del: go_div_nonneg)
  ultimately show ?thesis by simp
qed

text \<open>\<open>Count\<close> is the number of set bits of the list.\<close>

lemma count_loop_eq: "count_loop b n = length (filter (\<lambda>i. bf_GetBit b (int i)) [0..<n])"
  by (induction n) simp_all

lemma bf_Count_Bits: "bf_Count b = length (filter id (bf_Bits b))"
  by (simp add: bf_Count_def bf_Bits_def count_loop_eq filter_map comp_def)

section \<open>Growing with a value, assignment and the wire format\<close>

lemma net_bit_fill:
  "i < 8 * length bs \<Longrightarrow>
     net_bit (fill_bytes bs from to) i = (if from \<le> i div 8 \<and> i div 8 < to then True else net_bit bs i)"
proof -
  assume i: "i < 8 * length bs"
  then have "i div 8 < length bs" by linarith
  moreover have "7 - i mod 8 < 8" by simp
  ultimately show ?thesis using bit_0xff [of "7 - i mod 8"] by (simp add: net_bit_def fill_bytes_def)
qed

lemma round_up8:
  "n mod 8 \<noteq> 0 \<Longrightarrow> (n + 7) div 8 = Suc (n div 8)" "n mod 8 = 0 \<Longrightarrow> 8 * ((n + 7) div 8) = n" for n :: nat
proof -
  define q r where "q = n div 8" and "r = n mod 8"
  have n: "n = 8 * q + r" "r < 8" by (simp_all add: q_def r_def)
  show "n mod 8 \<noteq> 0 \<Longrightarrow> (n + 7) div 8 = Suc (n div 8)"
    unfolding r_def [symmetric] q_def [symmetric] using n by (intro div_nat_eqI) simp_all
  show "n mod 8 = 0 \<Longrightarrow> 8 * ((n + 7) div 8) = n"
    unfolding r_def [symmetric] using n by simp
qed

text \<open>The partial byte at the old end: its unused bits are set.\<close>

lemma patched_byte:
  assumes "old mod 8 \<noteq> 0" and "old div 8 < length bs"
  shows "net_bit (bs[old div 8 := bs ! (old div 8) OR drop_bit (old mod 8) 0xff]) i \<longleftrightarrow>
    net_bit bs i \<or> (i div 8 = old div 8 \<and> old \<le> i)"
proof (cases "i div 8 = old div 8")
  case True
  have lt: "i mod 8 < 8" "old mod 8 < 8" "i = 8 * (old div 8) + i mod 8"
    "old = 8 * (old div 8) + old mod 8"
    using div_mod8 [OF True] by simp_all
  have "bit (drop_bit (old mod 8) (0xff :: u8)) (7 - i mod 8) \<longleftrightarrow> old mod 8 + (7 - i mod 8) < 8"
    by (rule bit_drop_0xff) simp
  also have "\<dots> \<longleftrightarrow> old \<le> i" using lt by linarith
  finally show ?thesis using True assms by (simp add: net_bit_def bit_or_iff)
next
  case False
  then show ?thesis by (auto simp: net_bit_def)
qed

lemma bf_ResizeWith_spec:
  assumes wf: "wf_BitField b" and n: "0 \<le> n"
  shows "\<exists>b'. bf_ResizeWith b n val = Inr b' \<and> wf_BitField b' \<and> bf_size b' = n \<and>
    (\<forall>i. bf_GetBit b' i \<longleftrightarrow> 0 \<le> i \<and> i < n \<and> (if i < bf_size b then bf_GetBit b i else val))"
proof -
  obtain b1 where b1: "bf_Resize b n = Inr b1" "wf_BitField b1" "bf_size b1 = n"
    "\<And>i. bf_GetBit b1 i \<longleftrightarrow> i < n \<and> bf_GetBit b i"
    using bf_Resize_spec [OF wf n] by auto
  obtain old where old: "bf_size b = int old" using wf nonneg_int_cases by (auto simp: wf_BitField_def)
  show ?thesis
  proof (cases "bf_size b \<ge> n \<or> \<not> val")
    case True
    then have "bf_ResizeWith b n val = Inr b1" using b1(1,3) by (auto simp: bf_ResizeWith_def)
    moreover have "bf_GetBit b1 i \<longleftrightarrow> 0 \<le> i \<and> i < n \<and> (if i < bf_size b then bf_GetBit b i else val)" for i
      unfolding b1(4) using True bf_GetBit_range [of b i] by auto
    ultimately show ?thesis using b1(2,3) by blast
  next
    case False
    define m where "m = (old + 7) div 8"
    have m: "bitsToBytes (bf_size b) = int m" using old by (simp add: m_def of_nat_add of_nat_div)
    have len: "int (length (bf_bytes b1)) = (n + 7) div 8" using b1(2,3) by (simp add: wf_BitField_def)
    moreover have "(int old + 7) div 8 \<le> (n + 7) div 8"
      using False old by (intro zdiv_mono1) simp_all
    moreover have "int m = (int old + 7) div 8" by (simp add: m_def of_nat_div)
    ultimately have ml: "m \<le> length (bf_bytes b1)" by simp
    define bs where "bs = (if old mod 8 \<noteq> 0
      then (bf_bytes b1)[old div 8 := bf_bytes b1 ! (old div 8) OR drop_bit (old mod 8) 0xff]
      else bf_bytes b1)"
    have oldm: "old mod 8 \<noteq> 0 \<Longrightarrow> m = Suc (old div 8)" "old mod 8 = 0 \<Longrightarrow> 8 * m = old"
      using round_up8 [of old] by (simp_all add: m_def)
    have bs: "net_bit bs i \<longleftrightarrow> net_bit (bf_bytes b1) i \<or> (i < 8 * m \<and> old \<le> i)" for i
    proof (cases "old mod 8 = 0")
      case True
      with oldm show ?thesis by (auto simp add: bs_def)
    next
      case False
      then have "old div 8 < length (bf_bytes b1)" using oldm ml by simp
      moreover have "i div 8 = old div 8" if "i < 8 * m" "old \<le> i"
      proof (rule div_nat_eqI)
        show "8 * (old div 8) \<le> i" using that(2) mult_div_mod_eq [of 8 old] by linarith
        show "i < 8 * Suc (old div 8)" using that(1) oldm(1) [OF False] by simp
      qed
      moreover have "i < 8 * m" if "i div 8 = old div 8"
        using oldm(1) [OF False] div_mod8 [OF that] mod_less_divisor [of 8 i] by linarith
      ultimately show ?thesis using patched_byte [OF False] False by (auto simp: bs_def)
    qed
    define b2 where "b2 = b1\<lparr>bf_bytes := fill_bytes bs m (length (bf_bytes b1))\<rparr>"
    have o8: "int old mod 8 = int (old mod 8)" by (simp add: of_nat_mod)
    have nb: "nat (bitsToBytes n) = length (bf_bytes b1)"
      using n len by (simp add: bitsToBytes_nonneg del: go_div_nonneg)
    have patch: "patch_tail (bf_bytes b1) (bf_size b) = Some bs"
    proof (cases "old mod 8 = 0")
      case True
      then show ?thesis by (simp add: patch_tail_def bs_def old o8 del: bitsToBytes_nonneg)
    next
      case False
      then have "m = Suc (old div 8)" "old div 8 < length (bf_bytes b1)" using oldm ml by simp_all
      then have "idx (bf_bytes b1) (int m - 1) = Some (bf_bytes b1 ! (old div 8))"
        "\<And>v. upd (bf_bytes b1) (int m - 1) v = Some ((bf_bytes b1)[old div 8 := v])"
        by (simp_all add: idx_def upd_def)
      moreover have "int m \<noteq> 0" "int (old mod 8) \<noteq> 0" using False oldm by simp_all
      ultimately show ?thesis
        unfolding patch_tail_def m unfolding old o8 nat_int bs_def using False by (simp del: of_nat_mod)
    qed
    have "bf_ResizeWith b n val = clearTrailingBits b2"
      using False b1(1,3) patch nb m by (simp add: bf_ResizeWith_def Let_def b2_def)
    moreover have size2: "bf_size b2 = n" and len2: "length (bf_bytes b2) = length (bf_bytes b1)"
      using b1(3) by (simp_all add: b2_def fill_bytes_def bs_def)
    moreover from this obtain b' where "clearTrailingBits b2 = Inr b'" "wf_BitField b'" "bf_size b' = n"
      "\<And>i. bf_GetBit b' i = bf_GetBit b2 i"
      using clearTrailingBits_spec [of b2] len n by auto
    moreover have "bf_GetBit b2 i \<longleftrightarrow> 0 \<le> i \<and> i < n \<and> (if i < bf_size b then bf_GetBit b i else val)" for i
    proof (cases "0 \<le> i \<and> i < n")
      case True
      then obtain j where i: "i = int j" using nonneg_int_cases by blast
      with True len have j: "j < 8 * length (bf_bytes b1)" by linarith
      moreover have "length bs = length (bf_bytes b1)" by (simp add: bs_def)
      ultimately have "net_bit (bf_bytes b2) j \<longleftrightarrow> m \<le> j div 8 \<or> net_bit bs j"
        by (auto simp: b2_def net_bit_fill)
      moreover have "m \<le> j div 8 \<longleftrightarrow> 8 * m \<le> j" by (simp add: less_eq_div_iff_mult_less_eq mult.commute)
      moreover have "old \<le> 8 * m" unfolding m_def by linarith
      ultimately have "net_bit (bf_bytes b2) j \<longleftrightarrow> old \<le> j \<or> net_bit (bf_bytes b1) j"
        using bs [of j] by auto
      moreover have "net_bit (bf_bytes b1) j \<longleftrightarrow> bf_GetBit b i"
        using b1(4) [of i] True b1(3) i by (simp add: bf_GetBit_net)
      moreover have "bf_GetBit b2 i \<longleftrightarrow> net_bit (bf_bytes b2) j"
        using True size2 i by (simp add: bf_GetBit_net)
      ultimately show ?thesis using True i old False bf_GetBit_range [of b i] by auto
    next
      case False
      then show ?thesis using size2 by (auto simp: bf_GetBit_net)
    qed
    ultimately show ?thesis by auto
  qed
qed

lemma bf_SetAll_spec:
  assumes wf: "wf_BitField b"
  shows "\<exists>b'. bf_SetAll b = Inr b' \<and> wf_BitField b' \<and> bf_size b' = bf_size b \<and>
    (\<forall>i. bf_GetBit b' i \<longleftrightarrow> 0 \<le> i \<and> i < bf_size b)"
proof -
  define b1 where "b1 = b\<lparr>bf_bytes := map (\<lambda>_. 0xff) (bf_bytes b)\<rparr>"
  have "net_bit (bf_bytes b1) i" if "int i < bf_size b" for i
    using wf_index [OF wf that] bit_0xff [of "7 - i mod 8"] by (simp add: net_bit_def b1_def)
  then have "bf_GetBit b1 i \<longleftrightarrow> 0 \<le> i \<and> i < bf_size b" for i
    by (auto simp: bf_GetBit_net b1_def)
  with clearTrailingBits_spec [of b1] wf show ?thesis
    by (auto simp: bf_SetAll_def wf_BitField_def b1_def)
qed

lemma bf_ClearAll_spec:
  "wf_BitField b \<Longrightarrow> wf_BitField (bf_ClearAll b) \<and> bf_size (bf_ClearAll b) = bf_size b \<and>
     (\<forall>i. \<not> bf_GetBit (bf_ClearAll b) i)"
proof -
  assume wf: "wf_BitField b"
  have z: "map (\<lambda>_. 0) (bf_bytes b) = replicate (length (bf_bytes b)) (0 :: u8)"
    by (rule map_replicate_const)
  from wf have "nat i < 8 * length (bf_bytes b)" if "0 \<le> i" "i < bf_size b" for i
    unfolding wf_BitField_def using that by linarith
  with wf show ?thesis
    by (auto simp: bf_ClearAll_def bf_GetBit_net wf_BitField_def z)
qed

text \<open>Assigning the bytes of a well-formed field gives that field, whatever was there before.\<close>

lemma bf_Assign_wf:
  assumes b: "wf_BitField b" and old: "wf_BitField old"
  shows "bf_Assign old (bf_bytes b) (bf_size b) = Inr b"
proof -
  have size0: "0 \<le> bf_size b" using b by (simp add: wf_BitField_def)
  obtain b1 where b1: "bf_Resize old (bf_size b) = Inr b1" "wf_BitField b1" "bf_size b1 = bf_size b"
    using bf_Resize_spec [OF old size0] by auto
  then have len: "length (bf_bytes b1) = length (bf_bytes b)"
    using b by (simp add: wf_BitField_def)
  then have "b1\<lparr>bf_bytes := go_copy (bf_bytes b1) (bf_bytes b)\<rparr> = b"
    using b1(3) by (simp add: go_copy_def)
  moreover obtain b' where b': "clearTrailingBits b = Inr b'" "wf_BitField b'" "bf_size b' = bf_size b"
    "\<And>i. bf_GetBit b' i = bf_GetBit b i"
    using clearTrailingBits_spec [of b] b by (auto simp: wf_BitField_def)
  moreover have "b' = b" using b'(2-4) b by (intro BitField_eqI)
  ultimately show ?thesis using b1(1) by (simp add: bf_Assign_def)
qed

definition wire_BitField :: "BitField \<Rightarrow> bool" where
  "wire_BitField b \<longleftrightarrow> wf_BitField b \<and> bf_size b < 65536"

text \<open>Packets read into a fresh field.\<close>

definition getNew_BitField :: "BitField reader" where
  "getNew_BitField = get_BitField \<lparr>bf_bytes = [], bf_size = 0\<rparr>"

lemma get_put_BitField:
  assumes b: "wire_BitField b" and old: "wf_BitField old"
  shows "get_BitField old (put_BitField b @ rest) = Inr (b, rest)"
proof -
  have size0: "0 \<le> bf_size b" "bf_size b < 65536" and wf: "wf_BitField b"
    and len: "(bf_size b + 7) div 8 = int (length (bf_bytes b))"
    using b by (simp_all add: wire_BitField_def wf_BitField_def)
  have u: "uint (word_of_int (bf_size b) :: u16) = bf_size b"
    using size0 by (simp add: uint_word_of_int)
  have "rbind readUInt16 k (writeUInt16 w @ r) = k w r" for k :: "u16 \<Rightarrow> BitField reader" and w r
    by (simp add: rbind_def readUInt16_def writeUInt16_def readFull_def rreturn_def le_dec_enc)
  then show ?thesis
    using bf_Assign_wf [OF wf old] size0 len
    by (simp add: get_BitField_def put_BitField_def u codec_step)
qed

interpretation bitfield_codec:
  sized_codec getNew_BitField put_BitField wire_BitField bytesCount_BitField
proof unfold_locales
  fix b rest
  assume "wire_BitField b"
  then show "getNew_BitField (put_BitField b @ rest) = Inr (b, rest)"
    unfolding getNew_BitField_def by (intro get_put_BitField wf_empty_BitField)
next
  fix b
  show "length (put_BitField b) = bytesCount_BitField b"
    by (simp add: put_BitField_def bytesCount_BitField_def codec_len)
qed

text \<open>Whatever bytes arrive, what \<open>Get\<close> builds keeps the invariant and it never panics.\<close>

lemma get_BitField_wf: "get_BitField old src = Inr (b, rest) \<Longrightarrow> wf_BitField old \<Longrightarrow> wire_BitField b"
proof -
  assume g: "get_BitField old src = Inr (b, rest)" and old: "wf_BitField old"
  then obtain sz :: u16 and temp mid where
    a: "bf_Assign old temp (uint sz) = Inr b"
    by (auto simp: get_BitField_def elim!: rbind_InrE split: sum.splits)
  have s: "0 \<le> uint sz" "uint sz < 65536" using uint_lt2p [of sz] by simp_all
  obtain b1 where b1: "bf_Resize old (uint sz) = Inr b1" "wf_BitField b1" "bf_size b1 = uint sz"
    using bf_Resize_spec [OF old s(1)] by auto
  define b2 where "b2 = b1\<lparr>bf_bytes := go_copy (bf_bytes b1) temp\<rparr>"
  have "clearTrailingBits b2 = Inr b" using a b1(1) by (simp add: bf_Assign_def b2_def)
  moreover obtain b' where "clearTrailingBits b2 = Inr b'" "wf_BitField b'" "bf_size b' = uint sz"
    using clearTrailingBits_spec [of b2] b1(2,3) by (auto simp: b2_def wf_BitField_def)
  ultimately show ?thesis using s by (simp add: wire_BitField_def)
qed

section \<open>Properties\<close>

definition demo_field :: BitField where
  "demo_field = \<lparr>bf_bytes = [0xA0], bf_size = 3\<rparr>"

lemma wf_demo_field: "wf_BitField demo_field"
proof -
  have "\<not> net_bit [0xA0] i" if "i < 8" "3 \<le> i" for i
    using less_8_cases [OF that(1)] that(2) by (elim disjE) (simp_all add: net_bit_def)
  then show ?thesis by (simp add: wf_BitField_def demo_field_def)
qed

lemma demo_field_bits: "bf_Bits demo_field = [True, False, True]"
  by (simp add: bf_Bits_def demo_field_def upt_rec bf_GetBit_net net_bit_def)

text \<open>Growing or shrinking a field to \<open>n\<close> bits keeps the bits below both sizes and gives the
  new ones the asked value; the field stays well formed, so no stray bit appears later.\<close>

theorem ResizeWith_bits:
  assumes "wf_BitField b" and "0 \<le> n"
  shows "\<exists>b'. bf_ResizeWith b n val = Inr b' \<and> wf_BitField b' \<and>
    bf_Bits b' = map (\<lambda>i. if int i < bf_size b then bf_GetBit b (int i) else val) [0..<nat n]"
proof -
  obtain b' where b': "bf_ResizeWith b n val = Inr b'" "wf_BitField b'" "bf_size b' = n"
    and bits: "\<forall>i. bf_GetBit b' i \<longleftrightarrow> 0 \<le> i \<and> i < n \<and> (if i < bf_size b then bf_GetBit b i else val)"
    using bf_ResizeWith_spec [OF assms] by blast
  have "bf_Bits b' = map (\<lambda>i. if int i < bf_size b then bf_GetBit b (int i) else val) [0..<nat n]"
    unfolding bf_Bits_def b'(3) by (rule map_cong [OF refl], subst bits [rule_format]) auto
  with b' show ?thesis by blast
qed

theorem ResizeWith_bits_witness:
  "\<exists>b'. bf_ResizeWith demo_field 5 True = Inr b' \<and> bf_Bits b' = [True, False, True, True, True]"
proof -
  have "map (\<lambda>i. if int i < bf_size demo_field then bf_GetBit demo_field (int i) else True) [0..<nat 5] =
      [True, False, True, True, True]"
  proof -
    have "[0..<nat 5] = [0, 1, 2, 3, 4]" by (simp add: upt_rec)
    moreover have "bf_GetBit demo_field 0" "\<not> bf_GetBit demo_field 1" "bf_GetBit demo_field 2"
      by (simp_all add: demo_field_def bf_GetBit_net net_bit_def)
    ultimately show ?thesis by (simp add: demo_field_def)
  qed
  with ResizeWith_bits [OF wf_demo_field, of 5 True] show ?thesis by auto
qed

text \<open>A bit set or cleared below the size is the bit read back, no other bit changes, and the
  count is the number of set bits.\<close>

theorem SetBit_ClearBit:
  assumes "wf_BitField b" and "0 \<le> i" and "i < bf_size b"
  shows "(\<exists>b'. bf_SetBit b i = Inr b' \<and> wf_BitField b' \<and> (\<forall>j. bf_GetBit b' j \<longleftrightarrow> j = i \<or> bf_GetBit b j)) \<and>
    (\<exists>b'. bf_ClearBit b i = Inr b' \<and> wf_BitField b' \<and> (\<forall>j. bf_GetBit b' j \<longleftrightarrow> j \<noteq> i \<and> bf_GetBit b j)) \<and>
    bf_Count b = length (filter id (bf_Bits b))"
proof -
  obtain b1 where "bf_SetBit b i = Inr b1" "wf_BitField b1"
    "\<forall>j. bf_GetBit b1 j = (if j = i then True else bf_GetBit b j)"
    using bf_SetBit_spec [OF assms] by blast
  moreover obtain b2 where "bf_ClearBit b i = Inr b2" "wf_BitField b2"
    "\<forall>j. bf_GetBit b2 j = (if j = i then False else bf_GetBit b j)"
    using bf_ClearBit_spec [OF assms] by blast
  ultimately show ?thesis by (auto simp: bf_Count_Bits)
qed

theorem SetBit_ClearBit_witness: "bf_Count demo_field = 2 \<and> (\<exists>b. bf_SetBit demo_field 1 = Inr b \<and> bf_GetBit b 1)"
proof -
  have "1 < bf_size demo_field" by (simp add: demo_field_def)
  from SetBit_ClearBit [OF wf_demo_field _ this] show ?thesis by (auto simp: demo_field_bits)
qed

text \<open>A field read from the wire is the one that was written, whatever the receiver held; and
  whatever bytes arrive, a field that is read satisfies the invariant.\<close>

theorem BitField_wire:
  assumes "wf_BitField old"
  shows "(\<forall>b rest. wire_BitField b \<longrightarrow> get_BitField old (put_BitField b @ rest) = Inr (b, rest)) \<and>
    (\<forall>src b rest. get_BitField old src = Inr (b, rest) \<longrightarrow> wf_BitField b)"
  using get_put_BitField get_BitField_wf assms by (auto simp: wire_BitField_def)

theorem BitField_wire_witness:
  "get_BitField \<lparr>bf_bytes = [], bf_size = 0\<rparr> (put_BitField demo_field @ [1]) = Inr (demo_field, [1])"
proof -
  have "wire_BitField demo_field"
    using wf_demo_field by (simp add: wire_BitField_def, simp add: demo_field_def)
  then show ?thesis using BitField_wire [OF wf_empty_BitField] by blast
qed

text \<open>
  Which bit fields there can be. Setting and clearing check no index: as long as the byte is
  there, the bit is written, also past the size. The flag says that no bit past the size has
  been set since the last operation on the whole field; sizes are not negative.
\<close>

inductive bit_field :: "bool \<Rightarrow> BitField \<Rightarrow> bool" where
  new: "0 \<le> n \<Longrightarrow> NewBitField n = Inr b \<Longrightarrow> bit_field True b"
| resized: "bit_field clean b \<Longrightarrow> 0 \<le> n \<Longrightarrow> bf_Resize b n = Inr b' \<Longrightarrow> bit_field True b'"
| resized_with: "bit_field clean b \<Longrightarrow> 0 \<le> n \<Longrightarrow> bf_ResizeWith b n val = Inr b' \<Longrightarrow> bit_field True b'"
| bit_set: "bit_field clean b \<Longrightarrow> bf_SetBit b i = Inr b' \<Longrightarrow> bit_field (clean \<and> 0 \<le> i \<and> i < bf_size b) b'"
| bit_cleared: "bit_field clean b \<Longrightarrow> bf_ClearBit b i = Inr b' \<Longrightarrow> bit_field clean b'"
| all_set: "bit_field clean b \<Longrightarrow> bf_SetAll b = Inr b' \<Longrightarrow> bit_field True b'"
| all_cleared: "bit_field clean b \<Longrightarrow> bit_field True (bf_ClearAll b)"
| assigned: "bit_field clean b \<Longrightarrow> 0 \<le> n \<Longrightarrow> bf_Assign b raw n = Inr b' \<Longrightarrow> bit_field True b'"
| read: "bit_field clean b \<Longrightarrow> get_BitField b src = Inr (b', rest) \<Longrightarrow> bit_field True b'"

definition sized_BitField :: "BitField \<Rightarrow> bool" where
  "sized_BitField b \<longleftrightarrow> 0 \<le> bf_size b \<and> int (length (bf_bytes b)) = (bf_size b + 7) div 8"

lemma wf_sized [intro]: "wf_BitField b \<Longrightarrow> sized_BitField b"
  by (simp add: wf_BitField_def sized_BitField_def)

lemma clearTrailingBits_sized: "sized_BitField b \<Longrightarrow> clearTrailingBits b = Inr b' \<Longrightarrow> wf_BitField b' \<and> bf_size b' = bf_size b"
  using clearTrailingBits_spec [of b] by (auto simp: sized_BitField_def)

text \<open>The operations on the whole field clear what lies past the size, whatever was there.\<close>

lemma bf_Resize_any:
  assumes "0 \<le> n" and "bf_Resize b n = Inr b'"
  shows "wf_BitField b' \<and> bf_size b' = n"
proof -
  have "0 \<le> (n + 7) div 8" using assms(1) by simp
  then have "sized_BitField (b\<lparr>bf_bytes := go_copy (replicate (nat (bitsToBytes n)) 0) (bf_bytes b), bf_size := n\<rparr>)"
    using assms(1) by (simp add: sized_BitField_def)
  from clearTrailingBits_sized [OF this] assms show ?thesis
    by (simp add: bf_Resize_def split: if_splits)
qed

lemma patch_tail_length: "patch_tail bs old = Some bs' \<Longrightarrow> length bs' = length bs"
  by (auto simp: patch_tail_def upd_def split: if_splits option.splits)

lemma bf_ResizeWith_any:
  assumes "0 \<le> n" and "bf_ResizeWith b n val = Inr b'"
  shows "wf_BitField b'"
proof -
  obtain b1 where b1: "bf_Resize b n = Inr b1" using assms(2) by (auto simp: bf_ResizeWith_def Let_def split: sum.splits)
  note wf = bf_Resize_any [OF assms(1) b1]
  show ?thesis
  proof (cases "bf_size b \<ge> bf_size b1 \<or> \<not> val")
    case True
    with assms(2) b1 wf show ?thesis by (auto simp: bf_ResizeWith_def Let_def)
  next
    case False
    then obtain bs where bs: "patch_tail (bf_bytes b1) (bf_size b) = Some bs"
      "clearTrailingBits (b1\<lparr>bf_bytes := fill_bytes bs (nat (bitsToBytes (bf_size b))) (nat (bitsToBytes (bf_size b1)))\<rparr>) = Inr b'"
      using assms(2) b1 by (auto simp: bf_ResizeWith_def Let_def split: option.splits)
    with clearTrailingBits_sized [OF _ bs(2)] wf_sized [of b1] wf show ?thesis
      by (simp add: sized_BitField_def fill_bytes_def patch_tail_length)
  qed
qed

lemma bf_Assign_any:
  assumes "0 \<le> n" and "bf_Assign b raw n = Inr b'"
  shows "wf_BitField b'"
proof -
  obtain b1 where b1: "bf_Resize b n = Inr b1" "clearTrailingBits (b1\<lparr>bf_bytes := go_copy (bf_bytes b1) raw\<rparr>) = Inr b'"
    using assms(2) by (auto simp: bf_Assign_def split: sum.splits)
  with clearTrailingBits_sized [OF _ b1(2)] wf_sized [of b1] bf_Resize_any [OF assms(1) b1(1)] show ?thesis
    by (simp add: sized_BitField_def)
qed

lemma get_BitField_any: "get_BitField b src = Inr (b', rest) \<Longrightarrow> wf_BitField b'"
  by (auto simp: get_BitField_def elim!: rbind_InrE intro: bf_Assign_any split: sum.splits)

lemma bf_ClearAll_any:
  assumes "sized_BitField b"
  shows "wf_BitField (bf_ClearAll b)"
proof -
  have "map (\<lambda>_. 0) (bf_bytes b) = replicate (length (bf_bytes b)) (0 :: u8)" by (rule map_replicate_const)
  with assms show ?thesis by (simp add: sized_BitField_def wf_BitField_def bf_ClearAll_def)
qed

lemma bf_ClearBit_any:
  assumes "bf_ClearBit b i = Inr b'"
  shows "(sized_BitField b \<longrightarrow> sized_BitField b') \<and> (wf_BitField b \<longrightarrow> wf_BitField b')"
proof -
  obtain k v where b': "b' = b\<lparr>bf_bytes := (bf_bytes b)[k := v AND NOT (bit_mask i)]\<rparr>" "k < length (bf_bytes b)"
    "v = bf_bytes b ! k"
    using assms by (auto simp: bf_ClearBit_def idx_def split: option.splits if_splits)
  then have "net_bit (bf_bytes b') j \<Longrightarrow> net_bit (bf_bytes b) j" for j
    by (cases "j div 8 = k") (simp_all add: net_bit_def bit_and_iff)
  moreover have "bf_size b' = bf_size b" "length (bf_bytes b') = length (bf_bytes b)" using b' by simp_all
  ultimately show ?thesis unfolding sized_BitField_def wf_BitField_def by metis
qed

lemma bf_SetBit_any: "bf_SetBit b i = Inr b' \<Longrightarrow> sized_BitField b \<Longrightarrow> sized_BitField b'"
  by (auto simp: bf_SetBit_def sized_BitField_def split: option.splits)

lemma bf_SetAll_any: "bf_SetAll b = Inr b' \<Longrightarrow> sized_BitField b \<Longrightarrow> wf_BitField b'"
  using clearTrailingBits_sized [of "b\<lparr>bf_bytes := map (\<lambda>_. 0xff) (bf_bytes b)\<rparr>" b']
  by (simp add: bf_SetAll_def sized_BitField_def)

lemma bit_field_wf: "bit_field clean b \<Longrightarrow> sized_BitField b \<and> (clean \<longrightarrow> wf_BitField b)"
proof (induction rule: bit_field.induct)
  case (new n b)
  then show ?case using bf_Resize_any [of n] by (auto simp: NewBitField_def)
next
  case (bit_set clean b i b')
  then show ?case using bf_SetBit_any [of b i b'] bf_SetBit_spec [of b i] by auto
next
  case (all_cleared clean b)
  then show ?case using bf_ClearAll_any by blast
qed (blast dest: bf_Resize_any bf_ResizeWith_any bf_ClearBit_any bf_SetAll_any bf_Assign_any get_BitField_any)+

text \<open>C21: however a bit field is made and changed - resized, set, cleared, assigned or read from
  arbitrary bytes, with whatever indices - it has exactly the bytes its size needs; and unless a bit
  past the size was set with \<open>SetBit\<close>, which checks no index, since the last operation on the whole field,
  no bit beyond its size is set.\<close>

theorem bit_field_type:
  assumes "bit_field clean b"
  shows "0 \<le> bf_size b \<and> int (length (bf_bytes b)) = bitsToBytes (bf_size b) \<and>
    (clean \<longrightarrow>
      (\<forall>i < 8 * length (bf_bytes b). bf_size b \<le> int i \<longrightarrow> \<not> bit (bf_bytes b ! (i div 8)) (7 - i mod 8)))"
  using bit_field_wf [OF assms] by (simp add: sized_BitField_def wf_BitField_def net_bit_def)

theorem bit_field_type_witness:
  "\<exists>b b'. NewBitField 3 = Inr b \<and> bf_SetBit b 2 = Inr b' \<and> bf_size b' = 3 \<and> bit_field True b' \<and>
     int (length (bf_bytes b')) = bitsToBytes (bf_size b') \<and> \<not> bit (bf_bytes b' ! 0) 3"
proof -
  obtain b where b: "NewBitField 3 = Inr b" "bf_size b = 3" "wf_BitField b" using NewBitField_spec [of 3] by auto
  obtain b' where b': "bf_SetBit b 2 = Inr b'" "bf_size b' = 3" using bf_SetBit_spec [OF b(3), of 2] b(2) by auto
  have f: "bit_field True b'"
    using bit_field.bit_set [OF bit_field.new [OF _ b(1)] b'(1)] by (simp add: b(2))
  note t = bit_field_type [OF f]
  have len: "length (bf_bytes b') = 1" using t b'(2) by simp
  have "\<not> bit (bf_bytes b' ! (4 div 8)) (7 - 4 mod 8)"
  proof -
    have "bf_size b' \<le> int 4" "4 < 8 * length (bf_bytes b')" using len b'(2) by simp_all
    then show ?thesis using t by blast
  qed
  then show ?thesis using b(1) b' f t by auto
qed

end
