(* ===== verification/Geometry.thy ===== *)
theory Geometry
  imports Three_Way
begin

text \<open>
  How a file is cut into pieces, blocks and peer requests: \<^verbatim>\<open>data/piece_block.go\<close>,
  \<^verbatim>\<open>data/peer_request.go\<close> and \<^verbatim>\<open>constants.go\<close>. Offsets are mathematical integers
  with Go's truncating division; \<open>int64_bounds\<close> says that no offset the code computes
  from a file smaller than \<open>2 ^ 62\<close> leaves the range of an \<^verbatim>\<open>int64\<close>.
\<close>

section \<open>Blocks\<close>

definition PieceSize :: int where "PieceSize = 9728000"
definition BlockSize :: int where "BlockSize = 190 * 1024"
definition BlocksPerPiece :: int where "BlocksPerPiece = go_div PieceSize BlockSize"

lemma PieceSize_eq: "PieceSize = 9728000"
  by (simp add: PieceSize_def)

lemma BlockSize_eq: "BlockSize = 194560"
  by (simp add: BlockSize_def)

lemma BlocksPerPiece_eq: "BlocksPerPiece = 50"
  by (simp add: BlocksPerPiece_def PieceSize_def BlockSize_def)

lemmas geometry_constants = PieceSize_eq BlockSize_eq BlocksPerPiece_eq

record Range =
  Left :: int
  Right :: int

definition MakeRange :: "int \<Rightarrow> int \<Rightarrow> Range" where
  "MakeRange left right = \<lparr>Left = left, Right = right\<rparr>"

record PieceBlock =
  pb_PieceIndex :: int
  pb_PieceBlock :: int

definition NewPieceBlock :: "int \<Rightarrow> int \<Rightarrow> PieceBlock" where
  "NewPieceBlock pieceIndex pieceBlock = \<lparr>pb_PieceIndex = pieceIndex, pb_PieceBlock = pieceBlock\<rparr>"

definition BlocksOffset :: "PieceBlock \<Rightarrow> int" where
  "BlocksOffset p = pb_PieceIndex p * BlocksPerPiece + pb_PieceBlock p"

definition MakePieceBlock :: "int \<Rightarrow> PieceBlock" where
  "MakePieceBlock offset =
     (let piece = go_div offset PieceSize; start = go_rem offset PieceSize
      in \<lparr>pb_PieceIndex = piece, pb_PieceBlock = go_div start BlockSize\<rparr>)"

definition pb_Range :: "PieceBlock \<Rightarrow> int \<Rightarrow> Range" where
  "pb_Range p fsize =
     (let begin = pb_PieceIndex p * PieceSize + pb_PieceBlock p * BlockSize;
          normalEnd = pb_PieceIndex p * PieceSize + (pb_PieceBlock p + 1) * BlockSize;
          end = min (begin + BlockSize) (min normalEnd fsize)
      in MakeRange begin end)"

definition pb_Size :: "PieceBlock \<Rightarrow> int \<Rightarrow> int" where
  "pb_Size p totalSize = (let r = pb_Range p totalSize in Right r - Left r)"

definition pb_Compare :: "PieceBlock \<Rightarrow> PieceBlock \<Rightarrow> int" where
  "pb_Compare p other =
     (if BlocksOffset p < BlocksOffset other then -1
      else if BlocksOffset p > BlocksOffset other then 1
      else 0)"

text \<open>A block of a file: its first byte is in the file and its number in the piece is one.\<close>

definition valid_block :: "int \<Rightarrow> PieceBlock \<Rightarrow> bool" where
  "valid_block fsize p \<longleftrightarrow>
     0 \<le> pb_PieceIndex p \<and> 0 \<le> pb_PieceBlock p \<and> pb_PieceBlock p < BlocksPerPiece \<and>
     BlocksOffset p * BlockSize < fsize"

lemma pb_Range_offset:
  "pb_Range p fsize =
     \<lparr>Left = BlocksOffset p * BlockSize,
      Right = min (BlocksOffset p * BlockSize + BlockSize) fsize\<rparr>"
  by (simp add: pb_Range_def Let_def MakeRange_def BlocksOffset_def geometry_constants algebra_simps)

lemma BlocksOffset_MakePieceBlock: "0 \<le> offset \<Longrightarrow> BlocksOffset (MakePieceBlock offset) = offset div BlockSize"
proof -
  assume "0 \<le> offset"
  then have "BlocksOffset (MakePieceBlock offset) = offset div 9728000 * 50 + offset mod 9728000 div 194560"
    by (simp add: BlocksOffset_def MakePieceBlock_def geometry_constants Let_def)
  also have "\<dots> = offset div 194560"
  proof -
    define q r where "q = offset div 9728000" and "r = offset mod 9728000"
    have "offset = 194560 * (q * 50) + r" by (simp add: q_def r_def)
    then have "offset div 194560 = q * 50 + r div 194560" by simp
    then show ?thesis by (simp add: q_def r_def)
  qed
  finally show ?thesis by (simp add: BlockSize_eq)
qed

lemma valid_MakePieceBlock: "0 \<le> offset \<Longrightarrow> offset < fsize \<Longrightarrow> valid_block fsize (MakePieceBlock offset)"
proof -
  assume o: "0 \<le> offset" "offset < fsize"
  have "offset div BlockSize * BlockSize \<le> offset"
    by (simp add: geometry_constants flip: minus_mod_eq_div_mult)
  moreover have "offset mod 9728000 div 194560 < 50"
    using pos_mod_bound [of 9728000 offset] by (simp add: div_less_iff_less_mult)
  ultimately show ?thesis
    using o BlocksOffset_MakePieceBlock [OF o(1)]
    by (simp add: valid_block_def MakePieceBlock_def geometry_constants Let_def
        pos_imp_zdiv_nonneg_iff)
qed

text \<open>Within a piece the offset tells two blocks apart.\<close>

lemma BlocksOffset_inj:
  "valid_block n p \<Longrightarrow> valid_block m q \<Longrightarrow> BlocksOffset p = BlocksOffset q \<Longrightarrow> p = q"
proof -
  assume p: "valid_block n p" and q: "valid_block m q" and eq: "BlocksOffset p = BlocksOffset q"
  have split: "BlocksOffset r div 50 = pb_PieceIndex r \<and> BlocksOffset r mod 50 = pb_PieceBlock r"
    if "valid_block k r" for k r
    using that by (simp add: valid_block_def BlocksOffset_def geometry_constants)
  have "pb_PieceIndex p = pb_PieceIndex q" "pb_PieceBlock p = pb_PieceBlock q"
    using split [OF p] split [OF q] eq by metis+
  then show ?thesis by (intro PieceBlock.equality) simp_all
qed

interpretation pb_order: three_way pb_Compare "valid_block n"
proof unfold_locales
  fix a b c
  assume a: "valid_block n a" and b: "valid_block n b"
  show "pb_Compare a b = -1 \<or> pb_Compare a b = 0 \<or> pb_Compare a b = 1"
    by (simp add: pb_Compare_def)
  show "pb_Compare b a = - pb_Compare a b"
    by (simp add: pb_Compare_def)
  show "pb_Compare a b = 0 \<Longrightarrow> a = b"
    using BlocksOffset_inj [OF a b] by (simp add: pb_Compare_def split: if_splits)
  show "pb_Compare a b < 0 \<Longrightarrow> pb_Compare b c < 0 \<Longrightarrow> pb_Compare a c < 0"
    by (simp add: pb_Compare_def split: if_splits)
qed

section \<open>Peer requests\<close>

record PeerRequest =
  pr_Piece :: int
  pr_Start :: int
  pr_Length :: int

definition MakePeerRequest :: "int \<Rightarrow> int \<Rightarrow> PeerRequest result" where
  "MakePeerRequest begin end =
     (if end \<le> begin \<or> begin < 0 then Inl (ErrText ''invalid peer request parameter'')
      else
        (let pr = \<lparr>pr_Piece = go_div begin PieceSize, pr_Start = go_rem begin PieceSize,
                   pr_Length = end - begin\<rparr>
         in if pr_Length pr > PieceSize then Inl (ErrText ''peer request overflow'') else Inr pr))"

lemma MakePeerRequest_length: "MakePeerRequest b e = Inr pr \<Longrightarrow> pr_Length pr = e - b \<and> b < e"
  by (auto simp: MakePeerRequest_def Let_def split: if_splits)

function requests_loop :: "int \<Rightarrow> int \<Rightarrow> PeerRequest list result" where
  "requests_loop i end =
     (if i < end then
        (case MakePeerRequest i (min (i + PieceSize - go_rem i PieceSize) end) of
           Inl err \<Rightarrow> Inl err
         | Inr pr \<Rightarrow>
             (case requests_loop (i + pr_Length pr) end of
                Inl err \<Rightarrow> Inl err
              | Inr reqs \<Rightarrow> Inr (pr # reqs)))
      else Inr [])"
  by pat_completeness auto
termination
  by (relation "measure (\<lambda>(i, e). nat (e - i))") (auto dest!: MakePeerRequest_length)

declare requests_loop.simps [simp del]

definition MakePeerRequests :: "int \<Rightarrow> int \<Rightarrow> int \<Rightarrow> PeerRequest list result" where
  "MakePeerRequests begin end fsize =
     (let begin = (if begin > fsize then fsize else begin);
          end = (if end > fsize then fsize else end)
      in requests_loop begin end)"

definition MakePeerRequestFromBlock :: "PieceBlock \<Rightarrow> int \<Rightarrow> PeerRequest result" where
  "MakePeerRequestFromBlock block fsize =
     (let r = pb_Range block fsize in MakePeerRequest (Left r) (Right r))"

definition InBlockOffset :: "PeerRequest \<Rightarrow> int" where
  "InBlockOffset p = go_rem (pr_Start p) BlockSize"

definition pr_Range :: "PeerRequest \<Rightarrow> Range" where
  "pr_Range p =
     (let begin = pr_Piece p * PieceSize + pr_Start p; end = begin + pr_Length p
      in MakeRange begin end)"

text \<open>Ranges that follow each other from \<open>b\<close> to \<open>e\<close>.\<close>

fun tiles :: "int \<Rightarrow> int \<Rightarrow> Range list \<Rightarrow> bool" where
  "tiles b e [] \<longleftrightarrow> b = e"
| "tiles b e (r # rs) \<longleftrightarrow> Left r = b \<and> b < Right r \<and> tiles (Right r) e rs"

text \<open>A request that stays inside its piece.\<close>

definition wf_request :: "PeerRequest \<Rightarrow> bool" where
  "wf_request p \<longleftrightarrow>
     0 \<le> pr_Piece p \<and> 0 \<le> pr_Start p \<and> 0 < pr_Length p \<and> pr_Start p + pr_Length p \<le> PieceSize"

lemma MakePeerRequest_Range:
  "MakePeerRequest b e = Inr pr \<Longrightarrow> 0 \<le> b \<and> pr_Range pr = \<lparr>Left = b, Right = e\<rparr>"
  by (auto simp: MakePeerRequest_def pr_Range_def MakeRange_def Let_def geometry_constants split: if_splits)

lemma requests_step:
  assumes i: "0 \<le> i" "i < e"
  shows "\<exists>pr. MakePeerRequest i (min (i + PieceSize - go_rem i PieceSize) e) = Inr pr \<and> wf_request pr \<and>
    i + pr_Length pr = min (i + PieceSize - i mod PieceSize) e"
proof -
  have m: "0 \<le> i mod 9728000" "i mod 9728000 < 9728000" by simp_all
  with i show ?thesis
    by (auto simp: MakePeerRequest_def wf_request_def geometry_constants Let_def)
qed

lemma requests_loop_tiles:
  "0 \<le> i \<Longrightarrow> i \<le> e \<Longrightarrow>
     \<exists>reqs. requests_loop i e = Inr reqs \<and> tiles i e (map pr_Range reqs) \<and> list_all wf_request reqs"
proof (induction i e rule: requests_loop.induct)
  case (1 i e)
  show ?case
  proof (cases "i < e")
    case True
    define nxt where "nxt = min (i + PieceSize - go_rem i PieceSize) e"
    obtain pr where pr: "MakePeerRequest i nxt = Inr pr" "wf_request pr" "i + pr_Length pr = nxt"
      using requests_step [OF 1(2) True] 1(2) unfolding nxt_def by (auto simp: PieceSize_eq)
    have "i < nxt" "nxt \<le> e" "0 \<le> nxt"
      using pr(1,3) MakePeerRequest_length [OF pr(1)] 1(2) by (simp_all add: nxt_def)
    with 1(1) [OF True pr(1) [unfolded nxt_def]] pr(3)
    obtain reqs where reqs: "requests_loop nxt e = Inr reqs" "tiles nxt e (map pr_Range reqs)"
      "list_all wf_request reqs" by auto
    have "requests_loop i e = Inr (pr # reqs)"
      using True pr(1,3) reqs(1) by (subst requests_loop.simps) (simp add: nxt_def)
    moreover have "pr_Range pr = \<lparr>Left = i, Right = nxt\<rparr>"
      using MakePeerRequest_Range [OF pr(1)] by simp
    ultimately show ?thesis using reqs pr(2) \<open>i < nxt\<close> by simp
  next
    case False
    with 1 show ?thesis by (subst requests_loop.simps) simp
  qed
qed

lemma requests_loop_negative:
  "i < 0 \<Longrightarrow> i < e \<Longrightarrow> requests_loop i e = Inl (ErrText ''invalid peer request parameter'')"
  by (subst requests_loop.simps) (simp add: MakePeerRequest_def)

text \<open>Every offset stays in the range of an \<open>int64\<close>.\<close>

lemma int64_bounds:
  assumes "valid_block fsize p" and "fsize < 2 ^ 62"
  shows "0 \<le> BlocksOffset p * BlockSize \<and> BlocksOffset p * BlockSize + BlockSize < 2 ^ 63"
  using assms by (simp add: valid_block_def BlocksOffset_def geometry_constants)

section \<open>Properties\<close>

text \<open>C34: each byte of a file lies in the range of exactly one block, and no block is longer than
  \<open>BlockSize\<close> or empty.\<close>

theorem byte_in_one_block:
  assumes "0 \<le> offset" and "offset < fsize"
  shows "valid_block fsize (MakePieceBlock offset) \<and>
    (\<forall>p. valid_block fsize p \<longrightarrow>
       (Left (pb_Range p fsize) \<le> offset \<and> offset < Right (pb_Range p fsize) \<longleftrightarrow> p = MakePieceBlock offset) \<and>
       0 < pb_Size p fsize \<and> pb_Size p fsize \<le> BlockSize)"
proof (intro conjI allI impI)
  show v: "valid_block fsize (MakePieceBlock offset)" using assms by (rule valid_MakePieceBlock)
  fix p
  assume p: "valid_block fsize p"
  have "offset div BlockSize * BlockSize \<le> offset \<and> offset < offset div BlockSize * BlockSize + BlockSize"
    using pos_mod_bound [of BlockSize offset] pos_mod_sign [of BlockSize offset]
    by (simp add: BlockSize_eq flip: minus_mod_eq_div_mult)
  moreover have "n * BlockSize \<le> offset \<and> offset < n * BlockSize + BlockSize \<longleftrightarrow> n = offset div BlockSize" for n
    using calculation by (auto simp: BlockSize_eq)
  ultimately have "Left (pb_Range p fsize) \<le> offset \<and> offset < Right (pb_Range p fsize) \<longleftrightarrow>
      BlocksOffset p = offset div BlockSize"
    using assms(2) by (auto simp: pb_Range_offset)
  also have "\<dots> \<longleftrightarrow> p = MakePieceBlock offset"
    using BlocksOffset_MakePieceBlock [OF assms(1)] BlocksOffset_inj [OF p v] by auto
  finally show "Left (pb_Range p fsize) \<le> offset \<and> offset < Right (pb_Range p fsize) \<longleftrightarrow> p = MakePieceBlock offset" .
  show "0 < pb_Size p fsize" "pb_Size p fsize \<le> BlockSize"
    using p by (auto simp: pb_Size_def pb_Range_offset valid_block_def BlockSize_eq)
qed

theorem byte_in_one_block_witness: "valid_block 10000000 (MakePieceBlock 9728000)"
  using byte_in_one_block [of 9728000 10000000] by simp

text \<open>The requests for a range of a file follow each other without gap or overlap from its
  begin to its end, each inside one piece; a negative begin is the error it should be.\<close>

theorem MakePeerRequests_tile:
  assumes "b \<le> e" and "e \<le> fsize"
  shows "if 0 \<le> b
    then \<exists>reqs. MakePeerRequests b e fsize = Inr reqs \<and> tiles b e (map pr_Range reqs) \<and>
           list_all wf_request reqs
    else b = e \<or> MakePeerRequests b e fsize = Inl (ErrText ''invalid peer request parameter'')"
proof -
  have "MakePeerRequests b e fsize = requests_loop b e"
    using assms by (simp add: MakePeerRequests_def)
  with assms requests_loop_tiles [of b e] requests_loop_negative [of b e] show ?thesis
    by (cases "b = e") auto
qed

theorem MakePeerRequests_tile_witness:
  "\<exists>reqs. MakePeerRequests 9727999 9728001 10000000 = Inr reqs \<and>
     tiles 9727999 9728001 (map pr_Range reqs)"
  using MakePeerRequests_tile [of 9727999 9728001 10000000] by auto

end
