(* ===== verification/Client_Packets.thy ===== *)
theory Client_Packets
  imports Framing Tags Endpoints Bit_Field Geometry
begin

text \<open>
  The packets peers exchange (\<^verbatim>\<open>protocol/client/\<close>): each Go struct as a record with its
  \<open>Get\<close>, \<open>Put\<close> and \<open>BytesCount\<close>, each of them an instance of \<open>sized_codec\<close>, and the
  registry of \<^verbatim>\<open>client/packet_combiner.go\<close>, an instance of \<open>packet_registry\<close>.
\<close>

section \<open>Handshake\<close>

record HelloAnswer =
  ha_Hash :: hash
  ha_Point :: Endpoint
  ha_Properties :: TagList
  ha_ServerPoint :: Endpoint

definition get_HelloAnswer :: "HelloAnswer reader" where
  "get_HelloAnswer =
     rbind ReadHash (\<lambda>hash.
     rbind ReadEndpoint (\<lambda>point.
     rbind get_TagList (\<lambda>properties.
     rbind ReadEndpoint (\<lambda>serverPoint.
       rreturn \<lparr>ha_Hash = hash, ha_Point = point, ha_Properties = properties, ha_ServerPoint = serverPoint\<rparr>))))"

definition put_HelloAnswer :: "HelloAnswer \<Rightarrow> bytes" where
  "put_HelloAnswer x =
     WriteHash (ha_Hash x) @ WriteEndpoint (ha_Point x) @ put_TagList (ha_Properties x) @ WriteEndpoint (ha_ServerPoint x)"

definition bytesCount_HelloAnswer :: "HelloAnswer \<Rightarrow> nat" where
  "bytesCount_HelloAnswer x = 16 + 6 + bytesCount_TagList (ha_Properties x) + 6"

definition wf_HelloAnswer :: "HelloAnswer \<Rightarrow> bool" where
  "wf_HelloAnswer x \<longleftrightarrow> wf_hash (ha_Hash x) \<and> wf_Endpoint (ha_Point x) \<and> wf_TagList (ha_Properties x) \<and> wf_Endpoint (ha_ServerPoint x)"

interpretation HelloAnswer_codec:
  sized_codec get_HelloAnswer put_HelloAnswer wf_HelloAnswer bytesCount_HelloAnswer
  by unfold_locales
    (simp_all add: get_HelloAnswer_def put_HelloAnswer_def wf_HelloAnswer_def
      bytesCount_HelloAnswer_def codec_step codec_len)

record Hello =
  hello_HashLength :: u8
  hello_HelloAnswer :: HelloAnswer

definition get_Hello :: "Hello reader" where
  "get_Hello =
     rbind readByte (\<lambda>hashLength.
     rbind get_HelloAnswer (\<lambda>helloAnswer.
       rreturn \<lparr>hello_HashLength = hashLength, hello_HelloAnswer = helloAnswer\<rparr>))"

definition put_Hello :: "Hello \<Rightarrow> bytes" where
  "put_Hello x =
     writeByte (hello_HashLength x) @ put_HelloAnswer (hello_HelloAnswer x)"

definition bytesCount_Hello :: "Hello \<Rightarrow> nat" where
  "bytesCount_Hello x = 1 + bytesCount_HelloAnswer (hello_HelloAnswer x)"

definition wf_Hello :: "Hello \<Rightarrow> bool" where
  "wf_Hello x \<longleftrightarrow> wf_HelloAnswer (hello_HelloAnswer x)"

interpretation Hello_codec:
  sized_codec get_Hello put_Hello wf_Hello bytesCount_Hello
  by unfold_locales
    (simp_all add: get_Hello_def put_Hello_def wf_Hello_def
      bytesCount_Hello_def codec_step codec_len)

text \<open>The tags of an extended handshake are optional on reading.\<close>

record ExtendedHandshake =
  eh_Version :: u8
  eh_ProtocolVersion :: u8
  eh_Properties :: TagList

definition get_ExtendedHandshake :: "ExtendedHandshake reader" where
  "get_ExtendedHandshake =
     rbind readByte (\<lambda>version.
     rbind readByte (\<lambda>protoVersion src.
       if src \<noteq> [] then
         rbind get_TagList (\<lambda>properties.
           rreturn \<lparr>eh_Version = version, eh_ProtocolVersion = protoVersion, eh_Properties = properties\<rparr>) src
       else Inr (\<lparr>eh_Version = version, eh_ProtocolVersion = protoVersion, eh_Properties = []\<rparr>, src)))"

definition put_ExtendedHandshake :: "ExtendedHandshake \<Rightarrow> bytes" where
  "put_ExtendedHandshake x =
     writeByte (eh_Version x) @ writeByte (eh_ProtocolVersion x) @ put_TagList (eh_Properties x)"

definition bytesCount_ExtendedHandshake :: "ExtendedHandshake \<Rightarrow> nat" where
  "bytesCount_ExtendedHandshake x = 2 + bytesCount_TagList (eh_Properties x)"

definition wf_ExtendedHandshake :: "ExtendedHandshake \<Rightarrow> bool" where
  "wf_ExtendedHandshake x \<longleftrightarrow> wf_TagList (eh_Properties x)"

lemma put_TagList_nonempty: "put_TagList ts \<noteq> []"
proof
  assume "put_TagList ts = []"
  then have "length (put_TagList ts) = 0" by simp
  then show False by (simp add: put_TagList_def codec_len)
qed

interpretation ExtendedHandshake_codec:
  sized_codec get_ExtendedHandshake put_ExtendedHandshake wf_ExtendedHandshake bytesCount_ExtendedHandshake
  by unfold_locales
    (simp_all add: get_ExtendedHandshake_def put_ExtendedHandshake_def wf_ExtendedHandshake_def
      bytesCount_ExtendedHandshake_def codec_step codec_len put_TagList_nonempty)

section \<open>File requests\<close>

record FileRequest =
  freq_Hash :: hash

definition get_FileRequest :: "FileRequest reader" where
  "get_FileRequest =
     rbind ReadHash (\<lambda>hash.
       rreturn \<lparr>freq_Hash = hash\<rparr>)"

definition put_FileRequest :: "FileRequest \<Rightarrow> bytes" where
  "put_FileRequest x =
     WriteHash (freq_Hash x)"

definition bytesCount_FileRequest :: "FileRequest \<Rightarrow> nat" where
  "bytesCount_FileRequest x = 16"

definition wf_FileRequest :: "FileRequest \<Rightarrow> bool" where
  "wf_FileRequest x \<longleftrightarrow> wf_hash (freq_Hash x)"

interpretation FileRequest_codec:
  sized_codec get_FileRequest put_FileRequest wf_FileRequest bytesCount_FileRequest
  by unfold_locales
    (simp_all add: get_FileRequest_def put_FileRequest_def wf_FileRequest_def
      bytesCount_FileRequest_def codec_step codec_len)

record FileStatusRequest =
  fsreq_Hash :: hash

definition get_FileStatusRequest :: "FileStatusRequest reader" where
  "get_FileStatusRequest =
     rbind ReadHash (\<lambda>hash.
       rreturn \<lparr>fsreq_Hash = hash\<rparr>)"

definition put_FileStatusRequest :: "FileStatusRequest \<Rightarrow> bytes" where
  "put_FileStatusRequest x =
     WriteHash (fsreq_Hash x)"

definition bytesCount_FileStatusRequest :: "FileStatusRequest \<Rightarrow> nat" where
  "bytesCount_FileStatusRequest x = 16"

definition wf_FileStatusRequest :: "FileStatusRequest \<Rightarrow> bool" where
  "wf_FileStatusRequest x \<longleftrightarrow> wf_hash (fsreq_Hash x)"

interpretation FileStatusRequest_codec:
  sized_codec get_FileStatusRequest put_FileStatusRequest wf_FileStatusRequest bytesCount_FileStatusRequest
  by unfold_locales
    (simp_all add: get_FileStatusRequest_def put_FileStatusRequest_def wf_FileStatusRequest_def
      bytesCount_FileStatusRequest_def codec_step codec_len)

record HashSetRequest =
  hsreq_Hash :: hash

definition get_HashSetRequest :: "HashSetRequest reader" where
  "get_HashSetRequest =
     rbind ReadHash (\<lambda>hash.
       rreturn \<lparr>hsreq_Hash = hash\<rparr>)"

definition put_HashSetRequest :: "HashSetRequest \<Rightarrow> bytes" where
  "put_HashSetRequest x =
     WriteHash (hsreq_Hash x)"

definition bytesCount_HashSetRequest :: "HashSetRequest \<Rightarrow> nat" where
  "bytesCount_HashSetRequest x = 16"

definition wf_HashSetRequest :: "HashSetRequest \<Rightarrow> bool" where
  "wf_HashSetRequest x \<longleftrightarrow> wf_hash (hsreq_Hash x)"

interpretation HashSetRequest_codec:
  sized_codec get_HashSetRequest put_HashSetRequest wf_HashSetRequest bytesCount_HashSetRequest
  by unfold_locales
    (simp_all add: get_HashSetRequest_def put_HashSetRequest_def wf_HashSetRequest_def
      bytesCount_HashSetRequest_def codec_step codec_len)

record NoFileStatus =
  nofile_Hash :: hash

definition get_NoFileStatus :: "NoFileStatus reader" where
  "get_NoFileStatus =
     rbind ReadHash (\<lambda>hash.
       rreturn \<lparr>nofile_Hash = hash\<rparr>)"

definition put_NoFileStatus :: "NoFileStatus \<Rightarrow> bytes" where
  "put_NoFileStatus x =
     WriteHash (nofile_Hash x)"

definition bytesCount_NoFileStatus :: "NoFileStatus \<Rightarrow> nat" where
  "bytesCount_NoFileStatus x = 16"

definition wf_NoFileStatus :: "NoFileStatus \<Rightarrow> bool" where
  "wf_NoFileStatus x \<longleftrightarrow> wf_hash (nofile_Hash x)"

interpretation NoFileStatus_codec:
  sized_codec get_NoFileStatus put_NoFileStatus wf_NoFileStatus bytesCount_NoFileStatus
  by unfold_locales
    (simp_all add: get_NoFileStatus_def put_NoFileStatus_def wf_NoFileStatus_def
      bytesCount_NoFileStatus_def codec_step codec_len)

record StartUpload =
  startup_Hash :: hash

definition get_StartUpload :: "StartUpload reader" where
  "get_StartUpload =
     rbind ReadHash (\<lambda>hash.
       rreturn \<lparr>startup_Hash = hash\<rparr>)"

definition put_StartUpload :: "StartUpload \<Rightarrow> bytes" where
  "put_StartUpload x =
     WriteHash (startup_Hash x)"

definition bytesCount_StartUpload :: "StartUpload \<Rightarrow> nat" where
  "bytesCount_StartUpload x = 16"

definition wf_StartUpload :: "StartUpload \<Rightarrow> bool" where
  "wf_StartUpload x \<longleftrightarrow> wf_hash (startup_Hash x)"

interpretation StartUpload_codec:
  sized_codec get_StartUpload put_StartUpload wf_StartUpload bytesCount_StartUpload
  by unfold_locales
    (simp_all add: get_StartUpload_def put_StartUpload_def wf_StartUpload_def
      bytesCount_StartUpload_def codec_step codec_len)

record FileAnswer =
  fans_Hash :: hash
  fans_Name :: ByteContainer16

definition get_FileAnswer :: "FileAnswer reader" where
  "get_FileAnswer =
     rbind ReadHash (\<lambda>hash.
     rbind get_ByteContainer16 (\<lambda>name.
       rreturn \<lparr>fans_Hash = hash, fans_Name = name\<rparr>))"

definition put_FileAnswer :: "FileAnswer \<Rightarrow> bytes" where
  "put_FileAnswer x =
     WriteHash (fans_Hash x) @ put_ByteContainer16 (fans_Name x)"

definition bytesCount_FileAnswer :: "FileAnswer \<Rightarrow> nat" where
  "bytesCount_FileAnswer x = 16 + bytesCount_ByteContainer16 (fans_Name x)"

definition wf_FileAnswer :: "FileAnswer \<Rightarrow> bool" where
  "wf_FileAnswer x \<longleftrightarrow> wf_hash (fans_Hash x) \<and> wf_ByteContainer16 (fans_Name x)"

interpretation FileAnswer_codec:
  sized_codec get_FileAnswer put_FileAnswer wf_FileAnswer bytesCount_FileAnswer
  by unfold_locales
    (simp_all add: get_FileAnswer_def put_FileAnswer_def wf_FileAnswer_def
      bytesCount_FileAnswer_def codec_step codec_len)

record FileStatusAnswer =
  fsans_Hash :: hash
  fsans_BitField :: BitField

definition get_FileStatusAnswer :: "FileStatusAnswer reader" where
  "get_FileStatusAnswer =
     rbind ReadHash (\<lambda>hash.
     rbind getNew_BitField (\<lambda>bitField.
       rreturn \<lparr>fsans_Hash = hash, fsans_BitField = bitField\<rparr>))"

definition put_FileStatusAnswer :: "FileStatusAnswer \<Rightarrow> bytes" where
  "put_FileStatusAnswer x =
     WriteHash (fsans_Hash x) @ put_BitField (fsans_BitField x)"

definition bytesCount_FileStatusAnswer :: "FileStatusAnswer \<Rightarrow> nat" where
  "bytesCount_FileStatusAnswer x = 16 + bytesCount_BitField (fsans_BitField x)"

definition wf_FileStatusAnswer :: "FileStatusAnswer \<Rightarrow> bool" where
  "wf_FileStatusAnswer x \<longleftrightarrow> wf_hash (fsans_Hash x) \<and> wire_BitField (fsans_BitField x)"

interpretation FileStatusAnswer_codec:
  sized_codec get_FileStatusAnswer put_FileStatusAnswer wf_FileStatusAnswer bytesCount_FileStatusAnswer
  by unfold_locales
    (simp_all add: get_FileStatusAnswer_def put_FileStatusAnswer_def wf_FileStatusAnswer_def
      bytesCount_FileStatusAnswer_def codec_step codec_len)

record HashSetAnswer =
  hsans_Hash :: hash
  hsans_Parts :: "hash list"

definition get_HashSetAnswer :: "HashSetAnswer reader" where
  "get_HashSetAnswer =
     rbind ReadHash (\<lambda>hash.
     rbind readUInt16 (\<lambda>count.
     rbind (get_n ReadHash (unat count)) (\<lambda>parts.
       rreturn \<lparr>hsans_Hash = hash, hsans_Parts = parts\<rparr>)))"

definition put_HashSetAnswer :: "HashSetAnswer \<Rightarrow> bytes" where
  "put_HashSetAnswer x =
     WriteHash (hsans_Hash x) @ writeUInt16 (of_nat (length (hsans_Parts x))) @
     concat (map WriteHash (hsans_Parts x))"

definition bytesCount_HashSetAnswer :: "HashSetAnswer \<Rightarrow> nat" where
  "bytesCount_HashSetAnswer x = 16 + 2 + length (hsans_Parts x) * 16"

definition wf_HashSetAnswer :: "HashSetAnswer \<Rightarrow> bool" where
  "wf_HashSetAnswer x \<longleftrightarrow>
     wf_hash (hsans_Hash x) \<and> length (hsans_Parts x) < 65536 \<and> (\<forall>h\<in>set (hsans_Parts x). wf_hash h)"

interpretation HashSetAnswer_codec:
  sized_codec get_HashSetAnswer put_HashSetAnswer wf_HashSetAnswer bytesCount_HashSetAnswer
  by unfold_locales
    (simp_all add: get_HashSetAnswer_def put_HashSetAnswer_def wf_HashSetAnswer_def
      bytesCount_HashSetAnswer_def codec_step codec_len unat_of_nat_u16 sum_list_triv)

section \<open>Queue and parts\<close>

text \<open>Older clients send a shorter ranking: what is missing stays zero.\<close>

record QueueRanking =
  qr_Rank :: u16
  qr_Padding1 :: u32
  qr_Padding2 :: u32
  qr_Padding3 :: u16

definition optional :: "nat \<Rightarrow> 'a reader \<Rightarrow> 'a \<Rightarrow> 'a reader" where
  "optional n get unset src = (if n \<le> length src then get src else Inr (unset, src))"

definition get_QueueRanking :: "QueueRanking reader" where
  "get_QueueRanking =
     rbind readUInt16 (\<lambda>rank.
     rbind (optional 4 ReadUInt32 0) (\<lambda>padding1.
     rbind (optional 4 ReadUInt32 0) (\<lambda>padding2.
     rbind (optional 2 readUInt16 0) (\<lambda>padding3.
       rreturn \<lparr>qr_Rank = rank, qr_Padding1 = padding1, qr_Padding2 = padding2, qr_Padding3 = padding3\<rparr>))))"

definition put_QueueRanking :: "QueueRanking \<Rightarrow> bytes" where
  "put_QueueRanking x =
     writeUInt16 (qr_Rank x) @ writeUInt32 (qr_Padding1 x) @ writeUInt32 (qr_Padding2 x) @
     writeUInt16 (qr_Padding3 x)"

definition bytesCount_QueueRanking :: "QueueRanking \<Rightarrow> nat" where
  "bytesCount_QueueRanking x = 12"

definition wf_QueueRanking :: "QueueRanking \<Rightarrow> bool" where
  "wf_QueueRanking x \<longleftrightarrow> True"

lemma rbind_optional [codec_step]: "n \<le> length src \<Longrightarrow> rbind (optional n get unset) k src = rbind get k src"
  by (simp add: rbind_def optional_def)

interpretation QueueRanking_codec:
  sized_codec get_QueueRanking put_QueueRanking wf_QueueRanking bytesCount_QueueRanking
  by unfold_locales
    (simp_all add: get_QueueRanking_def put_QueueRanking_def wf_QueueRanking_def
      bytesCount_QueueRanking_def codec_step codec_len)

text \<open>Three ranges of the file; \<open>AppendRange\<close> fills the next slot and panics on a fourth.\<close>

definition partsInRequest :: nat where
  "partsInRequest = 3"

record RequestParts32 =
  rp32_Hash :: hash
  rp32_CurrentFree :: int
  rp32_BeginOffset :: "u32 list"
  rp32_EndOffset :: "u32 list"

definition AppendRange32 :: "RequestParts32 \<Rightarrow> Range \<Rightarrow> RequestParts32 option" where
  "AppendRange32 r rg =
     (case upd (rp32_BeginOffset r) (rp32_CurrentFree r) (word_of_int (Left rg)) of
        None \<Rightarrow> None
      | Some begins \<Rightarrow>
          (case upd (rp32_EndOffset r) (rp32_CurrentFree r) (word_of_int (Right rg)) of
             None \<Rightarrow> None
           | Some ends \<Rightarrow>
               Some (r\<lparr>rp32_BeginOffset := begins, rp32_EndOffset := ends,
                       rp32_CurrentFree := rp32_CurrentFree r + 1\<rparr>)))"

definition get_RequestParts32 :: "RequestParts32 reader" where
  "get_RequestParts32 =
     rbind ReadHash (\<lambda>hash.
     rbind (get_n ReadUInt32 partsInRequest) (\<lambda>begins.
     rbind (get_n ReadUInt32 partsInRequest) (\<lambda>ends.
       rreturn \<lparr>rp32_Hash = hash, rp32_CurrentFree = int partsInRequest,
                 rp32_BeginOffset = begins, rp32_EndOffset = ends\<rparr>)))"

definition put_RequestParts32 :: "RequestParts32 \<Rightarrow> bytes" where
  "put_RequestParts32 x =
     WriteHash (rp32_Hash x) @ concat (map writeUInt32 (rp32_BeginOffset x)) @
     concat (map writeUInt32 (rp32_EndOffset x))"

definition bytesCount_RequestParts32 :: "RequestParts32 \<Rightarrow> nat" where
  "bytesCount_RequestParts32 x = 16 + partsInRequest * 2 * 4"

definition wf_RequestParts32 :: "RequestParts32 \<Rightarrow> bool" where
  "wf_RequestParts32 x \<longleftrightarrow>
     wf_hash (rp32_Hash x) \<and> rp32_CurrentFree x = int partsInRequest \<and>
     length (rp32_BeginOffset x) = partsInRequest \<and> length (rp32_EndOffset x) = partsInRequest"

interpretation RequestParts32_codec:
  sized_codec get_RequestParts32 put_RequestParts32 wf_RequestParts32 bytesCount_RequestParts32
  by unfold_locales
    (simp_all add: get_RequestParts32_def put_RequestParts32_def wf_RequestParts32_def
      bytesCount_RequestParts32_def codec_step codec_len sum_list_triv partsInRequest_def)

record RequestParts64 =
  rp64_Hash :: hash
  rp64_CurrentFree :: int
  rp64_BeginOffset :: "u64 list"
  rp64_EndOffset :: "u64 list"

definition AppendRange64 :: "RequestParts64 \<Rightarrow> Range \<Rightarrow> RequestParts64 option" where
  "AppendRange64 r rg =
     (case upd (rp64_BeginOffset r) (rp64_CurrentFree r) (word_of_int (Left rg)) of
        None \<Rightarrow> None
      | Some begins \<Rightarrow>
          (case upd (rp64_EndOffset r) (rp64_CurrentFree r) (word_of_int (Right rg)) of
             None \<Rightarrow> None
           | Some ends \<Rightarrow>
               Some (r\<lparr>rp64_BeginOffset := begins, rp64_EndOffset := ends,
                       rp64_CurrentFree := rp64_CurrentFree r + 1\<rparr>)))"

definition get_RequestParts64 :: "RequestParts64 reader" where
  "get_RequestParts64 =
     rbind ReadHash (\<lambda>hash.
     rbind (get_n readUInt64 partsInRequest) (\<lambda>begins.
     rbind (get_n readUInt64 partsInRequest) (\<lambda>ends.
       rreturn \<lparr>rp64_Hash = hash, rp64_CurrentFree = int partsInRequest,
                 rp64_BeginOffset = begins, rp64_EndOffset = ends\<rparr>)))"

definition put_RequestParts64 :: "RequestParts64 \<Rightarrow> bytes" where
  "put_RequestParts64 x =
     WriteHash (rp64_Hash x) @ concat (map writeUInt64 (rp64_BeginOffset x)) @
     concat (map writeUInt64 (rp64_EndOffset x))"

definition bytesCount_RequestParts64 :: "RequestParts64 \<Rightarrow> nat" where
  "bytesCount_RequestParts64 x = 16 + partsInRequest * 2 * 8"

definition wf_RequestParts64 :: "RequestParts64 \<Rightarrow> bool" where
  "wf_RequestParts64 x \<longleftrightarrow>
     wf_hash (rp64_Hash x) \<and> rp64_CurrentFree x = int partsInRequest \<and>
     length (rp64_BeginOffset x) = partsInRequest \<and> length (rp64_EndOffset x) = partsInRequest"

interpretation RequestParts64_codec:
  sized_codec get_RequestParts64 put_RequestParts64 wf_RequestParts64 bytesCount_RequestParts64
  by unfold_locales
    (simp_all add: get_RequestParts64_def put_RequestParts64_def wf_RequestParts64_def
      bytesCount_RequestParts64_def codec_step codec_len sum_list_triv partsInRequest_def)

record SendingPart32 =
  sp32_Hash :: hash
  sp32_BeginOffset :: u32
  sp32_EndOffset :: u32

definition get_SendingPart32 :: "SendingPart32 reader" where
  "get_SendingPart32 =
     rbind ReadHash (\<lambda>hash.
     rbind ReadUInt32 (\<lambda>beginOffset.
     rbind ReadUInt32 (\<lambda>endOffset.
       rreturn \<lparr>sp32_Hash = hash, sp32_BeginOffset = beginOffset, sp32_EndOffset = endOffset\<rparr>)))"

definition put_SendingPart32 :: "SendingPart32 \<Rightarrow> bytes" where
  "put_SendingPart32 x =
     WriteHash (sp32_Hash x) @ writeUInt32 (sp32_BeginOffset x) @ writeUInt32 (sp32_EndOffset x)"

definition bytesCount_SendingPart32 :: "SendingPart32 \<Rightarrow> nat" where
  "bytesCount_SendingPart32 x = 16 + 8"

definition wf_SendingPart32 :: "SendingPart32 \<Rightarrow> bool" where
  "wf_SendingPart32 x \<longleftrightarrow> wf_hash (sp32_Hash x)"

interpretation SendingPart32_codec:
  sized_codec get_SendingPart32 put_SendingPart32 wf_SendingPart32 bytesCount_SendingPart32
  by unfold_locales
    (simp_all add: get_SendingPart32_def put_SendingPart32_def wf_SendingPart32_def
      bytesCount_SendingPart32_def codec_step codec_len)

definition PayloadSize_SendingPart32 :: "SendingPart32 \<Rightarrow> int" where
  "PayloadSize_SendingPart32 s = uint (sp32_EndOffset s - sp32_BeginOffset s)"

record SendingPart64 =
  sp64_Hash :: hash
  sp64_BeginOffset :: u64
  sp64_EndOffset :: u64

definition get_SendingPart64 :: "SendingPart64 reader" where
  "get_SendingPart64 =
     rbind ReadHash (\<lambda>hash.
     rbind readUInt64 (\<lambda>beginOffset.
     rbind readUInt64 (\<lambda>endOffset.
       rreturn \<lparr>sp64_Hash = hash, sp64_BeginOffset = beginOffset, sp64_EndOffset = endOffset\<rparr>)))"

definition put_SendingPart64 :: "SendingPart64 \<Rightarrow> bytes" where
  "put_SendingPart64 x =
     WriteHash (sp64_Hash x) @ writeUInt64 (sp64_BeginOffset x) @ writeUInt64 (sp64_EndOffset x)"

definition bytesCount_SendingPart64 :: "SendingPart64 \<Rightarrow> nat" where
  "bytesCount_SendingPart64 x = 16 + 16"

definition wf_SendingPart64 :: "SendingPart64 \<Rightarrow> bool" where
  "wf_SendingPart64 x \<longleftrightarrow> wf_hash (sp64_Hash x)"

interpretation SendingPart64_codec:
  sized_codec get_SendingPart64 put_SendingPart64 wf_SendingPart64 bytesCount_SendingPart64
  by unfold_locales
    (simp_all add: get_SendingPart64_def put_SendingPart64_def wf_SendingPart64_def
      bytesCount_SendingPart64_def codec_step codec_len)

text \<open>A \<open>uint64\<close> difference above \<open>2 ^ 63\<close> is a negative \<open>int\<close>.\<close>

definition PayloadSize_SendingPart64 :: "SendingPart64 \<Rightarrow> int" where
  "PayloadSize_SendingPart64 s = sint (sp64_EndOffset s - sp64_BeginOffset s)"

record CompressedPart32 =
  cp32_Hash :: hash
  cp32_BeginOffset :: u32
  cp32_CompressedLength :: u32

definition get_CompressedPart32 :: "CompressedPart32 reader" where
  "get_CompressedPart32 =
     rbind ReadHash (\<lambda>hash.
     rbind ReadUInt32 (\<lambda>beginOffset.
     rbind ReadUInt32 (\<lambda>compressedLength.
       rreturn \<lparr>cp32_Hash = hash, cp32_BeginOffset = beginOffset, cp32_CompressedLength = compressedLength\<rparr>)))"

definition put_CompressedPart32 :: "CompressedPart32 \<Rightarrow> bytes" where
  "put_CompressedPart32 x =
     WriteHash (cp32_Hash x) @ writeUInt32 (cp32_BeginOffset x) @ writeUInt32 (cp32_CompressedLength x)"

definition bytesCount_CompressedPart32 :: "CompressedPart32 \<Rightarrow> nat" where
  "bytesCount_CompressedPart32 x = 16 + 8"

definition wf_CompressedPart32 :: "CompressedPart32 \<Rightarrow> bool" where
  "wf_CompressedPart32 x \<longleftrightarrow> wf_hash (cp32_Hash x)"

interpretation CompressedPart32_codec:
  sized_codec get_CompressedPart32 put_CompressedPart32 wf_CompressedPart32 bytesCount_CompressedPart32
  by unfold_locales
    (simp_all add: get_CompressedPart32_def put_CompressedPart32_def wf_CompressedPart32_def
      bytesCount_CompressedPart32_def codec_step codec_len)

definition PayloadSize_CompressedPart32 :: "CompressedPart32 \<Rightarrow> int" where
  "PayloadSize_CompressedPart32 c = uint (cp32_CompressedLength c)"

record CompressedPart64 =
  cp64_Hash :: hash
  cp64_BeginOffset :: u64
  cp64_CompressedLength :: u32

definition get_CompressedPart64 :: "CompressedPart64 reader" where
  "get_CompressedPart64 =
     rbind ReadHash (\<lambda>hash.
     rbind readUInt64 (\<lambda>beginOffset.
     rbind ReadUInt32 (\<lambda>compressedLength.
       rreturn \<lparr>cp64_Hash = hash, cp64_BeginOffset = beginOffset, cp64_CompressedLength = compressedLength\<rparr>)))"

definition put_CompressedPart64 :: "CompressedPart64 \<Rightarrow> bytes" where
  "put_CompressedPart64 x =
     WriteHash (cp64_Hash x) @ writeUInt64 (cp64_BeginOffset x) @ writeUInt32 (cp64_CompressedLength x)"

definition bytesCount_CompressedPart64 :: "CompressedPart64 \<Rightarrow> nat" where
  "bytesCount_CompressedPart64 x = 16 + 12"

definition wf_CompressedPart64 :: "CompressedPart64 \<Rightarrow> bool" where
  "wf_CompressedPart64 x \<longleftrightarrow> wf_hash (cp64_Hash x)"

interpretation CompressedPart64_codec:
  sized_codec get_CompressedPart64 put_CompressedPart64 wf_CompressedPart64 bytesCount_CompressedPart64
  by unfold_locales
    (simp_all add: get_CompressedPart64_def put_CompressedPart64_def wf_CompressedPart64_def
      bytesCount_CompressedPart64_def codec_step codec_len)

definition PayloadSize_CompressedPart64 :: "CompressedPart64 \<Rightarrow> int" where
  "PayloadSize_CompressedPart64 c = uint (cp64_CompressedLength c)"

section \<open>All client packets\<close>

datatype ClientPacket =
    CHello Hello
  | CHelloAnswer HelloAnswer
  | CExtHello ExtendedHandshake
  | CExtHelloAnswer ExtendedHandshake
  | CFileRequest FileRequest
  | CFileAnswer FileAnswer
  | CFileStatusRequest FileStatusRequest
  | CFileStatusAnswer FileStatusAnswer
  | CNoFileStatus NoFileStatus
  | CHashSetRequest HashSetRequest
  | CHashSetAnswer HashSetAnswer
  | CStartUpload StartUpload
  | CAcceptUpload
  | CCancelTransfer
  | COutOfParts
  | CQueueRanking QueueRanking
  | CRequestParts32 RequestParts32
  | CRequestParts64 RequestParts64
  | CSendingPart32 SendingPart32
  | CSendingPart64 SendingPart64
  | CCompressedPart32 CompressedPart32
  | CCompressedPart64 CompressedPart64

fun put_client :: "ClientPacket \<Rightarrow> bytes" where
  "put_client (CHello x) = put_Hello x"
| "put_client (CHelloAnswer x) = put_HelloAnswer x"
| "put_client (CExtHello x) = put_ExtendedHandshake x"
| "put_client (CExtHelloAnswer x) = put_ExtendedHandshake x"
| "put_client (CFileRequest x) = put_FileRequest x"
| "put_client (CFileAnswer x) = put_FileAnswer x"
| "put_client (CFileStatusRequest x) = put_FileStatusRequest x"
| "put_client (CFileStatusAnswer x) = put_FileStatusAnswer x"
| "put_client (CNoFileStatus x) = put_NoFileStatus x"
| "put_client (CHashSetRequest x) = put_HashSetRequest x"
| "put_client (CHashSetAnswer x) = put_HashSetAnswer x"
| "put_client (CStartUpload x) = put_StartUpload x"
| "put_client CAcceptUpload = []"
| "put_client CCancelTransfer = []"
| "put_client COutOfParts = []"
| "put_client (CQueueRanking x) = put_QueueRanking x"
| "put_client (CRequestParts32 x) = put_RequestParts32 x"
| "put_client (CRequestParts64 x) = put_RequestParts64 x"
| "put_client (CSendingPart32 x) = put_SendingPart32 x"
| "put_client (CSendingPart64 x) = put_SendingPart64 x"
| "put_client (CCompressedPart32 x) = put_CompressedPart32 x"
| "put_client (CCompressedPart64 x) = put_CompressedPart64 x"

fun wf_client :: "ClientPacket \<Rightarrow> bool" where
  "wf_client (CHello x) = wf_Hello x"
| "wf_client (CHelloAnswer x) = wf_HelloAnswer x"
| "wf_client (CExtHello x) = wf_ExtendedHandshake x"
| "wf_client (CExtHelloAnswer x) = wf_ExtendedHandshake x"
| "wf_client (CFileRequest x) = wf_FileRequest x"
| "wf_client (CFileAnswer x) = wf_FileAnswer x"
| "wf_client (CFileStatusRequest x) = wf_FileStatusRequest x"
| "wf_client (CFileStatusAnswer x) = wf_FileStatusAnswer x"
| "wf_client (CNoFileStatus x) = wf_NoFileStatus x"
| "wf_client (CHashSetRequest x) = wf_HashSetRequest x"
| "wf_client (CHashSetAnswer x) = wf_HashSetAnswer x"
| "wf_client (CStartUpload x) = wf_StartUpload x"
| "wf_client CAcceptUpload = True"
| "wf_client CCancelTransfer = True"
| "wf_client COutOfParts = True"
| "wf_client (CQueueRanking x) = wf_QueueRanking x"
| "wf_client (CRequestParts32 x) = wf_RequestParts32 x"
| "wf_client (CRequestParts64 x) = wf_RequestParts64 x"
| "wf_client (CSendingPart32 x) = wf_SendingPart32 x"
| "wf_client (CSendingPart64 x) = wf_SendingPart64 x"
| "wf_client (CCompressedPart32 x) = wf_CompressedPart32 x"
| "wf_client (CCompressedPart64 x) = wf_CompressedPart64 x"

fun bytesCount_client :: "ClientPacket \<Rightarrow> nat" where
  "bytesCount_client (CHello x) = bytesCount_Hello x"
| "bytesCount_client (CHelloAnswer x) = bytesCount_HelloAnswer x"
| "bytesCount_client (CExtHello x) = bytesCount_ExtendedHandshake x"
| "bytesCount_client (CExtHelloAnswer x) = bytesCount_ExtendedHandshake x"
| "bytesCount_client (CFileRequest x) = bytesCount_FileRequest x"
| "bytesCount_client (CFileAnswer x) = bytesCount_FileAnswer x"
| "bytesCount_client (CFileStatusRequest x) = bytesCount_FileStatusRequest x"
| "bytesCount_client (CFileStatusAnswer x) = bytesCount_FileStatusAnswer x"
| "bytesCount_client (CNoFileStatus x) = bytesCount_NoFileStatus x"
| "bytesCount_client (CHashSetRequest x) = bytesCount_HashSetRequest x"
| "bytesCount_client (CHashSetAnswer x) = bytesCount_HashSetAnswer x"
| "bytesCount_client (CStartUpload x) = bytesCount_StartUpload x"
| "bytesCount_client CAcceptUpload = 0"
| "bytesCount_client CCancelTransfer = 0"
| "bytesCount_client COutOfParts = 0"
| "bytesCount_client (CQueueRanking x) = bytesCount_QueueRanking x"
| "bytesCount_client (CRequestParts32 x) = bytesCount_RequestParts32 x"
| "bytesCount_client (CRequestParts64 x) = bytesCount_RequestParts64 x"
| "bytesCount_client (CSendingPart32 x) = bytesCount_SendingPart32 x"
| "bytesCount_client (CSendingPart64 x) = bytesCount_SendingPart64 x"
| "bytesCount_client (CCompressedPart32 x) = bytesCount_CompressedPart32 x"
| "bytesCount_client (CCompressedPart64 x) = bytesCount_CompressedPart64 x"

fun typeName_client :: "ClientPacket \<Rightarrow> string" where
  "typeName_client (CHello x) = ''client.Hello''"
| "typeName_client (CHelloAnswer x) = ''client.HelloAnswer''"
| "typeName_client (CExtHello x) = ''client.ExtHello''"
| "typeName_client (CExtHelloAnswer x) = ''client.ExtHelloAnswer''"
| "typeName_client (CFileRequest x) = ''client.FileRequest''"
| "typeName_client (CFileAnswer x) = ''client.FileAnswer''"
| "typeName_client (CFileStatusRequest x) = ''client.FileStatusRequest''"
| "typeName_client (CFileStatusAnswer x) = ''client.FileStatusAnswer''"
| "typeName_client (CNoFileStatus x) = ''client.NoFileStatus''"
| "typeName_client (CHashSetRequest x) = ''client.HashSetRequest''"
| "typeName_client (CHashSetAnswer x) = ''client.HashSetAnswer''"
| "typeName_client (CStartUpload x) = ''client.StartUpload''"
| "typeName_client CAcceptUpload = ''client.AcceptUpload''"
| "typeName_client CCancelTransfer = ''client.CancelTransfer''"
| "typeName_client COutOfParts = ''client.OutOfParts''"
| "typeName_client (CQueueRanking x) = ''client.QueueRanking''"
| "typeName_client (CRequestParts32 x) = ''client.RequestParts32''"
| "typeName_client (CRequestParts64 x) = ''client.RequestParts64''"
| "typeName_client (CSendingPart32 x) = ''client.SendingPart32''"
| "typeName_client (CSendingPart64 x) = ''client.SendingPart64''"
| "typeName_client (CCompressedPart32 x) = ''client.CompressedPart32''"
| "typeName_client (CCompressedPart64 x) = ''client.CompressedPart64''"

definition map_reader :: "('a \<Rightarrow> 'b) \<Rightarrow> 'a reader \<Rightarrow> 'b reader" where
  "map_reader f m = rbind m (\<lambda>x. rreturn (f x))"

text \<open>Part packets announce only their own header as their size: the data follows.\<close>

definition client_service :: "PacketHeader \<Rightarrow> int" where
  "client_service header =
     (if ph_Key header = PK EdonkeyProt 0x46 then 16 + 8
      else if ph_Key header = PK EMuleProt 0xA2 then 16 + 16
      else if ph_Key header = PK EMuleProt 0x40 then 16 + 8
      else if ph_Key header = PK EMuleProt 0xA1 then 16 + 12
      else sint (SizePacket header))"

definition client_table :: "(PacketKey \<times> string \<times> ClientPacket reader) list" where
  "client_table =
    [ (PK EdonkeyProt 0x01, ''client.Hello'', map_reader CHello get_Hello),
      (PK EdonkeyProt 0x4C, ''client.HelloAnswer'', map_reader CHelloAnswer get_HelloAnswer),
      (PK EMuleProt 0x01, ''client.ExtHello'', map_reader CExtHello get_ExtendedHandshake),
      (PK EMuleProt 0x02, ''client.ExtHelloAnswer'', map_reader CExtHelloAnswer get_ExtendedHandshake),
      (PK EdonkeyProt 0x58, ''client.FileRequest'', map_reader CFileRequest get_FileRequest),
      (PK EdonkeyProt 0x59, ''client.FileAnswer'', map_reader CFileAnswer get_FileAnswer),
      (PK EdonkeyProt 0x4F, ''client.FileStatusRequest'', map_reader CFileStatusRequest get_FileStatusRequest),
      (PK EdonkeyProt 0x50, ''client.FileStatusAnswer'', map_reader CFileStatusAnswer get_FileStatusAnswer),
      (PK EdonkeyProt 0x48, ''client.NoFileStatus'', map_reader CNoFileStatus get_NoFileStatus),
      (PK EdonkeyProt 0x51, ''client.HashSetRequest'', map_reader CHashSetRequest get_HashSetRequest),
      (PK EdonkeyProt 0x52, ''client.HashSetAnswer'', map_reader CHashSetAnswer get_HashSetAnswer),
      (PK EdonkeyProt 0x54, ''client.StartUpload'', map_reader CStartUpload get_StartUpload),
      (PK EdonkeyProt 0x55, ''client.AcceptUpload'', rreturn CAcceptUpload),
      (PK EdonkeyProt 0x56, ''client.CancelTransfer'', rreturn CCancelTransfer),
      (PK EdonkeyProt 0x57, ''client.OutOfParts'', rreturn COutOfParts),
      (PK EMuleProt 0x60, ''client.QueueRanking'', map_reader CQueueRanking get_QueueRanking),
      (PK EdonkeyProt 0x47, ''client.RequestParts32'', map_reader CRequestParts32 get_RequestParts32),
      (PK EMuleProt 0xA3, ''client.RequestParts64'', map_reader CRequestParts64 get_RequestParts64),
      (PK EdonkeyProt 0x46, ''client.SendingPart32'', map_reader CSendingPart32 get_SendingPart32),
      (PK EMuleProt 0xA2, ''client.SendingPart64'', map_reader CSendingPart64 get_SendingPart64),
      (PK EMuleProt 0x40, ''client.CompressedPart32'', map_reader CCompressedPart32 get_CompressedPart32),
      (PK EMuleProt 0xA1, ''client.CompressedPart64'', map_reader CCompressedPart64 get_CompressedPart64)]"

definition client_NewPacketCombiner :: "ClientPacket PacketCombiner" where
  "client_NewPacketCombiner =
     register_all client_table (pc_SetServiceSizer client_service NewPacketCombiner)"

lemma client_table_keys: "distinct (map fst client_table)"
  by (simp add: client_table_def protocol_bytes)

lemma client_table_names: "distinct (map (\<lambda>e. fst (snd e)) client_table)"
  by (simp add: client_table_def)

lemma map_reader_put [codec_step]: "m src = Inr (x, rest) \<Longrightarrow> map_reader f m src = Inr (f x, rest)"
  by (simp add: map_reader_def rbind_def)

lemmas client_exact = Hello_codec.get_put_exact HelloAnswer_codec.get_put_exact
  ExtendedHandshake_codec.get_put_exact FileRequest_codec.get_put_exact FileAnswer_codec.get_put_exact
  FileStatusRequest_codec.get_put_exact FileStatusAnswer_codec.get_put_exact
  NoFileStatus_codec.get_put_exact HashSetRequest_codec.get_put_exact
  HashSetAnswer_codec.get_put_exact StartUpload_codec.get_put_exact
  QueueRanking_codec.get_put_exact RequestParts32_codec.get_put_exact
  RequestParts64_codec.get_put_exact SendingPart32_codec.get_put_exact
  SendingPart64_codec.get_put_exact CompressedPart32_codec.get_put_exact
  CompressedPart64_codec.get_put_exact

lemma client_table_reads:
  "wf_client x \<Longrightarrow> \<exists>(k, n, g)\<in>set client_table. n = typeName_client x \<and> plain_key k \<and>
     (small (put_client x) \<longrightarrow> (\<exists>rest. g (put_client x) = Inr (x, rest)))"
  by (cases x) (simp_all add: client_table_def plain_key_def protocol_bytes map_reader_put client_exact)

interpretation client_registry:
  packet_registry client_NewPacketCombiner put_client wf_client typeName_client
  unfolding client_NewPacketCombiner_def
  by unfold_locales (rule registered_table [OF client_table_names client_table_keys client_table_reads])

lemma length_put_client: "wf_client x \<Longrightarrow> length (put_client x) = bytesCount_client x"
  by (cases x) (simp_all add: codec_len)

section \<open>Properties\<close>

text \<open>C11: a frame packed from any well-formed peer packet unpacks to that packet, also when other
  bytes follow, and the body has the announced size.\<close>

theorem client_frame_roundtrip:
  assumes "wf_client x" and "length (put_client x) < 2 ^ 31"
    and "length (put_client x @ rest) + 6 < 4294967296"
  shows "(\<exists>raw header. pc_Pack client_NewPacketCombiner (typeName_client x) (put_client x) = Inr raw \<and>
      pc_UnpackFrame inflate client_NewPacketCombiner (raw @ rest) = Inr (header, Packet x)) \<and>
    length (put_client x) = bytesCount_client x"
  using client_registry.UnpackFrame_Pack [OF assms] length_put_client [OF assms(1)] by blast

theorem client_frame_roundtrip_witness:
  "\<exists>raw header. pc_Pack client_NewPacketCombiner ''client.AcceptUpload'' [] = Inr raw \<and>
     pc_UnpackFrame (\<lambda>_. Inl EOF) client_NewPacketCombiner raw = Inr (header, Packet CAcceptUpload)"
  using client_frame_roundtrip [of CAcceptUpload "[]" "\<lambda>_. Inl EOF"] by simp

text \<open>A compressed frame whose data inflate to a file request's body is read as that request,
  though its header carries the protocol byte of compressed packets.\<close>

theorem client_compressed_request:
  assumes "wf_FileRequest r" and "inflate src = Inr (put_FileRequest r)"
    and "ph_Protocol header = PackedProt" and "ph_Packet header = 0x58"
  shows "pc_Unpack inflate client_NewPacketCombiner header src = Inr (Packet (CFileRequest r))"
proof -
  have mem: "(PK EdonkeyProt 0x58, ''client.FileRequest'', map_reader CFileRequest get_FileRequest) \<in> set client_table"
    by (simp add: client_table_def)
  have key: "client_registry.key_of (CFileRequest r) = PK EdonkeyProt 0x58"
    unfolding client_registry.key_of_def unfolding client_NewPacketCombiner_def
    using register_all_in(1) [OF mem client_table_names] by simp
  have "PK EMuleProt 0x58 \<notin> fst ` set client_table"
    by (simp add: client_table_def protocol_bytes)
  then have "pc_keyToPacket client_NewPacketCombiner (PK EMuleProt 0x58) = None"
    unfolding client_NewPacketCombiner_def
    by (simp add: register_all_other pc_SetServiceSizer_def NewPacketCombiner_def)
  moreover have "small (put_client (CFileRequest r))"
    using assms(1) by (simp add: FileRequest_codec.length_put bytesCount_FileRequest_def)
  ultimately show ?thesis
    using assms key by (intro client_registry.Unpack_packed) simp_all
qed

theorem client_compressed_request_witness:
  "pc_Unpack (\<lambda>_. Inr (replicate 16 1)) client_NewPacketCombiner
     \<lparr>ph_Protocol = PackedProt, ph_Size = 1, ph_Packet = 0x58\<rparr> [] =
   Inr (Packet (CFileRequest \<lparr>freq_Hash = replicate 16 1\<rparr>))"
  by (rule client_compressed_request)
    (simp_all add: wf_FileRequest_def wf_hash_def put_FileRequest_def WriteHash_def)

text \<open>A request holds three ranges: a fourth \<open>AppendRange\<close> is an index out of range.\<close>

theorem AppendRange_capacity:
  assumes "length (rp32_BeginOffset r) = partsInRequest" and "length (rp32_EndOffset r) = partsInRequest"
    and "0 \<le> rp32_CurrentFree r"
  shows "(rp32_CurrentFree r < 3 \<longrightarrow>
      (\<exists>r'. AppendRange32 r rg = Some r' \<and> rp32_CurrentFree r' = rp32_CurrentFree r + 1 \<and>
         rp32_BeginOffset r' = (rp32_BeginOffset r)[nat (rp32_CurrentFree r) := word_of_int (Left rg)] \<and>
         rp32_EndOffset r' = (rp32_EndOffset r)[nat (rp32_CurrentFree r) := word_of_int (Right rg)])) \<and>
    (3 \<le> rp32_CurrentFree r \<longrightarrow> AppendRange32 r rg = None)"
  using assms by (auto simp: AppendRange32_def upd_def partsInRequest_def)

theorem AppendRange_capacity_witness:
  "AppendRange32 \<lparr>rp32_Hash = Invalid, rp32_CurrentFree = 3, rp32_BeginOffset = [0, 0, 0],
     rp32_EndOffset = [0, 0, 0]\<rparr> \<lparr>Left = 0, Right = 1\<rparr> = None"
  by (rule AppendRange_capacity [THEN conjunct2, THEN mp]) (simp_all add: partsInRequest_def)

end
