(* ===== verification/Conn_Stream.thy ===== *)
theory Conn_Stream
  imports Errors Stats Client_Packets
begin

text \<open>
  The byte streams of a connection (\<^verbatim>\<open>connection.go\<close>): received chunks are buffered and
  cut into frames, packets are queued and written from the front. What the socket does in a
  call is an argument; writing to it and the clock are the only things outside the model.
\<close>

section \<open>State\<close>

record queuedPacket =
  qp_data :: bytes
  qp_protocolBytes :: int
  qp_payloadBytes :: int

record Connection =
  co_socket :: bool
  co_stat :: Statistics
  co_lastReceive :: int
  co_disconnecting :: bool
  co_closeCode :: ErrorCode
  co_closeHandled :: bool
  co_outgoing :: "queuedPacket list"
  co_incoming :: "bytes list"

definition co_NewConnection :: "int \<Rightarrow> Connection" where
  "co_NewConnection now =
     \<lparr>co_socket = False, co_stat = NewStatistics, co_lastReceive = now, co_disconnecting = False,
      co_closeCode = NoError, co_closeHandled = False, co_outgoing = [], co_incoming = []\<rparr>"

definition co_Close :: "ErrorCode \<Rightarrow> 'z Connection_scheme \<Rightarrow> 'z Connection_scheme" where
  "co_Close ec c =
     (if co_disconnecting c then c
      else c\<lparr>co_socket := False, co_disconnecting := True, co_closeCode := ec\<rparr>)"

text \<open>What one read of at most 16 KiB returns; \<open>Got []\<close> is no bytes and no error.\<close>

datatype socket_read = ReadTimeout | ReadEOF | ReadError string | Got bytes

definition DoRead :: "int \<Rightarrow> socket_read \<Rightarrow> 'z Connection_scheme \<Rightarrow> 'z Connection_scheme \<times> string option" where
  "DoRead now r c =
     (if \<not> co_socket c then (c, None)
      else (case r of
          ReadTimeout \<Rightarrow> (c, None)
        | ReadEOF \<Rightarrow> (co_Close EndOfStream c, None)
        | ReadError e \<Rightarrow> (co_Close IOException c, Some e)
        | Got bs \<Rightarrow>
            (if bs = [] then (c, None)
             else (c\<lparr>co_lastReceive := now, co_stat := ReceiveBytes (int (length bs)) 0 (co_stat c),
                     co_incoming := co_incoming c @ [bs]\<rparr>, None))))"

text \<open>Dialling succeeds or fails with an error.\<close>

definition co_Connect :: "int \<Rightarrow> string option \<Rightarrow> 'z Connection_scheme \<Rightarrow> 'z Connection_scheme \<times> string option" where
  "co_Connect now dial c =
     (case dial of
        Some e \<Rightarrow> (co_Close IOException c, Some e)
      | None \<Rightarrow> (c\<lparr>co_socket := True, co_lastReceive := now\<rparr>, None))"

definition co_SecondTick :: "int \<Rightarrow> 'z Connection_scheme \<Rightarrow> 'z Connection_scheme option" where
  "co_SecondTick tickIntervalMS c =
     map_option (\<lambda>s. c\<lparr>co_stat := s\<rparr>) (st_SecondTick tickIntervalMS (co_stat c))"

definition MarkDisconnectHandled :: "'z Connection_scheme \<Rightarrow> 'z Connection_scheme" where
  "MarkDisconnectHandled c = c\<lparr>co_closeHandled := True\<rparr>"

definition MillisecondsSinceLastReceive :: "int \<Rightarrow> 'z Connection_scheme \<Rightarrow> int" where
  "MillisecondsSinceLastReceive now c = now - co_lastReceive c"

section \<open>Sending\<close>

definition QueuePacketWithStats :: "bytes \<Rightarrow> int \<Rightarrow> int \<Rightarrow> 'z Connection_scheme \<Rightarrow> 'z Connection_scheme" where
  "QueuePacketWithStats packet protocolBytes payloadBytes c =
     (if packet = [] then c
      else c\<lparr>co_outgoing := co_outgoing c @
             [\<lparr>qp_data = packet, qp_protocolBytes = protocolBytes, qp_payloadBytes = payloadBytes\<rparr>]\<rparr>)"

definition QueuePacket :: "bytes \<Rightarrow> 'z Connection_scheme \<Rightarrow> 'z Connection_scheme" where
  "QueuePacket packet c = QueuePacketWithStats packet (int (length packet)) 0 c"

definition PendingPackets :: "'z Connection_scheme \<Rightarrow> bytes list" where
  "PendingPackets c = map qp_data (co_outgoing c)"

definition PopOutgoing :: "'z Connection_scheme \<Rightarrow> 'z Connection_scheme \<times> bytes option" where
  "PopOutgoing c =
     (case co_outgoing c of
        [] \<Rightarrow> (c, None)
      | p # ps \<Rightarrow> (c\<lparr>co_outgoing := ps\<rparr>, Some (qp_data p)))"

text \<open>
  One write of the first packet. On a timeout or an error the socket may already have
  taken some bytes (\<open>n\<close>), which \<^verbatim>\<open>net.Conn.Write\<close> reports beside the error.
\<close>

datatype socket_write = WriteTimeout nat | WriteError nat string | Wrote nat

definition FlushOutgoing :: "socket_write \<Rightarrow> 'z Connection_scheme \<Rightarrow> 'z Connection_scheme \<times> string option" where
  "FlushOutgoing w c =
     (if \<not> co_socket c then (c, None)
      else (case co_outgoing c of
          [] \<Rightarrow> (c, None)
        | p # ps \<Rightarrow>
            (case w of
               WriteTimeout n \<Rightarrow> (c, None)
             | WriteError n e \<Rightarrow> (co_Close IOException c, Some e)
             | Wrote n \<Rightarrow>
                 (if n \<ge> length (qp_data p) then
                    (c\<lparr>co_stat := SendBytes (qp_protocolBytes p) (qp_payloadBytes p) (co_stat c),
                       co_outgoing := ps\<rparr>, None)
                  else (c\<lparr>co_outgoing := p\<lparr>qp_data := drop n (qp_data p)\<rparr> # ps\<rparr>, None)))))"

text \<open>The bytes the socket takes in that call.\<close>

definition taken :: "socket_write \<Rightarrow> 'z Connection_scheme \<Rightarrow> bytes" where
  "taken w c =
     (if \<not> co_socket c then []
      else (case co_outgoing c of
          [] \<Rightarrow> []
        | p # _ \<Rightarrow> take (case w of WriteTimeout n \<Rightarrow> n | WriteError n _ \<Rightarrow> n | Wrote n \<Rightarrow> n) (qp_data p)))"

section \<open>Receiving\<close>

definition AppendIncoming :: "bytes \<Rightarrow> 'z Connection_scheme \<Rightarrow> 'z Connection_scheme" where
  "AppendIncoming chunk c = (if chunk = [] then c else c\<lparr>co_incoming := co_incoming c @ [chunk]\<rparr>)"

definition prependIncoming :: "bytes \<Rightarrow> 'z Connection_scheme \<Rightarrow> 'z Connection_scheme" where
  "prependIncoming chunk c = (if chunk = [] then c else c\<lparr>co_incoming := chunk # co_incoming c\<rparr>)"

definition IncomingBytes :: "'z Connection_scheme \<Rightarrow> nat" where
  "IncomingBytes c = sum_list (map length (co_incoming c))"

definition DrainIncoming :: "'z Connection_scheme \<Rightarrow> 'z Connection_scheme \<times> bytes" where
  "DrainIncoming c = (c\<lparr>co_incoming := []\<rparr>, concat (co_incoming c))"

definition ConsumeIncoming :: "int \<Rightarrow> 'z Connection_scheme \<Rightarrow> 'z Connection_scheme \<times> bytes" where
  "ConsumeIncoming limit c =
     (if limit \<le> 0 then (c, [])
      else
        (let (c1, raw) = DrainIncoming c
         in if raw = [] then (c1, [])
            else if int (length raw) \<le> limit then (c1, raw)
            else (prependIncoming (drop (nat limit) raw) c1, take (nat limit) raw)))"

lemma drop_Cons_length: "drop k xs = y # ys \<Longrightarrow> length ys < length xs"
proof -
  assume "drop k xs = y # ys"
  from arg_cong [OF this, of length] show ?thesis by simp
qed

lemma get_PacketHeader_length: "get_PacketHeader raw = Inr (header, rest) \<Longrightarrow> length rest < length raw"
  by (auto simp: get_PacketHeader_def rbind_def readByte_def readInt32_def readFull_def rreturn_def
      split: list.splits if_splits sum.splits dest!: drop_Cons_length)

lemma readBytes_shorter: "readBytes n src = Inr (x, rest) \<Longrightarrow> length rest \<le> length src"
  by (auto simp: readBytes_def split: if_splits)

text \<open>
  The loop of \<open>ReadFramesWithCombiner\<close> on the bytes not yet read: the frames, the bytes put
  back, the error.
\<close>

function read_loop :: "(PacketHeader \<Rightarrow> int) \<Rightarrow> bytes \<Rightarrow> (PacketHeader \<times> bytes) list \<times> bytes \<times> go_error option" where
  "read_loop service raw =
     (if length raw < PacketHeaderSize then ([], [], None)
      else (case get_PacketHeader raw of
          Inl err \<Rightarrow> ([], [], Some err)
        | Inr (header, rest) \<Rightarrow>
            (let bodySize = sint (SizePacket header); serviceSize = service header
             in if bodySize < 0 \<or> serviceSize < 0 \<or> serviceSize > bodySize then ([], [], Some UnexpectedEOF)
                else if int (length rest) < serviceSize then ([], raw, None)
                else (case readBytes serviceSize rest of
                    Inl err \<Rightarrow> ([], [], Some err)
                  | Inr (body, rest') \<Rightarrow>
                      (if bodySize > serviceSize then ([(header, body)], rest', None)
                       else (let (frames, keep, err) = read_loop service rest'
                             in ((header, body) # frames, keep, err)))))))"
  by pat_completeness auto
termination
  by (relation "measure (\<lambda>(_, raw). length raw)")
    (auto dest!: get_PacketHeader_length readBytes_shorter)

declare read_loop.simps [simp del]

text \<open>Without a combiner the whole body is the service part.\<close>

definition ReadFramesWithCombiner ::
  "'p PacketCombiner option \<Rightarrow> 'z Connection_scheme \<Rightarrow>
   'z Connection_scheme \<times> (PacketHeader \<times> bytes) list \<times> go_error option" where
  "ReadFramesWithCombiner combiner c =
     (let (c1, raw) = DrainIncoming c
      in if raw = [] then (c1, [], None)
         else
           (let service = (case combiner of
                  Some p \<Rightarrow> pc_ServiceSize p
                | None \<Rightarrow> (\<lambda>header. sint (SizePacket header)));
                (frames, keep, err) = read_loop service raw
            in (prependIncoming keep c1, frames, err)))"

definition ReadFrames :: "'z Connection_scheme \<Rightarrow> 'z Connection_scheme \<times> (PacketHeader \<times> bytes) list \<times> go_error option" where
  "ReadFrames c = ReadFramesWithCombiner (None :: ClientPacket PacketCombiner option) c"

fun unpack_frames ::
  "(bytes \<Rightarrow> bytes result) \<Rightarrow> 'p PacketCombiner \<Rightarrow> (PacketHeader \<times> bytes) list \<Rightarrow>
   (PacketHeader \<times> 'p unpacked) list \<times> go_error option" where
  "unpack_frames inflate combiner [] = ([], None)"
| "unpack_frames inflate combiner ((header, body) # fs) =
     (case pc_Unpack inflate combiner header body of
        Inl err \<Rightarrow> ([], Some err)
      | Inr packet \<Rightarrow>
          (let (ps, err) = unpack_frames inflate combiner fs in ((header, packet) # ps, err)))"

definition DecodeFrames ::
  "(bytes \<Rightarrow> bytes result) \<Rightarrow> 'p PacketCombiner option \<Rightarrow> 'z Connection_scheme \<Rightarrow>
   'z Connection_scheme \<times> (PacketHeader \<times> 'p unpacked) list \<times> go_error option" where
  "DecodeFrames inflate combiner c =
     (case combiner of
        None \<Rightarrow> (c, [], None)
      | Some p \<Rightarrow>
          (let (c1, frames, err) = ReadFrames c
           in case err of
                Some e \<Rightarrow> (c1, [], Some e)
              | None \<Rightarrow> (let (packets, err') = unpack_frames inflate p frames in (c1, packets, err'))))"

section \<open>Cutting a stream into frames\<close>

definition frame_bytes :: "PacketHeader \<times> bytes \<Rightarrow> bytes" where
  "frame_bytes f = put_PacketHeader (fst f) @ snd f"

text \<open>A frame whose header has the size of its body, all of which is service data.\<close>

definition whole_frame :: "(PacketHeader \<Rightarrow> int) \<Rightarrow> PacketHeader \<times> bytes \<Rightarrow> bool" where
  "whole_frame service f \<longleftrightarrow>
     sint (SizePacket (fst f)) = int (length (snd f)) \<and> service (fst f) = int (length (snd f))"

text \<open>The begin of a frame with at least its header, or nothing.\<close>

definition frame_begin :: "(PacketHeader \<Rightarrow> int) \<Rightarrow> bytes \<Rightarrow> bool" where
  "frame_begin service t \<longleftrightarrow>
     t = [] \<or> (\<exists>h part. t = put_PacketHeader h @ part \<and> int (length part) < service h \<and>
                service h \<le> sint (SizePacket h))"

abbreviation stream :: "(PacketHeader \<times> bytes) list \<Rightarrow> bytes" where
  "stream fs \<equiv> concat (map frame_bytes fs)"

lemma get_put_PacketHeader: "get_PacketHeader (put_PacketHeader h @ rest) = Inr (h, rest)"
  by (simp add: get_PacketHeader_def put_PacketHeader_def rbind_def readByte_def readInt32_def
      writeByte_def writeInt32_def readFull_def le_dec_enc rreturn_def)

lemma length_put_PacketHeader: "length (put_PacketHeader h) = PacketHeaderSize"
  by (simp add: put_PacketHeader_def PacketHeaderSize_def codec_len)

lemma read_loop_frame:
  assumes "whole_frame service f"
  shows "read_loop service (frame_bytes f @ rest) =
    (let (fs, keep, err) = read_loop service rest in (f # fs, keep, err))"
proof -
  obtain h b where f: "f = (h, b)" by (cases f)
  have "readBytes (int (length b)) (b @ rest) = Inr (b, rest)"
    by (cases "b = []") (simp_all add: readBytes_def)
  then show ?thesis
    using assms by (subst read_loop.simps)
      (simp add: f frame_bytes_def whole_frame_def get_put_PacketHeader length_put_PacketHeader)
qed

lemma read_loop_frames:
  "list_all (whole_frame service) fs \<Longrightarrow>
    read_loop service (stream fs @ rest) = (let (gs, keep, err) = read_loop service rest in (fs @ gs, keep, err))"
  by (induction fs) (simp_all add: read_loop_frame split: prod.splits)

lemma read_loop_begin:
  assumes "frame_begin service t"
  shows "read_loop service t = ([], t, None)"
proof (cases "t = []")
  case True
  then show ?thesis by (subst read_loop.simps) (simp add: PacketHeaderSize_def)
next
  case False
  then obtain h part where t: "t = put_PacketHeader h @ part" "int (length part) < service h"
    "service h \<le> sint (SizePacket h)"
    using assms by (auto simp: frame_begin_def)
  then show ?thesis
    by (subst read_loop.simps) (simp add: get_put_PacketHeader length_put_PacketHeader)
qed

text \<open>Chunks arrive one after the other and the frames are read after each.\<close>

fun run_chunks :: "'p PacketCombiner \<Rightarrow> bytes list \<Rightarrow> 'z Connection_scheme \<Rightarrow> 'z Connection_scheme \<times> (PacketHeader \<times> bytes) list" where
  "run_chunks p [] c = (c, [])"
| "run_chunks p (chunk # chunks) c =
     (let (c1, frames, err) = ReadFramesWithCombiner (Some p) (AppendIncoming chunk c);
          (c2, more) = run_chunks p chunks c1
      in (c2, frames @ more))"

lemma run_chunks_snoc:
  "run_chunks p (chunks @ [chunk]) c =
     (let (c1, fs) = run_chunks p chunks c;
          (c2, frames, err) = ReadFramesWithCombiner (Some p) (AppendIncoming chunk c1)
      in (c2, fs @ frames))"
  by (induction chunks arbitrary: c) (simp_all add: Let_def split: prod.splits)

lemma concat_AppendIncoming: "concat (co_incoming (AppendIncoming chunk c)) = concat (co_incoming c) @ chunk"
  by (simp add: AppendIncoming_def)

lemma ReadFrames_raw:
  assumes "read_loop (pc_ServiceSize p) (concat (co_incoming c)) = (frames, keep, err)"
  shows "\<exists>c'. ReadFramesWithCombiner (Some p) c = (c', frames, err) \<and> concat (co_incoming c') = keep"
proof (cases "concat (co_incoming c) = []")
  case True
  have "read_loop (pc_ServiceSize p) [] = ([], [], None)"
    by (subst read_loop.simps) (simp add: PacketHeaderSize_def)
  with assms True have "frames = []" "keep = []" "err = None" by auto
  with True show ?thesis
    by (intro exI [of _ "c\<lparr>co_incoming := []\<rparr>"])
      (auto simp: ReadFramesWithCombiner_def DrainIncoming_def Let_def simp del: concat_eq_Nil_conv)
next
  case False
  with assms show ?thesis
    by (intro exI [of _ "prependIncoming keep (c\<lparr>co_incoming := []\<rparr>)"])
      (auto simp: ReadFramesWithCombiner_def DrainIncoming_def prependIncoming_def Let_def
        simp del: concat_eq_Nil_conv)
qed

text \<open>No chunk ends inside a header.\<close>

definition cut_between :: "(PacketHeader \<Rightarrow> int) \<Rightarrow> bytes list \<Rightarrow> bool" where
  "cut_between service chunks \<longleftrightarrow>
     (\<forall>k \<le> length chunks. \<exists>gs t. concat (take k chunks) = stream gs @ t \<and>
        list_all (whole_frame service) gs \<and> frame_begin service t)"

lemma cut_between_snoc: "cut_between service (chunks @ [chunk]) \<Longrightarrow> cut_between service chunks"
proof (unfold cut_between_def, intro allI impI)
  fix k
  assume all: "\<forall>k \<le> length (chunks @ [chunk]). \<exists>gs t. concat (take k (chunks @ [chunk])) = stream gs @ t \<and>
      list_all (whole_frame service) gs \<and> frame_begin service t"
    and k: "k \<le> length chunks"
  from k have "take k (chunks @ [chunk]) = take k chunks" by simp
  with all k show "\<exists>gs t. concat (take k chunks) = stream gs @ t \<and>
      list_all (whole_frame service) gs \<and> frame_begin service t"
    by (metis le_SucI length_append_singleton)
qed

text \<open>C32: reassembly. Frames whose body is all service data (every packet but the data frames
  \<open>SendingPart\<close> and \<open>CompressedPart\<close>, whose data the loop leaves to the receiver of the
  block), sent one after the other, arrive in any chunks that do not end inside a header, and the
  frames are read after each chunk: the frames read over all the calls are the frames sent, in
  order, and what is kept in the buffer is the begin of the next frame.
\<close>

lemma run_chunks_frames:
  assumes "cut_between (pc_ServiceSize p) chunks" and "concat chunks = stream fs @ t"
    and "list_all (whole_frame (pc_ServiceSize p)) fs" and "frame_begin (pc_ServiceSize p) t"
    and "co_incoming c = []"
  shows "\<exists>c'. run_chunks p chunks c = (c', fs) \<and> concat (co_incoming c') = t"
  using assms
proof (induction chunks arbitrary: fs t rule: rev_induct)
  case Nil
  have "fs = []"
  proof (cases fs)
    case (Cons f gs)
    have "length (frame_bytes f) \<noteq> 0" by (simp add: frame_bytes_def length_put_PacketHeader PacketHeaderSize_def)
    with Nil Cons show ?thesis by auto
  qed simp
  with Nil show ?case by simp
next
  case (snoc chunk chunks)
  define service where "service = pc_ServiceSize p"
  obtain gs u where gs: "concat chunks = stream gs @ u" "list_all (whole_frame service) gs" "frame_begin service u"
    using cut_between_snoc [OF snoc.prems(1)] unfolding cut_between_def service_def by force
  obtain c1 where c1: "run_chunks p chunks c = (c1, gs)" "concat (co_incoming c1) = u"
    using snoc.IH [OF cut_between_snoc [OF snoc.prems(1)] gs(1)] gs(2,3) snoc.prems(5)
    unfolding service_def by blast
  obtain hs keep err where r: "read_loop service (u @ chunk) = (hs, keep, err)"
    using prod_cases3 by metis
  have "read_loop service (stream gs @ u @ chunk) = (gs @ hs, keep, err)"
    using read_loop_frames [OF gs(2)] r by simp
  moreover have "read_loop service (stream fs @ t) = (fs, t, None)"
    using read_loop_frames [of service fs t] read_loop_begin [of service t] snoc.prems(3,4)
    unfolding service_def by simp
  moreover have "stream gs @ u @ chunk = stream fs @ t"
    using snoc.prems(2) gs(1) by simp
  ultimately have eq: "gs @ hs = fs" "keep = t" "err = None" by auto
  have "read_loop service (concat (co_incoming (AppendIncoming chunk c1))) = (hs, t, None)"
    using r c1(2) eq by (simp add: concat_AppendIncoming)
  then obtain c2 where c2: "ReadFramesWithCombiner (Some p) (AppendIncoming chunk c1) = (c2, hs, None)"
    "concat (co_incoming c2) = t"
    using ReadFrames_raw unfolding service_def by blast
  have "run_chunks p (chunks @ [chunk]) c = (c2, fs)"
    using c1(1) c2(1) eq(1) by (simp add: run_chunks_snoc)
  with c2(2) show ?case by blast
qed

abbreviation frame5 :: "PacketHeader \<times> bytes" where
  "frame5 \<equiv> (\<lparr>ph_Protocol = 0xE3, ph_Size = 6, ph_Packet = 1\<rparr>, [1, 2, 3, 4, 5])"
abbreviation frame0 :: "PacketHeader \<times> bytes" where
  "frame0 \<equiv> (\<lparr>ph_Protocol = 0xE3, ph_Size = 1, ph_Packet = 2\<rparr>, [])"
abbreviation chunks2 :: "bytes list" where
  "chunks2 \<equiv> [put_PacketHeader (fst frame5) @ [1, 2], [3, 4, 5] @ put_PacketHeader (fst frame0)]"

abbreviation split_at :: "bytes \<Rightarrow> bool" where
  "split_at raw \<equiv> \<exists>gs t. raw = stream gs @ t \<and>
     list_all (whole_frame (pc_ServiceSize (NewPacketCombiner :: ClientPacket PacketCombiner))) gs \<and>
     frame_begin (pc_ServiceSize (NewPacketCombiner :: ClientPacket PacketCombiner)) t"

lemma cut_chunks2: "cut_between (pc_ServiceSize (NewPacketCombiner :: ClientPacket PacketCombiner)) chunks2"
proof (unfold cut_between_def, intro allI impI)
  have cut0: "split_at (concat (take 0 chunks2))"
    by (rule exI [of _ "[]"], rule exI [of _ "[]"]) (simp add: frame_begin_def)
  have "frame_begin (pc_ServiceSize (NewPacketCombiner :: ClientPacket PacketCombiner))
      (put_PacketHeader (fst frame5) @ [1, 2])"
    unfolding frame_begin_def
    by (rule disjI2, rule exI [of _ "fst frame5"], rule exI [of _ "[1, 2] :: bytes"])
      (simp add: pc_ServiceSize_def NewPacketCombiner_def SizePacket_def)
  then have cut1: "split_at (concat (take 1 chunks2))"
    by - (rule exI [of _ "[]"], rule exI [of _ "put_PacketHeader (fst frame5) @ [1, 2]"], simp)
  have cut2: "split_at (concat (take 2 chunks2))"
    by (rule exI [of _ "[frame5, frame0]"], rule exI [of _ "[]"])
      (simp add: frame_begin_def frame_bytes_def whole_frame_def pc_ServiceSize_def
        NewPacketCombiner_def SizePacket_def)
  fix k assume "k \<le> length chunks2"
  then have "k = 0 \<or> k = 1 \<or> k = 2" by (simp add: le_Suc_eq numeral_2_eq_2)
  with cut0 cut1 cut2 show "split_at (concat (take k chunks2))" by metis
qed

lemma run_chunks_frames_witness:
  "\<exists>c'. run_chunks (NewPacketCombiner :: ClientPacket PacketCombiner) chunks2 (co_NewConnection 0) =
          (c', [frame5, frame0]) \<and> concat (co_incoming c') = []"
  by (rule run_chunks_frames [OF cut_chunks2])
    (simp_all add: frame_begin_def frame_bytes_def whole_frame_def pc_ServiceSize_def
      NewPacketCombiner_def SizePacket_def co_NewConnection_def)

text \<open>A chunk that ends inside a header. When less than a header is in the buffer, reading the
  frames empties the buffer and reports neither a frame nor an error: the bytes are lost, and
  the bytes that arrive next are read as if they began a header.
\<close>

lemma partial_header_lost:
  assumes "IncomingBytes c < PacketHeaderSize"
  shows "ReadFramesWithCombiner p c = (c\<lparr>co_incoming := []\<rparr>, [], None)"
proof -
  have len: "length (concat (co_incoming c)) < PacketHeaderSize"
    using assms by (simp add: IncomingBytes_def length_concat)
  have "read_loop service (concat (co_incoming c)) = ([], [], None)" for service
    using len by (subst read_loop.simps) simp
  then show ?thesis
    by (cases "concat (co_incoming c) = []")
      (simp_all add: ReadFramesWithCombiner_def DrainIncoming_def prependIncoming_def Let_def
        del: concat_eq_Nil_conv)
qed

lemma partial_header_lost_witness:
  "ReadFramesWithCombiner (Some (NewPacketCombiner :: ClientPacket PacketCombiner))
     (AppendIncoming [0xE3, 6, 0] (co_NewConnection 0)) = (co_NewConnection 0, [], None)"
  using partial_header_lost [of "AppendIncoming [0xE3, 6, 0] (co_NewConnection 0)"
      "Some (NewPacketCombiner :: ClientPacket PacketCombiner)"]
  by (simp add: IncomingBytes_def AppendIncoming_def co_NewConnection_def PacketHeaderSize_def)

section \<open>The sent stream\<close>

datatype out_event = Queue bytes int int | Flush socket_write

definition unsent :: "'z Connection_scheme \<Rightarrow> bytes" where
  "unsent c = concat (map qp_data (co_outgoing c))"

fun queued_bytes :: "out_event list \<Rightarrow> bytes" where
  "queued_bytes [] = []"
| "queued_bytes (Queue packet pb qb # es) = packet @ queued_bytes es"
| "queued_bytes (Flush w # es) = queued_bytes es"

text \<open>The connection and the bytes on the wire after a run of queueing and flushing.\<close>

fun run_out :: "out_event list \<Rightarrow> 'z Connection_scheme \<Rightarrow> 'z Connection_scheme \<times> bytes" where
  "run_out [] c = (c, [])"
| "run_out (Queue packet pb qb # es) c = run_out es (QueuePacketWithStats packet pb qb c)"
| "run_out (Flush w # es) c =
     (let (c1, err) = FlushOutgoing w c; (c2, wire) = run_out es c1 in (c2, taken w c @ wire))"

text \<open>A write that times out has taken nothing.\<close>

fun clean_write :: "out_event \<Rightarrow> bool" where
  "clean_write (Flush (WriteTimeout n)) \<longleftrightarrow> n = 0"
| "clean_write _ \<longleftrightarrow> True"

lemma unsent_Queue [simp]: "unsent (QueuePacketWithStats packet pb qb c) = unsent c @ packet"
  by (simp add: unsent_def QueuePacketWithStats_def)

lemma FlushOutgoing_unsent:
  "clean_write (Flush w) \<Longrightarrow> \<not> (\<exists>n e. w = WriteError n e) \<Longrightarrow> taken w c @ unsent (fst (FlushOutgoing w c)) = unsent c"
  by (cases w) (auto simp: taken_def unsent_def FlushOutgoing_def split: list.splits)

text \<open>A write that fails otherwise closes the connection, and a closed one takes no byte.\<close>

lemma taken_prefix: "\<exists>rest. taken w c @ rest = unsent c"
proof (cases "co_outgoing c")
  case (Cons q qs)
  let ?n = "case w of WriteTimeout n \<Rightarrow> n | WriteError n _ \<Rightarrow> n | Wrote n \<Rightarrow> n"
  show ?thesis
  proof (cases "co_socket c")
    case True
    with Cons show ?thesis
      by (intro exI [of _ "drop ?n (qp_data q) @ concat (map qp_data qs)"]) (simp add: taken_def unsent_def append_assoc [symmetric] del: append_assoc)
  qed (simp add: taken_def)
qed (simp add: taken_def)

lemma FlushOutgoing_error:
  assumes "\<not> co_disconnecting c \<or> \<not> co_socket c"
  shows "\<not> co_socket (fst (FlushOutgoing (WriteError n e) c)) \<or>
    taken (WriteError n e) c @ unsent (fst (FlushOutgoing (WriteError n e) c)) = unsent c"
  using assms by (cases "co_outgoing c") (auto simp: taken_def unsent_def FlushOutgoing_def co_Close_def)

lemma closed_run:
  "\<not> co_socket c \<Longrightarrow> run_out es c = (c', wire) \<Longrightarrow> \<not> co_socket c' \<and> wire = []"
proof (induction es arbitrary: c c' wire)
  case (Cons e es)
  show ?case
  proof (cases e)
    case (Queue packet pb qb)
    have "\<not> co_socket (QueuePacketWithStats packet pb qb c)" using Cons.prems(1) by (simp add: QueuePacketWithStats_def)
    from Cons.IH [OF this] Cons.prems(2) show ?thesis by (simp add: Queue)
  next
    case (Flush w)
    have f: "FlushOutgoing w c = (c, None)" "taken w c = []" using Cons.prems(1) by (simp_all add: FlushOutgoing_def taken_def)
    obtain c2 more where "run_out es c = (c2, more)" by fastforce
    with Cons.IH [OF Cons.prems(1) this] Cons.prems(2) show ?thesis by (simp add: Flush f)
  qed
qed simp

lemma open_flush: "co_disconnecting (fst (FlushOutgoing w c)) \<Longrightarrow> co_disconnecting c \<or> \<not> co_socket (fst (FlushOutgoing w c))"
  by (auto simp: FlushOutgoing_def co_Close_def split: socket_write.splits list.splits if_splits)

text \<open>C33: sending. Whatever packets are queued and however the socket cuts them into writes, and
  fails, the bytes on the wire are a prefix of the bytes queued before and during the run, in order,
  none lost and none twice; and as long as no write fails the rest is still queued, nothing else.
  This provided that a write that times out took no byte, and that the connection is not already
  closing while its socket is open.
\<close>

lemma sent_stream:
  assumes "list_all clean_write es" and "run_out es c = (c', wire)" and "\<not> co_disconnecting c \<or> \<not> co_socket c"
  shows "(\<exists>rest. wire @ rest = unsent c @ queued_bytes es) \<and>
    (co_socket c' \<or> (\<forall>n e. Flush (WriteError n e) \<notin> set es) \<longrightarrow> wire @ unsent c' = unsent c @ queued_bytes es)"
  using assms
proof (induction es c arbitrary: c' wire rule: run_out.induct)
  case (1 c)
  then show ?case by auto
next
  case (2 packet pb qb es c)
  then show ?case by (auto simp: QueuePacketWithStats_def unsent_def)
next
  case (3 w es c)
  obtain c1 err where c1: "FlushOutgoing w c = (c1, err)" by fastforce
  obtain c2 more where c2: "run_out es c1 = (c2, more)" by fastforce
  have c': "c' = c2" "wire = taken w c @ more" using "3.prems"(2) c1 c2 by auto
  have "\<not> co_disconnecting c1 \<or> \<not> co_socket c1"
    using open_flush [of w c] c1 "3.prems"(3) closed_run [of c "[Flush w]" c1 "taken w c"] by auto
  from "3.IH" [OF c1 [symmetric] refl _ c2 this] "3.prems"(1)
  have IH: "\<exists>rest. more @ rest = unsent c1 @ queued_bytes es"
    "co_socket c2 \<or> (\<forall>n e. Flush (WriteError n e) \<notin> set es) \<longrightarrow> more @ unsent c2 = unsent c1 @ queued_bytes es"
    by simp_all
  have go: "(taken w c @ more) @ r = unsent c @ queued_bytes (Flush w # es)"
    if "taken w c @ unsent c1 = unsent c" "more @ r = unsent c1 @ queued_bytes es" for r
    using that by (metis append.assoc queued_bytes.simps(3))
  show ?case
  proof (cases "taken w c @ unsent c1 = unsent c")
    case True
    obtain rest where "more @ rest = unsent c1 @ queued_bytes es" using IH(1) ..
    from go [OF True this] go [OF True, of "unsent c2"] IH(2) show ?thesis unfolding c' by (metis list.set_intros(2))
  next
    case False
    then obtain n e where w: "w = WriteError n e"
      using FlushOutgoing_unsent [of w c] "3.prems"(1) c1 by auto
    with False FlushOutgoing_error [OF "3.prems"(3), of n e] c1 have "\<not> co_socket c1" by simp
    with closed_run [OF this c2] have more: "more = []" "\<not> co_socket c2" by simp_all
    obtain rest where "taken w c @ rest = unsent c" using taken_prefix by blast
    then have "(taken w c @ more) @ rest @ queued_bytes es = unsent c @ queued_bytes (Flush w # es)"
      by (metis append.assoc append_Nil2 more(1) queued_bytes.simps(3))
    then show ?thesis using more(2) w unfolding c' by (metis list.set_intros(1))
  qed
qed

abbreviation open_connection :: Connection where
  "open_connection \<equiv> (co_NewConnection 0)\<lparr>co_socket := True\<rparr>"

lemma sent_stream_witness:
  "(let es = [Queue [1, 2, 3] 3 0, Flush (Wrote 2), Queue [4] 1 0, Flush (Wrote 1), Flush (WriteTimeout 0)];
        (c', wire) = run_out es open_connection
    in wire = [1, 2, 3] \<and> unsent c' = [4] \<and> wire @ unsent c' = unsent open_connection @ queued_bytes es)"
  using sent_stream [of "[Queue [1, 2, 3] 3 0, Flush (Wrote 2), Queue [4] 1 0, Flush (Wrote 1), Flush (WriteTimeout 0)]"
      open_connection]
  by (simp add: FlushOutgoing_def QueuePacketWithStats_def taken_def unsent_def co_NewConnection_def)

text \<open>A write that times out after \<open>n\<close> bytes. The packet stays whole at the front of the queue,
  so the next write sends those bytes a second time: the peer gets them twice.
\<close>

lemma timeout_resends:
  assumes "co_socket c" and "co_outgoing c = q # qs" and "length (qp_data q) \<le> m"
  shows "\<exists>c'. run_out [Flush (WriteTimeout n), Flush (Wrote m)] c = (c', take n (qp_data q) @ qp_data q) \<and>
    co_outgoing c' = qs"
  using assms by (simp add: FlushOutgoing_def taken_def)

lemma timeout_resends_witness:
  "\<exists>c'. run_out [Flush (WriteTimeout 2), Flush (Wrote 3)] (QueuePacket [1, 2, 3] open_connection) =
     (c', [1, 2, 1, 2, 3]) \<and> co_outgoing c' = []"
  using timeout_resends [of "QueuePacket [1, 2, 3] open_connection"
      "\<lparr>qp_data = [1, 2, 3], qp_protocolBytes = 3, qp_payloadBytes = 0\<rparr>" "[]" 3 2]
  by (simp add: QueuePacket_def QueuePacketWithStats_def co_NewConnection_def numeral_2_eq_2)

end
