(* ===== verification/Picker.thy ===== *)
theory Picker
  imports Geometry Bit_Field
begin

text \<open>
  Choosing what to download: \<^verbatim>\<open>blocks_enumerator.go\<close>, \<^verbatim>\<open>downloading_piece.go\<close> and
  \<^verbatim>\<open>piece_picker.go\<close>. A \<^verbatim>\<open>*Peer\<close> is an address (\<open>None\<close> is nil), the
  \<^verbatim>\<open>int16\<close> counter of downloaders a 16-bit word, and an index out of range is
  \<open>None\<close>. \<open>picker_ok\<close> is the invariant that ties the piece states to the list of pieces
  in progress; \<open>picker_step\<close> collects the calls the program makes.
\<close>

section \<open>Blocks\<close>

datatype PeerSpeed = PeerSpeedSlow | PeerSpeedMedium | PeerSpeedFast

fun speed_rank :: "PeerSpeed \<Rightarrow> nat" where
  "speed_rank PeerSpeedSlow = 0"
| "speed_rank PeerSpeedMedium = 1"
| "speed_rank PeerSpeedFast = 2"

instantiation PeerSpeed :: linorder
begin

definition less_eq_PeerSpeed :: "PeerSpeed \<Rightarrow> PeerSpeed \<Rightarrow> bool" where
  "a \<le> b \<longleftrightarrow> speed_rank a \<le> speed_rank b"

definition less_PeerSpeed :: "PeerSpeed \<Rightarrow> PeerSpeed \<Rightarrow> bool" where
  "a < b \<longleftrightarrow> speed_rank a < speed_rank b"

instance
proof
  fix x y :: PeerSpeed
  show "x \<le> y \<Longrightarrow> y \<le> x \<Longrightarrow> x = y"
    by (cases x; cases y) (simp_all add: less_eq_PeerSpeed_def)
qed (auto simp: less_eq_PeerSpeed_def less_PeerSpeed_def)

end

definition BlocksInPiece :: "int \<Rightarrow> int \<Rightarrow> int \<Rightarrow> int" where
  "BlocksInPiece pieceCount blocksInLastPiece pieceIndex =
     (if pieceIndex = pieceCount - 1 then blocksInLastPiece else BlocksPerPiece)"

datatype BlockState = StateNone | StateRequested | StateWriting | StateFinished

type_synonym peer_ref = "nat option"

record DownloadingBlock =
  db_state :: BlockState
  db_downloadersCount :: u16
  db_lastDownloader :: peer_ref
  db_speed :: PeerSpeed

definition zero_block :: DownloadingBlock where
  "zero_block = \<lparr>db_state = StateNone, db_downloadersCount = 0, db_lastDownloader = None,
     db_speed = PeerSpeedSlow\<rparr>"

definition db_IsRequested :: "DownloadingBlock \<Rightarrow> bool" where
  "db_IsRequested b \<longleftrightarrow> db_state b = StateRequested"

definition db_IsFinished :: "DownloadingBlock \<Rightarrow> bool" where
  "db_IsFinished b \<longleftrightarrow> db_state b = StateFinished"

definition db_IsWriting :: "DownloadingBlock \<Rightarrow> bool" where
  "db_IsWriting b \<longleftrightarrow> db_state b = StateWriting"

definition db_IsFree :: "DownloadingBlock \<Rightarrow> bool" where
  "db_IsFree b \<longleftrightarrow> db_state b = StateNone"

lemmas db_states = db_IsRequested_def db_IsFinished_def db_IsWriting_def db_IsFree_def

definition db_Request :: "peer_ref \<Rightarrow> PeerSpeed \<Rightarrow> DownloadingBlock \<Rightarrow> DownloadingBlock" where
  "db_Request p speed b =
     b\<lparr>db_downloadersCount := db_downloadersCount b + 1, db_lastDownloader := p,
       db_state := StateRequested, db_speed := speed\<rparr>"

definition db_Write :: "DownloadingBlock \<Rightarrow> DownloadingBlock" where
  "db_Write b = b\<lparr>db_downloadersCount := 0, db_lastDownloader := None, db_state := StateWriting\<rparr>"

definition db_Finish :: "DownloadingBlock \<Rightarrow> DownloadingBlock" where
  "db_Finish b = b\<lparr>db_state := StateFinished\<rparr>"

definition db_Abort :: "peer_ref \<Rightarrow> DownloadingBlock \<Rightarrow> DownloadingBlock" where
  "db_Abort p b =
     (let b1 = (if 0 < sint (db_downloadersCount b)
                then b\<lparr>db_downloadersCount := db_downloadersCount b - 1\<rparr> else b);
          b2 = (if db_lastDownloader b1 = p then b1\<lparr>db_lastDownloader := None\<rparr> else b1)
      in if db_downloadersCount b2 = 0 then b2\<lparr>db_state := StateNone\<rparr> else b2)"

section \<open>Pieces in progress\<close>

record DownloadingPiece =
  dp_PieceIndex :: int
  dp_blocksCount :: int
  dp_Blocks :: "DownloadingBlock list"

definition NewDownloadingPiece :: "int \<Rightarrow> int \<Rightarrow> DownloadingPiece" where
  "NewDownloadingPiece pieceIndex blocksCount =
     \<lparr>dp_PieceIndex = pieceIndex, dp_blocksCount = blocksCount,
      dp_Blocks = replicate (nat blocksCount) zero_block\<rparr>"

definition calculateStateBlocks :: "DownloadingPiece \<Rightarrow> BlockState \<Rightarrow> nat" where
  "calculateStateBlocks d state = length (filter (\<lambda>b. db_state b = state) (dp_Blocks d))"

definition FinishedBlocksCount :: "DownloadingPiece \<Rightarrow> nat" where
  "FinishedBlocksCount d = calculateStateBlocks d StateFinished"

definition DownloadingBlocksCount :: "DownloadingPiece \<Rightarrow> nat" where
  "DownloadingBlocksCount d = calculateStateBlocks d StateRequested"

definition WritingBlocksCount :: "DownloadingPiece \<Rightarrow> nat" where
  "WritingBlocksCount d = calculateStateBlocks d StateWriting"

definition DownloadedCount :: "DownloadingPiece \<Rightarrow> nat" where
  "DownloadedCount d = WritingBlocksCount d + FinishedBlocksCount d"

definition TotalBlocks :: "DownloadingPiece \<Rightarrow> nat" where
  "TotalBlocks d = length (dp_Blocks d)"

definition on_block :: "int \<Rightarrow> (DownloadingBlock \<Rightarrow> DownloadingBlock) \<Rightarrow> DownloadingPiece \<Rightarrow> DownloadingPiece option" where
  "on_block i f d =
     (case idx (dp_Blocks d) i of
        None \<Rightarrow> None
      | Some b \<Rightarrow> Some (d\<lparr>dp_Blocks := (dp_Blocks d)[nat i := f b]\<rparr>))"

definition dp_FinishBlock :: "int \<Rightarrow> DownloadingPiece \<Rightarrow> DownloadingPiece option" where
  "dp_FinishBlock blockIndex = on_block blockIndex db_Finish"

definition dp_RequestBlock :: "int \<Rightarrow> peer_ref \<Rightarrow> PeerSpeed \<Rightarrow> DownloadingPiece \<Rightarrow> DownloadingPiece option" where
  "dp_RequestBlock blockIndex p speed = on_block blockIndex (db_Request p speed)"

definition dp_WriteBlock :: "int \<Rightarrow> DownloadingPiece \<Rightarrow> (DownloadingPiece \<times> bool) option" where
  "dp_WriteBlock blockIndex d =
     (case idx (dp_Blocks d) blockIndex of
        None \<Rightarrow> None
      | Some b \<Rightarrow>
          if db_IsFree b \<or> db_IsRequested b
          then map_option (\<lambda>d'. (d', True)) (on_block blockIndex db_Write d)
          else Some (d, False))"

definition dp_IsDownloaded :: "int \<Rightarrow> DownloadingPiece \<Rightarrow> bool option" where
  "dp_IsDownloaded blockIndex d =
     map_option (\<lambda>b. db_IsFinished b \<or> db_IsWriting b) (idx (dp_Blocks d) blockIndex)"

definition dp_IsFinished :: "int \<Rightarrow> DownloadingPiece \<Rightarrow> bool option" where
  "dp_IsFinished blockIndex d = map_option db_IsFinished (idx (dp_Blocks d) blockIndex)"

definition dp_AbortDownloading :: "int \<Rightarrow> peer_ref \<Rightarrow> DownloadingPiece \<Rightarrow> DownloadingPiece option" where
  "dp_AbortDownloading blockIndex p = on_block blockIndex (db_Abort p)"

text \<open>
  A block that may be asked for: a free one, or in the end game one that a single slower
  peer is working on.
\<close>

definition pickable :: "peer_ref \<Rightarrow> PeerSpeed \<Rightarrow> bool \<Rightarrow> DownloadingBlock \<Rightarrow> bool" where
  "pickable peer speed endGame b \<longleftrightarrow>
     db_IsFree b \<or>
     endGame \<and> db_IsRequested b \<and> sint (db_downloadersCount b) < 2 \<and> db_speed b < speed \<and>
       db_lastDownloader b \<noteq> peer"

text \<open>The loop from block \<open>i\<close> on, with \<open>k\<close> blocks still wanted: the new blocks and the picks.\<close>

fun pick_loop :: "peer_ref \<Rightarrow> PeerSpeed \<Rightarrow> bool \<Rightarrow> int \<Rightarrow> int \<Rightarrow> int \<Rightarrow> DownloadingBlock list \<Rightarrow>
    DownloadingBlock list \<times> PieceBlock list" where
  "pick_loop peer speed endGame piece i k [] = ([], [])"
| "pick_loop peer speed endGame piece i k (b # bs) =
     (if k \<le> 0 then (b # bs, [])
      else if pickable peer speed endGame b then
        (let (bs', ps) = pick_loop peer speed endGame piece (i + 1) (k - 1) bs
         in (db_Request peer speed b # bs', NewPieceBlock piece i # ps))
      else
        (let (bs', ps) = pick_loop peer speed endGame piece (i + 1) k bs
         in (b # bs', ps)))"

definition PickBlocks :: "peer_ref \<Rightarrow> PeerSpeed \<Rightarrow> bool \<Rightarrow> int \<Rightarrow> DownloadingPiece \<Rightarrow>
    DownloadingPiece \<times> PieceBlock list" where
  "PickBlocks peer speed endGame orderLength d =
     (if \<not> endGame \<and> DownloadingBlocksCount d = TotalBlocks d then (d, [])
      else (let (bs, ps) = pick_loop peer speed endGame (dp_PieceIndex d) 0 orderLength (dp_Blocks d)
            in (d\<lparr>dp_Blocks := bs\<rparr>, ps)))"

section \<open>The picker\<close>

definition EndGameDPLimit :: int where "EndGameDPLimit = 4"

datatype PieceState = PieceNone | PieceDownloading | PieceHave

record PiecePicker =
  pp_pieceCount :: int
  pp_blocksInLastPiece :: int
  pp_pieceStatus :: "PieceState list"
  pp_downloadingPieces :: "DownloadingPiece list"

definition NewPiecePicker :: "int \<Rightarrow> int \<Rightarrow> PiecePicker option" where
  "NewPiecePicker pieceCount blocksInLastPiece =
     (if pieceCount < 0 then None
      else Some \<lparr>pp_pieceCount = pieceCount, pp_blocksInLastPiece = blocksInLastPiece,
                 pp_pieceStatus = replicate (nat pieceCount) PieceNone, pp_downloadingPieces = []\<rparr>)"

definition pp_BlocksInPiece :: "PiecePicker \<Rightarrow> int \<Rightarrow> int" where
  "pp_BlocksInPiece p = BlocksInPiece (pp_pieceCount p) (pp_blocksInLastPiece p)"

definition GetDownloadingPiece :: "PiecePicker \<Rightarrow> int \<Rightarrow> DownloadingPiece option" where
  "GetDownloadingPiece p index = find (\<lambda>d. dp_PieceIndex d = index) (pp_downloadingPieces p)"

text \<open>Updating through the pointer that \<open>GetDownloadingPiece\<close> returns.\<close>

fun modify_dp :: "int \<Rightarrow> (DownloadingPiece \<Rightarrow> DownloadingPiece option) \<Rightarrow> DownloadingPiece list \<Rightarrow>
    DownloadingPiece list option" where
  "modify_dp i f [] = Some []"
| "modify_dp i f (d # ds) =
     (if dp_PieceIndex d = i then map_option (\<lambda>d'. d' # ds) (f d)
      else map_option ((#) d) (modify_dp i f ds))"

definition on_piece :: "int \<Rightarrow> (DownloadingPiece \<Rightarrow> DownloadingPiece option) \<Rightarrow> PiecePicker \<Rightarrow> PiecePicker option" where
  "on_piece i f p =
     map_option (\<lambda>ds. p\<lparr>pp_downloadingPieces := ds\<rparr>) (modify_dp i f (pp_downloadingPieces p))"

definition MarkAsFinished :: "PieceBlock \<Rightarrow> PiecePicker \<Rightarrow> (PiecePicker \<times> bool) option" where
  "MarkAsFinished b p =
     (case GetDownloadingPiece p (pb_PieceIndex b) of
        None \<Rightarrow> Some (p, False)
      | Some _ \<Rightarrow>
          map_option (\<lambda>p'. (p', True)) (on_piece (pb_PieceIndex b) (dp_FinishBlock (pb_PieceBlock b)) p))"

definition MarkAsDownloading :: "PieceBlock \<Rightarrow> peer_ref \<Rightarrow> PiecePicker \<Rightarrow> (PiecePicker \<times> bool) option" where
  "MarkAsDownloading b peer p =
     (case GetDownloadingPiece p (pb_PieceIndex b) of
        None \<Rightarrow> Some (p, False)
      | Some _ \<Rightarrow>
          map_option (\<lambda>p'. (p', True))
            (on_piece (pb_PieceIndex b) (dp_RequestBlock (pb_PieceBlock b) peer PeerSpeedSlow) p))"

definition MarkAsWriting :: "PieceBlock \<Rightarrow> PiecePicker \<Rightarrow> (PiecePicker \<times> bool) option" where
  "MarkAsWriting b p =
     (case GetDownloadingPiece p (pb_PieceIndex b) of
        None \<Rightarrow> Some (p, False)
      | Some d \<Rightarrow>
          (case dp_WriteBlock (pb_PieceBlock b) d of
             None \<Rightarrow> None
           | Some (d', done) \<Rightarrow>
               map_option (\<lambda>p'. (p', done)) (on_piece (pb_PieceIndex b) (\<lambda>_. Some d') p)))"

definition AbortDownload :: "PieceBlock \<Rightarrow> peer_ref \<Rightarrow> PiecePicker \<Rightarrow> PiecePicker option" where
  "AbortDownload b peer p =
     (case GetDownloadingPiece p (pb_PieceIndex b) of
        None \<Rightarrow> Some p
      | Some _ \<Rightarrow> on_piece (pb_PieceIndex b) (dp_AbortDownloading (pb_PieceBlock b) peer) p)"

definition set_status :: "int \<Rightarrow> PieceState \<Rightarrow> PiecePicker \<Rightarrow> PiecePicker option" where
  "set_status i s p =
     map_option (\<lambda>st. p\<lparr>pp_pieceStatus := st\<rparr>) (upd (pp_pieceStatus p) i s)"

text \<open>Appending a fresh piece and marking it, as three of the operations do.\<close>

definition start_piece :: "int \<Rightarrow> PiecePicker \<Rightarrow> PiecePicker" where
  "start_piece i p =
     p\<lparr>pp_downloadingPieces := pp_downloadingPieces p @ [NewDownloadingPiece i (pp_BlocksInPiece p i)],
       pp_pieceStatus := (pp_pieceStatus p)[nat i := PieceDownloading]\<rparr>"

definition DownloadPiece :: "int \<Rightarrow> PiecePicker \<Rightarrow> PiecePicker option" where
  "DownloadPiece pieceIndex p =
     (case idx (pp_pieceStatus p) pieceIndex of
        None \<Rightarrow> None
      | Some PieceNone \<Rightarrow> Some (start_piece pieceIndex p)
      | Some _ \<Rightarrow> Some p)"

definition pieceAllowed :: "BitField option \<Rightarrow> int \<Rightarrow> bool" where
  "pieceAllowed available pieceIndex =
     (case available of
        None \<Rightarrow> True
      | Some bf \<Rightarrow> bf_size bf = 0 \<or> bf_GetBit bf pieceIndex)"

text \<open>
  The search starts at piece 0 each time: its cursor reaches the end only with the loop.
\<close>

definition ChooseNextPieceWithAvailability :: "BitField option \<Rightarrow> PiecePicker \<Rightarrow> PiecePicker option" where
  "ChooseNextPieceWithAvailability available p =
     map_option (\<lambda>i. start_piece (int i) p)
       (find (\<lambda>i. pp_pieceStatus p ! i = PieceNone \<and> pieceAllowed available (int i))
         [0..<length (pp_pieceStatus p)])"

definition ChooseNextPiece :: "PiecePicker \<Rightarrow> PiecePicker option" where
  "ChooseNextPiece p =
     map_option (\<lambda>i. start_piece (int i) p)
       (find (\<lambda>i. pp_pieceStatus p ! i = PieceNone) [0..<length (pp_pieceStatus p)])"

fun add_loop :: "peer_ref \<Rightarrow> PeerSpeed \<Rightarrow> bool \<Rightarrow> BitField option \<Rightarrow> int \<Rightarrow> DownloadingPiece list \<Rightarrow>
    DownloadingPiece list \<times> PieceBlock list" where
  "add_loop peer speed endGame available k [] = ([], [])"
| "add_loop peer speed endGame available k (d # ds) =
     (if \<not> pieceAllowed available (dp_PieceIndex d) then
        (let (ds', ps) = add_loop peer speed endGame available k ds in (d # ds', ps))
      else
        (let (d', ps) = PickBlocks peer speed endGame k d
         in if int (length ps) = k then (d' # ds, ps)
            else (let (ds', qs) = add_loop peer speed endGame available (k - int (length ps)) ds
                  in (d' # ds', ps @ qs))))"

definition addDownloadingBlocks :: "peer_ref \<Rightarrow> PeerSpeed \<Rightarrow> bool \<Rightarrow> BitField option \<Rightarrow> int \<Rightarrow> PiecePicker \<Rightarrow>
    PiecePicker \<times> PieceBlock list" where
  "addDownloadingBlocks peer speed endGame available orderLength p =
     (let (ds, ps) = add_loop peer speed endGame available orderLength (pp_downloadingPieces p)
      in (p\<lparr>pp_downloadingPieces := ds\<rparr>, ps))"

definition NumHave :: "PiecePicker \<Rightarrow> nat" where
  "NumHave p = length (filter (\<lambda>s. s = PieceHave) (pp_pieceStatus p))"

definition TotalPieces :: "PiecePicker \<Rightarrow> nat" where
  "TotalPieces p = length (pp_pieceStatus p)"

definition NumDownloadingPieces :: "PiecePicker \<Rightarrow> nat" where
  "NumDownloadingPieces p = length (pp_downloadingPieces p)"

definition IsEndGame :: "PiecePicker \<Rightarrow> bool" where
  "IsEndGame p \<longleftrightarrow>
     int (TotalPieces p) - int (NumHave p) - int (NumDownloadingPieces p) = 0 \<or>
     int (NumDownloadingPieces p) > EndGameDPLimit"

text \<open>The number of pieces not yet started bounds the recursion.\<close>

definition unstarted :: "PiecePicker \<Rightarrow> nat" where
  "unstarted p = length (filter (\<lambda>s. s = PieceNone) (pp_pieceStatus p))"

lemma add_status [simp]:
  "pp_pieceStatus (fst (addDownloadingBlocks peer speed eg av k p)) = pp_pieceStatus p"
  by (simp add: addDownloadingBlocks_def split: prod.splits)

lemma length_filter_update:
  "i < length xs \<Longrightarrow> P (xs ! i) \<Longrightarrow> \<not> P y \<Longrightarrow>
     length (filter P (xs[i := y])) < length (filter P xs)"
proof (induction xs arbitrary: i)
  case Nil
  then show ?case by simp
next
  case (Cons x xs)
  then show ?case by (cases i) auto
qed

lemma Choose_unstarted: "ChooseNextPieceWithAvailability av p = Some p' \<Longrightarrow> unstarted p' < unstarted p"
  by (auto simp: ChooseNextPieceWithAvailability_def unstarted_def start_piece_def find_Some_iff
      intro!: length_filter_update)

function PickPiecesWithAvailability :: "peer_ref \<Rightarrow> PeerSpeed \<Rightarrow> BitField option \<Rightarrow> int \<Rightarrow> PiecePicker \<Rightarrow>
    PiecePicker \<times> PieceBlock list" where
  "PickPiecesWithAvailability peer speed available orderLength p =
     (let (p1, ps) = addDownloadingBlocks peer speed False available orderLength p;
          (p2, qs) =
            (if speed \<noteq> PeerSpeedSlow \<and> int (length ps) < orderLength \<and> IsEndGame p1
             then addDownloadingBlocks peer speed True available (orderLength - int (length ps)) p1
             else (p1, []));
          numRequested = int (length ps) + int (length qs)
      in if numRequested < orderLength then
           (case ChooseNextPieceWithAvailability available p2 of
              None \<Rightarrow> (p2, ps @ qs)
            | Some p3 \<Rightarrow>
                (let (p4, rs) = PickPiecesWithAvailability peer speed available (orderLength - numRequested) p3
                 in (p4, ps @ qs @ rs)))
         else (p2, ps @ qs))"
  by pat_completeness auto
termination
proof (relation "measure (\<lambda>(peer, speed, available, orderLength, p). unstarted p)", goal_cases)
  case 1
  show ?case by simp
next
  case (2 peer speed available orderLength p a p1 ps b p2 qs numRequested p3)
  have "unstarted p1 = unstarted p"
    using 2(1,2) add_status [of peer speed False available orderLength p]
    by (metis fst_conv unstarted_def)
  moreover have "unstarted p2 = unstarted p1"
    using 2(3,4) add_status [of peer speed True available "orderLength - int (length ps)" p1]
    by (metis fst_conv unstarted_def)
  moreover have "unstarted p3 < unstarted p2"
    using 2(7) by (rule Choose_unstarted)
  ultimately show ?case by simp
qed

declare PickPiecesWithAvailability.simps [simp del]

definition PickPieces :: "peer_ref \<Rightarrow> PeerSpeed \<Rightarrow> int \<Rightarrow> PiecePicker \<Rightarrow> PiecePicker \<times> PieceBlock list" where
  "PickPieces peer speed orderLength p = PickPiecesWithAvailability peer speed None orderLength p"

definition drop_piece :: "int \<Rightarrow> PiecePicker \<Rightarrow> PiecePicker" where
  "drop_piece i p =
     p\<lparr>pp_downloadingPieces := filter (\<lambda>d. dp_PieceIndex d \<noteq> i) (pp_downloadingPieces p)\<rparr>"

definition RestorePiece :: "int \<Rightarrow> PiecePicker \<Rightarrow> PiecePicker option" where
  "RestorePiece pieceIndex p =
     set_status pieceIndex PieceNone
       (case GetDownloadingPiece p pieceIndex of None \<Rightarrow> p | Some _ \<Rightarrow> drop_piece pieceIndex p)"

definition WeHave :: "int \<Rightarrow> PiecePicker \<Rightarrow> PiecePicker option" where
  "WeHave pieceIndex p = set_status pieceIndex PieceHave (drop_piece pieceIndex p)"

definition RestoreHave :: "int \<Rightarrow> PiecePicker \<Rightarrow> PiecePicker option" where
  "RestoreHave pieceIndex p = set_status pieceIndex PieceHave p"

definition HavePiece :: "int \<Rightarrow> PiecePicker \<Rightarrow> bool option" where
  "HavePiece pieceIndex p = map_option (\<lambda>s. s = PieceHave) (idx (pp_pieceStatus p) pieceIndex)"

definition IsPieceFinished :: "int \<Rightarrow> PiecePicker \<Rightarrow> bool option" where
  "IsPieceFinished pieceIndex p =
     (case idx (pp_pieceStatus p) pieceIndex of
        None \<Rightarrow> None
      | Some PieceNone \<Rightarrow> Some False
      | Some PieceHave \<Rightarrow> Some True
      | Some PieceDownloading \<Rightarrow>
          (case GetDownloadingPiece p pieceIndex of
             None \<Rightarrow> Some False
           | Some d \<Rightarrow> Some (dp_blocksCount d = int (FinishedBlocksCount d) + int (WritingBlocksCount d))))"

definition IsBlockDownloaded :: "PieceBlock \<Rightarrow> PiecePicker \<Rightarrow> bool option" where
  "IsBlockDownloaded b p =
     (case IsPieceFinished (pb_PieceIndex b) p of
        None \<Rightarrow> None
      | Some True \<Rightarrow> Some True
      | Some False \<Rightarrow>
          (case GetDownloadingPiece p (pb_PieceIndex b) of
             None \<Rightarrow> Some False
           | Some d \<Rightarrow> dp_IsDownloaded (pb_PieceBlock b) d))"

definition WeHaveBlock :: "PieceBlock \<Rightarrow> PiecePicker \<Rightarrow> PiecePicker option" where
  "WeHaveBlock b p =
     (let p1 = (case GetDownloadingPiece p (pb_PieceIndex b) of
                  Some _ \<Rightarrow> Some p
                | None \<Rightarrow>
                    if 0 \<le> pb_PieceIndex b \<and> pb_PieceIndex b < int (length (pp_pieceStatus p))
                    then Some (start_piece (pb_PieceIndex b) p) else None)
      in case p1 of
           None \<Rightarrow> None
         | Some p1 \<Rightarrow> on_piece (pb_PieceIndex b) (dp_FinishBlock (pb_PieceBlock b)) p1)"

section \<open>Invariant\<close>

text \<open>
  The pieces in progress are exactly those with state \<open>PieceDownloading\<close>, once each, with
  as many blocks as the enumerator says.
\<close>

definition dp_ok :: "PiecePicker \<Rightarrow> DownloadingPiece \<Rightarrow> bool" where
  "dp_ok p d \<longleftrightarrow>
     0 \<le> dp_PieceIndex d \<and> dp_PieceIndex d < int (length (pp_pieceStatus p)) \<and>
     pp_pieceStatus p ! nat (dp_PieceIndex d) = PieceDownloading \<and>
     dp_blocksCount d = pp_BlocksInPiece p (dp_PieceIndex d) \<and>
     int (length (dp_Blocks d)) = dp_blocksCount d"

definition picker_ok :: "PiecePicker \<Rightarrow> bool" where
  "picker_ok p \<longleftrightarrow>
     pp_pieceCount p = int (length (pp_pieceStatus p)) \<and>
     0 < pp_blocksInLastPiece p \<and> pp_blocksInLastPiece p \<le> BlocksPerPiece \<and>
     distinct (map dp_PieceIndex (pp_downloadingPieces p)) \<and>
     (\<forall>d\<in>set (pp_downloadingPieces p). dp_ok p d) \<and>
     (\<forall>i < length (pp_pieceStatus p). pp_pieceStatus p ! i = PieceDownloading \<longrightarrow>
        int i \<in> dp_PieceIndex ` set (pp_downloadingPieces p))"

lemma BlocksInPiece_pos: "picker_ok p \<Longrightarrow> 0 < pp_BlocksInPiece p i \<and> pp_BlocksInPiece p i \<le> BlocksPerPiece"
  by (simp add: picker_ok_def pp_BlocksInPiece_def BlocksInPiece_def BlocksPerPiece_eq)

lemma NewPiecePicker_ok:
  "NewPiecePicker n blast = Some p \<Longrightarrow> 0 < blast \<Longrightarrow> blast \<le> BlocksPerPiece \<Longrightarrow> picker_ok p"
  by (auto simp: NewPiecePicker_def picker_ok_def split: if_splits)

text \<open>Changing blocks only keeps the invariant.\<close>

definition same_shape :: "DownloadingPiece list \<Rightarrow> DownloadingPiece list \<Rightarrow> bool" where
  "same_shape ds es \<longleftrightarrow>
     map (\<lambda>d. (dp_PieceIndex d, dp_blocksCount d, length (dp_Blocks d))) ds =
     map (\<lambda>d. (dp_PieceIndex d, dp_blocksCount d, length (dp_Blocks d))) es"

lemma same_shape_refl [simp]: "same_shape ds ds"
  by (simp add: same_shape_def)

lemma same_shape_trans: "same_shape a b \<Longrightarrow> same_shape b c \<Longrightarrow> same_shape a c"
  by (simp add: same_shape_def)

lemma same_shape_indices: "same_shape ds es \<Longrightarrow> map dp_PieceIndex ds = map dp_PieceIndex es"
proof -
  assume "same_shape ds es"
  then have "map fst (map (\<lambda>d. (dp_PieceIndex d, dp_blocksCount d, length (dp_Blocks d))) ds) =
    map fst (map (\<lambda>d. (dp_PieceIndex d, dp_blocksCount d, length (dp_Blocks d))) es)"
    by (simp only: same_shape_def)
  then show ?thesis by (simp add: comp_def)
qed

lemma same_shape_mem:
  assumes "same_shape ds es" and "e \<in> set es"
  shows "\<exists>d\<in>set ds. dp_PieceIndex d = dp_PieceIndex e \<and> dp_blocksCount d = dp_blocksCount e \<and>
    length (dp_Blocks d) = length (dp_Blocks e)"
proof -
  have "(dp_PieceIndex e, dp_blocksCount e, length (dp_Blocks e)) \<in>
      set (map (\<lambda>d. (dp_PieceIndex d, dp_blocksCount d, length (dp_Blocks d))) ds)"
    using assms by (force simp: same_shape_def)
  then show ?thesis by auto
qed

lemma picker_ok_blocks:
  assumes ok: "picker_ok p" and s: "same_shape (pp_downloadingPieces p) ds"
  shows "picker_ok (p\<lparr>pp_downloadingPieces := ds\<rparr>)"
proof -
  note idx = same_shape_indices [OF s]
  have "dp_ok (p\<lparr>pp_downloadingPieces := ds\<rparr>) e" if "e \<in> set ds" for e
  proof -
    obtain d where "d \<in> set (pp_downloadingPieces p)" "dp_PieceIndex d = dp_PieceIndex e"
      "dp_blocksCount d = dp_blocksCount e" "length (dp_Blocks d) = length (dp_Blocks e)"
      using same_shape_mem [OF s \<open>e \<in> set ds\<close>] by auto
    moreover from this ok have "dp_ok p d" by (simp add: picker_ok_def)
    ultimately show ?thesis by (simp add: dp_ok_def pp_BlocksInPiece_def)
  qed
  moreover have "dp_PieceIndex ` set ds = dp_PieceIndex ` set (pp_downloadingPieces p)"
    using idx by (metis list.set_map)
  ultimately show ?thesis using ok idx by (simp add: picker_ok_def)
qed

lemma on_block_shape:
  "on_block i f d = Some d' \<Longrightarrow> dp_PieceIndex d' = dp_PieceIndex d \<and> dp_blocksCount d' = dp_blocksCount d \<and>
     length (dp_Blocks d') = length (dp_Blocks d)"
  by (auto simp: on_block_def split: option.splits)

definition keeps_shape :: "(DownloadingPiece \<Rightarrow> DownloadingPiece option) \<Rightarrow> DownloadingPiece \<Rightarrow> bool" where
  "keeps_shape f d \<longleftrightarrow>
     (\<forall>d'. f d = Some d' \<longrightarrow> dp_PieceIndex d' = dp_PieceIndex d \<and> dp_blocksCount d' = dp_blocksCount d \<and>
        length (dp_Blocks d') = length (dp_Blocks d))"

lemma keeps_shape_on_block [simp]: "keeps_shape (on_block i f) d"
  by (auto simp: keeps_shape_def dest: on_block_shape)

lemma modify_dp_shape:
  "modify_dp i f ds = Some es \<Longrightarrow> \<forall>d\<in>set ds. dp_PieceIndex d = i \<longrightarrow> keeps_shape f d \<Longrightarrow> same_shape ds es"
proof (induction ds arbitrary: es)
  case Nil
  then show ?case by simp
next
  case (Cons d ds)
  show ?case
  proof (cases "dp_PieceIndex d = i")
    case True
    with Cons.prems(1) obtain d' where "f d = Some d'" "es = d' # ds" by auto
    moreover have "keeps_shape f d" using Cons.prems(2) True by simp
    ultimately show ?thesis by (simp add: keeps_shape_def same_shape_def)
  next
    case False
    then obtain es' where "es = d # es'" "modify_dp i f ds = Some es'"
      using Cons.prems(1) by auto
    with Cons.IH Cons.prems(2) show ?thesis by (simp add: same_shape_def)
  qed
qed

lemma on_piece_ok:
  assumes ok: "picker_ok p" and o: "on_piece i f p = Some p'"
    and k: "\<forall>d\<in>set (pp_downloadingPieces p). dp_PieceIndex d = i \<longrightarrow> keeps_shape f d"
  shows "picker_ok p'"
proof -
  obtain ds where ds: "modify_dp i f (pp_downloadingPieces p) = Some ds"
    and p': "p' = p\<lparr>pp_downloadingPieces := ds\<rparr>"
    using o by (auto simp: on_piece_def)
  show ?thesis unfolding p' by (rule picker_ok_blocks [OF ok modify_dp_shape [OF ds k]])
qed

lemmas block_ops = dp_FinishBlock_def dp_RequestBlock_def dp_AbortDownloading_def

lemma GetDownloadingPiece_Some:
  "GetDownloadingPiece p i = Some d \<Longrightarrow> d \<in> set (pp_downloadingPieces p) \<and> dp_PieceIndex d = i"
  by (auto simp: GetDownloadingPiece_def find_Some_iff)

lemma GetDownloadingPiece_None:
  "GetDownloadingPiece p i = None \<longleftrightarrow> i \<notin> dp_PieceIndex ` set (pp_downloadingPieces p)"
  by (auto simp: GetDownloadingPiece_def find_None_iff)

lemma MarkAsFinished_ok: "picker_ok p \<Longrightarrow> MarkAsFinished b p = Some (p', r) \<Longrightarrow> picker_ok p'"
  by (auto simp: MarkAsFinished_def block_ops split: option.splits
      elim!: on_piece_ok)

lemma MarkAsDownloading_ok: "picker_ok p \<Longrightarrow> MarkAsDownloading b peer p = Some (p', r) \<Longrightarrow> picker_ok p'"
  by (auto simp: MarkAsDownloading_def block_ops split: option.splits
      elim!: on_piece_ok)

lemma AbortDownload_ok: "picker_ok p \<Longrightarrow> AbortDownload b peer p = Some p' \<Longrightarrow> picker_ok p'"
  by (auto simp: AbortDownload_def block_ops split: option.splits
      elim!: on_piece_ok)

lemma dp_WriteBlock_shape:
  "dp_WriteBlock i d = Some (d', r) \<Longrightarrow> dp_PieceIndex d' = dp_PieceIndex d \<and> dp_blocksCount d' = dp_blocksCount d \<and>
     length (dp_Blocks d') = length (dp_Blocks d)"
  by (auto simp: dp_WriteBlock_def split: option.splits if_splits dest: on_block_shape)

lemma unique_dp:
  "picker_ok p \<Longrightarrow> d \<in> set (pp_downloadingPieces p) \<Longrightarrow> e \<in> set (pp_downloadingPieces p) \<Longrightarrow>
     dp_PieceIndex d = dp_PieceIndex e \<Longrightarrow> d = e"
  unfolding picker_ok_def by (metis distinct_map_eqD)

lemma MarkAsWriting_ok:
  assumes ok: "picker_ok p" and m: "MarkAsWriting b p = Some (p', r)"
  shows "picker_ok p'"
proof (cases "GetDownloadingPiece p (pb_PieceIndex b)")
  case None
  with m ok show ?thesis by (simp add: MarkAsWriting_def)
next
  case (Some d)
  then obtain d' where d': "dp_WriteBlock (pb_PieceBlock b) d = Some (d', r)"
    "on_piece (pb_PieceIndex b) (\<lambda>_. Some d') p = Some p'"
    using m by (auto simp: MarkAsWriting_def split: option.splits)
  note d = GetDownloadingPiece_Some [OF Some]
  have "e = d" if "e \<in> set (pp_downloadingPieces p)" "dp_PieceIndex e = pb_PieceIndex b" for e
    using unique_dp [OF ok that(1)] d that(2) by simp
  then have "\<forall>e\<in>set (pp_downloadingPieces p). dp_PieceIndex e = pb_PieceIndex b \<longrightarrow>
      keeps_shape (\<lambda>_. Some d') e"
    using dp_WriteBlock_shape [OF d'(1)] by (auto simp: keeps_shape_def)
  then show ?thesis by (rule on_piece_ok [OF ok d'(2)])
qed

lemma start_piece_ok:
  assumes ok: "picker_ok p" and i: "0 \<le> i" "i < int (length (pp_pieceStatus p))"
    and new: "i \<notin> dp_PieceIndex ` set (pp_downloadingPieces p)"
  shows "picker_ok (start_piece i p)"
proof -
  define q where "q = start_piece i p"
  have q: "pp_pieceCount q = pp_pieceCount p" "pp_blocksInLastPiece q = pp_blocksInLastPiece p"
    "pp_pieceStatus q = (pp_pieceStatus p)[nat i := PieceDownloading]"
    "pp_downloadingPieces q = pp_downloadingPieces p @ [NewDownloadingPiece i (pp_BlocksInPiece p i)]"
    "pp_BlocksInPiece q = pp_BlocksInPiece p"
    by (simp_all add: q_def start_piece_def pp_BlocksInPiece_def)
  have "dp_ok q d" if "d \<in> set (pp_downloadingPieces p)" for d
  proof -
    have "dp_ok p d" using ok that by (simp add: picker_ok_def)
    moreover have "nat i < length (pp_pieceStatus p)" using i by simp
    ultimately show ?thesis by (cases "nat (dp_PieceIndex d) = nat i") (simp_all add: dp_ok_def q)
  qed
  moreover have "dp_ok q (NewDownloadingPiece i (pp_BlocksInPiece p i))"
    using i BlocksInPiece_pos [OF ok, of i] by (simp add: dp_ok_def NewDownloadingPiece_def q)
  moreover have "int j \<in> dp_PieceIndex ` set (pp_downloadingPieces q)"
    if "j < length (pp_pieceStatus q)" "pp_pieceStatus q ! j = PieceDownloading" for j
    using that ok i by (cases "j = nat i") (auto simp: picker_ok_def q NewDownloadingPiece_def)
  ultimately show ?thesis
    using ok new unfolding q_def [symmetric]
    by (auto simp: picker_ok_def q NewDownloadingPiece_def)
qed

lemma status_index:
  "picker_ok p \<Longrightarrow> d \<in> set (pp_downloadingPieces p) \<Longrightarrow>
     pp_pieceStatus p ! nat (dp_PieceIndex d) = PieceDownloading"
  by (simp add: picker_ok_def dp_ok_def)

lemma not_downloading_new:
  "picker_ok p \<Longrightarrow> pp_pieceStatus p ! nat i \<noteq> PieceDownloading \<Longrightarrow>
     i \<notin> dp_PieceIndex ` set (pp_downloadingPieces p)"
  by (auto dest: status_index)

lemma not_downloading_new_nat:
  "picker_ok p \<Longrightarrow> pp_pieceStatus p ! i = PieceNone \<Longrightarrow>
     int i \<notin> dp_PieceIndex ` set (pp_downloadingPieces p)"
  using not_downloading_new [of p "int i"] by simp

lemma DownloadPiece_ok: "picker_ok p \<Longrightarrow> DownloadPiece i p = Some p' \<Longrightarrow> picker_ok p'"
proof -
  assume ok: "picker_ok p" and d: "DownloadPiece i p = Some p'"
  from d consider "p' = p" | "idx (pp_pieceStatus p) i = Some PieceNone" "p' = start_piece i p"
    by (auto simp: DownloadPiece_def split: option.splits PieceState.splits)
  then show ?thesis
  proof cases
    case 2
    with not_downloading_new [OF ok, of i] show ?thesis
      by (auto simp: idx_Some_iff intro!: start_piece_ok [OF ok])
  qed (simp add: ok)
qed

lemma Choose_ok: "picker_ok p \<Longrightarrow> ChooseNextPieceWithAvailability av p = Some p' \<Longrightarrow> picker_ok p'"
  using not_downloading_new_nat [of p] start_piece_ok [of p]
  by (fastforce simp: ChooseNextPieceWithAvailability_def find_Some_iff)

lemma ChooseNextPiece_ok: "picker_ok p \<Longrightarrow> ChooseNextPiece p = Some p' \<Longrightarrow> picker_ok p'"
  using not_downloading_new_nat [of p] start_piece_ok [of p]
  by (fastforce simp: ChooseNextPiece_def find_Some_iff)

lemma drop_status_ok:
  assumes ok: "picker_ok p" and s: "set_status i s (drop_piece i p) = Some p'" and st: "s \<noteq> PieceDownloading"
  shows "picker_ok p'"
proof -
  have i: "0 \<le> i" "i < int (length (pp_pieceStatus p))"
    and p': "p' = (drop_piece i p)\<lparr>pp_pieceStatus := (pp_pieceStatus p)[nat i := s]\<rparr>"
    using s by (auto simp: set_status_def drop_piece_def upd_Some_iff)
  have "dp_ok p' d" if "d \<in> set (pp_downloadingPieces p)" "dp_PieceIndex d \<noteq> i" for d
    using ok that i by (auto simp: picker_ok_def dp_ok_def p' drop_piece_def pp_BlocksInPiece_def nth_list_update)
  moreover have "int j \<in> dp_PieceIndex ` set (pp_downloadingPieces p')"
    if "j < length (pp_pieceStatus p')" "pp_pieceStatus p' ! j = PieceDownloading" for j
  proof -
    have "j \<noteq> nat i" using that st i by (auto simp: p')
    then have "pp_pieceStatus p ! j = PieceDownloading" "int j \<noteq> i" using that i by (auto simp: p')
    with ok that(1) show ?thesis by (auto simp: picker_ok_def p' drop_piece_def)
  qed
  moreover have "distinct (map dp_PieceIndex (filter (\<lambda>d. dp_PieceIndex d \<noteq> i) (pp_downloadingPieces p)))"
    using ok by (simp add: picker_ok_def distinct_map_filter)
  ultimately show ?thesis using ok by (auto simp: picker_ok_def p' drop_piece_def)
qed

lemma WeHave_ok: "picker_ok p \<Longrightarrow> WeHave i p = Some p' \<Longrightarrow> picker_ok p'"
  by (rule drop_status_ok [of p i PieceHave]) (simp_all add: WeHave_def)

lemma drop_absent: "GetDownloadingPiece p i = None \<Longrightarrow> drop_piece i p = p"
proof -
  assume "GetDownloadingPiece p i = None"
  then have "\<forall>d\<in>set (pp_downloadingPieces p). dp_PieceIndex d \<noteq> i"
    by (auto simp: GetDownloadingPiece_None)
  then have "filter (\<lambda>d. dp_PieceIndex d \<noteq> i) (pp_downloadingPieces p) = pp_downloadingPieces p"
    by (simp add: filter_id_conv)
  then show ?thesis by (simp add: drop_piece_def)
qed

lemma RestorePiece_ok: "picker_ok p \<Longrightarrow> RestorePiece i p = Some p' \<Longrightarrow> picker_ok p'"
  by (rule drop_status_ok [of p i PieceNone])
    (auto simp: RestorePiece_def drop_absent split: option.splits)

text \<open>\<open>RestoreHave\<close> leaves the list alone: it is for pieces that are not in progress.\<close>

lemma RestoreHave_ok:
  "picker_ok p \<Longrightarrow> RestoreHave i p = Some p' \<Longrightarrow> GetDownloadingPiece p i = None \<Longrightarrow> picker_ok p'"
  by (rule drop_status_ok [of p i PieceHave]) (simp_all add: RestoreHave_def drop_absent)

lemma WeHaveBlock_ok:
  assumes ok: "picker_ok p" and w: "WeHaveBlock b p = Some p'"
  shows "picker_ok p'"
proof -
  obtain p1 where p1: "on_piece (pb_PieceIndex b) (dp_FinishBlock (pb_PieceBlock b)) p1 = Some p'"
    and "picker_ok p1"
    using w ok start_piece_ok [OF ok, of "pb_PieceIndex b"]
    by (auto simp: WeHaveBlock_def Let_def GetDownloadingPiece_None split: option.splits if_splits)
  then show ?thesis by (auto simp: block_ops elim!: on_piece_ok)
qed

section \<open>What a pick does\<close>

definition fetch :: "DownloadingPiece list \<Rightarrow> PieceBlock \<Rightarrow> DownloadingBlock option" where
  "fetch ds pb =
     (case find (\<lambda>d. dp_PieceIndex d = pb_PieceIndex pb) ds of
        None \<Rightarrow> None
      | Some d \<Rightarrow> idx (dp_Blocks d) (pb_PieceBlock pb))"

lemma NewPieceBlock_eq_iff:
  "pb = NewPieceBlock piece i \<longleftrightarrow> pb_PieceIndex pb = piece \<and> pb_PieceBlock pb = i"
  by (auto simp: NewPieceBlock_def intro!: PieceBlock.equality)

lemma NewPieceBlock_sel [simp]:
  "pb_PieceIndex (NewPieceBlock piece i) = piece" "pb_PieceBlock (NewPieceBlock piece i) = i"
  by (simp_all add: NewPieceBlock_def)

text \<open>
  The picks of a loop: exactly the blocks it turned into requests, in order, each one
  pickable before; all pickable ones unless the order was filled.
\<close>

lemma pick_loop_spec:
  assumes "pick_loop peer speed eg piece i k bs = (bs', ps)"
  shows "length bs' = length bs \<and> int (length ps) \<le> max 0 k \<and> distinct ps \<and>
    (\<forall>pb\<in>set ps. pb_PieceIndex pb = piece \<and> i \<le> pb_PieceBlock pb \<and> pb_PieceBlock pb < i + int (length bs)) \<and>
    (\<forall>j < length bs.
       if NewPieceBlock piece (i + int j) \<in> set ps
       then pickable peer speed eg (bs ! j) \<and> bs' ! j = db_Request peer speed (bs ! j)
       else bs' ! j = bs ! j \<and> (int (length ps) < k \<longrightarrow> \<not> pickable peer speed eg (bs ! j)))"
  using assms
proof (induction bs arbitrary: i k bs' ps)
  case Nil
  then show ?case by simp
next
  case (Cons b bs)
  show ?case
  proof (cases "0 < k")
    case False
    with Cons.prems show ?thesis by simp
  next
    case True
    define k' where "k' = (if pickable peer speed eg b then k - 1 else k)"
    obtain cs qs where r: "pick_loop peer speed eg piece (i + 1) k' bs = (cs, qs)" by fastforce
    note IH = Cons.IH [OF r]
    have rng: "i < pb_PieceBlock pb" if "pb \<in> set qs" for pb using IH that by fastforce
    then have notin: "NewPieceBlock piece i \<notin> set qs" by fastforce
    have bs'ps: "bs' = (if pickable peer speed eg b then db_Request peer speed b else b) # cs"
      "ps = (if pickable peer speed eg b then NewPieceBlock piece i # qs else qs)"
      using Cons.prems True r by (auto simp: k'_def split: if_splits)
    have "if NewPieceBlock piece (i + int j) \<in> set ps
       then pickable peer speed eg ((b # bs) ! j) \<and> bs' ! j = db_Request peer speed ((b # bs) ! j)
       else bs' ! j = (b # bs) ! j \<and> (int (length ps) < k \<longrightarrow> \<not> pickable peer speed eg ((b # bs) ! j))"
      if j: "j < length (b # bs)" for j
    proof (cases j)
      case 0
      with notin show ?thesis by (auto simp: bs'ps)
    next
      case (Suc m)
      have "NewPieceBlock piece (i + int j) \<noteq> NewPieceBlock piece i"
        by (simp add: NewPieceBlock_def Suc)
      then have "NewPieceBlock piece (i + int j) \<in> set ps \<longleftrightarrow> NewPieceBlock piece (i + 1 + int m) \<in> set qs"
        by (simp add: bs'ps Suc algebra_simps)
      moreover have "int (length ps) < k \<longleftrightarrow> int (length qs) < k'"
        by (auto simp: bs'ps k'_def)
      ultimately show ?thesis using IH j Suc by (simp add: bs'ps)
    qed
    moreover have "pb_PieceIndex pb = piece \<and> i \<le> pb_PieceBlock pb \<and> pb_PieceBlock pb < i + int (length (b # bs))"
      if "pb \<in> set ps" for pb
    proof (cases "pb \<in> set qs")
      case True
      with IH rng [OF True] show ?thesis by auto
    next
      case False
      with that have "pb = NewPieceBlock piece i" by (simp add: bs'ps split: if_splits)
      then show ?thesis by simp
    qed
    moreover have "length bs' = length (b # bs)" "distinct ps" "int (length ps) \<le> max 0 k"
      using IH notin True by (auto simp: bs'ps k'_def)
    ultimately show ?thesis by blast
  qed
qed

lemma not_all_requested:
  "calculateStateBlocks d StateRequested = TotalBlocks d \<Longrightarrow> b \<in> set (dp_Blocks d) \<Longrightarrow> db_IsRequested b"
proof -
  assume a: "calculateStateBlocks d StateRequested = TotalBlocks d" and b: "b \<in> set (dp_Blocks d)"
  show ?thesis
  proof (rule ccontr)
    assume n: "\<not> db_IsRequested b"
    have "length (filter (\<lambda>b. db_state b = StateRequested) (dp_Blocks d)) < length (dp_Blocks d)"
      using n by (intro length_filter_less [OF b]) (simp add: db_IsRequested_def)
    with a show False by (simp add: calculateStateBlocks_def TotalBlocks_def)
  qed
qed

lemma PickBlocks_spec:
  assumes "PickBlocks peer speed eg k d = (d', ps)"
  shows "dp_PieceIndex d' = dp_PieceIndex d \<and> dp_blocksCount d' = dp_blocksCount d \<and>
    length (dp_Blocks d') = length (dp_Blocks d) \<and> int (length ps) \<le> max 0 k \<and> distinct ps \<and>
    (\<forall>pb\<in>set ps. pb_PieceIndex pb = dp_PieceIndex d \<and> 0 \<le> pb_PieceBlock pb \<and>
       pb_PieceBlock pb < int (length (dp_Blocks d))) \<and>
    (\<forall>j < length (dp_Blocks d).
       if NewPieceBlock (dp_PieceIndex d) (int j) \<in> set ps
       then pickable peer speed eg (dp_Blocks d ! j) \<and>
            dp_Blocks d' ! j = db_Request peer speed (dp_Blocks d ! j)
       else dp_Blocks d' ! j = dp_Blocks d ! j \<and>
            (int (length ps) < k \<longrightarrow> \<not> pickable peer speed eg (dp_Blocks d ! j)))"
proof (cases "\<not> eg \<and> DownloadingBlocksCount d = TotalBlocks d")
  case True
  then have "\<not> pickable peer speed eg b" if "b \<in> set (dp_Blocks d)" for b
    using not_all_requested [OF _ that] by (auto simp: DownloadingBlocksCount_def pickable_def db_states)
  with True assms show ?thesis by (simp add: PickBlocks_def)
next
  case False
  then obtain bs where r: "pick_loop peer speed eg (dp_PieceIndex d) 0 k (dp_Blocks d) = (bs, ps)"
    and d': "d' = d\<lparr>dp_Blocks := bs\<rparr>"
    using assms by (auto simp: PickBlocks_def split: prod.splits)
  show ?thesis using pick_loop_spec [OF r] by (simp add: d')
qed

text \<open>The same for one piece, in terms of \<open>fetch\<close>.\<close>

lemma PickBlocks_idx:
  assumes p: "PickBlocks peer speed eg k d = (d', ps)" and pb: "pb_PieceIndex pb = dp_PieceIndex d"
  shows "if pb \<in> set ps
    then \<exists>b. idx (dp_Blocks d) (pb_PieceBlock pb) = Some b \<and> pickable peer speed eg b \<and>
           idx (dp_Blocks d') (pb_PieceBlock pb) = Some (db_Request peer speed b)
    else idx (dp_Blocks d') (pb_PieceBlock pb) = idx (dp_Blocks d) (pb_PieceBlock pb) \<and>
         (\<forall>b. idx (dp_Blocks d) (pb_PieceBlock pb) = Some b \<and> int (length ps) < k \<longrightarrow>
            \<not> pickable peer speed eg b)"
proof (cases "0 \<le> pb_PieceBlock pb \<and> pb_PieceBlock pb < int (length (dp_Blocks d))")
  case True
  then obtain j where j: "pb_PieceBlock pb = int j" "j < length (dp_Blocks d)"
    using nonneg_int_cases by fastforce
  have "pb = NewPieceBlock (dp_PieceIndex d) (int j)"
    using pb j by (simp add: NewPieceBlock_eq_iff)
  with PickBlocks_spec [OF p] j show ?thesis by (auto simp: idx_def)
next
  case False
  with PickBlocks_spec [OF p] show ?thesis by (auto simp: idx_def)
qed

lemma fetch_Cons:
  "fetch (d # ds) pb =
     (if dp_PieceIndex d = pb_PieceIndex pb then idx (dp_Blocks d) (pb_PieceBlock pb) else fetch ds pb)"
  by (simp add: fetch_def)

lemma fetch_Nil [simp]: "fetch [] pb = None"
  by (simp add: fetch_def)

lemma fetch_index: "fetch ds pb = Some b \<Longrightarrow> pb_PieceIndex pb \<in> dp_PieceIndex ` set ds"
  by (induction ds) (auto simp: fetch_Cons split: if_splits)

text \<open>
  What a pick may do to the blocks, as a relation between the state before and after:
  \<open>picked\<close> blocks were allowed and pickable and are now requests of this peer, all others
  are as they were.
\<close>

definition picked_to :: "peer_ref \<Rightarrow> PeerSpeed \<Rightarrow> bool \<Rightarrow> BitField option \<Rightarrow> DownloadingPiece list \<Rightarrow>
    PieceBlock list \<Rightarrow> DownloadingPiece list \<Rightarrow> bool" where
  "picked_to peer speed eg av ds ps es \<longleftrightarrow>
     same_shape ds es \<and> distinct ps \<and>
     (\<forall>pb\<in>set ps. pieceAllowed av (pb_PieceIndex pb) \<and>
        (\<exists>b. fetch ds pb = Some b \<and> pickable peer speed eg b \<and> fetch es pb = Some (db_Request peer speed b))) \<and>
     (\<forall>pb. pb \<notin> set ps \<longrightarrow> fetch es pb = fetch ds pb)"

definition exhausted :: "peer_ref \<Rightarrow> PeerSpeed \<Rightarrow> bool \<Rightarrow> BitField option \<Rightarrow> DownloadingPiece list \<Rightarrow>
    PieceBlock list \<Rightarrow> bool" where
  "exhausted peer speed eg av ds ps \<longleftrightarrow>
     (\<forall>pb b. fetch ds pb = Some b \<and> pieceAllowed av (pb_PieceIndex pb) \<and> pickable peer speed eg b \<longrightarrow>
        pb \<in> set ps)"

lemma picked_to_refl: "picked_to peer speed eg av ds [] ds"
  by (simp add: picked_to_def)

lemma picked_to_skip:
  assumes r: "picked_to peer speed eg av ds ps es" and new: "dp_PieceIndex d \<notin> dp_PieceIndex ` set ds"
  shows "picked_to peer speed eg av (d # ds) ps (d # es)"
proof -
  have psi: "dp_PieceIndex d \<noteq> pb_PieceIndex pb" if "pb \<in> set ps" for pb
    using r that new fetch_index unfolding picked_to_def by metis
  have "fetch (d # xs) pb = fetch xs pb" if "pb \<in> set ps" for pb xs
    using psi [OF that] by (simp add: fetch_Cons)
  moreover have "fetch (d # es) pb = fetch (d # ds) pb" if "pb \<notin> set ps" for pb
    using r that by (simp add: picked_to_def fetch_Cons)
  ultimately show ?thesis using r unfolding picked_to_def by (simp add: same_shape_def)
qed

lemma picked_to_one:
  assumes p: "PickBlocks peer speed eg k d = (d', ps)" and a: "pieceAllowed av (dp_PieceIndex d)"
    and r: "picked_to peer speed eg av ds qs es" and new: "dp_PieceIndex d \<notin> dp_PieceIndex ` set ds"
  shows "picked_to peer speed eg av (d # ds) (ps @ qs) (d' # es)"
proof -
  note spec = PickBlocks_spec [OF p] and one = PickBlocks_idx [OF p]
  have psi: "pb_PieceIndex pb = dp_PieceIndex d" if "pb \<in> set ps" for pb using spec that by blast
  have qsi: "pb_PieceIndex pb \<noteq> dp_PieceIndex d" if "pb \<in> set qs" for pb
    using r that new fetch_index unfolding picked_to_def by metis
  have "\<exists>b. fetch (d # ds) pb = Some b \<and> pickable peer speed eg b \<and>
      fetch (d' # es) pb = Some (db_Request peer speed b)" if "pb \<in> set ps" for pb
    using one [OF psi [OF that]] that psi [OF that] spec by (auto simp: fetch_Cons)
  moreover have "pieceAllowed av (pb_PieceIndex pb) \<and> (\<exists>b. fetch (d # ds) pb = Some b \<and>
      pickable peer speed eg b \<and> fetch (d' # es) pb = Some (db_Request peer speed b))" if "pb \<in> set qs" for pb
    using r qsi [OF that] that spec unfolding picked_to_def by (auto simp: fetch_Cons)
  moreover have "fetch (d' # es) pb = fetch (d # ds) pb" if "pb \<notin> set (ps @ qs)" for pb
    using one [of pb] r that spec by (auto simp: fetch_Cons picked_to_def)
  moreover have "distinct (ps @ qs)" using spec r psi qsi by (auto simp: picked_to_def)
  ultimately show ?thesis
    using spec r a psi unfolding picked_to_def by (auto simp: same_shape_def)
qed

lemma add_loop_spec:
  "add_loop peer speed eg av k ds = (es, ps) \<Longrightarrow> distinct (map dp_PieceIndex ds) \<Longrightarrow>
     picked_to peer speed eg av ds ps es \<and> int (length ps) \<le> max 0 k \<and>
     (int (length ps) < k \<longrightarrow> exhausted peer speed eg av ds ps)"
proof (induction ds arbitrary: k es ps)
  case Nil
  then show ?case by (simp add: picked_to_refl exhausted_def)
next
  case (Cons d ds)
  have new: "dp_PieceIndex d \<notin> dp_PieceIndex ` set ds" and dist: "distinct (map dp_PieceIndex ds)"
    using Cons.prems(2) by simp_all
  show ?case
  proof (cases "pieceAllowed av (dp_PieceIndex d)")
    case False
    obtain ds' where r: "add_loop peer speed eg av k ds = (ds', ps)" and es: "es = d # ds'"
      using Cons.prems(1) False by (auto split: prod.splits)
    note IH = Cons.IH [OF r dist]
    from IH picked_to_skip [of peer speed eg av ds ps ds' d] new False show ?thesis
      by (auto simp: es exhausted_def fetch_Cons split: if_splits)
  next
    case True
    obtain d' qs where p: "PickBlocks peer speed eg k d = (d', qs)" by fastforce
    note spec = PickBlocks_spec [OF p] and one = PickBlocks_idx [OF p]
    show ?thesis
    proof (cases "int (length qs) = k")
      case full: True
      with Cons.prems(1) True p have "es = d' # ds" "ps = qs" by simp_all
      with full spec picked_to_one [OF p True picked_to_refl new] show ?thesis by simp
    next
      case False
      obtain ds' rs where r: "add_loop peer speed eg av (k - int (length qs)) ds = (ds', rs)" by fastforce
      with Cons.prems(1) True p False have es: "es = d' # ds'" and ps: "ps = qs @ rs" by simp_all
      note IH = Cons.IH [OF r dist]
      have "picked_to peer speed eg av (d # ds) ps es"
        unfolding es ps using IH by (intro picked_to_one [OF p True _ new]) simp
      moreover have "int (length ps) \<le> max 0 k" using IH spec by (auto simp: ps)
      moreover have "exhausted peer speed eg av (d # ds) ps" if "int (length ps) < k"
        unfolding exhausted_def
      proof (intro allI impI)
        fix pb b
        assume b: "fetch (d # ds) pb = Some b \<and> pieceAllowed av (pb_PieceIndex pb) \<and> pickable peer speed eg b"
        show "pb \<in> set ps"
        proof (cases "dp_PieceIndex d = pb_PieceIndex pb")
          case True
          with b one [of pb] that show ?thesis by (auto simp: fetch_Cons ps split: if_splits)
        next
          case False
          with b IH that show ?thesis by (auto simp: fetch_Cons ps exhausted_def)
        qed
      qed
      ultimately show ?thesis by blast
    qed
  qed
qed

section \<open>What picking pieces does\<close>

abbreviation block_of :: "PiecePicker \<Rightarrow> PieceBlock \<Rightarrow> DownloadingBlock option" where
  "block_of p \<equiv> fetch (pp_downloadingPieces p)"

definition mine :: "peer_ref \<Rightarrow> PiecePicker \<Rightarrow> PieceBlock \<Rightarrow> bool" where
  "mine peer p pb \<longleftrightarrow>
     (case block_of p pb of Some b \<Rightarrow> db_IsRequested b \<and> db_lastDownloader b = peer | None \<Rightarrow> False)"

definition new_block :: "PiecePicker \<Rightarrow> PieceBlock \<Rightarrow> bool" where
  "new_block p pb \<longleftrightarrow>
     0 \<le> pb_PieceIndex pb \<and> pb_PieceIndex pb < int (length (pp_pieceStatus p)) \<and>
     pp_pieceStatus p ! nat (pb_PieceIndex pb) = PieceNone \<and>
     0 \<le> pb_PieceBlock pb \<and> pb_PieceBlock pb < pp_BlocksInPiece p (pb_PieceIndex pb)"

text \<open>A block nobody has: of a piece not started, free, or late in the end game.\<close>

definition takeable :: "peer_ref \<Rightarrow> PeerSpeed \<Rightarrow> PiecePicker \<Rightarrow> PieceBlock \<Rightarrow> bool" where
  "takeable peer speed p pb \<longleftrightarrow>
     (case block_of p pb of Some b \<Rightarrow> pickable peer speed True b | None \<Rightarrow> new_block p pb)"

definition kept :: "PiecePicker \<Rightarrow> PiecePicker \<Rightarrow> PieceBlock \<Rightarrow> bool" where
  "kept p q pb \<longleftrightarrow>
     (case block_of p pb of
        Some b \<Rightarrow> block_of q pb = Some b
      | None \<Rightarrow> block_of q pb = None \<or> block_of q pb = Some zero_block \<and> new_block p pb)"

definition took :: "peer_ref \<Rightarrow> PeerSpeed \<Rightarrow> BitField option \<Rightarrow> PiecePicker \<Rightarrow> PieceBlock list \<Rightarrow> PiecePicker \<Rightarrow> bool" where
  "took peer speed av p ps q \<longleftrightarrow>
     distinct ps \<and>
     (\<forall>pb\<in>set ps. pieceAllowed av (pb_PieceIndex pb) \<and> takeable peer speed p pb \<and>
        \<not> mine peer p pb \<and> mine peer q pb) \<and>
     (\<forall>pb. mine peer p pb \<longrightarrow> mine peer q pb) \<and>
     (\<forall>pb. new_block q pb \<longrightarrow> new_block p pb) \<and>
     (\<forall>pb. pb \<notin> set ps \<longrightarrow> kept p q pb)"

lemma tookI:
  assumes "distinct ps"
    and "\<And>pb. pb \<in> set ps \<Longrightarrow> pieceAllowed av (pb_PieceIndex pb) \<and> takeable peer speed p pb \<and>
        \<not> mine peer p pb \<and> mine peer q pb"
    and "\<And>pb. mine peer p pb \<Longrightarrow> mine peer q pb" and "\<And>pb. new_block q pb \<Longrightarrow> new_block p pb"
    and "\<And>pb. pb \<notin> set ps \<Longrightarrow> kept p q pb"
  shows "took peer speed av p ps q"
  using assms unfolding took_def by blast

lemma kept_trans:
  "kept p q pb \<Longrightarrow> kept q r pb \<Longrightarrow> (new_block q pb \<Longrightarrow> new_block p pb) \<Longrightarrow> kept p r pb"
  by (auto simp: kept_def split: option.splits)

lemma kept_takeable: "kept p q pb \<Longrightarrow> takeable peer speed q pb \<Longrightarrow> (new_block q pb \<Longrightarrow> new_block p pb) \<Longrightarrow>
    takeable peer speed p pb"
  by (auto simp: kept_def takeable_def split: option.splits)

lemma took_trans:
  assumes a: "took peer speed av p ps q" and b: "took peer speed av q qs r"
  shows "took peer speed av p (ps @ qs) r"
proof (rule tookI)
  have disj: "pb \<notin> set ps" if "pb \<in> set qs" for pb using a b that unfolding took_def by blast
  then show "distinct (ps @ qs)" using a b by (auto simp: took_def)
  have new: "new_block q pb \<Longrightarrow> new_block p pb" for pb using a unfolding took_def by blast
  fix pb
  show "pieceAllowed av (pb_PieceIndex pb) \<and> takeable peer speed p pb \<and> \<not> mine peer p pb \<and> mine peer r pb"
    if "pb \<in> set (ps @ qs)"
  proof (cases "pb \<in> set ps")
    case True
    with a b show ?thesis unfolding took_def by blast
  next
    case False
    then have "pb \<in> set qs" "kept p q pb" using that a by (auto simp: took_def)
    with a b new kept_takeable [of p q pb] show ?thesis unfolding took_def by blast
  qed
  show "mine peer p pb \<Longrightarrow> mine peer r pb" using a b unfolding took_def by blast
  show "new_block r pb \<Longrightarrow> new_block p pb" using a b unfolding took_def by blast
  show "kept p r pb" if "pb \<notin> set (ps @ qs)"
    using kept_trans [of p q pb r] new [of pb] a b that by (simp add: took_def)
qed

lemma took_refl: "took peer speed av p [] p"
  by (simp add: took_def kept_def split: option.splits)

lemma pickable_mono: "pickable peer speed eg b \<Longrightarrow> pickable peer speed True b"
  by (auto simp: pickable_def)

lemma pickable_not_mine: "pickable peer speed eg b \<Longrightarrow> \<not> (db_IsRequested b \<and> db_lastDownloader b = peer)"
  by (auto simp: pickable_def db_states)

lemma Request_mine: "db_IsRequested (db_Request peer speed b) \<and> db_lastDownloader (db_Request peer speed b) = peer"
  by (simp add: db_Request_def db_IsRequested_def)

lemma addDownloadingBlocks_spec:
  assumes ok: "picker_ok p" and a: "addDownloadingBlocks peer speed eg av k p = (q, ps)"
  shows "picker_ok q" and "pp_pieceStatus q = pp_pieceStatus p" and "took peer speed av p ps q"
    and "int (length ps) \<le> max 0 k"
    and "int (length ps) < k \<Longrightarrow> exhausted peer speed eg av (pp_downloadingPieces p) ps"
    and "\<And>pb b. block_of q pb = Some b \<Longrightarrow> db_IsFree b \<Longrightarrow> pb \<notin> set ps \<and> block_of p pb = Some b"
proof -
  obtain es where r: "add_loop peer speed eg av k (pp_downloadingPieces p) = (es, ps)"
    and q: "q = p\<lparr>pp_downloadingPieces := es\<rparr>"
    using a by (auto simp: addDownloadingBlocks_def split: prod.splits)
  have dist: "distinct (map dp_PieceIndex (pp_downloadingPieces p))" using ok by (simp add: picker_ok_def)
  note spec = add_loop_spec [OF r dist]
  then have pt: "picked_to peer speed eg av (pp_downloadingPieces p) ps es" by blast
  show "picker_ok q" using pt unfolding q picked_to_def by (intro picker_ok_blocks [OF ok]) blast
  show "pp_pieceStatus q = pp_pieceStatus p" by (simp add: q)
  show "int (length ps) \<le> max 0 k" using spec by blast
  show "int (length ps) < k \<Longrightarrow> exhausted peer speed eg av (pp_downloadingPieces p) ps" using spec by blast
  have in_ps: "pieceAllowed av (pb_PieceIndex pb) \<and> (\<exists>b. block_of p pb = Some b \<and> pickable peer speed eg b \<and>
      block_of q pb = Some (db_Request peer speed b))" if "pb \<in> set ps" for pb
    using pt that by (simp add: picked_to_def q)
  have out_ps: "block_of q pb = block_of p pb" if "pb \<notin> set ps" for pb
    using pt that by (simp add: picked_to_def q)
  show "\<And>pb b. block_of q pb = Some b \<Longrightarrow> db_IsFree b \<Longrightarrow> pb \<notin> set ps \<and> block_of p pb = Some b"
    using in_ps out_ps by (metis Request_mine db_states(1,4) BlockState.distinct(1) option.inject)
  show "took peer speed av p ps q"
  proof (rule tookI)
    show "distinct ps" using pt by (simp add: picked_to_def)
    fix pb
    show ps: "pieceAllowed av (pb_PieceIndex pb) \<and> takeable peer speed p pb \<and> \<not> mine peer p pb \<and> mine peer q pb"
      if "pb \<in> set ps" for pb
      using in_ps [OF that] pickable_mono pickable_not_mine Request_mine
      by (fastforce simp: takeable_def mine_def)
    show "mine peer q pb" if "mine peer p pb"
      using ps [of pb] out_ps [of pb] that by (cases "pb \<in> set ps") (simp_all add: mine_def)
    show "new_block q pb \<Longrightarrow> new_block p pb"
      by (simp add: new_block_def q pp_BlocksInPiece_def)
    show "pb \<notin> set ps \<Longrightarrow> kept p q pb"
      using out_ps [of pb] by (simp add: kept_def split: option.splits)
  qed
qed

lemma fetch_append: "fetch (ds @ es) pb =
    (if pb_PieceIndex pb \<in> dp_PieceIndex ` set ds then fetch ds pb else fetch es pb)"
  by (induction ds) (auto simp: fetch_Cons)

lemma start_piece_took:
  assumes ok: "picker_ok p" and i: "i < length (pp_pieceStatus p)" and none: "pp_pieceStatus p ! i = PieceNone"
  shows "took peer speed av p [] (start_piece (int i) p)"
proof (rule tookI)
  define q where "q = start_piece (int i) p"
  have new: "int i \<notin> dp_PieceIndex ` set (pp_downloadingPieces p)"
    by (rule not_downloading_new_nat [OF ok none])
  have bq: "block_of q pb = (if pb_PieceIndex pb = int i
      then idx (replicate (nat (pp_BlocksInPiece p (int i))) zero_block) (pb_PieceBlock pb)
      else block_of p pb)" for pb
  proof (cases "pb_PieceIndex pb = int i")
    case True
    with new show ?thesis
      by (simp add: q_def start_piece_def fetch_append fetch_Cons NewDownloadingPiece_def)
  next
    case False
    then show ?thesis
      using fetch_index [of "pp_downloadingPieces p" pb]
      by (cases "block_of p pb")
        (auto simp: q_def start_piece_def fetch_append fetch_Cons NewDownloadingPiece_def)
  qed
  have bp: "block_of p pb = None" if "pb_PieceIndex pb = int i" for pb
    using fetch_index [of "pp_downloadingPieces p" pb] new that by (cases "block_of p pb") auto
  fix pb
  show "mine peer p pb \<Longrightarrow> mine peer (start_piece (int i) p) pb"
    using bp [of pb] unfolding q_def [symmetric] by (auto simp: mine_def bq split: option.splits)
  show "new_block p pb" if "new_block (start_piece (int i) p) pb"
    using that i by (cases "pb_PieceIndex pb = int i")
      (auto simp: new_block_def start_piece_def pp_BlocksInPiece_def nth_list_update nat_eq_iff split: if_splits)
  show "kept p (start_piece (int i) p) pb"
    using bp [of pb] i none unfolding q_def [symmetric]
    by (auto simp: kept_def bq new_block_def idx_def split: option.splits)
qed simp_all

lemma Choose_took:
  assumes "picker_ok p" and "ChooseNextPieceWithAvailability av p = Some q"
  shows "took peer speed av' p [] q"
  using assms by (auto simp: ChooseNextPieceWithAvailability_def find_Some_iff intro!: start_piece_took)

lemma Choose_None:
  "ChooseNextPieceWithAvailability av p = None \<Longrightarrow> i < length (pp_pieceStatus p) \<Longrightarrow>
     pieceAllowed av (int i) \<Longrightarrow> pp_pieceStatus p ! i \<noteq> PieceNone"
  by (auto simp: ChooseNextPieceWithAvailability_def find_None_iff)

text \<open>Nothing is left for a peer whose order was not filled.\<close>

definition nothing_left :: "BitField option \<Rightarrow> PiecePicker \<Rightarrow> bool" where
  "nothing_left av p \<longleftrightarrow>
     (\<forall>pb b. block_of p pb = Some b \<and> pieceAllowed av (pb_PieceIndex pb) \<longrightarrow> \<not> db_IsFree b) \<and>
     (\<forall>i < length (pp_pieceStatus p). pieceAllowed av (int i) \<longrightarrow> pp_pieceStatus p ! i \<noteq> PieceNone)"

lemma exhausted_no_free:
  assumes ok: "picker_ok p" and a: "addDownloadingBlocks peer speed False av k p = (q, ps)"
    and k: "int (length ps) < k" and b: "block_of q pb = Some b" "pieceAllowed av (pb_PieceIndex pb)"
  shows "\<not> db_IsFree b"
proof
  assume f: "db_IsFree b"
  then have "pb \<notin> set ps" "block_of p pb = Some b" using addDownloadingBlocks_spec(6) [OF ok a b(1)] by simp_all
  moreover have "pickable peer speed False b" using f by (simp add: pickable_def)
  ultimately show False
    using addDownloadingBlocks_spec(5) [OF ok a k] b(2) by (auto simp: exhausted_def)
qed

theorem PickPieces_spec:
  assumes "picker_ok p" and "PickPiecesWithAvailability peer speed av k p = (p', ps)"
  shows "picker_ok p' \<and> took peer speed av p ps p' \<and> int (length ps) \<le> max 0 k \<and>
    (int (length ps) < k \<longrightarrow> nothing_left av p')"
  using assms
proof (induction peer speed av k p arbitrary: p' ps rule: PickPiecesWithAvailability.induct)
  case (1 peer speed av k p)
  obtain p1 rs where a1: "addDownloadingBlocks peer speed False av k p = (p1, rs)" by fastforce
  note s1 = addDownloadingBlocks_spec [OF 1(2) a1]
  obtain p2 qs where a2: "(if speed \<noteq> PeerSpeedSlow \<and> int (length rs) < k \<and> IsEndGame p1
      then addDownloadingBlocks peer speed True av (k - int (length rs)) p1 else (p1, [])) = (p2, qs)"
    by fastforce
  have s2: "picker_ok p2" "pp_pieceStatus p2 = pp_pieceStatus p1" "took peer speed av p1 qs p2"
    "int (length qs) \<le> max 0 (k - int (length rs))"
    "\<And>pb b. block_of p2 pb = Some b \<Longrightarrow> db_IsFree b \<Longrightarrow> block_of p1 pb = Some b"
    using a2 s1(1) addDownloadingBlocks_spec [OF s1(1), of peer speed True av "k - int (length rs)" p2 qs]
    by (auto simp: took_refl split: if_splits)
  have t12: "took peer speed av p (rs @ qs) p2" by (rule took_trans [OF s1(3) s2(3)])
  define n where "n = int (length rs) + int (length qs)"
  have n: "n \<le> max 0 k" using s1(4) s2(4) by (simp add: n_def)
  have eq: "PickPiecesWithAvailability peer speed av k p =
      (if n < k then
         (case ChooseNextPieceWithAvailability av p2 of
            None \<Rightarrow> (p2, rs @ qs)
          | Some p3 \<Rightarrow>
              (let (p4, ts) = PickPiecesWithAvailability peer speed av (k - n) p3 in (p4, rs @ qs @ ts)))
       else (p2, rs @ qs))"
    unfolding n_def by (subst PickPiecesWithAvailability.simps) (simp add: a1 a2)
  show ?case
  proof (cases "n < k")
    case False
    with eq 1(3) have "p' = p2" "ps = rs @ qs" by simp_all
    with False n s2(1) t12 show ?thesis by (simp add: n_def)
  next
    case less: True
    show ?thesis
    proof (cases "ChooseNextPieceWithAvailability av p2")
      case None
      with eq 1(3) less have p': "p' = p2" "ps = rs @ qs" by simp_all
      have "\<not> db_IsFree b" if "block_of p2 pb = Some b" "pieceAllowed av (pb_PieceIndex pb)" for pb b
        using exhausted_no_free [OF 1(2) a1 _ s2(5) [OF that(1)] that(2)] less by (auto simp: n_def)
      with Choose_None [OF None] have "nothing_left av p2" by (auto simp: nothing_left_def)
      with p' s2(1) t12 n show ?thesis by (simp add: n_def)
    next
      case (Some p3)
      obtain p4 ts where r: "PickPiecesWithAvailability peer speed av (k - n) p3 = (p4, ts)" by fastforce
      with eq 1(3) less Some have p': "p' = p4" "ps = (rs @ qs) @ ts" by simp_all
      have IH: "picker_ok p4 \<and> took peer speed av p3 ts p4 \<and> int (length ts) \<le> max 0 (k - n) \<and>
          (int (length ts) < k - n \<longrightarrow> nothing_left av p4)"
        using 1(1) [OF a1 [symmetric] refl a2 [symmetric] refl n_def less Some Choose_ok [OF s2(1) Some] r] .
      have "took peer speed av p2 ts p4"
        using took_trans [OF Choose_took [OF s2(1) Some]] IH by fastforce
      with took_trans [OF t12] have "took peer speed av p ps p4" by (simp only: p')
      with IH less p' n show ?thesis by (auto simp: n_def)
    qed
  qed
qed

text \<open>The condition of the end game, in words of the states of the pieces.\<close>

definition all_started_or_many :: "PiecePicker \<Rightarrow> bool" where
  "all_started_or_many p \<longleftrightarrow> PieceNone \<notin> set (pp_pieceStatus p) \<or> 4 < length (pp_downloadingPieces p)"

lemma filter_three_ways:
  "length (filter (\<lambda>s. s = PieceNone) xs) + length (filter (\<lambda>s. s = PieceHave) xs) +
     length (filter (\<lambda>s. s = PieceDownloading) xs) = length xs"
proof (induction xs)
  case (Cons x xs)
  then show ?case by (cases x) simp_all
qed simp

lemma NumDownloading_status:
  assumes "picker_ok p"
  shows "length (pp_downloadingPieces p) = length (filter (\<lambda>s. s = PieceDownloading) (pp_pieceStatus p))"
proof -
  have "dp_PieceIndex ` set (pp_downloadingPieces p) =
      int ` {i. i < length (pp_pieceStatus p) \<and> pp_pieceStatus p ! i = PieceDownloading}"
  proof
    show "dp_PieceIndex ` set (pp_downloadingPieces p) \<subseteq>
        int ` {i. i < length (pp_pieceStatus p) \<and> pp_pieceStatus p ! i = PieceDownloading}"
    proof
      fix i
      assume "i \<in> dp_PieceIndex ` set (pp_downloadingPieces p)"
      then obtain d where "dp_ok p d" "i = dp_PieceIndex d" using assms by (auto simp: picker_ok_def)
      then show "i \<in> int ` {i. i < length (pp_pieceStatus p) \<and> pp_pieceStatus p ! i = PieceDownloading}"
        by (intro image_eqI [of _ _ "nat i"]) (auto simp: dp_ok_def)
    qed
    show "int ` {i. i < length (pp_pieceStatus p) \<and> pp_pieceStatus p ! i = PieceDownloading} \<subseteq>
        dp_PieceIndex ` set (pp_downloadingPieces p)"
      using assms by (auto simp: picker_ok_def)
  qed
  then have "card (dp_PieceIndex ` set (pp_downloadingPieces p)) =
      length (filter (\<lambda>s. s = PieceDownloading) (pp_pieceStatus p))"
    by (simp add: card_image length_filter_conv_card)
  moreover have "card (dp_PieceIndex ` set (pp_downloadingPieces p)) = length (pp_downloadingPieces p)"
    using assms distinct_card [of "map dp_PieceIndex (pp_downloadingPieces p)"] by (simp add: picker_ok_def)
  ultimately show ?thesis by simp
qed

lemma IsEndGame_iff:
  assumes "picker_ok p"
  shows "IsEndGame p \<longleftrightarrow> all_started_or_many p"
proof -
  have "length (filter (\<lambda>s. s = PieceNone) (pp_pieceStatus p)) = 0 \<longleftrightarrow> PieceNone \<notin> set (pp_pieceStatus p)"
    by (auto simp: filter_empty_conv)
  with filter_three_ways [of "pp_pieceStatus p"] NumDownloading_status [OF assms] show ?thesis
    unfolding IsEndGame_def all_started_or_many_def TotalPieces_def NumHave_def NumDownloadingPieces_def EndGameDPLimit_def
    by linarith
qed

lemma add_length [simp]:
  "length (fst (add_loop peer speed eg av k ds)) = length ds"
  by (induction ds arbitrary: k) (auto simp: Let_def split_beta)

lemma add_started:
  "addDownloadingBlocks peer speed eg av k p = (q, ps) \<Longrightarrow> all_started_or_many q = all_started_or_many p"
  using add_length [of peer speed eg av k "pp_downloadingPieces p"]
  by (cases "add_loop peer speed eg av k (pp_downloadingPieces p)")
    (auto simp: addDownloadingBlocks_def all_started_or_many_def)

lemma Choose_started:
  "ChooseNextPieceWithAvailability av p = Some q \<Longrightarrow> all_started_or_many p \<Longrightarrow> all_started_or_many q"
  by (auto simp: ChooseNextPieceWithAvailability_def find_Some_iff all_started_or_many_def start_piece_def)
    (metis nth_mem)

lemma add_free:
  assumes "picker_ok p" and "addDownloadingBlocks peer speed False av k p = (q, ps)" and "pb \<in> set ps"
    and "block_of p pb = Some b"
  shows "db_IsFree b"
proof -
  obtain es where r: "add_loop peer speed False av k (pp_downloadingPieces p) = (es, ps)"
    using assms(2) by (auto simp: addDownloadingBlocks_def split: prod.splits)
  have "distinct (map dp_PieceIndex (pp_downloadingPieces p))" using assms(1) by (simp add: picker_ok_def)
  from add_loop_spec [OF r this] assms(3,4) show ?thesis
    unfolding picked_to_def by (fastforce simp: pickable_def)
qed

text \<open>A block of another peer that can be asked a second time.\<close>

definition second_chance :: "peer_ref \<Rightarrow> PeerSpeed \<Rightarrow> DownloadingBlock \<Rightarrow> bool" where
  "second_chance peer speed b \<longleftrightarrow> db_IsRequested b \<and> sint (db_downloadersCount b) < 2 \<and> db_speed b < speed \<and>
     db_lastDownloader b \<noteq> peer"

lemma add_exhausted:
  assumes ok: "picker_ok p" and a: "addDownloadingBlocks peer speed True av k p = (q, ps)"
    and k: "int (length ps) < k" and b: "block_of q pb = Some b" "pieceAllowed av (pb_PieceIndex pb)"
  shows "\<not> second_chance peer speed b"
proof
  assume s: "second_chance peer speed b"
  note spec = addDownloadingBlocks_spec [OF ok a]
  have "pb \<notin> set ps"
    using spec(3) b(1) s by (auto simp: took_def mine_def second_chance_def)
  then have "kept p q pb" using spec(3) by (simp add: took_def)
  then have "block_of p pb = Some b"
    using b(1) s unfolding kept_def second_chance_def
    by (cases "block_of p pb") (simp_all add: zero_block_def db_states)
  moreover have "pickable peer speed True b" using s by (auto simp: pickable_def second_chance_def)
  ultimately show False using spec(5) [OF k] b(2) \<open>pb \<notin> set ps\<close> by (auto simp: exhausted_def)
qed

lemma PickPieces_end_game:
  assumes "picker_ok p" and "PickPiecesWithAvailability peer speed av k p = (p', ps)"
  shows "(all_started_or_many p \<longrightarrow> all_started_or_many p') \<and>
    (\<forall>pb\<in>set ps. \<forall>b. block_of p pb = Some b \<and> \<not> db_IsFree b \<longrightarrow>
       speed \<noteq> PeerSpeedSlow \<and> all_started_or_many p') \<and>
    (int (length ps) < k \<and> speed \<noteq> PeerSpeedSlow \<and> all_started_or_many p' \<longrightarrow>
       (\<forall>pb b. block_of p' pb = Some b \<and> pieceAllowed av (pb_PieceIndex pb) \<longrightarrow> \<not> second_chance peer speed b))"
  using assms
proof (induction peer speed av k p arbitrary: p' ps rule: PickPiecesWithAvailability.induct)
  case (1 peer speed av k p)
  obtain p1 rs where a1: "addDownloadingBlocks peer speed False av k p = (p1, rs)" by fastforce
  note s1 = addDownloadingBlocks_spec [OF 1(2) a1]
  obtain p2 qs where a2: "(if speed \<noteq> PeerSpeedSlow \<and> int (length rs) < k \<and> IsEndGame p1
      then addDownloadingBlocks peer speed True av (k - int (length rs)) p1 else (p1, [])) = (p2, qs)"
    by fastforce
  note s2' = addDownloadingBlocks_spec [OF s1(1), of peer speed True av "k - int (length rs)" p2 qs]
  define late_pick where "late_pick \<longleftrightarrow> speed \<noteq> PeerSpeedSlow \<and> int (length rs) < k \<and> IsEndGame p1"
  have two: "late_pick \<and> addDownloadingBlocks peer speed True av (k - int (length rs)) p1 = (p2, qs) \<or>
      \<not> late_pick \<and> p2 = p1 \<and> qs = []"
    using a2 unfolding late_pick_def [symmetric] by (cases late_pick) simp_all
  have ok2: "picker_ok p2" and t2: "took peer speed av p1 qs p2"
    using two s2'(1,3) s1(1) took_refl by blast+
  have c1: "all_started_or_many p1 = all_started_or_many p" by (rule add_started [OF a1])
  have c2: "all_started_or_many p2 = all_started_or_many p1" using two add_started by blast
  have qs: "speed \<noteq> PeerSpeedSlow \<and> all_started_or_many p2" if "pb \<in> set qs" for pb
  proof -
    have late_pick using two that by auto
    then show ?thesis using IsEndGame_iff [OF s1(1)] c2 by (simp add: late_pick_def)
  qed
  have t12: "took peer speed av p (rs @ qs) p2" by (rule took_trans [OF s1(3) t2])
  have taken: "speed \<noteq> PeerSpeedSlow \<and> all_started_or_many p2"
    if "pb \<in> set (rs @ qs)" "block_of p pb = Some b" "\<not> db_IsFree b" for pb b
    using that qs add_free [OF 1(2) a1 _ that(2)] by auto
  define n where "n = int (length rs) + int (length qs)"
  have eq: "PickPiecesWithAvailability peer speed av k p =
      (if n < k then
         (case ChooseNextPieceWithAvailability av p2 of
            None \<Rightarrow> (p2, rs @ qs)
          | Some p3 \<Rightarrow>
              (let (p4, ts) = PickPiecesWithAvailability peer speed av (k - n) p3 in (p4, rs @ qs @ ts)))
       else (p2, rs @ qs))"
    unfolding n_def by (subst PickPiecesWithAvailability.simps) (simp add: a1 a2)
  show ?case
  proof (cases "n < k")
    case False
    with eq 1(3) have p': "p' = p2" "ps = rs @ qs" by simp_all
    show ?thesis using taken False c1 c2 unfolding p' by (auto simp: n_def)
  next
    case less: True
    show ?thesis
    proof (cases "ChooseNextPieceWithAvailability av p2")
      case None
      with eq 1(3) less have p': "p' = p2" "ps = rs @ qs" by simp_all
      have "\<not> second_chance peer speed b" if "speed \<noteq> PeerSpeedSlow" "all_started_or_many p2"
        "block_of p2 pb = Some b" "pieceAllowed av (pb_PieceIndex pb)" for pb b
      proof (rule add_exhausted [OF s1(1) _ _ that(3,4)])
        show "addDownloadingBlocks peer speed True av (k - int (length rs)) p1 = (p2, qs)"
          using two that(1,2) less c2 IsEndGame_iff [OF s1(1)] by (auto simp: n_def late_pick_def)
        show "int (length qs) < k - int (length rs)" using less by (simp add: n_def)
      qed
      then show ?thesis using taken c1 c2 unfolding p' by blast
    next
      case (Some p3)
      obtain p4 ts where r: "PickPiecesWithAvailability peer speed av (k - n) p3 = (p4, ts)" by fastforce
      with eq 1(3) less Some have p': "p' = p4" "ps = (rs @ qs) @ ts" by simp_all
      have ok3: "picker_ok p3" by (rule Choose_ok [OF ok2 Some])
      note IH = 1(1) [OF a1 [symmetric] refl a2 [symmetric] refl n_def less Some ok3 r]
      have t13: "took peer speed av p (rs @ qs) p3"
        using took_trans [OF t12 Choose_took [OF ok2 Some]] by simp
      have late: "speed \<noteq> PeerSpeedSlow \<and> all_started_or_many p4"
        if pb: "pb \<in> set ts" "block_of p pb = Some b" "\<not> db_IsFree b" for pb b
      proof (cases "pb \<in> set (rs @ qs)")
        case True
        with taken [OF True pb(2,3)] Choose_started [OF Some] IH show ?thesis by blast
      next
        case False
        with t13 pb(2) have "block_of p3 pb = Some b" by (auto simp: took_def kept_def)
        with IH pb show ?thesis by blast
      qed
      have len: "int (length ps) < k \<longleftrightarrow> int (length ts) < k - n" by (auto simp: p' n_def)
      show ?thesis
        using IH late taken Choose_started [OF Some] c1 c2 unfolding len unfolding p' by auto
    qed
  qed
qed

section \<open>Finished pieces\<close>

lemma filter_lengths_le:
  "\<forall>x\<in>set xs. \<not> (P x \<and> Q x) \<Longrightarrow> length (filter P xs) + length (filter Q xs) \<le> length xs"
  by (induction xs) auto

lemma filter_lengths_cover:
  "\<forall>x\<in>set xs. \<not> (P x \<and> Q x) \<Longrightarrow>
     length (filter P xs) + length (filter Q xs) = length xs \<longleftrightarrow> (\<forall>x\<in>set xs. P x \<or> Q x)"
proof (induction xs)
  case Nil
  then show ?case by simp
next
  case (Cons x xs)
  then have "length (filter P xs) + length (filter Q xs) \<le> length xs"
    by (intro filter_lengths_le) simp
  with Cons show ?case by auto
qed

lemma DownloadedCount_all:
  "FinishedBlocksCount d + WritingBlocksCount d = length (dp_Blocks d) \<longleftrightarrow>
     (\<forall>b\<in>set (dp_Blocks d). db_IsFinished b \<or> db_IsWriting b)"
  unfolding FinishedBlocksCount_def WritingBlocksCount_def calculateStateBlocks_def db_states
  by (rule filter_lengths_cover) auto

lemma block_of_GetDownloadingPiece:
  "GetDownloadingPiece p i = Some d \<Longrightarrow> block_of p (NewPieceBlock i j) = idx (dp_Blocks d) j"
  by (simp add: GetDownloadingPiece_def fetch_def)

lemma all_blocks_idx:
  "(\<forall>b\<in>set xs. Q b) \<longleftrightarrow> (\<forall>j. 0 \<le> j \<and> j < int (length xs) \<longrightarrow> (\<exists>b. idx xs j = Some b \<and> Q b))"
proof
  assume "\<forall>b\<in>set xs. Q b"
  then show "\<forall>j. 0 \<le> j \<and> j < int (length xs) \<longrightarrow> (\<exists>b. idx xs j = Some b \<and> Q b)"
    by (auto simp: idx_def)
next
  assume r: "\<forall>j. 0 \<le> j \<and> j < int (length xs) \<longrightarrow> (\<exists>b. idx xs j = Some b \<and> Q b)"
  show "\<forall>b\<in>set xs. Q b"
  proof
    fix b
    assume "b \<in> set xs"
    then obtain k where "k < length xs" "xs ! k = b" by (auto simp: in_set_conv_nth)
    with r [rule_format, of "int k"] show "Q b" by (simp add: idx_def)
  qed
qed

lemma IsPieceFinished_blocks:
  assumes ok: "picker_ok p" and i: "idx (pp_pieceStatus p) i = Some PieceDownloading"
  shows "IsPieceFinished i p =
    Some (\<forall>j. 0 \<le> j \<and> j < pp_BlocksInPiece p i \<longrightarrow>
      (\<exists>b. block_of p (NewPieceBlock i j) = Some b \<and> (db_IsFinished b \<or> db_IsWriting b)))"
proof -
  have "i \<in> dp_PieceIndex ` set (pp_downloadingPieces p)"
  proof -
    have "nat i < length (pp_pieceStatus p)" "pp_pieceStatus p ! nat i = PieceDownloading" "0 \<le> i"
      using i by (auto simp: idx_Some_iff)
    with ok have "int (nat i) \<in> dp_PieceIndex ` set (pp_downloadingPieces p)"
      unfolding picker_ok_def by blast
    with \<open>0 \<le> i\<close> show ?thesis by simp
  qed
  then obtain d where d: "GetDownloadingPiece p i = Some d"
    using GetDownloadingPiece_None [of p i] by (cases "GetDownloadingPiece p i") auto
  have "dp_ok p d" "dp_PieceIndex d = i" using GetDownloadingPiece_Some [OF d] ok by (auto simp: picker_ok_def)
  then have len: "pp_BlocksInPiece p i = int (length (dp_Blocks d))"
    "dp_blocksCount d = int (length (dp_Blocks d))" by (simp_all add: dp_ok_def)
  have "IsPieceFinished i p =
      Some (FinishedBlocksCount d + WritingBlocksCount d = length (dp_Blocks d))"
    using i d len by (auto simp: IsPieceFinished_def)
  also have "\<dots> = Some (\<forall>b\<in>set (dp_Blocks d). db_IsFinished b \<or> db_IsWriting b)"
    by (simp only: DownloadedCount_all)
  finally show ?thesis
    unfolding len block_of_GetDownloadingPiece [OF d] all_blocks_idx [symmetric] .
qed

section \<open>The calls the program makes\<close>

text \<open>
  One step of the picker: a peer connection asks for blocks, receives one or is closed, the
  disk reports a block, a piece is verified or rejected, resume data are loaded.
\<close>

inductive picker_step :: "PiecePicker \<Rightarrow> PiecePicker \<Rightarrow> bool" where
  pick: "PickPiecesWithAvailability peer speed av k p = (p', ps) \<Longrightarrow> picker_step p p'"
| writing: "MarkAsWriting b p = Some (p', r) \<Longrightarrow> picker_step p p'"
| finished: "MarkAsFinished b p = Some (p', r) \<Longrightarrow> picker_step p p'"
| downloading: "MarkAsDownloading b peer p = Some (p', r) \<Longrightarrow> picker_step p p'"
| abort: "AbortDownload b peer p = Some p' \<Longrightarrow> picker_step p p'"
| start: "DownloadPiece i p = Some p' \<Longrightarrow> picker_step p p'"
| choose: "ChooseNextPiece p = Some p' \<Longrightarrow> picker_step p p'"
| have_piece: "WeHave i p = Some p' \<Longrightarrow> picker_step p p'"
| have_block: "WeHaveBlock b p = Some p' \<Longrightarrow> picker_step p p'"
| restore: "RestorePiece i p = Some p' \<Longrightarrow> picker_step p p'"
| restore_have: "RestoreHave i p = Some p' \<Longrightarrow> GetDownloadingPiece p i = None \<Longrightarrow> picker_step p p'"

inductive_cases picker_stepE: "picker_step p p'"

inductive picker_reachable :: "int \<Rightarrow> int \<Rightarrow> PiecePicker \<Rightarrow> bool" for n blast where
  init: "NewPiecePicker n blast = Some p \<Longrightarrow> picker_reachable n blast p"
| step: "picker_reachable n blast p \<Longrightarrow> picker_step p p' \<Longrightarrow> picker_reachable n blast p'"

lemma picker_step_ok: "picker_step p p' \<Longrightarrow> picker_ok p \<Longrightarrow> picker_ok p'"
  by (elim picker_stepE)
    (auto intro: MarkAsWriting_ok MarkAsFinished_ok MarkAsDownloading_ok AbortDownload_ok
      DownloadPiece_ok ChooseNextPiece_ok WeHave_ok WeHaveBlock_ok RestorePiece_ok RestoreHave_ok
      dest: PickPieces_spec)

section \<open>Properties\<close>

text \<open>C8: a piece is in progress if and only if its state says so, once, with the number of
  blocks of the enumerator, in every state the program can bring the picker to.\<close>

theorem picker_invariant:
  assumes "picker_reachable n blast p" and "0 < blast" and "blast \<le> BlocksPerPiece"
  shows "picker_ok p"
  using assms by (induction rule: picker_reachable.induct) (auto intro: NewPiecePicker_ok picker_step_ok)

definition demo_picker :: PiecePicker where
  "demo_picker = \<lparr>pp_pieceCount = 1, pp_blocksInLastPiece = 2,
     pp_pieceStatus = [PieceNone], pp_downloadingPieces = []\<rparr>"

lemma demo_picker_new: "NewPiecePicker 1 2 = Some demo_picker"
  by (simp add: NewPiecePicker_def demo_picker_def)

definition demo_picked :: PiecePicker where
  "demo_picked = \<lparr>pp_pieceCount = 1, pp_blocksInLastPiece = 2, pp_pieceStatus = [PieceDownloading],
     pp_downloadingPieces = [\<lparr>dp_PieceIndex = 0, dp_blocksCount = 2,
       dp_Blocks = replicate 2 (db_Request (Some 7) PeerSpeedSlow zero_block)\<rparr>]\<rparr>"

lemma demo_pick:
  "PickPiecesWithAvailability (Some 7) PeerSpeedSlow None 3 demo_picker =
     (demo_picked, [NewPieceBlock 0 0, NewPieceBlock 0 1])"
  by code_simp

theorem picker_invariant_witness: "picker_ok demo_picked"
  by (rule picker_invariant [of 1 2])
    (auto intro: picker_reachable.intros demo_picker_new picker_step.pick [OF demo_pick] simp: BlocksPerPiece_eq)

text \<open>C9: picking returns at most the blocks asked for, no block twice; each lies in a piece the
  peer has, was not already asked of this peer, and now is; every other block in progress keeps its
  state. A block that is not free is only picked when one other, slower peer was asked for it and
  the end game has come: every piece is started or more than four are in progress. Then a fast
  peer whose order was not filled has been given all such blocks of its pieces.\<close>

theorem PickPieces_safe:
  assumes "picker_ok p" and "PickPiecesWithAvailability peer speed av k p = (p', ps)"
  shows "int (length ps) \<le> max 0 k \<and> distinct ps \<and>
    (\<forall>pb\<in>set ps. pieceAllowed av (pb_PieceIndex pb) \<and> takeable peer speed p pb \<and>
       \<not> mine peer p pb \<and> mine peer p' pb) \<and>
    (\<forall>pb b. pb \<notin> set ps \<and> block_of p pb = Some b \<longrightarrow> block_of p' pb = Some b) \<and>
    (\<forall>pb\<in>set ps. \<forall>b. block_of p pb = Some b \<and> \<not> db_IsFree b \<longrightarrow>
       db_IsRequested b \<and> sint (db_downloadersCount b) < 2 \<and> db_speed b < speed \<and> speed \<noteq> PeerSpeedSlow \<and>
       (PieceNone \<notin> set (pp_pieceStatus p') \<or> 4 < length (pp_downloadingPieces p'))) \<and>
    (int (length ps) < k \<and> speed \<noteq> PeerSpeedSlow \<and>
       (PieceNone \<notin> set (pp_pieceStatus p') \<or> 4 < length (pp_downloadingPieces p')) \<longrightarrow>
       (\<forall>pb b. block_of p' pb = Some b \<and> pieceAllowed av (pb_PieceIndex pb) \<longrightarrow>
          \<not> (db_IsRequested b \<and> sint (db_downloadersCount b) < 2 \<and> db_speed b < speed \<and>
             db_lastDownloader b \<noteq> peer)))"
proof -
  note spec = PickPieces_spec [OF assms] and late = PickPieces_end_game [OF assms]
  have took: "took peer speed av p ps p'" using spec by blast
  have "db_IsRequested b \<and> sint (db_downloadersCount b) < 2 \<and> db_speed b < speed"
    if "pb \<in> set ps" "block_of p pb = Some b" "\<not> db_IsFree b" for pb b
    using took that unfolding took_def takeable_def by (fastforce simp: pickable_def)
  moreover have "block_of p' pb = Some b" if "pb \<notin> set ps" "block_of p pb = Some b" for pb b
    using took that by (auto simp: took_def kept_def)
  moreover have "speed \<noteq> PeerSpeedSlow \<and> (PieceNone \<notin> set (pp_pieceStatus p') \<or> 4 < length (pp_downloadingPieces p'))"
    if "pb \<in> set ps" "block_of p pb = Some b" "\<not> db_IsFree b" for pb b
    using late that unfolding all_started_or_many_def by blast
  ultimately have "\<forall>pb\<in>set ps. \<forall>b. block_of p pb = Some b \<and> \<not> db_IsFree b \<longrightarrow>
       db_IsRequested b \<and> sint (db_downloadersCount b) < 2 \<and> db_speed b < speed \<and> speed \<noteq> PeerSpeedSlow \<and>
       (PieceNone \<notin> set (pp_pieceStatus p') \<or> 4 < length (pp_downloadingPieces p'))"
    "\<forall>pb b. pb \<notin> set ps \<and> block_of p pb = Some b \<longrightarrow> block_of p' pb = Some b"
    by blast+
  moreover have "int (length ps) < k \<and> speed \<noteq> PeerSpeedSlow \<and>
       (PieceNone \<notin> set (pp_pieceStatus p') \<or> 4 < length (pp_downloadingPieces p')) \<longrightarrow>
       (\<forall>pb b. block_of p' pb = Some b \<and> pieceAllowed av (pb_PieceIndex pb) \<longrightarrow>
          \<not> (db_IsRequested b \<and> sint (db_downloadersCount b) < 2 \<and> db_speed b < speed \<and>
             db_lastDownloader b \<noteq> peer))"
    using late unfolding all_started_or_many_def second_chance_def by (elim conjE)
  moreover have "distinct ps \<and> (\<forall>pb\<in>set ps. pieceAllowed av (pb_PieceIndex pb) \<and> takeable peer speed p pb \<and>
       \<not> mine peer p pb \<and> mine peer p' pb)"
    using took unfolding took_def by (elim conjE) (rule conjI)
  moreover have "int (length ps) \<le> max 0 k" using spec by (elim conjE)
  ultimately show ?thesis by - (elim conjE, intro conjI, assumption+)
qed

theorem PickPieces_safe_witness:
  "distinct [NewPieceBlock 0 0, NewPieceBlock 0 1] \<and> mine (Some 7) demo_picked (NewPieceBlock 0 1)"
  using PickPieces_safe [OF NewPiecePicker_ok [OF demo_picker_new] demo_pick] by (simp add: BlocksPerPiece_eq)

text \<open>C10: when a peer gets fewer blocks than it asked for, nothing is left for it: no piece it has
  is unstarted, and no block of its pieces is free.\<close>

theorem PickPieces_complete:
  assumes "picker_ok p" and "PickPiecesWithAvailability peer speed av k p = (p', ps)"
    and "int (length ps) < k"
  shows "(\<forall>pb b. block_of p' pb = Some b \<and> pieceAllowed av (pb_PieceIndex pb) \<longrightarrow> \<not> db_IsFree b) \<and>
    (\<forall>i < length (pp_pieceStatus p'). pieceAllowed av (int i) \<longrightarrow> pp_pieceStatus p' ! i \<noteq> PieceNone)"
  using PickPieces_spec [OF assms(1,2)] assms(3) by (simp add: nothing_left_def)

theorem PickPieces_complete_witness: "pp_pieceStatus demo_picked ! 0 \<noteq> PieceNone"
  using PickPieces_complete [OF NewPiecePicker_ok [OF demo_picker_new] demo_pick]
  by (simp add: BlocksPerPiece_eq pieceAllowed_def demo_picked_def)

text \<open>A piece in progress is finished exactly when each of its blocks is written or being
  written.\<close>

theorem IsPieceFinished_iff:
  assumes ok: "picker_ok p" and i: "idx (pp_pieceStatus p) i = Some PieceDownloading"
  shows "IsPieceFinished i p =
    Some (\<forall>j. 0 \<le> j \<and> j < pp_BlocksInPiece p i \<longrightarrow>
      (\<exists>b. block_of p (NewPieceBlock i j) = Some b \<and> (db_IsFinished b \<or> db_IsWriting b)))"
  by (rule IsPieceFinished_blocks [OF assms])

theorem IsPieceFinished_iff_witness: "IsPieceFinished 0 demo_picked = Some False"
proof -
  have ok: "picker_ok demo_picked"
    using PickPieces_spec [OF NewPiecePicker_ok [OF demo_picker_new] demo_pick] by (simp add: BlocksPerPiece_eq)
  have "block_of demo_picked (NewPieceBlock 0 0) = Some (db_Request (Some 7) PeerSpeedSlow zero_block)"
    by code_simp
  moreover have "0 < pp_BlocksInPiece demo_picked 0" by code_simp
  ultimately show ?thesis
    using IsPieceFinished_iff [OF ok, of 0]
    by (auto simp: demo_picked_def idx_def db_Request_def db_IsFinished_def db_IsWriting_def zero_block_def
        intro!: exI [of _ 0])
qed

end
