(* ===== verification/Peer_State.thy ===== *)
theory Peer_State
  imports Peer_Policy Conn_Stream Picker
begin

unbundle bit_operations_syntax

text \<open>
  The state of a peer connection and the operations that touch nothing else: the first half
  of \<^verbatim>\<open>peer_connection.go\<close>. The embedded \<^verbatim>\<open>Connection\<close> is a record extension, a
  transfer or a peer is an address, the clock an argument. The packet registry of a
  connection is the constant \<open>client_NewPacketCombiner\<close>.
\<close>

section \<open>Misc options\<close>

record MiscOptions =
  mo_AICHVersion :: int
  mo_UnicodeSupport :: int
  mo_UDPVer :: int
  mo_DataCompVer :: int
  mo_SupportSecIdent :: int
  mo_SourceExchange1Ver :: int
  mo_ExtendedRequestsVer :: int
  mo_AcceptCommentVer :: int
  mo_NoViewSharedFiles :: int
  mo_MultiPacket :: int
  mo_SupportsPreview :: int

text \<open>Go's \<open><<\<close>, \<open>>>\<close>, \<open>*\<close> and \<open>&\<close> bind equally and to the left.\<close>

definition shl :: "int \<Rightarrow> nat \<Rightarrow> int" where "shl x n = push_bit n x"
definition shr :: "int \<Rightarrow> nat \<Rightarrow> int" where "shr x n = drop_bit n x"

definition mo_IntValue :: "MiscOptions \<Rightarrow> int" where
  "mo_IntValue m =
     shl (mo_AICHVersion m) (4 * 7 + 1) OR
     (shl (mo_UnicodeSupport m) 4 * 7) OR
     (shl (mo_UDPVer m) 4 * 6) OR
     (shl (mo_DataCompVer m) 4 * 5) OR
     (shl (mo_SupportSecIdent m) 4 * 4) OR
     (shl (mo_SourceExchange1Ver m) 4 * 3) OR
     (shl (mo_ExtendedRequestsVer m) 4 * 2) OR
     shl (mo_AcceptCommentVer m) 4 OR
     shl (mo_NoViewSharedFiles m) 2 OR
     shl (mo_MultiPacket m) 1 OR
     mo_SupportsPreview m"

definition mo_Assign :: "int \<Rightarrow> MiscOptions" where
  "mo_Assign v =
     \<lparr>mo_AICHVersion = shr v (4 * 7 + 1) AND 0x07,
      mo_UnicodeSupport = (shr v 4 * 7) AND 0x01,
      mo_UDPVer = (shr v 4 * 6) AND 0x0f,
      mo_DataCompVer = (shr v 4 * 5) AND 0x0f,
      mo_SupportSecIdent = (shr v 4 * 4) AND 0x0f,
      mo_SourceExchange1Ver = (shr v 4 * 3) AND 0x0f,
      mo_ExtendedRequestsVer = (shr v 4 * 2) AND 0x0f,
      mo_AcceptCommentVer = shr v 4 AND 0x0f,
      mo_NoViewSharedFiles = shr v 2 AND 0x01,
      mo_MultiPacket = shr v 1 AND 0x01,
      mo_SupportsPreview = v AND 0x01\<rparr>"

definition largeFileOffset :: nat where "largeFileOffset = 4"
definition multipOffset :: nat where "multipOffset = 5"
definition srcExtOffset :: nat where "srcExtOffset = 10"
definition captchaOffset :: nat where "captchaOffset = 11"

definition SupportCaptcha :: "int \<Rightarrow> bool" where
  "SupportCaptcha v \<longleftrightarrow> shr v captchaOffset AND 1 = 1"

definition SupportSourceExt2 :: "int \<Rightarrow> bool" where
  "SupportSourceExt2 v \<longleftrightarrow> shr v srcExtOffset AND 1 = 1"

definition SupportExtMultipacket :: "int \<Rightarrow> bool" where
  "SupportExtMultipacket v \<longleftrightarrow> shr v multipOffset AND 1 = 1"

definition SupportLargeFiles :: "int \<Rightarrow> bool" where
  "SupportLargeFiles v \<longleftrightarrow> shr v largeFileOffset AND 1 = 0"

definition SetCaptcha :: "int \<Rightarrow> int" where "SetCaptcha v = v OR shl 1 captchaOffset"
definition SetSourceExt2 :: "int \<Rightarrow> int" where "SetSourceExt2 v = v OR shl 1 srcExtOffset"
definition SetExtMultipacket :: "int \<Rightarrow> int" where "SetExtMultipacket v = v OR shl 1 multipOffset"
definition SetLargeFiles :: "int \<Rightarrow> int" where "SetLargeFiles v = v OR shl 1 largeFileOffset"

lemmas misc_bits = largeFileOffset_def multipOffset_def srcExtOffset_def captchaOffset_def

section \<open>Connections\<close>

datatype UploadState = UploadStateNone | UploadStateOnQueue | UploadStateUploading | UploadStateConnecting

text \<open>A nil buffer is \<open>None\<close>.\<close>

record PendingBlock =
  pk_Block :: PieceBlock
  pk_DataSize :: int
  pk_CreateTime :: int
  pk_Received :: int
  pk_Buffer :: "bytes option"

definition NewPendingBlock :: "int \<Rightarrow> PieceBlock \<Rightarrow> int \<Rightarrow> PendingBlock" where
  "NewPendingBlock now block totalSize =
     \<lparr>pk_Block = block, pk_DataSize = pb_Size block totalSize, pk_CreateTime = now,
      pk_Received = 0, pk_Buffer = None\<rparr>"

record RequestedUploadBlock =
  ub_Begin :: int
  ub_End :: int
  ub_Transferred :: int

record PeerConnection = Connection +
  pn_remoteHash :: hash
  pn_transfer :: "nat option"
  pn_remotePieces :: BitField
  pn_speed :: PeerSpeed
  pn_peerInfo :: "nat option"
  pn_failed :: bool
  pn_transferringData :: bool
  pn_recvReq :: PeerRequest
  pn_recvReqCompressed :: bool
  pn_recvPos :: int
  pn_endpoint :: Endpoint
  pn_downloadQueue :: "PendingBlock list"
  pn_uploadState :: UploadState
  pn_uploadQueueRank :: u16
  pn_uploadWaitStart :: int
  pn_uploadStartTime :: int
  pn_uploadSessionBase :: int
  pn_lastUploadRequest :: int
  pn_uploadBlocks :: "RequestedUploadBlock list"
  pn_uploadDone :: "RequestedUploadBlock list"
  pn_uploadAddNext :: bool
  pn_friendSlot :: bool

definition NewPeerConnection :: "int \<Rightarrow> Endpoint \<Rightarrow> nat option \<Rightarrow> nat option \<Rightarrow> PeerConnection" where
  "NewPeerConnection now point transfer peerInfo =
     Connection.extend (co_NewConnection now)
       \<lparr>pn_remoteHash = Invalid, pn_transfer = transfer,
        pn_remotePieces = \<lparr>bf_bytes = [], bf_size = 0\<rparr>, pn_speed = PeerSpeedSlow, pn_peerInfo = peerInfo,
        pn_failed = False, pn_transferringData = False,
        pn_recvReq = \<lparr>pr_Piece = 0, pr_Start = 0, pr_Length = 0\<rparr>, pn_recvReqCompressed = False,
        pn_recvPos = 0, pn_endpoint = point, pn_downloadQueue = [], pn_uploadState = UploadStateNone,
        pn_uploadQueueRank = 0, pn_uploadWaitStart = 0, pn_uploadStartTime = 0, pn_uploadSessionBase = 0,
        pn_lastUploadRequest = 0, pn_uploadBlocks = [], pn_uploadDone = [], pn_uploadAddNext = False,
        pn_friendSlot = False\<rparr>"

text \<open>An accepted socket; its address is a TCP address, whose endpoint is given.\<close>

definition NewIncomingPeerConnection :: "int \<Rightarrow> Endpoint \<Rightarrow> PeerConnection" where
  "NewIncomingPeerConnection now remote =
     (NewPeerConnection now remote None None)\<lparr>co_socket := True\<rparr>"

definition HasEndpoint :: "PeerConnection \<Rightarrow> bool" where
  "HasEndpoint p \<longleftrightarrow> ep_Defined (pn_endpoint p)"

section \<open>Upload slots\<close>

definition SetUploadState :: "UploadState \<Rightarrow> PeerConnection \<Rightarrow> PeerConnection" where
  "SetUploadState state p =
     (let p1 = p\<lparr>pn_uploadState := state\<rparr>
      in if state \<noteq> UploadStateUploading then p1\<lparr>pn_uploadStartTime := 0\<rparr> else p1)"

definition SetUploadQueueRank :: "u16 \<Rightarrow> PeerConnection \<Rightarrow> PeerConnection" where
  "SetUploadQueueRank rank p = p\<lparr>pn_uploadQueueRank := rank\<rparr>"

definition SetUploadWaitStart :: "int \<Rightarrow> PeerConnection \<Rightarrow> PeerConnection" where
  "SetUploadWaitStart ts p = p\<lparr>pn_uploadWaitStart := ts\<rparr>"

definition ClearUploadWaitStart :: "PeerConnection \<Rightarrow> PeerConnection" where
  "ClearUploadWaitStart p = p\<lparr>pn_uploadWaitStart := 0\<rparr>"

definition SetUploadStartTime :: "int \<Rightarrow> PeerConnection \<Rightarrow> PeerConnection" where
  "SetUploadStartTime ts p = p\<lparr>pn_uploadStartTime := ts\<rparr>"

definition UploadStartDelay :: "int \<Rightarrow> PeerConnection \<Rightarrow> int" where
  "UploadStartDelay now p = (if pn_uploadStartTime p = 0 then 0 else now - pn_uploadStartTime p)"

definition ResetUploadSession :: "PeerConnection \<Rightarrow> PeerConnection" where
  "ResetUploadSession p = p\<lparr>pn_uploadSessionBase := TotalUpload (co_stat p)\<rparr>"

definition UploadSession :: "PeerConnection \<Rightarrow> int" where
  "UploadSession p =
     (let total = TotalUpload (co_stat p)
      in if total < pn_uploadSessionBase p then 0 else total - pn_uploadSessionBase p)"

definition SetUploadAddNextConnect :: "bool \<Rightarrow> PeerConnection \<Rightarrow> PeerConnection" where
  "SetUploadAddNextConnect v p = p\<lparr>pn_uploadAddNext := v\<rparr>"

definition SetFriendSlot :: "bool \<Rightarrow> PeerConnection \<Rightarrow> PeerConnection" where
  "SetFriendSlot v p = p\<lparr>pn_friendSlot := v\<rparr>"

definition IsUploadConnected :: "PeerConnection \<Rightarrow> bool" where
  "IsUploadConnected p \<longleftrightarrow> co_socket p \<and> \<not> co_disconnecting p"

text \<open>\<open>peer\<close> is what the connection's peer pointer points to.\<close>

definition IsUploadLowID :: "Peer option \<Rightarrow> bool" where
  "IsUploadLowID peer = (case peer of Some pe \<Rightarrow> \<not> pe_Connectable pe | None \<Rightarrow> False)"

definition AddUploadRequest :: "PeerRequest \<Rightarrow> PeerConnection \<Rightarrow> PeerConnection" where
  "AddUploadRequest req p =
     (if pn_uploadState p \<noteq> UploadStateUploading then p
      else
        (let block = \<lparr>ub_Begin = Left (pr_Range req), ub_End = Right (pr_Range req), ub_Transferred = 0\<rparr>;
             same = (\<lambda>item. ub_Begin item = ub_Begin block \<and> ub_End item = ub_End block)
         in if list_ex same (pn_uploadDone p) then p
            else if list_ex same (pn_uploadBlocks p) then p
            else p\<lparr>pn_uploadBlocks := pn_uploadBlocks p @ [block]\<rparr>))"

definition ClearUploadBlockRequests :: "PeerConnection \<Rightarrow> PeerConnection" where
  "ClearUploadBlockRequests p = p\<lparr>pn_uploadBlocks := [], pn_uploadDone := []\<rparr>"

section \<open>Downloads in flight\<close>

definition GetDownloading :: "PieceBlock \<Rightarrow> PeerConnection \<Rightarrow> nat option" where
  "GetDownloading block p =
     find (\<lambda>i. pb_Compare (pk_Block (pn_downloadQueue p ! i)) block = 0) [0..<length (pn_downloadQueue p)]"

definition IsRequesting :: "PieceBlock \<Rightarrow> PeerConnection \<Rightarrow> bool" where
  "IsRequesting block p \<longleftrightarrow> GetDownloading block p \<noteq> None"

definition removePending :: "PieceBlock \<Rightarrow> PeerConnection \<Rightarrow> PeerConnection" where
  "removePending block p =
     p\<lparr>pn_downloadQueue := filter (\<lambda>pb. pb_Compare (pk_Block pb) block \<noteq> 0) (pn_downloadQueue p)\<rparr>"

text \<open>\<open>limit\<close> is \<^verbatim>\<open>settings.PeerConnectionTimeout\<close> in seconds.\<close>

definition hasStalledDownloadRequest :: "int \<Rightarrow> int \<Rightarrow> PeerConnection \<Rightarrow> bool" where
  "hasStalledDownloadRequest limit now p \<longleftrightarrow>
     (if pn_transfer p = None \<or> pn_transferringData p \<or> pn_downloadQueue p = [] then False
      else
        (let timeout = max (limit * 500) (Seconds 10)
         in if MillisecondsSinceLastReceive now p < go_div timeout 2 then False
            else list_ex (\<lambda>pb. now - pk_CreateTime pb \<ge> timeout) (pn_downloadQueue p)))"

definition pn_SecondTick :: "int \<Rightarrow> int \<Rightarrow> int \<Rightarrow> PeerConnection \<Rightarrow> PeerConnection option" where
  "pn_SecondTick limit now tickIntervalMS p =
     (if co_disconnecting p then Some p
      else (case co_SecondTick tickIntervalMS p of
          None \<Rightarrow> None
        | Some p1 \<Rightarrow>
            (if now - co_lastReceive p1 > limit * 1000 then Some (co_Close ConnectionTimeout p1)
             else if hasStalledDownloadRequest limit now p1 then Some (co_Close ConnectionTimeout p1)
             else Some p1)))"

text \<open>The rates of the connection and of its transfer (\<open>None\<close> without one).\<close>

definition pn_Speed :: "int option \<Rightarrow> PeerConnection \<Rightarrow> PeerConnection \<times> PeerSpeed" where
  "pn_Speed transferRate p =
     (case transferRate of
        None \<Rightarrow> (p, pn_speed p)
      | Some transferDownloadRate \<Rightarrow>
          (let downloadRate = DownloadPayloadRate (co_stat p);
               speed =
                 (if downloadRate > 512 \<and> downloadRate > go_div transferDownloadRate 16 then PeerSpeedFast
                  else if downloadRate > 4096 \<and> downloadRate > go_div transferDownloadRate 64 then PeerSpeedMedium
                  else if downloadRate < go_div transferDownloadRate 15 \<and> pn_speed p = PeerSpeedFast
                  then PeerSpeedMedium
                  else PeerSpeedSlow)
           in (p\<lparr>pn_speed := speed\<rparr>, speed)))"

section \<open>The announced options\<close>

abbreviation hello_options :: MiscOptions where
  "hello_options \<equiv>
     \<lparr>mo_AICHVersion = 0, mo_UnicodeSupport = 1, mo_UDPVer = 0, mo_DataCompVer = 0, mo_SupportSecIdent = 0,
      mo_SourceExchange1Ver = 0, mo_ExtendedRequestsVer = 0, mo_AcceptCommentVer = 0,
      mo_NoViewSharedFiles = 1, mo_MultiPacket = 0, mo_SupportsPreview = 0\<rparr>"

text \<open>
  The options of the greeting are packed as \<open>116\<close>: Unicode support is not at bit 28, where a
  peer looks for it, and the bits set instead announce version 7 of comments. Unpacking does
  not undo packing.
\<close>

lemma misc_options_misplaced:
  "mo_IntValue hello_options = 116 \<and> \<not> bit (mo_IntValue hello_options) 28 \<and>
   mo_Assign (mo_IntValue hello_options) \<noteq> hello_options \<and>
   mo_AcceptCommentVer (mo_Assign (mo_IntValue hello_options)) = 7"
proof -
  have v: "mo_IntValue hello_options = 116" by (simp add: mo_IntValue_def shl_def)
  have c: "mo_AcceptCommentVer (mo_Assign 116) = 7" by (simp add: mo_Assign_def shr_def)
  have "mo_Assign 116 \<noteq> hello_options"
  proof
    assume "mo_Assign 116 = hello_options"
    from arg_cong [OF this, of mo_AcceptCommentVer] c show False by simp
  qed
  then show ?thesis unfolding v using c by (simp add: bit_iff_odd)
qed

text \<open>
  The second set of options: what is set is supported. Large files are supported when the bit
  is clear, so setting them announces that they are not.
\<close>

lemma misc_options2_bits:
  "SupportCaptcha (SetCaptcha v)" "SupportSourceExt2 (SetSourceExt2 v)"
  "SupportExtMultipacket (SetExtMultipacket v)" "\<not> SupportLargeFiles (SetLargeFiles v)"
proof -
  have one: "shr (v OR shl 1 n) n AND 1 = 1" for n
  proof -
    have "bit (v OR shl 1 n) n" by (simp add: shl_def bit_simps)
    then show ?thesis by (simp add: shr_def bit_iff_odd_drop_bit and_one_eq odd_iff_mod_2_eq_one)
  qed
  from one show "SupportCaptcha (SetCaptcha v)" "SupportSourceExt2 (SetSourceExt2 v)"
    "SupportExtMultipacket (SetExtMultipacket v)" "\<not> SupportLargeFiles (SetLargeFiles v)"
    by (simp_all add: SupportCaptcha_def SetCaptcha_def SupportSourceExt2_def SetSourceExt2_def
        SupportExtMultipacket_def SetExtMultipacket_def SupportLargeFiles_def SetLargeFiles_def)
qed

end
