(* ===== verification/Piece_Store.thy ===== *)
theory Piece_Store
  imports Errors Hashes Picker
begin

text \<open>
  Writing and hashing pieces: \<^verbatim>\<open>block_manager.go\<close>, \<^verbatim>\<open>piece_manager.go\<close> and
  \<^verbatim>\<open>disk/file_handler.go\<close>. Blocks arrive in any order; a block manager hashes them in the
  order of the file. Whether a system call of \<^verbatim>\<open>os\<close> succeeds is an argument
  (\<open>io\<close>); the file itself is its bytes. \<open>None\<close> is an index out of range.
\<close>

section \<open>Block manager\<close>

record BlockManager =
  bm_piece :: int
  bm_lastHashedBlock :: int
  bm_buffers :: "bytes option list"
  bm_hashed :: bytes
  bm_pieceHash :: "hash option"

text \<open>The number of blocks of a piece is never negative.\<close>

definition NewBlockManager :: "int \<Rightarrow> int \<Rightarrow> BlockManager" where
  "NewBlockManager piece buffersCount =
     \<lparr>bm_piece = piece, bm_lastHashedBlock = -1, bm_buffers = replicate (nat buffersCount) None,
      bm_hashed = [], bm_pieceHash = None\<rparr>"

text \<open>The loop over the buffers from the new block on: the slots left, the buffers hashed.\<close>

fun hash_loop :: "bytes option list \<Rightarrow> bytes option list \<times> bytes list" where
  "hash_loop [] = ([], [])"
| "hash_loop (None # bufs) = (None # bufs, [])"
| "hash_loop (Some buf # bufs) = (let (rest, out) = hash_loop bufs in (None # rest, buf # out))"

definition RegisterBlock :: "int \<Rightarrow> bytes \<Rightarrow> BlockManager \<Rightarrow> (BlockManager \<times> bytes list) option" where
  "RegisterBlock blockIndex buffer b =
     (case upd (bm_buffers b) blockIndex (Some buffer) of
        None \<Rightarrow> None
      | Some bufs \<Rightarrow>
          (if bm_lastHashedBlock b + 1 = blockIndex then
             (let (rest, freeBuffers) = hash_loop (drop (nat blockIndex) bufs)
              in Some (b\<lparr>bm_buffers := take (nat blockIndex) bufs @ rest,
                        bm_lastHashedBlock := bm_lastHashedBlock b + int (length freeBuffers),
                        bm_hashed := bm_hashed b @ concat freeBuffers\<rparr>, freeBuffers))
           else Some (b\<lparr>bm_buffers := bufs\<rparr>, [])))"

definition PieceHash :: "BlockManager \<Rightarrow> BlockManager \<times> hash" where
  "PieceHash b =
     (case bm_pieceHash b of
        Some h \<Rightarrow> (b, h)
      | None \<Rightarrow>
          (let h = (case HashFromData (bm_hashed b) of Inr h \<Rightarrow> h | Inl _ \<Rightarrow> Invalid)
           in (b\<lparr>bm_pieceHash := Some h\<rparr>, h)))"

definition ByteBuffersCount :: "BlockManager \<Rightarrow> nat" where
  "ByteBuffersCount b = length (filter (\<lambda>buf. buf \<noteq> None) (bm_buffers b))"

definition HashedSize :: "BlockManager \<Rightarrow> nat" where
  "HashedSize b = length (bm_hashed b)"

definition bm_Buffers :: "BlockManager \<Rightarrow> bytes list" where
  "bm_Buffers b = map the (filter (\<lambda>buf. buf \<noteq> None) (bm_buffers b))"

section \<open>Files\<close>

text \<open>
  The outcome of the system calls of one operation: whether opening, seeking, reading and
  removing succeed, and, when a write fails, how many bytes it had written.
\<close>

record io =
  io_open :: bool
  io_seek :: bool
  io_write :: "nat option"
  io_read :: bool
  io_remove :: bool

record FileHandler =
  fh_path :: string
  fh_open :: bool
  fh_disk :: "bytes option"

definition NewDesktopFileHandler :: "string \<Rightarrow> bytes option \<Rightarrow> FileHandler" where
  "NewDesktopFileHandler path disk = \<lparr>fh_path = path, fh_open = False, fh_disk = disk\<rparr>"

text \<open>\<open>File\<close> opens for reading and writing and creates the file; \<open>False\<close> is a nil file.\<close>

definition fh_File :: "io \<Rightarrow> FileHandler \<Rightarrow> FileHandler \<times> bool" where
  "fh_File io h =
     (if fh_open h then (h, True)
      else if io_open io then
        (h\<lparr>fh_open := True, fh_disk := Some (case fh_disk h of Some c \<Rightarrow> c | None \<Rightarrow> [])\<rparr>, True)
      else (h, False))"

definition fh_Close :: "FileHandler \<Rightarrow> FileHandler" where
  "fh_Close h = h\<lparr>fh_open := False\<rparr>"

definition fh_DeleteFile :: "io \<Rightarrow> FileHandler \<Rightarrow> FileHandler \<times> bool" where
  "fh_DeleteFile io h =
     (if io_remove io \<and> fh_disk h \<noteq> None then ((fh_Close h)\<lparr>fh_disk := None\<rparr>, True)
      else (fh_Close h, False))"

text \<open>What writing \<open>d\<close> at an offset makes of a file; a gap before it reads as zeros.\<close>

definition write_at :: "bytes \<Rightarrow> nat \<Rightarrow> bytes \<Rightarrow> bytes" where
  "write_at c off d =
     (if d = [] then c
      else take off (c @ replicate (off - length c) 0) @ d @ drop (off + length d) c)"

definition fh_content :: "FileHandler \<Rightarrow> bytes" where
  "fh_content h = (case fh_disk h of Some c \<Rightarrow> c | None \<Rightarrow> [])"

text \<open>\<open>io.ReadFull\<close> at an offset: \<open>None\<close> when the file is too short.\<close>

definition read_at :: "bytes \<Rightarrow> nat \<Rightarrow> nat \<Rightarrow> bytes option" where
  "read_at c off n = (if n \<le> length c - off then Some (take n (drop off c)) else None)"

section \<open>Piece manager\<close>

record PieceManager =
  pm_pieceCount :: int
  pm_blocksInLastPiece :: int
  pm_handler :: FileHandler
  pm_blockMgrs :: "BlockManager list"

definition NewPieceManager :: "FileHandler \<Rightarrow> int \<Rightarrow> int \<Rightarrow> PieceManager" where
  "NewPieceManager handler pieceCount blocksInLastPiece =
     \<lparr>pm_pieceCount = pieceCount, pm_blocksInLastPiece = blocksInLastPiece,
      pm_handler = handler, pm_blockMgrs = []\<rparr>"

definition find_bm :: "int \<Rightarrow> PieceManager \<Rightarrow> BlockManager option" where
  "find_bm piece p = find (\<lambda>m. bm_piece m = piece) (pm_blockMgrs p)"

text \<open>The manager of a piece, made when there is none; the pointer is the piece's index.\<close>

definition getBlockManager :: "int \<Rightarrow> PieceManager \<Rightarrow> PieceManager \<times> BlockManager" where
  "getBlockManager piece p =
     (case find_bm piece p of
        Some m \<Rightarrow> (p, m)
      | None \<Rightarrow>
          (let m = NewBlockManager piece (BlocksInPiece (pm_pieceCount p) (pm_blocksInLastPiece p) piece)
           in (p\<lparr>pm_blockMgrs := pm_blockMgrs p @ [m]\<rparr>, m)))"

fun set_bm :: "BlockManager \<Rightarrow> BlockManager list \<Rightarrow> BlockManager list" where
  "set_bm m [] = []"
| "set_bm m (m' # ms) = (if bm_piece m' = bm_piece m then m # ms else m' # set_bm m ms)"

fun remove_bm :: "int \<Rightarrow> BlockManager list \<Rightarrow> BlockManager list" where
  "remove_bm piece [] = []"
| "remove_bm piece (m # ms) = (if bm_piece m = piece then ms else m # remove_bm piece ms)"

definition pm_register :: "PieceBlock \<Rightarrow> bytes \<Rightarrow> PieceManager \<Rightarrow> (PieceManager \<times> bytes list) option" where
  "pm_register block buffer p =
     (let (p1, m) = getBlockManager (pb_PieceIndex block) p
      in map_option (\<lambda>(m', free). (p1\<lparr>pm_blockMgrs := set_bm m' (pm_blockMgrs p1)\<rparr>, free))
           (RegisterBlock (pb_PieceBlock block) buffer m))"

abbreviation io_error :: "'a outcome" where
  "io_error \<equiv> Inl (NewError IOException)"

definition WriteBlock ::
  "io \<Rightarrow> PieceBlock \<Rightarrow> bytes \<Rightarrow> PieceManager \<Rightarrow> (PieceManager \<times> bytes list outcome) option" where
  "WriteBlock io block buffer p =
     (let (h, file) = fh_File io (pm_handler p);
          bytesOffset = BlocksOffset block * BlockSize;
          p1 = p\<lparr>pm_handler := h\<rparr>
      in if \<not> file then Some (p1, io_error)
         else if \<not> io_seek io \<or> bytesOffset < 0 then Some (p1\<lparr>pm_handler := fh_Close h\<rparr>, io_error)
         else (case io_write io of
             Some n \<Rightarrow>
               Some (p1\<lparr>pm_handler := fh_Close (h\<lparr>fh_disk :=
                   Some (write_at (fh_content h) (nat bytesOffset) (take n buffer))\<rparr>)\<rparr>, io_error)
           | None \<Rightarrow>
               map_option (\<lambda>(p2, free). (p2, Inr free))
                 (pm_register block buffer (p1\<lparr>pm_handler := h\<lparr>fh_disk :=
                    Some (write_at (fh_content h) (nat bytesOffset) buffer)\<rparr>\<rparr>))))"

definition RestoreBlock ::
  "io \<Rightarrow> PieceBlock \<Rightarrow> int \<Rightarrow> PieceManager \<Rightarrow>
   (PieceManager \<times> (bytes list \<times> bytes) outcome) option" where
  "RestoreBlock io block fileSize p =
     (let (h, file) = fh_File io (pm_handler p);
          bytesOffset = BlocksOffset block * BlockSize;
          p1 = p\<lparr>pm_handler := h\<rparr>
      in if \<not> file then Some (p1, io_error)
         else if \<not> io_seek io \<or> bytesOffset < 0 then Some (p1, io_error)
         else if pb_Size block fileSize < 0 then None
         else (case read_at (fh_content h) (nat bytesOffset) (nat (pb_Size block fileSize)) of
             Some buffer \<Rightarrow>
               (if io_read io then
                  map_option (\<lambda>(p2, free). (p2, Inr (free, buffer))) (pm_register block buffer p1)
                else Some (p1, io_error))
           | None \<Rightarrow> Some (p1, io_error)))"

definition pm_ReadRange :: "io \<Rightarrow> int \<Rightarrow> int \<Rightarrow> PieceManager \<Rightarrow> PieceManager \<times> bytes outcome" where
  "pm_ReadRange io begin end p =
     (if end \<le> begin then (p, Inl (NewError IllegalArgument))
      else
        (let (h, file) = fh_File io (pm_handler p);
             p1 = p\<lparr>pm_handler := h\<rparr>
         in if \<not> file then (p1, io_error)
            else if \<not> io_seek io \<or> begin < 0 then (p1, io_error)
            else (case read_at (fh_content h) (nat begin) (nat (end - begin)) of
                Some buffer \<Rightarrow> (p1, if io_read io then Inr buffer else io_error)
              | None \<Rightarrow> (p1, io_error))))"

definition HashPiece :: "int \<Rightarrow> PieceManager \<Rightarrow> PieceManager \<times> hash" where
  "HashPiece pieceIndex p =
     (let (p1, m) = getBlockManager pieceIndex p;
          (m', h) = PieceHash m
      in (p1\<lparr>pm_blockMgrs := remove_bm pieceIndex (pm_blockMgrs p1)\<rparr>, h))"

definition pm_Abort :: "PieceManager \<Rightarrow> PieceManager \<times> bytes list" where
  "pm_Abort p = (p\<lparr>pm_blockMgrs := []\<rparr>, concat (map bm_Buffers (pm_blockMgrs p)))"

definition ReleaseFile :: "io \<Rightarrow> bool \<Rightarrow> PieceManager \<Rightarrow> PieceManager \<times> bytes list" where
  "ReleaseFile io deleteFile p =
     (let h = fh_Close (pm_handler p);
          h' = (if deleteFile then fst (fh_DeleteFile io h) else h)
      in pm_Abort (p\<lparr>pm_handler := h'\<rparr>))"

definition pm_DeleteFile :: "io \<Rightarrow> PieceManager \<Rightarrow> PieceManager \<times> bool" where
  "pm_DeleteFile io p =
     (let (h, ok) = fh_DeleteFile io (pm_handler p) in (p\<lparr>pm_handler := h\<rparr>, ok))"

section \<open>Hashing in the order of the file\<close>

lemma hash_loop_spec:
  "hash_loop bufs = (rest, out) \<Longrightarrow>
    length out \<le> length bufs \<and> (\<forall>i < length out. bufs ! i = Some (out ! i)) \<and>
    rest = replicate (length out) None @ drop (length out) bufs \<and>
    (length out < length bufs \<longrightarrow> bufs ! length out = None)"
proof (induction bufs arbitrary: rest out rule: hash_loop.induct)
  case (3 buf bufs)
  then obtain rest' out' where "hash_loop bufs = (rest', out')" "rest = None # rest'" "out = buf # out'"
    by (auto split: prod.splits)
  with "3.IH" show ?case by (auto simp: nth_Cons split: nat.splits)
qed auto

text \<open>
  The state of a manager of \<open>n\<close> blocks of which those in \<open>R\<close> have been registered, with
  contents \<open>D\<close>: it has hashed a prefix of the piece, keeps the later blocks, and the first
  block it has not hashed is missing.
\<close>

definition bm_inv :: "nat \<Rightarrow> (nat \<Rightarrow> bytes) \<Rightarrow> nat set \<Rightarrow> BlockManager \<Rightarrow> bool" where
  "bm_inv n D R b \<longleftrightarrow>
     length (bm_buffers b) = n \<and> -1 \<le> bm_lastHashedBlock b \<and> bm_lastHashedBlock b < int n \<and>
     (let k = nat (bm_lastHashedBlock b + 1)
      in {..<k} \<subseteq> R \<and> R \<subseteq> {..<n} \<and> k \<notin> R \<and> bm_hashed b = concat (map D [0..<k]) \<and>
         (\<forall>i<n. k \<le> i \<longrightarrow> bm_buffers b ! i = (if i \<in> R then Some (D i) else None)))"

lemma bm_inv_New: "bm_inv (nat n) D {} (NewBlockManager piece n)"
  by (simp add: bm_inv_def NewBlockManager_def)

text \<open>Registering again a block that is already hashed changes nothing that is hashed later.\<close>

lemma RegisterBlock_inv:
  assumes inv: "bm_inv n D R b" and i: "i < n"
  shows "\<exists>b' free D'. RegisterBlock (int i) buffer b = Some (b', free) \<and> bm_inv n D' (insert i R) b' \<and>
    bm_hashed b' = bm_hashed b @ concat free \<and> bm_piece b' = bm_piece b \<and> bm_pieceHash b' = bm_pieceHash b \<and>
    D' = (if int i \<le> bm_lastHashedBlock b then D else D(i := buffer))"
proof -
  define k where "k = nat (bm_lastHashedBlock b + 1)"
  have k: "bm_lastHashedBlock b = int k - 1" "k \<le> n" "length (bm_buffers b) = n" "{..<k} \<subseteq> R" "R \<subseteq> {..<n}"
    "k \<notin> R" "bm_hashed b = concat (map D [0..<k])"
    "\<And>j. j < n \<Longrightarrow> k \<le> j \<Longrightarrow> bm_buffers b ! j = (if j \<in> R then Some (D j) else None)"
    using inv by (auto simp: bm_inv_def k_def Let_def)
  define bufs where "bufs = (bm_buffers b)[i := Some buffer]"
  have u: "upd (bm_buffers b) (int i) (Some buffer) = Some bufs"
    using i k(3) by (simp add: upd_def bufs_def)
  show ?thesis
  proof (cases "k = i")
    case False
    define D' where "D' = (if i < k then D else D(i := buffer))"
    have reg: "RegisterBlock (int i) buffer b = Some (b\<lparr>bm_buffers := bufs\<rparr>, [])"
      using False by (simp add: RegisterBlock_def u k(1))
    have "map D' [0..<k] = map D [0..<k]" by (auto simp: D'_def)
    then have "bm_inv n D' (insert i R) (b\<lparr>bm_buffers := bufs\<rparr>)"
      using k i False by (auto simp: bm_inv_def Let_def bufs_def D'_def nth_list_update)
    moreover have "D' = (if int i \<le> bm_lastHashedBlock b then D else D(i := buffer))"
      using False by (auto simp: D'_def k(1))
    ultimately show ?thesis using reg by force
  next
    case True
    obtain rest out where hl: "hash_loop (drop i bufs) = (rest, out)" by (meson surj_pair)
    define m where "m = length out"
    have len: "length bufs = n" by (simp add: bufs_def k(3))
    have hs: "m \<le> n - i" "\<And>j. j < m \<Longrightarrow> bufs ! (i + j) = Some (out ! j)"
      "rest = replicate m None @ drop (i + m) bufs" "m < n - i \<Longrightarrow> bufs ! (i + m) = None"
      using hash_loop_spec [OF hl] i by (auto simp: m_def len add.commute)
    define D' where "D' = D(i := buffer)"
    have bD: "bufs ! j = (if j \<in> insert i R then Some (D' j) else None)" if "j < n" "i \<le> j" for j
      using that k True by (auto simp: bufs_def D'_def nth_list_update)
    have "m \<noteq> 0"
    proof
      assume "m = 0"
      with hs(4) i have "bufs ! i = None" by simp
      with bD [OF i] show False by simp
    qed
    have outD: "out ! j = D' (i + j)" "i + j \<in> insert i R" if "j < m" for j
      using hs(2) [OF that] bD [of "i + j"] that hs(1) by (auto split: if_splits)
    have outm: "out = map D' [i..<i + m]"
      by (rule nth_equalityI) (simp_all add: m_def outD(1) [unfolded m_def])
    define b' where "b' = b\<lparr>bm_buffers := take i bufs @ rest,
      bm_lastHashedBlock := bm_lastHashedBlock b + int m, bm_hashed := bm_hashed b @ concat out\<rparr>"
    have reg: "RegisterBlock (int i) buffer b = Some (b', out)"
      using True by (simp add: RegisterBlock_def u k(1) hl b'_def m_def)
    have "concat (map D [0..<i]) = concat (map D' [0..<i])"
      by (rule arg_cong [where f = concat]) (simp add: D'_def)
    then have hashed: "bm_hashed b' = concat (map D' [0..<i + m])"
      using k(7) True upt_add_eq_append [of 0 i m] by (simp add: b'_def outm)
    have "i + m \<notin> insert i R"
    proof
      assume a: "i + m \<in> insert i R"
      with k(5) i have n: "i + m < n" by auto
      then have "m < n - i" by simp
      with n hs(4) bD [of "i + m"] a show False by auto
    qed
    moreover have "{..<i + m} \<subseteq> insert i R"
    proof
      fix j
      assume "j \<in> {..<i + m}"
      then show "j \<in> insert i R"
        using k(4) True outD(2) [of "j - i"] by (cases "j < i") auto
    qed
    moreover have "length (take i bufs @ rest) = n"
      using hs(1,3) i len by simp
    moreover have "(take i bufs @ rest) ! j = (if j \<in> insert i R then Some (D' j) else None)"
      if "j < n" "i + m \<le> j" for j
      using that bD [of j] i len hs(3) by (auto simp: nth_append min_def)
    ultimately have "bm_inv n D' (insert i R) b'"
      using hashed k(1,5) i hs(1) True by (auto simp: bm_inv_def Let_def b'_def nat_add_distrib)
    moreover have "\<not> int i \<le> bm_lastHashedBlock b" using True by (simp add: k(1))
    ultimately show ?thesis using reg by (intro exI [of _ b'] exI [of _ out] exI [of _ D']) (simp add: b'_def D'_def)
  qed
qed

lemma bm_inv_complete:
  assumes "bm_inv n D {..<n} b"
  shows "bm_lastHashedBlock b = int n - 1" "bm_hashed b = concat (map D [0..<n])"
proof -
  define k where "k = nat (bm_lastHashedBlock b + 1)"
  have k: "k \<notin> {..<n}" "bm_lastHashedBlock b < int n" "-1 \<le> bm_lastHashedBlock b"
    "bm_hashed b = concat (map D [0..<k])"
    using assms by (auto simp: bm_inv_def k_def Let_def)
  then have "k = n" by (auto simp: k_def)
  with k show "bm_lastHashedBlock b = int n - 1" "bm_hashed b = concat (map D [0..<n])"
    by (auto simp: k_def)
qed

fun register_blocks :: "(nat \<times> bytes) list \<Rightarrow> BlockManager \<Rightarrow> (BlockManager \<times> bytes list) option" where
  "register_blocks [] b = Some (b, [])"
| "register_blocks ((i, buffer) # rs) b =
     (case RegisterBlock (int i) buffer b of
        None \<Rightarrow> None
      | Some (b', free) \<Rightarrow> map_option (\<lambda>(b'', free'). (b'', free @ free')) (register_blocks rs b'))"

lemma RegisterBlock_new:
  assumes inv: "bm_inv n D R b" and i: "i < n" "i \<notin> R"
  shows "\<exists>b' free. RegisterBlock (int i) (D i) b = Some (b', free) \<and> bm_inv n D (insert i R) b' \<and>
    bm_hashed b' = bm_hashed b @ concat free \<and> bm_piece b' = bm_piece b \<and> bm_pieceHash b' = bm_pieceHash b"
  using RegisterBlock_inv [OF inv i(1), of "D i"] by (auto split: if_splits)

lemma register_blocks_inv:
  assumes "bm_inv n D R b" and "distinct (map fst rs)" and "fst ` set rs \<subseteq> {..<n} - R"
    and "\<forall>(i, x)\<in>set rs. x = D i"
  shows "\<exists>b' free. register_blocks rs b = Some (b', free) \<and> bm_inv n D (R \<union> fst ` set rs) b' \<and>
    bm_hashed b' = bm_hashed b @ concat free \<and> bm_pieceHash b' = bm_pieceHash b"
  using assms
proof (induction rs arbitrary: b R)
  case Nil
  then show ?case by simp
next
  case (Cons r rs)
  obtain i where r: "r = (i, D i)" using Cons.prems(4) by (cases r) auto
  obtain b' free where b': "RegisterBlock (int i) (D i) b = Some (b', free)" "bm_inv n D (insert i R) b'"
    "bm_hashed b' = bm_hashed b @ concat free" "bm_pieceHash b' = bm_pieceHash b"
    using RegisterBlock_new [OF Cons.prems(1), of i] Cons.prems(3) r by auto
  have "fst ` set rs \<subseteq> {..<n} - insert i R" using Cons.prems(2,3) r by auto
  from Cons.IH [OF b'(2) _ this] Cons.prems(2,4) b' show ?case by (auto simp: r)
qed

lemma HashFromData_md4: "HashFromData x = Inr (md4Sum x)"
  by (simp add: HashFromData_def HashFromBytes_def hashSize_def length_md4Sum)

section \<open>Reading what was written\<close>

lemma length_write_at: "d \<noteq> [] \<Longrightarrow> length (write_at c off d) = max (length c) (off + length d)"
  by (simp add: write_at_def)

lemma read_write_same: "read_at (write_at c off d) off (length d) = Some d"
  by (cases "d = []") (simp_all add: read_at_def write_at_def)

lemma read_write_other:
  assumes "read_at c a n = Some x" and "a + n \<le> off \<or> off + length d \<le> a"
  shows "read_at (write_at c off d) a n = Some x"
proof (cases "d = [] \<or> n = 0")
  case True
  moreover have "read_at c' a 0 = Some []" for c' by (simp add: read_at_def)
  moreover have "write_at c off [] = c" by (simp add: write_at_def)
  ultimately show ?thesis using assms(1) by auto
next
  case False
  then have n: "a + n \<le> length c" "x = take n (drop a c)" "d \<noteq> []"
    using assms(1) by (auto simp: read_at_def split: if_splits)
  have len: "n \<le> length (write_at c off d) - a"
    using n by (simp add: length_write_at)
  have "take n (drop a (write_at c off d)) = take n (drop a c)"
  proof (cases "a + n \<le> off")
    case True
    with n show ?thesis by (simp add: write_at_def drop_take min_def)
  next
    case False
    with assms(2) n show ?thesis by (simp add: write_at_def)
  qed
  then show ?thesis using len n by (simp add: read_at_def)
qed

lemma read_at_append:
  "read_at c a (length x) = Some x \<Longrightarrow> read_at c (a + length x) (length y) = Some y \<Longrightarrow>
    read_at c a (length x + length y) = Some (x @ y)"
  by (auto simp: read_at_def take_add add.commute split: if_splits)

lemma length_concat_blocks:
  "(\<And>j. j < m \<Longrightarrow> length (D j) = bs) \<Longrightarrow> length (concat (map D [0..<m])) = m * bs"
  by (induction m) simp_all

lemma concat_reads:
  "(\<And>j. j < m \<Longrightarrow> read_at c (base + j * bs) (length (D j)) = Some (D j)) \<Longrightarrow>
   (\<And>j. Suc j < m \<Longrightarrow> length (D j) = bs) \<Longrightarrow>
   read_at c base (length (concat (map D [0..<m]))) = Some (concat (map D [0..<m]))"
proof (induction m)
  case 0
  then show ?case by (simp add: read_at_def)
next
  case (Suc m)
  define x where "x = concat (map D [0..<m])"
  have len: "length x = m * bs"
    unfolding x_def using Suc.prems(2) by (intro length_concat_blocks) simp
  have "read_at c base (length x) = Some x"
    unfolding x_def
  proof (rule Suc.IH)
    show "read_at c (base + j * bs) (length (D j)) = Some (D j)" if "j < m" for j
      using Suc.prems(1) [of j] that by (metis less_SucI)
    show "length (D j) = bs" if "Suc j < m" for j using Suc.prems(2) [of j] that by simp
  qed
  moreover have "read_at c (base + length x) (length (D m)) = Some (D m)"
    unfolding len by (rule Suc.prems(1)) simp
  moreover have "concat (map D [0..<Suc m]) = x @ D m" by (simp add: x_def)
  ultimately show ?case using read_at_append by (metis length_append)
qed

section \<open>The store\<close>

text \<open>The enumerator counts exactly the blocks of a file of \<open>fsize\<close> bytes.\<close>

definition enumerates :: "int \<Rightarrow> int \<Rightarrow> int \<Rightarrow> bool" where
  "enumerates fsize n blast \<longleftrightarrow>
     (\<forall>i j. 0 \<le> i \<and> i < n \<longrightarrow>
        (0 \<le> j \<and> j < BlocksInPiece n blast i \<longleftrightarrow> valid_block fsize (NewPieceBlock i j)))"

text \<open>All system calls succeed.\<close>

definition io_ok :: io where
  "io_ok = \<lparr>io_open = True, io_seek = True, io_write = None, io_read = True, io_remove = True\<rparr>"

fun write_blocks :: "(PieceBlock \<times> bytes) list \<Rightarrow> PieceManager \<Rightarrow> PieceManager option" where
  "write_blocks [] p = Some p"
| "write_blocks ((block, buffer) # ws) p =
     (case WriteBlock io_ok block buffer p of Some (p', Inr _) \<Rightarrow> write_blocks ws p' | _ \<Rightarrow> None)"

definition block_pos :: "PieceBlock \<Rightarrow> nat" where
  "block_pos pb = nat (BlocksOffset pb * BlockSize)"

text \<open>
  After the blocks of \<open>S\<close> were written, with contents \<open>D\<close>: each manager is in the state of
  its piece's blocks, each block written has a manager, and the file has the blocks in place.
\<close>

definition pm_inv :: "int \<Rightarrow> (PieceBlock \<Rightarrow> bytes) \<Rightarrow> PieceBlock set \<Rightarrow> PieceManager \<Rightarrow> bool" where
  "pm_inv fsize D S p \<longleftrightarrow>
     distinct (map bm_piece (pm_blockMgrs p)) \<and>
     (\<forall>m\<in>set (pm_blockMgrs p). bm_pieceHash m = None \<and>
        bm_inv (nat (BlocksInPiece (pm_pieceCount p) (pm_blocksInLastPiece p) (bm_piece m)))
          (\<lambda>j. D (NewPieceBlock (bm_piece m) (int j))) {j. NewPieceBlock (bm_piece m) (int j) \<in> S} m) \<and>
     (\<forall>pb\<in>S. valid_block fsize pb \<and> int (length (D pb)) = pb_Size pb fsize \<and>
        (\<exists>m\<in>set (pm_blockMgrs p). bm_piece m = pb_PieceIndex pb) \<and>
        read_at (fh_content (pm_handler p)) (block_pos pb) (length (D pb)) = Some (D pb))"

lemma NewPieceBlock_is: "NewPieceBlock a b = pb \<longleftrightarrow> a = pb_PieceIndex pb \<and> b = pb_PieceBlock pb"
  by (cases pb) (auto simp: NewPieceBlock_def)

lemma set_bm_id: "distinct (map bm_piece ms) \<Longrightarrow> m \<in> set ms \<Longrightarrow> bm_piece m' = bm_piece m \<Longrightarrow>
    set (set_bm m' ms) = insert m' (set ms - {m}) \<and> map bm_piece (set_bm m' ms) = map bm_piece ms"
  by (induction ms) (auto simp: rev_image_eqI)

lemma find_bm_Some: "find_bm i p = Some m \<Longrightarrow> m \<in> set (pm_blockMgrs p) \<and> bm_piece m = i"
  by (auto simp: find_bm_def find_Some_iff)

lemma find_bm_None: "find_bm i p = None \<longleftrightarrow> (\<forall>m\<in>set (pm_blockMgrs p). bm_piece m \<noteq> i)"
  by (auto simp: find_bm_def find_None_iff)

lemma valid_block_pos: "valid_block fsize pb \<Longrightarrow> int (block_pos pb) = BlocksOffset pb * BlockSize"
  by (simp add: block_pos_def valid_block_def BlocksOffset_def geometry_constants)

lemma pb_Size_valid:
  "valid_block fsize pb \<Longrightarrow> pb_Size pb fsize = min BlockSize (fsize - BlocksOffset pb * BlockSize)"
  by (simp add: pb_Size_def pb_Range_offset)

text \<open>Two blocks of a file do not overlap.\<close>

lemma blocks_apart:
  assumes "valid_block fsize p" "valid_block fsize q" "p \<noteq> q"
    "int (length x) = pb_Size p fsize" "int (length y) = pb_Size q fsize"
  shows "block_pos p + length x \<le> block_pos q \<or> block_pos q + length y \<le> block_pos p"
proof -
  have "BlocksOffset p \<noteq> BlocksOffset q" using BlocksOffset_inj [OF assms(1,2)] assms(3) by blast
  then have "BlocksOffset p + 1 \<le> BlocksOffset q \<or> BlocksOffset q + 1 \<le> BlocksOffset p" by linarith
  then have "int (block_pos p) + int (length x) \<le> int (block_pos q) \<or>
      int (block_pos q) + int (length y) \<le> int (block_pos p)"
    unfolding valid_block_pos [OF assms(1)] valid_block_pos [OF assms(2)] assms(4,5)
      pb_Size_valid [OF assms(1)] pb_Size_valid [OF assms(2)] BlockSize_eq
    by linarith
  then show ?thesis by linarith
qed

text \<open>The manager of a piece, new or not, is in the state of its blocks.\<close>

lemma getBlockManager_inv:
  assumes "pm_inv fsize D S p"
  obtains p1 m where "getBlockManager i p = (p1, m)" "pm_inv fsize D S p1" "m \<in> set (pm_blockMgrs p1)"
    "bm_piece m = i" "pm_handler p1 = pm_handler p" "pm_pieceCount p1 = pm_pieceCount p"
    "pm_blocksInLastPiece p1 = pm_blocksInLastPiece p" "pm_blockMgrs p1 = pm_blockMgrs p @ (if find_bm i p = None then [m] else [])"
proof (cases "find_bm i p")
  case (Some m)
  then show ?thesis
    using that [of p m] assms find_bm_Some [OF Some] by (simp add: getBlockManager_def)
next
  case None
  define m where "m = NewBlockManager i (BlocksInPiece (pm_pieceCount p) (pm_blocksInLastPiece p) i)"
  have m: "bm_piece m = i" "bm_pieceHash m = None" by (simp_all add: m_def NewBlockManager_def)
  have "NewPieceBlock i (int j) \<notin> S" for j
    using assms None unfolding pm_inv_def find_bm_None by (auto simp: NewPieceBlock_def)
  then have S: "{j. NewPieceBlock i (int j) \<in> S} = {}" by blast
  have new: "bm_inv (nat (BlocksInPiece (pm_pieceCount p) (pm_blocksInLastPiece p) i)) E {} m" for E
    unfolding m_def by (rule bm_inv_New)
  have "pm_inv fsize D S (p\<lparr>pm_blockMgrs := pm_blockMgrs p @ [m]\<rparr>)"
    using assms None m new S unfolding pm_inv_def find_bm_None by auto
  then show ?thesis
    using that [of "p\<lparr>pm_blockMgrs := pm_blockMgrs p @ [m]\<rparr>" m] None m
    by (simp add: getBlockManager_def m_def Let_def)
qed

lemma pm_register_inv:
  assumes inv: "pm_inv fsize D S p"
    and enum: "enumerates fsize (pm_pieceCount p) (pm_blocksInLastPiece p)"
    and pb: "valid_block fsize pb" "pb_PieceIndex pb < pm_pieceCount p" "pb \<notin> S"
    and len: "int (length (D pb)) = pb_Size pb fsize"
    and disk: "read_at (fh_content (pm_handler p)) (block_pos pb) (length (D pb)) = Some (D pb)"
  shows "\<exists>p' free. pm_register pb (D pb) p = Some (p', free) \<and> pm_inv fsize D (insert pb S) p' \<and>
    pm_handler p' = pm_handler p \<and> pm_pieceCount p' = pm_pieceCount p \<and>
    pm_blocksInLastPiece p' = pm_blocksInLastPiece p"
proof -
  define i j where "i = pb_PieceIndex pb" and "j = nat (pb_PieceBlock pb)"
  have ij: "pb = NewPieceBlock i (int j)" "0 \<le> i"
    using pb(1) by (auto simp: NewPieceBlock_def i_def j_def valid_block_def)
  have sel: "pb_PieceIndex pb = i" "pb_PieceBlock pb = int j"
    using pb(1) by (simp_all add: i_def j_def valid_block_def)
  obtain p1 m where g: "getBlockManager i p = (p1, m)" "pm_inv fsize D S p1" "m \<in> set (pm_blockMgrs p1)"
    "bm_piece m = i" "pm_handler p1 = pm_handler p" "pm_pieceCount p1 = pm_pieceCount p"
    "pm_blocksInLastPiece p1 = pm_blocksInLastPiece p"
    using getBlockManager_inv [OF inv] by metis
  define n where "n = nat (BlocksInPiece (pm_pieceCount p) (pm_blocksInLastPiece p) i)"
  have "valid_block fsize (NewPieceBlock i (int j))" using pb(1) ij(1) by metis
  then have "int j < BlocksInPiece (pm_pieceCount p) (pm_blocksInLastPiece p) i"
    using enum pb(2) ij(2) sel(1) unfolding enumerates_def by blast
  then have j: "j < n" by (simp add: n_def)
  have m: "bm_inv n (\<lambda>k. D (NewPieceBlock i (int k))) {k. NewPieceBlock i (int k) \<in> S} m"
    "bm_pieceHash m = None"
    using g unfolding pm_inv_def n_def by auto
  have "j \<notin> {k. NewPieceBlock i (int k) \<in> S}" using pb(3) ij(1) by (metis mem_Collect_eq)
  then obtain m' free where m': "RegisterBlock (int j) (D pb) m = Some (m', free)"
    "bm_inv n (\<lambda>k. D (NewPieceBlock i (int k))) (insert j {k. NewPieceBlock i (int k) \<in> S}) m'"
    "bm_piece m' = i" "bm_pieceHash m' = None"
    using RegisterBlock_new [OF m(1) j] m(2) g(4) unfolding ij(1) [symmetric] by auto
  define p' where "p' = p1\<lparr>pm_blockMgrs := set_bm m' (pm_blockMgrs p1)\<rparr>"
  have reg: "pm_register pb (D pb) p = Some (p', free)"
    using g(1) m'(1) sel by (simp add: pm_register_def p'_def)
  have d: "distinct (map bm_piece (pm_blockMgrs p1))" using g(2) by (simp add: pm_inv_def)
  have set: "set (pm_blockMgrs p') = insert m' (set (pm_blockMgrs p1) - {m})"
    "map bm_piece (pm_blockMgrs p') = map bm_piece (pm_blockMgrs p1)"
    using set_bm_id [OF d g(3)] m'(3) g(4) by (simp_all add: p'_def)
  have ins: "{k. NewPieceBlock (bm_piece x) (int k) \<in> insert pb S} =
      (if bm_piece x = i then insert j {k. NewPieceBlock i (int k) \<in> S}
       else {k. NewPieceBlock (bm_piece x) (int k) \<in> S})" for x
    using ij(1) by (auto simp: NewPieceBlock_def)
  have other: "bm_piece x \<noteq> i" if "x \<in> set (pm_blockMgrs p1)" "x \<noteq> m" for x
    using distinct_map_eqD [OF d that(1) g(3)] that(2) g(4) by auto
  have piece: "\<exists>x\<in>set (pm_blockMgrs p'). bm_piece x = k"
    if "\<exists>x\<in>set (pm_blockMgrs p1). bm_piece x = k" for k
    using that m'(3) g(4) unfolding set by auto
  have mgrs: "bm_pieceHash x = None \<and> bm_inv (nat (BlocksInPiece (pm_pieceCount p) (pm_blocksInLastPiece p) (bm_piece x)))
      (\<lambda>k. D (NewPieceBlock (bm_piece x) (int k))) {k. NewPieceBlock (bm_piece x) (int k) \<in> insert pb S} x"
    if x: "x \<in> set (pm_blockMgrs p')" for x
  proof (cases "x = m'")
    case True
    show ?thesis unfolding True unfolding ins unfolding m'(3) using m'(2,4) by (simp add: n_def)
  next
    case False
    with x have "x \<in> set (pm_blockMgrs p1)" "x \<noteq> m" unfolding set by auto
    with other g(2,6,7) show ?thesis unfolding ins by (simp add: pm_inv_def)
  qed
  have "pm_inv fsize D (insert pb S) p'"
    unfolding pm_inv_def
  proof (intro conjI ballI)
    show "distinct (map bm_piece (pm_blockMgrs p'))" using d set(2) by simp
    show "bm_pieceHash x = None" if "x \<in> set (pm_blockMgrs p')" for x using mgrs [OF that] by simp
    show "bm_inv (nat (BlocksInPiece (pm_pieceCount p') (pm_blocksInLastPiece p') (bm_piece x)))
        (\<lambda>k. D (NewPieceBlock (bm_piece x) (int k))) {k. NewPieceBlock (bm_piece x) (int k) \<in> insert pb S} x"
      if "x \<in> set (pm_blockMgrs p')" for x
      using mgrs [OF that] g(6,7) by (simp add: p'_def)
    fix q
    assume q: "q \<in> insert pb S"
    then show "valid_block fsize q" "int (length (D q)) = pb_Size q fsize"
      using g(2) pb(1) len by (auto simp: pm_inv_def)
    show "read_at (fh_content (pm_handler p')) (block_pos q) (length (D q)) = Some (D q)"
      using q g(2,5) disk by (auto simp: pm_inv_def p'_def)
    have "\<exists>x\<in>set (pm_blockMgrs p1). bm_piece x = pb_PieceIndex q"
      using q g(2-4) by (auto simp: pm_inv_def i_def)
    then show "\<exists>x\<in>set (pm_blockMgrs p'). bm_piece x = pb_PieceIndex q" by (rule piece)
  qed
  with reg g(5-7) show ?thesis by (auto simp: p'_def)
qed

lemma WriteBlock_ok:
  assumes inv: "pm_inv fsize D S p"
    and enum: "enumerates fsize (pm_pieceCount p) (pm_blocksInLastPiece p)"
    and pb: "valid_block fsize pb" "pb_PieceIndex pb < pm_pieceCount p" "pb \<notin> S"
    and len: "int (length (D pb)) = pb_Size pb fsize"
  shows "\<exists>p' free. WriteBlock io_ok pb (D pb) p = Some (p', Inr free) \<and> pm_inv fsize D (insert pb S) p' \<and>
    pm_pieceCount p' = pm_pieceCount p \<and> pm_blocksInLastPiece p' = pm_blocksInLastPiece p"
proof -
  define h where "h = fst (fh_File io_ok (pm_handler p))"
  have h: "fh_File io_ok (pm_handler p) = (h, True)" "fh_content h = fh_content (pm_handler p)"
    by (simp_all add: h_def fh_File_def io_ok_def fh_content_def split: option.splits)
  define c where "c = write_at (fh_content h) (block_pos pb) (D pb)"
  define p1 where "p1 = p\<lparr>pm_handler := h\<lparr>fh_disk := Some c\<rparr>\<rparr>"
  have keep: "read_at c (block_pos q) (length (D q)) = Some (D q)" if "q \<in> S" for q
  proof -
    have q: "valid_block fsize q" "int (length (D q)) = pb_Size q fsize"
      "read_at (fh_content h) (block_pos q) (length (D q)) = Some (D q)"
      using inv that h(2) by (auto simp: pm_inv_def)
    have "q \<noteq> pb" using that pb(3) by auto
    from blocks_apart [OF q(1) pb(1) this q(2) len] show ?thesis
      unfolding c_def by (intro read_write_other [OF q(3)])
  qed
  have "pm_inv fsize D S p1"
    using inv keep by (auto simp: pm_inv_def p1_def fh_content_def)
  moreover have "read_at (fh_content (pm_handler p1)) (block_pos pb) (length (D pb)) = Some (D pb)"
    by (simp add: p1_def fh_content_def c_def read_write_same)
  ultimately obtain p' free where p': "pm_register pb (D pb) p1 = Some (p', free)"
    "pm_inv fsize D (insert pb S) p'" "pm_pieceCount p' = pm_pieceCount p" "pm_blocksInLastPiece p' = pm_blocksInLastPiece p"
    using pm_register_inv [of fsize D S p1 pb] enum pb len by (auto simp: p1_def)
  have "0 \<le> BlocksOffset pb * BlockSize"
    using valid_block_pos [OF pb(1)] by linarith
  then have "WriteBlock io_ok pb (D pb) p = Some (p', Inr free)"
    using p'(1) h(1) by (simp add: WriteBlock_def Let_def io_ok_def p1_def c_def block_pos_def)
  with p' show ?thesis by blast
qed

lemma write_blocks_inv:
  assumes "pm_inv fsize D S p" and "enumerates fsize (pm_pieceCount p) (pm_blocksInLastPiece p)"
    and "distinct (map fst ws)" and "fst ` set ws \<inter> S = {}"
    and "\<forall>(pb, x)\<in>set ws. x = D pb \<and> valid_block fsize pb \<and> pb_PieceIndex pb < pm_pieceCount p \<and>
           int (length x) = pb_Size pb fsize"
  shows "\<exists>p'. write_blocks ws p = Some p' \<and> pm_inv fsize D (S \<union> fst ` set ws) p' \<and>
    pm_pieceCount p' = pm_pieceCount p \<and> pm_blocksInLastPiece p' = pm_blocksInLastPiece p"
  using assms
proof (induction ws arbitrary: S p)
  case Nil
  then show ?case by simp
next
  case (Cons w ws)
  obtain pb where w: "w = (pb, D pb)" using Cons.prems(5) by (cases w) auto
  have pb: "valid_block fsize pb" "pb_PieceIndex pb < pm_pieceCount p" "pb \<notin> S"
    "int (length (D pb)) = pb_Size pb fsize"
    using Cons.prems(4,5) w by auto
  from WriteBlock_ok [OF Cons.prems(1,2) pb]
  obtain p1 free where p1: "WriteBlock io_ok pb (D pb) p = Some (p1, Inr free)" "pm_inv fsize D (insert pb S) p1"
    "pm_pieceCount p1 = pm_pieceCount p" "pm_blocksInLastPiece p1 = pm_blocksInLastPiece p" by blast
  have "fst ` set ws \<inter> insert pb S = {}" using Cons.prems(3,4) w by auto
  with Cons.IH [OF p1(2)] Cons.prems p1(3,4) show ?case
    by (auto simp: w p1(1))
qed

lemma enumerates_nat:
  "enumerates fsize n blast \<Longrightarrow> 0 \<le> i \<Longrightarrow> i < n \<Longrightarrow>
    k < nat (BlocksInPiece n blast i) \<longleftrightarrow> valid_block fsize (NewPieceBlock i (int k))"
  unfolding enumerates_def zless_nat_eq_int_zless by (metis of_nat_0_le_iff)

definition piece_blocks :: "(PieceBlock \<Rightarrow> bytes) \<Rightarrow> PieceManager \<Rightarrow> int \<Rightarrow> bytes list" where
  "piece_blocks D p i =
     map (\<lambda>j. D (NewPieceBlock i (int j)))
       [0..<nat (BlocksInPiece (pm_pieceCount p) (pm_blocksInLastPiece p) i)]"

lemma HashPiece_complete:
  assumes inv: "pm_inv fsize D S p" and i: "0 \<le> i" "i < pm_pieceCount p"
    and enum: "enumerates fsize (pm_pieceCount p) (pm_blocksInLastPiece p)"
    and all: "\<forall>pb. valid_block fsize pb \<and> pb_PieceIndex pb = i \<longrightarrow> pb \<in> S"
  shows "snd (HashPiece i p) = md4Sum (concat (piece_blocks D p i))"
proof -
  obtain p1 m where g: "getBlockManager i p = (p1, m)" "pm_inv fsize D S p1" "m \<in> set (pm_blockMgrs p1)"
    "bm_piece m = i" "pm_pieceCount p1 = pm_pieceCount p" "pm_blocksInLastPiece p1 = pm_blocksInLastPiece p"
    using getBlockManager_inv [OF inv] by metis
  define n where "n = nat (BlocksInPiece (pm_pieceCount p) (pm_blocksInLastPiece p) i)"
  have m: "bm_inv n (\<lambda>k. D (NewPieceBlock i (int k))) {k. NewPieceBlock i (int k) \<in> S} m" "bm_pieceHash m = None"
    using g unfolding pm_inv_def n_def by auto
  have "k < n \<longleftrightarrow> valid_block fsize (NewPieceBlock i (int k))" for k
    unfolding n_def by (rule enumerates_nat [OF enum i(1,2)])
  moreover have "valid_block fsize (NewPieceBlock i (int k)) \<longleftrightarrow> NewPieceBlock i (int k) \<in> S" for k
    using all inv unfolding pm_inv_def by (metis NewPieceBlock_is)
  ultimately have "{k. NewPieceBlock i (int k) \<in> S} = {..<n}" by auto
  with m(1) have "bm_hashed m = concat (piece_blocks D p i)"
    using bm_inv_complete(2) unfolding piece_blocks_def n_def by metis
  then show ?thesis
    using g(1) m(2) by (simp add: HashPiece_def PieceHash_def HashFromData_md4 Let_def)
qed

text \<open>The blocks of a piece lie one after the other in the file.\<close>

lemma piece_on_disk:
  assumes inv: "pm_inv fsize D S p" and i: "0 \<le> i" "i < pm_pieceCount p" "i * PieceSize < fsize"
    and enum: "enumerates fsize (pm_pieceCount p) (pm_blocksInLastPiece p)"
    and all: "\<forall>pb. valid_block fsize pb \<and> pb_PieceIndex pb = i \<longrightarrow> pb \<in> S"
  defines "x \<equiv> concat (piece_blocks D p i)"
  shows "read_at (fh_content (pm_handler p)) (nat (i * PieceSize)) (length x) = Some x \<and>
    int (length x) = min ((i + 1) * PieceSize) fsize - i * PieceSize"
proof -
  define n where "n = nat (BlocksInPiece (pm_pieceCount p) (pm_blocksInLastPiece p) i)"
  define E where "E = (\<lambda>j. D (NewPieceBlock i (int j)))"
  have x: "x = concat (map E [0..<n])" by (simp add: x_def piece_blocks_def n_def E_def)
  have valid: "k < n \<longleftrightarrow> valid_block fsize (NewPieceBlock i (int k))" for k
    unfolding n_def by (rule enumerates_nat [OF enum i(1,2)])
  have off: "BlocksOffset (NewPieceBlock i (int k)) * BlockSize = i * PieceSize + int k * BlockSize" for k
    by (simp add: BlocksOffset_def NewPieceBlock_def geometry_constants algebra_simps)
  have fits: "valid_block fsize (NewPieceBlock i (int k)) \<longleftrightarrow> k < 50 \<and> i * PieceSize + int k * BlockSize < fsize" for k
    using i(1) off [of k] unfolding valid_block_def by (simp add: NewPieceBlock_def BlocksPerPiece_eq)
  have size: "int (length (E k)) = min BlockSize (fsize - (i * PieceSize + int k * BlockSize))" if "k < n" for k
  proof -
    have "NewPieceBlock i (int k) \<in> S" using all that valid [of k] by (simp add: NewPieceBlock_def)
    with inv have "int (length (E k)) = pb_Size (NewPieceBlock i (int k)) fsize" by (simp add: pm_inv_def E_def)
    then show ?thesis using pb_Size_valid [of fsize "NewPieceBlock i (int k)"] that valid [of k] off [of k] by simp
  qed
  have rd: "read_at (fh_content (pm_handler p)) (nat (i * PieceSize) + j * nat BlockSize) (length (E j)) = Some (E j)"
    if "j < n" for j
  proof -
    have v: "valid_block fsize (NewPieceBlock i (int j))" using that valid by simp
    with all have "NewPieceBlock i (int j) \<in> S" by (simp add: NewPieceBlock_def)
    moreover have "block_pos (NewPieceBlock i (int j)) = nat (i * PieceSize) + j * nat BlockSize"
      using i(1) unfolding block_pos_def off by (simp add: geometry_constants nat_add_distrib nat_mult_distrib)
    ultimately show ?thesis using inv by (auto simp: pm_inv_def E_def)
  qed
  have full: "length (E j) = nat BlockSize" if "Suc j < n" for j
    using size [of j] that fits [of "Suc j"] valid [of "Suc j"] by (simp add: BlockSize_eq)
  have "n \<noteq> 0" using valid [of 0] fits [of 0] i(3) by simp
  then obtain k where k: "n = Suc k" by (cases n) auto
  have "length (concat (map E [0..<k])) = k * nat BlockSize"
    using full k by (intro length_concat_blocks) simp
  then have "int (length x) = int k * BlockSize + min BlockSize (fsize - (i * PieceSize + int k * BlockSize))"
    using size [of k] by (simp add: x k BlockSize_eq)
  also have "\<dots> = min ((i + 1) * PieceSize) fsize - i * PieceSize"
    using valid [of k] fits [of k] valid [of n] fits [of n] k by (auto simp: geometry_constants)
  finally show ?thesis
    using concat_reads [of n "fh_content (pm_handler p)" "nat (i * PieceSize)" "nat BlockSize" E] rd full
    by (simp add: x)
qed

section \<open>Writing and hashing over and over\<close>

text \<open>Only the contents of registered blocks matter.\<close>

lemma bm_inv_cong:
  assumes "bm_inv n D R b" and eq: "\<And>j. j \<in> R \<Longrightarrow> D j = E j"
  shows "bm_inv n E R b"
proof -
  define k where "k = nat (bm_lastHashedBlock b + 1)"
  have "{..<k} \<subseteq> R" using assms(1) by (simp add: bm_inv_def k_def Let_def)
  then have "map D [0..<k] = map E [0..<k]" using eq by auto
  then have "concat (map D [0..<k]) = concat (map E [0..<k])" by (rule arg_cong)
  with assms show ?thesis unfolding bm_inv_def Let_def k_def by simp
qed

lemma pm_inv_cong:
  assumes "pm_inv fsize D S p" and "\<And>pb. pb \<in> S \<Longrightarrow> D pb = E pb"
  shows "pm_inv fsize E S p"
  using assms unfolding pm_inv_def
  by (auto intro: bm_inv_cong [where D = "\<lambda>j. D (NewPieceBlock (bm_piece m) (int j))" for m])

lemma pm_inv_empty: "pm_inv fsize D {} (p\<lparr>pm_handler := h, pm_blockMgrs := []\<rparr>)"
  by (simp add: pm_inv_def)

definition same_pieces :: "PieceManager \<Rightarrow> PieceManager \<Rightarrow> bool" where
  "same_pieces p q \<longleftrightarrow> pm_pieceCount q = pm_pieceCount p \<and> pm_blocksInLastPiece q = pm_blocksInLastPiece p"

lemma set_remove_bm:
  "distinct (map bm_piece ms) \<Longrightarrow> set (remove_bm i ms) = {m \<in> set ms. bm_piece m \<noteq> i} \<and>
     distinct (map bm_piece (remove_bm i ms))"
  by (induction ms) (auto intro: rev_image_eqI)

lemma HashPiece_inv:
  assumes inv: "pm_inv fsize D S p"
  shows "pm_inv fsize D {pb \<in> S. pb_PieceIndex pb \<noteq> i} (fst (HashPiece i p)) \<and>
    pm_handler (fst (HashPiece i p)) = pm_handler p \<and> same_pieces p (fst (HashPiece i p))"
proof -
  obtain p1 m where g: "getBlockManager i p = (p1, m)" "pm_inv fsize D S p1"
    "pm_pieceCount p1 = pm_pieceCount p" "pm_blocksInLastPiece p1 = pm_blocksInLastPiece p"
    using getBlockManager_inv [OF inv] by metis
  have h: "pm_handler p1 = pm_handler p"
    using g(1) by (auto simp: getBlockManager_def Let_def split: option.splits)
  define q where "q = p1\<lparr>pm_blockMgrs := remove_bm i (pm_blockMgrs p1)\<rparr>"
  have q: "fst (HashPiece i p) = q" by (simp add: HashPiece_def g(1) q_def split: prod.splits)
  have ms: "set (pm_blockMgrs q) = {m \<in> set (pm_blockMgrs p1). bm_piece m \<noteq> i}"
    "distinct (map bm_piece (pm_blockMgrs q))"
    using set_remove_bm [of "pm_blockMgrs p1" i] g(2) by (simp_all add: q_def pm_inv_def)
  have same: "{j. NewPieceBlock (bm_piece m) (int j) \<in> {pb \<in> S. pb_PieceIndex pb \<noteq> i}} =
      {j. NewPieceBlock (bm_piece m) (int j) \<in> S}" if "bm_piece m \<noteq> i" for m
    using that by (auto simp: NewPieceBlock_def)
  have "pm_inv fsize D {pb \<in> S. pb_PieceIndex pb \<noteq> i} q"
    unfolding pm_inv_def
  proof (intro conjI ballI)
    show "distinct (map bm_piece (pm_blockMgrs q))" by (rule ms(2))
    fix m assume "m \<in> set (pm_blockMgrs q)"
    then have m: "m \<in> set (pm_blockMgrs p1)" "bm_piece m \<noteq> i" using ms(1) by auto
    with g(2) show "bm_pieceHash m = None" by (simp add: pm_inv_def)
    show "bm_inv (nat (BlocksInPiece (pm_pieceCount q) (pm_blocksInLastPiece q) (bm_piece m)))
        (\<lambda>j. D (NewPieceBlock (bm_piece m) (int j)))
        {j. NewPieceBlock (bm_piece m) (int j) \<in> {pb \<in> S. pb_PieceIndex pb \<noteq> i}} m"
      unfolding same [OF m(2)] using g(2) m(1) by (simp add: pm_inv_def q_def)
  next
    fix pb assume pb: "pb \<in> {pb \<in> S. pb_PieceIndex pb \<noteq> i}"
    with g(2) show "valid_block fsize pb" "int (length (D pb)) = pb_Size pb fsize"
      "read_at (fh_content (pm_handler q)) (block_pos pb) (length (D pb)) = Some (D pb)"
      by (auto simp: pm_inv_def q_def)
    obtain m' where "m' \<in> set (pm_blockMgrs p1)" "bm_piece m' = pb_PieceIndex pb"
      using g(2) pb by (auto simp: pm_inv_def)
    with pb ms(1) show "\<exists>m\<in>set (pm_blockMgrs q). bm_piece m = pb_PieceIndex pb" by auto
  qed
  then show ?thesis using g h by (simp add: q same_pieces_def) (simp add: q_def)
qed

text \<open>The bytes of piece \<open>i\<close> in the file.\<close>

definition file_piece :: "int \<Rightarrow> int \<Rightarrow> PieceManager \<Rightarrow> bytes option" where
  "file_piece fsize i p =
     read_at (fh_content (pm_handler p)) (nat (i * PieceSize)) (nat (min ((i + 1) * PieceSize) fsize - i * PieceSize))"

lemma HashPiece_file_piece:
  assumes "pm_inv fsize D S p" and "0 \<le> i" "i < pm_pieceCount p" "i * PieceSize < fsize"
    and "enumerates fsize (pm_pieceCount p) (pm_blocksInLastPiece p)"
    and "\<forall>pb. valid_block fsize pb \<and> pb_PieceIndex pb = i \<longrightarrow> pb \<in> S"
  shows "\<exists>x. file_piece fsize i p = Some x \<and> snd (HashPiece i p) = md4Sum x"
proof -
  define x where "x = concat (piece_blocks D p i)"
  have "snd (HashPiece i p) = md4Sum x"
    unfolding x_def by (rule HashPiece_complete) (use assms in auto)
  moreover have "read_at (fh_content (pm_handler p)) (nat (i * PieceSize)) (length x) = Some x \<and>
      int (length x) = min ((i + 1) * PieceSize) fsize - i * PieceSize"
    unfolding x_def by (rule piece_on_disk) (use assms in auto)
  moreover from this have "nat (min ((i + 1) * PieceSize) fsize - i * PieceSize) = length x" by linarith
  ultimately show ?thesis by (simp add: file_piece_def)
qed

lemma pm_register_handler: "pm_register pb x p = Some (p', free) \<Longrightarrow> pm_handler p' = pm_handler p"
  by (auto simp: pm_register_def getBlockManager_def Let_def split: option.splits prod.splits)

lemma WriteBlock_content:
  assumes "WriteBlock io_ok pb x p = Some (p', Inr free)"
  shows "fh_content (pm_handler p') = write_at (fh_content (pm_handler p)) (block_pos pb) x"
proof -
  define h where "h = fst (fh_File io_ok (pm_handler p))"
  have h: "fh_File io_ok (pm_handler p) = (h, True)" "fh_content h = fh_content (pm_handler p)"
    by (simp_all add: h_def fh_File_def io_ok_def fh_content_def split: option.splits)
  have io: "io_seek io_ok" "io_write io_ok = None" by (simp_all add: io_ok_def)
  from assms have "pm_handler p' = h\<lparr>fh_disk := Some (write_at (fh_content h) (block_pos pb) x)\<rparr>"
    by (auto simp: WriteBlock_def Let_def h(1) io block_pos_def dest!: pm_register_handler
        split: if_splits)
  then have "fh_content (pm_handler p') = write_at (fh_content h) (block_pos pb) x"
    using fh_content_def [of "pm_handler p'"] by simp
  then show ?thesis by (simp only: h(2))
qed

lemma file_piece_write:
  assumes pb: "valid_block fsize pb" "int (length x) = pb_Size pb fsize" and i: "0 \<le> i" "pb_PieceIndex pb \<noteq> i"
    and fp: "file_piece fsize i p = Some y"
    and c: "fh_content (pm_handler p') = write_at (fh_content (pm_handler p)) (block_pos pb) x"
  shows "file_piece fsize i p' = Some y"
proof -
  define j where "j = pb_PieceIndex pb"
  have pos: "int (block_pos pb) = j * PieceSize + pb_PieceBlock pb * BlockSize"
    using valid_block_pos [OF pb(1)] by (simp add: BlocksOffset_def j_def geometry_constants algebra_simps)
  have v: "0 \<le> j" "0 \<le> pb_PieceBlock pb" "pb_PieceBlock pb < 50"
    using pb(1) by (auto simp: valid_block_def j_def BlocksPerPiece_eq)
  have len: "int (length x) \<le> BlockSize" using pb(2) pb_Size_valid [OF pb(1)] by simp
  have lo: "j * PieceSize \<le> int (block_pos pb)" and hi: "int (block_pos pb) + int (length x) \<le> (j + 1) * PieceSize"
    using pos v len by (simp_all add: geometry_constants algebra_simps)
  define n where "n = nat (min ((i + 1) * PieceSize) fsize - i * PieceSize)"
  have n: "int n \<le> PieceSize" by (simp add: n_def geometry_constants algebra_simps)
  have "j \<noteq> i" using i(2) by (simp add: j_def)
  then consider "j < i" | "i < j" by linarith
  then have "nat (i * PieceSize) + n \<le> block_pos pb \<or> block_pos pb + length x \<le> nat (i * PieceSize)"
  proof cases
    case 1
    then have "(j + 1) * PieceSize \<le> i * PieceSize" by (simp add: geometry_constants)
    with hi have "block_pos pb + length x \<le> nat (i * PieceSize)" by linarith
    then show ?thesis ..
  next
    case 2
    then have "(i + 1) * PieceSize \<le> j * PieceSize" by (simp add: geometry_constants)
    then have "i * PieceSize + PieceSize \<le> int (block_pos pb)" using lo by (simp add: algebra_simps)
    moreover have "0 \<le> i * PieceSize" using i(1) by (simp add: geometry_constants)
    ultimately have "nat (i * PieceSize) + n \<le> block_pos pb" using n by linarith
    then show ?thesis ..
  qed
  with fp show ?thesis unfolding file_piece_def c n_def by (rule read_write_other)
qed

section \<open>Properties\<close>

text \<open>In whatever order the blocks of a piece arrive, they are hashed in the order of the file:
  the hash is the digest of the whole piece, and each block is handed back once.\<close>

theorem block_order_irrelevant:
  assumes "distinct (map fst rs)" and "fst ` set rs = {..<n}"
  shows "\<exists>b free. register_blocks rs (NewBlockManager piece (int n)) = Some (b, free) \<and>
    concat free = concat (map (\<lambda>i. the (map_of rs i)) [0..<n]) \<and>
    snd (PieceHash b) = md4Sum (concat (map (\<lambda>i. the (map_of rs i)) [0..<n]))"
proof -
  define D where "D = (\<lambda>i. the (map_of rs i))"
  have "\<forall>(i, x)\<in>set rs. x = D i" using assms(1) by (auto simp: D_def map_of_is_SomeI)
  moreover have "bm_inv n D {} (NewBlockManager piece (int n))" using bm_inv_New [of "int n"] by simp
  ultimately obtain b free where b: "register_blocks rs (NewBlockManager piece (int n)) = Some (b, free)"
    "bm_inv n D {..<n} b" "bm_hashed b = concat free" "bm_pieceHash b = None"
    using register_blocks_inv [of n D "{}" "NewBlockManager piece (int n)" rs] assms
    by (auto simp: NewBlockManager_def)
  then show ?thesis
    using bm_inv_complete(2) [OF b(2)] by (auto simp: D_def PieceHash_def HashFromData_md4 Let_def)
qed

theorem block_order_irrelevant_witness:
  "\<exists>b free. register_blocks [(1, [3]), (0, [1, 2])] (NewBlockManager 7 2) = Some (b, free) \<and>
     concat free = [1, 2, 3] \<and> snd (PieceHash b) = md4Sum [1, 2, 3]"
proof -
  have two: "[0..<2] = [0, 1]" by (simp add: upt_rec)
  have set: "fst ` set [(1::nat, [3::u8]), (0, [1, 2])] = {..<2}" by auto
  show ?thesis using block_order_irrelevant [OF _ set, of 7] by (simp add: two)
qed

text \<open>C18: the hash of a piece is the digest of the bytes that lie in the file at its place, once its
  blocks have been written, in any order and interleaved with the blocks of other pieces, for a piece
  manager that cuts the file into its blocks (\<open>enumerates\<close>). The manager of a new transfer does so
  unless the size is a multiple of the piece size: then it expects one block in the last piece, not fifty.\<close>

theorem stored_piece_hash:
  assumes enum: "enumerates fsize n blast"
    and ws: "distinct (map fst ws)"
      "\<forall>(pb, x)\<in>set ws. valid_block fsize pb \<and> pb_PieceIndex pb < n \<and> int (length x) = pb_Size pb fsize"
    and i: "0 \<le> i" "i < n" "i * PieceSize < fsize"
    and all: "\<forall>pb. valid_block fsize pb \<and> pb_PieceIndex pb = i \<longrightarrow> pb \<in> fst ` set ws"
  shows "\<exists>p p' piece. write_blocks ws (NewPieceManager h n blast) = Some p \<and>
    pm_ReadRange io_ok (i * PieceSize) (min ((i + 1) * PieceSize) fsize) p = (p', Inr piece) \<and>
    snd (HashPiece i p) = md4Sum piece"
proof -
  define D where "D = (\<lambda>pb. the (map_of ws pb))"
  have D: "\<forall>(pb, x)\<in>set ws. x = D pb" using ws(1) by (auto simp: D_def map_of_is_SomeI)
  have "pm_inv fsize D {} (NewPieceManager h n blast)" by (simp add: pm_inv_def NewPieceManager_def)
  from write_blocks_inv [OF this _ ws(1)] enum ws(2) D
  obtain p where p: "write_blocks ws (NewPieceManager h n blast) = Some p"
    "pm_inv fsize D (fst ` set ws) p" "pm_pieceCount p = n" "pm_blocksInLastPiece p = blast"
    by (fastforce simp: NewPieceManager_def)
  define x where "x = concat (piece_blocks D p i)"
  have hash: "snd (HashPiece i p) = md4Sum x"
    unfolding x_def using HashPiece_complete [OF p(2) i(1)] i p(3,4) enum all by simp
  have disk: "read_at (fh_content (pm_handler p)) (nat (i * PieceSize)) (length x) = Some x"
    "int (length x) = min ((i + 1) * PieceSize) fsize - i * PieceSize"
    unfolding x_def using piece_on_disk [OF p(2) i(1)] i p(3,4) enum all by simp_all
  define h' where "h' = fst (fh_File io_ok (pm_handler p))"
  have h': "fh_File io_ok (pm_handler p) = (h', True)" "fh_content h' = fh_content (pm_handler p)"
    by (simp_all add: h'_def fh_File_def io_ok_def fh_content_def split: option.splits)
  have "0 \<le> i * PieceSize" using i(1) by (simp add: PieceSize_eq)
  moreover have "\<not> min ((i + 1) * PieceSize) fsize \<le> i * PieceSize"
    using i(3) by (simp add: PieceSize_eq)
  moreover have "nat (min ((i + 1) * PieceSize) fsize - i * PieceSize) = length x"
    using disk(2) by linarith
  ultimately have "pm_ReadRange io_ok (i * PieceSize) (min ((i + 1) * PieceSize) fsize) p =
      (p\<lparr>pm_handler := h'\<rparr>, Inr x)"
    using disk(1) h' by (simp add: pm_ReadRange_def io_ok_def Let_def)
  with p(1) hash show ?thesis by blast
qed

theorem stored_piece_hash_witness:
  "\<exists>p p' piece. write_blocks [(NewPieceBlock 0 0, [1, 2, 3])]
     (NewPieceManager (NewDesktopFileHandler ''f'' None) 1 1) = Some p \<and>
   pm_ReadRange io_ok (0 * PieceSize) (min ((0 + 1) * PieceSize) 3) p = (p', Inr piece) \<and>
   snd (HashPiece 0 p) = md4Sum piece"
proof -
  have valid: "valid_block 3 pb \<longleftrightarrow> pb = NewPieceBlock 0 0" for pb
    by (cases pb) (auto simp: valid_block_def BlocksOffset_def geometry_constants NewPieceBlock_def)
  have "enumerates 3 1 1"
    unfolding enumerates_def valid by (auto simp: BlocksInPiece_def NewPieceBlock_def)
  moreover have "pb_Size (NewPieceBlock 0 0) 3 = 3"
    by (simp add: pb_Size_def pb_Range_def MakeRange_def NewPieceBlock_def geometry_constants Let_def)
  ultimately show ?thesis
    by (intro stored_piece_hash) (auto simp: valid NewPieceBlock_def)
qed

end
