(* ===== verification/Transfers.thy ===== *)
theory Transfers
  imports Peer_State Piece_Store
begin

text \<open>
  Transfers and their disk tasks: \<^verbatim>\<open>transfer.go\<close>, \<^verbatim>\<open>async_disk.go\<close>, the resume data
  of \<^verbatim>\<open>protocol/transfer_resume_data.go\<close> and the progress records of
  \<^verbatim>\<open>transfer_status.go\<close> and \<^verbatim>\<open>piece_snapshot.go\<close>. What an operation asks of the
  session - a disk task, the closing of a connection, a publication - is a list of effects,
  in order. Connections are addresses into a heap, the clock and random positions are
  arguments, and \<open>None\<close> is a panic. A transfer always has a session.
\<close>

section \<open>Disk tasks\<close>

datatype disk_call =
    AsyncWrite PieceBlock bytes
  | AsyncHash int
  | AsyncRestore PieceBlock int
  | AsyncRelease bool

datatype disk_result =
    AsyncWriteResult PieceBlock "bytes list" ErrorCode
  | AsyncHashResult int hash
  | AsyncRestoreResult PieceBlock "bytes list" ErrorCode
  | AsyncReleaseResult "bytes list" bool ErrorCode

text \<open>\<open>Call\<close> of a task; without a piece manager it dereferences nil.\<close>

definition disk_Call :: "io \<Rightarrow> disk_call \<Rightarrow> PieceManager option \<Rightarrow> (PieceManager option \<times> disk_result) option" where
  "disk_Call io call pm =
     (case pm of
        None \<Rightarrow> None
      | Some p \<Rightarrow>
          (case call of
             AsyncWrite block buffer \<Rightarrow>
               (case WriteBlock io block buffer p of
                  None \<Rightarrow> None
                | Some (p', Inl err) \<Rightarrow> Some (Some p', AsyncWriteResult block [buffer] IOException)
                | Some (p', Inr buffers) \<Rightarrow> Some (Some p', AsyncWriteResult block buffers NoError))
           | AsyncHash pieceIndex \<Rightarrow>
               (let (p', hash) = HashPiece pieceIndex p in Some (Some p', AsyncHashResult pieceIndex hash))
           | AsyncRestore block fileSize \<Rightarrow>
               (case RestoreBlock io block fileSize p of
                  None \<Rightarrow> None
                | Some (p', Inl err) \<Rightarrow> Some (Some p', AsyncRestoreResult block [] IOException)
                | Some (p', Inr (buffers, restored)) \<Rightarrow>
                    Some (Some p', AsyncRestoreResult block (buffers @ [restored]) NoError))
           | AsyncRelease deleteFile \<Rightarrow>
               (let (p', buffers) = ReleaseFile io deleteFile p
                in Some (Some p', AsyncReleaseResult buffers deleteFile NoError))))"

definition result_Code :: "disk_result \<Rightarrow> ErrorCode" where
  "result_Code r =
     (case r of AsyncWriteResult _ _ ec \<Rightarrow> ec | AsyncHashResult _ _ \<Rightarrow> NoError
      | AsyncRestoreResult _ _ ec \<Rightarrow> ec | AsyncReleaseResult _ _ ec \<Rightarrow> ec)"

section \<open>Transfers\<close>

datatype TransferState = LoadingResumeData | Downloading | PausedState | Verifying | Finished

datatype UploadPriority = UploadPriorityVeryLow | UploadPriorityLow | UploadPriorityNormal
  | UploadPriorityHigh | UploadPriorityVeryHigh | UploadPriorityPowerShare

text \<open>The map of pending piece hashes holds only true.\<close>

record Transfer =
  t_hash :: hash
  t_createTime :: int
  t_size :: int
  t_numPieces :: int
  t_filePath :: string
  t_stat :: Statistics
  t_closedStat :: Statistics
  t_picker :: PiecePicker
  t_policy :: Policy
  t_pm :: "PieceManager option"
  t_hashSet :: "hash list"
  t_pause :: bool
  t_abort :: bool
  t_needSaveResumeData :: bool
  t_state :: TransferState
  t_connections :: "nat list"
  t_nextSourcesRequest :: int
  t_nextDHTRequest :: int
  t_speedMon :: SpeedMonitor
  t_pendingResumeIO :: int
  t_uploadPriority :: UploadPriority
  t_pendingPieceHashes :: "int set"

datatype effect = SubmitTask disk_call | CloseConn nat ErrorCode | PublishToServer

record TransferResumeData =
  rd_Hashes :: "hash list"
  rd_Pieces :: BitField
  rd_DownloadedBlocks :: "PieceBlock list"
  rd_Peers :: "Endpoint list"

text \<open>The file at the path, for a handler the transfer makes itself, is an argument.\<close>

record AddTransferParams =
  atp_Hash :: hash
  atp_CreateTime :: int
  atp_Size :: int
  atp_FilePath :: string
  atp_Paused :: bool
  atp_ResumeData :: "TransferResumeData option"
  atp_Handler :: "FileHandler option"

definition t_IsFinished :: "Transfer \<Rightarrow> bool" where
  "t_IsFinished t \<longleftrightarrow> t_numPieces t = 0 \<or> NumHave (t_picker t) = TotalPieces (t_picker t)"

definition t_Pause :: "Transfer \<Rightarrow> Transfer" where "t_Pause t = t\<lparr>t_pause := True\<rparr>"
definition t_Resume :: "Transfer \<Rightarrow> Transfer" where "t_Resume t = t\<lparr>t_pause := False\<rparr>"

definition SetUploadPriority :: "UploadPriority \<Rightarrow> Transfer \<Rightarrow> Transfer" where
  "SetUploadPriority priority t = t\<lparr>t_uploadPriority := priority\<rparr>"

definition WantMorePeers :: "Transfer \<Rightarrow> bool" where
  "WantMorePeers t \<longleftrightarrow> \<not> t_pause t \<and> \<not> t_IsFinished t \<and> NumConnectCandidates (t_IsFinished t) (t_policy t) > 0"

text \<open>All connections are closed and forgotten.\<close>

definition drop_connections :: "ErrorCode \<Rightarrow> Transfer \<Rightarrow> Transfer \<times> effect list" where
  "drop_connections ec t = (t\<lparr>t_connections := []\<rparr>, map (\<lambda>c. CloseConn c ec) (t_connections t))"

definition PauseWithDisconnect :: "Transfer \<Rightarrow> Transfer \<times> effect list" where
  "PauseWithDisconnect t =
     (let (t1, effs) = drop_connections TransferPaused (t\<lparr>t_pause := True\<rparr>)
      in (t1\<lparr>t_needSaveResumeData := True\<rparr>, effs))"

definition ResumeWithState :: "Transfer \<Rightarrow> Transfer" where
  "ResumeWithState t =
     t\<lparr>t_pause := False,
       t_policy := (t_policy t)\<lparr>po_peers := map (\<lambda>pe. if pe_Connection pe = None
         then pe\<lparr>pe_NextConnection := 0, pe_LastConnected := 0\<rparr> else pe) (po_peers (t_policy t))\<rparr>,
       t_nextSourcesRequest := 0, t_nextDHTRequest := 0, t_needSaveResumeData := True\<rparr>"

definition ForceSourceDiscoveryNow :: "Transfer \<Rightarrow> Transfer" where
  "ForceSourceDiscoveryNow t = t\<lparr>t_nextSourcesRequest := 0, t_nextDHTRequest := 0\<rparr>"

definition t_Abort :: "bool \<Rightarrow> Transfer \<Rightarrow> Transfer \<times> effect list" where
  "t_Abort deleteFile t =
     (let (t1, effs) = drop_connections TransferAborted (t\<lparr>t_abort := True\<rparr>)
      in (t1, effs @ [SubmitTask (AsyncRelease deleteFile)]))"

definition t_finished :: "Transfer \<Rightarrow> Transfer \<times> effect list" where
  "t_finished t =
     (let (t1, effs) = drop_connections TransferFinished t
      in (t1\<lparr>t_state := Finished, t_needSaveResumeData := True\<rparr>,
          effs @ [SubmitTask (AsyncRelease False), PublishToServer]))"

definition SetHashSet :: "hash \<Rightarrow> hash list \<Rightarrow> Transfer \<Rightarrow> Transfer" where
  "SetHashSet hash hashes t =
     (if t_hashSet t \<noteq> [] then t
      else if \<not> hash_Equal (t_hash t) hash then t
      else t\<lparr>t_hashSet := t_hashSet t @ hashes, t_needSaveResumeData := True\<rparr>)"

section \<open>Verifying pieces\<close>

definition QueuePieceHash :: "int \<Rightarrow> Transfer \<Rightarrow> (Transfer \<times> effect list \<times> bool) option" where
  "QueuePieceHash pieceIndex t =
     (if pieceIndex < 0 \<or> pieceIndex \<ge> int (TotalPieces (t_picker t)) then Some (t, [], False)
      else (case HavePiece pieceIndex (t_picker t) of
          None \<Rightarrow> None
        | Some have_it \<Rightarrow>
            (if have_it \<or> pieceIndex \<in> t_pendingPieceHashes t then Some (t, [], False)
             else (case IsPieceFinished pieceIndex (t_picker t) of
                 None \<Rightarrow> None
               | Some False \<Rightarrow> Some (t, [], False)
               | Some True \<Rightarrow>
                   (if t_pm t = None then Some (t, [], False)
                    else Some (t\<lparr>t_pendingPieceHashes := insert pieceIndex (t_pendingPieceHashes t)\<rparr>,
                           [SubmitTask (AsyncHash pieceIndex)], True))))))"

definition t_WeHave :: "int \<Rightarrow> Transfer \<Rightarrow> Transfer option" where
  "t_WeHave pieceIndex t = map_option (\<lambda>p. t\<lparr>t_picker := p\<rparr>) (WeHave pieceIndex (t_picker t))"

definition OnBlockWriteCompleted :: "PieceBlock \<Rightarrow> ErrorCode \<Rightarrow> Transfer \<Rightarrow> (Transfer \<times> effect list) option" where
  "OnBlockWriteCompleted block ec t =
     (if ec = NoError then
        (case MarkAsFinished block (t_picker t) of
           None \<Rightarrow> None
         | Some (p, _) \<Rightarrow>
             (case QueuePieceHash (pb_PieceIndex block) (t\<lparr>t_picker := p\<rparr>) of
                None \<Rightarrow> None
              | Some (t1, effs, _) \<Rightarrow> Some (t1\<lparr>t_needSaveResumeData := True\<rparr>, effs)))
      else (case AbortDownload block None (t_picker t) of
          None \<Rightarrow> None
        | Some p \<Rightarrow> Some (PauseWithDisconnect (t\<lparr>t_picker := p\<rparr>))))"

definition OnPieceHashCompleted :: "int \<Rightarrow> hash \<Rightarrow> Transfer \<Rightarrow> (Transfer \<times> effect list) option" where
  "OnPieceHashCompleted pieceIndex hash t =
     (let t1 = t\<lparr>t_pendingPieceHashes := t_pendingPieceHashes t - {pieceIndex}\<rparr>;
          t2 =
            (if pieceIndex < int (length (t_hashSet t1)) then
               (case idx (t_hashSet t1) pieceIndex of
                  None \<Rightarrow> None
                | Some want \<Rightarrow>
                    (if \<not> hash_Equal want hash
                     then map_option (\<lambda>p. t1\<lparr>t_picker := p\<rparr>) (RestorePiece pieceIndex (t_picker t1))
                     else t_WeHave pieceIndex t1))
             else t_WeHave pieceIndex t1)
      in case t2 of
           None \<Rightarrow> None
         | Some t2 \<Rightarrow>
             (let t3 = t2\<lparr>t_needSaveResumeData := True\<rparr>
              in Some (if t_IsFinished t3 then t_finished t3 else (t3, []))))"

definition OnBlockRestoreCompleted :: "PieceBlock \<Rightarrow> ErrorCode \<Rightarrow> Transfer \<Rightarrow> (Transfer \<times> effect list) option" where
  "OnBlockRestoreCompleted block ec t =
     (let t1 = (if t_pendingResumeIO t > 0 then t\<lparr>t_pendingResumeIO := t_pendingResumeIO t - 1\<rparr> else t)
      in if ec \<noteq> NoError then Some (PauseWithDisconnect t1)
         else (case WeHaveBlock block (t_picker t1) of
             None \<Rightarrow> None
           | Some p \<Rightarrow>
               (let t2 = t1\<lparr>t_picker := p, t_needSaveResumeData := True\<rparr>
                in Some (if t_pendingResumeIO t2 = 0
                         then t2\<lparr>t_state := (if t_IsFinished t2 then Finished else Downloading)\<rparr>
                         else t2, []))))"

definition OnCompleted :: "disk_result \<Rightarrow> Transfer \<Rightarrow> (Transfer \<times> effect list) option" where
  "OnCompleted r t =
     (case r of
        AsyncWriteResult block _ ec \<Rightarrow> OnBlockWriteCompleted block ec t
      | AsyncHashResult pieceIndex hash \<Rightarrow> OnPieceHashCompleted pieceIndex hash t
      | AsyncRestoreResult block _ ec \<Rightarrow> OnBlockRestoreCompleted block ec t
      | AsyncReleaseResult _ _ _ \<Rightarrow> Some (t, []))"

text \<open>
  A received block is complete: the end of \<^verbatim>\<open>ReceivePendingData\<close> with \<^verbatim>\<open>asyncWrite\<close>,
  as far as it concerns the transfer.
\<close>

definition block_received :: "PieceBlock \<Rightarrow> bytes \<Rightarrow> Transfer \<Rightarrow> (Transfer \<times> effect list) option" where
  "block_received block buffer t =
     (case IsPieceFinished (pb_PieceIndex block) (t_picker t) of
        None \<Rightarrow> None
      | Some wasFinished \<Rightarrow>
          (case MarkAsWriting block (t_picker t) of
             None \<Rightarrow> None
           | Some (p, False) \<Rightarrow> Some (t\<lparr>t_picker := p\<rparr>, [])
           | Some (p, True) \<Rightarrow>
               (case MarkAsWriting block p of
                  None \<Rightarrow> None
                | Some (p', _) \<Rightarrow>
                    (case IsPieceFinished (pb_PieceIndex block) p' of
                       None \<Rightarrow> None
                     | Some nowFinished \<Rightarrow>
                         (if nowFinished \<and> \<not> wasFinished then
                            (case QueuePieceHash (pb_PieceIndex block) (t\<lparr>t_picker := p'\<rparr>) of
                               None \<Rightarrow> None
                             | Some (t1, effs, _) \<Rightarrow> Some (t1, SubmitTask (AsyncWrite block buffer) # effs))
                          else Some (t\<lparr>t_picker := p'\<rparr>, [SubmitTask (AsyncWrite block buffer)]))))))"

section \<open>Peers and resume data\<close>

text \<open>\<open>rnd\<close> is the random start of \<open>ErasePeers\<close>; errors of the policy are dropped here.\<close>

definition t_AddPeer :: "int \<Rightarrow> Endpoint \<Rightarrow> u64 \<Rightarrow> Transfer \<Rightarrow> (Transfer \<times> JED2KError option) option" where
  "t_AddPeer rnd endpoint sourceFlag t =
     (case po_AddPeer rnd (NewPeerWithSource endpoint True sourceFlag) (t_policy t) of
        None \<Rightarrow> None
      | Some (p, Inl err) \<Rightarrow> Some (t\<lparr>t_policy := p\<rparr>, Some err)
      | Some (p, Inr _) \<Rightarrow> Some (t\<lparr>t_policy := p\<rparr>, None))"

text \<open>Marking the bits of the resume data, from bit \<open>i\<close> on.\<close>

fun restore_bits :: "BitField \<Rightarrow> int list \<Rightarrow> Transfer \<Rightarrow> Transfer option" where
  "restore_bits bf [] t = Some t"
| "restore_bits bf (i # is) t =
     (if bf_GetBit bf i then
        (case RestoreHave i (t_picker t) of
           None \<Rightarrow> None
         | Some p \<Rightarrow> restore_bits bf is (t\<lparr>t_picker := p\<rparr>))
      else restore_bits bf is t)"

fun restore_peers :: "(nat \<Rightarrow> int) \<Rightarrow> Endpoint list \<Rightarrow> Transfer \<Rightarrow> Transfer option" where
  "restore_peers rnd [] t = Some t"
| "restore_peers rnd (ep # eps) t =
     (if ep_Defined ep then
        (case t_AddPeer (rnd (length eps)) ep (ucast PeerResume) t of
           None \<Rightarrow> None
         | Some (t1, _) \<Rightarrow> restore_peers rnd eps t1)
      else restore_peers rnd eps t)"

text \<open>The blocks of the resume data: a task for each, or without a piece manager the picker.\<close>

fun restore_blocks :: "PieceBlock list \<Rightarrow> Transfer \<Rightarrow> (Transfer \<times> effect list) option" where
  "restore_blocks [] t = Some (t, [])"
| "restore_blocks (block # blocks) t =
     (if t_pm t \<noteq> None then
        map_option (\<lambda>(t', effs). (t', SubmitTask (AsyncRestore block (t_size t)) # effs))
          (restore_blocks blocks (t\<lparr>t_pendingResumeIO := t_pendingResumeIO t + 1\<rparr>))
      else
        (case WeHaveBlock block (t_picker t) of
           None \<Rightarrow> None
         | Some p \<Rightarrow> restore_blocks blocks (t\<lparr>t_picker := p\<rparr>)))"

definition restoreResumeData :: "(nat \<Rightarrow> int) \<Rightarrow> TransferResumeData \<Rightarrow> Transfer \<Rightarrow> (Transfer \<times> effect list) option" where
  "restoreResumeData rnd rd t =
     (let t1 = t\<lparr>t_state := LoadingResumeData, t_hashSet := t_hashSet t @ rd_Hashes rd\<rparr>
      in case restore_bits (rd_Pieces rd) [0..bf_size (rd_Pieces rd) - 1] t1 of
           None \<Rightarrow> None
         | Some t2 \<Rightarrow>
             (case restore_peers rnd (rd_Peers rd) t2 of
                None \<Rightarrow> None
              | Some t3 \<Rightarrow>
                  (if rd_DownloadedBlocks rd = [] then
                     Some (t3\<lparr>t_state := (if t_IsFinished t3 then Finished else Downloading)\<rparr>, [])
                   else (case restore_blocks (rd_DownloadedBlocks rd) t3 of
                       None \<Rightarrow> None
                     | Some (t4, effs) \<Rightarrow>
                         Some (if t_pendingResumeIO t4 = 0
                               then t4\<lparr>t_state := (if t_IsFinished t4 then Finished else Downloading)\<rparr>
                               else t4, effs)))))"

definition NewTransfer ::
  "bytes option \<Rightarrow> (nat \<Rightarrow> int) \<Rightarrow> AddTransferParams \<Rightarrow> (Transfer \<times> effect list) option" where
  "NewTransfer disk rnd atp =
     (let numPieces = DivCeil (atp_Size atp) PieceSize;
          blocks = DivCeil (go_rem (atp_Size atp) PieceSize) BlockSize;
          blocksInLastPiece = (if blocks = 0 then 1 else blocks);
          handler = (case atp_Handler atp of
              Some h \<Rightarrow> Some h
            | None \<Rightarrow> if atp_FilePath atp \<noteq> [] then Some (NewDesktopFileHandler (atp_FilePath atp) disk) else None)
      in case NewPiecePicker numPieces blocksInLastPiece of
           None \<Rightarrow> None
         | Some picker \<Rightarrow>
             (let t = \<lparr>t_hash = atp_Hash atp, t_createTime = atp_CreateTime atp, t_size = atp_Size atp,
                   t_numPieces = numPieces, t_filePath = atp_FilePath atp, t_stat = NewStatistics,
                   t_closedStat = NewStatistics, t_picker = picker, t_policy = NewPolicy,
                   t_pm = map_option (\<lambda>h. NewPieceManager h numPieces blocksInLastPiece) handler,
                   t_hashSet = [], t_pause = atp_Paused atp, t_abort = False, t_needSaveResumeData = False,
                   t_state = LoadingResumeData, t_connections = [], t_nextSourcesRequest = 0,
                   t_nextDHTRequest = 0, t_speedMon = NewSpeedMonitor 30, t_pendingResumeIO = 0,
                   t_uploadPriority = UploadPriorityNormal, t_pendingPieceHashes = {}\<rparr>
              in case atp_ResumeData atp of
                   Some rd \<Rightarrow> restoreResumeData rnd rd t
                 | None \<Rightarrow> Some (t\<lparr>t_state := Downloading, t_needSaveResumeData := True\<rparr>, [])))"

text \<open>The bits of the pieces the transfer has.\<close>

fun set_have_bits :: "PiecePicker \<Rightarrow> int list \<Rightarrow> BitField \<Rightarrow> BitField result" where
  "set_have_bits p [] bf = Inr bf"
| "set_have_bits p (i # is) bf =
     (case HavePiece i p of
        None \<Rightarrow> Inl index_panic
      | Some False \<Rightarrow> set_have_bits p is bf
      | Some True \<Rightarrow> (case bf_SetBit bf i of Inl e \<Rightarrow> Inl e | Inr bf' \<Rightarrow> set_have_bits p is bf'))"

definition AvailablePieces :: "Transfer \<Rightarrow> BitField result" where
  "AvailablePieces t =
     (let n = int (TotalPieces (t_picker t))
      in case NewBitField n of Inl e \<Rightarrow> Inl e | Inr bf \<Rightarrow> set_have_bits (t_picker t) [0..n - 1] bf)"

text \<open>The finished blocks of a piece in progress; it has \<open>blocksCount\<close> blocks.\<close>

definition finished_blocks :: "DownloadingPiece \<Rightarrow> PieceBlock list" where
  "finished_blocks dp =
     map (NewPieceBlock (dp_PieceIndex dp))
       (filter (\<lambda>j. dp_IsFinished j dp = Some True) [0..dp_blocksCount dp - 1])"

definition t_ResumeData :: "Transfer \<Rightarrow> (Transfer \<times> TransferResumeData) result" where
  "t_ResumeData t =
     (case NewBitField (int (TotalPieces (t_picker t))) of
        Inl e \<Rightarrow> Inl e
      | Inr bf \<Rightarrow>
          (case set_have_bits (t_picker t) [0..t_numPieces t - 1] bf of
             Inl e \<Rightarrow> Inl e
           | Inr bits \<Rightarrow>
               Inr (t\<lparr>t_needSaveResumeData := False\<rparr>,
                 \<lparr>rd_Hashes = t_hashSet t, rd_Pieces = bits,
                  rd_DownloadedBlocks = concat (map finished_blocks (pp_downloadingPieces (t_picker t))),
                  rd_Peers = filter ep_Defined (map pe_Endpoint (po_peers (t_policy t)))\<rparr>)))"

section \<open>Uploading\<close>

definition UploadHashSet :: "Transfer \<Rightarrow> hash list" where
  "UploadHashSet t =
     (if t_hashSet t \<noteq> [] then t_hashSet t
      else if t_size t \<le> PieceSize then [t_hash t] else [])"

definition CanUpload :: "Transfer \<Rightarrow> bool" where
  "CanUpload t \<longleftrightarrow> \<not> t_abort t \<and> t_pm t \<noteq> None \<and> NumHave (t_picker t) > 0"

fun all_have :: "PiecePicker \<Rightarrow> PeerRequest list \<Rightarrow> bool option" where
  "all_have p [] = Some True"
| "all_have p (req # reqs) =
     (case HavePiece (pr_Piece req) p of
        None \<Rightarrow> None
      | Some False \<Rightarrow> Some False
      | Some True \<Rightarrow> all_have p reqs)"

definition CanUploadRange :: "int \<Rightarrow> int \<Rightarrow> Transfer \<Rightarrow> bool option" where
  "CanUploadRange begin end t =
     (if \<not> CanUpload t \<or> end \<le> begin \<or> begin < 0 \<or> end > t_size t then Some False
      else (case MakePeerRequests begin end (t_size t) of
          Inl _ \<Rightarrow> Some False
        | Inr reqs \<Rightarrow> all_have (t_picker t) reqs))"

definition t_ReadRange :: "io \<Rightarrow> int \<Rightarrow> int \<Rightarrow> Transfer \<Rightarrow> Transfer \<times> bytes outcome" where
  "t_ReadRange io begin end t =
     (case t_pm t of
        None \<Rightarrow> (t, Inl (NewError NoTransfer))
      | Some pm \<Rightarrow> (let (pm', r) = pm_ReadRange io begin end pm in (t\<lparr>t_pm := Some pm'\<rparr>, r)))"

end
