(* ===== verification/Disk_Tasks.thy ===== *)
theory Disk_Tasks
  imports Transfers
begin

text \<open>
  The disk tasks of a session (\<^verbatim>\<open>session.go\<close>): a queue whose first task runs on a
  goroutine of its own, and a channel of results. A task pointer is a number that is never
  used again; a task is done exactly when it has left the queue, so there is no flag for it.
  \<open>queue_ok\<close> says that one task is in progress at a time, in order of submission, so no two
  goroutines work on the same piece manager.
\<close>

section \<open>State and operations\<close>

record diskTask =
  dt_id :: nat
  dt_callable :: disk_call
  dt_transfer :: nat
  dt_running :: bool

text \<open>\<open>ds_workers\<close> are the goroutines that run a task, \<open>ds_log\<close> what else transfers asked for.\<close>

record DiskSession =
  ds_diskTasks :: "diskTask list"
  ds_diskResults :: "(nat \<times> disk_result) list"
  ds_workers :: "diskTask list"
  ds_fresh :: nat
  ds_transfers :: "nat \<Rightarrow> Transfer"
  ds_log :: "(nat \<times> effect) list"

definition SubmitDiskTask :: "nat \<Rightarrow> disk_call \<Rightarrow> DiskSession \<Rightarrow> DiskSession" where
  "SubmitDiskTask k task s =
     s\<lparr>ds_diskTasks := ds_diskTasks s @
         [\<lparr>dt_id = ds_fresh s, dt_callable = task, dt_transfer = k, dt_running = False\<rparr>],
       ds_fresh := ds_fresh s + 1\<rparr>"

definition RemoveDiskTask :: "nat \<Rightarrow> DiskSession \<Rightarrow> DiskSession" where
  "RemoveDiskTask k s = s\<lparr>ds_diskTasks := filter (\<lambda>t. dt_transfer t \<noteq> k) (ds_diskTasks s)\<rparr>"

definition diskTaskCount :: "DiskSession \<Rightarrow> nat" where
  "diskTaskCount s = length (ds_diskTasks s)"

text \<open>The effects of an operation of transfer \<open>k\<close>.\<close>

fun apply_effects :: "nat \<Rightarrow> effect list \<Rightarrow> DiskSession \<Rightarrow> DiskSession" where
  "apply_effects k [] s = s"
| "apply_effects k (SubmitTask task # es) s = apply_effects k es (SubmitDiskTask k task s)"
| "apply_effects k (e # es) s = apply_effects k es (s\<lparr>ds_log := ds_log s @ [(k, e)]\<rparr>)"

definition with_transfer :: "nat \<Rightarrow> Transfer \<times> effect list \<Rightarrow> DiskSession \<Rightarrow> DiskSession" where
  "with_transfer k te s =
     apply_effects k (snd te) (s\<lparr>ds_transfers := (ds_transfers s)(k := fst te)\<rparr>)"

text \<open>The first part of \<open>processDiskTasks\<close>: the first task is started unless it runs.\<close>

definition start_next :: "DiskSession \<Rightarrow> DiskSession" where
  "start_next s =
     (case ds_diskTasks s of
        [] \<Rightarrow> s
      | t # ts \<Rightarrow>
          (if dt_running t then s
           else s\<lparr>ds_diskTasks := t\<lparr>dt_running := True\<rparr> # ts, ds_workers := ds_workers s @ [t]\<rparr>))"

text \<open>A goroutine runs its task and sends the result.\<close>

definition worker_done :: "io \<Rightarrow> nat \<Rightarrow> DiskSession \<Rightarrow> DiskSession option" where
  "worker_done io w s =
     (if w < length (ds_workers s) then
        (let task = ds_workers s ! w; k = dt_transfer task; t = ds_transfers s k
         in case disk_Call io (dt_callable task) (t_pm t) of
              None \<Rightarrow> None
            | Some (pm, r) \<Rightarrow>
                Some (s\<lparr>ds_workers := take w (ds_workers s) @ drop (Suc w) (ds_workers s),
                        ds_diskResults := ds_diskResults s @ [(dt_id task, r)],
                        ds_transfers := (ds_transfers s)(k := t\<lparr>t_pm := pm\<rparr>)\<rparr>))
      else None)"

text \<open>One round of the second part: the first result, if its task has not been removed.\<close>

definition take_result :: "DiskSession \<Rightarrow> DiskSession option" where
  "take_result s =
     (case ds_diskResults s of
        [] \<Rightarrow> None
      | (i, r) # rs \<Rightarrow>
          (let s1 = s\<lparr>ds_diskResults := rs\<rparr>
           in case find (\<lambda>t. dt_id t = i) (ds_diskTasks s) of
                None \<Rightarrow> Some s1
              | Some task \<Rightarrow>
                  map_option
                    (\<lambda>te. with_transfer (dt_transfer task) te
                       (s1\<lparr>ds_diskTasks := filter (\<lambda>t. dt_id t \<noteq> i) (ds_diskTasks s)\<rparr>))
                    (OnCompleted r (ds_transfers s (dt_transfer task)))))"

text \<open>The loop ends when the channel is empty; completing a task sends no result.\<close>

fun take_results :: "nat \<Rightarrow> DiskSession \<Rightarrow> DiskSession option" where
  "take_results 0 s = Some s"
| "take_results (Suc n) s = (case take_result s of None \<Rightarrow> None | Some s1 \<Rightarrow> take_results n s1)"

definition processDiskTasks :: "DiskSession \<Rightarrow> DiskSession option" where
  "processDiskTasks s = take_results (length (ds_diskResults s)) (start_next s)"

section \<open>One task at a time\<close>

definition in_progress :: "DiskSession \<Rightarrow> nat list" where
  "in_progress s = map dt_id (ds_workers s) @ map fst (ds_diskResults s)"

definition queue_ok :: "DiskSession \<Rightarrow> bool" where
  "queue_ok s \<longleftrightarrow>
     distinct (map dt_id (ds_diskTasks s)) \<and> (\<forall>t\<in>set (ds_diskTasks s). dt_id t < ds_fresh s) \<and>
     (case ds_diskTasks s of
        [] \<Rightarrow> in_progress s = []
      | t # ts \<Rightarrow>
          (\<forall>u\<in>set ts. \<not> dt_running u) \<and>
          (if dt_running t then in_progress s = [dt_id t] \<and> (\<forall>w\<in>set (ds_workers s). w = t\<lparr>dt_running := False\<rparr>)
           else in_progress s = []))"

lemma in_progress_other [simp]:
  "in_progress (s\<lparr>ds_diskTasks := ts\<rparr>) = in_progress s" "in_progress (s\<lparr>ds_fresh := n\<rparr>) = in_progress s"
  "in_progress (s\<lparr>ds_transfers := tr\<rparr>) = in_progress s" "in_progress (s\<lparr>ds_log := l\<rparr>) = in_progress s"
  by (simp_all add: in_progress_def)

lemma queue_ok_Submit: "queue_ok s \<Longrightarrow> queue_ok (SubmitDiskTask k task s)"
  by (cases "ds_diskTasks s") (auto simp: queue_ok_def SubmitDiskTask_def)

lemma queue_ok_other:
  "queue_ok s \<Longrightarrow> queue_ok (s\<lparr>ds_transfers := tr\<rparr>)" "queue_ok s \<Longrightarrow> queue_ok (s\<lparr>ds_log := l\<rparr>)"
  by (cases "ds_diskTasks s"; simp add: queue_ok_def)+

lemma queue_ok_effects: "queue_ok s \<Longrightarrow> queue_ok (apply_effects k es s)"
  by (induction k es s rule: apply_effects.induct) (simp_all add: queue_ok_Submit queue_ok_other)

lemma queue_ok_with_transfer: "queue_ok s \<Longrightarrow> queue_ok (with_transfer k te s)"
  by (simp add: with_transfer_def queue_ok_effects queue_ok_other)

lemma queue_ok_start: "queue_ok s \<Longrightarrow> queue_ok (start_next s)"
  by (cases "ds_diskTasks s") (auto simp: queue_ok_def start_next_def in_progress_def)

text \<open>The task in progress, if any, is the first.\<close>

lemma queue_ok_worker:
  assumes ok: "queue_ok s" and w: "w < length (ds_workers s)"
  obtains t ts where "ds_diskTasks s = t # ts" "ds_workers s = [t\<lparr>dt_running := False\<rparr>]" "ds_diskResults s = []"
    "dt_running t" "w = 0"
proof -
  obtain t ts where t: "ds_diskTasks s = t # ts"
    using ok w by (cases "ds_diskTasks s") (auto simp: queue_ok_def in_progress_def)
  have r: "dt_running t" using ok w t by (auto simp: queue_ok_def in_progress_def split: if_splits)
  have "in_progress s = [dt_id t]" "\<forall>w\<in>set (ds_workers s). w = t\<lparr>dt_running := False\<rparr>"
    using ok r by (simp_all add: queue_ok_def t)
  then have "ds_workers s = [t\<lparr>dt_running := False\<rparr>] \<and> ds_diskResults s = []"
    using w by (cases "ds_workers s") (auto simp: in_progress_def)
  with t r w show ?thesis by (intro that [of t ts]) simp_all
qed

lemma queue_ok_result:
  assumes ok: "queue_ok s" and r: "ds_diskResults s = (i, r) # rs"
  obtains t ts where "ds_diskTasks s = t # ts" "dt_id t = i" "ds_workers s = []" "rs = []" "dt_running t"
    "find (\<lambda>t. dt_id t = i) (ds_diskTasks s) = Some t" "filter (\<lambda>t. dt_id t \<noteq> i) (ds_diskTasks s) = ts"
proof -
  obtain t ts where t: "ds_diskTasks s = t # ts"
    using ok r by (cases "ds_diskTasks s") (auto simp: queue_ok_def in_progress_def)
  have run: "dt_running t" using ok r t by (auto simp: queue_ok_def in_progress_def split: if_splits)
  have p: "in_progress s = [dt_id t]" using ok run by (simp add: queue_ok_def t)
  then have "ds_workers s = [] \<and> rs = [] \<and> dt_id t = i"
    using r by (cases "ds_workers s") (auto simp: in_progress_def)
  moreover have "filter (\<lambda>u. dt_id u \<noteq> dt_id t) ts = ts"
    using ok by (auto simp: queue_ok_def t filter_id_conv) (metis image_eqI)
  ultimately show ?thesis using t run by (intro that [of t ts]) auto
qed

lemma queue_ok_worker_done: "queue_ok s \<Longrightarrow> worker_done io w s = Some s' \<Longrightarrow> queue_ok s'"
proof -
  assume ok: "queue_ok s" and d: "worker_done io w s = Some s'"
  then have w: "w < length (ds_workers s)" by (auto simp: worker_done_def split: if_splits)
  from queue_ok_worker [OF ok w] obtain t ts where "ds_diskTasks s = t # ts"
    "ds_workers s = [t\<lparr>dt_running := False\<rparr>]" "ds_diskResults s = []" "dt_running t" "w = 0" by metis
  with ok d show ?thesis
    by (auto simp: worker_done_def queue_ok_def in_progress_def Let_def split: option.splits)
qed

lemma queue_ok_take: "queue_ok s \<Longrightarrow> take_result s = Some s' \<Longrightarrow> queue_ok s'"
proof -
  assume ok: "queue_ok s" and d: "take_result s = Some s'"
  then obtain i r rs where r: "ds_diskResults s = (i, r) # rs"
    by (auto simp: take_result_def split: list.splits)
  from queue_ok_result [OF ok r] obtain t ts where t: "ds_diskTasks s = t # ts" "dt_id t = i" "ds_workers s = []"
    "rs = []" "find (\<lambda>t. dt_id t = i) (ds_diskTasks s) = Some t" "filter (\<lambda>t. dt_id t \<noteq> i) (ds_diskTasks s) = ts"
    by metis
  then obtain te where "s' = with_transfer (dt_transfer t) te (s\<lparr>ds_diskResults := [], ds_diskTasks := ts\<rparr>)"
    using d r by (auto simp: take_result_def Let_def)
  moreover have "queue_ok (s\<lparr>ds_diskResults := [], ds_diskTasks := ts\<rparr>)"
    using ok t(1,3) by (cases ts) (auto simp: queue_ok_def in_progress_def)
  ultimately show ?thesis by (simp add: queue_ok_with_transfer)
qed

section \<open>The queue of one transfer\<close>

text \<open>The tasks of a transfer in order, the first with its result once that is sent.\<close>

type_synonym entry = "disk_call \<times> disk_result option"

definition tasks_of :: "nat \<Rightarrow> DiskSession \<Rightarrow> entry list" where
  "tasks_of k s =
     map (\<lambda>t. (dt_callable t, map_of (ds_diskResults s) (dt_id t)))
       (filter (\<lambda>t. dt_transfer t = k) (ds_diskTasks s))"

fun submitted :: "effect list \<Rightarrow> entry list" where
  "submitted [] = []"
| "submitted (SubmitTask task # es) = (task, None) # submitted es"
| "submitted (e # es) = submitted es"

lemma fresh_no_result: "queue_ok s \<Longrightarrow> map_of (ds_diskResults s) (ds_fresh s) = None"
proof (rule ccontr)
  assume ok: "queue_ok s" and "map_of (ds_diskResults s) (ds_fresh s) \<noteq> None"
  then have "ds_fresh s \<in> set (in_progress s)"
    by (auto simp: in_progress_def dest!: map_of_SomeD intro: rev_image_eqI)
  with ok show False by (cases "ds_diskTasks s") (auto simp: queue_ok_def split: if_splits)
qed

lemma tasks_of_effects:
  "queue_ok s \<Longrightarrow> tasks_of j (apply_effects k es s) = tasks_of j s @ (if j = k then submitted es else []) \<and>
    ds_transfers (apply_effects k es s) = ds_transfers s"
proof (induction k es s rule: apply_effects.induct)
  case (2 k task es s)
  have "tasks_of j (SubmitDiskTask k task s) = tasks_of j s @ (if j = k then [(task, None)] else [])"
    using fresh_no_result [OF "2.prems"] by (simp add: tasks_of_def SubmitDiskTask_def)
  moreover have "ds_transfers (SubmitDiskTask k task s) = ds_transfers s"
    by (simp add: SubmitDiskTask_def)
  ultimately show ?case using "2.IH" [OF queue_ok_Submit [OF "2.prems"]] by simp
qed (simp_all add: tasks_of_def queue_ok_other)

lemma tasks_of_with_transfer:
  assumes "queue_ok s"
  shows "tasks_of j (with_transfer k te s) = tasks_of j s @ (if j = k then submitted (snd te) else [])"
    and "ds_transfers (with_transfer k te s) = (ds_transfers s)(k := fst te)"
  using tasks_of_effects [OF queue_ok_other(1) [OF assms], of j k "snd te" "(ds_transfers s)(k := fst te)"]
  by (simp_all add: with_transfer_def tasks_of_def)

lemma tasks_of_start: "tasks_of j (start_next s) = tasks_of j s" "ds_transfers (start_next s) = ds_transfers s"
  by (auto simp: tasks_of_def start_next_def split: list.splits)

lemma worker_done_tasks:
  assumes ok: "queue_ok s" and d: "worker_done io w s = Some s'"
  obtains k call es pm r where "tasks_of k s = (call, None) # es" "tasks_of k s' = (call, Some r) # es"
    "disk_Call io call (t_pm (ds_transfers s k)) = Some (pm, r)" "\<forall>(c, r)\<in>set es. r = None"
    "ds_transfers s' = (ds_transfers s)(k := (ds_transfers s k)\<lparr>t_pm := pm\<rparr>)"
    "\<And>j. j \<noteq> k \<Longrightarrow> tasks_of j s' = tasks_of j s"
proof -
  have w: "w < length (ds_workers s)" using d by (auto simp: worker_done_def split: if_splits)
  from queue_ok_worker [OF ok w] obtain t ts where t: "ds_diskTasks s = t # ts"
    "ds_workers s = [t\<lparr>dt_running := False\<rparr>]" "ds_diskResults s = []" "dt_running t" "w = 0" by metis
  define k where "k = dt_transfer t"
  obtain pm r where c: "disk_Call io (dt_callable t) (t_pm (ds_transfers s k)) = Some (pm, r)"
    and s': "s' = s\<lparr>ds_workers := [], ds_diskResults := [(dt_id t, r)],
      ds_transfers := (ds_transfers s)(k := (ds_transfers s k)\<lparr>t_pm := pm\<rparr>)\<rparr>"
    using d t by (auto simp: worker_done_def Let_def k_def split: option.splits)
  have other: "dt_id u \<noteq> dt_id t" if "u \<in> set ts" for u
    using ok that by (auto simp: queue_ok_def t(1) intro: rev_image_eqI)
  define es where "es = map (\<lambda>t. (dt_callable t, None :: disk_result option)) (filter (\<lambda>t. dt_transfer t = k) ts)"
  have "tasks_of k s = (dt_callable t, None) # es"
    by (simp add: tasks_of_def t k_def es_def)
  moreover have "tasks_of k s' = (dt_callable t, Some r) # es"
    using other by (auto simp: tasks_of_def t s' k_def es_def)
  moreover have "tasks_of j s' = tasks_of j s" if "j \<noteq> k" for j
    using other that by (auto simp: tasks_of_def t s' k_def)
  moreover have "\<forall>(c, r)\<in>set es. r = None" by (auto simp: es_def)
  ultimately show ?thesis using c by (intro that [of k "dt_callable t" es r pm]) (simp_all add: s')
qed

lemma take_result_tasks:
  assumes ok: "queue_ok s" and d: "take_result s = Some s'"
  obtains k call r es te where "tasks_of k s = (call, Some r) # es" "\<forall>(c, r)\<in>set es. r = None"
    "OnCompleted r (ds_transfers s k) = Some te" "tasks_of k s' = es @ submitted (snd te)"
    "ds_transfers s' = (ds_transfers s)(k := fst te)" "\<And>j. j \<noteq> k \<Longrightarrow> tasks_of j s' = tasks_of j s"
proof -
  obtain i r rs where r: "ds_diskResults s = (i, r) # rs"
    using d by (auto simp: take_result_def split: list.splits)
  from queue_ok_result [OF ok r] obtain t ts where t: "ds_diskTasks s = t # ts" "dt_id t = i" "ds_workers s = []"
    "rs = []" "find (\<lambda>t. dt_id t = i) (ds_diskTasks s) = Some t" "filter (\<lambda>t. dt_id t \<noteq> i) (ds_diskTasks s) = ts"
    by metis
  define k where "k = dt_transfer t"
  define s1 where "s1 = s\<lparr>ds_diskResults := [], ds_diskTasks := ts\<rparr>"
  obtain te where te: "OnCompleted r (ds_transfers s k) = Some te" "s' = with_transfer k te s1"
    using d r t by (auto simp: take_result_def Let_def k_def s1_def)
  have ok1: "queue_ok s1"
    using ok t(1,3) by (cases ts) (auto simp: queue_ok_def in_progress_def s1_def)
  have other: "dt_id u \<noteq> i" if "u \<in> set ts" for u
    using ok that t(2) by (auto simp: queue_ok_def t(1) intro: rev_image_eqI)
  have eq: "tasks_of j s = (if j = k then [(dt_callable t, Some r)] else []) @ tasks_of j s1" for j
    using other t(2,4) by (auto simp: tasks_of_def t(1) r k_def s1_def)
  have "\<forall>(c, r)\<in>set (tasks_of k s1). r = None" by (auto simp: tasks_of_def s1_def)
  with te eq tasks_of_with_transfer [OF ok1] show ?thesis
    by (intro that [of k "dt_callable t" r "tasks_of k s1" te]) (simp_all add: s1_def)
qed

end
