(* ===== verification/Picker_View.thy ===== *)
theory Picker_View
  imports Picker
begin

text \<open>
  The piece picker as a map from pieces and blocks to their states. The list of pieces in
  progress, its search and its updates in place disappear: each operation of
  \<^verbatim>\<open>piece_picker.go\<close> is an update of the map. The proofs about transfers use this view only.
\<close>

section \<open>The view\<close>

definition pst :: "PiecePicker \<Rightarrow> int \<Rightarrow> PieceState option" where
  "pst p i = idx (pp_pieceStatus p) i"

definition bst :: "PiecePicker \<Rightarrow> PieceBlock \<Rightarrow> BlockState option" where
  "bst p pb = map_option db_state (block_of p pb)"

abbreviation here :: "BlockState option \<Rightarrow> bool" where
  "here s \<equiv> s = Some StateWriting \<or> s = Some StateFinished"

text \<open>The blocks that exist are those of the pieces in progress.\<close>

lemma bst_iff:
  assumes ok: "picker_ok p"
  shows "bst p pb \<noteq> None \<longleftrightarrow> pst p (pb_PieceIndex pb) = Some PieceDownloading \<and>
    0 \<le> pb_PieceBlock pb \<and> pb_PieceBlock pb < pp_BlocksInPiece p (pb_PieceIndex pb)"
proof (cases "GetDownloadingPiece p (pb_PieceIndex pb)")
  case None
  then have none: "pb_PieceIndex pb \<notin> dp_PieceIndex ` set (pp_downloadingPieces p)"
    by (simp add: GetDownloadingPiece_None)
  have "pst p (pb_PieceIndex pb) \<noteq> Some PieceDownloading"
  proof
    assume "pst p (pb_PieceIndex pb) = Some PieceDownloading"
    then have r: "0 \<le> pb_PieceIndex pb" "nat (pb_PieceIndex pb) < length (pp_pieceStatus p)"
      "pp_pieceStatus p ! nat (pb_PieceIndex pb) = PieceDownloading"
      by (auto simp: pst_def idx_Some_iff)
    with ok have "int (nat (pb_PieceIndex pb)) \<in> dp_PieceIndex ` set (pp_downloadingPieces p)"
      unfolding picker_ok_def by blast
    with r(1) none show False by simp
  qed
  moreover have "block_of p pb = None"
    using None by (simp add: GetDownloadingPiece_def fetch_def)
  ultimately show ?thesis by (simp add: bst_def)
next
  case (Some d)
  have "dp_ok p d" "dp_PieceIndex d = pb_PieceIndex pb"
    using GetDownloadingPiece_Some [OF Some] ok by (auto simp: picker_ok_def)
  moreover have "block_of p pb = idx (dp_Blocks d) (pb_PieceBlock pb)"
    using Some by (simp add: GetDownloadingPiece_def fetch_def)
  ultimately show ?thesis by (auto simp: bst_def pst_def dp_ok_def idx_def)
qed

lemma bst_None: "picker_ok p \<Longrightarrow> pst p (pb_PieceIndex pb) \<noteq> Some PieceDownloading \<Longrightarrow> bst p pb = None"
  using bst_iff by blast

section \<open>Updates in place\<close>

lemma modify_dp_fetch:
  "modify_dp i f ds = Some es \<Longrightarrow> (\<And>d d'. d \<in> set ds \<Longrightarrow> f d = Some d' \<Longrightarrow> dp_PieceIndex d' = dp_PieceIndex d) \<Longrightarrow>
    fetch es pb =
      (if pb_PieceIndex pb = i then
         (case find (\<lambda>d. dp_PieceIndex d = i) ds of
            None \<Rightarrow> None
          | Some d \<Rightarrow> (case f d of None \<Rightarrow> None | Some d' \<Rightarrow> idx (dp_Blocks d') (pb_PieceBlock pb)))
       else fetch ds pb)"
proof (induction ds arbitrary: es)
  case Nil
  then show ?case by simp
next
  case (Cons d ds)
  show ?case
  proof (cases "dp_PieceIndex d = i")
    case True
    then obtain d' where d': "f d = Some d'" "es = d' # ds" using Cons.prems(1) by auto
    moreover have "dp_PieceIndex d' = i" using Cons.prems(2) [of d d'] d' True by simp
    ultimately show ?thesis using True by (cases "pb_PieceIndex pb = i") (simp_all add: fetch_Cons)
  next
    case False
    then obtain es' where es': "modify_dp i f ds = Some es'" "es = d # es'" using Cons.prems(1) by auto
    have "fetch es' pb = (if pb_PieceIndex pb = i then
         (case find (\<lambda>d. dp_PieceIndex d = i) ds of
            None \<Rightarrow> None
          | Some d \<Rightarrow> (case f d of None \<Rightarrow> None | Some d' \<Rightarrow> idx (dp_Blocks d') (pb_PieceBlock pb)))
       else fetch ds pb)"
      by (rule Cons.IH [OF es'(1)]) (rule Cons.prems(2), simp_all)
    with False es'(2) show ?thesis by (cases "pb_PieceIndex pb = i") (simp_all add: fetch_Cons)
  qed
qed

lemma modify_dp_total:
  "(\<And>d. d \<in> set ds \<Longrightarrow> dp_PieceIndex d = i \<Longrightarrow> f d \<noteq> None) \<Longrightarrow> modify_dp i f ds \<noteq> None"
  by (induction ds) auto

lemma on_block_index: "on_block j g d = Some d' \<Longrightarrow> dp_PieceIndex d' = dp_PieceIndex d"
  by (auto dest: on_block_shape)

lemma on_block_idx:
  "on_block j g d = Some d' \<Longrightarrow>
    idx (dp_Blocks d') k = (if k = j then map_option g (idx (dp_Blocks d) k) else idx (dp_Blocks d) k)"
  by (auto simp: on_block_def idx_def nth_list_update nat_eq_iff split: option.splits if_splits)

text \<open>Changing one block that exists.\<close>

lemma on_piece_block:
  assumes ok: "picker_ok p" and b: "block_of p pb = Some b"
  shows "\<exists>p'. on_piece (pb_PieceIndex pb) (on_block (pb_PieceBlock pb) g) p = Some p' \<and>
    pp_pieceStatus p' = pp_pieceStatus p \<and> pp_BlocksInPiece p' = pp_BlocksInPiece p \<and>
    pp_pieceCount p' = pp_pieceCount p \<and> pp_blocksInLastPiece p' = pp_blocksInLastPiece p \<and>
    block_of p' = (block_of p)(pb := Some (g b)) \<and> picker_ok p'"
proof -
  define i j where "i = pb_PieceIndex pb" and "j = pb_PieceBlock pb"
  obtain d where d: "find (\<lambda>d. dp_PieceIndex d = i) (pp_downloadingPieces p) = Some d"
    "idx (dp_Blocks d) j = Some b"
    using b by (auto simp: fetch_def i_def j_def split: option.splits)
  have dmem: "d \<in> set (pp_downloadingPieces p)" "dp_PieceIndex d = i"
    using d(1) by (auto simp: find_Some_iff)
  have "on_block j g e \<noteq> None" if "e \<in> set (pp_downloadingPieces p)" "dp_PieceIndex e = i" for e
  proof -
    have "e = d" using unique_dp [OF ok that(1) dmem(1)] that dmem by simp
    with d(2) show ?thesis by (simp add: on_block_def)
  qed
  then obtain ds where ds: "modify_dp i (on_block j g) (pp_downloadingPieces p) = Some ds"
    using modify_dp_total by blast
  define p' where "p' = p\<lparr>pp_downloadingPieces := ds\<rparr>"
  have p': "on_piece i (on_block j g) p = Some p'" using ds by (simp add: on_piece_def p'_def)
  obtain d' where d': "on_block j g d = Some d'" using d(2) by (simp add: on_block_def)
  have "block_of p' qb = ((block_of p)(pb := Some (g b))) qb" for qb
  proof (cases "pb_PieceIndex qb = i")
    case True
    have "fetch ds qb = idx (dp_Blocks d') (pb_PieceBlock qb)"
      using modify_dp_fetch [OF ds, of qb] on_block_index True d(1) d' by simp
    moreover have "qb = pb \<longleftrightarrow> pb_PieceBlock qb = j"
      using True by (auto simp: i_def j_def intro: PieceBlock.equality)
    moreover have "fetch (pp_downloadingPieces p) qb = idx (dp_Blocks d) (pb_PieceBlock qb)"
      using True d(1) by (simp add: fetch_def)
    ultimately show ?thesis using on_block_idx [OF d'] d(2) by (simp add: p'_def)
  next
    case False
    then have "qb \<noteq> pb" by (auto simp: i_def)
    with False show ?thesis using modify_dp_fetch [OF ds, of qb] on_block_index by (simp add: p'_def)
  qed
  moreover have "picker_ok p'" by (rule on_piece_ok [OF ok p']) simp
  ultimately show ?thesis
    using p' by (intro exI [of _ p']) (auto simp: p'_def i_def j_def pp_BlocksInPiece_def fun_eq_iff)
qed

text \<open>The parts of the picker that no operation changes.\<close>

definition same_file :: "PiecePicker \<Rightarrow> PiecePicker \<Rightarrow> bool" where
  "same_file p q \<longleftrightarrow> pp_pieceCount q = pp_pieceCount p \<and> pp_blocksInLastPiece q = pp_blocksInLastPiece p"

lemma same_file_refl [simp]: "same_file p p"
  by (simp add: same_file_def)

lemma same_file_trans: "same_file p q \<Longrightarrow> same_file q r \<Longrightarrow> same_file p r"
  by (simp add: same_file_def)

lemma same_file_blocks: "same_file p q \<Longrightarrow> pp_BlocksInPiece q = pp_BlocksInPiece p"
  by (auto simp: same_file_def pp_BlocksInPiece_def)

lemma same_file_count: "picker_ok p \<Longrightarrow> picker_ok q \<Longrightarrow> same_file p q \<Longrightarrow>
    length (pp_pieceStatus q) = length (pp_pieceStatus p)"
  by (simp add: same_file_def picker_ok_def)

definition updates :: "PiecePicker \<Rightarrow> PieceBlock \<Rightarrow> BlockState \<Rightarrow> PiecePicker \<Rightarrow> bool" where
  "updates p pb st q \<longleftrightarrow> picker_ok q \<and> same_file p q \<and> pst q = pst p \<and> bst q = (bst p)(pb := Some st)"

lemma on_piece_updates:
  assumes "picker_ok p" and "block_of p pb = Some b"
  shows "\<exists>q. on_piece (pb_PieceIndex pb) (on_block (pb_PieceBlock pb) g) p = Some q \<and> updates p pb (db_state (g b)) q"
  using on_piece_block [OF assms, of g] by (fastforce simp: updates_def same_file_def pst_def bst_def fun_eq_iff)

lemma block_of_None:
  "GetDownloadingPiece p (pb_PieceIndex pb) = None \<Longrightarrow> block_of p pb = None"
  by (simp add: GetDownloadingPiece_def fetch_def)

lemma GetDownloadingPiece_block:
  "block_of p pb = Some b \<Longrightarrow> \<exists>d. GetDownloadingPiece p (pb_PieceIndex pb) = Some d \<and>
     idx (dp_Blocks d) (pb_PieceBlock pb) = Some b"
  by (auto simp: GetDownloadingPiece_def fetch_def split: option.splits)

lemma bst_SomeE:
  assumes "bst p pb = Some st"
  obtains b where "block_of p pb = Some b" "db_state b = st"
  using assms by (auto simp: bst_def)

section \<open>The operations on blocks\<close>

lemma MarkAsFinished_view:
  assumes ok: "picker_ok p" and b: "bst p pb \<noteq> None"
  shows "\<exists>q. MarkAsFinished pb p = Some (q, True) \<and> updates p pb StateFinished q"
proof -
  obtain b where b: "block_of p pb = Some b" using b by (auto simp: bst_def)
  show ?thesis
    using GetDownloadingPiece_block [OF b] on_piece_updates [OF ok b, of db_Finish]
    by (auto simp: MarkAsFinished_def dp_FinishBlock_def db_Finish_def)
qed

text \<open>A piece that is not in progress is left alone.\<close>

lemma GetDownloadingPiece_pst:
  "picker_ok p \<Longrightarrow> GetDownloadingPiece p i \<noteq> None \<Longrightarrow> pst p i = Some PieceDownloading"
proof -
  assume ok: "picker_ok p" and "GetDownloadingPiece p i \<noteq> None"
  then obtain d where "GetDownloadingPiece p i = Some d" by auto
  from GetDownloadingPiece_Some [OF this] ok have "dp_ok p d" "dp_PieceIndex d = i"
    by (auto simp: picker_ok_def)
  then show ?thesis by (auto simp: dp_ok_def pst_def idx_def)
qed

lemma not_downloading_view:
  assumes "picker_ok p" and "pst p (pb_PieceIndex pb) \<noteq> Some PieceDownloading"
  shows "MarkAsFinished pb p = Some (p, False)" "MarkAsWriting pb p = Some (p, False)"
    "AbortDownload pb peer p = Some p"
  using GetDownloadingPiece_pst [OF assms(1), of "pb_PieceIndex pb"] assms(2)
  by (cases "GetDownloadingPiece p (pb_PieceIndex pb)";
      simp add: MarkAsFinished_def MarkAsWriting_def AbortDownload_def)+

lemma modify_dp_cong:
  "(\<And>e. e \<in> set ds \<Longrightarrow> dp_PieceIndex e = i \<Longrightarrow> f e = g e) \<Longrightarrow> modify_dp i f ds = modify_dp i g ds"
  by (induction ds) simp_all

lemma modify_dp_id:
  "(\<And>e. e \<in> set ds \<Longrightarrow> dp_PieceIndex e = i \<Longrightarrow> f e = Some e) \<Longrightarrow> modify_dp i f ds = Some ds"
  by (induction ds) simp_all

lemma MarkAsWriting_view:
  assumes ok: "picker_ok p" and b: "bst p pb = Some st"
  shows "if st = StateNone \<or> st = StateRequested
    then \<exists>q. MarkAsWriting pb p = Some (q, True) \<and> updates p pb StateWriting q
    else MarkAsWriting pb p = Some (p, False)"
proof -
  obtain b where b: "block_of p pb = Some b" "db_state b = st" using b by (rule bst_SomeE)
  obtain d where d: "GetDownloadingPiece p (pb_PieceIndex pb) = Some d" "idx (dp_Blocks d) (pb_PieceBlock pb) = Some b"
    using GetDownloadingPiece_block [OF b(1)] by blast
  note dm = GetDownloadingPiece_Some [OF d(1)]
  have only: "e = d" if "e \<in> set (pp_downloadingPieces p)" "dp_PieceIndex e = pb_PieceIndex pb" for e
    using unique_dp [OF ok that(1) conjunct1 [OF dm]] that(2) conjunct2 [OF dm] by simp
  have same: "on_piece (pb_PieceIndex pb) (\<lambda>_. f d) p = on_piece (pb_PieceIndex pb) f p" for f
  proof -
    have "modify_dp (pb_PieceIndex pb) (\<lambda>_. f d) (pp_downloadingPieces p) =
        modify_dp (pb_PieceIndex pb) f (pp_downloadingPieces p)"
      by (rule modify_dp_cong) (drule (1) only, simp)
    then show ?thesis by (simp add: on_piece_def)
  qed
  show ?thesis
  proof (cases "st = StateNone \<or> st = StateRequested")
    case True
    obtain d' where d': "on_block (pb_PieceBlock pb) db_Write d = Some d'" using d(2) by (simp add: on_block_def)
    obtain q where "on_piece (pb_PieceIndex pb) (on_block (pb_PieceBlock pb) db_Write) p = Some q"
      "updates p pb StateWriting q"
      using on_piece_updates [OF ok b(1), of db_Write] by (auto simp: db_Write_def)
    with True d d' b(2) same [of "on_block (pb_PieceBlock pb) db_Write"] show ?thesis
      by (auto simp: MarkAsWriting_def dp_WriteBlock_def db_states)
  next
    case False
    then have "MarkAsWriting pb p = map_option (\<lambda>p'. (p', False)) (on_piece (pb_PieceIndex pb) (\<lambda>_. Some d) p)"
      using d b(2) by (cases st) (auto simp: MarkAsWriting_def dp_WriteBlock_def db_states)
    moreover have "on_piece (pb_PieceIndex pb) (\<lambda>_. Some d) p = Some p"
    proof -
      have "modify_dp (pb_PieceIndex pb) (\<lambda>_. Some d) (pp_downloadingPieces p) = Some (pp_downloadingPieces p)"
        by (rule modify_dp_id) (drule (1) only, simp)
      then show ?thesis by (simp add: on_piece_def)
    qed
    ultimately show ?thesis using False by simp
  qed
qed

text \<open>Aborting a request that no peer has fulfilled.\<close>

lemma AbortDownload_view:
  assumes ok: "picker_ok p" and b: "bst p pb = Some st" and undone: "st = StateNone \<or> st = StateRequested"
  shows "\<exists>q st'. AbortDownload pb peer p = Some q \<and> updates p pb st' q \<and>
    (st' = StateNone \<or> st' = StateRequested)"
proof -
  obtain b where b: "block_of p pb = Some b" "db_state b = st" using b by (rule bst_SomeE)
  have "db_state (db_Abort peer b) = StateNone \<or> db_state (db_Abort peer b) = StateRequested"
    using undone b(2) by (auto simp: db_Abort_def Let_def)
  then show ?thesis
    using GetDownloadingPiece_block [OF b(1)] on_piece_updates [OF ok b(1), of "db_Abort peer"]
    by (auto simp: AbortDownload_def dp_AbortDownloading_def)
qed

section \<open>The operations on pieces\<close>

lemma pst_update: "upd (pp_pieceStatus p) i s = Some st \<Longrightarrow> idx st = (pst p)(i := Some s)"
  by (auto simp: pst_def fun_eq_iff idx_upd)

lemma fetch_drop:
  "fetch (filter (\<lambda>d. dp_PieceIndex d \<noteq> i) ds) pb = (if pb_PieceIndex pb = i then None else fetch ds pb)"
  by (induction ds) (auto simp: fetch_Cons)

definition closes :: "PiecePicker \<Rightarrow> int \<Rightarrow> PieceState \<Rightarrow> PiecePicker \<Rightarrow> bool" where
  "closes p i s q \<longleftrightarrow> picker_ok q \<and> same_file p q \<and> pst q = (pst p)(i := Some s) \<and>
     bst q = (\<lambda>pb. if pb_PieceIndex pb = i then None else bst p pb)"

lemma drop_status_view:
  assumes "picker_ok p" and "pst p i \<noteq> None" and "s \<noteq> PieceDownloading"
  shows "\<exists>q. set_status i s (drop_piece i p) = Some q \<and> closes p i s q"
proof -
  obtain st where st: "upd (pp_pieceStatus p) i s = Some st"
    using assms(2) by (auto simp: pst_def upd_def idx_def split: if_splits)
  define q where "q = (drop_piece i p)\<lparr>pp_pieceStatus := st\<rparr>"
  have q: "set_status i s (drop_piece i p) = Some q"
    using st by (simp add: set_status_def drop_piece_def q_def)
  have "picker_ok q" by (rule drop_status_ok [OF assms(1) q assms(3)])
  moreover have "bst q pb = (if pb_PieceIndex pb = i then None else bst p pb)" for pb
    by (simp add: bst_def q_def drop_piece_def fetch_drop)
  moreover have "pst q = (pst p)(i := Some s)"
    using pst_update [OF st] by (simp add: q_def pst_def fun_eq_iff)
  ultimately show ?thesis using q by (auto simp: closes_def same_file_def q_def drop_piece_def)
qed

lemma RestorePiece_view:
  assumes "picker_ok p" and "pst p i \<noteq> None"
  shows "\<exists>q. RestorePiece i p = Some q \<and> closes p i PieceNone q"
  using drop_status_view [OF assms, of PieceNone] drop_absent [of p i]
  by (cases "GetDownloadingPiece p i") (auto simp: RestorePiece_def)

lemma WeHave_view:
  assumes "picker_ok p" and "pst p i \<noteq> None"
  shows "\<exists>q. WeHave i p = Some q \<and> closes p i PieceHave q"
  using drop_status_view [OF assms, of PieceHave] by (auto simp: WeHave_def)

lemma HavePiece_view: "HavePiece i p = map_option (\<lambda>s. s = PieceHave) (pst p i)"
  by (simp add: HavePiece_def pst_def)

lemma IsPieceFinished_view:
  assumes ok: "picker_ok p" and i: "pst p i \<noteq> None"
  shows "IsPieceFinished i p = Some (pst p i = Some PieceHave \<or>
    pst p i = Some PieceDownloading \<and> (\<forall>pb. pb_PieceIndex pb = i \<and> bst p pb \<noteq> None \<longrightarrow> here (bst p pb)))"
proof (cases "pst p i = Some PieceDownloading")
  case True
  have "here (bst p pb) \<longleftrightarrow> (\<exists>b. block_of p pb = Some b \<and> (db_IsFinished b \<or> db_IsWriting b))" for pb
    by (auto simp: bst_def db_states)
  moreover have "bst p (NewPieceBlock i j) \<noteq> None \<longleftrightarrow> 0 \<le> j \<and> j < pp_BlocksInPiece p i" for j
    using bst_iff [OF ok, of "NewPieceBlock i j"] True by (simp add: NewPieceBlock_def)
  moreover have "(\<forall>pb. pb_PieceIndex pb = i \<and> bst p pb \<noteq> None \<longrightarrow> here (bst p pb)) \<longleftrightarrow>
      (\<forall>j. bst p (NewPieceBlock i j) \<noteq> None \<longrightarrow> here (bst p (NewPieceBlock i j)))"
    by (metis NewPieceBlock_eq_iff)
  ultimately have "(\<forall>j. 0 \<le> j \<and> j < pp_BlocksInPiece p i \<longrightarrow>
      (\<exists>b. block_of p (NewPieceBlock i j) = Some b \<and> (db_IsFinished b \<or> db_IsWriting b))) \<longleftrightarrow>
    (\<forall>pb. pb_PieceIndex pb = i \<and> bst p pb \<noteq> None \<longrightarrow> here (bst p pb))"
    by simp
  then show ?thesis using IsPieceFinished_blocks [OF ok, of i] True by (simp add: pst_def)
next
  case False
  obtain s where "pst p i = Some s" using i by auto
  with False show ?thesis by (cases s) (simp_all add: IsPieceFinished_def pst_def)
qed

section \<open>Picking\<close>

text \<open>Pieces that were not started may be started; nothing else happens to their states.\<close>

definition starts :: "PiecePicker \<Rightarrow> PiecePicker \<Rightarrow> bool" where
  "starts p q \<longleftrightarrow> same_file p q \<and>
     (\<forall>i. pst q i = pst p i \<or> pst p i = Some PieceNone \<and> pst q i = Some PieceDownloading)"

lemma starts_refl [simp]: "starts p p"
  by (simp add: starts_def)

lemma starts_trans: "starts p q \<Longrightarrow> starts q r \<Longrightarrow> starts p r"
  unfolding starts_def using same_file_trans by (metis PieceState.distinct(1) option.inject)

lemma starts_add: "starts p (fst (addDownloadingBlocks peer speed eg av k p))"
  by (simp add: starts_def same_file_def pst_def) (simp add: addDownloadingBlocks_def split: prod.splits)

lemma starts_Choose: "ChooseNextPieceWithAvailability av p = Some q \<Longrightarrow> starts p q"
  by (auto simp: ChooseNextPieceWithAvailability_def find_Some_iff starts_def same_file_def pst_def
      start_piece_def idx_def nth_list_update split: if_splits)

lemma starts_PickPieces: "PickPiecesWithAvailability peer speed av k p = (q, ps) \<Longrightarrow> starts p q"
proof (induction peer speed av k p arbitrary: q ps rule: PickPiecesWithAvailability.induct)
  case (1 peer speed av k p)
  obtain p1 rs where a1: "addDownloadingBlocks peer speed False av k p = (p1, rs)" by fastforce
  obtain p2 qs where a2: "(if speed \<noteq> PeerSpeedSlow \<and> int (length rs) < k \<and> IsEndGame p1
      then addDownloadingBlocks peer speed True av (k - int (length rs)) p1 else (p1, [])) = (p2, qs)"
    by fastforce
  have "starts p p1" using starts_add [of p peer speed False av k] a1 by simp
  moreover have "starts p1 p2"
    using starts_add [of p1 peer speed True av "k - int (length rs)"] a2 by (auto split: if_splits)
  ultimately have p2: "starts p p2" by (rule starts_trans)
  define n where "n = int (length rs) + int (length qs)"
  have eq: "PickPiecesWithAvailability peer speed av k p =
      (if n < k then
         (case ChooseNextPieceWithAvailability av p2 of
            None \<Rightarrow> (p2, rs @ qs)
          | Some p3 \<Rightarrow>
              (let (p4, ts) = PickPiecesWithAvailability peer speed av (k - n) p3 in (p4, rs @ qs @ ts)))
       else (p2, rs @ qs))"
    unfolding n_def by (subst PickPiecesWithAvailability.simps) (simp add: a1 a2)
  show ?case
  proof (cases "n < k \<and> ChooseNextPieceWithAvailability av p2 \<noteq> None")
    case False
    with eq 1(2) p2 show ?thesis by (auto split: if_splits)
  next
    case True
    then obtain p3 where p3: "ChooseNextPieceWithAvailability av p2 = Some p3" "n < k" by auto
    obtain p4 ts where p4: "PickPiecesWithAvailability peer speed av (k - n) p3 = (p4, ts)" by fastforce
    with eq 1(2) p3 have "q = p4" by simp
    moreover have "starts p3 p4"
      using 1(1) [OF a1 [symmetric] refl a2 [symmetric] refl n_def p3(2,1) p4] .
    ultimately show ?thesis using p2 starts_Choose [OF p3(1)] starts_trans by blast
  qed
qed

definition unwritten :: "BlockState option \<Rightarrow> bool" where
  "unwritten s \<longleftrightarrow> s = None \<or> s = Some StateNone \<or> s = Some StateRequested"

text \<open>Picking touches only blocks nobody has delivered.\<close>

lemma PickPieces_view:
  assumes ok: "picker_ok p" and pick: "PickPiecesWithAvailability peer speed av k p = (q, ps)"
  shows "picker_ok q \<and> starts p q \<and>
    (\<forall>pb. bst q pb = bst p pb \<or> unwritten (bst p pb) \<and> unwritten (bst q pb) \<and> bst q pb \<noteq> None)"
proof -
  have q: "picker_ok q" "took peer speed av p ps q" using PickPieces_spec [OF ok pick] by blast+
  have "bst q pb = bst p pb \<or> unwritten (bst p pb) \<and> unwritten (bst q pb) \<and> bst q pb \<noteq> None" for pb
  proof (cases "pb \<in> set ps")
    case True
    then have "takeable peer speed p pb" "mine peer q pb" using q(2) by (auto simp: took_def)
    then show ?thesis
      by (auto simp: takeable_def mine_def bst_def unwritten_def pickable_def db_states split: option.splits)
  next
    case False
    then have "kept p q pb" using q(2) by (simp add: took_def)
    then show ?thesis by (auto simp: kept_def bst_def unwritten_def zero_block_def split: option.splits)
  qed
  with q(1) starts_PickPieces [OF pick] show ?thesis by blast
qed

end
