(* ===== verification/Download.thy ===== *)
theory Download
  imports Disk_Tasks Picker_View
begin

text \<open>
  Downloading as a whole: picker, piece store, disk queue and hash set together. The theory
  carries one invariant, \<open>transfer_ok\<close>, through every event of the download path -
  requests, received blocks, aborted requests, goroutines that write and hash, results that
  come back - for all transfers of a session at once. It has five parts: the store holds what
  the picker says is written, the tasks in the queue are the blocks being written, a piece is
  queued for hashing exactly when it is complete, a piece that the transfer has is the one of
  the hash set, and the result on its way is that of the first task.
\<close>

section \<open>What is in the queue\<close>

fun writes :: "entry list \<Rightarrow> (PieceBlock \<times> bytes) list" where
  "writes [] = []"
| "writes ((AsyncWrite pb x, r) # q) = (pb, x) # writes q"
| "writes (e # q) = writes q"

fun hashes :: "entry list \<Rightarrow> int list" where
  "hashes [] = []"
| "hashes ((AsyncHash i, r) # q) = i # hashes q"
| "hashes (e # q) = hashes q"

text \<open>No block of a piece is written after the piece is hashed.\<close>

fun ordered :: "entry list \<Rightarrow> bool" where
  "ordered [] \<longleftrightarrow> True"
| "ordered ((AsyncHash i, r) # q) \<longleftrightarrow> (\<forall>(pb, x)\<in>set (writes q). pb_PieceIndex pb \<noteq> i) \<and> ordered q"
| "ordered (e # q) \<longleftrightarrow> ordered q"

definition called :: "entry list \<Rightarrow> (disk_call \<times> disk_result) option" where
  "called q = (case q of (c, Some r) # _ \<Rightarrow> Some (c, r) | _ \<Rightarrow> None)"

definition called_block :: "entry list \<Rightarrow> PieceBlock set" where
  "called_block q = (case called q of Some (AsyncWrite pb x, r) \<Rightarrow> {pb} | _ \<Rightarrow> {})"

definition called_piece :: "entry list \<Rightarrow> int set" where
  "called_piece q = (case called q of Some (AsyncHash i, r) \<Rightarrow> {i} | _ \<Rightarrow> {})"

definition uncalled :: "entry list \<Rightarrow> bool" where
  "uncalled q \<longleftrightarrow> (\<forall>(c, r)\<in>set q. r = None)"

lemma writes_append [simp]: "writes (p @ q) = writes p @ writes q"
  by (induction p rule: writes.induct) simp_all

lemma hashes_append [simp]: "hashes (p @ q) = hashes p @ hashes q"
  by (induction p rule: hashes.induct) simp_all

lemma ordered_append:
  "ordered (p @ q) \<longleftrightarrow> ordered p \<and> ordered q \<and>
    (\<forall>i\<in>set (hashes p). \<forall>(pb, x)\<in>set (writes q). pb_PieceIndex pb \<noteq> i)"
  by (induction p rule: ordered.induct) auto

lemma uncalled_called: "uncalled q \<Longrightarrow> called q = None"
  by (auto simp: uncalled_def called_def split: list.splits option.splits)

lemma called_append: "uncalled q' \<Longrightarrow> called (q @ q') = called q"
  using uncalled_called [of q'] by (cases q) (auto simp: called_def)

lemma uncalled_append [simp]: "uncalled (p @ q) \<longleftrightarrow> uncalled p \<and> uncalled q"
  by (auto simp: uncalled_def)

lemma uncalled_tl: "uncalled (tl q) \<Longrightarrow> uncalled q' \<Longrightarrow> uncalled (tl (q @ q'))"
  by (cases q; cases q') (auto simp: uncalled_def)

lemma uncalled_submitted [simp]: "uncalled (submitted es)"
  by (induction es rule: submitted.induct) (auto simp: uncalled_def)

section \<open>The invariant\<close>

text \<open>The blocks whose bytes the block managers hold.\<close>

definition registered :: "PiecePicker \<Rightarrow> entry list \<Rightarrow> PieceBlock set" where
  "registered p q =
     {pb. bst p pb = Some StateFinished \<and> pb_PieceIndex pb \<notin> called_piece q} \<union> called_block q"

definition complete :: "PiecePicker \<Rightarrow> int \<Rightarrow> bool" where
  "complete p i \<longleftrightarrow> pst p i = Some PieceDownloading \<and>
     (\<forall>pb. pb_PieceIndex pb = i \<and> bst p pb \<noteq> None \<longrightarrow> here (bst p pb))"

definition all_have_them :: "PiecePicker \<Rightarrow> bool" where
  "all_have_them p \<longleftrightarrow> (\<forall>i s. pst p i = Some s \<longrightarrow> s = PieceHave)"

definition cut_ok :: "int \<Rightarrow> PiecePicker \<Rightarrow> PieceManager \<Rightarrow> bool" where
  "cut_ok fsize p pm \<longleftrightarrow> picker_ok p \<and>
     pp_pieceCount p = pm_pieceCount pm \<and> pp_blocksInLastPiece p = pm_blocksInLastPiece pm \<and>
     enumerates fsize (pm_pieceCount pm) (pm_blocksInLastPiece pm) \<and>
     (\<forall>i. i < pm_pieceCount pm \<longrightarrow> i * PieceSize < fsize)"

definition store_ok :: "int \<Rightarrow> PiecePicker \<Rightarrow> PieceManager \<Rightarrow> entry list \<Rightarrow> bool" where
  "store_ok fsize p pm q \<longleftrightarrow> (\<exists>D. pm_inv fsize D (registered p q) pm)"

definition writes_ok :: "int \<Rightarrow> PiecePicker \<Rightarrow> entry list \<Rightarrow> bool" where
  "writes_ok fsize p q \<longleftrightarrow> distinct (map fst (writes q)) \<and>
     (\<forall>pb. pb \<in> fst ` set (writes q) \<longleftrightarrow> bst p pb = Some StateWriting) \<and>
     (\<forall>(pb, x)\<in>set (writes q). int (length x) = pb_Size pb fsize)"

definition hashes_ok :: "PiecePicker \<Rightarrow> int set \<Rightarrow> entry list \<Rightarrow> bool" where
  "hashes_ok p P q \<longleftrightarrow> distinct (hashes q) \<and> set (hashes q) = P \<and> ordered q \<and>
     (\<forall>i. i \<in> P \<longleftrightarrow> complete p i)"

definition verified :: "int \<Rightarrow> hash list \<Rightarrow> PiecePicker \<Rightarrow> PieceManager \<Rightarrow> bool" where
  "verified fsize H p pm \<longleftrightarrow>
     (\<forall>i. pst p i = Some PieceHave \<and> i < int (length H) \<longrightarrow>
        (\<exists>x. file_piece fsize i pm = Some x \<and> md4Sum x = H ! nat i))"

text \<open>No restoring; the file is closed only when all pieces are there.\<close>

fun no_restore :: "bool \<Rightarrow> entry list \<Rightarrow> bool" where
  "no_restore b [] \<longleftrightarrow> True"
| "no_restore b ((AsyncRestore pb n, r) # q) \<longleftrightarrow> False"
| "no_restore b ((AsyncRelease d, r) # q) \<longleftrightarrow> \<not> d \<and> b \<and> no_restore b q"
| "no_restore b (e # q) \<longleftrightarrow> no_restore b q"

lemma no_restore_append [simp]: "no_restore b (p @ q) \<longleftrightarrow> no_restore b p \<and> no_restore b q"
  by (induction b p rule: no_restore.induct) auto

definition tasks_ok :: "int \<Rightarrow> PiecePicker \<Rightarrow> PieceManager \<Rightarrow> entry list \<Rightarrow> bool" where
  "tasks_ok fsize p pm q \<longleftrightarrow>
     uncalled (tl q) \<and>
     no_restore (all_have_them p) q \<and>
     (case called q of
        None \<Rightarrow> True
      | Some (AsyncWrite pb x, r) \<Rightarrow> \<exists>bufs. r = AsyncWriteResult pb bufs NoError
      | Some (AsyncHash i, r) \<Rightarrow> \<exists>x. r = AsyncHashResult i (md4Sum x) \<and> file_piece fsize i pm = Some x
      | Some (AsyncRelease d, r) \<Rightarrow> \<exists>bufs. r = AsyncReleaseResult bufs d NoError
      | Some (AsyncRestore pb n, r) \<Rightarrow> False)"

definition transfer_ok :: "Transfer \<Rightarrow> entry list \<Rightarrow> bool" where
  "transfer_ok t q \<longleftrightarrow>
     (\<exists>pm. t_pm t = Some pm \<and> t_hashSet t \<noteq> [] \<and> t_numPieces t = pm_pieceCount pm \<and>
        cut_ok (t_size t) (t_picker t) pm \<and> store_ok (t_size t) (t_picker t) pm q \<and>
        writes_ok (t_size t) (t_picker t) q \<and> hashes_ok (t_picker t) (t_pendingPieceHashes t) q \<and>
        verified (t_size t) (t_hashSet t) (t_picker t) pm \<and> tasks_ok (t_size t) (t_picker t) pm q)"

lemmas parts = cut_ok_def store_ok_def writes_ok_def hashes_ok_def verified_def tasks_ok_def

text \<open>The blocks that exist are the blocks of the file.\<close>

lemma cut_ok_valid:
  assumes c: "cut_ok fsize p pm" and b: "bst p pb \<noteq> None"
  shows "valid_block fsize pb" "0 \<le> pb_PieceIndex pb" "pb_PieceIndex pb < pm_pieceCount pm"
    "pst p (pb_PieceIndex pb) = Some PieceDownloading"
proof -
  have ok: "picker_ok p" using c by (simp add: cut_ok_def)
  note r = bst_iff [OF ok, of pb, THEN iffD1, OF b]
  then show pst: "pst p (pb_PieceIndex pb) = Some PieceDownloading" by blast
  then show i: "0 \<le> pb_PieceIndex pb" "pb_PieceIndex pb < pm_pieceCount pm"
    using c ok by (auto simp: pst_def idx_Some_iff cut_ok_def picker_ok_def)
  have "NewPieceBlock (pb_PieceIndex pb) (pb_PieceBlock pb) = pb" by (simp add: NewPieceBlock_is)
  then show "valid_block fsize pb"
    using c i r unfolding cut_ok_def enumerates_def pp_BlocksInPiece_def by metis
qed

lemma cut_ok_exists:
  assumes c: "cut_ok fsize p pm" and v: "valid_block fsize pb"
    and d: "pst p (pb_PieceIndex pb) = Some PieceDownloading"
  shows "bst p pb \<noteq> None"
proof -
  have ok: "picker_ok p" using c by (simp add: cut_ok_def)
  have i: "0 \<le> pb_PieceIndex pb" "pb_PieceIndex pb < pm_pieceCount pm"
    using c ok d by (auto simp: pst_def idx_Some_iff cut_ok_def picker_ok_def)
  have "NewPieceBlock (pb_PieceIndex pb) (pb_PieceBlock pb) = pb" by (simp add: NewPieceBlock_is)
  then have "0 \<le> pb_PieceBlock pb \<and> pb_PieceBlock pb < pp_BlocksInPiece p (pb_PieceIndex pb)"
    using c i v unfolding cut_ok_def enumerates_def pp_BlocksInPiece_def by metis
  with d show ?thesis using bst_iff [OF ok] by blast
qed

lemma cut_ok_same: "cut_ok fsize p pm \<Longrightarrow> picker_ok p' \<Longrightarrow> same_file p p' \<Longrightarrow> cut_ok fsize p' pm"
  by (simp add: cut_ok_def same_file_def)

lemma cut_ok_pieces: "cut_ok fsize p pm \<Longrightarrow> same_pieces pm pm' \<Longrightarrow> cut_ok fsize p pm'"
  by (simp add: cut_ok_def same_pieces_def)

lemma registered_cong:
  assumes "called q' = called q" and "\<And>pb. bst p' pb = Some StateFinished \<longleftrightarrow> bst p pb = Some StateFinished"
  shows "registered p' q' = registered p q"
  using assms by (simp add: registered_def called_piece_def called_block_def)

section \<open>Requests and received blocks\<close>

lemma MarkAsWriting_cases:
  assumes ok: "picker_ok p" and m: "MarkAsWriting pb p = Some (p', w)"
  shows "\<not> w \<and> p' = p \<or> w \<and> unwritten (bst p pb) \<and> bst p pb \<noteq> None \<and> updates p pb StateWriting p'"
proof (cases "bst p pb")
  case None
  have "p' = p \<and> \<not> w"
  proof (cases "GetDownloadingPiece p (pb_PieceIndex pb)")
    case (Some d)
    then have "idx (dp_Blocks d) (pb_PieceBlock pb) = None"
      using None by (simp add: bst_def GetDownloadingPiece_def fetch_def)
    with Some m show ?thesis by (simp add: MarkAsWriting_def dp_WriteBlock_def)
  qed (use m in \<open>simp add: MarkAsWriting_def\<close>)
  then show ?thesis by simp
next
  case (Some st)
  with MarkAsWriting_view [OF ok Some] m show ?thesis
    by (auto simp: unwritten_def split: if_splits)
qed

lemma IsPieceFinished_complete:
  assumes ok: "picker_ok p" and f: "IsPieceFinished i p = Some b" and n: "pst p i \<noteq> Some PieceHave"
  shows "b \<longleftrightarrow> complete p i"
proof -
  have "pst p i \<noteq> None" using f by (cases "idx (pp_pieceStatus p) i") (simp_all add: IsPieceFinished_def pst_def)
  from IsPieceFinished_view [OF ok this] f n show ?thesis by (simp add: complete_def)
qed

lemma QueuePieceHash_cases:
  assumes ok: "picker_ok (t_picker t)" and pm: "t_pm t \<noteq> None" and r: "QueuePieceHash i t = Some (t', effs, b)"
  shows "if complete (t_picker t) i \<and> i \<notin> t_pendingPieceHashes t
    then t' = t\<lparr>t_pendingPieceHashes := insert i (t_pendingPieceHashes t)\<rparr> \<and> effs = [SubmitTask (AsyncHash i)]
    else t' = t \<and> effs = []"
proof (cases "pst (t_picker t) i")
  case None
  then have "i < 0 \<or> i \<ge> int (TotalPieces (t_picker t))"
    by (auto simp: pst_def idx_None_iff TotalPieces_def)
  with None r show ?thesis by (simp add: QueuePieceHash_def complete_def)
next
  case (Some st)
  then have rng: "\<not> (i < 0 \<or> i \<ge> int (TotalPieces (t_picker t)))"
    by (auto simp: pst_def idx_Some_iff TotalPieces_def)
  have h: "HavePiece i (t_picker t) = Some (st = PieceHave)" by (simp add: HavePiece_view Some)
  have f: "IsPieceFinished i (t_picker t) = Some (st = PieceHave \<or> complete (t_picker t) i)"
    using IsPieceFinished_view [OF ok, of i] Some by (simp add: complete_def)
  from r rng h f pm Some show ?thesis
    by (auto simp: QueuePieceHash_def complete_def split: if_splits option.splits bool.splits)
qed

text \<open>A block that was not delivered is written.\<close>

lemma complete_Writing:
  assumes u: "updates p pb StateWriting p'" and j: "j \<noteq> pb_PieceIndex pb"
  shows "complete p' j = complete p j"
  using u j by (auto simp: complete_def updates_def)

lemma not_complete_unwritten: "unwritten (bst p pb) \<Longrightarrow> bst p pb \<noteq> None \<Longrightarrow> \<not> complete p (pb_PieceIndex pb)"
  by (auto simp: complete_def unwritten_def)

lemma writes_ok_hash: "writes_ok fsize p q \<Longrightarrow> writes_ok fsize p (q @ [(AsyncHash i, None)])"
  by (simp add: writes_ok_def)

lemma add_write:
  assumes c: "cut_ok fsize p pm" and st: "store_ok fsize p pm q" and w: "writes_ok fsize p q"
    and h: "hashes_ok p P q" and v: "verified fsize H p pm" and t: "tasks_ok fsize p pm q"
    and u: "updates p pb StateWriting p'" and un: "unwritten (bst p pb)" "bst p pb \<noteq> None"
    and len: "int (length x) = pb_Size pb fsize"
  defines "q' \<equiv> q @ [(AsyncWrite pb x, None)]" and "i \<equiv> pb_PieceIndex pb"
  shows "cut_ok fsize p' pm" "store_ok fsize p' pm q'" "writes_ok fsize p' q'" "verified fsize H p' pm"
    "tasks_ok fsize p' pm q'" "complete p' i \<Longrightarrow> hashes_ok p' (insert i P) (q' @ [(AsyncHash i, None)])"
    "\<not> complete p' i \<Longrightarrow> hashes_ok p' P q'" "i \<notin> P"
proof -
  have p': "picker_ok p'" "same_file p p'" "pst p' = pst p" "bst p' = (bst p)(pb := Some StateWriting)"
    using u by (simp_all add: updates_def)
  show "cut_ok fsize p' pm" using cut_ok_same [OF c p'(1,2)] .
  have cq: "called q' = called q" unfolding q'_def by (rule called_append) (simp add: uncalled_def)
  have "registered p' q' = registered p q"
    by (rule registered_cong [OF cq]) (use un p'(4) in \<open>auto simp: unwritten_def\<close>)
  with st show "store_ok fsize p' pm q'" by (simp add: store_ok_def)
  show "writes_ok fsize p' q'"
    using w un(1) len p'(4) by (auto simp: writes_ok_def q'_def unwritten_def image_iff)
  show "verified fsize H p' pm" using v p'(3) by (simp add: verified_def)
  have "uncalled (tl q')" using t by (cases q) (auto simp: tasks_ok_def q'_def uncalled_def)
  moreover have "all_have_them p' = all_have_them p" by (simp add: all_have_them_def p'(3))
  ultimately show "tasks_ok fsize p' pm q'" using t cq by (simp add: tasks_ok_def q'_def)
  have notc: "\<not> complete p i" unfolding i_def by (rule not_complete_unwritten [OF un])
  with h show iP: "i \<notin> P" by (simp add: hashes_ok_def)
  have oq: "ordered q'" using h iP by (auto simp: q'_def ordered_append hashes_ok_def i_def)
  have cj: "complete p' j = complete p j" if "j \<noteq> i" for j
    using complete_Writing [OF u] that by (simp add: i_def)
  show "hashes_ok p' P q'" if "\<not> complete p' i"
    using h oq cj that notc unfolding hashes_ok_def q'_def by simp metis
  show "hashes_ok p' (insert i P) (q' @ [(AsyncHash i, None)])" if ci: "complete p' i"
  proof -
    have "j \<in> insert i P \<longleftrightarrow> complete p' j" for j
      using h ci cj [of j] by (cases "j = i") (auto simp: hashes_ok_def)
    moreover have "hashes q' = hashes q" by (simp add: q'_def)
    ultimately show ?thesis using h oq iP by (auto simp: hashes_ok_def ordered_append)
  qed
qed

lemma tasks_ok_hash: "tasks_ok fsize p pm q \<Longrightarrow> tasks_ok fsize p pm (q @ [(AsyncHash i, None)])"
  using called_append [of "[(AsyncHash i, None)]" q]
  by (simp add: tasks_ok_def uncalled_tl uncalled_def [of "[(AsyncHash i, None)]"])

lemma store_ok_hash: "store_ok fsize p pm q \<Longrightarrow> store_ok fsize p pm (q @ [(AsyncHash i, None)])"
  using registered_cong [OF called_append [of "[(AsyncHash i, None)]" q], of p p]
  by (simp add: store_ok_def uncalled_def)

lemma block_received_ok:
  assumes ok: "transfer_ok t q" and len: "int (length x) = pb_Size pb (t_size t)"
    and r: "block_received pb x t = Some (t', effs)"
  shows "transfer_ok t' (q @ submitted effs) \<and> t_abort t' = t_abort t"
proof -
  obtain pm where pm: "t_pm t = Some pm" "t_hashSet t \<noteq> []" "cut_ok (t_size t) (t_picker t) pm"
    "store_ok (t_size t) (t_picker t) pm q" "writes_ok (t_size t) (t_picker t) q"
    "hashes_ok (t_picker t) (t_pendingPieceHashes t) q" "verified (t_size t) (t_hashSet t) (t_picker t) pm"
    "tasks_ok (t_size t) (t_picker t) pm q" "t_numPieces t = pm_pieceCount pm"
    using ok by (auto simp: transfer_ok_def)
  have pok: "picker_ok (t_picker t)" using pm(3) by (simp add: cut_ok_def)
  define i where "i = pb_PieceIndex pb"
  obtain was p w where was: "IsPieceFinished i (t_picker t) = Some was"
    and m: "MarkAsWriting pb (t_picker t) = Some (p, w)"
    using r by (auto simp: block_received_def i_def split: option.splits)
  show ?thesis
  proof (cases w)
    case False
    with MarkAsWriting_cases [OF pok m] have "p = t_picker t" by simp
    with r was m False have "t' = t" "effs = []" by (simp_all add: block_received_def i_def)
    with ok show ?thesis by simp
  next
    case True
    with MarkAsWriting_cases [OF pok m] have u: "updates (t_picker t) pb StateWriting p"
      and un: "unwritten (bst (t_picker t) pb)" "bst (t_picker t) pb \<noteq> None" by simp_all
    have p: "picker_ok p" "bst p pb = Some StateWriting" "pst p = pst (t_picker t)" using u by (simp_all add: updates_def)
    have dl: "pst (t_picker t) i = Some PieceDownloading" using cut_ok_valid(4) [OF pm(3) un(2)] by (simp add: i_def)
    have m2: "MarkAsWriting pb p = Some (p, False)" using MarkAsWriting_view [OF p(1,2)] by simp
    obtain now where now: "IsPieceFinished i p = Some now"
      using IsPieceFinished_view [OF p(1), of i] dl p(3) by auto
    have nowc: "now \<longleftrightarrow> complete p i" using IsPieceFinished_complete [OF p(1) now] dl p(3) by simp
    have wasc: "\<not> was"
      using IsPieceFinished_complete [OF pok was] dl not_complete_unwritten [OF un] by (simp add: i_def)
    note aw = add_write [OF pm(3-8) u un len, folded i_def]
    show ?thesis
    proof (cases now)
      case False
      with r was m True m2 now wasc have "t' = t\<lparr>t_picker := p\<rparr>" "effs = [SubmitTask (AsyncWrite pb x)]"
        by (simp_all add: block_received_def i_def)
      with aw pm(1,2,9) nowc False show ?thesis by (simp add: transfer_ok_def)
    next
      case True
      define t1 where "t1 = t\<lparr>t_picker := p\<rparr>"
      obtain t2 es b where qh: "QueuePieceHash i t1 = Some (t2, es, b)"
        and te: "t' = t2" "effs = SubmitTask (AsyncWrite pb x) # es"
        using r was m \<open>w\<close> m2 now wasc True by (auto simp: block_received_def i_def t1_def split: option.splits)
      have t1: "t_picker t1 = p" "t_pm t1 = Some pm" "t_pendingPieceHashes t1 = t_pendingPieceHashes t"
        by (simp_all add: t1_def pm(1))
      have "t2 = t1\<lparr>t_pendingPieceHashes := insert i (t_pendingPieceHashes t)\<rparr> \<and> es = [SubmitTask (AsyncHash i)]"
        using QueuePieceHash_cases [OF _ _ qh] t1 p(1) aw(8) True nowc by simp
      then have "submitted effs = [(AsyncWrite pb x, None), (AsyncHash i, None)]"
        and t': "t' = t\<lparr>t_picker := p, t_pendingPieceHashes := insert i (t_pendingPieceHashes t)\<rparr>"
        by (simp_all add: te t1_def)
      moreover have "store_ok (t_size t) p pm (q @ [(AsyncWrite pb x, None), (AsyncHash i, None)])"
        "writes_ok (t_size t) p (q @ [(AsyncWrite pb x, None), (AsyncHash i, None)])"
        "tasks_ok (t_size t) p pm (q @ [(AsyncWrite pb x, None), (AsyncHash i, None)])"
        using store_ok_hash [OF aw(2), of i] writes_ok_hash [OF aw(3), of i] tasks_ok_hash [OF aw(5), of i] by simp_all
      ultimately show ?thesis using aw(1,4) aw(6) pm(1,2,9) True nowc by (simp add: transfer_ok_def)
    qed
  qed
qed

section \<open>Requests and their end\<close>

text \<open>Changes of a picker that the disk does not notice.\<close>

definition quiet :: "PiecePicker \<Rightarrow> PiecePicker \<Rightarrow> bool" where
  "quiet p p' \<longleftrightarrow> picker_ok p' \<and> starts p p' \<and>
     (\<forall>pb. bst p' pb = bst p pb \<or> unwritten (bst p pb) \<and> unwritten (bst p' pb) \<and> bst p' pb \<noteq> None)"

lemma quiet_refl: "picker_ok p \<Longrightarrow> quiet p p"
  by (simp add: quiet_def)

lemma quiet_here:
  assumes "quiet p p'"
  shows "bst p' pb = Some StateWriting \<longleftrightarrow> bst p pb = Some StateWriting"
    and "bst p' pb = Some StateFinished \<longleftrightarrow> bst p pb = Some StateFinished"
  using assms by (auto simp: quiet_def unwritten_def dest!: spec [of _ pb])

lemma quiet_pst:
  assumes "quiet p p'"
  shows "pst p' i = Some PieceHave \<longleftrightarrow> pst p i = Some PieceHave" "pst p' i = None \<longleftrightarrow> pst p i = None"
    "pst p i = Some PieceDownloading \<Longrightarrow> pst p' i = Some PieceDownloading"
  using assms by (auto simp: quiet_def starts_def dest!: spec [of _ i])

lemma quiet_complete:
  assumes q: "quiet p p'" and ok: "picker_ok p"
  shows "complete p' i \<longleftrightarrow> complete p i"
proof (cases "pst p i = Some PieceDownloading")
  case True
  have "bst p' pb \<noteq> None \<longleftrightarrow> bst p pb \<noteq> None" if "pb_PieceIndex pb = i" for pb
    using bst_iff [OF ok, of pb] bst_iff [of p' pb] q quiet_pst(3) [OF q] True that
    using same_file_blocks [of p p'] by (simp add: quiet_def starts_def)
  then have e: "pb_PieceIndex pb = i \<and> bst p' pb \<noteq> None \<longleftrightarrow> pb_PieceIndex pb = i \<and> bst p pb \<noteq> None" for pb
    by blast
  show ?thesis
    unfolding complete_def e quiet_here [OF q] using quiet_pst(3) [OF q True] True by simp
next
  case False
  show ?thesis
  proof (cases "pst p' i = Some PieceDownloading")
    case started: True
    with False q have "pst p i = Some PieceNone" by (auto simp: quiet_def starts_def dest!: spec [of _ i])
    have p': "picker_ok p'" using q by (simp add: quiet_def)
    have "0 < pp_BlocksInPiece p' i" using BlocksInPiece_pos [OF p'] by blast
    then have "bst p' (NewPieceBlock i 0) \<noteq> None"
      using bst_iff [OF p', of "NewPieceBlock i 0"] started by (simp add: NewPieceBlock_def)
    moreover have "bst p (NewPieceBlock i 0) = None"
      using bst_None [OF ok, of "NewPieceBlock i 0"] False by (simp add: NewPieceBlock_def)
    ultimately have "\<not> here (bst p' (NewPieceBlock i 0))" using quiet_here [OF q, of "NewPieceBlock i 0"] by auto
    moreover have "pb_PieceIndex (NewPieceBlock i 0) = i" by (simp add: NewPieceBlock_def)
    ultimately have "\<not> complete p' i"
      using \<open>bst p' (NewPieceBlock i 0) \<noteq> None\<close> unfolding complete_def by blast
    with False show ?thesis by (simp add: complete_def)
  qed (use False in \<open>simp add: complete_def\<close>)
qed

lemma quiet_all_have: "quiet p p' \<Longrightarrow> all_have_them p' \<longleftrightarrow> all_have_them p"
proof -
  assume q: "quiet p p'"
  have eq: "all_have_them r \<longleftrightarrow> (\<forall>i. pst r i = None \<or> pst r i = Some PieceHave)" for r
    unfolding all_have_them_def by (metis option.exhaust option.inject option.distinct(1))
  show ?thesis unfolding eq quiet_pst [OF q] ..
qed

lemma no_restore_mono: "no_restore b q \<Longrightarrow> (b \<Longrightarrow> b') \<Longrightarrow> no_restore b' q"
  by (induction b q rule: no_restore.induct) auto

lemma quiet_parts:
  assumes q: "quiet p p'" and c: "cut_ok fsize p pm"
  shows "cut_ok fsize p' pm" "store_ok fsize p' pm es \<longleftrightarrow> store_ok fsize p pm es"
    "writes_ok fsize p' es \<longleftrightarrow> writes_ok fsize p es" "hashes_ok p' P es \<longleftrightarrow> hashes_ok p P es"
    "verified fsize H p' pm \<longleftrightarrow> verified fsize H p pm" "tasks_ok fsize p' pm es \<longleftrightarrow> tasks_ok fsize p pm es"
proof -
  have ok: "picker_ok p" using c by (simp add: cut_ok_def)
  show "cut_ok fsize p' pm" using q cut_ok_same [OF c] by (simp add: quiet_def starts_def)
  have "registered p' es = registered p es" by (rule registered_cong [OF refl quiet_here(2) [OF q]])
  then show "store_ok fsize p' pm es \<longleftrightarrow> store_ok fsize p pm es" by (simp add: store_ok_def)
  show "writes_ok fsize p' es \<longleftrightarrow> writes_ok fsize p es" by (simp add: writes_ok_def quiet_here(1) [OF q])
  show "hashes_ok p' P es \<longleftrightarrow> hashes_ok p P es" by (simp add: hashes_ok_def quiet_complete [OF q ok])
  show "verified fsize H p' pm \<longleftrightarrow> verified fsize H p pm" by (simp add: verified_def quiet_pst(1) [OF q])
  show "tasks_ok fsize p' pm es \<longleftrightarrow> tasks_ok fsize p pm es" by (simp add: tasks_ok_def quiet_all_have [OF q])
qed

lemma modify_dp_None:
  "find (\<lambda>d. dp_PieceIndex d = i) ds = Some d \<Longrightarrow> f d = None \<Longrightarrow> modify_dp i f ds = None"
  by (induction ds) (auto split: if_splits)

lemma quiet_AbortDownload:
  assumes ok: "picker_ok p" and u: "unwritten (bst p pb)" and a: "AbortDownload pb peer p = Some p'"
  shows "quiet p p'"
proof (cases "bst p pb")
  case None
  have "p' = p"
  proof (cases "GetDownloadingPiece p (pb_PieceIndex pb)")
    case (Some d)
    with None have "idx (dp_Blocks d) (pb_PieceBlock pb) = None"
      by (simp add: bst_def GetDownloadingPiece_def fetch_def)
    then have "on_piece (pb_PieceIndex pb) (dp_AbortDownloading (pb_PieceBlock pb) peer) p = None"
      using Some by (simp add: on_piece_def GetDownloadingPiece_def modify_dp_None dp_AbortDownloading_def on_block_def)
    with a Some show ?thesis by (simp add: AbortDownload_def)
  qed (use a in \<open>simp add: AbortDownload_def\<close>)
  with ok show ?thesis by (simp add: quiet_refl)
next
  case (Some st)
  with u have "st = StateNone \<or> st = StateRequested" by (simp add: unwritten_def)
  from AbortDownload_view [OF ok Some this, of peer] a obtain st' where
    "updates p pb st' p'" "st' = StateNone \<or> st' = StateRequested" by auto
  with u show ?thesis by (auto simp: quiet_def updates_def starts_def unwritten_def)
qed

lemma quiet_PickPieces:
  "picker_ok p \<Longrightarrow> PickPiecesWithAvailability peer speed av k p = (p', ps) \<Longrightarrow> quiet p p'"
  using PickPieces_view by (auto simp: quiet_def)

section \<open>The goroutine\<close>

lemma called_Cons [simp]: "called ((c, Some r) # q) = Some (c, r)" "called ((c, None) # q) = None"
  by (simp_all add: called_def)

lemma registered_None: "called q = None \<Longrightarrow> registered p q = {pb. bst p pb = Some StateFinished}"
  by (simp add: registered_def called_piece_def called_block_def)

lemma registered_Some:
  "registered p ((AsyncWrite pb x, Some r) # q) = insert pb {pb. bst p pb = Some StateFinished}"
  "registered p ((AsyncHash i, Some r) # q) = {pb. bst p pb = Some StateFinished \<and> pb_PieceIndex pb \<noteq> i}"
  "registered p ((AsyncRelease d, Some r) # q) = {pb. bst p pb = Some StateFinished}"
  by (auto simp: registered_def called_piece_def called_block_def)

lemma result_known:
  assumes "writes_ok fsize p ((c, None) # es)" shows "writes_ok fsize p ((c, Some r) # es)"
  using assms by (cases c) (simp_all add: writes_ok_def)

lemma result_known_hashes:
  assumes "hashes_ok p P ((c, None) # es)" shows "hashes_ok p P ((c, Some r) # es)"
  using assms by (cases c) (simp_all add: hashes_ok_def)

lemma result_known_restore: "no_restore b ((c, None) # es) \<longleftrightarrow> no_restore b ((c, Some r) # es)"
  by (cases c) simp_all

lemma write_done:
  assumes c: "cut_ok fsize p pm" and st: "store_ok fsize p pm ((AsyncWrite pb x, None) # es)"
    and w: "writes_ok fsize p ((AsyncWrite pb x, None) # es)"
    and v: "verified fsize H p pm"
  shows "\<exists>pm' free. WriteBlock io_ok pb x pm = Some (pm', Inr free) \<and> same_pieces pm pm' \<and>
    store_ok fsize p pm' ((AsyncWrite pb x, Some r) # es) \<and> verified fsize H p pm'"
proof -
  have b: "bst p pb = Some StateWriting" "int (length x) = pb_Size pb fsize"
    using w by (auto simp: writes_ok_def)
  have pb: "valid_block fsize pb" "pb_PieceIndex pb < pm_pieceCount pm" "pst p (pb_PieceIndex pb) = Some PieceDownloading"
    using cut_ok_valid [OF c, of pb] b(1) by simp_all
  define S where "S = {pb. bst p pb = Some StateFinished}"
  obtain D where D: "pm_inv fsize D S pm" using st by (auto simp: store_ok_def registered_None S_def)
  have new: "pb \<notin> S" using b(1) by (simp add: S_def)
  define E where "E = D(pb := x)"
  have E: "pm_inv fsize E S pm" by (rule pm_inv_cong [OF D]) (use new in \<open>auto simp: E_def\<close>)
  have len: "int (length (E pb)) = pb_Size pb fsize" using b(2) by (simp add: E_def)
  have "enumerates fsize (pm_pieceCount pm) (pm_blocksInLastPiece pm)" using c by (simp add: cut_ok_def)
  moreover have "E pb = x" by (simp add: E_def)
  ultimately obtain pm' free where
    pm': "WriteBlock io_ok pb x pm = Some (pm', Inr free)" "pm_inv fsize E (insert pb S) pm'" "same_pieces pm pm'"
    using WriteBlock_ok [OF E _ pb(1,2) new len] by (auto simp: same_pieces_def)
  have "verified fsize H p pm'"
    unfolding verified_def
  proof (intro allI impI)
    fix i assume i: "pst p i = Some PieceHave \<and> i < int (length H)"
    with v obtain y where y: "file_piece fsize i pm = Some y" "md4Sum y = H ! nat i" by (auto simp: verified_def)
    have "0 \<le> i" "pb_PieceIndex pb \<noteq> i" using i pb(3) by (auto simp: pst_def idx_Some_iff)
    from file_piece_write [OF pb(1) b(2) this y(1) WriteBlock_content [OF pm'(1)]] y(2)
    show "\<exists>x. file_piece fsize i pm' = Some x \<and> md4Sum x = H ! nat i" by blast
  qed
  with pm' show ?thesis by (auto simp: store_ok_def registered_Some S_def)
qed

text \<open>A piece queued for hashing has all its blocks in the block manager.\<close>

lemma hash_ready:
  assumes c: "cut_ok fsize p pm" and w: "writes_ok fsize p ((AsyncHash i, r) # es)"
    and h: "hashes_ok p P ((AsyncHash i, r) # es)"
  shows "pst p i = Some PieceDownloading" "0 \<le> i" "i < pm_pieceCount pm"
    "\<forall>pb. valid_block fsize pb \<and> pb_PieceIndex pb = i \<longrightarrow> bst p pb = Some StateFinished"
proof -
  have comp: "complete p i" using h by (auto simp: hashes_ok_def)
  then show pst: "pst p i = Some PieceDownloading" by (simp add: complete_def)
  then show "0 \<le> i" "i < pm_pieceCount pm"
    using c by (auto simp: pst_def idx_Some_iff cut_ok_def picker_ok_def)
  show "\<forall>pb. valid_block fsize pb \<and> pb_PieceIndex pb = i \<longrightarrow> bst p pb = Some StateFinished"
  proof (intro allI impI)
    fix pb assume pb: "valid_block fsize pb \<and> pb_PieceIndex pb = i"
    then have "bst p pb \<noteq> None" using cut_ok_exists [OF c] pst by blast
    with comp pb have "here (bst p pb)" by (simp add: complete_def)
    moreover have "bst p pb \<noteq> Some StateWriting"
    proof
      assume "bst p pb = Some StateWriting"
      then have "pb \<in> fst ` set (writes es)" using w by (simp add: writes_ok_def)
      then obtain x where "(pb, x) \<in> set (writes es)" by force
      moreover have "\<forall>(pb, x)\<in>set (writes es). pb_PieceIndex pb \<noteq> i" using h by (simp add: hashes_ok_def)
      ultimately show False using pb by fastforce
    qed
    ultimately show "bst p pb = Some StateFinished" by simp
  qed
qed

lemma hash_done:
  assumes c: "cut_ok fsize p pm" and st: "store_ok fsize p pm ((AsyncHash i, None) # es)"
    and w: "writes_ok fsize p ((AsyncHash i, None) # es)" and h: "hashes_ok p P ((AsyncHash i, None) # es)"
    and v: "verified fsize H p pm"
  shows "\<exists>x. snd (HashPiece i pm) = md4Sum x \<and> file_piece fsize i (fst (HashPiece i pm)) = Some x \<and>
    same_pieces pm (fst (HashPiece i pm)) \<and> store_ok fsize p (fst (HashPiece i pm)) ((AsyncHash i, Some r) # es) \<and>
    verified fsize H p (fst (HashPiece i pm))"
proof -
  note ready = hash_ready [OF c w h]
  define S where "S = {pb. bst p pb = Some StateFinished}"
  obtain D where D: "pm_inv fsize D S pm" using st by (auto simp: store_ok_def registered_None S_def)
  have e: "enumerates fsize (pm_pieceCount pm) (pm_blocksInLastPiece pm)" "i * PieceSize < fsize"
    using c ready(3) by (auto simp: cut_ok_def)
  have "\<forall>pb. valid_block fsize pb \<and> pb_PieceIndex pb = i \<longrightarrow> pb \<in> S" using ready(4) by (simp add: S_def)
  from HashPiece_file_piece [OF D ready(2,3) e(2,1) this] obtain x where
    x: "file_piece fsize i pm = Some x" "snd (HashPiece i pm) = md4Sum x" by blast
  define pm' where "pm' = fst (HashPiece i pm)"
  have pm': "pm_inv fsize D {pb \<in> S. pb_PieceIndex pb \<noteq> i} pm'" "pm_handler pm' = pm_handler pm" "same_pieces pm pm'"
    using HashPiece_inv [OF D, of i] by (simp_all add: pm'_def)
  have fp: "file_piece fsize j pm' = file_piece fsize j pm" for j by (simp add: file_piece_def pm'(2))
  have "store_ok fsize p pm' ((AsyncHash i, Some r) # es)"
    using pm'(1) by (auto simp: store_ok_def registered_Some S_def)
  with x pm'(3) v fp show ?thesis by (auto simp: verified_def pm'_def [symmetric])
qed

lemma release_done:
  assumes c: "cut_ok fsize p pm" and a: "all_have_them p" and v: "verified fsize H p pm"
  shows "same_pieces pm (fst (ReleaseFile io_ok False pm)) \<and>
    store_ok fsize p (fst (ReleaseFile io_ok False pm)) ((AsyncRelease False, Some r) # es) \<and>
    verified fsize H p (fst (ReleaseFile io_ok False pm))"
proof -
  define pm' where "pm' = fst (ReleaseFile io_ok False pm)"
  have pm': "pm' = pm\<lparr>pm_handler := fh_Close (pm_handler pm), pm_blockMgrs := []\<rparr>"
    by (simp add: pm'_def ReleaseFile_def pm_Abort_def Let_def)
  have "fh_content (pm_handler pm') = fh_content (pm_handler pm)" by (simp add: pm' fh_Close_def fh_content_def)
  then have fp: "file_piece fsize j pm' = file_piece fsize j pm" for j by (simp add: file_piece_def)
  have "pst p (pb_PieceIndex pb) \<noteq> Some PieceDownloading" for pb using a by (auto simp: all_have_them_def)
  then have "bst p pb = None" for pb using bst_None c by (auto simp: cut_ok_def)
  then have "registered p ((AsyncRelease False, Some r) # es) = {}" by (simp add: registered_Some)
  then have "store_ok fsize p pm' ((AsyncRelease False, Some r) # es)"
    by (auto simp: store_ok_def pm' intro: pm_inv_empty)
  with v fp show ?thesis by (simp add: verified_def same_pieces_def pm'_def [symmetric]) (simp add: pm')
qed

lemma worker_ok:
  assumes ok: "transfer_ok t ((call, None) # es)" and un: "\<forall>(c, r)\<in>set es. r = None"
    and call: "disk_Call io_ok call (t_pm t) = Some (pm', r)"
  shows "transfer_ok (t\<lparr>t_pm := pm'\<rparr>) ((call, Some r) # es)"
proof -
  let ?p = "t_picker t" and ?q = "(call, None) # es" and ?q' = "(call, Some r) # es"
  obtain pm where pm: "t_pm t = Some pm" "t_hashSet t \<noteq> []" "cut_ok (t_size t) ?p pm"
    "store_ok (t_size t) ?p pm ?q" "writes_ok (t_size t) ?p ?q"
    "hashes_ok ?p (t_pendingPieceHashes t) ?q" "verified (t_size t) (t_hashSet t) ?p pm"
    "tasks_ok (t_size t) ?p pm ?q" "t_numPieces t = pm_pieceCount pm"
    using ok by (auto simp: transfer_ok_def)
  have unc: "uncalled (tl ?q')" using un by (simp add: uncalled_def)
  have nr: "no_restore (all_have_them ?p) ?q'" using pm(8) result_known_restore by (simp add: tasks_ok_def)
  have *: "transfer_ok (t\<lparr>t_pm := pm'\<rparr>) ?q'"
    if "pm' = Some m" "same_pieces pm m" "store_ok (t_size t) ?p m ?q'" "verified (t_size t) (t_hashSet t) ?p m"
      "tasks_ok (t_size t) ?p m ?q'" for m
    using that pm(2,9) cut_ok_pieces [OF pm(3)] result_known [OF pm(5)] result_known_hashes [OF pm(6)]
    by (simp add: transfer_ok_def same_pieces_def)
  show ?thesis
  proof (cases call)
    case (AsyncWrite pb x)
    from write_done [OF pm(3) pm(4,5) [unfolded AsyncWrite] pm(7), of r] obtain m free where
      m: "WriteBlock io_ok pb x pm = Some (m, Inr free)" "same_pieces pm m"
      "store_ok (t_size t) ?p m ?q'" "verified (t_size t) (t_hashSet t) ?p m"
      unfolding AsyncWrite by blast
    then have "pm' = Some m" "r = AsyncWriteResult pb free NoError"
      using call pm(1) by (simp_all add: disk_Call_def AsyncWrite)
    with m unc nr show ?thesis by (intro *) (simp_all add: tasks_ok_def AsyncWrite)
  next
    case (AsyncHash i)
    from hash_done [OF pm(3) pm(4-6) [unfolded AsyncHash] pm(7), of r] obtain x where
      m: "snd (HashPiece i pm) = md4Sum x" "file_piece (t_size t) i (fst (HashPiece i pm)) = Some x"
      "same_pieces pm (fst (HashPiece i pm))" "store_ok (t_size t) ?p (fst (HashPiece i pm)) ?q'"
      "verified (t_size t) (t_hashSet t) ?p (fst (HashPiece i pm))"
      unfolding AsyncHash by blast
    then have "pm' = Some (fst (HashPiece i pm))" "r = AsyncHashResult i (md4Sum x)"
      using call pm(1) by (auto simp: disk_Call_def AsyncHash split: prod.splits)
    with m unc nr show ?thesis by (intro *) (auto simp: tasks_ok_def AsyncHash)
  next
    case (AsyncRestore pb n)
    with pm(8) show ?thesis by (simp add: tasks_ok_def)
  next
    case (AsyncRelease d)
    with pm(8) have d: "d = False" "all_have_them ?p" by (simp_all add: tasks_ok_def)
    have "pm' = Some (fst (ReleaseFile io_ok False pm))" "\<exists>bufs. r = AsyncReleaseResult bufs d NoError"
      using call pm(1) by (auto simp: disk_Call_def AsyncRelease d split: prod.splits)
    with release_done [OF pm(3) d(2) pm(7), of r es] unc nr show ?thesis
      by (intro * [where m = "fst (ReleaseFile io_ok False pm)"]) (simp_all add: tasks_ok_def AsyncRelease d)
  qed
qed

text \<open>A piece that is not in progress keeps its bytes.\<close>

lemma worker_keeps_piece:
  assumes ok: "transfer_ok t ((call, None) # es)" and call: "disk_Call io_ok call (t_pm t) = Some (pm', r)"
    and i: "pst (t_picker t) i = Some s" "s \<noteq> PieceDownloading" and x: "t_pm t = Some pm" "file_piece (t_size t) i pm = Some x"
  shows "\<exists>m. pm' = Some m \<and> file_piece (t_size t) i m = Some x"
proof -
  let ?p = "t_picker t" and ?q = "(call, None) # es"
  have pm: "cut_ok (t_size t) ?p pm" "store_ok (t_size t) ?p pm ?q" "writes_ok (t_size t) ?p ?q"
    "hashes_ok ?p (t_pendingPieceHashes t) ?q" "verified (t_size t) (t_hashSet t) ?p pm"
    "tasks_ok (t_size t) ?p pm ?q"
    using ok x(1) by (auto simp: transfer_ok_def)
  have i0: "0 \<le> i" using i(1) by (auto simp: pst_def idx_Some_iff)
  show ?thesis
  proof (cases call)
    case (AsyncWrite pb y)
    have b: "bst ?p pb = Some StateWriting" "int (length y) = pb_Size pb (t_size t)"
      using pm(3) by (auto simp: writes_ok_def AsyncWrite)
    have pb: "valid_block (t_size t) pb" "pst ?p (pb_PieceIndex pb) = Some PieceDownloading"
      using cut_ok_valid [OF pm(1), of pb] b(1) by simp_all
    from write_done [OF pm(1) pm(2,3) [unfolded AsyncWrite] pm(5)] obtain m free where
      m: "WriteBlock io_ok pb y pm = Some (m, Inr free)" by blast
    have "pb_PieceIndex pb \<noteq> i" using pb(2) i by auto
    from file_piece_write [OF pb(1) b(2) i0 this x(2) WriteBlock_content [OF m]] m call show ?thesis
      by (auto simp: disk_Call_def AsyncWrite x(1))
  next
    case (AsyncHash j)
    obtain D S where "pm_inv (t_size t) D S pm" using pm(2) by (auto simp: store_ok_def)
    from HashPiece_inv [OF this, of j] have "pm_handler (fst (HashPiece j pm)) = pm_handler pm" by simp
    with call x show ?thesis by (auto simp: disk_Call_def AsyncHash file_piece_def split: prod.splits)
  next
    case (AsyncRestore pb n)
    with pm(6) show ?thesis by (simp add: tasks_ok_def)
  next
    case (AsyncRelease d)
    with pm(6) have "d = False" by (simp add: tasks_ok_def)
    with call x show ?thesis
      by (auto simp: disk_Call_def AsyncRelease ReleaseFile_def pm_Abort_def fh_Close_def fh_content_def
          file_piece_def Let_def split: prod.splits)
  qed
qed

section \<open>The session takes a result\<close>

lemma uncalled_tail: "\<forall>(c, r)\<in>set es. r = None \<Longrightarrow> called es = None \<and> uncalled (tl es)"
  using uncalled_called [of es] by (cases es) (auto simp: uncalled_def)

lemma Finish_complete:
  assumes u: "updates p pb StateFinished p'" and b: "bst p pb = Some StateWriting"
  shows "complete p' i = complete p i"
proof -
  have e: "bst p' qb = None \<longleftrightarrow> bst p qb = None" "here (bst p' qb) \<longleftrightarrow> here (bst p qb)" for qb
    using u b by (auto simp: updates_def)
  show ?thesis unfolding complete_def e using u by (simp add: updates_def)
qed

text \<open>What a result changes: only the result of a hash decides on a piece.\<close>

definition concludes :: "disk_call \<Rightarrow> Transfer \<Rightarrow> Transfer \<Rightarrow> bool" where
  "concludes call t t' \<longleftrightarrow> t_pm t' = t_pm t \<and> t_size t' = t_size t \<and> t_hashSet t' = t_hashSet t \<and>
     (\<forall>i. call \<noteq> AsyncHash i \<longrightarrow>
        pst (t_picker t') i = pst (t_picker t) i \<and> complete (t_picker t') i = complete (t_picker t) i) \<and>
     (\<forall>i. call = AsyncHash i \<longrightarrow>
        (\<exists>pm x. t_pm t = Some pm \<and> file_piece (t_size t) i pm = Some x \<and>
           pst (t_picker t') i =
             Some (if i < int (length (t_hashSet t)) \<and> md4Sum x \<noteq> t_hashSet t ! nat i then PieceNone else PieceHave)))"

lemma written_ok:
  assumes ok: "transfer_ok t ((AsyncWrite pb x, Some r) # es)" and un: "\<forall>(c, r)\<in>set es. r = None"
    and c: "OnCompleted r t = Some (t', effs)"
  shows "transfer_ok t' (es @ submitted effs) \<and> t_abort t' = t_abort t \<and> concludes (AsyncWrite pb x) t t'"
proof -
  let ?p = "t_picker t" and ?q = "(AsyncWrite pb x, Some r) # es"
  obtain pm where pm: "t_pm t = Some pm" "t_hashSet t \<noteq> []" "cut_ok (t_size t) ?p pm"
    "store_ok (t_size t) ?p pm ?q" "writes_ok (t_size t) ?p ?q"
    "hashes_ok ?p (t_pendingPieceHashes t) ?q" "verified (t_size t) (t_hashSet t) ?p pm"
    "tasks_ok (t_size t) ?p pm ?q" "t_numPieces t = pm_pieceCount pm"
    using ok by (auto simp: transfer_ok_def)
  have pok: "picker_ok ?p" using pm(3) by (simp add: cut_ok_def)
  obtain bufs where r: "r = AsyncWriteResult pb bufs NoError" using pm(8) by (auto simp: tasks_ok_def)
  have b: "bst ?p pb = Some StateWriting" "pb \<notin> fst ` set (writes es)" using pm(5) by (auto simp: writes_ok_def)
  obtain p where m: "MarkAsFinished pb ?p = Some (p, True)" "updates ?p pb StateFinished p"
    using MarkAsFinished_view [OF pok, of pb] b(1) by auto
  have p: "picker_ok p" "same_file ?p p" "pst p = pst ?p" "bst p = (bst ?p)(pb := Some StateFinished)"
    using m(2) by (simp_all add: updates_def)
  have comp: "complete p i = complete ?p i" for i by (rule Finish_complete [OF m(2) b(1)])
  define t1 where "t1 = t\<lparr>t_picker := p\<rparr>"
  obtain t2 bb where qh: "QueuePieceHash (pb_PieceIndex pb) t1 = Some (t2, effs, bb)"
    and t': "t' = t2\<lparr>t_needSaveResumeData := True\<rparr>"
    using c r m(1) by (auto simp: OnCompleted_def OnBlockWriteCompleted_def t1_def split: option.splits)
  have t1: "t_picker t1 = p" "t_pm t1 = Some pm" "t_pendingPieceHashes t1 = t_pendingPieceHashes t"
    by (simp_all add: t1_def pm(1))
  have "complete p (pb_PieceIndex pb) \<Longrightarrow> pb_PieceIndex pb \<in> t_pendingPieceHashes t"
    using pm(6) comp by (simp add: hashes_ok_def)
  then have "t2 = t1 \<and> effs = []" using QueuePieceHash_cases [OF _ _ qh] t1 p(1) by auto
  then have t': "t' = t\<lparr>t_picker := p, t_needSaveResumeData := True\<rparr>" and effs: "effs = []"
    using t' by (simp_all add: t1_def)
  note tail = uncalled_tail [OF un]
  have "registered p es = registered ?p ?q"
    using b(1) tail by (auto simp: registered_None registered_Some p(4))
  then have "store_ok (t_size t) p pm es" using pm(4) by (simp add: store_ok_def)
  moreover have "writes_ok (t_size t) p es" using pm(5) b(2) by (auto simp: writes_ok_def p(4))
  moreover have "hashes_ok p (t_pendingPieceHashes t) es" using pm(6) comp by (simp add: hashes_ok_def)
  moreover have "verified (t_size t) (t_hashSet t) p pm" using pm(7) by (simp add: verified_def p(3))
  moreover have "all_have_them p = all_have_them ?p" by (simp add: all_have_them_def p(3))
  then have "tasks_ok (t_size t) p pm es" using pm(8) tail by (simp add: tasks_ok_def)
  moreover have "cut_ok (t_size t) p pm" by (rule cut_ok_same [OF pm(3) p(1,2)])
  moreover have "concludes (AsyncWrite pb x) t t'" by (simp add: concludes_def t' p(3) comp)
  ultimately show ?thesis using pm(1,2,9) by (simp add: t' effs transfer_ok_def)
qed

text \<open>A piece leaves the pieces in progress after its hash.\<close>

lemma closed_parts:
  assumes c: "cut_ok fsize p pm" and st: "store_ok fsize p pm ((AsyncHash i, Some r) # es)"
    and w: "writes_ok fsize p ((AsyncHash i, Some r) # es)" and h: "hashes_ok p P ((AsyncHash i, Some r) # es)"
    and v: "verified fsize H p pm" and t: "tasks_ok fsize p pm ((AsyncHash i, Some r) # es)"
    and cl: "closes p i s p'" and s: "s \<noteq> PieceDownloading"
    and good: "s = PieceHave \<Longrightarrow> i < int (length H) \<Longrightarrow> \<exists>x. file_piece fsize i pm = Some x \<and> md4Sum x = H ! nat i"
    and un: "\<forall>(c, r)\<in>set es. r = None"
  shows "cut_ok fsize p' pm" "store_ok fsize p' pm es" "writes_ok fsize p' es" "hashes_ok p' (P - {i}) es"
    "verified fsize H p' pm" "tasks_ok fsize p' pm es" "pst p' = (pst p)(i := Some s)"
    "\<And>j. complete p' j \<longleftrightarrow> j \<noteq> i \<and> complete p j"
proof -
  have p': "picker_ok p'" "same_file p p'" "pst p' = (pst p)(i := Some s)"
    "bst p' = (\<lambda>pb. if pb_PieceIndex pb = i then None else bst p pb)"
    using cl by (simp_all add: closes_def)
  note tail = uncalled_tail [OF un]
  show "cut_ok fsize p' pm" by (rule cut_ok_same [OF c p'(1,2)])
  have "registered p' es = registered p ((AsyncHash i, Some r) # es)"
    using tail by (auto simp: registered_None registered_Some p'(4))
  with st show "store_ok fsize p' pm es" by (simp add: store_ok_def)
  have free: "bst p' pb = Some StateWriting \<longleftrightarrow> bst p pb = Some StateWriting" for pb
    using hash_ready(4) [OF c w h] cut_ok_valid(1) [OF c, of pb] by (auto simp: p'(4))
  with w show "writes_ok fsize p' es" by (simp add: writes_ok_def)
  show comp: "complete p' j \<longleftrightarrow> j \<noteq> i \<and> complete p j" for j
    using s by (auto simp: complete_def p'(3,4))
  show "pst p' = (pst p)(i := Some s)" by (rule p'(3))
  from h comp show "hashes_ok p' (P - {i}) es" by (auto simp: hashes_ok_def)
  show "verified fsize H p' pm" using v good by (auto simp: verified_def p'(3))
  have "pst p i = Some PieceDownloading" by (rule hash_ready(1) [OF c w h])
  then have "\<not> all_have_them p" by (auto simp: all_have_them_def)
  then have "no_restore (all_have_them p') es" using t no_restore_mono [of False es] by (simp add: tasks_ok_def)
  with tail show "tasks_ok fsize p' pm es" by (simp add: tasks_ok_def)
qed

lemma IsFinished_all:
  assumes ok: "picker_ok p" and f: "NumHave p = TotalPieces p"
  shows "all_have_them p"
  unfolding all_have_them_def
proof (intro allI impI)
  fix i s assume "pst p i = Some s"
  then have m: "s \<in> set (pp_pieceStatus p)" by (auto simp: pst_def idx_Some_iff)
  show "s = PieceHave"
  proof (rule ccontr)
    assume "s \<noteq> PieceHave"
    with m have "length (filter (\<lambda>s. s = PieceHave) (pp_pieceStatus p)) < length (pp_pieceStatus p)"
      by (rule length_filter_less)
    with f show False by (simp add: NumHave_def TotalPieces_def)
  qed
qed

lemma submitted_closes: "submitted (map (\<lambda>c. CloseConn c ec) cs @ es) = submitted es"
  by (induction cs) simp_all

lemma add_release:
  assumes a: "all_have_them p" and parts: "store_ok fsize p pm es" "writes_ok fsize p es" "hashes_ok p P es"
    "tasks_ok fsize p pm es"
  defines "es' \<equiv> es @ [(AsyncRelease False, None)]"
  shows "store_ok fsize p pm es'" "writes_ok fsize p es'" "hashes_ok p P es'" "tasks_ok fsize p pm es'"
proof -
  have un: "uncalled [(AsyncRelease False, None)]" by (simp add: uncalled_def)
  have c: "called es' = called es" unfolding es'_def by (rule called_append [OF un])
  have "registered p es' = registered p es" by (rule registered_cong [OF c refl])
  with parts(1) show "store_ok fsize p pm es'" by (simp add: store_ok_def)
  show "writes_ok fsize p es'" using parts(2) by (simp add: writes_ok_def es'_def)
  show "hashes_ok p P es'" using parts(3) by (simp add: hashes_ok_def es'_def ordered_append)
  have "uncalled (tl es')" unfolding es'_def by (rule uncalled_tl [OF _ un]) (use parts(4) in \<open>simp add: tasks_ok_def\<close>)
  with parts(4) a c show "tasks_ok fsize p pm es'" by (simp add: tasks_ok_def) (simp add: es'_def)
qed

lemma hashed_ok:
  assumes ok: "transfer_ok t ((AsyncHash i, Some r) # es)" and un: "\<forall>(c, r)\<in>set es. r = None"
    and c: "OnCompleted r t = Some (t', effs)"
  shows "transfer_ok t' (es @ submitted effs) \<and> t_abort t' = t_abort t \<and> concludes (AsyncHash i) t t'"
proof -
  let ?p = "t_picker t" and ?q = "(AsyncHash i, Some r) # es" and ?H = "t_hashSet t" and ?P = "t_pendingPieceHashes t - {i}"
  obtain pm where pm: "t_pm t = Some pm" "?H \<noteq> []" "cut_ok (t_size t) ?p pm"
    "store_ok (t_size t) ?p pm ?q" "writes_ok (t_size t) ?p ?q"
    "hashes_ok ?p (t_pendingPieceHashes t) ?q" "verified (t_size t) ?H ?p pm"
    "tasks_ok (t_size t) ?p pm ?q" "t_numPieces t = pm_pieceCount pm"
    using ok by (auto simp: transfer_ok_def)
  have pok: "picker_ok ?p" using pm(3) by (simp add: cut_ok_def)
  obtain x where r: "r = AsyncHashResult i (md4Sum x)" "file_piece (t_size t) i pm = Some x"
    using pm(8) by (auto simp: tasks_ok_def)
  note ready = hash_ready [OF pm(3,5,6)]
  define s where "s = (if i < int (length ?H) \<and> md4Sum x \<noteq> ?H ! nat i then PieceNone else PieceHave)"
  have pi: "pst ?p i \<noteq> None" using ready(1) by simp
  obtain p where p: "(if s = PieceNone then RestorePiece i ?p else WeHave i ?p) = Some p" "closes ?p i s p"
  proof (cases "s = PieceNone")
    case True
    with RestorePiece_view [OF pok pi] that show ?thesis by auto
  next
    case False
    then have "s = PieceHave" by (simp add: s_def split: if_splits)
    with WeHave_view [OF pok pi] that show ?thesis by auto
  qed
  have good: "s = PieceHave \<Longrightarrow> i < int (length ?H) \<Longrightarrow> \<exists>x. file_piece (t_size t) i pm = Some x \<and> md4Sum x = ?H ! nat i"
    using r(2) by (auto simp: s_def split: if_splits)
  have "s \<noteq> PieceDownloading" by (simp add: s_def)
  note cp = closed_parts [OF pm(3-8) p(2) this good un]
  define t3 where "t3 = t\<lparr>t_pendingPieceHashes := ?P, t_picker := p, t_needSaveResumeData := True\<rparr>"
  have idxH: "i < int (length ?H) \<Longrightarrow> idx ?H i = Some (?H ! nat i)" using ready(2) by (simp add: idx_def)
  have res: "(t', effs) = (if t_IsFinished t3 then t_finished t3 else (t3, []))"
    using c p(1) idxH unfolding OnCompleted_def r(1)
    by (auto simp: OnPieceHashCompleted_def Let_def t_WeHave_def hash_Equal_def s_def t3_def split: if_splits)
  have t3: "transfer_ok t3 es" using cp pm(1,2,9) by (simp add: t3_def transfer_ok_def)
  have con: "concludes (AsyncHash i) t t3"
    using cp(7,8) pm(1) r(2) by (auto simp: concludes_def t3_def s_def)
  show ?thesis
  proof (cases "t_IsFinished t3")
    case False
    with res t3 con show ?thesis by (simp add: t3_def)
  next
    case True
    have "picker_ok p" using p(2) by (simp add: closes_def)
    moreover have "t_numPieces t3 \<noteq> 0" using ready(2,3) pm(9) by (simp add: t3_def)
    ultimately have all: "all_have_them p" using True IsFinished_all by (simp add: t_IsFinished_def t3_def)
    have effs: "submitted effs = [(AsyncRelease False, None)]"
      and t': "t' = t3\<lparr>t_connections := [], t_state := Finished\<rparr>"
      using res True by (simp_all add: t_finished_def drop_connections_def submitted_closes t3_def)
    note rel = add_release [OF all cp(2-4,6)]
    have "concludes (AsyncHash i) t t'" using con by (simp add: t' concludes_def)
    with rel cp(1,5) pm(1,2,9) show ?thesis by (simp add: t' effs t3_def transfer_ok_def)
  qed
qed

lemma result_ok:
  assumes ok: "transfer_ok t ((call, Some r) # es)" and un: "\<forall>(c, r)\<in>set es. r = None"
    and c: "OnCompleted r t = Some (t', effs)"
  shows "transfer_ok t' (es @ submitted effs) \<and> t_abort t' = t_abort t \<and> concludes call t t'"
proof (cases call)
  case (AsyncWrite pb x)
  show ?thesis using written_ok [OF ok [unfolded AsyncWrite] un c] by (simp add: AsyncWrite)
next
  case (AsyncHash i)
  show ?thesis using hashed_ok [OF ok [unfolded AsyncHash] un c] by (simp add: AsyncHash)
next
  case (AsyncRestore pb n)
  with ok show ?thesis by (auto simp: transfer_ok_def tasks_ok_def)
next
  case (AsyncRelease d)
  with ok obtain bufs where r: "r = AsyncReleaseResult bufs d NoError" by (auto simp: transfer_ok_def tasks_ok_def)
  with c have t': "t' = t" "effs = []" by (simp_all add: OnCompleted_def)
  have "registered (t_picker t) es = registered (t_picker t) ((AsyncRelease d, Some r) # es)"
    using uncalled_tail [OF un] by (simp add: registered_None registered_Some)
  moreover have "concludes call t t'" by (simp add: concludes_def t'(1) AsyncRelease)
  ultimately show ?thesis using ok uncalled_tail [OF un]
    unfolding t' AsyncRelease transfer_ok_def store_ok_def writes_ok_def hashes_ok_def tasks_ok_def
    by simp blast
qed

end
