(* ===== verification/Session_Run.thy ===== *)
theory Session_Run
  imports Download
begin

text \<open>
  A session downloading: any number of transfers, made by \<open>NewTransfer\<close> without resume data
  and given their hash sets, and everything that can happen to them - blocks are requested,
  received and given up, transfers pause, resume and are removed, goroutines run, results come
  back. The disk works (\<open>io_ok\<close>), and a request is given up only before its block was
  delivered. The theory shows that pieces are verified, that every downloaded piece is verified
  in the end, and that the disk queue works in order and always drains.
\<close>

section \<open>New transfers\<close>

lemma ceil_less:
  assumes b: "0 < (b::int)"
  shows "j < (r + b - 1) div b \<longleftrightarrow> j * b < r"
proof -
  define q where "q = (r + b - 1) div b"
  have q: "q * b + (r + b - 1) mod b = r + b - 1" "0 \<le> (r + b - 1) mod b" "(r + b - 1) mod b < b"
    using b by (simp_all add: q_def)
  show ?thesis
  proof (cases "j < q")
    case True
    then have "(j + 1) * b \<le> q * b" using b by (intro mult_right_mono) simp_all
    with q have "j * b < r" by (simp add: algebra_simps)
    with True show ?thesis by (simp add: q_def)
  next
    case False
    then have "q * b \<le> j * b" using b by (intro mult_right_mono) simp_all
    with q have "\<not> j * b < r" by linarith
    with False show ?thesis by (simp add: q_def)
  qed
qed

lemma DivCeil_less: "0 \<le> a \<Longrightarrow> 0 < b \<Longrightarrow> j < DivCeil a b \<longleftrightarrow> j * b < a"
  using ceil_less [of b j a] by (simp add: DivCeil_def go_div_nonneg)

lemma cut_exact:
  assumes fsize: "0 < fsize"
  defines "n \<equiv> DivCeil fsize PieceSize" and "blocks \<equiv> DivCeil (go_rem fsize PieceSize) BlockSize"
  shows "enumerates fsize n (if blocks = 0 then 1 else blocks) \<longleftrightarrow> go_rem fsize PieceSize \<noteq> 0"
    and "i < n \<longleftrightarrow> i * PieceSize < fsize" and "0 < n" and "0 \<le> blocks" "blocks \<le> BlocksPerPiece"
proof -
  define r where "r = go_rem fsize PieceSize"
  have r: "r = fsize mod PieceSize" "0 \<le> r" "r < PieceSize"
    using fsize by (simp_all add: r_def go_rem_nonneg PieceSize_eq)
  show n: "i < n \<longleftrightarrow> i * PieceSize < fsize" for i
    using fsize by (simp add: n_def DivCeil_less PieceSize_eq)
  have b: "j < blocks \<longleftrightarrow> j * BlockSize < r" for j
    using r(2) by (simp add: blocks_def r_def [symmetric] DivCeil_less BlockSize_eq)
  show "0 < n" using n [of 0] fsize by simp
  show "0 \<le> blocks" using b [of "-1"] r(2) by (simp add: BlockSize_eq)
  show "blocks \<le> BlocksPerPiece" using b [of 50] r(3) by (simp add: geometry_constants)
  have valid: "valid_block fsize (NewPieceBlock i j) \<longleftrightarrow> 0 \<le> i \<and> 0 \<le> j \<and> j < 50 \<and> i * PieceSize + j * BlockSize < fsize" for i j
    by (auto simp: valid_block_def NewPieceBlock_def BlocksOffset_def geometry_constants algebra_simps)
  define k where "k = fsize div PieceSize"
  have k: "fsize = k * PieceSize + r" by (simp add: k_def r(1))
  have full: "0 \<le> j \<and> j < 50 \<longleftrightarrow> valid_block fsize (NewPieceBlock i j)" if "0 \<le> i" "i < n" "i \<noteq> n - 1" for i j
  proof -
    have "(i + 1) * PieceSize < fsize" using n [of "i + 1"] that by simp
    then show ?thesis using that(1) by (auto simp: valid geometry_constants)
  qed
  show "enumerates fsize n (if blocks = 0 then 1 else blocks) \<longleftrightarrow> go_rem fsize PieceSize \<noteq> 0"
  proof (cases "r = 0")
    case True
    then have "blocks = 0" using b [of 0] \<open>0 \<le> blocks\<close> by simp
    moreover have "valid_block fsize (NewPieceBlock (n - 1) 1)"
    proof -
      have "n - 1 < n" by simp
      then have "(n - 1) * PieceSize < fsize" by (simp only: n)
      then have "(n - 1) < k" using k True by (simp add: PieceSize_eq)
      then have "n * PieceSize \<le> fsize" using k True by (simp add: PieceSize_eq)
      then show ?thesis using \<open>0 < n\<close> by (simp add: valid geometry_constants)
    qed
    ultimately have "\<not> enumerates fsize n (if blocks = 0 then 1 else blocks)"
      using \<open>0 < n\<close> unfolding enumerates_def
      by (intro notI, elim allE [of _ "n - 1"] allE [of _ 1]) (simp add: BlocksInPiece_def)
    with True show ?thesis by (simp add: r_def)
  next
    case False
    then have "0 < blocks" using b [of 0] r(2) by simp
    have "n - 1 = k"
      using n [of k] n [of "k + 1"] k False r(2,3) by (simp add: algebra_simps)
    then have "0 \<le> j \<and> j < blocks \<longleftrightarrow> valid_block fsize (NewPieceBlock (n - 1) j)" for j
      unfolding valid using b [of j] r(3) k \<open>0 < n\<close> by (auto simp: geometry_constants)
    with full have "enumerates fsize n blocks"
      unfolding enumerates_def BlocksInPiece_def by (simp add: BlocksPerPiece_eq)
    with False \<open>0 < blocks\<close> show ?thesis by (simp add: r_def)
  qed
qed


text \<open>A transfer as it is when the first block is requested.\<close>

definition new_transfer :: "Transfer \<Rightarrow> bool" where
  "new_transfer t \<longleftrightarrow> (\<exists>disk rnd atp hs t0.
     0 < atp_Size atp \<and> go_rem (atp_Size atp) PieceSize \<noteq> 0 \<and> atp_ResumeData atp = None \<and>
     (atp_Handler atp \<noteq> None \<or> atp_FilePath atp \<noteq> []) \<and> hs \<noteq> [] \<and>
     NewTransfer disk rnd atp = Some (t0, []) \<and> t = SetHashSet (atp_Hash atp) hs t0)"

lemma new_transfer_ok:
  assumes new: "new_transfer t" shows "transfer_ok t [] \<and> \<not> t_abort t"
proof -
  from new obtain disk rnd atp hs t0 where atp: "0 < atp_Size atp" "go_rem (atp_Size atp) PieceSize \<noteq> 0"
    "atp_ResumeData atp = None" "atp_Handler atp \<noteq> None \<or> atp_FilePath atp \<noteq> []" "hs \<noteq> []"
    and t0: "NewTransfer disk rnd atp = Some (t0, [])" "t = SetHashSet (atp_Hash atp) hs t0"
    unfolding new_transfer_def by blast
  define n where "n = DivCeil (atp_Size atp) PieceSize"
  define b where "b = DivCeil (go_rem (atp_Size atp) PieceSize) BlockSize"
  define blast where "blast = (if b = 0 then 1 else b)"
  note cut = cut_exact [OF atp(1), folded n_def b_def blast_def]
  obtain h where h: "(case atp_Handler atp of Some h \<Rightarrow> Some h
      | None \<Rightarrow> if atp_FilePath atp \<noteq> [] then Some (NewDesktopFileHandler (atp_FilePath atp) disk) else None) = Some h"
    using atp(4) by (cases "atp_Handler atp") auto
  obtain p where p: "NewPiecePicker n blast = Some p" using cut(3) by (auto simp: NewPiecePicker_def)
  have t: "t_picker t = p" "t_pm t = Some (NewPieceManager h n blast)" "t_hashSet t = hs" "t_numPieces t = n"
    "t_size t = atp_Size atp" "t_pendingPieceHashes t = {}" "\<not> t_abort t"
    using t0 p h atp(3,5) unfolding NewTransfer_def Let_def n_def [symmetric] b_def [symmetric] blast_def [symmetric]
    by (auto simp: SetHashSet_def hash_Equal_def)
  have "0 < blast" "blast \<le> BlocksPerPiece" using cut(4,5) by (auto simp: blast_def BlocksPerPiece_eq)
  then have pok: "picker_ok p" using NewPiecePicker_ok [OF p] by blast
  have none: "pst p i = None \<or> pst p i = Some PieceNone" for i
    using p by (auto simp: NewPiecePicker_def pst_def idx_def split: if_splits)
  have free: "bst p pb = None" for pb
    by (rule bst_None [OF pok]) (use none [of "pb_PieceIndex pb"] in auto)
  have nc: "\<not> complete p i" for i using none [of i] by (auto simp: complete_def)
  have mgr: "pm_pieceCount (NewPieceManager h n blast) = n" "pm_blocksInLastPiece (NewPieceManager h n blast) = blast"
    "pm_inv (atp_Size atp) D {} (NewPieceManager h n blast)" for D
    by (simp_all add: NewPieceManager_def pm_inv_def)
  have pp: "pp_pieceCount p = n" "pp_blocksInLastPiece p = blast"
    using p by (auto simp: NewPiecePicker_def split: if_splits)
  have "called [] = None" by (simp add: called_def)
  then have "registered p [] = {}" by (simp add: registered_None free)
  moreover have "cut_ok (atp_Size atp) p (NewPieceManager h n blast)"
    using pok pp mgr cut(1,2) atp(2) by (simp add: cut_ok_def)
  moreover have "\<not> (pst p i = Some PieceHave)" for i using none [of i] by auto
  ultimately show ?thesis
    using atp(5) t mgr free nc
    by (simp add: transfer_ok_def store_ok_def writes_ok_def hashes_ok_def verified_def tasks_ok_def uncalled_def called_def)
qed

section \<open>Steps\<close>

inductive disk_step :: "(io \<Rightarrow> bool) \<Rightarrow> DiskSession \<Rightarrow> DiskSession \<Rightarrow> bool" for may where
  start: "ds_diskTasks s = t # ts \<Longrightarrow> \<not> dt_running t \<Longrightarrow> disk_step may s (start_next s)"
| work: "may io \<Longrightarrow> worker_done io w s = Some s' \<Longrightarrow> disk_step may s s'"
| result: "take_result s = Some s' \<Longrightarrow> disk_step may s s'"

abbreviation works :: "io \<Rightarrow> bool" where "works io \<equiv> io = io_ok"

inductive session_step :: "DiskSession \<Rightarrow> DiskSession \<Rightarrow> bool" where
  received: "int (length x) = pb_Size pb (t_size (ds_transfers s k)) \<Longrightarrow>
    block_received pb x (ds_transfers s k) = Some te \<Longrightarrow> session_step s (with_transfer k te s)"
| requested: "PickPiecesWithAvailability peer speed av n (t_picker (ds_transfers s k)) = (p, pbs) \<Longrightarrow>
    session_step s (with_transfer k ((ds_transfers s k)\<lparr>t_picker := p\<rparr>, []) s)"
| given_up: "unwritten (bst (t_picker (ds_transfers s k)) pb) \<Longrightarrow>
    AbortDownload pb peer (t_picker (ds_transfers s k)) = Some p \<Longrightarrow>
    session_step s (with_transfer k ((ds_transfers s k)\<lparr>t_picker := p\<rparr>, []) s)"
| hash_set: "session_step s (with_transfer k (SetHashSet h hs (ds_transfers s k), []) s)"
| paused: "session_step s (with_transfer k (PauseWithDisconnect (ds_transfers s k)) s)"
| resumed: "session_step s (with_transfer k (ResumeWithState (ds_transfers s k), []) s)"
| aborted: "session_step s (with_transfer k (t_Abort d (ds_transfers s k)) s)"
| disk: "disk_step works s s' \<Longrightarrow> session_step s s'"

definition idle :: "DiskSession \<Rightarrow> bool" where
  "idle s \<longleftrightarrow> ds_diskTasks s = [] \<and> ds_workers s = [] \<and> ds_diskResults s = []"

inductive running :: "DiskSession \<Rightarrow> bool" where
  begin_session: "idle s \<Longrightarrow> \<forall>k. new_transfer (ds_transfers s k) \<Longrightarrow> running s"
| go_on: "running s \<Longrightarrow> session_step s s' \<Longrightarrow> running s'"

text \<open>\<open>processDiskTasks\<close> is a sequence of disk steps.\<close>

lemma take_results_steps: "take_results n s = Some s' \<Longrightarrow> (disk_step may)\<^sup>*\<^sup>* s s'"
proof (induction n arbitrary: s)
  case (Suc n)
  then obtain s1 where "take_result s = Some s1" "take_results n s1 = Some s'" by (auto split: option.splits)
  then show ?case using Suc.IH disk_step.result by (meson converse_rtranclp_into_rtranclp)
qed simp

lemma start_next_steps: "(disk_step may)\<^sup>*\<^sup>* s (start_next s)"
proof (cases "ds_diskTasks s")
  case Nil
  then show ?thesis by (simp add: start_next_def)
next
  case (Cons t ts)
  show ?thesis
  proof (cases "dt_running t")
    case True
    with Cons show ?thesis by (simp add: start_next_def)
  next
    case False
    from disk_step.start [OF Cons this] show ?thesis by (rule r_into_rtranclp)
  qed
qed

lemma processDiskTasks_steps: "processDiskTasks s = Some s' \<Longrightarrow> (disk_step may)\<^sup>*\<^sup>* s s'"
  unfolding processDiskTasks_def using start_next_steps take_results_steps by (meson rtranclp_trans)

lemma disk_step_queue: "disk_step may s s' \<Longrightarrow> queue_ok s \<Longrightarrow> queue_ok s'"
  by (induction rule: disk_step.induct) (auto intro: queue_ok_start queue_ok_worker_done queue_ok_take)

section \<open>The invariant\<close>

definition session_ok :: "DiskSession \<Rightarrow> bool" where
  "session_ok s \<longleftrightarrow> queue_ok s \<and>
     (\<forall>k. \<not> t_abort (ds_transfers s k) \<longrightarrow> transfer_ok (ds_transfers s k) (tasks_of k s))"

lemma session_okD:
  "session_ok s \<Longrightarrow> queue_ok s"
  "session_ok s \<Longrightarrow> \<not> t_abort (ds_transfers s k) \<Longrightarrow> transfer_ok (ds_transfers s k) (tasks_of k s)"
  by (simp_all add: session_ok_def)

text \<open>A step of one transfer.\<close>

lemma session_ok_upd:
  assumes s: "session_ok s" and q: "queue_ok s'" and tr: "ds_transfers s' = (ds_transfers s)(k := t')"
    and other: "\<And>j. j \<noteq> k \<Longrightarrow> tasks_of j s' = tasks_of j s"
    and t': "\<not> t_abort (ds_transfers s k) \<Longrightarrow> \<not> t_abort t' \<Longrightarrow> transfer_ok t' (tasks_of k s')"
    and keeps: "t_abort (ds_transfers s k) \<Longrightarrow> t_abort t'"
  shows "session_ok s'"
  unfolding session_ok_def
proof (intro conjI allI impI)
  fix j assume j: "\<not> t_abort (ds_transfers s' j)"
  show "transfer_ok (ds_transfers s' j) (tasks_of j s')"
  proof (cases "j = k")
    case True
    with j keeps t' tr show ?thesis by auto
  next
    case False
    with j tr other session_okD(2) [OF s, of j] show ?thesis by simp
  qed
qed (rule q)

lemma idle_queue: "idle s \<Longrightarrow> queue_ok s \<and> tasks_of k s = []"
  by (simp add: idle_def queue_ok_def in_progress_def tasks_of_def)

lemma session_with_transfer:
  assumes s: "session_ok s"
    and t: "\<not> t_abort (fst te) \<Longrightarrow> \<not> t_abort (ds_transfers s k) \<Longrightarrow> transfer_ok (ds_transfers s k) (tasks_of k s) \<Longrightarrow>
      transfer_ok (fst te) (tasks_of k s @ submitted (snd te))"
    and keeps: "t_abort (ds_transfers s k) \<Longrightarrow> t_abort (fst te)"
  shows "session_ok (with_transfer k te s)"
proof -
  note q = session_okD(1) [OF s]
  show ?thesis
    using t keeps session_okD(2) [OF s, of k]
    by (intro session_ok_upd [OF s queue_ok_with_transfer [OF q] tasks_of_with_transfer(2) [OF q]])
      (auto simp: tasks_of_with_transfer(1) [OF q])
qed

lemma QueuePieceHash_abort: "QueuePieceHash i t = Some (t', effs, b) \<Longrightarrow> t_abort t' = t_abort t"
  by (auto simp: QueuePieceHash_def split: if_splits option.splits bool.splits)

lemma block_received_abort: "block_received pb x t = Some (t', effs) \<Longrightarrow> t_abort t' = t_abort t"
  by (auto simp: block_received_def split: option.splits if_splits bool.splits dest!: QueuePieceHash_abort)

lemma PauseWithDisconnect_is:
  "PauseWithDisconnect t = (t\<lparr>t_pause := True, t_connections := [], t_needSaveResumeData := True\<rparr>,
     map (\<lambda>c. CloseConn c TransferPaused) (t_connections t))"
  by (simp add: PauseWithDisconnect_def drop_connections_def)

lemma OnCompleted_abort: "OnCompleted r t = Some (t', effs) \<Longrightarrow> t_abort t' = t_abort t"
  by (cases r)
    (auto simp: OnCompleted_def OnBlockWriteCompleted_def OnPieceHashCompleted_def OnBlockRestoreCompleted_def
      t_WeHave_def t_finished_def drop_connections_def PauseWithDisconnect_is Let_def
      split: option.splits if_splits dest!: QueuePieceHash_abort)

lemma quiet_transfer:
  assumes ok: "transfer_ok t q" and p: "quiet (t_picker t) p"
  shows "transfer_ok (t\<lparr>t_picker := p\<rparr>) q"
  using ok quiet_parts [OF p] by (auto simp: transfer_ok_def)

lemma transfer_picker: "transfer_ok t q \<Longrightarrow> picker_ok (t_picker t)"
  by (auto simp: transfer_ok_def cut_ok_def)

lemma disk_step_ok:
  assumes st: "disk_step works s s'" and s: "session_ok s"
  shows "session_ok s'"
  using st
proof cases
  case (start t ts)
  with s show ?thesis by (auto simp: session_ok_def tasks_of_start queue_ok_start)
next
  case (work io w)
  have q: "queue_ok s" using s by (simp add: session_ok_def)
  obtain k call es pm r where
    k: "tasks_of k s = (call, None) # es" "tasks_of k s' = (call, Some r) # es"
    "disk_Call io call (t_pm (ds_transfers s k)) = Some (pm, r)" "\<forall>(c, r)\<in>set es. r = None"
    "ds_transfers s' = (ds_transfers s)(k := (ds_transfers s k)\<lparr>t_pm := pm\<rparr>)"
    "\<And>j. j \<noteq> k \<Longrightarrow> tasks_of j s' = tasks_of j s" 
    by (rule worker_done_tasks [OF q work(2)]) (rule that; assumption)
  have "transfer_ok ((ds_transfers s k)\<lparr>t_pm := pm\<rparr>) ((call, Some r) # es)" if "\<not> t_abort (ds_transfers s k)"
    using session_okD(2) [OF s that] unfolding k(1) by (rule worker_ok [OF _ k(4) k(3) [unfolded work(1)]])
  then show ?thesis
    by (intro session_ok_upd [OF s queue_ok_worker_done [OF q work(2)] k(5,6)]) (simp_all add: k(2))
next
  case result
  have q: "queue_ok s" using s by (simp add: session_ok_def)
  obtain k call r es te where
    k: "tasks_of k s = (call, Some r) # es" "\<forall>(c, r)\<in>set es. r = None"
    "OnCompleted r (ds_transfers s k) = Some te" "tasks_of k s' = es @ submitted (snd te)"
    "ds_transfers s' = (ds_transfers s)(k := fst te)" "\<And>j. j \<noteq> k \<Longrightarrow> tasks_of j s' = tasks_of j s" 
    by (rule take_result_tasks [OF q result]) (rule that; assumption)
  have te: "OnCompleted r (ds_transfers s k) = Some (fst te, snd te)" using k(3) by simp
  have "transfer_ok (fst te) (es @ submitted (snd te))" if "\<not> t_abort (ds_transfers s k)"
    using result_ok [OF session_okD(2) [OF s that, unfolded k(1)] k(2) te] by simp
  then show ?thesis
    using OnCompleted_abort [OF te]
    by (intro session_ok_upd [OF s queue_ok_take [OF q result] k(5,6)]) (simp_all add: k(4))
qed

lemma session_step_ok:
  assumes "session_step s s'" and s: "session_ok s"
  shows "session_ok s'"
  using assms(1)
proof cases
  case (received x pb k te)
  have te: "block_received pb x (ds_transfers s k) = Some (fst te, snd te)" using received by simp
  have "t_abort (fst te) = t_abort (ds_transfers s k)" by (rule block_received_abort [OF te])
  then show ?thesis
    unfolding received(1)
    by (intro session_with_transfer [OF s])
      (rule block_received_ok [OF _ received(2) te, THEN conjunct1], assumption, simp)
next
  case (requested peer speed av n k p pbs)
  then show ?thesis
    by (auto intro!: session_with_transfer [OF s] quiet_transfer quiet_PickPieces dest: transfer_picker)
next
  case (given_up k pb peer p)
  then show ?thesis
    by (auto intro!: session_with_transfer [OF s] quiet_transfer quiet_AbortDownload dest: transfer_picker)
next
  case (hash_set k h hs)
  then show ?thesis
    by (auto intro!: session_with_transfer [OF s] simp: SetHashSet_def transfer_ok_def)
next
  case (paused k)
  have "submitted (map (\<lambda>c. CloseConn c TransferPaused) cs) = []" for cs
    using submitted_closes [of _ cs "[]"] by simp
  then show ?thesis
    unfolding paused by (intro session_with_transfer [OF s]) (auto simp: PauseWithDisconnect_is transfer_ok_def)
next
  case (resumed k)
  then show ?thesis
    by (auto intro!: session_with_transfer [OF s] simp: ResumeWithState_def transfer_ok_def)
next
  case (aborted k d)
  then show ?thesis
    by (auto intro!: session_with_transfer [OF s] simp: t_Abort_def drop_connections_def)
next
  case disk
  then show ?thesis using disk_step_ok s by blast
qed

lemma running_ok: "running s \<Longrightarrow> session_ok s"
proof (induction rule: running.induct)
  case (begin_session s)
  then show ?case by (simp add: session_ok_def idle_queue new_transfer_ok)
next
  case (go_on s s')
  then show ?case by (blast intro: session_step_ok)
qed

section \<open>The disk queue drains\<close>

text \<open>A write may ask for a hash and a hash for a release, so the tasks weigh differently.\<close>

fun weight :: "disk_call \<Rightarrow> nat" where
  "weight (AsyncWrite pb x) = 12"
| "weight (AsyncHash i) = 6"
| "weight (AsyncRestore pb n) = 3"
| "weight (AsyncRelease d) = 3"

definition load :: "DiskSession \<Rightarrow> nat" where
  "load s = sum_list (map (\<lambda>t. weight (dt_callable t)) (ds_diskTasks s))"

definition pending :: "DiskSession \<Rightarrow> nat" where
  "pending s = load s + (case ds_diskTasks s of [] \<Rightarrow> 0 | t # ts \<Rightarrow> if dt_running t then 0 else 2) + length (ds_workers s)"

text \<open>The tasks an operation submits.\<close>

fun asked :: "effect list \<Rightarrow> disk_call list" where
  "asked [] = []"
| "asked (SubmitTask task # es) = task # asked es"
| "asked (e # es) = asked es"

lemma asked_append [simp]: "asked (es @ fs) = asked es @ asked fs"
  by (induction es rule: asked.induct) simp_all

lemma asked_closes [simp]: "asked (map (\<lambda>c. CloseConn c ec) cs) = []"
  by (induction cs) simp_all

lemma effects_tasks:
  "map (\<lambda>t. (dt_transfer t, dt_callable t)) (ds_diskTasks (apply_effects k es s)) =
     map (\<lambda>t. (dt_transfer t, dt_callable t)) (ds_diskTasks s) @ map (Pair k) (asked es)"
  "(\<exists>us. ds_diskTasks (apply_effects k es s) = ds_diskTasks s @ us \<and> (\<forall>u\<in>set us. \<not> dt_running u))"
  "ds_workers (apply_effects k es s) = ds_workers s" "ds_diskResults (apply_effects k es s) = ds_diskResults s"
proof (induction k es s rule: apply_effects.induct)
  case (2 k task es s)
  { case 1 show ?case using "2.IH"(1) by (simp add: SubmitDiskTask_def) }
  { case 2 show ?case using "2.IH"(2) by (auto simp: SubmitDiskTask_def) }
  { case 3 show ?case using "2.IH"(3) by (simp add: SubmitDiskTask_def) }
  { case 4 show ?case using "2.IH"(4) by (simp add: SubmitDiskTask_def) }
qed simp_all

lemma QueuePieceHash_asked: "QueuePieceHash i t = Some (t', effs, b) \<Longrightarrow> asked effs = [] \<or> asked effs = [AsyncHash i]"
  by (auto simp: QueuePieceHash_def split: if_splits option.splits bool.splits)

lemma asked_Write: "OnCompleted (AsyncWriteResult pb bufs ec) t = Some (t', effs) \<Longrightarrow>
    asked effs = [] \<or> (\<exists>i. asked effs = [AsyncHash i])"
  by (auto simp: OnCompleted_def OnBlockWriteCompleted_def PauseWithDisconnect_is
      split: option.splits if_splits dest!: QueuePieceHash_asked)

lemma asked_Hash: "OnCompleted (AsyncHashResult i h) t = Some (t', effs) \<Longrightarrow>
    asked effs = [] \<or> asked effs = [AsyncRelease False]"
  by (auto simp: OnCompleted_def OnPieceHashCompleted_def t_finished_def drop_connections_def Let_def
      split: option.splits if_splits)

lemma asked_other:
  "OnCompleted (AsyncRestoreResult pb bufs ec) t = Some (t', effs) \<Longrightarrow> asked effs = []"
  "OnCompleted (AsyncReleaseResult bufs d ec) t = Some (t', effs) \<Longrightarrow> asked effs = []"
  by (auto simp: OnCompleted_def OnBlockRestoreCompleted_def PauseWithDisconnect_is Let_def
      split: option.splits if_splits)

text \<open>The result of a task is of its kind.\<close>

fun fits :: "disk_call \<Rightarrow> disk_result \<Rightarrow> bool" where
  "fits (AsyncWrite pb x) (AsyncWriteResult qb bufs ec) \<longleftrightarrow> True"
| "fits (AsyncHash i) (AsyncHashResult j h) \<longleftrightarrow> True"
| "fits (AsyncRestore pb n) (AsyncRestoreResult qb bufs ec) \<longleftrightarrow> True"
| "fits (AsyncRelease d) (AsyncReleaseResult bufs e ec) \<longleftrightarrow> True"
| "fits _ _ \<longleftrightarrow> False"

lemma disk_Call_fits: "disk_Call io call pm = Some (pm', r) \<Longrightarrow> fits call r"
  by (cases call) (auto simp: disk_Call_def Let_def split: option.splits sum.splits prod.splits)

lemma asked_weight:
  assumes "fits call r" and "OnCompleted r t = Some (t', effs)"
  shows "sum_list (map weight (asked effs)) + 3 \<le> weight call"
  using assms asked_Write asked_Hash asked_other by (cases "(call, r)" rule: fits.cases) fastforce+

text \<open>The result in the channel fits the first task.\<close>

definition results_fit :: "DiskSession \<Rightarrow> bool" where
  "results_fit s \<longleftrightarrow> queue_ok s \<and>
     (\<forall>(i, r)\<in>set (ds_diskResults s). \<exists>t ts. ds_diskTasks s = t # ts \<and> fits (dt_callable t) r)"

lemma results_fit_idle: "idle s \<Longrightarrow> results_fit s"
  using idle_queue [of s] by (simp add: results_fit_def idle_def)

lemma results_fit_with_transfer:
  assumes "results_fit s" shows "results_fit (with_transfer k te s)"
proof -
  define s0 where "s0 = s\<lparr>ds_transfers := (ds_transfers s)(k := fst te)\<rparr>"
  obtain us where "ds_diskTasks (apply_effects k (snd te) s0) = ds_diskTasks s @ us"
    using effects_tasks(2) [of k "snd te" s0] by (auto simp: s0_def)
  moreover have "ds_diskResults (apply_effects k (snd te) s0) = ds_diskResults s"
    by (simp add: effects_tasks(4) s0_def)
  ultimately show ?thesis
    using assms queue_ok_with_transfer [of s k te]
    unfolding results_fit_def with_transfer_def s0_def [symmetric] by fastforce
qed

text \<open>The queue as others see it: whose task, and what it asks for.\<close>

definition queue_of :: "DiskSession \<Rightarrow> (nat \<times> disk_call) list" where
  "queue_of s = map (\<lambda>t. (dt_transfer t, dt_callable t)) (ds_diskTasks s)"

definition result_of :: "DiskSession \<Rightarrow> disk_result option" where
  "result_of s = (case ds_diskResults s of [] \<Rightarrow> None | (i, r) # rs \<Rightarrow> Some r)"

lemma queue_of_with_transfer: "queue_of (with_transfer k te s) = queue_of s @ map (Pair k) (asked (snd te))"
  by (simp add: queue_of_def with_transfer_def effects_tasks(1))

lemma load_queue_of: "load s = sum_list (map (\<lambda>(k, c). weight c) (queue_of s))"
  by (simp add: load_def queue_of_def o_def)

lemma start_view:
  assumes "ds_diskTasks s = t # ts" and "\<not> dt_running t"
  shows "queue_of (start_next s) = queue_of s" "ds_transfers (start_next s) = ds_transfers s"
    "pending (start_next s) < pending s" "results_fit s \<Longrightarrow> results_fit (start_next s)"
    "result_of (start_next s) = result_of s"
proof -
  show "results_fit s \<Longrightarrow> results_fit (start_next s)"
    using assms queue_ok_start [of s] by (auto simp: results_fit_def start_next_def)
qed (use assms in \<open>simp_all add: start_next_def queue_of_def pending_def load_def result_of_def\<close>)

lemma work_view:
  assumes fit: "results_fit s" and d: "worker_done io w s = Some s'"
  obtains k call q pm r where "queue_of s = (k, call) # q" "queue_of s' = queue_of s"
    "disk_Call io call (t_pm (ds_transfers s k)) = Some (pm, r)"
    "ds_transfers s' = (ds_transfers s)(k := (ds_transfers s k)\<lparr>t_pm := pm\<rparr>)"
    "pending s' < pending s" "results_fit s'" "result_of s = None" "result_of s' = Some r"
proof -
  have ok: "queue_ok s" using fit by (simp add: results_fit_def)
  have w: "w < length (ds_workers s)" using d by (auto simp: worker_done_def split: if_splits)
  from queue_ok_worker [OF ok w] obtain t ts where t: "ds_diskTasks s = t # ts"
    "ds_workers s = [t\<lparr>dt_running := False\<rparr>]" "ds_diskResults s = []" "dt_running t" "w = 0" by metis
  define k where "k = dt_transfer t"
  obtain pm r where c: "disk_Call io (dt_callable t) (t_pm (ds_transfers s k)) = Some (pm, r)"
    and s': "s' = s\<lparr>ds_workers := [], ds_diskResults := [(dt_id t, r)],
      ds_transfers := (ds_transfers s)(k := (ds_transfers s k)\<lparr>t_pm := pm\<rparr>)\<rparr>"
    using d t by (auto simp: worker_done_def Let_def k_def split: option.splits)
  have "results_fit s'"
    using disk_Call_fits [OF c] queue_ok_worker_done [OF ok d] t by (simp add: results_fit_def s')
  with c t show ?thesis
    by (intro that [of k "dt_callable t" "queue_of (s\<lparr>ds_diskTasks := ts\<rparr>)" pm r])
      (simp_all add: s' queue_of_def k_def pending_def load_def result_of_def)
qed

lemma result_view:
  assumes fit: "results_fit s" and d: "take_result s = Some s'"
  obtains k call q r te where "queue_of s = (k, call) # q" "fits call r"
    "OnCompleted r (ds_transfers s k) = Some te" "queue_of s' = q @ map (Pair k) (asked (snd te))"
    "ds_transfers s' = (ds_transfers s)(k := fst te)" "pending s' < pending s" "results_fit s'"
    "result_of s = Some r" "result_of s' = None"
proof -
  have ok: "queue_ok s" using fit by (simp add: results_fit_def)
  obtain i r rs where r: "ds_diskResults s = (i, r) # rs"
    using d by (auto simp: take_result_def split: list.splits)
  from queue_ok_result [OF ok r] obtain t ts where t: "ds_diskTasks s = t # ts" "dt_id t = i" "ds_workers s = []"
    "rs = []" "dt_running t" "find (\<lambda>t. dt_id t = i) (ds_diskTasks s) = Some t"
    "filter (\<lambda>t. dt_id t \<noteq> i) (ds_diskTasks s) = ts" by metis
  define k where "k = dt_transfer t"
  define s1 where "s1 = s\<lparr>ds_diskResults := [], ds_diskTasks := ts\<rparr>"
  obtain te where te: "OnCompleted r (ds_transfers s k) = Some te" "s' = with_transfer k te s1"
    using d r t by (auto simp: take_result_def Let_def k_def s1_def)
  have f: "fits (dt_callable t) r" using fit t(1) r by (simp add: results_fit_def)
  have te': "OnCompleted r (ds_transfers s k) = Some (fst te, snd te)" using te(1) by simp
  have q: "queue_of s = (k, dt_callable t) # queue_of s1" by (simp add: queue_of_def t(1) s1_def k_def)
  have ok1: "queue_ok s1"
    using ok t(1,3) by (cases ts) (auto simp: queue_ok_def in_progress_def s1_def)
  have q': "queue_of s' = queue_of s1 @ map (Pair k) (asked (snd te))"
    by (simp add: te(2) queue_of_with_transfer)
  have "load s = weight (dt_callable t) + load s1" by (simp add: load_queue_of q)
  moreover have "load s' = load s1 + sum_list (map weight (asked (snd te)))"
    by (simp add: load_queue_of q' o_def)
  moreover have "ds_workers s' = []" using t(3) by (simp add: te(2) with_transfer_def effects_tasks(3) s1_def)
  ultimately have "pending s' < pending s"
    using asked_weight [OF f te'] t(5) by (auto simp: pending_def t(1) split: list.splits)
  moreover have "results_fit s'"
    unfolding te(2) by (rule results_fit_with_transfer) (simp add: results_fit_def ok1, simp add: s1_def)
  moreover have "ds_transfers s' = (ds_transfers s)(k := fst te)"
    unfolding te(2) using tasks_of_with_transfer(2) [OF ok1, of k te] by (simp add: s1_def)
  moreover have "result_of s = Some r" "result_of s' = None"
    by (simp_all add: result_of_def r te(2) with_transfer_def effects_tasks(4) s1_def)
  ultimately show ?thesis using f te(1) q q' by (intro that [of k "dt_callable t" "queue_of s1" r te])
qed

lemma disk_step_pending:
  "disk_step may s s' \<Longrightarrow> results_fit s \<Longrightarrow> pending s' < pending s \<and> results_fit s'"
proof (induction rule: disk_step.induct)
  case (start s t ts)
  then show ?case using start_view by blast
next
  case (work io w s s')
  then show ?case using work_view by metis
next
  case (result s s')
  then show ?case using result_view by metis
qed

section \<open>The queue as a server\<close>

text \<open>
  What the queue promises: only the first task is worked on, with one call, whose result is
  what completes it; tasks leave the queue in the order in which they were submitted, and only
  the transfer of the first task changes.
\<close>

inductive serves :: "(nat \<times> disk_call) list \<times> disk_result option \<times> (nat \<Rightarrow> Transfer) \<Rightarrow>
    (nat \<times> disk_call) list \<times> disk_result option \<times> (nat \<Rightarrow> Transfer) \<Rightarrow> bool" where
  call: "disk_Call io call (t_pm (T k)) = Some (pm, r) \<Longrightarrow>
    serves ((k, call) # q, None, T) ((k, call) # q, Some r, T(k := (T k)\<lparr>t_pm := pm\<rparr>))"
| complete_task: "OnCompleted r (T k) = Some te \<Longrightarrow>
    serves ((k, call) # q, Some r, T) (q @ map (Pair k) (asked (snd te)), None, T(k := fst te))"

definition served :: "DiskSession \<Rightarrow> (nat \<times> disk_call) list \<times> disk_result option \<times> (nat \<Rightarrow> Transfer)" where
  "served s = (queue_of s, result_of s, ds_transfers s)"

text \<open>
  Any use of the queue, on any disk. \<open>RemoveDiskTask\<close>, which nothing in the program calls, takes
  part as long as no task of the transfer runs: it does not stop the goroutine of a running
  task, and a second one would start.
\<close>

inductive tasks_run :: "DiskSession \<Rightarrow> bool" where
  begin_tasks: "idle s \<Longrightarrow> tasks_run s"
| submit: "tasks_run s \<Longrightarrow> tasks_run (with_transfer k te s)"
| remove_waiting: "tasks_run s \<Longrightarrow> \<forall>t\<in>set (ds_diskTasks s). dt_transfer t = k \<longrightarrow> \<not> dt_running t \<Longrightarrow>
    tasks_run (RemoveDiskTask k s)"
| work_on: "tasks_run s \<Longrightarrow> disk_step may s s' \<Longrightarrow> tasks_run s'"

lemma results_fit_remove:
  assumes fit: "results_fit s" and w: "\<forall>t\<in>set (ds_diskTasks s). dt_transfer t = k \<longrightarrow> \<not> dt_running t"
  shows "results_fit (RemoveDiskTask k s)"
proof (cases "ds_diskTasks s")
  case Nil
  with fit show ?thesis by (simp add: results_fit_def RemoveDiskTask_def queue_ok_def)
next
  case (Cons t ts)
  have ok: "queue_ok s" using fit by (simp add: results_fit_def)
  have dist: "distinct (map dt_id (filter (\<lambda>t. dt_transfer t \<noteq> k) xs))" if "distinct (map dt_id xs)" for xs
    using that by (rule distinct_map_filter)
  show ?thesis
  proof (cases "dt_transfer t = k")
    case True
    then have "\<not> dt_running t" using w Cons by simp
    then have idle: "in_progress s = []" "\<forall>u\<in>set ts. \<not> dt_running u" using ok Cons by (simp_all add: queue_ok_def)
    then have "ds_diskResults s = []" by (simp add: in_progress_def)
    moreover have "queue_ok (RemoveDiskTask k s)"
      using ok Cons idle True dist [of ts]
      by (cases "filter (\<lambda>t. dt_transfer t \<noteq> k) ts")
        (auto simp: queue_ok_def RemoveDiskTask_def filter_eq_Cons_iff)
    ultimately show ?thesis by (simp add: results_fit_def RemoveDiskTask_def)
  next
    case False
    then have "queue_ok (RemoveDiskTask k s)"
      using ok Cons dist [of ts] by (auto simp: queue_ok_def RemoveDiskTask_def)
    with False fit Cons show ?thesis by (auto simp: results_fit_def RemoveDiskTask_def)
  qed
qed

lemma removed_while_running:
  assumes "ds_diskTasks s = t # u # ts" and "dt_running t" and "\<not> dt_running u" and "dt_transfer u \<noteq> dt_transfer t"
    and "ds_workers s = [w]"
  shows "length (ds_workers (start_next (RemoveDiskTask (dt_transfer t) s))) = 2"
  using assms by (simp add: start_next_def RemoveDiskTask_def)

lemma tasks_run_fit: "tasks_run s \<Longrightarrow> results_fit s"
  by (induction rule: tasks_run.induct)
    (auto simp: results_fit_idle results_fit_with_transfer results_fit_remove dest: disk_step_pending)

lemma disk_step_serves:
  "disk_step may s s' \<Longrightarrow> results_fit s \<Longrightarrow> served s' = served s \<or> serves (served s) (served s')"
proof (induction rule: disk_step.induct)
  case (start s t ts)
  then show ?case using start_view by (simp add: served_def)
next
  case (work io w s s')
  obtain k call q pm r where v: "queue_of s = (k, call) # q" "queue_of s' = queue_of s"
    "disk_Call io call (t_pm (ds_transfers s k)) = Some (pm, r)"
    "ds_transfers s' = (ds_transfers s)(k := (ds_transfers s k)\<lparr>t_pm := pm\<rparr>)"
    "result_of s = None" "result_of s' = Some r"
    by (rule work_view [OF work(3,2)]) (rule that; assumption)
  show ?case using serves.call [where T = "ds_transfers s" and k = k, OF v(3)] by (simp add: served_def v(1,2,4-6))
next
  case (result s s')
  obtain k call q r te where v: "queue_of s = (k, call) # q"
    "OnCompleted r (ds_transfers s k) = Some te" "queue_of s' = q @ map (Pair k) (asked (snd te))"
    "ds_transfers s' = (ds_transfers s)(k := fst te)" "result_of s = Some r" "result_of s' = None"
    by (rule result_view [OF result(2,1)]) (rule that; assumption)
  show ?case using serves.complete_task [where T = "ds_transfers s" and k = k, OF v(2)] by (simp add: served_def v(1,3-6))
qed

lemma one_worker: "results_fit s \<Longrightarrow> length (ds_workers s) \<le> 1"
  by (cases "ds_diskTasks s") (auto simp: results_fit_def queue_ok_def in_progress_def split: if_splits dest: arg_cong [where f = length])

section \<open>No task gets stuck\<close>

lemma QueuePieceHash_exists: "picker_ok (t_picker t) \<Longrightarrow> QueuePieceHash i t \<noteq> None"
proof -
  assume ok: "picker_ok (t_picker t)"
  show ?thesis
  proof (cases "pst (t_picker t) i")
    case None
    then have "i < 0 \<or> i \<ge> int (TotalPieces (t_picker t))" by (auto simp: pst_def idx_None_iff TotalPieces_def)
    then show ?thesis by (simp add: QueuePieceHash_def)
  next
    case (Some s)
    then show ?thesis
      using IsPieceFinished_view [OF ok, of i] HavePiece_view [of i "t_picker t"]
      by (auto simp: QueuePieceHash_def split: bool.splits)
  qed
qed

lemma OnCompleted_exists:
  assumes ok: "transfer_ok t ((call, Some r) # es)"
  shows "OnCompleted r t \<noteq> None"
proof -
  let ?p = "t_picker t"
  obtain pm where pm: "cut_ok (t_size t) ?p pm" "writes_ok (t_size t) ?p ((call, Some r) # es)"
    "hashes_ok ?p (t_pendingPieceHashes t) ((call, Some r) # es)" "tasks_ok (t_size t) ?p pm ((call, Some r) # es)"
    using ok by (auto simp: transfer_ok_def)
  have pok: "picker_ok ?p" using pm(1) by (simp add: cut_ok_def)
  show ?thesis
  proof (cases call)
    case (AsyncWrite pb x)
    then obtain bufs where r: "r = AsyncWriteResult pb bufs NoError" using pm(4) by (auto simp: tasks_ok_def)
    have "bst ?p pb \<noteq> None" using pm(2) by (auto simp: writes_ok_def AsyncWrite)
    then obtain p where "MarkAsFinished pb ?p = Some (p, True)" "picker_ok p"
      using MarkAsFinished_view [OF pok] by (auto simp: updates_def)
    then show ?thesis
      using QueuePieceHash_exists [of "t\<lparr>t_picker := p\<rparr>" "pb_PieceIndex pb"]
      by (auto simp: r OnCompleted_def OnBlockWriteCompleted_def)
  next
    case (AsyncHash i)
    then obtain x where r: "r = AsyncHashResult i (md4Sum x)" using pm(4) by (auto simp: tasks_ok_def)
    have "pst ?p i \<noteq> None" "0 \<le> i" using hash_ready(1,2) [OF pm(1) pm(2,3) [unfolded AsyncHash]] by simp_all
    with RestorePiece_view [OF pok, of i] WeHave_view [OF pok, of i]
    obtain p p' where "RestorePiece i ?p = Some p" "WeHave i ?p = Some p'" by auto
    with \<open>0 \<le> i\<close> show ?thesis
      by (auto simp: r OnCompleted_def OnPieceHashCompleted_def t_WeHave_def Let_def idx_def split: option.splits)
  next
    case (AsyncRestore pb n)
    with pm(4) show ?thesis by (simp add: tasks_ok_def)
  next
    case (AsyncRelease d)
    with pm(4) show ?thesis by (auto simp: tasks_ok_def OnCompleted_def)
  qed
qed

lemma disk_Call_exists:
  assumes ok: "transfer_ok t ((call, None) # es)"
  shows "disk_Call io_ok call (t_pm t) \<noteq> None"
proof -
  obtain pm where pm: "t_pm t = Some pm" "cut_ok (t_size t) (t_picker t) pm"
    "store_ok (t_size t) (t_picker t) pm ((call, None) # es)" "writes_ok (t_size t) (t_picker t) ((call, None) # es)"
    "verified (t_size t) (t_hashSet t) (t_picker t) pm" "tasks_ok (t_size t) (t_picker t) pm ((call, None) # es)"
    using ok by (auto simp: transfer_ok_def)
  show ?thesis
  proof (cases call)
    case (AsyncWrite pb x)
    from write_done [OF pm(2) pm(3,4) [unfolded AsyncWrite] pm(5)] obtain m free where
      "WriteBlock io_ok pb x pm = Some (m, Inr free)" by blast
    then show ?thesis by (simp add: disk_Call_def pm(1) AsyncWrite)
  qed (use pm(1,6) in \<open>auto simp: disk_Call_def tasks_ok_def split: prod.splits\<close>)
qed

lemma disk_step_enabled:
  assumes s: "session_ok s" and na: "\<forall>k. \<not> t_abort (ds_transfers s k)" and busy: "ds_diskTasks s \<noteq> []"
  shows "\<exists>s'. disk_step works s s'"
proof -
  obtain t ts where t: "ds_diskTasks s = t # ts" using busy by (cases "ds_diskTasks s") auto
  have ok: "queue_ok s" by (rule session_okD(1) [OF s])
  define k where "k = dt_transfer t"
  have tk: "transfer_ok (ds_transfers s k) (tasks_of k s)" using session_okD(2) [OF s] na by simp
  show ?thesis
  proof (cases "dt_running t")
    case False
    with t show ?thesis by (blast intro: disk_step.start)
  next
    case run: True
    then have p: "in_progress s = [dt_id t]" "\<forall>w\<in>set (ds_workers s). w = t\<lparr>dt_running := False\<rparr>"
      using ok by (simp_all add: queue_ok_def t)
    obtain es where es: "tasks_of k s = (dt_callable t, map_of (ds_diskResults s) (dt_id t)) # es"
      by (simp add: tasks_of_def t k_def)
    show ?thesis
    proof (cases "ds_workers s")
      case Nil
      then obtain r where r: "ds_diskResults s = [(dt_id t, r)]" using p(1) by (auto simp: in_progress_def)
      with es have "tasks_of k s = (dt_callable t, Some r) # es" by simp
      then have "OnCompleted r (ds_transfers s k) \<noteq> None" using OnCompleted_exists tk by simp
      then have "take_result s \<noteq> None" by (simp add: take_result_def r t Let_def k_def)
      then show ?thesis using disk_step.result by blast
    next
      case (Cons w ws)
      then have r: "ds_diskResults s = []" "w = t\<lparr>dt_running := False\<rparr>" using p by (auto simp: in_progress_def)
      with es have "tasks_of k s = (dt_callable t, None) # es" by simp
      then have "disk_Call io_ok (dt_callable t) (t_pm (ds_transfers s k)) \<noteq> None" using disk_Call_exists tk by simp
      then have "worker_done io_ok 0 s \<noteq> None" by (auto simp: worker_done_def Cons r(2) Let_def k_def split: option.splits)
      then show ?thesis using disk_step.work [of works io_ok 0 s] by blast
    qed
  qed
qed

lemma disk_step_no_abort:
  assumes "disk_step may s s'" and "results_fit s" and "\<forall>k. \<not> t_abort (ds_transfers s k)"
  shows "\<forall>k. \<not> t_abort (ds_transfers s' k)"
proof -
  have "served s' = served s \<or> serves (served s) (served s')" by (rule disk_step_serves [OF assms(1,2)])
  moreover have "t_abort (fst te) = t_abort t" if "OnCompleted r t = Some te" for r t te
    using OnCompleted_abort [of r t "fst te" "snd te"] that by simp
  ultimately show ?thesis using assms(3) by (auto simp: served_def elim!: serves.cases split: if_splits)
qed

lemma queue_drains:
  assumes "session_ok s" and "results_fit s" and "\<forall>k. \<not> t_abort (ds_transfers s k)"
  shows "\<exists>s'. (disk_step works)\<^sup>*\<^sup>* s s' \<and> session_ok s' \<and> results_fit s' \<and> ds_diskTasks s' = [] \<and>
    (\<forall>k. \<not> t_abort (ds_transfers s' k))"
  using assms
proof (induction "pending s" arbitrary: s rule: less_induct)
  case less
  show ?case
  proof (cases "ds_diskTasks s = []")
    case True
    with less.prems show ?thesis by blast
  next
    case False
    with disk_step_enabled less.prems(1,3) obtain s1 where s1: "disk_step works s s1" by blast
    note d = disk_step_pending [OF s1 less.prems(2)]
    from less.hyps [of s1] d disk_step_ok [OF s1 less.prems(1)] disk_step_no_abort [OF s1 less.prems(2,3)]
    obtain s' where "(disk_step works)\<^sup>*\<^sup>* s1 s'" "session_ok s'" "results_fit s'" "ds_diskTasks s' = []"
      "\<forall>k. \<not> t_abort (ds_transfers s' k)" by blast
    with s1 show ?thesis by (meson converse_rtranclp_into_rtranclp)
  qed
qed

lemma running_fit: "running s \<Longrightarrow> results_fit s"
proof (induction rule: running.induct)
  case (begin_session s)
  then show ?case by (simp add: results_fit_idle)
next
  case (go_on s s')
  from go_on.hyps(2) go_on.IH show ?case
    by cases (auto simp: results_fit_with_transfer dest: disk_step_pending)
qed

text \<open>With an empty queue every downloaded piece has been verified.\<close>

lemma no_tasks_verified:
  assumes ok: "transfer_ok t []" and f: "IsPieceFinished i (t_picker t) = Some True"
  shows "HavePiece i (t_picker t) = Some True"
proof (rule ccontr)
  have pok: "picker_ok (t_picker t)" by (rule transfer_picker [OF ok])
  obtain s where s: "pst (t_picker t) i = Some s"
    using f by (cases "idx (pp_pieceStatus (t_picker t)) i") (simp_all add: IsPieceFinished_def pst_def)
  assume "HavePiece i (t_picker t) \<noteq> Some True"
  with s have "complete (t_picker t) i"
    using IsPieceFinished_complete [OF pok f] by (simp add: HavePiece_view)
  with ok show False by (auto simp: transfer_ok_def hashes_ok_def)
qed

lemma tasks_of_Nil: "ds_diskTasks s = [] \<Longrightarrow> tasks_of k s = []"
  by (simp add: tasks_of_def)

lemma empty_queue_idle: "results_fit s \<Longrightarrow> ds_diskTasks s = [] \<Longrightarrow> idle s"
  by (auto simp: results_fit_def idle_def queue_ok_def in_progress_def)

text \<open>What is verified can be read from the file.\<close>

lemma file_piece_read:
  assumes fp: "file_piece fsize i pm = Some x" and i: "0 \<le> i" "i * PieceSize < fsize"
  shows "\<exists>pm'. pm_ReadRange io_ok (i * PieceSize) (min ((i + 1) * PieceSize) fsize) pm = (pm', Inr x)"
proof -
  define h where "h = fst (fh_File io_ok (pm_handler pm))"
  have h: "fh_File io_ok (pm_handler pm) = (h, True)" "fh_content h = fh_content (pm_handler pm)"
    by (simp_all add: h_def fh_File_def io_ok_def fh_content_def split: option.splits)
  have "0 \<le> i * PieceSize" "\<not> min ((i + 1) * PieceSize) fsize \<le> i * PieceSize" using i by (simp_all add: PieceSize_eq)
  with fp h show ?thesis by (simp add: pm_ReadRange_def file_piece_def io_ok_def Let_def)
qed

lemma verified_read:
  assumes ok: "transfer_ok t q" and i: "HavePiece i (t_picker t) = Some True" "i < int (length (t_hashSet t))"
  shows "\<exists>t' x. t_ReadRange io_ok (i * PieceSize) (min ((i + 1) * PieceSize) (t_size t)) t = (t', Inr x) \<and>
    md4Sum x = t_hashSet t ! nat i"
proof -
  obtain pm where pm: "t_pm t = Some pm" "cut_ok (t_size t) (t_picker t) pm"
    "verified (t_size t) (t_hashSet t) (t_picker t) pm" using ok by (auto simp: transfer_ok_def)
  have pst: "pst (t_picker t) i = Some PieceHave" using i(1) by (auto simp: HavePiece_view)
  then have "0 \<le> i" "i < pm_pieceCount pm"
    using pm(2) by (auto simp: pst_def idx_Some_iff cut_ok_def picker_ok_def)
  then have j: "0 \<le> i" "i * PieceSize < t_size t" using pm(2) by (auto simp: cut_ok_def)
  obtain x where x: "file_piece (t_size t) i pm = Some x" "md4Sum x = t_hashSet t ! nat i"
    using pm(3) pst i(2) by (auto simp: verified_def)
  from file_piece_read [OF x(1) j] x(2) pm(1) show ?thesis by (auto simp: t_ReadRange_def)
qed

section \<open>What becomes of a downloaded piece\<close>

text \<open>A piece all of whose blocks were delivered is waiting for its hash, or it was decided on.\<close>

definition decided :: "int \<Rightarrow> Transfer \<Rightarrow> bool" where
  "decided i t \<longleftrightarrow> (\<exists>pm x. t_pm t = Some pm \<and> file_piece (t_size t) i pm = Some x \<and>
     pst (t_picker t) i = Some (if md4Sum x = t_hashSet t ! nat i then PieceHave else PieceNone))"

definition judged :: "int \<Rightarrow> Transfer \<Rightarrow> bool" where
  "judged i t \<longleftrightarrow> i < int (length (t_hashSet t)) \<and> (complete (t_picker t) i \<or> decided i t)"

lemma judged_begin:
  assumes ok: "transfer_ok t q" and f: "IsPieceFinished i (t_picker t) = Some True" and i: "i < int (length (t_hashSet t))"
  shows "judged i t"
proof (cases "pst (t_picker t) i = Some PieceHave")
  case True
  obtain pm where "t_pm t = Some pm" "verified (t_size t) (t_hashSet t) (t_picker t) pm"
    using ok by (auto simp: transfer_ok_def)
  with True i show ?thesis by (fastforce simp: judged_def decided_def verified_def)
next
  case False
  with IsPieceFinished_complete [OF transfer_picker [OF ok] f] i show ?thesis by (simp add: judged_def)
qed

lemma judged_call:
  assumes ok: "transfer_ok t ((call, None) # es)" and call: "disk_Call io_ok call (t_pm t) = Some (pm', r)"
    and j: "judged i t"
  shows "judged i (t\<lparr>t_pm := pm'\<rparr>)"
proof (cases "complete (t_picker t) i")
  case True
  with j show ?thesis by (simp add: judged_def)
next
  case False
  then obtain pm x where x: "t_pm t = Some pm" "file_piece (t_size t) i pm = Some x"
    "pst (t_picker t) i = Some (if md4Sum x = t_hashSet t ! nat i then PieceHave else PieceNone)"
    using j by (auto simp: judged_def decided_def)
  have "(if md4Sum x = t_hashSet t ! nat i then PieceHave else PieceNone) \<noteq> PieceDownloading" by simp
  from worker_keeps_piece [OF ok call x(3) this x(1,2)] x(3) j show ?thesis
    by (auto simp: judged_def decided_def)
qed

lemma judged_result:
  assumes ok: "transfer_ok t ((call, Some r) # es)" and un: "\<forall>(c, r)\<in>set es. r = None"
    and c: "OnCompleted r t = Some (t', effs)" and j: "judged i t"
  shows "judged i t'"
proof -
  note con = result_ok [OF ok un c, THEN conjunct2, THEN conjunct2, unfolded concludes_def]
  have i: "i < int (length (t_hashSet t))" using j by (simp add: judged_def)
  show ?thesis
  proof (cases "call = AsyncHash i")
    case True
    with con i obtain pm x where "t_pm t = Some pm" "file_piece (t_size t) i pm = Some x"
      "pst (t_picker t') i = Some (if md4Sum x = t_hashSet t ! nat i then PieceHave else PieceNone)" by auto
    with con i show ?thesis by (simp add: judged_def decided_def)
  next
    case False
    with con j show ?thesis by (auto simp: judged_def decided_def)
  qed
qed

lemma disk_step_judged:
  assumes st: "disk_step works s s'" and s: "session_ok s" and na: "\<not> t_abort (ds_transfers s k)"
    and j: "judged i (ds_transfers s k)"
  shows "judged i (ds_transfers s' k) \<and> t_hashSet (ds_transfers s' k) = t_hashSet (ds_transfers s k) \<and>
    t_size (ds_transfers s' k) = t_size (ds_transfers s k) \<and> \<not> t_abort (ds_transfers s' k)"
  using st
proof cases
  case (start t ts)
  with j na show ?thesis by (simp add: tasks_of_start)
next
  case (work io w)
  obtain m call es pm r where
    m: "tasks_of m s = (call, None) # es" "disk_Call io call (t_pm (ds_transfers s m)) = Some (pm, r)"
    "ds_transfers s' = (ds_transfers s)(m := (ds_transfers s m)\<lparr>t_pm := pm\<rparr>)"
    by (rule worker_done_tasks [OF session_okD(1) [OF s] work(2)]) (rule that; assumption)
  show ?thesis
  proof (cases "m = k")
    case True
    then have "transfer_ok (ds_transfers s k) ((call, None) # es)" using session_okD(2) [OF s na] m(1) by simp
    from judged_call [OF this m(2) [unfolded True work(1)] j] na m(3) True show ?thesis by simp
  qed (use m(3) j na in simp)
next
  case result
  obtain m call r es te where
    m: "tasks_of m s = (call, Some r) # es" "\<forall>(c, r)\<in>set es. r = None"
    "OnCompleted r (ds_transfers s m) = Some te" "ds_transfers s' = (ds_transfers s)(m := fst te)"
    by (rule take_result_tasks [OF session_okD(1) [OF s] result]) (rule that; assumption)
  show ?thesis
  proof (cases "m = k")
    case True
    then have ok: "transfer_ok (ds_transfers s k) ((call, Some r) # es)" using session_okD(2) [OF s na] m(1) by simp
    have te: "OnCompleted r (ds_transfers s k) = Some (fst te, snd te)" using m(3) True by simp
    from judged_result [OF ok m(2) te j] result_ok [OF ok m(2) te] na m(4) True show ?thesis
      by (simp add: concludes_def)
  qed (use m(4) j na in simp)
qed

lemma disk_steps_judged:
  assumes "(disk_step works)\<^sup>*\<^sup>* s s'" and "session_ok s" and "\<not> t_abort (ds_transfers s k)" and "judged i (ds_transfers s k)"
  shows "session_ok s' \<and> judged i (ds_transfers s' k) \<and> t_hashSet (ds_transfers s' k) = t_hashSet (ds_transfers s k) \<and>
    t_size (ds_transfers s' k) = t_size (ds_transfers s k) \<and> \<not> t_abort (ds_transfers s' k)"
  using assms by (induction rule: rtranclp_induct) (auto dest: disk_step_ok disk_step_judged)

lemma disk_steps_ok:
  assumes "(disk_step works)\<^sup>*\<^sup>* s s'" and "session_ok s" and "results_fit s" and "\<forall>k. \<not> t_abort (ds_transfers s k)"
  shows "session_ok s' \<and> results_fit s' \<and> (\<forall>k. \<not> t_abort (ds_transfers s' k))"
  using assms
proof (induction rule: rtranclp_induct)
  case (step s' s'')
  then show ?case using disk_step_ok disk_step_pending disk_step_no_abort by metis
qed simp

text \<open>When the queue is empty, each such piece was compared with the hash set.\<close>

lemma judged_idle:
  assumes s: "session_ok s" "idle s" "\<not> t_abort (ds_transfers s k)" and j: "judged i (ds_transfers s k)"
  shows "\<exists>t x. t_ReadRange io_ok (i * PieceSize) (min ((i + 1) * PieceSize) (t_size (ds_transfers s k))) (ds_transfers s k) = (t, Inr x) \<and>
    pst (t_picker (ds_transfers s k)) i =
      Some (if md4Sum x = t_hashSet (ds_transfers s k) ! nat i then PieceHave else PieceNone)"
proof -
  let ?t = "ds_transfers s k"
  have ok: "transfer_ok ?t []" using session_okD(2) [OF s(1,3)] idle_queue [OF s(2)] by simp
  then have "\<not> complete (t_picker ?t) i" by (auto simp: transfer_ok_def hashes_ok_def)
  with j obtain pm x where x: "t_pm ?t = Some pm" "file_piece (t_size ?t) i pm = Some x"
    "pst (t_picker ?t) i = Some (if md4Sum x = t_hashSet ?t ! nat i then PieceHave else PieceNone)"
    by (auto simp: judged_def decided_def)
  have c: "cut_ok (t_size ?t) (t_picker ?t) pm" using ok x(1) by (auto simp: transfer_ok_def)
  then have "0 \<le> i" "i < pm_pieceCount pm"
    using x(3) by (auto simp: pst_def idx_Some_iff cut_ok_def picker_ok_def)
  with c have "i * PieceSize < t_size ?t" by (auto simp: cut_ok_def)
  from file_piece_read [OF x(2) \<open>0 \<le> i\<close> this] obtain pm' where
    "pm_ReadRange io_ok (i * PieceSize) (min ((i + 1) * PieceSize) (t_size ?t)) pm = (pm', Inr x)" ..
  then have "t_ReadRange io_ok (i * PieceSize) (min ((i + 1) * PieceSize) (t_size ?t)) ?t = (?t\<lparr>t_pm := Some pm'\<rparr>, Inr x)"
    using x(1) by (simp add: t_ReadRange_def)
  with x(3) show ?thesis by blast
qed

end
