(* ===== verification/Session_Properties.thy ===== *)
theory Session_Properties
  imports Session_Run
begin

text \<open>
  What a downloading session guarantees, and a run of one file of three bytes from the first
  request to the verified piece, on which the guarantees are tried out.
\<close>

section \<open>A small download\<close>


definition demo_bytes :: bytes where "demo_bytes = [1, 2, 3]"

abbreviation demo_block :: PieceBlock where "demo_block \<equiv> NewPieceBlock 0 0"

definition demo_picker0 :: PiecePicker where
  "demo_picker0 = \<lparr>pp_pieceCount = 1, pp_blocksInLastPiece = 1, pp_pieceStatus = [PieceNone], pp_downloadingPieces = []\<rparr>"

definition demo_in :: "DownloadingBlock \<Rightarrow> PiecePicker" where
  "demo_in b = demo_picker0\<lparr>pp_pieceStatus := [PieceDownloading],
     pp_downloadingPieces := [\<lparr>dp_PieceIndex = 0, dp_blocksCount = 1, dp_Blocks = [b]\<rparr>]\<rparr>"

definition demo_asked :: DownloadingBlock where
  "demo_asked = db_Request None PeerSpeedSlow zero_block"

definition demo_done :: PiecePicker where
  "demo_done = demo_picker0\<lparr>pp_pieceStatus := [PieceHave]\<rparr>"

lemma demo_picks:
  "PickPiecesWithAvailability None PeerSpeedSlow None 1 demo_picker0 = (demo_in demo_asked, [demo_block])"
  "IsPieceFinished 0 (demo_in demo_asked) = Some False"
  "IsPieceFinished 0 (demo_in (db_Write demo_asked)) = Some True"
  "MarkAsWriting demo_block (demo_in demo_asked) = Some (demo_in (db_Write demo_asked), True)"
  "MarkAsWriting demo_block (demo_in (db_Write demo_asked)) = Some (demo_in (db_Write demo_asked), False)"
  "MarkAsFinished demo_block (demo_in (db_Write demo_asked)) = Some (demo_in (db_Finish (db_Write demo_asked)), True)"
  "WeHave 0 (demo_in (db_Finish (db_Write demo_asked))) = Some demo_done"
  "HavePiece 0 (demo_in (db_Write demo_asked)) = Some False"
  "HavePiece 0 (demo_in (db_Finish (db_Write demo_asked))) = Some False"
  "HavePiece 0 demo_done = Some True"
  by code_simp+

lemma demo_total: "TotalPieces (demo_in b) = 1" 
  by (simp add: TotalPieces_def demo_in_def)

definition demo_transfer :: Transfer where
  "demo_transfer = \<lparr>t_hash = [], t_createTime = 0, t_size = 3, t_numPieces = 1, t_filePath = ''f'',
     t_stat = NewStatistics, t_closedStat = NewStatistics, t_picker = demo_picker0, t_policy = NewPolicy,
     t_pm = Some (NewPieceManager (NewDesktopFileHandler ''f'' None) 1 1), t_hashSet = [md4Sum demo_bytes],
     t_pause = False, t_abort = False, t_needSaveResumeData = True, t_state = Downloading, t_connections = [],
     t_nextSourcesRequest = 0, t_nextDHTRequest = 0, t_speedMon = NewSpeedMonitor 30, t_pendingResumeIO = 0,
     t_uploadPriority = UploadPriorityNormal, t_pendingPieceHashes = {}\<rparr>"

definition demo_params :: AddTransferParams where
  "demo_params = \<lparr>atp_Hash = [], atp_CreateTime = 0, atp_Size = 3, atp_FilePath = ''f'', atp_Paused = False,
     atp_ResumeData = None, atp_Handler = None\<rparr>"

lemma demo_sizes: "DivCeil 3 PieceSize = 1" "DivCeil 3 BlockSize = 1" "go_rem 3 PieceSize = 3"
  by (simp_all add: DivCeil_def go_div_def go_rem_def geometry_constants)

lemma demo_new: "new_transfer demo_transfer"
  unfolding new_transfer_def
  by (rule exI [of _ None], rule exI [of _ "\<lambda>_. 0"], rule exI [of _ demo_params], rule exI [of _ "[md4Sum demo_bytes]"])
    (simp add: demo_params_def demo_transfer_def NewTransfer_def demo_sizes NewPiecePicker_def SetHashSet_def
      hash_Equal_def demo_picker0_def Let_def)

definition demo_store :: "BlockManager list \<Rightarrow> PieceManager" where
  "demo_store ms = \<lparr>pm_pieceCount = 1, pm_blocksInLastPiece = 1,
     pm_handler = (NewDesktopFileHandler ''f'' None)\<lparr>fh_disk := Some demo_bytes, fh_open := True\<rparr>, pm_blockMgrs = ms\<rparr>"

definition demo_manager :: BlockManager where
  "demo_manager = \<lparr>bm_piece = 0, bm_lastHashedBlock = 0, bm_buffers = [None], bm_hashed = demo_bytes, bm_pieceHash = None\<rparr>"

lemma demo_write: "WriteBlock io_ok demo_block demo_bytes (NewPieceManager (NewDesktopFileHandler ''f'' None) 1 1) =
    Some (demo_store [demo_manager], Inr [demo_bytes])"
  by (simp add: WriteBlock_def demo_store_def demo_manager_def io_ok_def fh_File_def NewPieceManager_def
      NewDesktopFileHandler_def pm_register_def getBlockManager_def find_bm_def NewBlockManager_def BlocksInPiece_def
      RegisterBlock_def upd_def BlocksOffset_def NewPieceBlock_def write_at_def fh_content_def Let_def demo_bytes_def)

lemma demo_hash: "HashPiece 0 (demo_store [demo_manager]) = (demo_store [], md4Sum demo_bytes)"
  by (simp add: HashPiece_def demo_store_def demo_manager_def getBlockManager_def find_bm_def PieceHash_def HashFromData_md4 Let_def)

definition demo_session :: "Transfer \<Rightarrow> nat \<Rightarrow> (nat \<times> disk_call) list \<Rightarrow> DiskSession" where
  "demo_session t n q = \<lparr>ds_diskTasks = map (\<lambda>(i, c). \<lparr>dt_id = i, dt_callable = c, dt_transfer = 0, dt_running = False\<rparr>) q,
     ds_diskResults = [], ds_workers = [], ds_fresh = n, ds_transfers = (\<lambda>_. demo_transfer)(0 := t), ds_log = []\<rparr>"

lemma demo_begin: "running (demo_session demo_transfer 0 [])"
  by (rule begin_session) (simp_all add: idle_def demo_session_def demo_new)

lemma demo_step:
  "running s \<Longrightarrow> session_step s (with_transfer k te s) \<Longrightarrow> with_transfer k te s = s' \<Longrightarrow> running s'"
  using go_on by blast

lemma demo_task:
  assumes s: "running s" "ds_diskTasks s \<noteq> []" "\<not> dt_running (hd (ds_diskTasks s))"
    and w: "worker_done io_ok 0 (start_next s) = Some s1" and r: "take_result s1 = Some s2"
  shows "running s2"
proof -
  obtain t ts where "ds_diskTasks s = t # ts" "\<not> dt_running t" using s(2,3) by (cases "ds_diskTasks s") auto
  from go_on [OF s(1) disk [OF disk_step.start [OF this]]] have "running (start_next s)" .
  from go_on [OF this disk [OF disk_step.work [OF refl w]]] have "running s1" .
  from go_on [OF this disk [OF disk_step.result [OF r]]] show ?thesis .
qed

lemma demo_session_transfer: "with_transfer 0 (t', []) (demo_session t n q) = demo_session t' n q"
  "ds_transfers (demo_session t n q) 0 = t"
  by (simp_all add: with_transfer_def demo_session_def)

lemma demo_requested: "running (demo_session (demo_transfer\<lparr>t_picker := demo_in demo_asked\<rparr>) 0 [])"
proof (rule demo_step [OF demo_begin])
  show "session_step (demo_session demo_transfer 0 [])
      (with_transfer 0 ((ds_transfers (demo_session demo_transfer 0 []) 0)\<lparr>t_picker := demo_in demo_asked\<rparr>, [])
        (demo_session demo_transfer 0 []))"
    by (rule requested [of None PeerSpeedSlow None 1])
      (use demo_picks(1) in \<open>simp add: demo_session_transfer demo_transfer_def\<close>)
qed (simp add: demo_session_transfer)

definition demo_pending :: Transfer where
  "demo_pending = demo_transfer\<lparr>t_picker := demo_in (db_Write demo_asked), t_pendingPieceHashes := {0}\<rparr>"

lemma demo_block_received:
  "block_received demo_block demo_bytes (demo_transfer\<lparr>t_picker := demo_in demo_asked\<rparr>) =
     Some (demo_pending, [SubmitTask (AsyncWrite demo_block demo_bytes), SubmitTask (AsyncHash 0)])"
  by (simp add: block_received_def demo_picks NewPieceBlock_sel QueuePieceHash_def demo_total demo_pending_def)
    (simp add: demo_transfer_def)

lemma demo_received:
  "running (demo_session demo_pending 2 [(0, AsyncWrite demo_block demo_bytes), (1, AsyncHash 0)])"
proof (rule demo_step [OF demo_requested received])
  show "block_received demo_block demo_bytes
      (ds_transfers (demo_session (demo_transfer\<lparr>t_picker := demo_in demo_asked\<rparr>) 0 []) 0) =
    Some (demo_pending, [SubmitTask (AsyncWrite demo_block demo_bytes), SubmitTask (AsyncHash 0)])"
    by (simp add: demo_session_transfer demo_block_received)
  show "int (length demo_bytes) = pb_Size demo_block
      (t_size (ds_transfers (demo_session (demo_transfer\<lparr>t_picker := demo_in demo_asked\<rparr>) 0 []) 0))"
    by (simp add: demo_session_transfer demo_bytes_def demo_transfer_def pb_Size_def pb_Range_def MakeRange_def
        NewPieceBlock_def geometry_constants Let_def)
qed (simp add: with_transfer_def demo_session_def SubmitDiskTask_def)

definition demo_stored :: Transfer where
  "demo_stored = demo_pending\<lparr>t_pm := Some (demo_store [demo_manager]),
     t_picker := demo_in (db_Finish (db_Write demo_asked))\<rparr>"

lemma demo_written: "running (demo_session demo_stored 2 [(1, AsyncHash 0)])"
proof (rule demo_task [OF demo_received])
  have "t_picker demo_pending = demo_in (db_Write demo_asked)" "t_pendingPieceHashes demo_pending = {0}"
    by (simp_all add: demo_pending_def)
  then have oc: "OnCompleted (AsyncWriteResult demo_block [demo_bytes] NoError)
      (demo_pending\<lparr>t_pm := Some (demo_store [demo_manager])\<rparr>) = Some (demo_stored, [])"
    by (simp add: OnCompleted_def OnBlockWriteCompleted_def demo_picks NewPieceBlock_sel QueuePieceHash_def
        demo_total demo_stored_def) (simp add: demo_pending_def demo_transfer_def)
  let ?s = "demo_session demo_pending 2 [(0, AsyncWrite demo_block demo_bytes), (1, AsyncHash 0)]"
  show "worker_done io_ok 0 (start_next ?s) = Some (?s
    \<lparr>ds_diskTasks := [\<lparr>dt_id = 0, dt_callable = AsyncWrite demo_block demo_bytes, dt_transfer = 0, dt_running = True\<rparr>,
       \<lparr>dt_id = 1, dt_callable = AsyncHash 0, dt_transfer = 0, dt_running = False\<rparr>],
     ds_diskResults := [(0, AsyncWriteResult demo_block [demo_bytes] NoError)],
     ds_transfers := (\<lambda>_. demo_transfer)(0 := demo_pending\<lparr>t_pm := Some (demo_store [demo_manager])\<rparr>)\<rparr>)"
    by (simp add: worker_done_def start_next_def demo_session_def disk_Call_def Let_def)
      (simp add: demo_pending_def demo_transfer_def demo_write)
  show "take_result (?s
    \<lparr>ds_diskTasks := [\<lparr>dt_id = 0, dt_callable = AsyncWrite demo_block demo_bytes, dt_transfer = 0, dt_running = True\<rparr>,
       \<lparr>dt_id = 1, dt_callable = AsyncHash 0, dt_transfer = 0, dt_running = False\<rparr>],
     ds_diskResults := [(0, AsyncWriteResult demo_block [demo_bytes] NoError)],
     ds_transfers := (\<lambda>_. demo_transfer)(0 := demo_pending\<lparr>t_pm := Some (demo_store [demo_manager])\<rparr>)\<rparr>) =
    Some (demo_session demo_stored 2 [(1, AsyncHash 0)])"
    by (simp add: take_result_def oc with_transfer_def demo_session_def)
qed (simp_all add: demo_session_def)

definition demo_end :: Transfer where
  "demo_end = demo_stored\<lparr>t_pm := Some (demo_store []), t_pendingPieceHashes := {}, t_picker := demo_done,
     t_state := Finished\<rparr>"

lemma demo_verified:
  "\<exists>s. running s \<and> ds_transfers s 0 = demo_end"
proof -
  let ?s = "demo_session demo_stored 2 [(1, AsyncHash 0)]"
  let ?t = "demo_stored\<lparr>t_pm := Some (demo_store [])\<rparr>"
  have pm: "t_pm demo_stored = Some (demo_store [demo_manager])" by (simp add: demo_stored_def)
  have w: "worker_done io_ok 0 (start_next ?s) = Some (?s
    \<lparr>ds_diskTasks := [\<lparr>dt_id = 1, dt_callable = AsyncHash 0, dt_transfer = 0, dt_running = True\<rparr>],
     ds_diskResults := [(1, AsyncHashResult 0 (md4Sum demo_bytes))],
     ds_transfers := (\<lambda>_. demo_transfer)(0 := ?t)\<rparr>)"
    by (simp add: worker_done_def start_next_def demo_session_def disk_Call_def Let_def pm demo_hash)
  have p: "t_picker demo_stored = demo_in (db_Finish (db_Write demo_asked))" "t_hashSet demo_stored = [md4Sum demo_bytes]"
    "t_numPieces demo_stored = 1" "t_connections demo_stored = []"
    by (simp_all add: demo_stored_def demo_pending_def demo_transfer_def)
  have "OnCompleted (AsyncHashResult 0 (md4Sum demo_bytes)) ?t =
      Some (demo_end, [SubmitTask (AsyncRelease False), PublishToServer])"
    by (simp add: OnCompleted_def OnPieceHashCompleted_def p idx_def hash_Equal_def t_WeHave_def demo_picks(7)
        t_IsFinished_def demo_done_def demo_picker0_def NumHave_def TotalPieces_def t_finished_def drop_connections_def
        Let_def)
      (simp add: demo_end_def demo_stored_def demo_pending_def demo_transfer_def demo_done_def demo_picker0_def)
  then have r: "take_result (?s
    \<lparr>ds_diskTasks := [\<lparr>dt_id = 1, dt_callable = AsyncHash 0, dt_transfer = 0, dt_running = True\<rparr>],
     ds_diskResults := [(1, AsyncHashResult 0 (md4Sum demo_bytes))],
     ds_transfers := (\<lambda>_. demo_transfer)(0 := ?t)\<rparr>) =
    Some (with_transfer 0 (demo_end, [SubmitTask (AsyncRelease False), PublishToServer])
      (demo_session ?t 2 []))"
    by (simp add: take_result_def demo_session_def)
  have "running (with_transfer 0 (demo_end, [SubmitTask (AsyncRelease False), PublishToServer]) (demo_session ?t 2 []))"
    by (rule demo_task [OF demo_written _ _ w r]) (simp_all add: demo_session_def)
  moreover have "ds_transfers (with_transfer 0 (demo_end, [SubmitTask (AsyncRelease False), PublishToServer])
      (demo_session ?t 2 [])) 0 = demo_end"
    by (simp add: with_transfer_def demo_session_def SubmitDiskTask_def)
  ultimately show ?thesis by blast
qed

lemma demo_tasks_run:
  "tasks_run (with_transfer 0 (demo_pending, [SubmitTask (AsyncWrite demo_block demo_bytes)]) (demo_session demo_transfer 0 []))"
  by (rule submit, rule begin_tasks) (simp add: idle_def demo_session_def)

section \<open>Properties\<close>

text \<open>C1: a piece that a transfer claims to have can be read from its file, and its digest is the one the
  hash set has for it, in any interleaving of requests, received blocks with any bytes, pauses, removals of
  other transfers and disk goroutines. The session downloads files from scratch (no resume data) whose size is
  not a multiple of the piece size, with a hash set that is not empty; the disk works; a request is given up
  only before its block was delivered; and a received block has the length of the block, which the code does
  not check for the decompressed bytes of a compressed part. Pieces beyond the end of the hash set are
  never compared with anything and are left out.\<close>

theorem verified_pieces:
  assumes "running s" and "\<not> t_abort (ds_transfers s k)"
    and "HavePiece i (t_picker (ds_transfers s k)) = Some True"
    and "i < int (length (t_hashSet (ds_transfers s k)))"
  shows "\<exists>t' x. t_ReadRange io_ok (i * PieceSize) (min ((i + 1) * PieceSize) (t_size (ds_transfers s k)))
      (ds_transfers s k) = (t', Inr x) \<and> md4Sum x = t_hashSet (ds_transfers s k) ! nat i"
  by (rule verified_read [OF session_okD(2) [OF running_ok [OF assms(1)] assms(2)] assms(3,4)])

theorem verified_pieces_witness:
  "\<exists>t' x. t_ReadRange io_ok (0 * PieceSize) (min ((0 + 1) * PieceSize) 3) demo_end = (t', Inr x) \<and>
     md4Sum x = md4Sum demo_bytes"
proof -
  obtain s where s: "running s" "ds_transfers s 0 = demo_end" using demo_verified by blast
  have t: "\<not> t_abort demo_end" "t_picker demo_end = demo_done" "t_hashSet demo_end = [md4Sum demo_bytes]" "t_size demo_end = 3"
    by (simp_all add: demo_end_def demo_stored_def demo_pending_def demo_transfer_def)
  then show ?thesis using verified_pieces [OF s(1), of 0 0] demo_picks(10) by (simp add: s(2))
qed

text \<open>C2: from every state of such a session (as in C1) without removed transfers the disk queue can be worked
  off. However it is worked off, each piece whose blocks were all delivered can then be read from the file,
  and it counts as there if its digest is the one of the hash set; otherwise it is not started, and so
  asked for again. No piece is left whose blocks are all there and that was not decided on.\<close>

theorem downloaded_pieces_verified:
  assumes "running s" and "\<forall>k. \<not> t_abort (ds_transfers s k)"
  shows "(\<exists>s'. (disk_step works)\<^sup>*\<^sup>* s s' \<and> idle s') \<and>
    (\<forall>s' k i. (disk_step works)\<^sup>*\<^sup>* s s' \<and> idle s' \<and> i < int (length (t_hashSet (ds_transfers s k))) \<and>
       IsPieceFinished i (t_picker (ds_transfers s k)) = Some True \<longrightarrow>
       (\<exists>t x. t_ReadRange io_ok (i * PieceSize) (min ((i + 1) * PieceSize) (t_size (ds_transfers s k)))
            (ds_transfers s' k) = (t, Inr x) \<and>
          idx (pp_pieceStatus (t_picker (ds_transfers s' k))) i =
            Some (if md4Sum x = t_hashSet (ds_transfers s k) ! nat i then PieceHave else PieceNone))) \<and>
    (\<forall>s' k i. (disk_step works)\<^sup>*\<^sup>* s s' \<and> idle s' \<and> IsPieceFinished i (t_picker (ds_transfers s' k)) = Some True \<longrightarrow>
       HavePiece i (t_picker (ds_transfers s' k)) = Some True)"
proof (intro conjI allI impI)
  note ok = running_ok [OF assms(1)]
  from queue_drains [OF ok running_fit [OF assms(1)] assms(2)] empty_queue_idle
  show "\<exists>s'. (disk_step works)\<^sup>*\<^sup>* s s' \<and> idle s'" by blast
  fix s' k i
  { assume a: "(disk_step works)\<^sup>*\<^sup>* s s' \<and> idle s' \<and> i < int (length (t_hashSet (ds_transfers s k))) \<and>
       IsPieceFinished i (t_picker (ds_transfers s k)) = Some True"
    have na: "\<not> t_abort (ds_transfers s k)" using assms(2) by blast
    have "judged i (ds_transfers s k)" using judged_begin [OF session_okD(2) [OF ok na]] a by blast
    from disk_steps_judged [OF a [THEN conjunct1] ok na this]
    have d: "session_ok s'" "\<not> t_abort (ds_transfers s' k)" "judged i (ds_transfers s' k)"
      "t_hashSet (ds_transfers s' k) = t_hashSet (ds_transfers s k)" "t_size (ds_transfers s' k) = t_size (ds_transfers s k)"
      by simp_all
    from judged_idle [OF d(1) _ d(2,3)] a show
      "\<exists>t x. t_ReadRange io_ok (i * PieceSize) (min ((i + 1) * PieceSize) (t_size (ds_transfers s k)))
            (ds_transfers s' k) = (t, Inr x) \<and>
          idx (pp_pieceStatus (t_picker (ds_transfers s' k))) i =
            Some (if md4Sum x = t_hashSet (ds_transfers s k) ! nat i then PieceHave else PieceNone)"
      unfolding d(4,5) pst_def by (elim conjE) }
  assume a: "(disk_step works)\<^sup>*\<^sup>* s s' \<and> idle s' \<and> IsPieceFinished i (t_picker (ds_transfers s' k)) = Some True"
  then have "session_ok s'" "\<not> t_abort (ds_transfers s' k)"
    using disk_steps_ok [of s s'] ok running_fit [OF assms(1)] assms(2) by blast+
  with a show "HavePiece i (t_picker (ds_transfers s' k)) = Some True"
    using session_okD(2) [of s' k] idle_queue [of s' k] by (auto intro: no_tasks_verified)
qed

theorem downloaded_pieces_verified_witness:
  "\<exists>s' t x. (disk_step works)\<^sup>*\<^sup>* (demo_session demo_pending 2 [(0, AsyncWrite demo_block demo_bytes), (1, AsyncHash 0)]) s' \<and>
     idle s' \<and> t_ReadRange io_ok (0 * PieceSize) (min ((0 + 1) * PieceSize) 3) (ds_transfers s' 0) = (t, Inr x) \<and>
     idx (pp_pieceStatus (t_picker (ds_transfers s' 0))) 0 = Some (if md4Sum x = md4Sum demo_bytes then PieceHave else PieceNone)"
proof -
  let ?s = "demo_session demo_pending 2 [(0, AsyncWrite demo_block demo_bytes), (1, AsyncHash 0)]"
  have t: "ds_transfers ?s 0 = demo_pending" "t_hashSet demo_pending = [md4Sum demo_bytes]" "t_size demo_pending = 3"
    "IsPieceFinished 0 (t_picker demo_pending) = Some True"
    using demo_picks(3) by (simp_all add: demo_session_def demo_pending_def demo_transfer_def)
  have na: "\<forall>k. \<not> t_abort (ds_transfers ?s k)" by (simp add: demo_session_def demo_pending_def demo_transfer_def)
  note runs = downloaded_pieces_verified [OF demo_received na]
  from runs [THEN conjunct1] obtain s' where s': "(disk_step works)\<^sup>*\<^sup>* ?s s'" "idle s'" by (elim exE conjE)
  have "\<exists>t x. t_ReadRange io_ok (0 * PieceSize) (min ((0 + 1) * PieceSize) (t_size (ds_transfers ?s 0)))
      (ds_transfers s' 0) = (t, Inr x) \<and> idx (pp_pieceStatus (t_picker (ds_transfers s' 0))) 0 =
        Some (if md4Sum x = t_hashSet (ds_transfers ?s 0) ! nat 0 then PieceHave else PieceNone)"
    by (rule runs [THEN conjunct2, THEN conjunct1, rule_format]) (use s' t in simp)
  then obtain t x where "t_ReadRange io_ok (0 * PieceSize) (min ((0 + 1) * PieceSize) 3) (ds_transfers s' 0) = (t, Inr x)"
      "idx (pp_pieceStatus (t_picker (ds_transfers s' 0))) 0 = Some (if md4Sum x = md4Sum demo_bytes then PieceHave else PieceNone)"
    unfolding t nat_0 nth_Cons_0 by (elim exE conjE)
  with s' show ?thesis by (intro exI conjI)
qed

text \<open>C7: the disk queue never works for ever: from every state that any use of the queue leads to, on
  a disk that may fail in any way, only finitely many disk steps can follow each other.\<close>

theorem disk_queue_terminates:
  assumes "tasks_run s"
  shows "\<not> (\<exists>f. f 0 = s \<and> (\<forall>n. disk_step (\<lambda>io. True) (f n) (f (Suc n))))"
proof
  assume "\<exists>f. f 0 = s \<and> (\<forall>n. disk_step (\<lambda>io. True) (f n) (f (Suc n)))"
  then obtain f where f: "f 0 = s" "\<And>n. disk_step (\<lambda>io. True) (f n) (f (Suc n))" by blast
  have fit: "results_fit (f n)" for n
    by (induction n) (use f tasks_run_fit [OF assms] disk_step_pending in auto)
  have "pending (f n) + n \<le> pending (f 0)" for n
  proof (induction n)
    case (Suc n)
    then show ?case using disk_step_pending [OF f(2) fit, of n] by simp
  qed simp
  from this [of "Suc (pending (f 0))"] show False by simp
qed

theorem disk_queue_terminates_witness:
  "\<not> (\<exists>f. f 0 = with_transfer 0 (demo_pending, [SubmitTask (AsyncWrite demo_block demo_bytes)]) (demo_session demo_transfer 0 []) \<and>
     (\<forall>n. disk_step (\<lambda>io. True) (f n) (f (Suc n))))"
  by (rule disk_queue_terminates [OF demo_tasks_run])

text \<open>C6: the queue of disk tasks implements a server that works on one task at a time, in the order of
  submission: each step of it is invisible or a step of that server - the call of the first task, or its
  completion with the result of that call - and there is never a second goroutine, provided
  \<open>RemoveDiskTask\<close>, which the program never calls, is not called for a transfer whose task is running.\<close>

theorem disk_queue_serves:
  assumes "tasks_run s" and "disk_step may s s'"
  shows "(served s' = served s \<or> serves (served s) (served s')) \<and> length (ds_workers s') \<le> 1"
  using disk_step_serves [OF assms(2) tasks_run_fit [OF assms(1)]]
    one_worker disk_step_pending [OF assms(2) tasks_run_fit [OF assms(1)]] by blast

theorem disk_queue_serves_witness:
  "\<exists>s s'. ds_diskTasks s \<noteq> [] \<and> disk_step works s s' \<and>
     (served s' = served s \<or> serves (served s) (served s')) \<and> length (ds_workers s') \<le> 1"
proof -
  let ?s = "with_transfer 0 (demo_pending, [SubmitTask (AsyncWrite demo_block demo_bytes)]) (demo_session demo_transfer 0 [])"
  have q: "ds_diskTasks ?s = [\<lparr>dt_id = 0, dt_callable = AsyncWrite demo_block demo_bytes, dt_transfer = 0, dt_running = False\<rparr>]"
    by (simp add: with_transfer_def demo_session_def SubmitDiskTask_def)
  have "disk_step works ?s (start_next ?s)" by (rule disk_step.start [OF q]) simp
  with disk_queue_serves [OF demo_tasks_run this] q show ?thesis by (intro exI [of _ ?s] exI [of _ "start_next ?s"]) simp
qed

text \<open>C38: a new transfer has the pieces that its size needs, and cuts them into the blocks of the file unless
  the size is a multiple of the piece size: then the last piece has one block instead of fifty.\<close>

theorem new_transfer_cut:
  assumes new: "NewTransfer file rnd atp = Some (t, effs)" and size: "0 < atp_Size atp" and "atp_ResumeData atp = None"
  defines "n \<equiv> pp_pieceCount (t_picker t)" and "blast \<equiv> pp_blocksInLastPiece (t_picker t)"
  shows "(i < n \<longleftrightarrow> i * PieceSize < atp_Size atp) \<and>
    (enumerates (atp_Size atp) n blast \<longleftrightarrow> go_rem (atp_Size atp) PieceSize \<noteq> 0) \<and>
    (go_rem (atp_Size atp) PieceSize = 0 \<longrightarrow> blast = 1)"
proof -
  define m where "m = DivCeil (atp_Size atp) PieceSize"
  define b where "b = DivCeil (go_rem (atp_Size atp) PieceSize) BlockSize"
  note cut = cut_exact [OF size, folded m_def b_def]
  have "n = m" "blast = (if b = 0 then 1 else b)"
    using new assms(3) unfolding NewTransfer_def Let_def m_def [symmetric] b_def [symmetric] n_def blast_def
    by (auto simp: NewPiecePicker_def split: if_splits option.splits)
  moreover have "b = 0" if "go_rem (atp_Size atp) PieceSize = 0"
    using that by (simp add: b_def DivCeil_def go_div_def BlockSize_eq)
  ultimately show ?thesis using cut(1,2) by simp
qed

theorem new_transfer_cut_witness:
  "pp_blocksInLastPiece (t_picker (fst (the (NewTransfer None (\<lambda>_. 0) (demo_params\<lparr>atp_Size := 19456000\<rparr>))))) = 1"
proof -
  have "\<exists>t. NewTransfer None (\<lambda>_. 0) (demo_params\<lparr>atp_Size := 19456000\<rparr>) = Some (t, [])"
    by (simp add: NewTransfer_def demo_params_def DivCeil_def go_div_def geometry_constants NewPiecePicker_def Let_def)
  then obtain t where t: "NewTransfer None (\<lambda>_. 0) (demo_params\<lparr>atp_Size := 19456000\<rparr>) = Some (t, [])" ..
  have "pp_blocksInLastPiece (t_picker t) = 1"
    using new_transfer_cut [OF t] by (simp add: demo_params_def go_rem_def PieceSize_eq)
  with t show ?thesis by simp
qed

end
