(* ===== verification/Kad_Packets.thy ===== *)
theory Kad_Packets
  imports Tags Endpoints Three_Way
begin

unbundle bit_operations_syntax

text \<open>
  The Kademlia wire format (\<^verbatim>\<open>protocol/kad/types.go\<close>, \<^verbatim>\<open>protocol/kad/packets.go\<close>) with
  its dispatch on opcodes (\<^verbatim>\<open>protocol/kad/packet_combiner.go\<close>), the \<^verbatim>\<open>nodes.dat\<close> file,
  and the XOR metric, which is an instance of \<open>three_way\<close> for every target.
\<close>

section \<open>Identifiers\<close>

text \<open>An identifier travels as four little-endian words: each group of four bytes is reversed.\<close>

definition id_slot :: "nat \<Rightarrow> nat" where
  "id_slot i = (i div 4) * 4 + 3 - (i mod 4)"

definition get_ID :: "hash reader" where
  "get_ID =
     rbind (readBytes 16) (\<lambda>raw src.
       (case HashFromBytes (fold (\<lambda>i buf. buf[id_slot i := raw ! i]) [0..<length raw] (replicate 16 0)) of
          Inl e \<Rightarrow> Inl e
        | Inr h \<Rightarrow> Inr (h, src)))"

definition put_ID :: "hash \<Rightarrow> bytes" where
  "put_ID h = map (\<lambda>i. h ! id_slot i) [0..<length h]"

lemma id_slot_split: "r < 4 \<Longrightarrow> id_slot (4 * q + r) = 4 * q + (3 - r)"
  by (simp add: id_slot_def)

lemma id_slot_invol: "id_slot (id_slot i) = i"
proof -
  define q r where "q = i div 4" and "r = i mod 4"
  have r: "r < 4" and i: "i = 4 * q + r" by (simp_all add: q_def r_def)
  have "id_slot (id_slot i) = id_slot (4 * q + (3 - r))"
    unfolding i by (simp only: id_slot_split [OF r])
  also have "\<dots> = 4 * q + (3 - (3 - r))" by (rule id_slot_split) simp
  finally show ?thesis using r i by simp
qed

lemma id_slot_less: "i < 16 \<Longrightarrow> id_slot i < 16"
proof -
  assume "i < 16"
  then have "i div 4 < 4" by (simp add: div_less_iff_less_mult)
  then show ?thesis by (simp add: id_slot_def)
qed

lemma swap_loop:
  assumes "length buf = 16" and "n \<le> 16"
  shows "length (fold (\<lambda>i buf. buf[id_slot i := g i]) [0..<n] buf) = 16 \<and>
    (\<forall>j < 16. fold (\<lambda>i buf. buf[id_slot i := g i]) [0..<n] buf ! j =
      (if id_slot j < n then g (id_slot j) else buf ! j))"
  using assms(2)
proof (induction n)
  case 0
  with assms(1) show ?case by simp
next
  case (Suc n)
  have "j = id_slot n \<longleftrightarrow> id_slot j = n" for j using id_slot_invol by metis
  with Suc id_slot_less [of n] show ?case by (auto simp: nth_list_update less_Suc_eq id_slot_invol)
qed

lemma unswap_swap:
  assumes "length h = 16"
  shows "fold (\<lambda>i buf. buf[id_slot i := put_ID h ! i]) [0..<16] (replicate 16 0) = h"
proof (rule nth_equalityI)
  have put: "put_ID h ! i = h ! id_slot i" if "i < 16" for i
    using that assms by (simp add: put_ID_def)
  note loop = swap_loop [of "replicate 16 0" 16 "\<lambda>i. put_ID h ! i"]
  show "length (fold (\<lambda>i buf. buf[id_slot i := put_ID h ! i]) [0..<16] (replicate 16 0)) = length h"
    using loop assms by simp
  fix j
  assume "j < length (fold (\<lambda>i buf. buf[id_slot i := put_ID h ! i]) [0..<16] (replicate 16 0))"
  then have "j < 16" using loop by simp
  with loop show "fold (\<lambda>i buf. buf[id_slot i := put_ID h ! i]) [0..<16] (replicate 16 0) ! j = h ! j"
    using put id_slot_less id_slot_invol by simp
qed

lemma length_put_ID: "length (put_ID h) = length h"
  by (simp add: put_ID_def)

interpretation id_codec: sized_codec get_ID put_ID wf_hash "\<lambda>_. 16"
  by unfold_locales
    (simp_all add: get_ID_def wf_hash_def HashFromBytes_def hashSize_def codec_step length_put_ID unswap_swap)

section \<open>Contacts\<close>

record KadEndpoint =
  ke_IP :: u32
  ke_UDPPort :: u16
  ke_TCPPort :: u16

definition get_KadEndpoint :: "KadEndpoint reader" where
  "get_KadEndpoint =
     rbind ReadUInt32 (\<lambda>iP.
     rbind readUInt16 (\<lambda>uDPPort.
     rbind readUInt16 (\<lambda>tCPPort.
       rreturn \<lparr>ke_IP = iP, ke_UDPPort = uDPPort, ke_TCPPort = tCPPort\<rparr>)))"

definition put_KadEndpoint :: "KadEndpoint \<Rightarrow> bytes" where
  "put_KadEndpoint x =
     writeUInt32 (ke_IP x) @ writeUInt16 (ke_UDPPort x) @ writeUInt16 (ke_TCPPort x)"

definition bytesCount_KadEndpoint :: "KadEndpoint \<Rightarrow> nat" where
  "bytesCount_KadEndpoint x = 8"

definition wf_KadEndpoint :: "KadEndpoint \<Rightarrow> bool" where
  "wf_KadEndpoint x \<longleftrightarrow> True"

interpretation KadEndpoint_codec:
  sized_codec get_KadEndpoint put_KadEndpoint wf_KadEndpoint bytesCount_KadEndpoint
  by unfold_locales
    (simp_all add: get_KadEndpoint_def put_KadEndpoint_def wf_KadEndpoint_def
      bytesCount_KadEndpoint_def codec_step codec_len)

definition ke_ED2K :: "KadEndpoint \<Rightarrow> Endpoint" where
  "ke_ED2K e = NewEndpoint (ke_IP e) (uint (ke_TCPPort e))"

text \<open>Whether a contact was verified is not on the wire.\<close>

record KadEntry =
  ken_ID :: hash
  ken_Endpoint :: KadEndpoint
  ken_Version :: u8
  ken_Verified :: bool

definition get_KadEntry :: "KadEntry reader" where
  "get_KadEntry =
     rbind get_ID (\<lambda>i.
     rbind get_KadEndpoint (\<lambda>endpoint.
     rbind readByte (\<lambda>version.
       rreturn \<lparr>ken_ID = i, ken_Endpoint = endpoint, ken_Version = version, ken_Verified = False\<rparr>)))"

definition put_KadEntry :: "KadEntry \<Rightarrow> bytes" where
  "put_KadEntry e = put_ID (ken_ID e) @ put_KadEndpoint (ken_Endpoint e) @ writeByte (ken_Version e)"

definition wf_KadEntry :: "KadEntry \<Rightarrow> bool" where
  "wf_KadEntry e \<longleftrightarrow> wf_hash (ken_ID e) \<and> \<not> ken_Verified e"

lemma wf_KadEndpoint [simp]: "wf_KadEndpoint e"
  by (simp add: wf_KadEndpoint_def)

interpretation KadEntry_codec: sized_codec get_KadEntry put_KadEntry wf_KadEntry "\<lambda>_. 25"
  by unfold_locales
    (simp_all add: get_KadEntry_def put_KadEntry_def wf_KadEntry_def bytesCount_KadEndpoint_def
      codec_step codec_len)

section \<open>Tags\<close>

record KadTag =
  kt_Type :: u8
  kt_ID :: u8
  kt_UInt64 :: u64
  kt_String :: bytes

definition kt_string_type :: "u8 \<Rightarrow> bool" where
  "kt_string_type t \<longleftrightarrow> TagTypeStr1 \<le> t \<and> t \<le> TagTypeStr1 + 15"

definition get_kad_value :: "u8 \<Rightarrow> (u64 \<times> bytes) reader" where
  "get_kad_value t =
     (if t = TagTypeUint8 then rbind readByte (\<lambda>v. rreturn (ucast v, []))
      else if t = TagTypeUint16 then rbind readUInt16 (\<lambda>v. rreturn (ucast v, []))
      else if t = TagTypeUint32 then rbind ReadUInt32 (\<lambda>v. rreturn (ucast v, []))
      else if t = TagTypeUint64 then rbind readUInt64 (\<lambda>v. rreturn (v, []))
      else if t = TagTypeString then
        rbind readUInt16 (\<lambda>sz. rbind (readBytes (uint sz)) (\<lambda>v. rreturn (0, v)))
      else if kt_string_type t then
        rbind (readBytes (uint (t - TagTypeStr1) + 1)) (\<lambda>v. rreturn (0, v))
      else rfail (ErrText ''unsupported kad tag type''))"

definition get_KadTag :: "KadTag reader" where
  "get_KadTag =
     rbind readByte (\<lambda>tagType.
       if tagType AND 0x80 = 0 then rfail (ErrText ''kad tag without id is unsupported'')
       else rbind readByte (\<lambda>tagID.
            rbind (get_kad_value (tagType AND 0x7f)) (\<lambda>(v, s).
              rreturn \<lparr>kt_Type = tagType AND 0x7f, kt_ID = tagID, kt_UInt64 = v, kt_String = s\<rparr>)))"

text \<open>The error of \<open>Put\<close>, and what it writes when there is none.\<close>

definition kt_error :: "KadTag \<Rightarrow> go_error option" where
  "kt_error t =
     (if kt_Type t \<in> {TagTypeUint8, TagTypeUint16, TagTypeUint32, TagTypeUint64, TagTypeString} \<or>
         kt_string_type (kt_Type t)
      then None else Some (ErrText ''unsupported kad tag type''))"

definition put_kad_value :: "KadTag \<Rightarrow> bytes" where
  "put_kad_value t =
     (if kt_Type t = TagTypeUint8 then writeByte (ucast (kt_UInt64 t))
      else if kt_Type t = TagTypeUint16 then writeUInt16 (ucast (kt_UInt64 t))
      else if kt_Type t = TagTypeUint32 then writeUInt32 (ucast (kt_UInt64 t))
      else if kt_Type t = TagTypeUint64 then writeUInt64 (kt_UInt64 t)
      else if kt_Type t = TagTypeString then writeUInt16 (of_nat (length (kt_String t))) @ kt_String t
      else kt_String t)"

definition put_KadTag :: "KadTag \<Rightarrow> bytes" where
  "put_KadTag t = writeByte (kt_Type t OR 0x80) @ writeByte (kt_ID t) @ put_kad_value t"

definition wf_kad_value :: "KadTag \<Rightarrow> bool" where
  "wf_kad_value t \<longleftrightarrow>
     (if kt_Type t = TagTypeUint8 then kt_UInt64 t < 256 \<and> kt_String t = []
      else if kt_Type t = TagTypeUint16 then kt_UInt64 t < 65536 \<and> kt_String t = []
      else if kt_Type t = TagTypeUint32 then kt_UInt64 t < 4294967296 \<and> kt_String t = []
      else if kt_Type t = TagTypeUint64 then kt_String t = []
      else kt_UInt64 t = 0 \<and>
        (if kt_Type t = TagTypeString then length (kt_String t) < 65536
         else kt_string_type (kt_Type t) \<and>
           int (length (kt_String t)) = uint (kt_Type t - TagTypeStr1) + 1))"

definition wf_KadTag :: "KadTag \<Rightarrow> bool" where
  "wf_KadTag t \<longleftrightarrow> kt_Type t AND 0x7f = kt_Type t \<and> wf_kad_value t"

lemma get_put_kad_value:
  assumes wf: "wf_kad_value t" and small: "small (put_kad_value t @ rest)"
  shows "get_kad_value (kt_Type t) (put_kad_value t @ rest) = Inr ((kt_UInt64 t, kt_String t), rest)"
proof -
  consider "kt_Type t = TagTypeUint8" | "kt_Type t = TagTypeUint16" | "kt_Type t = TagTypeUint32"
    | "kt_Type t = TagTypeUint64" | "kt_Type t = TagTypeString"
    | "kt_Type t \<notin> {TagTypeUint8, TagTypeUint16, TagTypeUint32, TagTypeUint64, TagTypeString}"
    by blast
  then show ?thesis
  proof cases
    case 1
    with wf small show ?thesis
      by (simp add: get_kad_value_def put_kad_value_def wf_kad_value_def codec_step codec_len ucast_narrow8)
  next
    case 2
    with wf small show ?thesis
      by (simp add: get_kad_value_def put_kad_value_def wf_kad_value_def codec_step codec_len tag_types
          ucast_narrow16)
  next
    case 3
    with wf small show ?thesis
      by (simp add: get_kad_value_def put_kad_value_def wf_kad_value_def codec_step codec_len tag_types
          ucast_narrow32)
  next
    case 4
    with wf small show ?thesis
      by (simp add: get_kad_value_def put_kad_value_def wf_kad_value_def codec_step codec_len tag_types)
  next
    case 5
    with wf small show ?thesis
      by (simp add: get_kad_value_def put_kad_value_def wf_kad_value_def codec_step codec_len tag_types
          uint_of_nat_u16)
  next
    case 6
    with wf small show ?thesis
      by (simp add: get_kad_value_def put_kad_value_def wf_kad_value_def codec_step codec_len)
  qed
qed

interpretation KadTag_codec: codec get_KadTag put_KadTag wf_KadTag
proof unfold_locales
  fix t rest
  assume wf: "wf_KadTag t" and small: "small (put_KadTag t @ rest)"
  then have "get_kad_value (kt_Type t) (put_kad_value t @ rest) = Inr ((kt_UInt64 t, kt_String t), rest)"
    by (intro get_put_kad_value) (simp_all add: wf_KadTag_def put_KadTag_def)
  with wf small type_mark [of "kt_Type t"] show "get_KadTag (put_KadTag t @ rest) = Inr (t, rest)"
    by (simp add: get_KadTag_def put_KadTag_def wf_KadTag_def codec_step codec_len rbind_Inr)
qed

lemma wf_KadTag_no_error: "wf_KadTag t \<Longrightarrow> kt_error t = None"
  by (auto simp: wf_KadTag_def wf_kad_value_def kt_error_def split: if_splits)

section \<open>Search entries\<close>

record SearchEntry =
  se_ID :: hash
  se_Tags :: "KadTag list"

definition get_SearchEntry :: "SearchEntry reader" where
  "get_SearchEntry =
     rbind get_ID (\<lambda>i.
     rbind readByte (\<lambda>count.
     rbind (get_n get_KadTag (unat count)) (\<lambda>items.
       rreturn \<lparr>se_ID = i, se_Tags = items\<rparr>)))"

definition put_SearchEntry :: "SearchEntry \<Rightarrow> bytes" where
  "put_SearchEntry x =
     put_ID (se_ID x) @
     writeByte (of_nat (length (se_Tags x))) @ concat (map put_KadTag (se_Tags x))"

definition wf_SearchEntry :: "SearchEntry \<Rightarrow> bool" where
  "wf_SearchEntry x \<longleftrightarrow>
     wf_hash (se_ID x) \<and> length (se_Tags x) < 256 \<and> (\<forall>e\<in>set (se_Tags x). wf_KadTag e)"

interpretation SearchEntry_codec: codec get_SearchEntry put_SearchEntry wf_SearchEntry
  by unfold_locales
    (simp_all add: get_SearchEntry_def put_SearchEntry_def wf_SearchEntry_def codec_step codec_len unat_of_nat_u8 unat_of_nat_u16)

definition se_UIntTag :: "SearchEntry \<Rightarrow> u8 \<Rightarrow> u64 \<times> bool" where
  "se_UIntTag s i =
     (case find (\<lambda>tag. kt_ID tag = i) (se_Tags s) of
        Some tag \<Rightarrow> (kt_UInt64 tag, True)
      | None \<Rightarrow> (0, False))"

definition se_StringTag :: "SearchEntry \<Rightarrow> u8 \<Rightarrow> bytes \<times> bool" where
  "se_StringTag s i =
     (case find (\<lambda>tag. kt_ID tag = i) (se_Tags s) of
        Some tag \<Rightarrow> (kt_String tag, True)
      | None \<Rightarrow> ([], False))"

text \<open>Of a source, the endpoint: only directly reachable sources (types 0, 1 and 4) have one.\<close>

definition SourceEndpoint :: "SearchEntry \<Rightarrow> Endpoint \<times> bool" where
  "SourceEndpoint s =
     (let sourceType = fst (se_UIntTag s 0xFF);
          (ip, hasIP) = se_UIntTag s 0xFE;
          (port, hasPort) = se_UIntTag s 0xFD
      in if \<not> hasIP \<or> \<not> hasPort then (\<lparr>ep_ip = 0, ep_port = 0\<rparr>, False)
         else if sourceType \<noteq> 1 \<and> sourceType \<noteq> 4 \<and> sourceType \<noteq> 0 then (\<lparr>ep_ip = 0, ep_port = 0\<rparr>, False)
         else (NewEndpoint (ucast ip) (sint port), True))"

section \<open>Messages\<close>

definition KademliaVersion :: u8 where "KademliaVersion = 0x05"

record SearchSourcesReq =
  ssr_Target :: hash
  ssr_StartPos :: u16
  ssr_Size :: u64

definition get_SearchSourcesReq :: "SearchSourcesReq reader" where
  "get_SearchSourcesReq =
     rbind get_ID (\<lambda>target.
     rbind readUInt16 (\<lambda>startPos.
     rbind readUInt64 (\<lambda>size.
       rreturn \<lparr>ssr_Target = target, ssr_StartPos = startPos, ssr_Size = size\<rparr>)))"

definition put_SearchSourcesReq :: "SearchSourcesReq \<Rightarrow> bytes" where
  "put_SearchSourcesReq x =
     put_ID (ssr_Target x) @ writeUInt16 (ssr_StartPos x) @ writeUInt64 (ssr_Size x)"

definition wf_SearchSourcesReq :: "SearchSourcesReq \<Rightarrow> bool" where
  "wf_SearchSourcesReq x \<longleftrightarrow> wf_hash (ssr_Target x)"

interpretation SearchSourcesReq_codec: codec get_SearchSourcesReq put_SearchSourcesReq wf_SearchSourcesReq
  by unfold_locales
    (simp_all add: get_SearchSourcesReq_def put_SearchSourcesReq_def wf_SearchSourcesReq_def codec_step codec_len)

record SearchRes =
  srs_Source :: hash
  srs_Target :: hash
  srs_Results :: "SearchEntry list"

definition get_SearchRes :: "SearchRes reader" where
  "get_SearchRes =
     rbind get_ID (\<lambda>source.
     rbind get_ID (\<lambda>target.
     rbind readUInt16 (\<lambda>count.
     rbind (get_n get_SearchEntry (unat count)) (\<lambda>items.
       rreturn \<lparr>srs_Source = source, srs_Target = target, srs_Results = items\<rparr>))))"

definition put_SearchRes :: "SearchRes \<Rightarrow> bytes" where
  "put_SearchRes x =
     put_ID (srs_Source x) @ put_ID (srs_Target x) @
     writeUInt16 (of_nat (length (srs_Results x))) @ concat (map put_SearchEntry (srs_Results x))"

definition wf_SearchRes :: "SearchRes \<Rightarrow> bool" where
  "wf_SearchRes x \<longleftrightarrow>
     wf_hash (srs_Source x) \<and> wf_hash (srs_Target x) \<and> length (srs_Results x) < 65536 \<and> (\<forall>e\<in>set (srs_Results x). wf_SearchEntry e)"

interpretation SearchRes_codec: codec get_SearchRes put_SearchRes wf_SearchRes
  by unfold_locales
    (simp_all add: get_SearchRes_def put_SearchRes_def wf_SearchRes_def codec_step codec_len unat_of_nat_u8 unat_of_nat_u16)

record BootstrapRes =
  bsr_ID :: hash
  bsr_TCPPort :: u16
  bsr_Version :: u8
  bsr_Contacts :: "KadEntry list"

definition get_BootstrapRes :: "BootstrapRes reader" where
  "get_BootstrapRes =
     rbind get_ID (\<lambda>i.
     rbind readUInt16 (\<lambda>tCPPort.
     rbind readByte (\<lambda>version.
     rbind readUInt16 (\<lambda>count.
     rbind (get_n get_KadEntry (unat count)) (\<lambda>items.
       rreturn \<lparr>bsr_ID = i, bsr_TCPPort = tCPPort, bsr_Version = version, bsr_Contacts = items\<rparr>)))))"

definition put_BootstrapRes :: "BootstrapRes \<Rightarrow> bytes" where
  "put_BootstrapRes x =
     put_ID (bsr_ID x) @ writeUInt16 (bsr_TCPPort x) @ writeByte (bsr_Version x) @
     writeUInt16 (of_nat (length (bsr_Contacts x))) @ concat (map put_KadEntry (bsr_Contacts x))"

definition wf_BootstrapRes :: "BootstrapRes \<Rightarrow> bool" where
  "wf_BootstrapRes x \<longleftrightarrow>
     wf_hash (bsr_ID x) \<and> length (bsr_Contacts x) < 65536 \<and> (\<forall>e\<in>set (bsr_Contacts x). wf_KadEntry e)"

interpretation BootstrapRes_codec: codec get_BootstrapRes put_BootstrapRes wf_BootstrapRes
  by unfold_locales
    (simp_all add: get_BootstrapRes_def put_BootstrapRes_def wf_BootstrapRes_def codec_step codec_len unat_of_nat_u8 unat_of_nat_u16)

text \<open>A greeting that leaves its version out announces \<open>KademliaVersion\<close>.\<close>

record KadHello =
  khello_ID :: hash
  khello_TCPPort :: u16
  khello_Version :: u8
  khello_Tags :: "KadTag list"

definition get_KadHello :: "KadHello reader" where
  "get_KadHello =
     rbind get_ID (\<lambda>i.
     rbind readUInt16 (\<lambda>tCPPort.
     rbind readByte (\<lambda>version.
     rbind readByte (\<lambda>count.
     rbind (get_n get_KadTag (unat count)) (\<lambda>items.
       rreturn \<lparr>khello_ID = i, khello_TCPPort = tCPPort, khello_Version = version, khello_Tags = items\<rparr>)))))"

definition put_KadHello :: "KadHello \<Rightarrow> bytes" where
  "put_KadHello x =
     put_ID (khello_ID x) @ writeUInt16 (khello_TCPPort x) @ writeByte (if khello_Version x = 0 then KademliaVersion else khello_Version x) @
     writeByte (of_nat (length (khello_Tags x))) @ concat (map put_KadTag (khello_Tags x))"

definition wf_KadHello :: "KadHello \<Rightarrow> bool" where
  "wf_KadHello x \<longleftrightarrow>
     wf_hash (khello_ID x) \<and> khello_Version x \<noteq> 0 \<and> length (khello_Tags x) < 256 \<and> (\<forall>e\<in>set (khello_Tags x). wf_KadTag e)"

interpretation KadHello_codec: codec get_KadHello put_KadHello wf_KadHello
  by unfold_locales
    (simp_all add: get_KadHello_def put_KadHello_def wf_KadHello_def codec_step codec_len unat_of_nat_u8 unat_of_nat_u16)

record KadReq =
  kreq_SearchType :: u8
  kreq_Target :: hash
  kreq_Receiver :: hash

definition get_KadReq :: "KadReq reader" where
  "get_KadReq =
     rbind readByte (\<lambda>searchType.
     rbind get_ID (\<lambda>target.
     rbind get_ID (\<lambda>receiver.
       rreturn \<lparr>kreq_SearchType = searchType, kreq_Target = target, kreq_Receiver = receiver\<rparr>)))"

definition put_KadReq :: "KadReq \<Rightarrow> bytes" where
  "put_KadReq x =
     writeByte (kreq_SearchType x) @ put_ID (kreq_Target x) @ put_ID (kreq_Receiver x)"

definition wf_KadReq :: "KadReq \<Rightarrow> bool" where
  "wf_KadReq x \<longleftrightarrow> wf_hash (kreq_Target x) \<and> wf_hash (kreq_Receiver x)"

interpretation KadReq_codec: codec get_KadReq put_KadReq wf_KadReq
  by unfold_locales
    (simp_all add: get_KadReq_def put_KadReq_def wf_KadReq_def codec_step codec_len)

record KadRes =
  kres_Target :: hash
  kres_Results :: "KadEntry list"

definition get_KadRes :: "KadRes reader" where
  "get_KadRes =
     rbind get_ID (\<lambda>target.
     rbind readByte (\<lambda>count.
     rbind (get_n get_KadEntry (unat count)) (\<lambda>items.
       rreturn \<lparr>kres_Target = target, kres_Results = items\<rparr>)))"

definition put_KadRes :: "KadRes \<Rightarrow> bytes" where
  "put_KadRes x =
     put_ID (kres_Target x) @
     writeByte (of_nat (length (kres_Results x))) @ concat (map put_KadEntry (kres_Results x))"

definition wf_KadRes :: "KadRes \<Rightarrow> bool" where
  "wf_KadRes x \<longleftrightarrow>
     wf_hash (kres_Target x) \<and> length (kres_Results x) < 256 \<and> (\<forall>e\<in>set (kres_Results x). wf_KadEntry e)"

interpretation KadRes_codec: codec get_KadRes put_KadRes wf_KadRes
  by unfold_locales
    (simp_all add: get_KadRes_def put_KadRes_def wf_KadRes_def codec_step codec_len unat_of_nat_u8 unat_of_nat_u16)

record Pong =
  pong_UDPPort :: u16

definition get_Pong :: "Pong reader" where
  "get_Pong =
     rbind readUInt16 (\<lambda>uDPPort.
       rreturn \<lparr>pong_UDPPort = uDPPort\<rparr>)"

definition put_Pong :: "Pong \<Rightarrow> bytes" where
  "put_Pong x =
     writeUInt16 (pong_UDPPort x)"

definition wf_Pong :: "Pong \<Rightarrow> bool" where
  "wf_Pong x \<longleftrightarrow> True"

interpretation Pong_codec: codec get_Pong put_Pong wf_Pong
  by unfold_locales
    (simp_all add: get_Pong_def put_Pong_def wf_Pong_def codec_step codec_len)

record PublishSourcesReq =
  psr_FileID :: hash
  psr_Source :: SearchEntry

definition get_PublishSourcesReq :: "PublishSourcesReq reader" where
  "get_PublishSourcesReq =
     rbind get_ID (\<lambda>fileID.
     rbind get_SearchEntry (\<lambda>source.
       rreturn \<lparr>psr_FileID = fileID, psr_Source = source\<rparr>))"

definition put_PublishSourcesReq :: "PublishSourcesReq \<Rightarrow> bytes" where
  "put_PublishSourcesReq x =
     put_ID (psr_FileID x) @ put_SearchEntry (psr_Source x)"

definition wf_PublishSourcesReq :: "PublishSourcesReq \<Rightarrow> bool" where
  "wf_PublishSourcesReq x \<longleftrightarrow> wf_hash (psr_FileID x) \<and> wf_SearchEntry (psr_Source x)"

interpretation PublishSourcesReq_codec: codec get_PublishSourcesReq put_PublishSourcesReq wf_PublishSourcesReq
  by unfold_locales
    (simp_all add: get_PublishSourcesReq_def put_PublishSourcesReq_def wf_PublishSourcesReq_def codec_step codec_len)

record PublishRes =
  pres_FileID :: hash
  pres_Count :: u8

definition get_PublishRes :: "PublishRes reader" where
  "get_PublishRes =
     rbind get_ID (\<lambda>fileID.
     rbind readByte (\<lambda>count.
       rreturn \<lparr>pres_FileID = fileID, pres_Count = count\<rparr>))"

definition put_PublishRes :: "PublishRes \<Rightarrow> bytes" where
  "put_PublishRes x =
     put_ID (pres_FileID x) @ writeByte (pres_Count x)"

definition wf_PublishRes :: "PublishRes \<Rightarrow> bool" where
  "wf_PublishRes x \<longleftrightarrow> wf_hash (pres_FileID x)"

interpretation PublishRes_codec: codec get_PublishRes put_PublishRes wf_PublishRes
  by unfold_locales
    (simp_all add: get_PublishRes_def put_PublishRes_def wf_PublishRes_def codec_step codec_len)

record SearchKeysReq =
  skr_Target :: hash
  skr_StartPos :: u16

definition get_SearchKeysReq :: "SearchKeysReq reader" where
  "get_SearchKeysReq =
     rbind get_ID (\<lambda>target.
     rbind readUInt16 (\<lambda>startPos.
       rreturn \<lparr>skr_Target = target, skr_StartPos = startPos\<rparr>))"

definition put_SearchKeysReq :: "SearchKeysReq \<Rightarrow> bytes" where
  "put_SearchKeysReq x =
     put_ID (skr_Target x) @ writeUInt16 (skr_StartPos x)"

definition wf_SearchKeysReq :: "SearchKeysReq \<Rightarrow> bool" where
  "wf_SearchKeysReq x \<longleftrightarrow> wf_hash (skr_Target x)"

interpretation SearchKeysReq_codec: codec get_SearchKeysReq put_SearchKeysReq wf_SearchKeysReq
  by unfold_locales
    (simp_all add: get_SearchKeysReq_def put_SearchKeysReq_def wf_SearchKeysReq_def codec_step codec_len)

record PublishKeysReq =
  pkr_KeywordID :: hash
  pkr_Sources :: "SearchEntry list"

definition get_PublishKeysReq :: "PublishKeysReq reader" where
  "get_PublishKeysReq =
     rbind get_ID (\<lambda>keywordID.
     rbind readUInt16 (\<lambda>count.
     rbind (get_n get_SearchEntry (unat count)) (\<lambda>items.
       rreturn \<lparr>pkr_KeywordID = keywordID, pkr_Sources = items\<rparr>)))"

definition put_PublishKeysReq :: "PublishKeysReq \<Rightarrow> bytes" where
  "put_PublishKeysReq x =
     put_ID (pkr_KeywordID x) @
     writeUInt16 (of_nat (length (pkr_Sources x))) @ concat (map put_SearchEntry (pkr_Sources x))"

definition wf_PublishKeysReq :: "PublishKeysReq \<Rightarrow> bool" where
  "wf_PublishKeysReq x \<longleftrightarrow>
     wf_hash (pkr_KeywordID x) \<and> length (pkr_Sources x) < 65536 \<and> (\<forall>e\<in>set (pkr_Sources x). wf_SearchEntry e)"

interpretation PublishKeysReq_codec: codec get_PublishKeysReq put_PublishKeysReq wf_PublishKeysReq
  by unfold_locales
    (simp_all add: get_PublishKeysReq_def put_PublishKeysReq_def wf_PublishKeysReq_def codec_step codec_len unat_of_nat_u8 unat_of_nat_u16)

record PublishNotesReq =
  pnr_FileID :: hash
  pnr_Notes :: "SearchEntry list"

definition get_PublishNotesReq :: "PublishNotesReq reader" where
  "get_PublishNotesReq =
     rbind get_ID (\<lambda>fileID.
     rbind readUInt16 (\<lambda>count.
     rbind (get_n get_SearchEntry (unat count)) (\<lambda>items.
       rreturn \<lparr>pnr_FileID = fileID, pnr_Notes = items\<rparr>)))"

definition put_PublishNotesReq :: "PublishNotesReq \<Rightarrow> bytes" where
  "put_PublishNotesReq x =
     put_ID (pnr_FileID x) @
     writeUInt16 (of_nat (length (pnr_Notes x))) @ concat (map put_SearchEntry (pnr_Notes x))"

definition wf_PublishNotesReq :: "PublishNotesReq \<Rightarrow> bool" where
  "wf_PublishNotesReq x \<longleftrightarrow>
     wf_hash (pnr_FileID x) \<and> length (pnr_Notes x) < 65536 \<and> (\<forall>e\<in>set (pnr_Notes x). wf_SearchEntry e)"

interpretation PublishNotesReq_codec: codec get_PublishNotesReq put_PublishNotesReq wf_PublishNotesReq
  by unfold_locales
    (simp_all add: get_PublishNotesReq_def put_PublishNotesReq_def wf_PublishNotesReq_def codec_step codec_len unat_of_nat_u8 unat_of_nat_u16)

record SearchNotesReq =
  snr_Target :: hash
  snr_FileSize :: u64

definition get_SearchNotesReq :: "SearchNotesReq reader" where
  "get_SearchNotesReq =
     rbind get_ID (\<lambda>target.
     rbind readUInt64 (\<lambda>fileSize.
       rreturn \<lparr>snr_Target = target, snr_FileSize = fileSize\<rparr>))"

definition put_SearchNotesReq :: "SearchNotesReq \<Rightarrow> bytes" where
  "put_SearchNotesReq x =
     put_ID (snr_Target x) @ writeUInt64 (snr_FileSize x)"

definition wf_SearchNotesReq :: "SearchNotesReq \<Rightarrow> bool" where
  "wf_SearchNotesReq x \<longleftrightarrow> wf_hash (snr_Target x)"

interpretation SearchNotesReq_codec: codec get_SearchNotesReq put_SearchNotesReq wf_SearchNotesReq
  by unfold_locales
    (simp_all add: get_SearchNotesReq_def put_SearchNotesReq_def wf_SearchNotesReq_def codec_step codec_len)

record FirewalledReq =
  fwr_TCPPort :: u16
  fwr_ID :: hash
  fwr_Options :: u8

definition get_FirewalledReq :: "FirewalledReq reader" where
  "get_FirewalledReq =
     rbind readUInt16 (\<lambda>tCPPort.
     rbind get_ID (\<lambda>iD.
     rbind readByte (\<lambda>options.
       rreturn \<lparr>fwr_TCPPort = tCPPort, fwr_ID = iD, fwr_Options = options\<rparr>)))"

definition put_FirewalledReq :: "FirewalledReq \<Rightarrow> bytes" where
  "put_FirewalledReq x =
     writeUInt16 (fwr_TCPPort x) @ put_ID (fwr_ID x) @ writeByte (fwr_Options x)"

definition wf_FirewalledReq :: "FirewalledReq \<Rightarrow> bool" where
  "wf_FirewalledReq x \<longleftrightarrow> wf_hash (fwr_ID x)"

interpretation FirewalledReq_codec: codec get_FirewalledReq put_FirewalledReq wf_FirewalledReq
  by unfold_locales
    (simp_all add: get_FirewalledReq_def put_FirewalledReq_def wf_FirewalledReq_def codec_step codec_len)

record FirewalledRes =
  fws_IP :: u32

definition get_FirewalledRes :: "FirewalledRes reader" where
  "get_FirewalledRes =
     rbind ReadUInt32 (\<lambda>iP.
       rreturn \<lparr>fws_IP = iP\<rparr>)"

definition put_FirewalledRes :: "FirewalledRes \<Rightarrow> bytes" where
  "put_FirewalledRes x =
     writeUInt32 (fws_IP x)"

definition wf_FirewalledRes :: "FirewalledRes \<Rightarrow> bool" where
  "wf_FirewalledRes x \<longleftrightarrow> True"

interpretation FirewalledRes_codec: codec get_FirewalledRes put_FirewalledRes wf_FirewalledRes
  by unfold_locales
    (simp_all add: get_FirewalledRes_def put_FirewalledRes_def wf_FirewalledRes_def codec_step codec_len)

record FirewalledUDP =
  fwu_ErrorCode :: u8
  fwu_TCPPort :: u16

definition get_FirewalledUDP :: "FirewalledUDP reader" where
  "get_FirewalledUDP =
     rbind readByte (\<lambda>errorCode.
     rbind readUInt16 (\<lambda>tCPPort.
       rreturn \<lparr>fwu_ErrorCode = errorCode, fwu_TCPPort = tCPPort\<rparr>))"

definition put_FirewalledUDP :: "FirewalledUDP \<Rightarrow> bytes" where
  "put_FirewalledUDP x =
     writeByte (fwu_ErrorCode x) @ writeUInt16 (fwu_TCPPort x)"

definition wf_FirewalledUDP :: "FirewalledUDP \<Rightarrow> bool" where
  "wf_FirewalledUDP x \<longleftrightarrow> True"

interpretation FirewalledUDP_codec: codec get_FirewalledUDP put_FirewalledUDP wf_FirewalledUDP
  by unfold_locales
    (simp_all add: get_FirewalledUDP_def put_FirewalledUDP_def wf_FirewalledUDP_def codec_step codec_len)

record LegacyFirewalledReq =
  lfr_TCPPort :: u16

definition get_LegacyFirewalledReq :: "LegacyFirewalledReq reader" where
  "get_LegacyFirewalledReq =
     rbind readUInt16 (\<lambda>tCPPort.
       rreturn \<lparr>lfr_TCPPort = tCPPort\<rparr>)"

definition put_LegacyFirewalledReq :: "LegacyFirewalledReq \<Rightarrow> bytes" where
  "put_LegacyFirewalledReq x =
     writeUInt16 (lfr_TCPPort x)"

definition wf_LegacyFirewalledReq :: "LegacyFirewalledReq \<Rightarrow> bool" where
  "wf_LegacyFirewalledReq x \<longleftrightarrow> True"

interpretation LegacyFirewalledReq_codec: codec get_LegacyFirewalledReq put_LegacyFirewalledReq wf_LegacyFirewalledReq
  by unfold_locales
    (simp_all add: get_LegacyFirewalledReq_def put_LegacyFirewalledReq_def wf_LegacyFirewalledReq_def codec_step codec_len)

section \<open>Dispatch\<close>

datatype KadPacket =
    KBootstrapReq
  | KBootstrapRes BootstrapRes
  | KSearchRes SearchRes
  | KSearchSourcesReq SearchSourcesReq
  | KSearchKeysReq SearchKeysReq
  | KSearchNotesReq SearchNotesReq
  | KReq KadReq
  | KHello KadHello
  | KRes KadRes
  | KPublishSourcesReq PublishSourcesReq
  | KPublishKeysReq PublishKeysReq
  | KPublishNotesReq PublishNotesReq
  | KPublishRes PublishRes
  | KPublishNotesRes PublishRes
  | KPong Pong
  | KPing
  | KFirewalledReq FirewalledReq
  | KFirewalledRes FirewalledRes
  | KFirewalledUDP FirewalledUDP
  | KHelloResAck
  | KPublishResAck
  | KCallbackReq
  | KFindBuddyReq
  | KFindBuddyRes
  | KSearchNotesRes
  | KLegacyFirewalledReq LegacyFirewalledReq

fun put_kad :: "KadPacket \<Rightarrow> bytes" where
  "put_kad KBootstrapReq = []"
| "put_kad (KBootstrapRes x) = put_BootstrapRes x"
| "put_kad (KSearchRes x) = put_SearchRes x"
| "put_kad (KSearchSourcesReq x) = put_SearchSourcesReq x"
| "put_kad (KSearchKeysReq x) = put_SearchKeysReq x"
| "put_kad (KSearchNotesReq x) = put_SearchNotesReq x"
| "put_kad (KReq x) = put_KadReq x"
| "put_kad (KHello x) = put_KadHello x"
| "put_kad (KRes x) = put_KadRes x"
| "put_kad (KPublishSourcesReq x) = put_PublishSourcesReq x"
| "put_kad (KPublishKeysReq x) = put_PublishKeysReq x"
| "put_kad (KPublishNotesReq x) = put_PublishNotesReq x"
| "put_kad (KPublishRes x) = put_PublishRes x"
| "put_kad (KPublishNotesRes x) = put_PublishRes x"
| "put_kad (KPong x) = put_Pong x"
| "put_kad KPing = []"
| "put_kad (KFirewalledReq x) = put_FirewalledReq x"
| "put_kad (KFirewalledRes x) = put_FirewalledRes x"
| "put_kad (KFirewalledUDP x) = put_FirewalledUDP x"
| "put_kad KHelloResAck = []"
| "put_kad KPublishResAck = []"
| "put_kad KCallbackReq = []"
| "put_kad KFindBuddyReq = []"
| "put_kad KFindBuddyRes = []"
| "put_kad KSearchNotesRes = []"
| "put_kad (KLegacyFirewalledReq x) = put_LegacyFirewalledReq x"

fun wf_kad :: "KadPacket \<Rightarrow> bool" where
  "wf_kad KBootstrapReq = True"
| "wf_kad (KBootstrapRes x) = wf_BootstrapRes x"
| "wf_kad (KSearchRes x) = wf_SearchRes x"
| "wf_kad (KSearchSourcesReq x) = wf_SearchSourcesReq x"
| "wf_kad (KSearchKeysReq x) = wf_SearchKeysReq x"
| "wf_kad (KSearchNotesReq x) = wf_SearchNotesReq x"
| "wf_kad (KReq x) = wf_KadReq x"
| "wf_kad (KHello x) = wf_KadHello x"
| "wf_kad (KRes x) = wf_KadRes x"
| "wf_kad (KPublishSourcesReq x) = wf_PublishSourcesReq x"
| "wf_kad (KPublishKeysReq x) = wf_PublishKeysReq x"
| "wf_kad (KPublishNotesReq x) = wf_PublishNotesReq x"
| "wf_kad (KPublishRes x) = wf_PublishRes x"
| "wf_kad (KPublishNotesRes x) = wf_PublishRes x"
| "wf_kad (KPong x) = wf_Pong x"
| "wf_kad KPing = True"
| "wf_kad (KFirewalledReq x) = wf_FirewalledReq x"
| "wf_kad (KFirewalledRes x) = wf_FirewalledRes x"
| "wf_kad (KFirewalledUDP x) = wf_FirewalledUDP x"
| "wf_kad KHelloResAck = True"
| "wf_kad KPublishResAck = True"
| "wf_kad KCallbackReq = True"
| "wf_kad KFindBuddyReq = True"
| "wf_kad KFindBuddyRes = True"
| "wf_kad KSearchNotesRes = True"
| "wf_kad (KLegacyFirewalledReq x) = wf_LegacyFirewalledReq x"

fun kad_opcode :: "KadPacket \<Rightarrow> u8" where
  "kad_opcode KBootstrapReq = 0x01"
| "kad_opcode (KBootstrapRes x) = 0x09"
| "kad_opcode (KSearchRes x) = 0x3B"
| "kad_opcode (KSearchSourcesReq x) = 0x34"
| "kad_opcode (KSearchKeysReq x) = 0x33"
| "kad_opcode (KSearchNotesReq x) = 0x35"
| "kad_opcode (KReq x) = 0x21"
| "kad_opcode (KHello x) = 0x11"
| "kad_opcode (KRes x) = 0x29"
| "kad_opcode (KPublishSourcesReq x) = 0x44"
| "kad_opcode (KPublishKeysReq x) = 0x43"
| "kad_opcode (KPublishNotesReq x) = 0x45"
| "kad_opcode (KPublishRes x) = 0x4B"
| "kad_opcode (KPublishNotesRes x) = 0x4A"
| "kad_opcode (KPong x) = 0x61"
| "kad_opcode KPing = 0x60"
| "kad_opcode (KFirewalledReq x) = 0x53"
| "kad_opcode (KFirewalledRes x) = 0x58"
| "kad_opcode (KFirewalledUDP x) = 0x62"
| "kad_opcode KHelloResAck = 0x22"
| "kad_opcode KPublishResAck = 0x4C"
| "kad_opcode KCallbackReq = 0x52"
| "kad_opcode KFindBuddyReq = 0x51"
| "kad_opcode KFindBuddyRes = 0x5A"
| "kad_opcode KSearchNotesRes = 0x3A"
| "kad_opcode (KLegacyFirewalledReq x) = 0x50"

text \<open>The tags a packet writes, each of which may fail.\<close>

fun kad_tags :: "KadPacket \<Rightarrow> KadTag list" where
  "kad_tags (KHello x) = khello_Tags x"
| "kad_tags (KSearchRes x) = concat (map se_Tags (srs_Results x))"
| "kad_tags (KPublishSourcesReq x) = se_Tags (psr_Source x)"
| "kad_tags (KPublishKeysReq x) = concat (map se_Tags (pkr_Sources x))"
| "kad_tags (KPublishNotesReq x) = concat (map se_Tags (pnr_Notes x))"
| "kad_tags _ = []"

definition ProtocolHeader :: u8 where "ProtocolHeader = 0xE4"

definition encodePacket :: "u8 \<Rightarrow> bytes \<Rightarrow> bytes" where
  "encodePacket opcode payload = [ProtocolHeader, opcode] @ payload"

text \<open>\<open>extra\<close> is the optional opcode of a greeting: request or response.\<close>

definition kad_Pack :: "KadPacket \<Rightarrow> u8 list \<Rightarrow> bytes result" where
  "kad_Pack packet extra =
     (case find (\<lambda>t. kt_error t \<noteq> None) (kad_tags packet) of
        Some t \<Rightarrow> Inl (the (kt_error t))
      | None \<Rightarrow>
          (let opcode = (case (packet, extra) of
                 (KHello _, e # _) \<Rightarrow> if e \<noteq> 0 then e else kad_opcode packet
               | _ \<Rightarrow> kad_opcode packet)
           in Inr (encodePacket opcode (put_kad packet))))"

definition DecodePacket :: "bytes \<Rightarrow> (u8 \<times> bytes) result" where
  "DecodePacket packet =
     (case packet of
        header # opcode # payload \<Rightarrow>
          if header \<noteq> ProtocolHeader then Inl (ErrText ''unsupported kad protocol header'')
          else Inr (opcode, payload)
      | _ \<Rightarrow> Inl (ErrText ''kad packet too short''))"

text \<open>A message's \<open>Unpack\<close> ignores what follows it.\<close>

definition unpacked_as :: "('a \<Rightarrow> KadPacket) \<Rightarrow> 'a reader \<Rightarrow> bytes \<Rightarrow> KadPacket result" where
  "unpacked_as f get payload = (case get payload of Inl e \<Rightarrow> Inl e | Inr (x, _) \<Rightarrow> Inr (f x))"

definition unpackByOpcode :: "u8 \<Rightarrow> bytes \<Rightarrow> KadPacket result" where
  "unpackByOpcode opcode payload =
     (if opcode = 0x3B then unpacked_as KSearchRes get_SearchRes payload
      else if opcode = 0x34 then unpacked_as KSearchSourcesReq get_SearchSourcesReq payload
      else if opcode = 0x33 then unpacked_as KSearchKeysReq get_SearchKeysReq payload
      else if opcode = 0x09 then unpacked_as KBootstrapRes get_BootstrapRes payload
      else if opcode = 0x29 then unpacked_as KRes get_KadRes payload
      else if opcode = 0x11 \<or> opcode = 0x19 then unpacked_as KHello get_KadHello payload
      else if opcode = 0x01 then Inr KBootstrapReq
      else if opcode = 0x21 then unpacked_as KReq get_KadReq payload
      else if opcode = 0x44 then unpacked_as KPublishSourcesReq get_PublishSourcesReq payload
      else if opcode = 0x43 then unpacked_as KPublishKeysReq get_PublishKeysReq payload
      else if opcode = 0x45 then unpacked_as KPublishNotesReq get_PublishNotesReq payload
      else if opcode = 0x4B then unpacked_as KPublishRes get_PublishRes payload
      else if opcode = 0x4A then unpacked_as KPublishNotesRes get_PublishRes payload
      else if opcode = 0x60 then Inr KPing
      else if opcode = 0x61 then unpacked_as KPong get_Pong payload
      else if opcode = 0x53 then unpacked_as KFirewalledReq get_FirewalledReq payload
      else if opcode = 0x58 then unpacked_as KFirewalledRes get_FirewalledRes payload
      else if opcode = 0x62 then unpacked_as KFirewalledUDP get_FirewalledUDP payload
      else if opcode = 0x35 then unpacked_as KSearchNotesReq get_SearchNotesReq payload
      else if opcode = 0x3A then Inr KSearchNotesRes
      else if opcode = 0x22 then Inr KHelloResAck
      else if opcode = 0x4C then Inr KPublishResAck
      else if opcode = 0x52 then Inr KCallbackReq
      else if opcode = 0x51 then Inr KFindBuddyReq
      else if opcode = 0x5A then Inr KFindBuddyRes
      else if opcode = 0x50 then unpacked_as KLegacyFirewalledReq get_LegacyFirewalledReq payload
      else Inl (ErrText ''unsupported kad opcode''))"

definition kad_Unpack :: "bytes \<Rightarrow> (u8 \<times> KadPacket) result" where
  "kad_Unpack packet =
     (case DecodePacket packet of
        Inl e \<Rightarrow> Inl e
      | Inr (opcode, payload) \<Rightarrow>
          (case unpackByOpcode opcode payload of
             Inl e \<Rightarrow> Inl e
           | Inr msg \<Rightarrow> Inr (opcode, msg)))"

lemma unpacked_as_put: "get payload = Inr (x, rest) \<Longrightarrow> unpacked_as f get payload = Inr (f x)"
  by (simp add: unpacked_as_def)

lemmas kad_exact = SearchRes_codec.get_put_exact SearchSourcesReq_codec.get_put_exact
  SearchKeysReq_codec.get_put_exact BootstrapRes_codec.get_put_exact KadRes_codec.get_put_exact
  KadHello_codec.get_put_exact KadReq_codec.get_put_exact PublishSourcesReq_codec.get_put_exact
  PublishKeysReq_codec.get_put_exact PublishNotesReq_codec.get_put_exact
  PublishRes_codec.get_put_exact Pong_codec.get_put_exact FirewalledReq_codec.get_put_exact
  FirewalledRes_codec.get_put_exact FirewalledUDP_codec.get_put_exact
  SearchNotesReq_codec.get_put_exact LegacyFirewalledReq_codec.get_put_exact

lemma unpackByOpcode_put:
  "wf_kad p \<Longrightarrow> small (put_kad p) \<Longrightarrow> unpackByOpcode (kad_opcode p) (put_kad p) = Inr p"
  by (cases p) (simp_all add: unpackByOpcode_def unpacked_as_put kad_exact)

lemma wf_kad_tags: "wf_kad p \<Longrightarrow> t \<in> set (kad_tags p) \<Longrightarrow> kt_error t = None"
  by (cases p)
    (auto simp: wf_KadHello_def wf_SearchRes_def wf_SearchEntry_def wf_PublishSourcesReq_def
      wf_PublishKeysReq_def wf_PublishNotesReq_def intro!: wf_KadTag_no_error)

lemma kad_Pack_wf:
  "wf_kad p \<Longrightarrow> kad_Pack p [] = Inr (encodePacket (kad_opcode p) (put_kad p))"
proof -
  assume "wf_kad p"
  then have "find (\<lambda>t. kt_error t \<noteq> None) (kad_tags p) = None"
    using wf_kad_tags [of p] by (auto simp: find_None_iff)
  then show ?thesis by (cases p) (simp_all add: kad_Pack_def)
qed

section \<open>The nodes.dat file\<close>

record NodesDat =
  nd_Version :: u32
  nd_BootstrapEdition :: u32
  nd_Contacts :: "KadEntry list"

text \<open>The head: version, edition and number of contacts, in the three formats of the file.\<close>

definition get_nodes_head :: "(u32 \<times> u32 \<times> u32) reader" where
  "get_nodes_head =
     rbind ReadUInt32 (\<lambda>first.
       if first = 0 then
         rbind ReadUInt32 (\<lambda>version.
           if 1 \<le> version \<and> version \<le> 3 then
             rbind (if 3 \<le> version then ReadUInt32 else rreturn 0) (\<lambda>edition.
             rbind ReadUInt32 (\<lambda>numContacts. rreturn (version, edition, numContacts)))
           else rreturn (version, 0, first))
       else rreturn (0, 0, first))"

definition nodes_extra :: "u32 \<Rightarrow> u32 \<Rightarrow> bool" where
  "nodes_extra version edition \<longleftrightarrow> 2 \<le> version \<and> edition = 0"

definition nodes_min_entry :: "u32 \<Rightarrow> u32 \<Rightarrow> nat" where
  "nodes_min_entry version edition =
     (let sz = 16 + 4 + 2 + 2 + 1 in if nodes_extra version edition then sz + (8 + 1) else sz)"

definition get_nodes_entry :: "bool \<Rightarrow> KadEntry reader" where
  "get_nodes_entry extra =
     rbind get_KadEntry (\<lambda>entry.
       if extra then
         rbind (readBytes 8) (\<lambda>_.
         rbind readByte (\<lambda>verified. rreturn (entry\<lparr>ken_Verified := (verified \<noteq> 0)\<rparr>)))
       else rreturn entry)"

definition get_NodesDat :: "NodesDat reader" where
  "get_NodesDat =
     rbind get_nodes_head (\<lambda>(version, edition, numContacts) src.
       if length src div nodes_min_entry version edition < unat numContacts then
         Inl (ErrText ''invalid nodes.dat contact count'')
       else rbind (get_n (get_nodes_entry (nodes_extra version edition)) (unat numContacts)) (\<lambda>contacts.
              rreturn \<lparr>nd_Version = version, nd_BootstrapEdition = edition, nd_Contacts = contacts\<rparr>) src)"

definition ParseNodesDat :: "bytes \<Rightarrow> NodesDat result" where
  "ParseNodesDat raw = (case get_NodesDat raw of Inl e \<Rightarrow> Inl e | Inr (nodes, _) \<Rightarrow> Inr nodes)"

section \<open>The XOR metric\<close>

text \<open>The loop over the sixteen bytes; \<open>n\<close> of them are left at index \<open>i\<close>.\<close>

fun distance_loop :: "hash \<Rightarrow> hash \<Rightarrow> hash \<Rightarrow> nat \<Rightarrow> nat \<Rightarrow> int" where
  "distance_loop a b target i 0 = 0"
| "distance_loop a b target i (Suc n) =
     (let da = a ! i XOR target ! i; db = b ! i XOR target ! i
      in if da < db then -1 else if da > db then 1 else distance_loop a b target (Suc i) n)"

definition DistanceCompare :: "hash \<Rightarrow> hash \<Rightarrow> hash \<Rightarrow> int" where
  "DistanceCompare a b target = distance_loop a b target 0 16"

text \<open>The distance itself, as a byte string in network order.\<close>

definition distance :: "hash \<Rightarrow> hash \<Rightarrow> bytes" where
  "distance a target = map2 (XOR) a target"

lemma distance_loop_eq:
  "length a = i + n \<Longrightarrow> length b = i + n \<Longrightarrow> length t = i + n \<Longrightarrow>
     distance_loop a b t i n = bytesCompare (distance (drop i a) (drop i t)) (distance (drop i b) (drop i t))"
proof (induction n arbitrary: i)
  case 0
  then show ?case by (simp add: distance_def)
next
  case (Suc n)
  have "drop i xs = xs ! i # drop (Suc i) xs" if "length xs = i + Suc n" for xs :: hash
    using that by (simp add: Cons_nth_drop_Suc)
  with Suc show ?case by (simp add: distance_def Let_def)
qed

lemma DistanceCompare_eq:
  "wf_hash a \<Longrightarrow> wf_hash b \<Longrightarrow> wf_hash t \<Longrightarrow>
     DistanceCompare a b t = bytesCompare (distance a t) (distance b t)"
  by (simp add: DistanceCompare_def distance_loop_eq wf_hash_def)

lemma xor_cancel_right: "a XOR t = b XOR t \<longleftrightarrow> a = b" for a b t :: u8
  by (metis xor.assoc xor.right_neutral xor_self_eq)

lemma distance_inj: "length a = length t \<Longrightarrow> length b = length t \<Longrightarrow> distance a t = distance b t \<Longrightarrow> a = b"
  by (auto simp: distance_def list_eq_iff_nth_eq xor_cancel_right)

text \<open>For a fixed target the comparison orders the identifiers totally.\<close>

definition closer :: "hash \<Rightarrow> hash \<Rightarrow> hash \<Rightarrow> int" where
  "closer target a b = DistanceCompare a b target"

lemma three_way_closer: "wf_hash target \<Longrightarrow> three_way (closer target) wf_hash"
proof unfold_locales
  fix a b c
  assume t: "wf_hash target" and a: "wf_hash a" and b: "wf_hash b"
  note eq = DistanceCompare_eq [OF _ _ t]
  show "closer target a b = -1 \<or> closer target a b = 0 \<or> closer target a b = 1"
    using a b unfolding closer_def by (simp only: eq bytesCompare_range)
  show "closer target b a = - closer target a b"
    using bytesCompare_swap [of "distance a target" "distance b target"] a b
    by (simp only: closer_def eq)
  show "closer target a b = 0 \<Longrightarrow> a = b"
    using a b t unfolding closer_def
    by (auto simp: eq wf_hash_def intro: distance_inj [of _ target] dest: bytesCompare_eq)
  assume c: "wf_hash c"
  show "closer target a b < 0 \<Longrightarrow> closer target b c < 0 \<Longrightarrow> closer target a c < 0"
    using bytesCompare_trans [of "distance a target" "distance b target" "distance c target"] a b c
    by (simp only: closer_def eq)
qed

text \<open>The instance for a node's own identifier; \<open>Invalid\<close> orders by the identifiers themselves.\<close>

interpretation zero_distance: three_way "closer Invalid" wf_hash
  by (rule three_way_closer) simp

section \<open>Properties\<close>

text \<open>C12: every well-formed Kademlia message unpacks from its packed form to itself, under its own
  opcode; a greeting also under the opcode of a response.\<close>

theorem kad_roundtrip:
  assumes "wf_kad p" and "small (put_kad p)"
  shows "(\<exists>raw. kad_Pack p [] = Inr raw \<and> kad_Unpack raw = Inr (kad_opcode p, p)) \<and>
    (\<forall>h. p = KHello h \<longrightarrow> (\<exists>raw. kad_Pack p [0x19] = Inr raw \<and> kad_Unpack raw = Inr (0x19, p)))"
proof (intro conjI allI impI)
  note u = unpackByOpcode_put [OF assms]
  show "\<exists>raw. kad_Pack p [] = Inr raw \<and> kad_Unpack raw = Inr (kad_opcode p, p)"
    using kad_Pack_wf [OF assms(1)] u
    by (simp add: kad_Unpack_def DecodePacket_def encodePacket_def)
  fix h
  assume h: "p = KHello h"
  have "find (\<lambda>t. kt_error t \<noteq> None) (kad_tags p) = None"
    using wf_kad_tags [OF assms(1)] by (auto simp: find_None_iff)
  then have "kad_Pack p [0x19] = Inr (encodePacket 0x19 (put_kad p))"
    by (simp add: kad_Pack_def h)
  moreover have "unpackByOpcode 0x19 (put_kad p) = unpackByOpcode 0x11 (put_kad p)"
    by (simp add: unpackByOpcode_def)
  ultimately show "\<exists>raw. kad_Pack p [0x19] = Inr raw \<and> kad_Unpack raw = Inr (0x19, p)"
    using u by (simp add: h kad_Unpack_def DecodePacket_def encodePacket_def)
qed

theorem kad_roundtrip_witness:
  "\<exists>raw. kad_Pack (KPong \<lparr>pong_UDPPort = 4672\<rparr>) [] = Inr raw \<and>
     kad_Unpack raw = Inr (0x61, KPong \<lparr>pong_UDPPort = 4672\<rparr>)"
  using kad_roundtrip [of "KPong \<lparr>pong_UDPPort = 4672\<rparr>"]
  by (simp add: wf_Pong_def put_Pong_def codec_len)

lemma bytesCompare_zeros:
  "length b = n \<Longrightarrow> b \<noteq> replicate n 0 \<Longrightarrow> bytesCompare (replicate n 0) b = -1"
proof (induction n arbitrary: b)
  case 0
  then show ?case by simp
next
  case (Suc n)
  then obtain x bs where b: "b = x # bs" "length bs = n" by (cases b) simp_all
  show ?case
  proof (cases "x = 0")
    case True
    with Suc b show ?thesis by simp
  next
    case False
    then have "0 < x" by (simp add: word_gt_0)
    with b show ?thesis by simp
  qed
qed

lemma distance_self: "distance t t = replicate (length t) 0"
  by (induction t) (simp_all add: distance_def)

lemma DistanceCompare_target:
  assumes "wf_hash t" and "wf_hash a" and "a \<noteq> t"
  shows "DistanceCompare t a t = -1"
proof -
  have "distance a t \<noteq> distance t t"
    using assms distance_inj [of a t t] by (auto simp: wf_hash_def)
  then have "bytesCompare (replicate 16 0) (distance a t) = -1"
    using assms by (intro bytesCompare_zeros) (simp_all add: distance_self wf_hash_def, simp add: distance_def)
  with assms show ?thesis by (simp add: DistanceCompare_eq distance_self wf_hash_def)
qed

text \<open>Seen from any target, comparing distances is a strict total order on identifiers: no
  two are equally far, and the target is nearer than all others.\<close>

theorem DistanceCompare_order:
  assumes "wf_hash t" and "wf_hash a" and "wf_hash b" and "wf_hash c"
  shows "DistanceCompare b a t = - DistanceCompare a b t \<and>
    (DistanceCompare a b t = 0 \<longleftrightarrow> a = b) \<and>
    (DistanceCompare a b t < 0 \<and> DistanceCompare b c t < 0 \<longrightarrow> DistanceCompare a c t < 0) \<and>
    (a \<noteq> t \<longrightarrow> DistanceCompare t a t = -1)"
  using three_way.cmp_swap [OF three_way_closer [OF assms(1)] assms(2,3)]
    three_way.cmp_eq_iff [OF three_way_closer [OF assms(1)] assms(2,3)]
    three_way.cmp_trans [OF three_way_closer [OF assms(1)] assms(2-4)]
    DistanceCompare_target [OF assms(1,2)]
  by (simp add: closer_def)

theorem DistanceCompare_order_witness: "DistanceCompare Invalid (replicate 16 1) Invalid = -1"
  using DistanceCompare_order [of Invalid "replicate 16 1" Invalid Invalid]
  by (simp add: wf_hash_def Invalid_def)

end
