(* ===== verification/Stable_Sort.thy ===== *)
theory Stable_Sort
  imports Three_Way "HOL-Library.Multiset"
begin

text \<open>
  \<^verbatim>\<open>sort.Slice(xs, less)\<close> as insertion sort. Go leaves the order of equal elements open; where
  no two elements compare equal, the sorted permutation is unique (\<open>csorted_unique\<close>) and the
  choice of algorithm does not matter.
\<close>

fun insert_by :: "('a \<Rightarrow> 'a \<Rightarrow> bool) \<Rightarrow> 'a \<Rightarrow> 'a list \<Rightarrow> 'a list" where
  "insert_by lt x [] = [x]"
| "insert_by lt x (y # ys) = (if lt y x then y # insert_by lt x ys else x # y # ys)"

definition sort_by :: "('a \<Rightarrow> 'a \<Rightarrow> bool) \<Rightarrow> 'a list \<Rightarrow> 'a list" where
  "sort_by lt xs = foldr (insert_by lt) xs []"

lemma mset_insert_by [simp]: "mset (insert_by lt x ys) = add_mset x (mset ys)"
  by (induction ys) auto

lemma mset_sort_by [simp]: "mset (sort_by lt xs) = mset xs"
  by (induction xs) (simp_all add: sort_by_def)

lemma set_sort_by [simp]: "set (sort_by lt xs) = set xs"
  by (metis mset_sort_by set_mset_mset)

lemma length_sort_by [simp]: "length (sort_by lt xs) = length xs"
  by (metis mset_sort_by size_mset)

lemma distinct_sort_by [simp]: "distinct (sort_by lt xs) = distinct xs"
  by (metis mset_eq_imp_distinct_iff mset_sort_by)

lemma sort_by_Nil_iff [simp]: "sort_by lt xs = [] \<longleftrightarrow> xs = []"
  by (metis length_0_conv length_sort_by)

text \<open>An order by several keys need not be total: then no element stands behind one that goes after it.\<close>

lemma sorted_insert_by:
  assumes asym: "\<And>a b. lt a b \<Longrightarrow> \<not> lt b a" and neg: "\<And>a b c. \<not> lt a b \<Longrightarrow> \<not> lt b c \<Longrightarrow> \<not> lt a c"
  shows "sorted_wrt (\<lambda>a b. \<not> lt b a) xs \<Longrightarrow> sorted_wrt (\<lambda>a b. \<not> lt b a) (insert_by lt x xs)"
proof (induction xs)
  case (Cons y xs)
  have set: "set (insert_by lt x xs) = insert x (set xs)" by (metis mset_insert_by set_mset_add_mset_insert set_mset_mset)
  show ?case using Cons asym [of y x] neg [of _ y x] by (auto simp: set)
qed simp

lemma sorted_sort_by:
  assumes "\<And>a b. lt a b \<Longrightarrow> \<not> lt b a" and "\<And>a b c. \<not> lt a b \<Longrightarrow> \<not> lt b c \<Longrightarrow> \<not> lt a c"
  shows "sorted_wrt (\<lambda>a b. \<not> lt b a) (sort_by lt xs)"
proof (induction xs)
  case (Cons x xs)
  from sorted_insert_by [OF assms Cons] have "sorted_wrt (\<lambda>a b. \<not> lt b a) (insert_by lt x (sort_by lt xs))" .
  then show ?case by (simp add: sort_by_def)
qed (simp add: sort_by_def)

context three_way begin

lemma csorted_insert_by:
  assumes "csorted key ys" and "ok (key x)" and "key x \<notin> key ` set ys"
  shows "csorted key (insert_by (\<lambda>a b. cmp (key a) (key b) < 0) x ys)"
  using assms
proof (induction ys)
  case Nil
  then show ?case by (simp add: csorted_def)
next
  case (Cons y ys)
  have y: "ok (key y)" and ys: "csorted key ys" and all: "\<forall>z\<in>set ys. cmp (key y) (key z) < 0 \<and> ok (key z)"
    using Cons.prems(1) by (auto simp: csorted_def)
  have set: "set (insert_by (\<lambda>a b. cmp (key a) (key b) < 0) x ys) = insert x (set ys)"
    by (metis mset_insert_by set_mset_add_mset_insert set_mset_mset)
  show ?case
  proof (cases "cmp (key y) (key x) < 0")
    case True
    with Cons.IH [OF ys] Cons.prems all y set show ?thesis by (auto simp: csorted_def)
  next
    case False
    then have xy: "cmp (key x) (key y) < 0"
      using cmp_total [OF Cons.prems(2) y] Cons.prems(3) by auto
    then have "cmp (key x) (key z) < 0" if "z \<in> set ys" for z
      using cmp_trans [OF Cons.prems(2) y _ xy] all that by blast
    with False xy Cons.prems show ?thesis by (auto simp: csorted_def)
  qed
qed

lemma cmp_le_trans: "ok a \<Longrightarrow> ok b \<Longrightarrow> ok c \<Longrightarrow> cmp a b \<le> 0 \<Longrightarrow> cmp b c \<le> 0 \<Longrightarrow> cmp a c \<le> 0"
  using cmp_trans [of a b c] cmp_eq [of a b] cmp_eq [of b c] by (metis order_le_less)

lemma sorted_le_insert_by:
  assumes "sorted_wrt (\<lambda>a b. cmp (key a) (key b) \<le> 0) ys" and "\<forall>z\<in>insert x (set ys). ok (key z)"
  shows "sorted_wrt (\<lambda>a b. cmp (key a) (key b) \<le> 0) (insert_by (\<lambda>a b. cmp (key a) (key b) < 0) x ys)"
  using assms
proof (induction ys)
  case (Cons y ys)
  have set: "set (insert_by (\<lambda>a b. cmp (key a) (key b) < 0) x ys) = insert x (set ys)"
    by (metis mset_insert_by set_mset_add_mset_insert set_mset_mset)
  show ?case
  proof (cases "cmp (key y) (key x) < 0")
    case True
    with Cons set show ?thesis by auto
  next
    case False
    then have xy: "cmp (key x) (key y) \<le> 0" using cmp_swap [of "key y" "key x"] Cons.prems(2) by simp
    then have "cmp (key x) (key z) \<le> 0" if "z \<in> set ys" for z
      using cmp_le_trans [of "key x" "key y" "key z"] Cons.prems that by simp
    with False xy Cons.prems show ?thesis by auto
  qed
qed simp

lemma sorted_le_sort_by:
  "\<forall>z\<in>set xs. ok (key z) \<Longrightarrow> sorted_wrt (\<lambda>a b. cmp (key a) (key b) \<le> 0) (sort_by (\<lambda>a b. cmp (key a) (key b) < 0) xs)"
proof (induction xs)
  case Nil
  then show ?case by (simp add: sort_by_def)
next
  case (Cons x xs)
  then show ?case using sorted_le_insert_by [of key "sort_by (\<lambda>a b. cmp (key a) (key b) < 0) xs" x]
    by (simp add: sort_by_def)
       (metis set_sort_by sort_by_def)
qed

lemma csorted_sort_by:
  "distinct (map key xs) \<Longrightarrow> (\<And>x. x \<in> set xs \<Longrightarrow> ok (key x)) \<Longrightarrow>
     csorted key (sort_by (\<lambda>a b. cmp (key a) (key b) < 0) xs)"
proof (induction xs)
  case Nil
  then show ?case by (simp add: sort_by_def csorted_def)
next
  case (Cons x xs)
  let ?s = "sort_by (\<lambda>a b. cmp (key a) (key b) < 0) xs"
  have "csorted key (insert_by (\<lambda>a b. cmp (key a) (key b) < 0) x ?s)"
    using Cons by (intro csorted_insert_by) auto
  then show ?case by (simp add: sort_by_def)
qed

lemma csorted_unique: "csorted key xs \<Longrightarrow> csorted key ys \<Longrightarrow> mset xs = mset ys \<Longrightarrow> xs = ys"
proof (induction xs arbitrary: ys)
  case Nil
  then show ?case by simp
next
  case (Cons x xs)
  then obtain y ys' where ys: "ys = y # ys'" by (cases ys) auto
  have "x = y"
  proof (rule ccontr)
    assume ne: "x \<noteq> y"
    have "x \<in> set ys'" "y \<in> set xs"
      using Cons.prems(3) ys ne
      by (metis set_ConsD list.set_intros(1) set_mset_mset)+
    with Cons.prems(1,2) ys have "cmp (key x) (key y) < 0" "cmp (key y) (key x) < 0" "ok (key x)" "ok (key y)"
      by (auto simp: csorted_def)
    then show False using cmp_swap [of "key x" "key y"] by simp
  qed
  moreover have "csorted key xs" "csorted key ys'"
    using Cons.prems ys by (auto simp: csorted_def)
  ultimately show ?case using Cons.IH [of ys'] Cons.prems(3) ys by simp
qed

lemma csorted_take: "csorted key xs \<Longrightarrow> csorted key (take n xs)"
  by (auto simp: csorted_def sorted_wrt_take dest: in_set_takeD)

lemma csorted_take_drop:
  "csorted key xs \<Longrightarrow> x \<in> set (take n xs) \<Longrightarrow> y \<in> set (drop n xs) \<Longrightarrow> cmp (key x) (key y) < 0"
  using sorted_wrt_append [of "\<lambda>x y. cmp (key x) (key y) < 0" "take n xs" "drop n xs"]
  by (simp add: csorted_def)

end

end
