(* ===== verification/Kad_Routing.thy ===== *)
theory Kad_Routing
  imports Kad_Packets Stable_Sort "HOL-Library.AList"
begin

unbundle bit_operations_syntax

text \<open>
  The Kademlia routing table (\<^verbatim>\<open>kad_routing.go\<close>): UDP addresses, routing nodes, the 128
  buckets with their live nodes and replacements, and the choice of the nodes nearest to a target.

  The table and the tracker share their nodes, so a \<^verbatim>\<open>*KadRoutingNode\<close> is an address into a
  heap, and an operation takes and returns the heap. A time is a number of nanoseconds, the zero
  \<^verbatim>\<open>time.Time\<close> is \<open>None\<close>, and what \<^verbatim>\<open>time.Now\<close> returns is the argument \<open>now\<close>.
  The string of a UDP address, which the code uses as a key, is the pair it is printed from.
\<close>

section \<open>UDP addresses\<close>

record UDPAddr =
  ua_IP :: bytes
  ua_Port :: int

definition v4InV6Prefix :: bytes where
  "v4InV6Prefix = replicate 10 0 @ [0xff, 0xff]"

definition net_IPv4 :: "u8 \<Rightarrow> u8 \<Rightarrow> u8 \<Rightarrow> u8 \<Rightarrow> bytes" where
  "net_IPv4 a b c d = v4InV6Prefix @ [a, b, c, d]"

definition To4 :: "bytes \<Rightarrow> bytes option" where
  "To4 ip =
     (if length ip = 4 then Some ip
      else if length ip = 16 \<and> take 12 ip = v4InV6Prefix then Some (drop 12 ip)
      else None)"

definition normalizeUDPAddr :: "UDPAddr \<Rightarrow> UDPAddr" where
  "normalizeUDPAddr addr =
     (case To4 (ua_IP addr) of None \<Rightarrow> addr | Some ip4 \<Rightarrow> \<lparr>ua_IP = ip4, ua_Port = ua_Port addr\<rparr>)"

type_synonym addr_key = "bytes \<times> int"

definition addr_String :: "UDPAddr \<Rightarrow> addr_key" where
  "addr_String addr =
     ((case To4 (ua_IP addr) of None \<Rightarrow> ua_IP addr | Some ip4 \<Rightarrow> ip4), ua_Port addr)"

definition udpAddrFromKad :: "KadEndpoint \<Rightarrow> UDPAddr" where
  "udpAddrFromKad e =
     \<lparr>ua_IP = net_IPv4 (ucast (ke_IP e)) (ucast (drop_bit 8 (ke_IP e)))
                (ucast (drop_bit 16 (ke_IP e))) (ucast (drop_bit 24 (ke_IP e))),
      ua_Port = uint (ke_UDPPort e)\<rparr>"

definition protocolIP :: "bytes \<Rightarrow> u32" where
  "protocolIP ip =
     (case To4 ip of
        None \<Rightarrow> 0
      | Some ip4 \<Rightarrow>
          ucast (ip4 ! 0) OR push_bit 8 (ucast (ip4 ! 1)) OR
          push_bit 16 (ucast (ip4 ! 2)) OR push_bit 24 (ucast (ip4 ! 3)))"

section \<open>Routing nodes\<close>

record KadRoutingNode =
  kn_ID :: hash
  kn_Addr :: "UDPAddr option"
  kn_TCPPort :: u16
  kn_Version :: u8
  kn_Seed :: bool
  kn_HelloSent :: bool
  kn_Pinged :: bool
  kn_FailCount :: int
  kn_FirstSeen :: "int option"
  kn_LastSeen :: "int option"

text \<open>\<open>&KadRoutingNode{}\<close>.\<close>

definition zero_node :: KadRoutingNode where
  "zero_node =
     \<lparr>kn_ID = Invalid, kn_Addr = None, kn_TCPPort = 0, kn_Version = 0, kn_Seed = False,
      kn_HelloSent = False, kn_Pinged = False, kn_FailCount = 0, kn_FirstSeen = None,
      kn_LastSeen = None\<rparr>"

definition kn_Key :: "KadRoutingNode \<Rightarrow> addr_key option" where
  "kn_Key n = map_option addr_String (kn_Addr n)"

definition KnownID :: "KadRoutingNode \<Rightarrow> bool" where
  "KnownID n \<longleftrightarrow> \<not> hash_Equal (kn_ID n) Invalid"

type_synonym node_heap = "nat \<Rightarrow> KadRoutingNode"

definition sortKadNodesByDistance :: "node_heap \<Rightarrow> nat list \<Rightarrow> hash \<Rightarrow> nat list" where
  "sortKadNodesByDistance h nodes target =
     sort_by (\<lambda>i j. DistanceCompare (kn_ID (h i)) (kn_ID (h j)) target < 0) nodes"

section \<open>Bucket indices\<close>

text \<open>The inner loop over the bits of one byte and the outer one over the bytes.\<close>

fun bit_loop :: "u8 \<Rightarrow> nat \<Rightarrow> nat \<Rightarrow> nat option" where
  "bit_loop x b 0 = None"
| "bit_loop x b (Suc n) =
     (if x AND drop_bit b 0x80 \<noteq> 0 then Some b else bit_loop x (Suc b) n)"

fun index_loop :: "hash \<Rightarrow> hash \<Rightarrow> nat \<Rightarrow> nat \<Rightarrow> nat" where
  "index_loop self other i 0 = 127"
| "index_loop self other i (Suc n) =
     (let x = self ! i XOR other ! i
      in if x = 0 then index_loop self other (Suc i) n
         else (case bit_loop x 0 8 of
                 Some b \<Rightarrow> i * 8 + b
               | None \<Rightarrow> index_loop self other (Suc i) n))"

definition kadBucketIndex :: "hash \<Rightarrow> hash \<Rightarrow> nat" where
  "kadBucketIndex self other = index_loop self other 0 16"

text \<open>
  \<open>randomKadIDWithinBucket\<close>: the leading bytes of the own identifier, then its byte with the
  bucket's bit turned over. \<open>source\<close> is what the random source delivers.
\<close>

definition copy_prefix :: "nat \<Rightarrow> hash \<Rightarrow> hash \<Rightarrow> hash" where
  "copy_prefix n self h = fold (\<lambda>i h. h[i := self ! i]) [0..<n] h"

definition randomKadIDWithinBucket :: "bytes option \<Rightarrow> nat \<Rightarrow> hash \<Rightarrow> hash" where
  "randomKadIDWithinBucket source index self =
     (case RandomHash source False of
        Inl e \<Rightarrow> self
      | Inr hash \<Rightarrow>
          (let byteIndex = index div 8;
               bitIndex = index mod 8;
               h = copy_prefix byteIndex self hash;
               mask = drop_bit bitIndex 0x80;
               b = self ! byteIndex
           in h[byteIndex := (b AND NOT mask) OR (NOT b AND mask)]))"

section \<open>The table\<close>

record kadRoutingBucket =
  bk_live :: "nat list"
  bk_replacements :: "nat list"
  bk_lastActive :: int

record kadRoutingTable =
  rt_self :: hash
  rt_bucketSize :: nat
  rt_buckets :: "kadRoutingBucket list"
  rt_routerNodes :: "(addr_key \<times> UDPAddr) list"
  rt_lastBootstrap :: "int option"
  rt_lastRefresh :: "int option"
  rt_lastSelfRefresh :: "int option"

definition newKadRoutingTable :: "int \<Rightarrow> hash \<Rightarrow> int \<Rightarrow> kadRoutingTable" where
  "newKadRoutingTable now self bucketSize =
     \<lparr>rt_self = self, rt_bucketSize = nat (if bucketSize \<le> 0 then 10 else bucketSize),
      rt_buckets = replicate 128 \<lparr>bk_live = [], bk_replacements = [], bk_lastActive = now\<rparr>,
      rt_routerNodes = [], rt_lastBootstrap = None, rt_lastRefresh = None,
      rt_lastSelfRefresh = None\<rparr>"

definition AddRouterNode :: "UDPAddr \<Rightarrow> kadRoutingTable \<Rightarrow> kadRoutingTable" where
  "AddRouterNode addr t =
     t\<lparr>rt_routerNodes := AList.update (addr_String addr) (normalizeUDPAddr addr) (rt_routerNodes t)\<rparr>"

definition RouterNodes :: "kadRoutingTable \<Rightarrow> UDPAddr list" where
  "RouterNodes t = map snd (rt_routerNodes t)"

text \<open>The first node with the needle's identifier or address, and its position.\<close>

definition same_node :: "KadRoutingNode \<Rightarrow> KadRoutingNode \<Rightarrow> bool" where
  "same_node node needle \<longleftrightarrow>
     KnownID node \<and> KnownID needle \<and> hash_Equal (kn_ID node) (kn_ID needle) \<or>
     kn_Addr node \<noteq> None \<and> kn_Addr needle \<noteq> None \<and>
       addr_String (the (kn_Addr node)) = addr_String (the (kn_Addr needle))"

definition findKadNode :: "node_heap \<Rightarrow> nat list \<Rightarrow> nat \<Rightarrow> nat option" where
  "findKadNode h nodes needle = find (\<lambda>i. same_node (h (nodes ! i)) (h needle)) [0..<length nodes]"

definition moveKadNodeToEnd :: "nat list \<Rightarrow> nat \<Rightarrow> nat list" where
  "moveKadNodeToEnd nodes index =
     (if index \<ge> length nodes then nodes else slice_delete nodes index @ [nodes ! index])"

text \<open>What both branches of \<open>addNode\<close> write into the node they found.\<close>

definition update_existing :: "int \<Rightarrow> bool \<Rightarrow> KadRoutingNode \<Rightarrow> KadRoutingNode \<Rightarrow> KadRoutingNode" where
  "update_existing now confirmed node existing =
     (let e = existing\<lparr>kn_Addr := kn_Addr node, kn_TCPPort := kn_TCPPort node,
                       kn_Version := kn_Version node, kn_LastSeen := Some now\<rparr>
      in if confirmed then e\<lparr>kn_Pinged := True, kn_FailCount := 0\<rparr> else e)"

definition fresh_node :: "int \<Rightarrow> bool \<Rightarrow> KadRoutingNode \<Rightarrow> KadRoutingNode" where
  "fresh_node now confirmed node =
     (let n = node\<lparr>kn_LastSeen := Some now,
                   kn_FirstSeen := (case kn_FirstSeen node of None \<Rightarrow> Some now | Some t \<Rightarrow> Some t)\<rparr>
      in if confirmed then n\<lparr>kn_Pinged := True, kn_FailCount := 0\<rparr> else n)"

definition add_to_bucket ::
  "int \<Rightarrow> nat \<Rightarrow> bool \<Rightarrow> nat \<Rightarrow> node_heap \<Rightarrow> kadRoutingBucket \<Rightarrow> node_heap \<times> kadRoutingBucket" where
  "add_to_bucket now bucketSize confirmed node h b0 =
     (let b = b0\<lparr>bk_lastActive := now\<rparr>;
          live = bk_live b;
          repl = bk_replacements b
      in case findKadNode h live node of
           Some pos \<Rightarrow>
             (h(live ! pos := update_existing now confirmed (h node) (h (live ! pos))),
              b\<lparr>bk_live := moveKadNodeToEnd live pos\<rparr>)
         | None \<Rightarrow>
             (case findKadNode h repl node of
                Some pos \<Rightarrow>
                  (let existing = repl ! pos; rest = slice_delete repl pos
                   in (h(existing := update_existing now confirmed (h node) (h existing)),
                       if \<not> confirmed then b
                       else if length live < bucketSize
                       then b\<lparr>bk_replacements := rest, bk_live := live @ [existing]\<rparr>
                       else b\<lparr>bk_replacements := rest @ [existing]\<rparr>))
              | None \<Rightarrow>
                  (h(node := fresh_node now confirmed (h node)),
                   if length live < bucketSize then b\<lparr>bk_live := live @ [node]\<rparr>
                   else if length repl < bucketSize then b\<lparr>bk_replacements := repl @ [node]\<rparr>
                   else b\<lparr>bk_replacements := drop 1 repl @ [node]\<rparr>)))"

definition addNode ::
  "int \<Rightarrow> nat \<Rightarrow> bool \<Rightarrow> node_heap \<times> kadRoutingTable \<Rightarrow> node_heap \<times> kadRoutingTable" where
  "addNode now node confirmed s =
     (let (h, t) = s
      in if \<not> KnownID (h node) then (h, t)
         else
           (let index = kadBucketIndex (rt_self t) (kn_ID (h node));
                (h', b) = add_to_bucket now (rt_bucketSize t) confirmed node h (rt_buckets t ! index)
            in (h', t\<lparr>rt_buckets := (rt_buckets t)[index := b]\<rparr>)))"

definition HeardAbout :: "int \<Rightarrow> nat \<Rightarrow> node_heap \<times> kadRoutingTable \<Rightarrow> node_heap \<times> kadRoutingTable" where
  "HeardAbout now node s = addNode now node False s"

definition NodeSeen :: "int \<Rightarrow> nat \<Rightarrow> node_heap \<times> kadRoutingTable \<Rightarrow> node_heap \<times> kadRoutingTable" where
  "NodeSeen now node s = addNode now node True s"

definition fail_in_bucket ::
  "nat \<Rightarrow> node_heap \<Rightarrow> kadRoutingBucket \<Rightarrow> node_heap \<times> kadRoutingBucket" where
  "fail_in_bucket node h b =
     (let live = bk_live b; repl = bk_replacements b
      in case findKadNode h live node of
           Some pos \<Rightarrow>
             (let existing = live ! pos; h' = h(existing := (h existing)\<lparr>kn_FailCount := kn_FailCount (h existing) + 1\<rparr>)
              in if \<not> kn_Pinged (h existing) then (h, b\<lparr>bk_live := slice_delete live pos\<rparr>)
                 else if length repl > 0
                 then (h', b\<lparr>bk_replacements := drop 1 repl, bk_live := live[pos := repl ! 0]\<rparr>)
                 else if kn_FailCount (h' existing) \<ge> 20
                 then (h', b\<lparr>bk_live := slice_delete live pos\<rparr>)
                 else (h', b))
         | None \<Rightarrow>
             (case findKadNode h repl node of
                Some pos \<Rightarrow> (h, b\<lparr>bk_replacements := slice_delete repl pos\<rparr>)
              | None \<Rightarrow> (h, b)))"

definition NodeFailed :: "nat \<Rightarrow> node_heap \<times> kadRoutingTable \<Rightarrow> node_heap \<times> kadRoutingTable" where
  "NodeFailed node s =
     (let (h, t) = s
      in if \<not> KnownID (h node) then (h, t)
         else
           (let index = kadBucketIndex (rt_self t) (kn_ID (h node));
                (h', b) = fail_in_bucket node h (rt_buckets t ! index)
            in (h', t\<lparr>rt_buckets := (rt_buckets t)[index := b]\<rparr>)))"

text \<open>A limit that is not positive is no limit.\<close>

definition limited :: "int \<Rightarrow> 'a list \<Rightarrow> 'a list" where
  "limited limit xs = (if limit > 0 \<and> int (length xs) > limit then take (nat limit) xs else xs)"

definition eligible_live :: "node_heap \<Rightarrow> kadRoutingTable \<Rightarrow> bool \<Rightarrow> nat list" where
  "eligible_live h t includeUnconfirmed =
     filter (\<lambda>n. includeUnconfirmed \<or> kn_Pinged (h n)) (concat (map bk_live (rt_buckets t)))"

definition FindClosest :: "node_heap \<Rightarrow> kadRoutingTable \<Rightarrow> hash \<Rightarrow> int \<Rightarrow> bool \<Rightarrow> nat list" where
  "FindClosest h t target limit includeUnconfirmed =
     limited limit (sortKadNodesByDistance h (eligible_live h t includeUnconfirmed) target)"

definition TouchBucket :: "int \<Rightarrow> hash \<Rightarrow> kadRoutingTable \<Rightarrow> kadRoutingTable" where
  "TouchBucket now target t =
     (let index = kadBucketIndex (rt_self t) target
      in t\<lparr>rt_buckets := (rt_buckets t)[index := (rt_buckets t ! index)\<lparr>bk_lastActive := now\<rparr>]\<rparr>)"

definition rt_Size :: "kadRoutingTable \<Rightarrow> nat \<times> nat" where
  "rt_Size t =
     (sum_list (map (length \<circ> bk_live) (rt_buckets t)),
      sum_list (map (length \<circ> bk_replacements) (rt_buckets t)))"

definition second :: int where "second = 1000000000"

text \<open>\<open>last.IsZero() || now.Sub(last) >= d\<close>.\<close>

definition elapsed :: "int \<Rightarrow> int option \<Rightarrow> int \<Rightarrow> bool" where
  "elapsed now since d \<longleftrightarrow> (case since of None \<Rightarrow> True | Some l \<Rightarrow> now - l \<ge> d)"

definition NeedBootstrap :: "int \<Rightarrow> kadRoutingTable \<Rightarrow> bool \<times> kadRoutingTable" where
  "NeedBootstrap now t =
     (let (live, replacements) = rt_Size t
      in if live > 0 \<or> replacements \<ge> rt_bucketSize t then (False, t)
         else if elapsed now (rt_lastBootstrap t) (30 * second)
         then (True, t\<lparr>rt_lastBootstrap := Some now\<rparr>)
         else (False, t))"

text \<open>The loop of \<open>NeedRefresh\<close>: the bucket longest without activity, at least a quarter of an hour.\<close>

fun stale_loop :: "int \<Rightarrow> kadRoutingBucket list \<Rightarrow> nat \<Rightarrow> (nat \<times> int) option \<Rightarrow> (nat \<times> int) option" where
  "stale_loop now [] i best = best"
| "stale_loop now (b # bs) i best =
     (let active = bk_lastActive b
      in stale_loop now bs (Suc i)
           (if now - active < 15 * 60 * second then best
            else (case best of
                    None \<Rightarrow> Some (i, active)
                  | Some (j, oldest) \<Rightarrow> if active < oldest then Some (i, active) else best)))"

definition NeedRefresh :: "bytes option \<Rightarrow> int \<Rightarrow> kadRoutingTable \<Rightarrow> hash option \<times> kadRoutingTable" where
  "NeedRefresh source now t =
     (if elapsed now (rt_lastSelfRefresh t) (15 * 60 * second)
      then (Some (rt_self t), t\<lparr>rt_lastSelfRefresh := Some now\<rparr>)
      else
        (case stale_loop now (rt_buckets t) 0 None of
           None \<Rightarrow> (None, t)
         | Some (index, oldest) \<Rightarrow>
             if \<not> elapsed now (rt_lastRefresh t) (45 * second) then (None, t)
             else (Some (randomKadIDWithinBucket source index (rt_self t)),
                   t\<lparr>rt_lastRefresh := Some now\<rparr>)))"


section \<open>Bucket indices are lengths of common prefixes\<close>

text \<open>Bit \<open>k\<close> of an identifier, counted from the most significant one.\<close>

definition id_bit :: "hash \<Rightarrow> nat \<Rightarrow> bool" where
  "id_bit h k = bit (h ! (k div 8)) (7 - k mod 8)"

lemma less_8: "(b::nat) < 8 \<longleftrightarrow> b = 0 \<or> b = 1 \<or> b = 2 \<or> b = 3 \<or> b = 4 \<or> b = 5 \<or> b = 6 \<or> b = 7"
  by arith

lemma mask_power: "b < 8 \<Longrightarrow> drop_bit b (0x80 :: u8) = 2 ^ (7 - b)"
  by (auto simp: less_8)

lemma mask_test: "b < 8 \<Longrightarrow> (x :: u8) AND drop_bit b 0x80 \<noteq> 0 \<longleftrightarrow> bit x (7 - b)"
  by (simp add: mask_power and_exp_eq_0_iff_not_bit)

lemma bit_loop_Some:
  "b + n = 8 \<Longrightarrow> bit_loop x b n = Some k \<longleftrightarrow>
     b \<le> k \<and> k < 8 \<and> bit x (7 - k) \<and> (\<forall>j. b \<le> j \<and> j < k \<longrightarrow> \<not> bit x (7 - j))"
proof (induction n arbitrary: b)
  case 0
  then show ?case by simp
next
  case (Suc n)
  then have b: "b < 8" by simp
  show ?case
  proof (cases "bit x (7 - b)")
    case True
    then show ?thesis using b mask_test [OF b, of x]
      by (auto simp: le_less)
  next
    case False
    have "(b \<le> k \<and> k < 8 \<and> bit x (7 - k) \<and> (\<forall>j. b \<le> j \<and> j < k \<longrightarrow> \<not> bit x (7 - j))) \<longleftrightarrow>
      (Suc b \<le> k \<and> k < 8 \<and> bit x (7 - k) \<and> (\<forall>j. Suc b \<le> j \<and> j < k \<longrightarrow> \<not> bit x (7 - j)))"
      using False by (metis Suc_leD Suc_leI le_neq_implies_less)
    with False b mask_test [OF b, of x] Suc show ?thesis by simp
  qed
qed

lemma bit_loop_None: "b + n = 8 \<Longrightarrow> bit_loop x b n = None \<Longrightarrow> b \<le> j \<Longrightarrow> j < 8 \<Longrightarrow> \<not> bit x (7 - j)"
proof (induction n arbitrary: b)
  case 0
  then show ?case by simp
next
  case (Suc n)
  then have b: "b < 8" by simp
  with Suc.prems(2) mask_test [OF b, of x] have "\<not> bit x (7 - b)" "bit_loop x (Suc b) n = None"
    by (auto split: if_splits)
  with Suc.IH [of "Suc b"] Suc.prems show ?case by (cases "j = b") simp_all
qed

lemma byte_zero_iff: "(x :: u8) = 0 \<longleftrightarrow> (\<forall>j < 8. \<not> bit x (7 - j))"
proof
  assume *: "\<forall>j < 8. \<not> bit x (7 - j)"
  have "\<not> bit x n" if "n < 8" for n
    using * [rule_format, of "7 - n"] that by simp
  then show "x = 0" by (intro bit_word_eqI) simp
qed simp

text \<open>The scan from byte \<open>i\<close> on finds the first bit from \<open>8 * i\<close> on in which the two differ.\<close>

lemma index_loop_first:
  assumes "i + n = 16" and "8 * i \<le> k" and "k < 128" and "id_bit a k \<noteq> id_bit b k"
    and "\<And>j. 8 * i \<le> j \<Longrightarrow> j < k \<Longrightarrow> id_bit a j = id_bit b j"
  shows "index_loop a b i n = k"
  using assms
proof (induction n arbitrary: i)
  case 0
  then show ?case by simp
next
  case (Suc n)
  define x where "x = a ! i XOR b ! i"
  have at: "bit x (7 - j) \<longleftrightarrow> id_bit a (8 * i + j) \<noteq> id_bit b (8 * i + j)" if "j < 8" for j
    using that by (simp add: x_def id_bit_def bit_xor_iff)
  show ?case
  proof (cases "k < 8 * Suc i")
    case True
    define m where "m = k - 8 * i"
    have k: "k = 8 * i + m" "m < 8" using True Suc.prems(2) by (auto simp: m_def)
    have m: "bit x (7 - m)" using Suc.prems(4) at [OF k(2)] k(1) by simp
    have "bit_loop x 0 8 = Some m"
      using m k at Suc.prems(5) by (auto simp: bit_loop_Some)
    moreover have "x \<noteq> 0" using m by auto
    ultimately show ?thesis using k by (simp add: Let_def flip: x_def)
  next
    case False
    have "\<not> bit x (7 - j)" if "j < 8" for j
      using at [OF that] Suc.prems(5) [of "8 * i + j"] False that by simp
    then have "x = 0" by (simp add: byte_zero_iff)
    with Suc.IH [of "Suc i"] Suc.prems False show ?thesis by (simp add: Let_def flip: x_def)
  qed
qed

lemma index_loop_same:
  "i + n = 16 \<Longrightarrow> (\<And>j. 8 * i \<le> j \<Longrightarrow> j < 128 \<Longrightarrow> id_bit a j = id_bit b j) \<Longrightarrow> index_loop a b i n = 127"
proof (induction n arbitrary: i)
  case 0
  then show ?case by simp
next
  case (Suc n)
  define x where "x = a ! i XOR b ! i"
  have "\<not> bit x (7 - j)" if "j < 8" for j
    using Suc.prems(2) [of "8 * i + j"] Suc.prems(1) that by (simp add: x_def id_bit_def bit_xor_iff)
  then have "x = 0" by (simp add: byte_zero_iff)
  with Suc show ?case by (simp add: Let_def flip: x_def)
qed

lemma kadBucketIndex_first:
  "k < 128 \<Longrightarrow> id_bit a k \<noteq> id_bit b k \<Longrightarrow> (\<And>j. j < k \<Longrightarrow> id_bit a j = id_bit b j) \<Longrightarrow>
     kadBucketIndex a b = k"
  by (simp add: kadBucketIndex_def index_loop_first)

lemma hash_eqI_bits:
  assumes "wf_hash a" and "wf_hash b" and "\<And>j. j < 128 \<Longrightarrow> id_bit a j = id_bit b j"
  shows "a = b"
proof (rule nth_equalityI)
  fix i
  assume "i < length a"
  then have i: "i < 16" using assms(1) by (simp add: wf_hash_def)
  show "a ! i = b ! i"
  proof (rule bit_word_eqI)
    fix n
    assume "n < LENGTH(8)"
    with assms(3) [of "8 * i + (7 - n)"] i show "bit (a ! i) n = bit (b ! i) n"
      by (simp add: id_bit_def)
  qed
qed (use assms in \<open>simp add: wf_hash_def\<close>)

lemma first_difference:
  assumes "m < 128" and "id_bit a m \<noteq> id_bit b m"
  shows "\<exists>k < 128. id_bit a k \<noteq> id_bit b k \<and> (\<forall>j < k. id_bit a j = id_bit b j)"
  using assms
proof (induction m rule: less_induct)
  case (less m)
  show ?case
  proof (cases "\<exists>j < m. id_bit a j \<noteq> id_bit b j")
    case True
    then obtain j where j: "j < m" "id_bit a j \<noteq> id_bit b j" by blast
    show ?thesis by (rule less.IH [OF j(1) _ j(2)]) (use j(1) less.prems(1) in simp)
  next
    case False
    with less.prems show ?thesis by blast
  qed
qed

lemma kadBucketIndex_less: "kadBucketIndex a b < 128"
proof (cases "\<exists>k < 128. id_bit a k \<noteq> id_bit b k")
  case True
  then obtain m where "m < 128" "id_bit a m \<noteq> id_bit b m" by blast
  from first_difference [OF this] obtain k where
    k: "k < 128" "id_bit a k \<noteq> id_bit b k" "\<forall>j < k. id_bit a j = id_bit b j" by blast
  have "kadBucketIndex a b = k"
    by (rule kadBucketIndex_first) (use k in simp_all)
  with k(1) show ?thesis by simp
next
  case False
  then have "kadBucketIndex a b = 127"
    unfolding kadBucketIndex_def by (intro index_loop_same) auto
  then show ?thesis by simp
qed

lemma kadBucketIndex_self: "kadBucketIndex a a = 127"
  by (simp add: kadBucketIndex_def index_loop_same)

lemma length_copy_prefix [simp]: "length (copy_prefix n self h) = length h"
  by (induction n) (simp_all add: copy_prefix_def)

lemma copy_prefix_nth: "n \<le> length h \<Longrightarrow> i < length h \<Longrightarrow> copy_prefix n self h ! i = (if i < n then self ! i else h ! i)"
proof (induction n)
  case 0
  then show ?case by (simp add: copy_prefix_def)
next
  case (Suc n)
  have "copy_prefix (Suc n) self h = (copy_prefix n self h)[n := self ! n]"
    by (simp add: copy_prefix_def)
  with Suc show ?case by (auto simp: nth_list_update)
qed

lemma flip_bit: "m < 8 \<Longrightarrow> n < 8 \<Longrightarrow>
   bit (((b :: u8) AND NOT (drop_bit m 0x80)) OR (NOT b AND drop_bit m 0x80)) n \<longleftrightarrow>
     (bit b n \<noteq> (n = 7 - m))"
  by (auto simp: mask_power bit_or_iff bit_and_iff bit_not_iff bit_exp_iff possible_bit_def)

lemma randomKadID_index:
  assumes "length src = 16" and "wf_hash self" and "index < 128"
  shows "kadBucketIndex self (randomKadIDWithinBucket (Some src) index self) = index"
    and "wf_hash (randomKadIDWithinBucket (Some src) index self)"
proof -
  define q where "q = index div 8"
  define b where "b = self ! q"
  define mask where "mask = drop_bit (index mod 8) (0x80 :: u8)"
  define r where "r = (copy_prefix q self src)[q := (b AND NOT mask) OR (NOT b AND mask)]"
  have r: "randomKadIDWithinBucket (Some src) index self = r"
    using assms(1) by (simp add: randomKadIDWithinBucket_def RandomHash_def HashFromBytes_def hashSize_def
        Let_def r_def q_def b_def mask_def)
  have q: "q < 16" using assms(3) by (simp add: q_def)
  have rq: "r ! q = (b AND NOT mask) OR (NOT b AND mask)" "\<And>i. i < q \<Longrightarrow> r ! i = self ! i"
    using q assms(1) by (simp_all add: r_def copy_prefix_nth)
  have at: "id_bit r index \<noteq> id_bit self index"
    using flip_bit [of "index mod 8" "7 - index mod 8" b] rq(1)
    by (simp add: id_bit_def b_def mask_def flip: q_def)
  have below: "id_bit r j = id_bit self j" if "j < index" for j
  proof (cases "j div 8 = q")
    case True
    then have "j mod 8 < index mod 8" using that unfolding q_def
      by (metis add_less_cancel_left mult_div_mod_eq)
    then have "7 - j mod 8 \<noteq> 7 - index mod 8" by simp
    then show ?thesis
      using flip_bit [of "index mod 8" "7 - j mod 8" b] rq(1) True
      by (simp add: id_bit_def b_def mask_def)
  next
    case False
    then have "j div 8 < q" using that by (simp add: q_def div_le_mono order_le_neq_trans)
    then show ?thesis using rq(2) by (simp add: id_bit_def)
  qed
  show "kadBucketIndex self (randomKadIDWithinBucket (Some src) index self) = index"
    unfolding r by (rule kadBucketIndex_first) (use at below assms(3) in auto)
  show "wf_hash (randomKadIDWithinBucket (Some src) index self)"
    unfolding r using assms(1) by (simp add: r_def wf_hash_def)
qed


section \<open>Well-formed tables\<close>

lemma mset_slice_delete: "i < length xs \<Longrightarrow> mset xs = add_mset (xs ! i) (mset (slice_delete xs i))"
proof -
  assume "i < length xs"
  then have "mset xs = mset (take i xs @ xs ! i # drop (Suc i) xs)"
    by (simp flip: slice_delete_split)
  then show ?thesis by (simp add: slice_delete_def)
qed

lemma mset_moveKadNodeToEnd [simp]: "mset (moveKadNodeToEnd nodes i) = mset nodes"
  by (auto simp: moveKadNodeToEnd_def mset_slice_delete not_le)

lemma set_moveKadNodeToEnd [simp]: "set (moveKadNodeToEnd nodes i) = set nodes"
  by (metis mset_moveKadNodeToEnd set_mset_mset)

lemma length_moveKadNodeToEnd [simp]: "length (moveKadNodeToEnd nodes i) = length nodes"
  by (metis mset_moveKadNodeToEnd size_mset)

lemma distinct_map_mset: "mset xs \<subseteq># mset ys \<Longrightarrow> distinct (map f ys) \<Longrightarrow> distinct (map f xs)"
proof -
  assume "mset xs \<subseteq># mset ys" and d: "distinct (map f ys)"
  then have "mset (map f xs) \<subseteq># mset (map f ys)"
    by (simp add: image_mset_subseteq_mono)
  then have "count (mset (map f xs)) x \<le> 1" for x
    using d by (metis distinct_count_atmost_1 le_trans linorder_le_cases mset_subset_eq_count order_refl
        zero_le_one)
  then show ?thesis
    unfolding distinct_count_atmost_1 by (metis count_eq_zero_iff le_neq_implies_less less_one set_mset_mset)
qed

lemma findKadNode_Some: "findKadNode h nodes needle = Some i \<Longrightarrow> i < length nodes \<and> same_node (h (nodes ! i)) (h needle)"
  by (auto simp: findKadNode_def find_Some_iff)

lemma findKadNode_None: "findKadNode h nodes needle = None \<Longrightarrow> n \<in> set nodes \<Longrightarrow> \<not> same_node (h n) (h needle)"
  by (auto simp: findKadNode_def find_None_iff in_set_conv_nth)

definition placed :: "node_heap \<Rightarrow> hash \<Rightarrow> nat \<Rightarrow> nat \<Rightarrow> bool" where
  "placed h self i n \<longleftrightarrow>
     KnownID (h n) \<and> wf_hash (kn_ID (h n)) \<and> kadBucketIndex self (kn_ID (h n)) = i"

definition bucket_ok :: "node_heap \<Rightarrow> hash \<Rightarrow> nat \<Rightarrow> nat \<Rightarrow> kadRoutingBucket \<Rightarrow> bool" where
  "bucket_ok h self limit i b \<longleftrightarrow>
     length (bk_live b) \<le> limit \<and> length (bk_replacements b) \<le> limit \<and>
     distinct (map (kn_ID \<circ> h) (bk_live b @ bk_replacements b)) \<and>
     (\<forall>n \<in> set (bk_live b @ bk_replacements b). placed h self i n)"

definition table_ok :: "node_heap \<times> kadRoutingTable \<Rightarrow> bool" where
  "table_ok s \<longleftrightarrow>
     (let (h, t) = s
      in wf_hash (rt_self t) \<and> 0 < rt_bucketSize t \<and> length (rt_buckets t) = 128 \<and>
         (\<forall>i < 128. bucket_ok h (rt_self t) (rt_bucketSize t) i (rt_buckets t ! i)))"

definition same_ids :: "node_heap \<Rightarrow> node_heap \<Rightarrow> bool" where
  "same_ids h h' \<longleftrightarrow> (\<forall>n. kn_ID (h' n) = kn_ID (h n))"

lemma same_ids_refl [simp]: "same_ids h h"
  by (simp add: same_ids_def)

lemma same_ids_upd [simp]: "kn_ID k = kn_ID (h n) \<Longrightarrow> same_ids h (h(n := k))"
  by (simp add: same_ids_def)

lemma kn_ID_update_existing [simp]: "kn_ID (update_existing now c node e) = kn_ID e"
  by (simp add: update_existing_def Let_def)

lemma kn_ID_fresh_node [simp]: "kn_ID (fresh_node now c node) = kn_ID node"
  by (simp add: fresh_node_def Let_def)

lemma placed_same_ids: "same_ids h h' \<Longrightarrow> placed h' self i n = placed h self i n"
  by (simp add: placed_def same_ids_def KnownID_def)

lemma bucket_ok_same_ids: "same_ids h h' \<Longrightarrow> bucket_ok h' self limit i b = bucket_ok h self limit i b"
proof -
  assume s: "same_ids h h'"
  then have "kn_ID \<circ> h' = kn_ID \<circ> h" by (simp add: same_ids_def fun_eq_iff)
  with s show ?thesis by (simp add: bucket_ok_def placed_same_ids)
qed

text \<open>The nodes of a bucket after an operation: some of the old ones, and at most one new one.\<close>

lemma bucket_ok_sub:
  assumes "bucket_ok h self limit i b" and "length (bk_live b') \<le> limit" and "length (bk_replacements b') \<le> limit"
    and "mset (bk_live b' @ bk_replacements b') \<subseteq># mset (bk_live b @ bk_replacements b)"
  shows "bucket_ok h self limit i b'"
proof -
  have "set (bk_live b' @ bk_replacements b') \<subseteq> set (bk_live b @ bk_replacements b)"
    using set_mset_mono [OF assms(4)] by simp
  with assms distinct_map_mset [OF assms(4)] show ?thesis
    unfolding bucket_ok_def by blast
qed

lemma bucket_ok_insert:
  assumes "bucket_ok h self limit i b" and "length (bk_live b') \<le> limit" and "length (bk_replacements b') \<le> limit"
    and "mset (bk_live b' @ bk_replacements b') \<subseteq># add_mset node (mset (bk_live b @ bk_replacements b))"
    and "placed h self i node"
    and "\<And>n. n \<in> set (bk_live b @ bk_replacements b) \<Longrightarrow> kn_ID (h n) \<noteq> kn_ID (h node)"
  shows "bucket_ok h self limit i b'"
proof -
  let ?old = "bk_live b @ bk_replacements b"
  have sub: "mset (bk_live b' @ bk_replacements b') \<subseteq># mset (node # ?old)" using assms(4) by simp
  have "distinct (map (kn_ID \<circ> h) (node # ?old))"
    using assms(1,6) by (force simp: bucket_ok_def)
  from distinct_map_mset [OF sub this]
  have d: "distinct (map (kn_ID \<circ> h) (bk_live b' @ bk_replacements b'))" .
  have "set (bk_live b' @ bk_replacements b') \<subseteq> insert node (set ?old)"
    using set_mset_mono [OF sub] by simp
  with assms(1-3,5) d show ?thesis unfolding bucket_ok_def by blast
qed

lemma same_ids_add_to_bucket: "same_ids h (fst (add_to_bucket now limit c node h b))"
  by (auto simp: add_to_bucket_def Let_def split: option.splits)

lemma same_ids_fail_in_bucket: "same_ids h (fst (fail_in_bucket node h b))"
  by (auto simp: fail_in_bucket_def Let_def split: option.splits)

lemma bucket_ok_lastActive [simp]: "bucket_ok h self limit i (b\<lparr>bk_lastActive := now\<rparr>) = bucket_ok h self limit i b"
  by (simp add: bucket_ok_def)

text \<open>The branches of the two operations.\<close>

lemma add_live:
  "findKadNode h (bk_live b) node = Some pos \<Longrightarrow>
     snd (add_to_bucket now limit c node h b) =
       b\<lparr>bk_lastActive := now, bk_live := moveKadNodeToEnd (bk_live b) pos\<rparr>"
  by (simp add: add_to_bucket_def Let_def)

lemma add_replacement:
  "findKadNode h (bk_live b) node = None \<Longrightarrow> findKadNode h (bk_replacements b) node = Some pos \<Longrightarrow>
     snd (add_to_bucket now limit c node h b) =
       (let rest = slice_delete (bk_replacements b) pos; e = bk_replacements b ! pos; b' = b\<lparr>bk_lastActive := now\<rparr>
        in if \<not> c then b'
           else if length (bk_live b) < limit then b'\<lparr>bk_replacements := rest, bk_live := bk_live b @ [e]\<rparr>
           else b'\<lparr>bk_replacements := rest @ [e]\<rparr>)"
  by (simp add: add_to_bucket_def Let_def)

lemma add_new:
  "findKadNode h (bk_live b) node = None \<Longrightarrow> findKadNode h (bk_replacements b) node = None \<Longrightarrow>
     snd (add_to_bucket now limit c node h b) =
       (let b' = b\<lparr>bk_lastActive := now\<rparr>
        in if length (bk_live b) < limit then b'\<lparr>bk_live := bk_live b @ [node]\<rparr>
           else if length (bk_replacements b) < limit then b'\<lparr>bk_replacements := bk_replacements b @ [node]\<rparr>
           else b'\<lparr>bk_replacements := drop 1 (bk_replacements b) @ [node]\<rparr>)"
  by (simp add: add_to_bucket_def Let_def)

lemma fail_live:
  "findKadNode h (bk_live b) node = Some pos \<Longrightarrow>
     snd (fail_in_bucket node h b) =
       (if \<not> kn_Pinged (h (bk_live b ! pos)) then b\<lparr>bk_live := slice_delete (bk_live b) pos\<rparr>
        else if bk_replacements b \<noteq> []
        then b\<lparr>bk_replacements := tl (bk_replacements b), bk_live := (bk_live b)[pos := hd (bk_replacements b)]\<rparr>
        else if kn_FailCount (h (bk_live b ! pos)) + 1 \<ge> 20 then b\<lparr>bk_live := slice_delete (bk_live b) pos\<rparr>
        else b)"
  by (cases "bk_replacements b") (simp_all add: fail_in_bucket_def Let_def)

lemma fail_not_live:
  "findKadNode h (bk_live b) node = None \<Longrightarrow>
     snd (fail_in_bucket node h b) =
       (case findKadNode h (bk_replacements b) node of
          Some pos \<Rightarrow> b\<lparr>bk_replacements := slice_delete (bk_replacements b) pos\<rparr> | None \<Rightarrow> b)"
  by (simp add: fail_in_bucket_def Let_def split: option.split)

lemma slice_delete_sub: "i < length xs \<Longrightarrow> mset (slice_delete xs i) \<subseteq># mset xs"
  by (simp add: mset_slice_delete [of i xs])

lemma slice_delete_end: "i < length xs \<Longrightarrow> mset (slice_delete xs i @ [xs ! i]) = mset xs"
  by (simp add: mset_slice_delete [of i xs])

lemma drop_sub: "mset (drop n xs) \<subseteq># mset xs"
  by (metis append_take_drop_id mset_append mset_subset_eq_add_right)

lemma add_to_bucket_ok:
  assumes ok: "bucket_ok h self limit i b" and p: "placed h self i node" and "0 < limit"
  shows "bucket_ok h self limit i (snd (add_to_bucket now limit c node h b))"
proof (cases "findKadNode h (bk_live b) node")
  case (Some pos)
  show ?thesis
    unfolding add_live [OF Some] by (rule bucket_ok_sub [OF ok]) (use ok in \<open>auto simp: bucket_ok_def\<close>)
next
  case live: None
  show ?thesis
  proof (cases "findKadNode h (bk_replacements b) node")
    case (Some pos)
    note pos = findKadNode_Some [OF Some]
    show ?thesis
      unfolding add_replacement [OF live Some] Let_def
      by (rule bucket_ok_sub [OF ok])
        (use ok pos in \<open>auto simp: bucket_ok_def mset_slice_delete [of pos "bk_replacements b"]\<close>)
  next
    case None
    have new: "kn_ID (h n) \<noteq> kn_ID (h node)" if "n \<in> set (bk_live b @ bk_replacements b)" for n
      using that findKadNode_None [OF live, of n] findKadNode_None [OF None, of n] p ok
      by (auto simp: same_node_def hash_Equal_def placed_def bucket_ok_def)
    show ?thesis
      unfolding add_new [OF live None] Let_def
      by (rule bucket_ok_insert [OF ok _ _ _ p new])
        (use ok \<open>0 < limit\<close> drop_sub [of 1 "bk_replacements b"] in \<open>auto simp: bucket_ok_def\<close>)
  qed
qed

lemma fail_in_bucket_ok:
  assumes ok: "bucket_ok h self limit i b"
  shows "bucket_ok h self limit i (snd (fail_in_bucket node h b))"
proof (cases "findKadNode h (bk_live b) node")
  case (Some pos)
  note pos = findKadNode_Some [OF Some]
  have repl: "mset ((bk_live b)[pos := r]) \<subseteq># add_mset r (mset (bk_live b))" for r
    using pos by (simp add: mset_update mset_slice_delete [of pos "bk_live b"])
  show ?thesis
    unfolding fail_live [OF Some]
    by (rule bucket_ok_sub [OF ok])
      (use ok pos repl slice_delete_sub [of pos "bk_live b"] in
        \<open>auto simp: bucket_ok_def neq_Nil_conv\<close>)
next
  case live: None
  show ?thesis
    unfolding fail_not_live [OF live]
    by (rule bucket_ok_sub [OF ok])
      (use ok in \<open>auto simp: bucket_ok_def slice_delete_sub dest: findKadNode_Some split: option.split\<close>)
qed

lemma table_ok_bucket:
  "table_ok (h, t) \<Longrightarrow> i < 128 \<Longrightarrow> bucket_ok h (rt_self t) (rt_bucketSize t) i (rt_buckets t ! i)"
  by (simp add: table_ok_def)

lemma table_ok_update:
  assumes "table_ok (h, t)" and "same_ids h h'" and "bucket_ok h (rt_self t) (rt_bucketSize t) i b"
    and "i < 128"
  shows "table_ok (h', t\<lparr>rt_buckets := (rt_buckets t)[i := b]\<rparr>)"
  using assms bucket_ok_same_ids [OF assms(2)]
  by (auto simp: table_ok_def nth_list_update)

lemma table_ok_same_buckets:
  "table_ok (h, t) \<Longrightarrow> rt_buckets t' = rt_buckets t \<Longrightarrow> rt_self t' = rt_self t \<Longrightarrow>
     rt_bucketSize t' = rt_bucketSize t \<Longrightarrow> table_ok (h, t')"
  by (simp add: table_ok_def)

lemma addNode_ok:
  assumes ok: "table_ok (h, t)" and wf: "wf_hash (kn_ID (h node))"
  shows "table_ok (addNode now node c (h, t))" and "same_ids h (fst (addNode now node c (h, t)))"
    and "rt_self (snd (addNode now node c (h, t))) = rt_self t"
proof -
  let ?i = "kadBucketIndex (rt_self t) (kn_ID (h node))"
  let ?r = "add_to_bucket now (rt_bucketSize t) c node h (rt_buckets t ! ?i)"
  have eq: "addNode now node c (h, t) =
     (if \<not> KnownID (h node) then (h, t) else (fst ?r, t\<lparr>rt_buckets := (rt_buckets t)[?i := snd ?r]\<rparr>))"
    by (simp add: addNode_def Let_def split_beta)
  have i: "?i < 128" by (rule kadBucketIndex_less)
  have ids: "same_ids h (fst ?r)" by (rule same_ids_add_to_bucket)
  show "same_ids h (fst (addNode now node c (h, t)))" using ids by (simp add: eq)
  show "rt_self (snd (addNode now node c (h, t))) = rt_self t" by (simp add: eq)
  show "table_ok (addNode now node c (h, t))"
  proof (cases "KnownID (h node)")
    case True
    have "bucket_ok h (rt_self t) (rt_bucketSize t) ?i (snd ?r)"
      using add_to_bucket_ok [OF table_ok_bucket [OF ok i]] True wf ok
      by (simp add: placed_def table_ok_def)
    from table_ok_update [OF ok ids this i] True show ?thesis by (simp add: eq)
  next
    case False
    with ok show ?thesis by (simp add: eq)
  qed
qed

lemma NodeFailed_ok:
  assumes ok: "table_ok (h, t)"
  shows "table_ok (NodeFailed node (h, t))" and "same_ids h (fst (NodeFailed node (h, t)))"
    and "rt_self (snd (NodeFailed node (h, t))) = rt_self t"
proof -
  let ?i = "kadBucketIndex (rt_self t) (kn_ID (h node))"
  let ?r = "fail_in_bucket node h (rt_buckets t ! ?i)"
  have eq: "NodeFailed node (h, t) =
     (if \<not> KnownID (h node) then (h, t) else (fst ?r, t\<lparr>rt_buckets := (rt_buckets t)[?i := snd ?r]\<rparr>))"
    by (simp add: NodeFailed_def Let_def split_beta)
  have i: "?i < 128" by (rule kadBucketIndex_less)
  have ids: "same_ids h (fst ?r)" by (rule same_ids_fail_in_bucket)
  show "same_ids h (fst (NodeFailed node (h, t)))" using ids by (simp add: eq)
  show "rt_self (snd (NodeFailed node (h, t))) = rt_self t" by (simp add: eq)
  from table_ok_update [OF ok ids fail_in_bucket_ok [OF table_ok_bucket [OF ok i]] i] ok
  show "table_ok (NodeFailed node (h, t))" by (simp add: eq)
qed

lemma TouchBucket_ok: "table_ok (h, t) \<Longrightarrow> table_ok (h, TouchBucket now target t)"
  unfolding TouchBucket_def Let_def
  by (rule table_ok_update [OF _ same_ids_refl])
    (simp_all add: kadBucketIndex_less table_ok_bucket)

lemma NeedBootstrap_ok: "table_ok (h, t) \<Longrightarrow> table_ok (h, snd (NeedBootstrap now t))"
  by (auto simp: NeedBootstrap_def split_beta elim!: table_ok_same_buckets)

lemma NeedRefresh_ok: "table_ok (h, t) \<Longrightarrow> table_ok (h, snd (NeedRefresh source now t))"
  by (auto simp: NeedRefresh_def split: option.split elim!: table_ok_same_buckets)

lemma AddRouterNode_ok: "table_ok (h, t) \<Longrightarrow> table_ok (h, AddRouterNode addr t)"
  by (rule table_ok_same_buckets) (simp_all add: AddRouterNode_def)

lemma newKadRoutingTable_ok: "wf_hash self \<Longrightarrow> table_ok (h, newKadRoutingTable now self bucketSize)"
  by (simp add: table_ok_def newKadRoutingTable_def bucket_ok_def)

text \<open>The uses a tracker makes of its table.\<close>

datatype routing_op =
    Heard int nat
  | Seen int nat
  | Failed nat
  | Touched int hash
  | Bootstrap_asked int
  | Refresh_asked "bytes option" int
  | Router_added UDPAddr

fun routing_step :: "routing_op \<Rightarrow> node_heap \<times> kadRoutingTable \<Rightarrow> node_heap \<times> kadRoutingTable" where
  "routing_step (Heard now node) s = HeardAbout now node s"
| "routing_step (Seen now node) s = NodeSeen now node s"
| "routing_step (Failed node) s = NodeFailed node s"
| "routing_step (Touched now target) (h, t) = (h, TouchBucket now target t)"
| "routing_step (Bootstrap_asked now) (h, t) = (h, snd (NeedBootstrap now t))"
| "routing_step (Refresh_asked source now) (h, t) = (h, snd (NeedRefresh source now t))"
| "routing_step (Router_added addr) (h, t) = (h, AddRouterNode addr t)"

lemma routing_step_ok:
  assumes "table_ok s" and "\<And>n. wf_hash (kn_ID (fst s n))"
  shows "table_ok (routing_step op s) \<and> same_ids (fst s) (fst (routing_step op s))"
proof -
  obtain h t where s: "s = (h, t)" by (cases s)
  show ?thesis
    using assms unfolding s
    by (cases op)
      (simp_all add: HeardAbout_def NodeSeen_def addNode_ok NodeFailed_ok TouchBucket_ok NeedBootstrap_ok
        NeedRefresh_ok AddRouterNode_ok)
qed

lemma routing_steps_ok:
  "table_ok s \<Longrightarrow> (\<And>n. wf_hash (kn_ID (fst s n))) \<Longrightarrow> table_ok (fold routing_step ops s)"
proof (induction ops arbitrary: s)
  case Nil
  then show ?case by simp
next
  case (Cons op ops)
  from routing_step_ok [OF Cons.prems] have "table_ok (routing_step op s)"
    "\<And>n. wf_hash (kn_ID (fst (routing_step op s) n))"
    using Cons.prems(2) by (auto simp: same_ids_def)
  from Cons.IH [OF this] show ?case by simp
qed

section \<open>The nearest nodes\<close>

lemma live_concat:
  "(\<And>j. j < length bs \<Longrightarrow> bucket_ok h self limit (i + j) (bs ! j)) \<Longrightarrow>
     distinct (map (kn_ID \<circ> h) (concat (map bk_live bs))) \<and>
     (\<forall>n \<in> set (concat (map bk_live bs)). \<exists>j < length bs. placed h self (i + j) n)"
proof (induction bs arbitrary: i)
  case Nil
  then show ?case by simp
next
  case (Cons b bs)
  have b: "bucket_ok h self limit i b" using Cons.prems [of 0] by simp
  have rest: "bucket_ok h self limit (Suc i + j) (bs ! j)" if "j < length bs" for j
    using Cons.prems [of "Suc j"] that by simp
  note IH = Cons.IH [OF rest]
  have "kn_ID (h n) \<noteq> kn_ID (h m)" if "n \<in> set (bk_live b)" and m: "m \<in> set (concat (map bk_live bs))" for n m
  proof -
    from IH m obtain j where "placed h self (Suc i + j) m" by blast
    moreover have "placed h self i n" using b that(1) by (simp add: bucket_ok_def)
    ultimately show ?thesis by (auto simp: placed_def)
  qed
  then have "distinct (map (kn_ID \<circ> h) (bk_live b @ concat (map bk_live bs)))"
    using b IH by (fastforce simp: bucket_ok_def)
  moreover have "\<exists>j < length (b # bs). placed h self (i + j) n" if "n \<in> set (concat (map bk_live (b # bs)))" for n
  proof (cases "n \<in> set (bk_live b)")
    case True
    with b have "placed h self (i + 0) n" by (simp add: bucket_ok_def)
    then show ?thesis by (intro exI [of _ 0]) simp
  next
    case False
    with that IH obtain j where "j < length bs" "placed h self (Suc i + j) n" by auto
    then show ?thesis by (intro exI [of _ "Suc j"]) simp
  qed
  ultimately show ?case by (simp add: comp_def)
qed

lemma live_nodes:
  assumes "table_ok (h, t)"
  shows "distinct (map (kn_ID \<circ> h) (concat (map bk_live (rt_buckets t))))"
    and "n \<in> set (concat (map bk_live (rt_buckets t))) \<Longrightarrow> wf_hash (kn_ID (h n))"
proof -
  have "\<And>j. j < length (rt_buckets t) \<Longrightarrow>
      bucket_ok h (rt_self t) (rt_bucketSize t) (0 + j) (rt_buckets t ! j)"
    using assms by (simp add: table_ok_def)
  note * = live_concat [OF this]
  then show "distinct (map (kn_ID \<circ> h) (concat (map bk_live (rt_buckets t))))" by blast
  show "wf_hash (kn_ID (h n))" if "n \<in> set (concat (map bk_live (rt_buckets t)))"
    using * that by (auto simp: placed_def)
qed

lemma eligible_ids:
  assumes "table_ok (h, t)"
  shows "distinct (map (kn_ID \<circ> h) (eligible_live h t u))" and "n \<in> set (eligible_live h t u) \<Longrightarrow> wf_hash (kn_ID (h n))"
proof -
  show "distinct (map (kn_ID \<circ> h) (eligible_live h t u))"
    unfolding eligible_live_def by (rule distinct_map_filter [OF live_nodes(1) [OF assms]])
  show "wf_hash (kn_ID (h n))" if "n \<in> set (eligible_live h t u)"
    using that by (intro live_nodes(2) [OF assms]) (simp add: eligible_live_def)
qed

lemma sorted_eligible:
  assumes "table_ok (h, t)" and "wf_hash target"
  shows "three_way.csorted (closer target) wf_hash (kn_ID \<circ> h) (sortKadNodesByDistance h (eligible_live h t u) target)"
  using three_way.csorted_sort_by [OF three_way_closer [OF assms(2)] eligible_ids(1) [OF assms(1)]]
    eligible_ids(2) [OF assms(1)]
  by (simp add: sortKadNodesByDistance_def closer_def comp_def)

lemma limited_take: "\<exists>n. limited limit xs = take n xs \<and>
    (length (limited limit xs) = (if limit > 0 then min (nat limit) (length xs) else length xs))"
  by (auto simp: limited_def intro: exI [of _ "nat limit"] exI [of _ "length xs"])

lemma FindClosest_spec:
  fixes limit :: int and u :: bool
  assumes ok: "table_ok (h, t)" and tg: "wf_hash target"
  defines "xs \<equiv> FindClosest h t target limit u"
  shows "set xs \<subseteq> set (eligible_live h t u)"
    and "length xs = (if limit > 0 then min (nat limit) (length (eligible_live h t u)) else length (eligible_live h t u))"
    and "sorted_wrt (\<lambda>i j. DistanceCompare (kn_ID (h i)) (kn_ID (h j)) target < 0) xs"
    and "i \<in> set xs \<Longrightarrow> j \<in> set (eligible_live h t u) \<Longrightarrow> j \<notin> set xs \<Longrightarrow>
           DistanceCompare (kn_ID (h i)) (kn_ID (h j)) target < 0"
proof -
  define s where "s = sortKadNodesByDistance h (eligible_live h t u) target"
  have set_s: "set s = set (eligible_live h t u)" "length s = length (eligible_live h t u)"
    by (simp_all add: s_def sortKadNodesByDistance_def)
  note tw = three_way_closer [OF tg]
  have sorted: "three_way.csorted (closer target) wf_hash (kn_ID \<circ> h) s"
    unfolding s_def by (rule sorted_eligible [OF ok tg])
  obtain n where n: "xs = take n s" and len: "length xs = (if limit > 0 then min (nat limit) (length s) else length s)"
    using limited_take [of limit s] by (auto simp: xs_def FindClosest_def s_def)
  show "set xs \<subseteq> set (eligible_live h t u)" using n set_s by (auto dest: in_set_takeD)
  show "length xs = (if limit > 0 then min (nat limit) (length (eligible_live h t u)) else length (eligible_live h t u))"
    using len set_s by simp
  show "sorted_wrt (\<lambda>i j. DistanceCompare (kn_ID (h i)) (kn_ID (h j)) target < 0) xs"
    using three_way.csorted_take [OF tw sorted, of n]
    by (simp add: n three_way.csorted_def [OF tw] closer_def)
  show "DistanceCompare (kn_ID (h i)) (kn_ID (h j)) target < 0"
    if "i \<in> set xs" "j \<in> set (eligible_live h t u)" "j \<notin> set xs"
  proof -
    have "j \<in> set (drop n s)" using that n set_s by (metis UnE append_take_drop_id set_append)
    with three_way.csorted_take_drop [OF tw sorted, of i n j] that(1) n show ?thesis
      by (simp add: closer_def)
  qed
qed

section \<open>Properties\<close>

text \<open>C14: however the table is used, its 128 buckets keep their bounds, every node is in the bucket
  that its identifier belongs to, and no identifier is in the table twice; this as long as the
  identifiers of the nodes stay what they are.\<close>

theorem routing_table_invariant:
  assumes "wf_hash self" and "\<And>n. wf_hash (kn_ID (h n))"
  shows "table_ok (fold routing_step ops (h, newKadRoutingTable now self bucketSize))"
  by (rule routing_steps_ok) (simp_all add: assms newKadRoutingTable_ok)

theorem routing_table_invariant_witness:
  "table_ok (fold routing_step [Seen 5 0, Failed 0, Heard 6 1]
     (\<lambda>n. zero_node\<lparr>kn_ID := replicate 16 (of_nat (Suc n))\<rparr>, newKadRoutingTable 0 Invalid 10))"
  by (rule routing_table_invariant) (simp_all add: wf_hash_def Invalid_def)

text \<open>Identifiers may be there twice: then their order is open, but none stands behind a farther one.\<close>

lemma sorted_by_distance:
  assumes "\<forall>n\<in>set nodes. wf_hash (kn_ID (h n))" and "wf_hash target"
  shows "sorted_wrt (\<lambda>i j. DistanceCompare (kn_ID (h i)) (kn_ID (h j)) target \<le> 0) (sortKadNodesByDistance h nodes target)"
  using three_way.sorted_le_sort_by [OF three_way_closer [OF assms(2)], where key = "\<lambda>n. kn_ID (h n)" and xs = nodes] assms(1)
  by (simp add: sortKadNodesByDistance_def closer_def)

text \<open>C15: the nodes nearest to a target come out in the order of their distances, as many as were
  asked for and are there; they are live nodes of the table, confirmed ones unless unconfirmed ones are
  included, and no live node of that kind that was left out is nearer than one of them. This holds for
  any table, also where a node sits in the wrong bucket or an identifier is there twice.\<close>

theorem FindClosest_nearest:
  fixes limit :: int and t :: kadRoutingTable and h :: node_heap and target :: hash and includeUnconfirmed :: bool
  assumes "\<forall>n\<in>set (concat (map bk_live (rt_buckets t))). wf_hash (kn_ID (h n))" and "wf_hash target"
  defines "nodes \<equiv> filter (\<lambda>n. includeUnconfirmed \<or> kn_Pinged (h n)) (concat (map bk_live (rt_buckets t)))"
    and "found \<equiv> FindClosest h t target limit includeUnconfirmed"
  shows "mset found \<subseteq># mset nodes \<and>
    length found = (if limit > 0 then min (nat limit) (length nodes) else length nodes) \<and>
    sorted_wrt (\<lambda>i j. DistanceCompare (kn_ID (h i)) (kn_ID (h j)) target \<le> 0) found \<and>
    (\<forall>i\<in>set found. \<forall>j\<in>#mset nodes - mset found. DistanceCompare (kn_ID (h i)) (kn_ID (h j)) target \<le> 0)"
proof -
  define s where "s = sortKadNodesByDistance h nodes target"
  have ids: "\<forall>n\<in>set nodes. wf_hash (kn_ID (h n))" using assms(1) by (auto simp: nodes_def)
  note sorted = sorted_by_distance [OF ids assms(2), folded s_def]
  have ms: "mset s = mset nodes" by (simp add: s_def sortKadNodesByDistance_def)
  have len: "length s = length nodes" using arg_cong [OF ms, of size] by simp
  have "found = limited limit s"
    by (simp add: found_def s_def nodes_def FindClosest_def eligible_live_def)
  then obtain n where n: "found = take n s" and fl: "length found = (if limit > 0 then min (nat limit) (length s) else length s)"
    using limited_take [of limit s] by auto
  have split: "mset nodes = mset found + mset (drop n s)"
    by (simp only: ms [symmetric] n mset_append [symmetric] append_take_drop_id)
  then have "mset found \<subseteq># mset nodes" by simp
  moreover have "sorted_wrt (\<lambda>i j. DistanceCompare (kn_ID (h i)) (kn_ID (h j)) target \<le> 0) found"
    unfolding n by (rule sorted_wrt_take [OF sorted])
  moreover have "DistanceCompare (kn_ID (h i)) (kn_ID (h j)) target \<le> 0"
    if "i \<in> set found" "j \<in># mset nodes - mset found" for i j
  proof -
    have "j \<in> set (drop n s)" using that(2) by (simp add: split)
    moreover have "sorted_wrt (\<lambda>i j. DistanceCompare (kn_ID (h i)) (kn_ID (h j)) target \<le> 0) (take n s @ drop n s)"
      using sorted by simp
    ultimately show ?thesis using that(1) by (simp only: n sorted_wrt_append)
  qed
  ultimately show ?thesis using fl unfolding len by blast
qed

definition demo_nodes :: node_heap where
  "demo_nodes = (\<lambda>n. zero_node\<lparr>kn_ID := replicate 16 (of_nat n), kn_Pinged := (n \<noteq> 2)\<rparr>)"

definition demo_table :: kadRoutingTable where
  "demo_table = (newKadRoutingTable 0 Invalid 10)\<lparr>rt_buckets :=
     [\<lparr>bk_live = [3, 2, 1], bk_replacements = [], bk_lastActive = 0\<rparr>]\<rparr>"

theorem FindClosest_nearest_witness:
  "length (FindClosest demo_nodes demo_table Invalid 1 False) = 1 \<and>
   mset (FindClosest demo_nodes demo_table Invalid 1 False) \<subseteq># mset [3, 1]"
proof -
  have "concat (map bk_live (rt_buckets demo_table)) = [3, 2, 1]" by (simp add: demo_table_def)
  moreover have "filter (\<lambda>n. False \<or> kn_Pinged (demo_nodes n)) [3, 2, 1] = [3, 1]" by (simp add: demo_nodes_def)
  moreover have "wf_hash (kn_ID (demo_nodes n))" for n by (simp add: demo_nodes_def wf_hash_def)
  ultimately show ?thesis
    using FindClosest_nearest [where t = demo_table and h = demo_nodes and target = Invalid and limit = 1
      and includeUnconfirmed = False] by simp
qed

text \<open>The identifier a refresh of a bucket looks for belongs to that bucket, whatever the random
  source delivers.\<close>

theorem refresh_in_bucket:
  assumes "length source = 16" and "wf_hash self" and "index < 128"
  shows "kadBucketIndex self (randomKadIDWithinBucket (Some source) index self) = index"
  using randomKadID_index [OF assms] by blast

theorem refresh_in_bucket_witness:
  "kadBucketIndex Invalid (randomKadIDWithinBucket (Some (replicate 16 255)) 77 Invalid) = 77"
  by (rule refresh_in_bucket) simp_all

text \<open>Live nodes make way for no newcomer: only a failure takes one out.\<close>

lemma add_keeps_live: "set (bk_live b) \<subseteq> set (bk_live (snd (add_to_bucket now limit c node h b)))"
proof (cases "findKadNode h (bk_live b) node")
  case (Some pos)
  then show ?thesis by (simp add: add_live)
next
  case None
  then show ?thesis
    by (cases "findKadNode h (bk_replacements b) node") (auto simp: add_replacement add_new Let_def)
qed

lemma addNode_keeps_live:
  "table_ok (h, t) \<Longrightarrow> i < 128 \<Longrightarrow>
     set (bk_live (rt_buckets t ! i)) \<subseteq> set (bk_live (rt_buckets (snd (addNode now node c (h, t))) ! i))"
  using add_keeps_live [of "rt_buckets t ! i" now "rt_bucketSize t" c node h]
  by (cases "kadBucketIndex (rt_self t) (kn_ID (h node)) = i")
    (auto simp: addNode_def split_beta Let_def table_ok_def)

end
