(* ===== verification/Kad_Rpc.thy ===== *)
theory Kad_Rpc
  imports Kad_Routing
begin

text \<open>
  The Kademlia requests under way (\<^verbatim>\<open>kad_rpc.go\<close>): what was asked of whom, which request
  an incoming packet answers, and which requests a tick reports as late or gives up. An observer
  is an address; a transaction is shared with nobody, so it is a value.
\<close>

record kadRPCTransaction =
  tx_endpointKey :: addr_key
  tx_opcode :: u8
  tx_target :: "hash option"
  tx_sentTime :: int
  tx_multi :: bool
  tx_shortTimed :: bool
  tx_observer :: "nat option"

record kadRPCManager =
  rpc_shortTimeout :: int
  rpc_timeout :: int
  rpc_transactions :: "kadRPCTransaction list"

definition newKadRPCManager :: kadRPCManager where
  "newKadRPCManager = \<lparr>rpc_shortTimeout = 2 * second, rpc_timeout = 12 * second, rpc_transactions = []\<rparr>"

definition rpc_Invoke :: "int \<Rightarrow> kadRPCTransaction \<Rightarrow> kadRPCManager \<Rightarrow> kadRPCManager" where
  "rpc_Invoke now tx m = m\<lparr>rpc_transactions := rpc_transactions m @ [tx\<lparr>tx_sentTime := now\<rparr>]\<rparr>"

text \<open>The conditions a transaction has to pass in the loop of \<open>Incoming\<close>.\<close>

definition answers :: "addr_key \<Rightarrow> u8 \<Rightarrow> hash option \<Rightarrow> kadRPCTransaction \<Rightarrow> bool" where
  "answers key opcode target tx \<longleftrightarrow>
     tx_endpointKey tx = key \<and> tx_opcode tx = opcode \<and>
     \<not> (tx_target tx \<noteq> None \<and> target \<noteq> None \<and> \<not> hash_Equal (the (tx_target tx)) (the target)) \<and>
     \<not> (tx_target tx \<noteq> None \<and> target = None)"

definition rpc_Incoming ::
  "UDPAddr \<Rightarrow> u8 \<Rightarrow> hash option \<Rightarrow> kadRPCManager \<Rightarrow> kadRPCTransaction option \<times> kadRPCManager" where
  "rpc_Incoming addr opcode target m =
     (let txs = rpc_transactions m
      in case find (\<lambda>i. answers (addr_String addr) opcode target (txs ! i)) [0..<length txs] of
           None \<Rightarrow> (None, m)
         | Some i \<Rightarrow>
             (Some (txs ! i),
              if tx_multi (txs ! i) then m else m\<lparr>rpc_transactions := slice_delete txs i\<rparr>))"

text \<open>The loop of \<open>Tick\<close>: transactions that stay, that became late, that are given up.\<close>

fun tick_loop ::
  "int \<Rightarrow> int \<Rightarrow> int \<Rightarrow> kadRPCTransaction list \<Rightarrow>
     kadRPCTransaction list \<times> kadRPCTransaction list \<times> kadRPCTransaction list" where
  "tick_loop short limit now [] = ([], [], [])"
| "tick_loop short limit now (tx # txs) =
     (let late = \<not> tx_shortTimed tx \<and> now - tx_sentTime tx \<ge> short;
          tx' = (if late then tx\<lparr>tx_shortTimed := True\<rparr> else tx);
          (dst, shortTimed, expired) = tick_loop short limit now txs;
          shortTimed' = (if late then tx' # shortTimed else shortTimed)
      in if now - tx_sentTime tx \<ge> limit then (dst, shortTimed', tx' # expired)
         else (tx' # dst, shortTimed', expired))"

definition rpc_Tick ::
  "int \<Rightarrow> kadRPCManager \<Rightarrow> kadRPCTransaction list \<times> kadRPCTransaction list \<times> kadRPCManager" where
  "rpc_Tick now m =
     (let (dst, shortTimed, expired) =
        tick_loop (rpc_shortTimeout m) (rpc_timeout m) now (rpc_transactions m)
      in (shortTimed, expired, m\<lparr>rpc_transactions := dst\<rparr>))"

section \<open>Properties\<close>

definition marked :: "int \<Rightarrow> int \<Rightarrow> kadRPCTransaction \<Rightarrow> kadRPCTransaction" where
  "marked short now tx = (if now - tx_sentTime tx \<ge> short then tx\<lparr>tx_shortTimed := True\<rparr> else tx)"

lemma tick_loop_filter:
  "tick_loop short limit now txs =
     (filter (\<lambda>tx. now - tx_sentTime tx < limit) (map (marked short now) txs),
      map (marked short now) (filter (\<lambda>tx. \<not> tx_shortTimed tx \<and> now - tx_sentTime tx \<ge> short) txs),
      filter (\<lambda>tx. now - tx_sentTime tx \<ge> limit) (map (marked short now) txs))"
  by (induction txs) (auto simp: marked_def Let_def)

lemma marked_sentTime [simp]: "tx_sentTime (marked short now tx) = tx_sentTime tx"
  by (simp add: marked_def)

lemma Tick_eq:
  "rpc_Tick now m =
     (let txs = rpc_transactions m; mark = marked (rpc_shortTimeout m) now
      in (map mark (filter (\<lambda>tx. \<not> tx_shortTimed tx \<and> now - tx_sentTime tx \<ge> rpc_shortTimeout m) txs),
          filter (\<lambda>tx. now - tx_sentTime tx \<ge> rpc_timeout m) (map mark txs),
          m\<lparr>rpc_transactions := filter (\<lambda>tx. now - tx_sentTime tx < rpc_timeout m) (map mark txs)\<rparr>))"
  by (simp add: rpc_Tick_def tick_loop_filter Let_def)

text \<open>A tick loses no request and reports none twice: those it gives up and those it keeps are
  the requests under way, the ones given up are exactly those whose time is over, and one that a
  tick reported as late is not reported as late by the next.\<close>

theorem rpc_Tick_partition:
  assumes "rpc_Tick now m = (late, expired, m')" and "rpc_Tick now' m' = (late', expired', m'')"
    and "now \<le> now'"
  shows "mset (map tx_endpointKey (expired @ rpc_transactions m')) = mset (map tx_endpointKey (rpc_transactions m)) \<and>
    (\<forall>tx \<in> set expired. now - tx_sentTime tx \<ge> rpc_timeout m) \<and>
    (\<forall>tx \<in> set (rpc_transactions m'). now - tx_sentTime tx < rpc_timeout m) \<and>
    (\<forall>tx \<in> set late'. now - tx_sentTime tx < rpc_shortTimeout m \<and> now' - tx_sentTime tx \<ge> rpc_shortTimeout m)"
proof (intro conjI)
  let ?mark = "marked (rpc_shortTimeout m) now"
  let ?old = "\<lambda>tx. now - tx_sentTime tx \<ge> rpc_timeout m"
  have eqs: "expired = filter ?old (map ?mark (rpc_transactions m))"
      "rpc_transactions m' = filter (\<lambda>tx. \<not> ?old tx) (map ?mark (rpc_transactions m))"
      "rpc_shortTimeout m' = rpc_shortTimeout m"
    using assms(1) by (auto simp: Tick_eq Let_def not_le)
  have "mset (expired @ rpc_transactions m') = mset (map ?mark (rpc_transactions m))"
    using multiset_partition [of "mset (map ?mark (rpc_transactions m))" ?old]
    by (simp only: eqs mset_append mset_filter)
  then have "image_mset tx_endpointKey (mset (expired @ rpc_transactions m')) =
      image_mset tx_endpointKey (mset (map ?mark (rpc_transactions m)))" by (simp only:)
  moreover have "tx_endpointKey \<circ> ?mark = tx_endpointKey" by (simp add: marked_def fun_eq_iff)
  ultimately show "mset (map tx_endpointKey (expired @ rpc_transactions m')) = mset (map tx_endpointKey (rpc_transactions m))"
    by (metis (no_types, lifting) map_map mset_map)
  show "\<forall>tx \<in> set expired. now - tx_sentTime tx \<ge> rpc_timeout m" by (simp add: eqs)
  show "\<forall>tx \<in> set (rpc_transactions m'). now - tx_sentTime tx < rpc_timeout m" by (auto simp: eqs)
  have late': "late' = map (marked (rpc_shortTimeout m) now')
      (filter (\<lambda>tx. \<not> tx_shortTimed tx \<and> now' - tx_sentTime tx \<ge> rpc_shortTimeout m) (rpc_transactions m'))"
    using assms(2) by (auto simp: Tick_eq Let_def eqs(3))
  show "\<forall>tx \<in> set late'. now - tx_sentTime tx < rpc_shortTimeout m \<and> now' - tx_sentTime tx \<ge> rpc_shortTimeout m"
    by (auto simp: late' eqs(2) marked_def split: if_splits)
qed

theorem rpc_Tick_partition_witness:
  "\<exists>late expired m' late' expired' m''.
     rpc_Tick 5 newKadRPCManager = (late, expired, m') \<and> rpc_Tick 6 m' = (late', expired', m'') \<and>
     mset (map tx_endpointKey (expired @ rpc_transactions m')) = {#}"
proof -
  obtain late expired m' where a: "rpc_Tick 5 newKadRPCManager = (late, expired, m')" by (cases "rpc_Tick 5 newKadRPCManager")
  obtain late' expired' m'' where b: "rpc_Tick 6 m' = (late', expired', m'')" by (cases "rpc_Tick 6 m'")
  from rpc_Tick_partition [OF a b] a b show ?thesis by (auto simp: newKadRPCManager_def)
qed

text \<open>An answer is taken for the first request it fits; a request for one answer is then over.\<close>

lemma rpc_Incoming_Some:
  assumes "rpc_Incoming addr opcode target m = (Some tx, m')"
  shows "answers (addr_String addr) opcode target tx \<and> tx \<in> set (rpc_transactions m) \<and>
    (if tx_multi tx then m' = m else mset (rpc_transactions m) = add_mset tx (mset (rpc_transactions m')))"
proof -
  obtain i where i: "find (\<lambda>i. answers (addr_String addr) opcode target (rpc_transactions m ! i))
      [0..<length (rpc_transactions m)] = Some i"
    using assms by (auto simp: rpc_Incoming_def Let_def split: option.splits)
  then have "i < length (rpc_transactions m)" "answers (addr_String addr) opcode target (rpc_transactions m ! i)"
    by (auto simp: find_Some_iff)
  with i assms show ?thesis
    by (auto simp: rpc_Incoming_def Let_def mset_slice_delete [of i] split: if_splits)
qed

lemma rpc_Incoming_None:
  "fst (rpc_Incoming addr opcode target m) = None \<longleftrightarrow>
     (\<forall>tx \<in> set (rpc_transactions m). \<not> answers (addr_String addr) opcode target tx)"
proof (cases "find (\<lambda>i. answers (addr_String addr) opcode target (rpc_transactions m ! i))
    [0..<length (rpc_transactions m)]")
  case None
  then have "\<forall>tx \<in> set (rpc_transactions m). \<not> answers (addr_String addr) opcode target tx"
    by (auto simp: find_None_iff in_set_conv_nth)
  moreover have "fst (rpc_Incoming addr opcode target m) = None"
    using None by (simp add: rpc_Incoming_def Let_def)
  ultimately show ?thesis by simp
next
  case (Some i)
  then have "rpc_transactions m ! i \<in> set (rpc_transactions m)"
    "answers (addr_String addr) opcode target (rpc_transactions m ! i)" by (auto simp: find_Some_iff)
  with Some show ?thesis by (auto simp: rpc_Incoming_def Let_def)
qed

end
