(* ===== verification/Kad_Tracker.thy ===== *)
theory Kad_Tracker
  imports Kad_Rpc "HOL-Library.Monad_Syntax"
begin

text \<open>
  The node of the Kademlia network (\<^verbatim>\<open>dht_tracker.go\<close>): the nodes it knows, its indices of
  published sources, keywords and notes, what it answers to the packets of others, and what it
  saves of itself.

  The tracker's mutex is the flag \<open>tk_mu\<close>. An operation that locks it returns \<open>None\<close> when
  it is held: the goroutine that comes to a held lock of its own waits for ever. The socket is
  \<open>tk_conn\<close>, a function that tells whether a write succeeds, and what was written is
  \<open>tk_sent\<close>. A Go map is a list of its entries; Go leaves the order of a walk through it open.
  The clock stands at \<open>tk_now\<close> during an operation, and \<open>tk_random\<close> holds what the
  random source will deliver.
\<close>

fun foldM :: "('a \<Rightarrow> 's \<Rightarrow> 's option) \<Rightarrow> 'a list \<Rightarrow> 's \<Rightarrow> 's option" where
  "foldM f [] s = Some s"
| "foldM f (x # xs) s = do { s \<leftarrow> f x s; foldM f xs s }"

section \<open>Observers, traversals and the state\<close>

datatype kadTraversalKind =
    Tv_Bootstrap
  | Tv_FindSources
  | Tv_SearchSources
  | Tv_FindKeywords
  | Tv_SearchKeyword
  | Tv_Refresh
  | Tv_Firewalled

record kadObserver =
  ob_traversal :: nat
  ob_endpoint :: "UDPAddr option"
  ob_id :: hash
  ob_portTCP :: u16
  ob_version :: u8
  ob_flags :: u64
  ob_processedResponses :: int
  ob_entries :: "SearchEntry list"
  ob_externalIP :: u32

record kadTraversal =
  tv_target :: hash
  tv_kind :: kadTraversalKind
  tv_results :: "nat list"
  tv_invokeCount :: int
  tv_branchFactor :: int
  tv_responses :: int
  tv_timeouts :: int
  tv_numTargetNodes :: int
  tv_size :: int
  tv_listener :: "nat option"
  tv_accum :: "SearchEntry list"
  tv_externalIPs :: "u32 list"

type_synonym entry_index = "(string \<times> (string \<times> SearchEntry) list) list"

record DHTTracker =
  tk_mu :: bool
  tk_conn :: "(UDPAddr \<Rightarrow> bytes \<Rightarrow> bool) option"
  tk_localIP :: bytes
  tk_listenPort :: int
  tk_searchTimeout :: int
  tk_selfID :: hash
  tk_heap :: node_heap
  tk_next :: nat
  tk_nodes :: "(addr_key \<times> nat) list"
  tk_table :: kadRoutingTable
  tk_rpc :: kadRPCManager
  tk_sourceIndex :: entry_index
  tk_keywordIndex :: entry_index
  tk_notesIndex :: entry_index
  tk_started :: bool
  tk_lastBootstrap :: "int option"
  tk_lastRefresh :: "int option"
  tk_lastFirewalledCheck :: "int option"
  tk_firewalled :: bool
  tk_externalIPs :: "u32 list"
  tk_storagePoint :: "UDPAddr option"
  tk_running :: "((kadTraversalKind \<times> hash) \<times> nat) list"
  tk_initialBootstrapRequired :: bool
  tk_observers :: "nat \<Rightarrow> kadObserver"
  tk_nextObserver :: nat
  tk_traversals :: "nat \<Rightarrow> kadTraversal"
  tk_nextTraversal :: nat
  tk_now :: int
  tk_random :: "bytes option list"
  tk_sent :: "(UDPAddr \<times> bytes) list"
  tk_calls :: "(nat \<times> SearchEntry list) list"

definition draw :: "DHTTracker \<Rightarrow> bytes option \<times> DHTTracker" where
  "draw s =
     (case tk_random s of [] \<Rightarrow> (None, s) | r # rs \<Rightarrow> (r, s\<lparr>tk_random := rs\<rparr>))"

definition NewDHTTracker :: "int \<Rightarrow> int \<Rightarrow> int \<Rightarrow> bytes option list \<Rightarrow> DHTTracker" where
  "NewDHTTracker now listenPort timeout random =
     (let selfID = (case random of [] \<Rightarrow> Invalid
                    | r # rs \<Rightarrow> (case RandomHash r False of Inl e \<Rightarrow> Invalid | Inr h \<Rightarrow> h))
      in \<lparr>tk_mu = False, tk_conn = None, tk_localIP = [], tk_listenPort = listenPort,
          tk_searchTimeout = (if timeout \<le> 0 then 8 * second else timeout), tk_selfID = selfID,
          tk_heap = (\<lambda>_. zero_node), tk_next = 0, tk_nodes = [],
          tk_table = newKadRoutingTable now selfID 10, tk_rpc = newKadRPCManager,
          tk_sourceIndex = [], tk_keywordIndex = [], tk_notesIndex = [], tk_started = False,
          tk_lastBootstrap = None, tk_lastRefresh = None, tk_lastFirewalledCheck = None,
          tk_firewalled = True, tk_externalIPs = [], tk_storagePoint = None, tk_running = [],
          tk_initialBootstrapRequired = True,
          tk_observers = (\<lambda>_. \<lparr>ob_traversal = 0, ob_endpoint = None, ob_id = Invalid, ob_portTCP = 0,
            ob_version = 0, ob_flags = 0, ob_processedResponses = 0, ob_entries = [], ob_externalIP = 0\<rparr>),
          tk_nextObserver = 0,
          tk_traversals = (\<lambda>_. \<lparr>tv_target = Invalid, tv_kind = Tv_Bootstrap, tv_results = [],
            tv_invokeCount = 0, tv_branchFactor = 0, tv_responses = 0, tv_timeouts = 0,
            tv_numTargetNodes = 0, tv_size = 0, tv_listener = None, tv_accum = [], tv_externalIPs = []\<rparr>),
          tk_nextTraversal = 0, tk_now = now, tk_random = drop 1 random, tk_sent = [], tk_calls = []\<rparr>)"

section \<open>The lock, the port and the socket\<close>

definition Lock :: "DHTTracker \<Rightarrow> DHTTracker option" where
  "Lock s = (if tk_mu s then None else Some (s\<lparr>tk_mu := True\<rparr>))"

definition Unlock :: "DHTTracker \<Rightarrow> DHTTracker" where
  "Unlock s = s\<lparr>tk_mu := False\<rparr>"

definition ListenPort :: "DHTTracker \<Rightarrow> int option" where
  "ListenPort s = map_option tk_listenPort (Lock s)"

definition setListenPort :: "int \<Rightarrow> DHTTracker \<Rightarrow> DHTTracker option" where
  "setListenPort port s = do { s \<leftarrow> Lock s; Some (Unlock (s\<lparr>tk_listenPort := port\<rparr>)) }"

text \<open>
  \<open>Start\<close>, of which only the first call does anything. \<open>opened\<close> is what
  \<open>net.ListenUDP\<close> returns: the socket with its port, or nothing. The result tells whether
  there was no error.
\<close>

definition Start ::
  "((UDPAddr \<Rightarrow> bytes \<Rightarrow> bool) \<times> bytes \<times> int) option \<Rightarrow> DHTTracker \<Rightarrow> (bool \<times> DHTTracker) option" where
  "Start opened s =
     (if tk_started s then Some (True, s)
      else do {
        _ \<leftarrow> ListenPort s;
        let s = s\<lparr>tk_started := True\<rparr>;
        case opened of
          None \<Rightarrow> Some (False, s)
        | Some (conn, localIP, port) \<Rightarrow> do {
            s \<leftarrow> setListenPort port (s\<lparr>tk_conn := Some conn, tk_localIP := localIP\<rparr>);
            Some (True, s) } })"

definition writePacketWithOpcodeLocked ::
  "UDPAddr option \<Rightarrow> KadPacket \<Rightarrow> u8 list \<Rightarrow> DHTTracker \<Rightarrow> bool \<times> DHTTracker" where
  "writePacketWithOpcodeLocked addr packet extra s =
     (case (tk_conn s, addr) of
        (Some conn, Some a) \<Rightarrow>
          (case kad_Pack packet extra of
             Inl e \<Rightarrow> (False, s)
           | Inr raw \<Rightarrow> if conn a raw then (True, s\<lparr>tk_sent := tk_sent s @ [(a, raw)]\<rparr>) else (False, s))
      | _ \<Rightarrow> (False, s))"

definition writePacket ::
  "UDPAddr option \<Rightarrow> KadPacket \<Rightarrow> u8 list \<Rightarrow> DHTTracker \<Rightarrow> (bool \<times> DHTTracker) option" where
  "writePacket addr packet extra s = do {
     s \<leftarrow> Lock s;
     let (ok, s) = writePacketWithOpcodeLocked addr packet extra s;
     Some (ok, Unlock s) }"

text \<open>A write whose result is thrown away.\<close>

definition send :: "UDPAddr option \<Rightarrow> KadPacket \<Rightarrow> u8 list \<Rightarrow> DHTTracker \<Rightarrow> DHTTracker option" where
  "send addr packet extra s = map_option snd (writePacket addr packet extra s)"

section \<open>Known nodes\<close>

definition on_table :: "(node_heap \<times> kadRoutingTable \<Rightarrow> node_heap \<times> kadRoutingTable) \<Rightarrow> DHTTracker \<Rightarrow> DHTTracker" where
  "on_table f s = (let (h, t) = f (tk_heap s, tk_table s) in s\<lparr>tk_heap := h, tk_table := t\<rparr>)"

definition upd_node :: "nat \<Rightarrow> (KadRoutingNode \<Rightarrow> KadRoutingNode) \<Rightarrow> DHTTracker \<Rightarrow> DHTTracker" where
  "upd_node n f s = s\<lparr>tk_heap := (tk_heap s)(n := f (tk_heap s n))\<rparr>"

definition addr_node :: "UDPAddr \<Rightarrow> DHTTracker \<Rightarrow> nat option" where
  "addr_node addr s = map_of (tk_nodes s) (addr_String addr)"

text \<open>\<open>&KadRoutingNode{Addr: addr}\<close>, entered under its address.\<close>

definition new_node :: "UDPAddr \<Rightarrow> DHTTracker \<Rightarrow> nat \<times> DHTTracker" where
  "new_node addr s =
     (let n = tk_next s
      in (n, s\<lparr>tk_next := Suc n, tk_heap := (tk_heap s)(n := zero_node\<lparr>kn_Addr := Some addr\<rparr>),
               tk_nodes := AList.update (addr_String addr) n (tk_nodes s)\<rparr>))"

definition AddNode :: "UDPAddr \<Rightarrow> DHTTracker \<Rightarrow> DHTTracker option" where
  "AddNode addr s = do {
     s \<leftarrow> Lock s;
     let (node, s) = (case addr_node addr s of Some n \<Rightarrow> (n, s) | None \<Rightarrow> new_node addr s);
     Some (Unlock (upd_node node
       (\<lambda>n. n\<lparr>kn_Addr := Some addr, kn_Seed := True, kn_LastSeen := Some (tk_now s)\<rparr>) s)) }"

definition AddNodes :: "UDPAddr list \<Rightarrow> DHTTracker \<Rightarrow> DHTTracker option" where
  "AddNodes addrs s = foldM AddNode addrs s"

definition updated_node ::
  "int \<Rightarrow> hash \<Rightarrow> UDPAddr \<Rightarrow> u16 \<Rightarrow> u8 \<Rightarrow> bool \<Rightarrow> KadRoutingNode \<Rightarrow> KadRoutingNode" where
  "updated_node now i addr tcpPort version seed n =
     n\<lparr>kn_Addr := Some addr,
       kn_ID := (if hash_Equal i Invalid then kn_ID n else i),
       kn_TCPPort := (if tcpPort \<noteq> 0 then tcpPort else kn_TCPPort n),
       kn_Version := (if version \<noteq> 0 then version else kn_Version n),
       kn_Seed := (kn_Seed n \<or> seed),
       kn_LastSeen := Some now,
       kn_FirstSeen := (case kn_FirstSeen n of None \<Rightarrow> Some now | Some t \<Rightarrow> Some t)\<rparr>"

definition addOrUpdateNodeLocked ::
  "hash \<Rightarrow> UDPAddr \<Rightarrow> u16 \<Rightarrow> u8 \<Rightarrow> bool \<Rightarrow> DHTTracker \<Rightarrow> nat \<times> DHTTracker" where
  "addOrUpdateNodeLocked i addr0 tcpPort version seed s =
     (let addr = normalizeUDPAddr addr0;
          (node, s) = (case addr_node addr s of Some n \<Rightarrow> (n, s) | None \<Rightarrow> new_node addr s);
          s = upd_node node (updated_node (tk_now s) i addr tcpPort version seed) s
      in (node, if KnownID (tk_heap s node) then on_table (HeardAbout (tk_now s) node) s else s))"

definition addOrUpdateNode ::
  "hash \<Rightarrow> UDPAddr \<Rightarrow> u16 \<Rightarrow> u8 \<Rightarrow> bool \<Rightarrow> DHTTracker \<Rightarrow> DHTTracker option" where
  "addOrUpdateNode i addr tcpPort version seed s = do {
     s \<leftarrow> Lock s;
     Some (Unlock (snd (addOrUpdateNodeLocked i addr tcpPort version seed s))) }"

definition confirmNodeLocked :: "nat \<Rightarrow> DHTTracker \<Rightarrow> DHTTracker" where
  "confirmNodeLocked node s =
     (if \<not> KnownID (tk_heap s node) then s
      else on_table (NodeSeen (tk_now s) node)
             (upd_node node (\<lambda>n. n\<lparr>kn_Pinged := True, kn_FailCount := 0, kn_LastSeen := Some (tk_now s)\<rparr>) s))"

definition own_hello :: "int \<Rightarrow> DHTTracker \<Rightarrow> KadPacket" where
  "own_hello port s =
     KHello \<lparr>khello_ID = tk_selfID s, khello_TCPPort = of_int port, khello_Version = KademliaVersion, khello_Tags = []\<rparr>"

definition hello_transaction :: "UDPAddr \<Rightarrow> kadRPCTransaction" where
  "hello_transaction addr =
     \<lparr>tx_endpointKey = addr_String addr, tx_opcode = 0x19, tx_target = None, tx_sentTime = 0,
      tx_multi = False, tx_shortTimed = False, tx_observer = None\<rparr>"

text \<open>The greeting asks for the port with \<open>ListenPort\<close>, which locks.\<close>

definition maybeSendHelloLocked :: "nat \<Rightarrow> DHTTracker \<Rightarrow> DHTTracker option" where
  "maybeSendHelloLocked node s =
     (case kn_Addr (tk_heap s node) of
        None \<Rightarrow> Some s
      | Some addr \<Rightarrow>
          if kn_HelloSent (tk_heap s node) then Some s
          else do {
            let s = upd_node node (\<lambda>n. n\<lparr>kn_HelloSent := True\<rparr>) s;
            port \<leftarrow> ListenPort s;
            let s = snd (writePacketWithOpcodeLocked (Some addr) (own_hello port s) [0x11] s);
            Some (s\<lparr>tk_rpc := rpc_Invoke (tk_now s) (hello_transaction addr) (tk_rpc s)\<rparr>) })"

definition knownNodesLocked :: "bool \<Rightarrow> DHTTracker \<Rightarrow> nat list" where
  "knownNodesLocked requireID s =
     filter (\<lambda>n. kn_Addr (tk_heap s n) \<noteq> None \<and> (\<not> requireID \<or> KnownID (tk_heap s n))) (map snd (tk_nodes s))"

definition closestNodesLocked :: "hash \<Rightarrow> int \<Rightarrow> bool \<Rightarrow> DHTTracker \<Rightarrow> nat list" where
  "closestNodesLocked target limit requireID s =
     limited limit
       (if requireID then FindClosest (tk_heap s) (tk_table s) target limit True
        else sortKadNodesByDistance (tk_heap s) (knownNodesLocked False s) target)"

definition closestEntriesLocked :: "hash \<Rightarrow> int \<Rightarrow> DHTTracker \<Rightarrow> KadEntry list" where
  "closestEntriesLocked target limit s =
     List.map_filter (\<lambda>n.
       (let node = tk_heap s n
        in map_option (\<lambda>addr.
             \<lparr>ken_ID = kn_ID node,
              ken_Endpoint = \<lparr>ke_IP = protocolIP (ua_IP addr), ke_UDPPort = of_int (ua_Port addr),
                              ke_TCPPort = kn_TCPPort node\<rparr>,
              ken_Version = kn_Version node, ken_Verified = False\<rparr>) (kn_Addr node)))
       (closestNodesLocked target limit True s)"

section \<open>Published entries\<close>

text \<open>The bytes of a tag used as part of a key.\<close>

definition bytes_string :: "bytes \<Rightarrow> string" where
  "bytes_string b = map (\<lambda>x. char_of (unat x)) b"

definition store_entry :: "hash \<Rightarrow> string \<Rightarrow> SearchEntry \<Rightarrow> entry_index \<Rightarrow> entry_index" where
  "store_entry hash entryKey entry index =
     (let key = hash_String hash;
          bucket = (case map_of index key of None \<Rightarrow> [] | Some b \<Rightarrow> b)
      in AList.update key (AList.update entryKey entry bucket) index)"

definition source_key :: "SearchEntry \<Rightarrow> string" where
  "source_key entry =
     (let (endpoint, ok) = SourceEndpoint entry
      in if ok \<and> ep_Defined endpoint then ep_String endpoint else hash_String (se_ID entry))"

definition storeSourceLocked :: "hash \<Rightarrow> SearchEntry \<Rightarrow> DHTTracker \<Rightarrow> DHTTracker" where
  "storeSourceLocked hash entry s =
     s\<lparr>tk_sourceIndex := store_entry hash (source_key entry) entry (tk_sourceIndex s)\<rparr>"

definition storeKeywordLocked :: "hash \<Rightarrow> SearchEntry \<Rightarrow> DHTTracker \<Rightarrow> DHTTracker" where
  "storeKeywordLocked hash entry s =
     (let (name, ok) = se_StringTag entry 0x01;
          entryKey = (if ok \<and> name \<noteq> [] then hash_String (se_ID entry) @ '':'' @ bytes_string name
                      else hash_String (se_ID entry))
      in s\<lparr>tk_keywordIndex := store_entry hash entryKey entry (tk_keywordIndex s)\<rparr>)"

definition storeNotesLocked :: "hash \<Rightarrow> SearchEntry \<Rightarrow> DHTTracker \<Rightarrow> DHTTracker" where
  "storeNotesLocked hash entry s =
     s\<lparr>tk_notesIndex := store_entry hash (source_key entry) entry (tk_notesIndex s)\<rparr>"

definition index_entries :: "hash \<Rightarrow> entry_index \<Rightarrow> SearchEntry list" where
  "index_entries hash index =
     (case map_of index (hash_String hash) of None \<Rightarrow> [] | Some bucket \<Rightarrow> map snd bucket)"

definition searchEntriesLocked :: "hash \<Rightarrow> DHTTracker \<Rightarrow> SearchEntry list" where
  "searchEntriesLocked hash s = index_entries hash (tk_sourceIndex s)"

definition keywordEntriesLocked :: "hash \<Rightarrow> DHTTracker \<Rightarrow> SearchEntry list" where
  "keywordEntriesLocked hash s = index_entries hash (tk_keywordIndex s)"

definition notesEntriesLocked :: "hash \<Rightarrow> DHTTracker \<Rightarrow> SearchEntry list" where
  "notesEntriesLocked hash s = index_entries hash (tk_notesIndex s)"

definition addSourceIPLocked :: "UDPAddr \<Rightarrow> SearchEntry \<Rightarrow> SearchEntry" where
  "addSourceIPLocked addr entry =
     (if \<exists>tag \<in> set (se_Tags entry). kt_ID tag = 0xFE then entry
      else entry\<lparr>se_Tags :=
        \<lparr>kt_Type = TagTypeUint32, kt_ID = 0xFE, kt_UInt64 = ucast (protocolIP (ua_IP addr)), kt_String = []\<rparr>
          # se_Tags entry\<rparr>)"

definition with_source_ip :: "UDPAddr option \<Rightarrow> SearchEntry \<Rightarrow> SearchEntry" where
  "with_source_ip addr entry = (case addr of None \<Rightarrow> entry | Some a \<Rightarrow> addSourceIPLocked a entry)"

section \<open>Search results in packets\<close>

definition kadTagSize :: "KadTag \<Rightarrow> nat" where
  "kadTagSize tag =
     2 + (if kt_Type tag = TagTypeUint8 then 1
          else if kt_Type tag = TagTypeUint16 then 2
          else if kt_Type tag = TagTypeUint32 then 4
          else if kt_Type tag = TagTypeUint64 then 8
          else if kt_Type tag = TagTypeString then 2 + length (kt_String tag)
          else if kt_Type tag \<ge> TagTypeStr1 \<and> kt_Type tag \<le> TagTypeStr1 + 15 then length (kt_String tag)
          else 0)"

definition kadSearchEntrySize :: "SearchEntry \<Rightarrow> nat" where
  "kadSearchEntrySize entry = 16 + 1 + sum_list (map kadTagSize (se_Tags entry))"

definition maxEntriesPerPacket :: nat where "maxEntriesPerPacket = 50"
definition outputLimit :: nat where "outputLimit = 8128"

text \<open>
  The loop of \<open>sendSearchResults\<close>: the entries of the packet being filled, the bytes they
  take, and the entries still to come. The result is the list of packets in the order of their writes.
\<close>

fun result_packets :: "SearchEntry list \<Rightarrow> nat \<Rightarrow> SearchEntry list \<Rightarrow> SearchEntry list list" where
  "result_packets packet bytesAllocated [] = (if length packet > 0 then [packet] else [])"
| "result_packets packet bytesAllocated (entry # entries) =
     (let entrySize = kadSearchEntrySize entry
      in if length packet \<ge> maxEntriesPerPacket \<or> bytesAllocated + entrySize + 32 > outputLimit
         then packet # result_packets [entry] entrySize entries
         else result_packets (packet @ [entry]) (bytesAllocated + entrySize) entries)"

definition sendSearchResults :: "UDPAddr option \<Rightarrow> hash \<Rightarrow> SearchEntry list \<Rightarrow> DHTTracker \<Rightarrow> DHTTracker option" where
  "sendSearchResults addr target results s =
     (if addr = None \<or> results = [] then Some s
      else
        (let source = tk_selfID s
         in foldM (\<lambda>packet. send addr
              (KSearchRes \<lparr>srs_Source = source, srs_Target = target, srs_Results = packet\<rparr>) [])
              (result_packets [] 0 results) s))"

section \<open>Packets of other nodes\<close>

definition met :: "KadEntry \<Rightarrow> DHTTracker \<Rightarrow> DHTTracker option" where
  "met contact s =
     (let e = ken_Endpoint contact;
          (node, s) = addOrUpdateNodeLocked (ken_ID contact) (udpAddrFromKad e) (ke_TCPPort e) (ken_Version contact) False s
      in maybeSendHelloLocked node s)"

definition handleBootstrapResponse :: "UDPAddr \<Rightarrow> BootstrapRes \<Rightarrow> DHTTracker \<Rightarrow> DHTTracker option" where
  "handleBootstrapResponse addr res s = do {
     s \<leftarrow> Lock s;
     let (node, s) = addOrUpdateNodeLocked (bsr_ID res) addr (bsr_TCPPort res) (bsr_Version res) False s;
     s \<leftarrow> foldM met (bsr_Contacts res) (confirmNodeLocked node s);
     Some (Unlock s) }"

definition handleFindResponse :: "UDPAddr \<Rightarrow> KadRes \<Rightarrow> DHTTracker \<Rightarrow> DHTTracker option" where
  "handleFindResponse addr res s = do {
     s \<leftarrow> Lock s;
     s \<leftarrow> foldM met (kres_Results res) s;
     Some (Unlock
       (case addr_node addr s of
          None \<Rightarrow> s
        | Some node \<Rightarrow> confirmNodeLocked node (upd_node node (\<lambda>n. n\<lparr>kn_LastSeen := Some (tk_now s)\<rparr>) s))) }"

definition handleHello :: "UDPAddr \<Rightarrow> KadHello \<Rightarrow> bool \<Rightarrow> DHTTracker \<Rightarrow> DHTTracker option" where
  "handleHello addr hello reply s = do {
     s \<leftarrow> Lock s;
     let (node, s) = addOrUpdateNodeLocked (khello_ID hello) addr (khello_TCPPort hello) (khello_Version hello) False s;
     let s = Unlock (confirmNodeLocked node (upd_node node (\<lambda>n. n\<lparr>kn_HelloSent := True\<rparr>) s));
     if reply then do {
       port \<leftarrow> ListenPort s;
       send (Some addr) (own_hello port s) [0x19] s }
     else Some s }"

definition handleBootstrapRequest :: "UDPAddr \<Rightarrow> DHTTracker \<Rightarrow> DHTTracker option" where
  "handleBootstrapRequest addr s = do {
     s \<leftarrow> Lock s;
     let contacts = closestEntriesLocked (tk_selfID s) 20 s;
     let s = Unlock s;
     port \<leftarrow> ListenPort s;
     send (Some addr)
       (KBootstrapRes \<lparr>bsr_ID = tk_selfID s, bsr_TCPPort = of_int port, bsr_Version = KademliaVersion,
                       bsr_Contacts = contacts\<rparr>) [] s }"

definition handleFindRequest :: "UDPAddr \<Rightarrow> KadReq \<Rightarrow> DHTTracker \<Rightarrow> DHTTracker option" where
  "handleFindRequest addr req s = do {
     s \<leftarrow> Lock s;
     let contacts = closestEntriesLocked (kreq_Target req) 20 s;
     send (Some addr) (KRes \<lparr>kres_Target = kreq_Target req, kres_Results = contacts\<rparr>) [] (Unlock s) }"

definition handleSearchSourcesRequest :: "UDPAddr \<Rightarrow> SearchSourcesReq \<Rightarrow> DHTTracker \<Rightarrow> DHTTracker option" where
  "handleSearchSourcesRequest addr req s = do {
     s \<leftarrow> Lock s;
     let results = searchEntriesLocked (ssr_Target req) s;
     sendSearchResults (Some addr) (ssr_Target req) results (Unlock s) }"

definition handleSearchKeysRequest :: "UDPAddr \<Rightarrow> SearchKeysReq \<Rightarrow> DHTTracker \<Rightarrow> DHTTracker option" where
  "handleSearchKeysRequest addr req s = do {
     s \<leftarrow> Lock s;
     let results = keywordEntriesLocked (skr_Target req) s;
     sendSearchResults (Some addr) (skr_Target req) results (Unlock s) }"

definition handleSearchNotesRequest :: "UDPAddr \<Rightarrow> SearchNotesReq \<Rightarrow> DHTTracker \<Rightarrow> DHTTracker option" where
  "handleSearchNotesRequest addr req s = do {
     s \<leftarrow> Lock s;
     let results = notesEntriesLocked (snr_Target req) s;
     sendSearchResults (Some addr) (snr_Target req) results (Unlock s) }"

text \<open>A publication that came from outside is passed on to the storage point, if there is one.\<close>

definition pass_on :: "UDPAddr option \<Rightarrow> KadPacket \<Rightarrow> DHTTracker \<Rightarrow> DHTTracker option" where
  "pass_on addr packet s =
     (if addr \<noteq> None \<and> tk_storagePoint s \<noteq> None then send (tk_storagePoint s) packet [] s else Some s)"

definition handlePublishSourcesRequest ::
  "UDPAddr option \<Rightarrow> PublishSourcesReq \<Rightarrow> DHTTracker \<Rightarrow> DHTTracker option" where
  "handlePublishSourcesRequest addr req0 s = do {
     s \<leftarrow> Lock s;
     let req = req0\<lparr>psr_Source := with_source_ip addr (psr_Source req0)\<rparr>;
     let s = Unlock (storeSourceLocked (psr_FileID req) (psr_Source req) s);
     s \<leftarrow> pass_on addr (KPublishSourcesReq req) s;
     send addr (KPublishRes \<lparr>pres_FileID = psr_FileID req, pres_Count = 1\<rparr>) [] s }"

definition handlePublishKeysRequest ::
  "UDPAddr option \<Rightarrow> PublishKeysReq \<Rightarrow> DHTTracker \<Rightarrow> DHTTracker option" where
  "handlePublishKeysRequest addr req0 s = do {
     s \<leftarrow> Lock s;
     let req = req0\<lparr>pkr_Sources := map (with_source_ip addr) (pkr_Sources req0)\<rparr>;
     let s = Unlock (fold (storeKeywordLocked (pkr_KeywordID req)) (pkr_Sources req) s);
     s \<leftarrow> pass_on addr (KPublishKeysReq req) s;
     send addr (KPublishRes \<lparr>pres_FileID = pkr_KeywordID req, pres_Count = 1\<rparr>) [] s }"

definition handlePublishNotesRequest ::
  "UDPAddr option \<Rightarrow> PublishNotesReq \<Rightarrow> DHTTracker \<Rightarrow> DHTTracker option" where
  "handlePublishNotesRequest addr req0 s = do {
     s \<leftarrow> Lock s;
     let req = req0\<lparr>pnr_Notes := map (with_source_ip addr) (pnr_Notes req0)\<rparr>;
     let s = Unlock (fold (storeNotesLocked (pnr_FileID req)) (pnr_Notes req) s);
     s \<leftarrow> pass_on addr (KPublishNotesReq req) s;
     send addr (KPublishNotesRes \<lparr>pres_FileID = pnr_FileID req, pres_Count = 1\<rparr>) [] s }"

definition handleFirewalledRequest :: "UDPAddr \<Rightarrow> DHTTracker \<Rightarrow> DHTTracker option" where
  "handleFirewalledRequest addr s = send (Some addr) (KFirewalledRes \<lparr>fws_IP = protocolIP (ua_IP addr)\<rparr>) [] s"

text \<open>Both counts of the external addresses that agree with the local one.\<close>

definition local_matches :: "DHTTracker \<Rightarrow> nat" where
  "local_matches s =
     (let localIP = (if tk_conn s \<noteq> None then protocolIP (tk_localIP s) else 0)
      in length (filter (\<lambda>ip. ip \<noteq> 0 \<and> ip = localIP) (take 2 (tk_externalIPs s))))"

definition handleFirewalledResponse :: "UDPAddr \<Rightarrow> FirewalledRes \<Rightarrow> DHTTracker \<Rightarrow> DHTTracker option" where
  "handleFirewalledResponse addr res s = do {
     s \<leftarrow> Lock s;
     let s = (case addr_node addr s of None \<Rightarrow> s | Some node \<Rightarrow> confirmNodeLocked node s);
     let s = (if fws_IP res \<noteq> 0 \<and> length (tk_externalIPs s) < 2
              then s\<lparr>tk_externalIPs := tk_externalIPs s @ [fws_IP res]\<rparr> else s);
     let s = (if length (tk_externalIPs s) \<ge> 2
              then s\<lparr>tk_firewalled := (local_matches s \<noteq> 2), tk_externalIPs := []\<rparr> else s);
     Some (Unlock s) }"

section \<open>Publishing\<close>

definition uint_tag :: "u8 \<Rightarrow> u8 \<Rightarrow> u64 \<Rightarrow> KadTag" where
  "uint_tag t i v = \<lparr>kt_Type = t, kt_ID = i, kt_UInt64 = v, kt_String = []\<rparr>"

definition published_source :: "hash \<Rightarrow> Endpoint \<Rightarrow> int \<Rightarrow> SearchEntry" where
  "published_source hash endpoint fileSize =
     \<lparr>se_ID = hash,
      se_Tags =
        [uint_tag TagTypeUint8 0xFF 1,
         uint_tag TagTypeUint32 0xFE (ucast (ep_ip endpoint)),
         uint_tag TagTypeUint16 0xFD (ucast (of_int (ep_port endpoint) :: u16))] @
        (if fileSize > 0 then [uint_tag TagTypeUint64 0xD3 (of_int fileSize)] else [])\<rparr>"

definition publish_to :: "nat list \<Rightarrow> KadPacket \<Rightarrow> DHTTracker \<Rightarrow> DHTTracker option" where
  "publish_to nodes packet s =
     foldM (\<lambda>n s. if kn_Addr (tk_heap s n) = None then Some s else send (kn_Addr (tk_heap s n)) packet [] s) nodes s"

text \<open>The part the three operations share: store, look for the five nearest nodes, tell them.\<close>

definition publish ::
  "((UDPAddr \<Rightarrow> bytes \<Rightarrow> bool) \<times> bytes \<times> int) option \<Rightarrow> hash \<Rightarrow> (DHTTracker \<Rightarrow> DHTTracker) \<Rightarrow>
     KadPacket \<Rightarrow> DHTTracker \<Rightarrow> (bool \<times> DHTTracker) option" where
  "publish opened hash store packet s = do {
     (ok, s) \<leftarrow> Start opened s;
     if \<not> ok then Some (False, s)
     else do {
       s \<leftarrow> Lock s;
       let s = store s;
       let nodes = closestNodesLocked hash 5 True s;
       let s = Unlock s;
       if nodes = [] then Some (False, s)
       else do { s \<leftarrow> publish_to nodes packet s; Some (True, s) } } }"

definition PublishSource ::
  "((UDPAddr \<Rightarrow> bytes \<Rightarrow> bool) \<times> bytes \<times> int) option \<Rightarrow> hash \<Rightarrow> Endpoint \<Rightarrow> int \<Rightarrow> DHTTracker \<Rightarrow>
     (bool \<times> DHTTracker) option" where
  "PublishSource opened hash endpoint fileSize s =
     (if \<not> ep_Defined endpoint then Some (False, s)
      else
        (let entry = published_source hash endpoint fileSize
         in publish opened hash (storeSourceLocked hash entry)
              (KPublishSourcesReq \<lparr>psr_FileID = hash, psr_Source = entry\<rparr>) s))"

definition PublishKeyword ::
  "((UDPAddr \<Rightarrow> bytes \<Rightarrow> bool) \<times> bytes \<times> int) option \<Rightarrow> hash \<Rightarrow> SearchEntry list \<Rightarrow> DHTTracker \<Rightarrow>
     (bool \<times> DHTTracker) option" where
  "PublishKeyword opened hash entries s =
     (if entries = [] then Some (False, s)
      else publish opened hash (fold (storeKeywordLocked hash) entries)
             (KPublishKeysReq \<lparr>pkr_KeywordID = hash, pkr_Sources = entries\<rparr>) s)"

definition PublishNotes ::
  "((UDPAddr \<Rightarrow> bytes \<Rightarrow> bool) \<times> bytes \<times> int) option \<Rightarrow> hash \<Rightarrow> SearchEntry list \<Rightarrow> DHTTracker \<Rightarrow>
     (bool \<times> DHTTracker) option" where
  "PublishNotes opened hash entries s =
     (if entries = [] then Some (False, s)
      else publish opened hash (fold (storeNotesLocked hash) entries)
             (KPublishNotesReq \<lparr>pnr_FileID = hash, pnr_Notes = entries\<rparr>) s)"

section \<open>The file of nodes and the saved state\<close>

definition see :: "nat \<Rightarrow> DHTTracker \<Rightarrow> DHTTracker" where
  "see node s = on_table (NodeSeen (tk_now s) node) s"

definition hear :: "nat \<Rightarrow> DHTTracker \<Rightarrow> DHTTracker" where
  "hear node s = on_table (HeardAbout (tk_now s) node) s"

definition nodes_dat_addr :: "KadEndpoint \<Rightarrow> UDPAddr" where
  "nodes_dat_addr e =
     \<lparr>ua_IP = net_IPv4 (ucast (ke_IP e)) (ucast (drop_bit 8 (ke_IP e)))
                (ucast (drop_bit 16 (ke_IP e))) (ucast (drop_bit 24 (ke_IP e))),
      ua_Port = uint (ke_UDPPort e)\<rparr>"

text \<open>One contact: the nodes loaded so far, whether one was verified, the state.\<close>

definition apply_contact ::
  "u32 \<Rightarrow> KadEntry \<Rightarrow> nat list \<times> bool \<times> DHTTracker \<Rightarrow> nat list \<times> bool \<times> DHTTracker" where
  "apply_contact edition entry a =
     (let (loaded, haveVerified, s) = a;
          e = ken_Endpoint entry;
          addr = nodes_dat_addr e;
          (node, s) = addOrUpdateNodeLocked (ken_ID entry) addr (ke_TCPPort e) (ken_Version entry) True s;
          loaded = loaded @ [node]
      in if edition = 1 then (loaded, haveVerified, s\<lparr>tk_table := AddRouterNode addr (tk_table s)\<rparr>)
         else if ken_Verified entry then (loaded, True, see node s)
         else (loaded, haveVerified, hear node s))"

definition ApplyNodesDat :: "NodesDat \<Rightarrow> DHTTracker \<Rightarrow> DHTTracker option" where
  "ApplyNodesDat nodes s = do {
     s \<leftarrow> Lock s;
     let (loaded, haveVerified, s) =
       fold (apply_contact (nd_BootstrapEdition nodes)) (nd_Contacts nodes) ([], False, s);
     Some (Unlock
       (if nd_BootstrapEdition nodes = 0 \<and> length loaded > 0 \<and> \<not> haveVerified then fold see loaded s else s)) }"

definition SetStoragePoint :: "UDPAddr option \<Rightarrow> DHTTracker \<Rightarrow> DHTTracker option" where
  "SetStoragePoint addr s = do {
     s \<leftarrow> Lock s;
     Some (Unlock (s\<lparr>tk_storagePoint := map_option normalizeUDPAddr addr\<rparr>)) }"

definition IsFirewalled :: "DHTTracker \<Rightarrow> bool option" where
  "IsFirewalled s = map_option tk_firewalled (Lock s)"

record DHTStatus =
  ds_Bootstrapped :: bool
  ds_Firewalled :: bool
  ds_LiveNodes :: nat
  ds_ReplacementNodes :: nat
  ds_RouterNodes :: nat
  ds_RunningTraversals :: nat
  ds_KnownNodes :: nat
  ds_InitialBootstrap :: bool
  ds_ListenPort :: int
  ds_StoragePoint :: string

text \<open>\<open>addr_text\<close> is the standard library's text of an address.\<close>

definition tk_Status :: "(UDPAddr \<Rightarrow> string) \<Rightarrow> DHTTracker \<Rightarrow> DHTStatus option" where
  "tk_Status addr_text s = do {
     s \<leftarrow> Lock s;
     let (live, replacements) = rt_Size (tk_table s);
     Some \<lparr>ds_Bootstrapped = (live > 0), ds_Firewalled = tk_firewalled s, ds_LiveNodes = live,
           ds_ReplacementNodes = replacements, ds_RouterNodes = length (RouterNodes (tk_table s)),
           ds_RunningTraversals = length (tk_running s), ds_KnownNodes = length (tk_nodes s),
           ds_InitialBootstrap = tk_initialBootstrapRequired s, ds_ListenPort = tk_listenPort s,
           ds_StoragePoint = (case tk_storagePoint s of None \<Rightarrow> [] | Some a \<Rightarrow> addr_text a)\<rparr> }"

record ClientDHTNodeState =
  dn_ID :: hash
  dn_Addr :: string
  dn_TCPPort :: u16
  dn_Version :: u8
  dn_Seed :: bool
  dn_HelloSent :: bool
  dn_Pinged :: bool
  dn_FailCount :: int
  dn_FirstSeen :: int
  dn_LastSeen :: int

record ClientDHTState =
  dh_SelfID :: hash
  dh_Firewalled :: bool
  dh_LastBootstrap :: int
  dh_LastRefresh :: int
  dh_LastFirewalledCheck :: int
  dh_StoragePoint :: string
  dh_Nodes :: "ClientDHTNodeState list"
  dh_RouterNodes :: "string list"

definition timeToMillis :: "int option \<Rightarrow> int" where
  "timeToMillis value = (case value of None \<Rightarrow> 0 | Some t \<Rightarrow> t div 1000000)"

definition millisToTime :: "int \<Rightarrow> int option" where
  "millisToTime value = (if value \<le> 0 then None else Some (value * 1000000))"

definition node_state :: "(UDPAddr \<Rightarrow> string) \<Rightarrow> KadRoutingNode \<Rightarrow> ClientDHTNodeState option" where
  "node_state addr_text node =
     map_option (\<lambda>addr.
       \<lparr>dn_ID = kn_ID node, dn_Addr = addr_text addr, dn_TCPPort = kn_TCPPort node,
        dn_Version = kn_Version node, dn_Seed = kn_Seed node, dn_HelloSent = kn_HelloSent node,
        dn_Pinged = kn_Pinged node, dn_FailCount = kn_FailCount node,
        dn_FirstSeen = timeToMillis (kn_FirstSeen node), dn_LastSeen = timeToMillis (kn_LastSeen node)\<rparr>)
       (kn_Addr node)"

definition SnapshotState :: "(UDPAddr \<Rightarrow> string) \<Rightarrow> DHTTracker \<Rightarrow> ClientDHTState option" where
  "SnapshotState addr_text s = do {
     s \<leftarrow> Lock s;
     Some \<lparr>dh_SelfID = tk_selfID s, dh_Firewalled = tk_firewalled s,
           dh_LastBootstrap = timeToMillis (tk_lastBootstrap s),
           dh_LastRefresh = timeToMillis (tk_lastRefresh s),
           dh_LastFirewalledCheck = timeToMillis (tk_lastFirewalledCheck s),
           dh_StoragePoint = (case tk_storagePoint s of None \<Rightarrow> [] | Some a \<Rightarrow> addr_text a),
           dh_Nodes = List.map_filter (\<lambda>(key, n). node_state addr_text (tk_heap s n)) (tk_nodes s),
           dh_RouterNodes = map addr_text (RouterNodes (tk_table s))\<rparr> }"

definition restored_node :: "ClientDHTNodeState \<Rightarrow> UDPAddr \<Rightarrow> KadRoutingNode" where
  "restored_node r addr =
     \<lparr>kn_ID = dn_ID r, kn_Addr = Some (normalizeUDPAddr addr), kn_TCPPort = dn_TCPPort r,
      kn_Version = dn_Version r, kn_Seed = dn_Seed r, kn_HelloSent = dn_HelloSent r,
      kn_Pinged = dn_Pinged r, kn_FailCount = dn_FailCount r,
      kn_FirstSeen = millisToTime (dn_FirstSeen r), kn_LastSeen = millisToTime (dn_LastSeen r)\<rparr>"

text \<open>\<open>resolve\<close> is the standard library's \<open>net.ResolveUDPAddr\<close>.\<close>

definition apply_node :: "(string \<Rightarrow> UDPAddr option) \<Rightarrow> ClientDHTNodeState \<Rightarrow> DHTTracker \<Rightarrow> DHTTracker" where
  "apply_node resolve r s =
     (case resolve (dn_Addr r) of
        None \<Rightarrow> s
      | Some addr \<Rightarrow>
          (let node = restored_node r addr;
               n = tk_next s;
               s = s\<lparr>tk_next := Suc n, tk_heap := (tk_heap s)(n := node),
                     tk_nodes := AList.update (addr_String (normalizeUDPAddr addr)) n (tk_nodes s)\<rparr>
           in if kn_Pinged node then see n s else hear n s))"

definition ApplyState :: "(string \<Rightarrow> UDPAddr option) \<Rightarrow> ClientDHTState \<Rightarrow> DHTTracker \<Rightarrow> DHTTracker option" where
  "ApplyState resolve state s = do {
     s \<leftarrow> Lock s;
     let self = (if hash_Equal (dh_SelfID state) Invalid then tk_selfID s else dh_SelfID state);
     let t = (newKadRoutingTable (tk_now s) self 10)
       \<lparr>rt_lastBootstrap := millisToTime (dh_LastBootstrap state),
        rt_lastRefresh := millisToTime (dh_LastRefresh state)\<rparr>;
     let t = fold AddRouterNode (List.map_filter resolve (dh_RouterNodes state)) t;
     let s = s\<lparr>tk_selfID := self, tk_table := t, tk_nodes := [], tk_firewalled := dh_Firewalled state,
               tk_lastBootstrap := millisToTime (dh_LastBootstrap state),
               tk_lastRefresh := millisToTime (dh_LastRefresh state),
               tk_lastFirewalledCheck := millisToTime (dh_LastFirewalledCheck state),
               tk_storagePoint :=
                 (if dh_StoragePoint state = [] then None
                  else map_option normalizeUDPAddr (resolve (dh_StoragePoint state)))\<rparr>;
     let s = fold (apply_node resolve) (dh_Nodes state) s;
     Some (Unlock (s\<lparr>tk_initialBootstrapRequired := (fst (rt_Size (tk_table s)) = 0)\<rparr>)) }"

end
