(* ===== verification/Kad_Traversal.thy ===== *)
theory Kad_Traversal
  imports Kad_Tracker
begin

unbundle bit_operations_syntax

text \<open>
  The searches of a Kademlia node (\<^verbatim>\<open>kad_traversal.go\<close>, \<^verbatim>\<open>kad_node.go\<close>): observers,
  one for each node that is asked; traversals, which ask ever nearer nodes; what starts them; the
  dispatch of incoming packets and the tick.

  Observers and traversals are addresses into the state's heaps. A traversal that looked for the
  nodes near a target starts, when it is done, a second one that asks them for entries; the second
  kind starts none, so \<open>tv_done\<close> and \<open>tv_start\<close> are tied in two layers.
\<close>

definition FlagQueried :: u64 where "FlagQueried = 1"
definition FlagInitial :: u64 where "FlagInitial = 2"
definition FlagNoID :: u64 where "FlagNoID = 4"
definition FlagShortTimeout :: u64 where "FlagShortTimeout = 8"
definition FlagFailed :: u64 where "FlagFailed = 16"
definition FlagAlive :: u64 where "FlagAlive = 32"
definition FlagDone :: u64 where "FlagDone = 64"

definition PreventRequest :: u64 where "PreventRequest = 1"
definition ShortTimeout :: u64 where "ShortTimeout = 2"
definition MaxResults :: nat where "MaxResults = 100"

definition has :: "kadObserver \<Rightarrow> u64 \<Rightarrow> bool" where
  "has b f \<longleftrightarrow> ob_flags b AND f \<noteq> 0"

definition upd_ob :: "nat \<Rightarrow> (kadObserver \<Rightarrow> kadObserver) \<Rightarrow> DHTTracker \<Rightarrow> DHTTracker" where
  "upd_ob i f s = s\<lparr>tk_observers := (tk_observers s)(i := f (tk_observers s i))\<rparr>"

definition set_flag :: "nat \<Rightarrow> u64 \<Rightarrow> DHTTracker \<Rightarrow> DHTTracker" where
  "set_flag i f s = upd_ob i (\<lambda>b. b\<lparr>ob_flags := ob_flags b OR f\<rparr>) s"

definition upd_tv :: "nat \<Rightarrow> (kadTraversal \<Rightarrow> kadTraversal) \<Rightarrow> DHTTracker \<Rightarrow> DHTTracker" where
  "upd_tv t f s = s\<lparr>tk_traversals := (tk_traversals s)(t := f (tk_traversals s t))\<rparr>"

section \<open>Results\<close>

definition newKadTraversal ::
  "hash \<Rightarrow> kadTraversalKind \<Rightarrow> int \<Rightarrow> nat option \<Rightarrow> DHTTracker \<Rightarrow> nat \<times> DHTTracker" where
  "newKadTraversal target kind fileSize listener s =
     (let t = tk_nextTraversal s;
          n = int (rt_bucketSize (tk_table s)) * 2
      in (t, s\<lparr>tk_nextTraversal := Suc t,
               tk_traversals := (tk_traversals s)(t :=
                 \<lparr>tv_target = target, tv_kind = kind, tv_results = [], tv_invokeCount = 0,
                  tv_branchFactor = 0, tv_responses = 0, tv_timeouts = 0,
                  tv_numTargetNodes = (if n \<le> 0 then 20 else n), tv_size = fileSize,
                  tv_listener = listener, tv_accum = [], tv_externalIPs = []\<rparr>)\<rparr>))"

definition tv_key :: "kadTraversal \<Rightarrow> kadTraversalKind \<times> hash" where
  "tv_key t = (tv_kind t, tv_target t)"

definition newObserver ::
  "nat \<Rightarrow> UDPAddr option \<Rightarrow> hash \<Rightarrow> u16 \<Rightarrow> u8 \<Rightarrow> DHTTracker \<Rightarrow> nat \<times> DHTTracker" where
  "newObserver t endpoint i portTCP version s =
     (let k = tk_nextObserver s
      in (k, s\<lparr>tk_nextObserver := Suc k,
               tk_observers := (tk_observers s)(k :=
                 \<lparr>ob_traversal = t, ob_endpoint = map_option normalizeUDPAddr endpoint, ob_id = i,
                  ob_portTCP = portTCP, ob_version = version, ob_flags = 0,
                  ob_processedResponses = 0, ob_entries = [], ob_externalIP = 0\<rparr>)\<rparr>))"

definition tv_addNode ::
  "nat \<Rightarrow> UDPAddr option \<Rightarrow> hash \<Rightarrow> u16 \<Rightarrow> u8 \<Rightarrow> DHTTracker \<Rightarrow> DHTTracker" where
  "tv_addNode t endpoint i portTCP version s =
     (let (k, s) = newObserver t endpoint i portTCP version s
      in upd_tv t (\<lambda>tr. tr\<lparr>tv_results := tv_results tr @ [k],
                           tv_numTargetNodes := int (length (tv_results tr) + 1)\<rparr>) s)"

text \<open>The place of an observer among the results, and the list with it.\<close>

definition insert_result ::
  "(nat \<Rightarrow> kadObserver) \<Rightarrow> hash \<Rightarrow> nat \<Rightarrow> nat list \<Rightarrow> nat list" where
  "insert_result obs target k results =
     (let insertPos = go_search (\<lambda>i. DistanceCompare (ob_id (obs (results ! i))) (ob_id (obs k)) target \<ge> 0)
                        0 (length results)
      in if insertPos < length results \<and> hash_Equal (ob_id (obs (results ! insertPos))) (ob_id (obs k))
         then results
         else take MaxResults (slice_insert results insertPos k))"

text \<open>A node without an identifier gets a random one, to have a place among the results.\<close>

definition identify :: "nat \<Rightarrow> DHTTracker \<Rightarrow> DHTTracker" where
  "identify k s =
     (if hash_Equal (ob_id (tk_observers s k)) Invalid then
        (let (r, s) = draw s
         in case RandomHash r False of
              Inl e \<Rightarrow> s
            | Inr h \<Rightarrow> set_flag k FlagNoID (upd_ob k (\<lambda>b. b\<lparr>ob_id := h\<rparr>) s))
      else s)"

definition addEntry ::
  "nat \<Rightarrow> hash \<Rightarrow> UDPAddr \<Rightarrow> u64 \<Rightarrow> u16 \<Rightarrow> u8 \<Rightarrow> DHTTracker \<Rightarrow> DHTTracker" where
  "addEntry t i endpoint flags portTCP version s =
     (let (k, s) = newObserver t (Some endpoint) i portTCP version s;
          s = set_flag k flags (identify k s)
      in upd_tv t (\<lambda>tr. tr\<lparr>tv_results := insert_result (tk_observers s) (tv_target tr) k (tv_results tr)\<rparr>) s)"

definition addRouterEntries :: "nat \<Rightarrow> DHTTracker \<Rightarrow> DHTTracker" where
  "addRouterEntries t s =
     fold (\<lambda>addr s. addEntry t Invalid addr FlagInitial 0 0 s) (RouterNodes (tk_table s)) s"

section \<open>Asking nodes\<close>

definition node_invoke ::
  "KadPacket \<Rightarrow> UDPAddr option \<Rightarrow> nat \<Rightarrow> u8 \<Rightarrow> hash option \<Rightarrow> bool \<Rightarrow> DHTTracker \<Rightarrow> (bool \<times> DHTTracker) option" where
  "node_invoke packet addr k opcode target multi s =
     (case addr of
        None \<Rightarrow> Some (False, s)
      | Some a \<Rightarrow> do {
          (ok, s) \<leftarrow> writePacket addr packet [] s;
          if \<not> ok then Some (False, s)
          else Some (True, s\<lparr>tk_rpc := rpc_Invoke (tk_now s)
            \<lparr>tx_endpointKey = addr_String a, tx_opcode = opcode, tx_target = target, tx_sentTime = 0,
             tx_multi = multi, tx_shortTimed = False, tx_observer = Some k\<rparr> (tk_rpc s)\<rparr>) })"

definition tv_invoke :: "nat \<Rightarrow> nat \<Rightarrow> DHTTracker \<Rightarrow> (bool \<times> DHTTracker) option" where
  "tv_invoke t k s =
     (let tr = tk_traversals s t; o' = tk_observers s k; target = tv_target tr; e = ob_endpoint o'
      in if e = None then Some (False, s)
         else (case tv_kind tr of
           Tv_Bootstrap \<Rightarrow> node_invoke KBootstrapReq e k 0x09 None False s
         | Tv_FindSources \<Rightarrow>
             node_invoke (KReq \<lparr>kreq_SearchType = 0x0B, kreq_Target = target, kreq_Receiver = ob_id o'\<rparr>)
               e k 0x29 (Some target) False s
         | Tv_Refresh \<Rightarrow>
             node_invoke (KReq \<lparr>kreq_SearchType = 0x0B, kreq_Target = target, kreq_Receiver = ob_id o'\<rparr>)
               e k 0x29 (Some target) False s
         | Tv_FindKeywords \<Rightarrow>
             node_invoke (KReq \<lparr>kreq_SearchType = 0x02, kreq_Target = target, kreq_Receiver = ob_id o'\<rparr>)
               e k 0x29 (Some target) False s
         | Tv_SearchSources \<Rightarrow>
             node_invoke (KSearchSourcesReq \<lparr>ssr_Target = target, ssr_StartPos = 0, ssr_Size = of_int (tv_size tr)\<rparr>)
               e k 0x3B (Some target) True s
         | Tv_SearchKeyword \<Rightarrow>
             node_invoke (KSearchKeysReq \<lparr>skr_Target = target, skr_StartPos = 0\<rparr>) e k 0x3B (Some target) True s
         | Tv_Firewalled \<Rightarrow> do {
             port \<leftarrow> ListenPort s;
             node_invoke (KFirewalledReq \<lparr>fwr_TCPPort = of_int port, fwr_ID = target, fwr_Options = 0\<rparr>)
               e k 0x58 None False s }))"

fun requests_to :: "nat \<Rightarrow> nat list \<Rightarrow> int \<Rightarrow> DHTTracker \<Rightarrow> DHTTracker option" where
  "requests_to t [] resultsTarget s = Some s"
| "requests_to t (k # ks) resultsTarget s =
     (if \<not> (resultsTarget > 0 \<and> tv_invokeCount (tk_traversals s t) < tv_branchFactor (tk_traversals s t))
      then Some s
      else
        (let resultsTarget = (if has (tk_observers s k) FlagAlive then resultsTarget - 1 else resultsTarget)
         in if has (tk_observers s k) FlagQueried then requests_to t ks resultsTarget s
            else do {
              (ok, s) \<leftarrow> tv_invoke t k (set_flag k FlagQueried s);
              let s = (if ok then upd_tv t (\<lambda>tr. tr\<lparr>tv_invokeCount := tv_invokeCount tr + 1\<rparr>) s
                       else set_flag k FlagFailed s);
              requests_to t ks resultsTarget s }))"

definition addRequests :: "nat \<Rightarrow> DHTTracker \<Rightarrow> DHTTracker option" where
  "addRequests t s =
     requests_to t (tv_results (tk_traversals s t)) (tv_numTargetNodes (tk_traversals s t)) s"

section \<open>Starting and finishing\<close>

definition addTraversal :: "nat \<Rightarrow> DHTTracker \<Rightarrow> bool \<times> DHTTracker" where
  "addTraversal t s =
     (let key = tv_key (tk_traversals s t)
      in if map_of (tk_running s) key \<noteq> None then (False, s)
         else (True, s\<lparr>tk_running := AList.update key t (tk_running s)\<rparr>))"

definition removeTraversal :: "nat \<Rightarrow> DHTTracker \<Rightarrow> DHTTracker" where
  "removeTraversal t s = s\<lparr>tk_running := AList.delete (tv_key (tk_traversals s t)) (tk_running s)\<rparr>"

definition searchBranching :: int where "searchBranching = 5"

text \<open>\<open>start\<close>, with what to do when no request went out.\<close>

definition tv_start_with :: "(nat \<Rightarrow> DHTTracker \<Rightarrow> DHTTracker option) \<Rightarrow> nat \<Rightarrow> DHTTracker \<Rightarrow> (bool \<times> DHTTracker) option" where
  "tv_start_with finish t s =
     (let (ok, s) = addTraversal t s
      in if \<not> ok then Some (False, s)
         else do {
           let s = upd_tv t (\<lambda>tr. tr\<lparr>tv_branchFactor := searchBranching,
                      tv_numTargetNodes :=
                        (if tv_kind tr = Tv_Refresh then 1
                         else if tv_kind tr \<in> {Tv_SearchSources, Tv_SearchKeyword} then int (length (tv_results tr))
                         else tv_numTargetNodes tr)\<rparr>) s;
           let s = s\<lparr>tk_table := TouchBucket (tk_now s) (tv_target (tk_traversals s t)) (tk_table s)\<rparr>;
           let s = (if tv_results (tk_traversals s t) = [] then addRouterEntries t s else s);
           s \<leftarrow> addRequests t s;
           s \<leftarrow> (if tv_invokeCount (tk_traversals s t) = 0 then finish t s else Some s);
           Some (True, s) })"

text \<open>\<open>kadNodeImpl.addNode\<close>: a node a bootstrap heard of and had no time to ask.\<close>

definition node_addNode :: "UDPAddr option \<Rightarrow> hash \<Rightarrow> u16 \<Rightarrow> u8 \<Rightarrow> DHTTracker \<Rightarrow> DHTTracker option" where
  "node_addNode addr i portTCP version s =
     (case addr of
        None \<Rightarrow> Some s
      | Some a \<Rightarrow>
          (let (node, s) = addOrUpdateNodeLocked i a portTCP version False s
           in maybeSendHelloLocked node s))"

text \<open>The second traversal: the storage point and every node that did not fail.\<close>

definition start_direct ::
  "(nat \<Rightarrow> DHTTracker \<Rightarrow> (bool \<times> DHTTracker) option) \<Rightarrow> kadTraversalKind \<Rightarrow> int \<Rightarrow> nat \<Rightarrow> DHTTracker \<Rightarrow>
     DHTTracker option" where
  "start_direct start kind fileSize t s =
     (let tr = tk_traversals s t;
          (d, s) = newKadTraversal (tv_target tr) kind fileSize (tv_listener tr) s;
          s = (case tk_storagePoint s of None \<Rightarrow> s | Some sp \<Rightarrow> tv_addNode d (Some sp) (tv_target tr) 0 0 s);
          s = fold (\<lambda>k s. let o' = tk_observers s k
                          in if has o' FlagFailed then s
                             else tv_addNode d (ob_endpoint o') (ob_id o') (ob_portTCP o') (ob_version o') s)
                (tv_results tr) s
      in map_option snd (start d s))"

definition call_listener :: "nat \<Rightarrow> DHTTracker \<Rightarrow> DHTTracker" where
  "call_listener t s =
     (case tv_listener (tk_traversals s t) of
        None \<Rightarrow> s
      | Some f \<Rightarrow> s\<lparr>tk_calls := tk_calls s @ [(f, tv_accum (tk_traversals s t))]\<rparr>)"

definition processAddresses :: "u32 list \<Rightarrow> DHTTracker \<Rightarrow> DHTTracker option" where
  "processAddresses addresses s = do {
     s \<leftarrow> Lock s;
     let s = s\<lparr>tk_externalIPs := filter (\<lambda>ip. ip \<noteq> 0) addresses\<rparr>;
     Some (Unlock (if length (tk_externalIPs s) < 2 then s else s\<lparr>tk_firewalled := (local_matches s \<noteq> 2)\<rparr>)) }"

definition tv_done_with ::
  "(nat \<Rightarrow> DHTTracker \<Rightarrow> (bool \<times> DHTTracker) option) \<Rightarrow> nat \<Rightarrow> DHTTracker \<Rightarrow> DHTTracker option" where
  "tv_done_with start t s0 =
     (let tr = tk_traversals s0 t; s = removeTraversal t s0
      in case tv_kind tr of
           Tv_Bootstrap \<Rightarrow>
             foldM (\<lambda>k s. let o' = tk_observers s k
                          in if has o' FlagQueried then Some s
                             else node_addNode (ob_endpoint o') (ob_id o') (ob_portTCP o') (ob_version o') s)
               (tv_results tr) s
         | Tv_FindSources \<Rightarrow> start_direct start Tv_SearchSources (tv_size tr) t s
         | Tv_FindKeywords \<Rightarrow> start_direct start Tv_SearchKeyword 0 t s
         | Tv_SearchSources \<Rightarrow> do {
             s \<leftarrow> foldM (\<lambda>entry. handlePublishSourcesRequest None \<lparr>psr_FileID = tv_target tr, psr_Source = entry\<rparr>)
                    (tv_accum tr) s;
             Some (call_listener t s) }
         | Tv_SearchKeyword \<Rightarrow> do {
             s \<leftarrow> foldM (\<lambda>entry. handlePublishKeysRequest None \<lparr>pkr_KeywordID = tv_target tr, pkr_Sources = [entry]\<rparr>)
                    (tv_accum tr) s;
             Some (call_listener t s) }
         | Tv_Firewalled \<Rightarrow> processAddresses (tv_externalIPs tr) s
         | Tv_Refresh \<Rightarrow> Some s)"

text \<open>The two layers: a direct search starts nothing when it is done.\<close>

definition direct_done :: "nat \<Rightarrow> DHTTracker \<Rightarrow> DHTTracker option" where
  "direct_done t s = tv_done_with (\<lambda>_ s. Some (False, s)) t s"

definition tv_done :: "nat \<Rightarrow> DHTTracker \<Rightarrow> DHTTracker option" where
  "tv_done t s = tv_done_with (tv_start_with direct_done) t s"

definition tv_start :: "nat \<Rightarrow> DHTTracker \<Rightarrow> (bool \<times> DHTTracker) option" where
  "tv_start t s = tv_start_with tv_done t s"

lemma direct_done_is_done:
  "tv_kind (tk_traversals s t) \<notin> {Tv_FindSources, Tv_FindKeywords} \<Longrightarrow> direct_done t s = tv_done t s"
  unfolding direct_done_def tv_done_def tv_done_with_def Let_def
  by (cases "tv_kind (tk_traversals s t)") simp_all

text \<open>After every event: more requests, and the end when none is under way.\<close>

definition go_on :: "nat \<Rightarrow> DHTTracker \<Rightarrow> DHTTracker option" where
  "go_on t s = do {
     s \<leftarrow> addRequests t s;
     if tv_invokeCount (tk_traversals s t) = 0 then tv_done t s else Some s }"

definition writeFailedObserver :: "nat \<Rightarrow> nat \<Rightarrow> DHTTracker \<Rightarrow> DHTTracker" where
  "writeFailedObserver t k s =
     (let o' = tk_observers s k
      in if tv_kind (tk_traversals s t) \<in> {Tv_FindSources, Tv_SearchSources} \<or> has o' FlagNoID then s
         else (case ob_endpoint o' of
                 None \<Rightarrow> s
               | Some a \<Rightarrow>
                   (case addr_node a s of
                      None \<Rightarrow> s
                    | Some node \<Rightarrow> on_table (NodeFailed node) s)))"

definition one_less :: "int \<Rightarrow> int" where
  "one_less n = (if n > 1 then n - 1 else n)"

definition tv_failed :: "nat \<Rightarrow> nat \<Rightarrow> u64 \<Rightarrow> DHTTracker \<Rightarrow> DHTTracker option" where
  "tv_failed t k flags s =
     (if flags AND ShortTimeout \<noteq> 0
      then Some (set_flag k FlagShortTimeout (upd_tv t (\<lambda>tr. tr\<lparr>tv_branchFactor := tv_branchFactor tr + 1\<rparr>) s))
      else
        (let s = set_flag k FlagFailed s;
             s = (if has (tk_observers s k) FlagShortTimeout
                  then upd_tv t (\<lambda>tr. tr\<lparr>tv_branchFactor := one_less (tv_branchFactor tr)\<rparr>) s else s);
             s = writeFailedObserver t k s;
             s = upd_tv t (\<lambda>tr. tr\<lparr>tv_timeouts := tv_timeouts tr + 1,
                                   tv_invokeCount := (if tv_invokeCount tr > 0 then tv_invokeCount tr - 1 else tv_invokeCount tr)\<rparr>) s;
             s = (if flags AND PreventRequest \<noteq> 0
                  then upd_tv t (\<lambda>tr. tr\<lparr>tv_branchFactor := one_less (tv_branchFactor tr)\<rparr>) s else s)
         in go_on t s))"

definition collected :: "kadObserver \<Rightarrow> kadTraversal \<Rightarrow> kadTraversal" where
  "collected o' tr =
     (if tv_kind tr \<in> {Tv_SearchSources, Tv_SearchKeyword} then tr\<lparr>tv_accum := tv_accum tr @ ob_entries o'\<rparr>
      else if tv_kind tr = Tv_Firewalled \<and> ob_externalIP o' \<noteq> 0 \<and> length (tv_externalIPs tr) < 2
      then tr\<lparr>tv_externalIPs := tv_externalIPs tr @ [ob_externalIP o']\<rparr>
      else tr)"

definition tv_finished :: "nat \<Rightarrow> nat \<Rightarrow> DHTTracker \<Rightarrow> DHTTracker option" where
  "tv_finished t k s =
     (let s = (if has (tk_observers s k) FlagShortTimeout
               then upd_tv t (\<lambda>tr. tr\<lparr>tv_branchFactor := one_less (tv_branchFactor tr)\<rparr>) s else s);
          s = set_flag k FlagAlive s;
          s = upd_tv t (\<lambda>tr. collected (tk_observers s k)
                (tr\<lparr>tv_responses := tv_responses tr + 1,
                    tv_invokeCount := (if tv_invokeCount tr > 0 then tv_invokeCount tr - 1 else tv_invokeCount tr)\<rparr>)) s
      in go_on t s)"

definition expectMultipleResponses :: "nat \<Rightarrow> DHTTracker \<Rightarrow> bool" where
  "expectMultipleResponses k s \<longleftrightarrow>
     tv_kind (tk_traversals s (ob_traversal (tk_observers s k))) \<in> {Tv_SearchSources, Tv_SearchKeyword}"

definition ob_shortTimeout :: "nat \<Rightarrow> DHTTracker \<Rightarrow> DHTTracker option" where
  "ob_shortTimeout k s =
     (if has (tk_observers s k) FlagShortTimeout then Some s
      else tv_failed (ob_traversal (tk_observers s k)) k ShortTimeout s)"

definition ob_done :: "nat \<Rightarrow> DHTTracker \<Rightarrow> DHTTracker option" where
  "ob_done k s =
     (if has (tk_observers s k) FlagDone then Some s
      else tv_finished (ob_traversal (tk_observers s k)) k (set_flag k FlagDone s))"

definition ob_timeout :: "nat \<Rightarrow> DHTTracker \<Rightarrow> DHTTracker option" where
  "ob_timeout k s =
     (if has (tk_observers s k) FlagDone then Some s
      else if expectMultipleResponses k s \<and> ob_processedResponses (tk_observers s k) > 0 then ob_done k s
      else tv_failed (ob_traversal (tk_observers s k)) k 0 (set_flag k FlagDone s))"

definition ob_abort :: "nat \<Rightarrow> DHTTracker \<Rightarrow> DHTTracker option" where
  "ob_abort k s =
     (if has (tk_observers s k) FlagDone then Some s
      else tv_failed (ob_traversal (tk_observers s k)) k PreventRequest (set_flag k FlagDone s))"

definition traverse :: "nat \<Rightarrow> KadEntry \<Rightarrow> DHTTracker \<Rightarrow> DHTTracker" where
  "traverse t entry s =
     (let e = ken_Endpoint entry; addr = udpAddrFromKad e;
          (node, s) = addOrUpdateNodeLocked (ken_ID entry) addr (ke_TCPPort e) (ken_Version entry) False s;
          s = (if KnownID (tk_heap s node) then hear node s else s)
      in addEntry t (ken_ID entry) addr 0 (ke_TCPPort e) (ken_Version entry) s)"

section \<open>What starts a traversal\<close>

definition addEntries :: "nat \<Rightarrow> UDPAddr list \<Rightarrow> DHTTracker \<Rightarrow> DHTTracker" where
  "addEntries t addrs s = fold (\<lambda>addr s. addEntry t Invalid addr FlagInitial 0 0 s) addrs s"

definition node_bootstrap :: "UDPAddr list \<Rightarrow> DHTTracker \<Rightarrow> (bool \<times> DHTTracker) option" where
  "node_bootstrap addrs s =
     (let (t, s) = newKadTraversal (tk_selfID s) Tv_Bootstrap 0 None s
      in tv_start t (addEntries t (addrs @ RouterNodes (tk_table s)) s))"

text \<open>A traversal that starts with the fifty nearest nodes of the table.\<close>

definition add_closest :: "nat \<Rightarrow> hash \<Rightarrow> DHTTracker \<Rightarrow> DHTTracker" where
  "add_closest t target s =
     fold (\<lambda>n s. let node = tk_heap s n in tv_addNode t (kn_Addr node) (kn_ID node) (kn_TCPPort node) (kn_Version node) s)
       (closestNodesLocked target 50 True s) s"

definition node_search ::
  "hash \<Rightarrow> kadTraversalKind \<Rightarrow> int \<Rightarrow> nat option \<Rightarrow> DHTTracker \<Rightarrow> (bool \<times> DHTTracker) option" where
  "node_search target kind fileSize cb s =
     (let (t, s) = newKadTraversal target kind fileSize cb s
      in tv_start t (add_closest t target s))"

definition node_searchSources :: "hash \<Rightarrow> int \<Rightarrow> nat option \<Rightarrow> DHTTracker \<Rightarrow> (bool \<times> DHTTracker) option" where
  "node_searchSources hash fileSize cb s =
     (if fileSize \<le> 0 \<or> cb = None then Some (False, s) else node_search hash Tv_FindSources fileSize cb s)"

definition node_searchKeywords :: "hash \<Rightarrow> nat option \<Rightarrow> DHTTracker \<Rightarrow> (bool \<times> DHTTracker) option" where
  "node_searchKeywords hash cb s =
     (if cb = None then Some (False, s) else node_search hash Tv_FindKeywords 0 cb s)"

definition node_refresh :: "hash \<Rightarrow> DHTTracker \<Rightarrow> (bool \<times> DHTTracker) option" where
  "node_refresh target s = node_search target Tv_Refresh 0 None s"

definition node_firewalled :: "DHTTracker \<Rightarrow> (bool \<times> DHTTracker) option" where
  "node_firewalled s = node_search (tk_selfID s) Tv_Firewalled 0 None s"

definition no_nodes :: "DHTTracker \<Rightarrow> bool" where
  "no_nodes s \<longleftrightarrow> tk_nodes s = [] \<and> RouterNodes (tk_table s) = []"

definition SearchSources ::
  "((UDPAddr \<Rightarrow> bytes \<Rightarrow> bool) \<times> bytes \<times> int) option \<Rightarrow> hash \<Rightarrow> int \<Rightarrow> nat option \<Rightarrow> DHTTracker \<Rightarrow>
     (bool \<times> DHTTracker) option" where
  "SearchSources opened hash fileSize cb s =
     (if cb = None \<or> fileSize \<le> 0 then Some (False, s)
      else do {
        (ok, s) \<leftarrow> Start opened s;
        if \<not> ok then Some (False, s)
        else do {
          s \<leftarrow> map_option Unlock (Lock s);
          if no_nodes s then Some (False, s) else node_searchSources hash fileSize cb s } })"

definition SearchKeywords ::
  "((UDPAddr \<Rightarrow> bytes \<Rightarrow> bool) \<times> bytes \<times> int) option \<Rightarrow> hash \<Rightarrow> nat option \<Rightarrow> DHTTracker \<Rightarrow>
     (bool \<times> DHTTracker) option" where
  "SearchKeywords opened hash cb s =
     (if cb = None then Some (False, s)
      else do {
        (ok, s) \<leftarrow> Start opened s;
        if \<not> ok then Some (False, s)
        else do {
          s \<leftarrow> map_option Unlock (Lock s);
          if no_nodes s then Some (False, s) else node_searchKeywords hash cb s } })"

section \<open>The tick\<close>

text \<open>A greeting nobody answered counts against its node, once here and once in the table.\<close>

definition tick_expired :: "kadRPCTransaction \<Rightarrow> DHTTracker \<Rightarrow> DHTTracker option" where
  "tick_expired tx s =
     (case tx_observer tx of
        Some k \<Rightarrow> ob_timeout k s
      | None \<Rightarrow>
          Some (case map_of (tk_nodes s) (tx_endpointKey tx) of
                  None \<Rightarrow> s
                | Some node \<Rightarrow>
                    on_table (NodeFailed node) (upd_node node (\<lambda>n. n\<lparr>kn_FailCount := kn_FailCount n + 1\<rparr>) s)))"

definition tick_short :: "kadRPCTransaction \<Rightarrow> DHTTracker \<Rightarrow> DHTTracker option" where
  "tick_short tx s = (case tx_observer tx of None \<Rightarrow> Some s | Some k \<Rightarrow> ob_shortTimeout k s)"

definition bootstrap_known :: "DHTTracker \<Rightarrow> DHTTracker option" where
  "bootstrap_known s =
     map_option snd (node_bootstrap (List.map_filter (\<lambda>n. kn_Addr (tk_heap s n)) (knownNodesLocked False s)) s)"

definition tick_initial :: "nat \<Rightarrow> nat \<Rightarrow> DHTTracker \<Rightarrow> DHTTracker option" where
  "tick_initial live replacements s =
     (if tk_running s = [] \<and> tk_initialBootstrapRequired s \<and> live > 0 \<and> replacements < 10
      then bootstrap_known (s\<lparr>tk_initialBootstrapRequired := False\<rparr>) else Some s)"

definition tick_refresh :: "DHTTracker \<Rightarrow> DHTTracker option" where
  "tick_refresh s =
     (let (source, s') = draw s;
          (target, table) = NeedRefresh source (tk_now s) (tk_table s);
          s = (if rt_lastRefresh table = rt_lastRefresh (tk_table s) then s else s')\<lparr>tk_table := table\<rparr>
      in case target of
           None \<Rightarrow> Some s
         | Some x \<Rightarrow> map_option snd (node_refresh x (s\<lparr>tk_lastRefresh := Some (tk_now s)\<rparr>)))"

definition tick_firewalled :: "nat \<Rightarrow> DHTTracker \<Rightarrow> DHTTracker option" where
  "tick_firewalled live s =
     (if live \<ge> 5 \<and> elapsed (tk_now s) (tk_lastFirewalledCheck s) (60 * 60 * second)
      then map_option snd (node_firewalled (s\<lparr>tk_lastFirewalledCheck := Some (tk_now s)\<rparr>)) else Some s)"

definition tick_bootstrap :: "nat \<Rightarrow> DHTTracker \<Rightarrow> DHTTracker option" where
  "tick_bootstrap live s =
     (if live = 0 \<and> tk_nodes s \<noteq> []
      then
        (let (need, table) = NeedBootstrap (tk_now s) (tk_table s);
             s = s\<lparr>tk_table := table\<rparr>
         in if need then bootstrap_known (s\<lparr>tk_lastBootstrap := Some (tk_now s)\<rparr>) else Some s)
      else Some s)"

definition tick :: "DHTTracker \<Rightarrow> DHTTracker option" where
  "tick s = do {
     let (shortTimed, expired, rpc) = rpc_Tick (tk_now s) (tk_rpc s);
     s \<leftarrow> foldM tick_short shortTimed (s\<lparr>tk_rpc := rpc\<rparr>);
     s \<leftarrow> foldM tick_expired expired s;
     let (live, replacements) = rt_Size (tk_table s);
     s \<leftarrow> tick_initial live replacements s;
     s \<leftarrow> tick_refresh s;
     s \<leftarrow> tick_firewalled live s;
     tick_bootstrap live s }"

section \<open>Incoming packets\<close>

definition incoming :: "UDPAddr \<Rightarrow> u8 \<Rightarrow> hash option \<Rightarrow> DHTTracker \<Rightarrow> nat option \<times> DHTTracker" where
  "incoming addr opcode target s =
     (let (tx, rpc) = rpc_Incoming addr opcode target (tk_rpc s)
      in (Option.bind tx tx_observer, s\<lparr>tk_rpc := rpc\<rparr>))"

definition answered :: "nat option \<Rightarrow> KadEntry list \<Rightarrow> DHTTracker \<Rightarrow> DHTTracker option" where
  "answered observer entries s =
     (case observer of
        None \<Rightarrow> Some s
      | Some k \<Rightarrow> ob_done k (fold (traverse (ob_traversal (tk_observers s k))) entries s))"

definition processPing :: "UDPAddr \<Rightarrow> DHTTracker \<Rightarrow> DHTTracker option" where
  "processPing addr s = do {
     port \<leftarrow> ListenPort s;
     send (Some addr) (KPong \<lparr>pong_UDPPort = of_int port\<rparr>) [] s }"

definition processHelloRes :: "UDPAddr \<Rightarrow> KadHello \<Rightarrow> DHTTracker \<Rightarrow> DHTTracker option" where
  "processHelloRes addr hello s = handleHello addr hello False (snd (incoming addr 0x19 None s))"

definition processFindRes :: "UDPAddr \<Rightarrow> KadRes \<Rightarrow> DHTTracker \<Rightarrow> DHTTracker option" where
  "processFindRes addr res s = do {
     let (observer, s) = incoming addr 0x29 (Some (kres_Target res)) s;
     s \<leftarrow> handleFindResponse addr res s;
     answered observer (kres_Results res) s }"

definition processBootstrapRes :: "UDPAddr \<Rightarrow> BootstrapRes \<Rightarrow> DHTTracker \<Rightarrow> DHTTracker option" where
  "processBootstrapRes addr res s = do {
     let (observer, s) = incoming addr 0x09 None s;
     s \<leftarrow> handleBootstrapResponse addr res s;
     answered observer (bsr_Contacts res) s }"

definition processFirewalledRes :: "UDPAddr \<Rightarrow> FirewalledRes \<Rightarrow> DHTTracker \<Rightarrow> DHTTracker option" where
  "processFirewalledRes addr res s = do {
     let (observer, s) = incoming addr 0x58 None s;
     s \<leftarrow> handleFirewalledResponse addr res s;
     case observer of
       None \<Rightarrow> Some s
     | Some k \<Rightarrow> ob_done k (upd_ob k (\<lambda>b. b\<lparr>ob_externalIP := fws_IP res\<rparr>) s) }"

definition processSearchRes :: "UDPAddr \<Rightarrow> SearchRes \<Rightarrow> DHTTracker \<Rightarrow> DHTTracker" where
  "processSearchRes addr res s =
     (let (observer, s) = incoming addr 0x3B (Some (srs_Target res)) s
      in case observer of
           None \<Rightarrow> s
         | Some k \<Rightarrow> upd_ob k (\<lambda>b. b\<lparr>ob_entries := ob_entries b @ srs_Results res,
                                    ob_processedResponses := ob_processedResponses b + 1\<rparr>) s)"

definition confirm_sender :: "UDPAddr \<Rightarrow> DHTTracker \<Rightarrow> DHTTracker option" where
  "confirm_sender addr s = do {
     s \<leftarrow> Lock s;
     Some (Unlock (case addr_node addr s of None \<Rightarrow> s | Some node \<Rightarrow> confirmNodeLocked node s)) }"

definition processPong :: "UDPAddr \<Rightarrow> DHTTracker \<Rightarrow> DHTTracker option" where
  "processPong addr s = confirm_sender addr (snd (incoming addr 0x61 None s))"

definition processFirewalledUDP :: "UDPAddr \<Rightarrow> DHTTracker \<Rightarrow> DHTTracker option" where
  "processFirewalledUDP addr s = confirm_sender addr s"

definition processPublishRes :: "UDPAddr \<Rightarrow> PublishRes \<Rightarrow> DHTTracker \<Rightarrow> DHTTracker" where
  "processPublishRes addr res s = snd (incoming addr 0x4B (Some (pres_FileID res)) s)"

definition processPublishNotesRes :: "UDPAddr \<Rightarrow> PublishRes \<Rightarrow> DHTTracker \<Rightarrow> DHTTracker" where
  "processPublishNotesRes addr res s = snd (incoming addr 0x4A (Some (pres_FileID res)) s)"

text \<open>The switch of \<open>readLoop\<close>.\<close>

fun dispatch :: "UDPAddr \<Rightarrow> u8 \<Rightarrow> KadPacket \<Rightarrow> DHTTracker \<Rightarrow> DHTTracker option" where
  "dispatch addr opcode (KSearchRes x) s = Some (processSearchRes addr x s)"
| "dispatch addr opcode (KSearchSourcesReq x) s = handleSearchSourcesRequest addr x s"
| "dispatch addr opcode (KSearchKeysReq x) s = handleSearchKeysRequest addr x s"
| "dispatch addr opcode (KBootstrapRes x) s = processBootstrapRes addr x s"
| "dispatch addr opcode (KRes x) s = processFindRes addr x s"
| "dispatch addr opcode (KHello x) s =
     (if opcode = 0x11 then handleHello addr x True s else processHelloRes addr x s)"
| "dispatch addr opcode KBootstrapReq s = handleBootstrapRequest addr s"
| "dispatch addr opcode (KReq x) s = handleFindRequest addr x s"
| "dispatch addr opcode (KPublishSourcesReq x) s = handlePublishSourcesRequest (Some addr) x s"
| "dispatch addr opcode (KPublishKeysReq x) s = handlePublishKeysRequest (Some addr) x s"
| "dispatch addr opcode (KPublishNotesReq x) s = handlePublishNotesRequest (Some addr) x s"
| "dispatch addr opcode (KPublishRes x) s = Some (processPublishRes addr x s)"
| "dispatch addr opcode (KPublishNotesRes x) s = Some (processPublishNotesRes addr x s)"
| "dispatch addr opcode KPing s = processPing addr s"
| "dispatch addr opcode (KPong x) s = processPong addr s"
| "dispatch addr opcode (KFirewalledReq x) s = handleFirewalledRequest addr s"
| "dispatch addr opcode (KLegacyFirewalledReq x) s = handleFirewalledRequest addr s"
| "dispatch addr opcode (KFirewalledRes x) s = processFirewalledRes addr x s"
| "dispatch addr opcode (KFirewalledUDP x) s = processFirewalledUDP addr s"
| "dispatch addr opcode (KSearchNotesReq x) s = handleSearchNotesRequest addr x s"
| "dispatch addr opcode KSearchNotesRes s = Some s"
| "dispatch addr opcode KHelloResAck s = Some s"
| "dispatch addr opcode KPublishResAck s = Some s"
| "dispatch addr opcode KCallbackReq s = Some s"
| "dispatch addr opcode KFindBuddyReq s = Some s"
| "dispatch addr opcode KFindBuddyRes s = Some s"

text \<open>
  One round of \<open>readLoop\<close> that does not end it: the read timed out, or brought a datagram. The
  datagram was cut at the 8192 bytes of the buffer.
\<close>

datatype read_event = Read_timeout | Datagram UDPAddr bytes

fun read_round :: "read_event \<Rightarrow> DHTTracker \<Rightarrow> DHTTracker option" where
  "read_round Read_timeout s = tick s"
| "read_round (Datagram addr raw) s =
     (case kad_Unpack (take 8192 raw) of
        Inl e \<Rightarrow> Some s
      | Inr (opcode, message) \<Rightarrow> dispatch (normalizeUDPAddr addr) opcode message s)"

end
