(* ===== verification/Kad_Properties.thy ===== *)
theory Kad_Properties
  imports Kad_Traversal
begin

text \<open>
  What the Kademlia node does right and where it goes wrong: search answers arrive whole, a
  published source is found, the results of a traversal stay sorted, a node keeps its place in the
  table as long as it keeps its identifier, and a response that names a node it has not greeted yet
  is never finished.
\<close>

lemma new_tracker [simp]:
  "\<not> tk_mu (NewDHTTracker now port timeout [])" "tk_selfID (NewDHTTracker now port timeout []) = Invalid"
  "tk_sent (NewDHTTracker now port timeout []) = []" "tk_conn (NewDHTTracker now port timeout []) = None"
  "tk_nodes (NewDHTTracker now port timeout []) = []"
  "tk_table (NewDHTTracker now port timeout []) = newKadRoutingTable now Invalid 10"
  by (simp_all add: NewDHTTracker_def)

section \<open>Search answers\<close>











lemma write_frame:
  "tk_selfID (snd (writePacketWithOpcodeLocked addr packet extra s)) = tk_selfID s"
  "tk_mu (snd (writePacketWithOpcodeLocked addr packet extra s)) = tk_mu s"
  "tk_sourceIndex (snd (writePacketWithOpcodeLocked addr packet extra s)) = tk_sourceIndex s"
  by (simp_all add: writePacketWithOpcodeLocked_def split: option.split sum.split)

lemma send_eq:
  "send addr packet extra s =
     (if tk_mu s then None
      else Some (Unlock (snd (writePacketWithOpcodeLocked addr packet extra (s\<lparr>tk_mu := True\<rparr>)))))"
  by (simp add: send_def writePacket_def Lock_def split_beta)

lemma send_frame:
  assumes "send addr packet extra s = Some s'"
  shows "tk_selfID s' = tk_selfID s" and "\<not> tk_mu s'" and "tk_sourceIndex s' = tk_sourceIndex s"
  using assms by (auto simp: send_eq write_frame Unlock_def split: if_splits)


definition open_tracker :: DHTTracker where
  "open_tracker = (NewDHTTracker 0 4672 0 [])\<lparr>tk_conn := Some (\<lambda>_ _. True)\<rparr>"

lemma open_tracker [simp]:
  "\<not> tk_mu open_tracker" "tk_selfID open_tracker = Invalid" "tk_sent open_tracker = []"
  "tk_conn open_tracker = Some (\<lambda>_ _. True)" "tk_nodes open_tracker = []"
  "tk_table open_tracker = newKadRoutingTable 0 Invalid 10"
  by (simp_all add: open_tracker_def)


section \<open>Published sources\<close>

lemma index_entries_store:
  "index_entries h (store_entry k key entry index) =
     (if hash_String h = hash_String k
      then map snd (AList.update key entry (case map_of index (hash_String k) of None \<Rightarrow> [] | Some b \<Rightarrow> b))
      else index_entries h index)"
  by (simp add: index_entries_def store_entry_def Let_def update_conv')

lemma update_in: "(key, entry) \<in> set (AList.update key entry al)"
  by (induction al) auto

lemma pass_on_frame:
  "\<not> tk_mu s \<Longrightarrow> \<exists>s'. pass_on addr packet s = Some s' \<and> \<not> tk_mu s' \<and> tk_sourceIndex s' = tk_sourceIndex s"
  by (simp add: pass_on_def send_eq write_frame Unlock_def)

lemma published_stored:
  assumes "\<not> tk_mu s"
  shows "\<exists>s'. handlePublishSourcesRequest addr req s = Some s' \<and> \<not> tk_mu s' \<and>
    tk_sourceIndex s' = store_entry (psr_FileID req) (source_key (with_source_ip addr (psr_Source req)))
      (with_source_ip addr (psr_Source req)) (tk_sourceIndex s)"
proof -
  define source where "source = with_source_ip addr (psr_Source req)"
  define s1 where "s1 = Unlock (storeSourceLocked (psr_FileID req) source (s\<lparr>tk_mu := True\<rparr>))"
  have s1: "\<not> tk_mu s1" "tk_sourceIndex s1 = store_entry (psr_FileID req) (source_key source) source (tk_sourceIndex s)"
    by (simp_all add: s1_def Unlock_def storeSourceLocked_def)
  obtain s2 where s2: "pass_on addr (KPublishSourcesReq (req\<lparr>psr_Source := source\<rparr>)) s1 = Some s2"
    "\<not> tk_mu s2" "tk_sourceIndex s2 = tk_sourceIndex s1"
    using pass_on_frame [OF s1(1)] by blast
  obtain s3 where s3: "send addr (KPublishRes \<lparr>pres_FileID = psr_FileID req, pres_Count = 1\<rparr>) [] s2 = Some s3"
    using s2(2) by (simp add: send_eq)
  have "handlePublishSourcesRequest addr req s = Some s3"
    using assms s2(1) s3
    by (simp add: handlePublishSourcesRequest_def Lock_def Let_def flip: s1_def source_def)
  with send_frame [OF s3] s1(2) s2(3) show ?thesis by (simp add: source_def)
qed

lemma with_source_ip_tags:
  fixes addr :: "UDPAddr option" and entry :: SearchEntry
  defines "e \<equiv> with_source_ip addr entry"
  shows "se_ID e = se_ID entry"
    and "addr = None \<or> (\<exists>tag\<in>set (se_Tags entry). kt_ID tag = 0xFE) \<Longrightarrow> se_Tags e = se_Tags entry"
    and "addr = Some a \<Longrightarrow> \<forall>tag\<in>set (se_Tags entry). kt_ID tag \<noteq> 0xFE \<Longrightarrow>
      se_Tags e = \<lparr>kt_Type = TagTypeUint32, kt_ID = 0xFE, kt_UInt64 = ucast (protocolIP (ua_IP a)), kt_String = []\<rparr> # se_Tags entry"
  by (auto simp: e_def with_source_ip_def addSourceIPLocked_def split: option.splits)

text \<open>C17: a source that was published is found by the next search for its file, under its identifier and
  with all its tags; when none of them is a source address, a tag with the address of the sender,
  a 32-bit number, stands before them. Sources of other files stay as they were.\<close>

theorem published_source_found:
  assumes "\<not> tk_mu s"
  shows "\<exists>s' e. handlePublishSourcesRequest addr req s = Some s' \<and> \<not> tk_mu s' \<and>
    e \<in> set (searchEntriesLocked (psr_FileID req) s') \<and> se_ID e = se_ID (psr_Source req) \<and>
    (addr = None \<or> (\<exists>tag\<in>set (se_Tags (psr_Source req)). kt_ID tag = 0xFE) \<longrightarrow> se_Tags e = se_Tags (psr_Source req)) \<and>
    (\<forall>a. addr = Some a \<and> (\<forall>tag\<in>set (se_Tags (psr_Source req)). kt_ID tag \<noteq> 0xFE) \<longrightarrow>
       se_Tags e = \<lparr>kt_Type = TagTypeUint32, kt_ID = 0xFE, kt_UInt64 = ucast (protocolIP (ua_IP a)), kt_String = []\<rparr>
         # se_Tags (psr_Source req)) \<and>
    (\<forall>h. h \<noteq> psr_FileID req \<longrightarrow> searchEntriesLocked h s' = searchEntriesLocked h s)"
proof -
  let ?e = "with_source_ip addr (psr_Source req)"
  from published_stored [OF assms, of addr req] obtain s' where
    s': "handlePublishSourcesRequest addr req s = Some s'" "\<not> tk_mu s'"
    and index: "tk_sourceIndex s' = store_entry (psr_FileID req) (source_key ?e) ?e (tk_sourceIndex s)" by blast
  have "?e \<in> set (searchEntriesLocked (psr_FileID req) s')"
    unfolding searchEntriesLocked_def index index_entries_store
    by simp (rule image_eqI [OF _ update_in], simp)
  moreover have "searchEntriesLocked h s' = searchEntriesLocked h s" if "h \<noteq> psr_FileID req" for h
    using that hash_String_inj [of h "psr_FileID req"]
    by (auto simp: searchEntriesLocked_def index index_entries_store)
  ultimately show ?thesis using s' with_source_ip_tags [where addr = addr and entry = "psr_Source req"]
    by (intro exI [of _ s'] exI [of _ ?e]) blast
qed

theorem published_source_found_witness:
  "\<exists>s' e. handlePublishSourcesRequest (Some \<lparr>ua_IP = [10, 0, 0, 7], ua_Port = 4672\<rparr>)
       \<lparr>psr_FileID = Invalid, psr_Source = \<lparr>se_ID = Invalid, se_Tags = []\<rparr>\<rparr> (NewDHTTracker 0 4672 0 []) = Some s' \<and>
     e \<in> set (searchEntriesLocked Invalid s') \<and>
     se_Tags e = [\<lparr>kt_Type = TagTypeUint32, kt_ID = 0xFE, kt_UInt64 = 0x0700000A, kt_String = []\<rparr>]"
proof -
  have "protocolIP [10, 0, 0, 7] = 0x0700000A" by (simp add: protocolIP_def To4_def)
  then show ?thesis
    using published_source_found [of "NewDHTTracker 0 4672 0 []" "Some \<lparr>ua_IP = [10, 0, 0, 7], ua_Port = 4672\<rparr>"
      "\<lparr>psr_FileID = Invalid, psr_Source = \<lparr>se_ID = Invalid, se_Tags = []\<rparr>\<rparr>"]
    by fastforce
qed

section \<open>The results of a traversal\<close>

lemma insert_result_eq:
  "insert_result obs target k results =
     (let (pos, found) = binarySearchFunc (\<lambda>r. closer target (ob_id (obs r)) (ob_id (obs k))) results
      in if pos < length results \<and> hash_Equal (ob_id (obs (results ! pos))) (ob_id (obs k)) then results
         else take MaxResults (slice_insert results pos k))"
  by (simp add: insert_result_def binarySearchFunc_def closer_def Let_def not_less)

text \<open>The results of a traversal stay sorted by their distance to its target, without two of
  the same identifier and never more than a hundred; a new one that does not make it is farther away
  than all of a full list.\<close>

theorem results_stay_sorted:
  assumes "wf_hash target" and "wf_hash (ob_id (obs k))"
    and sorted: "three_way.csorted (closer target) wf_hash (\<lambda>r. ob_id (obs r)) results"
    and "length results \<le> MaxResults"
  defines "results' \<equiv> insert_result obs target k results"
  shows "three_way.csorted (closer target) wf_hash (\<lambda>r. ob_id (obs r)) results' \<and>
    length results' \<le> MaxResults \<and>
    (ob_id (obs k) \<in> (\<lambda>r. ob_id (obs r)) ` set results' \<or>
     length results' = MaxResults \<and> (\<forall>r \<in> set results'. DistanceCompare (ob_id (obs r)) (ob_id (obs k)) target < 0))"
proof -
  let ?key = "\<lambda>r. ob_id (obs r)"
  note tw = three_way_closer [OF assms(1)]
  obtain pos found where b: "binarySearchFunc (\<lambda>r. closer target (?key r) (?key k)) results = (pos, found)"
    by (cases "binarySearchFunc (\<lambda>r. closer target (?key r) (?key k)) results")
  note found = three_way.binarySearch_found [OF tw sorted assms(2) b]
  have ins: "results' = (if pos < length results \<and> ?key (results ! pos) = ?key k then results
       else take MaxResults (slice_insert results pos k))"
    by (simp add: results'_def insert_result_eq b hash_Equal_def)
  show ?thesis
  proof (cases "pos < length results \<and> ?key (results ! pos) = ?key k")
    case True
    then have "?key k \<in> ?key ` set results" by (metis image_eqI nth_mem)
    with True sorted assms(4) show ?thesis by (simp add: ins)
  next
    case False
    with found(3) have nf: "\<not> found" by blast
    let ?all = "slice_insert results pos k"
    have s: "three_way.csorted (closer target) wf_hash ?key ?all"
      using three_way.csorted_insert [OF tw sorted assms(2)] b nf by simp
    have r': "results' = take MaxResults ?all" using False by (simp only: ins if_False)
    have len: "length ?all = Suc (length results)" using found(1) by simp
    have "?key k \<in> ?key ` set results' \<or>
      length results' = MaxResults \<and> (\<forall>r \<in> set results'. DistanceCompare (?key r) (?key k) target < 0)"
    proof (cases "k \<in> set results'")
      case False
      have "k \<in> set ?all" using found(1) by simp
      then have d: "k \<in> set (drop MaxResults ?all)"
        using False by (metis UnE append_take_drop_id r' set_append)
      then have "length ?all > MaxResults" by (metis drop_all empty_iff empty_set not_less)
      moreover have "closer target (?key r) (?key k) < 0" if "r \<in> set results'" for r
        using three_way.csorted_take_drop [OF tw s _ d] that by (simp add: r')
      ultimately show ?thesis by (simp add: r' closer_def)
    qed simp
    with three_way.csorted_take [OF tw s] show ?thesis by (simp add: r')
  qed
qed

theorem results_stay_sorted_witness:
  "length (insert_result (\<lambda>_. \<lparr>ob_traversal = 0, ob_endpoint = None, ob_id = Invalid, ob_portTCP = 0,
       ob_version = 0, ob_flags = 0, ob_processedResponses = 0, ob_entries = [], ob_externalIP = 0\<rparr>) Invalid 0 []) \<le> 100"
  using results_stay_sorted [of Invalid "\<lambda>_. \<lparr>ob_traversal = 0, ob_endpoint = None, ob_id = Invalid, ob_portTCP = 0,
       ob_version = 0, ob_flags = 0, ob_processedResponses = 0, ob_entries = [], ob_externalIP = 0\<rparr>" 0 "[]"]
  by (simp add: MaxResults_def zero_distance.csorted_def)

section \<open>Greeting under the lock\<close>

lemma addr_String_normalize [simp]: "addr_String (normalizeUDPAddr a) = addr_String a"
  by (auto simp: addr_String_def normalizeUDPAddr_def To4_def split: option.splits if_splits)

text \<open>What the table's operations leave alone in the nodes.\<close>

definition hello_kept :: "node_heap \<Rightarrow> node_heap \<Rightarrow> bool" where
  "hello_kept h h' \<longleftrightarrow> (\<forall>n. kn_HelloSent (h' n) = kn_HelloSent (h n))"

lemma addNode_heap:
  assumes "kn_Addr (h node) \<noteq> None"
  shows "hello_kept h (fst (addNode now node c (h, t)))"
    and "kn_Addr (fst (addNode now node c (h, t)) node) \<noteq> None"
  using assms
  by (auto simp: addNode_def add_to_bucket_def hello_kept_def update_existing_def fresh_node_def Let_def split_beta
      split: option.split)

text \<open>A node that is unknown or was not greeted yet.\<close>

definition ungreeted :: "DHTTracker \<Rightarrow> UDPAddr \<Rightarrow> bool" where
  "ungreeted s a \<longleftrightarrow> (case addr_node a s of None \<Rightarrow> True | Some n \<Rightarrow> \<not> kn_HelloSent (tk_heap s n))"

definition nodes_ok :: "DHTTracker \<Rightarrow> bool" where
  "nodes_ok s \<longleftrightarrow> (\<forall>a n. addr_node a s = Some n \<longrightarrow> n < tk_next s)"

lemma on_table_frame [simp]:
  "tk_mu (on_table f s) = tk_mu s" "tk_nodes (on_table f s) = tk_nodes s" "tk_next (on_table f s) = tk_next s"
  "tk_heap (on_table f s) = fst (f (tk_heap s, tk_table s))" "tk_table (on_table f s) = snd (f (tk_heap s, tk_table s))"
  "tk_now (on_table f s) = tk_now s"
  by (simp_all add: on_table_def split_beta)

lemma upd_node_frame [simp]:
  "tk_mu (upd_node n f s) = tk_mu s" "tk_nodes (upd_node n f s) = tk_nodes s" "tk_next (upd_node n f s) = tk_next s"
  "tk_heap (upd_node n f s) = (tk_heap s)(n := f (tk_heap s n))" "tk_table (upd_node n f s) = tk_table s"
  "tk_now (upd_node n f s) = tk_now s"
  by (simp_all add: upd_node_def)

lemma same_greeted:
  assumes "tk_nodes s' = tk_nodes s" and "tk_next s' = tk_next s" and "hello_kept (tk_heap s) (tk_heap s')"
  shows "ungreeted s' a = ungreeted s a" and "nodes_ok s' = nodes_ok s"
  using assms by (auto simp: ungreeted_def nodes_ok_def addr_node_def hello_kept_def split: option.split)

text \<open>The node that \<open>addOrUpdateNodeLocked\<close> works on, and the state it is in by then.\<close>

definition found_or_new :: "UDPAddr \<Rightarrow> DHTTracker \<Rightarrow> nat \<times> DHTTracker" where
  "found_or_new a s = (case addr_node a s of Some n \<Rightarrow> (n, s) | None \<Rightarrow> new_node a s)"

lemma found_or_new:
  assumes "found_or_new a s = (n, s1)" and "nodes_ok s"
  shows "tk_mu s1 = tk_mu s" and "nodes_ok s1" and "ungreeted s1 b = ungreeted s b"
    and "addr_node a s1 = Some n"
proof -
  have "tk_mu s1 = tk_mu s \<and> nodes_ok s1 \<and> ungreeted s1 b = ungreeted s b \<and> addr_node a s1 = Some n"
  proof (cases "addr_node a s")
    case (Some m)
    with assms show ?thesis by (simp add: found_or_new_def)
  next
    case None
    have s1: "n = tk_next s" "s1 = snd (new_node a s)"
      using assms(1) None by (auto simp: found_or_new_def new_node_def Let_def)
    have at: "addr_node c s1 = (if addr_String c = addr_String a then Some n else addr_node c s)" for c
      by (simp add: s1 new_node_def Let_def addr_node_def update_conv')
    have nodes: "nodes_ok s1"
      using assms(2) unfolding nodes_ok_def at by (auto simp: s1 new_node_def Let_def less_Suc_eq)
    have "tk_heap s1 m = tk_heap s m" if "addr_node b s = Some m" for m
      using that assms(2) by (auto simp: nodes_ok_def s1 new_node_def Let_def)
    moreover have "\<not> kn_HelloSent (tk_heap s1 n)"
      by (simp add: s1 new_node_def Let_def zero_node_def)
    ultimately have "ungreeted s1 b = ungreeted s b"
      by (cases "addr_String b = addr_String a")
        (use None at [of b] in \<open>auto simp: ungreeted_def addr_node_def split: option.split\<close>)
    with nodes show ?thesis by (simp add: at) (simp add: s1 new_node_def Let_def)
  qed
  then show "tk_mu s1 = tk_mu s" "nodes_ok s1" "ungreeted s1 b = ungreeted s b" "addr_node a s1 = Some n"
    by blast+
qed

lemma addOrUpdate_eq:
  "addOrUpdateNodeLocked i a port version seed s =
     (let (n, s1) = found_or_new (normalizeUDPAddr a) s;
          s2 = upd_node n (updated_node (tk_now s1) i (normalizeUDPAddr a) port version seed) s1
      in (n, if KnownID (tk_heap s2 n) then on_table (HeardAbout (tk_now s2) n) s2 else s2))"
  by (simp add: addOrUpdateNodeLocked_def found_or_new_def Let_def)

lemma addOrUpdate_greeted:
  assumes "addOrUpdateNodeLocked i a port version seed s = (n, s')" and "nodes_ok s"
  shows "tk_mu s' = tk_mu s" and "nodes_ok s'" and "ungreeted s' b = ungreeted s b"
    and "addr_node a s' = Some n" and "kn_Addr (tk_heap s' n) \<noteq> None"
proof -
  obtain m s1 where f: "found_or_new (normalizeUDPAddr a) s = (m, s1)"
    by (cases "found_or_new (normalizeUDPAddr a) s")
  note new = found_or_new [OF f assms(2)]
  define s2 where "s2 = upd_node m (updated_node (tk_now s1) i (normalizeUDPAddr a) port version seed) s1"
  have n: "n = m" and s': "s' = (if KnownID (tk_heap s2 m) then on_table (HeardAbout (tk_now s2) m) s2 else s2)"
    using assms(1) unfolding addOrUpdate_eq f Let_def prod.case s2_def [symmetric] by (auto split: if_splits)
  have h2: "hello_kept (tk_heap s1) (tk_heap s2)" and a2: "kn_Addr (tk_heap s2 m) \<noteq> None"
    by (simp_all add: s2_def hello_kept_def updated_node_def)
  note t = addNode_heap [where h = "tk_heap s2" and node = m and t = "tk_table s2" and now = "tk_now s2" and c = False, OF a2]
  have h': "hello_kept (tk_heap s1) (tk_heap s')" and a': "kn_Addr (tk_heap s' m) \<noteq> None"
    using t h2 a2 by (auto simp: s' HeardAbout_def hello_kept_def)
  have same: "tk_nodes s' = tk_nodes s1" "tk_next s' = tk_next s1" "tk_mu s' = tk_mu s1"
    by (simp_all add: s' s2_def)
  note g = same_greeted [OF same(1,2) h']
  show "tk_mu s' = tk_mu s" "nodes_ok s'" "ungreeted s' b = ungreeted s b"
    using same(3) g new by simp_all
  show "addr_node a s' = Some n" using new(4) by (simp add: n addr_node_def same)
  show "kn_Addr (tk_heap s' n) \<noteq> None" using a' by (simp add: n)
qed

lemma confirm_greeted:
  assumes "kn_Addr (tk_heap s n) \<noteq> None"
  shows "tk_mu (confirmNodeLocked n s) = tk_mu s" and "nodes_ok (confirmNodeLocked n s) = nodes_ok s"
    and "ungreeted (confirmNodeLocked n s) a = ungreeted s a"
proof -
  define s1 where "s1 = upd_node n (\<lambda>b. b\<lparr>kn_Pinged := True, kn_FailCount := 0, kn_LastSeen := Some (tk_now s)\<rparr>) s"
  have c: "confirmNodeLocked n s = (if \<not> KnownID (tk_heap s n) then s else on_table (NodeSeen (tk_now s) n) s1)"
    by (simp add: confirmNodeLocked_def s1_def)
  have h1: "hello_kept (tk_heap s) (tk_heap s1)" and a1: "kn_Addr (tk_heap s1 n) \<noteq> None"
    using assms by (simp_all add: s1_def hello_kept_def)
  have h: "hello_kept (tk_heap s) (tk_heap (confirmNodeLocked n s))"
    using addNode_heap(1) [where h = "tk_heap s1" and node = n, OF a1] h1 by (auto simp: c NodeSeen_def hello_kept_def)
  have same: "tk_nodes (confirmNodeLocked n s) = tk_nodes s" "tk_next (confirmNodeLocked n s) = tk_next s"
    by (simp_all add: c s1_def)
  show "tk_mu (confirmNodeLocked n s) = tk_mu s" by (simp add: c s1_def)
  show "nodes_ok (confirmNodeLocked n s) = nodes_ok s" "ungreeted (confirmNodeLocked n s) a = ungreeted s a"
    using same_greeted [OF same h] by simp_all
qed

definition contact_addr :: "KadEntry \<Rightarrow> UDPAddr" where
  "contact_addr c = udpAddrFromKad (ken_Endpoint c)"

lemma met_locked:
  assumes "tk_mu s" and "nodes_ok s"
  shows "if ungreeted s (contact_addr c) then met c s = None
    else \<exists>s'. met c s = Some s' \<and> tk_mu s' \<and> nodes_ok s' \<and> (\<forall>a. ungreeted s' a = ungreeted s a)"
proof -
  let ?e = "ken_Endpoint c"
  obtain n s1 where s1: "addOrUpdateNodeLocked (ken_ID c) (udpAddrFromKad ?e) (ke_TCPPort ?e) (ken_Version c) False s = (n, s1)"
    by (cases "addOrUpdateNodeLocked (ken_ID c) (udpAddrFromKad ?e) (ke_TCPPort ?e) (ken_Version c) False s")
  note g = addOrUpdate_greeted [OF s1 assms(2)]
  have m: "met c s = maybeSendHelloLocked n s1" by (simp add: met_def s1 Let_def)
  obtain b where b: "kn_Addr (tk_heap s1 n) = Some b" using g(5) by blast
  have "ungreeted s (contact_addr c) \<longleftrightarrow> \<not> kn_HelloSent (tk_heap s1 n)"
    using g(3) [of "contact_addr c"] g(4) by (simp add: ungreeted_def contact_addr_def)
  then show ?thesis
    using g(1-3) assms(1)
    by (auto simp: m maybeSendHelloLocked_def b ListenPort_def Lock_def)
qed

lemma meet_all_locked:
  "tk_mu s \<Longrightarrow> nodes_ok s \<Longrightarrow> foldM met cs s = None \<longleftrightarrow> (\<exists>c \<in> set cs. ungreeted s (contact_addr c))"
proof (induction cs arbitrary: s)
  case Nil
  then show ?case by simp
next
  case (Cons c cs)
  note m = met_locked [OF Cons.prems, of c]
  show ?case
  proof (cases "ungreeted s (contact_addr c)")
    case True
    with m show ?thesis by simp
  next
    case False
    with m obtain s' where s': "met c s = Some s'" "tk_mu s'" "nodes_ok s'" and u: "\<And>a. ungreeted s' a = ungreeted s a"
      by auto
    from Cons.IH [OF s'(2,3)] s'(1) False show ?thesis by (simp add: u)
  qed
qed

text \<open>C13: a response that names a node the tracker has not greeted is never finished: the greeting
  asks for the port, which locks the mutex the handler holds already. Any other response is.\<close>

theorem response_blocks:
  assumes "\<not> tk_mu s" and "nodes_ok s"
  shows "(handleBootstrapResponse addr res s = None \<longleftrightarrow>
      (\<exists>c \<in> set (bsr_Contacts res). ungreeted s (contact_addr c))) \<and>
    (handleFindResponse addr found s = None \<longleftrightarrow>
      (\<exists>c \<in> set (kres_Results found). ungreeted s (contact_addr c)))"
proof
  let ?s = "s\<lparr>tk_mu := True\<rparr>"
  have lock: "Lock s = Some ?s" using assms(1) by (simp add: Lock_def)
  have ok: "nodes_ok ?s" using assms(2) by (simp add: nodes_ok_def addr_node_def)
  have un: "ungreeted ?s a = ungreeted s a" for a
    by (rule same_greeted) (simp_all add: hello_kept_def)
  obtain n s1 where s1: "addOrUpdateNodeLocked (bsr_ID res) addr (bsr_TCPPort res) (bsr_Version res) False ?s = (n, s1)"
    by (cases "addOrUpdateNodeLocked (bsr_ID res) addr (bsr_TCPPort res) (bsr_Version res) False ?s")
  note g = addOrUpdate_greeted [OF s1 ok]
  note c = confirm_greeted [OF g(5)]
  have "tk_mu (confirmNodeLocked n s1)" "nodes_ok (confirmNodeLocked n s1)"
    using c g(1,2) by simp_all
  note all = meet_all_locked [OF this, of "bsr_Contacts res"]
  show "handleBootstrapResponse addr res s = None \<longleftrightarrow> (\<exists>c \<in> set (bsr_Contacts res). ungreeted s (contact_addr c))"
    by (simp add: handleBootstrapResponse_def lock s1 bind_eq_None_conv all c(3) g(3) un)
  have "tk_mu ?s" by simp
  note all = meet_all_locked [OF this ok, of "kres_Results found"]
  show "handleFindResponse addr found s = None \<longleftrightarrow> (\<exists>c \<in> set (kres_Results found). ungreeted s (contact_addr c))"
    by (simp add: handleFindResponse_def lock bind_eq_None_conv all un)
qed

theorem response_blocks_witness:
  "handleBootstrapResponse \<lparr>ua_IP = [10, 0, 0, 1], ua_Port = 4672\<rparr>
     \<lparr>bsr_ID = Invalid, bsr_TCPPort = 0, bsr_Version = 5,
      bsr_Contacts = [\<lparr>ken_ID = Invalid, ken_Endpoint = \<lparr>ke_IP = 1, ke_UDPPort = 1, ke_TCPPort = 1\<rparr>,
                       ken_Version = 5, ken_Verified = False\<rparr>]\<rparr> open_tracker = None"
  using response_blocks [of open_tracker "\<lparr>ua_IP = [10, 0, 0, 1], ua_Port = 4672\<rparr>"
     "\<lparr>bsr_ID = Invalid, bsr_TCPPort = 0, bsr_Version = 5,
      bsr_Contacts = [\<lparr>ken_ID = Invalid, ken_Endpoint = \<lparr>ke_IP = 1, ke_UDPPort = 1, ke_TCPPort = 1\<rparr>,
                       ken_Version = 5, ken_Verified = False\<rparr>]\<rparr>" "\<lparr>kres_Target = Invalid, kres_Results = []\<rparr>"]
  by (simp add: nodes_ok_def ungreeted_def addr_node_def)

section \<open>Nodes that change their identifier\<close>

lemma addNode_other_bucket:
  "kadBucketIndex (rt_self t) (kn_ID (h n)) \<noteq> i \<Longrightarrow>
     rt_buckets (snd (addNode now n c (h, t))) ! i = rt_buckets t ! i"
  by (simp add: addNode_def Let_def split_beta)

text \<open>News of a live node keeps the table in order as long as the node keeps its identifier;
  with one that belongs to another bucket the node stays in the old bucket as well, and the table is
  out of order.\<close>

theorem node_update_table:
  fixes new :: hash and port :: u16 and version :: u8 and seed :: bool
  assumes ok: "table_ok (tk_heap s, tk_table s)" and wf: "\<forall>n. wf_hash (kn_ID (tk_heap s n))"
    and known: "addr_node addr s = Some n" and live: "n \<in> set (bk_live (rt_buckets (tk_table s) ! i))" and "i < 128"
  defines "s' \<equiv> snd (addOrUpdateNodeLocked new addr port version seed s)"
  shows "(new = Invalid \<or> new = kn_ID (tk_heap s n) \<longrightarrow> table_ok (tk_heap s', tk_table s')) \<and>
    (new \<noteq> Invalid \<and> kadBucketIndex (rt_self (tk_table s)) new \<noteq> i \<longrightarrow>
       n \<in> set (bk_live (rt_buckets (tk_table s') ! i)) \<and> \<not> table_ok (tk_heap s', tk_table s'))"
proof -
  define s2 where "s2 = upd_node n (updated_node (tk_now s) new (normalizeUDPAddr addr) port version seed) s"
  have f: "found_or_new (normalizeUDPAddr addr) s = (n, s)"
    using known by (simp add: found_or_new_def addr_node_def)
  have t: "tk_table s2 = tk_table s" by (simp add: s2_def)
  have id2: "kn_ID (tk_heap s2 m) = (if m = n \<and> new \<noteq> Invalid then new else kn_ID (tk_heap s m))" for m
    by (simp add: s2_def updated_node_def hash_Equal_def)
  define r where "r = (if KnownID (tk_heap s2 n) then addNode (tk_now s2) n False (tk_heap s2, tk_table s2)
    else (tk_heap s2, tk_table s2))"
  have s': "tk_heap s' = fst r" "tk_table s' = snd r"
    unfolding s'_def addOrUpdate_eq f Let_def prod.case s2_def [symmetric] r_def
    by (simp_all add: HeardAbout_def)
  have keep: "table_ok r" if "new = Invalid \<or> new = kn_ID (tk_heap s n)"
  proof -
    have ids: "same_ids (tk_heap s) (tk_heap s2)" using that by (auto simp: same_ids_def id2)
    have ok2: "table_ok (tk_heap s2, tk_table s2)"
      using ok bucket_ok_same_ids [OF ids] by (simp add: table_ok_def t)
    have "wf_hash (kn_ID (tk_heap s2 n))" using wf ids by (simp add: same_ids_def)
    from addNode_ok(1) [OF ok2 this] ok2 show ?thesis by (simp add: r_def)
  qed
  have move: "n \<in> set (bk_live (rt_buckets (snd r) ! i)) \<and> \<not> table_ok r"
    if "new \<noteq> Invalid" "kadBucketIndex (rt_self (tk_table s)) new \<noteq> i"
  proof -
    have idn: "kn_ID (tk_heap s2 n) = new" using that(1) by (simp add: id2)
    have bucket: "rt_buckets (snd r) ! i = rt_buckets (tk_table s) ! i"
      using that(2) by (simp add: r_def t addNode_other_bucket idn)
    have "same_ids (tk_heap s2) (fst r)"
      using same_ids_add_to_bucket by (simp add: r_def addNode_def Let_def split_beta)
    then have id': "kn_ID (fst r n) = new" by (simp add: same_ids_def idn)
    have self: "rt_self (snd r) = rt_self (tk_table s)"
      by (simp add: r_def t addNode_def Let_def split_beta)
    have "\<not> placed (fst r) (rt_self (snd r)) i n" using that(2) by (simp add: placed_def id' self)
    moreover have "n \<in> set (bk_live (rt_buckets (snd r) ! i))" using live bucket by simp
    ultimately have "\<not> bucket_ok (fst r) (rt_self (snd r)) (rt_bucketSize (snd r)) i (rt_buckets (snd r) ! i)"
      by (auto simp: bucket_ok_def)
    then have "\<not> table_ok (fst r, snd r)"
      using table_ok_bucket [OF _ \<open>i < 128\<close>] by blast
    with live bucket show ?thesis by simp
  qed
  show ?thesis using keep move by (simp add: s')
qed

definition moving_addr :: UDPAddr where
  "moving_addr = \<lparr>ua_IP = [10, 0, 0, 1], ua_Port = 4672\<rparr>"

definition one_node :: DHTTracker where
  "one_node = open_tracker\<lparr>
     tk_heap := (\<lambda>_. zero_node\<lparr>kn_ID := replicate 16 1, kn_Addr := Some moving_addr\<rparr>),
     tk_next := 1, tk_nodes := [(addr_String moving_addr, 0)],
     tk_table := (newKadRoutingTable 0 Invalid 10)
       \<lparr>rt_buckets := (replicate 128 \<lparr>bk_live = [], bk_replacements = [], bk_lastActive = 0\<rparr>)
          [7 := \<lparr>bk_live = [0], bk_replacements = [], bk_lastActive = 0\<rparr>]\<rparr>\<rparr>"

lemma one_node_buckets:
  "kadBucketIndex Invalid (replicate 16 1) = 7" "kadBucketIndex Invalid (replicate 16 2) = 6"
  by code_simp+

lemma one_node_ok: "table_ok (tk_heap one_node, tk_table one_node)"
  using one_node_buckets(1)
  by (auto simp: one_node_def table_ok_def newKadRoutingTable_def bucket_ok_def nth_list_update placed_def
      KnownID_def hash_Equal_def Invalid_def hashSize_def wf_hash_def zero_node_def)

theorem node_update_table_witness:
  "\<not> table_ok (tk_heap (snd (addOrUpdateNodeLocked (replicate 16 2) moving_addr 4662 5 False one_node)),
      tk_table (snd (addOrUpdateNodeLocked (replicate 16 2) moving_addr 4662 5 False one_node)))"
  using node_update_table [OF one_node_ok, of moving_addr 0 7 "replicate 16 2" 4662 5 False] one_node_buckets(2)
  by (simp add: one_node_def wf_hash_def addr_node_def Invalid_def newKadRoutingTable_def)

end
