(* ===== verification/Server_Packets.thy ===== *)
theory Server_Packets
  imports Framing Tags Endpoints Client_Packets
begin

unbundle bit_operations_syntax

text \<open>
  The packets of the eD2k server protocol (\<^verbatim>\<open>protocol/server/\<close>), the \<^verbatim>\<open>server.met\<close>
  file and the registry of \<^verbatim>\<open>server/packet_combiner.go\<close>. Go strings are byte strings in
  UTF-8; a search request is written as a conjunction of terms and never read.
\<close>

section \<open>Login, status and callbacks\<close>

record CallbackRequest =
  cbr_ClientID :: u32

definition get_CallbackRequest :: "CallbackRequest reader" where
  "get_CallbackRequest =
     rbind readInt32 (\<lambda>clientID.
       rreturn \<lparr>cbr_ClientID = clientID\<rparr>)"

definition put_CallbackRequest :: "CallbackRequest \<Rightarrow> bytes" where
  "put_CallbackRequest x =
     writeInt32 (cbr_ClientID x)"

definition bytesCount_CallbackRequest :: "CallbackRequest \<Rightarrow> nat" where
  "bytesCount_CallbackRequest x = 4"

definition wf_CallbackRequest :: "CallbackRequest \<Rightarrow> bool" where
  "wf_CallbackRequest x \<longleftrightarrow> True"

interpretation CallbackRequest_codec:
  sized_codec get_CallbackRequest put_CallbackRequest wf_CallbackRequest bytesCount_CallbackRequest
  by unfold_locales
    (simp_all add: get_CallbackRequest_def put_CallbackRequest_def wf_CallbackRequest_def
      bytesCount_CallbackRequest_def codec_step codec_len)

record CallbackRequestIncoming =
  cbi_Point :: Endpoint

definition get_CallbackRequestIncoming :: "CallbackRequestIncoming reader" where
  "get_CallbackRequestIncoming =
     rbind ReadEndpoint (\<lambda>point.
       rreturn \<lparr>cbi_Point = point\<rparr>)"

definition put_CallbackRequestIncoming :: "CallbackRequestIncoming \<Rightarrow> bytes" where
  "put_CallbackRequestIncoming x =
     WriteEndpoint (cbi_Point x)"

definition bytesCount_CallbackRequestIncoming :: "CallbackRequestIncoming \<Rightarrow> nat" where
  "bytesCount_CallbackRequestIncoming x = 6"

definition wf_CallbackRequestIncoming :: "CallbackRequestIncoming \<Rightarrow> bool" where
  "wf_CallbackRequestIncoming x \<longleftrightarrow> wf_Endpoint (cbi_Point x)"

interpretation CallbackRequestIncoming_codec:
  sized_codec get_CallbackRequestIncoming put_CallbackRequestIncoming wf_CallbackRequestIncoming bytesCount_CallbackRequestIncoming
  by unfold_locales
    (simp_all add: get_CallbackRequestIncoming_def put_CallbackRequestIncoming_def wf_CallbackRequestIncoming_def
      bytesCount_CallbackRequestIncoming_def codec_step codec_len)

record Status =
  st_UsersCount :: u32
  st_FilesCount :: u32

definition get_Status :: "Status reader" where
  "get_Status =
     rbind readInt32 (\<lambda>usersCount.
     rbind readInt32 (\<lambda>filesCount.
       rreturn \<lparr>st_UsersCount = usersCount, st_FilesCount = filesCount\<rparr>))"

definition put_Status :: "Status \<Rightarrow> bytes" where
  "put_Status x =
     writeInt32 (st_UsersCount x) @ writeInt32 (st_FilesCount x)"

definition bytesCount_Status :: "Status \<Rightarrow> nat" where
  "bytesCount_Status x = 8"

definition wf_Status :: "Status \<Rightarrow> bool" where
  "wf_Status x \<longleftrightarrow> True"

interpretation Status_codec:
  sized_codec get_Status put_Status wf_Status bytesCount_Status
  by unfold_locales
    (simp_all add: get_Status_def put_Status_def wf_Status_def
      bytesCount_Status_def codec_step codec_len)

record Message =
  msg_Value :: ByteContainer16

definition get_Message :: "Message reader" where
  "get_Message =
     rbind get_ByteContainer16 (\<lambda>valueV.
       rreturn \<lparr>msg_Value = valueV\<rparr>)"

definition put_Message :: "Message \<Rightarrow> bytes" where
  "put_Message x =
     put_ByteContainer16 (msg_Value x)"

definition bytesCount_Message :: "Message \<Rightarrow> nat" where
  "bytesCount_Message x = bytesCount_ByteContainer16 (msg_Value x)"

definition wf_Message :: "Message \<Rightarrow> bool" where
  "wf_Message x \<longleftrightarrow> wf_ByteContainer16 (msg_Value x)"

interpretation Message_codec:
  sized_codec get_Message put_Message wf_Message bytesCount_Message
  by unfold_locales
    (simp_all add: get_Message_def put_Message_def wf_Message_def
      bytesCount_Message_def codec_step codec_len)

text \<open>Servers may leave out the flags and the port.\<close>

record IdChange =
  idc_ClientID :: u32
  idc_TCPFlags :: u32
  idc_AuxPort :: u32

definition get_IdChange :: "IdChange reader" where
  "get_IdChange =
     rbind readInt32 (\<lambda>clientID.
     rbind (optional 4 readInt32 0) (\<lambda>tcpFlags.
     rbind (optional 4 readInt32 0) (\<lambda>auxPort.
       rreturn \<lparr>idc_ClientID = clientID, idc_TCPFlags = tcpFlags, idc_AuxPort = auxPort\<rparr>)))"

definition put_IdChange :: "IdChange \<Rightarrow> bytes" where
  "put_IdChange x =
     writeInt32 (idc_ClientID x) @ writeInt32 (idc_TCPFlags x) @ writeInt32 (idc_AuxPort x)"

definition bytesCount_IdChange :: "IdChange \<Rightarrow> nat" where
  "bytesCount_IdChange x = 12"

definition wf_IdChange :: "IdChange \<Rightarrow> bool" where
  "wf_IdChange x \<longleftrightarrow> True"

interpretation IdChange_codec:
  sized_codec get_IdChange put_IdChange wf_IdChange bytesCount_IdChange
  by unfold_locales
    (simp_all add: get_IdChange_def put_IdChange_def wf_IdChange_def
      bytesCount_IdChange_def codec_step codec_len)

record LoginRequest =
  lr_Hash :: hash
  lr_Point :: Endpoint
  lr_Properties :: "SimpleTag list"

definition get_LoginRequest :: "LoginRequest reader" where
  "get_LoginRequest =
     rbind ReadHash (\<lambda>hash.
     rbind ReadEndpoint (\<lambda>point.
     rbind ReadUInt32 (\<lambda>count.
     rbind (get_n get_SimpleTag (unat count)) (\<lambda>items.
       rreturn \<lparr>lr_Hash = hash, lr_Point = point, lr_Properties = items\<rparr>))))"

definition put_LoginRequest :: "LoginRequest \<Rightarrow> bytes" where
  "put_LoginRequest x =
     WriteHash (lr_Hash x) @ WriteEndpoint (lr_Point x) @ writeUInt32 (of_nat (length (lr_Properties x))) @ 
     concat (map put_SimpleTag (lr_Properties x))"

definition bytesCount_LoginRequest :: "LoginRequest \<Rightarrow> nat" where
  "bytesCount_LoginRequest x = 16 + 6 + 4 + sum_list (map bytesCount_SimpleTag (lr_Properties x))"

definition wf_LoginRequest :: "LoginRequest \<Rightarrow> bool" where
  "wf_LoginRequest x \<longleftrightarrow> wf_hash (lr_Hash x) \<and> wf_Endpoint (lr_Point x) \<and> length (lr_Properties x) < 4294967296 \<and> (\<forall>e\<in>set (lr_Properties x). wf_SimpleTag e)"

interpretation LoginRequest_codec:
  sized_codec get_LoginRequest put_LoginRequest wf_LoginRequest bytesCount_LoginRequest
  by unfold_locales
    (simp_all add: get_LoginRequest_def put_LoginRequest_def wf_LoginRequest_def
      bytesCount_LoginRequest_def codec_step codec_len unat_of_nat_u32)

definition NewLoginRequest :: "hash \<Rightarrow> int \<Rightarrow> bytes \<Rightarrow> LoginRequest" where
  "NewLoginRequest userAgent listenPort clientName =
     (let versionClient = push_bit 24 1 OR push_bit 17 1 OR push_bit 10 0 OR push_bit 7 (1 :: u32);
          capability = 0x0004 OR 0x0008 OR 0x0010 OR 0x0100 OR (0x0001 :: u32)
      in \<lparr>lr_Hash = userAgent, lr_Point = NewEndpoint 0 listenPort,
          lr_Properties = [NewUInt32Tag 0x11 0x3c, NewUInt32Tag 0x20 capability,
                           NewStringTag 0x01 clientName, NewUInt32Tag 0xFB versionClient]\<rparr>)"

lemma wf_NewLoginRequest:
  "wf_hash h \<Longrightarrow> 0 \<le> port \<Longrightarrow> port < 65536 \<Longrightarrow> length name < 65536 \<Longrightarrow>
     wf_LoginRequest (NewLoginRequest h port name)"
  by (simp add: wf_LoginRequest_def NewLoginRequest_def NewEndpoint_def wf_Endpoint_def wf_NewStringTag Let_def)

section \<open>Sources of a file\<close>

record FoundFileSources =
  ffs_Hash :: hash
  ffs_Sources :: "Endpoint list"

definition get_FoundFileSources :: "FoundFileSources reader" where
  "get_FoundFileSources =
     rbind ReadHash (\<lambda>hash.
     rbind readByte (\<lambda>count.
     rbind (get_n ReadEndpoint (unat count)) (\<lambda>items.
       rreturn \<lparr>ffs_Hash = hash, ffs_Sources = items\<rparr>)))"

definition put_FoundFileSources :: "FoundFileSources \<Rightarrow> bytes" where
  "put_FoundFileSources x =
     WriteHash (ffs_Hash x) @ writeByte (of_nat (length (ffs_Sources x))) @ 
     concat (map WriteEndpoint (ffs_Sources x))"

definition bytesCount_FoundFileSources :: "FoundFileSources \<Rightarrow> nat" where
  "bytesCount_FoundFileSources x = 16 + 1 + length (ffs_Sources x) * 6"

definition wf_FoundFileSources :: "FoundFileSources \<Rightarrow> bool" where
  "wf_FoundFileSources x \<longleftrightarrow> wf_hash (ffs_Hash x) \<and> length (ffs_Sources x) < 256 \<and> (\<forall>e\<in>set (ffs_Sources x). wf_Endpoint e)"

interpretation FoundFileSources_codec:
  sized_codec get_FoundFileSources put_FoundFileSources wf_FoundFileSources bytesCount_FoundFileSources
  by unfold_locales
    (simp_all add: get_FoundFileSources_def put_FoundFileSources_def wf_FoundFileSources_def
      bytesCount_FoundFileSources_def codec_step codec_len unat_of_nat_u8 sum_list_triv)

text \<open>
  A size below 4 GiB is one word; otherwise a zero, the low and the high word. The zero is the
  mark of the long form, so a size of zero cannot be told from it.
\<close>

record GetFileSources =
  gfs_Hash :: hash
  gfs_LowPart :: u32
  gfs_HiPart :: u32

definition get_GetFileSources :: "GetFileSources reader" where
  "get_GetFileSources =
     rbind ReadHash (\<lambda>hash.
     rbind readInt32 (\<lambda>val.
       if val = 0 then
         rbind readInt32 (\<lambda>low.
         rbind readInt32 (\<lambda>high.
           rreturn \<lparr>gfs_Hash = hash, gfs_LowPart = low, gfs_HiPart = high\<rparr>))
       else rreturn \<lparr>gfs_Hash = hash, gfs_LowPart = val, gfs_HiPart = 0\<rparr>))"

definition put_GetFileSources :: "GetFileSources \<Rightarrow> bytes" where
  "put_GetFileSources g =
     WriteHash (gfs_Hash g) @
     (if gfs_HiPart g \<noteq> 0 then writeInt32 0 else []) @
     writeInt32 (gfs_LowPart g) @
     (if gfs_HiPart g \<noteq> 0 then writeInt32 (gfs_HiPart g) else [])"

definition bytesCount_GetFileSources :: "GetFileSources \<Rightarrow> nat" where
  "bytesCount_GetFileSources g = (if gfs_HiPart g \<noteq> 0 then 16 + 8 else 16 + 4)"

definition wf_GetFileSources :: "GetFileSources \<Rightarrow> bool" where
  "wf_GetFileSources g \<longleftrightarrow> wf_hash (gfs_Hash g) \<and> (gfs_LowPart g = 0 \<longrightarrow> gfs_HiPart g \<noteq> 0)"

interpretation GetFileSources_codec: codec get_GetFileSources put_GetFileSources wf_GetFileSources
proof unfold_locales
  fix g rest
  assume "wf_GetFileSources g" and "small (put_GetFileSources g @ rest)"
  then show "get_GetFileSources (put_GetFileSources g @ rest) = Inr (g, rest)"
    by (cases "gfs_HiPart g = 0")
      (simp_all add: get_GetFileSources_def put_GetFileSources_def wf_GetFileSources_def codec_step codec_len)
qed

text \<open>The announced size forgets the mark.\<close>

lemma length_put_GetFileSources:
  "wf_hash (gfs_Hash g) \<Longrightarrow> length (put_GetFileSources g) =
     bytesCount_GetFileSources g + (if gfs_HiPart g \<noteq> 0 then 4 else 0)"
  by (simp add: put_GetFileSources_def bytesCount_GetFileSources_def codec_len)

section \<open>Shared files\<close>

record SharedFileEntry =
  sfe_Hash :: hash
  sfe_ClientID :: u32
  sfe_Port :: u16
  sfe_Tags :: TagList

definition get_SharedFileEntry :: "SharedFileEntry reader" where
  "get_SharedFileEntry =
     rbind ReadHash (\<lambda>hash.
     rbind readInt32 (\<lambda>clientID.
     rbind readUInt16 (\<lambda>port.
     rbind get_TagList (\<lambda>tags.
       rreturn \<lparr>sfe_Hash = hash, sfe_ClientID = clientID, sfe_Port = port, sfe_Tags = tags\<rparr>))))"

definition put_SharedFileEntry :: "SharedFileEntry \<Rightarrow> bytes" where
  "put_SharedFileEntry x =
     WriteHash (sfe_Hash x) @ writeInt32 (sfe_ClientID x) @ writeUInt16 (sfe_Port x) @ put_TagList (sfe_Tags x)"

definition bytesCount_SharedFileEntry :: "SharedFileEntry \<Rightarrow> nat" where
  "bytesCount_SharedFileEntry x = 16 + 4 + 2 + bytesCount_TagList (sfe_Tags x)"

definition wf_SharedFileEntry :: "SharedFileEntry \<Rightarrow> bool" where
  "wf_SharedFileEntry x \<longleftrightarrow> wf_hash (sfe_Hash x) \<and> wf_TagList (sfe_Tags x)"

interpretation SharedFileEntry_codec:
  sized_codec get_SharedFileEntry put_SharedFileEntry wf_SharedFileEntry bytesCount_SharedFileEntry
  by unfold_locales
    (simp_all add: get_SharedFileEntry_def put_SharedFileEntry_def wf_SharedFileEntry_def
      bytesCount_SharedFileEntry_def codec_step codec_len)

definition sfe_StringTag :: "SharedFileEntry \<Rightarrow> u8 \<Rightarrow> bytes \<times> bool" where
  "sfe_StringTag s i =
     (case find (\<lambda>tag. tag_ID tag = i) (sfe_Tags s) of
        Some tag \<Rightarrow> (tag_String tag, True)
      | None \<Rightarrow> ([], False))"

definition sfe_UIntTag :: "SharedFileEntry \<Rightarrow> u8 \<Rightarrow> u64 \<times> bool" where
  "sfe_UIntTag s i =
     (case find (\<lambda>tag. tag_ID tag = i) (sfe_Tags s) of
        Some tag \<Rightarrow>
          if tag_Type tag = TagTypeString \<or> tag_Type tag \<ge> TagTypeStr1 then (0, False)
          else (tag_UInt64 tag, True)
      | None \<Rightarrow> (0, False))"

record OfferFiles =
  of_Entries :: "SharedFileEntry list"

definition get_OfferFiles :: "OfferFiles reader" where
  "get_OfferFiles =
     rbind ReadUInt32 (\<lambda>count.
     rbind (get_n get_SharedFileEntry (unat count)) (\<lambda>items.
       rreturn \<lparr>of_Entries = items\<rparr>))"

definition put_OfferFiles :: "OfferFiles \<Rightarrow> bytes" where
  "put_OfferFiles x =
     writeUInt32 (of_nat (length (of_Entries x))) @ 
     concat (map put_SharedFileEntry (of_Entries x))"

definition bytesCount_OfferFiles :: "OfferFiles \<Rightarrow> nat" where
  "bytesCount_OfferFiles x = 4 + sum_list (map bytesCount_SharedFileEntry (of_Entries x))"

definition wf_OfferFiles :: "OfferFiles \<Rightarrow> bool" where
  "wf_OfferFiles x \<longleftrightarrow> length (of_Entries x) < 4294967296 \<and> (\<forall>e\<in>set (of_Entries x). wf_SharedFileEntry e)"

interpretation OfferFiles_codec:
  sized_codec get_OfferFiles put_OfferFiles wf_OfferFiles bytesCount_OfferFiles
  by unfold_locales
    (simp_all add: get_OfferFiles_def put_OfferFiles_def wf_OfferFiles_def
      bytesCount_OfferFiles_def codec_step codec_len unat_of_nat_u32)

record OfferFile =
  ofile_Hash :: hash
  ofile_Name :: bytes
  ofile_Size :: int

definition str :: "string \<Rightarrow> bytes" where
  "str s = map of_char s"

text \<open>
  \<open>filepath.Ext\<close>: from the last dot of the last path element. Lower-casing follows the
  Unicode tables of \<open>strings.ToLower\<close> and is a parameter.
\<close>

definition filepath_Ext :: "bytes \<Rightarrow> bytes" where
  "filepath_Ext name =
     (let stem = takeWhile (\<lambda>c. c \<noteq> 0x2E \<and> c \<noteq> 0x2F) (rev name);
          before = dropWhile (\<lambda>c. c \<noteq> 0x2E \<and> c \<noteq> 0x2F) (rev name)
      in case before of
           c # _ \<Rightarrow> if c = 0x2E then 0x2E # rev stem else []
         | [] \<Rightarrow> [])"

definition TrimPrefix_dot :: "bytes \<Rightarrow> bytes" where
  "TrimPrefix_dot s = (case s of c # cs \<Rightarrow> if c = 0x2E then cs else s | [] \<Rightarrow> [])"

definition fileExt :: "(bytes \<Rightarrow> bytes) \<Rightarrow> bytes \<Rightarrow> bytes" where
  "fileExt toLower name = TrimPrefix_dot (toLower (filepath_Ext name))"

definition fileTypeFromName :: "(bytes \<Rightarrow> bytes) \<Rightarrow> bytes \<Rightarrow> bytes" where
  "fileTypeFromName toLower name =
     (let ext = fileExt toLower name; among = (\<lambda>exts. ext \<in> set (map str exts))
      in if among [''mp3'', ''flac'', ''aac'', ''ogg'', ''wav'', ''m4a''] then str ''Audio''
         else if among [''mp4'', ''mkv'', ''avi'', ''wmv'', ''mov'', ''mpeg''] then str ''Video''
         else if among [''jpg'', ''jpeg'', ''png'', ''gif'', ''bmp'', ''webp''] then str ''Image''
         else if among [''zip'', ''rar'', ''7z'', ''tar'', ''gz''] then str ''Archive''
         else if among [''iso'', ''bin'', ''nrg''] then str ''Iso''
         else if among [''pdf'', ''doc'', ''docx'', ''txt'', ''epub''] then str ''Document''
         else if among [''exe'', ''msi'', ''apk'', ''deb'', ''rpm''] then str ''Program''
         else [])"

definition FTFilename :: u8 where "FTFilename = 0x01"
definition FTFileSize :: u8 where "FTFileSize = 0x02"
definition FTFileType :: u8 where "FTFileType = 0x03"
definition FTFileFormat :: u8 where "FTFileFormat = 0x04"
definition FTSources :: u8 where "FTSources = 0x15"
definition FTCompleteSources :: u8 where "FTCompleteSources = 0x30"
definition FTFileSizeHi :: u8 where "FTFileSizeHi = 0x3A"

lemmas file_tags = FTFilename_def FTFileSize_def FTFileType_def FTFileFormat_def FTSources_def
  FTCompleteSources_def FTFileSizeHi_def

definition offer_entry :: "(bytes \<Rightarrow> bytes) \<Rightarrow> u32 \<Rightarrow> int \<Rightarrow> OfferFile \<Rightarrow> SharedFileEntry" where
  "offer_entry toLower clientID listenPort file =
     (let fileType = fileTypeFromName toLower (ofile_Name file);
          ext = fileExt toLower (ofile_Name file)
      in \<lparr>sfe_Hash = ofile_Hash file, sfe_ClientID = clientID, sfe_Port = word_of_int listenPort,
          sfe_Tags =
            [NewStringTag FTFilename (ofile_Name file),
             NewUInt32Tag FTFileSize (word_of_int (ofile_Size file))] @
            (if fileType \<noteq> [] then [NewStringTag FTFileType fileType] else []) @
            (if ext \<noteq> [] then [NewStringTag FTFileFormat ext] else []) @
            (if ofile_Size file > 0xffffffff
             then [NewUInt32Tag FTFileSizeHi
                     (ucast (drop_bit 32 (word_of_int (ofile_Size file) :: u64)))] else [])\<rparr>)"

definition NewOfferFiles :: "(bytes \<Rightarrow> bytes) \<Rightarrow> u32 \<Rightarrow> int \<Rightarrow> OfferFile list \<Rightarrow> OfferFiles" where
  "NewOfferFiles toLower clientID listenPort files =
     \<lparr>of_Entries = map (offer_entry toLower clientID listenPort)
        (filter (\<lambda>file. \<not> (hash_IsZero (ofile_Hash file) \<or> ofile_Size file \<le> 0)) files)\<rparr>"

text \<open>The size a receiver puts together from the tags.\<close>

lemma tag_ID_New [simp]: "tag_ID (NewUInt32Tag i v) = i" "tag_ID (NewStringTag i s) = i"
  by (simp_all add: NewUInt32Tag_def NewStringTag_def)

lemma NewUInt32Tag_value [simp]:
  "tag_UInt64 (NewUInt32Tag i v) = ucast v" "tag_Type (NewUInt32Tag i v) = TagTypeUint32"
  by (simp_all add: NewUInt32Tag_def)

lemma offer_size_tags:
  assumes "0 < ofile_Size file"
  shows "sfe_UIntTag (offer_entry toLower cid port file) FTFileSize =
      (ucast (word_of_int (ofile_Size file) :: u32), True)"
    and "sfe_UIntTag (offer_entry toLower cid port file) FTFileSizeHi =
      (if ofile_Size file > 0xffffffff
       then (ucast (ucast (drop_bit 32 (word_of_int (ofile_Size file) :: u64)) :: u32), True) else (0, False))"
  by (simp_all add: sfe_UIntTag_def offer_entry_def Let_def file_tags tag_types)

section \<open>Search\<close>

datatype searchTerm =
    StringTerm (term_value: bytes) (term_tag: "u8 option")
  | NumericTerm (term_tagID: u8) (term_operator: u8) (term_number: u64)

definition searchString :: "bytes \<Rightarrow> searchTerm" where
  "searchString v = StringTerm v None"

definition searchStringTag :: "u8 \<Rightarrow> bytes \<Rightarrow> searchTerm" where
  "searchStringTag i v = StringTerm v (Some i)"

definition searchNumericTag :: "u8 \<Rightarrow> u8 \<Rightarrow> u64 \<Rightarrow> searchTerm" where
  "searchNumericTag i operator v = NumericTerm i operator v"

fun put_searchTerm :: "searchTerm \<Rightarrow> bytes" where
  "put_searchTerm (StringTerm v tag) =
     (if tag \<noteq> None then writeByte 0x02 else writeByte 0x01) @
     writeUInt16 (of_nat (length v)) @ v @
     (case tag of Some i \<Rightarrow> writeUInt16 1 @ writeByte i | None \<Rightarrow> [])"
| "put_searchTerm (NumericTerm i operator v) =
     (if v \<le> 0xffffffff then writeByte 0x03 @ writeUInt32 (ucast v) else writeByte 0x08 @ writeUInt64 v) @
     writeByte operator @ writeUInt16 1 @ writeByte i"

fun bytesCount_searchTerm :: "searchTerm \<Rightarrow> nat" where
  "bytesCount_searchTerm (StringTerm v tag) =
     (let sz = 1 + 2 + length v in if tag \<noteq> None then sz + (2 + 1) else sz)"
| "bytesCount_searchTerm (NumericTerm i operator v) =
     (let sz = 1 + 1 + 2 + 1 in if v \<le> 0xffffffff then sz + 4 else sz + 8)"

text \<open>
  \<open>strings.TrimSpace\<close> on UTF-8: the encodings of the Unicode white space characters.
  \<open>strings.FieldsFunc\<close> here splits at ASCII characters only, which are single bytes.
\<close>

definition white_space :: "bytes list" where
  "white_space =
    [[0x20], [0x09], [0x0A], [0x0B], [0x0C], [0x0D], [0xC2, 0x85], [0xC2, 0xA0], [0xE1, 0x9A, 0x80],
     [0xE2, 0x80, 0x80], [0xE2, 0x80, 0x81], [0xE2, 0x80, 0x82], [0xE2, 0x80, 0x83],
     [0xE2, 0x80, 0x84], [0xE2, 0x80, 0x85], [0xE2, 0x80, 0x86], [0xE2, 0x80, 0x87],
     [0xE2, 0x80, 0x88], [0xE2, 0x80, 0x89], [0xE2, 0x80, 0x8A], [0xE2, 0x80, 0xA8],
     [0xE2, 0x80, 0xA9], [0xE2, 0x80, 0xAF], [0xE2, 0x81, 0x9F], [0xE3, 0x80, 0x80]]"

lemma strip_shorter: "e \<noteq> [] \<Longrightarrow> take (length e) s = e \<Longrightarrow> length (drop (length e) s) < length s"
  by (cases s; cases e) auto

function strip_prefixes :: "bytes list \<Rightarrow> bytes \<Rightarrow> bytes" where
  "strip_prefixes es s =
     (case find (\<lambda>e. e \<noteq> [] \<and> take (length e) s = e) es of
        None \<Rightarrow> s
      | Some e \<Rightarrow> strip_prefixes es (drop (length e) s))"
  by pat_completeness auto
termination
  by (relation "measure (\<lambda>(es, s). length s)") (auto simp: find_Some_iff simp del: length_drop intro: strip_shorter)

declare strip_prefixes.simps [simp del]

definition TrimSpace :: "bytes \<Rightarrow> bytes" where
  "TrimSpace s = rev (strip_prefixes (map rev white_space) (rev (strip_prefixes white_space s)))"

definition separators :: bytes where
  "separators = str '' ()[]{}<>,._-!?:;'' @ [0x5C] @ str ''/'' @ [0x22, 0x09, 0x0D, 0x0A]"

fun FieldsFunc :: "(u8 \<Rightarrow> bool) \<Rightarrow> bytes \<Rightarrow> bytes \<Rightarrow> bytes list" where
  "FieldsFunc sep field [] = (if field = [] then [] else [field])"
| "FieldsFunc sep field (c # cs) =
     (if sep c then (if field = [] then FieldsFunc sep [] cs else field # FieldsFunc sep [] cs)
      else FieldsFunc sep (field @ [c]) cs)"

definition tokenizeSearchQuery :: "bytes \<Rightarrow> bytes list" where
  "tokenizeSearchQuery query =
     filter (\<lambda>field. field \<noteq> [])
       (map TrimSpace (FieldsFunc (\<lambda>c. c \<in> set separators) [] (TrimSpace query)))"

record SearchRequest =
  sr_Query :: bytes
  sr_MinSize :: int
  sr_MaxSize :: int
  sr_MinSources :: int
  sr_MinCompleteSources :: int
  sr_FileType :: bytes
  sr_Extension :: bytes

definition search_terms :: "SearchRequest \<Rightarrow> searchTerm list" where
  "search_terms s =
     (if sr_FileType s \<noteq> [] then [searchStringTag FTFileType (sr_FileType s)] else []) @
     (if sr_Extension s \<noteq> [] then [searchStringTag FTFileFormat (sr_Extension s)] else []) @
     (if sr_MinSize s > 0 then [searchNumericTag FTFileSize 0x01 (word_of_int (sr_MinSize s))] else []) @
     (if sr_MaxSize s > 0 then [searchNumericTag FTFileSize 0x02 (word_of_int (sr_MaxSize s))] else []) @
     (if sr_MinSources s > 0
      then [searchNumericTag FTSources 0x01 (word_of_int (sr_MinSources s))] else []) @
     (if sr_MinCompleteSources s > 0
      then [searchNumericTag FTCompleteSources 0x01 (word_of_int (sr_MinCompleteSources s))] else []) @
     map searchString (tokenizeSearchQuery (sr_Query s))"

text \<open>The loop writes the operator before every term but the first.\<close>

definition put_terms :: "searchTerm list \<Rightarrow> bytes" where
  "put_terms ts =
     concat (map (\<lambda>(i, t). (if i > 0 then writeByte 0x00 @ writeByte 0x00 else []) @ put_searchTerm t)
       (enumerate 0 ts))"

definition put_SearchRequest :: "SearchRequest \<Rightarrow> bytes" where
  "put_SearchRequest s = put_terms (search_terms s)"

definition bytesCount_SearchRequest :: "SearchRequest \<Rightarrow> nat" where
  "bytesCount_SearchRequest s =
     (let ts = search_terms s; sz = sum_list (map bytesCount_searchTerm ts); terms = length ts
      in if terms > 1 then sz + (terms - 1) * 2 else sz)"

definition get_SearchRequest :: "SearchRequest reader" where
  "get_SearchRequest =
     rreturn \<lparr>sr_Query = [], sr_MinSize = 0, sr_MaxSize = 0, sr_MinSources = 0,
               sr_MinCompleteSources = 0, sr_FileType = [], sr_Extension = []\<rparr>"

lemma length_put_searchTerm [codec_len]: "length (put_searchTerm t) = bytesCount_searchTerm t"
  by (cases t) (auto simp: codec_len Let_def split: option.splits)

lemma length_put_terms_from:
  "0 < k \<Longrightarrow> length (concat (map (\<lambda>(i, t). (if i > 0 then writeByte 0x00 @ writeByte 0x00 else []) @
       put_searchTerm t) (enumerate k ts))) = sum_list (map bytesCount_searchTerm ts) + 2 * length ts"
  by (induction ts arbitrary: k) (simp_all add: codec_len)

lemma length_put_terms:
  "length (put_terms ts) = sum_list (map bytesCount_searchTerm ts) + (length ts - 1) * 2"
  by (cases ts) (simp_all add: put_terms_def length_put_terms_from codec_len)

lemma length_put_SearchRequest [codec_len]: "length (put_SearchRequest s) = bytesCount_SearchRequest s"
  by (simp add: put_SearchRequest_def bytesCount_SearchRequest_def length_put_terms Let_def)

text \<open>The flag for more results is optional on reading.\<close>

record SearchResult =
  sres_Results :: "SharedFileEntry list"
  sres_MoreResults :: bool

definition get_SearchResult :: "SearchResult reader" where
  "get_SearchResult =
     rbind ReadUInt32 (\<lambda>count.
     rbind (get_n get_SharedFileEntry (unat count)) (\<lambda>results.
     rbind (optional 1 readByte 0) (\<lambda>flag.
       rreturn \<lparr>sres_Results = results, sres_MoreResults = (flag \<noteq> 0)\<rparr>)))"

definition put_SearchResult :: "SearchResult \<Rightarrow> bytes" where
  "put_SearchResult s =
     writeUInt32 (of_nat (length (sres_Results s))) @ concat (map put_SharedFileEntry (sres_Results s)) @
     (if sres_MoreResults s then writeByte 1 else writeByte 0)"

definition bytesCount_SearchResult :: "SearchResult \<Rightarrow> nat" where
  "bytesCount_SearchResult s = 4 + 1 + sum_list (map bytesCount_SharedFileEntry (sres_Results s))"

definition wf_SearchResult :: "SearchResult \<Rightarrow> bool" where
  "wf_SearchResult s \<longleftrightarrow>
     length (sres_Results s) < 4294967296 \<and> (\<forall>e\<in>set (sres_Results s). wf_SharedFileEntry e)"

interpretation SearchResult_codec:
  sized_codec get_SearchResult put_SearchResult wf_SearchResult bytesCount_SearchResult
  by unfold_locales
    (simp_all add: get_SearchResult_def put_SearchResult_def wf_SearchResult_def
      bytesCount_SearchResult_def codec_step codec_len unat_of_nat_u32)

section \<open>The server list file\<close>

record ServerMetEntry =
  sme_Endpoint :: Endpoint
  sme_Tags :: TagList

definition get_ServerMetEntry :: "ServerMetEntry reader" where
  "get_ServerMetEntry =
     rbind ReadEndpoint (\<lambda>endpoint.
     rbind get_TagList (\<lambda>tags.
       rreturn \<lparr>sme_Endpoint = endpoint, sme_Tags = tags\<rparr>))"

definition put_ServerMetEntry :: "ServerMetEntry \<Rightarrow> bytes" where
  "put_ServerMetEntry x =
     WriteEndpoint (sme_Endpoint x) @ put_TagList (sme_Tags x)"

definition bytesCount_ServerMetEntry :: "ServerMetEntry \<Rightarrow> nat" where
  "bytesCount_ServerMetEntry x = 6 + bytesCount_TagList (sme_Tags x)"

definition wf_ServerMetEntry :: "ServerMetEntry \<Rightarrow> bool" where
  "wf_ServerMetEntry x \<longleftrightarrow> wf_Endpoint (sme_Endpoint x) \<and> wf_TagList (sme_Tags x)"

interpretation ServerMetEntry_codec:
  sized_codec get_ServerMetEntry put_ServerMetEntry wf_ServerMetEntry bytesCount_ServerMetEntry
  by unfold_locales
    (simp_all add: get_ServerMetEntry_def put_ServerMetEntry_def wf_ServerMetEntry_def
      bytesCount_ServerMetEntry_def codec_step codec_len)

definition sme_find :: "u8 \<Rightarrow> ServerMetEntry \<Rightarrow> bytes option" where
  "sme_find i e = map_option tag_String (find (\<lambda>tag. tag_ID tag = i) (sme_Tags e))"

definition sme_Name :: "ServerMetEntry \<Rightarrow> bytes" where
  "sme_Name e = (case sme_find 0x01 e of Some s \<Rightarrow> s | None \<Rightarrow> [])"

definition sme_Description :: "ServerMetEntry \<Rightarrow> bytes" where
  "sme_Description e = (case sme_find 0x0B e of Some s \<Rightarrow> s | None \<Rightarrow> [])"

definition sme_Host :: "ServerMetEntry \<Rightarrow> bytes" where
  "sme_Host e =
     (if ep_ip (sme_Endpoint e) \<noteq> 0 then str (ip2String (ep_ip (sme_Endpoint e)))
      else (case sme_find 0x0E e of Some s \<Rightarrow> TrimSpace s | None \<Rightarrow> []))"

text \<open>\<open>net.JoinHostPort\<close>: brackets around a host with a colon.\<close>

definition JoinHostPort :: "bytes \<Rightarrow> bytes \<Rightarrow> bytes" where
  "JoinHostPort host port =
     (if 0x3A \<in> set host then str ''['' @ host @ str '']:'' @ port else host @ str '':'' @ port)"

definition itoa :: "int \<Rightarrow> string" where
  "itoa n = (if n < 0 then ''-'' @ dec_string (nat (- n)) else dec_string (nat n))"

definition sme_Address :: "ServerMetEntry \<Rightarrow> bytes" where
  "sme_Address e =
     (let host = sme_Host e
      in if host = [] \<or> ep_port (sme_Endpoint e) = 0 then []
         else JoinHostPort host (str (itoa (ep_port (sme_Endpoint e)))))"

definition NewServerMetEntryFromIP :: "string \<Rightarrow> int \<Rightarrow> bytes \<Rightarrow> bytes \<Rightarrow> ServerMetEntry result" where
  "NewServerMetEntryFromIP ip port name description =
     (case EndpointFromString ip port of
        Inl e \<Rightarrow> Inl e
      | Inr endpoint \<Rightarrow>
          Inr \<lparr>sme_Endpoint = endpoint,
               sme_Tags = [NewStringTag 0x01 name] @
                 (if description \<noteq> [] then [NewStringTag 0x0B description] else [])\<rparr>)"

definition NewServerMetEntryFromHost :: "bytes \<Rightarrow> int \<Rightarrow> bytes \<Rightarrow> bytes \<Rightarrow> ServerMetEntry result" where
  "NewServerMetEntryFromHost host port name description =
     (let host = TrimSpace host
      in if host = [] \<or> port = 0 \<or> TrimSpace name = []
         then Inl (ErrText ''invalid server.met entry'')
         else Inr \<lparr>sme_Endpoint = NewEndpoint 0 port,
                   sme_Tags = [NewStringTag 0x0E host, NewStringTag 0x01 name] @
                     (if description \<noteq> [] then [NewStringTag 0x0B description] else [])\<rparr>)"

record ServerMet =
  sm_Header :: u8
  sm_Servers :: "ServerMetEntry list"

definition NewServerMet :: ServerMet where
  "NewServerMet = \<lparr>sm_Header = 0x0E, sm_Servers = []\<rparr>"

definition met_header :: "u8 \<Rightarrow> u8" where
  "met_header h = (if h = 0x0E \<or> h = 0x0F then h else 0x0E)"

definition get_ServerMet :: "ServerMet reader" where
  "get_ServerMet =
     rbind readByte (\<lambda>header.
     rbind ReadUInt32 (\<lambda>count src.
       if of_nat (length src div (6 + 4)) < count then
         Inl (ErrText ''server.met declares too many servers'')
       else rbind (get_n get_ServerMetEntry (unat count)) (\<lambda>servers.
              rreturn \<lparr>sm_Header = met_header header, sm_Servers = servers\<rparr>) src))"

definition put_ServerMet :: "ServerMet \<Rightarrow> bytes" where
  "put_ServerMet m =
     writeByte (met_header (sm_Header m)) @ writeUInt32 (of_nat (length (sm_Servers m))) @
     concat (map put_ServerMetEntry (sm_Servers m))"

definition bytesCount_ServerMet :: "ServerMet \<Rightarrow> nat" where
  "bytesCount_ServerMet m = 1 + 4 + sum_list (map bytesCount_ServerMetEntry (sm_Servers m))"

definition wf_ServerMet :: "ServerMet \<Rightarrow> bool" where
  "wf_ServerMet m \<longleftrightarrow>
     (sm_Header m = 0x0E \<or> sm_Header m = 0x0F) \<and> (\<forall>e\<in>set (sm_Servers m). wf_ServerMetEntry e)"

definition ParseServerMet :: "bytes \<Rightarrow> ServerMet result" where
  "ParseServerMet data = (case get_ServerMet data of Inl e \<Rightarrow> Inl e | Inr (met, _) \<Rightarrow> Inr met)"

definition AddServer :: "ServerMet \<Rightarrow> ServerMetEntry \<Rightarrow> ServerMet" where
  "AddServer m entry = m\<lparr>sm_Servers := sm_Servers m @ [entry]\<rparr>"

definition Addresses :: "ServerMet \<Rightarrow> bytes list" where
  "Addresses m = filter (\<lambda>addr. addr \<noteq> []) (map sme_Address (sm_Servers m))"

lemma length_concat_servers:
  "\<forall>e\<in>set es. wf_ServerMetEntry e \<Longrightarrow> 10 * length es \<le> length (concat (map put_ServerMetEntry es))"
  by (induction es) (simp_all add: codec_len bytesCount_ServerMetEntry_def bytesCount_TagList_def)

interpretation ServerMet_codec:
  sized_codec get_ServerMet put_ServerMet wf_ServerMet bytesCount_ServerMet
proof unfold_locales
  fix m :: ServerMet and rest
  assume wf: "wf_ServerMet m" and small: "small (put_ServerMet m @ rest)"
  define es where "es = sm_Servers m"
  define body where "body = concat (map put_ServerMetEntry es) @ rest"
  have es: "\<forall>e\<in>set es. wf_ServerMetEntry e" using wf by (simp add: wf_ServerMet_def es_def)
  have len: "length body < 4294967296" "10 * length es \<le> length body"
    using small length_concat_servers [OF es] by (simp_all add: put_ServerMet_def body_def es_def codec_len)
  have "\<not> (of_nat (length body div 10) :: u32) < of_nat (length es)"
    using len by (simp add: word_less_nat_alt unat_of_nat_u32)
  moreover have "rbind (get_n get_ServerMetEntry (unat (of_nat (length es) :: u32))) k body = k es rest"
    for k :: "ServerMetEntry list \<Rightarrow> ServerMet reader"
    using es len unfolding body_def by (simp add: unat_of_nat_u32 codec_step)
  moreover have "small (writeUInt32 (of_nat (length es)) @ body)"
    "small (writeByte h @ writeUInt32 (of_nat (length es)) @ body)" for h
    using small by (simp_all add: put_ServerMet_def body_def es_def codec_len)
  moreover have "met_header (met_header (sm_Header m)) = sm_Header m"
    using wf by (auto simp: wf_ServerMet_def met_header_def)
  ultimately show "get_ServerMet (put_ServerMet m @ rest) = Inr (m, rest)"
    by (simp add: get_ServerMet_def put_ServerMet_def codec_step flip: es_def body_def)
next
  fix m
  assume "wf_ServerMet m"
  then show "length (put_ServerMet m) = bytesCount_ServerMet m"
    by (simp add: put_ServerMet_def bytesCount_ServerMet_def wf_ServerMet_def codec_len)
qed

section \<open>All server packets\<close>

datatype ServerPacket =
    SLoginRequest LoginRequest
  | SGetList
  | SOfferFiles OfferFiles
  | SSearchRequest SearchRequest
  | SGetFileSources GetFileSources
  | SSearchMore
  | SCallbackRequest CallbackRequest
  | SSearchResult SearchResult
  | SStatus Status
  | SCallbackRequestIncoming CallbackRequestIncoming
  | SCallbackRequestFailed
  | SMessage Message
  | SIdChange IdChange
  | SFoundFileSources FoundFileSources

fun put_server :: "ServerPacket \<Rightarrow> bytes" where
  "put_server (SLoginRequest x) = put_LoginRequest x"
| "put_server SGetList = []"
| "put_server (SOfferFiles x) = put_OfferFiles x"
| "put_server (SSearchRequest x) = put_SearchRequest x"
| "put_server (SGetFileSources x) = put_GetFileSources x"
| "put_server SSearchMore = []"
| "put_server (SCallbackRequest x) = put_CallbackRequest x"
| "put_server (SSearchResult x) = put_SearchResult x"
| "put_server (SStatus x) = put_Status x"
| "put_server (SCallbackRequestIncoming x) = put_CallbackRequestIncoming x"
| "put_server SCallbackRequestFailed = []"
| "put_server (SMessage x) = put_Message x"
| "put_server (SIdChange x) = put_IdChange x"
| "put_server (SFoundFileSources x) = put_FoundFileSources x"

text \<open>Search requests are left out: their \<open>Get\<close> reads nothing.\<close>

fun wf_server :: "ServerPacket \<Rightarrow> bool" where
  "wf_server (SLoginRequest x) = wf_LoginRequest x"
| "wf_server SGetList = True"
| "wf_server (SOfferFiles x) = wf_OfferFiles x"
| "wf_server (SSearchRequest x) = False"
| "wf_server (SGetFileSources x) = wf_GetFileSources x"
| "wf_server SSearchMore = True"
| "wf_server (SCallbackRequest x) = wf_CallbackRequest x"
| "wf_server (SSearchResult x) = wf_SearchResult x"
| "wf_server (SStatus x) = wf_Status x"
| "wf_server (SCallbackRequestIncoming x) = wf_CallbackRequestIncoming x"
| "wf_server SCallbackRequestFailed = True"
| "wf_server (SMessage x) = wf_Message x"
| "wf_server (SIdChange x) = wf_IdChange x"
| "wf_server (SFoundFileSources x) = wf_FoundFileSources x"

fun typeName_server :: "ServerPacket \<Rightarrow> string" where
  "typeName_server (SLoginRequest x) = ''server.LoginRequest''"
| "typeName_server SGetList = ''server.GetList''"
| "typeName_server (SOfferFiles x) = ''server.OfferFiles''"
| "typeName_server (SSearchRequest x) = ''server.SearchRequest''"
| "typeName_server (SGetFileSources x) = ''server.GetFileSources''"
| "typeName_server SSearchMore = ''server.SearchMore''"
| "typeName_server (SCallbackRequest x) = ''server.CallbackRequest''"
| "typeName_server (SSearchResult x) = ''server.SearchResult''"
| "typeName_server (SStatus x) = ''server.Status''"
| "typeName_server (SCallbackRequestIncoming x) = ''server.CallbackRequestIncoming''"
| "typeName_server SCallbackRequestFailed = ''server.CallbackRequestFailed''"
| "typeName_server (SMessage x) = ''server.Message''"
| "typeName_server (SIdChange x) = ''server.IdChange''"
| "typeName_server (SFoundFileSources x) = ''server.FoundFileSources''"

definition server_table :: "(PacketKey \<times> string \<times> ServerPacket reader) list" where
  "server_table =
    [ (PK EdonkeyProt 0x01, ''server.LoginRequest'', map_reader SLoginRequest get_LoginRequest),
      (PK EdonkeyProt 0x14, ''server.GetList'', rreturn SGetList),
      (PK EdonkeyProt 0x15, ''server.OfferFiles'', map_reader SOfferFiles get_OfferFiles),
      (PK EdonkeyProt 0x16, ''server.SearchRequest'', map_reader SSearchRequest get_SearchRequest),
      (PK EdonkeyProt 0x19, ''server.GetFileSources'', map_reader SGetFileSources get_GetFileSources),
      (PK EdonkeyProt 0x21, ''server.SearchMore'', rreturn SSearchMore),
      (PK EdonkeyProt 0x1C, ''server.CallbackRequest'', map_reader SCallbackRequest get_CallbackRequest),
      (PK EdonkeyProt 0x33, ''server.SearchResult'', map_reader SSearchResult get_SearchResult),
      (PK EdonkeyProt 0x34, ''server.Status'', map_reader SStatus get_Status),
      (PK EdonkeyProt 0x35, ''server.CallbackRequestIncoming'', map_reader SCallbackRequestIncoming get_CallbackRequestIncoming),
      (PK EdonkeyProt 0x36, ''server.CallbackRequestFailed'', rreturn SCallbackRequestFailed),
      (PK EdonkeyProt 0x38, ''server.Message'', map_reader SMessage get_Message),
      (PK EdonkeyProt 0x40, ''server.IdChange'', map_reader SIdChange get_IdChange),
      (PK EdonkeyProt 0x42, ''server.FoundFileSources'', map_reader SFoundFileSources get_FoundFileSources)]"

definition server_NewPacketCombiner :: "ServerPacket PacketCombiner" where
  "server_NewPacketCombiner = register_all server_table NewPacketCombiner"

lemma server_table_keys: "distinct (map fst server_table)"
  by (simp add: server_table_def protocol_bytes)

lemma server_table_names: "distinct (map (\<lambda>e. fst (snd e)) server_table)"
  by (simp add: server_table_def)

lemmas server_exact = LoginRequest_codec.get_put_exact OfferFiles_codec.get_put_exact
  GetFileSources_codec.get_put_exact CallbackRequest_codec.get_put_exact
  SearchResult_codec.get_put_exact Status_codec.get_put_exact
  CallbackRequestIncoming_codec.get_put_exact Message_codec.get_put_exact
  IdChange_codec.get_put_exact FoundFileSources_codec.get_put_exact

lemma server_table_reads:
  "wf_server x \<Longrightarrow> \<exists>(k, n, g)\<in>set server_table. n = typeName_server x \<and> plain_key k \<and>
     (small (put_server x) \<longrightarrow> (\<exists>rest. g (put_server x) = Inr (x, rest)))"
  by (cases x) (simp_all add: server_table_def plain_key_def protocol_bytes map_reader_put server_exact)

interpretation server_registry:
  packet_registry server_NewPacketCombiner put_server wf_server typeName_server
  unfolding server_NewPacketCombiner_def
  by unfold_locales (rule registered_table [OF server_table_names server_table_keys server_table_reads])

section \<open>Properties\<close>

text \<open>C36: a frame packed from a well-formed server packet of any type but one unpacks, whatever bytes follow,
  to that packet. The exception is the search request, which the client only sends: its \<open>Get\<close>
  reads nothing, so that no frame unpacks to what was packed.\<close>

theorem server_frame_roundtrip:
  assumes "wf_server x" and "length (put_server x) < 2 ^ 31"
    and "length (put_server x @ rest) + 6 < 4294967296"
  shows "\<exists>raw header. pc_Pack server_NewPacketCombiner (typeName_server x) (put_server x) = Inr raw \<and>
    pc_UnpackFrame inflate server_NewPacketCombiner (raw @ rest) = Inr (header, Packet x)"
  using server_registry.UnpackFrame_Pack [OF assms] by blast

theorem server_frame_roundtrip_witness:
  "\<exists>raw header. pc_Pack server_NewPacketCombiner ''server.GetList'' [] = Inr raw \<and>
     pc_UnpackFrame (\<lambda>_. Inl EOF) server_NewPacketCombiner raw = Inr (header, Packet SGetList)"
  using server_frame_roundtrip [of SGetList "[]" "\<lambda>_. Inl EOF"] by simp

text \<open>The size of an offered file can be put together again from its two size tags, for every
  size an \<open>int64\<close> can hold.\<close>

theorem offered_size:
  assumes "0 < ofile_Size file" and "ofile_Size file < 2 ^ 63"
  shows "uint (fst (sfe_UIntTag (offer_entry toLower cid port file) FTFileSize)) +
    2 ^ 32 * uint (fst (sfe_UIntTag (offer_entry toLower cid port file) FTFileSizeHi)) = ofile_Size file"
proof -
  define n where "n = ofile_Size file"
  have n: "0 < n" "n < 2 ^ 63" using assms by (simp_all add: n_def)
  have lo: "uint (ucast (word_of_int n :: u32) :: u64) = n mod 2 ^ 32"
    by (simp add: uint_word_of_int unsigned_ucast_eq take_bit_eq_mod)
  define d where "d = drop_bit 32 (word_of_int n :: u64)"
  have "uint (word_of_int n :: u64) = n" using n by (simp add: uint_word_of_int)
  then have d: "uint d = n div 2 ^ 32" by (simp add: d_def drop_bit_eq_div uint_div)
  moreover have "n div 2 ^ 32 < 2 ^ 32" using n by (simp add: div_less_iff_less_mult)
  ultimately have "d < 4294967296" by (simp add: word_less_def)
  then have hi: "uint (ucast (ucast d :: u32) :: u64) = n div 2 ^ 32"
    using d by (simp add: ucast_narrow32)
  show ?thesis
  proof (cases "n > 0xffffffff")
    case True
    with lo hi show ?thesis
      using offer_size_tags [OF assms(1)]
      by (simp add: n_def d_def)
  next
    case False
    with lo n show ?thesis
      using offer_size_tags [OF assms(1)]
      by (simp add: n_def d_def)
  qed
qed

theorem offered_size_witness:
  "uint (fst (sfe_UIntTag (offer_entry id 0 4662 \<lparr>ofile_Hash = replicate 16 1, ofile_Name = [], ofile_Size = 5000000000\<rparr>)
       FTFileSize)) +
   2 ^ 32 * uint (fst (sfe_UIntTag (offer_entry id 0 4662
       \<lparr>ofile_Hash = replicate 16 1, ofile_Name = [], ofile_Size = 5000000000\<rparr>) FTFileSizeHi)) = 5000000000"
  using offered_size [of "\<lparr>ofile_Hash = replicate 16 1, ofile_Name = [], ofile_Size = 5000000000\<rparr>" id 0 4662]
  by simp

text \<open>The announced size of a search request is the number of bytes it writes; that of a
  source request falls four bytes short when the file is larger than 4 GiB.\<close>

theorem announced_sizes:
  assumes "wf_hash (gfs_Hash g)" and "gfs_HiPart g \<noteq> 0"
  shows "length (put_SearchRequest s) = bytesCount_SearchRequest s \<and>
    length (put_GetFileSources g) = bytesCount_GetFileSources g + 4"
  using assms by (simp add: length_put_SearchRequest length_put_GetFileSources)

theorem announced_sizes_witness:
  "length (put_GetFileSources \<lparr>gfs_Hash = replicate 16 1, gfs_LowPart = 0, gfs_HiPart = 2\<rparr>) =
   bytesCount_GetFileSources \<lparr>gfs_Hash = replicate 16 1, gfs_LowPart = 0, gfs_HiPart = 2\<rparr> + 4"
  using announced_sizes [of "\<lparr>gfs_Hash = replicate 16 1, gfs_LowPart = 0, gfs_HiPart = 2\<rparr>"]
  by (simp add: wf_hash_def)

text \<open>A server list is read back as it was written, and a list that declares more servers than
  its bytes can hold is refused before any is read.\<close>

theorem ServerMet_file:
  assumes "wf_ServerMet m" and "small (put_ServerMet m)"
  shows "ParseServerMet (put_ServerMet m) = Inr m \<and>
    (\<forall>h count body. small body \<and> length body div 10 < unat count \<longrightarrow>
       ParseServerMet (h # writeUInt32 count @ body) =
         Inl (ErrText ''server.met declares too many servers''))"
proof (intro conjI allI impI)
  show "ParseServerMet (put_ServerMet m) = Inr m"
    using ServerMet_codec.get_put_exact [OF assms] by (simp add: ParseServerMet_def)
  fix h and count :: u32 and body :: bytes
  assume b: "small body \<and> length body div 10 < unat count"
  then have "length body div 10 < 4294967296" by linarith
  with b have "of_nat (length body div 10) < count"
    by (simp add: word_less_nat_alt unat_of_nat_u32)
  moreover have "readByte (h # src) = Inr (h, src)" for src by (simp add: readByte_def)
  moreover have "ReadUInt32 (writeUInt32 count @ body) = Inr (count, body)"
    by (simp add: ReadUInt32_def writeUInt32_def rbind_def readFull_def le_dec_enc)
  ultimately show "ParseServerMet (h # writeUInt32 count @ body) =
      Inl (ErrText ''server.met declares too many servers'')"
    by (simp add: ParseServerMet_def get_ServerMet_def rbind_def)
qed

theorem ServerMet_file_witness: "ParseServerMet (put_ServerMet NewServerMet) = Inr NewServerMet"
  by (rule ServerMet_file [THEN conjunct1])
    (simp_all add: wf_ServerMet_def NewServerMet_def put_ServerMet_def codec_len)

end
