(* ===== verification/World.thy ===== *)
theory World
  imports Transfers Stable_Sort Client_Packets Server_Packets Complex_Main "HOL-Library.AList" "HOL-Library.Char_ord" "HOL-Library.List_Lexorder"
begin

text \<open>
  What the peer connections of a session share: the settings (\<^verbatim>\<open>settings.go\<close>), the credits
  of peers (\<^verbatim>\<open>client_credits.go\<close>), the upload queue's record (\<^verbatim>\<open>upload_queue.go\<close>), the
  transfers and the connections themselves. A \<^verbatim>\<open>*PeerConnection\<close> and a \<^verbatim>\<open>*Transfer\<close> are
  addresses into the world's heaps. Floating-point numbers are real numbers, without rounding.
\<close>

section \<open>Settings\<close>

record Settings =
  set_UserAgent :: hash
  set_ModName :: string
  set_ClientName :: string
  set_ListenPort :: int
  set_UDPPort :: int
  set_EnableDHT :: bool
  set_EnableUPnP :: bool
  set_Version :: int
  set_ModMajor :: int
  set_ModMinor :: int
  set_ModBuild :: int
  set_MaxFailCount :: int
  set_MaxPeerListSize :: int
  set_MinPeerReconnectTime :: int
  set_PeerConnectionTimeout :: int
  set_SessionConnectionsLimit :: int
  set_UploadSlots :: int
  set_MaxUploadRateKB :: int
  set_SlotAllocationKB :: int
  set_UploadQueueSize :: int
  set_BufferPoolSize :: int
  set_MaxConnectionsPerSecond :: int
  set_CompressionVersion :: int
  set_ServerSearchTimeout :: int
  set_DHTSearchTimeout :: int
  set_ReconnectToServer :: bool
  set_ServerPingTimeout :: int

text \<open>\<open>eMule\<close> is the fixed user agent, \<open>source\<close> what the random source delivers.\<close>

definition NewSettings :: "hash \<Rightarrow> bytes option \<Rightarrow> Settings" where
  "NewSettings eMule source =
     \<lparr>set_UserAgent = (case RandomHash source True of Inl e \<Rightarrow> eMule | Inr h \<Rightarrow> h),
      set_ModName = ''jed2k'', set_ClientName = ''jed2k'', set_ListenPort = 4661, set_UDPPort = 4662,
      set_EnableDHT = False, set_EnableUPnP = False, set_Version = 0x3c, set_ModMajor = 0, set_ModMinor = 0,
      set_ModBuild = 0, set_MaxFailCount = 20, set_MaxPeerListSize = 100, set_MinPeerReconnectTime = 10,
      set_PeerConnectionTimeout = 5, set_SessionConnectionsLimit = 20, set_UploadSlots = 3,
      set_MaxUploadRateKB = 0, set_SlotAllocationKB = 3, set_UploadQueueSize = 500,
      set_BufferPoolSize = 250, set_MaxConnectionsPerSecond = 10, set_CompressionVersion = 0,
      set_ServerSearchTimeout = 15, set_DHTSearchTimeout = 8, set_ReconnectToServer = False,
      set_ServerPingTimeout = 0\<rparr>"

section \<open>Credits\<close>

record PeerCredit =
  cr_PeerHash :: hash
  cr_Uploaded :: u64
  cr_Downloaded :: u64

type_synonym credits = "(string \<times> PeerCredit) list"

definition credit_key :: "hash \<Rightarrow> string" where
  "credit_key h = (if hash_Equal h Invalid then [] else hash_String h)"

text \<open>Looking a credit up enters an empty one when there is none.\<close>

definition credit :: "hash \<Rightarrow> credits \<Rightarrow> PeerCredit option \<times> credits" where
  "credit h m =
     (let key = credit_key h
      in if key = [] then (None, m)
         else (case map_of m key of
                 Some c \<Rightarrow> (Some c, m)
               | None \<Rightarrow>
                   (let c = \<lparr>cr_PeerHash = h, cr_Uploaded = 0, cr_Downloaded = 0\<rparr>
                    in (Some c, AList.update key c m))))"

definition AddUploaded :: "hash \<Rightarrow> int \<Rightarrow> credits \<Rightarrow> credits" where
  "AddUploaded h n m =
     (if n \<le> 0 then m
      else (case credit h m of
              (None, m) \<Rightarrow> m
            | (Some c, m) \<Rightarrow> AList.update (credit_key h) (c\<lparr>cr_Uploaded := cr_Uploaded c + of_int n\<rparr>) m))"

definition AddDownloaded :: "hash \<Rightarrow> int \<Rightarrow> credits \<Rightarrow> credits" where
  "AddDownloaded h n m =
     (if n \<le> 0 then m
      else (case credit h m of
              (None, m) \<Rightarrow> m
            | (Some c, m) \<Rightarrow> AList.update (credit_key h) (c\<lparr>cr_Downloaded := cr_Downloaded c + of_int n\<rparr>) m))"

definition ratio_of :: "PeerCredit option \<Rightarrow> real" where
  "ratio_of co =
     (case co of
        None \<Rightarrow> 1
      | Some c \<Rightarrow>
          if cr_Downloaded c < 1000000 then 1
          else
            (let down = real (unat (cr_Downloaded c)); up = real (unat (cr_Uploaded c));
                 result = (if cr_Uploaded c > 0 then down * 2 / up else 10);
                 limit = sqrt (down / 1048576 + 2);
                 result = (if result > limit then limit else result)
             in if result < 1 then 1 else if result > 10 then 10 else result))"

definition ScoreRatio :: "hash \<Rightarrow> credits \<Rightarrow> real \<times> credits" where
  "ScoreRatio h m = (let (c, m') = credit h m in (ratio_of c, m'))"

definition cr_Snapshot :: "credits \<Rightarrow> PeerCredit list" where
  "cr_Snapshot m =
     sort_by (\<lambda>a b. hash_String (cr_PeerHash a) < hash_String (cr_PeerHash b)) (map snd m)"

definition cr_ApplySnapshot :: "PeerCredit list \<Rightarrow> credits" where
  "cr_ApplySnapshot states =
     fold (\<lambda>s m. if hash_Equal (cr_PeerHash s) Invalid then m
                  else AList.update (hash_String (cr_PeerHash s)) s m) states []"

definition ScoreFactor :: "UploadPriority \<Rightarrow> real" where
  "ScoreFactor p =
     (case p of
        UploadPriorityPowerShare \<Rightarrow> 250
      | UploadPriorityVeryHigh \<Rightarrow> 1.8
      | UploadPriorityHigh \<Rightarrow> 0.9
      | UploadPriorityLow \<Rightarrow> 0.6
      | UploadPriorityVeryLow \<Rightarrow> 0.2
      | UploadPriorityNormal \<Rightarrow> 0.7)"

section \<open>The world\<close>

record UploadQueue =
  uq_waiting :: "nat list"
  uq_uploading :: "nat list"
  uq_lastStartUpload :: int
  uq_lastSort :: int
  uq_allowKicking :: bool
  uq_lastSlotHighID :: bool
  uq_suspended :: "string list"

definition NewUploadQueue :: UploadQueue where
  "NewUploadQueue =
     \<lparr>uq_waiting = [], uq_uploading = [], uq_lastStartUpload = 0, uq_lastSort = 0,
      uq_allowKicking = False, uq_lastSlotHighID = True, uq_suspended = []\<rparr>"

text \<open>
  \<open>wd_accumulator\<close> is the session's statistics, \<open>wd_next\<close> the address of the next
  connection to be made, \<open>wd_now\<close> the clock during an operation, \<open>wd_random\<close> the random numbers to come, \<open>wd_effects\<close> what transfers asked of the session.
\<close>

record World =
  wd_conns :: "nat \<Rightarrow> PeerConnection"
  wd_transfers :: "nat \<Rightarrow> Transfer"
  wd_byHash :: "(hash \<times> nat) list"
  wd_connections :: "nat list"
  wd_queue :: UploadQueue
  wd_credits :: credits
  wd_friendSlots :: "string list"
  wd_settings :: Settings
  wd_clientID :: u32
  wd_accumulator :: Statistics
  wd_next :: nat
  wd_now :: int
  wd_random :: "nat \<Rightarrow> int"
  wd_effects :: "(nat \<times> effect) list"

definition upd_conn :: "nat \<Rightarrow> (PeerConnection \<Rightarrow> PeerConnection) \<Rightarrow> World \<Rightarrow> World" where
  "upd_conn c f w = w\<lparr>wd_conns := (wd_conns w)(c := f (wd_conns w c))\<rparr>"

definition upd_transfer :: "nat \<Rightarrow> (Transfer \<Rightarrow> Transfer) \<Rightarrow> World \<Rightarrow> World" where
  "upd_transfer t f w = w\<lparr>wd_transfers := (wd_transfers w)(t := f (wd_transfers w t))\<rparr>"

definition upd_queue :: "(UploadQueue \<Rightarrow> UploadQueue) \<Rightarrow> World \<Rightarrow> World" where
  "upd_queue f w = w\<lparr>wd_queue := f (wd_queue w)\<rparr>"

definition conn_transfer :: "World \<Rightarrow> nat \<Rightarrow> Transfer option" where
  "conn_transfer w c = map_option (wd_transfers w) (pn_transfer (wd_conns w c))"

text \<open>What the peer pointer of a connection points to, in the peer list of its transfer.\<close>

definition conn_peer :: "World \<Rightarrow> nat \<Rightarrow> Peer option" where
  "conn_peer w c =
     (case (pn_peerInfo (wd_conns w c), conn_transfer w c) of
        (Some i, Some t) \<Rightarrow> idx (po_peers (t_policy t)) (int i)
      | _ \<Rightarrow> None)"

definition lowID :: "World \<Rightarrow> nat \<Rightarrow> bool" where
  "lowID w c = IsUploadLowID (conn_peer w c)"

text \<open>A packet packed by the connection's combiner and queued; one that cannot be packed is dropped.\<close>

definition pn_send :: "ClientPacket \<Rightarrow> PeerConnection \<Rightarrow> PeerConnection" where
  "pn_send packet p =
     (case pc_Pack client_NewPacketCombiner (typeName_client packet) (put_client packet) of
        Inl e \<Rightarrow> p
      | Inr raw \<Rightarrow> QueuePacket raw p)"

definition send_packet :: "nat \<Rightarrow> ClientPacket \<Rightarrow> World \<Rightarrow> World" where
  "send_packet c packet w = upd_conn c (pn_send packet) w"

text \<open>The next random number, the transfer with a hash, and whether a peer is a friend.\<close>

definition next_random :: "World \<Rightarrow> int \<times> World" where
  "next_random w = (wd_random w 0, w\<lparr>wd_random := \<lambda>n. wd_random w (Suc n)\<rparr>)"

definition LookupTransfer :: "hash \<Rightarrow> World \<Rightarrow> nat option" where
  "LookupTransfer h w = map_of (wd_byHash w) h"

definition SetFriendSlot_session :: "hash \<Rightarrow> bool \<Rightarrow> World \<Rightarrow> World" where
  "SetFriendSlot_session h enabled w =
     (if hash_Equal h Invalid then w
      else w\<lparr>wd_friendSlots := (if enabled then List.insert (hash_String h) (wd_friendSlots w)
                              else removeAll (hash_String h) (wd_friendSlots w))\<rparr>)"

definition IsFriendSlot :: "hash \<Rightarrow> World \<Rightarrow> bool" where
  "IsFriendSlot h w \<longleftrightarrow> \<not> hash_Equal h Invalid \<and> hash_String h \<in> set (wd_friendSlots w)"

definition friendSlotSnapshot :: "World \<Rightarrow> hash list" where
  "friendSlotSnapshot w =
     List.map_filter (\<lambda>key. case HashFromString key of Inl e \<Rightarrow> None | Inr h \<Rightarrow> Some h) (wd_friendSlots w)"

definition applyFriendSlotSnapshot :: "hash list \<Rightarrow> World \<Rightarrow> World" where
  "applyFriendSlotSnapshot values w =
     w\<lparr>wd_friendSlots := fold (\<lambda>h slots. if hash_Equal h Invalid then slots else List.insert (hash_String h) slots) values []\<rparr>"

definition CloseConnection :: "nat \<Rightarrow> World \<Rightarrow> World" where
  "CloseConnection c w = w\<lparr>wd_connections := filter (\<lambda>d. d \<noteq> c) (wd_connections w)\<rparr>"

text \<open>What a transfer asks for is noted with its address.\<close>

definition note_effects :: "nat \<Rightarrow> effect list \<Rightarrow> World \<Rightarrow> World" where
  "note_effects t effs w = w\<lparr>wd_effects := wd_effects w @ map (Pair t) effs\<rparr>"

definition with_effects :: "nat \<Rightarrow> Transfer \<times> effect list \<Rightarrow> World \<Rightarrow> World" where
  "with_effects t r w = note_effects t (snd r) (upd_transfer t (\<lambda>_. fst r) w)"

end
