(* ===== verification/Upload_Queue.thy ===== *)
theory Upload_Queue
  imports World
begin

text \<open>
  The upload queue (\<^verbatim>\<open>upload_queue.go\<close>): the connections that wait for a slot, sorted by
  score, and those that have one. A client is the address of its connection; sorting is stable.
\<close>

definition maxUploadTime :: int where "maxUploadTime = 60 * 60 * 1000"
definition maxUploadData :: int where "maxUploadData = 10 * 1024 * 1024"
definition minUploadClientsAllowed :: int where "minUploadClientsAllowed = 2"
definition maxUploadClientsAllowed :: int where "maxUploadClientsAllowed = 250"

lemmas queue_limits = maxUploadTime_def maxUploadData_def minUploadClientsAllowed_def maxUploadClientsAllowed_def

section \<open>Scores\<close>

text \<open>
  \<open>UploadScore\<close>, and whether it came to look up the credit of its peer. \<open>uint32(base)\<close> keeps
  the low 32 bits of the number before the point, as the conversion does on 64-bit machines (Go leaves
  it open for numbers that do not fit).
\<close>

definition asks_credit :: "World \<Rightarrow> nat \<Rightarrow> bool" where
  "asks_credit w c \<longleftrightarrow>
     (let p = wd_conns w c
      in pn_uploadState p \<noteq> UploadStateUploading \<and> \<not> (pn_friendSlot p \<and> \<not> lowID w c) \<and> pn_uploadWaitStart p \<noteq> 0)"

definition UploadScore :: "World \<Rightarrow> nat \<Rightarrow> nat" where
  "UploadScore w c =
     (let p = wd_conns w c
      in if pn_uploadState p = UploadStateUploading then 0
         else if pn_friendSlot p \<and> \<not> lowID w c then 0x0FFFFFFF
         else if pn_uploadWaitStart p = 0 then 0
         else
           (let base = real_of_int (wd_now w - pn_uploadWaitStart p) / 1000;
                base = base * fst (ScoreRatio (pn_remoteHash p) (wd_credits w));
                base = (case conn_transfer w c of None \<Rightarrow> base | Some t \<Rightarrow> base * ScoreFactor (t_uploadPriority t))
            in if base < 0 then 0 else nat (\<lfloor>base\<rfloor> mod 4294967296)))"

text \<open>The comparison of \<open>sortWaiting\<close>.\<close>

definition waits_before :: "World \<Rightarrow> nat \<Rightarrow> nat \<Rightarrow> int" where
  "waits_before w a b =
     (let scoreA = UploadScore w a; scoreB = UploadScore w b;
          startA = pn_uploadWaitStart (wd_conns w a); startB = pn_uploadWaitStart (wd_conns w b)
      in if scoreA \<noteq> scoreB then (if scoreA > scoreB then -1 else 1)
         else if startA = startB then ep_Compare (pn_endpoint (wd_conns w a)) (pn_endpoint (wd_conns w b))
         else if startA < startB then -1 else 1)"

definition touch_credits :: "World \<Rightarrow> World" where
  "touch_credits w =
     (let waiting = uq_waiting (wd_queue w)
      in if length waiting < 2 then w
         else w\<lparr>wd_credits := fold (\<lambda>c m. if asks_credit w c then snd (credit (pn_remoteHash (wd_conns w c)) m) else m)
                waiting (wd_credits w)\<rparr>)"

section \<open>Ranks and slots\<close>

fun assign_ranks :: "nat \<Rightarrow> nat list \<Rightarrow> World \<Rightarrow> World" where
  "assign_ranks i [] w = w"
| "assign_ranks i (c # cs) w = assign_ranks (Suc i) cs (upd_conn c (SetUploadQueueRank (of_nat (Suc i))) w)"

definition recomputeRanks :: "World \<Rightarrow> World" where
  "recomputeRanks w = assign_ranks 0 (uq_waiting (wd_queue w)) w"

definition sortWaiting :: "World \<Rightarrow> World" where
  "sortWaiting w =
     (let waiting = sort_by (\<lambda>a b. waits_before w a b < 0) (uq_waiting (wd_queue w))
      in recomputeRanks (upd_queue (\<lambda>q. q\<lparr>uq_waiting := waiting, uq_lastSort := wd_now w\<rparr>) (touch_credits w)))"

definition IsOnUploadQueue :: "World \<Rightarrow> nat \<Rightarrow> bool" where
  "IsOnUploadQueue w c \<longleftrightarrow> c \<in> set (uq_waiting (wd_queue w))"

definition IsUploading :: "World \<Rightarrow> nat \<Rightarrow> bool" where
  "IsUploading w c \<longleftrightarrow> c \<in> set (uq_uploading (wd_queue w))"

definition maxSlots :: "World \<Rightarrow> int" where
  "maxSlots w =
     (let s = wd_settings w;
          slotAllocation = (if set_SlotAllocationKB s \<le> 0 then 3 else set_SlotAllocationKB s);
          n = (if set_MaxUploadRateKB s \<le> 0
               then go_div (go_div (UploadRate (wd_accumulator w)) 1024) slotAllocation + 2
               else \<lfloor>real_of_int (set_MaxUploadRateKB s) / real_of_int slotAllocation + 1 / 2\<rfloor>);
          n = (if n < minUploadClientsAllowed then minUploadClientsAllowed else n)
      in if n > maxUploadClientsAllowed then maxUploadClientsAllowed else n)"

text \<open>\<open>remove1\<close> is the removal of the first occurrence.\<close>

definition RemoveFromWaitingQueue :: "nat \<Rightarrow> World \<Rightarrow> World \<times> bool" where
  "RemoveFromWaitingQueue c w =
     (if \<not> IsOnUploadQueue w c then (w, False)
      else
        (let w = upd_queue (\<lambda>q. q\<lparr>uq_waiting := remove1 c (uq_waiting q)\<rparr>) w;
             w = upd_conn c (\<lambda>p. ClearUploadWaitStart (SetUploadQueueRank 0 (SetUploadState UploadStateNone p))) w
         in (recomputeRanks w, True)))"

definition RemoveFromUploadQueue :: "nat \<Rightarrow> World \<Rightarrow> World \<times> bool" where
  "RemoveFromUploadQueue c w =
     (let wasUploading = IsUploading w c;
          w = (if wasUploading then upd_queue (\<lambda>q. q\<lparr>uq_uploading := remove1 c (uq_uploading q)\<rparr>) w else w);
          (w, wasWaiting) = RemoveFromWaitingQueue c w;
          removed = (wasUploading \<or> wasWaiting)
      in (if removed then upd_conn c (\<lambda>p. ClearUploadBlockRequests (SetUploadState UploadStateNone p)) w else w,
          removed))"

definition SendQueueRanking :: "nat \<Rightarrow> u16 \<Rightarrow> World \<Rightarrow> World" where
  "SendQueueRanking c rank w = send_packet c (CQueueRanking \<lparr>qr_Rank = rank, qr_Padding1 = 0, qr_Padding2 = 0, qr_Padding3 = 0\<rparr>) w"

definition SendAcceptUpload :: "nat \<Rightarrow> World \<Rightarrow> World" where
  "SendAcceptUpload c w = send_packet c CAcceptUpload w"

text \<open>The part of \<open>addUpNextClient\<close> that gives the client its slot.\<close>

definition grant :: "nat \<Rightarrow> World \<Rightarrow> World" where
  "grant c w =
     (if IsUploading w c then w
      else
        (let w = upd_conn c (\<lambda>p. ResetUploadSession (SetUploadStartTime (wd_now w) (SetUploadAddNextConnect False
                   (SetUploadQueueRank 0 (SetUploadState UploadStateUploading p))))) w;
             high = \<not> lowID w c;
             w = upd_queue (\<lambda>q. q\<lparr>uq_uploading := uq_uploading q @ [c], uq_lastSlotHighID := high\<rparr>) w
         in if co_socket (wd_conns w c) then SendAcceptUpload c w else w))"

text \<open>
  The search for the next client: those with a low identifier that are not connected are told to
  be next when they connect.
\<close>

fun next_client :: "nat list \<Rightarrow> World \<Rightarrow> World \<times> nat option" where
  "next_client [] w = (w, None)"
| "next_client (c # cs) w =
     (if lowID w c \<and> \<not> IsUploadConnected (wd_conns w c)
      then next_client cs (upd_conn c (SetUploadAddNextConnect True) w)
      else (w, Some c))"

definition addUpNextClient :: "nat option \<Rightarrow> World \<Rightarrow> World" where
  "addUpNextClient direct w =
     (case direct of
        Some c \<Rightarrow> grant c w
      | None \<Rightarrow>
          (case next_client (uq_waiting (wd_queue w)) w of
             (w, None) \<Rightarrow> w
           | (w, Some c) \<Rightarrow>
               grant c (recomputeRanks (upd_queue (\<lambda>q. q\<lparr>uq_waiting := remove1 c (uq_waiting q)\<rparr>) w))))"

section \<open>Operations\<close>

definition isSuspended :: "World \<Rightarrow> hash \<Rightarrow> bool" where
  "isSuspended w h \<longleftrightarrow> \<not> hash_Equal h Invalid \<and> hash_String h \<in> set (uq_suspended (wd_queue w))"

definition enqueue :: "nat \<Rightarrow> World \<Rightarrow> World" where
  "enqueue c w =
     (let w = upd_conn c (\<lambda>p. SetUploadState UploadStateOnQueue (SetUploadWaitStart (wd_now w) p)) w;
          w = sortWaiting (upd_queue (\<lambda>q. q\<lparr>uq_waiting := uq_waiting q @ [c]\<rparr>) w)
      in SendQueueRanking c (pn_uploadQueueRank (wd_conns w c)) w)"

definition AddClientToQueue :: "nat \<Rightarrow> World \<Rightarrow> World" where
  "AddClientToQueue c w0 =
     (if co_disconnecting (wd_conns w0 c) then w0
      else
        (let w = upd_conn c (\<lambda>p. p\<lparr>pn_lastUploadRequest := wd_now w0\<rparr>) w0;
             p = wd_conns w c;
             q = wd_queue w
         in if IsOnUploadQueue w c then
              (let slots = maxSlots w + (if pn_uploadAddNext p \<and> uq_lastSlotHighID q then 1 else 0)
               in if pn_uploadAddNext p \<and> int (length (uq_uploading q)) < slots
                  then upd_queue (\<lambda>q. q\<lparr>uq_lastSlotHighID := False\<rparr>)
                         (addUpNextClient (Some c)
                           (fst (RemoveFromWaitingQueue c (upd_conn c (SetUploadAddNextConnect False) w))))
                  else SendQueueRanking c (pn_uploadQueueRank p) w)
            else if IsUploading w c then SendAcceptUpload c w
            else (case conn_transfer w c of
                    None \<Rightarrow> w
                  | Some t \<Rightarrow>
                      if isSuspended w (t_hash t) then w
                      else if set_UploadQueueSize (wd_settings w) > 0 \<and>
                              int (length (uq_waiting q)) \<ge> set_UploadQueueSize (wd_settings w) then w
                      else
                        (let w = upd_conn c ClearUploadWaitStart w
                         in if uq_waiting q = [] \<and> wd_now w - uq_lastStartUpload q \<ge> Seconds 1 \<and>
                               int (length (uq_uploading q)) < maxSlots w
                            then upd_queue (\<lambda>q. q\<lparr>uq_lastStartUpload := wd_now w\<rparr>) (addUpNextClient (Some c) w)
                            else enqueue c w))))"

definition is_vip :: "World \<Rightarrow> nat \<Rightarrow> bool" where
  "is_vip w c \<longleftrightarrow>
     pn_friendSlot (wd_conns w c) \<or>
     (case conn_transfer w c of None \<Rightarrow> False | Some t \<Rightarrow> t_uploadPriority t = UploadPriorityPowerShare)"

definition CheckForTimeOver :: "nat \<Rightarrow> World \<Rightarrow> World \<times> bool" where
  "CheckForTimeOver c w =
     (let p = wd_conns w c; q = wd_queue w;
          powerShare = (case conn_transfer w c of None \<Rightarrow> False | Some t \<Rightarrow> t_uploadPriority t = UploadPriorityPowerShare);
          vips = int (length (filter (is_vip w) (uq_uploading q)))
      in if \<not> uq_allowKicking q then (w, False)
         else if pn_friendSlot p then (w, False)
         else if powerShare \<and> vips \<le> go_div (maxSlots w) 2 then (w, False)
         else if UploadStartDelay (wd_now w) p > maxUploadTime \<or> UploadSession p > maxUploadData
         then (upd_queue (\<lambda>q. q\<lparr>uq_allowKicking := False\<rparr>) w, True)
         else (w, False))"

definition ResumeUpload :: "hash \<Rightarrow> World \<Rightarrow> World" where
  "ResumeUpload h w =
     (if hash_Equal h Invalid then w
      else upd_queue (\<lambda>q. q\<lparr>uq_suspended := removeAll (hash_String h) (uq_suspended q)\<rparr>) w)"

definition suspend_client :: "hash \<Rightarrow> bool \<Rightarrow> nat \<Rightarrow> World \<times> u16 \<Rightarrow> World \<times> u16" where
  "suspend_client h terminate c s =
     (let (w, removed) = s
      in case conn_transfer w c of
           None \<Rightarrow> (w, removed)
         | Some t \<Rightarrow>
             if \<not> hash_Equal (t_hash t) h then (w, removed)
             else
               (let w = fst (RemoveFromUploadQueue c w)
                in (if terminate then w else enqueue c w, removed + 1)))"

definition SuspendUpload :: "hash \<Rightarrow> bool \<Rightarrow> World \<Rightarrow> World \<times> u16" where
  "SuspendUpload h terminate w =
     (if hash_Equal h Invalid then (w, 0)
      else
        (let w = (if terminate then w else upd_queue (\<lambda>q. q\<lparr>uq_suspended := List.insert (hash_String h) (uq_suspended q)\<rparr>) w)
         in fold (suspend_client h terminate) (uq_uploading (wd_queue w)) (w, 0)))"

section \<open>What the operations leave alone\<close>

lemma pn_send_fields [simp]:
  "pn_uploadState (pn_send x p) = pn_uploadState p" "pn_uploadQueueRank (pn_send x p) = pn_uploadQueueRank p"
  by (simp_all add: pn_send_def QueuePacket_def QueuePacketWithStats_def split: sum.split)

lemma upd_conn_frame [simp]:
  "wd_queue (upd_conn c f w) = wd_queue w" "wd_settings (upd_conn c f w) = wd_settings w"
  "wd_now (upd_conn c f w) = wd_now w" "wd_credits (upd_conn c f w) = wd_credits w"
  "wd_transfers (upd_conn c f w) = wd_transfers w" "wd_accumulator (upd_conn c f w) = wd_accumulator w"
  "wd_conns (upd_conn c f w) = (wd_conns w)(c := f (wd_conns w c))"
  by (simp_all add: upd_conn_def)

lemma upd_queue_frame [simp]:
  "wd_queue (upd_queue f w) = f (wd_queue w)" "wd_settings (upd_queue f w) = wd_settings w"
  "wd_now (upd_queue f w) = wd_now w" "wd_credits (upd_queue f w) = wd_credits w"
  "wd_transfers (upd_queue f w) = wd_transfers w" "wd_accumulator (upd_queue f w) = wd_accumulator w"
  "wd_conns (upd_queue f w) = wd_conns w"
  by (simp_all add: upd_queue_def)

lemma touch_credits_frame [simp]:
  "wd_queue (touch_credits w) = wd_queue w" "wd_conns (touch_credits w) = wd_conns w"
  "wd_now (touch_credits w) = wd_now w" "wd_transfers (touch_credits w) = wd_transfers w"
  by (simp_all add: touch_credits_def Let_def)

text \<open>The parts of the world a queue's order rests on: state and rank of every client.\<close>

abbreviation state_of :: "World \<Rightarrow> nat \<Rightarrow> UploadState" where
  "state_of w c \<equiv> pn_uploadState (wd_conns w c)"

abbreviation rank_of :: "World \<Rightarrow> nat \<Rightarrow> u16" where
  "rank_of w c \<equiv> pn_uploadQueueRank (wd_conns w c)"

lemma send_packet_frame [simp]:
  "wd_queue (send_packet c x w) = wd_queue w" "state_of (send_packet c x w) d = state_of w d"
  "rank_of (send_packet c x w) d = rank_of w d"
  by (simp_all add: send_packet_def)

definition ranked :: "World \<Rightarrow> bool" where
  "ranked w \<longleftrightarrow> (\<forall>i < length (uq_waiting (wd_queue w)). rank_of w (uq_waiting (wd_queue w) ! i) = of_nat (Suc i))"

lemma assign_ranks_frame:
  "wd_queue (assign_ranks n xs w) = wd_queue w" "state_of (assign_ranks n xs w) c = state_of w c"
  "c \<notin> set xs \<Longrightarrow> rank_of (assign_ranks n xs w) c = rank_of w c"
  by (induction n xs w rule: assign_ranks.induct) (auto simp: SetUploadQueueRank_def)

lemma assign_ranks_nth:
  "distinct xs \<Longrightarrow> i < length xs \<Longrightarrow> rank_of (assign_ranks n xs w) (xs ! i) = of_nat (Suc (n + i))"
proof (induction n xs w arbitrary: i rule: assign_ranks.induct)
  case (1 n w)
  then show ?case by simp
next
  case (2 n c cs w)
  then show ?case
    by (cases i) (simp_all add: assign_ranks_frame SetUploadQueueRank_def)
qed

lemma recomputeRanks_frame [simp]:
  "wd_queue (recomputeRanks w) = wd_queue w" "state_of (recomputeRanks w) c = state_of w c"
  by (simp_all add: recomputeRanks_def assign_ranks_frame)

lemma recomputeRanks_ranked: "distinct (uq_waiting (wd_queue w)) \<Longrightarrow> ranked (recomputeRanks w)"
  using assign_ranks_nth [of "uq_waiting (wd_queue w)" _ 0 w]
  by (simp add: ranked_def recomputeRanks_def assign_ranks_frame)

lemma recomputeRanks_rest: "c \<notin> set (uq_waiting (wd_queue w)) \<Longrightarrow> rank_of (recomputeRanks w) c = rank_of w c"
  by (simp add: recomputeRanks_def assign_ranks_frame)

section \<open>The queue's invariant\<close>

definition maxUploading :: nat where "maxUploading = 251"

definition slots_ok :: "World \<Rightarrow> bool" where
  "slots_ok w \<longleftrightarrow>
     (let q = wd_queue w
      in distinct (uq_waiting q) \<and> distinct (uq_uploading q) \<and> set (uq_waiting q) \<inter> set (uq_uploading q) = {} \<and>
         length (uq_uploading q) \<le> maxUploading \<and>
         (\<forall>c. state_of w c = UploadStateUploading \<longleftrightarrow> c \<in> set (uq_uploading q)) \<and>
         (\<forall>c \<in> set (uq_waiting q). state_of w c = UploadStateOnQueue) \<and> ranked w)"

lemma maxSlots_bound: "maxSlots w \<le> 250" "2 \<le> maxSlots w"
  by (simp_all add: maxSlots_def Let_def queue_limits)

lemma slots_ok_cong:
  assumes "slots_ok w" and "uq_waiting (wd_queue w') = uq_waiting (wd_queue w)"
    and "uq_uploading (wd_queue w') = uq_uploading (wd_queue w)"
    and "\<And>c. state_of w' c = state_of w c" and "\<And>c. rank_of w' c = rank_of w c"
  shows "slots_ok w'"
  using assms by (simp add: slots_ok_def ranked_def Let_def)

lemma send_ok: "slots_ok w \<Longrightarrow> slots_ok (send_packet c x w)"
  by (erule slots_ok_cong) simp_all

lemma RemoveFromWaitingQueue_ok:
  fixes c :: nat
  assumes "slots_ok w"
  defines "w' \<equiv> fst (RemoveFromWaitingQueue c w)"
  shows "slots_ok w'" and "c \<notin> set (uq_waiting (wd_queue w'))"
    and "uq_uploading (wd_queue w') = uq_uploading (wd_queue w)"
    and "snd (RemoveFromWaitingQueue c w) = IsOnUploadQueue w c"
proof -
  have "slots_ok w' \<and> c \<notin> set (uq_waiting (wd_queue w')) \<and> uq_uploading (wd_queue w') = uq_uploading (wd_queue w)"
  proof (cases "IsOnUploadQueue w c")
    case False
    with assms(1) show ?thesis by (simp add: w'_def RemoveFromWaitingQueue_def IsOnUploadQueue_def)
  next
    case True
    let ?w1 = "upd_conn c (\<lambda>p. ClearUploadWaitStart (SetUploadQueueRank 0 (SetUploadState UploadStateNone p)))
      (upd_queue (\<lambda>q. q\<lparr>uq_waiting := remove1 c (uq_waiting q)\<rparr>) w)"
    have w': "w' = recomputeRanks ?w1"
      using True by (simp add: w'_def RemoveFromWaitingQueue_def Let_def)
    have d: "distinct (uq_waiting (wd_queue w))" using assms(1) by (simp add: slots_ok_def Let_def)
    have st: "state_of w' d = (if d = c then UploadStateNone else state_of w d)" for d
      by (simp add: w' ClearUploadWaitStart_def SetUploadQueueRank_def SetUploadState_def Let_def)
    have q': "uq_waiting (wd_queue w') = remove1 c (uq_waiting (wd_queue w))"
      "uq_uploading (wd_queue w') = uq_uploading (wd_queue w)" by (simp_all add: w')
    have "ranked w'" unfolding w' by (rule recomputeRanks_ranked) (simp add: d)
    moreover have "c \<notin> set (uq_uploading (wd_queue w))"
      using True assms(1) by (auto simp: slots_ok_def IsOnUploadQueue_def Let_def)
    ultimately show ?thesis
      using assms(1) d by (auto simp: slots_ok_def Let_def q' st)
  qed
  then show "slots_ok w'" "c \<notin> set (uq_waiting (wd_queue w'))"
    "uq_uploading (wd_queue w') = uq_uploading (wd_queue w)" by blast+
  show "snd (RemoveFromWaitingQueue c w) = IsOnUploadQueue w c"
    by (simp add: RemoveFromWaitingQueue_def Let_def)
qed

text \<open>Removing a client that waits is the operation above; one that uploads leaves its slot.\<close>

lemma RemoveFromUploadQueue_ok:
  fixes c :: nat
  assumes "slots_ok w"
  defines "w' \<equiv> fst (RemoveFromUploadQueue c w)"
  shows "slots_ok w'" and "c \<notin> set (uq_waiting (wd_queue w'))" and "c \<notin> set (uq_uploading (wd_queue w'))"
    and "snd (RemoveFromUploadQueue c w) \<longleftrightarrow> IsUploading w c \<or> IsOnUploadQueue w c"
    and "set (uq_uploading (wd_queue w')) \<subseteq> set (uq_uploading (wd_queue w))"
proof -
  have "slots_ok w' \<and> c \<notin> set (uq_waiting (wd_queue w')) \<and> c \<notin> set (uq_uploading (wd_queue w')) \<and>
    (snd (RemoveFromUploadQueue c w) \<longleftrightarrow> IsUploading w c \<or> IsOnUploadQueue w c) \<and>
    set (uq_uploading (wd_queue w')) \<subseteq> set (uq_uploading (wd_queue w))"
  proof (cases "IsUploading w c")
    case True
    let ?w1 = "upd_queue (\<lambda>q. q\<lparr>uq_uploading := remove1 c (uq_uploading q)\<rparr>) w"
    have out: "c \<notin> set (uq_waiting (wd_queue w))"
      using True assms(1) by (auto simp: slots_ok_def IsUploading_def Let_def)
    then have rm: "RemoveFromWaitingQueue c ?w1 = (?w1, False)"
      by (simp add: RemoveFromWaitingQueue_def IsOnUploadQueue_def)
    have w': "w' = upd_conn c (\<lambda>p. ClearUploadBlockRequests (SetUploadState UploadStateNone p)) ?w1"
      "snd (RemoveFromUploadQueue c w)"
      using True rm by (simp_all add: w'_def RemoveFromUploadQueue_def Let_def)
    have st: "state_of w' d = (if d = c then UploadStateNone else state_of w d)" "rank_of w' d = rank_of w d" for d
      by (simp_all add: w' ClearUploadBlockRequests_def SetUploadState_def Let_def)
    have q': "uq_waiting (wd_queue w') = uq_waiting (wd_queue w)"
      "uq_uploading (wd_queue w') = remove1 c (uq_uploading (wd_queue w))" by (simp_all add: w')
    have "slots_ok w'"
      using assms(1) out True
      by (auto simp: slots_ok_def Let_def q' st ranked_def IsUploading_def length_remove1 dest: notin_set_remove1)
    then show ?thesis using out True w'(2) assms(1) by (auto simp: q' slots_ok_def Let_def dest: notin_set_remove1)
  next
    case False
    note r = RemoveFromWaitingQueue_ok [OF assms(1), of c]
    obtain w1 b where w1: "RemoveFromWaitingQueue c w = (w1, b)" by (cases "RemoveFromWaitingQueue c w")
    have b: "b \<longleftrightarrow> IsOnUploadQueue w c" using r(4) w1 by simp
    have c1: "c \<notin> set (uq_uploading (wd_queue w1))" using r(3) w1 False by (simp add: IsUploading_def)
    have w': "w' = (if b then upd_conn c (\<lambda>p. ClearUploadBlockRequests (SetUploadState UploadStateNone p)) w1 else w1)"
      "snd (RemoveFromUploadQueue c w) = b"
      using False w1 by (simp_all add: w'_def RemoveFromUploadQueue_def Let_def)
    have ok1: "slots_ok w1" "c \<notin> set (uq_waiting (wd_queue w1))" using r w1 by simp_all
    have "slots_ok w'"
      using ok1 c1
      by (auto simp: w' slots_ok_def Let_def ranked_def ClearUploadBlockRequests_def SetUploadState_def)
    then show ?thesis using ok1 c1 False b r(3) w1 by (simp add: w')
  qed
  then show "slots_ok w'" "c \<notin> set (uq_waiting (wd_queue w'))" "c \<notin> set (uq_uploading (wd_queue w'))"
    "snd (RemoveFromUploadQueue c w) \<longleftrightarrow> IsUploading w c \<or> IsOnUploadQueue w c"
    "set (uq_uploading (wd_queue w')) \<subseteq> set (uq_uploading (wd_queue w))" by blast+
qed


lemma state_SetUploadState [simp]: "pn_uploadState (SetUploadState s p) = s"
  by (simp add: SetUploadState_def Let_def)

text \<open>The fields other setters leave alone.\<close>

lemma setters_keep [simp]:
  "pn_uploadState (SetUploadAddNextConnect v p) = pn_uploadState p"
  "pn_uploadQueueRank (SetUploadAddNextConnect v p) = pn_uploadQueueRank p"
  "pn_uploadState (ClearUploadWaitStart p) = pn_uploadState p"
  "pn_uploadQueueRank (ClearUploadWaitStart p) = pn_uploadQueueRank p"
  "pn_uploadState (SetUploadWaitStart t p) = pn_uploadState p"
  "pn_uploadQueueRank (SetUploadWaitStart t p) = pn_uploadQueueRank p"
  "pn_uploadState (SetUploadStartTime t p) = pn_uploadState p"
  "pn_uploadState (ResetUploadSession p) = pn_uploadState p"
  "pn_uploadState (SetUploadQueueRank r p) = pn_uploadState p"
  by (simp_all add: SetUploadAddNextConnect_def ClearUploadWaitStart_def SetUploadWaitStart_def
      SetUploadStartTime_def ResetUploadSession_def SetUploadQueueRank_def)

lemma upd_conn_ok:
  "slots_ok w \<Longrightarrow> pn_uploadState (f (wd_conns w c)) = state_of w c \<Longrightarrow>
     pn_uploadQueueRank (f (wd_conns w c)) = rank_of w c \<Longrightarrow> slots_ok (upd_conn c f w)"
  by (erule slots_ok_cong) simp_all

lemma grant_ok:
  assumes "slots_ok w" and "c \<notin> set (uq_waiting (wd_queue w))" and "length (uq_uploading (wd_queue w)) < maxUploading"
  shows "slots_ok (grant c w)" and "uq_waiting (wd_queue (grant c w)) = uq_waiting (wd_queue w)"
proof -
  have "slots_ok (grant c w) \<and> uq_waiting (wd_queue (grant c w)) = uq_waiting (wd_queue w)"
  proof (cases "IsUploading w c")
    case True
    with assms(1) show ?thesis by (simp add: grant_def)
  next
    case False
    define w1 where "w1 = upd_conn c (\<lambda>p. ResetUploadSession (SetUploadStartTime (wd_now w) (SetUploadAddNextConnect False
                   (SetUploadQueueRank 0 (SetUploadState UploadStateUploading p))))) w"
    define w2 where "w2 = upd_queue (\<lambda>q. q\<lparr>uq_uploading := uq_uploading q @ [c], uq_lastSlotHighID := \<not> lowID w1 c\<rparr>) w1"
    have g: "grant c w = (if co_socket (wd_conns w2 c) then SendAcceptUpload c w2 else w2)"
      using False by (simp add: grant_def Let_def w1_def w2_def)
    have st: "state_of w2 d = (if d = c then UploadStateUploading else state_of w d)"
      "d \<noteq> c \<Longrightarrow> rank_of w2 d = rank_of w d" for d
      by (simp_all add: w2_def w1_def)
    have q2: "uq_waiting (wd_queue w2) = uq_waiting (wd_queue w)"
      "uq_uploading (wd_queue w2) = uq_uploading (wd_queue w) @ [c]"
      by (simp_all add: w2_def w1_def)
    have "ranked w2"
      using assms(1,2) st(2) by (auto simp: ranked_def q2 slots_ok_def Let_def) (metis nth_mem)
    moreover have "state_of w2 d = UploadStateOnQueue" if "d \<in> set (uq_waiting (wd_queue w))" for d
      using that assms(1,2) by (auto simp: st slots_ok_def Let_def)
    ultimately have "slots_ok w2"
      using assms False by (auto simp: slots_ok_def Let_def q2 st(1) IsUploading_def)
    then show ?thesis using q2 by (simp add: g SendAcceptUpload_def send_ok)
  qed
  then show "slots_ok (grant c w)" "uq_waiting (wd_queue (grant c w)) = uq_waiting (wd_queue w)" by blast+
qed

lemma next_client_frame:
  "next_client cs w = (w', r) \<Longrightarrow>
     wd_queue w' = wd_queue w \<and> (\<forall>c. state_of w' c = state_of w c) \<and> (\<forall>c. rank_of w' c = rank_of w c) \<and>
     (\<forall>c. r = Some c \<longrightarrow> c \<in> set cs)"
  by (induction cs w rule: next_client.induct) (auto split: if_splits)

lemma addUpNextClient_ok:
  assumes ok: "slots_ok w" and room: "length (uq_uploading (wd_queue w)) < maxUploading"
    and "\<And>c. direct = Some c \<Longrightarrow> c \<notin> set (uq_waiting (wd_queue w))"
  shows "slots_ok (addUpNextClient direct w)"
proof (cases direct)
  case (Some c)
  with grant_ok(1) [OF ok assms(3) room] show ?thesis by (simp add: addUpNextClient_def)
next
  case None
  obtain w1 r where n: "next_client (uq_waiting (wd_queue w)) w = (w1, r)"
    by (cases "next_client (uq_waiting (wd_queue w)) w")
  note f = next_client_frame [OF n]
  have ok1: "slots_ok w1" using ok f by (auto elim: slots_ok_cong)
  show ?thesis
  proof (cases r)
    case None': None
    then show ?thesis using ok1 n None by (simp add: addUpNextClient_def)
  next
    case (Some c)
    let ?w2 = "recomputeRanks (upd_queue (\<lambda>q. q\<lparr>uq_waiting := remove1 c (uq_waiting q)\<rparr>) w1)"
    have d: "distinct (uq_waiting (wd_queue w1))" using ok1 by (simp add: slots_ok_def Let_def)
    have "ranked ?w2" by (rule recomputeRanks_ranked) (simp add: d)
    then have ok2: "slots_ok ?w2"
      using ok1 d by (auto simp: slots_ok_def Let_def dest: notin_set_remove1)
    have "slots_ok (grant c ?w2)"
      by (rule grant_ok(1) [OF ok2]) (use d room f in simp_all)
    then show ?thesis using n None Some by (simp add: addUpNextClient_def)
  qed
qed

lemma sortWaiting_ok:
  assumes "distinct (uq_waiting (wd_queue w))"
  shows "wd_queue (sortWaiting w) = (wd_queue w)\<lparr>uq_waiting := sort_by (\<lambda>a b. waits_before w a b < 0) (uq_waiting (wd_queue w)),
      uq_lastSort := wd_now w\<rparr>"
    and "state_of (sortWaiting w) c = state_of w c" and "ranked (sortWaiting w)"
proof -
  let ?w = "upd_queue (\<lambda>q. q\<lparr>uq_waiting := sort_by (\<lambda>a b. waits_before w a b < 0) (uq_waiting (wd_queue w)),
      uq_lastSort := wd_now w\<rparr>) (touch_credits w)"
  have s: "sortWaiting w = recomputeRanks ?w" by (simp add: sortWaiting_def Let_def)
  show "wd_queue (sortWaiting w) = (wd_queue w)\<lparr>uq_waiting := sort_by (\<lambda>a b. waits_before w a b < 0) (uq_waiting (wd_queue w)),
      uq_lastSort := wd_now w\<rparr>" by (simp add: s)
  show "state_of (sortWaiting w) c = state_of w c" by (simp add: s)
  show "ranked (sortWaiting w)" unfolding s by (rule recomputeRanks_ranked) (simp add: assms)
qed

lemma enslots_ok:
  assumes "slots_ok w" and "c \<notin> set (uq_waiting (wd_queue w))" and "c \<notin> set (uq_uploading (wd_queue w))"
  shows "slots_ok (enqueue c w)" and "uq_uploading (wd_queue (enqueue c w)) = uq_uploading (wd_queue w)"
proof -
  define w1 where "w1 = upd_conn c (\<lambda>p. SetUploadState UploadStateOnQueue (SetUploadWaitStart (wd_now w) p)) w"
  define w2 where "w2 = upd_queue (\<lambda>q. q\<lparr>uq_waiting := uq_waiting q @ [c]\<rparr>) w1"
  have q: "uq_waiting (wd_queue w2) = uq_waiting (wd_queue w) @ [c]" "uq_uploading (wd_queue w2) = uq_uploading (wd_queue w)"
    by (simp_all add: w2_def w1_def)
  have d: "distinct (uq_waiting (wd_queue w2))" using assms by (simp add: q slots_ok_def Let_def)
  have st: "state_of w2 e = (if e = c then UploadStateOnQueue else state_of w e)" for e by (simp add: w2_def w1_def)
  note s = sortWaiting_ok [OF d]
  have "slots_ok (sortWaiting w2)"
    using assms s(3) by (auto simp: slots_ok_def Let_def s(1,2) q st)
  then show "slots_ok (enqueue c w)"
    by (simp add: enqueue_def Let_def SendQueueRanking_def send_ok flip: w1_def w2_def)
  show "uq_uploading (wd_queue (enqueue c w)) = uq_uploading (wd_queue w)"
    by (simp add: enqueue_def Let_def SendQueueRanking_def s(1) q flip: w1_def w2_def)
qed

lemma room: "slots_ok w \<Longrightarrow> int (length (uq_uploading (wd_queue w))) < maxSlots w + (if b then 1 else 0) \<Longrightarrow>
   length (uq_uploading (wd_queue w)) < maxUploading"
  using maxSlots_bound(1) [of w] by (auto simp: maxUploading_def split: if_splits)

lemma upd_slots_ok:
  "slots_ok w \<Longrightarrow> (\<And>q. uq_waiting (f q) = uq_waiting q \<and> uq_uploading (f q) = uq_uploading q) \<Longrightarrow> slots_ok (upd_queue f w)"
  by (erule slots_ok_cong) simp_all

lemma maxSlots_cong:
  "wd_settings w' = wd_settings w \<Longrightarrow> wd_accumulator w' = wd_accumulator w \<Longrightarrow> maxSlots w' = maxSlots w"
  by (simp only: maxSlots_def)

lemma AddClientToQueue_ok:
  assumes "slots_ok w"
  shows "slots_ok (AddClientToQueue c w)"
proof (cases "co_disconnecting (wd_conns w c)")
  case True
  with assms show ?thesis by (simp add: AddClientToQueue_def)
next
  case connected: False
  define w1 where "w1 = upd_conn c (\<lambda>p. p\<lparr>pn_lastUploadRequest := wd_now w\<rparr>) w"
  have ok1: "slots_ok w1" unfolding w1_def by (rule upd_conn_ok [OF assms]) simp_all
  let ?p = "wd_conns w1 c" and ?q = "wd_queue w1"
  show ?thesis
  proof (cases "IsOnUploadQueue w1 c")
    case waiting: True
    let ?w2 = "upd_conn c (SetUploadAddNextConnect False) w1"
    have ok2: "slots_ok ?w2" by (rule upd_conn_ok [OF ok1]) simp_all
    note r = RemoveFromWaitingQueue_ok [OF ok2, of c]
    let ?slots = "maxSlots w1 + (if pn_uploadAddNext ?p \<and> uq_lastSlotHighID ?q then 1 else 0)"
    have next_ok: "slots_ok (addUpNextClient (Some c) (fst (RemoveFromWaitingQueue c ?w2)))"
      if "int (length (uq_uploading ?q)) < ?slots"
      using addUpNextClient_ok [OF r(1), of "Some c"] r(2,3) room [OF ok1 that] by simp
    have eq: "AddClientToQueue c w =
       (if pn_uploadAddNext ?p \<and> int (length (uq_uploading ?q)) < ?slots
        then upd_queue (\<lambda>q. q\<lparr>uq_lastSlotHighID := False\<rparr>) (addUpNextClient (Some c) (fst (RemoveFromWaitingQueue c ?w2)))
        else SendQueueRanking c (pn_uploadQueueRank ?p) w1)"
      unfolding AddClientToQueue_def w1_def [symmetric] Let_def using connected waiting by simp
    show ?thesis
      unfolding eq using next_ok ok1 by (auto simp: SendQueueRanking_def send_ok intro!: upd_slots_ok)
  next
    case out: False
    let ?w2 = "upd_conn c ClearUploadWaitStart w1"
    have ok2: "slots_ok ?w2" by (rule upd_conn_ok [OF ok1]) simp_all
    have out2: "c \<notin> set (uq_waiting (wd_queue ?w2))" using out by (simp add: IsOnUploadQueue_def)
    have m: "maxSlots ?w2 = maxSlots w1" by (rule maxSlots_cong) simp_all
    have direct: "slots_ok (addUpNextClient (Some c) ?w2)" if "int (length (uq_uploading ?q)) < maxSlots w1"
      using addUpNextClient_ok [OF ok2, of "Some c"] out2 room [OF ok1, of False] that by simp
    have wait: "slots_ok (enqueue c ?w2)" if "\<not> IsUploading w1 c"
      using enslots_ok(1) [OF ok2 out2] that by (simp add: IsUploading_def)
    show ?thesis
      unfolding AddClientToQueue_def w1_def [symmetric] Let_def
      using connected out ok1 direct wait
      by (auto simp: SendAcceptUpload_def send_ok m split: option.split intro!: upd_slots_ok)
  qed
qed

lemma suspend_client_ok:
  "slots_ok w \<Longrightarrow> slots_ok (fst (suspend_client h terminate c (w, n)))"
  using RemoveFromUploadQueue_ok(1-3) [of w c] enslots_ok(1) [of "fst (RemoveFromUploadQueue c w)" c]
  by (simp add: suspend_client_def Let_def split: option.split)

lemma SuspendUpload_ok: "slots_ok w \<Longrightarrow> slots_ok (fst (SuspendUpload h terminate w))"
proof -
  assume ok: "slots_ok w"
  have "slots_ok (fst (fold (suspend_client h terminate) cs (v, n)))" if "slots_ok v" for cs v n
    using that
  proof (induction cs arbitrary: v n)
    case (Cons c cs)
    obtain v' n' where s: "suspend_client h terminate c (v, n) = (v', n')"
      by (cases "suspend_client h terminate c (v, n)")
    then have "slots_ok v'" using suspend_client_ok [OF Cons.prems, of h terminate c n] by simp
    from Cons.IH [OF this] s show ?case by simp
  qed simp
  moreover have "slots_ok (upd_queue (\<lambda>q. q\<lparr>uq_suspended := List.insert (hash_String h) (uq_suspended q)\<rparr>) w)"
    by (rule upd_slots_ok [OF ok]) simp
  ultimately show ?thesis using ok by (simp add: SuspendUpload_def Let_def)
qed

lemma CheckForTimeOver_ok: "slots_ok w \<Longrightarrow> slots_ok (fst (CheckForTimeOver c w))"
  by (auto simp: CheckForTimeOver_def Let_def intro!: upd_slots_ok)

end
