(* ===== verification/Peer_Uploads.thy ===== *)
theory Peer_Uploads
  imports Upload_Queue "HOL-Library.Monad_Syntax"
begin

unbundle bit_operations_syntax

text \<open>
  What a peer connection sends and how it serves uploads (\<^verbatim>\<open>peer_connection.go\<close>, with
  \<^verbatim>\<open>AttachIncomingPeer\<close> of \<^verbatim>\<open>transfer.go\<close>), and the round of the upload queue that
  makes it send. \<open>None\<close> is a panic. A peer pointer is a position in the list of its transfer's
  policy, as the code's pointers into the slice are until the slice moves.
\<close>

section \<open>Greetings\<close>

text \<open>\<^verbatim>\<open>filepath.Base\<close>, and the name and path of a transfer.\<close>

definition path_Base :: "string \<Rightarrow> string" where
  "path_Base path =
     (if path = [] then ''.''
      else
        (let trimmed = rev (dropWhile (\<lambda>c. c = CHR ''/'') (rev path))
         in if trimmed = [] then ''/'' else rev (takeWhile (\<lambda>c. c \<noteq> CHR ''/'') (rev trimmed))))"

definition GetFilePath :: "Transfer \<Rightarrow> string" where
  "GetFilePath t =
     (if t_filePath t \<noteq> [] then t_filePath t
      else (case t_pm t of Some pm \<Rightarrow> fh_path (pm_handler pm) | None \<Rightarrow> []))"

definition FileName :: "Transfer \<Rightarrow> string" where
  "FileName t = (let path = GetFilePath t in if path = [] then hash_String (t_hash t) else path_Base path)"

definition PrepareHelloAnswer :: "World \<Rightarrow> HelloAnswer" where
  "PrepareHelloAnswer w =
     (let s = wd_settings w;
          mo = hello_options\<lparr>mo_DataCompVer := set_CompressionVersion s\<rparr>;
          mo2 = SetSourceExt2 (SetLargeFiles (SetCaptcha 0));
          software = shl 3 24 OR shl (set_ModMajor s AND 0x7f) 17 OR shl (set_ModMinor s AND 0x7f) 10 OR
                     shl (set_ModBuild s AND 0x7f) 7
      in \<lparr>ha_Hash = set_UserAgent s, ha_Point = NewEndpoint (wd_clientID w) (set_ListenPort s),
          ha_Properties =
            [NewStringTag 0x01 (str (set_ClientName s)), NewStringTag 0x55 (str (set_ModName s)),
             NewUInt32Tag 0x11 (word_of_int (set_Version s)), NewUInt32Tag 0xF9 0,
             NewUInt32Tag 0xFB (word_of_int software), NewUInt32Tag 0xFA (word_of_int (mo_IntValue mo)),
             NewUInt32Tag 0xFE (word_of_int mo2)],
          ha_ServerPoint = NewEndpoint 0 0\<rparr>)"

definition PrepareHello :: "World \<Rightarrow> Hello" where
  "PrepareHello w = \<lparr>hello_HashLength = 16, hello_HelloAnswer = PrepareHelloAnswer w\<rparr>"

definition OnConnect :: "nat \<Rightarrow> World \<Rightarrow> World" where
  "OnConnect c w = send_packet c (CHello (PrepareHello w)) w"

text \<open>
  \<open>resolve\<close> is what \<^verbatim>\<open>ToTCPAddr\<close> says of the endpoint and \<open>dial\<close> what dialling does: an
  error or success.
\<close>

definition pn_Connect :: "string option \<Rightarrow> string option \<Rightarrow> nat \<Rightarrow> World \<Rightarrow> World \<times> string option" where
  "pn_Connect resolve dial c w =
     (case resolve of
        Some e \<Rightarrow> (w, Some e)
      | None \<Rightarrow>
          (let (p, err) = co_Connect (wd_now w) dial (wd_conns w c);
               w = upd_conn c (\<lambda>_. p) w
           in case err of Some e \<Rightarrow> (w, Some e) | None \<Rightarrow> (OnConnect c w, None)))"

definition SendExtHelloAnswer :: "nat \<Rightarrow> World \<Rightarrow> World" where
  "SendExtHelloAnswer c w =
     send_packet c (CExtHelloAnswer
       \<lparr>eh_Version = 0x10, eh_ProtocolVersion = 0x01,
        eh_Properties =
          [NewUInt32Tag 0x20 0, NewUInt32Tag 0x21 0, NewUInt32Tag 0x22 0, NewUInt32Tag 0x23 0,
           NewUInt32Tag 0x24 0, NewUInt32Tag 0x25 0, NewUInt32Tag 0x26 3, NewUInt32Tag 0x27 0,
           NewUInt32Tag 0x55 (word_of_int (set_Version (wd_settings w)))]\<rparr>) w"

definition greeted :: "HelloAnswer \<Rightarrow> nat \<Rightarrow> World \<Rightarrow> World" where
  "greeted v c w =
     upd_conn c (\<lambda>p. p\<lparr>pn_remoteHash := ha_Hash v, pn_friendSlot := IsFriendSlot (ha_Hash v) w,
       pn_endpoint := (if ep_Defined (ha_Point v) then ha_Point v else pn_endpoint p)\<rparr>) w"

section \<open>Packets\<close>

definition SendFileRequest :: "hash \<Rightarrow> nat \<Rightarrow> World \<Rightarrow> World" where
  "SendFileRequest h c w = send_packet c (CFileRequest \<lparr>freq_Hash = h\<rparr>) w"

definition SendFileAnswer :: "Transfer \<Rightarrow> nat \<Rightarrow> World \<Rightarrow> World" where
  "SendFileAnswer t c w =
     send_packet c (CFileAnswer \<lparr>fans_Hash = t_hash t, fans_Name = \<lparr>bc_Value = str (path_Base (FileName t))\<rparr>\<rparr>) w"

definition SendFileStatusRequest :: "hash \<Rightarrow> nat \<Rightarrow> World \<Rightarrow> World" where
  "SendFileStatusRequest h c w = send_packet c (CFileStatusRequest \<lparr>fsreq_Hash = h\<rparr>) w"

definition SendFileStatusAnswer :: "Transfer \<Rightarrow> nat \<Rightarrow> World \<Rightarrow> World option" where
  "SendFileStatusAnswer t c w =
     (case AvailablePieces t of
        Inl e \<Rightarrow> None
      | Inr bits \<Rightarrow> Some (send_packet c (CFileStatusAnswer \<lparr>fsans_Hash = t_hash t, fsans_BitField = bits\<rparr>) w))"

definition SendHashSetRequest :: "hash \<Rightarrow> nat \<Rightarrow> World \<Rightarrow> World" where
  "SendHashSetRequest h c w = send_packet c (CHashSetRequest \<lparr>hsreq_Hash = h\<rparr>) w"

definition SendHashSetAnswer :: "Transfer \<Rightarrow> nat \<Rightarrow> World \<Rightarrow> World" where
  "SendHashSetAnswer t c w =
     (if UploadHashSet t = [] then w
      else send_packet c (CHashSetAnswer \<lparr>hsans_Hash = t_hash t, hsans_Parts = UploadHashSet t\<rparr>) w)"

definition SendStartUpload :: "hash \<Rightarrow> nat \<Rightarrow> World \<Rightarrow> World" where
  "SendStartUpload h c w = send_packet c (CStartUpload \<lparr>startup_Hash = h\<rparr>) w"

definition SendOutOfParts :: "nat \<Rightarrow> World \<Rightarrow> World" where
  "SendOutOfParts c w = send_packet c COutOfParts w"

definition SendCancelTransfer :: "nat \<Rightarrow> World \<Rightarrow> World" where
  "SendCancelTransfer c w = send_packet c CCancelTransfer w"

definition SendRequestParts32 :: "RequestParts32 \<Rightarrow> nat \<Rightarrow> World \<Rightarrow> World" where
  "SendRequestParts32 r c w = send_packet c (CRequestParts32 r) w"

definition SendRequestParts64 :: "RequestParts64 \<Rightarrow> nat \<Rightarrow> World \<Rightarrow> World" where
  "SendRequestParts64 r c w = send_packet c (CRequestParts64 r) w"

section \<open>Sending data\<close>

definition upload_credit :: "nat \<Rightarrow> int \<Rightarrow> World \<Rightarrow> World" where
  "upload_credit c n w = w\<lparr>wd_credits := AddUploaded (pn_remoteHash (wd_conns w c)) n (wd_credits w)\<rparr>"

text \<open>The packet of a part, for files of at most \<open>2 ^ 32 - 1\<close> bytes and for others.\<close>

definition part_packet :: "Transfer \<Rightarrow> int \<Rightarrow> int \<Rightarrow> ClientPacket" where
  "part_packet t begin end =
     (if t_size t \<le> 2 ^ 32 - 1
      then CSendingPart32 \<lparr>sp32_Hash = t_hash t, sp32_BeginOffset = word_of_int begin, sp32_EndOffset = word_of_int end\<rparr>
      else CSendingPart64 \<lparr>sp64_Hash = t_hash t, sp64_BeginOffset = word_of_int begin, sp64_EndOffset = word_of_int end\<rparr>)"

definition SendPart :: "int \<Rightarrow> int \<Rightarrow> bytes \<Rightarrow> nat \<Rightarrow> World \<Rightarrow> World \<times> bool" where
  "SendPart begin end payload c w =
     (case conn_transfer w c of
        None \<Rightarrow> (w, False)
      | Some t \<Rightarrow>
          if begin < 0 \<or> end \<le> begin \<or> int (length payload) \<noteq> end - begin then (w, False)
          else
            (let packet = part_packet t begin end
             in case pc_PackPayload client_NewPacketCombiner (typeName_client packet) (put_client packet) payload of
                  Inl e \<Rightarrow> (w, False)
                | Inr (raw, protoSize) \<Rightarrow>
                    (upload_credit c (int (length payload))
                      (upd_conn c (QueuePacketWithStats raw (int protoSize) (int (length payload))) w), True)))"

text \<open>
  The loop of \<open>SendBlockData\<close>: parts of \<open>packetSize\<close> bytes, the last of less than twice that.
\<close>

definition first_packetSize :: "nat \<Rightarrow> nat" where
  "first_packetSize togo = (if togo > 10240 then togo div (togo div 10240) else togo)"

definition next_packetSize :: "nat \<Rightarrow> nat \<Rightarrow> nat" where
  "next_packetSize packetSize togo = (if togo < packetSize * 2 then togo else packetSize)"

function send_parts :: "nat \<Rightarrow> int \<Rightarrow> bytes \<Rightarrow> nat \<Rightarrow> World \<Rightarrow> World \<times> bool" where
  "send_parts packetSize offset payload c w =
     (if payload = [] \<or> packetSize = 0 then (w, True)
      else
        (let n = next_packetSize packetSize (length payload);
             (w, sent) = SendPart offset (offset + int n) (take n payload) c w
         in if \<not> sent then (w, False) else send_parts n (offset + int n) (drop n payload) c w))"
  by pat_completeness auto
termination
  by (relation "measure (\<lambda>(_, _, payload, _, _). length payload)") (auto simp: next_packetSize_def)

declare send_parts.simps [simp del]

definition SendOutOfPartReqsAndAddToWaitingQueue :: "nat \<Rightarrow> World \<Rightarrow> World" where
  "SendOutOfPartReqsAndAddToWaitingQueue c w =
     AddClientToQueue c (upd_conn c ClearUploadBlockRequests (SendOutOfParts c w))"

text \<open>\<open>io\<close> is what the disk does when the range is read.\<close>

definition send_block :: "io \<Rightarrow> RequestedUploadBlock \<Rightarrow> nat \<Rightarrow> nat \<Rightarrow> World \<Rightarrow> World option" where
  "send_block io current t c w =
     (case CanUploadRange (ub_Begin current) (ub_End current) (wd_transfers w t) of
        None \<Rightarrow> None
      | Some False \<Rightarrow> Some (SendOutOfPartReqsAndAddToWaitingQueue c w)
      | Some True \<Rightarrow>
          (case t_ReadRange io (ub_Begin current) (ub_End current) (wd_transfers w t) of
             (tr, Inl err) \<Rightarrow> Some (fst (RemoveFromUploadQueue c (upd_transfer t (\<lambda>_. tr) w)))
           | (tr, Inr payload) \<Rightarrow>
               (let w = upd_transfer t (\<lambda>_. tr) w
                in if payload = [] then Some w
                   else (case send_parts (first_packetSize (length payload)) (ub_Begin current) payload c w of
                           (w, False) \<Rightarrow> Some (fst (RemoveFromUploadQueue c w))
                         | (w, True) \<Rightarrow>
                             Some (upd_conn c (\<lambda>p. p\<lparr>pn_uploadDone := pn_uploadDone p @
                               [current\<lparr>ub_Transferred := ub_End current - ub_Begin current\<rparr>]\<rparr>) w)))))"

definition SendBlockData :: "io \<Rightarrow> nat \<Rightarrow> World \<Rightarrow> World option" where
  "SendBlockData io c w =
     (if pn_uploadState (wd_conns w c) \<noteq> UploadStateUploading then Some w
      else
        (case CheckForTimeOver c w of
           (w, True) \<Rightarrow> Some (SendOutOfPartReqsAndAddToWaitingQueue c (fst (RemoveFromUploadQueue c w)))
         | (w, False) \<Rightarrow>
             (case (pn_uploadBlocks (wd_conns w c), pn_transfer (wd_conns w c)) of
                (current # blocks, Some t) \<Rightarrow> send_block io current t c (upd_conn c (\<lambda>p. p\<lparr>pn_uploadBlocks := blocks\<rparr>) w)
              | _ \<Rightarrow> Some w)))"

text \<open>One round: a slot is given, then every client with one sends a block. The disk, by client.\<close>

definition serve_client :: "(nat \<Rightarrow> io) \<Rightarrow> nat \<Rightarrow> World \<Rightarrow> World option" where
  "serve_client io c w =
     (if co_disconnecting (wd_conns w c) \<or> \<not> co_socket (wd_conns w c) then Some (fst (RemoveFromUploadQueue c w))
      else SendBlockData (io c) c w)"

fun serve_clients :: "(nat \<Rightarrow> io) \<Rightarrow> nat list \<Rightarrow> World \<Rightarrow> World option" where
  "serve_clients io [] w = Some w"
| "serve_clients io (c # cs) w = serve_client io c w \<bind> serve_clients io cs"

definition open_slot :: "World \<Rightarrow> World" where
  "open_slot w =
     (let q = wd_queue w
      in if uq_waiting q = [] \<or> wd_now w - uq_lastStartUpload q < Seconds 1
         then upd_queue (\<lambda>q. q\<lparr>uq_allowKicking := False\<rparr>) w
         else if int (length (uq_uploading q)) < maxSlots w
         then addUpNextClient None (upd_queue (\<lambda>q. q\<lparr>uq_allowKicking := False, uq_lastStartUpload := wd_now w\<rparr>) w)
         else upd_queue (\<lambda>q. q\<lparr>uq_allowKicking := True\<rparr>) w)"

definition uq_Process :: "(nat \<Rightarrow> io) \<Rightarrow> World \<Rightarrow> World option" where
  "uq_Process io w =
     (let w = open_slot w
      in serve_clients io (uq_uploading (wd_queue w)) w \<bind>
           (\<lambda>w. Some (if wd_now w - uq_lastSort (wd_queue w) > Minutes 2 then sortWaiting w else w)))"

section \<open>Requests of the peer\<close>

text \<open>The result is the error of the operation.\<close>

definition AttachIncomingPeer :: "nat \<Rightarrow> nat \<Rightarrow> World \<Rightarrow> (World \<times> JED2KError option) option" where
  "AttachIncomingPeer t c w =
     (let tr = wd_transfers w t
      in if t_abort tr then Some (w, Some (NewError TransferAborted))
         else if c \<in> set (t_connections tr) then Some (upd_conn c (\<lambda>p. p\<lparr>pn_transfer := Some t\<rparr>) w, None)
         else
           (let (rnd, w) = next_random w
            in case NewConnection rnd c (pn_endpoint (wd_conns w c)) (t_policy tr) of
                 None \<Rightarrow> None
               | Some (po, Inl e) \<Rightarrow> Some (upd_transfer t (\<lambda>tr. tr\<lparr>t_policy := po\<rparr>) w, Some e)
               | Some (po, Inr i) \<Rightarrow>
                   Some (upd_conn c (\<lambda>p. p\<lparr>pn_transfer := Some t, pn_peerInfo := Some i\<rparr>)
                     (upd_transfer t (\<lambda>tr. tr\<lparr>t_policy := po, t_connections := t_connections tr @ [c]\<rparr>) w), None)))"

definition attach_other :: "hash \<Rightarrow> nat \<Rightarrow> World \<Rightarrow> (World \<times> nat option) option" where
  "attach_other h c w =
     (case LookupTransfer h w of
        None \<Rightarrow> Some (w, None)
      | Some t \<Rightarrow>
          if \<not> CanUpload (wd_transfers w t) then Some (w, None)
          else (case AttachIncomingPeer t c w of
                  None \<Rightarrow> None
                | Some (w, Some e) \<Rightarrow> Some (w, None)
                | Some (w, None) \<Rightarrow> Some (w, Some t)))"

definition attachTransferByHash :: "hash \<Rightarrow> nat \<Rightarrow> World \<Rightarrow> (World \<times> nat option) option" where
  "attachTransferByHash h c w =
     (if (case conn_transfer w c of Some t \<Rightarrow> hash_Equal (t_hash t) h | None \<Rightarrow> False)
      then Some (w, pn_transfer (wd_conns w c))
      else attach_other h c w)"

definition HandleHelloAnswer :: "HelloAnswer \<Rightarrow> nat \<Rightarrow> World \<Rightarrow> World" where
  "HandleHelloAnswer v c w =
     (let w = greeted v c w
      in case conn_transfer w c of None \<Rightarrow> w | Some t \<Rightarrow> SendFileRequest (t_hash t) c w)"

definition HandleClientHello :: "Hello \<Rightarrow> nat \<Rightarrow> World \<Rightarrow> World" where
  "HandleClientHello v c w =
     (let w = greeted (hello_HelloAnswer v) c w in send_packet c (CHelloAnswer (PrepareHelloAnswer w)) w)"

definition close_conn :: "ErrorCode \<Rightarrow> nat \<Rightarrow> World \<Rightarrow> World" where
  "close_conn ec c w = upd_conn c (co_Close ec) w"

definition HandleClientFileRequest :: "FileRequest \<Rightarrow> nat \<Rightarrow> World \<Rightarrow> World option" where
  "HandleClientFileRequest v c w =
     (case attachTransferByHash (freq_Hash v) c w of
        None \<Rightarrow> None
      | Some (w, None) \<Rightarrow> Some (close_conn NoTransfer c w)
      | Some (w, Some t) \<Rightarrow> Some (SendFileAnswer (wd_transfers w t) c w))"

definition HandleClientFileStatusRequest :: "FileStatusRequest \<Rightarrow> nat \<Rightarrow> World \<Rightarrow> World option" where
  "HandleClientFileStatusRequest v c w =
     (case attachTransferByHash (fsreq_Hash v) c w of
        None \<Rightarrow> None
      | Some (w, None) \<Rightarrow> Some (send_packet c (CNoFileStatus \<lparr>nofile_Hash = replicate 16 0\<rparr>) w)
      | Some (w, Some t) \<Rightarrow> SendFileStatusAnswer (wd_transfers w t) c w)"

definition HandleClientHashSetRequest :: "HashSetRequest \<Rightarrow> nat \<Rightarrow> World \<Rightarrow> World option" where
  "HandleClientHashSetRequest v c w =
     (case attachTransferByHash (hsreq_Hash v) c w of
        None \<Rightarrow> None
      | Some (w, None) \<Rightarrow> Some (close_conn NoTransfer c w)
      | Some (w, Some t) \<Rightarrow>
          if UploadHashSet (wd_transfers w t) = [] then Some (close_conn WrongHashSet c w)
          else Some (SendHashSetAnswer (wd_transfers w t) c w))"

definition HandleClientStartUpload :: "StartUpload \<Rightarrow> nat \<Rightarrow> World \<Rightarrow> World option" where
  "HandleClientStartUpload v c w =
     (case attachTransferByHash (startup_Hash v) c w of
        None \<Rightarrow> None
      | Some (w, None) \<Rightarrow> Some (SendQueueRanking c 1 w)
      | Some (w, Some t) \<Rightarrow>
          if \<not> CanUpload (wd_transfers w t) then Some (SendQueueRanking c 1 w) else Some (AddClientToQueue c w))"

definition HandleClientCancelTransfer :: "nat \<Rightarrow> World \<Rightarrow> World" where
  "HandleClientCancelTransfer c w = fst (RemoveFromUploadQueue c w)"

text \<open>The error of reading the range or of sending the part is a flag here.\<close>

definition handleUploadRange :: "io \<Rightarrow> int \<Rightarrow> int \<Rightarrow> nat \<Rightarrow> World \<Rightarrow> (World \<times> bool) option" where
  "handleUploadRange io begin end c w =
     (case pn_transfer (wd_conns w c) of
        None \<Rightarrow> Some (SendOutOfParts c w, True)
      | Some t \<Rightarrow>
          (case CanUploadRange begin end (wd_transfers w t) of
             None \<Rightarrow> None
           | Some False \<Rightarrow> Some (SendOutOfParts c w, True)
           | Some True \<Rightarrow>
               (let (tr, r) = t_ReadRange io begin end (wd_transfers w t);
                    w = upd_transfer t (\<lambda>_. tr) w
                in case r of Inl e \<Rightarrow> Some (w, False) | Inr payload \<Rightarrow> Some (SendPart begin end payload c w))))"

text \<open>The ranges of a request, up to the first that cannot be cut into pieces.\<close>

fun add_ranges :: "(int \<times> int) list \<Rightarrow> int \<Rightarrow> PeerConnection \<Rightarrow> PeerConnection \<times> go_error option" where
  "add_ranges [] fsize p = (p, None)"
| "add_ranges ((begin, end) # ranges) fsize p =
     (if end \<le> begin then add_ranges ranges fsize p
      else (case MakePeerRequests begin end fsize of
              Inl e \<Rightarrow> (p, Some e)
            | Inr reqs \<Rightarrow> add_ranges ranges fsize (fold AddUploadRequest reqs p)))"

definition handle_ranges :: "hash \<Rightarrow> (int \<times> int) list \<Rightarrow> nat \<Rightarrow> World \<Rightarrow> (World \<times> go_error option) option" where
  "handle_ranges h ranges c w =
     (case attachTransferByHash h c w of
        None \<Rightarrow> None
      | Some (w, None) \<Rightarrow> Some (SendOutOfParts c w, None)
      | Some (w, Some t) \<Rightarrow>
          (let (p, err) = add_ranges ranges (t_size (wd_transfers w t)) (wd_conns w c)
           in Some (upd_conn c (\<lambda>_. p) w, err)))"

text \<open>The slots in use of a request of three.\<close>

definition HandleClientRequestParts32 :: "RequestParts32 \<Rightarrow> nat \<Rightarrow> World \<Rightarrow> (World \<times> go_error option) option" where
  "HandleClientRequestParts32 v c w =
     handle_ranges (rp32_Hash v)
       (take (nat (rp32_CurrentFree v)) (zip (map uint (rp32_BeginOffset v)) (map uint (rp32_EndOffset v)))) c w"

definition HandleClientRequestParts64 :: "RequestParts64 \<Rightarrow> nat \<Rightarrow> World \<Rightarrow> (World \<times> go_error option) option" where
  "HandleClientRequestParts64 v c w =
     handle_ranges (rp64_Hash v)
       (take (nat (rp64_CurrentFree v)) (zip (map sint (rp64_BeginOffset v)) (map sint (rp64_EndOffset v)))) c w"

end
