(* ===== verification/Peer_Downloads.thy ===== *)
theory Peer_Downloads
  imports Peer_Uploads
begin

text \<open>
  How a peer connection downloads (\<^verbatim>\<open>peer_connection.go\<close>): it asks for blocks, takes their
  bytes out of the stream between the frames, and handles every packet of a frame. \<open>inflate\<close>
  is the inflation of a zlib stream. \<open>None\<close> is a panic.
\<close>

definition or_else :: "'a \<Rightarrow> 'a option \<Rightarrow> 'a" where
  "or_else d x = (case x of None \<Rightarrow> d | Some y \<Rightarrow> y)"

section \<open>Asking for blocks\<close>

definition RequestQueueSize :: nat where "RequestQueueSize = 3"

fun append_ranges32 :: "Range list \<Rightarrow> RequestParts32 \<Rightarrow> RequestParts32 option" where
  "append_ranges32 [] r = Some r"
| "append_ranges32 (rg # rgs) r = AppendRange32 r rg \<bind> append_ranges32 rgs"

fun append_ranges64 :: "Range list \<Rightarrow> RequestParts64 \<Rightarrow> RequestParts64 option" where
  "append_ranges64 [] r = Some r"
| "append_ranges64 (rg # rgs) r = AppendRange64 r rg \<bind> append_ranges64 rgs"

definition pn_transferRate :: "World \<Rightarrow> nat \<Rightarrow> int option" where
  "pn_transferRate w c = map_option (\<lambda>t. DownloadPayloadRate (t_stat t)) (conn_transfer w c)"

text \<open>The request for the blocks just put into the queue of downloads; none closes the connection.\<close>

definition ask_for :: "Transfer \<Rightarrow> PieceBlock list \<Rightarrow> nat \<Rightarrow> World \<Rightarrow> World option" where
  "ask_for t blocks c w =
     (let ranges = map (\<lambda>b. pb_Range b (t_size t)) blocks
      in if blocks = [] then Some (close_conn NoError c w)
         else if t_size t \<le> 2 ^ 32 - 1
         then map_option (\<lambda>r. SendRequestParts32 r c w)
                (append_ranges32 ranges \<lparr>rp32_Hash = t_hash t, rp32_CurrentFree = 0,
                   rp32_BeginOffset = [0, 0, 0], rp32_EndOffset = [0, 0, 0]\<rparr>)
         else map_option (\<lambda>r. SendRequestParts64 r c w)
                (append_ranges64 ranges \<lparr>rp64_Hash = t_hash t, rp64_CurrentFree = 0,
                   rp64_BeginOffset = [0, 0, 0], rp64_EndOffset = [0, 0, 0]\<rparr>))"

definition RequestBlocks :: "nat \<Rightarrow> World \<Rightarrow> World option" where
  "RequestBlocks c w =
     (let p = wd_conns w c
      in case pn_transfer p of
           None \<Rightarrow> Some w
         | Some t \<Rightarrow>
             if pn_transferringData p \<or> pn_downloadQueue p \<noteq> [] then Some w
             else
               (let (p, speed) = pn_Speed (pn_transferRate w c) p;
                    tr = wd_transfers w t;
                    (picker, blocks) = PickPiecesWithAvailability (pn_peerInfo p) speed (Some (pn_remotePieces p))
                      (int RequestQueueSize) (t_picker tr);
                    blocks = take RequestQueueSize blocks;
                    tr = tr\<lparr>t_picker := picker\<rparr>;
                    p = p\<lparr>pn_downloadQueue := map (\<lambda>b. NewPendingBlock (wd_now w) b (t_size tr)) blocks\<rparr>
                in ask_for tr blocks c (upd_conn c (\<lambda>_. p) (upd_transfer t (\<lambda>_. tr) w))))"

fun abort_blocks :: "PendingBlock list \<Rightarrow> peer_ref \<Rightarrow> PiecePicker \<Rightarrow> PiecePicker option" where
  "abort_blocks [] peer p = Some p"
| "abort_blocks (pb # pbs) peer p = AbortDownload (pk_Block pb) peer p \<bind> abort_blocks pbs peer"

definition AbortAllRequests :: "nat \<Rightarrow> World \<Rightarrow> World option" where
  "AbortAllRequests c w =
     (let p = wd_conns w c; clear = upd_conn c (\<lambda>p. p\<lparr>pn_downloadQueue := []\<rparr>)
      in case pn_transfer p of
           None \<Rightarrow> Some (clear w)
         | Some t \<Rightarrow>
             map_option (\<lambda>picker. clear (upd_transfer t (\<lambda>tr. tr\<lparr>t_picker := picker\<rparr>) w))
               (abort_blocks (pn_downloadQueue p) (pn_peerInfo p) (t_picker (wd_transfers w t))))"

section \<open>Receiving a block\<close>

text \<open>\<^verbatim>\<open>copy(buffer[offset:], payload)\<close>, which copies what fits.\<close>

definition copy_into :: "bytes \<Rightarrow> nat \<Rightarrow> bytes \<Rightarrow> bytes option" where
  "copy_into buffer offset payload =
     (if offset > length buffer then None
      else Some (take (length buffer) (take offset buffer @ payload @ drop (offset + length payload) buffer)))"

text \<open>A complete block keeps what it holds, inflated if it came compressed.\<close>

definition CompleteBlock :: "(bytes \<Rightarrow> bytes result) \<Rightarrow> bool \<Rightarrow> PendingBlock \<Rightarrow> (PendingBlock \<times> bool) option" where
  "CompleteBlock inflate compressed pb =
     (if pk_Received pb < pk_DataSize pb then Some (pb, False)
      else if \<not> compressed then Some (pb, True)
      else
        (let buffer = (case pk_Buffer pb of None \<Rightarrow> [] | Some b \<Rightarrow> b)
         in if pk_Received pb < 0 \<or> pk_Received pb > int (length buffer) then None
            else (case inflate (take (nat (pk_Received pb)) buffer) of
                    Inl e \<Rightarrow> Some (pb, True)
                  | Inr raw \<Rightarrow> Some (pb\<lparr>pk_Buffer := Some raw\<rparr>, True))))"

text \<open>
  Processing what is left of the stream, as long as it shrinks; \<open>process\<close> is
  \<open>ProcessIncoming\<close>.
\<close>

type_synonym process = "World \<Rightarrow> (World \<times> go_error option) option"

function continueBufferedIncoming :: "process \<Rightarrow> nat \<Rightarrow> World \<Rightarrow> World option" where
  "continueBufferedIncoming process c w =
     (let p = wd_conns w c
      in if pn_transferringData p \<or> co_incoming p = [] then Some w
         else (case process w of
                 None \<Rightarrow> None
               | Some (w', Some e) \<Rightarrow> Some (close_conn IOException c w')
               | Some (w', None) \<Rightarrow>
                   if co_incoming (wd_conns w' c) = [] \<or> IncomingBytes (wd_conns w' c) \<ge> IncomingBytes p then Some w'
                   else continueBufferedIncoming process c w'))"
  by pat_completeness auto
termination
  by (relation "measure (\<lambda>(_, c, w). IncomingBytes (wd_conns w c))") auto

declare continueBufferedIncoming.simps [simp del]

text \<open>What follows the data of a part: the next frames, and new requests.\<close>

definition data_done :: "process \<Rightarrow> nat \<Rightarrow> World \<Rightarrow> World option" where
  "data_done process c w =
     continueBufferedIncoming process c (upd_conn c (\<lambda>p. p\<lparr>pn_transferringData := False\<rparr>) w) \<bind> RequestBlocks c"

definition skipPendingData :: "process \<Rightarrow> nat \<Rightarrow> World \<Rightarrow> World option" where
  "skipPendingData process c w =
     (let p = wd_conns w c; remaining = pr_Length (pn_recvReq p) - pn_recvPos p
      in if remaining \<le> 0 then data_done process c w
         else
           (let (p, chunk) = ConsumeIncoming remaining p;
                p = p\<lparr>pn_recvPos := pn_recvPos p + int (length chunk)\<rparr>;
                w = upd_conn c (\<lambda>_. p) w
            in if pn_recvPos p \<ge> pr_Length (pn_recvReq p) then data_done process c w else Some w))"

definition download_credit :: "nat \<Rightarrow> int \<Rightarrow> World \<Rightarrow> World" where
  "download_credit c n w = w\<lparr>wd_credits := AddDownloaded (pn_remoteHash (wd_conns w c)) n (wd_credits w)\<rparr>"

text \<open>The last bytes of a part are in \<open>pb\<close>.\<close>

definition part_received :: "(bytes \<Rightarrow> bytes result) \<Rightarrow> process \<Rightarrow> nat \<Rightarrow> nat \<Rightarrow> PendingBlock \<Rightarrow> World \<Rightarrow> World option" where
  "part_received inflate process t c pb w =
     (case CompleteBlock inflate (pn_recvReqCompressed (wd_conns w c)) pb of
        None \<Rightarrow> None
      | Some (pb, False) \<Rightarrow>
          continueBufferedIncoming process c (upd_conn c (\<lambda>p. p\<lparr>pn_transferringData := False\<rparr>) w)
      | Some (pb, True) \<Rightarrow>
          (case block_received (pk_Block pb) (or_else [] (pk_Buffer pb)) (wd_transfers w t) of
             None \<Rightarrow> None
           | Some r \<Rightarrow> data_done process c (with_effects t r (upd_conn c (removePending (pk_Block pb)) w))))"

text \<open>The bytes at hand go to the \<open>i\<close>-th block in the queue of downloads, which has a buffer.\<close>

definition set_pending :: "nat \<Rightarrow> PendingBlock \<Rightarrow> PeerConnection \<Rightarrow> PeerConnection" where
  "set_pending i pb p = p\<lparr>pn_downloadQueue := (pn_downloadQueue p)[i := pb]\<rparr>"

definition receive_into :: "(bytes \<Rightarrow> bytes result) \<Rightarrow> process \<Rightarrow> nat \<Rightarrow> nat \<Rightarrow> nat \<Rightarrow> World \<Rightarrow> World option" where
  "receive_into inflate process t i c w =
     (let req = pn_recvReq (wd_conns w c);
          (p, payload) = ConsumeIncoming (pr_Length req - pn_recvPos (wd_conns w c)) (wd_conns w c);
          w = upd_conn c (\<lambda>_. p) w;
          pb = pn_downloadQueue p ! i;
          n = int (length payload)
      in if payload = [] then Some w
         else (case copy_into (or_else [] (pk_Buffer pb)) (nat (InBlockOffset req + pn_recvPos p)) payload of
                 None \<Rightarrow> None
               | Some buffer \<Rightarrow>
                   (let pb = pb\<lparr>pk_Buffer := Some buffer, pk_Received := pk_Received pb + n\<rparr>;
                        w = download_credit c n (upd_conn c (\<lambda>p. (set_pending i pb p)\<lparr>pn_recvPos := pn_recvPos p + n\<rparr>) w)
                    in if pn_recvPos p + n < pr_Length req then Some w else part_received inflate process t c pb w)))"

definition ReceivePendingData :: "(bytes \<Rightarrow> bytes result) \<Rightarrow> process \<Rightarrow> nat \<Rightarrow> World \<Rightarrow> World option" where
  "ReceivePendingData inflate process c w =
     (let p = wd_conns w c; req = pn_recvReq p;
          block = NewPieceBlock (pr_Piece req) (go_div (pr_Start req) BlockSize)
      in case pn_transfer p of
           None \<Rightarrow> Some w
         | Some t \<Rightarrow>
             if \<not> pn_transferringData p then Some w
             else (case GetDownloading block p of
                     None \<Rightarrow> skipPendingData process c w
                   | Some i \<Rightarrow>
                       (let pb = pn_downloadQueue p ! i; size = pb_Size block (t_size (wd_transfers w t));
                            buffer = or_else (replicate (nat size) 0) (pk_Buffer pb);
                            w = upd_conn c (set_pending i (pb\<lparr>pk_Buffer := Some buffer\<rparr>)) w
                        in if pk_Buffer pb = None \<and> size < 0 then None
                           else if pr_Length req - pn_recvPos p \<le> 0
                           then Some (upd_conn c (\<lambda>p. p\<lparr>pn_transferringData := False\<rparr>) w)
                           else receive_into inflate process t i c w)))"

definition ReceiveData :: "(bytes \<Rightarrow> bytes result) \<Rightarrow> process \<Rightarrow> PeerRequest \<Rightarrow> bool \<Rightarrow> nat \<Rightarrow> World \<Rightarrow> World option" where
  "ReceiveData inflate process req compressed c w =
     ReceivePendingData inflate process c
       (upd_conn c (\<lambda>p. p\<lparr>pn_transferringData := True, pn_recvReq := req, pn_recvPos := 0,
          pn_recvReqCompressed := compressed\<rparr>) w)"

definition receive_range :: "(bytes \<Rightarrow> bytes result) \<Rightarrow> process \<Rightarrow> int \<Rightarrow> int \<Rightarrow> bool \<Rightarrow> nat \<Rightarrow> World \<Rightarrow> World option" where
  "receive_range inflate process begin end compressed c w =
     (case MakePeerRequest begin end of
        Inl e \<Rightarrow> Some w
      | Inr req \<Rightarrow> ReceiveData inflate process req compressed c w)"

definition ReceiveCompressedData ::
  "(bytes \<Rightarrow> bytes result) \<Rightarrow> process \<Rightarrow> PacketHeader \<Rightarrow> int \<Rightarrow> int \<Rightarrow> int \<Rightarrow> nat \<Rightarrow> World \<Rightarrow> World option" where
  "ReceiveCompressedData inflate process header offset compressedLength payloadSize c w =
     (let p = wd_conns w c;
          go = (\<lambda>begin. receive_range inflate process begin (begin + sint (SizePacket header) - payloadSize) True c)
      in case GetDownloading (MakePieceBlock offset) p of
           None \<Rightarrow> go offset w
         | Some i \<Rightarrow>
             (let pb = pn_downloadQueue p ! i;
                  pb = (if or_else [] (pk_Buffer pb) = [] then pb\<lparr>pk_DataSize := compressedLength\<rparr> else pb)
              in case conn_transfer w c of
                   None \<Rightarrow> None
                 | Some t \<Rightarrow> go (Left (pb_Range (pk_Block pb) (t_size t)) + pk_Received pb)
                     (upd_conn c (\<lambda>p. p\<lparr>pn_downloadQueue := (pn_downloadQueue p)[i := pb]\<rparr>) w)))"

section \<open>Packets\<close>

definition set_hashes :: "hash \<Rightarrow> hash list \<Rightarrow> nat \<Rightarrow> nat \<Rightarrow> World \<Rightarrow> World" where
  "set_hashes h hashes t c w =
     SendStartUpload (t_hash (wd_transfers w t)) c (upd_transfer t (SetHashSet h hashes) w)"

definition HandleFileAnswer :: "FileAnswer \<Rightarrow> nat \<Rightarrow> World \<Rightarrow> World" where
  "HandleFileAnswer v c w =
     (case conn_transfer w c of
        None \<Rightarrow> close_conn NoTransfer c w
      | Some t \<Rightarrow> if hash_Equal (fans_Hash v) (t_hash t) then SendFileStatusRequest (t_hash t) c w
                   else close_conn NoTransfer c w)"

definition HandleFileStatusAnswer :: "FileStatusAnswer \<Rightarrow> nat \<Rightarrow> World \<Rightarrow> World" where
  "HandleFileStatusAnswer v c w =
     (case pn_transfer (wd_conns w c) of
        None \<Rightarrow> w
      | Some t \<Rightarrow>
          (let tr = wd_transfers w t
           in if t_size tr > 9728000 then SendHashSetRequest (t_hash tr) c w
              else if hash_Equal (t_hash tr) (fsans_Hash v) then set_hashes (fsans_Hash v) [fsans_Hash v] t c w
              else close_conn HashMismatch c w))"

definition handle_HashSetAnswer :: "HashSetAnswer \<Rightarrow> nat \<Rightarrow> World \<Rightarrow> World" where
  "handle_HashSetAnswer v c w =
     (case pn_transfer (wd_conns w c) of
        None \<Rightarrow> w
      | Some t \<Rightarrow>
          (let tr = wd_transfers w t
           in if hash_Equal (t_hash tr) (hsans_Hash v) \<and> hash_Equal (t_hash tr) (HashFromHashSet (hsans_Parts v)) \<and>
                 TotalPieces (t_picker tr) = length (hsans_Parts v)
              then set_hashes (hsans_Hash v) (hsans_Parts v) t c w
              else close_conn WrongHashSet c w))"

text \<open>One packet, and the error that ends the processing of the frames.\<close>

definition done_ok :: "World option \<Rightarrow> (World \<times> go_error option) option" where
  "done_ok r = map_option (\<lambda>w. (w, None)) r"

fun handle_packet ::
  "(bytes \<Rightarrow> bytes result) \<Rightarrow> process \<Rightarrow> nat \<Rightarrow> PacketHeader \<Rightarrow> ClientPacket \<Rightarrow> process" where
  "handle_packet inflate process c header (CHelloAnswer v) w = Some (HandleHelloAnswer v c w, None)"
| "handle_packet inflate process c header (CHello v) w = Some (HandleClientHello v c w, None)"
| "handle_packet inflate process c header (CExtHello v) w = Some (SendExtHelloAnswer c w, None)"
| "handle_packet inflate process c header (CFileRequest v) w = done_ok (HandleClientFileRequest v c w)"
| "handle_packet inflate process c header (CFileAnswer v) w = Some (HandleFileAnswer v c w, None)"
| "handle_packet inflate process c header (CFileStatusRequest v) w = done_ok (HandleClientFileStatusRequest v c w)"
| "handle_packet inflate process c header (CFileStatusAnswer v) w =
     Some (HandleFileStatusAnswer v c (upd_conn c (\<lambda>p. p\<lparr>pn_remotePieces := fsans_BitField v\<rparr>) w), None)"
| "handle_packet inflate process c header (CHashSetRequest v) w = done_ok (HandleClientHashSetRequest v c w)"
| "handle_packet inflate process c header (CHashSetAnswer v) w = Some (handle_HashSetAnswer v c w, None)"
| "handle_packet inflate process c header CAcceptUpload w = done_ok (RequestBlocks c w)"
| "handle_packet inflate process c header (CStartUpload v) w = done_ok (HandleClientStartUpload v c w)"
| "handle_packet inflate process c header (CRequestParts32 v) w = HandleClientRequestParts32 v c w"
| "handle_packet inflate process c header (CRequestParts64 v) w = HandleClientRequestParts64 v c w"
| "handle_packet inflate process c header CCancelTransfer w = Some (HandleClientCancelTransfer c w, None)"
| "handle_packet inflate process c header (CQueueRanking v) w = Some (close_conn QueueRankingCode c w, None)"
| "handle_packet inflate process c header (CSendingPart32 v) w =
     done_ok (receive_range inflate process (uint (sp32_BeginOffset v)) (uint (sp32_EndOffset v)) False c w)"
| "handle_packet inflate process c header (CSendingPart64 v) w =
     done_ok (receive_range inflate process (sint (sp64_BeginOffset v)) (sint (sp64_EndOffset v)) False c w)"
| "handle_packet inflate process c header (CCompressedPart32 v) w =
     done_ok (ReceiveCompressedData inflate process header (uint (cp32_BeginOffset v)) (uint (cp32_CompressedLength v))
       (int (bytesCount_CompressedPart32 v)) c w)"
| "handle_packet inflate process c header (CCompressedPart64 v) w =
     done_ok (ReceiveCompressedData inflate process header (sint (cp64_BeginOffset v)) (uint (cp64_CompressedLength v))
       (int (bytesCount_CompressedPart64 v)) c w)"
| "handle_packet inflate process c header (CNoFileStatus v) w = Some (close_conn NoTransfer c w, None)"
| "handle_packet inflate process c header COutOfParts w = Some (close_conn OutOfParts c w, None)"
| "handle_packet inflate process c header (CExtHelloAnswer v) w = Some (w, None)"

text \<open>The frames in order; one that cannot be read ends them with its error.\<close>

fun handle_frames ::
  "(bytes \<Rightarrow> bytes result) \<Rightarrow> process \<Rightarrow> nat \<Rightarrow> (PacketHeader \<times> bytes) list \<Rightarrow> process" where
  "handle_frames inflate process c [] w = Some (w, None)"
| "handle_frames inflate process c ((header, body) # fs) w =
     (case pc_Unpack inflate client_NewPacketCombiner header body of
        Inl e \<Rightarrow> Some (w, Some e)
      | Inr WithoutDataPacket \<Rightarrow> handle_frames inflate process c fs w
      | Inr (Packet x) \<Rightarrow>
          (case handle_packet inflate process c header x w of
             None \<Rightarrow> None
           | Some (w, Some e) \<Rightarrow> Some (w, Some e)
           | Some (w, None) \<Rightarrow> handle_frames inflate process c fs w))"

text \<open>
  \<open>ProcessIncoming\<close> calls itself through the data of a part. One call with \<open>process\<close> for the
  inner ones, and the calls with a bound on their depth; \<open>stuck\<close> is what happens at the bound.
\<close>

definition process_once :: "(bytes \<Rightarrow> bytes result) \<Rightarrow> nat \<Rightarrow> process \<Rightarrow> process" where
  "process_once inflate c process w =
     (let (p, frames, err) = ReadFramesWithCombiner (Some client_NewPacketCombiner) (wd_conns w c);
          w = upd_conn c (\<lambda>_. p) w
      in case err of
           Some e \<Rightarrow> Some (w, Some e)
         | None \<Rightarrow> handle_frames inflate process c frames w)"

fun process_depth :: "process \<Rightarrow> (bytes \<Rightarrow> bytes result) \<Rightarrow> nat \<Rightarrow> nat \<Rightarrow> process" where
  "process_depth stuck inflate c 0 w = stuck w"
| "process_depth stuck inflate c (Suc n) w = process_once inflate c (process_depth stuck inflate c n) w"

text \<open>
  Every inner call has fewer bytes to read, so that their number bounds the depth: the bound is
  never met. If it were, the call would not return: no result, as for a panic.
\<close>

definition ProcessIncoming :: "(bytes \<Rightarrow> bytes result) \<Rightarrow> nat \<Rightarrow> process" where
  "ProcessIncoming inflate c w = process_depth (\<lambda>_. None) inflate c (Suc (IncomingBytes (wd_conns w c))) w"

end
