(* ===== verification/Peer_Frames.thy ===== *)
theory Peer_Frames
  imports Peer_Downloads
begin

text \<open>
  What the operations of peer connections leave alone: bytes not yet read, the upload queue's
  invariant; and that the processing of incoming bytes ends.
\<close>

section \<open>The bytes not yet read\<close>

abbreviation chunks_of :: "World \<Rightarrow> nat \<Rightarrow> bytes list" where
  "chunks_of w d \<equiv> co_incoming (wd_conns w d)"

lemma setters_incoming [simp]:
  "co_incoming (SetUploadState s p) = co_incoming p"
  "co_incoming (SetUploadQueueRank r p) = co_incoming p"
  "co_incoming (SetUploadWaitStart t p) = co_incoming p"
  "co_incoming (ClearUploadWaitStart p) = co_incoming p"
  "co_incoming (SetUploadStartTime t p) = co_incoming p"
  "co_incoming (ResetUploadSession p) = co_incoming p"
  "co_incoming (SetUploadAddNextConnect v p) = co_incoming p"
  "co_incoming (ClearUploadBlockRequests p) = co_incoming p"
  "co_incoming (removePending b p) = co_incoming p"
  "co_incoming (AddUploadRequest req p) = co_incoming p"
  "co_incoming (pn_send x p) = co_incoming p"
  "co_incoming (co_Close e p) = co_incoming p"
  "co_incoming (QueuePacketWithStats raw n m p) = co_incoming p"
  by (simp_all add: SetUploadState_def SetUploadQueueRank_def SetUploadWaitStart_def ClearUploadWaitStart_def
      SetUploadStartTime_def ResetUploadSession_def SetUploadAddNextConnect_def ClearUploadBlockRequests_def
      removePending_def AddUploadRequest_def pn_send_def QueuePacket_def QueuePacketWithStats_def co_Close_def Let_def
      split: sum.split)

lemma world_incoming [simp]:
  "chunks_of (upd_queue f w) d = chunks_of w d"
  "chunks_of (upd_transfer t g w) d = chunks_of w d"
  "chunks_of (touch_credits w) d = chunks_of w d"
  "chunks_of (note_effects t effs w) d = chunks_of w d"
  "chunks_of (with_effects t r w) d = chunks_of w d"
  "chunks_of (send_packet c x w) d = chunks_of w d"
  "chunks_of (close_conn e c w) d = chunks_of w d"
  "chunks_of (upload_credit c n w) d = chunks_of w d"
  "chunks_of (download_credit c n w) d = chunks_of w d"
  "chunks_of (snd (next_random w)) d = chunks_of w d"
  by (simp_all add: upd_transfer_def note_effects_def with_effects_def send_packet_def close_conn_def
      upload_credit_def download_credit_def next_random_def)

lemma assign_ranks_incoming: "chunks_of (assign_ranks n xs w) d = chunks_of w d"
  by (induction n xs w rule: assign_ranks.induct) auto

lemma ranks_incoming [simp]:
  "chunks_of (recomputeRanks w) d = chunks_of w d" "chunks_of (sortWaiting w) d = chunks_of w d"
  by (simp_all add: recomputeRanks_def sortWaiting_def assign_ranks_incoming Let_def)

lemma removal_incoming [simp]:
  "chunks_of (fst (RemoveFromWaitingQueue c w)) d = chunks_of w d"
  "chunks_of (fst (RemoveFromUploadQueue c w)) d = chunks_of w d"
proof -
  show w: "chunks_of (fst (RemoveFromWaitingQueue c w)) d = chunks_of w d" for w
    by (simp add: RemoveFromWaitingQueue_def Let_def)
  obtain v b where v: "RemoveFromWaitingQueue c (if IsUploading w c
      then upd_queue (\<lambda>q. q\<lparr>uq_uploading := remove1 c (uq_uploading q)\<rparr>) w else w) = (v, b)"
    by (cases "RemoveFromWaitingQueue c (if IsUploading w c
      then upd_queue (\<lambda>q. q\<lparr>uq_uploading := remove1 c (uq_uploading q)\<rparr>) w else w)")
  have "chunks_of v d = chunks_of w d" using w [of "if IsUploading w c
      then upd_queue (\<lambda>q. q\<lparr>uq_uploading := remove1 c (uq_uploading q)\<rparr>) w else w"] v by (simp split: if_splits)
  then show "chunks_of (fst (RemoveFromUploadQueue c w)) d = chunks_of w d"
    by (auto simp: RemoveFromUploadQueue_def Let_def v)
qed

lemma grant_incoming [simp]: "chunks_of (grant c w) d = chunks_of w d"
  by (simp add: grant_def Let_def SendAcceptUpload_def)

lemma next_client_incoming: "next_client cs w = (w', r) \<Longrightarrow> chunks_of w' d = chunks_of w d"
  by (induction cs w rule: next_client.induct) (auto split: if_splits)

lemma addUpNextClient_incoming [simp]: "chunks_of (addUpNextClient direct w) d = chunks_of w d"
  by (auto simp: addUpNextClient_def next_client_incoming split: option.split prod.split)

lemma enqueue_incoming [simp]: "chunks_of (enqueue c w) d = chunks_of w d"
  by (simp add: enqueue_def Let_def SendQueueRanking_def)

lemma AddClientToQueue_incoming [simp]: "chunks_of (AddClientToQueue c w) d = chunks_of w d"
  unfolding AddClientToQueue_def Let_def
  by (auto simp: SendQueueRanking_def SendAcceptUpload_def split: option.split)

section \<open>Fewer bytes to read\<close>

abbreviation unread :: "World \<Rightarrow> nat \<Rightarrow> nat" where
  "unread w c \<equiv> IncomingBytes (wd_conns w c)"

lemma unread_cong: "chunks_of w' c = chunks_of w d \<Longrightarrow> unread w' c = unread w d"
  by (simp add: IncomingBytes_def)

lemma IncomingBytes_update [simp]:
  "IncomingBytes (p\<lparr>pn_downloadQueue := q\<rparr>) = IncomingBytes p"
  "IncomingBytes (p\<lparr>pn_transferringData := b\<rparr>) = IncomingBytes p"
  "IncomingBytes (p\<lparr>pn_recvReq := req\<rparr>) = IncomingBytes p"
  "IncomingBytes (p\<lparr>pn_recvPos := n\<rparr>) = IncomingBytes p"
  "IncomingBytes (p\<lparr>pn_recvReqCompressed := b\<rparr>) = IncomingBytes p"
  "IncomingBytes (set_pending i pb p) = IncomingBytes p"
  by (simp_all add: IncomingBytes_def set_pending_def)

lemma ConsumeIncoming_bytes: "ConsumeIncoming limit p = (p', chunk) \<Longrightarrow> IncomingBytes p' + length chunk = IncomingBytes p"
  by (auto simp: ConsumeIncoming_def DrainIncoming_def prependIncoming_def IncomingBytes_def Let_def length_concat
      split: if_splits)

lemma read_loop_bytes:
  "read_loop service raw = (frames, keep, err) \<Longrightarrow>
     length keep \<le> length raw \<and> (frames \<noteq> [] \<longrightarrow> length keep < length raw)"
proof (induction service raw arbitrary: frames keep err rule: read_loop.induct)
  case (1 service raw)
  show ?case
  proof (cases "get_PacketHeader raw")
    case (Inl e)
    with 1(2) show ?thesis by (auto simp: read_loop.simps [of service raw] split: if_splits)
  next
    case (Inr hr)
    obtain header rest where hr: "hr = (header, rest)" by (cases hr)
    note get = Inr [unfolded hr]
    have less: "length rest < length raw" using get_PacketHeader_length [OF get] .
    let ?size = "sint (SizePacket header)" and ?n = "service header"
    show ?thesis
    proof (cases "length raw < PacketHeaderSize \<or> ?size < 0 \<or> ?n < 0 \<or> ?n > ?size \<or> int (length rest) < ?n")
      case True
      with 1(2) get show ?thesis by (auto simp: read_loop.simps [of service raw] Let_def split: if_splits)
    next
      case False
      then have body: "readBytes ?n rest = Inr (take (nat ?n) rest, drop (nat ?n) rest)"
        by (cases "rest = []") (auto simp: readBytes_def)
      have shorter: "length (drop (nat ?n) rest) \<le> length rest" by simp
      note ih = 1(1) [OF _ get refl refl refl _ _ body refl]
      show ?thesis
      proof (cases "?size > ?n")
        case True
        with 1(2) get False body less show ?thesis by (auto simp: read_loop.simps [of service raw] Let_def)
      next
        case size: False
        obtain fs k e where r: "read_loop service (drop (nat ?n) rest) = (fs, k, e)"
          by (cases "read_loop service (drop (nat ?n) rest)")
        have "length k \<le> length (drop (nat ?n) rest)" using ih [OF _ _ _ size r] False by simp
        with 1(2) get False body less size r show ?thesis by (auto simp: read_loop.simps [of service raw] Let_def)
      qed
    qed
  qed
qed

lemma ReadFrames_bytes:
  "ReadFramesWithCombiner combiner p = (p', frames, err) \<Longrightarrow>
     IncomingBytes p' \<le> IncomingBytes p \<and> (frames \<noteq> [] \<longrightarrow> IncomingBytes p' < IncomingBytes p)"
  by (auto simp: ReadFramesWithCombiner_def DrainIncoming_def prependIncoming_def IncomingBytes_def Let_def
      length_concat split: if_splits prod.splits dest!: read_loop_bytes)

section \<open>What packets do\<close>

text \<open>
  A relation between the world before and after steps of the connection \<open>c\<close>: it holds for the
  steps that packets are made of, and so for all that processing them does.
\<close>

definition keeps :: "(World \<Rightarrow> World \<Rightarrow> bool) \<Rightarrow> process \<Rightarrow> bool" where
  "keeps R P \<longleftrightarrow> (\<forall>w w' e. P w = Some (w', e) \<longrightarrow> R w w')"

locale conn_steps =
  fixes R :: "World \<Rightarrow> World \<Rightarrow> bool" and c :: nat
  assumes same: "R w w"
    and trans: "R u v \<Longrightarrow> R v w \<Longrightarrow> R u w"
    and conn: "pn_uploadState (f (wd_conns w c)) = state_of w c \<Longrightarrow> pn_uploadQueueRank (f (wd_conns w c)) = rank_of w c \<Longrightarrow>
      IncomingBytes (f (wd_conns w c)) \<le> unread w c \<Longrightarrow> R w (upd_conn c f w)"
    and transfer: "R w (upd_transfer t g w)"
    and effects: "R w (note_effects t effs w)"
    and credits: "R w (w\<lparr>wd_credits := m\<rparr>)"
    and random: "R w (snd (next_random w))"
    and queue: "R w (AddClientToQueue c w)"
    and unqueue: "R w (fst (RemoveFromUploadQueue c w))"
begin

lemma after_conn:
  "R u w \<Longrightarrow> pn_uploadState (f (wd_conns w c)) = state_of w c \<Longrightarrow> pn_uploadQueueRank (f (wd_conns w c)) = rank_of w c \<Longrightarrow>
     IncomingBytes (f (wd_conns w c)) \<le> unread w c \<Longrightarrow> R u (upd_conn c f w)"
  by (rule trans [OF _ conn])

lemma after_others:
  "R u w \<Longrightarrow> R u (upd_transfer t g w)"
  "R u w \<Longrightarrow> R u (note_effects t effs w)"
  "R u w \<Longrightarrow> R u (w\<lparr>wd_credits := m\<rparr>)"
  "R u w \<Longrightarrow> R u (snd (next_random w))"
  "R u w \<Longrightarrow> R u (AddClientToQueue c w)"
  "R u w \<Longrightarrow> R u (fst (RemoveFromUploadQueue c w))"
  by (rule trans, assumption, rule transfer effects credits random queue unqueue)+

lemma after_credit:
  "R u w \<Longrightarrow> R u (upload_credit c n w)" "R u w \<Longrightarrow> R u (download_credit c n w)"
  by (simp_all add: upload_credit_def download_credit_def after_others)

lemma after_send: "R u w \<Longrightarrow> R u (send_packet c x w)"
  unfolding send_packet_def by (rule after_conn) (simp_all add: IncomingBytes_def)

lemma after_close: "R u w \<Longrightarrow> R u (close_conn e c w)"
  unfolding close_conn_def
  by (rule after_conn) (simp_all add: IncomingBytes_def co_Close_def)

lemmas after = same after_conn after_others after_credit after_send after_close

lemma after_sends:
  "R u w \<Longrightarrow> R u (SendQueueRanking c r w)"
  "R u w \<Longrightarrow> R u (SendOutOfParts c w)"
  "R u w \<Longrightarrow> R u (SendFileRequest h c w)"
  "R u w \<Longrightarrow> R u (SendFileAnswer t c w)"
  "R u w \<Longrightarrow> R u (SendFileStatusRequest h c w)"
  "R u w \<Longrightarrow> R u (SendHashSetRequest h c w)"
  "R u w \<Longrightarrow> R u (SendHashSetAnswer t c w)"
  "R u w \<Longrightarrow> R u (SendStartUpload h c w)"
  "R u w \<Longrightarrow> R u (SendExtHelloAnswer c w)"
  "R u w \<Longrightarrow> R u (SendRequestParts32 r32 c w)"
  "R u w \<Longrightarrow> R u (SendRequestParts64 r64 c w)"
  "R u w \<Longrightarrow> R u (set_hashes h hs t' c w)"
  by (simp_all add: SendQueueRanking_def SendOutOfParts_def SendFileRequest_def SendFileAnswer_def
      SendFileStatusRequest_def SendHashSetRequest_def SendHashSetAnswer_def SendStartUpload_def SendExtHelloAnswer_def
      SendRequestParts32_def SendRequestParts64_def set_hashes_def after)

lemma after_greeted: "R u w \<Longrightarrow> R u (greeted v c w)"
  unfolding greeted_def by (rule after_conn) (simp_all add: IncomingBytes_def)

lemma AttachIncomingPeer_R: "AttachIncomingPeer t c w = Some (w', e) \<Longrightarrow> R w w'"
  using after_others(4) [OF same, of w]
  by (auto simp: AttachIncomingPeer_def Let_def IncomingBytes_def split: if_splits option.splits sum.splits prod.splits
      intro!: after same)

lemma attachTransferByHash_R: "attachTransferByHash h c w = Some (w', r) \<Longrightarrow> R w w'"
  by (auto simp: attachTransferByHash_def attach_other_def dest: AttachIncomingPeer_R intro: same
      split: if_splits option.splits)

lemma attach_handlers_R:
  "HandleClientFileRequest v1 c w = Some w' \<Longrightarrow> R w w'"
  "HandleClientFileStatusRequest v2 c w = Some w' \<Longrightarrow> R w w'"
  "HandleClientHashSetRequest v3 c w = Some w' \<Longrightarrow> R w w'"
  "HandleClientStartUpload v4 c w = Some w' \<Longrightarrow> R w w'"
  by (auto simp: HandleClientFileRequest_def HandleClientFileStatusRequest_def HandleClientHashSetRequest_def
      HandleClientStartUpload_def SendFileStatusAnswer_def dest!: attachTransferByHash_R
      split: option.splits if_splits sum.splits intro!: after after_sends)

lemma add_ranges_fields:
  "add_ranges rs n p = (p', e) \<Longrightarrow> pn_uploadState p' = pn_uploadState p \<and>
     pn_uploadQueueRank p' = pn_uploadQueueRank p \<and> IncomingBytes p' = IncomingBytes p"
proof (induction rs n p arbitrary: p' e rule: add_ranges.induct)
  case (2 b e ranges fsize p)
  have one: "pn_uploadState (AddUploadRequest req q) = pn_uploadState q \<and>
      pn_uploadQueueRank (AddUploadRequest req q) = pn_uploadQueueRank q" for req q
    by (simp add: AddUploadRequest_def Let_def)
  have "pn_uploadState (fold AddUploadRequest reqs q) = pn_uploadState q \<and>
      pn_uploadQueueRank (fold AddUploadRequest reqs q) = pn_uploadQueueRank q \<and>
      IncomingBytes (fold AddUploadRequest reqs q) = IncomingBytes q" for reqs q
    by (induction reqs arbitrary: q) (simp_all add: one IncomingBytes_def)
  with 2 show ?case by (auto split: if_splits sum.splits)
qed simp

lemma handle_ranges_R: "handle_ranges h rs c w = Some (w', e) \<Longrightarrow> R w w'"
  by (auto simp: handle_ranges_def Let_def dest!: attachTransferByHash_R add_ranges_fields
      split: option.splits prod.splits intro!: after after_sends)

lemma ask_for_R: "ask_for t blocks c w = Some w' \<Longrightarrow> R u w \<Longrightarrow> R u w'"
  by (auto simp: ask_for_def Let_def split: if_splits intro: after_sends after_close)

lemma pn_Speed_fields:
  "pn_Speed rate p = (p', s) \<Longrightarrow> pn_uploadState p' = pn_uploadState p \<and>
     pn_uploadQueueRank p' = pn_uploadQueueRank p \<and> IncomingBytes p' = IncomingBytes p"
  by (auto simp: pn_Speed_def Let_def IncomingBytes_def split: option.splits)

lemma RequestBlocks_R: "RequestBlocks c w = Some w' \<Longrightarrow> R w w'"
proof -
  assume req: "RequestBlocks c w = Some w'"
  obtain p s where sp: "pn_Speed (pn_transferRate w c) (wd_conns w c) = (p, s)"
    by (cases "pn_Speed (pn_transferRate w c) (wd_conns w c)")
  have R: "R w (upd_conn c (\<lambda>_. p\<lparr>pn_downloadQueue := q\<rparr>) (upd_transfer t g w))" for q t g
    by (rule after_conn [OF transfer])
      (use pn_Speed_fields [OF sp] in \<open>simp_all add: upd_transfer_def\<close>)
  show ?thesis
    using req sp by (auto simp: RequestBlocks_def Let_def split: option.splits if_splits prod.splits
        dest: ask_for_R [OF _ R] intro: same)
qed

lemma answer_handlers_R:
  "R w (HandleHelloAnswer v1 c w)" "R w (HandleClientHello v2 c w)"
  "R w (HandleFileAnswer v3 c w)" "R w (HandleFileStatusAnswer v4 c w)"
  "R w (handle_HashSetAnswer v5 c w)" "R w (HandleClientCancelTransfer c w)"
  by (auto simp: HandleHelloAnswer_def HandleClientHello_def HandleFileAnswer_def HandleFileStatusAnswer_def
      handle_HashSetAnswer_def HandleClientCancelTransfer_def Let_def split: option.split
      intro!: after after_sends after_greeted)

lemma keepsD: "keeps R P \<Longrightarrow> P w = Some (w', e) \<Longrightarrow> R w w'"
  by (auto simp: keeps_def)

lemma continue_R:
  "continueBufferedIncoming P c' w = Some w' \<Longrightarrow> c' = c \<Longrightarrow> keeps R P \<Longrightarrow> R w w'"
proof (induction P c' w arbitrary: w' rule: continueBufferedIncoming.induct)
  case (1 P c' w)
  show ?case
  proof (cases "pn_transferringData (wd_conns w c) \<or> chunks_of w c = []")
    case True
    with 1(2,3) show ?thesis by (auto simp: continueBufferedIncoming.simps [of P c w] intro: same)
  next
    case False
    with 1(2,3) obtain v e where v: "P w = Some (v, e)"
      by (auto simp: continueBufferedIncoming.simps [of P c w] split: option.splits)
    have R: "R w v" using keepsD [OF 1(4) v] .
    show ?thesis
    proof (cases e)
      case (Some x)
      with 1(2,3) False v R show ?thesis
        by (auto simp: continueBufferedIncoming.simps [of P c w] intro: after_close)
    next
      case None
      have "R v w'"
        if "continueBufferedIncoming P c v = Some w'" "chunks_of v c \<noteq> []" "\<not> unread w c \<le> unread v c"
        using 1(1) [OF refl _ v [unfolded None] refl refl] False that 1(3,4) by simp
      with 1(2,3) False v R None show ?thesis
        by (auto simp: continueBufferedIncoming.simps [of P c w] split: if_splits intro: trans)
    qed
  qed
qed

lemmas continue = continue_R [OF _ refl]

lemma stop_transfer: "R u w \<Longrightarrow> R u (upd_conn c (\<lambda>p. p\<lparr>pn_transferringData := False\<rparr>) w)"
  by (rule after_conn) simp_all

lemma data_done_R: "R u w \<Longrightarrow> data_done P c w = Some w' \<Longrightarrow> keeps R P \<Longrightarrow> R u w'"
  by (auto simp: data_done_def split: Option.bind_splits dest!: continue RequestBlocks_R
      intro: trans stop_transfer)

lemma ConsumeIncoming_fields:
  "ConsumeIncoming n p = (p', chunk) \<Longrightarrow> pn_uploadState p' = pn_uploadState p \<and>
     pn_uploadQueueRank p' = pn_uploadQueueRank p \<and> IncomingBytes p' \<le> IncomingBytes p"
  using ConsumeIncoming_bytes [of n p p' chunk]
  by (auto simp: ConsumeIncoming_def DrainIncoming_def prependIncoming_def Let_def split: if_splits)

lemma skip_R:
  assumes "skipPendingData P c w = Some w'" and "keeps R P"
  shows "R w w'"
proof -
  obtain p chunk where con: "ConsumeIncoming (pr_Length (pn_recvReq (wd_conns w c)) - pn_recvPos (wd_conns w c)) (wd_conns w c)
      = (p, chunk)" by fastforce
  let ?w = "upd_conn c (\<lambda>_. p\<lparr>pn_recvPos := pn_recvPos p + int (length chunk)\<rparr>) w"
  have R: "R w ?w" by (rule after_conn [OF same]) (use ConsumeIncoming_fields [OF con] in simp_all)
  show ?thesis
    using assms con R data_done_R [OF R _ assms(2)] data_done_R [OF same _ assms(2)]
    by (auto simp: skipPendingData_def Let_def split: if_splits)
qed

lemma part_R:
  assumes "part_received inflate P t c pb w = Some w'" and "R u w" and "keeps R P"
  shows "R u w'"
proof -
  have R: "R u (with_effects t r (upd_conn c (removePending b) w))" for b r
    unfolding with_effects_def
    by (intro after_others after_conn [OF assms(2)]) (simp_all add: removePending_def IncomingBytes_def)
  show ?thesis
    using assms(1,3) stop_transfer [OF assms(2)] data_done_R [OF R _ assms(3)]
    by (auto simp: part_received_def split: option.splits prod.splits bool.splits dest!: continue intro: trans)
qed

lemma into_R:
  assumes "receive_into inflate P t i c w = Some w'" and "R u w" and "keeps R P"
  shows "R u w'"
proof -
  obtain p chunk where con: "ConsumeIncoming (pr_Length (pn_recvReq (wd_conns w c)) - pn_recvPos (wd_conns w c)) (wd_conns w c)
      = (p, chunk)" by fastforce
  note f = ConsumeIncoming_fields [OF con]
  have R1: "R u (upd_conn c (\<lambda>_. p) w)" by (rule after_conn [OF assms(2)]) (use f in simp_all)
  have R2: "R u (download_credit c n (upd_conn c (\<lambda>p. (set_pending i pb p)\<lparr>pn_recvPos := pn_recvPos p + n\<rparr>)
      (upd_conn c (\<lambda>_. p) w)))" for n pb
    by (intro after_credit after_conn [OF R1]) (simp_all add: set_pending_def)
  show ?thesis
    using assms(1) con R1 R2 part_R [OF _ R2 assms(3)]
    by (auto simp: receive_into_def Let_def split: if_splits option.splits)
qed

lemma pending_R:
  assumes "ReceivePendingData inflate P c w = Some w'" and "R u w" and "keeps R P"
  shows "R u w'"
proof -
  have R: "R u (upd_conn c (set_pending i pb) w)" for i pb
    by (rule after_conn [OF assms(2)]) (simp_all add: set_pending_def)
  show ?thesis
    using assms(1,2) skip_R [OF _ assms(3), of w w'] stop_transfer [OF R] trans [OF assms(2)]
    by (auto simp: ReceivePendingData_def Let_def split: option.splits if_splits dest!: into_R [OF _ R assms(3)])
qed

lemma range_R:
  assumes "receive_range inflate P b e compressed c w = Some w'" and "R u w" and "keeps R P"
  shows "R u w'"
proof -
  have R: "R u (upd_conn c (\<lambda>p. p\<lparr>pn_transferringData := True, pn_recvReq := req, pn_recvPos := 0,
          pn_recvReqCompressed := compressed\<rparr>) w)" for req
    by (rule after_conn [OF assms(2)]) simp_all
  show ?thesis
    using assms(1,2) by (auto simp: receive_range_def ReceiveData_def split: sum.splits dest!: pending_R [OF _ R assms(3)])
qed

lemma compressed_R:
  assumes "ReceiveCompressedData inflate P header offset n m c w = Some w'" and "keeps R P"
  shows "R w w'"
proof -
  have R: "R w (upd_conn c (\<lambda>p. p\<lparr>pn_downloadQueue := q p\<rparr>) w)" for q
    by (rule after_conn [OF same]) simp_all
  show ?thesis
    using assms(1) range_R [OF _ same assms(2)]
    by (auto simp: ReceiveCompressedData_def Let_def split: option.splits dest!: range_R [OF _ R assms(2)])
qed

lemma packet_R:
  assumes "handle_packet inflate P c header x w = Some (w', e)" and "keeps R P"
  shows "R w w'"
proof -
  have R: "R w (upd_conn c (\<lambda>p. p\<lparr>pn_remotePieces := b\<rparr>) w)" for b
    by (rule after_conn [OF same]) (simp_all add: IncomingBytes_def)
  show ?thesis
    using assms(1)
    by (cases x) (auto simp: done_ok_def HandleClientRequestParts32_def HandleClientRequestParts64_def
      dest: attach_handlers_R handle_ranges_R RequestBlocks_R range_R [OF _ same assms(2)] compressed_R [OF _ assms(2)]
      intro: answer_handlers_R after_sends after_close same trans [OF R])
qed

lemma frames_R: "handle_frames inflate P c' fs w = Some (w', e) \<Longrightarrow> c' = c \<Longrightarrow> keeps R P \<Longrightarrow> R w w'"
proof (induction inflate P c' fs w arbitrary: w' e rule: handle_frames.induct)
  case (2 inflate P c' header body fs w)
  from 2(3) show ?case
  proof (cases "pc_Unpack inflate client_NewPacketCombiner header body")
    case (Inr u)
    show ?thesis
    proof (cases u)
      case (Packet x)
      from 2(3,4) Inr Packet obtain v r where v: "handle_packet inflate P c header x w = Some (v, r)"
        by (auto split: option.splits)
      have R: "R w v" using packet_R [OF v 2(5)] .
      show ?thesis
      proof (cases r)
        case None
        with 2(3,4) Inr Packet v have "handle_frames inflate P c fs v = Some (w', e)" by simp
        with 2(2) [OF Inr Packet _ refl None, of v w' e] v 2(4,5) trans [OF R] show ?thesis by simp
      next
        case (Some err)
        with 2(3,4) Inr Packet v R show ?thesis by simp
      qed
    qed (use 2 Inr in simp)
  qed (simp add: same)
qed (simp add: same)

lemma once_R: "keeps R P \<Longrightarrow> keeps R (process_once inflate c P)"
proof -
  assume P: "keeps R P"
  have "R w w'" if "process_once inflate c P w = Some (w', e)" for w w' e
  proof -
    obtain p fs err where r: "ReadFramesWithCombiner (Some client_NewPacketCombiner) (wd_conns w c) = (p, fs, err)"
      by (cases "ReadFramesWithCombiner (Some client_NewPacketCombiner) (wd_conns w c)")
    have "pn_uploadState p = state_of w c \<and> pn_uploadQueueRank p = rank_of w c"
      using r by (auto simp: ReadFramesWithCombiner_def DrainIncoming_def prependIncoming_def Let_def
          split: if_splits prod.splits)
    with ReadFrames_bytes [OF r] have R: "R w (upd_conn c (\<lambda>_. p) w)" by (intro after_conn [OF same]) simp_all
    then show ?thesis
      using that r by (auto simp: process_once_def Let_def split: option.splits dest!: frames_R [OF _ refl P] intro: trans)
  qed
  then show ?thesis by (simp add: keeps_def)
qed

lemma depth_R: "keeps R (process_depth (\<lambda>_. None) inflate c n)"
proof (induction n)
  case 0
  then show ?case by (simp add: keeps_def)
next
  case (Suc n)
  then show ?case using once_R [of "process_depth (\<lambda>_. None) inflate c n" inflate] by (simp add: keeps_def)
qed

lemma process_R: "ProcessIncoming inflate c w = Some (w', e) \<Longrightarrow> R w w'"
  using keepsD [OF depth_R] by (simp add: ProcessIncoming_def del: process_depth.simps)

end

section \<open>The relations\<close>

abbreviation fewer :: "nat \<Rightarrow> World \<Rightarrow> World \<Rightarrow> bool" where
  "fewer c w w' \<equiv> unread w' c \<le> unread w c"

interpretation fewer: conn_steps "fewer c" c for c
  by unfold_locales
    (auto simp: IncomingBytes_def upd_transfer_def note_effects_def next_random_def)

text \<open>The invariant of the upload queue is kept.\<close>

lemma frame_ok:
  "slots_ok w \<Longrightarrow> slots_ok (upd_transfer t g w)"
  "slots_ok w \<Longrightarrow> slots_ok (note_effects t effs w)"
  "slots_ok w \<Longrightarrow> slots_ok (w\<lparr>wd_credits := m\<rparr>)"
  "slots_ok w \<Longrightarrow> slots_ok (snd (next_random w))"
  by (erule slots_ok_cong; simp add: upd_transfer_def note_effects_def next_random_def)+

interpretation slots: conn_steps "\<lambda>w w'. slots_ok w \<longrightarrow> slots_ok w'" c for c
  by unfold_locales
    (auto simp: frame_ok upd_conn_ok AddClientToQueue_ok RemoveFromUploadQueue_ok)

section \<open>Processing ends\<close>

text \<open>Two ways to process that do the same when fewer than \<open>k\<close> bytes are left.\<close>

definition agree :: "nat \<Rightarrow> nat \<Rightarrow> process \<Rightarrow> process \<Rightarrow> bool" where
  "agree c k P Q \<longleftrightarrow> (\<forall>w. unread w c < k \<longrightarrow> P w = Q w)"

lemma agreeD: "agree c k P Q \<Longrightarrow> unread w c < k \<Longrightarrow> P w = Q w"
  by (simp add: agree_def)

lemma continue_agree:
  "unread w c < k \<Longrightarrow> agree c k P Q \<Longrightarrow> keeps (fewer c) P \<Longrightarrow>
     continueBufferedIncoming P c w = continueBufferedIncoming Q c w"
proof (induction P c w rule: continueBufferedIncoming.induct)
  case (1 P c w)
  have PQ: "Q w = P w" using agreeD [OF 1(3,2)] by simp
  have "continueBufferedIncoming P c v = continueBufferedIncoming Q c v"
    if "\<not> (pn_transferringData (wd_conns w c) \<or> chunks_of w c = [])" "P w = Some (v, None)"
      "\<not> (chunks_of v c = [] \<or> unread w c \<le> unread v c)" for v
    using 1(1) [OF refl that(1,2) refl refl that(3)] 1(2-4) that(3) by simp
  then show ?case
    by (subst (1 2) continueBufferedIncoming.simps)
      (auto simp: Let_def PQ split: option.split)
qed

lemma data_done_agree:
  assumes "unread w c < k" and "agree c k P Q" and "keeps (fewer c) P"
  shows "data_done P c w = data_done Q c w"
  using continue_agree [OF _ assms(2,3), of "upd_conn c (\<lambda>p. p\<lparr>pn_transferringData := False\<rparr>) w"] assms(1)
  by (simp add: data_done_def IncomingBytes_def)

lemma skip_agree:
  assumes "unread w c < k" and "agree c k P Q" and "keeps (fewer c) P"
  shows "skipPendingData P c w = skipPendingData Q c w"
proof -
  obtain p chunk where con: "ConsumeIncoming (pr_Length (pn_recvReq (wd_conns w c)) - pn_recvPos (wd_conns w c)) (wd_conns w c)
      = (p, chunk)" by fastforce
  let ?w = "upd_conn c (\<lambda>_. p\<lparr>pn_recvPos := pn_recvPos p + int (length chunk)\<rparr>) w"
  have "unread ?w c < k" using ConsumeIncoming_bytes [OF con] assms(1) by (simp add: IncomingBytes_def)
  then show ?thesis
    using con data_done_agree [OF _ assms(2,3), of ?w] data_done_agree [OF assms]
    by (simp add: skipPendingData_def Let_def)
qed

lemma part_agree:
  assumes "unread w c < k" and "agree c k P Q" and "keeps (fewer c) P"
  shows "part_received inflate P t c pb w = part_received inflate Q t c pb w"
proof -
  have "unread (with_effects t r (upd_conn c (removePending b) w)) c = unread w c" for r b by (rule unread_cong) simp
  moreover have "unread (upd_conn c (\<lambda>p. p\<lparr>pn_transferringData := False\<rparr>) w) c = unread w c" by (rule unread_cong) simp
  ultimately show ?thesis
    using data_done_agree [OF _ assms(2,3)] continue_agree [OF _ assms(2,3)] assms(1)
    by (simp add: part_received_def split: option.split prod.split bool.split)
qed

lemma into_agree:
  assumes "unread w c < k" and "agree c k P Q" and "keeps (fewer c) P"
  shows "receive_into inflate P t i c w = receive_into inflate Q t i c w"
proof -
  obtain p chunk where con: "ConsumeIncoming (pr_Length (pn_recvReq (wd_conns w c)) - pn_recvPos (wd_conns w c)) (wd_conns w c)
      = (p, chunk)" by fastforce
  have "IncomingBytes p < k" using ConsumeIncoming_bytes [OF con] assms(1) by simp
  then have "unread (download_credit c n (upd_conn c (\<lambda>p. (set_pending i pb p)\<lparr>pn_recvPos := pn_recvPos p + n\<rparr>)
      (upd_conn c (\<lambda>_. p) w))) c < k" for n pb
    by (simp add: IncomingBytes_def download_credit_def set_pending_def)
  from part_agree [OF this assms(2,3)] show ?thesis
    by (simp add: receive_into_def Let_def con split: option.split)
qed

lemma pending_agree:
  assumes "unread w c < k" and "agree c k P Q" and "keeps (fewer c) P"
  shows "ReceivePendingData inflate P c w = ReceivePendingData inflate Q c w"
proof -
  have "unread (upd_conn c (set_pending i pb) w) c < k" for i pb
    using assms(1) by (simp add: IncomingBytes_def set_pending_def)
  from into_agree [OF this assms(2,3)] skip_agree [OF assms] show ?thesis
    by (simp add: ReceivePendingData_def Let_def split: option.split)
qed

lemma range_agree:
  assumes "unread w c < k" and "agree c k P Q" and "keeps (fewer c) P"
  shows "receive_range inflate P b e compressed c w = receive_range inflate Q b e compressed c w"
proof -
  have "unread (upd_conn c (\<lambda>p. p\<lparr>pn_transferringData := True, pn_recvReq := req, pn_recvPos := 0,
          pn_recvReqCompressed := compressed\<rparr>) w) c < k" for req
    using assms(1) by (simp add: IncomingBytes_def)
  from pending_agree [OF this assms(2,3)] show ?thesis
    by (simp add: receive_range_def ReceiveData_def split: sum.split)
qed

lemma compressed_agree:
  assumes "unread w c < k" and "agree c k P Q" and "keeps (fewer c) P"
  shows "ReceiveCompressedData inflate P header offset n m c w = ReceiveCompressedData inflate Q header offset n m c w"
proof -
  have "unread (upd_conn c (\<lambda>p. p\<lparr>pn_downloadQueue := q p\<rparr>) w) c < k" for q
    using assms(1) by (simp add: IncomingBytes_def)
  from range_agree [OF this assms(2,3)] range_agree [OF assms] show ?thesis
    by (simp add: ReceiveCompressedData_def Let_def split: option.split)
qed

lemma packet_agree:
  assumes "unread w c < k" and "agree c k P Q" and "keeps (fewer c) P"
  shows "handle_packet inflate P c header x w = handle_packet inflate Q c header x w"
  by (cases x) (simp_all add: range_agree [OF assms] compressed_agree [OF assms])

lemma frames_agree:
  "unread w c < k \<Longrightarrow> agree c k P Q \<Longrightarrow> keeps (fewer c) P \<Longrightarrow> handle_frames inflate P c fs w = handle_frames inflate Q c fs w"
proof (induction inflate P c fs w rule: handle_frames.induct)
  case (2 inflate P c header body fs w)
  have "unread v c < k" if "handle_packet inflate Q c header x w = Some (v, e)" for x v e
    using fewer.packet_R [OF _ 2(5), of inflate header x w v e] packet_agree [OF 2(3-5), of inflate header x] that 2(3)
    by simp
  with 2 show ?case
    by (auto simp: packet_agree [OF 2(3-5)] split: sum.split unpacked.split option.split)
qed simp

text \<open>One call with at most \<open>k\<close> bytes makes inner calls with fewer.\<close>

lemma once_agree:
  assumes "unread w c \<le> k" and "agree c k P Q" and "keeps (fewer c) P"
  shows "process_once inflate c P w = process_once inflate c Q w"
proof -
  obtain p fs err where r: "ReadFramesWithCombiner (Some client_NewPacketCombiner) (wd_conns w c) = (p, fs, err)"
    by (cases "ReadFramesWithCombiner (Some client_NewPacketCombiner) (wd_conns w c)")
  show ?thesis
  proof (cases "fs = []")
    case True
    with r show ?thesis by (simp add: process_once_def Let_def split: option.split)
  next
    case False
    then have "unread (upd_conn c (\<lambda>_. p) w) c < k" using ReadFrames_bytes [OF r] assms(1) by simp
    from frames_agree [OF this assms(2,3)] r show ?thesis by (simp add: process_once_def Let_def split: option.split)
  qed
qed

text \<open>The bound on the depth does not matter once it exceeds the number of bytes.\<close>

abbreviation bounded :: "(bytes \<Rightarrow> bytes result) \<Rightarrow> nat \<Rightarrow> nat \<Rightarrow> process" where
  "bounded \<equiv> process_depth (\<lambda>_. None)"

lemma depth_enough:
  "unread w c \<le> n \<Longrightarrow> n \<le> m \<Longrightarrow> process_depth stuck inflate c (Suc m) w = bounded inflate c (Suc n) w"
proof (induction n arbitrary: w m)
  case 0
  have "agree c 0 (bounded inflate c 0) (process_depth stuck inflate c m)" by (simp add: agree_def)
  from once_agree [OF 0(1) this fewer.depth_R] show ?case by simp
next
  case (Suc n)
  from Suc(3) obtain m' where m: "m = Suc m'" by (cases m) auto
  have "agree c (Suc n) (bounded inflate c (Suc n)) (process_depth stuck inflate c m)"
  proof (unfold agree_def, intro allI impI)
    fix v assume "unread v c < Suc n"
    then have v: "unread v c \<le> n" by simp
    have "n \<le> m'" using Suc(3) m by simp
    from Suc(1) [OF v this] show "bounded inflate c (Suc n) v = process_depth stuck inflate c m v" unfolding m by simp
  qed
  then show ?case using once_agree [OF Suc(2) _ fewer.depth_R] by simp
qed

lemma ProcessIncoming_unfold:
  "ProcessIncoming inflate c w = process_once inflate c (ProcessIncoming inflate c) w"
proof -
  have "agree c (unread w c) (bounded inflate c (unread w c)) (ProcessIncoming inflate c)"
  proof -
    have "bounded inflate c (unread w c) v = ProcessIncoming inflate c v" if "unread v c < unread w c" for v
    proof -
      have "unread w c \<noteq> 0" using that by simp
      then obtain n where n: "unread w c = Suc n" by (cases "unread w c") auto
      show ?thesis using depth_enough [of v c "unread v c" n "\<lambda>_. None" inflate] that by (simp add: ProcessIncoming_def n)
    qed
    then show ?thesis by (simp add: agree_def)
  qed
  from once_agree [OF order_refl this fewer.depth_R] show ?thesis by (simp add: ProcessIncoming_def)
qed

end
