(* ===== verification/Block_Stream.thy ===== *)
theory Block_Stream
  imports Peer_Frames
begin

text \<open>
  A block on its way from one client to another: the parts that \<open>SendBlockData\<close> queues, and
  what the downloading connection makes of their bytes, in whatever chunks they arrive.
\<close>

section \<open>The parts of a block\<close>

definition part_key :: "Transfer \<Rightarrow> PacketKey" where
  "part_key t = (if t_size t \<le> 2 ^ 32 - 1 then PK EdonkeyProt 0x46 else PK EMuleProt 0xA2)"

definition part_head :: "Transfer \<Rightarrow> int \<Rightarrow> bytes \<Rightarrow> bytes" where
  "part_head t b chunk =
     (let body = put_client (part_packet t b (b + int (length chunk)))
      in put_PacketHeader (frame_header (part_key t) (length body + length chunk)) @ body)"

definition part_bytes :: "Transfer \<Rightarrow> int \<times> bytes \<Rightarrow> bytes" where
  "part_bytes t part = part_head t (fst part) (snd part) @ snd part"

text \<open>The cutting of \<open>send_parts\<close>.\<close>

function cut_parts :: "nat \<Rightarrow> int \<Rightarrow> bytes \<Rightarrow> (int \<times> bytes) list" where
  "cut_parts packetSize offset payload =
     (if payload = [] \<or> packetSize = 0 then []
      else (let n = next_packetSize packetSize (length payload)
            in (offset, take n payload) # cut_parts n (offset + int n) (drop n payload)))"
  by pat_completeness auto
termination
  by (relation "measure (\<lambda>(_, _, payload). length payload)") (auto simp: next_packetSize_def)

declare cut_parts.simps [simp del]

text \<open>Parts that follow each other from \<open>b\<close> on and hold \<open>payload\<close>.\<close>

fun parts_of :: "int \<Rightarrow> bytes \<Rightarrow> (int \<times> bytes) list \<Rightarrow> bool" where
  "parts_of b payload [] \<longleftrightarrow> payload = []"
| "parts_of b payload ((b', chunk) # ps) \<longleftrightarrow>
     b' = b \<and> chunk \<noteq> [] \<and> chunk = take (length chunk) payload \<and>
     parts_of (b + int (length chunk)) (drop (length chunk) payload) ps"

lemma cut_parts_of: "0 < n \<Longrightarrow> parts_of b payload (cut_parts n b payload)"
proof (induction n b payload rule: cut_parts.induct)
  case (1 n b payload)
  show ?case
  proof (cases "payload = []")
    case True
    then show ?thesis by (simp add: cut_parts.simps)
  next
    case False
    let ?k = "next_packetSize n (length payload)"
    have k: "0 < ?k" "?k \<le> length payload" using 1(2) False by (auto simp: next_packetSize_def)
    then show ?thesis
      using 1(1) [OF _ refl] 1(2) False by (subst cut_parts.simps) (auto simp: Let_def min_def)
  qed
qed

text \<open>As many parts as \<open>packetSize\<close> goes into the payload; the last takes the rest.\<close>

lemma cut_parts_sizes:
  assumes "0 < n" and "n \<le> length payload"
  shows "length (cut_parts n b payload) = length payload div n \<and>
    (\<forall>p \<in> set (cut_parts n b payload). n \<le> length (snd p) \<and> length (snd p) < 2 * n)"
  using assms
proof (induction n b payload rule: cut_parts.induct)
  case (1 n b payload)
  have ne: "\<not> (payload = [] \<or> n = 0)" using 1(2,3) by auto
  show ?case
  proof (cases "length payload < n * 2")
    case True
    have "length payload div n = 1" using True 1(2,3) by (simp add: div_nat_eqI)
    moreover have "cut_parts (length payload) (b + int (length payload)) [] = []" by (simp add: cut_parts.simps)
    ultimately show ?thesis using 1(2,3) ne True by (subst (1 2) cut_parts.simps) (simp add: next_packetSize_def)
  next
    case False
    then have k: "next_packetSize n (length payload) = n" by (simp add: next_packetSize_def)
    have "length (drop n payload) div n = length payload div n - 1"
      using 1(2,3) by (simp add: le_div_geq)
    moreover have "0 < length payload div n" using 1(2,3) by (simp add: div_greater_zero_iff)
    ultimately show ?thesis
      using 1(1) [OF ne k [symmetric]] 1(2,3) ne False k by (subst (1 2) cut_parts.simps) auto
  qed
qed

section \<open>Sending\<close>

lemma wf_part: "wf_hash (t_hash t) \<Longrightarrow> wf_client (part_packet t b e)"
  by (simp add: part_packet_def wf_SendingPart32_def wf_SendingPart64_def)

lemma part_type_key: "pc_typeToKey client_NewPacketCombiner (typeName_client (part_packet t b e)) = Some (part_key t)"
proof -
  have "(PK EdonkeyProt 0x46, ''client.SendingPart32'', map_reader CSendingPart32 get_SendingPart32) \<in> set client_table"
    "(PK EMuleProt 0xA2, ''client.SendingPart64'', map_reader CSendingPart64 get_SendingPart64) \<in> set client_table"
    by (simp_all add: client_table_def)
  from this [THEN register_all_in(1) [OF _ client_table_names]] show ?thesis
    unfolding client_NewPacketCombiner_def by (auto simp: part_packet_def part_key_def)
qed

definition queued_part :: "Transfer \<Rightarrow> int \<times> bytes \<Rightarrow> queuedPacket" where
  "queued_part t part =
     \<lparr>qp_data = part_bytes t part,
      qp_protocolBytes = int (PacketHeaderSize + length (put_client (part_packet t (fst part) (fst part + int (length (snd part)))))),
      qp_payloadBytes = int (length (snd part))\<rparr>"

lemma SendPart_eq:
  assumes "conn_transfer w c = Some t" and "0 \<le> b" and "chunk \<noteq> []"
  shows "SendPart b (b + int (length chunk)) chunk c w =
    (upload_credit c (int (length chunk))
       (upd_conn c (\<lambda>p. p\<lparr>co_outgoing := co_outgoing p @ [queued_part t (b, chunk)]\<rparr>) w), True)"
proof -
  have "QueuePacketWithStats (put_PacketHeader h @ xs) n m =
      (\<lambda>p :: PeerConnection. p\<lparr>co_outgoing := co_outgoing p @ [\<lparr>qp_data = put_PacketHeader h @ xs, qp_protocolBytes = n, qp_payloadBytes = m\<rparr>]\<rparr>)"
    for h xs n m by (rule ext) (simp add: QueuePacketWithStats_def put_PacketHeader_def writeByte_def)
  then show ?thesis
    using assms PackPayload_eq [OF part_type_key]
    by (simp add: SendPart_def Let_def queued_part_def part_bytes_def part_head_def)
qed

lemma sent_conn_transfer:
  "conn_transfer (upload_credit c' n (upd_conn c (\<lambda>p. p\<lparr>co_outgoing := f p\<rparr>) w)) c = conn_transfer w c"
  by (simp add: conn_transfer_def upload_credit_def)

lemma send_parts_queue:
  assumes "conn_transfer w c = Some t" and "0 \<le> b" and "0 < n"
  shows "snd (send_parts n b payload c w) \<and>
    co_outgoing (wd_conns (fst (send_parts n b payload c w)) c) =
      co_outgoing (wd_conns w c) @ map (queued_part t) (cut_parts n b payload)"
  using assms
proof (induction n b payload c w rule: send_parts.induct)
  case (1 n b payload c w)
  show ?case
  proof (cases "payload = []")
    case True
    then show ?thesis by (simp add: cut_parts.simps send_parts.simps)
  next
    case False
    define k where "k = next_packetSize n (length payload)"
    have k: "0 < k" "k \<le> length payload" using 1(4) False by (auto simp: next_packetSize_def k_def)
    then have len: "length (take k payload) = k" and ne: "take k payload \<noteq> []" using False by auto
    let ?w = "upload_credit c (int k) (upd_conn c (\<lambda>p. p\<lparr>co_outgoing := co_outgoing p @ [queued_part t (b, take k payload)]\<rparr>) w)"
    have sent: "SendPart b (b + int k) (take k payload) c w = (?w, True)"
      using SendPart_eq [OF 1(2,3) ne] len by simp
    have ih: "snd (send_parts k (b + int k) (drop k payload) c ?w) \<and>
      co_outgoing (wd_conns (fst (send_parts k (b + int k) (drop k payload) c ?w)) c) =
        co_outgoing (wd_conns ?w c) @ map (queued_part t) (cut_parts k (b + int k) (drop k payload))"
      using 1(1) [OF _ k_def sent [symmetric]] False 1(3,4) k(1)
      by (simp add: sent_conn_transfer 1(2))
    have eq: "send_parts n b payload c w = send_parts k (b + int k) (drop k payload) c ?w"
      using False 1(4) by (subst send_parts.simps) (simp add: sent Let_def flip: k_def)
    have "cut_parts n b payload = (b, take k payload) # cut_parts k (b + int k) (drop k payload)"
      using False 1(4) by (subst cut_parts.simps) (simp add: Let_def flip: k_def)
    then show ?thesis using ih by (simp add: eq upload_credit_def)
  qed
qed

section \<open>Reading a part\<close>

text \<open>The file is large enough for the part, and its sizes fit in the words of the packet.\<close>

definition part_ok :: "Transfer \<Rightarrow> int \<times> bytes \<Rightarrow> bool" where
  "part_ok t part \<longleftrightarrow>
     0 \<le> fst part \<and> snd part \<noteq> [] \<and> fst part + int (length (snd part)) \<le> t_size t \<and>
     int (length (snd part)) \<le> PieceSize \<and> wf_hash (t_hash t) \<and> t_size t < 2 ^ 62"

abbreviation part_body :: "Transfer \<Rightarrow> int \<times> bytes \<Rightarrow> bytes" where
  "part_body t part \<equiv> put_client (part_packet t (fst part) (fst part + int (length (snd part))))"

abbreviation part_header :: "Transfer \<Rightarrow> int \<times> bytes \<Rightarrow> PacketHeader" where
  "part_header t part \<equiv> frame_header (part_key t) (length (part_body t part) + length (snd part))"

lemma length_part_body:
  "part_ok t part \<Longrightarrow> int (length (part_body t part)) = client_service (part_header t part)"
  using length_put_client [OF wf_part]
  by (auto simp: part_ok_def part_packet_def part_key_def client_service_def
      bytesCount_SendingPart32_def bytesCount_SendingPart64_def protocol_bytes)

lemma part_body_bound: "part_ok t part \<Longrightarrow> 0 < length (part_body t part) \<and> length (part_body t part) \<le> 32"
  using length_put_client [OF wf_part]
  by (auto simp: part_ok_def part_packet_def bytesCount_SendingPart32_def bytesCount_SendingPart64_def)

lemma part_header_size:
  assumes "part_ok t part"
  shows "sint (SizePacket (part_header t part)) = int (length (part_body t part) + length (snd part))"
proof -
  have "length (part_body t part) + length (snd part) < 2 ^ 31"
    using part_body_bound [OF assms] assms by (auto simp: part_ok_def PieceSize_def)
  from sint_of_nat_u32 [OF this] show ?thesis by (simp add: SizePacket_frame)
qed

lemma read_part:
  assumes "part_ok t part"
  shows "read_loop client_service (part_head t (fst part) (snd part) @ rest) = ([(part_header t part, part_body t part)], rest, None)"
proof -
  let ?h = "part_header t part" and ?body = "part_body t part"
  note size = part_header_size [OF assms] and serv = length_part_body [OF assms, symmetric] and bound = part_body_bound [OF assms]
  have pos: "0 < length (snd part)" using assms by (simp add: part_ok_def)
  have body: "readBytes (int (length ?body)) (?body @ rest) = Inr (?body, rest)"
    using bound by (simp add: readBytes_def)
  have head: "part_head t (fst part) (snd part) @ rest = put_PacketHeader ?h @ ?body @ rest"
    by (simp add: part_head_def Let_def)
  show ?thesis
    unfolding head
    by (subst read_loop.simps)
      (use size serv pos body in \<open>simp add: length_put_PacketHeader get_put_PacketHeader Let_def\<close>)
qed

lemma read_part_begin:
  assumes "part_ok t part" and "xs @ ys = part_head t (fst part) (snd part)" and "ys \<noteq> []" and "6 \<le> length xs"
  shows "read_loop client_service xs = ([], xs, None)"
proof (rule read_loop_begin)
  let ?h = "part_header t part" and ?body = "part_body t part"
  have eq: "xs @ ys = put_PacketHeader ?h @ ?body" using assms(2) by (simp add: part_head_def Let_def)
  have "take 6 xs = put_PacketHeader ?h" 
    using arg_cong [OF eq, of "take 6"] assms(4) length_put_PacketHeader [of ?h] by (simp add: PacketHeaderSize_def)
  then have xs: "xs = put_PacketHeader ?h @ drop 6 xs" by (metis append_take_drop_id)
  have "length xs < 6 + length ?body"
    using arg_cong [OF eq, of length] assms(3) length_put_PacketHeader [of ?h]
    by (cases ys) (simp_all add: PacketHeaderSize_def)
  then show "frame_begin client_service xs"
    unfolding frame_begin_def using xs assms(4) length_part_body [OF assms(1)] part_header_size [OF assms(1)]
    by (intro disjI2 exI [of _ ?h] exI [of _ "drop 6 xs"]) auto
qed

lemma unpack_part:
  assumes "part_ok t part"
  shows "pc_Unpack inflate client_NewPacketCombiner (part_header t part) (part_body t part) =
    Inr (Packet (part_packet t (fst part) (fst part + int (length (snd part)))))"
proof -
  have wf: "wf_client (part_packet t (fst part) (fst part + int (length (snd part))))"
    using assms by (simp add: part_ok_def wf_part)
  have "client_registry.key_of (part_packet t (fst part) (fst part + int (length (snd part)))) = part_key t"
    unfolding client_registry.key_of_def by (simp add: part_type_key)
  moreover have "small (part_body t part)" using part_body_bound [OF assms] by simp
  ultimately show ?thesis using client_registry.Unpack_plain [OF wf, of inflate] by simp
qed

lemma handle_part:
  assumes "part_ok t (b, chunk)"
  shows "handle_packet inflate P c h (part_packet t b (b + int (length chunk))) w =
    done_ok (receive_range inflate P b (b + int (length chunk)) False c w)"
proof -
  have *: "uint (word_of_int x :: u32) = x" if "0 \<le> x" "x \<le> 2 ^ 32 - 1" for x
    using that by (simp add: uint_word_of_int)
  have **: "sint (word_of_int x :: u64) = x" if "0 \<le> x" "x < 2 ^ 62" for x
    using that by (simp add: sint_sbintrunc' signed_take_bit_int_eq_self)
  show ?thesis
    using assms * [of b] * [of "b + int (length chunk)"] ** [of b] ** [of "b + int (length chunk)"]
    by (auto simp: part_packet_def part_ok_def)
qed

end
