(* ===== verification/Peer_Session.thy ===== *)
theory Peer_Session
  imports Peer_Frames
begin

text \<open>
  The life of peer connections in a session: how transfers connect to peers, tick and report
  (\<^verbatim>\<open>transfer.go\<close>), and a session's round over its connections (\<^verbatim>\<open>session.go\<close>:
  \<open>PumpIO\<close>, \<open>ConnectNewPeers\<close>). What sockets do is an argument; \<open>None\<close> is a panic.
\<close>

section \<open>Statistics\<close>

definition refreshStats :: "nat \<Rightarrow> World \<Rightarrow> World" where
  "refreshStats t w =
     upd_transfer t (\<lambda>tr. tr\<lparr>t_stat :=
       fold (\<lambda>c s. if co_disconnecting (wd_conns w c) then s else st_Merge (co_stat (wd_conns w c)) s)
         (t_connections tr) (st_Add (t_closedStat tr) NewStatistics)\<rparr>) w"

definition t_AddStats :: "Statistics \<Rightarrow> nat \<Rightarrow> World \<Rightarrow> World" where
  "t_AddStats s t w = refreshStats t (upd_transfer t (\<lambda>tr. tr\<lparr>t_closedStat := st_Add s (t_closedStat tr)\<rparr>) w)"

section \<open>Ending a connection\<close>

definition RemovePeerConnection :: "nat \<Rightarrow> nat \<Rightarrow> World \<Rightarrow> World option" where
  "RemovePeerConnection t c w =
     (let p = wd_conns w c
      in map_option (\<lambda>po. upd_conn c (\<lambda>p. p\<lparr>pn_peerInfo := None\<rparr>)
           (upd_transfer t (\<lambda>tr. tr\<lparr>t_policy := po, t_connections := filter (\<lambda>d. d \<noteq> c) (t_connections tr)\<rparr>) w))
         (ConnectionClosed (pn_peerInfo p) (co_closeCode p) (pn_failed p) (wd_now w) (t_policy (wd_transfers w t))))"

definition leave_transfer :: "nat \<Rightarrow> World \<Rightarrow> World option" where
  "leave_transfer c w =
     (case pn_transfer (wd_conns w c) of
        None \<Rightarrow> Some w
      | Some t \<Rightarrow>
          AbortAllRequests c w \<bind>
          (\<lambda>w. RemovePeerConnection t c (t_AddStats (co_stat (wd_conns w c)) t w)) \<bind>
          (\<lambda>w. Some (upd_conn c (\<lambda>p. p\<lparr>pn_transfer := None\<rparr>) w)))"

definition OnDisconnect :: "ErrorCode \<Rightarrow> nat \<Rightarrow> World \<Rightarrow> World option" where
  "OnDisconnect ec c w =
     (let w = (if ec \<noteq> NoError \<and> ec \<noteq> TransferPaused then upd_conn c (\<lambda>p. p\<lparr>pn_failed := True\<rparr>) w else w);
          w = fst (RemoveFromUploadQueue c w)
      in map_option (CloseConnection c) (leave_transfer c w))"

text \<open>Effects of a transfer on connections, as \<open>Close\<close> of each.\<close>

definition apply_close :: "effect \<Rightarrow> World \<Rightarrow> World" where
  "apply_close e w = (case e of CloseConn c ec \<Rightarrow> close_conn ec c w | _ \<Rightarrow> w)"

definition RemoveTransfer :: "hash \<Rightarrow> bool \<Rightarrow> World \<Rightarrow> World" where
  "RemoveTransfer h deleteFile w =
     (case LookupTransfer h w of
        None \<Rightarrow> w
      | Some t \<Rightarrow>
          (let (tr, effs) = t_Abort deleteFile (wd_transfers w t);
               w = fold apply_close effs (with_effects t (tr, effs) w)
           in w\<lparr>wd_byHash := AList.delete h (wd_byHash w)\<rparr>))"

section \<open>Making connections\<close>

text \<open>Accepted sockets, by the endpoint of the peer.\<close>

definition accept :: "Endpoint \<Rightarrow> World \<Rightarrow> World" where
  "accept remote w =
     (let c = wd_next w
      in (upd_conn c (\<lambda>_. NewIncomingPeerConnection (wd_now w) remote) w)
           \<lparr>wd_connections := wd_connections w @ [c], wd_next := Suc c\<rparr>)"

definition acceptIncomingConnections :: "Endpoint list \<Rightarrow> World \<Rightarrow> World" where
  "acceptIncomingConnections remotes w = fold accept remotes w"

text \<open>
  \<open>net\<close> says of every address what resolving the endpoint and what dialling it gives. The
  connection is entered before it is known whether it succeeds.
\<close>

type_synonym network = "nat \<Rightarrow> string option \<times> string option"

definition ConnectToPeer :: "network \<Rightarrow> nat \<Rightarrow> nat \<Rightarrow> World \<Rightarrow> World \<times> bool" where
  "ConnectToPeer net t i w =
     (let c = wd_next w;
          ep = pe_Endpoint (po_peers (t_policy (wd_transfers w t)) ! i);
          set_peer = (\<lambda>f w. upd_transfer t (\<lambda>tr. tr\<lparr>t_policy := (t_policy tr)\<lparr>po_peers :=
            (po_peers (t_policy tr))[i := f (po_peers (t_policy tr) ! i)]\<rparr>\<rparr>) w);
          w = set_peer (\<lambda>pe. pe\<lparr>pe_LastConnected := wd_now w, pe_NextConnection := 0, pe_Connection := Some c\<rparr>) w;
          w = (upd_conn c (\<lambda>_. NewPeerConnection (wd_now w) ep (Some t) (Some i)) w)
                \<lparr>wd_connections := wd_connections w @ [c], wd_next := Suc c\<rparr>;
          w = upd_transfer t (\<lambda>tr. tr\<lparr>t_connections := t_connections tr @ [c]\<rparr>) w;
          (w, err) = pn_Connect (fst (net c)) (snd (net c)) c w
      in (w, err = None))"

definition ConnectOnePeer :: "network \<Rightarrow> nat \<Rightarrow> World \<Rightarrow> (World \<times> bool) option" where
  "ConnectOnePeer net t w =
     (case FindConnectCandidate (wd_now w) (t_policy (wd_transfers w t)) of
        None \<Rightarrow> None
      | Some (po, candidate) \<Rightarrow>
          (let w = upd_transfer t (\<lambda>tr. tr\<lparr>t_policy := po\<rparr>) w
           in case candidate of None \<Rightarrow> Some (w, False) | Some i \<Rightarrow> Some (ConnectToPeer net t i w)))"

definition TryConnectPeer :: "network \<Rightarrow> nat \<Rightarrow> World \<Rightarrow> (World \<times> bool) option" where
  "TryConnectPeer net t w =
     (if \<not> WantMorePeers (wd_transfers w t) then Some (w, False) else ConnectOnePeer net t w)"

definition AttachPeer :: "nat \<Rightarrow> nat \<Rightarrow> World \<Rightarrow> (World \<times> JED2KError option) option" where
  "AttachPeer t c w =
     (let tr = wd_transfers w t
      in if t_pause tr then Some (w, Some (NewError TransferPaused))
         else if t_abort tr then Some (w, Some (NewError TransferAborted))
         else if t_IsFinished tr then Some (w, Some (NewError TransferFinished))
         else
           (let (rnd, w) = next_random w
            in case NewConnection rnd c (pn_endpoint (wd_conns w c)) (t_policy tr) of
                 None \<Rightarrow> None
               | Some (po, Inl e) \<Rightarrow> Some (upd_transfer t (\<lambda>tr. tr\<lparr>t_policy := po\<rparr>) w, Some e)
               | Some (po, Inr i) \<Rightarrow>
                   (let w = upd_transfer t (\<lambda>tr. tr\<lparr>t_policy := po, t_connections := t_connections tr @ [c]\<rparr>) w;
                        w = upd_conn c (\<lambda>p. p\<lparr>pn_transfer := Some t, pn_peerInfo := Some i\<rparr>) w
                    in Some (w\<lparr>wd_connections := wd_connections w @ [c]\<rparr>, None))))"

text \<open>
  The loop of \<open>ConnectNewPeers\<close> goes round the transfers (\<open>ts\<close>, of which \<open>rest\<close> are left in
  this round) until nothing was connected for two rounds or the limit is reached. It may not
  end: then it is \<open>None\<close>; \<open>Some None\<close> is a panic.
\<close>

partial_function (option) connect_loop ::
  "network \<Rightarrow> nat list \<Rightarrow> nat list \<Rightarrow> nat \<Rightarrow> int \<Rightarrow> World \<Rightarrow> World option option" where
  "connect_loop net ts rest steps limit w =
     (case rest of
        [] \<Rightarrow> connect_loop net ts ts steps limit w
      | t # rest \<Rightarrow>
          (case TryConnectPeer net t w of
             None \<Rightarrow> Some None
           | Some (w, new) \<Rightarrow>
               (let limit = (if new then limit - 1 else limit);
                    steps = Suc (if new then 0 else steps)
                in if steps > length ts * 2 \<or> limit = 0 then Some (Some w)
                   else connect_loop net ts rest steps limit w)))"

text \<open>The transfers in the order in which the map delivers them.\<close>

definition ConnectNewPeers :: "network \<Rightarrow> nat list \<Rightarrow> World \<Rightarrow> World option option" where
  "ConnectNewPeers net transfers w =
     (if transfers \<noteq> [] \<and> int (length (wd_connections w)) < set_SessionConnectionsLimit (wd_settings w)
      then connect_loop net transfers transfers 0 (set_MaxConnectionsPerSecond (wd_settings w)) w
      else Some (Some w))"

section \<open>Looking for sources\<close>

definition ActiveConnections :: "nat \<Rightarrow> World \<Rightarrow> nat" where
  "ActiveConnections t w = length (filter (\<lambda>c. \<not> co_disconnecting (wd_conns w c)) (t_connections (wd_transfers w t)))"

definition NeedMoreSources :: "nat \<Rightarrow> World \<Rightarrow> bool" where
  "NeedMoreSources t w \<longleftrightarrow>
     (let tr = wd_transfers w t
      in \<not> t_pause tr \<and> \<not> t_abort tr \<and> \<not> t_IsFinished tr \<and>
         int (ActiveConnections t w) < set_SessionConnectionsLimit (wd_settings w))"

definition nextServerSourcesInterval :: "nat \<Rightarrow> nat \<Rightarrow> bool \<Rightarrow> int" where
  "nextServerSourcesInterval activeConnections connectCandidates sent =
     (if sent then
        (if activeConnections = 0 \<and> connectCandidates = 0 then Seconds 5
         else if activeConnections \<le> 1 \<or> connectCandidates \<le> 1 then Seconds 10
         else Minutes 1)
      else if activeConnections = 0 \<and> connectCandidates = 0 then Seconds 5 else Seconds 10)"

definition nextDHTSourcesInterval :: "nat \<Rightarrow> nat \<Rightarrow> bool \<Rightarrow> int" where
  "nextDHTSourcesInterval activeConnections connectCandidates sent =
     (if sent then
        (if activeConnections = 0 \<and> connectCandidates = 0 then Seconds 30
         else if activeConnections \<le> 1 \<or> connectCandidates \<le> 1 then Minutes 1
         else Minutes 2)
      else if activeConnections = 0 \<and> connectCandidates = 0 then Seconds 30 else Minutes 1)"

text \<open>Whether a request for sources reaches a server (\<open>server\<close>) or the DHT is given.\<close>

definition look_for_sources :: "bool \<Rightarrow> bool \<Rightarrow> nat \<Rightarrow> World \<Rightarrow> World" where
  "look_for_sources server dht t w =
     (if \<not> NeedMoreSources t w then w
      else
        (let now = wd_now w; tr = wd_transfers w t;
             active = ActiveConnections t w;
             candidates = NumConnectCandidates (t_IsFinished tr) (t_policy tr);
             few = (active \<le> 1 \<and> candidates \<le> 1);
             sources = (if few \<and> t_nextSourcesRequest tr > now + Seconds 5 then now else t_nextSourcesRequest tr);
             dhts = (if few \<and> t_nextDHTRequest tr > now + Seconds 10 then now else t_nextDHTRequest tr);
             sources = (if sources \<le> now then now + nextServerSourcesInterval active candidates server else sources);
             dhts = (if dhts < now then now + nextDHTSourcesInterval active candidates dht else dhts)
         in upd_transfer t (\<lambda>tr. tr\<lparr>t_nextSourcesRequest := sources, t_nextDHTRequest := dhts\<rparr>) w))"

fun tick_connections :: "int \<Rightarrow> nat list \<Rightarrow> World \<Rightarrow> World option" where
  "tick_connections ms [] w = Some w"
| "tick_connections ms (c # cs) w =
     (case pn_SecondTick (set_PeerConnectionTimeout (wd_settings w)) (wd_now w) ms (wd_conns w c) of
        None \<Rightarrow> None
      | Some p \<Rightarrow> tick_connections ms cs (upd_conn c (\<lambda>_. p) w))"

definition t_SecondTick :: "bool \<Rightarrow> bool \<Rightarrow> int \<Rightarrow> nat \<Rightarrow> World \<Rightarrow> World option" where
  "t_SecondTick server dht ms t w =
     (let w = look_for_sources server dht t w
      in map_option
           (\<lambda>w. (let w = refreshStats t w; s = t_stat (wd_transfers w t);
                     w = w\<lparr>wd_accumulator := st_Add s (wd_accumulator w)\<rparr>
                 in upd_transfer t (\<lambda>tr. tr\<lparr>t_speedMon := AddSample (DownloadRate s) (t_speedMon tr)\<rparr>) w))
           (tick_connections ms (t_connections (wd_transfers w t)) w))"

section \<open>A round over the connections\<close>

definition end_if_closed :: "nat \<Rightarrow> World \<Rightarrow> World option" where
  "end_if_closed c w =
     (let p = wd_conns w c
      in if co_disconnecting p \<and> \<not> co_closeHandled p
         then map_option (upd_conn c MarkDisconnectHandled) (OnDisconnect (co_closeCode p) c w)
         else Some w)"

text \<open>Reading what came: the data of a part, or frames. Errors of processing are only logged.\<close>

definition read_connection :: "(bytes \<Rightarrow> bytes result) \<Rightarrow> nat \<Rightarrow> World \<Rightarrow> World option" where
  "read_connection inflate c w =
     (if pn_transferringData (wd_conns w c) then ReceivePendingData inflate (ProcessIncoming inflate c) c w
      else map_option fst (ProcessIncoming inflate c w))"

definition pump_connection :: "(bytes \<Rightarrow> bytes result) \<Rightarrow> socket_write \<Rightarrow> socket_read \<Rightarrow> nat \<Rightarrow> World \<Rightarrow> World option" where
  "pump_connection inflate wr rd c w =
     (if co_disconnecting (wd_conns w c) then end_if_closed c w
      else
        (let w = upd_conn c (\<lambda>p. fst (DoRead (wd_now w) rd (fst (FlushOutgoing wr p)))) w
         in read_connection inflate c w \<bind> end_if_closed c))"

fun pump_connections ::
  "(bytes \<Rightarrow> bytes result) \<Rightarrow> (nat \<Rightarrow> socket_write) \<Rightarrow> (nat \<Rightarrow> socket_read) \<Rightarrow> nat list \<Rightarrow> World \<Rightarrow> World option" where
  "pump_connections inflate wr rd [] w = Some w"
| "pump_connections inflate wr rd (c # cs) w =
     pump_connection inflate (wr c) (rd c) c w \<bind> pump_connections inflate wr rd cs"

end
