(* ===== verification/Block_Arrival.thy ===== *)
theory Block_Arrival
  imports Block_Stream Peer_Session
begin

text \<open>
  The downloading side: a connection that waits for a block and gets the bytes of its parts in
  any chunks that do not cut a frame's header hands exactly that block to its transfer.
\<close>

section \<open>Where a part lies in its block\<close>

lemma block_of_offset:
  assumes "valid_block fsize block" and "Left (pb_Range block fsize) \<le> b" and "b < Right (pb_Range block fsize)"
  shows "MakePieceBlock b = block" and "go_rem (go_rem b PieceSize) BlockSize = b - Left (pb_Range block fsize)"
proof -
  have r: "BlocksOffset block * BlockSize \<le> b" "b < BlocksOffset block * BlockSize + BlockSize" "b < fsize"
    using assms(2,3) by (auto simp: pb_Range_offset)
  have bo: "0 \<le> BlocksOffset block" using assms(1) by (simp add: valid_block_def BlocksOffset_def BlocksPerPiece_eq)
  then have b: "0 \<le> b" using r(1) by (simp add: BlockSize_eq)
  have div: "b div BlockSize = BlocksOffset block"
    using r(1,2) by (intro int_div_pos_eq [of _ _ _ "b - BlocksOffset block * BlockSize"]) (simp_all add: BlockSize_eq)
  show "MakePieceBlock b = block"
    by (rule BlocksOffset_inj [OF valid_MakePieceBlock [OF b r(3)] assms(1)])
      (simp add: BlocksOffset_MakePieceBlock [OF b] div)
  have "go_rem (go_rem b PieceSize) BlockSize = b mod 9728000 mod 194560"
    using b by (simp add: geometry_constants)
  also have "\<dots> = b mod 194560" by (simp add: mod_mod_cancel)
  also have "\<dots> = b - b div BlockSize * BlockSize" by (simp add: BlockSize_eq minus_div_mult_eq_mod)
  finally show "go_rem (go_rem b PieceSize) BlockSize = b - Left (pb_Range block fsize)"
    by (simp add: div pb_Range_offset)
qed

definition part_request :: "int \<times> bytes \<Rightarrow> PeerRequest" where
  "part_request part =
     \<lparr>pr_Piece = go_div (fst part) PieceSize, pr_Start = go_rem (fst part) PieceSize, pr_Length = int (length (snd part))\<rparr>"

lemma MakePeerRequest_part:
  "part_ok t (b, chunk) \<Longrightarrow> MakePeerRequest b (b + int (length chunk)) = Inr (part_request (b, chunk))"
  by (simp add: part_ok_def MakePeerRequest_def part_request_def)

section \<open>A block being received\<close>

text \<open>
  What a download is about: the connection, the transfer with its state and the effects so far,
  the block, its bytes, and the other downloads of the connection.
\<close>

record Job =
  jb_conn :: nat
  jb_addr :: nat
  jb_transfer :: Transfer
  jb_effects :: "(nat \<times> effect) list"
  jb_block :: PieceBlock
  jb_bytes :: bytes
  jb_others :: "PendingBlock list"
  jb_parts :: "(int \<times> bytes) list"

abbreviation jb_left :: "Job \<Rightarrow> int" where
  "jb_left J \<equiv> Left (pb_Range (jb_block J) (t_size (jb_transfer J)))"

abbreviation jb_size :: "Job \<Rightarrow> nat" where
  "jb_size J \<equiv> length (jb_bytes J)"

definition job_ok :: "Job \<Rightarrow> bool" where
  "job_ok J \<longleftrightarrow>
     valid_block (t_size (jb_transfer J)) (jb_block J) \<and>
     int (jb_size J) = pb_Size (jb_block J) (t_size (jb_transfer J)) \<and>
     wf_hash (t_hash (jb_transfer J)) \<and> t_size (jb_transfer J) < 2 ^ 62 \<and>
     parts_of (jb_left J) (jb_bytes J) (jb_parts J)"

text \<open>The first \<open>n\<close> bytes have come.\<close>

definition receiving :: "Job \<Rightarrow> nat \<Rightarrow> World \<Rightarrow> bool" where
  "receiving J n w \<longleftrightarrow>
     (let p = wd_conns w (jb_conn J)
      in co_socket p \<and> pn_transfer p = Some (jb_addr J) \<and> wd_transfers w (jb_addr J) = jb_transfer J \<and> wd_effects w = jb_effects J \<and>
         filter (\<lambda>pb. pb_Compare (pk_Block pb) (jb_block J) \<noteq> 0) (pn_downloadQueue p) = jb_others J \<and>
         (\<exists>i pb. GetDownloading (jb_block J) p = Some i \<and> pn_downloadQueue p ! i = pb \<and> pk_Block pb = jb_block J \<and>
            pk_DataSize pb = int (jb_size J) \<and> pk_Received pb = int n \<and>
            or_else (replicate (jb_size J) 0) (pk_Buffer pb) = take n (jb_bytes J) @ replicate (jb_size J - n) 0))"

lemma receiving_cong:
  assumes "receiving J n w" and "pn_transfer (wd_conns w' (jb_conn J)) = pn_transfer (wd_conns w (jb_conn J))"
    and "pn_downloadQueue (wd_conns w' (jb_conn J)) = pn_downloadQueue (wd_conns w (jb_conn J))"
    and "wd_transfers w' = wd_transfers w" and "wd_effects w' = wd_effects w"
    and "co_socket (wd_conns w' (jb_conn J)) = co_socket (wd_conns w (jb_conn J))"
  shows "receiving J n w'"
proof -
  have "GetDownloading b (wd_conns w' (jb_conn J)) = GetDownloading b (wd_conns w (jb_conn J))" for b
    by (simp add: GetDownloading_def assms(3))
  with assms show ?thesis by (simp add: receiving_def Let_def)
qed

lemma GetDownloading_bound: "GetDownloading b p = Some i \<Longrightarrow> i < length (pn_downloadQueue p) \<and> pb_Compare (pk_Block (pn_downloadQueue p ! i)) b = 0"
proof -
  assume "GetDownloading b p = Some i"
  then obtain j where j: "j < length (pn_downloadQueue p)" "pb_Compare (pk_Block (pn_downloadQueue p ! ([0..<length (pn_downloadQueue p)] ! j))) b = 0"
    "i = [0..<length (pn_downloadQueue p)] ! j"
    unfolding GetDownloading_def find_Some_iff by (elim exE conjE) (simp only: length_upt minus_nat.diff_0)
  have "[0..<length (pn_downloadQueue p)] ! j = j" using j(1) by simp
  with j show ?thesis by simp
qed

lemma GetDownloading_cong:
  "map pk_Block (pn_downloadQueue p') = map pk_Block (pn_downloadQueue p) \<Longrightarrow> GetDownloading b p' = GetDownloading b p"
proof -
  assume eq: "map pk_Block (pn_downloadQueue p') = map pk_Block (pn_downloadQueue p)"
  then have len: "length (pn_downloadQueue p') = length (pn_downloadQueue p)" by (rule map_eq_imp_length_eq)
  have "find (\<lambda>i. pb_Compare (pk_Block (pn_downloadQueue p' ! i)) b = 0) [0..<length (pn_downloadQueue p')] =
      find (\<lambda>i. pb_Compare (pk_Block (pn_downloadQueue p ! i)) b = 0) [0..<length (pn_downloadQueue p)]"
  proof (rule find_cong)
    fix i assume "i \<in> set [0..<length (pn_downloadQueue p)]"
    then have i: "i < length (pn_downloadQueue p)" by simp
    from arg_cong [OF eq, of "\<lambda>xs. xs ! i"] i len
    show "(pb_Compare (pk_Block (pn_downloadQueue p' ! i)) b = 0) = (pb_Compare (pk_Block (pn_downloadQueue p ! i)) b = 0)"
      by simp
  qed (simp add: len)
  then show ?thesis by (simp add: GetDownloading_def)
qed

lemma filter_update_out:
  "i < length xs \<Longrightarrow> \<not> P (xs ! i) \<Longrightarrow> \<not> P y \<Longrightarrow> filter P (xs[i := y]) = filter P xs"
proof (induction xs arbitrary: i)
  case (Cons x xs)
  then show ?case by (cases i) auto
qed simp

text \<open>More bytes enter the buffer.\<close>

lemma receiving_more:
  assumes rec: "receiving J n w" and i: "GetDownloading (jb_block J) (wd_conns w (jb_conn J)) = Some i"
    and m: "n + m \<le> jb_size J"
    and p': "pn_downloadQueue p' = (pn_downloadQueue (wd_conns w (jb_conn J)))
      [i := (pn_downloadQueue (wd_conns w (jb_conn J)) ! i)
         \<lparr>pk_Buffer := Some (take (n + m) (jb_bytes J) @ replicate (jb_size J - (n + m)) 0), pk_Received := int (n + m)\<rparr>]"
    "pn_transfer p' = pn_transfer (wd_conns w (jb_conn J))" "co_socket p' = co_socket (wd_conns w (jb_conn J))"
    and w': "wd_conns w' (jb_conn J) = p'" "wd_transfers w' = wd_transfers w" "wd_effects w' = wd_effects w"
  shows "receiving J (n + m) w'"
proof -
  let ?p = "wd_conns w (jb_conn J)" and ?pb = "(pn_downloadQueue (wd_conns w (jb_conn J)) ! i)
         \<lparr>pk_Buffer := Some (take (n + m) (jb_bytes J) @ replicate (jb_size J - (n + m)) 0), pk_Received := int (n + m)\<rparr>"
  have b: "i < length (pn_downloadQueue ?p)" "pb_Compare (pk_Block (pn_downloadQueue ?p ! i)) (jb_block J) = 0"
    using GetDownloading_bound [OF i] by blast+
  have "map pk_Block (pn_downloadQueue p') = map pk_Block (pn_downloadQueue ?p)"
    using b by (simp add: p' map_update) (metis length_map list_update_id nth_map)
  from GetDownloading_cong [OF this] i have i': "GetDownloading (jb_block J) p' = Some i" by simp
  have "filter (\<lambda>pb. pb_Compare (pk_Block pb) (jb_block J) \<noteq> 0) (pn_downloadQueue p') =
      filter (\<lambda>pb. pb_Compare (pk_Block pb) (jb_block J) \<noteq> 0) (pn_downloadQueue ?p)"
    unfolding p' by (rule filter_update_out) (use b in simp_all)
  moreover have "pn_downloadQueue p' ! i = ?pb" using b by (simp add: p')
  ultimately show ?thesis using rec i i' by (auto simp: receiving_def Let_def w' p'(2,3) or_else_def)
qed

lemma copy_into_more:
  assumes "n + length chunk \<le> length bytes" and "chunk = take (length chunk) (drop n bytes)"
  shows "copy_into (take n bytes @ replicate (length bytes - n) 0) n chunk =
    Some (take (n + length chunk) bytes @ replicate (length bytes - (n + length chunk)) 0)"
proof -
  have "take (n + length chunk) bytes = take n bytes @ chunk" using assms(2) by (simp add: take_add flip: assms(2))
  then show ?thesis using assms(1) by (auto simp: copy_into_def min_def)
qed

abbreviation stream_of :: "Transfer \<Rightarrow> (int \<times> bytes) list \<Rightarrow> bytes" where
  "stream_of t ps \<equiv> concat (map (part_bytes t) ps)"

abbreviation jb_stream :: "Job \<Rightarrow> (int \<times> bytes) list \<Rightarrow> bytes" where
  "jb_stream J ps \<equiv> stream_of (jb_transfer J) ps"

text \<open>The parts after the first \<open>n\<close> bytes are \<open>part\<close> and \<open>ps\<close>.\<close>

definition at_part :: "Job \<Rightarrow> nat \<Rightarrow> int \<times> bytes \<Rightarrow> (int \<times> bytes) list \<Rightarrow> bool" where
  "at_part J n part ps \<longleftrightarrow>
     (\<exists>past. jb_parts J = past @ part # ps \<and> n = sum_list (map (length \<circ> snd) past))"

text \<open>The bytes \<open>ys\<close> still to come begin with what is missing of a part: of its frame, or of its data.\<close>

definition awaits_head :: "Job \<Rightarrow> bytes \<Rightarrow> World \<Rightarrow> bool" where
  "awaits_head J ys w \<longleftrightarrow>
     (\<exists>n hb part ps. receiving J n w \<and> \<not> pn_transferringData (wd_conns w (jb_conn J)) \<and>
        co_incoming (wd_conns w (jb_conn J)) = (if hb = [] then [] else [hb]) \<and>
        at_part J n part ps \<and> hb @ ys = jb_stream J (part # ps) \<and>
        (hb = [] \<or> 6 \<le> length hb \<and> length hb < length (part_head (jb_transfer J) (fst part) (snd part))))"

definition awaits_data :: "Job \<Rightarrow> bytes \<Rightarrow> World \<Rightarrow> bool" where
  "awaits_data J ys w \<longleftrightarrow>
     (\<exists>n q part ps. receiving J (n + q) w \<and> pn_transferringData (wd_conns w (jb_conn J)) \<and>
        \<not> pn_recvReqCompressed (wd_conns w (jb_conn J)) \<and> co_incoming (wd_conns w (jb_conn J)) = [] \<and>
        pn_recvReq (wd_conns w (jb_conn J)) = part_request part \<and> pn_recvPos (wd_conns w (jb_conn J)) = int q \<and>
        q < length (snd part) \<and> at_part J n part ps \<and>
        ys = drop q (snd part) @ jb_stream J ps)"

definition awaits :: "Job \<Rightarrow> bytes \<Rightarrow> World \<Rightarrow> bool" where
  "awaits J ys w \<longleftrightarrow> awaits_head J ys w \<or> awaits_data J ys w"

text \<open>The block has been handed over: its transfer changed by \<open>r\<close>, and new blocks were asked for.\<close>

definition handed_over :: "Job \<Rightarrow> Transfer \<times> effect list \<Rightarrow> World \<Rightarrow> bool" where
  "handed_over J r w \<longleftrightarrow>
     (let p = wd_conns w (jb_conn J)
      in pn_transfer p = Some (jb_addr J) \<and> wd_transfers w (jb_addr J) = fst r \<and>
         wd_effects w = jb_effects J @ map (Pair (jb_addr J)) (snd r) \<and> pn_downloadQueue p = jb_others J \<and>
         \<not> pn_transferringData p \<and> co_incoming p = [])"

definition received :: "Job \<Rightarrow> Transfer \<times> effect list \<Rightarrow> World \<Rightarrow> bool" where
  "received J r w \<longleftrightarrow> (\<exists>w1. handed_over J r w1 \<and> RequestBlocks (jb_conn J) w1 = Some w)"

definition read_outcome :: "Job \<Rightarrow> Transfer \<times> effect list \<Rightarrow> bytes \<Rightarrow> World \<Rightarrow> bool" where
  "read_outcome J r ys w \<longleftrightarrow> (if ys = [] then received J r w else awaits J ys w)"

text \<open>The parts of a job are well-formed.\<close>

lemma parts_of_append:
  "parts_of b xs (ps @ qs) \<longleftrightarrow>
     parts_of b (take (sum_list (map (length \<circ> snd) ps)) xs) ps \<and> sum_list (map (length \<circ> snd) ps) \<le> length xs \<and>
     parts_of (b + int (sum_list (map (length \<circ> snd) ps))) (drop (sum_list (map (length \<circ> snd) ps)) xs) qs"
proof (induction ps arbitrary: b xs)
  case (Cons p ps)
  obtain b' chunk where p: "p = (b', chunk)" by (cases p)
  have "length chunk \<le> length xs" if "chunk = take (length chunk) xs"
    using arg_cong [OF that, of length] by simp
  then show ?case by (auto simp: p Cons.IH take_drop drop_drop add.commute add.assoc min_def)
qed simp

lemma job_parts:
  assumes "job_ok J" and "at_part J n part ps"
  shows "parts_of (jb_left J + int n) (drop n (jb_bytes J)) (part # ps)"
  using assms parts_of_append by (auto simp: at_part_def job_ok_def)

lemma job_part:
  assumes "job_ok J" and "at_part J n part ps"
  shows "part_ok (jb_transfer J) part" and "fst part = jb_left J + int n" and "n + length (snd part) \<le> jb_size J"
    and "snd part = take (length (snd part)) (drop n (jb_bytes J))"
    and "parts_of (jb_left J + int (n + length (snd part))) (drop (n + length (snd part)) (jb_bytes J)) ps"
    and "0 < length (snd part)"
proof -
  obtain b chunk where part: "part = (b, chunk)" by (cases part)
  have b: "b = jb_left J + int n" "chunk \<noteq> []" "chunk = take (length chunk) (drop n (jb_bytes J))"
    "parts_of (b + int (length chunk)) (drop (length chunk) (drop n (jb_bytes J))) ps"
    using job_parts [OF assms] by (simp_all add: part)
  show "fst part = jb_left J + int n" "0 < length (snd part)"
    "snd part = take (length (snd part)) (drop n (jb_bytes J))" using b(1-3) by (simp_all add: part)
  have len: "length chunk \<le> jb_size J - n" using arg_cong [OF b(3), of length] by (simp add: min_def split: if_splits)
  moreover have "1 \<le> length chunk" using b(2) by (cases chunk) simp_all
  ultimately show sz: "n + length (snd part) \<le> jb_size J" by (simp add: part)
  show "parts_of (jb_left J + int (n + length (snd part))) (drop (n + length (snd part)) (jb_bytes J)) ps"
    using b(1,4) by (simp add: part ac_simps)
  have geo: "jb_left J = BlocksOffset (jb_block J) * BlockSize" "0 \<le> BlocksOffset (jb_block J)"
    "jb_left J + int (jb_size J) \<le> t_size (jb_transfer J)" "int (jb_size J) \<le> BlockSize"
    using assms(1) by (auto simp: job_ok_def pb_Size_def pb_Range_offset Let_def valid_block_def BlocksOffset_def BlocksPerPiece_eq)
  have "0 \<le> jb_left J" using geo(1,2) by (simp add: BlockSize_eq)
  then show "part_ok (jb_transfer J) part"
    using assms(1) b(1,2) sz geo(3,4) by (simp add: part part_ok_def job_ok_def PieceSize_def BlockSize_eq)
qed

text \<open>The request of a part is about the block.\<close>

lemma job_request:
  assumes "job_ok J" and "at_part J n part ps"
  shows "NewPieceBlock (pr_Piece (part_request part)) (go_div (pr_Start (part_request part)) BlockSize) = jb_block J"
    and "InBlockOffset (part_request part) = int n"
    and "pr_Length (part_request part) = int (length (snd part))"
proof -
  note p = job_part [OF assms]
  have in_block: "jb_left J \<le> fst part" "fst part < Right (pb_Range (jb_block J) (t_size (jb_transfer J)))"
    using p(2,3) Suc_leI [OF p(6)] assms(1) by (auto simp: job_ok_def pb_Size_def Let_def)
  note g = block_of_offset [OF _ in_block]
  show "NewPieceBlock (pr_Piece (part_request part)) (go_div (pr_Start (part_request part)) BlockSize) = jb_block J"
    using g(1) assms(1) by (simp add: job_ok_def part_request_def MakePieceBlock_def NewPieceBlock_def Let_def)
  show "InBlockOffset (part_request part) = int n"
    using g(2) p(2) assms(1) by (simp add: job_ok_def part_request_def InBlockOffset_def)
qed (simp add: part_request_def)

lemma effects_frame [simp]:
  "wd_effects (upd_conn c f w) = wd_effects w" "wd_effects (download_credit c n w) = wd_effects w"
  "wd_transfers (download_credit c n w) = wd_transfers w" "wd_conns (download_credit c n w) = wd_conns w"
  by (simp_all add: upd_conn_def download_credit_def)

text \<open>Bytes at hand go into the buffer.\<close>

lemma receive_into_eq:
  assumes "ConsumeIncoming (pr_Length (pn_recvReq (wd_conns w c)) - pn_recvPos (wd_conns w c)) (wd_conns w c) = (p1, payload)"
    and "payload \<noteq> []" and "pn_downloadQueue p1 ! i = pb" and "pn_recvPos p1 = pos" and "pk_Buffer pb = Some old"
    and "copy_into old (nat (InBlockOffset (pn_recvReq (wd_conns w c)) + pos)) payload = Some buffer"
  shows "receive_into inflate P t i c w =
    (let n = int (length payload);
         pb = pb\<lparr>pk_Buffer := Some buffer, pk_Received := pk_Received pb + n\<rparr>;
         w2 = download_credit c n (upd_conn c (\<lambda>p. (set_pending i pb p)\<lparr>pn_recvPos := pn_recvPos p + n\<rparr>) (upd_conn c (\<lambda>_. p1) w))
     in if pos + n < pr_Length (pn_recvReq (wd_conns w c)) then Some w2 else part_received inflate P t c pb w2)"
  unfolding receive_into_def using assms by (simp add: Let_def or_else_def)

lemma receive_into_step:
  fixes J :: Job and w :: World
  defines "c \<equiv> jb_conn J" and "p \<equiv> wd_conns w (jb_conn J)"
  assumes job: "job_ok J" and rec: "receiving J (n + q) w"
    and i: "GetDownloading (jb_block J) (wd_conns w (jb_conn J)) = Some i"
    and buf: "pk_Buffer (pn_downloadQueue p ! i) = Some (take (n + q) (jb_bytes J) @ replicate (jb_size J - (n + q)) 0)"
    and st: "pn_transferringData p" "\<not> pn_recvReqCompressed p" "pn_recvReq p = part_request part" "pn_recvPos p = int q"
    and q: "q < length (snd part)" and parts: "at_part J n part ps"
    and inc: "concat (co_incoming p) = ds" and ds: "ds \<noteq> []"
    and pre: "take (length (snd part) - q) ds = take (length ds) (drop q (snd part))"
  obtains w2 pb where
    "receive_into inflate P t i c w =
       (if q + length ds < length (snd part) then Some w2 else part_received inflate P t c pb w2)"
    "receiving J (n + min (q + length ds) (length (snd part))) w2"
    "pn_transferringData (wd_conns w2 c)" "\<not> pn_recvReqCompressed (wd_conns w2 c)"
    "pn_recvReq (wd_conns w2 c) = part_request part"
    "pn_recvPos (wd_conns w2 c) = int (min (q + length ds) (length (snd part)))"
    "co_incoming (wd_conns w2 c) = (let ds' = drop (length (snd part) - q) ds in if ds' = [] then [] else [ds'])"
    "pk_Block pb = jb_block J" "pk_DataSize pb = int (jb_size J)"
    "pk_Received pb = int (n + min (q + length ds) (length (snd part)))"
    "pk_Buffer pb = Some (take (n + min (q + length ds) (length (snd part))) (jb_bytes J) @
       replicate (jb_size J - (n + min (q + length ds) (length (snd part)))) 0)"
proof -
  note part = job_part [OF job parts] and req = job_request [OF job parts]
  define k where "k = min (length ds) (length (snd part) - q)"
  define chunk where "chunk = take (length (snd part) - q) ds"
  define p1 where "p1 = p\<lparr>co_incoming := (let ds' = drop (length (snd part) - q) ds in if ds' = [] then [] else [ds'])\<rparr>"
  have k: "length chunk = k" "n + q + k = n + min (q + length ds) (length (snd part))" "chunk \<noteq> []" "n + q + k \<le> jb_size J"
    using q ds part(3) by (auto simp: chunk_def k_def min_def)
  have k3: "min (q + length ds) (length (snd part)) = q + k" using q by (auto simp: k_def min_def)
  have limit: "pr_Length (pn_recvReq p) - pn_recvPos p = int (length (snd part) - q)" "0 < length (snd part) - q"
    using q by (simp_all add: st(3,4) req(3))
  have con: "ConsumeIncoming (pr_Length (pn_recvReq p) - pn_recvPos p) p = (p1, chunk)"
    unfolding limit(1) using limit(2) ds inc
    by (auto simp del: of_nat_diff simp: ConsumeIncoming_def DrainIncoming_def prependIncoming_def p1_def chunk_def Let_def)
  have chunk: "chunk = take (length chunk) (drop (n + q) (jb_bytes J))"
  proof -
    have "chunk = take (length ds) (drop q (snd part))" using pre by (simp add: chunk_def)
    also have "drop q (snd part) = take (length (snd part) - q) (drop (n + q) (jb_bytes J))"
      by (subst part(4)) (simp add: drop_take add.commute)
    finally show ?thesis by (simp add: min_def split: if_splits)
  qed
  let ?buffer = "take (n + q + k) (jb_bytes J) @ replicate (jb_size J - (n + q + k)) 0"
  have copy: "copy_into (take (n + q) (jb_bytes J) @ replicate (jb_size J - (n + q)) 0) (n + q) chunk = Some ?buffer"
    using copy_into_more [OF _ chunk] k(1,4) by simp
  obtain pb0 where pb0: "pn_downloadQueue p ! i = pb0" "pk_Block pb0 = jb_block J" "pk_DataSize pb0 = int (jb_size J)"
    "pk_Received pb0 = int (n + q)"
    using rec i by (auto simp: receiving_def Let_def p_def)
  let ?pb = "pb0\<lparr>pk_Buffer := Some ?buffer, pk_Received := int (n + q + k)\<rparr>"
  define w2 where "w2 = download_credit c (int k) (upd_conn c (\<lambda>p. (set_pending i ?pb p)\<lparr>pn_recvPos := pn_recvPos p + int k\<rparr>)
      (upd_conn c (\<lambda>_. p1) w))"
  have p1: "pn_downloadQueue p1 = pn_downloadQueue p" "pn_recvPos p1 = int q" "pn_recvReq p1 = part_request part"
    "pn_transferringData p1" "\<not> pn_recvReqCompressed p1" "pn_transfer p1 = pn_transfer p" "co_socket p1 = co_socket p"
    by (simp_all add: p1_def st)
  have conn2: "wd_conns w2 c = (set_pending i ?pb p1)\<lparr>pn_recvPos := int q + int k\<rparr>"
    by (simp add: w2_def download_credit_def set_pending_def p1)
  have offset: "nat (InBlockOffset (pn_recvReq p) + int q) = n + q" using req(2) by (simp add: st(3))
  have eq: "receive_into inflate P t i c w =
      (if int q + int k < int (length (snd part)) then Some w2 else part_received inflate P t c ?pb w2)"
  proof -
    note e = receive_into_eq [of w c p1 chunk i pb0 "int q" _ ?buffer]
    have "pk_Buffer pb0 = Some (take (n + q) (jb_bytes J) @ replicate (jb_size J - (n + q)) 0)" using buf pb0(1) by simp
    from e [OF _ k(3) _ p1(2) this] con copy offset show ?thesis
      by (simp add: c_def p_def [symmetric] p1(1) pb0(1) w2_def k(1) pb0(4) st(3) req(3) Let_def)
  qed
  have "int q + int k < int (length (snd part)) \<longleftrightarrow> q + length ds < length (snd part)"
    using q by (auto simp: k_def min_def)
  moreover have "receiving J (n + q + k) w2"
    by (rule receiving_more [OF rec i k(4)])
      (simp_all add: conn2 [unfolded c_def] set_pending_def p1 pb0(1) [unfolded p_def] p_def w2_def c_def)
  ultimately show thesis
    using eq pb0 k3
    by (intro that [of w2 ?pb]) (simp_all add: conn2 set_pending_def p1(3-5) k3 add.assoc, simp add: p1_def)
qed

section \<open>Clean cuts\<close>

text \<open>
  \<open>m\<close> bytes of the parts are missing: the bytes that came do not end within the first five of a
  frame (\<open>ReadFramesWithCombiner\<close> drops an incomplete header).
\<close>

fun clean :: "Transfer \<Rightarrow> (int \<times> bytes) list \<Rightarrow> nat \<Rightarrow> bool" where
  "clean t [] m \<longleftrightarrow> True"
| "clean t (p # ps) m \<longleftrightarrow>
     (let k = length (part_bytes t p) + length (stream_of t ps) - m
      in if m \<le> length (stream_of t ps) then clean t ps m else k = 0 \<or> 6 \<le> k)"

lemma clean_suffix: "clean t (qs @ ps) m \<Longrightarrow> m \<le> length (stream_of t ps) \<Longrightarrow> clean t ps m"
  by (induction qs) (auto simp: Let_def)

text \<open>The part after a part.\<close>

lemma at_part_next:
  "at_part J n part (part' # ps) \<Longrightarrow> at_part J (n + length (snd part)) part' ps"
proof -
  assume "at_part J n part (part' # ps)"
  then obtain past where "jb_parts J = past @ part # part' # ps" "n = sum_list (map (length \<circ> snd) past)"
    by (auto simp: at_part_def)
  then show ?thesis unfolding at_part_def by (intro exI [of _ "past @ [part]"]) simp
qed

lemma clean_at:
  assumes "at_part J n part ps" and "clean (jb_transfer J) (jb_parts J) m"
    and "m \<le> length (jb_stream J (part # ps))"
  shows "clean (jb_transfer J) (part # ps) m"
  using assms clean_suffix by (auto simp only: at_part_def)

lemma length_part_bytes: "length (part_bytes t part) = length (part_head t (fst part) (snd part)) + length (snd part)"
  by (simp add: part_bytes_def)

section \<open>Reading what came\<close>

text \<open>What one state does with the \<open>ds\<close> at hand when \<open>ys\<close> follow, before a frame and within its data.\<close>

definition reads_head :: "(bytes \<Rightarrow> bytes result) \<Rightarrow> Job \<Rightarrow> Transfer \<times> effect list \<Rightarrow> nat \<Rightarrow> bool" where
  "reads_head inflate J r k \<longleftrightarrow>
     (\<forall>n w part ps ds ys. receiving J n w \<and> \<not> pn_transferringData (wd_conns w (jb_conn J)) \<and>
        at_part J n part ps \<and> concat (co_incoming (wd_conns w (jb_conn J))) = ds \<and> length ds < k \<and>
        ds @ ys = jb_stream J (part # ps) \<and> clean (jb_transfer J) (jb_parts J) (length ys) \<longrightarrow>
        (\<exists>w'. ProcessIncoming inflate (jb_conn J) w = Some (w', None) \<and> read_outcome J r ys w'))"

definition reads_data :: "(bytes \<Rightarrow> bytes result) \<Rightarrow> Job \<Rightarrow> Transfer \<times> effect list \<Rightarrow> nat \<Rightarrow> bool" where
  "reads_data inflate J r k \<longleftrightarrow>
     (\<forall>n q w part ps ds ys. receiving J (n + q) w \<and> pn_transferringData (wd_conns w (jb_conn J)) \<and>
        \<not> pn_recvReqCompressed (wd_conns w (jb_conn J)) \<and> pn_recvReq (wd_conns w (jb_conn J)) = part_request part \<and>
        pn_recvPos (wd_conns w (jb_conn J)) = int q \<and> q < length (snd part) \<and>
        at_part J n part ps \<and> concat (co_incoming (wd_conns w (jb_conn J))) = ds \<and>
        (ds = [] \<longrightarrow> co_incoming (wd_conns w (jb_conn J)) = []) \<and> length ds < k \<and>
        ds @ ys = drop q (snd part) @ jb_stream J ps \<and> clean (jb_transfer J) (jb_parts J) (length ys) \<longrightarrow>
        (\<exists>w'. ReceivePendingData inflate (ProcessIncoming inflate (jb_conn J)) (jb_conn J) w = Some w' \<and> read_outcome J r ys w'))"

text \<open>A state that waits for the rest of a frame's head stays as it is.\<close>

lemma ReadFrames_client:
  "ReadFramesWithCombiner (Some client_NewPacketCombiner) p =
    (let (frames, keep, err) = read_loop client_service (concat (co_incoming p))
     in (p\<lparr>co_incoming := (if keep = [] then [] else [keep])\<rparr>, frames, err))"
proof -
  have serv: "pc_ServiceSize client_NewPacketCombiner = client_service"
    by (rule ext) (simp add: pc_ServiceSize_def client_NewPacketCombiner_def pc_SetServiceSizer_def)
  define raw where "raw = concat (co_incoming p)"
  have "read_loop client_service [] = ([], [], None)" by (simp add: read_loop.simps PacketHeaderSize_def)
  then show ?thesis
    by (cases "raw = []")
      (simp_all add: ReadFramesWithCombiner_def DrainIncoming_def prependIncoming_def Let_def serv
         flip: raw_def split: prod.split)
qed

lemma part_head_length: "part_ok t part \<Longrightarrow> 6 < length (part_head t (fst part) (snd part))"
  using part_body_bound [of t part] by (simp add: part_head_def Let_def length_put_PacketHeader PacketHeaderSize_def)

lemma process_waits:
  assumes job: "job_ok J" and at: "at_part J n part ps" and inc: "concat (co_incoming (wd_conns w (jb_conn J))) = hb"
    and pre: "hb @ zs = jb_stream J (part # ps)" and len: "length hb < length (part_head (jb_transfer J) (fst part) (snd part))"
    and hb: "hb = [] \<or> 6 \<le> length hb"
  shows "ProcessIncoming inflate (jb_conn J) w =
    Some (upd_conn (jb_conn J) (\<lambda>p. p\<lparr>co_incoming := (if hb = [] then [] else [hb])\<rparr>) w, None)"
proof -
  let ?head = "part_head (jb_transfer J) (fst part) (snd part)"
  have "read_loop client_service hb = ([], hb, None)"
  proof (cases "hb = []")
    case True
    then show ?thesis by (simp add: read_loop.simps PacketHeaderSize_def)
  next
    case False
    have "hb @ zs = ?head @ (snd part @ jb_stream J ps)" using pre by (simp add: part_bytes_def)
    then have "take (length hb) (hb @ zs) = take (length hb) ?head" using len by simp
    then have "?head = hb @ drop (length hb) ?head" by (metis append_eq_conv_conj append_take_drop_id)
    moreover have "drop (length hb) ?head \<noteq> []" using len by simp
    ultimately show ?thesis using read_part_begin [OF job_part(1) [OF job at], of hb] hb False by metis
  qed
  then show ?thesis by (subst ProcessIncoming_unfold) (simp add: process_once_def ReadFrames_client inc upd_conn_def)
qed

section \<open>New requests\<close>

lemma append_ranges32_total:
  "0 \<le> rp32_CurrentFree r \<Longrightarrow> rp32_CurrentFree r + int (length rgs) \<le> 3 \<Longrightarrow> length (rp32_BeginOffset r) = 3 \<Longrightarrow>
     length (rp32_EndOffset r) = 3 \<Longrightarrow> append_ranges32 rgs r \<noteq> None"
  by (induction rgs arbitrary: r) (auto simp: AppendRange32_def upd_def)

lemma append_ranges64_total:
  "0 \<le> rp64_CurrentFree r \<Longrightarrow> rp64_CurrentFree r + int (length rgs) \<le> 3 \<Longrightarrow> length (rp64_BeginOffset r) = 3 \<Longrightarrow>
     length (rp64_EndOffset r) = 3 \<Longrightarrow> append_ranges64 rgs r \<noteq> None"
  by (induction rgs arbitrary: r) (auto simp: AppendRange64_def upd_def)

lemma RequestBlocks_total: "\<exists>w'. RequestBlocks c w = Some w'"
proof -
  have "ask_for t (take RequestQueueSize blocks) c' v \<noteq> None" for t blocks c' v
    using append_ranges32_total append_ranges64_total by (simp add: ask_for_def Let_def RequestQueueSize_def)
  then have "RequestBlocks c w \<noteq> None" by (simp add: RequestBlocks_def Let_def split: option.split prod.split)
  then show ?thesis by simp
qed

text \<open>New requests leave the bytes at hand alone.\<close>

lemma ask_for_incoming: "ask_for t blocks c w = Some w' \<Longrightarrow> co_incoming (wd_conns w' c) = co_incoming (wd_conns w c)"
  by (auto simp: ask_for_def Let_def SendRequestParts32_def SendRequestParts64_def split: if_splits)

lemma RequestBlocks_incoming:
  assumes "RequestBlocks c w = Some w'"
  shows "co_incoming (wd_conns w' c) = co_incoming (wd_conns w c)"
proof -
  obtain p s where sp: "pn_Speed (pn_transferRate w c) (wd_conns w c) = (p, s)" by fastforce
  then have "co_incoming p = co_incoming (wd_conns w c)" by (auto simp: pn_Speed_def Let_def split: option.splits)
  then show ?thesis
    using assms sp by (auto simp: RequestBlocks_def Let_def split: option.splits if_splits prod.splits dest!: ask_for_incoming)
qed

section \<open>Data\<close>

text \<open>The bytes of the block are complete: it is handed over, and new blocks are asked for.\<close>

lemma block_complete:
  assumes job: "job_ok J" and rec: "receiving J (jb_size J) w" and inc: "co_incoming (wd_conns w (jb_conn J)) = []"
    and pb: "pk_Block pb = jb_block J" "pk_DataSize pb = int (jb_size J)" "pk_Received pb = int (jb_size J)"
      "pk_Buffer pb = Some (jb_bytes J)"
    and comp: "\<not> pn_recvReqCompressed (wd_conns w (jb_conn J))"
    and r: "block_received (jb_block J) (jb_bytes J) (jb_transfer J) = Some r"
  shows "\<exists>w'. part_received inflate P (jb_addr J) (jb_conn J) pb w = Some w' \<and> received J r w'"
proof -
  let ?c = "jb_conn J"
  let ?w = "upd_conn ?c (\<lambda>p. p\<lparr>pn_transferringData := False\<rparr>)
      (with_effects (jb_addr J) r (upd_conn ?c (removePending (jb_block J)) w))"
  have "handed_over J r ?w"
    using rec inc by (simp add: receiving_def handed_over_def Let_def with_effects_def note_effects_def upd_transfer_def removePending_def)
  moreover obtain w' where w': "RequestBlocks ?c ?w = Some w'" using RequestBlocks_total by blast
  ultimately have "received J r w'" by (auto simp: received_def)
  moreover have "continueBufferedIncoming P ?c ?w = Some ?w" using inc by (simp add: continueBufferedIncoming.simps)
  moreover have "wd_transfers w (jb_addr J) = jb_transfer J" using rec by (simp add: receiving_def Let_def)
  ultimately show ?thesis
    using w' r comp by (simp add: part_received_def CompleteBlock_def pb or_else_def data_done_def)
qed

lemma job_stream_ne: "job_ok J \<Longrightarrow> at_part J n part ps \<Longrightarrow> jb_stream J (part # ps) \<noteq> []"
  using job_part(6) by (fastforce simp: part_bytes_def)

text \<open>Once a state waits, processing again changes nothing.\<close>

lemma read_outcome_idle:
  assumes job: "job_ok J" and out: "read_outcome J r ys w"
  shows "continueBufferedIncoming (ProcessIncoming inflate (jb_conn J)) (jb_conn J) w = Some w"
proof -
  let ?c = "jb_conn J"
  have "continueBufferedIncoming P ?c w = Some w" if "co_incoming (wd_conns w ?c) = []" for P
    using that by (simp add: continueBufferedIncoming.simps)
  moreover have "co_incoming (wd_conns w ?c) = []" if "ys = []"
    using out that RequestBlocks_incoming by (fastforce simp: read_outcome_def received_def handed_over_def Let_def)
  moreover have "co_incoming (wd_conns w ?c) = []" if "awaits_data J ys w"
    using that by (auto simp: awaits_data_def)
  moreover have ?thesis if "awaits_head J ys w"
  proof -
    from that obtain n hb part ps where h: "at_part J n part ps" "co_incoming (wd_conns w ?c) = (if hb = [] then [] else [hb])"
      "hb @ ys = jb_stream J (part # ps)"
      "hb = [] \<or> 6 \<le> length hb \<and> length hb < length (part_head (jb_transfer J) (fst part) (snd part))"
      unfolding awaits_head_def by auto
    have len: "length hb < length (part_head (jb_transfer J) (fst part) (snd part))"
      using h(4) part_head_length [OF job_part(1) [OF job h(1)]] by auto
    have con: "concat (co_incoming (wd_conns w ?c)) = hb" using h(2) by simp
    have "upd_conn ?c (\<lambda>p. p\<lparr>co_incoming := if hb = [] then [] else [hb]\<rparr>) w = w"
      by (simp add: upd_conn_def flip: h(2))
    then have "ProcessIncoming inflate ?c w = Some (w, None)"
      using process_waits [OF job h(1) con h(3) len] h(4) by auto
    then show ?thesis by (subst continueBufferedIncoming.simps) (simp add: Let_def)
  qed
  ultimately show ?thesis using out by (auto simp: read_outcome_def awaits_def split: if_splits)
qed

lemma continue_read:
  assumes job: "job_ok J" and head: "reads_head inflate J r k" and rec: "receiving J n w"
    and not_data: "\<not> pn_transferringData (wd_conns w (jb_conn J))" and at: "at_part J n part ps"
    and inc: "co_incoming (wd_conns w (jb_conn J)) = (if ds = [] then [] else [ds])" and len: "length ds < k"
    and str: "ds @ ys = jb_stream J (part # ps)" and clean: "clean (jb_transfer J) (jb_parts J) (length ys)"
  shows "\<exists>w'. continueBufferedIncoming (ProcessIncoming inflate (jb_conn J)) (jb_conn J) w = Some w' \<and> read_outcome J r ys w'"
proof (cases "ds = []")
  case True
  then have "ys \<noteq> []" using str job_stream_ne [OF job at] by simp
  moreover have "awaits_head J ys w"
    unfolding awaits_head_def using rec not_data at inc str True by (intro exI [of _ n] exI [of _ "[]"] exI) auto
  ultimately show ?thesis using True inc by (simp add: continueBufferedIncoming.simps read_outcome_def awaits_def)
next
  case False
  have con: "concat (co_incoming (wd_conns w (jb_conn J))) = ds" using inc by simp
  from head [unfolded reads_head_def] rec not_data at con len str clean
  obtain w' where w': "ProcessIncoming inflate (jb_conn J) w = Some (w', None)" "read_outcome J r ys w'" by blast
  have "continueBufferedIncoming (ProcessIncoming inflate (jb_conn J)) (jb_conn J) w = Some w'"
    using w'(1) read_outcome_idle [OF job w'(2)] False inc not_data
    by (subst continueBufferedIncoming.simps) (simp add: Let_def)
  then show ?thesis using w'(2) by blast
qed

text \<open>The block gets its buffer.\<close>

lemma pending_prepared:
  fixes J :: Job and w :: World
  defines "p \<equiv> wd_conns w (jb_conn J)"
  assumes job: "job_ok J" and rec: "receiving J (n + q) w" and tr: "pn_transferringData p"
    and st: "pn_recvReq p = part_request part" "pn_recvPos p = int q"
    and q: "q < length (snd part)" and at: "at_part J n part ps"
  obtains i w1 where
    "ReceivePendingData inflate P (jb_conn J) w = receive_into inflate P (jb_addr J) i (jb_conn J) w1"
    "receiving J (n + q) w1" "GetDownloading (jb_block J) (wd_conns w1 (jb_conn J)) = Some i"
    "pk_Buffer (pn_downloadQueue (wd_conns w1 (jb_conn J)) ! i) =
       Some (take (n + q) (jb_bytes J) @ replicate (jb_size J - (n + q)) 0)"
    "wd_conns w1 (jb_conn J) = p\<lparr>pn_downloadQueue := pn_downloadQueue (wd_conns w1 (jb_conn J))\<rparr>"
proof -
  note part = job_part [OF job at] and req = job_request [OF job at]
  obtain i pb where i: "GetDownloading (jb_block J) p = Some i" "pn_downloadQueue p ! i = pb"
    "pk_Block pb = jb_block J" "pk_Received pb = int (n + q)"
    "or_else (replicate (jb_size J) 0) (pk_Buffer pb) = take (n + q) (jb_bytes J) @ replicate (jb_size J - (n + q)) 0"
    using rec by (auto simp: receiving_def Let_def p_def)
  define pb1 where "pb1 = pb\<lparr>pk_Buffer := Some (take (n + q) (jb_bytes J) @ replicate (jb_size J - (n + q)) 0)\<rparr>"
  define w1 where "w1 = upd_conn (jb_conn J) (set_pending i pb1) w"
  have bound: "i < length (pn_downloadQueue p)" using GetDownloading_bound [OF i(1)] by simp
  have size: "nat (pb_Size (jb_block J) (t_size (jb_transfer J))) = jb_size J"
    "\<not> pb_Size (jb_block J) (t_size (jb_transfer J)) < 0"
    using job by (auto simp: job_ok_def)
  have wt: "wd_transfers w (jb_addr J) = jb_transfer J" "pn_transfer p = Some (jb_addr J)"
    using rec by (auto simp: receiving_def Let_def p_def)
  have conn1: "wd_conns w1 (jb_conn J) = p\<lparr>pn_downloadQueue := (pn_downloadQueue p)[i := pb1]\<rparr>"
    by (simp add: w1_def set_pending_def p_def)
  have "pb1 = (pn_downloadQueue p ! i)\<lparr>pk_Buffer := Some (take (n + q + 0) (jb_bytes J) @ replicate (jb_size J - (n + q + 0)) 0),
      pk_Received := int (n + q + 0)\<rparr>"
    using i(2,4) by (simp add: pb1_def)
  then have rec1: "receiving J (n + q + 0) w1"
    using part(3) q
    by (intro receiving_more [OF rec i(1) [unfolded p_def], of 0 "wd_conns w1 (jb_conn J)"])
      (simp_all add: conn1 w1_def, simp_all add: p_def set_pending_def)
  have "GetDownloading (jb_block J) (wd_conns w1 (jb_conn J)) = GetDownloading (jb_block J) p"
    by (rule GetDownloading_cong) (use bound i(2,3) in \<open>simp add: conn1 map_update pb1_def list_update_same_conv\<close>)
  moreover have "ReceivePendingData inflate P (jb_conn J) w = receive_into inflate P (jb_addr J) i (jb_conn J) w1"
    using tr st q i wt size
    by (simp add: ReceivePendingData_def Let_def p_def [symmetric] req(1,3) pb1_def w1_def)
  ultimately show thesis using rec1 bound i(1) by (intro that [of i w1]) (simp_all add: conn1 pb1_def)
qed

lemma take_common: "ds @ ys = xs @ zs \<Longrightarrow> take (length xs) ds = take (length ds) xs"
  by (cases "length ds \<le> length xs") (auto simp: append_eq_append_conv2)

lemma data_step:
  assumes job: "job_ok J" and r: "block_received (jb_block J) (jb_bytes J) (jb_transfer J) = Some r"
    and head: "reads_head inflate J r k"
  shows "reads_data inflate J r (Suc k)"
  unfolding reads_data_def
proof (intro allI impI, elim conjE)
  fix n q w part ps ds ys
  let ?c = "jb_conn J" and ?P = "ProcessIncoming inflate (jb_conn J)"
  assume rec: "receiving J (n + q) w" and st: "pn_transferringData (wd_conns w ?c)" "\<not> pn_recvReqCompressed (wd_conns w ?c)"
    "pn_recvReq (wd_conns w ?c) = part_request part" "pn_recvPos (wd_conns w ?c) = int q"
    and q: "q < length (snd part)" and at: "at_part J n part ps"
    and inc: "concat (co_incoming (wd_conns w ?c)) = ds" "ds = [] \<longrightarrow> co_incoming (wd_conns w ?c) = []"
    and k: "length ds < Suc k" and str: "ds @ ys = drop q (snd part) @ jb_stream J ps"
    and clean: "clean (jb_transfer J) (jb_parts J) (length ys)"
  note part = job_part [OF job at] and req = job_request [OF job at]
  obtain i w1 where w1: "ReceivePendingData inflate ?P ?c w = receive_into inflate ?P (jb_addr J) i ?c w1"
    "receiving J (n + q) w1" "GetDownloading (jb_block J) (wd_conns w1 ?c) = Some i"
    "pk_Buffer (pn_downloadQueue (wd_conns w1 ?c) ! i) = Some (take (n + q) (jb_bytes J) @ replicate (jb_size J - (n + q)) 0)"
    "wd_conns w1 ?c = (wd_conns w ?c)\<lparr>pn_downloadQueue := pn_downloadQueue (wd_conns w1 ?c)\<rparr>"
    by (rule pending_prepared [OF job rec st(1,3,4) q at])
  have st1: "pn_transferringData (wd_conns w1 ?c)" "\<not> pn_recvReqCompressed (wd_conns w1 ?c)"
    "pn_recvReq (wd_conns w1 ?c) = part_request part" "pn_recvPos (wd_conns w1 ?c) = int q"
    "co_incoming (wd_conns w1 ?c) = co_incoming (wd_conns w ?c)"
    by (subst w1(5), simp add: st)+
  show "\<exists>w'. ReceivePendingData inflate ?P ?c w = Some w' \<and> read_outcome J r ys w'"
  proof (cases "ds = []")
    case True
    let ?w2 = "upd_conn ?c (\<lambda>_. (wd_conns w1 ?c)\<lparr>co_incoming := []\<rparr>) w1"
    have "ConsumeIncoming (pr_Length (pn_recvReq (wd_conns w1 ?c)) - pn_recvPos (wd_conns w1 ?c)) (wd_conns w1 ?c) =
        ((wd_conns w1 ?c)\<lparr>co_incoming := []\<rparr>, [])"
      using inc True by (simp add: ConsumeIncoming_def DrainIncoming_def st1)
    then have eq: "receive_into inflate ?P (jb_addr J) i ?c w1 = Some ?w2" by (simp add: receive_into_def)
    have "receiving J (n + q) ?w2" by (rule receiving_cong [OF w1(2)]) simp_all
    then have "awaits_data J ys ?w2"
      unfolding awaits_data_def using st1 q at str True
      by (intro exI [of _ n] exI [of _ q] exI [of _ part] exI [of _ ps]) simp
    moreover have "ys \<noteq> []" using str True q by auto
    ultimately show ?thesis using w1(1) eq by (simp add: read_outcome_def awaits_def)
  next
    case False
    have pre: "take (length (snd part) - q) ds = take (length ds) (drop q (snd part))"
      using take_common [OF str] by simp
    obtain w2 pb where w2: "receive_into inflate ?P (jb_addr J) i ?c w1 =
        (if q + length ds < length (snd part) then Some w2 else part_received inflate ?P (jb_addr J) ?c pb w2)"
      "receiving J (n + min (q + length ds) (length (snd part))) w2"
      "pn_transferringData (wd_conns w2 ?c)" "\<not> pn_recvReqCompressed (wd_conns w2 ?c)"
      "pn_recvReq (wd_conns w2 ?c) = part_request part"
      "pn_recvPos (wd_conns w2 ?c) = int (min (q + length ds) (length (snd part)))"
      "co_incoming (wd_conns w2 ?c) = (let ds' = drop (length (snd part) - q) ds in if ds' = [] then [] else [ds'])"
      "pk_Block pb = jb_block J" "pk_DataSize pb = int (jb_size J)"
      "pk_Received pb = int (n + min (q + length ds) (length (snd part)))"
      "pk_Buffer pb = Some (take (n + min (q + length ds) (length (snd part))) (jb_bytes J) @
         replicate (jb_size J - (n + min (q + length ds) (length (snd part)))) 0)"
      by (rule receive_into_step [OF job w1(2,3,4) st1(1-4) q at inc(1) [folded st1(5)] False pre])
    show ?thesis
    proof (cases "q + length ds < length (snd part)")
      case True
      have "ys = drop (q + length ds) (snd part) @ jb_stream J ps"
        using arg_cong [OF str, of "drop (length ds)"] True by (simp add: add.commute)
      then have "awaits_data J ys w2"
        unfolding awaits_data_def using w2 True at
        by (intro exI [of _ n] exI [of _ "q + length ds"] exI [of _ part] exI [of _ ps]) simp
      moreover have "ys \<noteq> []" using \<open>ys = _\<close> True by auto
      ultimately show ?thesis using w1(1) w2(1) True by (simp add: read_outcome_def awaits_def)
    next
      case full: False
      define ds' where "ds' = drop (length (snd part) - q) ds"
      have min: "min (q + length ds) (length (snd part)) = length (snd part)" using full by simp
      have str': "ds' @ ys = jb_stream J ps"
        using arg_cong [OF str, of "drop (length (snd part) - q)"] full by (simp add: ds'_def)
      have len: "length ds' < k" using False k q by (cases ds) (auto simp: ds'_def)
      let ?w3 = "upd_conn ?c (\<lambda>p. p\<lparr>pn_transferringData := False\<rparr>) w2"
      have inc2: "co_incoming (wd_conns w2 ?c) = (if ds' = [] then [] else [ds'])" using w2(7) by (simp add: ds'_def Let_def)
      have eq: "ReceivePendingData inflate ?P ?c w = part_received inflate ?P (jb_addr J) ?c pb w2"
        using w1(1) w2(1) full by simp
      show ?thesis
      proof (cases ps)
        case Nil
        have size: "n + length (snd part) = jb_size J" using part(3,5) Nil by simp
        have "co_incoming (wd_conns w2 ?c) = []" "ys = []" using str' inc2 Nil by simp_all
        with block_complete [OF job _ _ w2(8,9) _ _ w2(4) r] w2(2,10,11) size min eq show ?thesis
          by (simp add: read_outcome_def)
      next
        case (Cons part' ps')
        have at': "at_part J (n + length (snd part)) part' ps'" using at_part_next at Cons by simp
        have "n + length (snd part) < jb_size J" using job_part(3,6) [OF job at'] by linarith
        then have "part_received inflate ?P (jb_addr J) ?c pb w2 = continueBufferedIncoming ?P ?c ?w3"
          by (simp add: part_received_def CompleteBlock_def w2(9,10) min)
        moreover have "receiving J (n + length (snd part)) ?w3"
          by (rule receiving_cong [OF w2(2) [unfolded min]]) simp_all
        moreover have "\<not> pn_transferringData (wd_conns ?w3 ?c)"
          "co_incoming (wd_conns ?w3 ?c) = (if ds' = [] then [] else [ds'])"
          using inc2 by simp_all
        ultimately show ?thesis
          using continue_read [OF job head _ _ at' _ len str' [unfolded Cons] clean, of ?w3] eq by metis
      qed
    qed
  qed
qed

lemma head_step:
  assumes job: "job_ok J" and data: "reads_data inflate J r k"
  shows "reads_head inflate J r (Suc k)"
  unfolding reads_head_def
proof (intro allI impI, elim conjE)
  fix n w part ps ds ys
  let ?c = "jb_conn J" and ?P = "ProcessIncoming inflate (jb_conn J)"
  let ?head = "part_head (jb_transfer J) (fst part) (snd part)"
  assume rec: "receiving J n w" and not_data: "\<not> pn_transferringData (wd_conns w ?c)" and at: "at_part J n part ps"
    and inc: "concat (co_incoming (wd_conns w ?c)) = ds" and k: "length ds < Suc k"
    and str: "ds @ ys = jb_stream J (part # ps)" and clean: "clean (jb_transfer J) (jb_parts J) (length ys)"
  note part = job_part [OF job at]
  show "\<exists>w'. ?P w = Some (w', None) \<and> read_outcome J r ys w'"
  proof (cases "length ds < length ?head")
    case True
    have "length ds + length ys = length ?head + length (snd part) + length (jb_stream J ps)"
      using arg_cong [OF str, of length] by (simp add: length_part_bytes)
    then have ds: "ds = [] \<or> 6 \<le> length ds"
      using clean_at [OF at clean] True
      by (auto simp: length_part_bytes Let_def simp flip: length_0_conv split: if_splits)
    let ?w' = "upd_conn ?c (\<lambda>p. p\<lparr>co_incoming := if ds = [] then [] else [ds]\<rparr>) w"
    have "receiving J n ?w'" by (rule receiving_cong [OF rec]) simp_all
    then have "awaits_head J ys ?w'"
      unfolding awaits_head_def using not_data at str ds True
      by (intro exI [of _ n] exI [of _ ds] exI [of _ part] exI [of _ ps]) auto
    moreover have "ys \<noteq> []" using str True by (auto simp: part_bytes_def dest: arg_cong [of _ _ length])
    ultimately show ?thesis
      using process_waits [OF job at inc str True ds] by (simp add: read_outcome_def awaits_def)
  next
    case False
    define ds' where "ds' = drop (length ?head) ds"
    have str2: "ds @ ys = ?head @ (snd part @ jb_stream J ps)" using str by (simp add: part_bytes_def)
    have "take (length ?head) ds = ?head" using take_common [OF str2] False by simp
    then have ds: "ds = ?head @ ds'" by (metis append_take_drop_id ds'_def)
    then have str': "ds' @ ys = snd part @ jb_stream J ps" using str2 by simp
    have len: "length ds' < k"
      using part_head_length [OF part(1)] arg_cong [OF ds, of length] k by simp
    let ?w1 = "upd_conn ?c (\<lambda>p. p\<lparr>co_incoming := if ds' = [] then [] else [ds']\<rparr>) w"
    let ?w2 = "upd_conn ?c (\<lambda>p. p\<lparr>pn_transferringData := True, pn_recvReq := part_request part, pn_recvPos := 0,
          pn_recvReqCompressed := False\<rparr>) ?w1"
    have "receiving J n ?w2" by (rule receiving_cong [OF rec]) simp_all
    then have "receiving J (n + 0) ?w2" by simp
    moreover have "concat (co_incoming (wd_conns ?w2 ?c)) = ds'" "ds' = [] \<longrightarrow> co_incoming (wd_conns ?w2 ?c) = []" by simp_all
    moreover have "ds' @ ys = drop 0 (snd part) @ jb_stream J ps" using str' by simp
    ultimately obtain w' where w': "ReceivePendingData inflate ?P ?c ?w2 = Some w'" "read_outcome J r ys w'"
      using data [unfolded reads_data_def, rule_format, of n 0 ?w2 part ps ds' ys] part(6) at len clean by auto
    obtain b chunk where bc: "part = (b, chunk)" by (cases part)
    have "?P w = Some (w', None)"
      using read_part [OF part(1), of ds'] unpack_part [OF part(1), of inflate] handle_part [of "jb_transfer J" b chunk]
        part(1) MakePeerRequest_part [of "jb_transfer J" b chunk] w'(1)
      by (subst ProcessIncoming_unfold)
        (simp add: process_once_def ReadFrames_client inc ds bc upd_conn_def receive_range_def ReceiveData_def done_ok_def)
    then show ?thesis using w'(2) by blast
  qed
qed

lemma reads_all:
  assumes job: "job_ok J" and r: "block_received (jb_block J) (jb_bytes J) (jb_transfer J) = Some r"
  shows "reads_head inflate J r k \<and> reads_data inflate J r k"
proof (induction k)
  case 0
  show ?case by (simp add: reads_head_def reads_data_def)
next
  case (Suc k)
  then show ?case using data_step [OF job r] head_step [OF job] by blast
qed

section \<open>Delivery\<close>

text \<open>Reads of the socket, each with its time and the bytes it got, and what \<open>PumpIO\<close> does after each.\<close>

fun deliver :: "(bytes \<Rightarrow> bytes result) \<Rightarrow> nat \<Rightarrow> (int \<times> bytes) list \<Rightarrow> World \<Rightarrow> World option" where
  "deliver inflate c [] w = Some w"
| "deliver inflate c ((now, xs) # reads) w =
     read_connection inflate c (upd_conn c (\<lambda>p. fst (DoRead now (Got xs) p)) (w\<lparr>wd_now := now\<rparr>)) \<bind>
     deliver inflate c reads"

fun clean_reads :: "Transfer \<Rightarrow> (int \<times> bytes) list \<Rightarrow> (int \<times> bytes) list \<Rightarrow> bool" where
  "clean_reads t ps [] \<longleftrightarrow> True"
| "clean_reads t ps (x # xs) \<longleftrightarrow> snd x \<noteq> [] \<and> clean t ps (length (concat (map snd xs))) \<and> clean_reads t ps xs"

lemma read_awaits:
  assumes job: "job_ok J" and r: "block_received (jb_block J) (jb_bytes J) (jb_transfer J) = Some r"
    and aw: "awaits J (xs @ ys) w" and xs: "xs \<noteq> []" and clean: "clean (jb_transfer J) (jb_parts J) (length ys)"
  shows "\<exists>w'. read_connection inflate (jb_conn J)
      (upd_conn (jb_conn J) (\<lambda>p. fst (DoRead now (Got xs) p)) (w\<lparr>wd_now := now\<rparr>)) = Some w' \<and> read_outcome J r ys w'"
proof -
  let ?c = "jb_conn J"
  let ?w1 = "upd_conn ?c (\<lambda>p. fst (DoRead now (Got xs) p)) (w\<lparr>wd_now := now\<rparr>)"
  have read: "fst (DoRead now (Got xs) p) = p\<lparr>co_lastReceive := now, co_stat := ReceiveBytes (int (length xs)) 0 (co_stat p),
      co_incoming := co_incoming p @ [xs]\<rparr>" if "co_socket p" for p :: PeerConnection
    using that xs by (simp add: DoRead_def)
  have rec1: "receiving J n ?w1" if "receiving J n w" for n
    using that by (intro receiving_cong [OF that]) (auto simp: receiving_def Let_def read upd_conn_def)
  note all = reads_all [OF job r]
  from aw show ?thesis unfolding awaits_def
  proof
    assume "awaits_head J (xs @ ys) w"
    then obtain n hb part ps where h: "receiving J n w" "\<not> pn_transferringData (wd_conns w ?c)"
      "co_incoming (wd_conns w ?c) = (if hb = [] then [] else [hb])" "at_part J n part ps"
      "hb @ xs @ ys = jb_stream J (part # ps)"
      unfolding awaits_head_def by auto
    have soc: "co_socket (wd_conns w ?c)" using h(1) by (simp add: receiving_def Let_def)
    have "concat (co_incoming (wd_conns ?w1 ?c)) = hb @ xs" using h(3) by (auto simp: read soc)
    moreover have "\<not> pn_transferringData (wd_conns ?w1 ?c)" using h(2) by (simp add: read soc)
    ultimately obtain w' where "ProcessIncoming inflate ?c ?w1 = Some (w', None)" "read_outcome J r ys w'"
      using conjunct1 [OF all [of inflate "Suc (length (hb @ xs))"], unfolded reads_head_def, rule_format,
          of n ?w1 part ps "hb @ xs" ys] rec1 [OF h(1)] h(4,5) clean by auto
    then show ?thesis using \<open>\<not> pn_transferringData (wd_conns ?w1 ?c)\<close> by (simp add: read_connection_def)
  next
    assume "awaits_data J (xs @ ys) w"
    then obtain n q part ps where d: "receiving J (n + q) w" "pn_transferringData (wd_conns w ?c)"
      "\<not> pn_recvReqCompressed (wd_conns w ?c)" "co_incoming (wd_conns w ?c) = []"
      "pn_recvReq (wd_conns w ?c) = part_request part" "pn_recvPos (wd_conns w ?c) = int q" "q < length (snd part)"
      "at_part J n part ps" "xs @ ys = drop q (snd part) @ jb_stream J ps"
      unfolding awaits_data_def by auto
    have soc: "co_socket (wd_conns w ?c)" using d(1) by (simp add: receiving_def Let_def)
    have conn: "wd_conns ?w1 ?c = (wd_conns w ?c)\<lparr>co_lastReceive := now,
        co_stat := ReceiveBytes (int (length xs)) 0 (co_stat (wd_conns w ?c)), co_incoming := [xs]\<rparr>"
      by (simp add: read soc d(4))
    have fields: "pn_transferringData (wd_conns ?w1 ?c)" "\<not> pn_recvReqCompressed (wd_conns ?w1 ?c)"
      "pn_recvReq (wd_conns ?w1 ?c) = part_request part" "pn_recvPos (wd_conns ?w1 ?c) = int q"
      "concat (co_incoming (wd_conns ?w1 ?c)) = xs"
      unfolding conn using d by simp_all
    obtain w' where "ReceivePendingData inflate (ProcessIncoming inflate ?c) ?c ?w1 = Some w'" "read_outcome J r ys w'"
      using conjunct2 [OF all [of inflate "Suc (length xs)"], unfolded reads_data_def, rule_format,
          of n q ?w1 part ps xs ys] rec1 [OF d(1)] fields d(7-9) clean xs by blast
    then show ?thesis using fields(1) by (simp add: read_connection_def)
  qed
qed

lemma deliver_awaits:
  assumes job: "job_ok J" and r: "block_received (jb_block J) (jb_bytes J) (jb_transfer J) = Some r"
  shows "awaits J (concat (map snd reads)) w \<Longrightarrow> reads \<noteq> [] \<Longrightarrow> clean_reads (jb_transfer J) (jb_parts J) reads \<Longrightarrow>
    \<exists>w'. deliver inflate (jb_conn J) reads w = Some w' \<and> received J r w'"
proof (induction reads arbitrary: w)
  case (Cons x reads)
  obtain now xs where x: "x = (now, xs)" by (cases x)
  obtain w1 where w1: "read_connection inflate (jb_conn J)
      (upd_conn (jb_conn J) (\<lambda>p. fst (DoRead now (Got xs) p)) (w\<lparr>wd_now := now\<rparr>)) = Some w1"
    "read_outcome J r (concat (map snd reads)) w1"
    using read_awaits [OF job r, of xs "concat (map snd reads)" w] Cons.prems by (auto simp: x)
  show ?case
  proof (cases reads)
    case Nil
    then show ?thesis using w1 by (simp add: x read_outcome_def)
  next
    case (Cons y reads')
    have "concat (map snd reads) \<noteq> []" using Cons.prems(3) Cons by simp
    then have "awaits J (concat (map snd reads)) w1" using w1(2) by (simp add: read_outcome_def)
    from Cons.IH [OF this] Cons Cons.prems(3) w1(1) show ?thesis by (simp add: x)
  qed
qed simp

end
