(* ===== verification/Session_Steps.thy ===== *)
theory Session_Steps
  imports Peer_Session
begin

text \<open>
  The rounds of a session over its peers as steps on the world, and the invariant they keep: the
  upload queue's, and that a connection not made yet is in neither of its lists.
\<close>

section \<open>Operations on one connection\<close>

text \<open>Only the upload state of \<open>c\<close> changes.\<close>

definition own :: "nat \<Rightarrow> World \<Rightarrow> World \<Rightarrow> bool" where
  "own c w w' \<longleftrightarrow> wd_next w' = wd_next w \<and> wd_connections w' = wd_connections w \<and>
     (\<forall>d. d \<noteq> c \<longrightarrow> state_of w' d = state_of w d)"

lemma ownI: "wd_next w' = wd_next w \<Longrightarrow> wd_connections w' = wd_connections w \<Longrightarrow>
    (\<And>d. d \<noteq> c \<Longrightarrow> state_of w' d = state_of w d) \<Longrightarrow> own c w w'"
  by (simp add: own_def)

lemma own_trans: "own c u v \<Longrightarrow> own c v w \<Longrightarrow> own c u w"
  by (simp add: own_def)

lemma world_lists [simp]:
  "wd_next (upd_conn c f w) = wd_next w" "wd_connections (upd_conn c f w) = wd_connections w"
  "wd_next (upd_queue g w) = wd_next w" "wd_connections (upd_queue g w) = wd_connections w"
  "wd_next (upd_transfer t h w) = wd_next w" "wd_connections (upd_transfer t h w) = wd_connections w"
  "wd_next (touch_credits w) = wd_next w" "wd_connections (touch_credits w) = wd_connections w"
  "wd_next (note_effects t effs w) = wd_next w" "wd_connections (note_effects t effs w) = wd_connections w"
  "wd_next (with_effects t r w) = wd_next w" "wd_connections (with_effects t r w) = wd_connections w"
  "wd_next (send_packet c x w) = wd_next w" "wd_connections (send_packet c x w) = wd_connections w"
  "wd_next (close_conn e c w) = wd_next w" "wd_connections (close_conn e c w) = wd_connections w"
  "wd_next (snd (next_random w)) = wd_next w" "wd_connections (snd (next_random w)) = wd_connections w"
  by (simp_all add: upd_conn_def upd_queue_def upd_transfer_def touch_credits_def note_effects_def with_effects_def
      send_packet_def close_conn_def next_random_def Let_def)

lemma assign_ranks_lists [simp]:
  "wd_next (assign_ranks n xs w) = wd_next w" "wd_connections (assign_ranks n xs w) = wd_connections w"
  by (induction n xs w rule: assign_ranks.induct) simp_all

lemma ranks_lists [simp]:
  "wd_next (recomputeRanks w) = wd_next w" "wd_connections (recomputeRanks w) = wd_connections w"
  "wd_next (sortWaiting w) = wd_next w" "wd_connections (sortWaiting w) = wd_connections w"
  "state_of (sortWaiting w) c = state_of w c"
  by (simp_all add: recomputeRanks_def sortWaiting_def assign_ranks_frame Let_def)

lemma own_waiting: "own c w (fst (RemoveFromWaitingQueue c w))"
  by (simp add: own_def RemoveFromWaitingQueue_def Let_def)

lemma own_uploading: "own c w (fst (RemoveFromUploadQueue c w))"
proof -
  obtain w1 b where r: "RemoveFromWaitingQueue c
      (if IsUploading w c then upd_queue (\<lambda>q. q\<lparr>uq_uploading := remove1 c (uq_uploading q)\<rparr>) w else w) = (w1, b)"
    by fastforce
  have "own c w w1"
    using own_waiting [of c "if IsUploading w c then upd_queue (\<lambda>q. q\<lparr>uq_uploading := remove1 c (uq_uploading q)\<rparr>) w else w"] r
    by (auto simp: own_def split: if_splits)
  then show ?thesis by (simp add: RemoveFromUploadQueue_def Let_def r own_def)
qed

lemma own_grant: "own c w (grant c w)"
  by (simp add: own_def grant_def Let_def SendAcceptUpload_def)

lemma own_enqueue: "own c w (enqueue c w)"
  by (simp add: own_def enqueue_def Let_def SendQueueRanking_def)

lemma own_direct [simp]:
  "wd_next (fst (RemoveFromWaitingQueue c w)) = wd_next w" "wd_connections (fst (RemoveFromWaitingQueue c w)) = wd_connections w"
  "wd_next (fst (RemoveFromUploadQueue c w)) = wd_next w" "wd_connections (fst (RemoveFromUploadQueue c w)) = wd_connections w"
  "wd_next (grant c w) = wd_next w" "wd_connections (grant c w) = wd_connections w"
  "wd_next (enqueue c w) = wd_next w" "wd_connections (enqueue c w) = wd_connections w"
  "d \<noteq> c \<Longrightarrow> state_of (fst (RemoveFromWaitingQueue c w)) d = state_of w d"
  "d \<noteq> c \<Longrightarrow> state_of (fst (RemoveFromUploadQueue c w)) d = state_of w d"
  "d \<noteq> c \<Longrightarrow> state_of (grant c w) d = state_of w d"
  "d \<noteq> c \<Longrightarrow> state_of (enqueue c w) d = state_of w d"
  using own_waiting [of c w] own_uploading [of c w] own_grant [of c w] own_enqueue [of c w] by (simp_all add: own_def)

lemma own_AddClient: "own c w (AddClientToQueue c w)"
  by (simp add: own_def AddClientToQueue_def Let_def SendQueueRanking_def SendAcceptUpload_def addUpNextClient_def
      split: option.split)

section \<open>A connection's round\<close>

text \<open>More steps that a relation has to hold for: those of a round, which also reads and sends.\<close>

locale round_steps = conn_steps +
  assumes conn_any: "pn_uploadState (f (wd_conns w c)) = state_of w c \<Longrightarrow> pn_uploadQueueRank (f (wd_conns w c)) = rank_of w c \<Longrightarrow>
      R w (upd_conn c f w)"
    and kick: "R w (upd_queue (\<lambda>q. q\<lparr>uq_allowKicking := b\<rparr>) w)"
    and connections: "R w (w\<lparr>wd_connections := filter Q (wd_connections w)\<rparr>)"
begin

lemma after_round:
  "R u w \<Longrightarrow> R u (upd_queue (\<lambda>q. q\<lparr>uq_allowKicking := b\<rparr>) w)"
  "R u w \<Longrightarrow> R u (w\<lparr>wd_connections := filter Q (wd_connections w)\<rparr>)"
  by (rule trans, assumption, rule kick connections)+

lemma after_any:
  "R u w \<Longrightarrow> pn_uploadState (f (wd_conns w c)) = state_of w c \<Longrightarrow> pn_uploadQueueRank (f (wd_conns w c)) = rank_of w c \<Longrightarrow>
     R u (upd_conn c f w)"
  by (rule trans [OF _ conn_any])

lemma SendPart_R: "SendPart b e payload c w = (w', r) \<Longrightarrow> R u w \<Longrightarrow> R u w'"
  by (auto simp: SendPart_def Let_def IncomingBytes_def QueuePacketWithStats_def split: option.splits if_splits sum.splits
      intro!: after)

lemma send_parts_R: "send_parts n b payload c' w = (w', r) \<Longrightarrow> c' = c \<Longrightarrow> R w w'"
proof (induction n b payload c' w arbitrary: w' r rule: send_parts.induct)
  case (1 n b payload c' w)
  obtain v sent where v: "SendPart b (b + int (next_packetSize n (length payload)))
      (take (next_packetSize n (length payload)) payload) c w = (v, sent)" by fastforce
  have R: "R w v" using SendPart_R [OF v same] .
  show ?case
    using 1(2,3) R 1(1) [OF _ refl refl v [unfolded 1(3) [symmetric], symmetric]] v trans
    by (subst (asm) send_parts.simps) (auto simp: Let_def same split: if_splits)
qed

lemma out_of_parts_R: "R u w \<Longrightarrow> R u (SendOutOfPartReqsAndAddToWaitingQueue c w)"
  unfolding SendOutOfPartReqsAndAddToWaitingQueue_def
  by (intro after_others(5) after_any after_sends) (simp_all add: ClearUploadBlockRequests_def)

lemma send_block_R: "send_block io blk t c w = Some w' \<Longrightarrow> R u w \<Longrightarrow> R u w'"
proof -
  assume sb: "send_block io blk t c w = Some w'" and R: "R u w"
  have v: "R u v" if "send_parts n b payload c (upd_transfer t (\<lambda>_. tr) w) = (v, sent)" for n b payload tr v sent
    using send_parts_R [OF that refl] trans [OF after_others(1) [OF R]] by blast
  show ?thesis
    using sb R by (auto simp: send_block_def Let_def split: option.splits bool.splits prod.splits sum.splits if_splits
        dest!: v intro!: out_of_parts_R after_others after_any)
qed

lemma SendBlockData_R: "SendBlockData io c w = Some w' \<Longrightarrow> R w w'"
proof -
  have R: "R w (upd_conn c (\<lambda>p. p\<lparr>pn_uploadBlocks := blocks\<rparr>) w)" for blocks
    by (intro conn_any) simp_all
  assume "SendBlockData io c w = Some w'"
  then show "R w w'"
    by (auto simp: SendBlockData_def CheckForTimeOver_def Let_def same
        split: if_splits list.splits option.splits intro!: out_of_parts_R after_others after_round
        dest!: send_block_R [OF _ R])
qed

lemma serve_client_R: "serve_client io c w = Some w' \<Longrightarrow> R w w'"
  by (auto simp: serve_client_def dest: SendBlockData_R split: if_splits intro: unqueue)

lemma refreshStats_R: "R u w \<Longrightarrow> R u (refreshStats t w)"
  by (simp add: refreshStats_def after)

lemma AbortAllRequests_R: "AbortAllRequests c w = Some w' \<Longrightarrow> R u w \<Longrightarrow> R u w'"
  by (auto simp: AbortAllRequests_def Let_def split: option.splits intro!: after_any after_others)

lemma RemovePeerConnection_R: "RemovePeerConnection t c w = Some w' \<Longrightarrow> R u w \<Longrightarrow> R u w'"
  by (auto simp: RemovePeerConnection_def Let_def intro!: after_any after_others)

lemma leave_transfer_R: "leave_transfer c w = Some w' \<Longrightarrow> R u w \<Longrightarrow> R u w'"
  by (auto simp: leave_transfer_def t_AddStats_def split: option.splits Option.bind_splits
      dest!: AbortAllRequests_R [of _ _ u] RemovePeerConnection_R [of _ _ _ u] intro!: after_any after_others refreshStats_R)

lemma OnDisconnect_R: "OnDisconnect ec c w = Some w' \<Longrightarrow> R w w'"
  by (auto simp: OnDisconnect_def Let_def CloseConnection_def
      dest!: leave_transfer_R [of _ _ w] split: if_splits intro!: after_round after_any after_others same)

lemma end_if_closed_R: "end_if_closed c w = Some w' \<Longrightarrow> R w w'"
  by (auto simp: end_if_closed_def Let_def MarkDisconnectHandled_def dest!: OnDisconnect_R split: if_splits
      intro!: after_any same)

lemma read_R: "read_connection inflate c w = Some w' \<Longrightarrow> R w w'"
proof -
  have keeps: "keeps R (ProcessIncoming inflate c)" using process_R by (auto simp: keeps_def)
  assume "read_connection inflate c w = Some w'"
  then show "R w w'"
    using process_R pending_R [OF _ same keeps] by (auto simp: read_connection_def split: if_splits)
qed

lemma pump_R: "pump_connection inflate wr rd c w = Some w' \<Longrightarrow> R w w'"
proof -
  assume p: "pump_connection inflate wr rd c w = Some w'"
  have "pn_uploadState (fst (DoRead now rd (fst (FlushOutgoing wr q)))) = pn_uploadState q \<and>
      pn_uploadQueueRank (fst (DoRead now rd (fst (FlushOutgoing wr q)))) = pn_uploadQueueRank q" for q :: PeerConnection and now
    by (simp add: DoRead_def FlushOutgoing_def Let_def co_Close_def split: socket_read.split socket_write.split list.split)
  then have "R w (upd_conn c (\<lambda>q. fst (DoRead (wd_now w) rd (fst (FlushOutgoing wr q)))) w)"
    by (intro conn_any) simp_all
  with p show ?thesis
    by (auto simp: pump_connection_def Let_def split: if_splits Option.bind_splits
        dest!: read_R end_if_closed_R intro: trans)
qed

end

section \<open>The invariant\<close>

text \<open>Connections from \<open>wd_next\<close> on have not been made: they neither wait nor upload.\<close>

definition fresh :: "World \<Rightarrow> bool" where
  "fresh w \<longleftrightarrow> (\<forall>d \<ge> wd_next w. state_of w d = UploadStateNone)"

definition world_ok :: "World \<Rightarrow> bool" where
  "world_ok w \<longleftrightarrow> slots_ok w \<and> fresh w \<and> (\<forall>c \<in> set (wd_connections w). c < wd_next w)"

definition moves :: "nat \<Rightarrow> World \<Rightarrow> World \<Rightarrow> bool" where
  "moves c w w' \<longleftrightarrow> wd_next w' = wd_next w \<and> set (wd_connections w') \<subseteq> set (wd_connections w) \<and>
     (slots_ok w \<and> fresh w \<and> c < wd_next w \<longrightarrow> slots_ok w' \<and> fresh w')"

lemma fresh_cong: "fresh w \<Longrightarrow> wd_next w \<le> wd_next w' \<Longrightarrow> (\<And>d. wd_next w' \<le> d \<Longrightarrow> state_of w' d = state_of w d) \<Longrightarrow> fresh w'"
  by (simp add: fresh_def)

lemma moves_own: "own c w w' \<Longrightarrow> (slots_ok w \<Longrightarrow> slots_ok w') \<Longrightarrow> moves c w w'"
  by (auto simp: moves_def own_def intro: fresh_cong)

lemma moves_same_queue:
  "wd_next w' = wd_next w \<Longrightarrow> set (wd_connections w') \<subseteq> set (wd_connections w) \<Longrightarrow> uq_waiting (wd_queue w') = uq_waiting (wd_queue w) \<Longrightarrow>
     uq_uploading (wd_queue w') = uq_uploading (wd_queue w) \<Longrightarrow> (\<And>d. state_of w' d = state_of w d) \<Longrightarrow>
     (\<And>d. rank_of w' d = rank_of w d) \<Longrightarrow> moves c w w'"
  by (auto simp: moves_def elim: slots_ok_cong fresh_cong)

lemma world_frame [simp]:
  "wd_queue (upd_transfer t h w) = wd_queue w" "wd_conns (upd_transfer t h w) = wd_conns w"
  "wd_queue (note_effects t effs w) = wd_queue w" "wd_conns (note_effects t effs w) = wd_conns w"
  "wd_queue (snd (next_random w)) = wd_queue w" "wd_conns (snd (next_random w)) = wd_conns w"
  by (simp_all add: upd_transfer_def note_effects_def next_random_def)

interpretation session: round_steps "moves c" c for c
proof unfold_locales
  show "moves c w (AddClientToQueue c w)" for w by (rule moves_own [OF own_AddClient AddClientToQueue_ok])
  show "moves c w (fst (RemoveFromUploadQueue c w))" for w by (rule moves_own [OF own_uploading RemoveFromUploadQueue_ok(1)])
  show "moves c u w" if "moves c u v" and "moves c v w" for u v w using that by (auto simp: moves_def)
qed (auto intro!: moves_same_queue)

lemma moves_ok: "moves c w w' \<Longrightarrow> world_ok w \<Longrightarrow> c < wd_next w \<Longrightarrow> world_ok w'"
  by (auto simp: moves_def world_ok_def)

lemma moves_next: "moves c w w' \<Longrightarrow> wd_next w' = wd_next w"
  by (simp add: moves_def)

lemma members:
  assumes "world_ok w"
  shows "c \<in> set (uq_uploading (wd_queue w)) \<Longrightarrow> c < wd_next w" and "c \<in> set (uq_waiting (wd_queue w)) \<Longrightarrow> c < wd_next w"
    and "c \<in> set (wd_connections w) \<Longrightarrow> c < wd_next w"
proof -
  have st: "state_of w c = UploadStateUploading \<longleftrightarrow> c \<in> set (uq_uploading (wd_queue w))"
    "c \<in> set (uq_waiting (wd_queue w)) \<Longrightarrow> state_of w c = UploadStateOnQueue"
    using assms by (auto simp: world_ok_def slots_ok_def Let_def)
  have "state_of w c \<noteq> UploadStateNone \<Longrightarrow> c < wd_next w" using assms by (auto simp: world_ok_def fresh_def not_le)
  with st show "c \<in> set (uq_uploading (wd_queue w)) \<Longrightarrow> c < wd_next w" "c \<in> set (uq_waiting (wd_queue w)) \<Longrightarrow> c < wd_next w"
    by force+
qed (use assms in \<open>simp add: world_ok_def\<close>)

section \<open>Rounds keep it\<close>

lemma slots_sortWaiting: "slots_ok w \<Longrightarrow> slots_ok (sortWaiting w)"
  using sortWaiting_ok [of w] by (simp add: slots_ok_def Let_def)

lemma session_sortWaiting: "world_ok w \<Longrightarrow> world_ok (sortWaiting w)"
  by (auto simp: world_ok_def slots_sortWaiting elim: fresh_cong)

lemma session_queue:
  "world_ok w \<Longrightarrow> (\<And>q. uq_waiting (f q) = uq_waiting q \<and> uq_uploading (f q) = uq_uploading q) \<Longrightarrow> world_ok (upd_queue f w)"
  by (auto simp: world_ok_def upd_slots_ok elim: fresh_cong)

lemma next_client_lists: "next_client cs w = (w', r) \<Longrightarrow> wd_next w' = wd_next w \<and> wd_connections w' = wd_connections w"
  by (induction cs w rule: next_client.induct) (auto split: if_splits)

lemma session_next_client:
  assumes ok: "world_ok w" and room: "length (uq_uploading (wd_queue w)) < maxUploading"
  shows "world_ok (addUpNextClient None w)"
proof -
  obtain w1 r where n: "next_client (uq_waiting (wd_queue w)) w = (w1, r)" by fastforce
  note f = next_client_frame [OF n] and l = next_client_lists [OF n]
  have slots: "slots_ok (addUpNextClient None w)"
    using addUpNextClient_ok [of w None] ok room by (simp add: world_ok_def)
  have "fresh (addUpNextClient None w) \<and> wd_connections (addUpNextClient None w) = wd_connections w \<and>
      wd_next (addUpNextClient None w) = wd_next w"
  proof (cases r)
    case None
    then show ?thesis using ok n f l by (auto simp: addUpNextClient_def world_ok_def elim: fresh_cong)
  next
    case (Some c)
    then have c: "c < wd_next w" using f members(2) [OF ok] by blast
    let ?w2 = "recomputeRanks (upd_queue (\<lambda>q. q\<lparr>uq_waiting := remove1 c (uq_waiting q)\<rparr>) w1)"
    have "state_of (grant c ?w2) d = state_of w d" if "wd_next w \<le> d" for d
      using c that f own_grant [of c ?w2] by (simp add: own_def)
    then show ?thesis
      using n Some l ok by (auto simp: addUpNextClient_def world_ok_def elim!: fresh_cong)
  qed
  with slots ok show ?thesis by (simp add: world_ok_def)
qed

lemma session_open_slot: "world_ok w \<Longrightarrow> world_ok (open_slot w)"
  using room [of w False]
  by (auto simp: open_slot_def Let_def world_ok_def [of w] intro!: session_queue session_next_client) 

lemma session_serve_clients:
  "serve_clients io cs w = Some w' \<Longrightarrow> world_ok w \<Longrightarrow> \<forall>c \<in> set cs. c < wd_next w \<Longrightarrow> world_ok w'"
proof (induction io cs w arbitrary: w' rule: serve_clients.induct)
  case (2 io c cs w)
  then obtain v where v: "serve_client io c w = Some v" "serve_clients io cs v = Some w'" by (auto split: Option.bind_splits)
  note m = session.serve_client_R [OF v(1)]
  have "c < wd_next w" using 2(4) by simp
  from 2(1) [OF v moves_ok [OF m 2(3) this]] 2(4) show ?case by (simp add: moves_next [OF m])
qed simp

lemma session_Process: "uq_Process io w = Some w' \<Longrightarrow> world_ok w \<Longrightarrow> world_ok w'"
proof -
  assume p: "uq_Process io w = Some w'" and ok: "world_ok w"
  note ok1 = session_open_slot [OF ok]
  from p obtain v where v: "serve_clients io (uq_uploading (wd_queue (open_slot w))) (open_slot w) = Some v"
    "w' = (if wd_now v - uq_lastSort (wd_queue v) > Minutes 2 then sortWaiting v else v)"
    by (auto simp: uq_Process_def Let_def split: Option.bind_splits)
  have "world_ok v" using session_serve_clients [OF v(1) ok1] members(1) [OF ok1] by blast
  then show ?thesis using v(2) session_sortWaiting by simp
qed

lemma own_suspend: "own c w (fst (suspend_client h terminate c (w, n)))"
proof -
  have "own c w (enqueue c (fst (RemoveFromUploadQueue c w)))" by (rule own_trans [OF own_uploading own_enqueue])
  then show ?thesis by (auto simp: suspend_client_def Let_def own_def split: option.split)
qed

lemma session_suspend: "world_ok w \<Longrightarrow> world_ok (fst (SuspendUpload h terminate w))"
proof -
  assume ok: "world_ok w"
  have "world_ok (fst (fold (suspend_client h terminate) cs (v, n)))" if "world_ok v" "\<forall>c \<in> set cs. c < wd_next v" for cs v n
    using that
  proof (induction cs arbitrary: v n)
    case (Cons c cs)
    obtain v' n' where s: "suspend_client h terminate c (v, n) = (v', n')" by fastforce
    then have m: "moves c v v'"
      using moves_own [OF own_suspend suspend_client_ok] by (metis fst_conv)
    have "world_ok v'" using moves_ok [OF m] Cons.prems by simp
    from Cons.IH [OF this] Cons.prems(2) s show ?case by (simp add: moves_next [OF m])
  qed simp
  moreover have "world_ok (upd_queue (\<lambda>q. q\<lparr>uq_suspended := List.insert (hash_String h) (uq_suspended q)\<rparr>) w)"
    by (rule session_queue [OF ok]) simp
  ultimately show ?thesis using ok members(1) [OF ok] by (simp add: SuspendUpload_def Let_def)
qed

text \<open>A new connection.\<close>

lemma session_new:
  assumes "world_ok w" and "pn_uploadState p = UploadStateNone"
  shows "world_ok ((upd_conn (wd_next w) (\<lambda>_. p) w)
    \<lparr>wd_connections := wd_connections w @ [wd_next w], wd_next := Suc (wd_next w)\<rparr>)" (is "world_ok ?w")
proof -
  have st: "state_of ?w d = state_of w d" for d
    using assms by (auto simp: world_ok_def fresh_def)
  have "wd_next w \<notin> set (uq_waiting (wd_queue w))" using members(2) [OF assms(1)] by blast
  then have rk: "rank_of ?w d = rank_of w d" if "d \<in> set (uq_waiting (wd_queue w))" for d using that by auto
  have slots: "slots_ok w" using assms(1) by (simp add: world_ok_def)
  have "ranked ?w" using slots rk by (auto simp: slots_ok_def ranked_def Let_def simp del: upd_conn_frame(7))
  then have "slots_ok ?w"
    using slots st unfolding slots_ok_def Let_def by (simp del: upd_conn_frame(7) fun_upd_apply)
  moreover have "fresh ?w" using assms st by (auto simp: world_ok_def fresh_def)
  ultimately show ?thesis using assms by (auto simp: world_ok_def)
qed

lemma session_accept: "world_ok w \<Longrightarrow> world_ok (acceptIncomingConnections remotes w)"
proof -
  have new: "world_ok (accept remote w)" if "world_ok w" for remote w
    using session_new [OF that, of "NewIncomingPeerConnection (wd_now w) remote"]
    by (simp add: accept_def Let_def NewIncomingPeerConnection_def NewPeerConnection_def Connection.defs)
  show "world_ok w \<Longrightarrow> world_ok (acceptIncomingConnections remotes w)"
    by (simp add: acceptIncomingConnections_def, induction remotes arbitrary: w) (simp_all add: new)
qed

lemma session_cong:
  "world_ok w \<Longrightarrow> wd_next w' = wd_next w \<Longrightarrow> wd_connections w' = wd_connections w \<Longrightarrow> wd_queue w' = wd_queue w \<Longrightarrow>
     (\<And>d. state_of w' d = state_of w d) \<Longrightarrow> (\<And>d. rank_of w' d = rank_of w d) \<Longrightarrow> world_ok w'"
  by (auto simp: world_ok_def elim: slots_ok_cong fresh_cong)

lemma session_transfer: "world_ok w \<Longrightarrow> world_ok (upd_transfer t h w)"
  by (erule session_cong) simp_all

lemma pn_Connect_moves: "pn_Connect resolve dial c w = (w', e) \<Longrightarrow> moves c w w'"
proof -
  assume con: "pn_Connect resolve dial c w = (w', e)"
  have "moves c w (upd_conn c (\<lambda>_. p) w)" if "co_Connect now dial (wd_conns w c) = (p, err)" for now p err
    by (rule session.conn_any) (use that in \<open>auto simp: co_Connect_def co_Close_def split: option.splits if_splits\<close>)
  with con show ?thesis
    by (auto simp: pn_Connect_def OnConnect_def Let_def split: option.splits prod.splits
        intro!: session.after_send session.same)
qed

lemma session_ConnectToPeer: "world_ok w \<Longrightarrow> world_ok (fst (ConnectToPeer net t i w))"
proof -
  assume ok: "world_ok w"
  define ep where "ep = pe_Endpoint (po_peers (t_policy (wd_transfers w t)) ! i)"
  define f where "f = (\<lambda>tr :: Transfer. tr\<lparr>t_policy := (t_policy tr)\<lparr>po_peers := (po_peers (t_policy tr))[i :=
      (po_peers (t_policy tr) ! i)\<lparr>pe_LastConnected := wd_now w, pe_NextConnection := 0, pe_Connection := Some (wd_next w)\<rparr>]\<rparr>\<rparr>)"
  define w1 where "w1 = upd_transfer t f w"
  define w2 where "w2 = (upd_conn (wd_next w1) (\<lambda>_. NewPeerConnection (wd_now w1) ep (Some t) (Some i)) w1)
      \<lparr>wd_connections := wd_connections w1 @ [wd_next w1], wd_next := Suc (wd_next w1)\<rparr>"
  define w3 where "w3 = upd_transfer t (\<lambda>tr. tr\<lparr>t_connections := t_connections tr @ [wd_next w]\<rparr>) w2"
  have next1: "wd_next w1 = wd_next w" "wd_now w1 = wd_now w" by (simp_all add: w1_def upd_transfer_def)
  have "world_ok w1" unfolding w1_def by (rule session_transfer [OF ok])
  then have "world_ok w2" unfolding w2_def
    by (rule session_new) (simp add: NewPeerConnection_def Connection.defs)
  then have ok3: "world_ok w3" unfolding w3_def by (rule session_transfer)
  obtain w4 e where w4: "pn_Connect (fst (net (wd_next w))) (snd (net (wd_next w))) (wd_next w) w3 = (w4, e)" by fastforce
  have "wd_next w < wd_next w3" by (simp add: w3_def w2_def next1)
  then have "world_ok w4" using moves_ok [OF pn_Connect_moves [OF w4] ok3] by simp
  moreover have "ConnectToPeer net t i w = (w4, e = None)"
    unfolding ConnectToPeer_def Let_def using w4
    by (simp add: w3_def w2_def w1_def f_def ep_def next1 upd_transfer_def)
  ultimately show ?thesis by simp
qed

lemma session_TryConnect: "TryConnectPeer net t w = Some (w', new) \<Longrightarrow> world_ok w \<Longrightarrow> world_ok w'"
proof -
  have "world_ok w'" if "ConnectOnePeer net t w = Some (w', new)" and "world_ok w"
    using that session_ConnectToPeer [of "upd_transfer t h w" net t i for h i] session_transfer
    by (auto simp: ConnectOnePeer_def Let_def split: option.splits dest!: arg_cong [of _ _ fst])
  then show "TryConnectPeer net t w = Some (w', new) \<Longrightarrow> world_ok w \<Longrightarrow> world_ok w'"
    by (auto simp: TryConnectPeer_def split: if_splits)
qed

lemma session_tick_connections: "tick_connections ms cs w = Some w' \<Longrightarrow> world_ok w \<Longrightarrow> world_ok w'"
proof (induction ms cs w rule: tick_connections.induct)
  case (2 ms c cs w)
  from 2(2) obtain p where p: "pn_SecondTick (set_PeerConnectionTimeout (wd_settings w)) (wd_now w) ms (wd_conns w c) = Some p"
    "tick_connections ms cs (upd_conn c (\<lambda>_. p) w) = Some w'" by (auto split: option.splits)
  have "pn_uploadState p = state_of w c \<and> pn_uploadQueueRank p = rank_of w c"
    using p(1) by (auto simp: pn_SecondTick_def co_SecondTick_def co_Close_def split: if_splits option.splits)
  then have "world_ok (upd_conn c (\<lambda>_. p) w)" by (intro session_cong [OF 2(3)]) simp_all
  from 2(1) [OF p(1,2) this] show ?case .
qed simp

lemma session_tick: "t_SecondTick server dht ms t w = Some w' \<Longrightarrow> world_ok w \<Longrightarrow> world_ok w'"
proof -
  assume tick: "t_SecondTick server dht ms t w = Some w'" and ok: "world_ok w"
  have "world_ok (look_for_sources server dht t w)"
    using ok by (simp add: look_for_sources_def Let_def session_transfer)
  moreover have "world_ok (w\<lparr>wd_accumulator := a\<rparr>)" if "world_ok w" for w a
    using that by (rule session_cong) simp_all
  ultimately show ?thesis
    using tick by (auto simp: t_SecondTick_def Let_def refreshStats_def intro!: session_transfer dest: session_tick_connections)
qed

lemma session_remove: "world_ok w \<Longrightarrow> world_ok (RemoveTransfer h deleteFile w)"
proof -
  assume ok: "world_ok w"
  have "world_ok (close_conn ec c w)" if "world_ok w" for ec c w
    by (rule session_cong [OF that]) (simp_all add: close_conn_def co_Close_def)
  then have close: "world_ok (apply_close e w)" if "world_ok w" for e w
    using that by (simp add: apply_close_def split: effect.split)
  have fold: "world_ok (fold apply_close effs w)" if "world_ok w" for effs w
    using that by (induction effs arbitrary: w) (simp_all add: close)
  have "world_ok (with_effects t r w)" for t r
    by (rule session_cong [OF ok]) (simp_all add: with_effects_def)
  then have "world_ok (fold apply_close effs (with_effects t r w))" for effs t r by (rule fold)
  moreover have "world_ok (v\<lparr>wd_byHash := m\<rparr>)" if "world_ok v" for v m
    by (rule session_cong [OF that]) simp_all
  ultimately show ?thesis using ok by (auto simp: RemoveTransfer_def Let_def split: option.split prod.split)
qed

section \<open>Sessions\<close>

text \<open>
  A session as it starts, with the transfers and settings it is given, and what happens in it: rounds over its
  connections, sockets, the upload queue's work, ticks, dialling, the clock and commands of the user, and closing;
  \<open>transfers\<close> stands for all that only changes transfers or their table: adding, pausing and
  resuming them, resume data and the results of disk tasks.
\<close>

definition new_session :: "(nat \<Rightarrow> Transfer) \<Rightarrow> (hash \<times> nat) list \<Rightarrow> Settings \<Rightarrow> int \<Rightarrow> (nat \<Rightarrow> int) \<Rightarrow> World" where
  "new_session transfers byHash st now random =
     \<lparr>wd_conns = (\<lambda>_. NewPeerConnection now \<lparr>ep_ip = 0, ep_port = 0\<rparr> None None), wd_transfers = transfers, wd_byHash = byHash,
      wd_connections = [], wd_queue = NewUploadQueue, wd_credits = [], wd_friendSlots = [], wd_settings = st,
      wd_clientID = 0, wd_accumulator = NewStatistics, wd_next = 0, wd_now = now, wd_random = random, wd_effects = []\<rparr>"

inductive world_step :: "World \<Rightarrow> World \<Rightarrow> bool" where
  pump: "c \<in> set (wd_connections w) \<Longrightarrow> pump_connection inflate wr rd c w = Some w' \<Longrightarrow> world_step w w'"
| slots: "uq_Process io w = Some w' \<Longrightarrow> world_step w w'"
| accepting: "world_step w (acceptIncomingConnections remotes w)"
| dial: "TryConnectPeer net t w = Some (w', new) \<Longrightarrow> world_step w w'"
| tick: "t_SecondTick server dht ms t w = Some w' \<Longrightarrow> world_step w w'"
| suspend: "world_step w (fst (SuspendUpload h terminate w))"
| resume: "world_step w (ResumeUpload h w)"
| remove: "world_step w (RemoveTransfer h deleteFile w)"
| friend: "world_step w (SetFriendSlot_session h enabled w)"
| clock: "world_step w (w\<lparr>wd_now := now\<rparr>)"
| configure: "world_step w (w\<lparr>wd_settings := st\<rparr>)"
| transfers: "world_step w (w\<lparr>wd_transfers := ts, wd_byHash := m\<rparr>)"
| closing: "world_step w (close_conn ec c w)"

inductive in_world :: "World \<Rightarrow> bool" where
  start: "in_world (new_session transfers byHash st now random)"
| step: "in_world w \<Longrightarrow> world_step w w' \<Longrightarrow> in_world w'"

lemma world_step_ok: "world_step w w' \<Longrightarrow> world_ok w \<Longrightarrow> world_ok w'"
proof (induction rule: world_step.induct)
  case (pump c w inflate wr rd w')
  show ?case by (rule moves_ok [OF session.pump_R [OF pump(2)] pump(3)]) (use pump in \<open>simp add: world_ok_def\<close>)
next
  case (resume w h)
  then show ?case by (simp add: ResumeUpload_def session_queue)
next
  case (friend w h enabled)
  then show ?case by (rule session_cong) (simp_all add: SetFriendSlot_session_def)
next
  case (clock w now)
  then show ?case by (rule session_cong) simp_all
next
  case (configure w st)
  then show ?case by (rule session_cong) simp_all
next
  case (transfers w ts m)
  then show ?case by (rule session_cong) simp_all
next
  case (closing w ec c)
  then show ?case by (rule session_cong) (simp_all add: close_conn_def co_Close_def)
qed (auto simp: session_accept session_suspend session_remove dest: session_Process session_TryConnect session_tick)

lemma in_world_ok: "in_world w \<Longrightarrow> world_ok w"
proof (induction rule: in_world.induct)
  case start
  show ?case
    by (simp add: new_session_def world_ok_def slots_ok_def fresh_def ranked_def NewUploadQueue_def
        NewPeerConnection_def Connection.defs Let_def)
next
  case step
  then show ?case using world_step_ok by blast
qed

end
