(* ===== verification/Transfer_Status.thy ===== *)
theory Transfer_Status
  imports Peer_Session
begin

text \<open>
  What a transfer reports: its status and the progress of its pieces (\<^verbatim>\<open>transfer.go\<close>,
  \<^verbatim>\<open>transfer_status.go\<close>, \<^verbatim>\<open>piece_snapshot.go\<close>). \<open>None\<close> is a panic.
\<close>

definition InvalidETA :: int where "InvalidETA = -1"

record TransferStatus =
  ts_Paused :: bool
  ts_DownloadRate :: int
  ts_Upload :: int
  ts_UploadRate :: int
  ts_NumPeers :: nat
  ts_DownloadingPieces :: nat
  ts_TotalDone :: int
  ts_TotalReceived :: int
  ts_TotalWanted :: int
  ts_ETA :: int
  ts_Pieces :: BitField
  ts_NumPieces :: nat
  ts_State :: TransferState

datatype PieceSnapshotState = PieceSnapshotMissing | PieceSnapshotDownloading | PieceSnapshotFinished

record PieceSnapshot =
  ps_Index :: int
  ps_State :: PieceSnapshotState
  ps_TotalBytes :: int
  ps_DoneBytes :: int
  ps_ReceivedBytes :: int
  ps_BlocksTotal :: int
  ps_BlocksDone :: int
  ps_BlocksWriting :: int
  ps_BlocksPending :: int

section \<open>Bytes\<close>

definition pieceSize :: "int \<Rightarrow> Transfer \<Rightarrow> int" where
  "pieceSize pieceIndex t =
     (if pieceIndex < 0 \<or> pieceIndex \<ge> t_numPieces t then 0
      else
        (let begin = pieceIndex * PieceSize
         in if begin \<ge> t_size t then 0
            else (let end = begin + PieceSize in (if end > t_size t then t_size t else end) - begin)))"

text \<open>The sum over numbers, a panic in any of them being a panic.\<close>

fun sum_opt :: "int option list \<Rightarrow> int option" where
  "sum_opt [] = Some 0"
| "sum_opt (x # xs) = (case (x, sum_opt xs) of (Some a, Some b) \<Rightarrow> Some (a + b) | _ \<Rightarrow> None)"

text \<open>The most that has been received of a block in flight, by the block's offset.\<close>

fun add_inflight :: "Transfer \<Rightarrow> PendingBlock list \<Rightarrow> (int \<times> int) list \<Rightarrow> (int \<times> int) list option" where
  "add_inflight t [] m = Some m"
| "add_inflight t (pb # pbs) m =
     (if pk_Received pb \<le> 0 then add_inflight t pbs m
      else (case IsBlockDownloaded (pk_Block pb) (t_picker t) of
              None \<Rightarrow> None
            | Some True \<Rightarrow> add_inflight t pbs m
            | Some False \<Rightarrow>
                (let blockSize = pb_Size (pk_Block pb) (t_size t);
                     received = (if pk_Received pb > blockSize then blockSize else pk_Received pb);
                     key = BlocksOffset (pk_Block pb);
                     known = (case map_of m key of None \<Rightarrow> 0 | Some r \<Rightarrow> r)
                 in add_inflight t pbs (if known < received then AList.update key received m else m))))"

definition inflightBlockReceived :: "Transfer \<Rightarrow> World \<Rightarrow> (int \<times> int) list option" where
  "inflightBlockReceived t w =
     add_inflight t
       (concat (map (\<lambda>c. pn_downloadQueue (wd_conns w c))
          (filter (\<lambda>c. \<not> co_disconnecting (wd_conns w c)) (t_connections t)))) []"

definition receivedBytes :: "int \<Rightarrow> Transfer \<Rightarrow> World \<Rightarrow> int option" where
  "receivedBytes totalDone t w =
     map_option (\<lambda>m. let totalReceived = totalDone + sum_list (map snd m)
                     in if totalReceived > t_size t then t_size t else totalReceived)
       (inflightBlockReceived t w)"

definition have_bytes :: "Transfer \<Rightarrow> int \<Rightarrow> int option" where
  "have_bytes t i = map_option (\<lambda>have_it. if have_it then pieceSize i t else 0) (HavePiece i (t_picker t))"

definition block_bytes :: "Transfer \<Rightarrow> DownloadingPiece \<Rightarrow> int \<Rightarrow> int option" where
  "block_bytes t dp j =
     map_option (\<lambda>d. if d then pb_Size (NewPieceBlock (dp_PieceIndex dp) j) (t_size t) else 0) (dp_IsDownloaded j dp)"

definition downloading_bytes :: "Transfer \<Rightarrow> DownloadingPiece \<Rightarrow> int option" where
  "downloading_bytes t dp =
     (case HavePiece (dp_PieceIndex dp) (t_picker t) of
        None \<Rightarrow> None
      | Some True \<Rightarrow> Some 0
      | Some False \<Rightarrow> sum_opt (map (block_bytes t dp) [0..dp_blocksCount dp - 1]))"

definition total_done :: "Transfer \<Rightarrow> int option" where
  "total_done t =
     (case (sum_opt (map (have_bytes t) [0..int (TotalPieces (t_picker t)) - 1]),
            sum_opt (map (downloading_bytes t) (pp_downloadingPieces (t_picker t)))) of
        (Some a, Some b) \<Rightarrow> Some (if a + b > t_size t then t_size t else a + b)
      | _ \<Rightarrow> None)"

section \<open>Reports\<close>

definition GetStatus :: "nat \<Rightarrow> World \<Rightarrow> TransferStatus option" where
  "GetStatus ti w =
     (let t = wd_transfers w ti
      in case total_done t of
           None \<Rightarrow> None
         | Some totalDone \<Rightarrow>
             (case receivedBytes totalDone t w of
                None \<Rightarrow> None
              | Some totalReceived \<Rightarrow>
                  (let state = (if t_pause t then PausedState
                         else if t_state t \<noteq> Finished \<and> totalDone \<ge> t_size t \<and> t_size t > 0 then Verifying
                         else t_state t);
                       averageSpeed = AverageSpeed (t_speedMon t);
                       eta = (if averageSpeed = InvalidSpeed \<or> averageSpeed = 0 then InvalidETA
                              else go_div (t_size t - totalDone) averageSpeed)
                   in case AvailablePieces t of
                        Inl e \<Rightarrow> None
                      | Inr pieces \<Rightarrow>
                          Some \<lparr>ts_Paused = t_pause t, ts_DownloadRate = DownloadRate (t_stat t),
                                ts_Upload = TotalUpload (t_stat t), ts_UploadRate = UploadRate (t_stat t),
                                ts_NumPeers = po_Size (t_policy t),
                                ts_DownloadingPieces = NumDownloadingPieces (t_picker t),
                                ts_TotalDone = totalDone, ts_TotalReceived = totalReceived,
                                ts_TotalWanted = t_size t, ts_ETA = eta, ts_Pieces = pieces,
                                ts_NumPieces = NumHave (t_picker t), ts_State = state\<rparr>)))"

text \<open>One block of a piece in progress.\<close>

definition count_block :: "Transfer \<Rightarrow> (int \<times> int) list \<Rightarrow> DownloadingPiece \<Rightarrow> int \<Rightarrow> PieceSnapshot \<Rightarrow> PieceSnapshot option" where
  "count_block t inflight dp j s =
     (let block = NewPieceBlock (ps_Index s) j; blockSize = pb_Size block (t_size t)
      in case idx (dp_Blocks dp) j of
           None \<Rightarrow> None
         | Some b \<Rightarrow>
             Some (if db_IsFinished b then
                     s\<lparr>ps_BlocksDone := ps_BlocksDone s + 1, ps_DoneBytes := ps_DoneBytes s + blockSize,
                       ps_ReceivedBytes := ps_ReceivedBytes s + blockSize\<rparr>
                   else if db_IsWriting b then
                     s\<lparr>ps_BlocksWriting := ps_BlocksWriting s + 1, ps_DoneBytes := ps_DoneBytes s + blockSize,
                       ps_ReceivedBytes := ps_ReceivedBytes s + blockSize\<rparr>
                   else if db_IsRequested b then
                     s\<lparr>ps_BlocksPending := ps_BlocksPending s + 1,
                       ps_ReceivedBytes := ps_ReceivedBytes s +
                         (case map_of inflight (BlocksOffset block) of None \<Rightarrow> 0 | Some r \<Rightarrow> r)\<rparr>
                   else s))"

fun count_blocks :: "Transfer \<Rightarrow> (int \<times> int) list \<Rightarrow> DownloadingPiece \<Rightarrow> int list \<Rightarrow> PieceSnapshot \<Rightarrow> PieceSnapshot option" where
  "count_blocks t inflight dp [] s = Some s"
| "count_blocks t inflight dp (j # js) s = count_block t inflight dp j s \<bind> count_blocks t inflight dp js"

definition piece_snapshot :: "Transfer \<Rightarrow> (int \<times> int) list \<Rightarrow> int \<Rightarrow> PieceSnapshot option" where
  "piece_snapshot t inflight i =
     (let total = pieceSize i t; blocks = pp_BlocksInPiece (t_picker t) i;
          s = \<lparr>ps_Index = i, ps_State = PieceSnapshotMissing, ps_TotalBytes = total, ps_DoneBytes = 0,
               ps_ReceivedBytes = 0, ps_BlocksTotal = blocks, ps_BlocksDone = 0, ps_BlocksWriting = 0,
               ps_BlocksPending = 0\<rparr>;
          cap = (\<lambda>n. if n > total then total else n)
      in case HavePiece i (t_picker t) of
           None \<Rightarrow> None
         | Some True \<Rightarrow> Some (s\<lparr>ps_State := PieceSnapshotFinished, ps_DoneBytes := total,
                               ps_ReceivedBytes := total, ps_BlocksDone := blocks\<rparr>)
         | Some False \<Rightarrow>
             map_option (\<lambda>s. s\<lparr>ps_ReceivedBytes := cap (ps_ReceivedBytes s), ps_DoneBytes := cap (ps_DoneBytes s)\<rparr>)
               (case GetDownloadingPiece (t_picker t) i of
                  None \<Rightarrow> Some s
                | Some dp \<Rightarrow> count_blocks t inflight dp [0..dp_blocksCount dp - 1] (s\<lparr>ps_State := PieceSnapshotDownloading\<rparr>)))"

fun all_some :: "'a option list \<Rightarrow> 'a list option" where
  "all_some [] = Some []"
| "all_some (x # xs) = (case (x, all_some xs) of (Some a, Some b) \<Rightarrow> Some (a # b) | _ \<Rightarrow> None)"

definition PieceSnapshots :: "nat \<Rightarrow> World \<Rightarrow> PieceSnapshot list option" where
  "PieceSnapshots ti w =
     (let t = wd_transfers w ti
      in case inflightBlockReceived t w of
           None \<Rightarrow> None
         | Some inflight \<Rightarrow> all_some (map (piece_snapshot t inflight) [0..int (TotalPieces (t_picker t)) - 1]))"

end
