(* ===== verification/Peer_Properties.thy ===== *)
theory Peer_Properties
  imports Block_Arrival Session_Steps Transfer_Status Session_Properties
begin

text \<open>
  What sessions guarantee between peers: a block that one client sends arrives whole at the other,
  the upload queue stays in order, processing what peers send ends, and what is reported is bounded.
\<close>

section \<open>A block from client to client\<close>

text \<open>
  The first block that the peer of the connection \<open>u\<close> asked for is \<open>block\<close> of the transfer \<open>t\<close>, with the bytes \<open>payload\<close>.
\<close>

definition uploads_block :: "io \<Rightarrow> nat \<Rightarrow> nat \<Rightarrow> PieceBlock \<Rightarrow> bytes \<Rightarrow> World \<Rightarrow> bool" where
  "uploads_block io u t block payload w \<longleftrightarrow>
     (let p = wd_conns w u; tr = wd_transfers w t; r = pb_Range block (t_size tr)
      in pn_uploadState p = UploadStateUploading \<and> \<not> snd (CheckForTimeOver u w) \<and> pn_transfer p = Some t \<and>
         pn_uploadBlocks p \<noteq> [] \<and> ub_Begin (hd (pn_uploadBlocks p)) = Left r \<and> ub_End (hd (pn_uploadBlocks p)) = Right r \<and>
         CanUploadRange (Left r) (Right r) tr = Some True \<and> snd (t_ReadRange io (Left r) (Right r) tr) = Inr payload)"

text \<open>The connection \<open>c\<close> waits for \<open>block\<close>, which it has asked for.\<close>

definition waits_for :: "nat \<Rightarrow> nat \<Rightarrow> PieceBlock \<Rightarrow> World \<Rightarrow> bool" where
  "waits_for c t block w \<longleftrightarrow>
     (let p = wd_conns w c; tr = wd_transfers w t
      in co_socket p \<and> pn_transfer p = Some t \<and> \<not> pn_transferringData p \<and> co_incoming p = [] \<and>
         valid_block (t_size tr) block \<and>
         (\<exists>before now after. pn_downloadQueue p = before @ NewPendingBlock now block (t_size tr) # after \<and>
            (\<forall>pb \<in> set (before @ after). pb_Compare (pk_Block pb) block \<noteq> 0)))"

lemma pb_Compare_refl [simp]: "pb_Compare b b = 0"
  by (simp add: pb_Compare_def)

lemma GetDownloading_at:
  assumes "pn_downloadQueue p = before @ pb # after" and "pk_Block pb = block"
    and "\<forall>pb \<in> set before. pb_Compare (pk_Block pb) block \<noteq> 0"
  shows "GetDownloading block p = Some (length before)"
proof -
  have "\<exists>i. i < length [0..<length (pn_downloadQueue p)] \<and>
      pb_Compare (pk_Block (pn_downloadQueue p ! ([0..<length (pn_downloadQueue p)] ! i))) block = 0 \<and>
      length before = [0..<length (pn_downloadQueue p)] ! i \<and>
      (\<forall>j < i. pb_Compare (pk_Block (pn_downloadQueue p ! ([0..<length (pn_downloadQueue p)] ! j))) block \<noteq> 0)"
    using assms by (intro exI [of _ "length before"]) (auto simp: nth_append simp del: upt_Suc)
  then show ?thesis unfolding GetDownloading_def find_Some_iff by simp
qed

lemma waits_receiving:
  assumes "waits_for c t block w" and "wd_transfers w t = tr" and "int (length payload) = pb_Size block (t_size tr)"
  shows "receiving \<lparr>jb_conn = c, jb_addr = t, jb_transfer = tr, jb_effects = wd_effects w, jb_block = block,
      jb_bytes = payload, jb_others = filter (\<lambda>pb. pb_Compare (pk_Block pb) block \<noteq> 0) (pn_downloadQueue (wd_conns w c)),
      jb_parts = ps\<rparr> 0 w"
proof -
  obtain before now after where q: "pn_downloadQueue (wd_conns w c) = before @ NewPendingBlock now block (t_size tr) # after"
    "\<forall>pb \<in> set before. pb_Compare (pk_Block pb) block \<noteq> 0"
    using assms(1,2) unfolding waits_for_def Let_def by auto
  have "GetDownloading block (wd_conns w c) = Some (length before)"
    by (rule GetDownloading_at [OF q(1) _ q(2)]) (simp add: NewPendingBlock_def)
  then show ?thesis
    using assms unfolding receiving_def waits_for_def Let_def
    by (intro conjI exI [of _ "length before"]) (simp_all add: q(1) NewPendingBlock_def or_else_def)
qed

text \<open>What reading a range gives has its length.\<close>

lemma t_ReadRange_length: "snd (t_ReadRange io b e t) = Inr payload \<Longrightarrow> int (length payload) = e - b"
  by (auto simp: t_ReadRange_def pm_ReadRange_def read_at_def Let_def split: option.splits if_splits prod.splits)

lemma SendBlockData_sends:
  assumes up: "uploads_block io u t block payload w" and "payload \<noteq> []" and "0 \<le> Left (pb_Range block (t_size (wd_transfers w t)))"
  shows "\<exists>w'. SendBlockData io u w = Some w' \<and> co_outgoing (wd_conns w' u) = co_outgoing (wd_conns w u) @
    map (queued_part (wd_transfers w t))
      (cut_parts (first_packetSize (length payload)) (Left (pb_Range block (t_size (wd_transfers w t)))) payload)"
proof -
  let ?tr = "wd_transfers w t" and ?b = "Left (pb_Range block (t_size (wd_transfers w t)))" and ?e = "Right (pb_Range block (t_size (wd_transfers w t)))"
  obtain blk rest where blk: "pn_uploadBlocks (wd_conns w u) = blk # rest" "ub_Begin blk = ?b" "ub_End blk = ?e"
    using up by (cases "pn_uploadBlocks (wd_conns w u)") (auto simp: uploads_block_def Let_def)
  obtain tr where tr: "t_ReadRange io ?b ?e ?tr = (tr, Inr payload)"
    using up by (cases "t_ReadRange io ?b ?e ?tr") (auto simp: uploads_block_def Let_def)
  have fields: "t_size tr = t_size ?tr" "t_hash tr = t_hash ?tr"
    using tr by (auto simp: t_ReadRange_def Let_def split: option.splits prod.splits)
  have same: "queued_part tr = queued_part ?tr"
    by (rule ext) (simp add: queued_part_def part_bytes_def part_head_def part_packet_def part_key_def fields)
  have check: "CheckForTimeOver u w = (w, False)"
    using up by (auto simp: uploads_block_def CheckForTimeOver_def Let_def)
  let ?w1 = "upd_transfer t (\<lambda>_. tr) (upd_conn u (\<lambda>p. p\<lparr>pn_uploadBlocks := rest\<rparr>) w)"
  have "0 < first_packetSize (length payload)"
    using assms(2) by (auto simp: first_packetSize_def div_greater_zero_iff)
  moreover have "conn_transfer ?w1 u = Some tr" "co_outgoing (wd_conns ?w1 u) = co_outgoing (wd_conns w u)"
    using up by (simp_all add: conn_transfer_def uploads_block_def Let_def upd_transfer_def)
  ultimately obtain w2 where w2: "send_parts (first_packetSize (length payload)) ?b payload u ?w1 = (w2, True)"
    "co_outgoing (wd_conns w2 u) = co_outgoing (wd_conns w u) @ map (queued_part ?tr)
       (cut_parts (first_packetSize (length payload)) ?b payload)"
    using send_parts_queue [of ?w1 u tr ?b "first_packetSize (length payload)" payload] assms(3) same
    by (cases "send_parts (first_packetSize (length payload)) ?b payload u ?w1") auto
  then show ?thesis
    using up blk tr check assms(2)
    by (simp add: SendBlockData_def send_block_def uploads_block_def Let_def)
qed

lemma block_job_ok:
  assumes "valid_block (t_size t) block" and "int (length payload) = pb_Size block (t_size t)" and "payload \<noteq> []"
    and "wf_hash (t_hash t)" and "t_size t < 2 ^ 62"
  shows "job_ok \<lparr>jb_conn = c, jb_addr = a, jb_transfer = t, jb_effects = effs, jb_block = block, jb_bytes = payload,
      jb_others = others, jb_parts = cut_parts (first_packetSize (length payload)) (Left (pb_Range block (t_size t))) payload\<rparr>"
proof -
  have "0 < first_packetSize (length payload)"
    using assms(3) by (auto simp: first_packetSize_def div_greater_zero_iff)
  with assms cut_parts_of show ?thesis by (simp add: job_ok_def)
qed

text \<open>C3: a block that one client sends arrives at the other. What \<open>SendBlockData\<close> queues for the first
  requested block reaches the reading connection in reads of any size (none ends within the first five bytes
  of a frame, which the reader would drop): the reads never panic, and after the last one the transfer has
  been handed exactly the bytes that were read from the sender's file, every other request is still
  there, and new blocks are asked for.\<close>

theorem block_arrives:
  fixes up down :: World
  assumes up: "uploads_block io u tu block payload up" and down: "waits_for c t block down"
    and same: "t_hash (wd_transfers up tu) = t_hash (wd_transfers down t)" "t_size (wd_transfers up tu) = t_size (wd_transfers down t)"
    and ok: "wf_hash (t_hash (wd_transfers down t))" "t_size (wd_transfers down t) < 2 ^ 62"
    and r: "block_received block payload (wd_transfers down t) = Some r"
  shows "\<exists>up' sent. SendBlockData io u up = Some up' \<and>
    co_outgoing (wd_conns up' u) = co_outgoing (wd_conns up u) @ sent \<and>
    (\<forall>reads. reads \<noteq> [] \<and> concat (map snd reads) = concat (map qp_data sent) \<and>
       clean_reads (wd_transfers down t)
         (cut_parts (first_packetSize (length payload)) (Left (pb_Range block (t_size (wd_transfers down t)))) payload) reads \<longrightarrow>
       (\<exists>w down'. deliver inflate c reads down = Some down' \<and> RequestBlocks c w = Some down' \<and>
          wd_transfers w t = fst r \<and> wd_effects w = wd_effects down @ map (Pair t) (snd r) \<and>
          pn_downloadQueue (wd_conns w c) =
            filter (\<lambda>pb. pb_Compare (pk_Block pb) block \<noteq> 0) (pn_downloadQueue (wd_conns down c))))"
proof -
  let ?t = "wd_transfers down t"
  let ?ps = "cut_parts (first_packetSize (length payload)) (Left (pb_Range block (t_size ?t))) payload"
  have valid: "valid_block (t_size ?t) block" using down by (simp add: waits_for_def Let_def)
  have len: "int (length payload) = pb_Size block (t_size ?t)"
    using t_ReadRange_length [of io _ _ _ payload] up same(2) by (auto simp: uploads_block_def Let_def pb_Size_def)
  have "0 < pb_Size block (t_size ?t)" and left: "0 \<le> Left (pb_Range block (t_size ?t))"
    using valid by (auto simp: pb_Size_def pb_Range_offset valid_block_def BlocksOffset_def Let_def BlocksPerPiece_eq BlockSize_eq)
  then have ne: "payload \<noteq> []" using len by auto
  define J where "J = \<lparr>jb_conn = c, jb_addr = t, jb_transfer = ?t, jb_effects = wd_effects down, jb_block = block,
      jb_bytes = payload, jb_others = filter (\<lambda>pb. pb_Compare (pk_Block pb) block \<noteq> 0) (pn_downloadQueue (wd_conns down c)),
      jb_parts = ?ps\<rparr>"
  have job: "job_ok J" unfolding J_def by (rule block_job_ok [OF valid len ne ok])
  have rec: "receiving J 0 down" unfolding J_def by (rule waits_receiving [OF down refl len])
  obtain up' where up': "SendBlockData io u up = Some up'"
    "co_outgoing (wd_conns up' u) = co_outgoing (wd_conns up u) @ map (queued_part (wd_transfers up tu)) ?ps"
    using SendBlockData_sends [OF up ne] left same(2) by auto
  have data: "qp_data (queued_part (wd_transfers up tu) p) = part_bytes ?t p" for p
    by (simp add: queued_part_def part_bytes_def part_head_def part_packet_def part_key_def same)
  have "parts_of (jb_left J + 0) (jb_bytes J) (jb_parts J)" using job by (simp add: job_ok_def)
  then obtain part ps where ps: "jb_parts J = part # ps" using ne by (cases "jb_parts J") (auto simp: J_def)
  have arrives: "\<exists>w'. deliver inflate c reads down = Some w' \<and> received J r w'"
    if "reads \<noteq> []" "concat (map snd reads) = jb_stream J (jb_parts J)" "clean_reads (jb_transfer J) (jb_parts J) reads" for reads
  proof -
    have "at_part J 0 part ps" unfolding at_part_def by (intro exI [of _ "[]"]) (simp add: ps)
    moreover have "\<not> pn_transferringData (wd_conns down c)" "co_incoming (wd_conns down c) = []"
      using down by (simp_all add: waits_for_def Let_def)
    ultimately have "awaits J (concat (map snd reads)) down"
      using rec that(2) ps unfolding awaits_def awaits_head_def
      by (intro disjI1 exI [of _ "0::nat"] exI [of _ "[]"] exI [of _ part] exI [of _ ps]) (simp add: J_def)
    from deliver_awaits [OF job _ this that(1,3)] r show ?thesis by (simp add: J_def)
  qed
  show ?thesis
    by (rule exI [of _ up'], rule exI [of _ "map (queued_part (wd_transfers up tu)) ?ps"])
      (use up' arrives in \<open>fastforce simp: J_def data comp_def received_def handed_over_def Let_def\<close>)
qed

text \<open>The two ends of the small download, with the file's identifier; nothing else is under way.\<close>

definition demo_end_of :: "Transfer \<Rightarrow> (PeerConnection \<Rightarrow> PeerConnection) \<Rightarrow> World" where
  "demo_end_of t f =
     upd_conn 0 (\<lambda>p. f (p\<lparr>co_socket := True, pn_transfer := Some 0\<rparr>))
       (new_session (\<lambda>_. t\<lparr>t_hash := replicate 16 0\<rparr>) [] (NewSettings (replicate 16 0) None) 0 (\<lambda>_. 0))"

definition demo_up :: World where
  "demo_up = demo_end_of demo_end (\<lambda>p. p\<lparr>pn_uploadState := UploadStateUploading,
     pn_uploadBlocks := [\<lparr>ub_Begin = 0, ub_End = 3, ub_Transferred = 0\<rparr>]\<rparr>)"

definition demo_down :: World where
  "demo_down = demo_end_of (demo_transfer\<lparr>t_picker := demo_in demo_asked\<rparr>)
     (\<lambda>p. p\<lparr>pn_downloadQueue := [NewPendingBlock 0 demo_block 3]\<rparr>)"

lemma demo_ends:
  "wd_transfers demo_up t = demo_end\<lparr>t_hash := replicate 16 0\<rparr>"
  "wd_transfers demo_down t = demo_transfer\<lparr>t_picker := demo_in demo_asked, t_hash := replicate 16 0\<rparr>"
  "wd_queue demo_up = NewUploadQueue" "co_outgoing (wd_conns demo_up 0) = []"
  by (simp_all add: demo_up_def demo_down_def demo_end_of_def new_session_def NewPeerConnection_def Connection.defs
      co_NewConnection_def)

lemma demo_range: "Left (pb_Range demo_block 3) = 0" "Right (pb_Range demo_block 3) = 3"
  by (simp_all add: pb_Range_def MakeRange_def NewPieceBlock_def geometry_constants Let_def)

lemma demo_uploads: "uploads_block io_ok 0 0 demo_block demo_bytes demo_up"
proof -
  have "MakePeerRequests 0 3 3 = Inr [\<lparr>pr_Piece = 0, pr_Start = 0, pr_Length = 3\<rparr>]" by code_simp
  moreover have "NumHave demo_done = 1" by code_simp
  moreover have "t_size demo_end = 3" "t_picker demo_end = demo_done" "\<not> t_abort demo_end" "t_pm demo_end \<noteq> None"
    by (simp_all add: demo_end_def demo_stored_def demo_pending_def demo_transfer_def)
  ultimately have "CanUploadRange 0 3 demo_end = Some True"
    by (simp add: CanUploadRange_def CanUpload_def demo_picks(10))
  moreover have "CanUploadRange 0 3 (t\<lparr>t_hash := h\<rparr>) = CanUploadRange 0 3 t" for t h
    by (simp add: CanUploadRange_def CanUpload_def split: sum.split)
  moreover have "snd (t_ReadRange io_ok 0 3 (demo_end\<lparr>t_hash := h\<rparr>)) = Inr demo_bytes" for h
    by (simp add: t_ReadRange_def demo_end_def demo_store_def pm_ReadRange_def fh_File_def NewDesktopFileHandler_def
        io_ok_def read_at_def fh_content_def demo_bytes_def Let_def)
  moreover have "t_size demo_end = 3" by (simp add: demo_end_def demo_stored_def demo_pending_def demo_transfer_def)
  moreover have "\<not> snd (CheckForTimeOver 0 demo_up)"
    by (simp add: CheckForTimeOver_def Let_def demo_ends NewUploadQueue_def)
  moreover have "pn_uploadState (wd_conns demo_up 0) = UploadStateUploading" "pn_transfer (wd_conns demo_up 0) = Some 0"
    "pn_uploadBlocks (wd_conns demo_up 0) = [\<lparr>ub_Begin = 0, ub_End = 3, ub_Transferred = 0\<rparr>]"
    by (simp_all add: demo_up_def demo_end_of_def)
  ultimately show ?thesis by (simp add: uploads_block_def Let_def demo_ends demo_range)
qed

lemma demo_waits: "waits_for 0 0 demo_block demo_down"
proof -
  have "co_socket (wd_conns demo_down 0)" "pn_transfer (wd_conns demo_down 0) = Some 0" "\<not> pn_transferringData (wd_conns demo_down 0)"
    "co_incoming (wd_conns demo_down 0) = []" "pn_downloadQueue (wd_conns demo_down 0) = [NewPendingBlock 0 demo_block 3]"
    by (simp_all add: demo_down_def demo_end_of_def new_session_def NewPeerConnection_def Connection.defs co_NewConnection_def)
  moreover have "valid_block 3 demo_block"
    by (simp add: valid_block_def NewPieceBlock_def BlocksOffset_def geometry_constants BlocksPerPiece_eq)
  moreover have "\<exists>before now after. [NewPendingBlock 0 demo_block 3] = before @ NewPendingBlock now demo_block 3 # after \<and>
      (\<forall>pb \<in> set (before @ after). pb_Compare (pk_Block pb) demo_block \<noteq> 0)"
    by (rule exI [of _ "[]"], rule exI [of _ 0], rule exI [of _ "[]"]) simp
  ultimately show ?thesis by (simp add: waits_for_def Let_def demo_ends demo_transfer_def)
qed

theorem block_arrives_witness:
  "\<exists>up' down'. SendBlockData io_ok 0 demo_up = Some up' \<and>
    deliver Inr 0 [(1, take 10 (concat (map qp_data (co_outgoing (wd_conns up' 0))))),
      (2, drop 10 (concat (map qp_data (co_outgoing (wd_conns up' 0)))))] demo_down = Some down'"
proof -
  let ?t = "demo_transfer\<lparr>t_picker := demo_in demo_asked, t_hash := replicate 16 0\<rparr>"
  have sizes: "t_size ?t = 3" "t_size demo_end = 3" "length demo_bytes = 3"
    by (simp_all add: demo_transfer_def demo_end_def demo_stored_def demo_pending_def demo_bytes_def)
  have cut: "cut_parts (first_packetSize (length demo_bytes)) (Left (pb_Range demo_block (t_size ?t))) demo_bytes = [(0, demo_bytes)]"
    unfolding sizes demo_range by code_simp
  have "wf_hash (replicate 16 0)" by (simp add: wf_hash_def)
  then have len: "length (part_bytes ?t (0, demo_bytes)) = 33"
    using length_put_client [OF wf_part, of ?t 0 3]
    by (simp add: part_bytes_def part_head_def part_packet_def Let_def length_put_PacketHeader PacketHeaderSize_def
        sizes bytesCount_SendingPart32_def)
  have r: "block_received demo_block demo_bytes ?t =
      Some (demo_pending\<lparr>t_hash := replicate 16 0\<rparr>, [SubmitTask (AsyncWrite demo_block demo_bytes), SubmitTask (AsyncHash 0)])"
    by (simp add: block_received_def demo_picks NewPieceBlock_sel QueuePieceHash_def demo_total demo_pending_def)
      (simp add: demo_transfer_def)
  obtain up' sent where up': "SendBlockData io_ok 0 demo_up = Some up'"
    "co_outgoing (wd_conns up' 0) = co_outgoing (wd_conns demo_up 0) @ sent"
    "\<forall>reads. reads \<noteq> [] \<and> concat (map snd reads) = concat (map qp_data sent) \<and>
       clean_reads (wd_transfers demo_down 0) (cut_parts (first_packetSize (length demo_bytes))
         (Left (pb_Range demo_block (t_size (wd_transfers demo_down 0)))) demo_bytes) reads \<longrightarrow>
       (\<exists>w down'. deliver Inr 0 reads demo_down = Some down' \<and> RequestBlocks 0 w = Some down' \<and>
          wd_transfers w 0 = demo_pending\<lparr>t_hash := replicate 16 0\<rparr> \<and>
          wd_effects w = wd_effects demo_down @ map (Pair 0) [SubmitTask (AsyncWrite demo_block demo_bytes), SubmitTask (AsyncHash 0)] \<and>
          pn_downloadQueue (wd_conns w 0) =
            filter (\<lambda>pb. pb_Compare (pk_Block pb) demo_block \<noteq> 0) (pn_downloadQueue (wd_conns demo_down 0)))"
    using block_arrives [OF demo_uploads demo_waits, of _ Inr] r sizes
    by (auto simp: demo_ends wf_hash_def)
  have "co_outgoing (wd_conns up' 0) = map (queued_part (demo_end\<lparr>t_hash := replicate 16 0\<rparr>)) [(0, demo_bytes)]"
    using SendBlockData_sends [OF demo_uploads] up'(1) cut by (simp add: demo_ends sizes demo_range demo_bytes_def)
  moreover have "part_bytes (demo_end\<lparr>t_hash := replicate 16 0\<rparr>) (0, demo_bytes) = part_bytes ?t (0, demo_bytes)"
    by (simp add: part_bytes_def part_head_def part_packet_def part_key_def sizes)
  ultimately have data: "concat (map qp_data (co_outgoing (wd_conns up' 0))) = part_bytes ?t (0, demo_bytes)"
    by (simp add: queued_part_def)
  have sent: "sent = co_outgoing (wd_conns up' 0)" using up'(2) by (simp add: demo_ends)
  let ?bytes = "part_bytes ?t (0, demo_bytes)"
  let ?reads = "[(1, take 10 ?bytes), (2, drop 10 ?bytes)] :: (int \<times> bytes) list"
  have "concat (map snd ?reads) = concat (map qp_data sent)" by (simp add: sent data)
  moreover have "clean_reads (wd_transfers demo_down 0) (cut_parts (first_packetSize (length demo_bytes))
         (Left (pb_Range demo_block (t_size (wd_transfers demo_down 0)))) demo_bytes) ?reads"
    unfolding demo_ends cut using len by (auto simp: demo_ends Let_def)
  ultimately obtain w down' where "deliver Inr 0 ?reads demo_down = Some down'"
    using up'(3) [rule_format, of ?reads] by blast
  then show ?thesis
    by (intro exI [of _ up'] exI [of _ down'] conjI up'(1)) (simp only: data)
qed

section \<open>What a peer sends\<close>

text \<open>C5: whatever a peer sends, processing it ends: \<open>ProcessIncoming\<close>, which calls itself for the frames
  behind the data of a part, satisfies its recursive equation, and its nesting is no deeper than there are
  unread bytes: whatever \<open>stuck\<close> would do in calls nested deeper makes no difference to the result,
  for any answers of the decompressor.\<close>

theorem processing_ends:
  "ProcessIncoming inflate c w = process_once inflate c (ProcessIncoming inflate c) w \<and>
   process_depth stuck inflate c (Suc (IncomingBytes (wd_conns w c) + n)) w = ProcessIncoming inflate c w"
proof
  show "process_depth stuck inflate c (Suc (IncomingBytes (wd_conns w c) + n)) w = ProcessIncoming inflate c w"
    using depth_enough [of w c "IncomingBytes (wd_conns w c)" "IncomingBytes (wd_conns w c) + n" stuck inflate]
    by (simp add: ProcessIncoming_def)
qed (rule ProcessIncoming_unfold)

section \<open>The upload queue\<close>

text \<open>C4: in every state a session can reach - whatever peers send, whichever sockets open, fail and close,
  and in any order of rounds, ticks, dialling, suspensions and removals - no client waits or uploads twice or does both,
  at most 251 upload, a client is in the uploading state exactly when it has a slot, and those that wait are
  in the waiting state with their place in the queue as rank.\<close>

theorem upload_slots:
  assumes "in_world w"
  shows "distinct (uq_waiting (wd_queue w) @ uq_uploading (wd_queue w)) \<and>
    length (uq_uploading (wd_queue w)) \<le> 251 \<and>
    (\<forall>c. pn_uploadState (wd_conns w c) = UploadStateUploading \<longleftrightarrow> IsUploading w c) \<and>
    (\<forall>i < length (uq_waiting (wd_queue w)).
       pn_uploadState (wd_conns w (uq_waiting (wd_queue w) ! i)) = UploadStateOnQueue \<and>
       pn_uploadQueueRank (wd_conns w (uq_waiting (wd_queue w) ! i)) = of_nat (Suc i))"
proof -
  have "slots_ok w" using in_world_ok [OF assms] by (simp add: world_ok_def)
  then show ?thesis by (auto simp: slots_ok_def ranked_def maxUploading_def IsUploading_def Let_def)
qed

theorem upload_slots_witness:
  "distinct (uq_waiting (wd_queue (fst (SuspendUpload (replicate 16 1) True (acceptIncomingConnections
       [\<lparr>ep_ip = 1, ep_port = 4661\<rparr>] (new_session (\<lambda>_. demo_end) [] (NewSettings [] None) 0 (\<lambda>_. 0)))))) @
     uq_uploading (wd_queue (fst (SuspendUpload (replicate 16 1) True (acceptIncomingConnections
       [\<lparr>ep_ip = 1, ep_port = 4661\<rparr>] (new_session (\<lambda>_. demo_end) [] (NewSettings [] None) 0 (\<lambda>_. 0)))))))"
  by (rule upload_slots [THEN conjunct1])
    (rule in_world.step [OF in_world.step [OF in_world.start world_step.accepting] world_step.suspend])

text \<open>Sorting the queue loses no client and puts those with the higher score first, among equal
  scores those that wait longer, and then in the order of their endpoints.\<close>

theorem waiting_order:
  "mset (uq_waiting (wd_queue (sortWaiting w))) = mset (uq_waiting (wd_queue w)) \<and>
   sorted_wrt (\<lambda>a b. UploadScore w b < UploadScore w a \<or> UploadScore w a = UploadScore w b \<and>
     (pn_uploadWaitStart (wd_conns w a) < pn_uploadWaitStart (wd_conns w b) \<or>
      pn_uploadWaitStart (wd_conns w a) = pn_uploadWaitStart (wd_conns w b) \<and>
      ep_Compare (pn_endpoint (wd_conns w a)) (pn_endpoint (wd_conns w b)) \<le> 0)) (uq_waiting (wd_queue (sortWaiting w)))"
proof -
  let ?lt = "\<lambda>a b. waits_before w a b < 0"
  have q: "uq_waiting (wd_queue (sortWaiting w)) = sort_by ?lt (uq_waiting (wd_queue w))"
    by (simp add: sortWaiting_def Let_def)
  have swap: "ep_Compare b a = - ep_Compare a b" for a b using ep_order.cmp_swap by blast
  have trans: "0 \<le> ep_Compare a b \<Longrightarrow> 0 \<le> ep_Compare b c \<Longrightarrow> 0 \<le> ep_Compare a c" for a b c
    using ep_order.cmp_trans [of c b a] swap [of a b] swap [of b c] swap [of a c] ep_Compare_0 [of a b] ep_Compare_0 [of b c]
    by (cases "ep_Compare a b = 0"; cases "ep_Compare b c = 0") auto
  have sorted: "sorted_wrt (\<lambda>a b. \<not> ?lt b a) (sort_by ?lt (uq_waiting (wd_queue w)))"
  proof (rule sorted_sort_by)
    show "\<not> ?lt b a" if "?lt a b" for a b
      using that swap [of "pn_endpoint (wd_conns w a)" "pn_endpoint (wd_conns w b)"]
      by (auto simp: waits_before_def Let_def split: if_splits)
    show "\<not> ?lt a c" if "\<not> ?lt a b" "\<not> ?lt b c" for a b c
      using that trans [of "pn_endpoint (wd_conns w a)" "pn_endpoint (wd_conns w b)" "pn_endpoint (wd_conns w c)"]
      by (auto simp: waits_before_def Let_def not_less split: if_splits)
  qed
  have imp: "UploadScore w b < UploadScore w a \<or> UploadScore w a = UploadScore w b \<and>
     (pn_uploadWaitStart (wd_conns w a) < pn_uploadWaitStart (wd_conns w b) \<or>
      pn_uploadWaitStart (wd_conns w a) = pn_uploadWaitStart (wd_conns w b) \<and>
      ep_Compare (pn_endpoint (wd_conns w a)) (pn_endpoint (wd_conns w b)) \<le> 0)" if "\<not> ?lt b a" for a b
    using that swap [of "pn_endpoint (wd_conns w b)" "pn_endpoint (wd_conns w a)"]
    by (auto simp: waits_before_def Let_def not_less split: if_splits)
  show ?thesis unfolding q by (rule conjI [OF mset_sort_by sorted_wrt_mono_rel [OF imp sorted]])
qed

text \<open>The credit of a peer changes its score by a factor from one to ten, and by none before it has
  sent a million bytes.\<close>

theorem ScoreRatio_bounds:
  "1 \<le> fst (ScoreRatio h m) \<and> fst (ScoreRatio h m) \<le> 10 \<and>
   (fst (ScoreRatio h m) = 1 \<or> (\<exists>cr. fst (credit h m) = Some cr \<and> 1000000 \<le> cr_Downloaded cr))"
proof -
  have "1 \<le> ratio_of c \<and> ratio_of c \<le> 10" for c by (simp add: ratio_of_def Let_def split: option.split)
  moreover have "ratio_of c = 1 \<or> (\<exists>cr. c = Some cr \<and> 1000000 \<le> cr_Downloaded cr)" for c
    by (cases c) (auto simp: ratio_of_def not_less)
  ultimately show ?thesis by (simp add: ScoreRatio_def split: prod.split)
qed

section \<open>Connections\<close>

lemma leave_transfer_queue: "leave_transfer c w = Some w' \<Longrightarrow> wd_queue w' = wd_queue w"
  by (auto simp: leave_transfer_def t_AddStats_def refreshStats_def RemovePeerConnection_def AbortAllRequests_def Let_def
      split: option.splits Option.bind_splits)

text \<open>A connection that has ended is gone from every list: it neither uploads nor waits for a slot, its session and
  its transfer have dropped it, and nothing is asked of it any more.\<close>

theorem ended_connection:
  assumes "in_world w" and "OnDisconnect ec c w = Some w'"
  shows "\<not> IsUploading w' c \<and> \<not> IsOnUploadQueue w' c \<and> c \<notin> set (wd_connections w') \<and>
    pn_transfer (wd_conns w' c) = None \<and>
    (\<forall>t. pn_transfer (wd_conns w c) = Some t \<longrightarrow>
       c \<notin> set (t_connections (wd_transfers w' t)) \<and> pn_downloadQueue (wd_conns w' c) = [])"
proof -
  define w1 where "w1 = (if ec \<noteq> NoError \<and> ec \<noteq> TransferPaused then upd_conn c (\<lambda>p. p\<lparr>pn_failed := True\<rparr>) w else w)"
  define w2 where "w2 = fst (RemoveFromUploadQueue c w1)"
  have "slots_ok w" using in_world_ok [OF assms(1)] by (simp add: world_ok_def)
  then have "slots_ok w1" unfolding w1_def by (auto intro: upd_conn_ok)
  note out = RemoveFromUploadQueue_ok(2,3) [OF this, of c, folded w2_def]
  have tr2: "pn_transfer (wd_conns w2 c) = pn_transfer (wd_conns w c)"
  proof -
    have ranks: "pn_transfer (wd_conns (assign_ranks n xs v) d) = pn_transfer (wd_conns v d)" for n xs v d
      by (induction n xs v rule: assign_ranks.induct) (simp_all add: SetUploadQueueRank_def)
    have "pn_transfer (wd_conns (fst (RemoveFromWaitingQueue c v)) c) = pn_transfer (wd_conns v c)" for v
      by (simp add: RemoveFromWaitingQueue_def recomputeRanks_def ranks Let_def ClearUploadWaitStart_def SetUploadQueueRank_def
          SetUploadState_def)
    then have "pn_transfer (wd_conns (fst (RemoveFromUploadQueue c v)) c) = pn_transfer (wd_conns v c)" for v
      by (auto simp: RemoveFromUploadQueue_def ClearUploadBlockRequests_def SetUploadState_def Let_def
          split: prod.split) (metis fst_conv upd_queue_frame(7))+
    then show ?thesis by (simp add: w2_def w1_def)
  qed
  obtain w3 where w3: "leave_transfer c w2 = Some w3" "w' = CloseConnection c w3"
    using assms(2) by (auto simp: OnDisconnect_def Let_def w2_def w1_def split: if_splits)
  have "pn_transfer (wd_conns w3 c) = None"
    using w3(1) by (auto simp: leave_transfer_def split: option.splits Option.bind_splits)
  moreover have "c \<notin> set (t_connections (wd_transfers w3 t)) \<and> pn_downloadQueue (wd_conns w3 c) = []"
    if "pn_transfer (wd_conns w c) = Some t" for t
    using w3(1) that tr2
    by (auto simp: leave_transfer_def t_AddStats_def refreshStats_def RemovePeerConnection_def AbortAllRequests_def
        upd_transfer_def Let_def split: option.splits Option.bind_splits)
  ultimately show ?thesis
    using out leave_transfer_queue [OF w3(1)] by (auto simp: w3(2) CloseConnection_def IsUploading_def IsOnUploadQueue_def)
qed

theorem ended_connection_witness:
  "\<exists>w'. OnDisconnect EndOfStream 0 (acceptIncomingConnections [\<lparr>ep_ip = 1, ep_port = 4661\<rparr>]
       (new_session (\<lambda>_. demo_end) [] (NewSettings [] None) 0 (\<lambda>_. 0))) = Some w' \<and> \<not> IsUploading w' 0"
proof -
  let ?w = "acceptIncomingConnections [\<lparr>ep_ip = 1, ep_port = 4661\<rparr>]
       (new_session (\<lambda>_. demo_end) [] (NewSettings [] None) 0 (\<lambda>_. 0))"
  have "in_world ?w" by (rule in_world.step [OF in_world.start world_step.accepting])
  note e = ended_connection [OF this, of EndOfStream 0]
  have "OnDisconnect EndOfStream 0 ?w \<noteq> None"
    by (simp add: OnDisconnect_def acceptIncomingConnections_def accept_def new_session_def RemoveFromUploadQueue_def
        RemoveFromWaitingQueue_def IsUploading_def IsOnUploadQueue_def NewUploadQueue_def leave_transfer_def Let_def
        NewIncomingPeerConnection_def NewPeerConnection_def Connection.defs)
  with e show ?thesis by blast
qed

text \<open>Dialling keeps the peer lists in order and does not fail on lists in order.\<close>

abbreviation policies_ok :: "nat set \<Rightarrow> World \<Rightarrow> bool" where
  "policies_ok S w \<equiv> \<forall>t\<in>S. policy_ok (t_policy (wd_transfers w t))"

lemma pn_Connect_transfers: "wd_transfers (fst (pn_Connect resolve dial c w)) = wd_transfers w"
  by (simp add: pn_Connect_def OnConnect_def send_packet_def Let_def split: option.split prod.split)

lemma ConnectToPeer_policies:
  assumes "policies_ok S w"
  shows "policies_ok S (fst (ConnectToPeer net t i w))"
proof -
  define tr where "tr = wd_transfers w t"
  define pe where "pe = (po_peers (t_policy tr) ! i)
    \<lparr>pe_LastConnected := wd_now w, pe_NextConnection := 0, pe_Connection := Some (wd_next w)\<rparr>"
  have "wd_transfers (fst (ConnectToPeer net t i w)) = (wd_transfers w)(t := tr
      \<lparr>t_policy := (t_policy tr)\<lparr>po_peers := (po_peers (t_policy tr))[i := pe]\<rparr>, t_connections := t_connections tr @ [wd_next w]\<rparr>)"
    by (simp add: ConnectToPeer_def Let_def split_beta pn_Connect_transfers upd_transfer_def tr_def pe_def)
  moreover have "policy_ok ((t_policy tr)\<lparr>po_peers := (po_peers (t_policy tr))[i := pe]\<rparr>)" if "policy_ok (t_policy tr)"
    using that by (simp add: policy_ok_def ep_order.csorted_update pe_def)
  ultimately show ?thesis using assms by (simp add: tr_def)
qed

lemma TryConnectPeer_policies:
  assumes ok: "policies_ok S w" and t: "t \<in> S"
  shows "\<exists>w' new. TryConnectPeer net t w = Some (w', new) \<and> policies_ok S w'"
proof (cases "WantMorePeers (wd_transfers w t)")
  case False
  then have "TryConnectPeer net t w = Some (w, False)" by (simp add: TryConnectPeer_def)
  with ok show ?thesis by blast
next
  case True
  have tp: "policy_ok (t_policy (wd_transfers w t))" using ok t by blast
  from FindConnectCandidate_best [OF tp, of "wd_now w"] obtain po c where
    f: "FindConnectCandidate (wd_now w) (t_policy (wd_transfers w t)) = Some (po, c)" by blast
  define w1 where "w1 = upd_transfer t (\<lambda>tr. tr\<lparr>t_policy := po\<rparr>) w"
  have "policies_ok S w1" using ok FindConnectCandidate_ok [OF tp f] by (simp add: w1_def upd_transfer_def)
  then have "policies_ok S (fst (ConnectToPeer net t i w1))" for i by (rule ConnectToPeer_policies)
  note dialled = this
  show ?thesis
  proof (cases c)
    case None
    with True f have "TryConnectPeer net t w = Some (w1, False)"
      by (simp add: TryConnectPeer_def ConnectOnePeer_def Let_def flip: w1_def)
    with \<open>policies_ok S w1\<close> show ?thesis by blast
  next
    case (Some i)
    obtain w2 r where "ConnectToPeer net t i w1 = (w2, r)" by (rule prod.exhaust)
    with True f Some dialled [of i] show ?thesis
      by (simp add: TryConnectPeer_def ConnectOnePeer_def Let_def flip: w1_def)
  qed
qed

text \<open>One round of dialling ends, if the limit is positive, and does not fail.\<close>

lemma connect_loop_returns:
  "ts \<noteq> [] \<Longrightarrow> set rest \<subseteq> set ts \<Longrightarrow> 0 < limit \<Longrightarrow> policies_ok (set ts) w \<Longrightarrow>
     \<exists>w'. connect_loop net ts rest steps limit w = Some (Some w') \<and> policies_ok (set ts) w'"
proof (induction "nat limit" arbitrary: limit rest steps w rule: less_induct)
  case outer: less
  show ?case
    using outer.prems
  proof (induction "Suc (2 * length ts) - steps" arbitrary: rest steps w rule: less_induct)
    case inner: less
    have go: "\<exists>w'. connect_loop net ts (t # rest) steps limit w = Some (Some w') \<and> policies_ok (set ts) w'"
      if sub: "set (t # rest) \<subseteq> set ts" for t rest
    proof -
      have "t \<in> set ts" "set rest \<subseteq> set ts" using sub by simp_all
      from TryConnectPeer_policies [OF inner.prems(4) this(1), of net] obtain w1 new where
        w1: "TryConnectPeer net t w = Some (w1, new)" "policies_ok (set ts) w1" by blast
      show ?thesis
      proof (cases new)
        case True
        have "\<exists>w'. connect_loop net ts rest (Suc 0) (limit - 1) w1 = Some (Some w') \<and> policies_ok (set ts) w'" if "limit \<noteq> 1"
          using outer.hyps [of "limit - 1" rest w1 "Suc 0"] inner.prems w1(2) that \<open>set rest \<subseteq> set ts\<close> by simp
        then show ?thesis using w1 True by (subst connect_loop.simps) (simp add: Let_def)
      next
        case False
        have "\<exists>w'. connect_loop net ts rest (Suc steps) limit w1 = Some (Some w') \<and> policies_ok (set ts) w'"
          if "\<not> Suc steps > length ts * 2"
          using inner.hyps [of "Suc steps" rest w1] inner.prems w1(2) that \<open>set rest \<subseteq> set ts\<close> by simp
        then show ?thesis using w1 False inner.prems by (subst connect_loop.simps) (simp add: Let_def)
      qed
    qed
    show ?case
    proof (cases rest)
      case Nil
      obtain t ts' where ts: "ts = t # ts'" using inner.prems(1) by (cases ts) auto
      have "connect_loop net ts [] steps limit w = connect_loop net ts ts steps limit w"
        by (subst connect_loop.simps) simp
      then show ?thesis using go [of t ts'] Nil ts by simp
    next
      case (Cons t rest')
      with inner.prems(2) go [of t rest'] show ?thesis by simp
    qed
  qed
qed

text \<open>C20: connecting to new peers returns, without a panic, when the number of connections per second is
  positive and the peer lists of the transfers are in order (\<open>policy_ok\<close>, the invariant of the lists),
  however many candidates there are and whatever the network says of them; the lists stay in order.\<close>

theorem ConnectNewPeers_returns:
  assumes "0 < set_MaxConnectionsPerSecond (wd_settings w)" and "\<forall>t\<in>set transfers. policy_ok (t_policy (wd_transfers w t))"
  shows "\<exists>w'. ConnectNewPeers net transfers w = Some (Some w') \<and> (\<forall>t\<in>set transfers. policy_ok (t_policy (wd_transfers w' t)))"
  using assms connect_loop_returns [of transfers transfers "set_MaxConnectionsPerSecond (wd_settings w)" w net 0]
  by (simp add: ConnectNewPeers_def)

theorem ConnectNewPeers_returns_witness:
  "\<exists>w'. ConnectNewPeers (\<lambda>_. (None, Some ''refused'')) [0] (new_session (\<lambda>_. demo_transfer) [] (NewSettings [] None) 0 (\<lambda>_. 0)) = Some (Some w')"
  using ConnectNewPeers_returns [of "new_session (\<lambda>_. demo_transfer) [] (NewSettings [] None) 0 (\<lambda>_. 0)" "[0]"
    "\<lambda>_. (None, Some ''refused'')"] NewPolicy_ok
  by (auto simp: new_session_def NewSettings_def demo_transfer_def)

section \<open>Reports\<close>

lemma update_entries: "set (AList.update k v m) \<subseteq> insert (k, v) (set m)"
  by (induction m) auto

lemma add_inflight_positive:
  "add_inflight t pbs m = Some m' \<Longrightarrow> \<forall>x \<in> set m. 0 \<le> snd x \<Longrightarrow> \<forall>x \<in> set m'. 0 \<le> snd x"
proof (induction t pbs m arbitrary: m' rule: add_inflight.induct)
  case (2 t pb pbs m)
  let ?size = "pb_Size (pk_Block pb) (t_size t)" and ?key = "BlocksOffset (pk_Block pb)"
  let ?received = "if pk_Received pb > ?size then ?size else pk_Received pb"
  let ?known = "case map_of m ?key of None \<Rightarrow> 0 | Some r \<Rightarrow> r"
  have known: "0 \<le> ?known"
  proof (cases "map_of m ?key")
    case (Some r)
    then have "(?key, r) \<in> set m" by (rule map_of_SomeD)
    then show ?thesis using 2(5) Some by fastforce
  qed simp
  have "0 \<le> snd x" if "?known < ?received" and "x \<in> set (AList.update ?key ?received m)" for x
  proof (cases "x = (?key, ?received)")
    case True
    then show ?thesis using that(1) known by (simp only: snd_conv)
  next
    case False
    then show ?thesis using that(2) update_entries [of ?key ?received m] 2(5) by blast
  qed
  then have pos: "\<forall>x \<in> set (if ?known < ?received then AList.update ?key ?received m else m). 0 \<le> snd x"
    using 2(5) by (simp split: if_split)
  show ?case
  proof (cases "pk_Received pb \<le> 0")
    case True
    then show ?thesis using 2(1) [OF True] 2(4,5) by simp
  next
    case False
    show ?thesis
    proof (cases "IsBlockDownloaded (pk_Block pb) (t_picker t)")
      case (Some b)
      show ?thesis
      proof (cases b)
        case True
        then show ?thesis using 2(2) [OF False Some] 2(4,5) False Some by simp
      next
        case b: False
        have "add_inflight t pbs (if ?known < ?received then AList.update ?key ?received m else m) = Some m'"
          using 2(4) False Some b by (simp only: add_inflight.simps if_False option.case bool.case Let_def)
        then show ?thesis using 2(3) [OF False Some b [THEN eq_False [THEN iffD2]] refl refl refl refl _ pos] by simp
      qed
    qed (use 2(4) False in simp)
  qed
qed simp

lemma receivedBytes_between:
  assumes "receivedBytes d t w = Some r" and "d \<le> t_size t"
  shows "d \<le> r" and "r \<le> t_size t"
proof -
  obtain m where m: "inflightBlockReceived t w = Some m" "r = min (d + sum_list (map snd m)) (t_size t)"
    using assms(1) by (auto simp: receivedBytes_def Let_def min_def)
  have "\<forall>x \<in> set m. 0 \<le> snd x" using add_inflight_positive m(1) by (fastforce simp: inflightBlockReceived_def)
  then have "0 \<le> sum_list (map snd m)" by (intro sum_list_nonneg) auto
  with m(2) assms(2) show "d \<le> r" "r \<le> t_size t" by auto
qed

lemma total_done_le: "total_done t = Some d \<Longrightarrow> d \<le> t_size t"
  by (auto simp: total_done_def split: option.splits if_splits)

lemma all_some_set: "all_some xs = Some ys \<Longrightarrow> y \<in> set ys \<Longrightarrow> Some y \<in> set xs"
  by (induction xs arbitrary: ys) (auto split: option.splits)

text \<open>C19: what a transfer reports is consistent: the bytes that are done are at most those received, and these at most
  the bytes wanted, in the whole and in every piece.\<close>

theorem status_bounds:
  assumes "GetStatus t w = Some s" and "PieceSnapshots t w = Some ps"
  shows "ts_TotalDone s \<le> ts_TotalReceived s \<and> ts_TotalReceived s \<le> ts_TotalWanted s \<and>
    ts_TotalWanted s = t_size (wd_transfers w t) \<and>
    (\<forall>p \<in> set ps. ps_DoneBytes p \<le> ps_TotalBytes p \<and> ps_ReceivedBytes p \<le> ps_TotalBytes p)"
proof -
  have piece: "ps_DoneBytes p \<le> ps_TotalBytes p \<and> ps_ReceivedBytes p \<le> ps_TotalBytes p"
    if "piece_snapshot tr m i = Some p" for tr m i p
  proof -
    have total: "ps_TotalBytes s' = ps_TotalBytes s" if "count_blocks tr m dp js s = Some s'" for dp js s s'
      using that
    proof (induction tr m dp js s rule: count_blocks.induct)
      case (2 t inflight dp j js s)
      then show ?case by (auto simp: count_block_def Let_def split: Option.bind_splits option.splits if_splits)
    qed simp
    with that show ?thesis
      by (auto simp: piece_snapshot_def Let_def split: option.splits bool.splits dest!: total)
  qed
  have "ps_DoneBytes p \<le> ps_TotalBytes p \<and> ps_ReceivedBytes p \<le> ps_TotalBytes p" if "p \<in> set ps" for p
    using assms(2) that piece by (fastforce simp: PieceSnapshots_def Let_def split: option.splits dest: all_some_set)
  moreover have "ts_TotalDone s \<le> ts_TotalReceived s \<and> ts_TotalReceived s \<le> ts_TotalWanted s \<and>
    ts_TotalWanted s = t_size (wd_transfers w t)"
    using assms(1) receivedBytes_between total_done_le
    by (fastforce simp: GetStatus_def Let_def split: option.splits sum.splits)
  ultimately show ?thesis by blast
qed

theorem status_bounds_witness:
  "\<exists>s ps. GetStatus 0 (new_session (\<lambda>_. demo_end) [] (NewSettings [] None) 0 (\<lambda>_. 0)) = Some s \<and>
     PieceSnapshots 0 (new_session (\<lambda>_. demo_end) [] (NewSettings [] None) 0 (\<lambda>_. 0)) = Some ps \<and>
     ts_TotalDone s \<le> ts_TotalReceived s \<and> (\<forall>p \<in> set ps. ps_DoneBytes p \<le> ps_TotalBytes p)"
proof -
  let ?w = "new_session (\<lambda>_. demo_end) [] (NewSettings [] None) 0 (\<lambda>_. 0)"
  have t: "t_picker demo_end = demo_done" "t_size demo_end = 3" "t_connections demo_end = []" "wd_transfers ?w 0 = demo_end"
    by (simp_all add: demo_end_def demo_stored_def demo_pending_def demo_transfer_def new_session_def)
  have n: "TotalPieces demo_done = 1" "pp_downloadingPieces demo_done = []" by code_simp+
  have inflight: "inflightBlockReceived demo_end ?w = Some []" by (simp add: inflightBlockReceived_def t)
  have total: "total_done demo_end \<noteq> None" by (simp add: total_done_def t n have_bytes_def demo_picks(10))
  have "(case NewBitField 1 of Inl e \<Rightarrow> Inl e | Inr bf \<Rightarrow> set_have_bits demo_done [0..1 - 1] bf) =
      Inr \<lparr>bf_bytes = [128], bf_size = 1\<rparr>" by code_simp
  then have "AvailablePieces demo_end = Inr \<lparr>bf_bytes = [128], bf_size = 1\<rparr>"
    unfolding AvailablePieces_def Let_def t n of_nat_1 .
  then obtain s where s: "GetStatus 0 ?w = Some s"
    using inflight total by (auto simp: GetStatus_def t receivedBytes_def Let_def)
  obtain ps where ps: "PieceSnapshots 0 ?w = Some ps"
    using inflight by (auto simp: PieceSnapshots_def t n piece_snapshot_def demo_picks(10) Let_def)
  show ?thesis using s ps status_bounds [OF s ps] by blast
qed

end
