(* ===== verification/Links.thy ===== *)
theory Links
  imports Endpoints Errors
begin

text \<open>
  The links of \<^verbatim>\<open>emule_link.go\<close> and the text helpers of \<^verbatim>\<open>util.go\<close> they are made with:
  \<open>ed2k://|file|name|size|hash|/\<close> and the links to servers, lists of servers and lists of
  nodes. Text is a list of bytes written as characters.
\<close>

section \<open>Text\<close>

definition Byte2String :: "bytes \<Rightarrow> string" where
  "Byte2String value = hash_String value"

definition IP2String :: "u32 \<Rightarrow> string" where
  "IP2String ip = ip2String ip"

text \<open>\<open>strconv.FormatInt\<close> in base ten, and \<open>strings.ReplaceAll\<close> of one byte.\<close>

definition FormatInt :: "int \<Rightarrow> string" where
  "FormatInt n = (if n < 0 then CHR ''-'' # dec_string (nat (- n)) else dec_string (nat n))"

definition ReplaceAll :: "char \<Rightarrow> string \<Rightarrow> string \<Rightarrow> string" where
  "ReplaceAll c new s = concat (map (\<lambda>x. if x = c then new else [x]) s)"

text \<open>\<open>url.QueryUnescape\<close>: \<open>%xx\<close> is a byte, a plus is a blank, and a percent sign without two hexadecimal digits is an error.\<close>

fun QueryUnescape :: "string \<Rightarrow> string option" where
  "QueryUnescape [] = Some []"
| "QueryUnescape (c # cs) =
     (if c = CHR ''%'' then
        (case cs of
           h # l # rest \<Rightarrow>
             (case (fromHexChar h, fromHexChar l) of
                (Some hi, Some lo) \<Rightarrow> map_option ((#) (char_of (16 * hi + lo))) (QueryUnescape rest)
              | _ \<Rightarrow> None)
         | _ \<Rightarrow> None)
      else map_option ((#) (if c = CHR ''+'' then CHR '' '' else c)) (QueryUnescape cs))"

definition FormatLink :: "string \<Rightarrow> int \<Rightarrow> hash \<Rightarrow> string" where
  "FormatLink fileName fileSize h =
     ''ed2k://|file|'' @ ReplaceAll (CHR '' '') ''%20'' fileName @ ''|'' @ FormatInt fileSize @ ''|'' @ hash_String h @ ''|/''"

section \<open>Links\<close>

datatype LinkType = LinkServer | LinkServers | LinkNodes | LinkFile

record EMuleLink =
  el_Hash :: hash
  el_NumberValue :: int
  el_StringValue :: string
  el_Type :: LinkType

definition zero_hash :: hash where
  "zero_hash = replicate 16 0"

definition parse_server :: "string list \<Rightarrow> EMuleLink outcome" where
  "parse_server parts =
     (if length parts \<noteq> 5 then Inl (NewError LinkMailformed)
      else (case go_ParseInt64 (parts ! 3) of
              None \<Rightarrow> Inl (NewError NumberFormatError)
            | Some port \<Rightarrow>
                Inr \<lparr>el_Hash = zero_hash, el_NumberValue = port, el_StringValue = parts ! 2, el_Type = LinkServer\<rparr>))"

definition parse_list :: "LinkType \<Rightarrow> string list \<Rightarrow> EMuleLink outcome" where
  "parse_list ty parts =
     (if length parts \<noteq> 4 then Inl (NewError LinkMailformed)
      else Inr \<lparr>el_Hash = zero_hash, el_NumberValue = 0, el_StringValue = parts ! 2, el_Type = ty\<rparr>)"

definition parse_file :: "string list \<Rightarrow> EMuleLink outcome" where
  "parse_file parts =
     (if length parts < 6 then Inl (NewError LinkMailformed)
      else (case HashFromString (parts ! 4) of
              Inl e \<Rightarrow> Inl (NewError InternalError)
            | Inr h \<Rightarrow>
                (case go_ParseInt64 (parts ! 3) of
                   None \<Rightarrow> Inl (NewError NumberFormatError)
                 | Some n \<Rightarrow>
                     (case QueryUnescape (parts ! 2) of
                        None \<Rightarrow> Inl (NewError UnsupportedEncoding)
                      | Some name \<Rightarrow>
                          Inr \<lparr>el_Hash = h, el_NumberValue = n, el_StringValue = name, el_Type = LinkFile\<rparr>))))"

definition ParseEMuleLink :: "string \<Rightarrow> EMuleLink outcome" where
  "ParseEMuleLink uri =
     (if uri = [] then Inl (NewError LinkMailformed)
      else (case QueryUnescape uri of
              None \<Rightarrow> Inl (NewError UnsupportedEncoding)
            | Some decURI \<Rightarrow>
                (let parts = split_on (CHR ''|'') decURI
                 in if length parts < 2 \<or> parts ! 0 \<noteq> ''ed2k://'' \<or> last parts \<noteq> ''/'' then Inl (NewError LinkMailformed)
                    else if parts ! 1 = ''server'' then parse_server parts
                    else if parts ! 1 = ''serverlist'' then parse_list LinkServers parts
                    else if parts ! 1 = ''nodeslist'' then parse_list LinkNodes parts
                    else if parts ! 1 = ''file'' then parse_file parts
                    else Inl (NewError UnknownLinkType))))"

section \<open>What a formatted link is read as\<close>

abbreviation blank_plus :: "string \<Rightarrow> string" where
  "blank_plus \<equiv> map (\<lambda>c. if c = CHR ''+'' then CHR '' '' else c)"

lemma QueryUnescape_plain:
  "CHR ''%'' \<notin> set s \<Longrightarrow> QueryUnescape t = Some u \<Longrightarrow> QueryUnescape (s @ t) = Some (blank_plus s @ u)"
  by (induction s) auto

lemma blank: "fromHexChar (CHR ''2'') = Some 2" "fromHexChar (CHR ''0'') = Some 0" "char_of (32::nat) = CHR '' ''"
  by code_simp+

lemma QueryUnescape_name:
  "CHR ''%'' \<notin> set s \<Longrightarrow> QueryUnescape t = Some u \<Longrightarrow>
     QueryUnescape (ReplaceAll (CHR '' '') ''%20'' s @ t) = Some (blank_plus s @ u)"
  by (induction s) (auto simp: ReplaceAll_def blank)

lemma FormatInt_chars:
  "c \<in> set (FormatInt n) \<Longrightarrow> c \<noteq> CHR ''%'' \<and> c \<noteq> CHR ''+'' \<and> c \<noteq> CHR ''|''"
  using dec_string_no [of "CHR ''%''"] dec_string_no [of "CHR ''+''"] dec_string_chars
  by (fastforce simp: FormatInt_def split: if_splits)

lemma go_ParseInt64_FormatInt:
  assumes "- (2 ^ 63) \<le> n" "n < 2 ^ 63"
  shows "go_ParseInt64 (FormatInt n) = Some n"
proof (cases "n < 0")
  case True
  obtain c cs where "dec_string (nat (- n)) = c # cs" using dec_string_Cons by blast
  with True assms digits_value_dec [of "nat (- n)"] show ?thesis
    by (simp add: go_ParseInt64_def FormatInt_def Let_def)
next
  case False
  with assms show ?thesis by (simp add: FormatInt_def go_ParseInt64_dec)
qed

lemma hash_String_chars:
  "c \<in> set (hash_String h) \<Longrightarrow> c \<noteq> CHR ''%'' \<and> c \<noteq> CHR ''+'' \<and> c \<noteq> CHR ''|''"
proof -
  assume "c \<in> set (hash_String h)"
  then obtain b :: u8 where "c = hexDigit (unat b div 16) \<or> c = hexDigit (unat b mod 16)"
    by (auto simp: hash_String_def)
  moreover have "unat b div 16 < 16" using unsigned_less [of b, where ?'a = nat] by (simp add: less_mult_imp_div_less)
  moreover have "unat b mod 16 < 16" by simp
  ultimately obtain n where n: "n < 16" "c = hexDigit n" by blast
  have "\<forall>n \<in> set [0..<16]. hexDigit n \<noteq> CHR ''%'' \<and> hexDigit n \<noteq> CHR ''+'' \<and> hexDigit n \<noteq> CHR ''|''"
    by code_simp
  with n show ?thesis by simp
qed

text \<open>C35: a link made for a file is read back as that file - its hash, its size and its name, whatever blanks
  the name has - when the name has no percent sign and no bar; but a plus sign in the name comes back as a blank.\<close>

theorem link_roundtrip:
  assumes "wf_hash h" and "- (2 ^ 63) \<le> n" and "n < 2 ^ 63"
    and "CHR ''%'' \<notin> set name" and "CHR ''|'' \<notin> set name"
  shows "ParseEMuleLink (FormatLink name n h) =
    Inr \<lparr>el_Hash = h, el_NumberValue = n,
         el_StringValue = map (\<lambda>c. if c = CHR ''+'' then CHR '' '' else c) name, el_Type = LinkFile\<rparr>"
proof -
  let ?tail = "''|'' @ FormatInt n @ ''|'' @ hash_String h @ ''|/''"
  have "c \<noteq> CHR ''%'' \<and> c \<noteq> CHR ''+''" if "c \<in> set ?tail" for c
    using that FormatInt_chars hash_String_chars by auto
  then have "CHR ''%'' \<notin> set ?tail" "blank_plus ?tail = ?tail" by (blast, intro map_idI) auto
  then have tail: "QueryUnescape ?tail = Some ?tail" using QueryUnescape_plain [of ?tail "[]" "[]"] by simp
  have "QueryUnescape (FormatLink name n h) = Some (''ed2k://|file|'' @ blank_plus name @ ?tail)"
    using QueryUnescape_plain [OF _ QueryUnescape_name [OF assms(4) tail], of "''ed2k://|file|''"]
    by (simp add: FormatLink_def)
  moreover have "split_on (CHR ''|'') (''ed2k://|file|'' @ blank_plus name @ ?tail) =
      [''ed2k://'', ''file'', blank_plus name, FormatInt n, hash_String h, ''/'']"
  proof -
    have "CHR ''|'' \<notin> set (blank_plus name)" "CHR ''|'' \<notin> set (FormatInt n)" "CHR ''|'' \<notin> set (hash_String h)"
      using assms(5) FormatInt_chars hash_String_chars by auto
    then show ?thesis by (simp add: split_on_append)
  qed
  moreover have "QueryUnescape (blank_plus name) = Some (blank_plus name)"
  proof -
    have "blank_plus (blank_plus name) = blank_plus name" "CHR ''%'' \<notin> set (blank_plus name)"
      using assms(4) by (simp, auto)
    then show ?thesis using QueryUnescape_plain [of "blank_plus name" "[]" "[]"] by simp
  qed
  moreover have "FormatLink name n h \<noteq> []" by (simp add: FormatLink_def)
  ultimately show ?thesis
    using assms(1-3) by (simp add: ParseEMuleLink_def parse_file_def hash_String_parse go_ParseInt64_FormatInt)
qed

theorem link_roundtrip_witness:
  "ParseEMuleLink (FormatLink ''a b+c'' 700 (replicate 16 7)) =
     Inr \<lparr>el_Hash = replicate 16 7, el_NumberValue = 700, el_StringValue = ''a b c'', el_Type = LinkFile\<rparr>"
  using link_roundtrip [of "replicate 16 7" 700 "''a b+c''"] by (simp add: wf_hash_def hashSize_def)

end
