(* ===== verification/Search.thy ===== *)
theory Search
  imports Links Server_Packets Kad_Packets Stable_Sort Peer_Policy "HOL-Library.AList" "HOL-Library.Sublist"
begin

text \<open>
  Searches of a session (\<^verbatim>\<open>search.go\<close>): the results of servers and of the DHT are merged by
  hash, until the servers' deadline has passed and the DHT is done. The clock is an
  argument. A \<^verbatim>\<open>*searchTask\<close> is told apart by its identifier.
\<close>

section \<open>Parameters, results and snapshots\<close>

definition SearchScopeServer :: u8 where "SearchScopeServer = 1"
definition SearchScopeDHT :: u8 where "SearchScopeDHT = 2"
definition SearchScopeAll :: u8 where "SearchScopeAll = SearchScopeServer OR SearchScopeDHT"

type_synonym SearchState = string

definition SearchStateIdle :: SearchState where "SearchStateIdle = ''IDLE''"
definition SearchStateRunning :: SearchState where "SearchStateRunning = ''RUNNING''"
definition SearchStateFinished :: SearchState where "SearchStateFinished = ''FINISHED''"
definition SearchStateStopped :: SearchState where "SearchStateStopped = ''STOPPED''"
definition SearchStateFailed :: SearchState where "SearchStateFailed = ''FAILED''"

lemmas search_states = SearchStateIdle_def SearchStateRunning_def SearchStateFinished_def
  SearchStateStopped_def SearchStateFailed_def

record SearchParams =
  sp_Query :: bytes
  sp_Scope :: u8
  sp_MinSize :: int
  sp_MaxSize :: int
  sp_MinSources :: int
  sp_MinCompleteSources :: int
  sp_FileType :: bytes
  sp_Extension :: bytes

definition SearchResultServer :: u8 where "SearchResultServer = 1"
definition SearchResultKAD :: u8 where "SearchResultKAD = 2"

record FoundResult =
  fr_Hash :: hash
  fr_FileName :: bytes
  fr_FileSize :: int
  fr_Sources :: int
  fr_CompleteSources :: int
  fr_MediaBitrate :: int
  fr_MediaLength :: int
  fr_MediaCodec :: bytes
  fr_Extension :: bytes
  fr_FileType :: bytes
  fr_Source :: u8

definition ED2KLink :: "FoundResult \<Rightarrow> string" where
  "ED2KLink r =
     (if fr_FileName r = [] \<or> fr_FileSize r \<le> 0 \<or> fr_Hash r = Invalid then []
      else FormatLink (map (\<lambda>b. char_of (unat b)) (fr_FileName r)) (fr_FileSize r) (fr_Hash r))"

record SearchSnapshot =
  sn_ID :: u32
  sn_Params :: SearchParams
  sn_State :: SearchState
  sn_Results :: "FoundResult list"
  sn_UpdatedAt :: int
  sn_StartedAt :: int
  sn_ServerBusy :: bool
  sn_DHTBusy :: bool
  sn_KadKeyword :: bytes
  sn_Error :: string

section \<open>A search\<close>

record searchTask =
  sk_id :: u32
  sk_params :: SearchParams
  sk_state :: SearchState
  sk_results :: "(string \<times> FoundResult) list"
  sk_startedAt :: int
  sk_updatedAt :: int
  sk_deadlineAt :: int
  sk_serverBusy :: bool
  sk_dhtBusy :: bool
  sk_kadKeyword :: bytes
  sk_errText :: string

definition newSearchTask :: "u32 \<Rightarrow> SearchParams \<Rightarrow> int \<Rightarrow> searchTask" where
  "newSearchTask i params startedAt =
     \<lparr>sk_id = i, sk_params = params, sk_state = SearchStateRunning, sk_results = [],
      sk_startedAt = startedAt, sk_updatedAt = startedAt, sk_deadlineAt = 0, sk_serverBusy = False,
      sk_dhtBusy = False, sk_kadKeyword = [], sk_errText = []\<rparr>"

definition result_less :: "FoundResult \<Rightarrow> FoundResult \<Rightarrow> bool" where
  "result_less a b \<longleftrightarrow>
     (if fr_Sources a \<noteq> fr_Sources b then fr_Sources a > fr_Sources b
      else if fr_CompleteSources a \<noteq> fr_CompleteSources b then fr_CompleteSources a > fr_CompleteSources b
      else if fr_FileSize a \<noteq> fr_FileSize b then fr_FileSize a > fr_FileSize b
      else bytesCompare (fr_FileName a) (fr_FileName b) < 0)"

definition sk_snapshot :: "searchTask \<Rightarrow> SearchSnapshot" where
  "sk_snapshot s =
     \<lparr>sn_ID = sk_id s, sn_Params = sk_params s, sn_State = sk_state s,
      sn_Results = sort_by result_less (map snd (sk_results s)), sn_UpdatedAt = sk_updatedAt s,
      sn_StartedAt = sk_startedAt s, sn_ServerBusy = sk_serverBusy s, sn_DHTBusy = sk_dhtBusy s,
      sn_KadKeyword = sk_kadKeyword s, sn_Error = sk_errText s\<rparr>"

definition setDeadline :: "int \<Rightarrow> int \<Rightarrow> searchTask \<Rightarrow> searchTask" where
  "setDeadline now deadline s =
     s\<lparr>sk_deadlineAt := (if deadline > sk_deadlineAt s then deadline else sk_deadlineAt s), sk_updatedAt := now\<rparr>"

definition finishLocked :: "int \<Rightarrow> searchTask \<Rightarrow> searchTask" where
  "finishLocked now s =
     (if sk_state s \<noteq> SearchStateRunning then s
      else s\<lparr>sk_state := (if \<not> sk_serverBusy s \<and> \<not> sk_dhtBusy s then SearchStateFinished else sk_state s),
             sk_updatedAt := now\<rparr>)"

definition finishServer :: "int \<Rightarrow> searchTask \<Rightarrow> searchTask" where
  "finishServer now s = finishLocked now (s\<lparr>sk_serverBusy := False\<rparr>)"

definition finishDHT :: "int \<Rightarrow> searchTask \<Rightarrow> searchTask" where
  "finishDHT now s = finishLocked now (s\<lparr>sk_dhtBusy := False\<rparr>)"

definition sk_stop :: "int \<Rightarrow> searchTask \<Rightarrow> searchTask" where
  "sk_stop now s =
     s\<lparr>sk_serverBusy := False, sk_dhtBusy := False, sk_state := SearchStateStopped, sk_updatedAt := now\<rparr>"

definition sk_fail :: "int \<Rightarrow> string option \<Rightarrow> searchTask \<Rightarrow> searchTask" where
  "sk_fail now err s =
     s\<lparr>sk_serverBusy := False, sk_dhtBusy := False, sk_state := SearchStateFailed,
       sk_errText := (case err of Some e \<Rightarrow> e | None \<Rightarrow> sk_errText s), sk_updatedAt := now\<rparr>"

definition onTick :: "int \<Rightarrow> searchTask \<Rightarrow> searchTask" where
  "onTick now s =
     (if sk_state s \<noteq> SearchStateRunning then s
      else finishLocked now
        (if sk_serverBusy s \<and> sk_deadlineAt s > 0 \<and> now \<ge> sk_deadlineAt s then s\<lparr>sk_serverBusy := False\<rparr> else s))"

text \<open>What a result adds to the one that is known under its hash.\<close>

definition merge_into :: "FoundResult \<Rightarrow> FoundResult \<Rightarrow> FoundResult" where
  "merge_into existing result =
     existing\<lparr>fr_FileName := (if fr_FileName existing = [] then fr_FileName result else fr_FileName existing),
       fr_FileSize := (if fr_FileSize existing = 0 then fr_FileSize result else fr_FileSize existing),
       fr_Sources := (if fr_Sources result > fr_Sources existing then fr_Sources result else fr_Sources existing),
       fr_CompleteSources := (if fr_CompleteSources result > fr_CompleteSources existing
                              then fr_CompleteSources result else fr_CompleteSources existing),
       fr_MediaBitrate := (if fr_MediaBitrate existing = 0 then fr_MediaBitrate result else fr_MediaBitrate existing),
       fr_MediaLength := (if fr_MediaLength existing = 0 then fr_MediaLength result else fr_MediaLength existing),
       fr_MediaCodec := (if fr_MediaCodec existing = [] then fr_MediaCodec result else fr_MediaCodec existing),
       fr_Extension := (if fr_Extension existing = [] then fr_Extension result else fr_Extension existing),
       fr_FileType := (if fr_FileType existing = [] then fr_FileType result else fr_FileType existing),
       fr_Source := fr_Source existing OR fr_Source result\<rparr>"

definition mergeResult :: "int \<Rightarrow> FoundResult \<Rightarrow> searchTask \<Rightarrow> searchTask" where
  "mergeResult now result s =
     (let key = hash_String (fr_Hash result)
      in s\<lparr>sk_results := AList.update key
             (case map_of (sk_results s) key of
                Some existing \<Rightarrow> merge_into existing result
              | None \<Rightarrow> result) (sk_results s),
           sk_updatedAt := now\<rparr>)"

section \<open>Results from the wire\<close>

definition FTMediaLength :: u8 where "FTMediaLength = 0xD3"
definition FTMediaBitrate :: u8 where "FTMediaBitrate = 0xD4"
definition FTMediaCodec :: u8 where "FTMediaCodec = 0xD5"

text \<open>Both kinds of entries are read by their tags. Sizes above 4 GiB come in two halves.\<close>

definition result_of_tags :: "hash \<Rightarrow> (u8 \<Rightarrow> bytes \<times> bool) \<Rightarrow> (u8 \<Rightarrow> u64 \<times> bool) \<Rightarrow> u8 \<Rightarrow> FoundResult" where
  "result_of_tags h StringTag UIntTag source =
     (let text = (\<lambda>i. case StringTag i of (v, ok) \<Rightarrow> if ok then v else []);
          number = (\<lambda>i. case UIntTag i of (v, ok) \<Rightarrow> if ok then v else 0)
      in \<lparr>fr_Hash = h, fr_FileName = text FTFilename,
          fr_FileSize = sint (number FTFileSize + push_bit 32 (number FTFileSizeHi)),
          fr_Sources = sint (number FTSources), fr_CompleteSources = sint (number FTCompleteSources),
          fr_MediaBitrate = sint (number FTMediaBitrate), fr_MediaLength = sint (number FTMediaLength),
          fr_MediaCodec = text FTMediaCodec, fr_Extension = text FTFileFormat, fr_FileType = text FTFileType,
          fr_Source = source\<rparr>)"

definition makeSearchResultFromServer :: "SharedFileEntry \<Rightarrow> FoundResult" where
  "makeSearchResultFromServer entry =
     result_of_tags (sfe_Hash entry) (sfe_StringTag entry) (sfe_UIntTag entry) SearchResultServer"

definition makeSearchResultFromKAD :: "SearchEntry \<Rightarrow> FoundResult" where
  "makeSearchResultFromKAD entry =
     result_of_tags (se_ID entry) (se_StringTag entry) (se_UIntTag entry) SearchResultKAD"

definition matchesSearchFilters :: "FoundResult \<Rightarrow> SearchParams \<Rightarrow> bool" where
  "matchesSearchFilters result params \<longleftrightarrow>
     \<not> (sp_MinSize params > 0 \<and> fr_FileSize result > 0 \<and> fr_FileSize result < sp_MinSize params) \<and>
     \<not> (sp_MaxSize params > 0 \<and> fr_FileSize result > sp_MaxSize params) \<and>
     \<not> (sp_MinSources params > 0 \<and> fr_Sources result < sp_MinSources params) \<and>
     \<not> (sp_MinCompleteSources params > 0 \<and> fr_CompleteSources result < sp_MinCompleteSources params)"

definition normalizeSearchParams :: "SearchParams \<Rightarrow> SearchParams" where
  "normalizeSearchParams params =
     params\<lparr>sp_Query := TrimSpace (sp_Query params),
       sp_Scope := (if sp_Scope params = 0 then SearchScopeAll else sp_Scope params)\<rparr>"

fun longest_field :: "bytes list \<Rightarrow> bytes \<Rightarrow> bytes" where
  "longest_field [] best = best"
| "longest_field (field # rest) best =
     longest_field rest (if length field < 3 then best else if length field > length best then field else best)"

definition pickKadKeyword :: "(bytes \<Rightarrow> bytes) \<Rightarrow> bytes \<Rightarrow> bytes" where
  "pickKadKeyword toLower query =
     (let query = TrimSpace (toLower query)
      in if query = [] then []
         else longest_field (FieldsFunc (\<lambda>c. c \<in> set separators) [] query) [])"

section \<open>The searches of a session\<close>

record Searches =
  srch_active :: "searchTask option"
  srch_next :: u32

text \<open>An operation on the active search, if it is the one with the identifier. Stopping delivers the search that was stopped.\<close>

definition on_search :: "u32 \<Rightarrow> (searchTask \<Rightarrow> searchTask) \<Rightarrow> Searches \<Rightarrow> Searches" where
  "on_search i f s =
     s\<lparr>srch_active := map_option (\<lambda>t. if sk_id t = i then f t else t) (srch_active s)\<rparr>"

definition StopSearch :: "int \<Rightarrow> u32 \<Rightarrow> Searches \<Rightarrow> Searches \<times> searchTask option" where
  "StopSearch now i s =
     (case srch_active s of
        None \<Rightarrow> (s, None)
      | Some task \<Rightarrow>
          if i \<noteq> 0 \<and> sk_id task \<noteq> i then (s, None)
          else (s\<lparr>srch_active := None\<rparr>, Some (sk_stop now task)))"

definition session_SearchSnapshot :: "Searches \<Rightarrow> SearchSnapshot option" where
  "session_SearchSnapshot s = map_option sk_snapshot (srch_active s)"

definition tickSearches :: "int \<Rightarrow> Searches \<Rightarrow> Searches" where
  "tickSearches now s = s\<lparr>srch_active := map_option (onTick now) (srch_active s)\<rparr>"

text \<open>What the DHT delivers for the search \<open>i\<close>, which may no longer be the active one.\<close>

definition merge_all :: "int \<Rightarrow> SearchParams \<Rightarrow> FoundResult list \<Rightarrow> searchTask \<Rightarrow> searchTask" where
  "merge_all now params results s =
     fold (\<lambda>r s. if matchesSearchFilters r params then mergeResult now r s else s) results s"

definition OnDHTSearchResult :: "int \<Rightarrow> u32 \<Rightarrow> SearchParams \<Rightarrow> SearchEntry list \<Rightarrow> Searches \<Rightarrow> Searches" where
  "OnDHTSearchResult now i params entries s =
     on_search i (\<lambda>t. finishDHT now (merge_all now params (map makeSearchResultFromKAD entries) t)) s"

text \<open>
  What a server delivers; \<open>True\<close> asks that server for more. The deadline of \<open>setDeadline\<close> only
  moves back: \<open>timeout\<close> is \<open>ServerSearchTimeout\<close> in seconds.
\<close>

definition OnServerSearchResult :: "int \<Rightarrow> int \<Rightarrow> SearchResult \<Rightarrow> Searches \<Rightarrow> Searches \<times> bool" where
  "OnServerSearchResult now timeout result s =
     (case srch_active s of
        None \<Rightarrow> (s, False)
      | Some task \<Rightarrow>
          if sk_state task \<noteq> SearchStateRunning then (s, False)
          else
            (let task = merge_all now (sk_params task) (map makeSearchResultFromServer (sres_Results result)) task
             in if sres_MoreResults result then (s\<lparr>srch_active := Some (setDeadline now (now + Seconds timeout) task)\<rparr>, True)
                else (s\<lparr>srch_active := Some (setDeadline now (now + Seconds 2) task)\<rparr>, False)))"

section \<open>Starting a search\<close>

text \<open>The servers that were asked make the search busy until the timeout.\<close>

definition search_sent :: "int \<Rightarrow> int \<Rightarrow> searchTask \<Rightarrow> searchTask" where
  "search_sent now timeout task =
     task\<lparr>sk_serverBusy := True, sk_updatedAt := now, sk_deadlineAt := now + Seconds timeout\<rparr>"

text \<open>\<open>tracker\<close> says whether there is a tracker, and whether it starts a search for the hash of the keyword.\<close>

definition startDHTSearch :: "(bytes \<Rightarrow> bytes) \<Rightarrow> int \<Rightarrow> (hash \<Rightarrow> bool) option \<Rightarrow> SearchParams \<Rightarrow> searchTask \<Rightarrow> searchTask \<times> bool" where
  "startDHTSearch toLower now tracker params task =
     (case tracker of
        None \<Rightarrow> (task, False)
      | Some search \<Rightarrow>
          (let keyword = pickKadKeyword toLower (sp_Query params)
           in if keyword = [] then (task, False)
              else
                (let task = task\<lparr>sk_kadKeyword := keyword, sk_dhtBusy := True, sk_updatedAt := now\<rparr>
                 in case HashFromData keyword of
                      Inl e \<Rightarrow> (finishDHT now task, False)
                    | Inr h \<Rightarrow> (task, search h))))"

text \<open>
  \<open>servers\<close> says whether some server could be asked. The search that was started, or why
  none was; the request to the servers is sent by \<open>sendSearchRequest\<close> of the session.
\<close>

definition begin_search :: "(bytes \<Rightarrow> bytes) \<Rightarrow> int \<Rightarrow> int \<Rightarrow> bool \<Rightarrow> (hash \<Rightarrow> bool) option \<Rightarrow> SearchParams \<Rightarrow> searchTask \<Rightarrow> searchTask" where
  "begin_search toLower now timeout servers tracker params task =
     (let asked = (sp_Scope params AND SearchScopeServer \<noteq> 0 \<and> servers);
          task = (if asked then search_sent now timeout task else task);
          (task, dht) = (if sp_Scope params AND SearchScopeDHT \<noteq> 0 then startDHTSearch toLower now tracker params task
                         else (task, False))
      in if \<not> asked \<and> \<not> dht then sk_fail now (Some ''no search backends available'') task else task)"

definition StartSearch ::
  "(bytes \<Rightarrow> bytes) \<Rightarrow> int \<Rightarrow> int \<Rightarrow> bool \<Rightarrow> (hash \<Rightarrow> bool) option \<Rightarrow> SearchParams \<Rightarrow> Searches \<Rightarrow> Searches \<times> (string + u32)" where
  "StartSearch toLower now timeout servers tracker params s =
     (let params = normalizeSearchParams params
      in if sp_Query params = [] then (s, Inl (jerr_Error (Some (NewError IllegalArgument))))
         else if (case srch_active s of Some t \<Rightarrow> sk_state t = SearchStateRunning | None \<Rightarrow> False)
         then (s, Inl ''search already in progress'')
         else
           (let i = srch_next s + 1; task = newSearchTask i params now
            in (s\<lparr>srch_next := i, srch_active := Some (begin_search toLower now timeout servers tracker params task)\<rparr>,
                Inr i)))"

section \<open>Merging\<close>

definition first_not :: "'a \<Rightarrow> 'a list \<Rightarrow> 'a" where
  "first_not z xs = (case dropWhile ((=) z) xs of [] \<Rightarrow> z | x # _ \<Rightarrow> x)"

abbreviation of_same_file :: "hash \<Rightarrow> FoundResult list \<Rightarrow> FoundResult list" where
  "of_same_file h rs \<equiv> filter (\<lambda>r. fr_Hash r = h) rs"

definition merged_of :: "FoundResult list \<Rightarrow> FoundResult \<Rightarrow> bool" where
  "merged_of rs e \<longleftrightarrow>
     rs \<noteq> [] \<and> fr_Sources e = Max (set (map fr_Sources rs)) \<and>
     fr_CompleteSources e = Max (set (map fr_CompleteSources rs)) \<and>
     fr_FileName e = first_not [] (map fr_FileName rs) \<and> fr_FileSize e = first_not 0 (map fr_FileSize rs) \<and>
     fr_Source e = foldr (OR) (map fr_Source rs) 0"

lemma first_not_snoc: "first_not z (xs @ [x]) = (if first_not z xs = z then x else first_not z xs)"
  by (induction xs) (auto simp: first_not_def)

lemma merged_one: "merged_of [r] r"
  by (simp add: merged_of_def first_not_def)

lemma foldr_or_snoc: "foldr (OR) (xs @ [x]) 0 = foldr (OR) xs 0 OR (x :: u8)"
  by (induction xs) (simp_all add: or.assoc)

lemma Max_snoc: "xs \<noteq> [] \<Longrightarrow> Max (set (xs @ [x])) = (if x > Max (set xs) then x else Max (set xs))" for x :: int
proof -
  assume "xs \<noteq> []"
  then have "Max (insert x (set xs)) = max x (Max (set xs))" by (intro Max_insert) simp_all
  then show ?thesis by (simp only: set_append list.set Un_insert_right Un_empty_right) (simp add: max_def)
qed

lemma merged_snoc: "merged_of rs e \<Longrightarrow> merged_of (rs @ [r]) (merge_into e r)"
  unfolding merged_of_def map_append list.map merge_into_def
  by (simp add: Max_snoc first_not_snoc foldr_or_snoc del: foldr_append set_append)

definition results_ok :: "FoundResult list \<Rightarrow> (string \<times> FoundResult) list \<Rightarrow> bool" where
  "results_ok rs m \<longleftrightarrow>
     distinct (map fst m) \<and> (\<forall>(k, e) \<in> set m. k = hash_String (fr_Hash e) \<and> merged_of (of_same_file (fr_Hash e) rs) e) \<and>
     (\<forall>r \<in> set rs. hash_String (fr_Hash r) \<in> fst ` set m)"

lemma set_update_distinct:
  "distinct (map fst m) \<Longrightarrow> set (AList.update k v m) = insert (k, v) {p \<in> set m. fst p \<noteq> k}"
  by (induction m) (auto simp: image_iff)

lemma fr_Hash_merge [simp]: "fr_Hash (merge_into e r) = fr_Hash e"
  by (simp add: merge_into_def)

lemma results_ok_merge:
  assumes "results_ok rs (sk_results s)"
  shows "results_ok (rs @ [r]) (sk_results (mergeResult now r s))"
proof -
  let ?m = "sk_results s" and ?k = "hash_String (fr_Hash r)"
  have dist: "distinct (map fst ?m)" and all: "\<And>k e. (k, e) \<in> set ?m \<Longrightarrow> k = hash_String (fr_Hash e) \<and> merged_of (of_same_file (fr_Hash e) rs) e"
    and cover: "\<And>x. x \<in> set rs \<Longrightarrow> hash_String (fr_Hash x) \<in> fst ` set ?m"
    using assms by (auto simp: results_ok_def)
  define e' where "e' = (case map_of ?m ?k of Some e \<Rightarrow> merge_into e r | None \<Rightarrow> r)"
  have m': "sk_results (mergeResult now r s) = AList.update ?k e' ?m"
    by (simp add: mergeResult_def e'_def Let_def)
  have set: "set (AList.update ?k e' ?m) = insert (?k, e') {p \<in> set ?m. fst p \<noteq> ?k}"
    by (rule set_update_distinct [OF dist])
  have e': "fr_Hash e' = fr_Hash r \<and> merged_of (of_same_file (fr_Hash r) (rs @ [r])) e'"
  proof (cases "map_of ?m ?k")
    case None
    then have "?k \<notin> fst ` set ?m" by (simp add: map_of_eq_None_iff)
    then have "fr_Hash x \<noteq> fr_Hash r" if "x \<in> set rs" for x using cover [OF that] \<open>?k \<notin> fst ` set ?m\<close> by metis
    then have "of_same_file (fr_Hash r) rs = []" by (simp add: filter_empty_conv)
    with None show ?thesis by (simp add: e'_def merged_one)
  next
    case (Some e)
    then have "(?k, e) \<in> set ?m" by (rule map_of_SomeD)
    from all [OF this] have h: "fr_Hash e = fr_Hash r" and "merged_of (of_same_file (fr_Hash r) rs) e"
      using hash_String_inj [of "fr_Hash r" "fr_Hash e"] by simp_all
    with Some show ?thesis by (simp add: e'_def merged_snoc)
  qed
  have "k = hash_String (fr_Hash e) \<and> merged_of (of_same_file (fr_Hash e) (rs @ [r])) e" if "(k, e) \<in> set (AList.update ?k e' ?m)" for k e
  proof (cases "k = ?k")
    case True
    with that e' show ?thesis by (auto simp: set)
  next
    case False
    then have "(k, e) \<in> set ?m" using that by (simp add: set)
    from all [OF this] False have "k = hash_String (fr_Hash e)" "merged_of (of_same_file (fr_Hash e) rs) e" "fr_Hash r \<noteq> fr_Hash e"
      by auto
    then show ?thesis by simp
  qed
  moreover have "hash_String (fr_Hash x) \<in> fst ` set (AList.update ?k e' ?m)" if "x \<in> set (rs @ [r])" for x
    using that cover [of x] unfolding AList.dom_update by auto
  ultimately show ?thesis
    unfolding results_ok_def m' using AList.distinct_update [OF dist, of ?k e'] by blast
qed

lemma results_ok_all: "results_ok rs0 (sk_results s) \<Longrightarrow> results_ok (rs0 @ rs) (sk_results (fold (mergeResult now) rs s))"
proof (induction rs arbitrary: rs0 s)
  case (Cons r rs)
  from Cons.IH [OF results_ok_merge [OF Cons.prems]] show ?case by simp
qed simp

lemma result_less_asym: "result_less a b \<Longrightarrow> \<not> result_less b a"
  using bytesCompare_swap [of "fr_FileName a" "fr_FileName b"] by (auto simp: result_less_def split: if_splits)

lemma bytesCompare_not_less_trans:
  "\<not> bytesCompare a b < 0 \<Longrightarrow> \<not> bytesCompare b c < 0 \<Longrightarrow> \<not> bytesCompare a c < 0"
  using bytesCompare_trans [of c b a] bytesCompare_eq [of a b] bytesCompare_eq [of b c]
    bytesCompare_swap [of a b] bytesCompare_swap [of b c] bytesCompare_swap [of a c]
  by (smt (verit))

lemma result_less_neg: "\<not> result_less a b \<Longrightarrow> \<not> result_less b c \<Longrightarrow> \<not> result_less a c"
  using bytesCompare_not_less_trans [of "fr_FileName a" "fr_FileName b" "fr_FileName c"]
  by (auto simp: result_less_def split: if_splits)

text \<open>C26: a search shows every file that was found once, whatever came in which order: under its hash, with the
  most sources that anyone reported, the first name and size that were not empty and the marks of all who
  reported it, and the files with more sources stand first.\<close>

theorem merged_results:
  fixes rs :: "FoundResult list" and now startedAt :: int and i :: u32 and params :: SearchParams
  defines "snap \<equiv> sn_Results (sk_snapshot (fold (mergeResult now) rs (newSearchTask i params startedAt)))"
  shows "distinct (map fr_Hash snap) \<and> fr_Hash ` set snap = fr_Hash ` set rs \<and>
    sorted_wrt (\<lambda>a b. \<not> result_less b a) snap \<and>
    (\<forall>e \<in> set snap. let same = filter (\<lambda>r. fr_Hash r = fr_Hash e) rs
       in fr_Sources e = Max (set (map fr_Sources same)) \<and>
          fr_CompleteSources e = Max (set (map fr_CompleteSources same)) \<and>
          fr_FileName e = first_not [] (map fr_FileName same) \<and>
          fr_FileSize e = first_not 0 (map fr_FileSize same) \<and>
          fr_Source e = foldr (OR) (map fr_Source same) 0)"
proof -
  let ?m = "sk_results (fold (mergeResult now) rs (newSearchTask i params startedAt))"
  have "results_ok [] (sk_results (newSearchTask i params startedAt))" by (simp add: results_ok_def newSearchTask_def)
  from results_ok_all [OF this] have ok: "results_ok rs ?m" by simp
  have snap: "snap = sort_by result_less (map snd ?m)" by (simp add: snap_def sk_snapshot_def)
  have keys: "map fst ?m = map (\<lambda>e. hash_String (fr_Hash e)) (map snd ?m)"
    using ok by (auto simp: results_ok_def)
  have "distinct (map fst ?m)" using ok by (simp add: results_ok_def)
  then have "distinct (map hash_String (map fr_Hash (map snd ?m)))" unfolding keys by (simp add: comp_def)
  then have "distinct (map fr_Hash (map snd ?m))" by (simp only: distinct_map)
  moreover have "mset (map fr_Hash snap) = mset (map fr_Hash (map snd ?m))" by (simp add: snap multiset.map_comp)
  ultimately have "distinct (map fr_Hash snap)" using mset_eq_imp_distinct_iff by blast
  moreover have "fr_Hash ` set snap = fr_Hash ` set rs"
  proof (intro set_eqI iffI)
    fix h assume "h \<in> fr_Hash ` set snap"
    then obtain k e where "(k, e) \<in> set ?m" "h = fr_Hash e" by (auto simp: snap)
    with ok have "merged_of (of_same_file h rs) e" by (auto simp: results_ok_def)
    then show "h \<in> fr_Hash ` set rs" by (auto simp: merged_of_def filter_empty_conv)
  next
    fix h assume "h \<in> fr_Hash ` set rs"
    then have "hash_String h \<in> fst ` set ?m" using ok by (auto simp: results_ok_def)
    then obtain e where "(hash_String h, e) \<in> set ?m" by auto
    moreover from this ok have "hash_String h = hash_String (fr_Hash e)" by (auto simp: results_ok_def)
    ultimately show "h \<in> fr_Hash ` set snap" using hash_String_inj by (force simp: snap)
  qed
  moreover have "sorted_wrt (\<lambda>a b. \<not> result_less b a) snap"
    unfolding snap by (rule sorted_sort_by [OF result_less_asym result_less_neg])
  moreover have "merged_of (of_same_file (fr_Hash e) rs) e" if "e \<in> set snap" for e
    using that ok by (auto simp: snap results_ok_def)
  ultimately show ?thesis by (auto simp: merged_of_def Let_def)
qed

definition demo_result :: "bytes \<Rightarrow> int \<Rightarrow> u8 \<Rightarrow> FoundResult" where
  "demo_result name sources source =
     \<lparr>fr_Hash = [7], fr_FileName = name, fr_FileSize = 0, fr_Sources = sources, fr_CompleteSources = 0, fr_MediaBitrate = 0,
      fr_MediaLength = 0, fr_MediaCodec = [], fr_Extension = [], fr_FileType = [], fr_Source = source\<rparr>"

definition demo_search_params :: SearchParams where
  "demo_search_params =
     \<lparr>sp_Query = [0x61, 0x62, 0x63], sp_Scope = 0, sp_MinSize = 0, sp_MaxSize = 0, sp_MinSources = 0, sp_MinCompleteSources = 0,
      sp_FileType = [], sp_Extension = []\<rparr>"

theorem merged_results_witness:
  "distinct (map fr_Hash (sn_Results (sk_snapshot (fold (mergeResult 1) [demo_result [] 3 1, demo_result [9] 2 2]
     (newSearchTask 1 demo_search_params 0)))))"
  using merged_results [of 1 "[demo_result [] 3 1, demo_result [9] 2 2]" 1 demo_search_params 0] by blast

section \<open>The keyword\<close>

lemma fields_inside:
  "f \<in> set (FieldsFunc sep field cs) \<Longrightarrow> sublist f (field @ cs)"
proof (induction sep field cs rule: FieldsFunc.induct)
  case (1 sep field)
  then show ?case by (simp split: if_splits)
next
  case (2 sep field c cs)
  have tail: "sublist f (field @ c # cs)" if "sublist f cs"
    using that unfolding sublist_def by (metis append.assoc append_Cons)
  show ?case
  proof (cases "sep c")
    case True
    then have "sublist f cs \<or> f = field" using 2(1) [OF True] 2(2) [OF True] 2(4) by (cases "field = []") auto
    with tail show ?thesis by auto
  next
    case False
    with 2 show ?thesis by simp
  qed
qed

lemma fields_no_separator:
  "f \<in> set (FieldsFunc sep field cs) \<Longrightarrow> \<forall>c \<in> set field. \<not> sep c \<Longrightarrow> \<forall>c \<in> set f. \<not> sep c"
proof (induction sep field cs rule: FieldsFunc.induct)
  case (1 sep field)
  then show ?case by (simp split: if_splits)
next
  case (2 sep field c cs)
  show ?case
  proof (cases "sep c")
    case True
    have "f \<in> set (FieldsFunc sep [] cs) \<or> f = field" using True 2(4) by (simp split: if_splits) blast?
    then show ?thesis
    proof
      assume f: "f \<in> set (FieldsFunc sep [] cs)"
      have none: "\<forall>c \<in> set []. \<not> sep c" by simp
      show ?thesis
        by (cases "field = []") (rule 2(1) [OF True _ f none], assumption, rule 2(2) [OF True _ f none], assumption)
    qed (simp add: 2(5))
  next
    case False
    with 2(3) [OF False] 2(4,5) show ?thesis by simp
  qed
qed

text \<open>A text without separators that lies in the input lies in one of its fields.\<close>

lemma prefix_field:
  "prefix w cs \<Longrightarrow> \<forall>c \<in> set w. \<not> sep c \<Longrightarrow> v @ w \<noteq> [] \<Longrightarrow> suffix v field \<Longrightarrow> \<exists>f \<in> set (FieldsFunc sep field cs). sublist (v @ w) f"
proof (induction sep field cs arbitrary: v w rule: FieldsFunc.induct)
  case (1 sep field)
  then show ?case by (auto simp: suffix_imp_sublist)
next
  case (2 sep field c cs)
  show ?case
  proof (cases w)
    case Nil
    show ?thesis
    proof (cases "sep c")
      case True
      with 2 Nil show ?thesis by (auto simp: suffix_imp_sublist)
    next
      case False
      obtain u where "field = u @ v" using 2(7) by (auto simp: suffix_def)
      have "\<exists>f \<in> set (FieldsFunc sep (field @ [c]) cs). sublist (v @ [c] @ []) f"
        using 2(3) [of "[]" "v @ [c]"] False \<open>field = u @ v\<close> by (simp add: suffix_def)
      then obtain f where "f \<in> set (FieldsFunc sep (field @ [c]) cs)" "sublist (v @ [c]) f" by auto
      moreover have "sublist v (v @ [c])" by simp
      ultimately have "f \<in> set (FieldsFunc sep (field @ [c]) cs) \<and> sublist v f" using sublist_order.order_trans by blast
      then show ?thesis using False Nil by auto
    qed
  next
    case (Cons d w')
    with 2(4,5) have "d = c" "prefix w' cs" "\<not> sep c" "\<forall>c \<in> set w'. \<not> sep c" by auto
    moreover have "suffix (v @ [c]) (field @ [c])" using 2(7) by simp
    ultimately show ?thesis using 2(3) [of w' "v @ [c]"] Cons by simp
  qed
qed

lemma field_of_sublist:
  assumes "sublist w cs" and "\<forall>c \<in> set w. \<not> sep c" and "w \<noteq> []"
  shows "\<exists>f \<in> set (FieldsFunc sep field cs). sublist w f"
  using assms
proof (induction sep field cs rule: FieldsFunc.induct)
  case (1 sep field)
  then show ?case by simp
next
  case (2 sep field c cs)
  show ?case
  proof (cases "prefix w (c # cs)")
    case True
    then show ?thesis using prefix_field [of w "c # cs" sep "[]" field] 2(5,6) by simp
  next
    case False
    then have "sublist w cs" using 2(4) by (simp add: sublist_Cons_right)
    with 2 show ?thesis by auto
  qed
qed

lemma longest_field_spec:
  "(longest_field fs best = best \<or> longest_field fs best \<in> set fs \<and> 3 \<le> length (longest_field fs best)) \<and>
   length best \<le> length (longest_field fs best) \<and>
   (\<forall>f \<in> set fs. 3 \<le> length f \<longrightarrow> length f \<le> length (longest_field fs best))"
proof (induction fs arbitrary: best)
  case (Cons f fs)
  show ?case using Cons [of best] Cons [of f] by auto
qed simp

lemma longest_keyword:
  assumes "pickKadKeyword toLower query = kw"
  shows "kw = [] \<or> 3 \<le> length kw \<and> sublist kw (TrimSpace (toLower query)) \<and> set kw \<inter> set separators = {}"
    and "sublist w (TrimSpace (toLower query)) \<Longrightarrow> set w \<inter> set separators = {} \<Longrightarrow> 3 \<le> length w \<Longrightarrow> length w \<le> length kw"
proof -
  let ?q = "TrimSpace (toLower query)" and ?sep = "\<lambda>c. c \<in> set separators"
  let ?fs = "FieldsFunc ?sep [] ?q"
  have kw: "kw = longest_field ?fs []"
    using assms by (auto simp: pickKadKeyword_def Let_def)
  have "kw = [] \<or> kw \<in> set ?fs \<and> 3 \<le> length kw" using longest_field_spec [of ?fs "[]"] unfolding kw by blast
  then show "kw = [] \<or> 3 \<le> length kw \<and> sublist kw ?q \<and> set kw \<inter> set separators = {}"
    using fields_inside [of kw ?sep "[]" ?q] fields_no_separator [of kw ?sep "[]" ?q] by auto
  assume w: "sublist w ?q" "set w \<inter> set separators = {}" "3 \<le> length w"
  then obtain f where "f \<in> set ?fs" "sublist w f" using field_of_sublist [of w ?q ?sep "[]"] by fastforce
  then show "length w \<le> length kw"
    using longest_field_spec [of ?fs "[]"] w(3) kw sublist_length_le [of w f] by fastforce
qed

text \<open>C29: the keyword a search is looked up under in the DHT is the longest word of the query: it has at least three
  bytes and no separator, and no piece of the query without separators that has at least three bytes is longer.\<close>

theorem pickKadKeyword_longest:
  fixes query :: bytes and toLower :: "bytes \<Rightarrow> bytes"
  defines "q \<equiv> TrimSpace (toLower query)" and "kw \<equiv> pickKadKeyword toLower query"
  shows "(kw = [] \<or> 3 \<le> length kw \<and> sublist kw q \<and> set kw \<inter> set separators = {}) \<and>
    (\<forall>w. sublist w q \<and> set w \<inter> set separators = {} \<and> 3 \<le> length w \<longrightarrow> length w \<le> length kw)"
  using longest_keyword [of toLower query kw] by (auto simp: q_def kw_def)

theorem pickKadKeyword_longest_witness:
  "3 \<le> length (pickKadKeyword (\<lambda>x. x) [0x61, 0x62, 0x63])"
proof -
  have "TrimSpace [0x61, 0x62, 0x63] = [0x61, 0x62, 0x63]" "set [0x61, 0x62, 0x63] \<inter> set separators = {}" by code_simp+
  then show ?thesis
    using pickKadKeyword_longest [of "\<lambda>x. x" "[0x61, 0x62, 0x63]", THEN conjunct2, rule_format, of "[0x61, 0x62, 0x63]"] by simp
qed

section \<open>The life of a search\<close>

text \<open>
  \<open>search_since L s\<close>: a search was started, and since the time \<open>L\<close> no server has delivered
  anything; \<open>timeout\<close> is the setting.
\<close>

inductive search_since :: "int \<Rightarrow> int \<Rightarrow> Searches \<Rightarrow> bool" for timeout where
  start: "StartSearch toLower now timeout servers tracker params s = (s', Inr i) \<Longrightarrow> 0 < now \<Longrightarrow> search_since timeout now s'"
| server: "search_since timeout L s \<Longrightarrow> L \<le> now \<Longrightarrow> search_since timeout now (fst (OnServerSearchResult now timeout result s))"
| dht: "search_since timeout L s \<Longrightarrow> search_since timeout L (OnDHTSearchResult now i params entries s)"
| tick: "search_since timeout L s \<Longrightarrow> search_since timeout L (tickSearches now s)"
| stopped: "search_since timeout L s \<Longrightarrow> search_since timeout L (fst (StopSearch now i s))"

definition deadline_ok :: "int \<Rightarrow> int \<Rightarrow> searchTask \<Rightarrow> bool" where
  "deadline_ok timeout L t \<longleftrightarrow>
     sk_serverBusy t \<longrightarrow> 0 < sk_deadlineAt t \<and> sk_deadlineAt t \<le> L + Seconds (max timeout 2)"

lemma mergeResult_frame [simp]:
  "sk_serverBusy (mergeResult now r t) = sk_serverBusy t" "sk_deadlineAt (mergeResult now r t) = sk_deadlineAt t"
  "sk_dhtBusy (mergeResult now r t) = sk_dhtBusy t" "sk_state (mergeResult now r t) = sk_state t"
  "sk_id (mergeResult now r t) = sk_id t" "sk_params (mergeResult now r t) = sk_params t"
  by (simp_all add: mergeResult_def Let_def)

lemma merge_all_frame [simp]:
  "sk_serverBusy (merge_all now p rs t) = sk_serverBusy t" "sk_deadlineAt (merge_all now p rs t) = sk_deadlineAt t"
  "sk_dhtBusy (merge_all now p rs t) = sk_dhtBusy t" "sk_state (merge_all now p rs t) = sk_state t"
  "sk_id (merge_all now p rs t) = sk_id t" "sk_params (merge_all now p rs t) = sk_params t"
  unfolding merge_all_def by (induction rs arbitrary: t) simp_all

lemma finishLocked_frame [simp]:
  "sk_serverBusy (finishLocked now t) = sk_serverBusy t" "sk_deadlineAt (finishLocked now t) = sk_deadlineAt t"
  "sk_dhtBusy (finishLocked now t) = sk_dhtBusy t"
  by (simp_all add: finishLocked_def)

lemma deadline_begin:
  assumes "0 < now" "0 \<le> timeout"
  shows "deadline_ok timeout now (begin_search toLower now timeout servers tracker params (newSearchTask i params now))"
  using assms
  by (auto simp: begin_search_def startDHTSearch_def deadline_ok_def search_sent_def newSearchTask_def sk_fail_def finishDHT_def
      Let_def Seconds_def split: option.splits prod.splits sum.splits if_splits)

lemma deadline_server:
  assumes "deadline_ok timeout L t" "L \<le> now" "0 < now" "0 \<le> timeout"
  shows "deadline_ok timeout now (setDeadline now (now + Seconds timeout) t)"
    and "deadline_ok timeout now (setDeadline now (now + Seconds 2) t)"
  using assms by (auto simp: deadline_ok_def setDeadline_def Seconds_def)

lemma search_since_ok:
  assumes "search_since timeout L s" and "0 \<le> timeout"
  shows "0 < L \<and> (\<forall>t. srch_active s = Some t \<longrightarrow> deadline_ok timeout L t)"
  using assms
proof (induction rule: search_since.induct)
  case (start toLower now servers tracker params s s' i)
  then show ?case using deadline_begin by (auto simp: StartSearch_def Let_def split: if_splits)
next
  case (server L s now result)
  have "0 < now" using server by simp
  show ?case
  proof (cases "srch_active s")
    case None
    then show ?thesis using \<open>0 < now\<close> by (simp add: OnServerSearchResult_def)
  next
    case (Some t)
    let ?t = "merge_all now (sk_params t) (map makeSearchResultFromServer (sres_Results result)) t"
    have "deadline_ok timeout L ?t" using server Some by (simp add: deadline_ok_def)
    from deadline_server [OF this server(2) \<open>0 < now\<close> server(4)]
    show ?thesis using \<open>0 < now\<close> server Some by (auto simp: OnServerSearchResult_def Let_def deadline_ok_def)
  qed
next
  case (dht L s now i params entries)
  then show ?case by (auto simp: OnDHTSearchResult_def on_search_def finishDHT_def deadline_ok_def)
next
  case (tick L s now)
  then show ?case by (auto simp: tickSearches_def onTick_def deadline_ok_def)
next
  case (stopped L s now i)
  then show ?case by (auto simp: StopSearch_def split: option.splits if_splits)
qed

text \<open>C27: a search ends: once the DHT is done with it, the first tick that comes the timeout of the settings (or two
  seconds, if that is more) after the last answer of a server leaves it finished with all its results, and it stays so
  in every tick that follows.\<close>

theorem search_ends:
  assumes "search_since timeout L s" and "0 \<le> timeout" and "srch_active s = Some t"
    and "sk_state t = SearchStateRunning" and "\<not> sk_dhtBusy t" and "L + Seconds (max timeout 2) \<le> now"
  shows "\<exists>t'. srch_active (tickSearches now s) = Some t' \<and> sk_state t' = SearchStateFinished \<and>
    sk_results t' = sk_results t \<and> (\<forall>later. srch_active (tickSearches later (tickSearches now s)) = Some t')"
proof -
  have "deadline_ok timeout L t" using search_since_ok [OF assms(1,2)] assms(3) by simp
  then have "onTick now t = t\<lparr>sk_serverBusy := False, sk_state := SearchStateFinished, sk_updatedAt := now\<rparr>"
    using assms(4-6) by (cases t) (auto simp: onTick_def finishLocked_def deadline_ok_def)
  then show ?thesis using assms(3) by (simp add: tickSearches_def onTick_def search_states)
qed

definition demo_searches :: Searches where
  "demo_searches = fst (StartSearch (\<lambda>x. x) 1000 15 True None demo_search_params \<lparr>srch_active = None, srch_next = 0\<rparr>)"

theorem search_ends_witness:
  "\<exists>t'. srch_active (tickSearches 16000 demo_searches) = Some t' \<and> sk_state t' = SearchStateFinished"
proof -
  have s: "StartSearch (\<lambda>x. x) 1000 15 True None demo_search_params \<lparr>srch_active = None, srch_next = 0\<rparr> = (demo_searches, Inr 1)"
    by code_simp
  obtain t where t: "srch_active demo_searches = Some t" "sk_state t = SearchStateRunning" "\<not> sk_dhtBusy t"
    by (rule that [of "the (srch_active demo_searches)"]) code_simp+
  show ?thesis
    using search_ends [OF search_since.start [OF s] _ t, of 16000] by (auto simp: Seconds_def)
qed

text \<open>C28: a search that the servers took and the DHT refused never ends by itself: it stays marked as busy in the
  DHT, no tick and no answer of a server ends it, and no other search - with whatever parameters, servers and
  DHT, at whatever time - can be started while it is not stopped.\<close>

theorem search_stuck:
  assumes start: "StartSearch toLower now timeout True (Some (\<lambda>_. False)) params s = (s', Inr i)"
    and scope: "sp_Scope params = SearchScopeAll" and kw: "pickKadKeyword toLower (TrimSpace (sp_Query params)) \<noteq> []"
    and later: "(\<lambda>a b. (\<exists>now. b = tickSearches now a) \<or> (\<exists>now wait result. b = fst (OnServerSearchResult now wait result a)))\<^sup>*\<^sup>* s' s''"
  shows "(\<exists>t. srch_active s'' = Some t \<and> sk_state t = SearchStateRunning) \<and>
    (\<exists>e. StartSearch toLower' now' timeout' servers tracker params' s'' = (s'', Inl e))"
proof -
  let ?busy = "\<lambda>s. \<exists>t. srch_active s = Some t \<and> sk_state t = SearchStateRunning \<and> sk_dhtBusy t"
  have "?busy s'"
    using start scope kw
    by (auto simp: StartSearch_def begin_search_def startDHTSearch_def search_sent_def newSearchTask_def normalizeSearchParams_def
        SearchScopeAll_def SearchScopeServer_def SearchScopeDHT_def HashFromData_total Let_def split: if_splits)
  from later this have "?busy s''"
  proof induction
    case (step a b)
    then show ?case
      by (auto simp: tickSearches_def onTick_def finishLocked_def OnServerSearchResult_def setDeadline_def Let_def)
  qed
  then show ?thesis by (auto simp: StartSearch_def Let_def)
qed

theorem search_stuck_witness:
  "\<exists>t. srch_active (fst (StartSearch (\<lambda>x. x) 1000 15 True (Some (\<lambda>_. False)) (demo_search_params\<lparr>sp_Scope := 3\<rparr>)
     \<lparr>srch_active = None, srch_next = 0\<rparr>)) = Some t \<and> sk_state t = SearchStateRunning"
proof -
  let ?params = "demo_search_params\<lparr>sp_Scope := 3\<rparr>"
  let ?start = "StartSearch (\<lambda>x. x) 1000 15 True (Some (\<lambda>_. False)) ?params \<lparr>srch_active = None, srch_next = 0\<rparr>"
  have trim: "TrimSpace (sp_Query ?params) = [0x61, 0x62, 0x63]" by code_simp
  have kw: "pickKadKeyword (\<lambda>x. x) (TrimSpace (sp_Query ?params)) \<noteq> []" by code_simp
  have "snd ?start = Inr 1" using trim by (simp add: StartSearch_def normalizeSearchParams_def Let_def)
  then have start: "?start = (fst ?start, Inr 1)" by (metis prod.collapse)
  have "sp_Scope ?params = SearchScopeAll" by code_simp
  from search_stuck [OF start this kw rtranclp.rtrancl_refl] show ?thesis by blast
qed

end
