(* ===== verification/Server_Session.thy ===== *)
theory Server_Session
  imports Search Peer_Session
begin

text \<open>
  The servers of a session (\<^verbatim>\<open>server_connection.go\<close>, \<^verbatim>\<open>server_connection_policy.go\<close> and the
  server part of \<^verbatim>\<open>session.go\<close>): which servers it keeps connections to, which of them is the
  primary one, when a lost one is dialled again, and what is asked of them. A
  \<^verbatim>\<open>*ServerConnection\<close> is an address; a \<^verbatim>\<open>*net.TCPAddr\<close> is its text, or \<open>None\<close> for nil. Go's maps
  are association lists in the order in which they are ranged over.
\<close>

section \<open>When to dial again\<close>

record ServerConnectionPolicy =
  scp_reconnectSecondsTimeout :: int
  scp_maxReconnects :: int
  scp_iteration :: int
  scp_identifier :: string
  scp_address :: "string option"
  scp_nextConnectTime :: int

definition RemoveConnectCandidates :: "ServerConnectionPolicy \<Rightarrow> ServerConnectionPolicy" where
  "RemoveConnectCandidates p =
     p\<lparr>scp_iteration := scp_maxReconnects p, scp_identifier := [], scp_address := None, scp_nextConnectTime := -1\<rparr>"

definition NewServerConnectionPolicy :: "int \<Rightarrow> int \<Rightarrow> ServerConnectionPolicy" where
  "NewServerConnectionPolicy reconnectSecondsTimeout maxReconnects =
     RemoveConnectCandidates
       \<lparr>scp_reconnectSecondsTimeout = reconnectSecondsTimeout, scp_maxReconnects = maxReconnects, scp_iteration = 0,
        scp_identifier = [], scp_address = None, scp_nextConnectTime = 0\<rparr>"

definition SetConnectCandidate :: "string \<Rightarrow> string option \<Rightarrow> int \<Rightarrow> ServerConnectionPolicy \<Rightarrow> ServerConnectionPolicy" where
  "SetConnectCandidate identifier address currentSessionTime p =
     p\<lparr>scp_iteration := 0, scp_identifier := identifier, scp_address := address,
       scp_nextConnectTime := currentSessionTime\<rparr>"

definition HasCandidate :: "ServerConnectionPolicy \<Rightarrow> bool" where
  "HasCandidate p \<longleftrightarrow> scp_identifier p \<noteq> [] \<and> scp_address p \<noteq> None"

definition HasIterations :: "ServerConnectionPolicy \<Rightarrow> bool" where
  "HasIterations p \<longleftrightarrow> scp_iteration p < scp_maxReconnects p"

definition SetServerConnectionFailed :: "string \<Rightarrow> string option \<Rightarrow> int \<Rightarrow> ServerConnectionPolicy \<Rightarrow> ServerConnectionPolicy" where
  "SetServerConnectionFailed identifier address currentSessionTime p =
     (let p = (if scp_identifier p = [] \<or> scp_identifier p \<noteq> identifier
               then p\<lparr>scp_iteration := 0, scp_identifier := identifier, scp_address := address\<rparr>
               else p\<lparr>scp_iteration := scp_iteration p + 1\<rparr>)
      in p\<lparr>scp_nextConnectTime :=
           (if HasCandidate p \<and> HasIterations p
            then currentSessionTime + scp_iteration p * scp_reconnectSecondsTimeout p * 1000 else -1)\<rparr>)"

record ServerConnectionCandidate =
  scc_Identifier :: string
  scc_Address :: "string option"

definition GetConnectCandidate :: "int \<Rightarrow> ServerConnectionPolicy \<Rightarrow> ServerConnectionCandidate option" where
  "GetConnectCandidate currentSessionTime p =
     (if scp_nextConnectTime p \<noteq> -1 \<and> scp_nextConnectTime p \<le> currentSessionTime
      then Some \<lparr>scc_Identifier = scp_identifier p, scc_Address = scp_address p\<rparr> else None)"

section \<open>Connections to servers\<close>

record ServerConnection = Connection +
  sv_lastPingTime :: int
  sv_handshakeCompleted :: bool
  sv_identifier :: string
  sv_address :: "string option"
  sv_clientID :: u32
  sv_tcpFlags :: u32
  sv_auxPort :: u32

definition NewServerConnection :: "int \<Rightarrow> string \<Rightarrow> string option \<Rightarrow> ServerConnection" where
  "NewServerConnection now identifier address =
     Connection.extend (co_NewConnection now)
       \<lparr>sv_lastPingTime = now, sv_handshakeCompleted = False, sv_identifier = identifier,
        sv_address = address, sv_clientID = 0, sv_tcpFlags = 0, sv_auxPort = 0\<rparr>"

text \<open>
  \<open>sw_primary\<close> is the field \<open>serverConnection\<close>; the identifier of the client and the peers are in
  \<open>sw_world\<close>.
\<close>

record ServerWorld =
  sw_world :: World
  sw_conns :: "nat \<Rightarrow> ServerConnection"
  sw_next :: nat
  sw_primary :: "nat option"
  sw_connections :: "(string \<times> nat) list"
  sw_policies :: "(string \<times> ServerConnectionPolicy) list"
  sw_configured :: "(string \<times> string) list"
  sw_tcpFlags :: u32
  sw_auxPort :: u32
  sw_search :: Searches

definition upd_server :: "nat \<Rightarrow> (ServerConnection \<Rightarrow> ServerConnection) \<Rightarrow> ServerWorld \<Rightarrow> ServerWorld" where
  "upd_server i f w = w\<lparr>sw_conns := (sw_conns w)(i := f (sw_conns w i))\<rparr>"

definition upd_world :: "(World \<Rightarrow> World) \<Rightarrow> ServerWorld \<Rightarrow> ServerWorld" where
  "upd_world f w = w\<lparr>sw_world := f (sw_world w)\<rparr>"

text \<open>A packet packed and queued; one that cannot be packed is dropped.\<close>

definition sv_send :: "ServerPacket \<Rightarrow> ServerConnection \<Rightarrow> ServerConnection" where
  "sv_send packet c =
     (case pc_Pack server_NewPacketCombiner (typeName_server packet) (put_server packet) of
        Inl e \<Rightarrow> c
      | Inr raw \<Rightarrow> QueuePacket raw c)"

definition SendFileSourcesRequest :: "hash \<Rightarrow> int \<Rightarrow> ServerConnection \<Rightarrow> ServerConnection" where
  "SendFileSourcesRequest h fileSize c =
     sv_send (SGetFileSources \<lparr>gfs_Hash = h, gfs_LowPart = LowPart (word_of_int fileSize),
       gfs_HiPart = HiPart (word_of_int fileSize)\<rparr>) c"

definition sv_SendSearchRequest :: "SearchRequest \<Rightarrow> ServerConnection \<Rightarrow> ServerConnection" where
  "sv_SendSearchRequest packet c = sv_send (SSearchRequest packet) c"

definition SendSearchMore :: "ServerConnection \<Rightarrow> ServerConnection" where
  "SendSearchMore c = sv_send SSearchMore c"

definition SendLoginRequest :: "Settings \<Rightarrow> ServerConnection \<Rightarrow> ServerConnection" where
  "SendLoginRequest st c =
     sv_send (SLoginRequest (NewLoginRequest (set_UserAgent st) (set_ListenPort st) (str (set_ClientName st)))) c"

definition SendCallbackRequest :: "u32 \<Rightarrow> ServerConnection \<Rightarrow> ServerConnection" where
  "SendCallbackRequest clientID c = sv_send (SCallbackRequest \<lparr>cbr_ClientID = clientID\<rparr>) c"

definition SendGetList :: "ServerConnection \<Rightarrow> ServerConnection" where
  "SendGetList c = sv_send SGetList c"

definition SendOfferFiles :: "OfferFiles \<Rightarrow> ServerConnection \<Rightarrow> ServerConnection" where
  "SendOfferFiles packet c = (if of_Entries packet = [] then c else sv_send (SOfferFiles packet) c)"

text \<open>Dialling fails with an error or succeeds; the login request goes out at once.\<close>

definition sv_Connect :: "string option \<Rightarrow> nat \<Rightarrow> ServerWorld \<Rightarrow> ServerWorld \<times> string option" where
  "sv_Connect dial i w =
     (case sv_address (sw_conns w i) of
        None \<Rightarrow> (w, Some (jerr_Error (Some (NewError InternalError))))
      | Some address \<Rightarrow>
          (let (c, err) = co_Connect (wd_now (sw_world w)) dial (sw_conns w i);
               w = upd_server i (\<lambda>_. c) w
           in case err of
                Some e \<Rightarrow> (w, Some e)
              | None \<Rightarrow> (upd_server i (SendLoginRequest (wd_settings (sw_world w))) w, None)))"

definition sv_SecondTick :: "int \<Rightarrow> int \<Rightarrow> int \<Rightarrow> ServerConnection \<Rightarrow> ServerConnection option" where
  "sv_SecondTick pingTimeout now tickIntervalMS c =
     map_option
       (\<lambda>c. if pingTimeout > 0 then
              (if MillisecondsSinceLastReceive now c > pingTimeout * 1500 then co_Close ConnectionTimeout c
               else if now - sv_lastPingTime c > pingTimeout * 1000 then SendGetList (c\<lparr>sv_lastPingTime := now\<rparr>)
               else c)
            else c)
       (co_SecondTick tickIntervalMS c)"

section \<open>The primary server\<close>

definition activeServerConnections :: "ServerWorld \<Rightarrow> nat list" where
  "activeServerConnections w =
     fold (\<lambda>i res. if i \<in> set res then res else res @ [i]) (map snd (sw_connections w))
       (case sw_primary w of Some i \<Rightarrow> [i] | None \<Rightarrow> [])"

definition promotePrimaryServer :: "nat option \<Rightarrow> ServerWorld \<Rightarrow> ServerWorld" where
  "promotePrimaryServer sc w =
     (case sc of
        Some i \<Rightarrow>
          if (case sw_primary w of
                None \<Rightarrow> True
              | Some p \<Rightarrow> co_disconnecting (sw_conns w p) \<or> \<not> sv_handshakeCompleted (sw_conns w p))
          then w\<lparr>sw_primary := Some i\<rparr> else w
      | None \<Rightarrow>
          if (case sw_primary w of None \<Rightarrow> False | Some p \<Rightarrow> \<not> co_disconnecting (sw_conns w p)) then w
          else w\<lparr>sw_primary := find (\<lambda>i. \<not> co_disconnecting (sw_conns w i)) (map snd (sw_connections w))\<rparr>)"

definition set_identity :: "u32 \<Rightarrow> u32 \<Rightarrow> u32 \<Rightarrow> ServerWorld \<Rightarrow> ServerWorld" where
  "set_identity clientID tcpFlags auxPort w =
     w\<lparr>sw_world := (sw_world w)\<lparr>wd_clientID := clientID\<rparr>, sw_tcpFlags := tcpFlags, sw_auxPort := auxPort\<rparr>"

definition identity_of :: "nat \<Rightarrow> ServerWorld \<Rightarrow> ServerWorld" where
  "identity_of i w =
     (let c = sw_conns w i in set_identity (sv_clientID c) (sv_tcpFlags c) (sv_auxPort c) w)"

definition refreshPrimaryServerIdentity :: "ServerWorld \<Rightarrow> ServerWorld" where
  "refreshPrimaryServerIdentity w =
     (case (case sw_primary w of Some p \<Rightarrow> if sv_handshakeCompleted (sw_conns w p) then Some p else None | None \<Rightarrow> None) of
        Some p \<Rightarrow> identity_of p w
      | None \<Rightarrow>
          (case find (\<lambda>i. sv_handshakeCompleted (sw_conns w i)) (map snd (sw_connections w)) of
             Some i \<Rightarrow> identity_of i (w\<lparr>sw_primary := Some i\<rparr>)
           | None \<Rightarrow> set_identity 0 0 0 w))"

section \<open>Connecting and disconnecting\<close>

text \<open>The policy of a server, made when there is none; there is none for the empty identifier.\<close>

definition ensureServerConnectionPolicy :: "string \<Rightarrow> ServerWorld \<Rightarrow> (ServerConnectionPolicy \<times> ServerWorld) option" where
  "ensureServerConnectionPolicy identifier w =
     (if identifier = [] then None
      else (case map_of (sw_policies w) identifier of
              Some p \<Rightarrow> Some (p, w)
            | None \<Rightarrow>
                (let p = NewServerConnectionPolicy 5 5
                 in Some (p, w\<lparr>sw_policies := AList.update identifier p (sw_policies w)\<rparr>))))"

definition upd_policy :: "string \<Rightarrow> (ServerConnectionPolicy \<Rightarrow> ServerConnectionPolicy) \<Rightarrow> ServerWorld \<Rightarrow> ServerWorld option" where
  "upd_policy identifier f w =
     map_option (\<lambda>(p, w). w\<lparr>sw_policies := AList.update identifier (f p) (sw_policies w)\<rparr>)
       (ensureServerConnectionPolicy identifier w)"

text \<open>A connection to the server \<open>identifier\<close>, entered under \<open>key\<close>.\<close>

definition add_server :: "string \<Rightarrow> string \<Rightarrow> string option \<Rightarrow> ServerWorld \<Rightarrow> ServerWorld" where
  "add_server key identifier address w =
     (let i = sw_next w;
          w = upd_server i (\<lambda>_. NewServerConnection (wd_now (sw_world w)) identifier address) w;
          w = w\<lparr>sw_next := Suc i, sw_connections := AList.update key i (sw_connections w)\<rparr>
      in promotePrimaryServer (Some i) w)"

definition ConnectTo :: "string option \<Rightarrow> string \<Rightarrow> string option \<Rightarrow> ServerWorld \<Rightarrow> (ServerWorld \<times> string option) option" where
  "ConnectTo dial identifier address w =
     (case address of
        None \<Rightarrow> Some (w, Some (jerr_Error (Some (NewError InternalError))))
      | Some addr \<Rightarrow>
          if identifier = [] then Some (w, Some (jerr_Error (Some (NewError InternalError))))
          else
            (case upd_policy identifier (SetConnectCandidate identifier (Some addr) (wd_now (sw_world w)))
                    (w\<lparr>sw_configured := AList.update identifier addr (sw_configured w)\<rparr>) of
               None \<Rightarrow> None
             | Some w \<Rightarrow>
                 (case map_of (sw_connections w) identifier of
                    Some i \<Rightarrow>
                      if sv_address (sw_conns w i) = Some addr \<and> \<not> co_disconnecting (sw_conns w i)
                      then Some (promotePrimaryServer (Some i) w, None)
                      else (let w = upd_server i (co_Close NoError) w
                            in Some (sv_Connect dial (sw_next w) (add_server identifier identifier (Some addr) w)))
                  | None \<Rightarrow> Some (sv_Connect dial (sw_next w) (add_server identifier identifier (Some addr) w)))))"

definition DisconnectFrom :: "ServerWorld \<Rightarrow> ServerWorld" where
  "DisconnectFrom w =
     (let w = fold (\<lambda>i. upd_server i (co_Close NoError)) (map snd (sw_connections w)) w
      in set_identity 0 0 0 (w\<lparr>sw_policies := [], sw_connections := [], sw_configured := [], sw_primary := None\<rparr>))"

definition ConnectedServerID :: "ServerWorld \<Rightarrow> string" where
  "ConnectedServerID w =
     (case sw_primary w of
        Some p \<Rightarrow> if sv_handshakeCompleted (sw_conns w p) then sv_identifier (sw_conns w p) else []
      | None \<Rightarrow> [])"

definition ConnectedServerIDs :: "ServerWorld \<Rightarrow> string list" where
  "ConnectedServerIDs w =
     map fst (filter (\<lambda>(identifier, i). sv_handshakeCompleted (sw_conns w i)) (sw_connections w))"

definition OnServerConnectionClosed :: "nat \<Rightarrow> ErrorCode \<Rightarrow> ServerWorld \<Rightarrow> ServerWorld option" where
  "OnServerConnectionClosed i ec w =
     (let c = sw_conns w i;
          w = w\<lparr>sw_connections := AList.delete (sv_identifier c) (sw_connections w)\<rparr>
      in map_option
           (\<lambda>w. refreshPrimaryServerIdentity (promotePrimaryServer None
              (if sw_primary w = Some i then w\<lparr>sw_primary := None\<rparr> else w)))
           (if set_ReconnectToServer (wd_settings (sw_world w)) \<and> ec \<noteq> NoError
            then upd_policy (sv_identifier c)
                   (SetServerConnectionFailed (sv_identifier c) (sv_address c) (wd_now (sw_world w))) w
            else Some w))"

definition sv_OnDisconnect :: "ErrorCode \<Rightarrow> nat \<Rightarrow> ServerWorld \<Rightarrow> ServerWorld option" where
  "sv_OnDisconnect ec i w = OnServerConnectionClosed i ec (upd_server i (\<lambda>c. c\<lparr>sv_handshakeCompleted := False\<rparr>) w)"

text \<open>A configured server that is not connected is dialled when its policy names it a candidate; \<open>dial\<close> says what dialling each new address gives.\<close>

definition connect_configured :: "(nat \<Rightarrow> string option) \<Rightarrow> int \<Rightarrow> string \<Rightarrow> ServerWorld \<Rightarrow> ServerWorld option" where
  "connect_configured dial currentSessionTime identifier w =
     (if identifier = [] \<or>
         (case map_of (sw_connections w) identifier of Some i \<Rightarrow> \<not> co_disconnecting (sw_conns w i) | None \<Rightarrow> False)
      then Some w
      else
        (case ensureServerConnectionPolicy identifier w of
           None \<Rightarrow> None
         | Some (p, w) \<Rightarrow>
             (case GetConnectCandidate currentSessionTime p of
                None \<Rightarrow> Some w
              | Some cand \<Rightarrow>
                  if scc_Identifier cand = [] \<or> scc_Address cand = None then Some w
                  else
                    Some (fst (sv_Connect (dial (sw_next w)) (sw_next w)
                      (add_server identifier (scc_Identifier cand) (scc_Address cand) w))))))"

fun connect_all :: "(nat \<Rightarrow> string option) \<Rightarrow> int \<Rightarrow> string list \<Rightarrow> ServerWorld \<Rightarrow> ServerWorld option" where
  "connect_all dial now [] w = Some w"
| "connect_all dial now (identifier # ids) w = connect_configured dial now identifier w \<bind> connect_all dial now ids"

definition connectConfiguredServers :: "(nat \<Rightarrow> string option) \<Rightarrow> int \<Rightarrow> ServerWorld \<Rightarrow> ServerWorld option" where
  "connectConfiguredServers dial currentSessionTime w =
     connect_all dial currentSessionTime (map fst (sw_configured w)) w"

section \<open>Asking servers for sources\<close>

text \<open>Something is sent to every active server that has answered the login; whether there is one.\<close>

definition logged_in :: "ServerWorld \<Rightarrow> nat list" where
  "logged_in w = filter (\<lambda>i. sv_handshakeCompleted (sw_conns w i)) (activeServerConnections w)"

definition to_servers :: "(ServerConnection \<Rightarrow> ServerConnection) \<Rightarrow> ServerWorld \<Rightarrow> ServerWorld \<times> bool" where
  "to_servers f w = (fold (\<lambda>i. upd_server i f) (logged_in w) w, logged_in w \<noteq> [])"

definition SendSourcesRequest :: "hash \<Rightarrow> int \<Rightarrow> ServerWorld \<Rightarrow> ServerWorld \<times> bool" where
  "SendSourcesRequest h fileSize w = to_servers (SendFileSourcesRequest h fileSize) w"

text \<open>What the DHT delivers for a transfer, if the session still has it.\<close>

fun add_sources :: "nat \<Rightarrow> u64 \<Rightarrow> Endpoint list \<Rightarrow> World \<Rightarrow> World option" where
  "add_sources t flag [] w = Some w"
| "add_sources t flag (ep # eps) w =
     (let (rnd, w) = next_random w
      in case t_AddPeer rnd ep flag (wd_transfers w t) of
           None \<Rightarrow> None
         | Some (tr, _) \<Rightarrow> add_sources t flag eps (upd_transfer t (\<lambda>_. tr) w))"

definition OnDHTSources :: "hash \<Rightarrow> nat \<Rightarrow> SearchEntry list \<Rightarrow> World \<Rightarrow> World option" where
  "OnDHTSources h t results w =
     (if LookupTransfer h w \<noteq> Some t then Some w
      else add_sources t (ucast PeerDHT)
        (map fst (filter (\<lambda>(ep, ok). ok \<and> ep_Defined ep) (map SourceEndpoint results))) w)"

text \<open>\<open>dht\<close> says whether the tracker starts a search for sources.\<close>

definition RequestSourcesNow :: "bool \<Rightarrow> nat \<Rightarrow> ServerWorld \<Rightarrow> ServerWorld \<times> bool" where
  "RequestSourcesNow dht t w =
     (let tr = wd_transfers (sw_world w) t
      in if t_pause tr \<or> t_abort tr \<or> t_IsFinished tr then (w, False)
         else
           (let w = upd_world (upd_transfer t ForceSourceDiscoveryNow) w;
                activePeers = ActiveConnections t (sw_world w);
                knownPeers = po_Size (t_policy tr);
                (w, serverSent) = SendSourcesRequest (t_hash tr) (t_size tr) w;
                now = wd_now (sw_world w)
            in (upd_world (upd_transfer t (\<lambda>tr. tr
                  \<lparr>t_nextSourcesRequest := now + nextServerSourcesInterval activePeers knownPeers serverSent,
                   t_nextDHTRequest := now + nextDHTSourcesInterval activePeers knownPeers dht\<rparr>)) w,
                serverSent \<or> dht)))"

section \<open>Logging in and offering files\<close>

definition offer_file :: "World \<Rightarrow> nat \<Rightarrow> OfferFile" where
  "offer_file w t =
     (let tr = wd_transfers w t
      in \<lparr>ofile_Hash = t_hash tr, ofile_Name = str (FileName tr), ofile_Size = t_size tr\<rparr>)"

text \<open>The primary server and the identity after a login.\<close>

definition login_identity :: "nat \<Rightarrow> u32 \<Rightarrow> u32 \<Rightarrow> u32 \<Rightarrow> ServerWorld \<Rightarrow> ServerWorld" where
  "login_identity i clientID tcpFlags auxPort w =
     (let w = (if (case sw_primary w of None \<Rightarrow> True | Some p \<Rightarrow> \<not> sv_handshakeCompleted (sw_conns w p))
               then w\<lparr>sw_primary := Some i\<rparr> else w)
      in if sw_primary w = Some i \<or> wd_clientID (sw_world w) = 0 then set_identity clientID tcpFlags auxPort w else w)"

definition running_transfers :: "World \<Rightarrow> nat list" where
  "running_transfers w =
     filter (\<lambda>t. \<not> t_pause (wd_transfers w t) \<and> \<not> t_abort (wd_transfers w t)) (map snd (wd_byHash w))"

definition unfinished_transfers :: "World \<Rightarrow> nat list" where
  "unfinished_transfers w = filter (\<lambda>t. \<not> t_IsFinished (wd_transfers w t)) (running_transfers w)"

definition finished_offer :: "(bytes \<Rightarrow> bytes) \<Rightarrow> u32 \<Rightarrow> World \<Rightarrow> OfferFiles option" where
  "finished_offer toLower clientID w =
     (let offered = filter (\<lambda>t. t_IsFinished (wd_transfers w t)) (running_transfers w)
      in if offered = [] then None
         else Some (NewOfferFiles toLower clientID (set_ListenPort (wd_settings w)) (map (offer_file w) offered)))"

definition session_OnServerIDChange :: "(bytes \<Rightarrow> bytes) \<Rightarrow> (nat \<Rightarrow> bool) \<Rightarrow> nat \<Rightarrow> u32 \<Rightarrow> u32 \<Rightarrow> u32 \<Rightarrow> ServerWorld \<Rightarrow> ServerWorld" where
  "session_OnServerIDChange toLower dht i clientID tcpFlags auxPort w =
     (let w = login_identity i clientID tcpFlags auxPort w;
          kick = unfinished_transfers (sw_world w);
          w = (case finished_offer toLower clientID (sw_world w) of
                 None \<Rightarrow> w
               | Some offer \<Rightarrow> upd_server i (SendOfferFiles offer) w)
      in fold (\<lambda>t w. fst (RequestSourcesNow (dht t) t w)) kick w)"

definition sv_OnServerIDChange :: "(bytes \<Rightarrow> bytes) \<Rightarrow> (nat \<Rightarrow> bool) \<Rightarrow> nat \<Rightarrow> u32 \<Rightarrow> u32 \<Rightarrow> u32 \<Rightarrow> ServerWorld \<Rightarrow> ServerWorld" where
  "sv_OnServerIDChange toLower dht i clientID tcpFlags auxPort w =
     session_OnServerIDChange toLower dht i clientID tcpFlags auxPort
       (upd_server i (\<lambda>c. c\<lparr>sv_clientID := clientID, sv_tcpFlags := tcpFlags, sv_auxPort := auxPort,
          sv_handshakeCompleted := True\<rparr>) w)"

definition PublishTransferToServer :: "(bytes \<Rightarrow> bytes) \<Rightarrow> nat \<Rightarrow> ServerWorld \<Rightarrow> ServerWorld" where
  "PublishTransferToServer toLower t w =
     (let tr = wd_transfers (sw_world w) t; clientID = wd_clientID (sw_world w)
      in case sw_primary w of
           None \<Rightarrow> w
         | Some p \<Rightarrow>
             if \<not> sv_handshakeCompleted (sw_conns w p) \<or> clientID = 0 \<or> t_pause tr \<or> t_abort tr \<or> \<not> t_IsFinished tr then w
             else upd_server p (SendOfferFiles (NewOfferFiles toLower clientID (set_ListenPort (wd_settings (sw_world w)))
                    [offer_file (sw_world w) t])) w)"

section \<open>Searching\<close>

definition sendSearchRequest :: "SearchParams \<Rightarrow> ServerWorld \<Rightarrow> ServerWorld \<times> bool" where
  "sendSearchRequest params w =
     to_servers (sv_SendSearchRequest
       \<lparr>sr_Query = sp_Query params, sr_MinSize = sp_MinSize params, sr_MaxSize = sp_MaxSize params,
        sr_MinSources = sp_MinSources params, sr_MinCompleteSources = sp_MinCompleteSources params,
        sr_FileType = sp_FileType params, sr_Extension = sp_Extension params\<rparr>) w"

definition session_StartSearch ::
  "(bytes \<Rightarrow> bytes) \<Rightarrow> (hash \<Rightarrow> bool) option \<Rightarrow> SearchParams \<Rightarrow> ServerWorld \<Rightarrow> ServerWorld \<times> (string + u32)" where
  "session_StartSearch toLower tracker params w =
     (let (w', sent) = sendSearchRequest (normalizeSearchParams params) w;
          (s, r) = StartSearch toLower (wd_now (sw_world w)) (set_ServerSearchTimeout (wd_settings (sw_world w))) sent
            tracker params (sw_search w)
      in ((if \<not> isl r \<and> sp_Scope (normalizeSearchParams params) AND SearchScopeServer \<noteq> 0 then w' else w)\<lparr>sw_search := s\<rparr>, r))"

section \<open>Packets of servers\<close>

text \<open>What a server says, without those packets that are only logged.\<close>

definition handle_server :: "(bytes \<Rightarrow> bytes) \<Rightarrow> (nat \<Rightarrow> bool) \<Rightarrow> nat \<Rightarrow> ServerPacket \<Rightarrow> ServerWorld \<Rightarrow> ServerWorld option" where
  "handle_server toLower dht i packet w =
     (case packet of
        SIdChange v \<Rightarrow> Some (sv_OnServerIDChange toLower dht i (idc_ClientID v) (idc_TCPFlags v) (idc_AuxPort v) w)
      | SFoundFileSources v \<Rightarrow>
          (case LookupTransfer (ffs_Hash v) (sw_world w) of
             None \<Rightarrow> Some w
           | Some t \<Rightarrow>
               map_option (\<lambda>x. w\<lparr>sw_world := x\<rparr>)
                 (add_sources t (ucast PeerServer) (filter (\<lambda>ep. \<not> IsLowID (ep_ip ep)) (ffs_Sources v)) (sw_world w)))
      | SSearchResult v \<Rightarrow>
          (let (s, more) = OnServerSearchResult (wd_now (sw_world w)) (set_ServerSearchTimeout (wd_settings (sw_world w)))
                 v (sw_search w)
           in Some ((if more then upd_server i SendSearchMore w else w)\<lparr>sw_search := s\<rparr>))
      | _ \<Rightarrow> Some w)"

fun handle_all :: "(bytes \<Rightarrow> bytes) \<Rightarrow> (nat \<Rightarrow> bool) \<Rightarrow> nat \<Rightarrow> (PacketHeader \<times> ServerPacket unpacked) list \<Rightarrow> ServerWorld \<Rightarrow> ServerWorld option" where
  "handle_all toLower dht i [] w = Some w"
| "handle_all toLower dht i ((header, WithoutDataPacket) # ps) w = handle_all toLower dht i ps w"
| "handle_all toLower dht i ((header, Packet x) # ps) w = handle_server toLower dht i x w \<bind> handle_all toLower dht i ps"

definition sv_ProcessIncoming ::
  "(bytes \<Rightarrow> bytes result) \<Rightarrow> (bytes \<Rightarrow> bytes) \<Rightarrow> (nat \<Rightarrow> bool) \<Rightarrow> nat \<Rightarrow> ServerWorld \<Rightarrow> (ServerWorld \<times> go_error option) option" where
  "sv_ProcessIncoming inflate toLower dht i w =
     (let (c, packets, err) = DecodeFrames inflate (Some server_NewPacketCombiner) (sw_conns w i);
          w = upd_server i (\<lambda>_. c) w
      in case err of
           Some e \<Rightarrow> Some (w, Some e)
         | None \<Rightarrow> map_option (\<lambda>w. (w, None)) (handle_all toLower dht i packets w))"

section \<open>A round\<close>

definition end_server :: "nat \<Rightarrow> ServerWorld \<Rightarrow> ServerWorld option" where
  "end_server i w =
     (let c = sw_conns w i
      in if co_disconnecting c \<and> \<not> co_closeHandled c
         then map_option (upd_server i MarkDisconnectHandled) (sv_OnDisconnect (co_closeCode c) i w)
         else Some w)"

definition pump_server ::
  "(bytes \<Rightarrow> bytes result) \<Rightarrow> (bytes \<Rightarrow> bytes) \<Rightarrow> (nat \<Rightarrow> bool) \<Rightarrow> socket_write \<Rightarrow> socket_read \<Rightarrow> nat \<Rightarrow> ServerWorld \<Rightarrow> ServerWorld option" where
  "pump_server inflate toLower dht wr rd i w =
     (if co_disconnecting (sw_conns w i) then end_server i w
      else
        (let w = upd_server i (\<lambda>c. fst (DoRead (wd_now (sw_world w)) rd (fst (FlushOutgoing wr c)))) w
         in map_option fst (sv_ProcessIncoming inflate toLower dht i w) \<bind> end_server i))"

fun pump_servers ::
  "(bytes \<Rightarrow> bytes result) \<Rightarrow> (bytes \<Rightarrow> bytes) \<Rightarrow> (nat \<Rightarrow> bool) \<Rightarrow> (nat \<Rightarrow> socket_write) \<Rightarrow> (nat \<Rightarrow> socket_read) \<Rightarrow>
   nat list \<Rightarrow> ServerWorld \<Rightarrow> ServerWorld option" where
  "pump_servers inflate toLower dht wr rd [] w = Some w"
| "pump_servers inflate toLower dht wr rd (i # is) w =
     pump_server inflate toLower dht (wr i) (rd i) i w \<bind> pump_servers inflate toLower dht wr rd is"

text \<open>What the sockets do in a round: those accepted, and what each one reads and writes.\<close>

record IO =
  io_accepted :: "Endpoint list"
  io_serverWrite :: "nat \<Rightarrow> socket_write"
  io_serverRead :: "nat \<Rightarrow> socket_read"
  io_peerWrite :: "nat \<Rightarrow> socket_write"
  io_peerRead :: "nat \<Rightarrow> socket_read"

definition PumpIO :: "(bytes \<Rightarrow> bytes result) \<Rightarrow> (bytes \<Rightarrow> bytes) \<Rightarrow> (nat \<Rightarrow> bool) \<Rightarrow> IO \<Rightarrow> ServerWorld \<Rightarrow> ServerWorld option" where
  "PumpIO inflate toLower dht io w =
     (let w = upd_world (acceptIncomingConnections (io_accepted io)) w
      in pump_servers inflate toLower dht (io_serverWrite io) (io_serverRead io) (activeServerConnections w) w \<bind>
         (\<lambda>w. map_option (\<lambda>x. w\<lparr>sw_world := x\<rparr>)
            (pump_connections inflate (io_peerWrite io) (io_peerRead io) (wd_connections (sw_world w)) (sw_world w))))"

end
