(* ===== verification/Server_Properties.thy ===== *)
theory Server_Properties
  imports Server_Session
begin

text \<open>
  What holds of the servers of a session in every state: one connection for each server, of
  which one is the primary (\<open>servers_invariant\<close>), whose identity the session has
  (\<open>server_identity\<close>), when a lost server is dialled again (\<open>reconnect_backoff\<close>) and what
  servers are asked when one accepts the login (\<open>login_asks\<close>).
\<close>

section \<open>Steps\<close>

definition no_servers :: "World \<Rightarrow> ServerWorld" where
  "no_servers w =
     \<lparr>sw_world = w, sw_conns = (\<lambda>_. NewServerConnection 0 [] None), sw_next = 0, sw_primary = None, sw_connections = [],
      sw_policies = [], sw_configured = [], sw_tcpFlags = 0, sw_auxPort = 0, sw_search = \<lparr>srch_active = None, srch_next = 0\<rparr>\<rparr>"

text \<open>Every use of the servers. \<open>ranged\<close>: Go ranges over a map in any order; \<open>world\<close>, \<open>searching\<close>: whatever else the session does.\<close>

inductive server_step :: "ServerWorld \<Rightarrow> ServerWorld \<Rightarrow> bool" where
  connect: "ConnectTo dial identifier address w = Some (w', err) \<Longrightarrow> server_step w w'"
| disconnect: "server_step w (DisconnectFrom w)"
| pump: "i \<in> set (activeServerConnections w) \<Longrightarrow> pump_server inflate toLower dht wr rd i w = Some w' \<Longrightarrow> server_step w w'"
| tick: "i \<in> set (activeServerConnections w) \<Longrightarrow> sv_SecondTick timeout now ms (sw_conns w i) = Some c \<Longrightarrow>
    server_step w (upd_server i (\<lambda>_. c) w)"
| configured: "connectConfiguredServers dial now w = Some w' \<Longrightarrow> server_step w w'"
| search: "server_step w (fst (session_StartSearch toLower tracker params w))"
| sources: "server_step w (fst (RequestSourcesNow found t w))"
| publish: "server_step w (PublishTransferToServer toLower t w)"
| ranged: "mset cs = mset (sw_connections w) \<Longrightarrow> server_step w (w\<lparr>sw_connections := cs\<rparr>)"
| world: "server_step w (w\<lparr>sw_world := x\<rparr>)"
| searching: "server_step w (w\<lparr>sw_search := s\<rparr>)"

inductive in_servers :: "ServerWorld \<Rightarrow> bool" where
  start: "in_servers (no_servers w)"
| step: "in_servers w \<Longrightarrow> server_step w w' \<Longrightarrow> in_servers w'"

definition tables_ok :: "ServerWorld \<Rightarrow> bool" where
  "tables_ok w \<longleftrightarrow>
     distinct (map fst (sw_connections w)) \<and> distinct (map snd (sw_connections w)) \<and>
     (\<forall>(k, i) \<in> set (sw_connections w). k \<noteq> [] \<and> sv_identifier (sw_conns w i) = k \<and> i < sw_next w) \<and>
     distinct (map fst (sw_policies w)) \<and>
     (\<forall>(k, p) \<in> set (sw_policies w). scp_identifier p = [] \<or> scp_identifier p = k)"

definition servers_ok :: "ServerWorld \<Rightarrow> bool" where
  "servers_ok w \<longleftrightarrow> tables_ok w \<and> (\<forall>p. sw_primary w = Some p \<longrightarrow> p \<in> snd ` set (sw_connections w))"

text \<open>Nothing but the state of connections and the primary server has changed.\<close>

definition calm :: "ServerWorld \<Rightarrow> ServerWorld \<Rightarrow> bool" where
  "calm w w' \<longleftrightarrow>
     sw_connections w' = sw_connections w \<and> sw_next w' = sw_next w \<and> sw_policies w' = sw_policies w \<and>
     (\<forall>i. sv_identifier (sw_conns w' i) = sv_identifier (sw_conns w i))"

lemma calm_refl [simp]: "calm w w"
  by (simp add: calm_def)

lemma calm_trans: "calm u v \<Longrightarrow> calm v w \<Longrightarrow> calm u w"
  by (simp add: calm_def)

lemma servers_ok_calm:
  assumes "servers_ok w" "calm w w'" "\<And>p. sw_primary w' = Some p \<Longrightarrow> p \<in> snd ` set (sw_connections w)"
  shows "servers_ok w'"
  using assms unfolding servers_ok_def tables_ok_def calm_def by auto

lemma servers_ok_same: "servers_ok w \<Longrightarrow> calm w w' \<Longrightarrow> sw_primary w' = sw_primary w \<Longrightarrow> servers_ok w'"
  by (rule servers_ok_calm) (auto simp: servers_ok_def)

section \<open>Connections keep their identifier\<close>

lemma identifier_send [simp]: "sv_identifier (sv_send p c) = sv_identifier c"
  by (simp add: sv_send_def QueuePacket_def QueuePacketWithStats_def split: sum.split)

lemma identifier_sends [simp]:
  "sv_identifier (SendFileSourcesRequest h n c) = sv_identifier c"
  "sv_identifier (sv_SendSearchRequest sr c) = sv_identifier c"
  "sv_identifier (SendSearchMore c) = sv_identifier c" "sv_identifier (SendLoginRequest st c) = sv_identifier c"
  "sv_identifier (SendGetList c) = sv_identifier c" "sv_identifier (SendOfferFiles offer c) = sv_identifier c"
  by (simp_all add: SendFileSourcesRequest_def sv_SendSearchRequest_def SendSearchMore_def SendLoginRequest_def
      SendGetList_def SendOfferFiles_def)

lemma identifier_close [simp]: "sv_identifier (co_Close ec c) = sv_identifier c"
  by (simp add: co_Close_def)

lemma identifier_io [simp]:
  "sv_identifier (fst (DoRead now rd c)) = sv_identifier c" "sv_identifier (fst (FlushOutgoing wr c)) = sv_identifier c"
  "sv_identifier (MarkDisconnectHandled c) = sv_identifier c" "sv_identifier (fst (co_Connect now dial c)) = sv_identifier c"
  by (simp_all add: DoRead_def FlushOutgoing_def MarkDisconnectHandled_def co_Connect_def Let_def
      split: socket_read.split socket_write.split list.split option.split)

lemma identifier_decode: "DecodeFrames inflate comb c = (c', ps, err) \<Longrightarrow> sv_identifier c' = sv_identifier c"
  by (auto simp: DecodeFrames_def ReadFrames_def ReadFramesWithCombiner_def DrainIncoming_def prependIncoming_def Let_def
      split: option.splits prod.splits if_splits)

lemma identifier_tick: "sv_SecondTick timeout now ms c = Some c' \<Longrightarrow> sv_identifier c' = sv_identifier c"
  by (auto simp: sv_SecondTick_def co_SecondTick_def split: if_splits)

lemma upd_server_fields [simp]:
  "sw_connections (upd_server i f w) = sw_connections w" "sw_next (upd_server i f w) = sw_next w"
  "sw_policies (upd_server i f w) = sw_policies w" "sw_primary (upd_server i f w) = sw_primary w"
  "sw_world (upd_server i f w) = sw_world w" "sw_search (upd_server i f w) = sw_search w"
  "sw_configured (upd_server i f w) = sw_configured w"
  by (simp_all add: upd_server_def)

lemma upd_server_conns: "sw_conns (upd_server i f w) j = (if j = i then f (sw_conns w i) else sw_conns w j)"
  by (simp add: upd_server_def)

lemma calm_upd_server: "(\<And>c. sv_identifier (f c) = sv_identifier c) \<Longrightarrow> calm w (upd_server i f w)"
  by (simp add: calm_def upd_server_conns)

lemma calm_set_server: "sv_identifier c = sv_identifier (sw_conns w i) \<Longrightarrow> calm w (upd_server i (\<lambda>_. c) w)"
  by (simp add: calm_def upd_server_conns)

lemma calm_world [simp]: "calm w (w\<lparr>sw_world := x\<rparr>)" "calm w (w\<lparr>sw_search := s\<rparr>)" "calm w (w\<lparr>sw_primary := p\<rparr>)"
  "calm w (upd_world f w)" "calm w (set_identity a b c w)" "calm w (w\<lparr>sw_configured := cf\<rparr>)"
  by (simp_all add: calm_def upd_world_def set_identity_def)

lemma primary_world [simp]: "sw_primary (upd_world f w) = sw_primary w" "sw_primary (set_identity a b c w) = sw_primary w"
  by (simp_all add: upd_world_def set_identity_def)

lemma to_servers_frame:
  assumes "\<And>c. sv_identifier (f c) = sv_identifier c"
  shows "calm w (fst (to_servers f w)) \<and> sw_primary (fst (to_servers f w)) = sw_primary w"
proof -
  have "calm w (fold (\<lambda>i. upd_server i f) is w) \<and> sw_primary (fold (\<lambda>i. upd_server i f) is w) = sw_primary w" for "is"
  proof (induction "is" arbitrary: w)
    case (Cons i "is")
    then show ?case using calm_trans [OF calm_upd_server [OF assms, of w i]] by simp
  qed simp
  then show ?thesis by (simp add: to_servers_def)
qed

lemma RequestSourcesNow_frame:
  "calm w (fst (RequestSourcesNow dht t w)) \<and> sw_primary (fst (RequestSourcesNow dht t w)) = sw_primary w"
proof -
  let ?tr = "wd_transfers (sw_world w) t" and ?w = "upd_world (upd_transfer t ForceSourceDiscoveryNow) w"
  obtain s sent where s: "SendSourcesRequest (t_hash ?tr) (t_size ?tr) ?w = (s, sent)" by (rule prod.exhaust)
  have "calm ?w s \<and> sw_primary s = sw_primary ?w"
    using to_servers_frame [of "SendFileSourcesRequest (t_hash ?tr) (t_size ?tr)" ?w] s
    by (simp add: SendSourcesRequest_def)
  then have q: "calm w s" "sw_primary s = sw_primary w" using calm_trans [OF calm_world(4)] by auto
  have "calm w (upd_world g s)" for g by (rule calm_trans [OF q(1) calm_world(4)])
  then show ?thesis using s q(2) by (simp add: RequestSourcesNow_def Let_def)
qed

lemma requests_frame:
  "calm w (fold (\<lambda>t w. fst (RequestSourcesNow (dht t) t w)) ts w) \<and>
   sw_primary (fold (\<lambda>t w. fst (RequestSourcesNow (dht t) t w)) ts w) = sw_primary w"
proof (induction ts arbitrary: w)
  case (Cons t ts)
  then show ?case using RequestSourcesNow_frame [of w "dht t" t] calm_trans by fastforce
qed simp

section \<open>Every step calm_for the invariant\<close>

lemma login_frame:
  "calm w (sv_OnServerIDChange toLower dht i cid fl ap w) \<and>
   (sw_primary (sv_OnServerIDChange toLower dht i cid fl ap w) \<in> {sw_primary w, Some i})"
proof -
  let ?hs = "upd_server i (\<lambda>c. c\<lparr>sv_clientID := cid, sv_tcpFlags := fl, sv_auxPort := ap, sv_handshakeCompleted := True\<rparr>) w"
  let ?id = "login_identity i cid fl ap ?hs"
  let ?offer = "case finished_offer toLower cid (sw_world ?id) of None \<Rightarrow> ?id | Some offer \<Rightarrow> upd_server i (SendOfferFiles offer) ?id"
  have id: "calm ?hs ?id \<and> sw_primary ?id \<in> {sw_primary ?hs, Some i}"
    by (auto simp: login_identity_def Let_def set_identity_def calm_def)
  have "calm w ?hs" by (rule calm_upd_server) simp
  moreover have "calm ?id ?offer \<and> sw_primary ?offer = sw_primary ?id"
    by (auto split: option.split intro!: calm_upd_server)
  ultimately have "calm w ?offer" "sw_primary ?offer \<in> {sw_primary w, Some i}"
    using id calm_trans by (blast, auto)
  then show ?thesis
    using requests_frame [of ?offer dht "unfinished_transfers (sw_world ?id)"] calm_trans [of w ?offer]
    by (simp add: sv_OnServerIDChange_def session_OnServerIDChange_def Let_def)
qed

abbreviation calm_for :: "nat \<Rightarrow> ServerWorld \<Rightarrow> ServerWorld \<Rightarrow> bool" where
  "calm_for i w w' \<equiv> calm w w' \<and> sw_primary w' \<in> {sw_primary w, Some i}"

lemma calm_for_trans: "calm_for i u v \<Longrightarrow> calm_for i v w \<Longrightarrow> calm_for i u w"
  using calm_trans by auto

lemma handle_server_frame: "handle_server toLower dht i packet w = Some w' \<Longrightarrow> calm_for i w w'"
proof (cases packet)
  case (SIdChange v)
  then show "handle_server toLower dht i packet w = Some w' \<Longrightarrow> calm_for i w w'"
    using login_frame [of w toLower dht i "idc_ClientID v" "idc_TCPFlags v" "idc_AuxPort v"]
    by (simp add: handle_server_def del: insert_iff) blast?
next
  case (SSearchResult v)
  have "calm_for i w (upd_server i SendSearchMore w)" using calm_upd_server [of SendSearchMore] by simp
  moreover have "calm u (u\<lparr>sw_search := y\<rparr>)" for u y by simp
  ultimately show "handle_server toLower dht i packet w = Some w' \<Longrightarrow> calm_for i w w'"
    using SSearchResult calm_trans by (fastforce simp: handle_server_def split: prod.splits if_splits)
qed (auto simp: handle_server_def split: option.splits)

lemma handle_all_frame: "handle_all toLower dht i ps w = Some w' \<Longrightarrow> calm_for i w w'"
proof (induction toLower dht i ps w rule: handle_all.induct)
  case (3 toLower dht i header x ps w)
  then obtain v where v: "handle_server toLower dht i x w = Some v" "handle_all toLower dht i ps v = Some w'"
    by (auto split: Option.bind_splits)
  from calm_for_trans [OF handle_server_frame [OF v(1)] 3(1) [OF v]] show ?case .
qed simp_all

lemma ProcessIncoming_frame: "sv_ProcessIncoming inflate toLower dht i w = Some (w', err) \<Longrightarrow> calm_for i w w'"
proof -
  assume p: "sv_ProcessIncoming inflate toLower dht i w = Some (w', err)"
  obtain c ps e where d: "DecodeFrames inflate (Some server_NewPacketCombiner) (sw_conns w i) = (c, ps, e)" by (rule prod_cases3)
  have "calm_for i w (upd_server i (\<lambda>_. c) w)" using calm_set_server [OF identifier_decode [OF d]] by simp
  note c = this
  show ?thesis
  proof (cases e)
    case None
    then have "handle_all toLower dht i ps (upd_server i (\<lambda>_. c) w) = Some w'"
      using p d by (auto simp: sv_ProcessIncoming_def)
    from calm_for_trans [OF c handle_all_frame [OF this]] show ?thesis .
  next
    case (Some e)
    then have "w' = upd_server i (\<lambda>_. c) w" using p d by (simp add: sv_ProcessIncoming_def)
    with c show ?thesis by simp
  qed
qed

lemma find_set: "find P xs = Some x \<Longrightarrow> x \<in> set xs \<and> P x"
  by (induction xs) (auto split: if_splits)

lemma promote_primary:
  "sw_primary (promotePrimaryServer sc w) = Some p \<Longrightarrow>
     sw_primary w = Some p \<or> sc = Some p \<or> p \<in> snd ` set (sw_connections w)"
  by (auto simp: promotePrimaryServer_def split: option.splits if_splits dest: find_set)

lemma promote_calm: "calm w (promotePrimaryServer sc w)"
  by (simp add: promotePrimaryServer_def split: option.split)

lemma promote_ok:
  assumes "servers_ok w" "\<And>i. sc = Some i \<Longrightarrow> i \<in> snd ` set (sw_connections w)"
  shows "servers_ok (promotePrimaryServer sc w)"
proof (rule servers_ok_calm [OF assms(1) promote_calm])
  fix p assume "sw_primary (promotePrimaryServer sc w) = Some p"
  from promote_primary [OF this] show "p \<in> snd ` set (sw_connections w)"
    using assms by (auto simp: servers_ok_def)
qed

lemma identity_frame [simp]: "calm w (identity_of i w)" "sw_primary (identity_of i w) = sw_primary w"
  by (simp_all add: identity_of_def Let_def)

lemma refresh_ok: "servers_ok w \<Longrightarrow> servers_ok (refreshPrimaryServerIdentity w)"
proof (rule servers_ok_calm)
  have "calm u (identity_of i (u\<lparr>sw_primary := p\<rparr>))" for u i p
    by (rule calm_trans [OF calm_world(3) [of u p] identity_frame(1)])
  then show "calm w (refreshPrimaryServerIdentity w)"
    by (simp add: refreshPrimaryServerIdentity_def split: option.split)
  show "servers_ok w \<Longrightarrow> sw_primary (refreshPrimaryServerIdentity w) = Some p \<Longrightarrow> p \<in> snd ` set (sw_connections w)" for p
    by (auto simp: refreshPrimaryServerIdentity_def servers_ok_def split: option.splits if_splits dest: find_set)
qed

lemma policy_step:
  assumes "upd_policy k f w = Some w'" "tables_ok w" "\<And>p. scp_identifier (f p) = k"
  shows "tables_ok w' \<and> (\<exists>ps. w' = w\<lparr>sw_policies := ps\<rparr>)"
proof -
  obtain p v where v: "ensureServerConnectionPolicy k w = Some (p, v)" and w': "w' = v\<lparr>sw_policies := AList.update k (f p) (sw_policies v)\<rparr>"
    using assms(1) by (auto simp: upd_policy_def)
  have upd: "tables_ok (u\<lparr>sw_policies := AList.update k q (sw_policies u)\<rparr>)"
    if "tables_ok u" "scp_identifier q = [] \<or> scp_identifier q = k" for u q
    using that AList.distinct_update [of "sw_policies u" k q] by (auto simp: tables_ok_def set_update_distinct)
  have "scp_identifier (NewServerConnectionPolicy 5 5) = []"
    by (simp add: NewServerConnectionPolicy_def RemoveConnectCandidates_def)
  then have "tables_ok v \<and> (\<exists>ps. v = w\<lparr>sw_policies := ps\<rparr>)"
  proof (cases "map_of (sw_policies w) k")
    case None
    then show ?thesis
      using v assms(2) upd [of w "NewServerConnectionPolicy 5 5"] \<open>scp_identifier _ = []\<close>
      by (auto simp: ensureServerConnectionPolicy_def Let_def split: if_splits)
  next
    case (Some q)
    then have "v = w" using v by (simp add: ensureServerConnectionPolicy_def split: if_splits)
    with assms(2) show ?thesis by (intro conjI exI [of _ "sw_policies w"]) simp_all
  qed
  then show ?thesis using upd [of v "f p"] assms(3) unfolding w' by auto
qed

lemma closed_ok:
  assumes closed: "OnServerConnectionClosed i ec w = Some w'" and ok: "servers_ok w" and i: "i \<in> snd ` set (sw_connections w)"
  shows "servers_ok w'"
proof -
  let ?k = "sv_identifier (sw_conns w i)"
  let ?w = "w\<lparr>sw_connections := AList.delete ?k (sw_connections w)\<rparr>"
  have tables: "tables_ok w" using ok by (simp add: servers_ok_def)
  have ids: "\<And>k j. (k, j) \<in> set (sw_connections w) \<Longrightarrow> sv_identifier (sw_conns w j) = k"
    and dist: "distinct (map fst (sw_connections w))" using tables by (auto simp: tables_ok_def)
  have key: "j = i" if "(?k, j) \<in> set (sw_connections w)" for j
    using i ids that eq_key_imp_eq_value [OF dist] by fastforce
  have "tables_ok ?w"
    using tables by (auto simp: tables_ok_def AList.delete_eq distinct_map_filter)
  then obtain v where v: "tables_ok v" "\<exists>ps. v = ?w\<lparr>sw_policies := ps\<rparr>"
    and w': "w' = refreshPrimaryServerIdentity (promotePrimaryServer None (if sw_primary v = Some i then v\<lparr>sw_primary := None\<rparr> else v))"
  proof (cases "set_ReconnectToServer (wd_settings (sw_world w)) \<and> ec \<noteq> NoError")
    case True
    have "scp_identifier (SetServerConnectionFailed k addr now p) = k" for k addr now p
      by (simp add: SetServerConnectionFailed_def Let_def)
    then show ?thesis
      using that closed True policy_step [OF _ \<open>tables_ok ?w\<close>] by (fastforce simp: OnServerConnectionClosed_def Let_def)
  next
    case False
    have "\<exists>ps. ?w = ?w\<lparr>sw_policies := ps\<rparr>" by (rule exI [of _ "sw_policies w"]) simp
    from that [OF \<open>tables_ok ?w\<close> this] show ?thesis
      using closed False by (simp add: OnServerConnectionClosed_def Let_def split: if_splits)
  qed
  have "servers_ok (if sw_primary v = Some i then v\<lparr>sw_primary := None\<rparr> else v)"
  proof -
    have conns: "sw_connections v = AList.delete ?k (sw_connections w)" and prim: "sw_primary v = sw_primary w" using v(2) by auto
    have tables: "tables_ok (v\<lparr>sw_primary := None\<rparr>)" using v(1) by (simp add: tables_ok_def)
    have "p \<in> snd ` set (sw_connections v)" if p: "sw_primary w = Some p" "p \<noteq> i" for p
    proof -
      from ok p(1) obtain k where k: "(k, p) \<in> set (sw_connections w)" by (auto simp: servers_ok_def)
      then have "k \<noteq> ?k" using key p(2) by blast
      with k show ?thesis unfolding conns by (force simp: AList.delete_eq)
    qed
    then show ?thesis using v(1) tables prim by (auto simp: servers_ok_def)
  qed
  then show ?thesis unfolding w' by (intro refresh_ok promote_ok) simp_all
qed

lemma active_set: "set (activeServerConnections w) = (case sw_primary w of Some p \<Rightarrow> {p} | None \<Rightarrow> {}) \<union> snd ` set (sw_connections w)"
  and active_distinct: "distinct (activeServerConnections w)"
proof -
  have "set (fold (\<lambda>i res. if i \<in> set res then res else res @ [i]) is res) = set res \<union> set is \<and>
      (distinct res \<longrightarrow> distinct (fold (\<lambda>i res. if i \<in> set res then res else res @ [i]) is res))" for "is" res :: "nat list"
    by (induction "is" arbitrary: res) auto
  then show "set (activeServerConnections w) = (case sw_primary w of Some p \<Rightarrow> {p} | None \<Rightarrow> {}) \<union> snd ` set (sw_connections w)"
    and "distinct (activeServerConnections w)"
    by (simp_all add: activeServerConnections_def split: option.split)
qed

lemma active_members: "servers_ok w \<Longrightarrow> set (activeServerConnections w) = snd ` set (sw_connections w)"
  by (auto simp: active_set servers_ok_def split: option.split)

lemma end_server_ok:
  assumes "end_server i w = Some w'" "servers_ok w" "i \<in> snd ` set (sw_connections w)"
  shows "servers_ok w'"
proof (cases "co_disconnecting (sw_conns w i) \<and> \<not> co_closeHandled (sw_conns w i)")
  case True
  let ?w = "upd_server i (\<lambda>c. c\<lparr>sv_handshakeCompleted := False\<rparr>) w"
  have "servers_ok ?w" by (rule servers_ok_same [OF assms(2) calm_upd_server]) simp_all
  from True assms(1) obtain v where "OnServerConnectionClosed i (co_closeCode (sw_conns w i)) ?w = Some v"
    and w': "w' = upd_server i MarkDisconnectHandled v"
    by (auto simp: end_server_def sv_OnDisconnect_def Let_def)
  from closed_ok [OF this(1) \<open>servers_ok ?w\<close>] assms(3) have "servers_ok v" by simp
  then show ?thesis unfolding w' by (rule servers_ok_same [OF _ calm_upd_server]) simp_all
next
  case False
  with assms show ?thesis by (simp add: end_server_def Let_def split: if_splits)
qed

lemma calm_for_ok: "servers_ok w \<Longrightarrow> calm_for i w w' \<Longrightarrow> i \<in> snd ` set (sw_connections w) \<Longrightarrow> servers_ok w'"
  by (rule servers_ok_calm [of w]) (auto simp: servers_ok_def)

lemma pump_ok:
  assumes "pump_server inflate toLower dht wr rd i w = Some w'" "servers_ok w" "i \<in> set (activeServerConnections w)"
  shows "servers_ok w'"
proof (cases "co_disconnecting (sw_conns w i)")
  case True
  with assms show ?thesis using end_server_ok active_members [OF assms(2)] by (simp add: pump_server_def)
next
  case False
  let ?w = "upd_server i (\<lambda>c. fst (DoRead (wd_now (sw_world w)) rd (fst (FlushOutgoing wr c)))) w"
  obtain v err where v: "sv_ProcessIncoming inflate toLower dht i ?w = Some (v, err)" "end_server i v = Some w'"
    using assms(1) False by (auto simp: pump_server_def Let_def split: Option.bind_splits)
  have "servers_ok ?w" by (rule servers_ok_same [OF assms(2) calm_upd_server]) simp_all
  have i: "i \<in> snd ` set (sw_connections ?w)" using active_members [OF assms(2)] assms(3) by simp
  note f = ProcessIncoming_frame [OF v(1)]
  have "servers_ok v" by (rule calm_for_ok [OF \<open>servers_ok ?w\<close> f i])
  moreover have "i \<in> snd ` set (sw_connections v)" using f i by (simp add: calm_def)
  ultimately show ?thesis by (rule end_server_ok [OF v(2)])
qed

lemma sv_Connect_frame:
  "calm w (fst (sv_Connect dial i w)) \<and> sw_primary (fst (sv_Connect dial i w)) = sw_primary w"
proof (cases "sv_address (sw_conns w i)")
  case None
  then show ?thesis by (simp add: sv_Connect_def)
next
  case (Some address)
  obtain c err where c: "co_Connect (wd_now (sw_world w)) dial (sw_conns w i) = (c, err)" by (rule prod.exhaust)
  have q: "calm w (upd_server i (\<lambda>_. c) w)"
    using identifier_io(4) [of "wd_now (sw_world w)" dial "sw_conns w i"] c by (intro calm_set_server) simp
  have "calm w (upd_server i (SendLoginRequest st) (upd_server i (\<lambda>_. c) w))" for st
    by (rule calm_trans [OF q calm_upd_server]) simp
  with q c Some show ?thesis by (simp add: sv_Connect_def Let_def split: option.split)
qed

lemma distinct_snd_update:
  "distinct (map snd m) \<Longrightarrow> v \<notin> snd ` set m \<Longrightarrow> distinct (map snd (AList.update k v m))"
proof (induction m)
  case (Cons p m)
  have "set (AList.update k v m) \<subseteq> insert (k, v) (set m)" by (induction m) auto
  with Cons show ?case by (cases p) force
qed simp

text \<open>A new connection under a key whose old connection, if any, is closed.\<close>

lemma add_server_ok:
  assumes ok: "servers_ok w" and key: "key \<noteq> []"
    and old: "\<And>i. map_of (sw_connections w) key = Some i \<Longrightarrow> co_disconnecting (sw_conns w i)"
  shows "servers_ok (add_server key key address w)"
proof -
  let ?n = "sw_next w"
  let ?w = "(upd_server ?n (\<lambda>_. NewServerConnection (wd_now (sw_world w)) key address) w)
      \<lparr>sw_next := Suc ?n, sw_connections := AList.update key ?n (sw_connections w)\<rparr>"
  have tables: "tables_ok w" using ok by (simp add: servers_ok_def)
  have dist: "distinct (map fst (sw_connections w))" using tables by (simp add: tables_ok_def)
  have set: "set (AList.update key ?n (sw_connections w)) = insert (key, ?n) {p \<in> set (sw_connections w). fst p \<noteq> key}"
    by (rule set_update_distinct [OF dist])
  have below: "i < ?n" if "(k, i) \<in> set (sw_connections w)" for k i using tables that by (auto simp: tables_ok_def)
  have new: "sv_identifier (NewServerConnection now key address) = key" for now
    by (simp add: NewServerConnection_def Connection.extend_def)
  have "k \<noteq> [] \<and> sv_identifier (sw_conns ?w i) = k \<and> i < Suc ?n" if "(k, i) \<in> set (sw_connections ?w)" for k i
  proof (cases "i = ?n")
    case True
    with that below key new show ?thesis by (auto simp: set upd_server_conns)
  next
    case False
    with that have "(k, i) \<in> set (sw_connections w)" by (auto simp: set)
    with False tables show ?thesis by (auto simp: tables_ok_def upd_server_conns)
  qed
  moreover have "distinct (map snd (AList.update key ?n (sw_connections w)))"
    using tables below by (intro distinct_snd_update) (force simp: tables_ok_def)+
  ultimately have "tables_ok ?w"
    using tables AList.distinct_update [OF dist, of key ?n] unfolding tables_ok_def by auto
  then have w: "tables_ok (promotePrimaryServer (Some ?n) ?w)"
    using promote_calm [of ?w "Some ?n"] by (auto simp: tables_ok_def calm_def)
  have "p \<in> snd ` set (sw_connections ?w)" if p: "sw_primary (promotePrimaryServer (Some ?n) ?w) = Some p" for p
  proof (cases "p = ?n")
    case True
    then show ?thesis by (simp add: set)
  next
    case False
    with p have prim: "sw_primary w = Some p" and alive: "\<not> co_disconnecting (sw_conns w p)"
      by (auto simp: promotePrimaryServer_def upd_server_conns split: option.splits if_splits)
    from ok prim obtain k where k: "(k, p) \<in> set (sw_connections w)" by (auto simp: servers_ok_def)
    then have "k \<noteq> key" using old alive map_of_is_SomeI [OF dist k] by auto
    with k show ?thesis by (force simp: set)
  qed
  then show ?thesis
    using w promote_calm [of ?w "Some ?n"] by (auto simp: servers_ok_def add_server_def Let_def calm_def)
qed

lemma connect_new_ok:
  assumes "servers_ok w" "key \<noteq> []" "\<And>i. map_of (sw_connections w) key = Some i \<Longrightarrow> co_disconnecting (sw_conns w i)"
  shows "servers_ok (fst (sv_Connect dial i (add_server key key address w)))"
  using sv_Connect_frame [of "add_server key key address w" dial i] by (intro servers_ok_same [OF add_server_ok [OF assms]]) simp_all

lemma servers_ok_tables: "servers_ok w \<Longrightarrow> tables_ok (w\<lparr>sw_policies := ps\<rparr>) \<Longrightarrow> servers_ok (w\<lparr>sw_policies := ps\<rparr>)"
  by (simp add: servers_ok_def)

lemma ConnectTo_ok:
  assumes "ConnectTo dial identifier address w = Some (w', err)" "servers_ok w"
  shows "servers_ok w'"
proof (cases "address = None \<or> identifier = []")
  case True
  with assms show ?thesis by (auto simp: ConnectTo_def split: option.splits)
next
  case False
  then obtain addr where addr: "address = Some addr" and id: "identifier \<noteq> []" by auto
  let ?w = "w\<lparr>sw_configured := AList.update identifier addr (sw_configured w)\<rparr>"
  have w: "servers_ok ?w" by (rule servers_ok_same [OF assms(2) calm_world(6)]) simp
  obtain v where v: "upd_policy identifier (SetConnectCandidate identifier (Some addr) (wd_now (sw_world w))) ?w = Some v"
    using assms(1) addr id by (auto simp: ConnectTo_def split: option.splits)
  have "servers_ok v"
    using policy_step [OF v] w servers_ok_tables [OF w] by (auto simp: servers_ok_def SetConnectCandidate_def)
  show ?thesis
  proof (cases "map_of (sw_connections v) identifier")
    case None
    then show ?thesis
      using assms(1) addr id v connect_new_ok [OF \<open>servers_ok v\<close> id, where dial = dial and i = "sw_next v" and address = "Some addr"]
      by (simp add: ConnectTo_def)
  next
    case (Some i)
    let ?c = "upd_server i (co_Close NoError) v"
    have c: "servers_ok ?c" by (rule servers_ok_same [OF \<open>servers_ok v\<close> calm_upd_server]) simp_all
    have "co_disconnecting (sw_conns ?c i)" by (simp add: upd_server_conns co_Close_def)
    then have new: "servers_ok (fst (sv_Connect dial (sw_next v) (add_server identifier identifier (Some addr) ?c)))"
      using connect_new_ok [OF c id] Some by simp
    have "i \<in> snd ` set (sw_connections v)" using map_of_SomeD [OF Some] by force
    then have "servers_ok (promotePrimaryServer (Some i) v)" by (intro promote_ok [OF \<open>servers_ok v\<close>]) simp
    with new show ?thesis
      using assms(1) addr id v Some by (auto simp: ConnectTo_def Let_def split: if_splits)
  qed
qed

lemma DisconnectFrom_ok: "servers_ok (DisconnectFrom w)"
  by (simp add: DisconnectFrom_def set_identity_def servers_ok_def tables_ok_def Let_def)

lemma connect_configured_ok:
  assumes "connect_configured dial now identifier w = Some w'" "servers_ok w"
  shows "servers_ok w'"
proof (cases "identifier = [] \<or> (case map_of (sw_connections w) identifier of Some i \<Rightarrow> \<not> co_disconnecting (sw_conns w i) | None \<Rightarrow> False)")
  case True
  with assms show ?thesis by (simp add: connect_configured_def)
next
  case False
  then have id: "identifier \<noteq> []" and old: "\<And>i. map_of (sw_connections w) identifier = Some i \<Longrightarrow> co_disconnecting (sw_conns w i)"
    by auto
  obtain p v where v: "ensureServerConnectionPolicy identifier w = Some (p, v)"
    using id by (cases "map_of (sw_policies w) identifier") (auto simp: ensureServerConnectionPolicy_def Let_def)
  have tables: "distinct (map fst (sw_policies w))" using assms(2) by (simp add: servers_ok_def tables_ok_def)
  have new: "scp_identifier (NewServerConnectionPolicy 5 5) = []"
    by (simp add: NewServerConnectionPolicy_def RemoveConnectCandidates_def)
  have "(scp_identifier p = [] \<or> scp_identifier p = identifier) \<and> servers_ok v \<and> sw_connections v = sw_connections w \<and> sw_conns v = sw_conns w"
  proof (cases "map_of (sw_policies w) identifier")
    case None
    then show ?thesis
      using v id assms(2) new AList.distinct_update [OF tables, of "identifier" "NewServerConnectionPolicy 5 5"]
      by (auto simp: ensureServerConnectionPolicy_def servers_ok_def tables_ok_def set_update_distinct [OF tables] Let_def)
  next
    case (Some q)
    then show ?thesis
      using v id assms(2) map_of_SomeD [OF Some] by (auto simp: ensureServerConnectionPolicy_def servers_ok_def tables_ok_def)
  qed
  then show ?thesis
    using assms(1) False v id old connect_new_ok [where w = v and key = "identifier" and dial = "dial (sw_next v)" and i = "sw_next v" and address = "scp_address p"]
    by (auto simp: connect_configured_def GetConnectCandidate_def split: if_splits)
qed

lemma connect_all_ok: "connect_all dial now ids w = Some w' \<Longrightarrow> servers_ok w \<Longrightarrow> servers_ok w'"
  by (induction dial now ids w rule: connect_all.induct) (auto split: Option.bind_splits dest: connect_configured_ok)

lemma server_step_ok: "server_step w w' \<Longrightarrow> servers_ok w \<Longrightarrow> servers_ok w'"
proof (induction rule: server_step.induct)
  case (tick i w timeout now ms c)
  then show ?case using servers_ok_same [OF _ calm_set_server] identifier_tick by auto
next
  case (search w toLower tracker params)
  let ?w = "fst (sendSearchRequest (normalizeSearchParams params) w)"
  have "calm w ?w \<and> sw_primary ?w = sw_primary w" unfolding sendSearchRequest_def by (rule to_servers_frame) simp
  then have "servers_ok ?w" by (intro servers_ok_same [OF search]) auto
  then have "servers_ok (?w\<lparr>sw_search := s\<rparr>)" "servers_ok (w\<lparr>sw_search := s\<rparr>)" for s
    using search by (simp_all add: servers_ok_def tables_ok_def)
  then show ?case by (auto simp: session_StartSearch_def Let_def split: prod.split)
next
  case (sources w dht t)
  then show ?case using servers_ok_same RequestSourcesNow_frame by blast
next
  case (publish w toLower t)
  have "calm w (PublishTransferToServer toLower t w) \<and> sw_primary (PublishTransferToServer toLower t w) = sw_primary w"
    using calm_upd_server [of "SendOfferFiles _"] by (simp add: PublishTransferToServer_def Let_def split: option.split)
  then show ?case by (intro servers_ok_same [OF publish]) auto
next
  case (ranged cs w)
  then have "set cs = set (sw_connections w)" "distinct (map fst cs)" "distinct (map snd cs)"
    by (auto simp: servers_ok_def tables_ok_def dest: mset_eq_setD) (metis mset_eq_imp_distinct_iff mset_map)+
  with ranged show ?case by (simp add: servers_ok_def tables_ok_def)
next
  case (connect dial name address w w' err)
  then show ?case by (rule ConnectTo_ok)
next
  case (pump i w inflate toLower found wr rd w')
  from pump_ok [OF pump(2,3,1)] show ?case .
next
  case (configured dial now w w')
  then show ?case unfolding connectConfiguredServers_def by (rule connect_all_ok)
next
  case (disconnect w)
  show ?case by (rule DisconnectFrom_ok)
next
  case (world w x)
  then show ?case by (rule servers_ok_same) simp_all
next
  case (searching w s)
  then show ?case by (rule servers_ok_same) simp_all
qed

lemma in_servers_ok: "in_servers w \<Longrightarrow> servers_ok w"
proof (induction rule: in_servers.induct)
  case (start w)
  then show ?case by (simp add: no_servers_def servers_ok_def tables_ok_def)
qed (rule server_step_ok)

section \<open>The servers of a session\<close>

text \<open>C22: whatever servers are connected to, lost, dialled again or log the client in, and whatever they send: the
  session has one connection for each server, entered under the server's name; the primary server is one of them;
  and a round serves each of them once.\<close>

theorem servers_invariant:
  assumes "in_servers w"
  shows "distinct (map fst (sw_connections w)) \<and>
    (\<forall>(key, i) \<in> set (sw_connections w). sv_identifier (sw_conns w i) = key) \<and>
    (\<forall>p. sw_primary w = Some p \<longrightarrow> (sv_identifier (sw_conns w p), p) \<in> set (sw_connections w)) \<and>
    distinct (activeServerConnections w) \<and> set (activeServerConnections w) = snd ` set (sw_connections w)"
proof -
  have ok: "servers_ok w" using assms by (rule in_servers_ok)
  then have ids: "\<forall>(key, i) \<in> set (sw_connections w). sv_identifier (sw_conns w i) = key"
    by (auto simp: servers_ok_def tables_ok_def)
  with ok have "\<forall>p. sw_primary w = Some p \<longrightarrow> (sv_identifier (sw_conns w p), p) \<in> set (sw_connections w)"
    by (fastforce simp: servers_ok_def)
  with ok ids show ?thesis using active_distinct active_members [OF ok] by (simp add: servers_ok_def tables_ok_def)
qed

text \<open>A session that dials one server, which refuses the connection.\<close>

definition demo_server_world :: ServerWorld where
  "demo_server_world =
     no_servers
       \<lparr>wd_conns = (\<lambda>_. NewPeerConnection 0 \<lparr>ep_ip = 0, ep_port = 0\<rparr> None None), wd_transfers = (\<lambda>_. undefined), wd_byHash = [],
        wd_connections = [], wd_queue = NewUploadQueue, wd_credits = [], wd_friendSlots = [],
        wd_settings = NewSettings [] None, wd_clientID = 0, wd_accumulator = NewStatistics, wd_next = 0, wd_now = 7,
        wd_random = (\<lambda>_. 0), wd_effects = []\<rparr>"

definition demo_dialled :: ServerWorld where
  "demo_dialled = fst (the (ConnectTo (Some ''refused'') ''server'' (Some ''host:4661'') demo_server_world))"

lemmas demo_connect = ConnectTo_def upd_policy_def ensureServerConnectionPolicy_def demo_server_world_def no_servers_def
  add_server_def promotePrimaryServer_def sv_Connect_def co_Connect_def upd_server_def NewServerConnection_def
  Connection.extend_def co_NewConnection_def co_Close_def

lemma demo_connected: "ConnectTo (Some ''refused'') ''server'' (Some ''host:4661'') demo_server_world = Some (demo_dialled, Some ''refused'')"
  and demo_active: "activeServerConnections demo_dialled = [0]" and demo_reconnect: "\<not> set_ReconnectToServer (wd_settings (sw_world demo_dialled))"
  by (simp_all add: demo_dialled_def demo_connect activeServerConnections_def NewSettings_def Let_def)

lemma demo_in_servers: "in_servers demo_dialled"
  by (rule in_servers.step [OF _ server_step.connect [OF demo_connected]]) (simp add: demo_server_world_def in_servers.start)

theorem servers_invariant_witness: "set (activeServerConnections demo_dialled) = snd ` set (sw_connections demo_dialled)"
  using servers_invariant [OF demo_in_servers] by blast

section \<open>Losing a server\<close>

lemma closed_shape:
  assumes "sv_OnDisconnect ec i w = Some w'"
  shows "\<exists>v. w' = refreshPrimaryServerIdentity (promotePrimaryServer None v) \<and>
    sw_connections v = AList.delete (sv_identifier (sw_conns w i)) (sw_connections w)"
proof -
  have "sw_connections v = sw_connections u" if "upd_policy k f u = Some v" for k f u v
    using that by (auto simp: upd_policy_def ensureServerConnectionPolicy_def Let_def split: if_splits option.splits)
  then show ?thesis
    using assms by (auto simp: sv_OnDisconnect_def OnServerConnectionClosed_def Let_def upd_server_conns split: if_splits)
qed

lemma identity_conns [simp]:
  "sw_conns (identity_of i w) = sw_conns w" "sw_connections (identity_of i w) = sw_connections w"
  "wd_clientID (sw_world (identity_of i w)) = sv_clientID (sw_conns w i)"
  "sw_tcpFlags (identity_of i w) = sv_tcpFlags (sw_conns w i)" "sw_auxPort (identity_of i w) = sv_auxPort (sw_conns w i)"
  by (simp_all add: identity_of_def set_identity_def Let_def)

lemma refresh_identity:
  "if \<exists>j \<in> set (activeServerConnections (refreshPrimaryServerIdentity w)). sv_handshakeCompleted (sw_conns (refreshPrimaryServerIdentity w) j)
   then \<exists>p. sw_primary (refreshPrimaryServerIdentity w) = Some p \<and>
          sv_handshakeCompleted (sw_conns (refreshPrimaryServerIdentity w) p) \<and>
          wd_clientID (sw_world (refreshPrimaryServerIdentity w)) = sv_clientID (sw_conns (refreshPrimaryServerIdentity w) p) \<and>
          sw_tcpFlags (refreshPrimaryServerIdentity w) = sv_tcpFlags (sw_conns (refreshPrimaryServerIdentity w) p) \<and>
          sw_auxPort (refreshPrimaryServerIdentity w) = sv_auxPort (sw_conns (refreshPrimaryServerIdentity w) p)
   else wd_clientID (sw_world (refreshPrimaryServerIdentity w)) = 0 \<and> sw_tcpFlags (refreshPrimaryServerIdentity w) = 0 \<and>
          sw_auxPort (refreshPrimaryServerIdentity w) = 0"
proof -
  let ?hs = "\<lambda>i. sv_handshakeCompleted (sw_conns w i)"
  consider p where "sw_primary w = Some p" "?hs p"
    | i where "refreshPrimaryServerIdentity w = identity_of i (w\<lparr>sw_primary := Some i\<rparr>)" "?hs i"
    | "refreshPrimaryServerIdentity w = set_identity 0 0 0 w" "\<forall>i \<in> set (activeServerConnections w). \<not> ?hs i"
  proof (cases "\<exists>p. sw_primary w = Some p \<and> ?hs p")
    case True
    then show ?thesis using that(1) by blast
  next
    case False
    then have r: "refreshPrimaryServerIdentity w = (case find ?hs (map snd (sw_connections w)) of
        Some i \<Rightarrow> identity_of i (w\<lparr>sw_primary := Some i\<rparr>) | None \<Rightarrow> set_identity 0 0 0 w)"
      by (auto simp: refreshPrimaryServerIdentity_def split: option.split)
    show ?thesis
    proof (cases "find ?hs (map snd (sw_connections w))")
      case None
      with False r that(3) show ?thesis by (auto simp: active_set find_None_iff split: option.splits)
    next
      case (Some i)
      with r that(2) find_set [OF Some] show ?thesis by simp
    qed
  qed
  then show ?thesis
  proof cases
    case 1
    then have "refreshPrimaryServerIdentity w = identity_of p w" by (simp add: refreshPrimaryServerIdentity_def)
    with 1 show ?thesis by (simp add: active_set)
  next
    case 2
    then show ?thesis by (simp add: active_set)
  next
    case 3
    then show ?thesis by (simp add: active_set set_identity_def)
  qed
qed

text \<open>C24: when a connection to a server has ended, the session has the identity of its primary server, which has
  accepted the login - as long as any server has - and none otherwise; the lost server is not served any more.\<close>

theorem server_identity:
  assumes "in_servers w" and "i \<in> set (activeServerConnections w)" and "sv_OnDisconnect ec i w = Some w'"
  shows "(if \<exists>j \<in> set (activeServerConnections w'). sv_handshakeCompleted (sw_conns w' j)
      then \<exists>p. sw_primary w' = Some p \<and> sv_handshakeCompleted (sw_conns w' p) \<and>
             wd_clientID (sw_world w') = sv_clientID (sw_conns w' p) \<and>
             sw_tcpFlags w' = sv_tcpFlags (sw_conns w' p) \<and> sw_auxPort w' = sv_auxPort (sw_conns w' p)
      else wd_clientID (sw_world w') = 0 \<and> sw_tcpFlags w' = 0 \<and> sw_auxPort w' = 0) \<and>
    i \<notin> set (activeServerConnections w')"
proof -
  have ok: "servers_ok w" using assms(1) by (rule in_servers_ok)
  let ?u = "upd_server i (\<lambda>c. c\<lparr>sv_handshakeCompleted := False\<rparr>) w"
  have "servers_ok ?u" by (rule servers_ok_same [OF ok calm_upd_server]) simp_all
  moreover have "i \<in> snd ` set (sw_connections ?u)" using assms(2) active_members [OF ok] by simp
  ultimately have ok': "servers_ok w'" using closed_ok assms(3) by (simp add: sv_OnDisconnect_def)
  obtain v where v: "w' = refreshPrimaryServerIdentity (promotePrimaryServer None v)"
    "sw_connections v = AList.delete (sv_identifier (sw_conns w i)) (sw_connections w)"
    using closed_shape [OF assms(3)] by blast
  let ?v = "promotePrimaryServer None v"
  have "sw_connections w' = sw_connections v"
    by (simp add: v(1) refreshPrimaryServerIdentity_def promotePrimaryServer_def identity_of_def set_identity_def Let_def split: option.split)
  then have "i \<notin> set (activeServerConnections w')"
    using active_members [OF ok'] v(2) ok by (auto simp: servers_ok_def tables_ok_def AList.delete_eq)
  with refresh_identity [of ?v] show ?thesis unfolding v(1) by blast
qed

theorem server_identity_witness:
  "\<exists>w'. sv_OnDisconnect IOException 0 demo_dialled = Some w' \<and> 0 \<notin> set (activeServerConnections w')"
proof -
  obtain w' where "sv_OnDisconnect IOException 0 demo_dialled = Some w'"
    using demo_reconnect by (auto simp: sv_OnDisconnect_def OnServerConnectionClosed_def Let_def)
  then show ?thesis using server_identity [OF demo_in_servers, of 0 IOException w'] by (simp add: demo_active)
qed

section \<open>Dialling again\<close>

text \<open>C25: a server that is lost for the \<open>k\<close>-th time since it was chosen is dialled again after \<open>k\<close> times the timeout
  of its policy and not before; after as many losses as the policy allows, never. The policies of a session have five
  seconds and five losses, and no login starts the count again.\<close>

theorem reconnect_backoff:
  fixes server address :: string and ts :: "int list" and secs limit t0 now :: int
  defines "p \<equiv> fold (SetServerConnectionFailed server (Some address)) ts
    (SetConnectCandidate server (Some address) t0 (NewServerConnectionPolicy secs limit))"
  assumes "server \<noteq> []" and "ts \<noteq> []" and "0 \<le> last ts" and "0 \<le> secs"
  shows "GetConnectCandidate now p =
    (if int (length ts) < limit \<and> last ts + int (length ts) * secs * 1000 \<le> now
     then Some \<lparr>scc_Identifier = server, scc_Address = Some address\<rparr> else None)"
proof -
  let ?p = "\<lambda>us. fold (SetServerConnectionFailed server (Some address)) us
    (SetConnectCandidate server (Some address) t0 (NewServerConnectionPolicy secs limit))"
  have shape: "?p us = \<lparr>scp_reconnectSecondsTimeout = secs, scp_maxReconnects = limit, scp_iteration = int (length us),
      scp_identifier = server, scp_address = Some address, scp_nextConnectTime =
        (if us = [] then t0 else if int (length us) < limit then last us + int (length us) * secs * 1000 else -1)\<rparr>" for us
  proof (induction us rule: rev_induct)
    case Nil
    then show ?case by (simp add: SetConnectCandidate_def NewServerConnectionPolicy_def RemoveConnectCandidates_def)
  next
    case (snoc t us)
    have "SetServerConnectionFailed server (Some address) t (?p us) = \<lparr>scp_reconnectSecondsTimeout = secs, scp_maxReconnects = limit,
      scp_iteration = int (length us) + 1, scp_identifier = server, scp_address = Some address, scp_nextConnectTime =
        (if int (length us) + 1 < limit then t + (int (length us) + 1) * secs * 1000 else -1)\<rparr>"
      unfolding snoc using assms(2) by (simp add: SetServerConnectionFailed_def HasCandidate_def HasIterations_def Let_def)
    then show ?case by (simp add: add.commute)
  qed
  define wait where "wait = int (length ts) * secs * 1000"
  then have "0 \<le> wait" using assms(5) by simp
  then show ?thesis using assms(3,4) unfolding p_def shape wait_def [symmetric] by (auto simp: GetConnectCandidate_def)
qed

theorem reconnect_backoff_witness:
  "GetConnectCandidate 15000 (fold (SetServerConnectionFailed ''a'' (Some ''b'')) [1000, 5000]
     (SetConnectCandidate ''a'' (Some ''b'') 0 (NewServerConnectionPolicy 5 5))) =
     Some \<lparr>scc_Identifier = ''a'', scc_Address = Some ''b''\<rparr>"
  using reconnect_backoff [of "''a''" "[1000, 5000]" 5 15000 "''b''" 0 5] by simp

section \<open>Logging in\<close>

text \<open>What a packet becomes in the queue of a connection.\<close>

definition server_frames :: "ServerPacket \<Rightarrow> bytes list" where
  "server_frames packet =
     (case pc_Pack server_NewPacketCombiner (typeName_server packet) (put_server packet) of
        Inl e \<Rightarrow> []
      | Inr raw \<Rightarrow> if raw = [] then [] else [raw])"

definition sources_request :: "Transfer \<Rightarrow> ServerPacket" where
  "sources_request tr = SGetFileSources
     \<lparr>gfs_Hash = t_hash tr, gfs_LowPart = LowPart (word_of_int (t_size tr)), gfs_HiPart = HiPart (word_of_int (t_size tr))\<rparr>"

lemma pending_send: "PendingPackets (sv_send packet c) = PendingPackets c @ server_frames packet"
  by (simp add: sv_send_def server_frames_def QueuePacket_def QueuePacketWithStats_def PendingPackets_def split: sum.split)

lemma handshake_send [simp]: "sv_handshakeCompleted (sv_send packet c) = sv_handshakeCompleted c"
  by (simp add: sv_send_def QueuePacket_def QueuePacketWithStats_def split: sum.split)

lemma fold_upd_server:
  "distinct is \<Longrightarrow> sw_conns (fold (\<lambda>i. upd_server i f) is w) j = (if j \<in> set is then f (sw_conns w j) else sw_conns w j)"
  by (induction "is" arbitrary: w) (auto simp: upd_server_conns)

lemma fold_upd_world: "sw_world (fold (\<lambda>i. upd_server i f) is w) = sw_world w"
  by (induction "is" arbitrary: w) simp_all

lemma to_servers_conns:
  "sw_conns (fst (to_servers f w)) j = (if j \<in> set (logged_in w) then f (sw_conns w j) else sw_conns w j)"
  "sw_world (fst (to_servers f w)) = sw_world w"
  using active_distinct by (simp_all add: to_servers_def fold_upd_server fold_upd_world logged_in_def)

text \<open>What decides whether and how a transfer is asked for.\<close>

definition ask_key :: "Transfer \<Rightarrow> bool \<times> bool \<times> bool \<times> hash \<times> int" where
  "ask_key tr = (t_pause tr, t_abort tr, t_IsFinished tr, t_hash tr, t_size tr)"

lemma ask_key_next [simp]:
  "ask_key (tr\<lparr>t_nextSourcesRequest := a, t_nextDHTRequest := b\<rparr>) = ask_key tr"
  by (simp add: ask_key_def t_IsFinished_def)

lemma ask_key_cong: "ask_key tr = ask_key tr' \<Longrightarrow> sources_request tr = sources_request tr'"
  by (simp add: ask_key_def sources_request_def)

definition wants_sources :: "Transfer \<Rightarrow> bool" where
  "wants_sources tr \<longleftrightarrow> \<not> t_pause tr \<and> \<not> t_abort tr \<and> \<not> t_IsFinished tr"

lemma ask_key_wants: "ask_key tr = ask_key tr' \<Longrightarrow> wants_sources tr = wants_sources tr'"
  by (simp add: ask_key_def wants_sources_def)

lemma RequestSourcesNow_asks:
  fixes w :: ServerWorld and dht :: bool and t :: nat
  assumes "wants_sources (wd_transfers (sw_world w) t)"
  defines "w' \<equiv> fst (RequestSourcesNow dht t w)"
  shows "sw_conns w' j = (if j \<in> set (logged_in w)
      then sv_send (sources_request (wd_transfers (sw_world w) t)) (sw_conns w j) else sw_conns w j)"
    and "ask_key (wd_transfers (sw_world w') u) = ask_key (wd_transfers (sw_world w) u)"
    and "set (logged_in w') = set (logged_in w)"
proof -
  let ?tr = "wd_transfers (sw_world w) t" and ?w = "upd_world (upd_transfer t ForceSourceDiscoveryNow) w"
  obtain s sent where s: "SendSourcesRequest (t_hash ?tr) (t_size ?tr) ?w = (s, sent)" by (rule prod.exhaust)
  obtain a b where w': "w' = upd_world (upd_transfer t (\<lambda>tr. tr\<lparr>t_nextSourcesRequest := a, t_nextDHTRequest := b\<rparr>)) s"
    using assms s by (auto simp: RequestSourcesNow_def Let_def wants_sources_def)
  have s': "s = fst (to_servers (SendFileSourcesRequest (t_hash ?tr) (t_size ?tr)) ?w)"
    using s by (simp add: SendSourcesRequest_def)
  have same: "logged_in ?w = logged_in w" "sw_conns ?w = sw_conns w"
    by (simp_all add: logged_in_def activeServerConnections_def upd_world_def)
  show conns: "sw_conns w' j = (if j \<in> set (logged_in w) then sv_send (sources_request ?tr) (sw_conns w j) else sw_conns w j)" for j
    by (simp add: w' s' to_servers_conns same upd_world_def [of "upd_transfer t (\<lambda>tr. tr\<lparr>t_nextSourcesRequest := a, t_nextDHTRequest := b\<rparr>)"]
        SendFileSourcesRequest_def sources_request_def)
  show "ask_key (wd_transfers (sw_world w') u) = ask_key (wd_transfers (sw_world w) u)"
    by (simp add: w' s' to_servers_conns upd_world_def upd_transfer_def ForceSourceDiscoveryNow_def)
  have "sw_connections w' = sw_connections w" "sw_primary w' = sw_primary w"
    using RequestSourcesNow_frame [of w dht t] by (simp_all add: w'_def calm_def)
  then show "set (logged_in w') = set (logged_in w)"
    by (auto simp: logged_in_def active_set conns split: if_splits)
qed

lemma requests_ask:
  "\<forall>t \<in> set ts. wants_sources (wd_transfers (sw_world w) t) \<Longrightarrow>
     PendingPackets (sw_conns (fold (\<lambda>t w. fst (RequestSourcesNow (dht t) t w)) ts w) j) =
       PendingPackets (sw_conns w j) @
       (if j \<in> set (logged_in w)
        then concat (map (\<lambda>t. server_frames (sources_request (wd_transfers (sw_world w) t))) ts) else [])"
proof (induction ts arbitrary: w)
  case (Cons t ts)
  let ?w = "fst (RequestSourcesNow (dht t) t w)"
  have t: "wants_sources (wd_transfers (sw_world w) t)" using Cons.prems by simp
  note one = RequestSourcesNow_asks [OF t, of "dht t"]
  have keys: "wants_sources (wd_transfers (sw_world ?w) u) = wants_sources (wd_transfers (sw_world w) u)"
    "sources_request (wd_transfers (sw_world ?w) u) = sources_request (wd_transfers (sw_world w) u)" for u
    using one(2) [of u] by (rule ask_key_wants, rule ask_key_cong)
  have "\<forall>u \<in> set ts. wants_sources (wd_transfers (sw_world ?w) u)" using Cons.prems by (simp add: keys)
  from Cons.IH [OF this] show ?case by (simp add: one(1,3) keys(2) pending_send)
qed simp

lemma login_pending:
  assumes "in_servers w" and "i \<in> set (activeServerConnections w)"
  shows "PendingPackets (sw_conns (sv_OnServerIDChange toLower dht i clientID tcpFlags auxPort w) j) =
    PendingPackets (sw_conns w j) @
    (if j = i then (case finished_offer toLower clientID (sw_world w) of
        None \<Rightarrow> [] | Some offer \<Rightarrow> if of_Entries offer = [] then [] else server_frames (SOfferFiles offer)) else []) @
    (if j = i \<or> j \<in> set (logged_in w)
     then concat (map (\<lambda>t. server_frames (sources_request (wd_transfers (sw_world w) t))) (unfinished_transfers (sw_world w))) else [])"
proof -
  let ?hs = "upd_server i (\<lambda>c. c\<lparr>sv_clientID := clientID, sv_tcpFlags := tcpFlags, sv_auxPort := auxPort, sv_handshakeCompleted := True\<rparr>) w"
  let ?id = "login_identity i clientID tcpFlags auxPort ?hs"
  let ?offer = "case finished_offer toLower clientID (sw_world w) of None \<Rightarrow> ?id | Some offer \<Rightarrow> upd_server i (SendOfferFiles offer) ?id"
  have id: "sw_conns ?id = sw_conns ?hs" "sw_connections ?id = sw_connections w"
    "wd_transfers (sw_world ?id) = wd_transfers (sw_world w)" "wd_byHash (sw_world ?id) = wd_byHash (sw_world w)"
    "wd_settings (sw_world ?id) = wd_settings (sw_world w)"
    by (simp_all add: login_identity_def set_identity_def Let_def)
  have worlds: "finished_offer toLower clientID (sw_world ?id) = finished_offer toLower clientID (sw_world w)"
    "unfinished_transfers (sw_world ?id) = unfinished_transfers (sw_world w)"
    by (simp_all add: finished_offer_def unfinished_transfers_def running_transfers_def offer_file_def [abs_def] Let_def id)
  have ok: "servers_ok w" using assms(1) by (rule in_servers_ok)
  have "sw_primary ?id \<in> {sw_primary w, Some i}" by (auto simp: login_identity_def set_identity_def Let_def)
  then have active: "set (activeServerConnections ?id) = set (activeServerConnections w)"
    using assms(2) ok active_members [OF ok]
    by (auto simp: active_set id servers_ok_def split: option.splits intro: rev_image_eqI)
  have offer_hs: "sv_handshakeCompleted (SendOfferFiles x c) = sv_handshakeCompleted c" for x c by (simp add: SendOfferFiles_def)
  have logged: "set (logged_in ?offer) = insert i (set (logged_in w))"
  proof -
    have "activeServerConnections ?offer = activeServerConnections ?id"
      by (simp add: activeServerConnections_def split: option.split)
    then show ?thesis
      using assms(2) active unfolding logged_in_def
      by (auto simp: upd_server_conns id offer_hs split: option.split option.splits if_splits)
  qed
  have pend: "PendingPackets (SendOfferFiles x c) = PendingPackets c @ (if of_Entries x = [] then [] else server_frames (SOfferFiles x))" for x c
    by (simp add: SendOfferFiles_def pending_send)
  have "PendingPackets (sw_conns ?offer j) = PendingPackets (sw_conns w j) @
    (if j = i then (case finished_offer toLower clientID (sw_world w) of
        None \<Rightarrow> [] | Some offer \<Rightarrow> if of_Entries offer = [] then [] else server_frames (SOfferFiles offer)) else [])"
  proof -
    have "PendingPackets (sw_conns ?hs k) = PendingPackets (sw_conns w k)" for k
      by (simp add: upd_server_conns PendingPackets_def)
    then show ?thesis by (auto simp: upd_server_conns [of _ _ ?id] id(1) pend split: option.split)
  qed
  moreover have "sw_world ?offer = sw_world ?id" by (simp split: option.split)
  moreover have "\<forall>t \<in> set (unfinished_transfers (sw_world w)). wants_sources (wd_transfers (sw_world w) t)"
    by (auto simp: unfinished_transfers_def running_transfers_def wants_sources_def)
  ultimately show ?thesis
    using requests_ask [of "unfinished_transfers (sw_world w)" ?offer dht j]
    by (simp add: sv_OnServerIDChange_def session_OnServerIDChange_def Let_def worlds id logged)
qed

text \<open>C23: when a server accepts the login of the client, it is offered the complete files of the transfers that are
  neither paused nor removed, with their names and sizes, if there is something to offer; and every server that has
  accepted a login is asked for sources of every transfer that is neither paused, removed nor complete - once, in
  order, and for nothing else.\<close>

theorem login_asks:
  fixes w :: ServerWorld and toLower :: "bytes \<Rightarrow> bytes" and clientID :: u32
  assumes "in_servers w" and "i \<in> set (activeServerConnections w)"
  defines "T \<equiv> wd_transfers (sw_world w)" and "ts \<equiv> map snd (wd_byHash (sw_world w))"
  defines "whole \<equiv> filter (\<lambda>t. \<not> t_pause (T t) \<and> \<not> t_abort (T t) \<and> t_IsFinished (T t)) ts"
    and "lacking \<equiv> filter (\<lambda>t. \<not> t_pause (T t) \<and> \<not> t_abort (T t) \<and> \<not> t_IsFinished (T t)) ts"
  defines "offer \<equiv> NewOfferFiles toLower clientID (set_ListenPort (wd_settings (sw_world w)))
    (map (\<lambda>t. \<lparr>ofile_Hash = t_hash (T t), ofile_Name = str (FileName (T t)), ofile_Size = t_size (T t)\<rparr>) whole)"
  shows "PendingPackets (sw_conns (sv_OnServerIDChange toLower dht i clientID tcpFlags auxPort w) j) =
    PendingPackets (sw_conns w j) @
    (if j = i \<and> of_Entries offer \<noteq> [] then server_frames (SOfferFiles offer) else []) @
    (if j = i \<or> j \<in> set (activeServerConnections w) \<and> sv_handshakeCompleted (sw_conns w j)
     then concat (map (\<lambda>t. server_frames (SGetFileSources
            \<lparr>gfs_Hash = t_hash (T t), gfs_LowPart = LowPart (word_of_int (t_size (T t))), gfs_HiPart = HiPart (word_of_int (t_size (T t)))\<rparr>))
          lacking)
     else [])"
proof -
  have lacking: "unfinished_transfers (sw_world w) = lacking"
    by (simp add: unfinished_transfers_def running_transfers_def lacking_def ts_def T_def filter_filter conj_commute conj_left_commute)
  have offered: "filter (\<lambda>t. t_IsFinished (T t)) (running_transfers (sw_world w)) = whole"
    by (simp add: running_transfers_def whole_def ts_def T_def filter_filter conj_commute conj_left_commute)
  have "NewOfferFiles toLower c p [] = \<lparr>of_Entries = []\<rparr>" for c p by (simp add: NewOfferFiles_def)
  then have offer: "finished_offer toLower clientID (sw_world w) = (if whole = [] then None else Some offer) \<and>
      (whole = [] \<longrightarrow> of_Entries offer = [])"
    using offered unfolding T_def
    by (simp add: finished_offer_def offer_def offer_file_def [abs_def] Let_def T_def)
  show ?thesis
    using login_pending [OF assms(1,2), of toLower dht clientID tcpFlags auxPort j] offer
    by (auto simp: lacking sources_request_def T_def logged_in_def split: if_splits)
qed

definition demo_want :: Transfer where
  "demo_want = \<lparr>t_hash = replicate 16 7, t_createTime = 0, t_size = 3, t_numPieces = 1, t_filePath = ''f'',
     t_stat = NewStatistics, t_closedStat = NewStatistics,
     t_picker = \<lparr>pp_pieceCount = 1, pp_blocksInLastPiece = 1, pp_pieceStatus = [PieceNone], pp_downloadingPieces = []\<rparr>,
     t_policy = NewPolicy, t_pm = None, t_hashSet = [], t_pause = False, t_abort = False, t_needSaveResumeData = True,
     t_state = Downloading, t_connections = [], t_nextSourcesRequest = 0, t_nextDHTRequest = 0, t_speedMon = NewSpeedMonitor 30,
     t_pendingResumeIO = 0, t_uploadPriority = UploadPriorityNormal, t_pendingPieceHashes = {}\<rparr>"

definition demo_wanting :: ServerWorld where
  "demo_wanting = demo_dialled\<lparr>sw_world := (sw_world demo_dialled)\<lparr>wd_byHash := [(replicate 16 7, 0)], wd_transfers := \<lambda>_. demo_want\<rparr>\<rparr>"

theorem login_asks_witness:
  "PendingPackets (sw_conns (sv_OnServerIDChange (\<lambda>x. x) (\<lambda>_. False) 0 5 0 0 demo_wanting) 0) =
     server_frames (SGetFileSources \<lparr>gfs_Hash = replicate 16 7, gfs_LowPart = 3, gfs_HiPart = 0\<rparr>)"
proof -
  have s: "in_servers demo_wanting" unfolding demo_wanting_def by (rule in_servers.step [OF demo_in_servers server_step.world])
  have a: "activeServerConnections demo_wanting = [0]" "PendingPackets (sw_conns demo_wanting 0) = []"
    using demo_active by (simp_all add: demo_wanting_def activeServerConnections_def)
      (simp add: demo_dialled_def demo_connect PendingPackets_def Let_def)
  have t: "\<not> t_IsFinished demo_want" "\<not> t_pause demo_want" "\<not> t_abort demo_want" "t_hash demo_want = replicate 16 7" "t_size demo_want = 3"
    by (simp_all add: demo_want_def t_IsFinished_def NumHave_def TotalPieces_def)
  have w: "wd_byHash (sw_world demo_wanting) = [(replicate 16 7, 0)]" "wd_transfers (sw_world demo_wanting) 0 = demo_want"
    by (simp_all add: demo_wanting_def)
  have "LowPart 3 = 3" "HiPart 3 = 0" by (simp_all add: LowPart_def HiPart_def)
  then show ?thesis
    using login_asks [OF s, where i = 0 and toLower = "\<lambda>x. x" and clientID = 5 and dht = "\<lambda>_. False" and tcpFlags = 0
      and auxPort = 0 and j = 0] by (simp add: a t w NewOfferFiles_def)
qed

end
