(* ===== verification/Whole_Session.thy ===== *)
theory Whole_Session
  imports Server_Session Disk_Tasks
begin

text \<open>
  The session that holds everything (\<^verbatim>\<open>session.go\<close>): the servers, the peers and transfers, the
  queue of disk tasks and the listening socket. It adds, finds and removes transfers, hands out
  handles on them (\<^verbatim>\<open>transfer_handle.go\<close>, \<^verbatim>\<open>add_transfer_params.go\<close>), and \<open>SecondTick\<close> drives all of it.
\<close>

section \<open>State\<close>

text \<open>
  \<open>se_nextTransfer\<close> is the address of the next transfer, \<open>se_diskWorkers\<close> are the goroutines that run a
  disk task, \<open>se_incoming\<close> is the channel of accepted sockets, by the endpoint of the peer.
\<close>

record Session =
  se_servers :: ServerWorld
  se_nextTransfer :: nat
  se_diskTasks :: "diskTask list"
  se_diskResults :: "(nat \<times> disk_result) list"
  se_diskWorkers :: "diskTask list"
  se_nextTask :: nat
  se_listener :: bool
  se_incoming :: "Endpoint list"

abbreviation se_world :: "Session \<Rightarrow> World" where
  "se_world s \<equiv> sw_world (se_servers s)"

definition upd_servers :: "(ServerWorld \<Rightarrow> ServerWorld) \<Rightarrow> Session \<Rightarrow> Session" where
  "upd_servers f s = s\<lparr>se_servers := f (se_servers s)\<rparr>"

definition upd_peers :: "(World \<Rightarrow> World) \<Rightarrow> Session \<Rightarrow> Session" where
  "upd_peers f s = upd_servers (upd_world f) s"

definition put_servers :: "Session \<Rightarrow> ServerWorld option \<Rightarrow> Session option" where
  "put_servers s r = map_option (\<lambda>w. s\<lparr>se_servers := w\<rparr>) r"

definition put_peers :: "Session \<Rightarrow> World option \<Rightarrow> Session option" where
  "put_peers s r = put_servers s (map_option (\<lambda>x. (se_servers s)\<lparr>sw_world := x\<rparr>) r)"

text \<open>\<open>heap\<close> is what memory for transfers holds before it is used.\<close>

definition NewSession :: "(nat \<Rightarrow> Transfer) \<Rightarrow> (nat \<Rightarrow> int) \<Rightarrow> int \<Rightarrow> Settings \<Rightarrow> Session" where
  "NewSession heap random now st =
     \<lparr>se_servers =
        \<lparr>sw_world =
           \<lparr>wd_conns = (\<lambda>_. NewPeerConnection now \<lparr>ep_ip = 0, ep_port = 0\<rparr> None None), wd_transfers = heap, wd_byHash = [], wd_connections = [], wd_queue = NewUploadQueue,
            wd_credits = [], wd_friendSlots = [], wd_settings = st, wd_clientID = 0, wd_accumulator = NewStatistics,
            wd_next = 0, wd_now = now, wd_random = random, wd_effects = []\<rparr>,
         sw_conns = (\<lambda>_. NewServerConnection now [] None), sw_next = 0, sw_primary = None, sw_connections = [],
         sw_policies = [], sw_configured = [], sw_tcpFlags = 0, sw_auxPort = 0,
         sw_search = \<lparr>srch_active = None, srch_next = 0\<rparr>\<rparr>,
      se_nextTransfer = 0, se_diskTasks = [], se_diskResults = [], se_diskWorkers = [], se_nextTask = 0,
      se_listener = False, se_incoming = []\<rparr>"

definition ConfigureSession :: "Settings \<Rightarrow> Session \<Rightarrow> Session" where
  "ConfigureSession st s = upd_peers (\<lambda>w. w\<lparr>wd_settings := st\<rparr>) s"

section \<open>Listening\<close>

text \<open>What binding the port gives: an error, or the port that the socket has.\<close>

definition Listen :: "string + int \<Rightarrow> Session \<Rightarrow> Session \<times> string option" where
  "Listen bound s =
     (if se_listener s \<or> set_ListenPort (wd_settings (se_world s)) < 0 then (s, None)
      else (case bound of
              Inl err \<Rightarrow> (s, Some err)
            | Inr port \<Rightarrow>
                ((upd_peers (\<lambda>w. w\<lparr>wd_settings := (wd_settings w)\<lparr>set_ListenPort := port\<rparr>\<rparr>) s)\<lparr>se_listener := True\<rparr>, None)))"

definition CloseListener :: "Session \<Rightarrow> Session" where
  "CloseListener s = s\<lparr>se_listener := False\<rparr>"

text \<open>The goroutine that accepts: a socket that finds the channel full is closed.\<close>

definition socket_accepted :: "Endpoint \<Rightarrow> Session \<Rightarrow> Session" where
  "socket_accepted remote s =
     (if length (se_incoming s) < 32 then s\<lparr>se_incoming := se_incoming s @ [remote]\<rparr> else s)"

text \<open>The port of the DHT tracker, if there is one.\<close>

definition SyncDHTListenPort :: "int option \<Rightarrow> Session \<Rightarrow> Session" where
  "SyncDHTListenPort tracker s =
     (case tracker of
        None \<Rightarrow> s
      | Some port \<Rightarrow>
          if port > 0 then upd_peers (\<lambda>w. w\<lparr>wd_settings := (wd_settings w)\<lparr>set_UDPPort := port\<rparr>\<rparr>) s else s)"

definition GetUDPPort :: "int option \<Rightarrow> Session \<Rightarrow> int" where
  "GetUDPPort tracker s =
     (case tracker of
        Some port \<Rightarrow> if port > 0 then port else set_UDPPort (wd_settings (se_world s))
      | None \<Rightarrow> set_UDPPort (wd_settings (se_world s)))"

section \<open>The disk queue\<close>

text \<open>The queue with the transfers it works on.\<close>

definition disk_of :: "Session \<Rightarrow> DiskSession" where
  "disk_of s =
     \<lparr>ds_diskTasks = se_diskTasks s, ds_diskResults = se_diskResults s, ds_workers = se_diskWorkers s,
      ds_fresh = se_nextTask s, ds_transfers = wd_transfers (se_world s), ds_log = []\<rparr>"

definition put_disk :: "DiskSession \<Rightarrow> Session \<Rightarrow> Session" where
  "put_disk d s =
     (upd_peers (\<lambda>w. w\<lparr>wd_transfers := ds_transfers d\<rparr>) s)
       \<lparr>se_diskTasks := ds_diskTasks d, se_diskResults := ds_diskResults d, se_diskWorkers := ds_workers d,
        se_nextTask := ds_fresh d\<rparr>"

text \<open>
  What else a completed task asks for. The tasks are already in the queue.
\<close>

definition log_effect :: "(bytes \<Rightarrow> bytes) \<Rightarrow> nat \<times> effect \<Rightarrow> Session \<Rightarrow> Session" where
  "log_effect toLower e s =
     (case snd e of
        SubmitTask call \<Rightarrow> s
      | CloseConn c ec \<Rightarrow> upd_peers (close_conn ec c) s
      | PublishToServer \<Rightarrow> upd_servers (PublishTransferToServer toLower (fst e)) s)"

definition put_logged :: "(bytes \<Rightarrow> bytes) \<Rightarrow> DiskSession \<Rightarrow> Session \<Rightarrow> Session" where
  "put_logged toLower d s = fold (log_effect toLower) (ds_log d) (put_disk d s)"

text \<open>
  The tasks that operations of peers and transfers noted join the queue, in their order; only
  \<open>processDiskTasks\<close> looks at it.
\<close>

fun submit_noted :: "(nat \<times> effect) list \<Rightarrow> DiskSession \<Rightarrow> DiskSession" where
  "submit_noted [] d = d"
| "submit_noted ((t, SubmitTask call) # es) d = submit_noted es (SubmitDiskTask t call d)"
| "submit_noted ((t, e) # es) d = submit_noted es d"

definition take_noted :: "Session \<Rightarrow> Session" where
  "take_noted s =
     upd_peers (\<lambda>w. w\<lparr>wd_effects := []\<rparr>) (put_disk (submit_noted (wd_effects (se_world s)) (disk_of s)) s)"

fun session_results :: "(bytes \<Rightarrow> bytes) \<Rightarrow> nat \<Rightarrow> Session \<Rightarrow> Session option" where
  "session_results toLower 0 s = Some s"
| "session_results toLower (Suc n) s =
     take_result (disk_of s) \<bind> (\<lambda>d. session_results toLower n (put_logged toLower d s))"

text \<open>A goroutine finishes its task; this happens at any time.\<close>

definition session_worker :: "io \<Rightarrow> nat \<Rightarrow> Session \<Rightarrow> Session option" where
  "session_worker io k s = map_option (\<lambda>d. put_disk d s) (worker_done io k (disk_of s))"

text \<open>With \<open>fast\<close>, the goroutine that works finishes before the results are looked at.\<close>

definition session_processDiskTasks :: "(bytes \<Rightarrow> bytes) \<Rightarrow> io option \<Rightarrow> Session \<Rightarrow> Session option" where
  "session_processDiskTasks toLower fast s =
     (let s = take_noted s; s = put_disk (start_next (disk_of s)) s
      in (case fast of
            Some io \<Rightarrow> if se_diskWorkers s = [] then Some s else session_worker io 0 s
          | None \<Rightarrow> Some s) \<bind>
         (\<lambda>s. session_results toLower (length (se_diskResults s)) s))"

section \<open>Adding and finding transfers\<close>

text \<open>\<open>file\<close> is the name of an open file and what it holds.\<close>

definition NewAddTransferParamsFromFile :: "hash \<Rightarrow> int \<Rightarrow> int \<Rightarrow> (string \<times> bytes option) option \<Rightarrow> bool \<Rightarrow> AddTransferParams" where
  "NewAddTransferParamsFromFile h createTime fsize file paused =
     \<lparr>atp_Hash = h, atp_CreateTime = createTime, atp_Size = fsize,
      atp_FilePath = (case file of None \<Rightarrow> [] | Some (name, _) \<Rightarrow> name), atp_Paused = paused, atp_ResumeData = None,
      atp_Handler = map_option (\<lambda>(name, content). NewDesktopFileHandler name content) file\<rparr>"

definition NewAddTransferParamsFromHandler :: "hash \<Rightarrow> int \<Rightarrow> int \<Rightarrow> FileHandler option \<Rightarrow> bool \<Rightarrow> AddTransferParams" where
  "NewAddTransferParamsFromHandler h createTime fsize handler paused =
     \<lparr>atp_Hash = h, atp_CreateTime = createTime, atp_Size = fsize,
      atp_FilePath = (case handler of None \<Rightarrow> [] | Some f \<Rightarrow> fh_path f), atp_Paused = paused, atp_ResumeData = None,
      atp_Handler = handler\<rparr>"

definition SetExternalFileHandler :: "FileHandler option \<Rightarrow> AddTransferParams \<Rightarrow> AddTransferParams" where
  "SetExternalFileHandler handler a =
     (case handler of
        None \<Rightarrow> a\<lparr>atp_Handler := None\<rparr>
      | Some f \<Rightarrow> a\<lparr>atp_Handler := Some f, atp_FilePath := fh_path f\<rparr>)"

text \<open>
  The transfer is made without the lock held, then entered under its hash unless another has
  been entered meanwhile. \<open>disk\<close> is the file at the path, \<open>rnd\<close> are random positions.
\<close>

definition create_transfer :: "bytes option \<Rightarrow> (nat \<Rightarrow> int) \<Rightarrow> AddTransferParams \<Rightarrow> Session \<Rightarrow> (Session \<times> nat) option" where
  "create_transfer disk rnd atp s =
     map_option
       (\<lambda>(tr, effs). let t = se_nextTransfer s
          in ((upd_peers (with_effects t (tr, effs)) s)\<lparr>se_nextTransfer := Suc t\<rparr>, t))
       (NewTransfer disk rnd atp)"

definition enter_transfer :: "hash \<Rightarrow> nat \<Rightarrow> Session \<Rightarrow> Session \<times> nat" where
  "enter_transfer h t s =
     (case LookupTransfer h (se_world s) of
        Some existing \<Rightarrow> (s, existing)
      | None \<Rightarrow> (upd_peers (\<lambda>w. w\<lparr>wd_byHash := AList.update h t (wd_byHash w)\<rparr>) s, t))"

definition session_AddTransferParams :: "bytes option \<Rightarrow> (nat \<Rightarrow> int) \<Rightarrow> AddTransferParams \<Rightarrow> Session \<Rightarrow> (Session \<times> nat) option" where
  "session_AddTransferParams disk rnd atp s =
     (case LookupTransfer (atp_Hash atp) (se_world s) of
        Some t \<Rightarrow> Some (s, t)
      | None \<Rightarrow> map_option (\<lambda>(s, t). enter_transfer (atp_Hash atp) t s) (create_transfer disk rnd atp s))"

definition AddTransferWithHandler :: "(nat \<Rightarrow> int) \<Rightarrow> int \<Rightarrow> hash \<Rightarrow> int \<Rightarrow> FileHandler option \<Rightarrow> Session \<Rightarrow> (Session \<times> nat) option" where
  "AddTransferWithHandler rnd nowMillis h fsize handler s =
     session_AddTransferParams None rnd (NewAddTransferParamsFromHandler h nowMillis fsize handler False) s"

definition session_AddTransfer :: "(nat \<Rightarrow> int) \<Rightarrow> int \<Rightarrow> hash \<Rightarrow> int \<Rightarrow> (string \<times> bytes option) option \<Rightarrow> Session \<Rightarrow> (Session \<times> nat) option" where
  "session_AddTransfer rnd nowMillis h fsize file s =
     session_AddTransferParams None rnd (NewAddTransferParamsFromFile h nowMillis fsize file False) s"

definition session_RemoveTransfer :: "hash \<Rightarrow> bool \<Rightarrow> Session \<Rightarrow> Session" where
  "session_RemoveTransfer h deleteFile s = upd_peers (RemoveTransfer h deleteFile) s"

section \<open>Handles\<close>

text \<open>A handle points to a transfer, or to none; every method of one without a transfer does nothing.\<close>

type_synonym handle = "nat option"

definition FindTransfer :: "hash \<Rightarrow> Session \<Rightarrow> handle" where
  "FindTransfer h s = LookupTransfer h (se_world s)"

definition GetTransfers :: "Session \<Rightarrow> handle list" where
  "GetTransfers s = map (\<lambda>(h, t). Some t) (wd_byHash (se_world s))"

definition h_IsValid :: "handle \<Rightarrow> bool" where "h_IsValid h \<longleftrightarrow> h \<noteq> None"

definition h_read :: "'a \<Rightarrow> (nat \<Rightarrow> World \<Rightarrow> 'a) \<Rightarrow> handle \<Rightarrow> Session \<Rightarrow> 'a" where
  "h_read none f h s = (case h of None \<Rightarrow> none | Some t \<Rightarrow> f t (se_world s))"

definition h_GetHash :: "handle \<Rightarrow> Session \<Rightarrow> hash" where
  "h_GetHash = h_read Invalid (\<lambda>t w. t_hash (wd_transfers w t))"

definition h_GetCreateTime :: "handle \<Rightarrow> Session \<Rightarrow> int" where
  "h_GetCreateTime = h_read 0 (\<lambda>t w. t_createTime (wd_transfers w t))"

definition h_GetSize :: "handle \<Rightarrow> Session \<Rightarrow> int" where
  "h_GetSize = h_read 0 (\<lambda>t w. t_size (wd_transfers w t))"

definition h_GetFilePath :: "handle \<Rightarrow> Session \<Rightarrow> string" where
  "h_GetFilePath = h_read [] (\<lambda>t w. GetFilePath (wd_transfers w t))"

definition h_IsPaused :: "handle \<Rightarrow> Session \<Rightarrow> bool" where
  "h_IsPaused = h_read False (\<lambda>t w. t_pause (wd_transfers w t))"

definition h_IsResumed :: "handle \<Rightarrow> Session \<Rightarrow> bool" where
  "h_IsResumed h s \<longleftrightarrow> \<not> h_IsPaused h s"

definition h_IsFinished :: "handle \<Rightarrow> Session \<Rightarrow> bool" where
  "h_IsFinished = h_read False (\<lambda>t w. t_IsFinished (wd_transfers w t))"

definition h_NeedResumeDataSave :: "handle \<Rightarrow> Session \<Rightarrow> bool" where
  "h_NeedResumeDataSave = h_read False (\<lambda>t w. t_needSaveResumeData (wd_transfers w t))"

definition h_ActiveConnections :: "handle \<Rightarrow> Session \<Rightarrow> nat" where
  "h_ActiveConnections = h_read 0 ActiveConnections"

definition h_Pause :: "handle \<Rightarrow> Session \<Rightarrow> Session" where
  "h_Pause h s =
     (case h of
        None \<Rightarrow> s
      | Some t \<Rightarrow>
          upd_peers (\<lambda>w. let (tr, effs) = PauseWithDisconnect (wd_transfers w t)
                         in fold apply_close effs (upd_transfer t (\<lambda>_. tr) w)) s)"

definition h_Resume :: "handle \<Rightarrow> Session \<Rightarrow> Session" where
  "h_Resume h s = (case h of None \<Rightarrow> s | Some t \<Rightarrow> upd_peers (upd_transfer t ResumeWithState) s)"

text \<open>Asking for the resume data clears the mark that they need saving. \<open>None\<close> is a panic.\<close>

definition h_GetResumeData :: "handle \<Rightarrow> Session \<Rightarrow> (Session \<times> TransferResumeData option) option" where
  "h_GetResumeData h s =
     (case h of
        None \<Rightarrow> Some (s, None)
      | Some t \<Rightarrow>
          (case t_ResumeData (wd_transfers (se_world s) t) of
             Inl e \<Rightarrow> None
           | Inr (tr, rd) \<Rightarrow> Some (upd_peers (upd_transfer t (\<lambda>_. tr)) s, Some rd)))"

section \<open>The tick\<close>

text \<open>
  What the outside does during a tick: sockets, whether the DHT starts a search for sources of a
  transfer when a server logs in and when the transfer ticks, what dialling servers and peers
  gives, the reads of files for uploads, and whether a goroutine finishes its disk task at once.
\<close>

record Outside =
  ou_io :: IO
  ou_dhtLogin :: "nat \<Rightarrow> bool"
  ou_dhtTick :: "nat \<Rightarrow> bool"
  ou_dialServer :: "nat \<Rightarrow> string option"
  ou_dialPeer :: network
  ou_read :: "nat \<Rightarrow> io"
  ou_disk :: "io option"

definition session_PumpIO :: "(bytes \<Rightarrow> bytes result) \<Rightarrow> (bytes \<Rightarrow> bytes) \<Rightarrow> Outside \<Rightarrow> Session \<Rightarrow> Session option" where
  "session_PumpIO inflate toLower ou s =
     put_servers (s\<lparr>se_incoming := []\<rparr>)
       (PumpIO inflate toLower (ou_dhtLogin ou) ((ou_io ou)\<lparr>io_accepted := se_incoming s\<rparr>) (se_servers s))"

text \<open>Whether the tick of a transfer asks the servers for sources, with the time brought forward when there are few peers.\<close>

definition sources_due :: "nat \<Rightarrow> World \<Rightarrow> bool" where
  "sources_due t w \<longleftrightarrow>
     NeedMoreSources t w \<and>
     (let now = wd_now w; tr = wd_transfers w t;
          few = (ActiveConnections t w \<le> 1 \<and> NumConnectCandidates (t_IsFinished tr) (t_policy tr) \<le> 1)
      in (if few \<and> t_nextSourcesRequest tr > now + Seconds 5 then now else t_nextSourcesRequest tr) \<le> now)"

definition tick_transfer :: "(nat \<Rightarrow> bool) \<Rightarrow> int \<Rightarrow> nat \<Rightarrow> ServerWorld \<Rightarrow> ServerWorld option" where
  "tick_transfer dht ms t w =
     (let tr = wd_transfers (sw_world w) t;
          (w, sent) = (if sources_due t (sw_world w) then SendSourcesRequest (t_hash tr) (t_size tr) w else (w, False))
      in map_option (\<lambda>x. w\<lparr>sw_world := x\<rparr>) (t_SecondTick sent (dht t) ms t (sw_world w)))"

fun tick_transfers :: "(nat \<Rightarrow> bool) \<Rightarrow> int \<Rightarrow> nat list \<Rightarrow> ServerWorld \<Rightarrow> ServerWorld option" where
  "tick_transfers dht ms [] w = Some w"
| "tick_transfers dht ms (t # ts) w = tick_transfer dht ms t w \<bind> tick_transfers dht ms ts"

fun tick_servers :: "int \<Rightarrow> nat list \<Rightarrow> ServerWorld \<Rightarrow> ServerWorld option" where
  "tick_servers ms [] w = Some w"
| "tick_servers ms (i # is) w =
     sv_SecondTick (set_ServerPingTimeout (wd_settings (sw_world w))) (wd_now (sw_world w)) ms (sw_conns w i) \<bind>
     (\<lambda>c. tick_servers ms is (upd_server i (\<lambda>_. c) w))"

text \<open>The transfers of the session, in the order in which the map delivers them.\<close>

definition snapshotTransfers :: "World \<Rightarrow> nat list" where
  "snapshotTransfers w = map snd (wd_byHash w)"

definition tick_network :: "Outside \<Rightarrow> int \<Rightarrow> int \<Rightarrow> ServerWorld \<Rightarrow> ServerWorld option" where
  "tick_network ou now ms w =
     tick_transfers (ou_dhtTick ou) ms (snapshotTransfers (sw_world w)) w \<bind>
     (\<lambda>w. tick_servers ms (activeServerConnections w) w) \<bind>
     (\<lambda>w. if set_ReconnectToServer (wd_settings (sw_world w)) then connectConfiguredServers (ou_dialServer ou) now w else Some w) \<bind>
     (\<lambda>w. map_option (\<lambda>x. w\<lparr>sw_world := x, sw_search := tickSearches now (sw_search w)\<rparr>) (uq_Process (ou_read ou) (sw_world w)))"

definition tick_counters :: "int \<Rightarrow> World \<Rightarrow> World option" where
  "tick_counters ms w = map_option (\<lambda>a. w\<lparr>wd_accumulator := a\<rparr>) (st_SecondTick ms (wd_accumulator w))"

definition before_dialling ::
  "(bytes \<Rightarrow> bytes result) \<Rightarrow> (bytes \<Rightarrow> bytes) \<Rightarrow> Outside \<Rightarrow> int \<Rightarrow> int \<Rightarrow> Session \<Rightarrow> Session option" where
  "before_dialling inflate toLower ou now ms s =
     session_PumpIO inflate toLower ou s \<bind>
     (\<lambda>s. put_servers s (tick_network ou now ms (se_servers s))) \<bind>
     session_processDiskTasks toLower (ou_disk ou) \<bind>
     (\<lambda>s. put_peers s (tick_counters ms (se_world s)))"

text \<open>\<open>Some None\<close> is a panic, \<open>None\<close> a loop of \<open>ConnectNewPeers\<close> that does not end.\<close>

definition SecondTick ::
  "(bytes \<Rightarrow> bytes result) \<Rightarrow> (bytes \<Rightarrow> bytes) \<Rightarrow> Outside \<Rightarrow> int \<Rightarrow> int \<Rightarrow> Session \<Rightarrow> Session option option" where
  "SecondTick inflate toLower ou now ms s =
     (case before_dialling inflate toLower ou now ms s of
        None \<Rightarrow> Some None
      | Some s \<Rightarrow> map_option (put_peers s) (ConnectNewPeers (ou_dialPeer ou) (snapshotTransfers (se_world s)) (se_world s)))"

end
