(* ===== verification/Session_Invariant.thy ===== *)
theory Session_Invariant
  imports Whole_Session Server_Properties Peer_Properties
begin

text \<open>
  What holds of a whole session in every state it can reach: the parts that \<open>SecondTick\<close> drives in
  turn - servers, transfers, the upload queue, the disk queue, dialling - keep each other's
  invariants, whatever sockets, disk goroutines and commands of the user interleave with ticks.
\<close>

section \<open>Peers and transfers under the operations of servers\<close>

definition good :: "World \<Rightarrow> World \<Rightarrow> bool" where
  "good w w' \<longleftrightarrow> (world_ok w \<longrightarrow> world_ok w') \<and> wd_byHash w' = wd_byHash w"

lemma good_refl [simp]: "good w w"
  by (simp add: good_def)

lemma good_trans: "good u v \<Longrightarrow> good v w \<Longrightarrow> good u w"
  by (simp add: good_def)

lemma goodI:
  "wd_next w' = wd_next w \<Longrightarrow> wd_connections w' = wd_connections w \<Longrightarrow> wd_queue w' = wd_queue w \<Longrightarrow>
     (\<And>d. state_of w' d = state_of w d) \<Longrightarrow> (\<And>d. rank_of w' d = rank_of w d) \<Longrightarrow> wd_byHash w' = wd_byHash w \<Longrightarrow> good w w'"
  by (auto simp: good_def elim: session_cong)

lemma byHash_frame [simp]:
  "wd_byHash (upd_transfer t f w) = wd_byHash w" "wd_byHash (upd_conn c g w) = wd_byHash w"
  "wd_byHash (upd_queue h w) = wd_byHash w" "wd_byHash (note_effects t effs w) = wd_byHash w"
  "wd_byHash (with_effects t r w) = wd_byHash w" "wd_byHash (snd (next_random w)) = wd_byHash w"
  "wd_byHash (send_packet c p w) = wd_byHash w" "wd_byHash (close_conn ec c w) = wd_byHash w"
  "wd_byHash (touch_credits w) = wd_byHash w"
  by (simp_all add: upd_transfer_def upd_conn_def upd_queue_def note_effects_def with_effects_def next_random_def
      send_packet_def close_conn_def touch_credits_def Let_def)

lemma good_simple [simp]:
  "good w (upd_transfer t f w)" "good w (w\<lparr>wd_clientID := cid\<rparr>)" "good w (snd (next_random w))"
  "good w (w\<lparr>wd_transfers := ts\<rparr>)" "good w (w\<lparr>wd_effects := es\<rparr>)" "good w (w\<lparr>wd_settings := st\<rparr>)"
  "good w (w\<lparr>wd_now := n\<rparr>)" "good w (w\<lparr>wd_accumulator := a\<rparr>)" "good w (note_effects t effs w)"
  by (rule goodI; simp)+

lemma good_close [simp]: "good w (close_conn ec c w)"
  by (rule goodI) (simp_all add: close_conn_def co_Close_def)

text \<open>Servers.\<close>

lemma good_set_identity [simp]: "good (sw_world w) (sw_world (set_identity a b c w))"
  by (simp add: set_identity_def)

lemma world_of [simp]:
  "sw_world (promotePrimaryServer sc w) = sw_world w" "sw_world (upd_world f w) = f (sw_world w)"
  by (simp_all add: promotePrimaryServer_def upd_world_def split: option.split)

lemma good_refresh [simp]: "good (sw_world w) (sw_world (refreshPrimaryServerIdentity w))"
proof -
  have "good (sw_world w) (sw_world (identity_of i v))" if "sw_world v = sw_world w" for i v
    using good_set_identity [of v] that by (simp add: identity_of_def Let_def)
  then show ?thesis by (simp add: refreshPrimaryServerIdentity_def split: option.split)
qed

lemma world_policy: "upd_policy k f w = Some w' \<Longrightarrow> sw_world w' = sw_world w"
  by (auto simp: upd_policy_def ensureServerConnectionPolicy_def Let_def split: if_splits option.splits)

lemma good_closed: "OnServerConnectionClosed i ec w = Some w' \<Longrightarrow> good (sw_world w) (sw_world w')"
proof -
  have policy: "\<exists>u. sw_world u = sw_world v \<and> w' = f u"
    if "map_option f (if b then upd_policy k g v else Some v) = Some w'" for b k g v and f :: "ServerWorld \<Rightarrow> ServerWorld"
    using that world_policy [of k g v] by (cases b) auto
  assume "OnServerConnectionClosed i ec w = Some w'"
  note policy [OF this [unfolded OnServerConnectionClosed_def Let_def]]
  then obtain u where "sw_world u = sw_world w"
    "w' = refreshPrimaryServerIdentity (promotePrimaryServer None (if sw_primary u = Some i then u\<lparr>sw_primary := None\<rparr> else u))"
    by auto
  with good_refresh [of "promotePrimaryServer None (if sw_primary u = Some i then u\<lparr>sw_primary := None\<rparr> else u)"]
  show ?thesis by (simp split: if_splits)
qed

lemma good_end_server: "end_server i w = Some w' \<Longrightarrow> good (sw_world w) (sw_world w')"
  by (auto simp: end_server_def sv_OnDisconnect_def Let_def dest!: good_closed split: if_splits)

lemma good_add_sources: "add_sources t flag eps x = Some x' \<Longrightarrow> good x x'"
proof (induction t flag eps x rule: add_sources.induct)
  case (2 t flag ep eps x)
  obtain rnd y where y: "next_random x = (rnd, y)" by (rule prod.exhaust)
  with 2(2) obtain tr e where tr: "t_AddPeer rnd ep flag (wd_transfers y t) = Some (tr, e)"
    "add_sources t flag eps (upd_transfer t (\<lambda>_. tr) y) = Some x'" by (auto split: option.splits)
  have "good x y" using good_simple(3) [of x] y by simp
  with good_simple(1) [of y t] good_trans 2(1) [OF y [symmetric] refl tr(1) refl tr(2)] show ?case by blast
qed simp

lemma to_servers_world [simp]: "sw_world (fst (to_servers f w)) = sw_world w"
  by (rule to_servers_conns)

lemma good_RequestSourcesNow: "good (sw_world w) (sw_world (fst (RequestSourcesNow dht t w)))"
proof -
  let ?tr = "wd_transfers (sw_world w) t" and ?w = "upd_world (upd_transfer t ForceSourceDiscoveryNow) w"
  obtain v sent where v: "SendSourcesRequest (t_hash ?tr) (t_size ?tr) ?w = (v, sent)" by (rule prod.exhaust)
  then have "sw_world v = sw_world ?w" using to_servers_world [of "SendFileSourcesRequest (t_hash ?tr) (t_size ?tr)" ?w]
    by (simp add: SendSourcesRequest_def)
  then have "good (sw_world w) (sw_world v)" by simp
  with v show ?thesis by (auto simp: RequestSourcesNow_def Let_def intro: good_trans)
qed

lemma good_requests: "good (sw_world w) (sw_world (fold (\<lambda>t w. fst (RequestSourcesNow (dht t) t w)) ts w))"
proof (induction ts arbitrary: w)
  case (Cons t ts)
  show ?case using good_trans [OF good_RequestSourcesNow Cons.IH] by simp
qed simp

lemma good_login: "good (sw_world w) (sw_world (sv_OnServerIDChange toLower dht i cid fl ap w))"
proof -
  have "good (sw_world v) (sw_world (login_identity i cid fl ap v))" for v
    using good_set_identity [of "v\<lparr>sw_primary := Some i\<rparr>"] by (simp add: login_identity_def Let_def)
  then have id: "good (sw_world w) (sw_world (login_identity i cid fl ap (upd_server i f w)))" for f
    by (metis upd_server_fields(5))
  have "good (sw_world w) (sw_world (session_OnServerIDChange toLower dht i cid fl ap (upd_server i f w)))" for f
    using id [of f] by (auto simp: session_OnServerIDChange_def Let_def split: option.split intro: good_trans [OF _ good_requests])
  then show ?thesis by (simp add: sv_OnServerIDChange_def)
qed

lemma good_handle_server: "handle_server toLower dht i p w = Some w' \<Longrightarrow> good (sw_world w) (sw_world w')"
  by (cases p) (auto simp: handle_server_def good_login dest: good_add_sources split: option.splits prod.splits)

lemma good_handle_all: "handle_all toLower dht i ps w = Some w' \<Longrightarrow> good (sw_world w) (sw_world w')"
proof (induction toLower dht i ps w rule: handle_all.induct)
  case (3 toLower dht i header x ps w)
  then obtain v where v: "handle_server toLower dht i x w = Some v" "handle_all toLower dht i ps v = Some w'"
    by (auto split: Option.bind_splits)
  from good_trans [OF good_handle_server [OF v(1)] 3(1) [OF v]] show ?case .
qed simp_all

lemma good_pump_server: "pump_server inflate toLower dht wr rd i w = Some w' \<Longrightarrow> good (sw_world w) (sw_world w')"
proof -
  have read: "good (sw_world v) (sw_world u)" if "sv_ProcessIncoming inflate toLower dht i v = Some (u, e)" for u v e
    using that by (auto simp: sv_ProcessIncoming_def Let_def split: prod.splits option.splits dest: good_handle_all)
  assume "pump_server inflate toLower dht wr rd i w = Some w'"
  then show ?thesis
    by (auto simp: pump_server_def Let_def split: if_splits Option.bind_splits
        dest!: read good_end_server intro: good_trans)
qed


lemma good_pump_servers:
  "pump_servers inflate toLower dht wr rd is w = Some w' \<Longrightarrow> good (sw_world w) (sw_world w')"
proof (induction inflate toLower dht wr rd "is" w rule: pump_servers.induct)
  case (2 inflate toLower dht wr rd i "is" w)
  then obtain v where v: "pump_server inflate toLower dht (wr i) (rd i) i w = Some v"
    "pump_servers inflate toLower dht wr rd is v = Some w'" by (auto split: Option.bind_splits)
  from good_trans [OF good_pump_server [OF v(1)] 2(1) [OF v]] show ?case .
qed simp

lemma world_sv_Connect [simp]: "sw_world (fst (sv_Connect dial i w)) = sw_world w"
  by (simp add: sv_Connect_def Let_def split: option.split prod.split)

lemma world_add_server [simp]: "sw_world (add_server key identifier address w) = sw_world w"
  by (simp add: add_server_def Let_def)

lemma world_ConnectTo: "ConnectTo dial identifier address w = Some (w', err) \<Longrightarrow> sw_world w' = sw_world w"
proof -
  have fst: "sv_Connect dial i v = (u, e) \<Longrightarrow> sw_world u = sw_world v" for i v u e
    using world_sv_Connect [of dial i v] by simp
  show "ConnectTo dial identifier address w = Some (w', err) \<Longrightarrow> sw_world w' = sw_world w"
    by (auto simp: ConnectTo_def Let_def split: option.splits if_splits dest!: fst world_policy)
qed

lemma good_DisconnectFrom [simp]: "good (sw_world w) (sw_world (DisconnectFrom w))"
  by (simp add: DisconnectFrom_def Let_def set_identity_def fold_upd_world)

lemma world_configured: "connectConfiguredServers dial now w = Some w' \<Longrightarrow> sw_world w' = sw_world w"
proof -
  have one: "sw_world u = sw_world v" if "connect_configured d n k v = Some u" for d n k u v
    using that by (auto simp: connect_configured_def ensureServerConnectionPolicy_def Let_def
        split: if_splits option.splits prod.splits)
  have "connect_all dial now ids w = Some w' \<Longrightarrow> sw_world w' = sw_world w" for ids
    by (induction dial now ids w rule: connect_all.induct) (auto split: Option.bind_splits dest: one)
  then show "connectConfiguredServers dial now w = Some w' \<Longrightarrow> sw_world w' = sw_world w"
    by (simp add: connectConfiguredServers_def)
qed

lemma world_search [simp]: "sw_world (fst (session_StartSearch toLower tracker params w)) = sw_world w"
  by (simp add: session_StartSearch_def sendSearchRequest_def Let_def split: prod.split)
    (metis fst_conv to_servers_world)

lemma world_publish [simp]: "sw_world (PublishTransferToServer toLower t w) = sw_world w"
  by (simp add: PublishTransferToServer_def Let_def split: option.split)

section \<open>Rounds of peers keep the table of transfers\<close>

lemma byHash_queue [simp]:
  "wd_byHash (recomputeRanks w) = wd_byHash w" "wd_byHash (sortWaiting w) = wd_byHash w"
proof -
  have "wd_byHash (assign_ranks n xs w) = wd_byHash w" for n xs w
    by (induction n xs w rule: assign_ranks.induct) simp_all
  then show ranks: "wd_byHash (recomputeRanks w) = wd_byHash w" for w by (simp add: recomputeRanks_def)
  show "wd_byHash (sortWaiting w) = wd_byHash w" by (simp add: sortWaiting_def ranks Let_def)
qed

lemma byHash_lists [simp]:
  "wd_byHash (fst (RemoveFromWaitingQueue c w)) = wd_byHash w"
  "wd_byHash (fst (RemoveFromUploadQueue c w)) = wd_byHash w"
  "wd_byHash (grant c w) = wd_byHash w" "wd_byHash (enqueue c w) = wd_byHash w"
proof -
  show waiting: "wd_byHash (fst (RemoveFromWaitingQueue c w)) = wd_byHash w" for w
    by (simp add: RemoveFromWaitingQueue_def Let_def)
  obtain v b where v: "RemoveFromWaitingQueue c
      (if IsUploading w c then upd_queue (\<lambda>q. q\<lparr>uq_uploading := remove1 c (uq_uploading q)\<rparr>) w else w) = (v, b)"
    by fastforce
  show "wd_byHash (fst (RemoveFromUploadQueue c w)) = wd_byHash w"
    using waiting [of "if IsUploading w c then upd_queue (\<lambda>q. q\<lparr>uq_uploading := remove1 c (uq_uploading q)\<rparr>) w else w"] v
    by (simp add: RemoveFromUploadQueue_def Let_def split: if_splits)
  show "wd_byHash (grant c w) = wd_byHash w" by (simp add: grant_def SendAcceptUpload_def Let_def)
  show "wd_byHash (enqueue c w) = wd_byHash w" by (simp add: enqueue_def SendQueueRanking_def Let_def)
qed

lemma byHash_next: "next_client cs w = (w', r) \<Longrightarrow> wd_byHash w' = wd_byHash w"
  by (induction cs w rule: next_client.induct) (auto split: if_splits)

lemma byHash_addUp [simp]: "wd_byHash (addUpNextClient d w) = wd_byHash w"
  by (auto simp: addUpNextClient_def dest: byHash_next split: option.split prod.split)

lemma byHash_AddClient [simp]: "wd_byHash (AddClientToQueue c w) = wd_byHash w"
  by (simp add: AddClientToQueue_def Let_def SendQueueRanking_def SendAcceptUpload_def split: option.split)

interpretation table: round_steps "\<lambda>w w'. wd_byHash w' = wd_byHash w" c for c
  by unfold_locales simp_all


lemma good_pump_connections:
  "pump_connections inflate wr rd cs w = Some w' \<Longrightarrow> world_ok w \<Longrightarrow> \<forall>c \<in> set cs. c < wd_next w \<Longrightarrow> good w w'"
proof (induction inflate wr rd cs w arbitrary: w' rule: pump_connections.induct)
  case (2 inflate wr rd c cs w)
  then obtain v where v: "pump_connection inflate (wr c) (rd c) c w = Some v" "pump_connections inflate wr rd cs v = Some w'"
    by (auto split: Option.bind_splits)
  note m = session.pump_R [OF v(1)]
  have ok: "world_ok v" using moves_ok [OF m 2(3)] 2(4) by simp
  then have "good w v" using table.pump_R [OF v(1)] by (simp add: good_def)
  moreover have "good v w'" using 2(1) [OF v ok] 2(4) by (simp add: moves_next [OF m])
  ultimately show ?case by (rule good_trans)
qed simp

lemma good_accept: "good w (acceptIncomingConnections remotes w)"
proof -
  have "wd_byHash (acceptIncomingConnections remotes w) = wd_byHash w" for w
    unfolding acceptIncomingConnections_def by (induction remotes arbitrary: w) (simp_all add: accept_def Let_def)
  then show ?thesis using session_accept by (simp add: good_def)
qed

lemma good_tick: "t_SecondTick server dht ms t w = Some w' \<Longrightarrow> good w w'"
proof -
  have conns: "tick_connections ms cs w = Some w' \<Longrightarrow> wd_byHash w' = wd_byHash w" for cs w w'
    by (induction ms cs w rule: tick_connections.induct) (auto split: option.splits)
  have "wd_byHash (look_for_sources server dht t w) = wd_byHash w" by (simp add: look_for_sources_def Let_def)
  then show "t_SecondTick server dht ms t w = Some w' \<Longrightarrow> good w w'"
    using session_tick [of server dht ms t w w']
    by (auto simp: good_def t_SecondTick_def Let_def refreshStats_def dest!: conns)
qed

lemma good_Process: "uq_Process io w = Some w' \<Longrightarrow> good w w'"
proof -
  have serve: "serve_clients io cs w = Some w' \<Longrightarrow> wd_byHash w' = wd_byHash w" for cs w w'
    by (induction io cs w rule: serve_clients.induct) (auto split: Option.bind_splits dest: table.serve_client_R)
  have "wd_byHash (open_slot w) = wd_byHash w" by (simp add: open_slot_def Let_def)
  then show "uq_Process io w = Some w' \<Longrightarrow> good w w'"
    using session_Process [of io w w'] by (auto simp: good_def uq_Process_def Let_def split: Option.bind_splits dest!: serve)
qed

lemma good_dial: "TryConnectPeer net t w = Some (w', new) \<Longrightarrow> good w w'"
proof -
  have send: "wd_byHash (fst (pn_Connect resolve dial c w)) = wd_byHash w" for resolve dial c w
    by (simp add: pn_Connect_def OnConnect_def Let_def split: option.split prod.split)
  have "wd_byHash (fst (ConnectToPeer net t i w)) = wd_byHash w" for i w
    by (auto simp: ConnectToPeer_def Let_def split: prod.split dest!: arg_cong [of "pn_Connect _ _ _ _" _ "\<lambda>r. wd_byHash (fst r)"]
        simp: send)
  then have "wd_byHash w' = wd_byHash w" if "ConnectOnePeer net t w = Some (w', new)"
    using that by (auto simp: ConnectOnePeer_def Let_def split: option.splits) (metis byHash_frame(1) fst_conv)
  then show "TryConnectPeer net t w = Some (w', new) \<Longrightarrow> good w w'"
    using session_TryConnect by (auto simp: good_def TryConnectPeer_def split: if_splits)
qed

lemma good_connect_loop:
  assumes "connect_loop net ts rest steps limit w = Some r"
  shows "case r of None \<Rightarrow> True | Some w' \<Rightarrow> good w w'"
proof (rule connect_loop.raw_induct [OF _ assms])
  fix f :: "network \<Rightarrow> nat list \<Rightarrow> nat list \<Rightarrow> nat \<Rightarrow> int \<Rightarrow> World \<Rightarrow> World option option"
    and net and ts rest :: "nat list" and steps limit w r
  assume more: "\<And>net ts rest steps limit w r. f net ts rest steps limit w = Some r \<Longrightarrow> (case r of None \<Rightarrow> True | Some w' \<Rightarrow> good w w')"
    and body: "(case rest of [] \<Rightarrow> f net ts ts steps limit w
      | t # rest \<Rightarrow> (case TryConnectPeer net t w of None \<Rightarrow> Some None
          | Some (w, new) \<Rightarrow>
              let limit = if new then limit - 1 else limit; steps = Suc (if new then 0 else steps)
              in if length ts * 2 < steps \<or> limit = 0 then Some (Some w) else f net ts rest steps limit w)) = Some r"
  show "case r of None \<Rightarrow> True | Some w' \<Rightarrow> good w w'"
  proof (cases rest)
    case Nil
    with more body show ?thesis by simp
  next
    case (Cons t rest')
    show ?thesis
    proof (cases "TryConnectPeer net t w")
      case None
      with body Cons show ?thesis by simp
    next
      case (Some x)
      then obtain v new where v: "TryConnectPeer net t w = Some (v, new)" by (cases x) auto
      have "r = Some v \<or> (\<exists>n l. f net ts rest' n l v = Some r)"
        using body Cons v by (auto simp: Let_def split: if_splits)
      with good_dial [OF v] more [of net ts rest' _ _ v r] show ?thesis by (auto split: option.splits intro: good_trans)
    qed
  qed
qed

lemma good_ConnectNewPeers: "ConnectNewPeers net ts w = Some (Some w') \<Longrightarrow> good w w'"
  using good_connect_loop [of net ts ts 0 _ w "Some w'"] by (auto simp: ConnectNewPeers_def split: if_splits)


section \<open>Sessions\<close>

definition all_ok :: "Session \<Rightarrow> bool" where
  "all_ok s \<longleftrightarrow>
     world_ok (se_world s) \<and> servers_ok (se_servers s) \<and> queue_ok (disk_of s) \<and>
     distinct (map fst (wd_byHash (se_world s))) \<and> distinct (map snd (wd_byHash (se_world s))) \<and>
     (\<forall>t \<in> snd ` set (wd_byHash (se_world s)). t < se_nextTransfer s)"

lemma all_ok_servers:
  assumes "all_ok s" "servers_ok w" "good (se_world s) (sw_world w)"
  shows "all_ok (s\<lparr>se_servers := w\<rparr>)"
proof -
  have "disk_of (s\<lparr>se_servers := w\<rparr>) = (disk_of s)\<lparr>ds_transfers := wd_transfers (sw_world w)\<rparr>" by (simp add: disk_of_def)
  then show ?thesis using assms by (simp add: all_ok_def good_def queue_ok_other)
qed

lemma servers_ok_world: "servers_ok w \<Longrightarrow> servers_ok (w\<lparr>sw_world := x\<rparr>)"
  by (rule server_step_ok [OF server_step.world])

lemma all_ok_peers: "all_ok s \<Longrightarrow> good (se_world s) (f (se_world s)) \<Longrightarrow> all_ok (upd_peers f s)"
  unfolding upd_peers_def upd_servers_def
  by (rule all_ok_servers) (simp_all add: upd_world_def servers_ok_world all_ok_def)

lemma all_ok_fields [simp]:
  "all_ok (s\<lparr>se_listener := b\<rparr>) = all_ok s" "all_ok (s\<lparr>se_incoming := q\<rparr>) = all_ok s"
  by (simp_all add: all_ok_def disk_of_def)

lemma se_world_upd [simp]:
  "se_world (upd_peers f s) = f (se_world s)" "se_world (upd_servers g s) = sw_world (g (se_servers s))"
  by (simp_all add: upd_peers_def upd_servers_def)

lemma se_fields_upd [simp]:
  "se_diskTasks (upd_peers f s) = se_diskTasks s" "se_diskResults (upd_peers f s) = se_diskResults s"
  "se_diskWorkers (upd_peers f s) = se_diskWorkers s" "se_nextTask (upd_peers f s) = se_nextTask s"
  "se_nextTransfer (upd_peers f s) = se_nextTransfer s" "se_nextTransfer (upd_servers g s) = se_nextTransfer s"
  by (simp_all add: upd_peers_def upd_servers_def)

lemma all_ok_disk:
  assumes "all_ok s" "queue_ok d"
  shows "all_ok (put_disk d s)"
proof -
  have "all_ok (upd_peers (\<lambda>w. w\<lparr>wd_transfers := ds_transfers d\<rparr>) s)"
    using assms(1) by (rule all_ok_peers) simp
  moreover have "disk_of (put_disk d s) = d\<lparr>ds_log := []\<rparr>" by (simp add: disk_of_def put_disk_def)
  ultimately show ?thesis using assms(2) by (simp add: all_ok_def put_disk_def queue_ok_other)
qed

lemma all_ok_log: "all_ok s \<Longrightarrow> all_ok (log_effect toLower e s)"
proof (cases "snd e")
  case (CloseConn c ec)
  then show "all_ok s \<Longrightarrow> all_ok (log_effect toLower e s)" by (simp add: log_effect_def all_ok_peers)
next
  case PublishToServer
  then show "all_ok s \<Longrightarrow> all_ok (log_effect toLower e s)"
    by (auto simp: log_effect_def upd_servers_def all_ok_def [of s]
        intro!: all_ok_servers server_step_ok [OF server_step.publish])
qed (simp add: log_effect_def)

lemma all_ok_logged: "all_ok s \<Longrightarrow> queue_ok d \<Longrightarrow> all_ok (put_logged toLower d s)"
proof -
  have "all_ok s \<Longrightarrow> all_ok (fold (log_effect toLower) es s)" for es s
    by (induction es arbitrary: s) (simp_all add: all_ok_log)
  then show "all_ok s \<Longrightarrow> queue_ok d \<Longrightarrow> all_ok (put_logged toLower d s)"
    by (simp add: put_logged_def all_ok_disk)
qed

lemma queue_of: "all_ok s \<Longrightarrow> queue_ok (disk_of s)"
  by (simp add: all_ok_def)

lemma all_ok_noted: "all_ok s \<Longrightarrow> all_ok (take_noted s)"
proof -
  have "queue_ok d \<Longrightarrow> queue_ok (submit_noted es d)" for es d
    by (induction es d rule: submit_noted.induct) (simp_all add: queue_ok_Submit)
  then show "all_ok s \<Longrightarrow> all_ok (take_noted s)"
    by (auto simp: take_noted_def queue_of intro!: all_ok_peers all_ok_disk)
qed

lemma all_ok_results: "session_results toLower n s = Some s' \<Longrightarrow> all_ok s \<Longrightarrow> all_ok s'"
  by (induction toLower n s rule: session_results.induct)
    (auto split: Option.bind_splits intro: all_ok_logged queue_ok_take queue_of)

lemma all_ok_worker: "session_worker io k s = Some s' \<Longrightarrow> all_ok s \<Longrightarrow> all_ok s'"
  by (auto simp: session_worker_def intro!: all_ok_disk elim: queue_ok_worker_done [OF queue_of])

lemma all_ok_tasks: "session_processDiskTasks toLower fast s = Some s' \<Longrightarrow> all_ok s \<Longrightarrow> all_ok s'"
proof -
  assume p: "session_processDiskTasks toLower fast s = Some s'" and ok: "all_ok s"
  let ?s = "put_disk (start_next (disk_of (take_noted s))) (take_noted s)"
  have "all_ok ?s" by (intro all_ok_disk all_ok_noted queue_ok_start queue_of ok)
  moreover obtain v where "(case fast of Some io \<Rightarrow> if se_diskWorkers ?s = [] then Some ?s else session_worker io 0 ?s | None \<Rightarrow> Some ?s) = Some v"
    "session_results toLower (length (se_diskResults v)) v = Some s'"
    using p by (auto simp: session_processDiskTasks_def Let_def split: Option.bind_splits)
  ultimately show ?thesis
    by (auto split: option.splits if_splits dest: all_ok_worker elim!: all_ok_results)
qed

section \<open>A round over the servers\<close>

lemma connections_after [simp]:
  "sw_connections (refreshPrimaryServerIdentity w) = sw_connections w" "sw_connections (promotePrimaryServer sc w) = sw_connections w"
  by (simp_all add: refreshPrimaryServerIdentity_def promotePrimaryServer_def set_identity_def split: option.split)

abbreviation drops :: "nat \<Rightarrow> ServerWorld \<Rightarrow> ServerWorld \<Rightarrow> bool" where
  "drops i w w' \<equiv> sw_connections w' \<in>
     {sw_connections w, AList.delete (sv_identifier (sw_conns w i)) (sw_connections w)}"

lemma end_server_drops: "end_server i w = Some w' \<Longrightarrow> drops i w w'"
  by (auto simp: end_server_def Let_def dest!: closed_shape split: if_splits)

lemma pump_server_drops: "pump_server inflate toLower dht wr rd i w = Some w' \<Longrightarrow> drops i w w'"
proof (cases "co_disconnecting (sw_conns w i)")
  case False
  let ?w = "upd_server i (\<lambda>c. fst (DoRead (wd_now (sw_world w)) rd (fst (FlushOutgoing wr c)))) w"
  assume "pump_server inflate toLower dht wr rd i w = Some w'"
  then obtain v err where v: "sv_ProcessIncoming inflate toLower dht i ?w = Some (v, err)" "end_server i v = Some w'"
    using False by (auto simp: pump_server_def Let_def split: Option.bind_splits)
  have "calm w ?w" by (rule calm_upd_server) simp
  then have "calm w v" using ProcessIncoming_frame [OF v(1)] calm_trans by blast
  with end_server_drops [OF v(2)] show ?thesis by (simp add: calm_def)
qed (auto simp: pump_server_def dest: end_server_drops)

lemma drops_keeps:
  assumes "drops i w w'" "servers_ok w" "servers_ok w'" "i \<in> set (activeServerConnections w)"
    "j \<in> set (activeServerConnections w)" "j \<noteq> i"
  shows "j \<in> set (activeServerConnections w')"
proof -
  obtain k where k: "(k, j) \<in> set (sw_connections w)" using assms(5) active_members [OF assms(2)] by auto
  obtain l where l: "(l, i) \<in> set (sw_connections w)" using assms(4) active_members [OF assms(2)] by auto
  have "k \<noteq> sv_identifier (sw_conns w i)"
    using k l assms(2,6) by (auto simp: servers_ok_def tables_ok_def dest: eq_key_imp_eq_value)
  then have "(k, j) \<in> set (sw_connections w')" using assms(1) k by (auto simp: AList.delete_eq)
  then show ?thesis using active_members [OF assms(3)] by force
qed

lemma pump_servers_ok:
  "pump_servers inflate toLower dht wr rd is w = Some w' \<Longrightarrow> servers_ok w \<Longrightarrow> distinct is \<Longrightarrow>
     set is \<subseteq> set (activeServerConnections w) \<Longrightarrow> servers_ok w'"
proof (induction inflate toLower dht wr rd "is" w rule: pump_servers.induct)
  case (2 inflate toLower dht wr rd i "is" w)
  then obtain v where v: "pump_server inflate toLower dht (wr i) (rd i) i w = Some v"
    "pump_servers inflate toLower dht wr rd is v = Some w'" by (auto split: Option.bind_splits)
  have i: "i \<in> set (activeServerConnections w)" using 2(5) by simp
  note ok = pump_ok [OF v(1) 2(3) i]
  have "set is \<subseteq> set (activeServerConnections v)"
    using drops_keeps [OF pump_server_drops [OF v(1)] 2(3) ok i] 2(4,5) by auto
  with 2(1) [OF v ok] 2(4) show ?case by simp
qed simp

lemma tick_servers_ok:
  "tick_servers ms is w = Some w' \<Longrightarrow> servers_ok w \<Longrightarrow> servers_ok w' \<and> sw_world w' = sw_world w"
proof (induction ms "is" w rule: tick_servers.induct)
  case (2 ms i "is" w)
  then obtain c where c: "sv_SecondTick (set_ServerPingTimeout (wd_settings (sw_world w))) (wd_now (sw_world w)) ms (sw_conns w i) = Some c"
    "tick_servers ms is (upd_server i (\<lambda>_. c) w) = Some w'" by (auto split: Option.bind_splits)
  have "servers_ok (upd_server i (\<lambda>_. c) w)"
    using servers_ok_same [OF 2(3) calm_set_server] identifier_tick [OF c(1)] by simp
  from 2(1) [OF c this] show ?case by simp
qed simp

lemma tick_transfer_ok:
  assumes "tick_transfer dht ms t w = Some w'" "servers_ok w"
  shows "servers_ok w' \<and> good (sw_world w) (sw_world w')"
proof -
  let ?tr = "wd_transfers (sw_world w) t"
  obtain v sent where v: "(if sources_due t (sw_world w) then SendSourcesRequest (t_hash ?tr) (t_size ?tr) w else (w, False)) = (v, sent)"
    by (rule prod.exhaust)
  have "v = w \<or> v = fst (to_servers (SendFileSourcesRequest (t_hash ?tr) (t_size ?tr)) w)"
    using v by (auto simp: SendSourcesRequest_def split: if_splits)
  then have frame: "calm w v \<and> sw_primary v = sw_primary w \<and> sw_world v = sw_world w"
    using to_servers_frame [of "SendFileSourcesRequest (t_hash ?tr) (t_size ?tr)" w] by auto
  then have "servers_ok v" by (intro servers_ok_same [OF assms(2)]) auto
  moreover obtain x where "t_SecondTick sent (dht t) ms t (sw_world v) = Some x" "w' = v\<lparr>sw_world := x\<rparr>"
    using assms(1) v by (auto simp: tick_transfer_def Let_def)
  ultimately show ?thesis using good_tick frame by (auto simp: servers_ok_world)
qed

lemma tick_transfers_ok:
  "tick_transfers dht ms ts w = Some w' \<Longrightarrow> servers_ok w \<Longrightarrow> servers_ok w' \<and> good (sw_world w) (sw_world w')"
proof (induction dht ms ts w rule: tick_transfers.induct)
  case (2 dht ms t ts w)
  then obtain v where v: "tick_transfer dht ms t w = Some v" "tick_transfers dht ms ts v = Some w'"
    by (auto split: Option.bind_splits)
  note ok = tick_transfer_ok [OF v(1) 2(3)]
  with 2(1) [OF v] good_trans show ?case by blast
qed simp

lemma tick_network_ok:
  assumes "tick_network ou now ms w = Some w'" "servers_ok w"
  shows "servers_ok w' \<and> good (sw_world w) (sw_world w')"
proof -
  obtain a b c x where steps:
    "tick_transfers (ou_dhtTick ou) ms (snapshotTransfers (sw_world w)) w = Some a"
    "tick_servers ms (activeServerConnections a) a = Some b"
    "(if set_ReconnectToServer (wd_settings (sw_world b)) then connectConfiguredServers (ou_dialServer ou) now b else Some b) = Some c"
    "uq_Process (ou_read ou) (sw_world c) = Some x" "w' = c\<lparr>sw_world := x, sw_search := tickSearches now (sw_search c)\<rparr>"
    using assms(1) by (auto simp: tick_network_def split: Option.bind_splits)
  note a = tick_transfers_ok [OF steps(1) assms(2)]
  note b = tick_servers_ok [OF steps(2)]
  have c: "servers_ok b \<Longrightarrow> servers_ok c \<and> sw_world c = sw_world b"
    using steps(3) world_configured server_step_ok [OF server_step.configured] by (auto split: if_splits)
  have "servers_ok c" "good (sw_world w) (sw_world c)" using a b c by auto
  moreover have "servers_ok (v\<lparr>sw_world := y, sw_search := s\<rparr>)" if "servers_ok v" for v y s
    using that by (simp add: servers_ok_def tables_ok_def)
  ultimately show ?thesis using good_Process [OF steps(4)] good_trans steps(5) by auto
qed

lemma PumpIO_ok:
  assumes "PumpIO inflate toLower dht io w = Some w'" "servers_ok w" "world_ok (sw_world w)"
  shows "servers_ok w' \<and> good (sw_world w) (sw_world w')"
proof -
  let ?w = "upd_world (acceptIncomingConnections (io_accepted io)) w"
  obtain v x where steps:
    "pump_servers inflate toLower dht (io_serverWrite io) (io_serverRead io) (activeServerConnections ?w) ?w = Some v"
    "pump_connections inflate (io_peerWrite io) (io_peerRead io) (wd_connections (sw_world v)) (sw_world v) = Some x"
    "w' = v\<lparr>sw_world := x\<rparr>"
    using assms(1) by (auto simp: PumpIO_def Let_def split: Option.bind_splits)
  have "servers_ok ?w" using assms(2) by (simp add: upd_world_def servers_ok_world)
  then have v: "servers_ok v" by (rule pump_servers_ok [OF steps(1)]) (simp_all add: active_distinct)
  have "good (sw_world w) (sw_world v)"
    using good_trans [OF good_accept good_pump_servers [OF steps(1), simplified]] .
  moreover from this have "world_ok (sw_world v)" using assms(3) by (simp add: good_def)
  then have "good (sw_world v) x"
    by (intro good_pump_connections [OF steps(2)]) (simp_all add: world_ok_def)
  ultimately show ?thesis using v steps(3) good_trans by (auto simp: servers_ok_world)
qed


section \<open>Ticks and commands\<close>

lemma all_ok_put_servers: "put_servers s r = Some s' \<Longrightarrow> all_ok s \<Longrightarrow>
    (\<And>w. r = Some w \<Longrightarrow> servers_ok w \<and> good (se_world s) (sw_world w)) \<Longrightarrow> all_ok s'"
  by (auto simp: put_servers_def intro: all_ok_servers)

lemma all_ok_put_peers: "put_peers s r = Some s' \<Longrightarrow> all_ok s \<Longrightarrow> (\<And>x. r = Some x \<Longrightarrow> good (se_world s) x) \<Longrightarrow> all_ok s'"
  unfolding put_peers_def by (erule all_ok_put_servers) (auto simp: servers_ok_world all_ok_def)

lemma all_ok_pump: "session_PumpIO inflate toLower ou s = Some s' \<Longrightarrow> all_ok s \<Longrightarrow> all_ok s'"
proof -
  assume "session_PumpIO inflate toLower ou s = Some s'" and ok: "all_ok s"
  then show ?thesis
    unfolding session_PumpIO_def
    by (elim all_ok_put_servers) (use ok in \<open>auto simp: all_ok_def [of s] dest: PumpIO_ok\<close>)
qed

lemma all_ok_tick: "SecondTick inflate toLower ou now ms s = Some (Some s') \<Longrightarrow> all_ok s \<Longrightarrow> all_ok s'"
proof -
  assume tick: "SecondTick inflate toLower ou now ms s = Some (Some s')" and ok: "all_ok s"
  then obtain a b c d where steps: "session_PumpIO inflate toLower ou s = Some a"
    "put_servers a (tick_network ou now ms (se_servers a)) = Some b" "session_processDiskTasks toLower (ou_disk ou) b = Some c"
    "put_peers c (tick_counters ms (se_world c)) = Some d"
    and dial: "map_option (put_peers d) (ConnectNewPeers (ou_dialPeer ou) (snapshotTransfers (se_world d)) (se_world d)) = Some (Some s')"
    by (auto simp: SecondTick_def before_dialling_def split: option.splits Option.bind_splits)
  have "all_ok a" by (rule all_ok_pump [OF steps(1) ok])
  then have "all_ok b"
    by (rule all_ok_put_servers [OF steps(2)]) (use \<open>all_ok a\<close> in \<open>auto simp: all_ok_def dest: tick_network_ok\<close>)
  then have "all_ok c" by (rule all_ok_tasks [OF steps(3)])
  then have d: "all_ok d"
    by (rule all_ok_put_peers [OF steps(4)]) (auto simp: tick_counters_def)
  obtain r where r: "ConnectNewPeers (ou_dialPeer ou) (snapshotTransfers (se_world d)) (se_world d) = Some r" "put_peers d r = Some s'"
    using dial by auto
  show ?thesis
    by (rule all_ok_put_peers [OF r(2) d]) (use r(1) good_ConnectNewPeers in auto)
qed

lemma good_closes: "good w (fold apply_close effs w)"
proof (induction effs arbitrary: w)
  case (Cons e effs)
  have "good w (apply_close e w)" by (simp add: apply_close_def split: effect.split)
  from good_trans [OF this Cons] show ?case by simp
qed simp

lemma all_ok_remove: "all_ok s \<Longrightarrow> all_ok (session_RemoveTransfer h deleteFile s)"
proof -
  assume ok: "all_ok s"
  let ?m = "wd_byHash (RemoveTransfer h deleteFile (se_world s))"
  have "?m = wd_byHash (se_world s) \<or> ?m = AList.delete h (wd_byHash (se_world s))"
    using good_closes [of "with_effects t r w" effs for t r w effs]
    by (auto simp: RemoveTransfer_def Let_def good_def split: option.split prod.split)
  then have "distinct (map fst ?m) \<and> distinct (map snd ?m) \<and> set ?m \<subseteq> set (wd_byHash (se_world s))"
    using ok by (auto simp: all_ok_def AList.delete_eq distinct_map_filter)
  moreover have "world_ok (RemoveTransfer h deleteFile (se_world s))" using ok session_remove by (simp add: all_ok_def)
  moreover have "queue_ok (disk_of (session_RemoveTransfer h deleteFile s))"
    using queue_ok_other(1) [OF queue_of [OF ok], of "wd_transfers (RemoveTransfer h deleteFile (se_world s))"]
    by (simp add: session_RemoveTransfer_def disk_of_def)
  moreover have "servers_ok (se_servers (session_RemoveTransfer h deleteFile s))"
    using ok by (simp add: all_ok_def session_RemoveTransfer_def upd_peers_def upd_servers_def upd_world_def servers_ok_world)
  ultimately show ?thesis
    using ok unfolding all_ok_def session_RemoveTransfer_def by auto
qed

lemma all_ok_create: "create_transfer disk rnd atp s = Some (s', t) \<Longrightarrow> all_ok s \<Longrightarrow>
    all_ok s' \<and> t < se_nextTransfer s' \<and> t \<notin> snd ` set (wd_byHash (se_world s')) \<and> wd_byHash (se_world s') = wd_byHash (se_world s)"
proof -
  assume c: "create_transfer disk rnd atp s = Some (s', t)" and ok: "all_ok s"
  then obtain r where s': "s' = (upd_peers (with_effects t r) s)\<lparr>se_nextTransfer := Suc t\<rparr>" and t: "t = se_nextTransfer s"
    by (auto simp: create_transfer_def Let_def)
  have "good (se_world s) (with_effects t r (se_world s))" unfolding with_effects_def by (rule good_trans [OF good_simple(1,9)])
  then have *: "all_ok (upd_peers (with_effects t r) s)" by (rule all_ok_peers [OF ok])
  then have "all_ok s'" unfolding s' t by (fastforce simp: all_ok_def disk_of_def)
  then show ?thesis using ok by (auto simp: s' t all_ok_def)
qed

lemma all_ok_enter:
  assumes "all_ok s" "t < se_nextTransfer s" "t \<notin> snd ` set (wd_byHash (se_world s))"
  shows "all_ok (fst (enter_transfer h t s))"
proof (cases "LookupTransfer h (se_world s)")
  case None
  then have "h \<notin> fst ` set (wd_byHash (se_world s))" by (simp add: LookupTransfer_def map_of_eq_None_iff)
  then have upd: "set (AList.update h t (wd_byHash (se_world s))) = insert (h, t) (set (wd_byHash (se_world s)))"
    using assms(1) by (auto simp: all_ok_def set_update_distinct)
  let ?s = "upd_peers (\<lambda>w. w\<lparr>wd_byHash := AList.update h t (wd_byHash w)\<rparr>) s"
  have "world_ok (se_world ?s)" using assms(1) by (auto simp: all_ok_def intro: session_cong)
  moreover have "queue_ok (disk_of ?s)" using queue_of [OF assms(1)] by (simp add: disk_of_def)
  moreover have "servers_ok (se_servers ?s)"
    using assms(1) by (simp add: all_ok_def upd_peers_def upd_servers_def upd_world_def servers_ok_world)
  ultimately show ?thesis
    using None assms upd AList.distinct_update [of "wd_byHash (se_world s)" h t]
      distinct_snd_update [of "wd_byHash (se_world s)" t h]
    by (simp add: all_ok_def enter_transfer_def)
qed (use assms in \<open>simp add: enter_transfer_def\<close>)

text \<open>What happens in a session. A transfer is made and entered at different times when adds of several goroutines race.\<close>

inductive run_step :: "Session \<Rightarrow> Session \<Rightarrow> bool" where
  tick: "SecondTick inflate toLower ou now ms s = Some (Some s') \<Longrightarrow> run_step s s'"
| clock: "run_step s (upd_peers (\<lambda>w. w\<lparr>wd_now := now\<rparr>) s)"
| disk: "session_worker io k s = Some s' \<Longrightarrow> run_step s s'"
| listen: "run_step s (fst (Listen bound s))"
| unlisten: "run_step s (CloseListener s)"
| socket: "run_step s (socket_accepted remote s)"
| port: "run_step s (SyncDHTListenPort tracker s)"
| configure: "run_step s (ConfigureSession st s)"
| added: "session_AddTransferParams disk rnd atp s = Some (s', t) \<Longrightarrow> run_step s s'"
| created: "create_transfer disk rnd atp s = Some (s', t) \<Longrightarrow> run_step s s'"
| entered: "t < se_nextTransfer s \<Longrightarrow> t \<notin> snd ` set (wd_byHash (se_world s)) \<Longrightarrow> run_step s (fst (enter_transfer h t s))"
| removed: "run_step s (session_RemoveTransfer h deleteFile s)"
| paused: "run_step s (h_Pause h s)"
| resumed: "run_step s (h_Resume h s)"
| resume_data: "h_GetResumeData h s = Some (s', r) \<Longrightarrow> run_step s s'"
| connected: "ConnectTo dial identifier address (se_servers s) = Some (w', err) \<Longrightarrow> run_step s (s\<lparr>se_servers := w'\<rparr>)"
| disconnected: "run_step s (upd_servers DisconnectFrom s)"
| searched: "run_step s (upd_servers (\<lambda>w. fst (session_StartSearch toLower tracker params w)) s)"
| searching: "run_step s (upd_servers (\<lambda>w. w\<lparr>sw_search := x\<rparr>) s)"
| sources: "run_step s (upd_servers (\<lambda>w. fst (RequestSourcesNow dht t w)) s)"
| found: "OnDHTSources h t results (se_world s) = Some x \<Longrightarrow> run_step s (upd_peers (\<lambda>_. x) s)"
| suspended: "run_step s (upd_peers (\<lambda>w. fst (SuspendUpload h terminate w)) s)"
| upload_resumed: "run_step s (upd_peers (ResumeUpload h) s)"
| priority: "run_step s (upd_peers (upd_transfer t (SetUploadPriority prio)) s)"
| friend: "run_step s (upd_peers (SetFriendSlot_session h enabled) s)"
| saved: "run_step s (upd_peers (\<lambda>w. applyFriendSlotSnapshot hs (w\<lparr>wd_credits := cr_ApplySnapshot credits\<rparr>)) s)"

inductive in_session :: "Session \<Rightarrow> bool" where
  start: "in_session (NewSession heap random now st)"
| step: "in_session s \<Longrightarrow> run_step s s' \<Longrightarrow> in_session s'"

lemma good_uploads [simp]: "good w (fst (SuspendUpload h terminate w))" "good w (ResumeUpload h w)"
proof -
  have one: "wd_byHash (fst (suspend_client h terminate c r)) = wd_byHash (fst r)" for c r
    by (simp add: suspend_client_def Let_def split: prod.split option.split)
  have "wd_byHash (fst (fold (suspend_client h terminate) cs r)) = wd_byHash (fst r)" for cs r
    by (induction cs arbitrary: r) (simp_all add: one)
  then show "good w (fst (SuspendUpload h terminate w))"
    using session_suspend by (simp add: good_def SuspendUpload_def Let_def)
  show "good w (ResumeUpload h w)"
    by (simp add: good_def ResumeUpload_def session_queue)
qed

lemma run_step_ok: "run_step s s' \<Longrightarrow> all_ok s \<Longrightarrow> all_ok s'"
proof (induction rule: run_step.induct)
  case (tick inflate toLower ou now ms s s')
  then show ?case by (rule all_ok_tick)
next
  case (disk io k s s')
  then show ?case by (rule all_ok_worker)
next
  case (listen s bound)
  then show ?case by (simp add: Listen_def all_ok_peers split: sum.split)
next
  case (added disk rnd atp s s' t)
  have "all_ok u" if "create_transfer disk rnd atp s = Some (v, k)" "enter_transfer h k v = (u, j)" for u v k j h
  proof -
    have "all_ok v" "k < se_nextTransfer v" "k \<notin> snd ` set (wd_byHash (se_world v))"
      using all_ok_create [OF that(1) added(2)] by blast+
    from all_ok_enter [OF this, of h] that(2) show ?thesis by simp
  qed
  then show ?case using added by (auto simp: session_AddTransferParams_def split: option.splits)
next
  case (created disk rnd atp s s' t)
  then show ?case using all_ok_create by blast
next
  case (entered t s h)
  then show ?case by (intro all_ok_enter)
next
  case (paused h s)
  have "good w (let (tr, effs) = PauseWithDisconnect (wd_transfers w t) in fold apply_close effs (upd_transfer t (\<lambda>_. tr) w))" for t w
    by (cases "PauseWithDisconnect (wd_transfers w t)") (auto intro: good_trans [OF _ good_closes])
  with paused show ?case by (simp add: h_Pause_def all_ok_peers split: option.split)
next
  case (resume_data h s s' r)
  then show ?case by (auto simp: h_GetResumeData_def split: option.splits sum.splits intro: all_ok_peers)
next
  case (connected dial name address s w' err)
  then show ?case
    using ConnectTo_ok [of dial name address "se_servers s"] world_ConnectTo [OF connected(1)]
    by (intro all_ok_servers) (auto simp: all_ok_def)
next
  case (disconnected s)
  then show ?case unfolding upd_servers_def by (intro all_ok_servers) (simp_all add: DisconnectFrom_ok)
next
  case (searched s toLower tracker params)
  then show ?case unfolding upd_servers_def
    by (intro all_ok_servers server_step_ok [OF server_step.search]) (simp_all add: all_ok_def)
next
  case (searching s x)
  then show ?case unfolding upd_servers_def
    by (intro all_ok_servers server_step_ok [OF server_step.searching]) (simp_all add: all_ok_def)
next
  case (sources s dht t)
  then show ?case unfolding upd_servers_def
    by (intro all_ok_servers server_step_ok [OF server_step.sources] good_RequestSourcesNow) (simp_all add: all_ok_def)
next
  case (found h t results s x)
  then have "good (se_world s) x" by (auto simp: OnDHTSources_def dest: good_add_sources split: if_splits)
  with found show ?case by (simp add: all_ok_peers)
next
  case (friend s h enabled)
  then show ?case by (rule all_ok_peers) (rule goodI; simp add: SetFriendSlot_session_def)
next
  case (saved s hs credits)
  then show ?case by (rule all_ok_peers) (rule goodI; simp add: applyFriendSlotSnapshot_def)
qed (auto simp: CloseListener_def socket_accepted_def SyncDHTListenPort_def ConfigureSession_def all_ok_remove h_Resume_def
    intro: all_ok_peers split: option.split)

lemma in_session_ok: "in_session s \<Longrightarrow> all_ok s"
proof (induction rule: in_session.induct)
  case (start heap random now st)
  have "world_ok (se_world (NewSession heap random now st))"
    using in_world_ok [OF in_world.start [of heap "[]" st now random]] by (simp add: new_session_def NewSession_def)
  then show ?case
    by (simp add: all_ok_def NewSession_def servers_ok_def tables_ok_def queue_ok_def disk_of_def in_progress_def)
qed (rule run_step_ok)


text \<open>C39: in every state a session can reach - whatever the network and the disk do and in whatever order ticks,
  goroutines and commands follow each other, \<open>RemoveDiskTask\<close> excepted, which nothing calls - every hash names one
  transfer and every transfer is entered once; at most one disk task is in progress; the servers that a round
  serves are the connected ones, each once; no client of the upload queue waits and uploads, and no more
  than 251 upload.\<close>

theorem session_invariant:
  assumes "in_session s"
  shows "distinct (map fst (wd_byHash (se_world s))) \<and> distinct (map snd (wd_byHash (se_world s))) \<and>
    length (se_diskWorkers s) + length (se_diskResults s) \<le> 1 \<and>
    distinct (activeServerConnections (se_servers s)) \<and>
    set (activeServerConnections (se_servers s)) = snd ` set (sw_connections (se_servers s)) \<and>
    distinct (uq_waiting (wd_queue (se_world s)) @ uq_uploading (wd_queue (se_world s))) \<and>
    length (uq_uploading (wd_queue (se_world s))) \<le> 251"
proof -
  have ok: "all_ok s" using assms by (rule in_session_ok)
  then have "slots_ok (se_world s)" by (simp add: all_ok_def world_ok_def)
  then have "distinct (uq_waiting (wd_queue (se_world s)) @ uq_uploading (wd_queue (se_world s))) \<and>
      length (uq_uploading (wd_queue (se_world s))) \<le> 251"
    by (auto simp: slots_ok_def maxUploading_def Let_def)
  moreover have "length (in_progress (disk_of s)) \<le> 1"
    using queue_of [OF ok] by (auto simp: queue_ok_def split: list.splits if_splits)
  ultimately show ?thesis
    using ok active_distinct active_members [of "se_servers s"] by (simp add: all_ok_def in_progress_def disk_of_def)
qed


definition demo_file :: AddTransferParams where
  "demo_file = NewAddTransferParamsFromFile [7] 0 3 (Some (''f'', None)) False"

theorem session_invariant_witness:
  "\<exists>s. session_AddTransferParams None (\<lambda>_. 0) demo_file (NewSession (\<lambda>_. undefined) (\<lambda>_. 0) 0 (NewSettings [] None)) = Some (s, 0) \<and>
     wd_byHash (se_world s) = [([7], 0)] \<and> length (se_diskWorkers s) + length (se_diskResults s) \<le> 1"
proof -
  let ?s = "NewSession (\<lambda>_. undefined) (\<lambda>_. 0) 0 (NewSettings [] None)"
  have cut: "DivCeil 3 PieceSize = 1" "DivCeil 3 BlockSize = 1" "go_rem 3 PieceSize = 3"
    by (simp_all add: DivCeil_def go_div_def go_rem_def geometry_constants)
  obtain tr effs where "NewTransfer None (\<lambda>_. 0) demo_file = Some (tr, effs)"
    by (simp add: demo_file_def NewAddTransferParamsFromFile_def NewTransfer_def cut NewPiecePicker_def Let_def)
  then obtain s where s: "session_AddTransferParams None (\<lambda>_. 0) demo_file ?s = Some (s, 0)"
    and h: "wd_byHash (se_world s) = [([7], 0)]"
    by (auto simp: session_AddTransferParams_def create_transfer_def enter_transfer_def LookupTransfer_def NewSession_def
        demo_file_def NewAddTransferParamsFromFile_def Let_def)
  have "in_session s" by (rule in_session.step [OF in_session.start run_step.added [OF s]])
  from session_invariant [OF this] s h show ?thesis by auto
qed

end
