(* ===== verification/Client_View.thy ===== *)
theory Client_View
  imports Whole_Session Transfer_Status Links Kad_Tracker
begin

text \<open>
  What a client shows: the state of its servers, transfers and peers (\<^verbatim>\<open>client_status.go\<close>,
  \<^verbatim>\<open>peer_info.go\<close>) and the channels on which it tells listeners of changes
  (\<^verbatim>\<open>client_listener.go\<close>, \<^verbatim>\<open>client_progress_listener.go\<close>). \<open>None\<close> is a panic.
\<close>

unbundle bit_operations_syntax

section \<open>Peers\<close>

record PeerInfo =
  pi_DownloadSpeed :: int
  pi_PayloadDownloadSpeed :: int
  pi_UploadSpeed :: int
  pi_PayloadUploadSpeed :: int
  pi_RemotePieces :: BitField
  pi_FailCount :: int
  pi_Endpoint :: Endpoint
  pi_ModName :: string
  pi_Version :: int
  pi_ModVersion :: int
  pi_StrModVersion :: string
  pi_SourceFlag :: u64

text \<open>\<open>strings.Join\<close>.\<close>

fun Join :: "string list \<Rightarrow> string \<Rightarrow> string" where
  "Join [] sep = []"
| "Join [x] sep = x"
| "Join (x # xs) sep = x @ sep @ Join xs sep"

definition SourceLabels :: "PeerInfo \<Rightarrow> string list" where
  "SourceLabels p = PeerSourceLabels (pi_SourceFlag p)"

definition SourceString :: "PeerInfo \<Rightarrow> string" where
  "SourceString p = Join (SourceLabels p) ''|''"

definition HasSource :: "u8 \<Rightarrow> PeerInfo \<Rightarrow> bool" where
  "HasSource source p \<longleftrightarrow> pi_SourceFlag p AND ucast source \<noteq> 0"

text \<open>Nothing fills in what the peer said of itself: its name and versions stay empty.\<close>

definition GetInfo :: "World \<Rightarrow> nat \<Rightarrow> PeerInfo" where
  "GetInfo w c =
     (let p = wd_conns w c; stats = co_stat p
      in \<lparr>pi_DownloadSpeed = DownloadRate stats, pi_PayloadDownloadSpeed = DownloadPayloadRate stats,
          pi_UploadSpeed = UploadRate stats, pi_PayloadUploadSpeed = UploadPayloadRate stats,
          pi_RemotePieces = pn_remotePieces p,
          pi_FailCount = (case conn_peer w c of None \<Rightarrow> 0 | Some pe \<Rightarrow> pe_FailCount pe),
          pi_Endpoint = pn_endpoint p, pi_ModName = [], pi_Version = 0, pi_ModVersion = 0, pi_StrModVersion = [],
          pi_SourceFlag = (case conn_peer w c of None \<Rightarrow> 0 | Some pe \<Rightarrow> pe_SourceFlag pe)\<rparr>)"

definition GetPeersInfo :: "nat \<Rightarrow> World \<Rightarrow> PeerInfo list" where
  "GetPeersInfo t w = map (GetInfo w) (t_connections (wd_transfers w t))"

section \<open>Servers\<close>

record ServerSnapshot =
  ss_Identifier :: string
  ss_Address :: string
  ss_Configured :: bool
  ss_Connected :: bool
  ss_HandshakeCompleted :: bool
  ss_Primary :: bool
  ss_Disconnecting :: bool
  ss_ClientID :: u32
  ss_TCPFlags :: u32
  ss_AuxPort :: u32
  ss_MillisecondsSinceLastReceive :: int
  ss_DownloadRate :: int
  ss_UploadRate :: int

definition IDClass :: "ServerSnapshot \<Rightarrow> string" where
  "IDClass s = (if ss_ClientID s = 0 then ''UNKNOWN'' else if IsLowID (ss_ClientID s) then ''LOW_ID'' else ''HIGH_ID'')"

definition server_snapshot :: "ServerWorld \<Rightarrow> string \<Rightarrow> ServerSnapshot" where
  "server_snapshot w name =
     (let configured = map_of (sw_configured w) name;
          s = \<lparr>ss_Identifier = name, ss_Address = (case configured of None \<Rightarrow> [] | Some a \<Rightarrow> a),
               ss_Configured = (configured \<noteq> None), ss_Connected = False, ss_HandshakeCompleted = False,
               ss_Primary = False, ss_Disconnecting = False, ss_ClientID = 0, ss_TCPFlags = 0, ss_AuxPort = 0,
               ss_MillisecondsSinceLastReceive = 0, ss_DownloadRate = 0, ss_UploadRate = 0\<rparr>
      in case map_of (sw_connections w) name of
           None \<Rightarrow> s
         | Some i \<Rightarrow>
             (let c = sw_conns w i
              in s\<lparr>ss_Address := (case sv_address c of
                     Some a \<Rightarrow> if ss_Address s = [] then a else ss_Address s | None \<Rightarrow> ss_Address s),
                   ss_Connected := \<not> co_disconnecting c, ss_HandshakeCompleted := sv_handshakeCompleted c,
                   ss_Primary := (sw_primary w = Some i), ss_Disconnecting := co_disconnecting c,
                   ss_ClientID := sv_clientID c, ss_TCPFlags := sv_tcpFlags c, ss_AuxPort := sv_auxPort c,
                   ss_MillisecondsSinceLastReceive := MillisecondsSinceLastReceive (wd_now (sw_world w)) c,
                   ss_DownloadRate := DownloadRate (co_stat c), ss_UploadRate := UploadRate (co_stat c)\<rparr>))"

definition ServerSnapshots :: "ServerWorld \<Rightarrow> ServerSnapshot list" where
  "ServerSnapshots w =
     (let configured = map fst (sw_configured w);
          names = configured @ filter (\<lambda>k. k \<notin> set configured) (map fst (sw_connections w))
      in map (server_snapshot w) (sort_by (\<lambda>a b. a < b) names))"

section \<open>Transfers\<close>

record TransferSnapshot =
  tn_Hash :: hash
  tn_FileName :: string
  tn_FilePath :: string
  tn_CreateTime :: int
  tn_Size :: int
  tn_ActivePeers :: nat
  tn_Status :: TransferStatus
  tn_Peers :: "PeerInfo list"
  tn_Pieces :: "PieceSnapshot list"

definition tn_ED2KLink :: "TransferSnapshot \<Rightarrow> string" where
  "tn_ED2KLink t =
     (if tn_FileName t = [] \<or> tn_Size t \<le> 0 \<or> hash_Equal (tn_Hash t) Invalid then []
      else FormatLink (tn_FileName t) (tn_Size t) (tn_Hash t))"

definition transfer_snapshot :: "Session \<Rightarrow> nat \<Rightarrow> TransferSnapshot option" where
  "transfer_snapshot s t =
     (let w = se_world s; tr = wd_transfers w t;
          filePath = GetFilePath tr; base = path_Base filePath;
          fileName = (if base = ''.'' \<or> base = [] then hash_String (t_hash tr) else base)
      in case (GetStatus t w, PieceSnapshots t w) of
           (Some status, Some pieces) \<Rightarrow>
             Some \<lparr>tn_Hash = t_hash tr, tn_FileName = fileName, tn_FilePath = filePath,
                   tn_CreateTime = t_createTime tr, tn_Size = t_size tr, tn_ActivePeers = ActiveConnections t w,
                   tn_Status = status, tn_Peers = GetPeersInfo t w, tn_Pieces = pieces\<rparr>
         | _ \<Rightarrow> None)"

definition snapshot_less :: "TransferSnapshot \<Rightarrow> TransferSnapshot \<Rightarrow> bool" where
  "snapshot_less a b \<longleftrightarrow>
     (if tn_CreateTime a \<noteq> tn_CreateTime b then tn_CreateTime a < tn_CreateTime b
      else hash_Compare (tn_Hash a) (tn_Hash b) < 0)"

definition TransferSnapshots :: "Session \<Rightarrow> TransferSnapshot list option" where
  "TransferSnapshots s =
     map_option (sort_by snapshot_less) (all_some (map (transfer_snapshot s) (snapshotTransfers (se_world s))))"

section \<open>The whole status\<close>

record ClientPeerSnapshot =
  cp_TransferHash :: hash
  cp_FileName :: string
  cp_FilePath :: string
  cp_Peer :: PeerInfo

record ClientStatus =
  cs_Servers :: "ServerSnapshot list"
  cs_Peers :: "ClientPeerSnapshot list"
  cs_Transfers :: "TransferSnapshot list"
  cs_TotalDone :: int
  cs_TotalReceived :: int
  cs_TotalWanted :: int
  cs_Upload :: int
  cs_DownloadRate :: int
  cs_UploadRate :: int

definition peer_less :: "ClientPeerSnapshot \<Rightarrow> ClientPeerSnapshot \<Rightarrow> bool" where
  "peer_less a b \<longleftrightarrow>
     (if hash_Compare (cp_TransferHash a) (cp_TransferHash b) \<noteq> 0
      then hash_Compare (cp_TransferHash a) (cp_TransferHash b) < 0
      else ep_String (pi_Endpoint (cp_Peer a)) < ep_String (pi_Endpoint (cp_Peer b)))"

definition add_transfer_status :: "TransferSnapshot \<Rightarrow> ClientStatus \<Rightarrow> ClientStatus" where
  "add_transfer_status t s =
     s\<lparr>cs_TotalDone := cs_TotalDone s + ts_TotalDone (tn_Status t),
       cs_TotalReceived := cs_TotalReceived s + ts_TotalReceived (tn_Status t),
       cs_TotalWanted := cs_TotalWanted s + ts_TotalWanted (tn_Status t),
       cs_Upload := cs_Upload s + ts_Upload (tn_Status t),
       cs_DownloadRate := cs_DownloadRate s + ts_DownloadRate (tn_Status t),
       cs_UploadRate := cs_UploadRate s + ts_UploadRate (tn_Status t),
       cs_Peers := cs_Peers s @ map (\<lambda>p. \<lparr>cp_TransferHash = tn_Hash t, cp_FileName = tn_FileName t,
         cp_FilePath = tn_FilePath t, cp_Peer = p\<rparr>) (tn_Peers t)\<rparr>"

definition client_Status :: "Session \<Rightarrow> ClientStatus option" where
  "client_Status s =
     map_option
       (\<lambda>transfers.
          let status = fold add_transfer_status transfers
            \<lparr>cs_Servers = ServerSnapshots (se_servers s), cs_Peers = [], cs_Transfers = transfers, cs_TotalDone = 0,
             cs_TotalReceived = 0, cs_TotalWanted = 0, cs_Upload = 0, cs_DownloadRate = 0, cs_UploadRate = 0\<rparr>
          in status\<lparr>cs_Peers := sort_by peer_less (cs_Peers status)\<rparr>)
       (TransferSnapshots s)"

definition PeerStatuses :: "Session \<Rightarrow> ClientPeerSnapshot list option" where
  "PeerStatuses s = map_option cs_Peers (client_Status s)"

section \<open>Channels to listeners\<close>

text \<open>A buffered channel; a listener that does not keep up misses events. Listeners are entered under increasing numbers.\<close>

record 'e listener =
  ln_buffer :: nat
  ln_events :: "'e list"

record 'e listeners =
  ls_table :: "(nat \<times> 'e listener) list"
  ls_nextID :: nat

definition try_send :: "'e \<Rightarrow> 'e listener \<Rightarrow> 'e listener" where
  "try_send e ch = (if length (ln_events ch) < ln_buffer ch then ch\<lparr>ln_events := ln_events ch @ [e]\<rparr> else ch)"

definition send_all :: "'e \<Rightarrow> 'e listeners \<Rightarrow> 'e listeners" where
  "send_all e ls = ls\<lparr>ls_table := map (\<lambda>(i, ch). (i, try_send e ch)) (ls_table ls)\<rparr>"

text \<open>Subscribing sends the current state at once; the result is the number that cancels the subscription.\<close>

definition subscribe :: "int \<Rightarrow> 'e \<Rightarrow> 'e listeners \<Rightarrow> 'e listeners \<times> nat" where
  "subscribe buffer current ls =
     (let buffer = (if buffer \<le> 0 then 1 else buffer); i = Suc (ls_nextID ls);
          ch = try_send current \<lparr>ln_buffer = nat buffer, ln_events = []\<rparr>
      in (ls\<lparr>ls_table := AList.update i ch (ls_table ls), ls_nextID := i\<rparr>, i))"

definition cancel :: "nat \<Rightarrow> 'e listeners \<Rightarrow> 'e listeners" where
  "cancel i ls = ls\<lparr>ls_table := AList.delete i (ls_table ls)\<rparr>"

text \<open>A listener takes everything that waits for it.\<close>

definition receive :: "nat \<Rightarrow> 'e listeners \<Rightarrow> 'e list \<times> 'e listeners" where
  "receive i ls =
     (case map_of (ls_table ls) i of
        None \<Rightarrow> ([], ls)
      | Some ch \<Rightarrow> (ln_events ch, ls\<lparr>ls_table := AList.update i (ch\<lparr>ln_events := []\<rparr>) (ls_table ls)\<rparr>))"

section \<open>Status events\<close>

record ClientStatusEvent =
  ce_Status :: ClientStatus
  ce_DHT :: DHTStatus

definition ce_TransferSnapshots :: "ClientStatusEvent \<Rightarrow> TransferSnapshot list" where
  "ce_TransferSnapshots e = cs_Transfers (ce_Status e)"

definition ce_TransferState :: "hash \<Rightarrow> ClientStatusEvent \<Rightarrow> TransferState option" where
  "ce_TransferState h e =
     map_option (\<lambda>t. ts_State (tn_Status t)) (find (\<lambda>t. hash_Compare (tn_Hash t) h = 0) (ce_TransferSnapshots e))"

definition ce_TransferStates :: "ClientStatusEvent \<Rightarrow> hash \<Rightarrow> TransferState option" where
  "ce_TransferStates e =
     fold (\<lambda>t out. out(tn_Hash t \<mapsto> ts_State (tn_Status t))) (ce_TransferSnapshots e) (\<lambda>_. None)"

section \<open>Progress events\<close>

record TransferProgressSnapshot =
  pg_Hash :: hash
  pg_FileName :: string
  pg_FilePath :: string
  pg_State :: TransferState
  pg_Paused :: bool
  pg_Removed :: bool
  pg_TotalDone :: int
  pg_TotalReceived :: int
  pg_TotalWanted :: int
  pg_DownloadingPieces :: nat
  pg_ActivePeers :: nat
  pg_NumPeers :: nat

definition progress_snapshot :: "TransferSnapshot \<Rightarrow> TransferProgressSnapshot" where
  "progress_snapshot t =
     (let s = tn_Status t
      in \<lparr>pg_Hash = tn_Hash t, pg_FileName = tn_FileName t, pg_FilePath = tn_FilePath t, pg_State = ts_State s,
          pg_Paused = ts_Paused s, pg_Removed = False, pg_TotalDone = ts_TotalDone s, pg_TotalReceived = ts_TotalReceived s,
          pg_TotalWanted = ts_TotalWanted s, pg_DownloadingPieces = ts_DownloadingPieces s,
          pg_ActivePeers = tn_ActivePeers t, pg_NumPeers = ts_NumPeers s\<rparr>)"

definition buildTransferProgressSnapshots :: "Session \<Rightarrow> TransferProgressSnapshot list option" where
  "buildTransferProgressSnapshots s = map_option (map progress_snapshot) (TransferSnapshots s)"

definition transferProgressChanged :: "TransferProgressSnapshot \<Rightarrow> TransferProgressSnapshot \<Rightarrow> bool" where
  "transferProgressChanged prev new \<longleftrightarrow>
     pg_State prev \<noteq> pg_State new \<or> pg_Paused prev \<noteq> pg_Paused new \<or>
     pg_TotalDone prev \<noteq> pg_TotalDone new \<or> pg_TotalReceived prev \<noteq> pg_TotalReceived new"

text \<open>The last state that was told, by hash, and the listeners. An event lists the transfers that changed.\<close>

record Progress =
  pr_last :: "(hash \<times> TransferProgressSnapshot) list"
  pr_listeners :: "TransferProgressSnapshot list listeners"

definition progress_map :: "TransferProgressSnapshot list \<Rightarrow> (hash \<times> TransferProgressSnapshot) list" where
  "progress_map current = fold (\<lambda>p m. AList.update (pg_Hash p) p m) current []"

definition progress_changes ::
  "bool \<Rightarrow> (hash \<times> TransferProgressSnapshot) list \<Rightarrow> TransferProgressSnapshot list \<Rightarrow> TransferProgressSnapshot list" where
  "progress_changes force told current =
     filter (\<lambda>p. force \<or> (case map_of told (pg_Hash p) of None \<Rightarrow> True | Some prev \<Rightarrow> transferProgressChanged prev p)) current @
     map (\<lambda>(h, prev). prev\<lparr>pg_Removed := True\<rparr>)
       (filter (\<lambda>(h, prev). map_of (progress_map current) h = None) told)"

definition emitTransferProgressUpdate :: "bool \<Rightarrow> TransferProgressSnapshot list \<Rightarrow> Progress \<Rightarrow> Progress" where
  "emitTransferProgressUpdate force current p =
     (let changes = progress_changes force (pr_last p) current; p = p\<lparr>pr_last := progress_map current\<rparr>
      in if changes = [] then p else p\<lparr>pr_listeners := send_all changes (pr_listeners p)\<rparr>)"

definition SubscribeTransferProgressBuffered :: "int \<Rightarrow> TransferProgressSnapshot list \<Rightarrow> Progress \<Rightarrow> Progress \<times> nat" where
  "SubscribeTransferProgressBuffered buffer current p =
     (let (ls, i) = subscribe buffer current (pr_listeners p) in (p\<lparr>pr_listeners := ls\<rparr>, i))"

end
