(* ===== verification/Client_State.thy ===== *)
theory Client_State
  imports Client_View
begin

text \<open>
  The saved state of a client (\<^verbatim>\<open>client_state.go\<close>): what is saved, how the file is written
  and read, and how a client is restored. The text of a state, which \<^verbatim>\<open>encoding/json\<close>
  makes, and what system calls return are arguments; \<open>None\<close> is a panic.
\<close>

section \<open>The state\<close>

record ClientTransferState =
  ct_Hash :: hash
  ct_Size :: int
  ct_CreateTime :: int
  ct_TargetPath :: string
  ct_Paused :: bool
  ct_UploadPrio :: UploadPriority
  ct_ResumeData :: "TransferResumeData option"

record ClientState =
  cst_Version :: int
  cst_ServerAddress :: string
  cst_Transfers :: "ClientTransferState list"
  cst_Credits :: "PeerCredit list"
  cst_FriendSlots :: "hash list"
  cst_DHT :: "ClientDHTState option"

definition clientStateVersion :: int where "clientStateVersion = 2"

definition empty_state :: ClientState where
  "empty_state = \<lparr>cst_Version = clientStateVersion, cst_ServerAddress = [], cst_Transfers = [], cst_Credits = [],
     cst_FriendSlots = [], cst_DHT = None\<rparr>"

section \<open>The file\<close>

type_synonym files = "string \<Rightarrow> bytes option"

text \<open>Errors of the system calls: making the directory, writing the first so many bytes, renaming.\<close>

record save_io =
  sv_mkdir :: "string option"
  sv_write :: "(nat \<times> string) option"
  sv_rename :: "string option"

definition stamp :: "ClientState \<Rightarrow> ClientState" where
  "stamp state = (if cst_Version state = 0 then state\<lparr>cst_Version := clientStateVersion\<rparr> else state)"

definition store_Save :: "(ClientState \<Rightarrow> string + bytes) \<Rightarrow> save_io \<Rightarrow> string \<Rightarrow> ClientState option \<Rightarrow> files \<Rightarrow> files \<times> string option" where
  "store_Save marshal io path state files =
     (if path = [] then (files, Some ''state path is empty'')
      else
        (case marshal (stamp (case state of None \<Rightarrow> empty_state | Some st \<Rightarrow> st)) of
           Inl err \<Rightarrow> (files, Some err)
         | Inr raw \<Rightarrow>
             (let tmpPath = path @ ''.tmp''
              in case sv_mkdir io of
                   Some err \<Rightarrow> (files, Some err)
                 | None \<Rightarrow>
                     (case sv_write io of
                        Some (n, err) \<Rightarrow> (files(tmpPath := Some (take n raw)), Some err)
                      | None \<Rightarrow>
                          (case sv_rename io of
                             Some err \<Rightarrow> (files(tmpPath := None), Some err)
                           | None \<Rightarrow> (files(tmpPath := None, path := Some raw), None))))))"

datatype loading = NotExist | LoadError string | Loaded ClientState

definition store_Load :: "(bytes \<Rightarrow> string + ClientState) \<Rightarrow> string option \<Rightarrow> string \<Rightarrow> files \<Rightarrow> loading" where
  "store_Load unmarshal failing path files =
     (if path = [] then LoadError ''state path is empty''
      else
        (case failing of
           Some err \<Rightarrow> LoadError err
         | None \<Rightarrow>
             (case files path of
                None \<Rightarrow> NotExist
              | Some raw \<Rightarrow> (case unmarshal raw of Inl err \<Rightarrow> LoadError err | Inr state \<Rightarrow> Loaded (stamp state)))))"

section \<open>Clients\<close>

text \<open>\<open>cl_tracker\<close> is the tracker of the session, \<open>cl_store\<close> the path of the state store, if there is one.\<close>

record Client =
  cl_session :: Session
  cl_tracker :: "DHTTracker option"
  cl_started :: bool
  cl_startCalled :: bool
  cl_closed :: bool
  cl_serverAddr :: string
  cl_store :: "string option"
  cl_autoSaveTick :: int
  cl_status :: "ClientStatusEvent listeners"
  cl_progress :: Progress
  cl_files :: files

definition client_NewClient :: "Session \<Rightarrow> files \<Rightarrow> Client" where
  "client_NewClient session files =
     \<lparr>cl_session = session, cl_tracker = None, cl_started = False, cl_startCalled = False, cl_closed = False,
      cl_serverAddr = [], cl_store = None, cl_autoSaveTick = 5 * second,
      cl_status = \<lparr>ls_table = [], ls_nextID = 0\<rparr>,
      cl_progress = \<lparr>pr_last = [], pr_listeners = \<lparr>ls_table = [], ls_nextID = 0\<rparr>\<rparr>, cl_files = files\<rparr>"

definition upd_session :: "(Session \<Rightarrow> Session) \<Rightarrow> Client \<Rightarrow> Client" where
  "upd_session f c = c\<lparr>cl_session := f (cl_session c)\<rparr>"

definition SetStatePath :: "string \<Rightarrow> Client \<Rightarrow> Client" where
  "SetStatePath path c = c\<lparr>cl_store := (if path = [] then None else Some path)\<rparr>"

definition StatePath :: "Client \<Rightarrow> string" where
  "StatePath c = (case cl_store c of None \<Rightarrow> [] | Some path \<Rightarrow> path)"

text \<open>The tracker of the client, made when there is none; \<open>random\<close> are random identifiers.\<close>

definition EnableDHT :: "int \<Rightarrow> bytes option list \<Rightarrow> Client \<Rightarrow> DHTTracker \<times> Client" where
  "EnableDHT now random c =
     (case cl_tracker c of
        Some t \<Rightarrow> (t, c)
      | None \<Rightarrow>
          (let st = wd_settings (se_world (cl_session c));
               t = NewDHTTracker now (set_UDPPort st) (set_DHTSearchTimeout st * second) random
           in (t, c\<lparr>cl_tracker := Some t\<rparr>)))"

definition with_tracker :: "int \<Rightarrow> bytes option list \<Rightarrow> (DHTTracker \<Rightarrow> DHTTracker option) \<Rightarrow> Client \<Rightarrow> Client option" where
  "with_tracker now random f c =
     (let (t, c) = EnableDHT now random c in map_option (\<lambda>t. c\<lparr>cl_tracker := Some t\<rparr>) (f t))"

section \<open>Saving\<close>

text \<open>A transfer without a path is not saved.\<close>

definition save_transfer :: "nat \<Rightarrow> Session \<times> ClientTransferState list \<Rightarrow> (Session \<times> ClientTransferState list) option" where
  "save_transfer t r =
     (let (s, saved) = r; tr = wd_transfers (se_world s) t
      in if GetFilePath tr = [] then Some r
         else
           map_option
             (\<lambda>(s, rd). (s, saved @ [\<lparr>ct_Hash = t_hash tr, ct_Size = t_size tr, ct_CreateTime = t_createTime tr,
                ct_TargetPath = GetFilePath tr, ct_Paused = t_pause tr, ct_UploadPrio = t_uploadPriority tr,
                ct_ResumeData = rd\<rparr>]))
             (h_GetResumeData (Some t) s))"

fun save_transfers :: "nat list \<Rightarrow> Session \<times> ClientTransferState list \<Rightarrow> (Session \<times> ClientTransferState list) option" where
  "save_transfers [] r = Some r"
| "save_transfers (t # ts) r = save_transfer t r \<bind> save_transfers ts"

definition by_hash_text :: "Session \<Rightarrow> nat list" where
  "by_hash_text s =
     (let key = (\<lambda>t. hash_String (t_hash (wd_transfers (se_world s) t)))
      in sort_by (\<lambda>a b. key a < key b) (snapshotTransfers (se_world s)))"

definition snapshotState :: "(UDPAddr \<Rightarrow> string) \<Rightarrow> Client \<Rightarrow> (Client \<times> ClientState) option" where
  "snapshotState addr_text c =
     (let s = cl_session c
      in case (case cl_tracker c of None \<Rightarrow> Some None | Some t \<Rightarrow> map_option Some (SnapshotState addr_text t)) of
           None \<Rightarrow> None
         | Some dht \<Rightarrow>
             map_option
               (\<lambda>(s, saved). (c\<lparr>cl_session := s\<rparr>,
                  \<lparr>cst_Version = clientStateVersion, cst_ServerAddress = cl_serverAddr c, cst_Transfers = saved,
                   cst_Credits = cr_Snapshot (wd_credits (se_world (cl_session c))),
                   cst_FriendSlots = friendSlotSnapshot (se_world (cl_session c)), cst_DHT = dht\<rparr>))
               (save_transfers (by_hash_text s) (s, [])))"

definition SaveState ::
  "(UDPAddr \<Rightarrow> string) \<Rightarrow> (ClientState \<Rightarrow> string + bytes) \<Rightarrow> save_io \<Rightarrow> string \<Rightarrow> Client \<Rightarrow> (Client \<times> string option) option" where
  "SaveState addr_text marshal io path c =
     (let c = (if path \<noteq> [] then SetStatePath path c else c)
      in case cl_store c of
           None \<Rightarrow> Some (c, Some ''state store is not configured'')
         | Some path \<Rightarrow>
             map_option
               (\<lambda>(c, state). let (files, err) = store_Save marshal io path (Some state) (cl_files c)
                  in (c\<lparr>cl_files := files\<rparr>, err))
               (snapshotState addr_text c))"

definition saveStateIfConfigured ::
  "(UDPAddr \<Rightarrow> string) \<Rightarrow> (ClientState \<Rightarrow> string + bytes) \<Rightarrow> save_io \<Rightarrow> Client \<Rightarrow> (Client \<times> string option) option" where
  "saveStateIfConfigured addr_text marshal io c =
     (if cl_store c = None then Some (c, None) else SaveState addr_text marshal io [] c)"

section \<open>Restoring\<close>

text \<open>A copy of resume data, bit by bit.\<close>

fun copy_bits :: "BitField \<Rightarrow> int list \<Rightarrow> BitField \<Rightarrow> BitField result" where
  "copy_bits src [] dst = Inr dst"
| "copy_bits src (i # is) dst =
     (if bf_GetBit src i then (case bf_SetBit dst i of Inl e \<Rightarrow> Inl e | Inr dst \<Rightarrow> copy_bits src is dst)
      else copy_bits src is dst)"

definition cloneResumeData :: "TransferResumeData \<Rightarrow> TransferResumeData result" where
  "cloneResumeData src =
     (case NewBitField (bf_size (rd_Pieces src)) of
        Inl e \<Rightarrow> Inl e
      | Inr dst \<Rightarrow>
          (case copy_bits (rd_Pieces src) [0..bf_size (rd_Pieces src) - 1] dst of
             Inl e \<Rightarrow> Inl e
           | Inr bits \<Rightarrow> Inr (src\<lparr>rd_Pieces := bits\<rparr>)))"

definition clone_option :: "TransferResumeData option \<Rightarrow> TransferResumeData option result" where
  "clone_option rd =
     (case rd of None \<Rightarrow> Inr None
      | Some src \<Rightarrow> (case cloneResumeData src of Inl e \<Rightarrow> Inl e | Inr dst \<Rightarrow> Inr (Some dst)))"

text \<open>
  \<open>mkdir\<close> says which directories cannot be made, \<open>disk\<close> what the files hold, \<open>rnd\<close> are random
  positions. The result is the error, if any.
\<close>

definition restore_transfer ::
  "(string \<Rightarrow> string option) \<Rightarrow> files \<Rightarrow> (nat \<Rightarrow> int) \<Rightarrow> ClientTransferState \<Rightarrow> Session \<Rightarrow> (Session \<times> string option) option" where
  "restore_transfer mkdir disk rnd r s =
     (let path = ct_TargetPath r
      in if path = [] then Some (s, None)
         else
           (case mkdir path of
              Some err \<Rightarrow> Some (s, Some err)
            | None \<Rightarrow>
                (case clone_option (ct_ResumeData r) of
                   Inl e \<Rightarrow> None
                 | Inr rd \<Rightarrow>
                     map_option
                       (\<lambda>(s, t). (upd_peers (upd_transfer t (SetUploadPriority (ct_UploadPrio r))) s, None))
                       (session_AddTransferParams (disk path) rnd
                          \<lparr>atp_Hash = ct_Hash r, atp_CreateTime = ct_CreateTime r, atp_Size = ct_Size r,
                           atp_FilePath = path, atp_Paused = ct_Paused r, atp_ResumeData = rd,
                           atp_Handler = Some (NewDesktopFileHandler path (disk path))\<rparr> s))))"

fun restore_transfers ::
  "(string \<Rightarrow> string option) \<Rightarrow> files \<Rightarrow> (nat \<Rightarrow> nat \<Rightarrow> int) \<Rightarrow> ClientTransferState list \<Rightarrow> Session \<Rightarrow> (Session \<times> string option) option" where
  "restore_transfers mkdir disk rnd [] s = Some (s, None)"
| "restore_transfers mkdir disk rnd (r # rs) s =
     (case restore_transfer mkdir disk (rnd (length rs)) r s of
        None \<Rightarrow> None
      | Some (s, Some err) \<Rightarrow> Some (s, Some err)
      | Some (s, None) \<Rightarrow> restore_transfers mkdir disk rnd rs s)"

definition restore_world :: "ClientState \<Rightarrow> World \<Rightarrow> World" where
  "restore_world state w = applyFriendSlotSnapshot (cst_FriendSlots state) (w\<lparr>wd_credits := cr_ApplySnapshot (cst_Credits state)\<rparr>)"

definition applyState ::
  "int \<Rightarrow> bytes option list \<Rightarrow> (string \<Rightarrow> UDPAddr option) \<Rightarrow> (string \<Rightarrow> string option) \<Rightarrow> (nat \<Rightarrow> nat \<Rightarrow> int) \<Rightarrow>
   ClientState \<Rightarrow> Client \<Rightarrow> (Client \<times> string option) option" where
  "applyState now random resolve mkdir rnd state c =
     (if cst_Version state \<noteq> 0 \<and> cst_Version state \<noteq> 1 \<and> cst_Version state \<noteq> clientStateVersion
      then Some (c, Some ''unsupported state version'')
      else
        (let c = upd_session (upd_peers (restore_world state)) (c\<lparr>cl_serverAddr := cst_ServerAddress state\<rparr>)
         in (case cst_DHT state of
               None \<Rightarrow> Some c
             | Some dht \<Rightarrow> with_tracker now random (ApplyState resolve dht) c) \<bind>
            (\<lambda>c. map_option (\<lambda>(s, err). (c\<lparr>cl_session := s\<rparr>, err))
               (restore_transfers mkdir (cl_files c) rnd (cst_Transfers state) (cl_session c)))))"

definition LoadState ::
  "int \<Rightarrow> bytes option list \<Rightarrow> (string \<Rightarrow> UDPAddr option) \<Rightarrow> (string \<Rightarrow> string option) \<Rightarrow> (nat \<Rightarrow> nat \<Rightarrow> int) \<Rightarrow>
   (bytes \<Rightarrow> string + ClientState) \<Rightarrow> string option \<Rightarrow> string \<Rightarrow> Client \<Rightarrow> (Client \<times> string option) option" where
  "LoadState now random resolve mkdir rnd unmarshal failing path c =
     (let c = (if path \<noteq> [] then SetStatePath path c else c)
      in case cl_store c of
           None \<Rightarrow> Some (c, Some ''state store is not configured'')
         | Some path \<Rightarrow>
             (case store_Load unmarshal failing path (cl_files c) of
                NotExist \<Rightarrow> Some (c, None)
              | LoadError err \<Rightarrow> Some (c, Some err)
              | Loaded state \<Rightarrow> applyState now random resolve mkdir rnd state c))"

end
