(* ===== verification/Client.thy ===== *)
theory Client
  imports Client_State
begin

text \<open>
  The client (\<^verbatim>\<open>client.go\<close>): it locks nothing itself, forwards to the session and the DHT tracker,
  saves the state after every change and tells listeners. What resolving, dialling, files and
  HTTP give is an argument (\<open>Env\<close>); \<open>None\<close> is a panic, and errors are their texts.
\<close>

section \<open>The outside\<close>

text \<open>
  \<open>en_resolve\<close> is \<^verbatim>\<open>net.ResolveTCPAddr\<close>, \<open>en_dial\<close> what dialling the address of a
  connection gives, \<open>en_url\<close> scheme and path of \<^verbatim>\<open>url.Parse\<close>, \<open>en_file\<close> reads a file, \<open>en_fetch\<close> a
  request's status, status line and body, \<open>en_udpError\<close> why a UDP socket does not open, and
  \<open>en_errorText\<close> the text of an error of the readers.
\<close>

record Env =
  en_now :: int
  en_nowMillis :: int
  en_random :: "bytes option list"
  en_positions :: "nat \<Rightarrow> int"
  en_toLower :: "string \<Rightarrow> string"
  en_addrText :: "UDPAddr \<Rightarrow> string"
  en_marshal :: "ClientState \<Rightarrow> string + bytes"
  en_save :: save_io
  en_mkdir :: "string \<Rightarrow> string option"
  en_resolve :: "string \<Rightarrow> string + string"
  en_resolveUDP :: "string \<Rightarrow> string + UDPAddr"
  en_dial :: "nat \<Rightarrow> string option"
  en_url :: "string \<Rightarrow> (string \<times> string) option"
  en_file :: "string \<Rightarrow> string + bytes"
  en_fetch :: "string \<Rightarrow> string + int \<times> string \<times> bytes"
  en_dhtFinds :: bool
  en_udpError :: string
  en_errorText :: "go_error \<Rightarrow> string"

section \<open>Telling listeners\<close>

definition no_dht :: DHTStatus where
  "no_dht = \<lparr>ds_Bootstrapped = False, ds_Firewalled = False, ds_LiveNodes = 0, ds_ReplacementNodes = 0,
     ds_RouterNodes = 0, ds_RunningTraversals = 0, ds_KnownNodes = 0, ds_InitialBootstrap = False, ds_ListenPort = 0,
     ds_StoragePoint = []\<rparr>"

definition client_DHTStatus :: "(UDPAddr \<Rightarrow> string) \<Rightarrow> Client \<Rightarrow> DHTStatus option" where
  "client_DHTStatus addr_text c = (case cl_tracker c of None \<Rightarrow> Some no_dht | Some t \<Rightarrow> tk_Status addr_text t)"

definition current_event :: "(UDPAddr \<Rightarrow> string) \<Rightarrow> Client \<Rightarrow> ClientStatusEvent option" where
  "current_event addr_text c =
     (case (client_Status (cl_session c), client_DHTStatus addr_text c) of
        (Some status, Some dht) \<Rightarrow> Some \<lparr>ce_Status = status, ce_DHT = dht\<rparr>
      | _ \<Rightarrow> None)"

definition emitStatusUpdate :: "(UDPAddr \<Rightarrow> string) \<Rightarrow> Client \<Rightarrow> Client option" where
  "emitStatusUpdate addr_text c =
     map_option (\<lambda>event. c\<lparr>cl_status := send_all event (cl_status c)\<rparr>) (current_event addr_text c)"

definition SubscribeStatusBuffered :: "(UDPAddr \<Rightarrow> string) \<Rightarrow> int \<Rightarrow> Client \<Rightarrow> (Client \<times> nat) option" where
  "SubscribeStatusBuffered addr_text buffer c =
     map_option (\<lambda>event. let (ls, i) = subscribe buffer event (cl_status c) in (c\<lparr>cl_status := ls\<rparr>, i))
       (current_event addr_text c)"

definition emit_progress :: "bool \<Rightarrow> Client \<Rightarrow> Client option" where
  "emit_progress force c =
     map_option (\<lambda>current. c\<lparr>cl_progress := emitTransferProgressUpdate force current (cl_progress c)\<rparr>)
       (buildTransferProgressSnapshots (cl_session c))"

definition SubscribeTransferProgress :: "Client \<Rightarrow> (Client \<times> nat) option" where
  "SubscribeTransferProgress c =
     map_option (\<lambda>current. let (p, i) = SubscribeTransferProgressBuffered 8 current (cl_progress c) in (c\<lparr>cl_progress := p\<rparr>, i))
       (buildTransferProgressSnapshots (cl_session c))"

definition tell :: "Env \<Rightarrow> Client \<Rightarrow> Client option" where
  "tell en c = emitStatusUpdate (en_addrText en) c \<bind> emit_progress True"

definition save_if_configured :: "Env \<Rightarrow> Client \<Rightarrow> (Client \<times> string option) option" where
  "save_if_configured en = saveStateIfConfigured (en_addrText en) (en_marshal en) (en_save en)"

text \<open>Saving, and telling unless saving failed; saving with the error thrown away, then telling.\<close>

definition save_then_tell :: "Env \<Rightarrow> Client \<Rightarrow> (Client \<times> string option) option" where
  "save_then_tell en c =
     (case save_if_configured en c of
        None \<Rightarrow> None
      | Some (c, Some err) \<Rightarrow> Some (c, Some err)
      | Some (c, None) \<Rightarrow> map_option (\<lambda>c. (c, None)) (tell en c))"

definition save_and_tell :: "Env \<Rightarrow> Client \<Rightarrow> Client option" where
  "save_and_tell en c = map_option fst (save_if_configured en c) \<bind> tell en"

section \<open>Transfers\<close>

text \<open>\<^verbatim>\<open>filepath.Clean\<close> and \<^verbatim>\<open>filepath.Join\<close> on paths with slashes; the elements kept so far are in reverse.\<close>

fun clean_elements :: "bool \<Rightarrow> string list \<Rightarrow> string list \<Rightarrow> string list" where
  "clean_elements rooted [] stack = rev stack"
| "clean_elements rooted (e # es) stack =
     (if e = [] \<or> e = ''.'' then clean_elements rooted es stack
      else if e = ''..'' then
        (case stack of
           [] \<Rightarrow> clean_elements rooted es (if rooted then [] else [''..''])
         | k # ks \<Rightarrow> clean_elements rooted es (if k = ''..'' then ''..'' # stack else ks))
      else clean_elements rooted es (e # stack))"

definition path_Clean :: "string \<Rightarrow> string" where
  "path_Clean path =
     (let rooted = (path \<noteq> [] \<and> hd path = CHR ''/'');
          text = (if rooted then ''/'' else []) @ Join (clean_elements rooted (split_on (CHR ''/'') path) []) ''/''
      in if text = [] then ''.'' else text)"

definition path_Join :: "string \<Rightarrow> string \<Rightarrow> string" where
  "path_Join dir name =
     (if dir \<noteq> [] then path_Clean (dir @ ''/'' @ name) else if name \<noteq> [] then path_Clean name else [])"

definition AddLink :: "Env \<Rightarrow> string \<Rightarrow> string \<Rightarrow> Client \<Rightarrow> (Client \<times> (handle \<times> string) \<times> string option) option" where
  "AddLink en linkValue outputDir c =
     (case ParseEMuleLink linkValue of
        Inl err \<Rightarrow> Some (c, (None, []), Some (jerr_Error (Some err)))
      | Inr link \<Rightarrow>
          if el_Type link \<noteq> LinkFile then Some (c, (None, []), Some ''unsupported link type'')
          else
            (case en_mkdir en outputDir of
               Some err \<Rightarrow> Some (c, (None, []), Some err)
             | None \<Rightarrow>
                 (let targetPath = path_Join outputDir (el_StringValue link);
                      handler = NewDesktopFileHandler targetPath (cl_files c targetPath)
                  in case AddTransferWithHandler (en_positions en) (en_nowMillis en) (el_Hash link) (el_NumberValue link)
                            (Some handler) (cl_session c) of
                       None \<Rightarrow> None
                     | Some (s, t) \<Rightarrow>
                         map_option (\<lambda>c. (c, (Some t, targetPath), None))
                           (save_and_tell en (c\<lparr>cl_session := upd_servers (\<lambda>w. fst (RequestSourcesNow (en_dhtFinds en) t w)) s\<rparr>)))))"

definition client_AddTransfer :: "Env \<Rightarrow> AddTransferParams \<Rightarrow> Client \<Rightarrow> (Client \<times> handle) option" where
  "client_AddTransfer en atp c =
     (case session_AddTransferParams (cl_files c (atp_FilePath atp)) (en_positions en) atp (cl_session c) of
        None \<Rightarrow> None
      | Some (s, t) \<Rightarrow> map_option (\<lambda>c. (c, Some t)) (save_and_tell en (c\<lparr>cl_session := s\<rparr>)))"

definition on_transfer :: "Env \<Rightarrow> hash \<Rightarrow> (handle \<Rightarrow> Session \<Rightarrow> Session) \<Rightarrow> Client \<Rightarrow> (Client \<times> string option) option" where
  "on_transfer en h f c =
     (let t = FindTransfer h (cl_session c)
      in if \<not> h_IsValid t then Some (c, Some ''transfer not found'') else save_then_tell en (upd_session (f t) c))"

definition PauseTransfer :: "Env \<Rightarrow> hash \<Rightarrow> Client \<Rightarrow> (Client \<times> string option) option" where
  "PauseTransfer en h c = on_transfer en h h_Pause c"

definition ResumeTransfer :: "Env \<Rightarrow> hash \<Rightarrow> Client \<Rightarrow> (Client \<times> string option) option" where
  "ResumeTransfer en h c = on_transfer en h h_Resume c"

definition client_RemoveTransfer :: "Env \<Rightarrow> hash \<Rightarrow> bool \<Rightarrow> Client \<Rightarrow> (Client \<times> string option) option" where
  "client_RemoveTransfer en h deleteFile c = save_then_tell en (upd_session (session_RemoveTransfer h deleteFile) c)"

definition SetTransferUploadPriority :: "Env \<Rightarrow> hash \<Rightarrow> UploadPriority \<Rightarrow> Client \<Rightarrow> (Client \<times> string option) option" where
  "SetTransferUploadPriority en h priority c =
     (case FindTransfer h (cl_session c) of
        None \<Rightarrow> Some (c, Some ''transfer not found'')
      | Some t \<Rightarrow> save_if_configured en (upd_session (upd_peers (upd_transfer t (SetUploadPriority priority))) c))"

definition client_SuspendUpload :: "Env \<Rightarrow> hash \<Rightarrow> bool \<Rightarrow> Client \<Rightarrow> (Client \<times> u16) option" where
  "client_SuspendUpload en h terminate c =
     (let (w, removed) = SuspendUpload h terminate (se_world (cl_session c))
      in map_option (\<lambda>r. (fst r, removed)) (save_if_configured en (upd_session (upd_peers (\<lambda>_. w)) c)))"

definition client_ResumeUpload :: "Env \<Rightarrow> hash \<Rightarrow> Client \<Rightarrow> Client option" where
  "client_ResumeUpload en h c = map_option fst (save_if_configured en (upd_session (upd_peers (ResumeUpload h)) c))"

definition client_SetFriendSlot :: "Env \<Rightarrow> hash \<Rightarrow> bool \<Rightarrow> Client \<Rightarrow> Client option" where
  "client_SetFriendSlot en h enabled c =
     map_option fst (save_if_configured en (upd_session (upd_peers (SetFriendSlot_session h enabled)) c))"

section \<open>Servers\<close>

definition client_ConnectTo :: "Env \<Rightarrow> string \<Rightarrow> Client \<Rightarrow> (Client \<times> string option) option" where
  "client_ConnectTo en addr c =
     (case en_resolve en addr of
        Inl err \<Rightarrow> Some (c, Some err)
      | Inr address \<Rightarrow>
          (let w = se_servers (cl_session c)
           in map_option (\<lambda>(w, err). (upd_session (\<lambda>s. s\<lparr>se_servers := w\<rparr>) c, err))
                (ConnectTo (en_dial en (sw_next w)) addr (Some address) w)))"

definition Connect :: "Env \<Rightarrow> string \<Rightarrow> Client \<Rightarrow> (Client \<times> string option) option" where
  "Connect en serverAddr c = client_ConnectTo en serverAddr (c\<lparr>cl_serverAddr := serverAddr\<rparr>)"

text \<open>The parts of a list of comma-separated lists, trimmed.\<close>

definition trim :: "string \<Rightarrow> string" where
  "trim s = map (\<lambda>b. char_of (unat b)) (TrimSpace (str s))"

definition list_parts :: "string list \<Rightarrow> string list" where
  "list_parts items = filter (\<lambda>p. p \<noteq> []) (concat (map (\<lambda>item. map trim (split_on (CHR '','') item)) items))"

definition normalized :: "string list \<Rightarrow> string list" where
  "normalized items = rev (fold (\<lambda>p seen. if p \<in> set seen then seen else p # seen) (list_parts items) [])"

fun connect_each :: "Env \<Rightarrow> string list \<Rightarrow> Client \<Rightarrow> (Client \<times> string option) option" where
  "connect_each en [] c = Some (c, None)"
| "connect_each en (a # as) c =
     (case client_ConnectTo en a c of
        None \<Rightarrow> None
      | Some (c, Some err) \<Rightarrow> Some (c, Some err)
      | Some (c, None) \<Rightarrow> connect_each en as c)"

definition ConnectServers :: "Env \<Rightarrow> string list \<Rightarrow> Client \<Rightarrow> (Client \<times> string option) option" where
  "ConnectServers en serverAddrs c =
     (let addrs = normalized serverAddrs
      in if addrs = [] then Some (c, Some ''no server address provided'')
         else connect_each en addrs (c\<lparr>cl_serverAddr := Join addrs '',''\<rparr>))"

definition fetchRemoteResource :: "Env \<Rightarrow> string \<Rightarrow> string + bytes" where
  "fetchRemoteResource en source =
     (case en_fetch en source of
        Inl err \<Rightarrow> Inl err
      | Inr (status, line, body) \<Rightarrow>
          if status < 200 \<or> status \<ge> 300 then Inl (''download failed: '' @ line) else Inr body)"

text \<open>The bytes that a source names: a file, a URL of a file or a resource.\<close>

definition read_source :: "Env \<Rightarrow> string \<Rightarrow> string + bytes" where
  "read_source en source =
     (case en_url en source of
        Some (scheme, path) \<Rightarrow>
          if scheme = ''file'' then en_file en path
          else if scheme = ''http'' \<or> scheme = ''https'' then fetchRemoteResource en source
          else en_file en source
      | None \<Rightarrow> en_file en source)"

definition parsed :: "Env \<Rightarrow> (bytes \<Rightarrow> 'a result) \<Rightarrow> string + bytes \<Rightarrow> string + 'a" where
  "parsed en parse r =
     (case r of
        Inl err \<Rightarrow> Inl err
      | Inr raw \<Rightarrow> (case parse raw of Inl e \<Rightarrow> Inl (en_errorText en e) | Inr x \<Rightarrow> Inr x))"

definition loadServerMet :: "Env \<Rightarrow> string \<Rightarrow> string + ServerMet" where
  "loadServerMet en source =
     (let source = trim source
      in if source = [] then Inl ''server.met source is empty''
         else if take 7 (en_toLower en source) = ''ed2k://'' then
           (case ParseEMuleLink source of
              Inl err \<Rightarrow> Inl (jerr_Error (Some err))
            | Inr link \<Rightarrow>
                if el_Type link \<noteq> LinkServers then Inl ''ed2k link is not a serverlist link''
                else parsed en ParseServerMet (read_source en (el_StringValue link)))
         else parsed en ParseServerMet (read_source en source))"

definition LoadServerMet :: "Env \<Rightarrow> string \<Rightarrow> string + ServerMetEntry list" where
  "LoadServerMet en path = (case loadServerMet en path of Inl err \<Rightarrow> Inl err | Inr list \<Rightarrow> Inr (sm_Servers list))"

definition ConnectServerMet :: "Env \<Rightarrow> string \<Rightarrow> Client \<Rightarrow> (Client \<times> string option) option" where
  "ConnectServerMet en path c =
     (case loadServerMet en path of
        Inl err \<Rightarrow> Some (c, Some err)
      | Inr list \<Rightarrow> ConnectServers en (map (map (\<lambda>b. char_of (unat b))) (Addresses list)) c)"

text \<open>\<^verbatim>\<open>net.JoinHostPort\<close>: a host with a colon is bracketed.\<close>

definition join_host_port :: "string \<Rightarrow> string \<Rightarrow> string" where
  "join_host_port host port =
     (if CHR '':'' \<in> set host then ''['' @ host @ '']:'' @ port else host @ '':'' @ port)"

definition ConnectServerLink :: "Env \<Rightarrow> string \<Rightarrow> Client \<Rightarrow> (Client \<times> string option) option" where
  "ConnectServerLink en linkValue c =
     (case ParseEMuleLink linkValue of
        Inl err \<Rightarrow> Some (c, Some (jerr_Error (Some err)))
      | Inr link \<Rightarrow>
          (case el_Type link of
             LinkServer \<Rightarrow> ConnectServers en [join_host_port (el_StringValue link) (FormatInt (el_NumberValue link))] c
           | LinkServers \<Rightarrow> ConnectServerMet en (el_StringValue link) c
           | _ \<Rightarrow> Some (c, Some ''unsupported server link type'')))"

definition ConnectSavedServer :: "Env \<Rightarrow> Client \<Rightarrow> (Client \<times> string option) option" where
  "ConnectSavedServer en c =
     (if cl_serverAddr c = [] then Some (c, Some ''saved server address is empty'')
      else ConnectServers en [cl_serverAddr c] c)"

section \<open>The DHT\<close>

definition loadDHTNodesDat :: "Env \<Rightarrow> string \<Rightarrow> string + NodesDat" where
  "loadDHTNodesDat en source =
     (let source = trim source
      in if source = [] then Inl ''nodes.dat source is empty'' else parsed en ParseNodesDat (read_source en source))"

text \<open>Whether a source was loaded, and the errors of the others; \<open>ApplyNodesDat\<close> itself has none.\<close>

fun load_each :: "Env \<Rightarrow> string list \<Rightarrow> bool \<times> string list \<Rightarrow> Client \<Rightarrow> (Client \<times> bool \<times> string list) option" where
  "load_each en [] r c = Some (c, r)"
| "load_each en (part # parts) (loaded, errs) c =
     (case loadDHTNodesDat en part of
        Inl err \<Rightarrow> load_each en parts (loaded, errs @ [part @ '': '' @ err]) c
      | Inr nodes \<Rightarrow>
          with_tracker (en_now en) (en_random en) (ApplyNodesDat nodes) c \<bind> load_each en parts (True, errs))"

definition LoadDHTNodesDat :: "Env \<Rightarrow> string list \<Rightarrow> Client \<Rightarrow> (Client \<times> string option) option" where
  "LoadDHTNodesDat en path c =
     (if path = [] then Some (c, Some ''nodes.dat path is empty'')
      else
        map_option
          (\<lambda>(c, loaded, errs).
             (c, if loaded then None else if errs \<noteq> [] then Some (Join errs [CHR 0x0A]) else Some ''nodes.dat path is empty''))
          (load_each en (list_parts path) (False, []) c))"

fun add_nodes :: "Env \<Rightarrow> string list \<Rightarrow> DHTTracker \<Rightarrow> (DHTTracker \<times> string option) option" where
  "add_nodes en [] t = Some (t, None)"
| "add_nodes en (part # parts) t =
     (case en_resolveUDP en part of
        Inl err \<Rightarrow> Some (t, Some err)
      | Inr addr \<Rightarrow> AddNode addr t \<bind> add_nodes en parts)"

definition AddDHTBootstrapNodes :: "Env \<Rightarrow> string list \<Rightarrow> Client \<Rightarrow> (Client \<times> string option) option" where
  "AddDHTBootstrapNodes en nodes c =
     (let (t, c) = EnableDHT (en_now en) (en_random en) c
      in map_option (\<lambda>(t, err). (c\<lparr>cl_tracker := Some t\<rparr>, err)) (add_nodes en (list_parts nodes) t))"

definition SetDHTStoragePoint :: "Env \<Rightarrow> string \<Rightarrow> Client \<Rightarrow> (Client \<times> string option) option" where
  "SetDHTStoragePoint en address c =
     (let set = (\<lambda>addr. map_option (\<lambda>c. (c, None)) (with_tracker (en_now en) (en_random en) (SetStoragePoint addr) c))
      in if trim address = [] then set None
         else (case en_resolveUDP en address of Inl err \<Rightarrow> Some (c, Some err) | Inr addr \<Rightarrow> set (Some addr)))"

section \<open>Starting, running and stopping\<close>

text \<open>\<open>opened\<close> is the UDP socket, \<open>bound\<close> the TCP port. Only the first call does anything.\<close>

definition client_Start ::
  "Env \<Rightarrow> string + int \<Rightarrow> ((UDPAddr \<Rightarrow> bytes \<Rightarrow> bool) \<times> bytes \<times> int) option \<Rightarrow> Client \<Rightarrow> (Client \<times> string option) option" where
  "client_Start en bound opened c =
     (if cl_startCalled c then Some (c, None)
      else
        (let c = c\<lparr>cl_startCalled := True\<rparr>;
             c = (if set_EnableDHT (wd_settings (se_world (cl_session c))) \<and> cl_tracker c = None
                  then snd (EnableDHT (en_now en) (en_random en) c) else c);
             (s, err) = Listen bound (cl_session c);
             c = c\<lparr>cl_session := s\<rparr>
         in case err of
              Some e \<Rightarrow> Some (c, Some e)
            | None \<Rightarrow>
                (case cl_tracker c of
                   None \<Rightarrow> map_option (\<lambda>c. (c, None)) (tell en (c\<lparr>cl_started := True\<rparr>))
                 | Some t \<Rightarrow>
                     (case Start opened t of
                        None \<Rightarrow> None
                      | Some (False, t) \<Rightarrow>
                          Some (upd_session CloseListener (c\<lparr>cl_tracker := Some t\<rparr>), Some (en_udpError en))
                      | Some (True, t) \<Rightarrow>
                          (case ListenPort t of
                             None \<Rightarrow> None
                           | Some port \<Rightarrow>
                               map_option (\<lambda>c. (c, None))
                                 (tell en (upd_session (SyncDHTListenPort (Some port)) (c\<lparr>cl_tracker := Some t, cl_started := True\<rparr>))))))))"

text \<open>One turn of the loop: a tick, and a save when the interval has passed since the last one (in nanoseconds).\<close>

definition loop_turn ::
  "Env \<Rightarrow> (bytes \<Rightarrow> bytes result) \<Rightarrow> (bytes \<Rightarrow> bytes) \<Rightarrow> Outside \<Rightarrow> int \<Rightarrow> int \<Rightarrow> int \<Rightarrow> Client \<Rightarrow> (Client \<times> bool) option option" where
  "loop_turn en inflate toLower ou now ms sinceSave c =
     map_option
       (\<lambda>r. case r of
          None \<Rightarrow> None
        | Some s \<Rightarrow>
            (let c = c\<lparr>cl_session := s\<rparr>
             in if cl_store c \<noteq> None \<and> cl_autoSaveTick c > 0 \<and> sinceSave \<ge> cl_autoSaveTick c
                then map_option (\<lambda>x. (fst x, True)) (SaveState (en_addrText en) (en_marshal en) (en_save en) [] c)
                else Some (c, False)))
       (SecondTick inflate toLower ou now ms (upd_peers (\<lambda>w. w\<lparr>wd_now := now\<rparr>) (cl_session c)))"

definition status_turn :: "Env \<Rightarrow> Client \<Rightarrow> Client option" where
  "status_turn en c = emitStatusUpdate (en_addrText en) c \<bind> emit_progress False"

text \<open>Whether \<open>Wait\<close> has nothing to wait for.\<close>

definition wait_done :: "Client \<Rightarrow> bool" where
  "wait_done c \<longleftrightarrow> \<not> cl_started c \<or> (\<forall>h \<in> set (GetTransfers (cl_session c)). h_IsFinished h (cl_session c))"

definition Stop :: "Env \<Rightarrow> Client \<Rightarrow> (Client \<times> string option) option" where
  "Stop en c =
     (if cl_closed c then Some (c, None)
      else
        (let c = upd_session (\<lambda>s. CloseListener (upd_servers DisconnectFrom s)) (c\<lparr>cl_closed := True\<rparr>)
         in save_if_configured en c))"

end
