(* ===== verification/Client_Properties.thy ===== *)
theory Client_Properties
  imports Client
begin

text \<open>
  What a client promises: a listener that keeps up sees the progress of every transfer
  (\<open>progress_in_sync\<close>).
\<close>

section \<open>Progress\<close>

text \<open>What a listener makes of an event, and of all that waits for it.\<close>

type_synonym view = "hash \<Rightarrow> TransferProgressSnapshot option"

definition told :: "TransferProgressSnapshot list \<Rightarrow> view \<Rightarrow> view" where
  "told event v = fold (\<lambda>p v. v(pg_Hash p := if pg_Removed p then None else Some p)) event v"

definition drain :: "nat \<Rightarrow> Progress \<times> view \<Rightarrow> Progress \<times> view" where
  "drain i r =
     (let (p, v) = r; (events, ls) = receive i (pr_listeners p) in (p\<lparr>pr_listeners := ls\<rparr>, fold told events v))"

definition follow :: "nat \<Rightarrow> (bool \<times> TransferProgressSnapshot list) list \<Rightarrow> Progress \<times> view \<Rightarrow> Progress \<times> view" where
  "follow i = fold (\<lambda>(force, current) (p, v). drain i (emitTransferProgressUpdate force current p, v))"

text \<open>The progress of the transfers of a session: each hash once, none removed.\<close>

definition reports :: "TransferProgressSnapshot list \<Rightarrow> bool" where
  "reports current \<longleftrightarrow> distinct (map pg_Hash current) \<and> (\<forall>p \<in> set current. \<not> pg_Removed p)"

definition same_progress :: "TransferProgressSnapshot \<Rightarrow> TransferProgressSnapshot \<Rightarrow> bool" where
  "same_progress a b \<longleftrightarrow> \<not> transferProgressChanged a b"

lemma same_progress_trans: "same_progress a b \<Longrightarrow> same_progress b c \<Longrightarrow> same_progress a c"
  and same_progress_refl [simp]: "same_progress a a"
  by (simp_all add: same_progress_def transferProgressChanged_def)

definition reported :: "TransferProgressSnapshot list \<Rightarrow> view" where
  "reported current h = find (\<lambda>p. pg_Hash p = h) current"

lemma reported_iff: "reports current \<Longrightarrow> reported current h = Some p \<longleftrightarrow> p \<in> set current \<and> pg_Hash p = h"
  by (induction current) (auto simp: reported_def reports_def image_iff)

lemma reported_None: "reported current h = None \<longleftrightarrow> h \<notin> pg_Hash ` set current"
  by (induction current) (auto simp: reported_def)

lemma map_of_progress: "reports current \<Longrightarrow> map_of (progress_map current) h = reported current h"
proof -
  have "map_of (fold (\<lambda>p m. AList.update (pg_Hash p) p m) ps m) h =
      (case reported ps h of Some p \<Rightarrow> Some p | None \<Rightarrow> map_of m h)" if "distinct (map pg_Hash ps)" for ps m
    using that
  proof (induction ps arbitrary: m)
    case (Cons p ps)
    then have "pg_Hash p \<notin> pg_Hash ` set ps" by simp
    then have "reported ps (pg_Hash p) = None" by (simp add: reported_None)
    with Cons show ?case by (auto simp: reported_def update_conv split: option.split)
  qed (simp add: reported_def)
  then show "reports current \<Longrightarrow> map_of (progress_map current) h = reported current h"
    by (simp add: progress_map_def reports_def split: option.split)
qed

lemma distinct_progress: "distinct (map fst (progress_map current))"
proof -
  have "distinct (map fst m) \<Longrightarrow> distinct (map fst (fold (\<lambda>p m. AList.update (pg_Hash p) p m) ps m))" for ps :: "TransferProgressSnapshot list" and m
    by (induction ps arbitrary: m) (simp_all add: AList.distinct_update)
  then show ?thesis by (simp add: progress_map_def)
qed

text \<open>A view that agrees with what was reported last.\<close>

definition in_sync :: "view \<Rightarrow> TransferProgressSnapshot list \<Rightarrow> bool" where
  "in_sync v current \<longleftrightarrow> (\<forall>h. rel_option same_progress (v h) (reported current h))"

lemma told_other: "h \<notin> pg_Hash ` set event \<Longrightarrow> told event v h = v h"
  unfolding told_def by (induction event arbitrary: v) simp_all

lemma told_one:
  "p \<in> set event \<Longrightarrow> distinct (map pg_Hash event) \<Longrightarrow> told event v (pg_Hash p) = (if pg_Removed p then None else Some p)"
proof (induction event arbitrary: v)
  case (Cons q event)
  have "told (q # event) v = told event (v(pg_Hash q := if pg_Removed q then None else Some q))" by (simp add: told_def)
  with Cons told_other [of "pg_Hash p" event] show ?case by auto
qed simp

lemma in_sync_step:
  assumes sync: "in_sync v old" and old: "reports old" and new: "reports current"
  shows "in_sync (told (progress_changes force (progress_map old) current) v) current"
  unfolding in_sync_def
proof
  fix h
  let ?changed = "filter (\<lambda>p. force \<or> (case reported old (pg_Hash p) of None \<Rightarrow> True | Some prev \<Rightarrow> transferProgressChanged prev p)) current"
  let ?gone = "map (\<lambda>(h, prev). prev\<lparr>pg_Removed := True\<rparr>) (filter (\<lambda>(h, prev). reported current h = None) (progress_map old))"
  have event: "progress_changes force (progress_map old) current = ?changed @ ?gone"
    by (simp add: progress_changes_def map_of_progress old new)
  have key: "pg_Hash p = k" if "(k, p) \<in> set (progress_map old)" for k p
    using that map_of_progress [OF old, of k] distinct_progress reported_iff [OF old] by (metis map_of_eq_Some_iff)
  then have gone: "map pg_Hash ?gone = map fst (filter (\<lambda>(h, prev). reported current h = None) (progress_map old))"
    by (auto simp: map_eq_conv)
  have dist: "distinct (map pg_Hash (?changed @ ?gone))"
    unfolding map_append distinct_append gone
    using new distinct_progress [of old] by (auto simp: reports_def distinct_map_filter reported_None)
  have old_h: "rel_option same_progress (v h) (reported old h)" using sync by (simp add: in_sync_def)
  show "rel_option same_progress (told (progress_changes force (progress_map old) current) v h) (reported current h)"
  proof (cases "reported current h")
    case None
    show ?thesis
    proof (cases "reported old h")
      case None
      have "h \<notin> set (map pg_Hash (?changed @ ?gone))"
      proof
        assume "h \<in> set (map pg_Hash (?changed @ ?gone))"
        then consider "h \<in> pg_Hash ` set current"
          | "h \<in> set (map fst (filter (\<lambda>(h, prev). reported current h = None) (progress_map old)))"
          unfolding map_append gone by auto
        then show False
        proof cases
          case 1
          with \<open>reported current h = None\<close> show False by (simp add: reported_None)
        next
          case 2
          then have "h \<in> fst ` set (progress_map old)" by auto
          then have "map_of (progress_map old) h \<noteq> None" by (simp add: map_of_eq_None_iff)
          with None show False by (simp add: map_of_progress [OF old])
        qed
      qed
      then have "h \<notin> pg_Hash ` set (?changed @ ?gone)" by (simp only: set_map not_False_eq_True)
      then show ?thesis using told_other [of h "?changed @ ?gone" v] event None \<open>reported current h = None\<close> old_h by simp
    next
      case (Some q)
      then have "(h, q) \<in> set (progress_map old)" using map_of_progress [OF old, of h] by (simp add: map_of_SomeD)
      then have "q\<lparr>pg_Removed := True\<rparr> \<in> set (?changed @ ?gone)" "pg_Hash (q\<lparr>pg_Removed := True\<rparr>) = h"
        using None key by force+
      from told_one [OF this(1) dist, of v] this(2) show ?thesis using None event by simp
    qed
  next
    case (Some p)
    then have p: "p \<in> set current" "pg_Hash p = h" "\<not> pg_Removed p"
      using reported_iff [OF new] new by (auto simp: reports_def)
    show ?thesis
    proof (cases "p \<in> set ?changed")
      case True
      then have "p \<in> set (?changed @ ?gone)" by simp
      from told_one [OF this dist, of v] show ?thesis using p Some event by simp
    next
      case False
      then obtain q where q: "reported old h = Some q" "same_progress q p"
        using p by (auto simp: same_progress_def split: option.splits)
      have "h \<notin> pg_Hash ` set (?changed @ ?gone)"
      proof
        assume "h \<in> pg_Hash ` set (?changed @ ?gone)"
        then have "h \<in> set (map pg_Hash (?changed @ ?gone))" by (simp only: set_map)
        then consider "h \<in> pg_Hash ` set ?changed" | "h \<in> set (map pg_Hash ?gone)"
          unfolding map_append set_append Un_iff by (simp only: set_map) blast
        then show False
        proof cases
          case 1
          then obtain r where "r \<in> set ?changed" "pg_Hash r = h" by auto
          then have "reported current h = Some r" by (auto simp: reported_iff [OF new])
          then have "r = p" using Some by simp
          with \<open>r \<in> set ?changed\<close> False show False by simp
        next
          case 2
          then show False unfolding gone using Some by auto
        qed
      qed
      then show ?thesis
        using told_other [of h "?changed @ ?gone" v] event old_h q Some same_progress_trans
        by (auto simp: option_rel_Some2)
    qed
  qed
qed


text \<open>The listener \<open>i\<close> is there and has taken what was sent.\<close>

definition listening :: "nat \<Rightarrow> Progress \<Rightarrow> bool" where
  "listening i p \<longleftrightarrow> (\<exists>b > 0. map_of (ls_table (pr_listeners p)) i = Some \<lparr>ln_buffer = b, ln_events = []\<rparr>)"

lemma map_of_sent: "map_of (ls_table (send_all e ls)) i = map_option (try_send e) (map_of (ls_table ls) i)"
  by (simp add: send_all_def map_of_map)

lemma drain_emit:
  assumes "listening i p" "in_sync v old" "reports old" "pr_last p = progress_map old" "reports current"
  shows "case drain i (emitTransferProgressUpdate force current p, v) of (p', v') \<Rightarrow>
    listening i p' \<and> in_sync v' current \<and> pr_last p' = progress_map current"
proof -
  from assms(1) obtain b where b: "0 < b" "map_of (ls_table (pr_listeners p)) i = Some \<lparr>ln_buffer = b, ln_events = []\<rparr>"
    by (auto simp: listening_def)
  note sync = in_sync_step [OF assms(2,3,5), of force]
  show ?thesis
  proof (cases "progress_changes force (pr_last p) current = []")
    case True
    with sync assms(4) have "in_sync v current" by (simp add: told_def)
    with True b show ?thesis
      by (simp add: drain_def emitTransferProgressUpdate_def receive_def listening_def map_of_sent update_conv Let_def)
  next
    case False
    with sync assms(4) b show ?thesis
      by (simp add: drain_def emitTransferProgressUpdate_def receive_def listening_def map_of_sent update_conv try_send_def Let_def)
  qed
qed

text \<open>C40: a listener that subscribes when everything that changed has been told (the table of the last reports
  is that of the transfers there are) and that takes what waits for it before the next emission, so that its
  channel, however small, never is full, knows after every emission which transfers there are, and of each its
  state, whether it is paused and what has been done and received. Every emission sees each hash at most once.
  A listener that does not keep up misses events, and nothing tells it later.\<close>

theorem progress_in_sync:
  assumes "reports old" and "pr_last p = progress_map old"
    and "\<forall>(force, current) \<in> set emissions. reports current"
    and "SubscribeTransferProgressBuffered buffer old p = (p1, i)"
    and "follow i emissions (drain i (p1, \<lambda>_. None)) = (p2, v)"
  shows "map_option (\<lambda>t. (pg_State t, pg_Paused t, pg_TotalDone t, pg_TotalReceived t)) (v h) =
    map_option (\<lambda>t. (pg_State t, pg_Paused t, pg_TotalDone t, pg_TotalReceived t))
      (find (\<lambda>t. pg_Hash t = h) (if emissions = [] then old else snd (last emissions)))"
proof -
  have more: "listening i p \<Longrightarrow> in_sync v old \<Longrightarrow> reports old \<Longrightarrow> pr_last p = progress_map old \<Longrightarrow>
      \<forall>(force, current) \<in> set es. reports current \<Longrightarrow> follow i es (p, v) = (p2, v2) \<Longrightarrow>
      in_sync v2 (if es = [] then old else snd (last es))" for es p p2 v v2 old
  proof (induction es arbitrary: p v old)
    case (Cons e es)
    obtain force current where e: "e = (force, current)" by (cases e)
    obtain p' v' where d: "drain i (emitTransferProgressUpdate force current p, v) = (p', v')" by (rule prod.exhaust)
    have "listening i p' \<and> in_sync v' current \<and> pr_last p' = progress_map current"
      using drain_emit [OF Cons.prems(1-4), of current force] Cons.prems(5) d e by auto
    with Cons.IH [of p' v' current] Cons.prems(5,6) d e show ?case by (auto simp: follow_def)
  qed (simp add: follow_def)
  obtain v1 p1' where d: "drain i (p1, \<lambda>_. None) = (p1', v1)" by (rule prod.exhaust)
  have start: "listening i p1'" "v1 = told old (\<lambda>_. None)" "pr_last p1' = progress_map old"
    using d assms(2,4)
    by (auto simp: SubscribeTransferProgressBuffered_def subscribe_def drain_def receive_def listening_def try_send_def update_conv Let_def)
  have "progress_changes True [] old = old" by (simp add: progress_changes_def)
  moreover have "in_sync (told (progress_changes True (progress_map []) old) (\<lambda>_. None)) old"
    by (rule in_sync_step [OF _ _ assms(1)]) (simp_all add: in_sync_def reported_def reports_def)
  ultimately have "in_sync v1 old" by (simp add: start(2) progress_map_def)
  from more [OF start(1) this assms(1) start(3) assms(3)] assms(5) d
  have "in_sync v (if emissions = [] then old else snd (last emissions))" by simp
  then have "rel_option same_progress (v h) (reported (if emissions = [] then old else snd (last emissions)) h)"
    by (simp add: in_sync_def)
  then show ?thesis
    by (cases "v h") (auto simp: reported_def option_rel_Some1 same_progress_def transferProgressChanged_def)
qed

text \<open>One transfer makes progress, a second one comes and the first one is removed; the channel holds one event.\<close>

definition demo_h1 :: hash where "demo_h1 = replicate 16 1"
definition demo_h2 :: hash where "demo_h2 = replicate 16 2"

definition demo_progress :: "hash \<Rightarrow> TransferState \<Rightarrow> int \<Rightarrow> TransferProgressSnapshot" where
  "demo_progress h state n = \<lparr>pg_Hash = h, pg_FileName = ''a'', pg_FilePath = ''/a'', pg_State = state, pg_Paused = False,
     pg_Removed = False, pg_TotalDone = n, pg_TotalReceived = n, pg_TotalWanted = 30, pg_DownloadingPieces = 1,
     pg_ActivePeers = 1, pg_NumPeers = 1\<rparr>"

definition demo_old :: "TransferProgressSnapshot list" where
  "demo_old = [demo_progress demo_h1 Downloading 10]"

definition demo_emissions :: "(bool \<times> TransferProgressSnapshot list) list" where
  "demo_emissions =
     [(False, [demo_progress demo_h1 Downloading 20]),
      (False, [demo_progress demo_h1 Downloading 20, demo_progress demo_h2 Downloading 5]),
      (False, [demo_progress demo_h2 Downloading 7])]"

lemma progress_in_sync_witness:
  "let p = \<lparr>pr_last = progress_map demo_old, pr_listeners = \<lparr>ls_table = [], ls_nextID = 0\<rparr>\<rparr>;
       (p1, i) = SubscribeTransferProgressBuffered 0 demo_old p;
       (p2, v) = follow i demo_emissions (drain i (p1, \<lambda>_. None))
   in map_option (\<lambda>t. (pg_State t, pg_TotalDone t)) (v demo_h2) = Some (Downloading, 7) \<and> v demo_h1 = None"
proof -
  define p :: Progress where "p = \<lparr>pr_last = progress_map demo_old, pr_listeners = \<lparr>ls_table = [], ls_nextID = 0\<rparr>\<rparr>"
  obtain p1 i where s: "SubscribeTransferProgressBuffered 0 demo_old p = (p1, i)" by (rule prod.exhaust)
  obtain p2 v where f: "follow i demo_emissions (drain i (p1, \<lambda>_. None)) = (p2, v)" by (rule prod.exhaust)
  have distinct: "demo_h1 \<noteq> demo_h2" by (simp add: demo_h1_def demo_h2_def)
  have "reports demo_old" by (simp add: reports_def demo_old_def demo_progress_def)
  moreover have "pr_last p = progress_map demo_old" by (simp add: p_def)
  moreover have "\<forall>(force, current) \<in> set demo_emissions. reports current"
    using distinct by (auto simp: demo_emissions_def reports_def demo_progress_def)
  ultimately have all: "map_option (\<lambda>t. (pg_State t, pg_Paused t, pg_TotalDone t, pg_TotalReceived t)) (v h) =
    map_option (\<lambda>t. (pg_State t, pg_Paused t, pg_TotalDone t, pg_TotalReceived t))
      (find (\<lambda>t. pg_Hash t = h) (if demo_emissions = [] then demo_old else snd (last demo_emissions)))" for h
    using s f by (rule progress_in_sync)
  have known: "map_option (\<lambda>t. (pg_State t, pg_TotalDone t)) (v demo_h2) = Some (Downloading, 7)" "v demo_h1 = None"
    using all [of demo_h2] all [of demo_h1] distinct by (auto simp: demo_emissions_def demo_progress_def)
  show ?thesis
    unfolding Let_def p_def [symmetric] s prod.case f using known by blast
qed

end
