(* ===== verification/Spec2Isabelle.thy ===== *)
theory Spec2Isabelle
  imports Session_Properties Kad_Properties Peer_Properties Server_Properties Session_Invariant Client_Properties
begin

text \<open>
  A verification development of goed2k, an eDonkey and Kademlia client library in Go.

  The program. A client (\<^verbatim>\<open>client.go\<close>) drives a session (\<^verbatim>\<open>session.go\<close>), and that drives
  transfers (\<^verbatim>\<open>transfer.go\<close>), servers (\<^verbatim>\<open>server_connection.go\<close>), the upload queue
  (\<^verbatim>\<open>upload_queue.go\<close>) and a queue of disk tasks (\<^verbatim>\<open>async_disk.go\<close>). A transfer owns a
  piece picker (\<^verbatim>\<open>piece_picker.go\<close>), a piece manager (\<^verbatim>\<open>piece_manager.go\<close>), a peer list
  (\<^verbatim>\<open>policy.go\<close>) and peer connections (\<^verbatim>\<open>peer_connection.go\<close>), which exchange the packets of
  \<^verbatim>\<open>protocol/client\<close>; servers are spoken to in those of \<^verbatim>\<open>protocol/server\<close>, Kademlia nodes,
  which a tracker (\<^verbatim>\<open>dht_tracker.go\<close>) looks after, in those of \<^verbatim>\<open>protocol/kad\<close>. All of them rest
  on the primitives of \<^verbatim>\<open>protocol\<close> and on the file geometry of \<^verbatim>\<open>data\<close>.

  Primitives. \<open>Prelude\<close> has the machine integers, Go's errors and panics as values, and the
  shared collections of rules. \<open>Three_Way\<close> is the contract of the \<^verbatim>\<open>Compare\<close> methods and of
  binary search, \<open>Stable_Sort\<close> that of sorting. \<open>Wire\<close> reads and writes bytes and states the contract
  of \<^verbatim>\<open>Serializable\<close> (\<open>codec\<close>, \<open>sized_codec\<close>). \<open>MD4\<close>, \<open>Hashes\<close>, \<open>Tags\<close>, \<open>Endpoints\<close> and
  \<open>Bit_Field\<close> are the files of \<^verbatim>\<open>protocol\<close> with those names; \<open>Errors\<close> has the error codes and
  \<open>Links\<close> the links of \<^verbatim>\<open>emule_link.go\<close>. \<open>Framing\<close> has frames and the packet registry, generic in the
  packet type (locale \<open>packet_registry\<close>); \<open>Client_Packets\<close> and \<open>Server_Packets\<close> interpret it.
  \<open>Kad_Packets\<close> has the Kademlia messages and the XOR metric.

  Files. \<open>Geometry\<close> cuts a file into pieces, blocks and requests, and \<open>Picker\<close> chooses what to
  download; \<open>Picker_View\<close> reads a picker as two maps, piece to state and block to state, and says
  what every operation does to them. \<open>Piece_Store\<close> writes and hashes the blocks. \<open>Transfers\<close> puts
  them together, \<open>Transfer_Status\<close> reports on them, and \<open>Disk_Tasks\<close> has the queue of disk tasks and its
  goroutines. \<open>Download\<close> carries one invariant of picker, store, queue and hash set through
  every event of a download; \<open>Session_Run\<close> has a session downloading, as an inductive set of states,
  and \<open>Session_Properties\<close> what follows: pieces are verified, and the queue serves in order and drains.
  These sessions start without resume data, with sizes that are no multiple of the piece
  size (for those \<open>NewTransfer\<close> cuts the last piece short), on a disk that works, and receive blocks of
  the right length.

  Peers. \<open>Peer_Policy\<close> is the peer list, \<open>Stats\<close> the counters, \<open>Conn_Stream\<close> the byte stream of
  a connection and \<open>Peer_State\<close> the state of a peer connection. \<open>World\<close> is what peers share: connections and
  transfers by address, settings, credits, the record of the upload queue. \<open>Upload_Queue\<close> has the queue's operations,
  \<open>Peer_Uploads\<close> and \<open>Peer_Downloads\<close> the handlers of both directions, \<open>Peer_Session\<close> dialling and the
  rounds of a session. \<open>Peer_Frames\<close> shows what handlers leave alone and that processing ends,
  \<open>Block_Stream\<close> and \<open>Block_Arrival\<close> follow a block from one client to the other, \<open>Session_Steps\<close> has the
  invariant of all steps on the world, and \<open>Peer_Properties\<close> what follows.

  Servers, searches and Kademlia. \<open>Server_Session\<close> and \<open>Server_Properties\<close> have the servers of a session,
  \<open>Search\<close> its searches. \<open>Kad_Routing\<close> is the routing table, \<open>Kad_Rpc\<close> the requests under way,
  \<open>Kad_Tracker\<close> the tracker with its indices, \<open>Kad_Traversal\<close> searches in the network and the
  handlers of packets, \<open>Kad_Properties\<close> what follows.

  The whole. \<open>Whole_Session\<close> joins peers, servers and the disk queue in one state, with the second
  tick and the operations on transfers; \<open>Session_Invariant\<close> shows that all parts keep their invariants
  in every state it reaches. \<open>Client_View\<close> is what a client shows and tells its listeners,
  \<open>Client_State\<close> the saved state, \<open>Client\<close> its operations, and \<open>Client_Properties\<close> shows
  that a listener that keeps up knows the progress of every transfer.

  Correspondence. A Go struct is a record with the source's field names behind a prefix; a
  reader is a function from the bytes still to read to an error or a value with the rest; a
  method with a pointer receiver returns its updated receiver. Index errors and other panics
  are values: \<open>None\<close>, or an error that \<open>is_panic\<close>. A \<^verbatim>\<open>*Peer\<close> is its position in the list, a
  \<^verbatim>\<open>*PeerConnection\<close>, a \<^verbatim>\<open>*Transfer\<close> and a \<^verbatim>\<open>*ServerConnection\<close> are addresses. Go's maps and slices
  are functions and lists. Fixed-width integers are words where the code
  relies on their width, and integers where \<open>int64_bounds\<close> shows that no overflow occurs;
  \<^verbatim>\<open>float64\<close> is the real numbers.

  Loops. \<open>ProcessIncoming\<close> calls itself; its depth is bounded by the unread bytes, which
  \<open>processing_ends\<close> shows to be enough. The loop of \<open>ConnectNewPeers\<close> is a partial function,
  and \<open>ConnectNewPeers_returns\<close> shows that it ends. All other recursions are structural or have a measure.

  Parameters. Inflation of compressed packets (\<^verbatim>\<open>compress/zlib\<close>), letter case
  (\<^verbatim>\<open>strings.ToLower\<close> on text beyond ASCII), JSON text, name resolution, HTTP, random bytes, the clock and the
  outcome of every system call are arguments of the definitions that use them.

  Not modelled: mutexes other than the tracker's, interleavings finer than one operation, the
  mapping of ports by UPnP, logging, JSON text and the terminal interface.
\<close>

end
